(* ===== verification/Prelude.thy ===== *)
theory Prelude
  imports Main "HOL-Library.Word" "HOL-Library.Signed_Division"
begin

text \<open>
  The vocabulary every component of the development shares: the machine integers of the
  Rust sources, results with panics, checked indexing and slice copies, byte order
  conversions, and the parts of Rust's \<^verbatim>\<open>str\<close> and \<^verbatim>\<open>slice\<close> library the sources call
  (\<^verbatim>\<open>from_utf8\<close>, \<^verbatim>\<open>trim\<close>, \<^verbatim>\<open>split\<close>, \<^verbatim>\<open>rfind\<close>, \<^verbatim>\<open>starts_with\<close>, decimal printing).
\<close>

unbundle bit_operations_syntax

section \<open>Machine integers and results\<close>

type_synonym u8 = "8 word"
type_synonym u16 = "16 word"
type_synonym u32 = "32 word"
type_synonym u64 = "64 word"

text \<open>A Rust \<^verbatim>\<open>i64\<close> is the same 64 bits as a \<^verbatim>\<open>u64\<close>, read with \<^term>\<open>sint\<close>.\<close>

type_synonym i64 = "64 word"

text \<open>A Rust string slice is its UTF-8 bytes.\<close>

type_synonym str = "u8 list"

text \<open>
  What a Rust function that returns \<^verbatim>\<open>Result\<close> can do: return a value, return an error,
  or panic (index out of range, arithmetic overflow in a checked build).
\<close>

datatype ('e, 'a) outcome = Ok 'a | Err 'e | Panic

named_theorems byte_simps \<open>conversions between machine integers and byte lists\<close>
named_theorems str_simps \<open>evaluation of the string library\<close>
named_theorems keeps_ok \<open>operations that keep a component's invariant\<close>

section \<open>Byte literals\<close>

text \<open>\<^term>\<open>bytes ''abc''\<close> is the Rust byte string literal \<^verbatim>\<open>b"abc"\<close>.\<close>

definition bytes :: "string \<Rightarrow> u8 list" where
  "bytes s = map of_char s"

lemma bytes_Nil [simp]: "bytes [] = []"
  by (simp add: bytes_def)

lemma bytes_Cons [simp]: "bytes (c # s) = of_char c # bytes s"
  by (simp add: bytes_def)

lemma length_bytes [simp]: "length (bytes s) = length s"
  by (simp add: bytes_def)

section \<open>Checked indexing and slice copies\<close>

text \<open>Rust indexing panics out of range; \<^term>\<open>None\<close> is that panic.\<close>

definition idx :: "'a list \<Rightarrow> nat \<Rightarrow> 'a option" where
  "idx xs i = (if i < length xs then Some (xs ! i) else None)"

lemma idx_in [simp]: "i < length xs \<Longrightarrow> idx xs i = Some (xs ! i)"
  by (simp add: idx_def)

lemma idx_eq_Some: "idx xs i = Some x \<longleftrightarrow> i < length xs \<and> xs ! i = x"
  by (auto simp: idx_def)

lemma idx_eq_None [simp]: "idx xs i = None \<longleftrightarrow> length xs \<le> i"
  by (auto simp: idx_def)

text \<open>\<^verbatim>\<open>xs[i..i + n]\<close> for a range inside the slice.\<close>

definition sub_slice :: "nat \<Rightarrow> nat \<Rightarrow> 'a list \<Rightarrow> 'a list" where
  "sub_slice i n xs = take n (drop i xs)"

lemma length_sub_slice [simp]: "length (sub_slice i n xs) = min n (length xs - i)"
  by (simp add: sub_slice_def)

lemma sub_slice_full: "i + n \<le> length xs \<Longrightarrow> length (sub_slice i n xs) = n"
  by simp

lemma nth_sub_slice: "k < n \<Longrightarrow> i + k < length xs \<Longrightarrow> sub_slice i n xs ! k = xs ! (i + k)"
  by (simp add: sub_slice_def)

text \<open>\<^verbatim>\<open>xs[i..i + ys.len()].copy_from_slice(ys)\<close> for a range inside the slice.\<close>

definition copy_at :: "nat \<Rightarrow> 'a list \<Rightarrow> 'a list \<Rightarrow> 'a list" where
  "copy_at i ys xs = take i xs @ ys @ drop (i + length ys) xs"

lemma length_copy_at [simp]:
  "i + length ys \<le> length xs \<Longrightarrow> length (copy_at i ys xs) = length xs"
  by (simp add: copy_at_def)

lemma copy_at_Nil [simp]: "copy_at i [] xs = xs"
  by (simp add: copy_at_def)

lemma nth_copy_at:
  "i + length ys \<le> length xs \<Longrightarrow> k < length xs \<Longrightarrow>
   copy_at i ys xs ! k = (if i \<le> k \<and> k < i + length ys then ys ! (k - i) else xs ! k)"
  by (auto simp: copy_at_def nth_append min_def)

lemma sub_slice_copy_at_same [simp]:
  "i + length ys \<le> length xs \<Longrightarrow> n = length ys \<Longrightarrow> sub_slice i n (copy_at i ys xs) = ys"
  by (simp add: sub_slice_def copy_at_def)

lemma sub_slice_copy_at_other:
  assumes "i + length ys \<le> length xs" and "j + n \<le> i \<or> i + length ys \<le> j"
  shows "sub_slice j n (copy_at i ys xs) = sub_slice j n xs"
proof (rule nth_equalityI)
  show "length (sub_slice j n (copy_at i ys xs)) = length (sub_slice j n xs)"
    using assms(1) by simp
next
  fix k assume "k < length (sub_slice j n (copy_at i ys xs))"
  then have "k < n" and "j + k < length xs"
    using assms(1) by auto
  then show "sub_slice j n (copy_at i ys xs) ! k = sub_slice j n xs ! k"
    using assms by (auto simp: nth_sub_slice nth_copy_at)
qed

section \<open>Byte order\<close>

lemma xor_right_cancel [simp]: "(a XOR c = b XOR c) \<longleftrightarrow> (a = (b :: 'a::len word))"
  by (metis xor.assoc xor.right_neutral xor_self_eq)

lemma xor_left_cancel [simp]: "(c XOR a = c XOR b) \<longleftrightarrow> (a = (b :: 'a::len word))"
  by (metis xor.commute xor_right_cancel)

lemma and_0xFF: "(x :: 'a::len word) AND 0xFF = take_bit 8 x"
  by (simp add: take_bit_eq_mask mask_eq_exp_minus_1)

lemma ucast_ucast_byte [simp]:
  "8 \<le> LENGTH('a) \<Longrightarrow> (ucast (ucast (b :: u8) :: 'a::len word) :: u8) = b"
  by (rule bit_word_eqI) (simp add: bit_simps)

text \<open>\<^verbatim>\<open>to_be_bytes\<close>, \<^verbatim>\<open>to_le_bytes\<close> and their inverses, for a value of \<open>n\<close> bytes.\<close>

definition to_le :: "nat \<Rightarrow> 'a::len word \<Rightarrow> u8 list" where
  "to_le n w = map (\<lambda>i. ucast (drop_bit (8 * i) w)) [0..<n]"

definition to_be :: "nat \<Rightarrow> 'a::len word \<Rightarrow> u8 list" where
  "to_be n w = rev (to_le n w)"

fun from_le :: "u8 list \<Rightarrow> 'a::len word" where
  "from_le [] = 0"
| "from_le (b # bs) = ucast b OR push_bit 8 (from_le bs)"

definition from_be :: "u8 list \<Rightarrow> 'a::len word" where
  "from_be bs = from_le (rev bs)"

lemma length_to_le [simp]: "length (to_le n w) = n"
  by (simp add: to_le_def)

lemma length_to_be [simp]: "length (to_be n w) = n"
  by (simp add: to_be_def)

lemma to_le_Suc: "to_le (Suc n) w = ucast w # to_le n (drop_bit 8 w)"
  by (simp add: to_le_def upt_conv_Cons map_Suc_upt [symmetric] add.commute del: upt_Suc)

lemma from_le_to_le_mask: "from_le (to_le n w) = (take_bit (8 * n) w :: 'a::len word)"
proof (induction n arbitrary: w)
  case 0
  then show ?case by (simp add: to_le_def)
next
  case (Suc n)
  show ?case
    unfolding to_le_Suc from_le.simps Suc.IH
  proof (rule bit_word_eqI)
    fix m assume m: "m < LENGTH('a)"
    show "bit (ucast (ucast w :: u8) OR push_bit 8 (take_bit (8 * n) (drop_bit 8 w)) :: 'a word) m
        = bit (take_bit (8 * Suc n) w) m"
    proof (cases "m < 8")
      case True
      then show ?thesis
        using m by (auto simp: bit_simps)
    next
      case False
      then have "8 + (m - 8) = m" by simp
      with False m show ?thesis
        by (auto simp: bit_simps)
    qed
  qed
qed

text \<open>Encoding then decoding is the identity at the value's full width.\<close>

lemma from_le_to_le:
  "LENGTH('a) \<le> 8 * n \<Longrightarrow> from_le (to_le n w) = (w :: 'a::len word)"
  by (simp add: from_le_to_le_mask) (metis bit_take_bit_iff bit_word_eqI less_le_trans)

lemma from_be_to_be:
  "LENGTH('a) \<le> 8 * n \<Longrightarrow> from_be (to_be n w) = (w :: 'a::len word)"
  by (simp add: from_be_def to_be_def from_le_to_le)

lemma from_be_to_be16 [byte_simps]: "from_be (to_be 2 (w :: u16)) = w"
  by (rule from_be_to_be) simp

lemma from_be_to_be64 [byte_simps]: "from_be (to_be 8 (w :: u64)) = w"
  by (rule from_be_to_be) simp

lemma from_le_to_le16 [byte_simps]: "from_le (to_le 2 (w :: u16)) = w"
  by (rule from_le_to_le) simp

lemma from_le_to_le32 [byte_simps]: "from_le (to_le 4 (w :: u32)) = w"
  by (rule from_le_to_le) simp

lemma from_le_to_le64 [byte_simps]: "from_le (to_le 8 (w :: u64)) = w"
  by (rule from_le_to_le) simp

section \<open>Saturating arithmetic\<close>

definition saturating_sub :: "'a::len word \<Rightarrow> 'a word \<Rightarrow> 'a word" where
  "saturating_sub a b = (if b \<le> a then a - b else 0)"

lemma unat_saturating_sub [simp]: "unat (saturating_sub a b) = unat a - unat b"
proof (cases "b \<le> a")
  case True
  then show ?thesis by (simp add: saturating_sub_def unat_sub)
next
  case False
  then have "unat a < unat b" by (simp add: word_less_nat_alt not_le)
  with False show ?thesis by (simp add: saturating_sub_def)
qed

section \<open>Decimal output\<close>

text \<open>\<^verbatim>\<open>write!(w, "{}", v)\<close> for an unsigned and for an \<^verbatim>\<open>i64\<close> value.\<close>

fun dec_nat :: "nat \<Rightarrow> u8 list" where
  "dec_nat n = (if n < 10 then [of_nat (48 + n)]
                else dec_nat (n div 10) @ [of_nat (48 + n mod 10)])"

declare dec_nat.simps [simp del]

definition dec_i64 :: "i64 \<Rightarrow> u8 list" where
  "dec_i64 v = (if sint v < 0 then 45 # dec_nat (nat (- sint v)) else dec_nat (nat (sint v)))"

lemma dec_nat_not_Nil [simp]: "dec_nat n \<noteq> []"
  by (subst dec_nat.simps) simp

section \<open>UTF-8\<close>

text \<open>
  \<^verbatim>\<open>core::str::from_utf8(b).is_ok()\<close>: well-formed sequences of one to four bytes, without
  overlong forms, surrogates or values past U+10FFFF.
\<close>

definition cont :: "u8 \<Rightarrow> bool" where
  "cont b \<longleftrightarrow> 0x80 \<le> b \<and> b \<le> 0xBF"

fun utf8_valid :: "u8 list \<Rightarrow> bool" where
  "utf8_valid [] = True"
| "utf8_valid (a # r) =
     (if a < 0x80 then utf8_valid r
      else if 0xC2 \<le> a \<and> a \<le> 0xDF then
        (case r of b # r' \<Rightarrow> cont b \<and> utf8_valid r' | _ \<Rightarrow> False)
      else if 0xE0 \<le> a \<and> a \<le> 0xEF then
        (case r of b # c # r' \<Rightarrow>
           cont b \<and> (a = 0xE0 \<longrightarrow> 0xA0 \<le> b) \<and> (a = 0xED \<longrightarrow> b \<le> 0x9F) \<and> cont c \<and> utf8_valid r'
         | _ \<Rightarrow> False)
      else if 0xF0 \<le> a \<and> a \<le> 0xF4 then
        (case r of b # c # d # r' \<Rightarrow>
           cont b \<and> (a = 0xF0 \<longrightarrow> 0x90 \<le> b) \<and> (a = 0xF4 \<longrightarrow> b \<le> 0x8F) \<and>
           cont c \<and> cont d \<and> utf8_valid r'
         | _ \<Rightarrow> False)
      else False)"

definition is_ascii :: "u8 list \<Rightarrow> bool" where
  "is_ascii s \<longleftrightarrow> (\<forall>b \<in> set s. b < 0x80)"

lemma utf8_ascii: "is_ascii s \<Longrightarrow> utf8_valid s"
  by (induction s) (auto simp: is_ascii_def)

section \<open>String slices\<close>

text \<open>
  The length of the white-space character a string starts with (0 for none): the code
  points with the Unicode property White\_Space, as \<^verbatim>\<open>char::is_whitespace\<close> has them.
\<close>

fun ws_len :: "str \<Rightarrow> nat" where
  "ws_len [] = 0"
| "ws_len (a # r) =
     (if (9 \<le> a \<and> a \<le> 13) \<or> a = 32 then 1
      else if a = 0xC2 then (case r of b # _ \<Rightarrow> if b = 0x85 \<or> b = 0xA0 then 2 else 0 | _ \<Rightarrow> 0)
      else if a = 0xE1 then (case r of b # c # _ \<Rightarrow> if b = 0x9A \<and> c = 0x80 then 3 else 0 | _ \<Rightarrow> 0)
      else if a = 0xE2 then
        (case r of b # c # _ \<Rightarrow>
           if b = 0x80 \<and> (0x80 \<le> c \<and> c \<le> 0x8A \<or> c = 0xA8 \<or> c = 0xA9 \<or> c = 0xAF) then 3
           else if b = 0x81 \<and> c = 0x9F then 3 else 0
         | _ \<Rightarrow> 0)
      else if a = 0xE3 then (case r of b # c # _ \<Rightarrow> if b = 0x80 \<and> c = 0x80 then 3 else 0 | _ \<Rightarrow> 0)
      else 0)"

lemma ws_len_le: "ws_len s \<le> length s"
  by (cases s) (auto split: list.splits)

function trim_start :: "str \<Rightarrow> str" where
  "trim_start s = (if ws_len s = 0 then s else trim_start (drop (ws_len s) s))"
  by pat_completeness auto
termination
proof (relation "measure length")
  show "wf (measure length)" by simp
next
  fix s :: str assume "ws_len s \<noteq> 0"
  then have "s \<noteq> []" by auto
  with \<open>ws_len s \<noteq> 0\<close> show "(drop (ws_len s) s, s) \<in> measure length"
    by simp
qed

declare trim_start.simps [simp del]

text \<open>
  The end of the string: drop the last character while it is white space, that is, while
  one of the last three suffixes is exactly one white-space character.
\<close>

definition ws_end :: "str \<Rightarrow> nat" where
  "ws_end s =
     (if s \<noteq> [] \<and> ws_len (drop (length s - 1) s) = 1 then 1
      else if 2 \<le> length s \<and> ws_len (drop (length s - 2) s) = 2 then 2
      else if 3 \<le> length s \<and> ws_len (drop (length s - 3) s) = 3 then 3
      else 0)"

lemma ws_end_le: "ws_end s \<le> length s"
  by (auto simp: ws_end_def Suc_le_eq)

function trim_end :: "str \<Rightarrow> str" where
  "trim_end s = (if ws_end s = 0 then s else trim_end (take (length s - ws_end s) s))"
  by pat_completeness auto
termination
proof (relation "measure length")
  show "wf (measure length)" by simp
next
  fix s :: str assume w: "ws_end s \<noteq> 0"
  then have "s \<noteq> []" by (auto simp: ws_end_def)
  with w show "(take (length s - ws_end s) s, s) \<in> measure length"
    by simp
qed

declare trim_end.simps [simp del]

definition trim :: "str \<Rightarrow> str" where
  "trim s = trim_end (trim_start s)"

lemma length_trim_start: "length (trim_start s) \<le> length s"
proof (induction s rule: trim_start.induct)
  case (1 s)
  then show ?case
    by (cases "ws_len s = 0") (auto simp: trim_start.simps [of s])
qed

lemma length_trim_end: "length (trim_end s) \<le> length s"
proof (induction s rule: trim_end.induct)
  case (1 s)
  then show ?case
    by (cases "ws_end s = 0") (auto simp: trim_end.simps [of s])
qed

lemma length_trim: "length (trim s) \<le> length s"
  unfolding trim_def using length_trim_end length_trim_start le_trans by blast

definition starts_with :: "str \<Rightarrow> str \<Rightarrow> bool" where
  "starts_with s p \<longleftrightarrow> take (length p) s = p"

definition ends_with :: "str \<Rightarrow> str \<Rightarrow> bool" where
  "ends_with s p \<longleftrightarrow> length p \<le> length s \<and> drop (length s - length p) s = p"

text \<open>\<^verbatim>\<open>s.rfind(c)\<close> and \<^verbatim>\<open>s.split(c)\<close> for an ASCII character.\<close>

fun rfind :: "str \<Rightarrow> u8 \<Rightarrow> nat option" where
  "rfind [] c = None"
| "rfind (b # s) c =
     (case rfind s c of Some i \<Rightarrow> Some (Suc i) | None \<Rightarrow> if b = c then Some 0 else None)"

fun split_on :: "u8 \<Rightarrow> str \<Rightarrow> str list" where
  "split_on c [] = [[]]"
| "split_on c (b # s) =
     (if b = c then [] # split_on c s
      else case split_on c s of [] \<Rightarrow> [[b]] | p # ps \<Rightarrow> (b # p) # ps)"

lemma rfind_None: "rfind s c = None \<longleftrightarrow> c \<notin> set s"
  by (induction s) (auto split: option.splits)

lemma rfind_Some:
  "rfind s c = Some i \<Longrightarrow> i < length s \<and> s ! i = c \<and> c \<notin> set (drop (Suc i) s)"
  by (induction s arbitrary: i) (auto simp: rfind_None split: option.splits if_splits)

lemma rfind_append:
  "c \<notin> set t \<Longrightarrow> rfind (s @ c # t) c = Some (length s)"
proof (induction s)
  case Nil
  then have "rfind t c = None" by (simp add: rfind_None)
  then show ?case by simp
qed simp

lemma split_on_not_Nil [simp]: "split_on c s \<noteq> []"
  by (cases s) (auto split: list.splits)

lemma split_on_no_sep: "p \<in> set (split_on c s) \<Longrightarrow> c \<notin> set p"
  by (induction s arbitrary: p) (auto split: list.splits if_splits)

lemma sum_split_on: "(\<Sum>p\<leftarrow>split_on c s. length p) + (length (split_on c s) - 1) = length s"
proof (induction s)
  case Nil
  then show ?case by simp
next
  case (Cons b s)
  obtain p ps where ps: "split_on c s = p # ps"
    by (cases "split_on c s") auto
  with Cons show ?case by simp
qed

lemma mod_eq_imp:
  assumes "a mod n = b mod n" and "a \<le> b" and "b < a + n"
  shows "a = (b :: nat)"
proof -
  have "n dvd b - a" using assms(1,2) by (metis mod_eq_dvd_iff_nat)
  moreover have "b - a < n" using assms(2,3) by linarith
  ultimately have "b - a = 0" using nat_dvd_not_less [of "b - a" n] by blast
  with assms(2) show ?thesis by simp
qed

end
