(* ===== verification/Isa.thy ===== *)
theory Isa
  imports Prelude
begin

text \<open>
  The px64 instruction set (\<^verbatim>\<open>pulselang-core/src/isa.rs\<close>): the opcode and native
  function numbers, their names, the resource limits and the tag masks. The opcode and
  native constants are data types with their numbers; \<^verbatim>\<open>match op { ... }\<close> on a byte is
  decoding followed by a case distinction, the wildcard arm being \<^term>\<open>None\<close>.
\<close>

section \<open>Opcodes\<close>

datatype (plugins only: code size) px64_op =
    PX64_OP_NOP | PX64_OP_MOV_IMM | PX64_OP_MOV_REG | PX64_OP_MOV_STR
  | PX64_OP_ADD | PX64_OP_SUB | PX64_OP_MUL | PX64_OP_DIV
  | PX64_OP_MOD | PX64_OP_CMP_EQ | PX64_OP_CMP_NE | PX64_OP_CMP_LT
  | PX64_OP_CMP_LE | PX64_OP_CMP_GT | PX64_OP_CMP_GE | PX64_OP_JMP
  | PX64_OP_JZ | PX64_OP_JNZ | PX64_OP_CALL_NAT | PX64_OP_WITHIN_START
  | PX64_OP_WITHIN_END | PX64_OP_DROP | PX64_OP_HALT | PX64_OP_LDC
  | PX64_OP_ADDI | PX64_OP_SUBI | PX64_OP_AND | PX64_OP_OR
  | PX64_OP_XOR | PX64_OP_SHL | PX64_OP_SHR | PX64_OP_ARR_DEF
  | PX64_OP_ARR_LOAD | PX64_OP_ARR_STORE | PX64_OP_ASSERT | PX64_OP_CALL
  | PX64_OP_RET | PX64_OP_STRUCT_DEF | PX64_OP_STRUCT_LOAD | PX64_OP_STRUCT_STORE
  | PX64_OP_TBL_DEF | PX64_OP_TBL_LOAD | PX64_OP_STREQ | PX64_OP_SPILL_STORE
  | PX64_OP_SPILL_LOAD

primrec op_code :: "px64_op \<Rightarrow> u8" where
  "op_code PX64_OP_NOP = 0"
| "op_code PX64_OP_MOV_IMM = 1"
| "op_code PX64_OP_MOV_REG = 2"
| "op_code PX64_OP_MOV_STR = 3"
| "op_code PX64_OP_ADD = 4"
| "op_code PX64_OP_SUB = 5"
| "op_code PX64_OP_MUL = 6"
| "op_code PX64_OP_DIV = 7"
| "op_code PX64_OP_MOD = 8"
| "op_code PX64_OP_CMP_EQ = 9"
| "op_code PX64_OP_CMP_NE = 10"
| "op_code PX64_OP_CMP_LT = 11"
| "op_code PX64_OP_CMP_LE = 12"
| "op_code PX64_OP_CMP_GT = 13"
| "op_code PX64_OP_CMP_GE = 14"
| "op_code PX64_OP_JMP = 15"
| "op_code PX64_OP_JZ = 16"
| "op_code PX64_OP_JNZ = 17"
| "op_code PX64_OP_CALL_NAT = 18"
| "op_code PX64_OP_WITHIN_START = 19"
| "op_code PX64_OP_WITHIN_END = 20"
| "op_code PX64_OP_DROP = 21"
| "op_code PX64_OP_HALT = 22"
| "op_code PX64_OP_LDC = 23"
| "op_code PX64_OP_ADDI = 24"
| "op_code PX64_OP_SUBI = 25"
| "op_code PX64_OP_AND = 26"
| "op_code PX64_OP_OR = 27"
| "op_code PX64_OP_XOR = 28"
| "op_code PX64_OP_SHL = 29"
| "op_code PX64_OP_SHR = 30"
| "op_code PX64_OP_ARR_DEF = 31"
| "op_code PX64_OP_ARR_LOAD = 32"
| "op_code PX64_OP_ARR_STORE = 33"
| "op_code PX64_OP_ASSERT = 34"
| "op_code PX64_OP_CALL = 35"
| "op_code PX64_OP_RET = 36"
| "op_code PX64_OP_STRUCT_DEF = 37"
| "op_code PX64_OP_STRUCT_LOAD = 38"
| "op_code PX64_OP_STRUCT_STORE = 39"
| "op_code PX64_OP_TBL_DEF = 40"
| "op_code PX64_OP_TBL_LOAD = 41"
| "op_code PX64_OP_STREQ = 42"
| "op_code PX64_OP_SPILL_STORE = 43"
| "op_code PX64_OP_SPILL_LOAD = 44"

definition px64_ops :: "px64_op list" where
  "px64_ops =
    [PX64_OP_NOP, PX64_OP_MOV_IMM, PX64_OP_MOV_REG, PX64_OP_MOV_STR,
     PX64_OP_ADD, PX64_OP_SUB, PX64_OP_MUL, PX64_OP_DIV,
     PX64_OP_MOD, PX64_OP_CMP_EQ, PX64_OP_CMP_NE, PX64_OP_CMP_LT,
     PX64_OP_CMP_LE, PX64_OP_CMP_GT, PX64_OP_CMP_GE, PX64_OP_JMP,
     PX64_OP_JZ, PX64_OP_JNZ, PX64_OP_CALL_NAT, PX64_OP_WITHIN_START,
     PX64_OP_WITHIN_END, PX64_OP_DROP, PX64_OP_HALT, PX64_OP_LDC,
     PX64_OP_ADDI, PX64_OP_SUBI, PX64_OP_AND, PX64_OP_OR,
     PX64_OP_XOR, PX64_OP_SHL, PX64_OP_SHR, PX64_OP_ARR_DEF,
     PX64_OP_ARR_LOAD, PX64_OP_ARR_STORE, PX64_OP_ASSERT, PX64_OP_CALL,
     PX64_OP_RET, PX64_OP_STRUCT_DEF, PX64_OP_STRUCT_LOAD, PX64_OP_STRUCT_STORE,
     PX64_OP_TBL_DEF, PX64_OP_TBL_LOAD, PX64_OP_STREQ, PX64_OP_SPILL_STORE,
     PX64_OP_SPILL_LOAD]"

definition decode_op :: "u8 \<Rightarrow> px64_op option" where
  "decode_op b = idx px64_ops (unat b)"

primrec op_mnemonic :: "px64_op \<Rightarrow> string" where
  "op_mnemonic PX64_OP_NOP = ''NOP''"
| "op_mnemonic PX64_OP_MOV_IMM = ''MOV''"
| "op_mnemonic PX64_OP_MOV_REG = ''MOV''"
| "op_mnemonic PX64_OP_MOV_STR = ''MOVS''"
| "op_mnemonic PX64_OP_ADD = ''ADD''"
| "op_mnemonic PX64_OP_SUB = ''SUB''"
| "op_mnemonic PX64_OP_MUL = ''MUL''"
| "op_mnemonic PX64_OP_DIV = ''DIV''"
| "op_mnemonic PX64_OP_MOD = ''MOD''"
| "op_mnemonic PX64_OP_CMP_EQ = ''CMPEQ''"
| "op_mnemonic PX64_OP_CMP_NE = ''CMPNE''"
| "op_mnemonic PX64_OP_CMP_LT = ''CMPLT''"
| "op_mnemonic PX64_OP_CMP_LE = ''CMPLE''"
| "op_mnemonic PX64_OP_CMP_GT = ''CMPGT''"
| "op_mnemonic PX64_OP_CMP_GE = ''CMPGE''"
| "op_mnemonic PX64_OP_JMP = ''JMP''"
| "op_mnemonic PX64_OP_JZ = ''JZ''"
| "op_mnemonic PX64_OP_JNZ = ''JNZ''"
| "op_mnemonic PX64_OP_CALL_NAT = ''CALL_NAT''"
| "op_mnemonic PX64_OP_WITHIN_START = ''WITHIN_START''"
| "op_mnemonic PX64_OP_WITHIN_END = ''WITHIN_END''"
| "op_mnemonic PX64_OP_DROP = ''DROP''"
| "op_mnemonic PX64_OP_HALT = ''HALT''"
| "op_mnemonic PX64_OP_LDC = ''LDC''"
| "op_mnemonic PX64_OP_ADDI = ''ADDI''"
| "op_mnemonic PX64_OP_SUBI = ''SUBI''"
| "op_mnemonic PX64_OP_AND = ''AND''"
| "op_mnemonic PX64_OP_OR = ''OR''"
| "op_mnemonic PX64_OP_XOR = ''XOR''"
| "op_mnemonic PX64_OP_SHL = ''SHL''"
| "op_mnemonic PX64_OP_SHR = ''SHR''"
| "op_mnemonic PX64_OP_ARR_DEF = ''ARR_DEF''"
| "op_mnemonic PX64_OP_ARR_LOAD = ''ARR_LOAD''"
| "op_mnemonic PX64_OP_ARR_STORE = ''ARR_STORE''"
| "op_mnemonic PX64_OP_ASSERT = ''ASSERT''"
| "op_mnemonic PX64_OP_CALL = ''CALL''"
| "op_mnemonic PX64_OP_RET = ''RET''"
| "op_mnemonic PX64_OP_STRUCT_DEF = ''STRUCT_DEF''"
| "op_mnemonic PX64_OP_STRUCT_LOAD = ''STRUCT_LOAD''"
| "op_mnemonic PX64_OP_STRUCT_STORE = ''STRUCT_STORE''"
| "op_mnemonic PX64_OP_TBL_DEF = ''TBL_DEF''"
| "op_mnemonic PX64_OP_TBL_LOAD = ''TBL_LOAD''"
| "op_mnemonic PX64_OP_STREQ = ''STREQ''"
| "op_mnemonic PX64_OP_SPILL_STORE = ''SPILL_STORE''"
| "op_mnemonic PX64_OP_SPILL_LOAD = ''SPILL_LOAD''"

definition px64_op_name :: "u8 \<Rightarrow> string" where
  "px64_op_name b = (case decode_op b of Some op \<Rightarrow> op_mnemonic op | None \<Rightarrow> ''UNKNOWN_OP'')"

section \<open>Native functions\<close>

datatype (plugins only: code size) native =
    NATIVE_PRINT | NATIVE_PRINTLN | NATIVE_SYS_TSC | NATIVE_NET_RTT
  | NATIVE_NET_SET_RATE | NATIVE_GPU_CAPTURE | NATIVE_NET_SEND | NATIVE_SCRIPT_ARGC
  | NATIVE_SCRIPT_ARG | NATIVE_TAG_OK | NATIVE_TAG_ERR | NATIVE_IS_OK
  | NATIVE_IS_ERR | NATIVE_UNWRAP | NATIVE_STREQ | NATIVE_CORE_ID
  | NATIVE_TSC_FREQ | NATIVE_UPTIME_NS | NATIVE_BUSY_WAIT | NATIVE_RING_DEPTH
  | NATIVE_MATH_MIN | NATIVE_MATH_MAX | NATIVE_MATH_ABS | NATIVE_MATH_CLAMP
  | NATIVE_BIT_POPCNT | NATIVE_BIT_LZCNT | NATIVE_CRC32 | NATIVE_VRAM_READ
  | NATIVE_VRAM_WRITE | NATIVE_FIX_TO_FIX | NATIVE_FIX_TO_I64 | NATIVE_FIX_MUL
  | NATIVE_FIX_DIV | NATIVE_DROP | NATIVE_TERM_RAW | NATIVE_TERM_READ_KEY
  | NATIVE_TERM_SIZE | NATIVE_FILE_READ | NATIVE_FILE_WRITE | NATIVE_FILE_EXISTS
  | NATIVE_STR_LEN | NATIVE_CHAR_AT

primrec native_code :: "native \<Rightarrow> u8" where
  "native_code NATIVE_PRINT = 1"
| "native_code NATIVE_PRINTLN = 2"
| "native_code NATIVE_SYS_TSC = 3"
| "native_code NATIVE_NET_RTT = 4"
| "native_code NATIVE_NET_SET_RATE = 5"
| "native_code NATIVE_GPU_CAPTURE = 6"
| "native_code NATIVE_NET_SEND = 7"
| "native_code NATIVE_SCRIPT_ARGC = 8"
| "native_code NATIVE_SCRIPT_ARG = 9"
| "native_code NATIVE_TAG_OK = 10"
| "native_code NATIVE_TAG_ERR = 11"
| "native_code NATIVE_IS_OK = 12"
| "native_code NATIVE_IS_ERR = 13"
| "native_code NATIVE_UNWRAP = 14"
| "native_code NATIVE_STREQ = 15"
| "native_code NATIVE_CORE_ID = 16"
| "native_code NATIVE_TSC_FREQ = 17"
| "native_code NATIVE_UPTIME_NS = 18"
| "native_code NATIVE_BUSY_WAIT = 19"
| "native_code NATIVE_RING_DEPTH = 20"
| "native_code NATIVE_MATH_MIN = 21"
| "native_code NATIVE_MATH_MAX = 22"
| "native_code NATIVE_MATH_ABS = 23"
| "native_code NATIVE_MATH_CLAMP = 24"
| "native_code NATIVE_BIT_POPCNT = 25"
| "native_code NATIVE_BIT_LZCNT = 26"
| "native_code NATIVE_CRC32 = 27"
| "native_code NATIVE_VRAM_READ = 28"
| "native_code NATIVE_VRAM_WRITE = 29"
| "native_code NATIVE_FIX_TO_FIX = 30"
| "native_code NATIVE_FIX_TO_I64 = 31"
| "native_code NATIVE_FIX_MUL = 32"
| "native_code NATIVE_FIX_DIV = 33"
| "native_code NATIVE_DROP = 34"
| "native_code NATIVE_TERM_RAW = 35"
| "native_code NATIVE_TERM_READ_KEY = 36"
| "native_code NATIVE_TERM_SIZE = 37"
| "native_code NATIVE_FILE_READ = 38"
| "native_code NATIVE_FILE_WRITE = 39"
| "native_code NATIVE_FILE_EXISTS = 40"
| "native_code NATIVE_STR_LEN = 41"
| "native_code NATIVE_CHAR_AT = 42"

definition natives :: "native list" where
  "natives =
    [NATIVE_PRINT, NATIVE_PRINTLN, NATIVE_SYS_TSC, NATIVE_NET_RTT,
     NATIVE_NET_SET_RATE, NATIVE_GPU_CAPTURE, NATIVE_NET_SEND, NATIVE_SCRIPT_ARGC,
     NATIVE_SCRIPT_ARG, NATIVE_TAG_OK, NATIVE_TAG_ERR, NATIVE_IS_OK,
     NATIVE_IS_ERR, NATIVE_UNWRAP, NATIVE_STREQ, NATIVE_CORE_ID,
     NATIVE_TSC_FREQ, NATIVE_UPTIME_NS, NATIVE_BUSY_WAIT, NATIVE_RING_DEPTH,
     NATIVE_MATH_MIN, NATIVE_MATH_MAX, NATIVE_MATH_ABS, NATIVE_MATH_CLAMP,
     NATIVE_BIT_POPCNT, NATIVE_BIT_LZCNT, NATIVE_CRC32, NATIVE_VRAM_READ,
     NATIVE_VRAM_WRITE, NATIVE_FIX_TO_FIX, NATIVE_FIX_TO_I64, NATIVE_FIX_MUL,
     NATIVE_FIX_DIV, NATIVE_DROP, NATIVE_TERM_RAW, NATIVE_TERM_READ_KEY,
     NATIVE_TERM_SIZE, NATIVE_FILE_READ, NATIVE_FILE_WRITE, NATIVE_FILE_EXISTS,
     NATIVE_STR_LEN, NATIVE_CHAR_AT]"

definition decode_native :: "u8 \<Rightarrow> native option" where
  "decode_native b = (if b = 0 then None else idx natives (unat b - 1))"

primrec native_intrinsic :: "native \<Rightarrow> string" where
  "native_intrinsic NATIVE_PRINT = ''@print''"
| "native_intrinsic NATIVE_PRINTLN = ''@println''"
| "native_intrinsic NATIVE_SYS_TSC = ''@tsc''"
| "native_intrinsic NATIVE_NET_RTT = ''@rtt''"
| "native_intrinsic NATIVE_NET_SET_RATE = ''@rate''"
| "native_intrinsic NATIVE_GPU_CAPTURE = ''@capture''"
| "native_intrinsic NATIVE_NET_SEND = ''@send''"
| "native_intrinsic NATIVE_SCRIPT_ARGC = ''@argc''"
| "native_intrinsic NATIVE_SCRIPT_ARG = ''@arg''"
| "native_intrinsic NATIVE_TAG_OK = ''@ok''"
| "native_intrinsic NATIVE_TAG_ERR = ''@err''"
| "native_intrinsic NATIVE_IS_OK = ''@is_ok''"
| "native_intrinsic NATIVE_IS_ERR = ''@is_err''"
| "native_intrinsic NATIVE_UNWRAP = ''@unwrap''"
| "native_intrinsic NATIVE_STREQ = ''@streq''"
| "native_intrinsic NATIVE_CORE_ID = ''@core_id''"
| "native_intrinsic NATIVE_TSC_FREQ = ''@tsc_freq''"
| "native_intrinsic NATIVE_UPTIME_NS = ''@uptime_ns''"
| "native_intrinsic NATIVE_BUSY_WAIT = ''@busy_wait''"
| "native_intrinsic NATIVE_RING_DEPTH = ''@ring_depth''"
| "native_intrinsic NATIVE_MATH_MIN = ''@min''"
| "native_intrinsic NATIVE_MATH_MAX = ''@max''"
| "native_intrinsic NATIVE_MATH_ABS = ''@abs''"
| "native_intrinsic NATIVE_MATH_CLAMP = ''@clamp''"
| "native_intrinsic NATIVE_BIT_POPCNT = ''@popcnt''"
| "native_intrinsic NATIVE_BIT_LZCNT = ''@lzcnt''"
| "native_intrinsic NATIVE_CRC32 = ''@crc32''"
| "native_intrinsic NATIVE_VRAM_READ = ''@vram_read''"
| "native_intrinsic NATIVE_VRAM_WRITE = ''@vram_write''"
| "native_intrinsic NATIVE_FIX_TO_FIX = ''@to_fix''"
| "native_intrinsic NATIVE_FIX_TO_I64 = ''@to_i64''"
| "native_intrinsic NATIVE_FIX_MUL = ''@fix_mul''"
| "native_intrinsic NATIVE_FIX_DIV = ''@fix_div''"
| "native_intrinsic NATIVE_DROP = ''@release''"
| "native_intrinsic NATIVE_TERM_RAW = ''@term_raw''"
| "native_intrinsic NATIVE_TERM_READ_KEY = ''@term_read_key''"
| "native_intrinsic NATIVE_TERM_SIZE = ''@term_size''"
| "native_intrinsic NATIVE_FILE_READ = ''@file_read''"
| "native_intrinsic NATIVE_FILE_WRITE = ''@file_write''"
| "native_intrinsic NATIVE_FILE_EXISTS = ''@file_exists''"
| "native_intrinsic NATIVE_STR_LEN = ''@str_len''"
| "native_intrinsic NATIVE_CHAR_AT = ''@char_at''"

definition px64_native_name :: "u8 \<Rightarrow> string" where
  "px64_native_name b =
     (case decode_native b of Some f \<Rightarrow> native_intrinsic f | None \<Rightarrow> ''@native'')"

section \<open>Registers\<close>

definition px64_reg_names :: "string list" where
  "px64_reg_names =
    [''$rax'', ''$rcx'', ''$rdx'', ''$rbx'', ''$rsp'', ''$rbp'', ''$rsi'', ''$rdi'',
     ''$r8'', ''$r9'', ''$r10'', ''$r11'', ''$r12'', ''$r13'', ''$r14'', ''$r15'',
     ''#f0'', ''#f1'', ''#f2'', ''#f3'']"

definition px64_reg_name :: "u8 \<Rightarrow> string" where
  "px64_reg_name r = (case idx px64_reg_names (unat r) of Some n \<Rightarrow> n | None \<Rightarrow> ''$unk'')"

section \<open>Container constants, limits and tags\<close>

definition PX64_BIN_MAGIC :: "u8 list" where
  "PX64_BIN_MAGIC = bytes ''PX64''"

definition PX64_BIN_VERSION :: u16 where
  "PX64_BIN_VERSION = 3"

abbreviation (input) PX64_HEADER_SIZE :: nat where
  "PX64_HEADER_SIZE \<equiv> 16"

abbreviation (input) PX64_NUM_REGISTERS :: nat where
  "PX64_NUM_REGISTERS \<equiv> 20"

abbreviation (input) MAX_CONST_POOL :: nat where
  "MAX_CONST_POOL \<equiv> 64"

abbreviation (input) MAX_BYTECODE_SIZE :: nat where
  "MAX_BYTECODE_SIZE \<equiv> 4096"

abbreviation (input) MAX_STRING_POOL :: nat where
  "MAX_STRING_POOL \<equiv> 512"

abbreviation (input) MAX_TOKENS :: nat where
  "MAX_TOKENS \<equiv> 2048"

abbreviation (input) MAX_VM_STEPS :: nat where
  "MAX_VM_STEPS \<equiv> 10000"

abbreviation (input) MAX_CALL_DEPTH :: nat where
  "MAX_CALL_DEPTH \<equiv> 8"

definition STR_TAG :: i64 where
  "STR_TAG = 0x4000000000000000"

definition ARG_TAG :: i64 where
  "ARG_TAG = 0x2000000000000000"

definition ERR_TAG :: i64 where
  "ERR_TAG = 0x1000000000000000"

section \<open>The encodings are unambiguous\<close>

lemma length_px64_ops [simp]: "length px64_ops = 45"
  by (simp add: px64_ops_def)

lemma length_natives [simp]: "length natives = 42"
  by (simp add: natives_def)

lemma decode_op_code [simp]: "decode_op (op_code op) = Some op"
  by (cases op) (simp_all add: decode_op_def px64_ops_def)

lemma decode_native_code [simp]: "decode_native (native_code f) = Some f"
  by (cases f) (simp_all add: decode_native_def natives_def)

lemma map_op_code: "map op_code px64_ops = map of_nat [0..<45]"
  by (simp add: px64_ops_def upt_rec)

lemma map_native_code: "map native_code natives = map of_nat [1..<43]"
  by (simp add: natives_def upt_rec)

lemma decode_op_Some: "decode_op b = Some op \<longleftrightarrow> b = op_code op"
proof
  assume "decode_op b = Some op"
  then have "unat b < length px64_ops" and op: "op = px64_ops ! unat b"
    by (auto simp: decode_op_def idx_eq_Some)
  then have "unat b < 45" by simp
  then have "op_code op = map of_nat [0..<45] ! unat b"
    using op by (simp flip: map_op_code)
  with \<open>unat b < 45\<close> have "op_code op = of_nat (unat b)"
    by simp
  then show "b = op_code op" by simp
qed simp

lemma decode_op_None: "decode_op b = None \<longleftrightarrow> 45 \<le> unat b"
  by (simp add: decode_op_def)

lemma decode_native_Some: "decode_native b = Some f \<longleftrightarrow> b = native_code f"
proof
  assume *: "decode_native b = Some f"
  then have b: "b \<noteq> 0" and i: "unat b - 1 < 42" and f: "f = natives ! (unat b - 1)"
    by (auto simp: decode_native_def idx_eq_Some split: if_splits)
  have s: "1 + (unat b - 1) = unat b"
    using b by (simp add: Suc_leI unat_gt_0)
  have "native_code f = map native_code natives ! (unat b - 1)"
    using f i by simp
  also have "\<dots> = map of_nat [1..<43] ! (unat b - 1)"
    by (simp only: map_native_code)
  also have "\<dots> = of_nat (1 + (unat b - 1))"
    using i by (simp del: of_nat_add of_nat_Suc)
  finally show "b = native_code f"
    unfolding s by simp
qed simp

end
