(* ===== verification/Token.thy ===== *)
theory Token
  imports Isa
begin

text \<open>
  Tokens and source positions (\<^verbatim>\<open>pulselang-core/src/token.rs\<close>) and the diagnostic record
  every fallible operation returns (\<^verbatim>\<open>pulselang-core/src/error.rs\<close>). The
  variants of \<open>TokenKind\<close> are grouped as the source groups them, keywords, directives and
  symbols each in a type of their own, with the prefixes \<open>Kw\<close>, \<open>At\<close>, \<open>Sym\<close> and
  \<open>Tk\<close>, since \<open>Let\<close>, \<open>If\<close>, \<open>Or\<close> and others are HOL constants.
\<close>

section \<open>Tokens\<close>

datatype (plugins only: code size) keyword =
    KwLet | KwMut | KwMatch | KwIf | KwElse | KwWhile
  | KwWithin | KwOr | KwDrop | KwPipeline | KwTask | KwStage
  | KwCore | KwZeroCopy | KwHardware | KwInput | KwOutput | KwOn
  | KwEmit | KwReturn | KwBudget | KwFor | KwIn | KwFn
  | KwStruct | KwConst | KwEnum | KwFixed | KwI64 | KwU8
  | KwU16 | KwU32 | KwU64

datatype (plugins only: code size) directive =
    AtContract | AtPipeline | AtBudget | AtWcet | AtWithin | AtWhile
  | AtFor | AtLoop | AtOnVblank | AtAssert | AtRequires | AtEnsures
  | AtInvariant | AtPoolSize | AtTest | AtImport

datatype (plugins only: code size) symbol =
    SymColonEq | SymPlusEq | SymMinusEq | SymQuestion | SymPipe | SymPipeSingle
  | SymPlus | SymMinus | SymStar | SymSlash | SymPercent | SymEq
  | SymEqEq | SymNotEq | SymLt | SymLtEq | SymShl | SymGt
  | SymGtEq | SymShr | SymAnd | SymAmp | SymCaret | SymOrOp
  | SymSemi | SymColon | SymColonColon | SymComma | SymDot | SymDotDot
  | SymArrow | SymFatArrow | SymUnderscore | SymLParen | SymRParen | SymLBrace
  | SymRBrace | SymLBracket | SymRBracket | SymExclamation

datatype TokenKind =
    TkKeyword keyword
  | TkDirective directive
  | TkIdent | TkVarIdent | TkHardwareIdent | TkIntrinsicIdent
  | TkNumber i64
  | TkFloatLit i64 u8
  | TkTimeLiteral u64
  | TkStringLit
  | TkSymbol symbol
  | TkEof

record Token =
  kind :: TokenKind
  tok_start :: nat
  tok_len :: nat
  tok_line :: nat
  tok_col :: nat

definition empty_token :: Token where
  "empty_token = \<lparr>kind = TkEof, tok_start = 0, tok_len = 0, tok_line = 1, tok_col = 1\<rparr>"

section \<open>Positions\<close>

text \<open>The loop of \<^verbatim>\<open>get_line_and_col\<close>: \<open>i\<close> runs over the first \<open>limit\<close> bytes.\<close>

fun line_scan :: "u8 list \<Rightarrow> nat \<Rightarrow> nat \<Rightarrow> nat \<Rightarrow> nat \<times> nat" where
  "line_scan [] i line line_start = (line, line_start)"
| "line_scan (b # bs) i line line_start =
     (if b = 10 then line_scan bs (i + 1) (line + 1) (i + 1)
      else line_scan bs (i + 1) line line_start)"

definition get_line_and_col :: "u8 list \<Rightarrow> nat \<Rightarrow> nat \<times> nat" where
  "get_line_and_col src pos =
     (let limit = min pos (length src);
          (line, line_start) = line_scan (take limit src) 0 1 0
      in (line, (limit - line_start) + 1))"

lemma line_scan_line:
  "fst (line_scan bs i line ls) = line + count_list bs 10"
  by (induction bs arbitrary: i line ls) auto

lemma line_scan_start:
  "snd (line_scan bs i line ls) =
     (case rfind bs 10 of Some k \<Rightarrow> i + k + 1 | None \<Rightarrow> ls)"
  by (induction bs arbitrary: i line ls) (auto split: option.splits)

section \<open>Diagnostics\<close>

record CompileError =
  code :: string
  message :: string
  err_line :: nat
  err_col :: nat
  byte_offset :: nat
  token_kind :: TokenKind
  token_len :: nat
  expected :: string
  stage :: string
  suggestion :: string

definition simple :: "string \<Rightarrow> string \<Rightarrow> CompileError" where
  "simple c m =
     \<lparr>code = c, message = m, err_line = 1, err_col = 1, byte_offset = 0, token_kind = TkEof,
      token_len = 0, expected = ''Valid bytecode or script syntax'',
      stage = ''Execution / Validation'', suggestion = ''Check file format and integrity''\<rparr>"

definition has_prefix :: "string \<Rightarrow> string \<Rightarrow> bool" where
  "has_prefix p s \<longleftrightarrow> take (length p) s = p"

fun contains :: "string \<Rightarrow> string \<Rightarrow> bool" where
  "contains p [] = (p = [])"
| "contains p (c # s) = (has_prefix p (c # s) \<or> contains p s)"

definition is_runtime :: "CompileError \<Rightarrow> bool" where
  "is_runtime e \<longleftrightarrow>
     has_prefix ''ERR_PX64_'' (code e) \<or> has_prefix ''ERR_BINARY_'' (code e) \<or>
     has_prefix ''ERR_VM_'' (code e)"

definition category :: "CompileError \<Rightarrow> string" where
  "category e =
     (if contains ''SYNTAX'' (code e) \<or> contains ''TOKEN'' (code e) \<or>
         contains ''UNEXPECTED'' (code e) then ''syntax''
      else if contains ''TYPE'' (code e) \<or> contains ''MUTABILITY'' (code e) then ''type''
      else if contains ''LINEAR'' (code e) then ''linear_ownership''
      else if contains ''WCET'' (code e) \<or> contains ''BUDGET'' (code e) \<or>
         contains ''TIMEOUT'' (code e) then ''wcet''
      else if is_runtime e then ''runtime''
      else ''semantic'')"

definition repairability :: "CompileError \<Rightarrow> string" where
  "repairability e =
     (if code e \<in> {''ERR_RUNTIME_NOT_IMPORTED'', ''ERR_MISSING_CONTRACT''} then ''safe_patch''
      else if code e \<in> {''ERR_LINEAR_UNCONSUMED_HANDLE'', ''ERR_LINEAR_DOUBLE_SEND'',
         ''ERR_UNBOUNDED_LOOP''} then ''requires_decision''
      else ''suggestion'')"

lemma code_simple [simp]: "code (simple c m) = c"
  by (simp add: simple_def)

end
