(* ===== verification/Crc32.thy ===== *)
theory Crc32
  imports Prelude
begin

text \<open>
  The table-driven CRC-32 of \<^verbatim>\<open>pulselang-core/src/vm.rs\<close> (the kernel's
  \<^verbatim>\<open>gpu.rs\<close> holds the same table and loop for its frame integrity check), its equivalence
  with the bitwise definition of the checksum, and what it detects.
\<close>

section \<open>The code\<close>

definition crc_shift :: "u32 \<Rightarrow> u32" where
  "crc_shift crc =
     (if crc AND 1 \<noteq> 0 then drop_bit 1 crc XOR 0xEDB88320 else drop_bit 1 crc)"

definition CRC32_TABLE :: "u32 list" where
  "CRC32_TABLE = map (\<lambda>i. (crc_shift ^^ 8) (of_nat i)) [0..<256]"

definition crc_update :: "u32 \<Rightarrow> u8 \<Rightarrow> u32" where
  "crc_update crc byte =
     (let i = unat ((crc XOR ucast byte) AND 0xFF)
      in drop_bit 8 crc XOR CRC32_TABLE ! i)"

definition compute_crc32 :: "u8 list \<Rightarrow> u32" where
  "compute_crc32 data = NOT (foldl crc_update 0xFFFFFFFF data)"

section \<open>The bitwise reference\<close>

definition crc_byte_ref :: "u32 \<Rightarrow> u8 \<Rightarrow> u32" where
  "crc_byte_ref crc byte = (crc_shift ^^ 8) (crc XOR ucast byte)"

definition crc32_ref :: "u8 list \<Rightarrow> u32" where
  "crc32_ref data = NOT (foldl crc_byte_ref 0xFFFFFFFF data)"

section \<open>One shift is linear and injective\<close>

lemma and_1_iff: "(x :: u32) AND 1 \<noteq> 0 \<longleftrightarrow> bit x 0"
  by (simp add: and_one_eq odd_iff_mod_2_eq_one bit_0)

lemma crc_shift_bit:
  "crc_shift x = drop_bit 1 x XOR (if bit x 0 then 0xEDB88320 else 0)"
  by (simp only: crc_shift_def and_1_iff) simp

lemma crc_shift_xor: "crc_shift (x XOR y) = crc_shift x XOR crc_shift y"
  by (auto simp: crc_shift_bit bit_xor_iff drop_bit_xor ac_simps)

lemma crc_shift_pow_xor:
  "(crc_shift ^^ n) (x XOR y) = (crc_shift ^^ n) x XOR (crc_shift ^^ n) y"
  by (induction n) (auto simp: crc_shift_xor)

text \<open>The polynomial's top bit records the bit that was shifted out.\<close>

lemma crc_shift_top: "bit (crc_shift x) 31 \<longleftrightarrow> bit x 0"
proof -
  have "\<not> bit (drop_bit 1 x) 31"
    by (simp add: bit_drop_bit_eq impossible_bit)
  moreover have "bit (0xEDB88320 :: u32) 31"
    by simp
  ultimately show ?thesis
    by (simp add: crc_shift_bit bit_xor_iff)
qed

lemma inj_crc_shift: "inj crc_shift"
proof (rule injI)
  fix x y assume eq: "crc_shift x = crc_shift y"
  then have b0: "bit x 0 \<longleftrightarrow> bit y 0"
    using crc_shift_top by metis
  with eq have d: "drop_bit 1 x = drop_bit 1 y"
    by (simp add: crc_shift_bit split: if_splits)
  show "x = y"
  proof (rule bit_word_eqI)
    fix n :: nat
    show "bit x n = bit y n"
    proof (cases n)
      case 0
      then show ?thesis using b0 by simp
    next
      case (Suc m)
      have "bit (drop_bit 1 x) m = bit (drop_bit 1 y) m" using d by simp
      then show ?thesis using Suc by (simp add: bit_drop_bit_eq)
    qed
  qed
qed

lemma inj_crc_shift_pow: "inj (crc_shift ^^ n)"
  by (induction n) (auto intro: inj_compose [OF inj_crc_shift] simp: inj_on_def inj_eq [OF inj_crc_shift])

text \<open>On a value whose low bits are clear, shifting is a plain shift.\<close>

lemma crc_shift_pow_clear:
  "(\<forall>i < n. \<not> bit x i) \<Longrightarrow> (crc_shift ^^ n) x = drop_bit n x"
proof (induction n)
  case 0
  then show ?case by simp
next
  case (Suc n)
  then have "(crc_shift ^^ n) x = drop_bit n x" by simp
  moreover have "\<not> bit (drop_bit n x) 0"
    using Suc.prems by (simp add: bit_drop_bit_eq)
  ultimately show ?case
    by (simp add: crc_shift_bit [of "drop_bit n x"])
qed

section \<open>The table is eight shifts\<close>

lemma crc_shift8_split:
  "(crc_shift ^^ 8) x = drop_bit 8 x XOR (crc_shift ^^ 8) (x AND 0xFF)"
proof -
  let ?hi = "x XOR take_bit 8 x"
  have split: "x = ?hi XOR take_bit 8 x"
    by (simp add: xor.assoc)
  have clear: "\<forall>i < 8. \<not> bit ?hi i"
    by (simp add: bit_simps)
  have hi: "drop_bit 8 ?hi = drop_bit 8 x"
    by (simp add: drop_bit_xor drop_bit_take_bit)
  have "(crc_shift ^^ 8) x = (crc_shift ^^ 8) (?hi XOR take_bit 8 x)"
    using split by simp
  also have "\<dots> = drop_bit 8 ?hi XOR (crc_shift ^^ 8) (take_bit 8 x)"
    by (simp only: crc_shift_pow_xor [of 8 ?hi "take_bit 8 x"] crc_shift_pow_clear [OF clear])
  finally show ?thesis
    by (simp only: hi and_0xFF)
qed

lemma low_byte_less: "unat ((x :: u32) AND 0xFF) < 256"
proof -
  have "unat (x AND 0xFF) \<le> unat (0xFF :: u32)"
    by (rule word_and_le1 [THEN word_le_nat_alt [THEN iffD1]])
  then show ?thesis by simp
qed

lemma crc_table_nth:
  "CRC32_TABLE ! unat ((x :: u32) AND 0xFF) = (crc_shift ^^ 8) (x AND 0xFF)"
  using low_byte_less [of x] by (simp add: CRC32_TABLE_def del: funpow.simps)

lemma drop8_xor_byte: "drop_bit 8 (crc XOR ucast (b :: u8) :: u32) = drop_bit 8 crc"
proof -
  have "drop_bit 8 (ucast b :: u32) = 0"
    by (rule bit_word_eqI) (auto simp: bit_simps dest: bit_imp_le_length)
  then show ?thesis by (simp add: drop_bit_xor)
qed

lemma crc_update_ref: "crc_update crc b = crc_byte_ref crc b"
  unfolding crc_update_def crc_byte_ref_def Let_def crc_table_nth
  by (subst (2) crc_shift8_split) (simp only: drop8_xor_byte)

lemma crc_update_eq: "crc_update = crc_byte_ref"
  by (intro ext crc_update_ref)

section \<open>Error detection\<close>

lemma crc_update_inj_state: "crc_update x b = crc_update y b \<Longrightarrow> x = y"
proof -
  assume "crc_update x b = crc_update y b"
  then have "x XOR ucast b = y XOR ucast b"
    unfolding crc_update_ref crc_byte_ref_def by (rule injD [OF inj_crc_shift_pow])
  then show "x = y" by simp
qed

lemma crc_update_inj_byte: "crc_update x a = crc_update x b \<Longrightarrow> a = b"
proof -
  assume "crc_update x a = crc_update x b"
  then have "x XOR ucast a = x XOR (ucast b :: u32)"
    unfolding crc_update_ref crc_byte_ref_def by (rule injD [OF inj_crc_shift_pow])
  then have "(ucast a :: u32) = ucast b" by simp
  then have "(ucast (ucast a :: u32) :: u8) = ucast (ucast b :: u32)" by simp
  then show "a = b" by simp
qed

lemma crc_fold_inj_state: "foldl crc_update x d = foldl crc_update y d \<Longrightarrow> x = y"
  by (induction d arbitrary: x y) (auto dest: crc_update_inj_state)

section \<open>Properties\<close>

text \<open>
  C36: the table-driven checksum computes, for every input, the checksum defined bit by
  bit over the reflected IEEE 802.3 polynomial.
\<close>

theorem compute_crc32_equiv: "compute_crc32 data = crc32_ref data"
  by (simp add: compute_crc32_def crc32_ref_def crc_update_eq)

text \<open>
  The checksum detects every corruption confined to one byte: two messages that agree
  but for one byte at the same place have different checksums.
\<close>

theorem crc32_detects_byte_error:
  assumes "a \<noteq> b"
  shows "compute_crc32 (pre @ a # suf) \<noteq> compute_crc32 (pre @ b # suf)"
proof
  let ?s = "foldl crc_update 0xFFFFFFFF pre"
  assume "compute_crc32 (pre @ a # suf) = compute_crc32 (pre @ b # suf)"
  then have "foldl crc_update (crc_update ?s a) suf = foldl crc_update (crc_update ?s b) suf"
    by (simp add: compute_crc32_def)
  then have "crc_update ?s a = crc_update ?s b"
    by (rule crc_fold_inj_state)
  then have "a = b"
    by (rule crc_update_inj_byte)
  with assms show False by simp
qed

theorem crc32_detects_byte_error_witness:
  "(1 :: u8) \<noteq> 2 \<and> compute_crc32 ([7, 7] @ 1 # [9]) \<noteq> compute_crc32 ([7, 7] @ 2 # [9])"
proof -
  have "(1 :: u8) \<noteq> 2" by simp
  then show ?thesis
    using crc32_detects_byte_error [of 1 2 "[7, 7]" "[9]"] by blast
qed

end
