(* ===== verification/VmState.thy ===== *)
theory VmState
  imports Token Crc32
begin

text \<open>
  The state of the px64 register machine (\<^verbatim>\<open>PX64VM\<close> in \<^verbatim>\<open>pulselang-core/src/vm.rs\<close>), its
  constructors, its clock and its tagged string references. Fixed-size Rust arrays are
  lists whose lengths the invariant \<open>vm_ok\<close> records; what the machine asks of its host
  (time stamp counter, console, files) is the parameter \<open>host\<close>.
\<close>

section \<open>Signed 64-bit arithmetic\<close>

definition wrapping_div :: "i64 \<Rightarrow> i64 \<Rightarrow> i64" where
  "wrapping_div a b = word_of_int (sint a sdiv sint b)"

definition wrapping_rem :: "i64 \<Rightarrow> i64 \<Rightarrow> i64" where
  "wrapping_rem a b = word_of_int (sint a smod sint b)"

definition saturating_abs :: "i64 \<Rightarrow> i64" where
  "saturating_abs a =
     (if sint a = - (2 ^ 63) then 0x7FFFFFFFFFFFFFFF else if sint a < 0 then - a else a)"

definition wrapping_shl :: "i64 \<Rightarrow> nat \<Rightarrow> i64" where
  "wrapping_shl a n = push_bit (n mod 64) a"

definition wrapping_shr :: "i64 \<Rightarrow> nat \<Rightarrow> i64" where
  "wrapping_shr a n = signed_drop_bit (n mod 64) a"

definition count_ones :: "u64 \<Rightarrow> nat" where
  "count_ones a = length (filter (bit a) [0..<64])"

definition leading_zeros :: "u64 \<Rightarrow> nat" where
  "leading_zeros a = length (takeWhile (\<lambda>i. \<not> bit a i) (rev [0..<64]))"

section \<open>State\<close>

record DeterministicReplayConfig =
  enabled :: bool
  tsc_seed :: i64
  tsc_step :: i64
  uptime_base_ns :: i64
  uptime_step_ns :: i64

definition with_seed :: "i64 \<Rightarrow> DeterministicReplayConfig" where
  "with_seed seed =
     \<lparr>enabled = True, tsc_seed = seed, tsc_step = 10, uptime_base_ns = 1000000,
      uptime_step_ns = 15\<rparr>"

definition default_replay :: DeterministicReplayConfig where
  "default_replay = with_seed 0x1337C0DE"

record PX64VM =
  vm_code :: "u8 list"
  str_pool :: "u8 list"
  const_pool :: "i64 list"
  vm_args :: "str list"
  ip :: nat
  regs :: "i64 list"
  call_stack :: "u16 list"
  frame_stack :: "i64 list list"
  call_sp :: nat
  deadline_stack :: "u64 list"
  dl_sp :: nat
  array_slots :: "i64 list"
  array_lens :: "u16 list"
  array_bases :: "u16 list"
  struct_slots :: "i64 list"
  struct_field_counts :: "u8 list"
  struct_bases :: "u16 list"
  table_lens :: "u8 list"
  table_bases :: "u8 list"
  vram :: "u8 list list"
  spill_slots :: "i64 list"
  steps :: nat
  max_steps :: nat
  replay_config :: "DeterministicReplayConfig option"

text \<open>\<open>[x; n]\<close>, an array of \<open>n\<close> copies.\<close>

definition array_of :: "'a \<Rightarrow> nat \<Rightarrow> 'a list" where
  "array_of x n = replicate n x"

lemma length_array_of [simp]: "length (array_of x n) = n"
  by (simp add: array_of_def)

lemma nth_array_of [simp]: "i < n \<Longrightarrow> array_of x n ! i = x"
  by (simp add: array_of_def)

lemma list_all_array_of [simp]: "list_all P (array_of x n) \<longleftrightarrow> n = 0 \<or> P x"
  by (auto simp: array_of_def list_all_iff)

definition vm_new :: "u8 list \<Rightarrow> u8 list \<Rightarrow> i64 list \<Rightarrow> str list \<Rightarrow> PX64VM" where
  "vm_new prog pool consts argv =
     \<lparr>vm_code = prog, str_pool = pool, const_pool = consts, vm_args = argv,
      ip = 0, regs = array_of 0 PX64_NUM_REGISTERS,
      call_stack = array_of 0 MAX_CALL_DEPTH,
      frame_stack = array_of (array_of 0 16) MAX_CALL_DEPTH, call_sp = 0,
      deadline_stack = array_of 0 8, dl_sp = 0,
      array_slots = array_of 0 1024, array_lens = array_of 0 16, array_bases = array_of 0 16,
      struct_slots = array_of 0 1024, struct_field_counts = array_of 0 16,
      struct_bases = array_of 0 16, table_lens = array_of 0 16, table_bases = array_of 0 16,
      vram = [array_of 0x5A 4096, array_of 0xA5 4096, array_of 0 4096, array_of 0xFF 4096],
      spill_slots = array_of 0 32, steps = 0, max_steps = MAX_VM_STEPS, replay_config = None\<rparr>"

definition set_replay_config :: "DeterministicReplayConfig option \<Rightarrow> PX64VM \<Rightarrow> PX64VM" where
  "set_replay_config c vm = vm\<lparr>replay_config := c\<rparr>"

text \<open>
  The host: whether the \<^verbatim>\<open>std\<close> feature is on, and the effects the machine asks for, over
  a host state of any type. \<^verbatim>\<open>_rdtsc\<close>, the console functions and the file functions are
  outside the repository.
\<close>

record 'w host =
  cfg_std :: bool
  rdtsc :: "'w \<Rightarrow> u64 \<times> 'w"
  read_host_key :: "'w \<Rightarrow> i64 \<times> 'w"
  host_term_size :: "'w \<Rightarrow> i64 \<times> 'w"
  path_exists :: "str \<Rightarrow> 'w \<Rightarrow> bool \<times> 'w"
  write_path :: "str \<Rightarrow> u8 list \<Rightarrow> 'w \<Rightarrow> bool \<times> 'w"

text \<open>A run: the machine, what it has written, and the host's state.\<close>

record 'w vm_run =
  mach :: PX64VM
  out :: "u8 list"
  world :: 'w

section \<open>String references and the clock\<close>

definition get_str_bytes :: "PX64VM \<Rightarrow> i64 \<Rightarrow> u8 list option" where
  "get_str_bytes vm val =
     (if val AND STR_TAG \<noteq> 0 then
        let raw = val AND NOT STR_TAG;
            offset = unat (drop_bit 32 raw);
            len = unat (raw AND 0xFFFFFFFF)
        in if offset + len \<le> length (str_pool vm) then Some (sub_slice offset len (str_pool vm))
           else None
      else if val AND ARG_TAG \<noteq> 0 then idx (vm_args vm) (unat (val AND 0xFF))
      else None)"

text \<open>The replay clock of a machine, when replay is configured and enabled.\<close>

definition replay_tsc :: "PX64VM \<Rightarrow> i64 option" where
  "replay_tsc vm =
     (case replay_config vm of
        Some cfg \<Rightarrow> if enabled cfg then Some (tsc_seed cfg + of_nat (steps vm) * tsc_step cfg) else None
      | None \<Rightarrow> None)"

definition replay_uptime :: "PX64VM \<Rightarrow> i64 option" where
  "replay_uptime vm =
     (case replay_config vm of
        Some cfg \<Rightarrow> if enabled cfg
          then Some (uptime_base_ns cfg + of_nat (steps vm) * uptime_step_ns cfg) else None
      | None \<Rightarrow> None)"

definition get_tsc :: "'w host \<Rightarrow> 'w vm_run \<Rightarrow> i64 \<times> 'w vm_run" where
  "get_tsc h s =
     (case replay_tsc (mach s) of
        Some t \<Rightarrow> (t, s)
      | None \<Rightarrow> let (t, w) = rdtsc h (world s) in (t, s\<lparr>world := w\<rparr>))"

definition get_uptime_ns :: "'w host \<Rightarrow> 'w vm_run \<Rightarrow> i64 \<times> 'w vm_run" where
  "get_uptime_ns h s =
     (case replay_uptime (mach s) of
        Some t \<Rightarrow> (t, s)
      | None \<Rightarrow> let (t, w) = rdtsc h (world s) in (t div 3, s\<lparr>world := w\<rparr>))"

section \<open>The invariant\<close>

text \<open>
  The shape of the arrays, the stack pointers inside their stacks, and the step counter
  within its limit.
\<close>

definition vm_ok :: "PX64VM \<Rightarrow> bool" where
  "vm_ok vm \<longleftrightarrow>
     length (regs vm) = PX64_NUM_REGISTERS \<and>
     length (call_stack vm) = MAX_CALL_DEPTH \<and>
     length (frame_stack vm) = MAX_CALL_DEPTH \<and>
     list_all (\<lambda>f. length f = 16) (frame_stack vm) \<and>
     call_sp vm \<le> MAX_CALL_DEPTH \<and>
     length (deadline_stack vm) = 8 \<and> dl_sp vm \<le> 8 \<and>
     length (array_slots vm) = 1024 \<and> length (array_lens vm) = 16 \<and>
     length (array_bases vm) = 16 \<and>
     length (struct_slots vm) = 1024 \<and> length (struct_field_counts vm) = 16 \<and>
     length (struct_bases vm) = 16 \<and>
     length (table_lens vm) = 16 \<and> length (table_bases vm) = 16 \<and>
     length (vram vm) = 4 \<and> list_all (\<lambda>v. length v = 4096) (vram vm) \<and>
     length (spill_slots vm) = 32 \<and>
     steps vm \<le> max_steps vm"

lemma vm_ok_new [simp]: "vm_ok (vm_new c p k a)"
  by (simp add: vm_ok_def vm_new_def)

text \<open>What no instruction changes: the program and the limits of a run.\<close>

definition same_program :: "PX64VM \<Rightarrow> PX64VM \<Rightarrow> bool" where
  "same_program a b \<longleftrightarrow>
     vm_code a = vm_code b \<and> str_pool a = str_pool b \<and> const_pool a = const_pool b \<and>
     vm_args a = vm_args b \<and> max_steps a = max_steps b \<and> replay_config a = replay_config b"

lemma same_program_refl [simp]: "same_program a a"
  by (simp add: same_program_def)

lemma same_program_trans: "same_program a b \<Longrightarrow> same_program b c \<Longrightarrow> same_program a c"
  by (simp add: same_program_def)

lemma get_tsc_mach [simp]: "mach (snd (get_tsc h s)) = mach s" "out (snd (get_tsc h s)) = out s"
  by (auto simp: get_tsc_def split: option.splits prod.splits)

lemma get_uptime_mach [simp]:
  "mach (snd (get_uptime_ns h s)) = mach s" "out (snd (get_uptime_ns h s)) = out s"
  by (auto simp: get_uptime_ns_def split: option.splits prod.splits)

end
