(* ===== verification/VmOps.thy ===== *)
theory VmOps
  imports VmState
begin

text \<open>
  The instructions of the px64 machine that touch the machine alone: one definition per
  arm of the \<^verbatim>\<open>match op\<close> in \<^verbatim>\<open>PX64VM::run_with_output\<close>
  (\<^verbatim>\<open>pulselang-core/src/vm.rs\<close>), with the operand bytes \<open>rd\<close>, \<open>rs1\<close>, \<open>rs2\<close> and
  the 16-bit immediate the loop decodes. Registers out of range make most arms do
  nothing, as the guards in the source do; indexing an array past its end is a crash.
\<close>

section \<open>Control flow of one instruction\<close>

text \<open>
  An arm falls through to the next iteration, breaks the loop, returns an error (the
  machine keeps its state) or panics.
\<close>

datatype 's flow = Continue 's | Break 's | Fail CompileError 's | Crash

abbreviation reg_ok :: "nat \<Rightarrow> bool" where
  "reg_ok r \<equiv> r < PX64_NUM_REGISTERS"

definition set_reg :: "nat \<Rightarrow> i64 \<Rightarrow> PX64VM \<Rightarrow> PX64VM" where
  "set_reg rd v vm = (if reg_ok rd then vm\<lparr>regs := (regs vm)[rd := v]\<rparr> else vm)"

text \<open>A register read with a default for a register number out of range.\<close>

definition reg_or :: "i64 \<Rightarrow> nat \<Rightarrow> PX64VM \<Rightarrow> i64" where
  "reg_or d r vm = (if reg_ok r then regs vm ! r else d)"

text \<open>The three-register form: nothing happens unless all three are registers.\<close>

definition alu3 :: "(i64 \<Rightarrow> i64 \<Rightarrow> i64) \<Rightarrow> nat \<Rightarrow> nat \<Rightarrow> nat \<Rightarrow> PX64VM \<Rightarrow> PX64VM" where
  "alu3 f rd rs1 rs2 vm =
     (if reg_ok rd \<and> reg_ok rs1 \<and> reg_ok rs2
      then set_reg rd (f (regs vm ! rs1) (regs vm ! rs2)) vm else vm)"

definition of_bool_i64 :: "bool \<Rightarrow> i64" where
  "of_bool_i64 b = (if b then 1 else 0)"

section \<open>Moves and constants\<close>

definition op_mov_imm :: "nat \<Rightarrow> u16 \<Rightarrow> PX64VM \<Rightarrow> PX64VM" where
  "op_mov_imm rd imm16 vm = set_reg rd (ucast imm16) vm"

definition op_ldc :: "nat \<Rightarrow> u16 \<Rightarrow> PX64VM \<Rightarrow> PX64VM flow" where
  "op_ldc rd imm16 vm =
     (let const_idx = unat imm16
      in if length (const_pool vm) \<le> const_idx then
           Fail (simple ''ERR_PX64_CONST_OUT_OF_BOUNDS''
                        ''Constant pool index out of bounds during LDC execution'') vm
         else Continue (set_reg rd (const_pool vm ! const_idx) vm))"

definition op_mov_reg :: "nat \<Rightarrow> nat \<Rightarrow> PX64VM \<Rightarrow> PX64VM" where
  "op_mov_reg rd rs1 vm = (if reg_ok rd \<and> reg_ok rs1 then set_reg rd (regs vm ! rs1) vm else vm)"

definition op_mov_str :: "nat \<Rightarrow> nat \<Rightarrow> nat \<Rightarrow> PX64VM \<Rightarrow> PX64VM" where
  "op_mov_str rd rs1 rs2 vm =
     set_reg rd (STR_TAG OR push_bit 32 (of_nat rs1) OR of_nat rs2) vm"

section \<open>Arithmetic and logic\<close>

definition op_addi :: "nat \<Rightarrow> nat \<Rightarrow> nat \<Rightarrow> PX64VM \<Rightarrow> PX64VM" where
  "op_addi rd rs1 rs2 vm =
     (if reg_ok rd \<and> reg_ok rs1 then set_reg rd (regs vm ! rs1 + of_nat rs2) vm else vm)"

definition op_subi :: "nat \<Rightarrow> nat \<Rightarrow> nat \<Rightarrow> PX64VM \<Rightarrow> PX64VM" where
  "op_subi rd rs1 rs2 vm =
     (if reg_ok rd \<and> reg_ok rs1 then set_reg rd (regs vm ! rs1 - of_nat rs2) vm else vm)"

definition op_and :: "nat \<Rightarrow> nat \<Rightarrow> nat \<Rightarrow> PX64VM \<Rightarrow> PX64VM" where
  "op_and = alu3 (\<lambda>a b. a AND b)"

definition op_or :: "nat \<Rightarrow> nat \<Rightarrow> nat \<Rightarrow> PX64VM \<Rightarrow> PX64VM" where
  "op_or = alu3 (\<lambda>a b. a OR b)"

definition op_xor :: "nat \<Rightarrow> nat \<Rightarrow> nat \<Rightarrow> PX64VM \<Rightarrow> PX64VM" where
  "op_xor = alu3 (\<lambda>a b. a XOR b)"

definition op_shl :: "nat \<Rightarrow> nat \<Rightarrow> nat \<Rightarrow> PX64VM \<Rightarrow> PX64VM" where
  "op_shl = alu3 (\<lambda>a b. wrapping_shl a (unat (b AND 63)))"

definition op_shr :: "nat \<Rightarrow> nat \<Rightarrow> nat \<Rightarrow> PX64VM \<Rightarrow> PX64VM" where
  "op_shr = alu3 (\<lambda>a b. drop_bit (unat (b AND 63)) a)"

definition op_add :: "nat \<Rightarrow> nat \<Rightarrow> nat \<Rightarrow> PX64VM \<Rightarrow> PX64VM" where
  "op_add = alu3 (+)"

definition op_sub :: "nat \<Rightarrow> nat \<Rightarrow> nat \<Rightarrow> PX64VM \<Rightarrow> PX64VM" where
  "op_sub = alu3 (-)"

definition op_mul :: "nat \<Rightarrow> nat \<Rightarrow> nat \<Rightarrow> PX64VM \<Rightarrow> PX64VM" where
  "op_mul = alu3 (*)"

definition op_div :: "nat \<Rightarrow> nat \<Rightarrow> nat \<Rightarrow> PX64VM \<Rightarrow> PX64VM flow" where
  "op_div rd rs1 rs2 vm =
     (if reg_ok rd \<and> reg_ok rs1 \<and> reg_ok rs2 then
        let denom = regs vm ! rs2
        in if denom = 0 then
             Fail (simple ''ERR_PX64_DIV_BY_ZERO''
                          ''Division by zero in px64 virtual register machine'') vm
           else Continue (set_reg rd (wrapping_div (regs vm ! rs1) denom) vm)
      else Continue vm)"

definition op_mod :: "nat \<Rightarrow> nat \<Rightarrow> nat \<Rightarrow> PX64VM \<Rightarrow> PX64VM flow" where
  "op_mod rd rs1 rs2 vm =
     (if reg_ok rd \<and> reg_ok rs1 \<and> reg_ok rs2 then
        let denom = regs vm ! rs2
        in if denom = 0 then
             Fail (simple ''ERR_PX64_DIV_BY_ZERO''
                          ''Modulo by zero in px64 virtual register machine'') vm
           else Continue (set_reg rd (wrapping_rem (regs vm ! rs1) denom) vm)
      else Continue vm)"

section \<open>Comparisons\<close>

definition is_str_ref :: "i64 \<Rightarrow> bool" where
  "is_str_ref v \<longleftrightarrow> v AND STR_TAG \<noteq> 0 \<or> v AND ARG_TAG \<noteq> 0"

text \<open>The byte comparison of two references: equal only when both resolve.\<close>

definition same_bytes :: "PX64VM \<Rightarrow> i64 \<Rightarrow> i64 \<Rightarrow> bool" where
  "same_bytes vm v1 v2 =
     (case (get_str_bytes vm v1, get_str_bytes vm v2) of
        (Some b1, Some b2) \<Rightarrow> b1 = b2
      | _ \<Rightarrow> False)"

definition op_cmp_eq :: "nat \<Rightarrow> nat \<Rightarrow> nat \<Rightarrow> PX64VM \<Rightarrow> PX64VM" where
  "op_cmp_eq rd rs1 rs2 vm =
     alu3 (\<lambda>v1 v2. of_bool_i64
            (if v1 = v2 then True
             else if is_str_ref v1 \<and> is_str_ref v2 then same_bytes vm v1 v2
             else False)) rd rs1 rs2 vm"

definition op_cmp_ne :: "nat \<Rightarrow> nat \<Rightarrow> nat \<Rightarrow> PX64VM \<Rightarrow> PX64VM" where
  "op_cmp_ne rd rs1 rs2 vm =
     alu3 (\<lambda>v1 v2. of_bool_i64
            (if v1 = v2 then False
             else if is_str_ref v1 \<and> is_str_ref v2 then
               (case (get_str_bytes vm v1, get_str_bytes vm v2) of
                  (Some b1, Some b2) \<Rightarrow> b1 \<noteq> b2
                | _ \<Rightarrow> True)
             else True)) rd rs1 rs2 vm"

definition op_streq :: "nat \<Rightarrow> nat \<Rightarrow> nat \<Rightarrow> PX64VM \<Rightarrow> PX64VM" where
  "op_streq rd rs1 rs2 vm =
     alu3 (\<lambda>v1 v2. of_bool_i64 (v1 = v2 \<or> same_bytes vm v1 v2)) rd rs1 rs2 vm"

definition op_cmp_lt :: "nat \<Rightarrow> nat \<Rightarrow> nat \<Rightarrow> PX64VM \<Rightarrow> PX64VM" where
  "op_cmp_lt = alu3 (\<lambda>a b. of_bool_i64 (sint a < sint b))"

definition op_cmp_le :: "nat \<Rightarrow> nat \<Rightarrow> nat \<Rightarrow> PX64VM \<Rightarrow> PX64VM" where
  "op_cmp_le = alu3 (\<lambda>a b. of_bool_i64 (sint a \<le> sint b))"

definition op_cmp_gt :: "nat \<Rightarrow> nat \<Rightarrow> nat \<Rightarrow> PX64VM \<Rightarrow> PX64VM" where
  "op_cmp_gt = alu3 (\<lambda>a b. of_bool_i64 (sint a > sint b))"

definition op_cmp_ge :: "nat \<Rightarrow> nat \<Rightarrow> nat \<Rightarrow> PX64VM \<Rightarrow> PX64VM" where
  "op_cmp_ge = alu3 (\<lambda>a b. of_bool_i64 (sint a \<ge> sint b))"

section \<open>Arrays, structs, tables and spill slots\<close>

definition op_arr_def :: "nat \<Rightarrow> u16 \<Rightarrow> PX64VM \<Rightarrow> PX64VM" where
  "op_arr_def arr_id imm16 vm =
     (if arr_id < 16 then
        let len = unat imm16;
            lens = (array_lens vm)[arr_id := imm16];
            base = sum_list (map unat (take arr_id lens))
        in vm\<lparr>array_lens := lens,
              array_bases := (array_bases vm)[arr_id := of_nat base],
              array_slots := (if base + len \<le> 1024
                              then copy_at base (array_of 0 len) (array_slots vm)
                              else array_slots vm)\<rparr>
      else vm)"

definition op_arr_load :: "nat \<Rightarrow> nat \<Rightarrow> nat \<Rightarrow> PX64VM \<Rightarrow> PX64VM flow" where
  "op_arr_load rd arr_id idx_reg vm =
     (let i = sint (reg_or (-1) idx_reg vm)
      in if 16 \<le> arr_id then
           Fail (simple ''ERR_PX64_ARRAY_INVALID_ID'' ''Array ID is invalid'') vm
         else if i < 0 \<or> i \<ge> uint (array_lens vm ! arr_id) then
           Fail (simple ''ERR_PX64_ARRAY_OUT_OF_BOUNDS'' ''Array element access out of bounds'') vm
         else if reg_ok rd then
           (case idx (array_slots vm) (unat (array_bases vm ! arr_id) + nat i) of
              Some v \<Rightarrow> Continue (set_reg rd v vm)
            | None \<Rightarrow> Crash)
         else Continue vm)"

definition op_arr_store :: "nat \<Rightarrow> nat \<Rightarrow> nat \<Rightarrow> PX64VM \<Rightarrow> PX64VM flow" where
  "op_arr_store arr_id idx_reg val_reg vm =
     (let i = sint (reg_or (-1) idx_reg vm);
          v = reg_or 0 val_reg vm
      in if 16 \<le> arr_id then
           Fail (simple ''ERR_PX64_ARRAY_INVALID_ID'' ''Array ID is invalid'') vm
         else if i < 0 \<or> i \<ge> uint (array_lens vm ! arr_id) then
           Fail (simple ''ERR_PX64_ARRAY_OUT_OF_BOUNDS'' ''Array element access out of bounds'') vm
         else
           let k = unat (array_bases vm ! arr_id) + nat i
           in if k < length (array_slots vm)
              then Continue (vm\<lparr>array_slots := (array_slots vm)[k := v]\<rparr>) else Crash)"

definition op_struct_def :: "nat \<Rightarrow> nat \<Rightarrow> PX64VM \<Rightarrow> PX64VM" where
  "op_struct_def inst_id rs1 vm =
     (if inst_id < 16 then
        let counts = (struct_field_counts vm)[inst_id := of_nat rs1]
        in vm\<lparr>struct_field_counts := counts,
              struct_bases := (struct_bases vm)
                [inst_id := of_nat (sum_list (map unat (take inst_id counts)))]\<rparr>
      else vm)"

definition op_struct_load :: "nat \<Rightarrow> nat \<Rightarrow> nat \<Rightarrow> PX64VM \<Rightarrow> PX64VM flow" where
  "op_struct_load rd inst_id offset vm =
     (if 16 \<le> inst_id \<or> unat (struct_field_counts vm ! inst_id) \<le> offset then
        Fail (simple ''ERR_PX64_STRUCT_OUT_OF_BOUNDS'' ''Struct field offset out of bounds'') vm
      else
        (case idx (struct_slots vm) (unat (struct_bases vm ! inst_id) + offset) of
           Some v \<Rightarrow> Continue (set_reg rd v vm)
         | None \<Rightarrow> Crash))"

definition op_struct_store :: "nat \<Rightarrow> nat \<Rightarrow> nat \<Rightarrow> PX64VM \<Rightarrow> PX64VM flow" where
  "op_struct_store inst_id offset val_reg vm =
     (let v = reg_or 0 val_reg vm
      in if 16 \<le> inst_id \<or> unat (struct_field_counts vm ! inst_id) \<le> offset then
           Fail (simple ''ERR_PX64_STRUCT_OUT_OF_BOUNDS'' ''Struct field offset out of bounds'') vm
         else
           let k = unat (struct_bases vm ! inst_id) + offset
           in if k < length (struct_slots vm)
              then Continue (vm\<lparr>struct_slots := (struct_slots vm)[k := v]\<rparr>) else Crash)"

definition op_tbl_def :: "nat \<Rightarrow> nat \<Rightarrow> nat \<Rightarrow> PX64VM \<Rightarrow> PX64VM" where
  "op_tbl_def tbl_id rs1 rs2 vm =
     (if tbl_id < 16 then
        vm\<lparr>table_bases := (table_bases vm)[tbl_id := of_nat rs1],
           table_lens := (table_lens vm)[tbl_id := of_nat rs2]\<rparr>
      else vm)"

definition op_tbl_load :: "nat \<Rightarrow> nat \<Rightarrow> nat \<Rightarrow> PX64VM \<Rightarrow> PX64VM flow" where
  "op_tbl_load rd tbl_id idx_reg vm =
     (let i = sint (reg_or (-1) idx_reg vm)
      in if 16 \<le> tbl_id then
           Fail (simple ''ERR_PX64_TABLE_INVALID_ID'' ''Const table ID is invalid'') vm
         else if i < 0 \<or> i \<ge> uint (table_lens vm ! tbl_id) then
           Fail (simple ''ERR_PX64_TABLE_OUT_OF_BOUNDS''
                        ''Const table lookup index out of bounds'') vm
         else
           let const_idx = unat (table_bases vm ! tbl_id) + nat i
           in if length (const_pool vm) \<le> const_idx then
                Fail (simple ''ERR_PX64_TABLE_OUT_OF_BOUNDS''
                             ''Const table lookup index out of bounds in const pool'') vm
              else Continue (set_reg rd (const_pool vm ! const_idx) vm))"

definition op_spill_store :: "nat \<Rightarrow> nat \<Rightarrow> PX64VM \<Rightarrow> PX64VM" where
  "op_spill_store slot_id val_reg vm =
     (let v = reg_or 0 val_reg vm
      in if slot_id < 32 then vm\<lparr>spill_slots := (spill_slots vm)[slot_id := v]\<rparr> else vm)"

definition op_spill_load :: "nat \<Rightarrow> nat \<Rightarrow> PX64VM \<Rightarrow> PX64VM" where
  "op_spill_load rd slot_id vm =
     (let v = (if slot_id < 32 then spill_slots vm ! slot_id else 0) in set_reg rd v vm)"

section \<open>Assertions, jumps and calls\<close>

definition op_assert :: "nat \<Rightarrow> PX64VM \<Rightarrow> PX64VM flow" where
  "op_assert rd vm =
     (if reg_or 0 rd vm = 0 then
        Fail (simple ''ERR_PX64_ASSERTION_FAILED''
                     ''PulseLang assertion failed: condition evaluated to false (0)'') vm
      else Continue vm)"

definition op_jmp :: "u16 \<Rightarrow> PX64VM \<Rightarrow> PX64VM" where
  "op_jmp imm16 vm = vm\<lparr>ip := unat imm16\<rparr>"

definition op_jz :: "nat \<Rightarrow> u16 \<Rightarrow> PX64VM \<Rightarrow> PX64VM" where
  "op_jz rd imm16 vm = (if reg_ok rd \<and> regs vm ! rd = 0 then vm\<lparr>ip := unat imm16\<rparr> else vm)"

definition op_jnz :: "nat \<Rightarrow> u16 \<Rightarrow> PX64VM \<Rightarrow> PX64VM" where
  "op_jnz rd imm16 vm = (if reg_ok rd \<and> regs vm ! rd \<noteq> 0 then vm\<lparr>ip := unat imm16\<rparr> else vm)"

definition op_call :: "u16 \<Rightarrow> PX64VM \<Rightarrow> PX64VM flow" where
  "op_call imm16 vm =
     (if MAX_CALL_DEPTH \<le> call_sp vm then
        Fail (simple ''ERR_PX64_STACK_OVERFLOW''
          ''Call stack overflow: exceeded MAX_CALL_DEPTH limit (8 nested calls maximum, unbounded recursion prohibited)'') vm
      else Continue
        (vm\<lparr>call_stack := (call_stack vm)[call_sp vm := of_nat (ip vm)],
            frame_stack := (frame_stack vm)[call_sp vm := take 16 (regs vm)],
            call_sp := call_sp vm + 1,
            ip := unat imm16\<rparr>))"

definition op_ret :: "PX64VM \<Rightarrow> PX64VM flow" where
  "op_ret vm =
     (if call_sp vm = 0 then Break vm
      else
        let sp = call_sp vm - 1;
            return_val = regs vm ! 0;
            return_ip = unat (call_stack vm ! sp)
        in Continue
          (vm\<lparr>call_sp := sp,
              regs := (frame_stack vm ! sp @ drop 16 (regs vm))[0 := return_val],
              ip := return_ip\<rparr>))"

section \<open>What every instruction keeps\<close>

text \<open>
  An instruction keeps the machine well formed, leaves the program alone and does not
  touch the step counter; the errors it returns are runtime errors.
\<close>

definition keeps :: "PX64VM \<Rightarrow> PX64VM \<Rightarrow> bool" where
  "keeps vm vm' \<longleftrightarrow> vm_ok vm' \<and> same_program vm vm' \<and> steps vm' = steps vm"

definition flow_keeps :: "PX64VM \<Rightarrow> PX64VM flow \<Rightarrow> bool" where
  "flow_keeps vm f =
     (case f of
        Continue vm' \<Rightarrow> keeps vm vm'
      | Break vm' \<Rightarrow> keeps vm vm'
      | Fail e vm' \<Rightarrow> vm' = vm \<and> is_runtime e
      | Crash \<Rightarrow> True)"

lemmas vm_inv_simps = keeps_def vm_ok_def same_program_def

lemma keeps_refl: "vm_ok vm \<Longrightarrow> keeps vm vm"
  by (simp add: keeps_def)

lemma keeps_trans: "keeps a b \<Longrightarrow> keeps b c \<Longrightarrow> keeps a c"
  by (auto simp: keeps_def intro: same_program_trans)

lemma keeps_set_reg [keeps_ok]: "vm_ok vm \<Longrightarrow> keeps vm (set_reg rd v vm)"
  by (simp add: set_reg_def vm_inv_simps)

lemma keeps_alu3 [keeps_ok]: "vm_ok vm \<Longrightarrow> keeps vm (alu3 f rd rs1 rs2 vm)"
  by (simp add: alu3_def keeps_set_reg keeps_refl)

lemmas alu_defs =
  op_mov_imm_def op_mov_reg_def op_mov_str_def op_addi_def op_subi_def op_and_def op_or_def
  op_xor_def op_shl_def op_shr_def op_add_def op_sub_def op_mul_def op_cmp_eq_def op_cmp_ne_def
  op_streq_def op_cmp_lt_def op_cmp_le_def op_cmp_gt_def op_cmp_ge_def

lemma runtime_error [simp]:
  "take 9 c = ''ERR_PX64_'' \<Longrightarrow> is_runtime (simple c m)"
  by (simp add: is_runtime_def has_prefix_def numeral_eq_Suc)

lemma keeps_spill_store [keeps_ok]: "vm_ok vm \<Longrightarrow> keeps vm (op_spill_store k r vm)"
  by (simp add: op_spill_store_def Let_def vm_inv_simps)

lemma keeps_spill_load [keeps_ok]: "vm_ok vm \<Longrightarrow> keeps vm (op_spill_load r k vm)"
  by (simp add: op_spill_load_def keeps_set_reg Let_def)

lemma keeps_arr_def [keeps_ok]: "vm_ok vm \<Longrightarrow> keeps vm (op_arr_def k n vm)"
  by (simp add: op_arr_def_def Let_def vm_inv_simps)

lemma keeps_struct_def [keeps_ok]: "vm_ok vm \<Longrightarrow> keeps vm (op_struct_def k n vm)"
  by (simp add: op_struct_def_def Let_def vm_inv_simps)

lemma keeps_tbl_def [keeps_ok]: "vm_ok vm \<Longrightarrow> keeps vm (op_tbl_def k n m vm)"
  by (simp add: op_tbl_def_def vm_inv_simps)

lemma keeps_jumps [keeps_ok]:
  "vm_ok vm \<Longrightarrow> keeps vm (op_jmp i vm)"
  "vm_ok vm \<Longrightarrow> keeps vm (op_jz r i vm)"
  "vm_ok vm \<Longrightarrow> keeps vm (op_jnz r i vm)"
  by (simp_all add: op_jmp_def op_jz_def op_jnz_def vm_inv_simps)

lemma flow_keeps_ldc [keeps_ok]: "vm_ok vm \<Longrightarrow> flow_keeps vm (op_ldc r i vm)"
  by (simp add: op_ldc_def flow_keeps_def keeps_set_reg Let_def)

lemma flow_keeps_div [keeps_ok]: "vm_ok vm \<Longrightarrow> flow_keeps vm (op_div a b c vm)"
  by (simp add: op_div_def flow_keeps_def keeps_set_reg keeps_refl Let_def)

lemma flow_keeps_mod [keeps_ok]: "vm_ok vm \<Longrightarrow> flow_keeps vm (op_mod a b c vm)"
  by (simp add: op_mod_def flow_keeps_def keeps_set_reg keeps_refl Let_def)

lemma flow_keeps_arr_load [keeps_ok]: "vm_ok vm \<Longrightarrow> flow_keeps vm (op_arr_load a b c vm)"
  by (simp add: op_arr_load_def flow_keeps_def keeps_set_reg keeps_refl Let_def split: option.split)

lemma flow_keeps_arr_store [keeps_ok]: "vm_ok vm \<Longrightarrow> flow_keeps vm (op_arr_store a b c vm)"
  by (simp add: op_arr_store_def flow_keeps_def Let_def vm_inv_simps)

lemma flow_keeps_struct_load [keeps_ok]: "vm_ok vm \<Longrightarrow> flow_keeps vm (op_struct_load a b c vm)"
  by (simp add: op_struct_load_def flow_keeps_def keeps_set_reg Let_def split: option.split)

lemma flow_keeps_struct_store [keeps_ok]: "vm_ok vm \<Longrightarrow> flow_keeps vm (op_struct_store a b c vm)"
  by (simp add: op_struct_store_def flow_keeps_def Let_def vm_inv_simps)

lemma flow_keeps_tbl_load [keeps_ok]: "vm_ok vm \<Longrightarrow> flow_keeps vm (op_tbl_load a b c vm)"
  by (simp add: op_tbl_load_def flow_keeps_def keeps_set_reg Let_def)

lemma flow_keeps_assert [keeps_ok]: "vm_ok vm \<Longrightarrow> flow_keeps vm (op_assert r vm)"
  by (simp add: op_assert_def flow_keeps_def keeps_refl)

lemma flow_keeps_call [keeps_ok]: "vm_ok vm \<Longrightarrow> flow_keeps vm (op_call i vm)"
  by (simp add: op_call_def flow_keeps_def vm_inv_simps list_all_length nth_list_update)

lemma flow_keeps_ret [keeps_ok]: "vm_ok vm \<Longrightarrow> flow_keeps vm (op_ret vm)"
  by (auto simp: op_ret_def flow_keeps_def Let_def vm_inv_simps list_all_length)

end
