(* ===== verification/VmNative.thy ===== *)
theory VmNative
  imports VmOps
begin

text \<open>
  \<^verbatim>\<open>PX64_OP_CALL_NAT\<close>: the native functions of the px64 machine
  (\<^verbatim>\<open>pulselang-core/src/vm.rs\<close>), and the deadline instructions, which read the clock. A
  native gets the register number \<open>arg_reg\<close> and its value \<open>arg_val\<close> and returns the
  result with the run state, an error, or a panic. Further arguments are read from the
  registers below \<open>arg_reg\<close>, an access that panics when \<open>arg_reg\<close> is too large.
\<close>

type_synonym 'w native_result = "(CompileError, i64 \<times> 'w vm_run) outcome"

section \<open>Further arguments\<close>

text \<open>
  \<open>nat_arg k d\<close> is \<^verbatim>\<open>if arg_reg > k { self.regs[arg_reg - (k + 1)] } else { d }\<close>;
  \<^term>\<open>None\<close> is the panic.
\<close>

definition nat_arg :: "nat \<Rightarrow> i64 \<Rightarrow> nat \<Rightarrow> PX64VM \<Rightarrow> i64 option" where
  "nat_arg k d arg_reg vm =
     (if arg_reg > k then idx (regs vm) (arg_reg - (k + 1)) else Some d)"

definition ret1 :: "'w vm_run \<Rightarrow> i64 \<Rightarrow> 'w native_result" where
  "ret1 s v = Ok (v, s)"

text \<open>A native of one further argument.\<close>

definition with_arg :: "nat \<Rightarrow> i64 \<Rightarrow> nat \<Rightarrow> 'w vm_run \<Rightarrow> (i64 \<Rightarrow> 'w native_result) \<Rightarrow> 'w native_result" where
  "with_arg k d arg_reg s f =
     (case nat_arg k d arg_reg (mach s) of Some v \<Rightarrow> f v | None \<Rightarrow> Panic)"

section \<open>Output\<close>

definition write_out :: "u8 list \<Rightarrow> 'w vm_run \<Rightarrow> 'w vm_run" where
  "write_out b s = s\<lparr>out := out s @ b\<rparr>"

text \<open>What a tagged value prints as; an unresolved or ill-formed reference prints nothing.\<close>

definition arg_text :: "PX64VM \<Rightarrow> i64 \<Rightarrow> u8 list" where
  "arg_text vm v = (case idx (vm_args vm) (unat (v AND 0xFF)) of Some a \<Rightarrow> a | None \<Rightarrow> [])"

definition pool_text :: "PX64VM \<Rightarrow> i64 \<Rightarrow> u8 list" where
  "pool_text vm v =
     (let raw = v AND NOT STR_TAG;
          offset = unat (drop_bit 32 raw);
          len = unat (raw AND 0xFFFFFFFF)
      in if offset + len \<le> length (str_pool vm) \<and> utf8_valid (sub_slice offset len (str_pool vm))
         then sub_slice offset len (str_pool vm) else [])"

definition native_print :: "i64 \<Rightarrow> 'w vm_run \<Rightarrow> 'w native_result" where
  "native_print arg_val s =
     ret1 (write_out
       (if arg_val AND ARG_TAG \<noteq> 0 then arg_text (mach s) arg_val
        else if arg_val AND STR_TAG \<noteq> 0 then pool_text (mach s) arg_val
        else dec_i64 arg_val) s) 0"

definition native_println :: "nat \<Rightarrow> i64 \<Rightarrow> 'w vm_run \<Rightarrow> 'w native_result" where
  "native_println arg_reg arg_val s =
     ret1 (write_out
       (if arg_val AND ARG_TAG \<noteq> 0 then arg_text (mach s) arg_val @ [10]
        else if arg_val AND STR_TAG \<noteq> 0 then pool_text (mach s) arg_val @ [10]
        else if arg_reg \<noteq> 0 \<or> arg_val \<noteq> 0 then dec_i64 arg_val @ [10]
        else [10]) s) 0"

section \<open>Clock, console and files\<close>

definition native_sys_tsc :: "'w host \<Rightarrow> 'w vm_run \<Rightarrow> 'w native_result" where
  "native_sys_tsc h s = Ok (get_tsc h s)"

definition native_uptime_ns :: "'w host \<Rightarrow> 'w vm_run \<Rightarrow> 'w native_result" where
  "native_uptime_ns h s = Ok (get_uptime_ns h s)"

text \<open>Reading a key resets the step counter.\<close>

definition native_term_read_key :: "'w host \<Rightarrow> 'w vm_run \<Rightarrow> 'w native_result" where
  "native_term_read_key h s =
     (let s' = s\<lparr>mach := (mach s)\<lparr>steps := 0\<rparr>\<rparr>
      in if cfg_std h then
           let (k, w) = read_host_key h (world s') in Ok (k, s'\<lparr>world := w\<rparr>)
         else Ok (- 1, s'))"

definition native_term_size :: "'w host \<Rightarrow> 'w vm_run \<Rightarrow> 'w native_result" where
  "native_term_size h s =
     (if cfg_std h then
        let (k, w) = host_term_size h (world s) in Ok (k, s\<lparr>world := w\<rparr>)
      else Ok (push_bit 16 25 OR 80, s))"

definition native_str_len :: "i64 \<Rightarrow> 'w vm_run \<Rightarrow> 'w native_result" where
  "native_str_len arg_val s =
     ret1 s (case get_str_bytes (mach s) arg_val of Some b \<Rightarrow> of_nat (length b) | None \<Rightarrow> 0)"

definition native_char_at :: "nat \<Rightarrow> i64 \<Rightarrow> 'w vm_run \<Rightarrow> 'w native_result" where
  "native_char_at arg_reg arg_val s =
     with_arg 0 0 arg_reg s (\<lambda>i.
       ret1 s (case get_str_bytes (mach s) arg_val of
         Some b \<Rightarrow> if 0 \<le> sint i \<and> nat (sint i) < length b then ucast (b ! nat (sint i)) else - 1
       | None \<Rightarrow> - 1))"

text \<open>A path argument: the referenced bytes when they are UTF-8.\<close>

definition path_of :: "PX64VM \<Rightarrow> i64 \<Rightarrow> str option" where
  "path_of vm v =
     (case get_str_bytes vm v of Some b \<Rightarrow> if utf8_valid b then Some b else None | None \<Rightarrow> None)"

definition native_file_exists :: "'w host \<Rightarrow> i64 \<Rightarrow> 'w vm_run \<Rightarrow> 'w native_result" where
  "native_file_exists h arg_val s =
     (if cfg_std h then
        (case path_of (mach s) arg_val of
           Some p \<Rightarrow> let (e, w) = path_exists h p (world s)
                     in Ok (of_bool_i64 e, s\<lparr>world := w\<rparr>)
         | None \<Rightarrow> Ok (0, s))
      else Ok (0, s))"

definition native_file_write :: "'w host \<Rightarrow> nat \<Rightarrow> i64 \<Rightarrow> 'w vm_run \<Rightarrow> 'w native_result" where
  "native_file_write h arg_reg arg_val s =
     with_arg 0 0 arg_reg s (\<lambda>content_val.
       if cfg_std h then
         (case (path_of (mach s) arg_val, get_str_bytes (mach s) content_val) of
            (Some path, Some data) \<Rightarrow>
              let (ok, w) = write_path h path data (world s)
              in Ok (if ok then of_nat (length data) else - 1, s\<lparr>world := w\<rparr>)
          | _ \<Rightarrow> Ok (- 1, s))
       else Ok (- 1, s))"

section \<open>Arguments, tagged results, strings\<close>

definition native_script_argc :: "'w vm_run \<Rightarrow> 'w native_result" where
  "native_script_argc s = ret1 s (of_nat (length (vm_args (mach s))))"

definition native_script_arg :: "i64 \<Rightarrow> 'w vm_run \<Rightarrow> 'w native_result" where
  "native_script_arg arg_val s =
     ret1 s (if 0 \<le> sint arg_val \<and> unat arg_val < length (vm_args (mach s)) \<and> unat arg_val < 256
             then ARG_TAG OR (arg_val AND 0xFF) else 0)"

definition native_tag_ok :: "i64 \<Rightarrow> i64" where
  "native_tag_ok v = v AND NOT ERR_TAG"

definition native_tag_err :: "i64 \<Rightarrow> i64" where
  "native_tag_err v = ERR_TAG OR (v AND NOT ERR_TAG)"

definition native_is_ok :: "i64 \<Rightarrow> i64" where
  "native_is_ok v = of_bool_i64 (v AND ERR_TAG = 0)"

definition native_is_err :: "i64 \<Rightarrow> i64" where
  "native_is_err v = of_bool_i64 (v AND ERR_TAG \<noteq> 0)"

definition native_unwrap :: "i64 \<Rightarrow> 'w vm_run \<Rightarrow> 'w native_result" where
  "native_unwrap arg_val s =
     (if arg_val AND ERR_TAG \<noteq> 0 then
        Err (simple ''ERR_PX64_UNWRAP_FAILED''
          ''PulseLang unwrap failed: called @unwrap() on an Err result value'')
      else Ok (arg_val, s))"

definition native_streq :: "nat \<Rightarrow> i64 \<Rightarrow> 'w vm_run \<Rightarrow> 'w native_result" where
  "native_streq arg_reg arg_val s =
     with_arg 0 0 arg_reg s (\<lambda>s2.
       ret1 s (of_bool_i64 (arg_val = s2 \<or> same_bytes (mach s) arg_val s2)))"

section \<open>Mathematics\<close>

definition smin :: "i64 \<Rightarrow> i64 \<Rightarrow> i64" where
  "smin a b = (if sint a \<le> sint b then a else b)"

definition smax :: "i64 \<Rightarrow> i64 \<Rightarrow> i64" where
  "smax a b = (if sint b < sint a then a else b)"

definition native_math_min :: "nat \<Rightarrow> i64 \<Rightarrow> 'w vm_run \<Rightarrow> 'w native_result" where
  "native_math_min arg_reg arg_val s = with_arg 0 0 arg_reg s (\<lambda>b. ret1 s (smin arg_val b))"

definition native_math_max :: "nat \<Rightarrow> i64 \<Rightarrow> 'w vm_run \<Rightarrow> 'w native_result" where
  "native_math_max arg_reg arg_val s = with_arg 0 0 arg_reg s (\<lambda>b. ret1 s (smax arg_val b))"

definition native_math_clamp :: "nat \<Rightarrow> i64 \<Rightarrow> 'w vm_run \<Rightarrow> 'w native_result" where
  "native_math_clamp arg_reg arg_val s =
     with_arg 0 0 arg_reg s (\<lambda>min_v. with_arg 1 0 arg_reg s (\<lambda>max_v.
       ret1 s (smin (smax arg_val min_v) max_v)))"

definition native_crc32 :: "nat \<Rightarrow> i64 \<Rightarrow> 'w vm_run \<Rightarrow> 'w native_result" where
  "native_crc32 arg_reg arg_val s =
     with_arg 0 0 arg_reg s (\<lambda>v.
       ret1 s (ucast (compute_crc32 (to_le 8 v) XOR (ucast arg_val :: u32))))"

section \<open>Video memory\<close>

text \<open>
  The offset is a \<^verbatim>\<open>usize\<close>; \<^verbatim>\<open>offset + 8\<close> past the end of the address space overflows,
  which panics in a checked build and, in a release build, wraps to a small number and then
  panics when the slice is indexed at \<open>offset\<close>.
\<close>

definition vram_load :: "u8 list \<Rightarrow> u64 \<Rightarrow> i64 option" where
  "vram_load slot offset =
     (let off = unat offset
      in if 2 ^ 64 \<le> off + 8 then None
         else if off + 8 \<le> length slot then Some (from_le (sub_slice off 8 slot))
         else if off + 4 \<le> length slot then
           Some (signed_take_bit 31 (ucast (from_le (sub_slice off 4 slot) :: u32)))
         else Some 0)"

definition native_vram_read :: "nat \<Rightarrow> i64 \<Rightarrow> 'w vm_run \<Rightarrow> 'w native_result" where
  "native_vram_read arg_reg arg_val s =
     (let slot_id = unat arg_val mod 4
      in with_arg 0 0 arg_reg s (\<lambda>offset.
           case vram_load (vram (mach s) ! slot_id) offset of
             Some v \<Rightarrow> Ok (v, s)
           | None \<Rightarrow> Panic))"

definition vram_store :: "u8 list \<Rightarrow> u64 \<Rightarrow> i64 \<Rightarrow> u8 list option" where
  "vram_store slot offset val =
     (let off = unat offset
      in if 2 ^ 64 \<le> off + 8 then None
         else if off + 8 \<le> length slot then Some (copy_at off (to_le 8 val) slot)
         else Some slot)"

definition native_vram_write :: "nat \<Rightarrow> i64 \<Rightarrow> 'w vm_run \<Rightarrow> 'w native_result" where
  "native_vram_write arg_reg arg_val s =
     (let slot_id = unat arg_val mod 4
      in with_arg 0 0 arg_reg s (\<lambda>offset. with_arg 1 0 arg_reg s (\<lambda>val.
           case vram_store (vram (mach s) ! slot_id) offset val of
             Some slot' \<Rightarrow>
               Ok (0, s\<lparr>mach := (mach s)\<lparr>vram := (vram (mach s))[slot_id := slot']\<rparr>\<rparr>)
           | None \<Rightarrow> Panic)))"

section \<open>Fixed point\<close>

definition fix_q :: "i64 \<Rightarrow> nat" where
  "fix_q v = unat (v AND 63)"

definition native_fix_to_fix :: "nat \<Rightarrow> i64 \<Rightarrow> 'w vm_run \<Rightarrow> 'w native_result" where
  "native_fix_to_fix arg_reg arg_val s =
     with_arg 0 16 arg_reg s (\<lambda>q. ret1 s (wrapping_shl arg_val (fix_q q)))"

definition native_fix_to_i64 :: "nat \<Rightarrow> i64 \<Rightarrow> 'w vm_run \<Rightarrow> 'w native_result" where
  "native_fix_to_i64 arg_reg arg_val s =
     with_arg 0 16 arg_reg s (\<lambda>q. ret1 s (wrapping_shr arg_val (fix_q q)))"

definition native_fix_mul :: "nat \<Rightarrow> i64 \<Rightarrow> 'w vm_run \<Rightarrow> 'w native_result" where
  "native_fix_mul arg_reg arg_val s =
     with_arg 0 0 arg_reg s (\<lambda>b. with_arg 1 16 arg_reg s (\<lambda>q.
       ret1 s (wrapping_shr (arg_val * b) (fix_q q))))"

definition native_fix_div :: "nat \<Rightarrow> i64 \<Rightarrow> 'w vm_run \<Rightarrow> 'w native_result" where
  "native_fix_div arg_reg arg_val s =
     with_arg 0 0 arg_reg s (\<lambda>b. with_arg 1 16 arg_reg s (\<lambda>q.
       if b = 0 then
         Err (simple ''ERR_PX64_DIV_BY_ZERO'' ''Division by zero in fixed-point division'')
       else Ok (wrapping_div (wrapping_shl arg_val (fix_q q)) b, s)))"

section \<open>Dispatch\<close>

text \<open>\<open>q\<close> defaults to 16, and \<open>16 AND 63\<close> is 16, so the default passes through \<^const>\<open>fix_q\<close>.\<close>

definition call_native :: "'w host \<Rightarrow> native \<Rightarrow> nat \<Rightarrow> i64 \<Rightarrow> 'w vm_run \<Rightarrow> 'w native_result" where
  "call_native h f arg_reg arg_val s =
     (case f of
        NATIVE_PRINT \<Rightarrow> native_print arg_val s
      | NATIVE_PRINTLN \<Rightarrow> native_println arg_reg arg_val s
      | NATIVE_SYS_TSC \<Rightarrow> native_sys_tsc h s
      | NATIVE_NET_RTT \<Rightarrow> ret1 s 100
      | NATIVE_NET_SET_RATE \<Rightarrow> ret1 s 0
      | NATIVE_GPU_CAPTURE \<Rightarrow> ret1 s 0
      | NATIVE_NET_SEND \<Rightarrow> ret1 s 1
      | NATIVE_DROP \<Rightarrow> ret1 s 0
      | NATIVE_TERM_RAW \<Rightarrow> ret1 s 0
      | NATIVE_TERM_READ_KEY \<Rightarrow> native_term_read_key h s
      | NATIVE_TERM_SIZE \<Rightarrow> native_term_size h s
      | NATIVE_STR_LEN \<Rightarrow> native_str_len arg_val s
      | NATIVE_CHAR_AT \<Rightarrow> native_char_at arg_reg arg_val s
      | NATIVE_FILE_EXISTS \<Rightarrow> native_file_exists h arg_val s
      | NATIVE_FILE_WRITE \<Rightarrow> native_file_write h arg_reg arg_val s
      | NATIVE_FILE_READ \<Rightarrow> ret1 s 0
      | NATIVE_SCRIPT_ARGC \<Rightarrow> native_script_argc s
      | NATIVE_SCRIPT_ARG \<Rightarrow> native_script_arg arg_val s
      | NATIVE_TAG_OK \<Rightarrow> ret1 s (native_tag_ok arg_val)
      | NATIVE_TAG_ERR \<Rightarrow> ret1 s (native_tag_err arg_val)
      | NATIVE_IS_OK \<Rightarrow> ret1 s (native_is_ok arg_val)
      | NATIVE_IS_ERR \<Rightarrow> ret1 s (native_is_err arg_val)
      | NATIVE_UNWRAP \<Rightarrow> native_unwrap arg_val s
      | NATIVE_STREQ \<Rightarrow> native_streq arg_reg arg_val s
      | NATIVE_CORE_ID \<Rightarrow> ret1 s 0
      | NATIVE_TSC_FREQ \<Rightarrow> ret1 s 3000000000
      | NATIVE_UPTIME_NS \<Rightarrow> native_uptime_ns h s
      | NATIVE_BUSY_WAIT \<Rightarrow> ret1 s 0
      | NATIVE_RING_DEPTH \<Rightarrow> ret1 s 0
      | NATIVE_MATH_MIN \<Rightarrow> native_math_min arg_reg arg_val s
      | NATIVE_MATH_MAX \<Rightarrow> native_math_max arg_reg arg_val s
      | NATIVE_MATH_ABS \<Rightarrow> ret1 s (saturating_abs arg_val)
      | NATIVE_MATH_CLAMP \<Rightarrow> native_math_clamp arg_reg arg_val s
      | NATIVE_BIT_POPCNT \<Rightarrow> ret1 s (of_nat (count_ones arg_val))
      | NATIVE_BIT_LZCNT \<Rightarrow> ret1 s (of_nat (leading_zeros arg_val))
      | NATIVE_CRC32 \<Rightarrow> native_crc32 arg_reg arg_val s
      | NATIVE_VRAM_READ \<Rightarrow> native_vram_read arg_reg arg_val s
      | NATIVE_VRAM_WRITE \<Rightarrow> native_vram_write arg_reg arg_val s
      | NATIVE_FIX_TO_FIX \<Rightarrow> native_fix_to_fix arg_reg arg_val s
      | NATIVE_FIX_TO_I64 \<Rightarrow> native_fix_to_i64 arg_reg arg_val s
      | NATIVE_FIX_MUL \<Rightarrow> native_fix_mul arg_reg arg_val s
      | NATIVE_FIX_DIV \<Rightarrow> native_fix_div arg_reg arg_val s)"

definition op_call_nat :: "'w host \<Rightarrow> nat \<Rightarrow> nat \<Rightarrow> nat \<Rightarrow> 'w vm_run \<Rightarrow> 'w vm_run flow" where
  "op_call_nat h rd rs1 rs2 s =
     (let arg_val = reg_or 0 rs2 (mach s);
          res = (case decode_native (of_nat rs1) of
                   Some f \<Rightarrow> call_native h f rs2 arg_val s
                 | None \<Rightarrow> ret1 s 0)
      in case res of
           Ok (v, s') \<Rightarrow> Continue (s'\<lparr>mach := set_reg rd v (mach s')\<rparr>)
         | Err e \<Rightarrow> Fail e s
         | Panic \<Rightarrow> Crash)"

section \<open>Deadlines\<close>

definition op_within_start :: "'w host \<Rightarrow> nat \<Rightarrow> 'w vm_run \<Rightarrow> 'w vm_run" where
  "op_within_start h rd s =
     (let budget_ns = reg_or 500000 rd (mach s);
          (now, s') = get_uptime_ns h s;
          deadline = now + budget_ns;
          vm = mach s'
      in if dl_sp vm < 8 then
           s'\<lparr>mach := vm\<lparr>deadline_stack := (deadline_stack vm)[dl_sp vm := deadline],
                         dl_sp := dl_sp vm + 1\<rparr>\<rparr>
         else s')"

definition op_within_end :: "PX64VM \<Rightarrow> PX64VM" where
  "op_within_end vm = (if dl_sp vm > 0 then vm\<lparr>dl_sp := dl_sp vm - 1\<rparr> else vm)"

definition deadline_drop_text :: "u8 list" where
  "deadline_drop_text = bytes ''[DEADLINE_DROP] Frame dropped due to deadline breach'' @ [10]"

definition op_drop :: "'w host \<Rightarrow> 'w vm_run \<Rightarrow> 'w vm_run" where
  "op_drop h s =
     (if dl_sp (mach s) > 0 then
        let dl = deadline_stack (mach s) ! (dl_sp (mach s) - 1);
            (now, s') = get_uptime_ns h s
        in if now > dl then write_out deadline_drop_text s' else s'
      else s)"

end
