(* ===== verification/VmRun.thy ===== *)
theory VmRun
  imports VmNative
begin

text \<open>
  The fetch-decode-execute loop of the px64 machine
  (\<^verbatim>\<open>PX64VM::run_with_output\<close> in \<^verbatim>\<open>pulselang-core/src/vm.rs\<close>). The loop may run forever,
  so it is a partial function: \<^term>\<open>None\<close> is a run that never returns.
\<close>

section \<open>Executing a decoded instruction\<close>

definition on_vm :: "(PX64VM \<Rightarrow> PX64VM) \<Rightarrow> 'w vm_run \<Rightarrow> 'w vm_run flow" where
  "on_vm f s = Continue (s\<lparr>mach := f (mach s)\<rparr>)"

definition on_flow :: "(PX64VM \<Rightarrow> PX64VM flow) \<Rightarrow> 'w vm_run \<Rightarrow> 'w vm_run flow" where
  "on_flow f s =
     (case f (mach s) of
        Continue vm \<Rightarrow> Continue (s\<lparr>mach := vm\<rparr>)
      | Break vm \<Rightarrow> Break (s\<lparr>mach := vm\<rparr>)
      | Fail e vm \<Rightarrow> Fail e (s\<lparr>mach := vm\<rparr>)
      | Crash \<Rightarrow> Crash)"

definition exec_op ::
  "'w host \<Rightarrow> px64_op \<Rightarrow> nat \<Rightarrow> nat \<Rightarrow> nat \<Rightarrow> u16 \<Rightarrow> 'w vm_run \<Rightarrow> 'w vm_run flow" where
  "exec_op h op rd rs1 rs2 imm16 s =
     (case op of
        PX64_OP_NOP \<Rightarrow> Continue s
      | PX64_OP_HALT \<Rightarrow> Break s
      | PX64_OP_MOV_IMM \<Rightarrow> on_vm (op_mov_imm rd imm16) s
      | PX64_OP_LDC \<Rightarrow> on_flow (op_ldc rd imm16) s
      | PX64_OP_ADDI \<Rightarrow> on_vm (op_addi rd rs1 rs2) s
      | PX64_OP_SUBI \<Rightarrow> on_vm (op_subi rd rs1 rs2) s
      | PX64_OP_AND \<Rightarrow> on_vm (op_and rd rs1 rs2) s
      | PX64_OP_OR \<Rightarrow> on_vm (op_or rd rs1 rs2) s
      | PX64_OP_XOR \<Rightarrow> on_vm (op_xor rd rs1 rs2) s
      | PX64_OP_SHL \<Rightarrow> on_vm (op_shl rd rs1 rs2) s
      | PX64_OP_SHR \<Rightarrow> on_vm (op_shr rd rs1 rs2) s
      | PX64_OP_ARR_DEF \<Rightarrow> on_vm (op_arr_def rd imm16) s
      | PX64_OP_ARR_LOAD \<Rightarrow> on_flow (op_arr_load rd rs1 rs2) s
      | PX64_OP_ARR_STORE \<Rightarrow> on_flow (op_arr_store rd rs1 rs2) s
      | PX64_OP_STRUCT_DEF \<Rightarrow> on_vm (op_struct_def rd rs1) s
      | PX64_OP_STRUCT_LOAD \<Rightarrow> on_flow (op_struct_load rd rs1 rs2) s
      | PX64_OP_STRUCT_STORE \<Rightarrow> on_flow (op_struct_store rd rs1 rs2) s
      | PX64_OP_TBL_DEF \<Rightarrow> on_vm (op_tbl_def rd rs1 rs2) s
      | PX64_OP_TBL_LOAD \<Rightarrow> on_flow (op_tbl_load rd rs1 rs2) s
      | PX64_OP_ASSERT \<Rightarrow> on_flow (op_assert rd) s
      | PX64_OP_CALL \<Rightarrow> on_flow (op_call imm16) s
      | PX64_OP_RET \<Rightarrow> on_flow op_ret s
      | PX64_OP_MOV_REG \<Rightarrow> on_vm (op_mov_reg rd rs1) s
      | PX64_OP_MOV_STR \<Rightarrow> on_vm (op_mov_str rd rs1 rs2) s
      | PX64_OP_ADD \<Rightarrow> on_vm (op_add rd rs1 rs2) s
      | PX64_OP_SUB \<Rightarrow> on_vm (op_sub rd rs1 rs2) s
      | PX64_OP_MUL \<Rightarrow> on_vm (op_mul rd rs1 rs2) s
      | PX64_OP_DIV \<Rightarrow> on_flow (op_div rd rs1 rs2) s
      | PX64_OP_MOD \<Rightarrow> on_flow (op_mod rd rs1 rs2) s
      | PX64_OP_CMP_EQ \<Rightarrow> on_vm (op_cmp_eq rd rs1 rs2) s
      | PX64_OP_SPILL_STORE \<Rightarrow> on_vm (op_spill_store rd rs1) s
      | PX64_OP_SPILL_LOAD \<Rightarrow> on_vm (op_spill_load rd rs1) s
      | PX64_OP_CMP_NE \<Rightarrow> on_vm (op_cmp_ne rd rs1 rs2) s
      | PX64_OP_STREQ \<Rightarrow> on_vm (op_streq rd rs1 rs2) s
      | PX64_OP_CMP_LT \<Rightarrow> on_vm (op_cmp_lt rd rs1 rs2) s
      | PX64_OP_CMP_LE \<Rightarrow> on_vm (op_cmp_le rd rs1 rs2) s
      | PX64_OP_CMP_GT \<Rightarrow> on_vm (op_cmp_gt rd rs1 rs2) s
      | PX64_OP_CMP_GE \<Rightarrow> on_vm (op_cmp_ge rd rs1 rs2) s
      | PX64_OP_JMP \<Rightarrow> on_vm (op_jmp imm16) s
      | PX64_OP_JZ \<Rightarrow> on_vm (op_jz rd imm16) s
      | PX64_OP_JNZ \<Rightarrow> on_vm (op_jnz rd imm16) s
      | PX64_OP_CALL_NAT \<Rightarrow> op_call_nat h rd rs1 rs2 s
      | PX64_OP_WITHIN_START \<Rightarrow> Continue (op_within_start h rd s)
      | PX64_OP_WITHIN_END \<Rightarrow> on_vm op_within_end s
      | PX64_OP_DROP \<Rightarrow> Continue (op_drop h s))"

section \<open>One iteration\<close>

definition fetchable :: "PX64VM \<Rightarrow> bool" where
  "fetchable vm \<longleftrightarrow> ip vm + 4 \<le> length (vm_code vm)"

text \<open>The step counter and the instruction pointer advance before the instruction executes.\<close>

definition tick :: "PX64VM \<Rightarrow> PX64VM" where
  "tick vm = vm\<lparr>steps := steps vm + 1, ip := ip vm + 4\<rparr>"

definition invalid_opcode :: CompileError where
  "invalid_opcode =
     simple ''ERR_PX64_INVALID_OPCODE'' ''Invalid px64 instruction opcode encountered''"

definition wcet_exceeded :: CompileError where
  "wcet_exceeded =
     simple ''ERR_PX64_WCET_EXCEEDED''
       ''Execution exceeded px64 WCET instruction step limit (infinite loop protection)''"

definition vm_step :: "'w host \<Rightarrow> 'w vm_run \<Rightarrow> 'w vm_run flow" where
  "vm_step h s =
     (let vm = mach s;
          b = (\<lambda>k. vm_code vm ! (ip vm + k));
          s1 = s\<lparr>mach := tick vm\<rparr>
      in case decode_op (b 0) of
           Some op \<Rightarrow> exec_op h op (unat (b 1)) (unat (b 2)) (unat (b 3)) (from_be [b 2, b 3]) s1
         | None \<Rightarrow> Fail invalid_opcode s1)"

section \<open>The loop\<close>

datatype 's run_result = Finished 's | Failed CompileError 's | Panicked

partial_function (option) run_with_output :: "'w host \<Rightarrow> 'w vm_run \<Rightarrow> 'w vm_run run_result option" where
  "run_with_output h s =
     (if fetchable (mach s) then
        if max_steps (mach s) \<le> steps (mach s) then Some (Failed wcet_exceeded s)
        else case vm_step h s of
               Continue s' \<Rightarrow> run_with_output h s'
             | Break s' \<Rightarrow> Some (Finished s')
             | Fail e s' \<Rightarrow> Some (Failed e s')
             | Crash \<Rightarrow> Some Panicked
      else Some (Finished s))"

text \<open>
  A machine that executes another iteration, what the loop then does, and the induction
  over the runs that return.
\<close>

definition running :: "PX64VM \<Rightarrow> bool" where
  "running vm \<longleftrightarrow> fetchable vm \<and> steps vm < max_steps vm"

lemma run_stopped:
  assumes "\<not> running (mach s)"
  shows "run_with_output h s =
    Some (if fetchable (mach s) then Failed wcet_exceeded s else Finished s)"
  using assms by (subst run_with_output.simps) (auto simp: running_def)

lemma run_running:
  assumes "running (mach s)"
  shows "run_with_output h s =
     (case vm_step h s of
        Continue s' \<Rightarrow> run_with_output h s'
      | Break s' \<Rightarrow> Some (Finished s')
      | Fail e s' \<Rightarrow> Some (Failed e s')
      | Crash \<Rightarrow> Some Panicked)"
  using assms by (subst run_with_output.simps) (simp add: running_def)

lemma run_induct [consumes 1, case_names stopped continue halt fail crash]:
  assumes "run_with_output h s = Some r"
    and stopped: "\<And>s. \<not> running (mach s) \<Longrightarrow>
      P s (if fetchable (mach s) then Failed wcet_exceeded s else Finished s)"
    and continue: "\<And>s s' r. running (mach s) \<Longrightarrow> vm_step h s = Continue s' \<Longrightarrow> P s' r \<Longrightarrow> P s r"
    and halt: "\<And>s s'. running (mach s) \<Longrightarrow> vm_step h s = Break s' \<Longrightarrow> P s (Finished s')"
    and fail: "\<And>s s' e. running (mach s) \<Longrightarrow> vm_step h s = Fail e s' \<Longrightarrow> P s (Failed e s')"
    and crash: "\<And>s. running (mach s) \<Longrightarrow> vm_step h s = Crash \<Longrightarrow> P s Panicked"
  shows "P s r"
proof -
  have "g = h \<longrightarrow> P s r" if "run_with_output g s = Some r" for g s r
  proof (rule run_with_output.raw_induct [where P = "\<lambda>g s r. g = h \<longrightarrow> P s r", OF _ that], intro impI)
    fix f :: "'a host \<Rightarrow> 'a vm_run \<Rightarrow> 'a vm_run run_result option" and g s r
    assume IH: "\<And>g s r. f g s = Some r \<Longrightarrow> g = h \<longrightarrow> P s r" and g: "g = h"
      and eq: "(if fetchable (mach s) then
        if max_steps (mach s) \<le> steps (mach s) then Some (Failed wcet_exceeded s)
        else case vm_step g s of Continue s' \<Rightarrow> f g s' | Break s' \<Rightarrow> Some (Finished s')
             | Fail e s' \<Rightarrow> Some (Failed e s') | Crash \<Rightarrow> Some Panicked
      else Some (Finished s)) = Some r"
    show "P s r"
    proof (cases "running (mach s)")
      case False
      with eq stopped [OF False] show ?thesis by (auto simp: running_def split: if_splits)
    next
      case True
      with eq g IH show ?thesis
        by (cases "vm_step h s") (auto simp: running_def intro: continue halt fail crash)
    qed
  qed
  with assms(1) show ?thesis by blast
qed

text \<open>\<^verbatim>\<open>run\<close> is the same loop with the output written to the console or discarded.\<close>

definition vm_start :: "PX64VM \<Rightarrow> 'w \<Rightarrow> 'w vm_run" where
  "vm_start vm w = \<lparr>mach = vm, out = [], world = w\<rparr>"

definition run_vm :: "'w host \<Rightarrow> PX64VM \<Rightarrow> 'w \<Rightarrow> 'w vm_run run_result option" where
  "run_vm h vm w = run_with_output h (vm_start vm w)"

text \<open>A host that never answers, for concrete runs.\<close>

definition idle_host :: "unit host" where
  "idle_host =
     \<lparr>cfg_std = False, rdtsc = (\<lambda>w. (0, w)), read_host_key = (\<lambda>w. (- 1, w)),
      host_term_size = (\<lambda>w. (0, w)), path_exists = (\<lambda>_ w. (False, w)),
      write_path = (\<lambda>_ _ w. (False, w))\<rparr>"

section \<open>Natives keep the machine well formed\<close>

text \<open>
  A native keeps the machine as an instruction does, but that reading a key sets the step
  counter to zero.
\<close>

definition nat_keeps :: "PX64VM \<Rightarrow> PX64VM \<Rightarrow> bool" where
  "nat_keeps vm vm' \<longleftrightarrow> vm_ok vm' \<and> same_program vm vm' \<and> (steps vm' = steps vm \<or> steps vm' = 0)"

lemma keeps_nat_keeps: "keeps vm vm' \<Longrightarrow> nat_keeps vm vm'"
  by (simp add: keeps_def nat_keeps_def)

lemma nat_keeps_refl: "vm_ok vm \<Longrightarrow> nat_keeps vm vm"
  by (simp add: nat_keeps_def)

lemma keeps_vram:
  assumes "vm_ok vm" and "length slot = 4096"
  shows "keeps vm (vm\<lparr>vram := (vram vm)[k := slot]\<rparr>)"
proof -
  have "list_all (\<lambda>v. length v = 4096) ((vram vm)[k := slot])"
    using assms by (auto simp: vm_ok_def list_all_iff dest!: subsetD [OF set_update_subset_insert])
  with assms show ?thesis by (simp add: vm_inv_simps)
qed

lemma vram_slot_length: "vm_ok vm \<Longrightarrow> length (vram vm ! (n mod 4)) = 4096"
  by (simp add: vm_ok_def list_all_length)

lemma vram_store_length:
  "vram_store slot off v = Some slot' \<Longrightarrow> length slot' = length slot"
  by (auto simp: vram_store_def Let_def split: if_splits)

text \<open>The native results that leave the machine as it is.\<close>

definition pure_native :: "'w vm_run \<Rightarrow> 'w native_result \<Rightarrow> bool" where
  "pure_native s r =
     (case r of
        Ok (v, s') \<Rightarrow> mach s' = mach s
      | Err e \<Rightarrow> is_runtime e
      | Panic \<Rightarrow> True)"

lemma pure_ret1 [simp]: "pure_native s (ret1 s v)"
  by (simp add: pure_native_def ret1_def)

lemma pure_write [simp]: "pure_native s (ret1 (write_out b s) v)"
  by (simp add: pure_native_def ret1_def write_out_def)

lemma pure_with_arg: "(\<And>v. pure_native s (f v)) \<Longrightarrow> pure_native s (with_arg k d r s f)"
  by (simp add: with_arg_def pure_native_def split: option.split)

lemma pure_clock [simp]: "pure_native s (Ok (get_tsc h s))" "pure_native s (Ok (get_uptime_ns h s))"
  by (simp_all add: pure_native_def case_prod_beta)

lemmas native_defs =
  native_print_def native_println_def native_sys_tsc_def native_uptime_ns_def
  native_term_size_def native_str_len_def native_char_at_def native_file_exists_def
  native_file_write_def native_script_argc_def native_script_arg_def native_unwrap_def
  native_streq_def native_math_min_def native_math_max_def native_math_clamp_def native_crc32_def
  native_vram_read_def native_fix_to_fix_def native_fix_to_i64_def native_fix_mul_def
  native_fix_div_def

lemma pure_file_exists: "pure_native s (native_file_exists h v s)"
  by (simp add: native_file_exists_def pure_native_def split: option.split prod.split)

lemma pure_file_write: "pure_native s (native_file_write h r v s)"
  unfolding native_file_write_def
  by (rule pure_with_arg) (simp add: pure_native_def split: option.split prod.split)

lemma pure_term_size: "pure_native s (native_term_size h s)"
  by (simp add: native_term_size_def pure_native_def split: prod.split)

lemma pure_unwrap: "pure_native s (native_unwrap v s)"
  by (simp add: native_unwrap_def pure_native_def)

lemma pure_vram_read: "pure_native s (native_vram_read r v s)"
  unfolding native_vram_read_def Let_def
  by (rule pure_with_arg) (simp add: pure_native_def split: option.split)

lemma pure_fix_div: "pure_native s (native_fix_div r v s)"
  unfolding native_fix_div_def
  by (intro pure_with_arg) (simp add: pure_native_def)

lemma call_native_pure:
  assumes "f \<noteq> NATIVE_TERM_READ_KEY" and "f \<noteq> NATIVE_VRAM_WRITE"
  shows "pure_native s (call_native h f r v s)"
  using assms
  by (cases f)
    (simp_all add: call_native_def pure_file_exists pure_file_write pure_term_size pure_unwrap
      pure_vram_read pure_fix_div native_print_def native_println_def native_sys_tsc_def
      native_uptime_ns_def native_str_len_def native_char_at_def native_script_argc_def
      native_script_arg_def native_streq_def native_math_min_def native_math_max_def
      native_math_clamp_def native_crc32_def native_fix_to_fix_def native_fix_to_i64_def
      native_fix_mul_def pure_with_arg)

end
