(* ===== verification/VmInv.thy ===== *)
theory VmInv
  imports VmRun
begin

text \<open>
  Every instruction, every iteration and every run of the px64 machine keeps its
  invariant, and the step watchdog stops every run that reads no key.
\<close>

section \<open>The invariant over steps and runs\<close>

definition run_keeps :: "(PX64VM \<Rightarrow> PX64VM \<Rightarrow> bool) \<Rightarrow> 'w vm_run \<Rightarrow> 'w vm_run flow \<Rightarrow> bool" where
  "run_keeps K s f =
     (case f of
        Continue s' \<Rightarrow> K (mach s) (mach s')
      | Break s' \<Rightarrow> K (mach s) (mach s')
      | Fail e s' \<Rightarrow> K (mach s) (mach s') \<and> is_runtime e
      | Crash \<Rightarrow> True)"

lemma run_keeps_mono:
  "run_keeps K s f \<Longrightarrow> (\<And>a b. K a b \<Longrightarrow> L a b) \<Longrightarrow> run_keeps L s f"
  by (auto simp: run_keeps_def split: flow.splits)

lemma on_vm_keeps: "keeps (mach s) (f (mach s)) \<Longrightarrow> run_keeps keeps s (on_vm f s)"
  by (simp add: run_keeps_def on_vm_def)

lemma on_flow_keeps:
  "vm_ok (mach s) \<Longrightarrow> flow_keeps (mach s) (f (mach s)) \<Longrightarrow> run_keeps keeps s (on_flow f s)"
  by (auto simp: run_keeps_def on_flow_def flow_keeps_def keeps_refl split: flow.split)

lemma keeps_within_end [keeps_ok]: "vm_ok vm \<Longrightarrow> keeps vm (op_within_end vm)"
  by (auto simp: op_within_end_def vm_inv_simps)

lemma keeps_within_start:
  "vm_ok (mach s) \<Longrightarrow> run_keeps keeps s (Continue (op_within_start h rd s))"
  using get_uptime_mach(1) [of h s]
  by (cases "get_uptime_ns h s")
    (simp add: op_within_start_def run_keeps_def keeps_refl Let_def vm_inv_simps)

lemma keeps_drop: "vm_ok (mach s) \<Longrightarrow> run_keeps keeps s (Continue (op_drop h s))"
  using get_uptime_mach(1) [of h s]
  by (cases "get_uptime_ns h s")
    (simp add: op_drop_def run_keeps_def keeps_refl Let_def write_out_def)

lemma call_native_keeps:
  assumes "vm_ok (mach s)" and "call_native h f r v s = Ok (x, s')"
  shows "nat_keeps (mach s) (mach s')"
    and "f \<noteq> NATIVE_TERM_READ_KEY \<Longrightarrow> keeps (mach s) (mach s')"
proof -
  consider "f = NATIVE_TERM_READ_KEY" | "f = NATIVE_VRAM_WRITE"
    | "f \<noteq> NATIVE_TERM_READ_KEY" "f \<noteq> NATIVE_VRAM_WRITE" by blast
  then have "nat_keeps (mach s) (mach s') \<and>
    (f \<noteq> NATIVE_TERM_READ_KEY \<longrightarrow> keeps (mach s) (mach s'))"
  proof cases
    case 1
    with assms show ?thesis
      by (auto simp: call_native_def native_term_read_key_def nat_keeps_def vm_ok_def
          same_program_def Let_def split: if_splits prod.splits)
  next
    case 2
    then obtain slot' where m: "mach s' = (mach s)\<lparr>vram := (vram (mach s))[unat v mod 4 := slot']\<rparr>"
      and l: "length slot' = 4096"
      using assms vram_slot_length [of "mach s" "unat v"]
      by (auto simp: call_native_def native_vram_write_def with_arg_def Let_def
          dest!: vram_store_length split: option.splits)
    from keeps_vram [OF assms(1) l] show ?thesis
      unfolding m by (simp add: keeps_nat_keeps)
  next
    case 3
    from call_native_pure [OF this, of s h r v] assms(2) have "mach s' = mach s"
      by (simp add: pure_native_def)
    with assms(1) show ?thesis
      by (simp add: keeps_refl nat_keeps_refl)
  qed
  then show "nat_keeps (mach s) (mach s')"
    and "f \<noteq> NATIVE_TERM_READ_KEY \<Longrightarrow> keeps (mach s) (mach s')" by simp_all
qed

lemma call_native_err: "call_native h f r v s = Err e \<Longrightarrow> is_runtime e"
  using call_native_pure [of f s h r v]
  by (cases "f = NATIVE_TERM_READ_KEY \<or> f = NATIVE_VRAM_WRITE")
    (auto simp: pure_native_def call_native_def native_term_read_key_def native_vram_write_def
      with_arg_def Let_def split: if_splits prod.splits option.splits)

lemma nat_keeps_set_reg: "nat_keeps a b \<Longrightarrow> nat_keeps a (set_reg rd v b)"
  by (auto simp: nat_keeps_def set_reg_def vm_ok_def same_program_def)

lemma keeps_call_nat:
  assumes "vm_ok (mach s)"
  shows "run_keeps nat_keeps s (op_call_nat h rd rs1 rs2 s)"
    and "decode_native (of_nat rs1) \<noteq> Some NATIVE_TERM_READ_KEY \<Longrightarrow>
         run_keeps keeps s (op_call_nat h rd rs1 rs2 s)"
proof -
  let ?v = "reg_or 0 rs2 (mach s)"
  have "run_keeps nat_keeps s (op_call_nat h rd rs1 rs2 s) \<and>
    (decode_native (of_nat rs1) \<noteq> Some NATIVE_TERM_READ_KEY \<longrightarrow>
      run_keeps keeps s (op_call_nat h rd rs1 rs2 s))"
  proof (cases "decode_native (of_nat rs1)")
    case None
    then show ?thesis
      using keeps_set_reg [OF assms]
      by (simp add: op_call_nat_def ret1_def run_keeps_def keeps_nat_keeps)
  next
    case (Some f)
    show ?thesis
    proof (cases "call_native h f rs2 ?v s")
      case (Ok p)
      obtain x s' where p: "p = (x, s')" by (cases p)
      note k = call_native_keeps [OF assms, of h f rs2 ?v x s'] Ok p
      have "nat_keeps (mach s) (set_reg rd x (mach s'))"
        using k by (simp add: nat_keeps_set_reg)
      moreover have "f \<noteq> NATIVE_TERM_READ_KEY \<longrightarrow> keeps (mach s) (set_reg rd x (mach s'))"
        using k by (meson keeps_def keeps_set_reg keeps_trans)
      ultimately show ?thesis
        using Some Ok p by (simp add: op_call_nat_def run_keeps_def)
    next
      case (Err e)
      then show ?thesis
        using Some assms call_native_err
        by (fastforce simp: op_call_nat_def run_keeps_def keeps_refl nat_keeps_refl)
    next
      case Panic
      then show ?thesis using Some by (simp add: op_call_nat_def run_keeps_def)
    qed
  qed
  then show "run_keeps nat_keeps s (op_call_nat h rd rs1 rs2 s)"
    and "decode_native (of_nat rs1) \<noteq> Some NATIVE_TERM_READ_KEY \<Longrightarrow>
         run_keeps keeps s (op_call_nat h rd rs1 rs2 s)" by simp_all
qed

lemma keeps_alu_ops [keeps_ok]:
  assumes "vm_ok vm"
  shows "keeps vm (op_mov_imm a i vm)" "keeps vm (op_mov_reg a b vm)" "keeps vm (op_mov_str a b c vm)"
    "keeps vm (op_addi a b c vm)" "keeps vm (op_subi a b c vm)" "keeps vm (op_and a b c vm)"
    "keeps vm (op_or a b c vm)" "keeps vm (op_xor a b c vm)" "keeps vm (op_shl a b c vm)"
    "keeps vm (op_shr a b c vm)" "keeps vm (op_add a b c vm)" "keeps vm (op_sub a b c vm)"
    "keeps vm (op_mul a b c vm)" "keeps vm (op_cmp_eq a b c vm)" "keeps vm (op_cmp_ne a b c vm)"
    "keeps vm (op_streq a b c vm)" "keeps vm (op_cmp_lt a b c vm)" "keeps vm (op_cmp_le a b c vm)"
    "keeps vm (op_cmp_gt a b c vm)" "keeps vm (op_cmp_ge a b c vm)"
  using assms by (simp_all add: alu_defs keeps_set_reg keeps_alu3 keeps_refl)

lemma exec_op_keeps:
  assumes ok: "vm_ok (mach s)"
    and nk: "op = PX64_OP_CALL_NAT \<Longrightarrow> decode_native (of_nat rs1) \<noteq> Some NATIVE_TERM_READ_KEY"
  shows "run_keeps keeps s (exec_op h op rd rs1 rs2 imm s)"
  using nk
  by (cases op)
    (simp_all add: exec_op_def on_vm_keeps on_flow_keeps ok keeps_ok keeps_within_start keeps_drop
      keeps_call_nat, simp_all add: run_keeps_def keeps_refl ok)

lemma exec_op_nat_keeps:
  assumes ok: "vm_ok (mach s)"
  shows "run_keeps nat_keeps s (exec_op h op rd rs1 rs2 imm s)"
proof (cases "op = PX64_OP_CALL_NAT")
  case True
  then show ?thesis by (simp add: exec_op_def keeps_call_nat ok)
next
  case False
  then show ?thesis
    using exec_op_keeps [OF ok] run_keeps_mono keeps_nat_keeps by blast
qed

text \<open>One iteration: the counter rises by one, unless the iteration read a key.\<close>

definition reads_key :: "PX64VM \<Rightarrow> bool" where
  "reads_key vm \<longleftrightarrow>
     vm_code vm ! ip vm = op_code PX64_OP_CALL_NAT \<and>
     vm_code vm ! (ip vm + 2) = native_code NATIVE_TERM_READ_KEY"

definition step_rel :: "PX64VM \<Rightarrow> PX64VM \<Rightarrow> bool" where
  "step_rel vm vm' \<longleftrightarrow>
     vm_ok vm' \<and> same_program vm vm' \<and>
     (steps vm' = steps vm + 1 \<or> reads_key vm \<and> steps vm' = 0)"

lemma tick_ok: "vm_ok vm \<Longrightarrow> steps vm < max_steps vm \<Longrightarrow> vm_ok (tick vm)"
  by (simp add: tick_def vm_ok_def)

lemma tick_simps [simp]:
  "same_program vm (tick vm)" "steps (tick vm) = steps vm + 1" "ip (tick vm) = ip vm + 4"
  by (simp_all add: tick_def same_program_def)

lemma run_keeps_tick:
  assumes "run_keeps K (s\<lparr>mach := tick (mach s)\<rparr>) f"
    and "\<And>vm'. K (tick (mach s)) vm' \<Longrightarrow> L (mach s) vm'"
  shows "run_keeps L s f"
  using assms by (auto simp: run_keeps_def split: flow.splits)

lemma vm_step_keeps:
  assumes "vm_ok (mach s)" and "steps (mach s) < max_steps (mach s)"
  shows "run_keeps step_rel s (vm_step h s)"
proof -
  let ?vm = "mach s" and ?s1 = "s\<lparr>mach := tick (mach s)\<rparr>"
  let ?b = "\<lambda>k. vm_code ?vm ! (ip ?vm + k)"
  have ok: "vm_ok (mach ?s1)" using tick_ok [OF assms] by simp
  show ?thesis
  proof (cases "decode_op (?b 0)")
    case None
    then show ?thesis
      using ok by (simp add: vm_step_def Let_def run_keeps_def step_rel_def invalid_opcode_def)
  next
    case (Some op)
    then have b0: "?b 0 = op_code op" by (simp add: decode_op_Some)
    let ?x = "exec_op h op (unat (?b 1)) (unat (?b 2)) (unat (?b 3)) (from_be [?b 2, ?b 3]) ?s1"
    have step: "vm_step h s = ?x"
      using Some by (simp add: vm_step_def Let_def)
    show ?thesis
    proof (cases "reads_key ?vm")
      case True
      have "run_keeps nat_keeps ?s1 ?x" by (rule exec_op_nat_keeps [OF ok])
      then show ?thesis
        unfolding step
        by (rule run_keeps_tick)
          (use True in \<open>auto simp: nat_keeps_def step_rel_def same_program_def tick_def\<close>)
    next
      case False
      have "run_keeps keeps ?s1 ?x"
        by (rule exec_op_keeps [OF ok])
          (use False b0 in \<open>simp add: reads_key_def decode_native_Some\<close>)
      then show ?thesis
        unfolding step
        by (rule run_keeps_tick) (auto simp: keeps_def step_rel_def same_program_def tick_def)
    qed
  qed
qed

text \<open>The result of a run, its states and its error.\<close>

definition result_keeps :: "(PX64VM \<Rightarrow> bool) \<Rightarrow> 'w vm_run run_result \<Rightarrow> bool" where
  "result_keeps Q r =
     (case r of
        Finished s \<Rightarrow> Q (mach s)
      | Failed e s \<Rightarrow> Q (mach s) \<and> is_runtime e
      | Panicked \<Rightarrow> True)"

lemma run_keeps_invariant:
  assumes "run_with_output h s = Some r" and "vm_ok (mach s)"
  shows "result_keeps (\<lambda>vm. vm_ok vm \<and> same_program (mach s) vm) r"
  using assms
proof (induction rule: run_induct)
  case (stopped s)
  then show ?case by (simp add: result_keeps_def wcet_exceeded_def)
next
  case (continue s s' r)
  then have "vm_ok (mach s')" and "same_program (mach s) (mach s')"
    using vm_step_keeps [of s h] by (simp_all add: running_def run_keeps_def step_rel_def)
  with continue.IH show ?case
    by (auto simp: result_keeps_def intro: same_program_trans split: run_result.splits)
qed (use vm_step_keeps [of _ h] in
      \<open>fastforce simp: running_def run_keeps_def step_rel_def result_keeps_def\<close>)+

section \<open>The watchdog\<close>

text \<open>A program with no instruction that reads a key, at any offset a jump can reach.\<close>

definition no_read_key :: "u8 list \<Rightarrow> bool" where
  "no_read_key prog =
     list_all (\<lambda>i. \<not> (prog ! i = op_code PX64_OP_CALL_NAT \<and>
                     prog ! (i + 2) = native_code NATIVE_TERM_READ_KEY)) [0..<length prog - 3]"

lemma no_read_key_step:
  "no_read_key (vm_code vm) \<Longrightarrow> fetchable vm \<Longrightarrow> \<not> reads_key vm"
  by (auto simp: no_read_key_def list_all_iff fetchable_def reads_key_def)

lemma watchdog_run:
  assumes "vm_ok (mach s)" and "no_read_key (vm_code (mach s))"
  shows "\<exists>r. run_with_output h s = Some r \<and>
             result_keeps (\<lambda>vm. steps (mach s) \<le> steps vm \<and> steps vm \<le> max_steps (mach s)) r"
  using assms
proof (induction "max_steps (mach s) - steps (mach s)" arbitrary: s rule: less_induct)
  case less
  note ok = less.prems(1)
  have le: "steps (mach s) \<le> max_steps (mach s)" using ok by (simp add: vm_ok_def)
  show ?case
  proof (cases "fetchable (mach s) \<and> steps (mach s) < max_steps (mach s)")
    case False
    then show ?thesis
      using le by (subst run_with_output.simps) (auto simp: result_keeps_def wcet_exceeded_def)
  next
    case True
    have nk: "\<not> reads_key (mach s)"
      using less.prems(2) True no_read_key_step by blast
    have k: "run_keeps step_rel s (vm_step h s)"
      using vm_step_keeps [OF ok] True by blast
    show ?thesis
    proof (cases "vm_step h s")
      case (Continue s')
      with k nk have s': "vm_ok (mach s')" "same_program (mach s) (mach s')"
        "steps (mach s') = steps (mach s) + 1"
        by (auto simp: run_keeps_def step_rel_def)
      then have "max_steps (mach s') - steps (mach s') < max_steps (mach s) - steps (mach s)"
        and "no_read_key (vm_code (mach s'))"
        using True less.prems(2) by (auto simp: same_program_def)
      from less.hyps [OF this(1) s'(1) this(2)] s' obtain r where
        "run_with_output h s' = Some r"
        "result_keeps (\<lambda>vm. steps (mach s) + 1 \<le> steps vm \<and> steps vm \<le> max_steps (mach s)) r"
        by (auto simp: same_program_def)
      moreover have "run_with_output h s = run_with_output h s'"
        using True Continue by (subst run_with_output.simps) simp
      ultimately show ?thesis
        by (auto simp: result_keeps_def split: run_result.splits)
    qed (use True k nk in \<open>subst run_with_output.simps,
          auto simp: run_keeps_def step_rel_def result_keeps_def vm_ok_def same_program_def\<close>)+
  qed
qed

section \<open>Reading a key defeats the watchdog\<close>

text \<open>\<^verbatim>\<open>CALL_NAT $rax, @term_read_key; JMP 0\<close>.\<close>

definition key_loop :: "u8 list" where
  "key_loop = [18, 0, 36, 0, 15, 0, 0, 0]"

definition in_key_loop :: "PX64VM \<Rightarrow> bool" where
  "in_key_loop vm \<longleftrightarrow>
     vm_code vm = key_loop \<and> (ip vm = 0 \<and> steps vm \<le> 1 \<or> ip vm = 4 \<and> steps vm = 0) \<and>
     1 < max_steps vm"

lemma decode_key_loop [simp]:
  "decode_op 18 = Some PX64_OP_CALL_NAT" "decode_op 15 = Some PX64_OP_JMP"
  "decode_native 36 = Some NATIVE_TERM_READ_KEY"
  by (simp_all add: decode_op_Some decode_native_Some)

lemma set_reg_frame [simp]:
  "ip (set_reg r v vm) = ip vm" "steps (set_reg r v vm) = steps vm"
  "max_steps (set_reg r v vm) = max_steps vm" "vm_code (set_reg r v vm) = vm_code vm"
  by (simp_all add: set_reg_def)

lemma key_loop_step:
  assumes "in_key_loop (mach s)"
  shows "\<exists>s'. vm_step h s = Continue s' \<and> in_key_loop (mach s')"
proof (cases "ip (mach s) = 0")
  case True
  with assms have "vm_step h s = op_call_nat h 0 36 0 (s\<lparr>mach := tick (mach s)\<rparr>)"
    by (simp add: vm_step_def Let_def in_key_loop_def key_loop_def exec_op_def)
  then show ?thesis
    using assms True
    by (auto simp: op_call_nat_def call_native_def native_term_read_key_def in_key_loop_def tick_def
        Let_def split: prod.split)
next
  case False
  with assms have "vm_step h s = Continue (s\<lparr>mach := op_jmp 0 (tick (mach s))\<rparr>)"
    by (simp add: vm_step_def Let_def in_key_loop_def key_loop_def exec_op_def on_vm_def
        from_be_def)
  then show ?thesis
    using assms False by (auto simp: op_jmp_def in_key_loop_def tick_def)
qed

lemma in_key_loop_running: "in_key_loop vm \<Longrightarrow> running vm"
  by (auto simp: in_key_loop_def running_def fetchable_def key_loop_def)

lemma key_loop_diverges:
  assumes "in_key_loop (mach s)"
  shows "run_with_output h s = None"
proof (rule ccontr)
  assume "run_with_output h s \<noteq> None"
  then obtain r where "run_with_output h s = Some r" by blast
  then have "\<not> in_key_loop (mach s)"
    by (induction rule: run_induct)
      (use in_key_loop_running key_loop_step [of _ h] in \<open>fastforce+\<close>)
  with assms show False by simp
qed

section \<open>Properties\<close>

text \<open>
  C2: a run that returns, from any well-formed machine and on any host, ends in a
  well-formed machine (stack pointers inside their stacks, every array its declared length,
  step counter within its limit) with the program unchanged, and an error it returns is
  classified as a runtime error.
\<close>

theorem vm_run_invariant:
  assumes "run_with_output h s = Some r" and "vm_ok (mach s)"
  shows "case r of
      Finished s' \<Rightarrow> vm_ok (mach s') \<and> same_program (mach s) (mach s')
    | Failed e s' \<Rightarrow> vm_ok (mach s') \<and> same_program (mach s) (mach s') \<and> is_runtime e
    | Panicked \<Rightarrow> True"
  using run_keeps_invariant [OF assms] by (cases r) (simp_all add: result_keeps_def)

theorem vm_run_invariant_witness:
  "\<exists>s'. run_with_output idle_host (vm_start (vm_new [22, 0, 0, 0] [] [] []) ()) = Some (Finished s')
     \<and> vm_ok (mach s')"
proof -
  let ?s = "vm_start (vm_new [22, 0, 0, 0] [] [] []) ()"
  have ok: "vm_ok (mach ?s)" by (simp add: vm_start_def)
  have d: "decode_op 22 = Some PX64_OP_HALT" by (simp add: decode_op_Some)
  have r: "run_with_output idle_host ?s = Some (Finished (?s\<lparr>mach := tick (mach ?s)\<rparr>))"
    by (subst run_with_output.simps)
      (simp add: fetchable_def vm_step_def exec_op_def d vm_start_def vm_new_def)
  show ?thesis using r vm_run_invariant [OF r ok] by auto
qed

text \<open>
  C1: the step watchdog is total. On every host, a well-formed machine whose program holds
  no read-key instruction returns (it cannot loop forever), and when it stops it has executed
  at most \<^verbatim>\<open>max_steps\<close> instructions.
\<close>

theorem watchdog_terminates:
  assumes "vm_ok (mach s)" and "no_read_key (vm_code (mach s))"
  shows "\<exists>r. run_with_output h s = Some r \<and>
    (case r of
       Finished s' \<Rightarrow> steps (mach s') \<le> max_steps (mach s)
     | Failed e s' \<Rightarrow> steps (mach s') \<le> max_steps (mach s)
     | Panicked \<Rightarrow> True)"
  using watchdog_run [OF assms, of h]
  by (auto simp: result_keeps_def split: run_result.splits)

theorem watchdog_terminates_witness:
  "\<exists>r. run_with_output idle_host (vm_start (vm_new [15, 0, 0, 0] [] [] []) ()) = Some r"
proof -
  let ?s = "vm_start (vm_new [15, 0, 0, 0] [] [] []) ()"
  have "vm_ok (mach ?s)" by (simp add: vm_start_def)
  moreover have "no_read_key (vm_code (mach ?s))"
    by (simp add: no_read_key_def vm_start_def vm_new_def)
  ultimately show ?thesis
    using watchdog_terminates [of ?s idle_host] by blast
qed

text \<open>
  Reading a key resets the step counter, so the watchdog does not bound a program that
  polls the keyboard: \<^verbatim>\<open>CALL_NAT $rax, @term_read_key; JMP 0\<close> never returns, on any host and
  whatever keys arrive.
\<close>

theorem read_key_defeats_watchdog:
  "run_with_output h (vm_start (vm_new key_loop pool consts args) w) = None"
  by (rule key_loop_diverges) (simp add: in_key_loop_def vm_start_def vm_new_def)

end
