(* ===== verification/VmReplay.thy ===== *)
theory VmReplay
  imports VmInv
begin

text \<open>
  Deterministic replay: with \<^verbatim>\<open>DeterministicReplayConfig\<close> enabled, what a run does to the
  machine and its output depends on the program alone, never on the host's clock.
\<close>

section \<open>What a run shows\<close>

text \<open>The machine and its output, without the host's state.\<close>

definition vis :: "'w vm_run \<Rightarrow> PX64VM \<times> u8 list" where
  "vis s = (mach s, out s)"

definition vis_flow :: "'w vm_run flow \<Rightarrow> (PX64VM \<times> u8 list) flow" where
  "vis_flow f =
     (case f of
        Continue s \<Rightarrow> Continue (vis s)
      | Break s \<Rightarrow> Break (vis s)
      | Fail e s \<Rightarrow> Fail e (vis s)
      | Crash \<Rightarrow> Crash)"

definition vis_native :: "'w native_result \<Rightarrow> (CompileError, i64 \<times> PX64VM \<times> u8 list) outcome" where
  "vis_native r =
     (case r of Ok (v, s) \<Rightarrow> Ok (v, vis s) | Err e \<Rightarrow> Err e | Panic \<Rightarrow> Panic)"

definition vis_result :: "'w vm_run run_result \<Rightarrow> (PX64VM \<times> u8 list) run_result" where
  "vis_result r =
     (case r of
        Finished s \<Rightarrow> Finished (vis s)
      | Failed e s \<Rightarrow> Failed e (vis s)
      | Panicked \<Rightarrow> Panicked)"

lemma vis_eq_iff: "vis s = vis t \<longleftrightarrow> mach s = mach t \<and> out s = out t"
  by (simp add: vis_def)

definition replaying :: "PX64VM \<Rightarrow> bool" where
  "replaying vm \<longleftrightarrow> (\<exists>cfg. replay_config vm = Some cfg \<and> enabled cfg)"

text \<open>The natives whose answer comes from the host's console or files.\<close>

definition host_native :: "native \<Rightarrow> bool" where
  "host_native f \<longleftrightarrow>
     f \<in> {NATIVE_TERM_READ_KEY, NATIVE_TERM_SIZE, NATIVE_FILE_EXISTS, NATIVE_FILE_WRITE}"

definition no_host_calls :: "u8 list \<Rightarrow> bool" where
  "no_host_calls prog =
     list_all (\<lambda>i. \<not> (prog ! i = op_code PX64_OP_CALL_NAT \<and>
         prog ! (i + 2) \<in> set [36, 37, 39, 40])) [0..<length prog - 3]"

text \<open>
  A host cannot influence a program when the build has no \<^verbatim>\<open>std\<close> (the console and file
  natives then answer with constants) or when the program calls none of those natives.
\<close>

definition sealed :: "'w host \<Rightarrow> u8 list \<Rightarrow> bool" where
  "sealed h prog \<longleftrightarrow> \<not> cfg_std h \<or> no_host_calls prog"

section \<open>Natives\<close>

lemma replay_clock:
  assumes "replaying (mach s)"
  shows "get_tsc h s = (the (replay_tsc (mach s)), s)"
    and "get_uptime_ns h s = (the (replay_uptime (mach s)), s)"
  using assms
  by (auto simp: replaying_def get_tsc_def get_uptime_ns_def replay_tsc_def replay_uptime_def)

lemma vis_native_with_arg:
  "vis_native (with_arg k d r s f) =
     (case nat_arg k d r (mach s) of Some v \<Rightarrow> vis_native (f v) | None \<Rightarrow> Panic)"
  by (simp add: with_arg_def vis_native_def split: option.split)

lemma vis_native_Ok [simp]: "vis_native (Ok (v, s)) = Ok (v, mach s, out s)"
  by (simp add: vis_native_def vis_def)

lemma vis_native_Err [simp]: "vis_native (Err e) = Err e"
  by (simp add: vis_native_def)

lemma vis_native_Panic [simp]: "vis_native Panic = Panic"
  by (simp add: vis_native_def)

lemma vis_native_ret1 [simp]: "vis_native (ret1 s v) = Ok (v, mach s, out s)"
  by (simp add: ret1_def)

lemma write_out_simps [simp]: "mach (write_out b s) = mach s" "out (write_out b s) = out s @ b"
  by (simp_all add: write_out_def)

lemma vis_native_if:
  "vis_native (if b then x else y) = (if b then vis_native x else vis_native y)"
  by simp

lemma vis_native_option:
  "vis_native (case p of None \<Rightarrow> x | Some v \<Rightarrow> f v) =
     (case p of None \<Rightarrow> vis_native x | Some v \<Rightarrow> vis_native (f v))"
  by (simp split: option.split)

lemmas vis_native_simps = vis_native_with_arg vis_native_if vis_native_option

text \<open>Console and file natives of a build without \<^verbatim>\<open>std\<close>.\<close>

lemma vis_host_native:
  assumes m: "mach s = mach t" and o: "out s = out t"
    and "\<not> cfg_std h" and "\<not> cfg_std g" and "host_native f"
  shows "vis_native (call_native h f r v s) = vis_native (call_native g f r v t)"
proof -
  from assms(5) consider "f = NATIVE_TERM_READ_KEY" | "f = NATIVE_TERM_SIZE"
    | "f = NATIVE_FILE_EXISTS" | "f = NATIVE_FILE_WRITE"
    by (auto simp: host_native_def)
  then show ?thesis
    by cases
      (simp_all add: call_native_def native_term_read_key_def native_term_size_def
        native_file_exists_def native_file_write_def vis_native_simps m o assms(3,4)
        cong: option.case_cong)
qed

lemma vis_own_native:
  assumes m: "mach s = mach t" and o: "out s = out t" and r: "replaying (mach t)"
    and "\<not> host_native f"
  shows "vis_native (call_native h f a x s) = vis_native (call_native g f a x t)"
  using assms(4)
  by (cases f)
    (simp_all add: host_native_def call_native_def replay_clock m o r
      native_vram_read_def native_vram_write_def native_fix_div_def native_unwrap_def Let_def
      native_print_def native_println_def native_sys_tsc_def native_uptime_ns_def
      native_str_len_def native_char_at_def native_script_argc_def native_script_arg_def
      native_streq_def native_math_min_def native_math_max_def native_math_clamp_def
      native_crc32_def native_fix_to_fix_def native_fix_to_i64_def native_fix_mul_def
      vis_native_simps cong: option.case_cong if_cong)

lemma vis_call_native:
  assumes "mach s = mach t" and "out s = out t" and "replaying (mach t)"
    and "host_native f \<Longrightarrow> \<not> cfg_std h \<and> \<not> cfg_std g"
  shows "vis_native (call_native h f a x s) = vis_native (call_native g f a x t)"
  using assms vis_own_native vis_host_native by (metis (no_types, lifting))

section \<open>Instructions\<close>

lemma vis_on_vm: "vis s = vis t \<Longrightarrow> vis_flow (on_vm f s) = vis_flow (on_vm f t)"
  by (simp add: vis_flow_def on_vm_def vis_def)

lemma vis_on_flow: "vis s = vis t \<Longrightarrow> vis_flow (on_flow f s) = vis_flow (on_flow f t)"
  by (auto simp: vis_flow_def on_flow_def vis_def split: flow.split)

definition native_res :: "'w host \<Rightarrow> nat \<Rightarrow> nat \<Rightarrow> 'w vm_run \<Rightarrow> 'w native_result" where
  "native_res h rs1 rs2 s =
     (case decode_native (of_nat rs1) of
        Some f \<Rightarrow> call_native h f rs2 (reg_or 0 rs2 (mach s)) s
      | None \<Rightarrow> ret1 s 0)"

lemma vis_flow_call_nat:
  "vis_flow (op_call_nat h rd rs1 rs2 s) =
     (case vis_native (native_res h rs1 rs2 s) of
        Ok (v, vm, b) \<Rightarrow> Continue (set_reg rd v vm, b)
      | Err e \<Rightarrow> Fail e (mach s, out s)
      | Panic \<Rightarrow> Crash)"
  unfolding op_call_nat_def native_res_def [symmetric] Let_def
  by (cases "native_res h rs1 rs2 s") (auto simp: vis_flow_def vis_def)

lemma vis_call_nat:
  assumes m: "mach s = mach t" and o: "out s = out t" and r: "replaying (mach t)"
    and sealed: "\<And>f. decode_native (of_nat rs1) = Some f \<Longrightarrow> host_native f \<Longrightarrow>
      \<not> cfg_std h \<and> \<not> cfg_std g"
  shows "vis_flow (op_call_nat h rd rs1 rs2 s) = vis_flow (op_call_nat g rd rs1 rs2 t)"
proof -
  have "vis_native (native_res h rs1 rs2 s) = vis_native (native_res g rs1 rs2 t)"
  proof (cases "decode_native (of_nat rs1)")
    case None
    then show ?thesis by (simp add: native_res_def m o)
  next
    case (Some f)
    have "vis_native (call_native h f rs2 (reg_or 0 rs2 (mach t)) s) =
        vis_native (call_native g f rs2 (reg_or 0 rs2 (mach t)) t)"
      by (rule vis_call_native [OF m o r]) (use sealed Some in blast)
    then show ?thesis using Some by (simp add: native_res_def m)
  qed
  then show ?thesis unfolding vis_flow_call_nat by (simp only: m o)
qed

lemma vis_within_start:
  assumes "mach s = mach t" and "out s = out t" and "replaying (mach t)"
  shows "vis (op_within_start h rd s) = vis (op_within_start g rd t)"
  using assms by (simp add: op_within_start_def replay_clock Let_def vis_def)

lemma vis_drop:
  assumes "mach s = mach t" and "out s = out t" and "replaying (mach t)"
  shows "vis (op_drop h s) = vis (op_drop g t)"
  using assms by (simp add: op_drop_def replay_clock Let_def vis_def)

lemma vis_exec_op:
  assumes v: "vis s = vis t" and r: "replaying (mach s)"
    and sealed: "\<And>f. op = PX64_OP_CALL_NAT \<Longrightarrow> decode_native (of_nat rs1) = Some f \<Longrightarrow>
      host_native f \<Longrightarrow> \<not> cfg_std h \<and> \<not> cfg_std g"
  shows "vis_flow (exec_op h op rd rs1 rs2 i s) = vis_flow (exec_op g op rd rs1 rs2 i t)"
proof -
  have m: "mach s = mach t" and o: "out s = out t" and rt: "replaying (mach t)"
    using v r by (simp_all add: vis_eq_iff)
  consider "op = PX64_OP_CALL_NAT" | "op = PX64_OP_WITHIN_START" | "op = PX64_OP_DROP"
    | "op = PX64_OP_NOP" | "op = PX64_OP_HALT"
    | "op \<notin> {PX64_OP_CALL_NAT, PX64_OP_WITHIN_START, PX64_OP_DROP, PX64_OP_NOP, PX64_OP_HALT}"
    by blast
  then show ?thesis
  proof cases
    case 1
    have "vis_flow (op_call_nat h rd rs1 rs2 s) = vis_flow (op_call_nat g rd rs1 rs2 t)"
      by (rule vis_call_nat [OF m o rt]) (use sealed 1 in blast)
    with 1 show ?thesis by (simp add: exec_op_def)
  next
    case 2
    then show ?thesis
      using vis_within_start [OF m o rt] by (simp add: exec_op_def vis_flow_def)
  next
    case 3
    then show ?thesis
      using vis_drop [OF m o rt] by (simp add: exec_op_def vis_flow_def)
  next
    case 6
    then show ?thesis
      by (cases op) (simp_all add: exec_op_def vis_on_vm [OF v] vis_on_flow [OF v])
  qed (simp_all add: exec_op_def vis_flow_def v)
qed

lemma host_native_code: "host_native f \<Longrightarrow> native_code f \<in> set [36, 37, 39, 40]"
  by (auto simp: host_native_def)

lemma vis_vm_step:
  assumes v: "vis s = vis t" and r: "replaying (mach s)" and f: "fetchable (mach s)"
    and "sealed h (vm_code (mach s))" and "sealed g (vm_code (mach s))"
  shows "vis_flow (vm_step h s) = vis_flow (vm_step g t)"
proof -
  let ?vm = "mach s"
  let ?b = "\<lambda>k. vm_code ?vm ! (ip ?vm + k)"
  have m: "mach t = ?vm" using v by (simp add: vis_eq_iff)
  show ?thesis
  proof (cases "decode_op (?b 0)")
    case None
    then show ?thesis
      using v m by (simp add: vm_step_def vis_flow_def vis_def)
  next
    case (Some op)
    let ?s = "s\<lparr>mach := tick ?vm\<rparr>" and ?t = "t\<lparr>mach := tick ?vm\<rparr>"
    have "vis_flow (exec_op h op (unat (?b 1)) (unat (?b 2)) (unat (?b 3)) (from_be [?b 2, ?b 3]) ?s)
        = vis_flow (exec_op g op (unat (?b 1)) (unat (?b 2)) (unat (?b 3)) (from_be [?b 2, ?b 3]) ?t)"
    proof (rule vis_exec_op)
      show "vis ?s = vis ?t" using v by (simp add: vis_def)
      show "replaying (mach ?s)" using r by (simp add: replaying_def tick_def)
    next
      fix f assume "op = PX64_OP_CALL_NAT" and "decode_native (of_nat (unat (?b 2))) = Some f"
        and "host_native f"
      then have "?b 0 = op_code PX64_OP_CALL_NAT" and "?b 2 \<in> set [36, 37, 39, 40]"
        using Some host_native_code by (auto simp: decode_op_Some decode_native_Some)
      then have "\<not> no_host_calls (vm_code ?vm)"
        using f by (auto simp: no_host_calls_def list_all_iff fetchable_def)
      then show "\<not> cfg_std h \<and> \<not> cfg_std g"
        using assms(4,5) by (simp add: sealed_def)
    qed
    then show ?thesis
      using Some m by (simp add: vm_step_def Let_def)
  qed
qed

section \<open>Runs\<close>

definition replay_pair :: "'v host \<Rightarrow> 'w host \<Rightarrow> 'v vm_run \<Rightarrow> 'w vm_run \<Rightarrow> bool" where
  "replay_pair h g s t \<longleftrightarrow>
     vis s = vis t \<and> replaying (mach s) \<and> vm_ok (mach s) \<and>
     sealed h (vm_code (mach s)) \<and> sealed g (vm_code (mach s))"

lemma replay_pair_sym: "replay_pair h g s t \<Longrightarrow> replay_pair g h t s"
  by (auto simp: replay_pair_def vis_def)

lemma vis_flow_Continue:
  "vis_flow (Continue s) = vis_flow f \<Longrightarrow> \<exists>t. f = Continue t \<and> vis s = vis t"
  "vis_flow (Break s) = vis_flow f \<Longrightarrow> \<exists>t. f = Break t \<and> vis s = vis t"
  "vis_flow (Fail e s) = vis_flow f \<Longrightarrow> \<exists>t. f = Fail e t \<and> vis s = vis t"
  by (cases f; simp add: vis_flow_def)+

lemma vis_Crash [simp]: "vis_flow Crash = Crash"
  by (simp add: vis_flow_def)

lemma vis_flow_Crash [simp]: "vis_flow f = Crash \<longleftrightarrow> f = Crash" "Crash = vis_flow f \<longleftrightarrow> f = Crash"
  by (cases f; simp add: vis_flow_def)+

lemma replay_pair_step:
  assumes p: "replay_pair h g s t" and run: "running (mach s)"
  shows "vis_flow (vm_step h s) = vis_flow (vm_step g t)"
    and "vm_step h s = Continue s' \<Longrightarrow> \<exists>t'. vm_step g t = Continue t' \<and> replay_pair h g s' t'"
proof -
  show eq: "vis_flow (vm_step h s) = vis_flow (vm_step g t)"
    using p run by (intro vis_vm_step) (simp_all add: replay_pair_def running_def)
  assume s': "vm_step h s = Continue s'"
  have "run_keeps step_rel s (vm_step h s)"
    using p run by (intro vm_step_keeps) (simp_all add: replay_pair_def running_def)
  then have "vm_ok (mach s')" and "same_program (mach s) (mach s')"
    by (simp_all add: s' run_keeps_def step_rel_def)
  moreover obtain t' where "vm_step g t = Continue t'" and "vis s' = vis t'"
    using eq vis_flow_Continue(1) [of s' "vm_step g t"] by (auto simp: s')
  ultimately show "\<exists>t'. vm_step g t = Continue t' \<and> replay_pair h g s' t'"
    using p by (auto simp: replay_pair_def replaying_def same_program_def)
qed

lemma replay_pair_mach: "replay_pair h g s t \<Longrightarrow> mach t = mach s"
  by (simp add: replay_pair_def vis_def)

lemma replay_half:
  assumes "run_with_output h s = Some r" and "replay_pair h g s t"
  shows "\<exists>r'. run_with_output g t = Some r' \<and> vis_result r' = vis_result r"
  using assms
proof (induction arbitrary: t rule: run_induct)
  case (stopped s)
  then show ?case
    using replay_pair_mach [OF stopped(2)] run_stopped [of t g]
    by (simp add: vis_result_def replay_pair_def)
next
  case (continue s s' r)
  then obtain t' where t': "vm_step g t = Continue t'" "replay_pair h g s' t'"
    using replay_pair_step(2) by blast
  have "run_with_output g t = run_with_output g t'"
    using continue.hyps(1) replay_pair_mach [OF continue.prems] t'(1) by (simp add: run_running)
  with continue.IH [OF t'(2)] show ?case by simp
next
  case (halt s s')
  then show ?case
    using replay_pair_step(1) [OF halt(3,1)] replay_pair_mach [OF halt(3)] run_running [of t g]
      vis_flow_Continue(2) [of s' "vm_step g t"] by (auto simp: vis_result_def)
next
  case (fail s s' e)
  then show ?case
    using replay_pair_step(1) [OF fail(3,1)] replay_pair_mach [OF fail(3)] run_running [of t g]
      vis_flow_Continue(3) [of e s' "vm_step g t"] by (auto simp: vis_result_def)
next
  case (crash s)
  have "vm_step g t = Crash"
    using replay_pair_step(1) [OF crash(3,1)] by (simp add: crash(2))
  then show ?case
    using crash(1) replay_pair_mach [OF crash(3)] run_running [of t g]
    by (auto simp: vis_result_def)
qed

lemma replay_pair_agree:
  assumes p: "replay_pair h g s t"
  shows "map_option vis_result (run_with_output h s) = map_option vis_result (run_with_output g t)"
proof (cases "run_with_output h s")
  case (Some r)
  then show ?thesis using replay_half [OF Some p] by auto
next
  case None
  then show ?thesis
    using replay_half [OF _ replay_pair_sym [OF p]]
    by (cases "run_with_output g t") fastforce+
qed

section \<open>Property\<close>


text \<open>Two clocks that disagree at every reading.\<close>

definition counting_host :: "u64 \<Rightarrow> u64 host" where
  "counting_host k =
     \<lparr>cfg_std = True, rdtsc = (\<lambda>w. (w, w + k)), read_host_key = (\<lambda>w. (- 1, w)),
      host_term_size = (\<lambda>w. (0, w)), path_exists = (\<lambda>_ w. (False, w)),
      write_path = (\<lambda>_ _ w. (False, w))\<rparr>"


text \<open>
  The last condition is needed: with \<^verbatim>\<open>std\<close> and replay enabled \<^verbatim>\<open>@term_size\<close> returns what the
  console of the host reports.
\<close>

definition wide_host :: "i64 \<Rightarrow> unit host" where
  "wide_host k =
     \<lparr>cfg_std = True, rdtsc = (\<lambda>w. (0, w)), read_host_key = (\<lambda>w. (- 1, w)), host_term_size = (\<lambda>w. (k, w)),
      path_exists = (\<lambda>_ w. (False, w)), write_path = (\<lambda>_ _ w. (False, w))\<rparr>"

theorem replay_reads_host:
  "\<exists>s. run_with_output (wide_host k)
       (vm_start (set_replay_config (Some default_replay) (vm_new [18, 0, 37, 0, 22, 0, 0, 0] [] [] [])) ()) =
     Some (Finished s) \<and> regs (mach s) ! 0 = k"
proof -
  let ?s0 = "vm_start (set_replay_config (Some default_replay) (vm_new [18, 0, 37, 0, 22, 0, 0, 0] [] [] [])) ()"
  let ?s1 = "?s0\<lparr>mach := set_reg 0 k (tick (mach ?s0))\<rparr>"
  have d: "decode_op 18 = Some PX64_OP_CALL_NAT" "decode_op 22 = Some PX64_OP_HALT" "decode_native 37 = Some NATIVE_TERM_SIZE"
    by (simp_all add: decode_op_Some decode_native_Some)
  note defs = vm_start_def vm_new_def set_reg_def tick_def set_replay_config_def
  have r: "running (mach ?s0)" "running (mach ?s1)"
    by (simp_all add: defs running_def fetchable_def)
  have "op_call_nat (wide_host k) 0 37 0 (?s0\<lparr>mach := tick (mach ?s0)\<rparr>) = Continue ?s1"
    by (simp add: op_call_nat_def d call_native_def native_term_size_def wide_host_def)
  then have "vm_step (wide_host k) ?s0 = Continue ?s1" by (simp add: vm_step_def defs d exec_op_def)
  moreover have "vm_step (wide_host k) ?s1 = Break (?s1\<lparr>mach := tick (mach ?s1)\<rparr>)"
    by (simp add: vm_step_def defs d exec_op_def)
  moreover have "regs (mach (?s1\<lparr>mach := tick (mach ?s1)\<rparr>)) ! 0 = k" by (simp add: defs)
  ultimately show ?thesis using r by (simp add: run_running)
qed

end
