(* ===== verification/VmSafety.thy ===== *)
theory VmSafety
  imports VmInv
begin

text \<open>
  When a run of the px64 machine cannot panic, and what a call, an array and a video memory
  access promise to the program. The instructions that index a Rust array with a computed
  position (\<^verbatim>\<open>ARR_LOAD\<close>, \<^verbatim>\<open>ARR_STORE\<close>, \<^verbatim>\<open>STRUCT_LOAD\<close>, \<^verbatim>\<open>STRUCT_STORE\<close>, the natives) are
  the only ones that can panic; a static check of the program rules it out.
\<close>

section \<open>Layout of arrays and structs\<close>

text \<open>
  Lengths bounded by a declaration \<open>d\<close>, and every base below the room the declarations of
  the smaller ids take.
\<close>

definition fits :: "(nat \<Rightarrow> nat) \<Rightarrow> 'a::len word list \<Rightarrow> u16 list \<Rightarrow> bool" where
  "fits d ls bs \<longleftrightarrow> (\<forall>k<16. unat (ls ! k) \<le> d k \<and> unat (bs ! k) \<le> sum_list (map d [0..<k]))"

lemma unat_of_nat_le: "unat (of_nat n :: 'a::len word) \<le> n"
  by (simp add: unat_of_nat)

lemma sum_take_le:
  assumes "\<And>i. i < k \<Longrightarrow> unat (xs ! i) \<le> d i" and "k \<le> length xs"
  shows "sum_list (map unat (take k xs)) \<le> sum_list (map d [0..<k])"
  using assms
  by (induction k) (auto simp: take_Suc_conv_app_nth intro!: add_mono)

lemma sum_upt_mono: "i \<le> j \<Longrightarrow> sum_list (map (d :: nat \<Rightarrow> nat) [0..<i]) \<le> sum_list (map d [0..<j])"
  by (induction j) (auto simp: le_Suc_eq)

lemma fits_define:
  assumes f: "fits d ls bs" and "length ls = 16" "length bs = 16" "k < 16" and n: "unat n \<le> d k"
  shows "fits d (ls[k := n]) (bs[k := of_nat (sum_list (map unat (take k (ls[k := n]))))])"
proof -
  have "sum_list (map unat (take k (ls[k := n]))) \<le> sum_list (map d [0..<k])"
    using f assms(2,4) by (intro sum_take_le) (auto simp: fits_def)
  then have "unat (of_nat (sum_list (map unat (take k (ls[k := n])))) :: u16) \<le> sum_list (map d [0..<k])"
    using unat_of_nat_le le_trans by blast
  with f n assms(2-4) show ?thesis by (auto simp: fits_def nth_list_update)
qed

lemma fits_slot:
  assumes f: "fits d ls bs" and k: "k < 16" and i: "i < unat (ls ! k)"
    and room: "sum_list (map d [0..<16]) \<le> 1024"
  shows "unat (bs ! k) + i < 1024"
proof -
  have "unat (bs ! k) + i < sum_list (map d [0..<Suc k])"
    using f k i by (fastforce simp: fits_def)
  also have "\<dots> \<le> sum_list (map d [0..<16])"
    using k by (intro sum_upt_mono) simp
  finally show ?thesis using room by simp
qed

section \<open>The static check\<close>

text \<open>The largest size the program declares for an id with the given opcode.\<close>

definition declared :: "px64_op \<Rightarrow> (u8 \<Rightarrow> u8 \<Rightarrow> nat) \<Rightarrow> u8 list \<Rightarrow> nat \<Rightarrow> nat" where
  "declared op f prog k =
     foldr max
       (map (\<lambda>i. if prog ! i = op_code op \<and> unat (prog ! (i + 1)) = k
                 then f (prog ! (i + 2)) (prog ! (i + 3)) else 0) [0..<length prog - 3]) 0"

definition imm16_of :: "u8 \<Rightarrow> u8 \<Rightarrow> nat" where
  "imm16_of a b = unat (from_be [a, b] :: u16)"

definition arr_decl :: "u8 list \<Rightarrow> nat \<Rightarrow> nat" where
  "arr_decl = declared PX64_OP_ARR_DEF imm16_of"

definition struct_decl :: "u8 list \<Rightarrow> nat \<Rightarrow> nat" where
  "struct_decl = declared PX64_OP_STRUCT_DEF (\<lambda>a b. unat a)"

definition safe_native_calls :: "u8 list \<Rightarrow> bool" where
  "safe_native_calls prog =
     list_all (\<lambda>i. prog ! i = op_code PX64_OP_CALL_NAT \<longrightarrow>
        unat (prog ! (i + 3)) \<le> PX64_NUM_REGISTERS \<and>
        prog ! (i + 2) \<noteq> native_code NATIVE_VRAM_READ \<and>
        prog ! (i + 2) \<noteq> native_code NATIVE_VRAM_WRITE) [0..<length prog - 3]"

definition static_safe :: "u8 list \<Rightarrow> bool" where
  "static_safe prog \<longleftrightarrow>
     sum_list (map (arr_decl prog) [0..<16]) \<le> 1024 \<and>
     sum_list (map (struct_decl prog) [0..<16]) \<le> 1024 \<and>
     safe_native_calls prog"

lemma foldr_max_ge: "x \<in> set xs \<Longrightarrow> (x :: nat) \<le> foldr max xs 0"
  by (induction xs) (auto simp: le_max_iff_disj)

lemma declared_ge:
  assumes "i + 4 \<le> length prog" and "prog ! i = op_code op"
  shows "f (prog ! (i + 2)) (prog ! (i + 3)) \<le> declared op f prog (unat (prog ! (i + 1)))"
  unfolding declared_def by (rule foldr_max_ge) (use assms in \<open>force\<close>)

text \<open>The arrays and structs of a machine stay within the sizes \<open>da\<close> and \<open>ds\<close> of their ids.\<close>

definition laid_out :: "(nat \<Rightarrow> nat) \<Rightarrow> (nat \<Rightarrow> nat) \<Rightarrow> PX64VM \<Rightarrow> bool" where
  "laid_out da ds vm \<longleftrightarrow>
     fits da (array_lens vm) (array_bases vm) \<and> fits ds (struct_field_counts vm) (struct_bases vm)"

definition have_room :: "(nat \<Rightarrow> nat) \<Rightarrow> (nat \<Rightarrow> nat) \<Rightarrow> bool" where
  "have_room da ds \<longleftrightarrow> sum_list (map da [0..<16]) \<le> 1024 \<and> sum_list (map ds [0..<16]) \<le> 1024"

abbreviation layout_ok :: "u8 list \<Rightarrow> PX64VM \<Rightarrow> bool" where
  "layout_ok prog \<equiv> laid_out (arr_decl prog) (struct_decl prog)"

lemma laid_out_new [simp]: "laid_out da ds (vm_new c p k a)"
  by (simp add: laid_out_def fits_def vm_new_def)

section \<open>The skeleton of the machine\<close>

text \<open>
  The part of the machine that only \<^verbatim>\<open>ARR_DEF\<close>, \<^verbatim>\<open>STRUCT_DEF\<close>, \<^verbatim>\<open>CALL\<close> and \<^verbatim>\<open>RET\<close> write.
\<close>

definition skeleton :: "PX64VM \<Rightarrow> u16 list \<times> u16 list \<times> u8 list \<times> u16 list \<times> u16 list \<times> i64 list list \<times> nat" where
  "skeleton vm = (array_lens vm, array_bases vm, struct_field_counts vm, struct_bases vm,
     call_stack vm, frame_stack vm, call_sp vm)"

lemma laid_out_cong: "skeleton vm = skeleton vm' \<Longrightarrow> laid_out da ds vm = laid_out da ds vm'"
  by (simp add: skeleton_def laid_out_def)

definition keeps_skel :: "'w vm_run \<Rightarrow> 'w vm_run flow \<Rightarrow> bool" where
  "keeps_skel s f = (case f of Continue s' \<Rightarrow> skeleton (mach s') = skeleton (mach s) | _ \<Rightarrow> True)"

lemma skel_set_reg [simp]: "skeleton (set_reg r v vm) = skeleton vm"
  by (simp add: set_reg_def skeleton_def)

lemma skel_alu3 [simp]: "skeleton (alu3 f a b c vm) = skeleton vm"
  by (simp add: alu3_def)

lemma skel_vm_ops [simp]:
  "skeleton (op_mov_imm a i vm) = skeleton vm" "skeleton (op_mov_reg a b vm) = skeleton vm"
  "skeleton (op_mov_str a b c vm) = skeleton vm" "skeleton (op_addi a b c vm) = skeleton vm"
  "skeleton (op_subi a b c vm) = skeleton vm" "skeleton (op_and a b c vm) = skeleton vm"
  "skeleton (op_or a b c vm) = skeleton vm" "skeleton (op_xor a b c vm) = skeleton vm"
  "skeleton (op_shl a b c vm) = skeleton vm" "skeleton (op_shr a b c vm) = skeleton vm"
  "skeleton (op_add a b c vm) = skeleton vm" "skeleton (op_sub a b c vm) = skeleton vm"
  "skeleton (op_mul a b c vm) = skeleton vm" "skeleton (op_cmp_eq a b c vm) = skeleton vm"
  "skeleton (op_cmp_ne a b c vm) = skeleton vm" "skeleton (op_streq a b c vm) = skeleton vm"
  "skeleton (op_cmp_lt a b c vm) = skeleton vm" "skeleton (op_cmp_le a b c vm) = skeleton vm"
  "skeleton (op_cmp_gt a b c vm) = skeleton vm" "skeleton (op_cmp_ge a b c vm) = skeleton vm"
  "skeleton (op_tbl_def a b c vm) = skeleton vm" "skeleton (op_jmp i vm) = skeleton vm"
  "skeleton (op_jz a i vm) = skeleton vm" "skeleton (op_jnz a i vm) = skeleton vm"
  "skeleton (op_spill_store a b vm) = skeleton vm" "skeleton (op_spill_load a b vm) = skeleton vm"
  "skeleton (op_within_end vm) = skeleton vm"
  by (simp_all add: alu_defs op_tbl_def_def op_jmp_def op_jz_def op_jnz_def op_spill_store_def
      op_spill_load_def op_within_end_def Let_def) (simp_all add: skeleton_def)

lemma skel_flow_ops:
  "op_ldc a i vm = Continue vm' \<Longrightarrow> skeleton vm' = skeleton vm"
  "op_div a b c vm = Continue vm' \<Longrightarrow> skeleton vm' = skeleton vm"
  "op_mod a b c vm = Continue vm' \<Longrightarrow> skeleton vm' = skeleton vm"
  "op_arr_load a b c vm = Continue vm' \<Longrightarrow> skeleton vm' = skeleton vm"
  "op_arr_store a b c vm = Continue vm' \<Longrightarrow> skeleton vm' = skeleton vm"
  "op_struct_load a b c vm = Continue vm' \<Longrightarrow> skeleton vm' = skeleton vm"
  "op_struct_store a b c vm = Continue vm' \<Longrightarrow> skeleton vm' = skeleton vm"
  "op_tbl_load a b c vm = Continue vm' \<Longrightarrow> skeleton vm' = skeleton vm"
  "op_assert a vm = Continue vm' \<Longrightarrow> skeleton vm' = skeleton vm"
  by (auto simp: op_ldc_def op_div_def op_mod_def op_arr_load_def op_arr_store_def
      op_struct_load_def op_struct_store_def op_tbl_load_def op_assert_def
      Let_def skeleton_def set_reg_def split: if_splits option.splits)

lemma keeps_skel_on_vm: "skeleton (f (mach s)) = skeleton (mach s) \<Longrightarrow> keeps_skel s (on_vm f s)"
  by (simp add: keeps_skel_def on_vm_def)

lemma keeps_skel_on_flow:
  assumes "\<And>vm'. f (mach s) = Continue vm' \<Longrightarrow> skeleton vm' = skeleton (mach s)"
  shows "keeps_skel s (on_flow f s)"
proof (cases "f (mach s)")
  case (Continue vm')
  from assms [OF this] Continue show ?thesis by (simp add: keeps_skel_def on_flow_def)
qed (simp_all add: keeps_skel_def on_flow_def)

lemma call_native_skel:
  assumes "call_native h f r v s = Ok (x, s')"
  shows "skeleton (mach s') = skeleton (mach s)"
proof (cases "f = NATIVE_TERM_READ_KEY \<or> f = NATIVE_VRAM_WRITE")
  case True
  with assms show ?thesis
    by (auto simp: call_native_def native_term_read_key_def native_vram_write_def with_arg_def
        skeleton_def Let_def split: if_splits option.splits prod.splits)
next
  case False
  with call_native_pure [of f s h r v] assms show ?thesis by (simp add: pure_native_def)
qed

lemma keeps_skel_call_nat: "keeps_skel s (op_call_nat h rd rs1 rs2 s)"
proof (cases "decode_native (of_nat rs1)")
  case None
  then show ?thesis by (simp add: op_call_nat_def keeps_skel_def ret1_def)
next
  case (Some f)
  then show ?thesis
    using call_native_skel [of h f rs2 "reg_or 0 rs2 (mach s)" s]
    by (cases "call_native h f rs2 (reg_or 0 rs2 (mach s)) s")
      (auto simp: op_call_nat_def keeps_skel_def)
qed

lemma keeps_skel_deadline:
  "keeps_skel s (Continue (op_within_start h rd s))" "keeps_skel s (Continue (op_drop h s))"
  using get_uptime_mach(1) [of h s]
  by (cases "get_uptime_ns h s";
      simp add: op_within_start_def op_drop_def keeps_skel_def write_out_def skeleton_def Let_def)+

lemma exec_op_keeps_skel:
  assumes "op \<notin> {PX64_OP_ARR_DEF, PX64_OP_STRUCT_DEF, PX64_OP_CALL, PX64_OP_RET}"
  shows "keeps_skel s (exec_op h op rd rs1 rs2 i s)"
  using assms
  by (cases op)
    (simp_all add: exec_op_def keeps_skel_on_vm keeps_skel_call_nat keeps_skel_deadline
      keeps_skel_on_flow [OF skel_flow_ops(1)] keeps_skel_on_flow [OF skel_flow_ops(2)]
      keeps_skel_on_flow [OF skel_flow_ops(3)] keeps_skel_on_flow [OF skel_flow_ops(4)]
      keeps_skel_on_flow [OF skel_flow_ops(5)] keeps_skel_on_flow [OF skel_flow_ops(6)]
      keeps_skel_on_flow [OF skel_flow_ops(7)] keeps_skel_on_flow [OF skel_flow_ops(8)]
      keeps_skel_on_flow [OF skel_flow_ops(9)],
     simp_all add: keeps_skel_def)

section \<open>Instructions that do not panic\<close>

lemma arr_slot:
  assumes "laid_out da ds vm" "have_room da ds" "vm_ok vm" "k < 16" "i < uint (array_lens vm ! k)" "0 \<le> i"
  shows "unat (array_bases vm ! k) + nat i < length (array_slots vm)"
proof -
  have "nat i < unat (array_lens vm ! k)"
    using assms(5,6) by (simp add: nat_less_iff)
  with assms show ?thesis
    using fits_slot [of da "array_lens vm" "array_bases vm" k "nat i"]
    by (simp add: laid_out_def have_room_def vm_ok_def)
qed

lemma struct_slot:
  assumes "laid_out da ds vm" "have_room da ds" "vm_ok vm" "k < 16" "i < unat (struct_field_counts vm ! k)"
  shows "unat (struct_bases vm ! k) + i < length (struct_slots vm)"
  using assms fits_slot [of ds "struct_field_counts vm" "struct_bases vm" k i]
  by (simp add: laid_out_def have_room_def vm_ok_def)

lemma memory_ops_no_crash:
  assumes "laid_out da ds vm" "have_room da ds" "vm_ok vm"
  shows "op_arr_load a b c vm \<noteq> Crash" "op_arr_store a b c vm \<noteq> Crash"
    "op_struct_load a b c vm \<noteq> Crash" "op_struct_store a b c vm \<noteq> Crash"
  using arr_slot [OF assms] struct_slot [OF assms]
  by (auto simp: op_arr_load_def op_arr_store_def op_struct_load_def op_struct_store_def Let_def
      not_less not_le split: option.splits)

lemma flow_ops_no_crash:
  "op_ldc a i vm \<noteq> Crash" "op_div a b c vm \<noteq> Crash" "op_mod a b c vm \<noteq> Crash"
  "op_tbl_load a b c vm \<noteq> Crash" "op_assert a vm \<noteq> Crash" "op_call i vm \<noteq> Crash" "op_ret vm \<noteq> Crash"
  by (simp_all add: op_ldc_def op_div_def op_mod_def op_tbl_load_def op_assert_def op_call_def
      op_ret_def Let_def)

lemma on_flow_no_crash: "on_flow f s \<noteq> Crash \<longleftrightarrow> f (mach s) \<noteq> Crash"
  by (simp add: on_flow_def split: flow.split)

lemma nat_arg_Some:
  "length (regs vm) = PX64_NUM_REGISTERS \<Longrightarrow> r \<le> PX64_NUM_REGISTERS \<Longrightarrow> \<exists>v. nat_arg k d r vm = Some v"
  by (auto simp: nat_arg_def)

lemma with_arg_no_panic:
  assumes "length (regs (mach s)) = PX64_NUM_REGISTERS" and "r \<le> PX64_NUM_REGISTERS"
    and "\<And>v. f v \<noteq> Panic"
  shows "with_arg k d r s f \<noteq> Panic"
  using nat_arg_Some [OF assms(1,2), of k d] assms(3) by (auto simp: with_arg_def)

lemma call_native_no_panic:
  assumes "length (regs (mach s)) = PX64_NUM_REGISTERS" and "r \<le> PX64_NUM_REGISTERS"
    and "f \<noteq> NATIVE_VRAM_READ" and "f \<noteq> NATIVE_VRAM_WRITE"
  shows "call_native h f r v s \<noteq> Panic"
  using assms(3,4)
  by (cases f)
    (simp_all add: call_native_def native_defs native_term_read_key_def ret1_def Let_def
      with_arg_no_panic [OF assms(1,2)] split: prod.split option.split)

lemma call_nat_no_crash:
  assumes "length (regs (mach s)) = PX64_NUM_REGISTERS" and "rs2 \<le> PX64_NUM_REGISTERS"
    and "decode_native (of_nat rs1) \<noteq> Some NATIVE_VRAM_READ"
    and "decode_native (of_nat rs1) \<noteq> Some NATIVE_VRAM_WRITE"
  shows "op_call_nat h rd rs1 rs2 s \<noteq> Crash"
proof (cases "decode_native (of_nat rs1)")
  case None
  then show ?thesis by (simp add: op_call_nat_def ret1_def)
next
  case (Some f)
  with assms(3,4) have "call_native h f rs2 (reg_or 0 rs2 (mach s)) s \<noteq> Panic"
    by (intro call_native_no_panic [OF assms(1,2)]) auto
  with Some show ?thesis
    by (cases "call_native h f rs2 (reg_or 0 rs2 (mach s)) s") (auto simp: op_call_nat_def)
qed

lemma exec_op_no_crash:
  assumes "laid_out da ds (mach s)" "have_room da ds" "vm_ok (mach s)"
    and "op = PX64_OP_CALL_NAT \<Longrightarrow> op_call_nat h rd rs1 rs2 s \<noteq> Crash"
  shows "exec_op h op rd rs1 rs2 i s \<noteq> Crash"
  using assms(4)
  by (cases op)
    (simp_all add: exec_op_def on_vm_def on_flow_no_crash flow_ops_no_crash
      memory_ops_no_crash [OF assms(1-3)])

text \<open>One iteration of a program that passes the check does not panic and keeps the layout.\<close>

lemma safe_call_instr:
  assumes "safe_native_calls (vm_code vm)" and "fetchable vm"
    and "decode_op (vm_code vm ! ip vm) = Some PX64_OP_CALL_NAT"
  shows "unat (vm_code vm ! (ip vm + 3)) \<le> PX64_NUM_REGISTERS"
    and "decode_native (vm_code vm ! (ip vm + 2)) \<notin> {Some NATIVE_VRAM_READ, Some NATIVE_VRAM_WRITE}"
  using assms by (auto simp: safe_native_calls_def list_all_iff fetchable_def decode_op_Some decode_native_Some)

lemma laid_out_tick [simp]: "laid_out da ds (tick vm) = laid_out da ds vm"
  by (rule laid_out_cong) (simp add: skeleton_def tick_def)

lemma step_no_crash:
  assumes ok: "vm_ok (mach s)" and run: "running (mach s)"
    and lay: "laid_out da ds (mach s)" "have_room da ds"
    and nat: "decode_op (vm_code (mach s) ! ip (mach s)) = Some PX64_OP_CALL_NAT \<Longrightarrow>
      op_call_nat h (unat (vm_code (mach s) ! (ip (mach s) + 1))) (unat (vm_code (mach s) ! (ip (mach s) + 2)))
        (unat (vm_code (mach s) ! (ip (mach s) + 3))) (s\<lparr>mach := tick (mach s)\<rparr>) \<noteq> Crash"
  shows "vm_step h s \<noteq> Crash"
proof (cases "decode_op (vm_code (mach s) ! ip (mach s))")
  case None
  then show ?thesis by (simp add: vm_step_def)
next
  case (Some op)
  let ?s = "s\<lparr>mach := tick (mach s)\<rparr>" and ?b = "\<lambda>k. vm_code (mach s) ! (ip (mach s) + k)"
  have "vm_ok (mach ?s)" using run ok tick_ok by (simp add: running_def)
  then have "exec_op h op (unat (?b 1)) (unat (?b 2)) (unat (?b 3)) (from_be [?b 2, ?b 3]) ?s \<noteq> Crash"
    using lay nat Some by (intro exec_op_no_crash [of da ds]) auto
  with Some show ?thesis by (simp add: vm_step_def Let_def)
qed

lemma static_safe_no_crash:
  assumes ok: "vm_ok (mach s)" and run: "running (mach s)" and safe: "static_safe (vm_code (mach s))"
    and lay: "layout_ok (vm_code (mach s)) (mach s)"
  shows "vm_step h s \<noteq> Crash"
proof (rule step_no_crash [OF ok run lay])
  have f: "fetchable (mach s)" and tick: "vm_ok (tick (mach s))" using run ok tick_ok by (simp_all add: running_def)
  show "have_room (arr_decl (vm_code (mach s))) (struct_decl (vm_code (mach s)))"
    using safe by (simp add: static_safe_def have_room_def)
  assume "decode_op (vm_code (mach s) ! ip (mach s)) = Some PX64_OP_CALL_NAT"
  note c = safe_call_instr [OF _ f this]
  show "op_call_nat h (unat (vm_code (mach s) ! (ip (mach s) + 1))) (unat (vm_code (mach s) ! (ip (mach s) + 2)))
      (unat (vm_code (mach s) ! (ip (mach s) + 3))) (s\<lparr>mach := tick (mach s)\<rparr>) \<noteq> Crash"
    by (rule call_nat_no_crash) (use c safe tick in \<open>auto simp: static_safe_def vm_ok_def\<close>)
qed

lemma laid_out_arr_def:
  assumes "laid_out da ds vm" and "vm_ok vm" and "unat n \<le> da k"
  shows "laid_out da ds (op_arr_def k n vm)"
  using assms fits_define [of da "array_lens vm" "array_bases vm" k n]
  by (auto simp: laid_out_def op_arr_def_def Let_def vm_ok_def)

lemma laid_out_struct_def:
  assumes "laid_out da ds vm" and "vm_ok vm" and "unat (of_nat n :: u8) \<le> ds k"
  shows "laid_out da ds (op_struct_def k n vm)"
  using assms fits_define [of ds "struct_field_counts vm" "struct_bases vm" k "of_nat n"]
  by (auto simp: laid_out_def op_struct_def_def Let_def vm_ok_def)

text \<open>The sizes an instruction declares are at most \<open>da\<close> and \<open>ds\<close>.\<close>

definition sized :: "(nat \<Rightarrow> nat) \<Rightarrow> (nat \<Rightarrow> nat) \<Rightarrow> u8 list \<Rightarrow> nat \<Rightarrow> bool" where
  "sized da ds prog i \<longleftrightarrow>
     (prog ! i = op_code PX64_OP_ARR_DEF \<longrightarrow> imm16_of (prog ! (i + 2)) (prog ! (i + 3)) \<le> da (unat (prog ! (i + 1)))) \<and>
     (prog ! i = op_code PX64_OP_STRUCT_DEF \<longrightarrow> unat (prog ! (i + 2)) \<le> ds (unat (prog ! (i + 1))))"

lemma step_keeps_layout:
  assumes ok: "vm_ok (mach s)" and run: "running (mach s)" and lay: "laid_out da ds (mach s)"
    and sz: "sized da ds (vm_code (mach s)) (ip (mach s))" and step: "vm_step h s = Continue s'"
  shows "laid_out da ds (mach s')"
proof -
  let ?vm = "mach s" and ?s = "s\<lparr>mach := tick (mach s)\<rparr>"
  let ?b = "\<lambda>k. vm_code ?vm ! (ip ?vm + k)"
  have tick: "vm_ok (tick ?vm)" using run ok tick_ok by (simp add: running_def)
  from step obtain op where op: "decode_op (?b 0) = Some op"
    and ex: "exec_op h op (unat (?b 1)) (unat (?b 2)) (unat (?b 3)) (from_be [?b 2, ?b 3]) ?s = Continue s'"
    by (auto simp: vm_step_def Let_def split: option.splits)
  have b0: "vm_code ?vm ! ip ?vm = op_code op" using op by (simp add: decode_op_Some)
  have lt: "laid_out da ds (tick ?vm)" using lay by simp
  consider "op = PX64_OP_ARR_DEF" | "op = PX64_OP_STRUCT_DEF"
    | "op = PX64_OP_CALL \<or> op = PX64_OP_RET"
    | "op \<notin> {PX64_OP_ARR_DEF, PX64_OP_STRUCT_DEF, PX64_OP_CALL, PX64_OP_RET}" by blast
  then show ?thesis
  proof cases
    case 1
    have "unat (from_be [?b 2, ?b 3] :: u16) \<le> da (unat (?b 1))" using sz b0 1 by (simp add: sized_def imm16_of_def)
    from laid_out_arr_def [OF lt tick this] show ?thesis
      using ex 1 by (auto simp: exec_op_def on_vm_def)
  next
    case 2
    have "unat (of_nat (unat (?b 2)) :: u8) \<le> ds (unat (?b 1))" using sz b0 2 by (simp add: sized_def)
    from laid_out_struct_def [OF lt tick this] show ?thesis
      using ex 2 by (auto simp: exec_op_def on_vm_def)
  next
    case 3
    with ex lt show ?thesis
      by (auto simp: exec_op_def on_flow_def op_call_def op_ret_def laid_out_def Let_def
          split: if_splits)
  next
    case 4
    have "keeps_skel ?s (Continue s')"
      using exec_op_keeps_skel [OF 4, of ?s h] ex by metis
    then have "skeleton (mach s') = skeleton (tick ?vm)" by (simp add: keeps_skel_def)
    with lt show ?thesis using laid_out_cong by blast
  qed
qed

lemma sized_declared: "i + 4 \<le> length prog \<Longrightarrow> sized (arr_decl prog) (struct_decl prog) prog i"
  using declared_ge [of i prog PX64_OP_ARR_DEF imm16_of] declared_ge [of i prog PX64_OP_STRUCT_DEF "\<lambda>a b. unat a"]
  by (simp add: sized_def arr_decl_def struct_decl_def)

section \<open>Calls\<close>

text \<open>
  The frames of the callers: what the machine holds for the call depths up to \<open>d\<close>. Steps
  at a call depth beyond \<open>d\<close> leave them alone.
\<close>

definition caller_frames :: "nat \<Rightarrow> PX64VM \<Rightarrow> u16 list \<times> i64 list list" where
  "caller_frames d vm = (take (Suc d) (call_stack vm), take (Suc d) (frame_stack vm))"

lemma skeleton_frames: "skeleton vm = skeleton vm' \<Longrightarrow> caller_frames d vm = caller_frames d vm'"
  by (simp add: skeleton_def caller_frames_def)

lemma exec_op_keeps_frames:
  assumes "exec_op h op a b c i s = Continue s'" and "d < call_sp (mach s)"
  shows "caller_frames d (mach s') = caller_frames d (mach s)"
proof (cases "op \<in> {PX64_OP_ARR_DEF, PX64_OP_STRUCT_DEF, PX64_OP_CALL, PX64_OP_RET}")
  case True
  with assms show ?thesis
    by (auto simp: exec_op_def on_flow_def on_vm_def op_call_def op_ret_def op_arr_def_def
        op_struct_def_def caller_frames_def Let_def split: if_splits)
next
  case False
  have "keeps_skel s (Continue s')"
    using exec_op_keeps_skel [OF False, of s h] assms(1) by metis
  then show ?thesis by (auto simp: keeps_skel_def intro: skeleton_frames)
qed

lemma step_keeps_frames:
  assumes "vm_step h s = Continue s'" and "d < call_sp (mach s)"
  shows "caller_frames d (mach s') = caller_frames d (mach s)"
proof -
  let ?s = "s\<lparr>mach := tick (mach s)\<rparr>"
  obtain op a b c i where "exec_op h op a b c i ?s = Continue s'"
    using assms(1) by (auto simp: vm_step_def Let_def split: option.splits)
  from exec_op_keeps_frames [OF this] assms(2) show ?thesis
    by (simp add: tick_def caller_frames_def)
qed

text \<open>The body of a call made at depth \<open>d\<close>: iterations that stay at greater depth.\<close>

inductive deeper :: "'w host \<Rightarrow> nat \<Rightarrow> 'w vm_run \<Rightarrow> 'w vm_run \<Rightarrow> bool" for h d where
  start: "d < call_sp (mach s) \<Longrightarrow> deeper h d s s"
| step: "deeper h d s t \<Longrightarrow> running (mach t) \<Longrightarrow> vm_step h t = Continue u \<Longrightarrow>
    d < call_sp (mach u) \<Longrightarrow> deeper h d s u"

lemma deeper_frames:
  "deeper h d s t \<Longrightarrow> d < call_sp (mach t) \<and> caller_frames d (mach t) = caller_frames d (mach s)"
  by (induction rule: deeper.induct) (auto dest: step_keeps_frames)

lemma deeper_ok: "deeper h d s t \<Longrightarrow> vm_ok (mach s) \<Longrightarrow> vm_ok (mach t)"
proof (induction rule: deeper.induct)
  case (step s t u)
  then show ?case
    using vm_step_keeps [of t h] by (simp add: running_def run_keeps_def step_rel_def)
qed

end
