(* ===== verification/Store.thy ===== *)
theory Store
  imports Prelude
begin

text \<open>
  The contract of a keyed store: what a read returns after a write. The arrays and the
  struct fields of the virtual machine and the files of the RAM disk are stores.
\<close>

primrec put_all :: "('s \<Rightarrow> 'k \<Rightarrow> 'v \<Rightarrow> 's option) \<Rightarrow> ('k \<times> 'v) list \<Rightarrow> 's \<Rightarrow> 's option" where
  "put_all put [] s = Some s"
| "put_all put (kv # kvs) s =
     (case put s (fst kv) (snd kv) of Some s' \<Rightarrow> put_all put kvs s' | None \<Rightarrow> None)"

locale store =
  fixes inv :: "'s \<Rightarrow> bool"
    and get :: "'s \<Rightarrow> 'k \<Rightarrow> 'v option"
    and put :: "'s \<Rightarrow> 'k \<Rightarrow> 'v \<Rightarrow> 's option"
  assumes put_inv: "inv s \<Longrightarrow> put s k v = Some s' \<Longrightarrow> inv s'"
    and get_put_same: "inv s \<Longrightarrow> put s k v = Some s' \<Longrightarrow> get s' k = Some v"
    and get_put_other: "inv s \<Longrightarrow> put s k v = Some s' \<Longrightarrow> k' \<noteq> k \<Longrightarrow> get s' k' = get s k'"
begin

text \<open>A sequence of writes keeps the invariant, and the last write of a key wins.\<close>

lemma put_all_inv: "inv s \<Longrightarrow> put_all put kvs s = Some s' \<Longrightarrow> inv s'"
  by (induction kvs arbitrary: s) (auto split: option.splits dest: put_inv)

lemma get_put_all:
  assumes "inv s" and "put_all put kvs s = Some s'"
  shows "get s' k = (case map_of (rev kvs) k of Some v \<Rightarrow> Some v | None \<Rightarrow> get s k)"
  using assms
proof (induction kvs arbitrary: s)
  case (Cons kv kvs)
  then obtain s1 where s1: "put s (fst kv) (snd kv) = Some s1" "put_all put kvs s1 = Some s'"
    by (auto split: option.splits)
  have "get s' k = (case map_of (rev kvs) k of Some v \<Rightarrow> Some v | None \<Rightarrow> get s1 k)"
    using Cons.IH [OF put_inv [OF Cons.prems(1) s1(1)] s1(2)] .
  moreover have "get s1 k = (if k = fst kv then Some (snd kv) else get s k)"
    using get_put_same [OF Cons.prems(1) s1(1)] get_put_other [OF Cons.prems(1) s1(1)] by simp
  ultimately show ?case
    by (cases kv) (auto simp: map_add_def split: option.splits)
qed simp

text \<open>Writes to different keys may be made in either order.\<close>

lemma put_comm:
  assumes "inv s" "k \<noteq> k'" "put s k v = Some a" "put a k' v' = Some b" "put s k' v' = Some c" "put c k v = Some d"
  shows "get b = get d"
proof (rule ext)
  fix x
  have "inv a" "inv c" using assms put_inv by blast+
  then show "get b x = get d x"
    using assms get_put_same get_put_other by (cases "x = k"; cases "x = k'") (metis (no_types))+
qed

end

end
