(* ===== verification/VmMemory.thy ===== *)
theory VmMemory
  imports VmOps Store
begin

text \<open>
  The arrays and structs of the px64 machine as stores: the packed layout that definitions
  in ascending order establish, and that a store through one array changes one element of
  that array and nothing of the others.
\<close>

section \<open>Segments\<close>

text \<open>
  Lengths \<open>ls\<close> and bases \<open>bs\<close> describe segments of a memory of \<open>n\<close> slots: a non-empty
  segment begins where the segments of the smaller ids end.
\<close>

definition segments :: "'a::len word list \<Rightarrow> u16 list \<Rightarrow> nat \<Rightarrow> bool" where
  "segments ls bs n \<longleftrightarrow>
     length ls = 16 \<and> length bs = 16 \<and> n < 2 ^ 16 \<and> sum_list (map unat ls) \<le> n \<and>
     (\<forall>k<16. ls ! k \<noteq> 0 \<longrightarrow> unat (bs ! k) = sum_list (map unat (take k ls)))"

definition seg_slot :: "'a::len word list \<Rightarrow> u16 list \<Rightarrow> nat \<times> nat \<Rightarrow> nat option" where
  "seg_slot ls bs ki =
     (case ki of (k, i) \<Rightarrow>
        if k < 16 \<and> i < unat (ls ! k) then Some (unat (bs ! k) + i) else None)"

lemma sum_take_Suc:
  "k < length ls \<Longrightarrow> sum_list (map unat (take (Suc k) ls)) = sum_list (map unat (take k ls)) + unat (ls ! k)"
  by (simp add: take_Suc_conv_app_nth)

lemma sum_take_mono:
  "i \<le> j \<Longrightarrow> sum_list (map unat (take i ls)) \<le> sum_list (map unat (take j ls))"
  by (metis le_iff_add map_append sum_list_append take_add)

lemma sum_take_total: "sum_list (map unat (take i ls)) \<le> sum_list (map unat ls)"
  by (metis append_take_drop_id le_add1 map_append sum_list_append)

lemma seg_slot_bound:
  assumes "segments ls bs n" and "seg_slot ls bs ki = Some j"
  shows "j < n"
proof -
  obtain k i where ki: "ki = (k, i)" by (cases ki)
  with assms(2) have k: "k < 16" and i: "i < unat (ls ! k)" and j: "j = unat (bs ! k) + i"
    by (simp_all add: seg_slot_def split: if_splits)
  with assms(1) have "j < sum_list (map unat (take (Suc k) ls))"
    by (auto simp: segments_def sum_take_Suc)
  with sum_take_total [of "Suc k" ls] assms(1) show ?thesis by (simp add: segments_def)
qed

lemma seg_slot_less:
  assumes "segments ls bs n" and "seg_slot ls bs (k, i) = Some j" and "seg_slot ls bs (k', i') = Some j'"
    and "k < k'"
  shows "j < j'"
proof -
  have k: "k < 16" "i < unat (ls ! k)" "j = unat (bs ! k) + i"
    and k': "k' < 16" "i' < unat (ls ! k')" "j' = unat (bs ! k') + i'"
    using assms(2,3) by (simp_all add: seg_slot_def split: if_splits)
  have "j < sum_list (map unat (take (Suc k) ls))"
    using assms(1) k by (auto simp: segments_def sum_take_Suc)
  also have "\<dots> \<le> sum_list (map unat (take k' ls))" using assms(4) by (intro sum_take_mono) simp
  also have "\<dots> \<le> j'" using assms(1) k' by (auto simp: segments_def)
  finally show ?thesis .
qed

lemma seg_slot_inj:
  assumes "segments ls bs n" and "seg_slot ls bs p = Some j" and "seg_slot ls bs q = Some j"
  shows "p = q"
proof (cases p; cases q)
  fix k i k' i' assume pq: "p = (k, i)" "q = (k', i')"
  have "k = k'"
    using seg_slot_less [OF assms(1)] assms(2,3) pq by (metis less_irrefl linorder_neqE_nat)
  with assms(2,3) pq show "p = q" by (simp add: seg_slot_def split: if_splits)
qed

text \<open>Defining the next segment, when no later one is defined yet.\<close>

lemma segments_define:
  assumes seg: "segments ls bs n" and k: "k < 16" and later: "\<And>j. k \<le> j \<Longrightarrow> j < 16 \<Longrightarrow> ls ! j = 0"
    and room: "sum_list (map unat ls) + unat x \<le> n"
  shows "segments (ls[k := x]) (bs[k := of_nat (sum_list (map unat (take k ls)))]) n"
proof -
  have len: "length ls = 16" "length bs = 16" "n < 2 ^ 16" using seg by (simp_all add: segments_def)
  let ?b = "sum_list (map unat (take k ls))"
  have "sum_list (map unat (drop k ls)) = 0"
    using later len by (auto simp: sum_list_eq_0_iff in_set_conv_nth)
  then have tot: "sum_list (map unat ls) = ?b"
    by (metis add.right_neutral append_take_drop_id map_append sum_list_append)
  have "sum_list (map unat (drop (Suc k) ls)) = 0"
    using later len by (auto simp: sum_list_eq_0_iff in_set_conv_nth)
  then have sum: "sum_list (map unat (ls[k := x])) = ?b + unat x"
    using k len by (simp add: upd_conv_take_nth_drop)
  have b: "unat (of_nat ?b :: u16) = ?b"
    using room tot len(3) by (simp add: unat_of_nat)
  have "unat (bs[k := of_nat ?b] ! j) = sum_list (map unat (take j (ls[k := x])))"
    if "j < 16" "ls[k := x] ! j \<noteq> 0" for j
  proof -
    from that later len have "j < k \<or> j = k"
      by (metis linorder_neqE_nat nat_less_le nth_list_update_neq)
    then show ?thesis
      using that seg b k len by (auto simp: segments_def)
  qed
  with sum room tot len k show ?thesis by (simp add: segments_def)
qed

section \<open>Segmented memory as a store\<close>

definition seg_get :: "'a::len word list \<Rightarrow> u16 list \<Rightarrow> i64 list \<Rightarrow> nat \<times> nat \<Rightarrow> i64 option" where
  "seg_get ls bs mem ki = (case seg_slot ls bs ki of Some j \<Rightarrow> Some (mem ! j) | None \<Rightarrow> None)"

definition seg_put :: "'a::len word list \<Rightarrow> u16 list \<Rightarrow> i64 list \<Rightarrow> nat \<times> nat \<Rightarrow> i64 \<Rightarrow> i64 list option" where
  "seg_put ls bs mem ki v = (case seg_slot ls bs ki of Some j \<Rightarrow> Some (mem[j := v]) | None \<Rightarrow> None)"

lemma seg_store:
  assumes "segments ls bs n"
  shows "store (\<lambda>mem. length mem = n) (seg_get ls bs) (seg_put ls bs)"
proof
  fix s k v s' k'
  assume len: "length s = n" and put: "seg_put ls bs s k v = Some s'"
  then obtain j where j: "seg_slot ls bs k = Some j" "s' = s[j := v]"
    by (auto simp: seg_put_def split: option.splits)
  have b: "j < n" by (rule seg_slot_bound [OF assms j(1)])
  show "length s' = n" using len j by simp
  show "seg_get ls bs s' k = Some v" using b len j by (simp add: seg_get_def)
  assume "k' \<noteq> k"
  then show "seg_get ls bs s' k' = seg_get ls bs s k'"
    using seg_slot_inj [OF assms _ j(1), of k'] j(2)
    by (cases "seg_slot ls bs k'") (auto simp: seg_get_def, metis nth_list_update_neq)
qed

section \<open>Arrays\<close>

definition arrays_packed :: "PX64VM \<Rightarrow> bool" where
  "arrays_packed vm \<longleftrightarrow>
     segments (array_lens vm) (array_bases vm) 1024 \<and> length (array_slots vm) = 1024"

definition arr_get :: "PX64VM \<Rightarrow> nat \<times> nat \<Rightarrow> i64 option" where
  "arr_get vm = seg_get (array_lens vm) (array_bases vm) (array_slots vm)"

definition arr_put :: "PX64VM \<Rightarrow> nat \<times> nat \<Rightarrow> i64 \<Rightarrow> PX64VM option" where
  "arr_put vm ki v =
     map_option (\<lambda>m. vm\<lparr>array_slots := m\<rparr>) (seg_put (array_lens vm) (array_bases vm) (array_slots vm) ki v)"

interpretation arr: store arrays_packed arr_get arr_put
proof
  fix s k v s' k'
  assume inv: "arrays_packed s" and put: "arr_put s k v = Some s'"
  let ?ls = "array_lens s" and ?bs = "array_bases s"
  have seg: "segments ?ls ?bs 1024" and len: "length (array_slots s) = 1024"
    using inv by (simp_all add: arrays_packed_def)
  obtain m where m: "seg_put ?ls ?bs (array_slots s) k v = Some m" and s': "s' = s\<lparr>array_slots := m\<rparr>"
    using put by (auto simp: arr_put_def)
  show "arrays_packed s'"
    using store.put_inv [OF seg_store [OF seg] len m] seg s' by (simp add: arrays_packed_def)
  show "arr_get s' k = Some v"
    using store.get_put_same [OF seg_store [OF seg] len m] s' by (simp add: arr_get_def)
  assume "k' \<noteq> k"
  then show "arr_get s' k' = arr_get s k'"
    using store.get_put_other [OF seg_store [OF seg] len m] s' by (simp add: arr_get_def)
qed

text \<open>The instructions are the operations of the store.\<close>

lemma arr_slot_of_index:
  assumes "k < 16" and "0 \<le> i" and "i < uint (array_lens vm ! k)"
  shows "seg_slot (array_lens vm) (array_bases vm) (k, nat i) = Some (unat (array_bases vm ! k) + nat i)"
  using assms by (simp add: seg_slot_def nat_less_iff)

lemma op_arr_load_get:
  assumes "arrays_packed vm" and "reg_ok rd"
  shows "op_arr_load rd k ir vm = Continue vm' \<longleftrightarrow>
    (0 \<le> sint (reg_or (-1) ir vm) \<and>
     (\<exists>v. arr_get vm (k, nat (sint (reg_or (-1) ir vm))) = Some v \<and> vm' = set_reg rd v vm))"
proof (cases "k < 16 \<and> 0 \<le> sint (reg_or (-1) ir vm) \<and> sint (reg_or (-1) ir vm) < uint (array_lens vm ! k)")
  case True
  let ?i = "nat (sint (reg_or (-1) ir vm))"
  have s: "seg_slot (array_lens vm) (array_bases vm) (k, ?i) = Some (unat (array_bases vm ! k) + ?i)"
    using True by (intro arr_slot_of_index) simp_all
  then have "unat (array_bases vm ! k) + ?i < length (array_slots vm)"
    using seg_slot_bound [OF _ s] assms(1) by (auto simp: arrays_packed_def)
  then show ?thesis
    using True s assms(2) by (auto simp: op_arr_load_def arr_get_def seg_get_def Let_def)
next
  case False
  then show ?thesis
    by (auto simp: op_arr_load_def arr_get_def seg_get_def seg_slot_def Let_def nat_less_iff)
qed

lemma op_arr_store_put:
  assumes "arrays_packed vm"
  shows "op_arr_store k ir vr vm = Continue vm' \<longleftrightarrow>
    (0 \<le> sint (reg_or (-1) ir vm) \<and>
     arr_put vm (k, nat (sint (reg_or (-1) ir vm))) (reg_or 0 vr vm) = Some vm')"
proof (cases "k < 16 \<and> 0 \<le> sint (reg_or (-1) ir vm) \<and> sint (reg_or (-1) ir vm) < uint (array_lens vm ! k)")
  case True
  let ?i = "nat (sint (reg_or (-1) ir vm))"
  have s: "seg_slot (array_lens vm) (array_bases vm) (k, ?i) = Some (unat (array_bases vm ! k) + ?i)"
    using True by (intro arr_slot_of_index) simp_all
  then have "unat (array_bases vm ! k) + ?i < length (array_slots vm)"
    using seg_slot_bound [OF _ s] assms(1) by (auto simp: arrays_packed_def)
  then show ?thesis
    using True s by (auto simp: op_arr_store_def arr_put_def seg_put_def Let_def)
next
  case False
  then show ?thesis
    by (auto simp: op_arr_store_def arr_put_def seg_put_def seg_slot_def Let_def nat_less_iff)
qed

text \<open>Defining the next array: it is zero, and the arrays before it keep their elements.\<close>

lemma take_upd_same: "take k (xs[k := x]) = take k xs"
  by (simp add: list_eq_iff_nth_eq)

lemma op_arr_def_packed:
  assumes p: "arrays_packed vm" and k: "k < 16"
    and later: "\<And>j. k \<le> j \<Longrightarrow> j < 16 \<Longrightarrow> array_lens vm ! j = 0"
    and room: "sum_list (map unat (array_lens vm)) + unat n \<le> 1024"
  shows "arrays_packed (op_arr_def k n vm)"
    and "arr_get (op_arr_def k n vm) (j, i) =
      (if j = k then if i < unat n then Some 0 else None else arr_get vm (j, i))"
proof -
  let ?ls = "array_lens vm" and ?bs = "array_bases vm"
  let ?b = "sum_list (map unat (take k ?ls))"
  let ?vm = "op_arr_def k n vm"
  have seg: "segments ?ls ?bs 1024" and len: "length (array_slots vm) = 1024"
    using p by (simp_all add: arrays_packed_def)
  have b: "?b + unat n \<le> 1024"
    using sum_take_total [of k ?ls] room by linarith
  have vm: "array_lens ?vm = ?ls[k := n]" "array_bases ?vm = ?bs[k := of_nat ?b]"
    "array_slots ?vm = copy_at ?b (array_of 0 (unat n)) (array_slots vm)"
    using k b by (simp_all add: op_arr_def_def Let_def take_upd_same)
  have seg': "segments (?ls[k := n]) (?bs[k := of_nat ?b]) 1024"
    by (rule segments_define [OF seg k later room])
  show "arrays_packed ?vm"
    using seg' len b by (simp add: arrays_packed_def vm)
  have l16: "length ?ls = 16" "length ?bs = 16" using seg by (simp_all add: segments_def)
  show "arr_get ?vm (j, i) =
      (if j = k then if i < unat n then Some 0 else None else arr_get vm (j, i))"
  proof (cases "j = k")
    case True
    then show ?thesis
      using k l16 b len
      by (simp add: arr_get_def seg_get_def seg_slot_def vm unat_of_nat nth_copy_at)
  next
    case False
    have "unat (?bs ! j) + i < ?b" if j: "j < 16" "i < unat (?ls ! j)"
    proof -
      from j later False have "j < k"
        by (metis less_nat_zero_code linorder_neqE_nat nat_less_le unat_0)
      have "unat (?bs ! j) + i < sum_list (map unat (take (Suc j) ?ls))"
        using seg j by (auto simp: segments_def sum_take_Suc)
      also have "\<dots> \<le> ?b" using \<open>j < k\<close> by (intro sum_take_mono) simp
      finally show ?thesis .
    qed
    then have "array_slots ?vm ! (unat (?bs ! j) + i) = array_slots vm ! (unat (?bs ! j) + i)"
      if "j < 16" "i < unat (?ls ! j)"
      using that b len by (subst vm(3), subst nth_copy_at) auto
    with False l16 show ?thesis
      by (simp add: arr_get_def seg_get_def seg_slot_def vm(1,2))
  qed
qed

section \<open>Structs\<close>

definition structs_packed :: "PX64VM \<Rightarrow> bool" where
  "structs_packed vm \<longleftrightarrow>
     segments (struct_field_counts vm) (struct_bases vm) 1024 \<and> length (struct_slots vm) = 1024"

definition struct_get :: "PX64VM \<Rightarrow> nat \<times> nat \<Rightarrow> i64 option" where
  "struct_get vm = seg_get (struct_field_counts vm) (struct_bases vm) (struct_slots vm)"

definition struct_put :: "PX64VM \<Rightarrow> nat \<times> nat \<Rightarrow> i64 \<Rightarrow> PX64VM option" where
  "struct_put vm ki v =
     map_option (\<lambda>m. vm\<lparr>struct_slots := m\<rparr>)
       (seg_put (struct_field_counts vm) (struct_bases vm) (struct_slots vm) ki v)"

interpretation struct: store structs_packed struct_get struct_put
proof
  fix s k v s' k'
  assume inv: "structs_packed s" and put: "struct_put s k v = Some s'"
  let ?ls = "struct_field_counts s" and ?bs = "struct_bases s"
  have seg: "segments ?ls ?bs 1024" and len: "length (struct_slots s) = 1024"
    using inv by (simp_all add: structs_packed_def)
  obtain m where m: "seg_put ?ls ?bs (struct_slots s) k v = Some m" and s': "s' = s\<lparr>struct_slots := m\<rparr>"
    using put by (auto simp: struct_put_def)
  show "structs_packed s'"
    using store.put_inv [OF seg_store [OF seg] len m] seg s' by (simp add: structs_packed_def)
  show "struct_get s' k = Some v"
    using store.get_put_same [OF seg_store [OF seg] len m] s' by (simp add: struct_get_def)
  assume "k' \<noteq> k"
  then show "struct_get s' k' = struct_get s k'"
    using store.get_put_other [OF seg_store [OF seg] len m] s' by (simp add: struct_get_def)
qed

lemma op_struct_def_packed:
  assumes p: "structs_packed vm" and k: "k < 16"
    and later: "\<And>j. k \<le> j \<Longrightarrow> j < 16 \<Longrightarrow> struct_field_counts vm ! j = 0"
    and room: "sum_list (map unat (struct_field_counts vm)) + unat (of_nat n :: u8) \<le> 1024"
  shows "structs_packed (op_struct_def k n vm)"
  using segments_define [OF _ k later room, of "struct_bases vm"] p k
  by (simp add: structs_packed_def op_struct_def_def Let_def take_upd_same)

lemma op_struct_load_get:
  assumes "structs_packed vm"
  shows "op_struct_load rd k i vm = Continue vm' \<longleftrightarrow>
    (\<exists>v. struct_get vm (k, i) = Some v \<and> vm' = set_reg rd v vm)"
  using assms seg_slot_bound [of "struct_field_counts vm" "struct_bases vm" 1024 "(k, i)"]
  by (auto simp: op_struct_load_def struct_get_def seg_get_def seg_slot_def structs_packed_def
      split: option.splits)

lemma op_struct_store_put:
  assumes "structs_packed vm"
  shows "op_struct_store k i vr vm = Continue vm' \<longleftrightarrow> struct_put vm (k, i) (reg_or 0 vr vm) = Some vm'"
  using assms seg_slot_bound [of "struct_field_counts vm" "struct_bases vm" 1024 "(k, i)"]
  by (auto simp: op_struct_store_def struct_put_def seg_put_def seg_slot_def structs_packed_def Let_def
      split: option.splits)

end
