(* ===== verification/VmProps.thy ===== *)
theory VmProps
  imports VmSafety VmMemory
begin

text \<open>
  What the px64 machine promises to a program: no panic for a program that passes the
  static check, calls that return to their caller, isolated arrays and structs, and the
  arithmetic, comparison, tag, fixed-point and video memory laws.
\<close>

lemma sint_eqD: "sint a = sint b \<Longrightarrow> a = b" for a b :: "'a::len word"
  by (rule signed_word_eqI)

section \<open>Panics\<close>

lemma vm_code_new [simp]: "vm_code (vm_new c p k a) = c"
  by (simp add: vm_new_def)

lemma run_no_panic:
  assumes "run_with_output h s = Some r" and "vm_ok (mach s)" and "static_safe (vm_code (mach s))"
    and "layout_ok (vm_code (mach s)) (mach s)"
  shows "r \<noteq> Panicked"
  using assms
proof (induction rule: run_induct)
  case (continue s s' r)
  have "vm_ok (mach s')" and "vm_code (mach s') = vm_code (mach s)"
    using vm_step_keeps [of s h] continue.prems(1) continue.hyps
    by (simp_all add: running_def run_keeps_def step_rel_def same_program_def)
  moreover have "layout_ok (vm_code (mach s)) (mach s')"
    by (rule step_keeps_layout) (use continue sized_declared in \<open>simp_all add: running_def fetchable_def\<close>)
  ultimately show ?case using continue.IH continue.prems by simp
next
  case (crash s)
  then show ?case using static_safe_no_crash by blast
qed simp_all


text \<open>\<^verbatim>\<open>ARR_DEF #0, 4; MOV_IMM $rax, 3; ARR_STORE #0, $rax, $rax; HALT\<close>.\<close>

definition array_prog :: "u8 list" where
  "array_prog = [31, 0, 0, 4, 1, 0, 0, 3, 33, 0, 0, 0, 22, 0, 0, 0]"


text \<open>
  The check on argument registers is needed: bytecode that passes register number 30
  to \<^verbatim>\<open>@streq\<close> panics the machine, whatever the host, constants and arguments are.
\<close>

theorem crafted_call_panics:
  "run_with_output h (vm_start (vm_new [18, 0, 15, 30] pool consts args) w) = Some Panicked"
proof -
  let ?s = "vm_start (vm_new [18, 0, 15, 30] pool consts args) w"
  have d: "decode_op 18 = Some PX64_OP_CALL_NAT" "decode_native 15 = Some NATIVE_STREQ"
    by (simp_all add: decode_op_Some decode_native_Some)
  have "running (mach ?s)" by (simp add: running_def fetchable_def vm_start_def vm_new_def)
  moreover have "op_call_nat h 0 15 30 s = Crash" if "length (regs (mach s)) = 20" for s
    using that by (simp add: op_call_nat_def call_native_def native_streq_def with_arg_def
        nat_arg_def d idx_def)
  then have "vm_step h ?s = Crash"
    by (simp add: vm_step_def vm_start_def vm_new_def d exec_op_def tick_def)
  ultimately show ?thesis by (simp add: run_running)
qed

text \<open>
  So is the check on video memory: an offset of -8 to -1 makes \<^verbatim>\<open>offset + 8\<close> overflow. The program
  is \<^verbatim>\<open>MOV_IMM $15, 0; LDC $14, -1; CALL_NAT $1, @vram_read, $15; HALT\<close>, what the compiler makes of
  \<^verbatim>\<open>$x := @vram_read(0, 0 - 1);\<close>.
\<close>

lemma vram_load_negative:
  assumes "2 ^ 64 \<le> unat (off :: u64) + 8"
  shows "vram_load slot off = None" "vram_store slot off v = None"
  using assms by (simp_all add: vram_load_def vram_store_def Let_def)

theorem negative_vram_offset_panics:
  "run_with_output h (vm_start (vm_new [1, 15, 0, 0, 23, 14, 0, 0, 18, 1, 28, 15, 22, 0, 0, 0] pool [- 1] args) w)
     = Some Panicked"
proof -
  let ?c = "[1, 15, 0, 0, 23, 14, 0, 0, 18, 1, 28, 15, 22, 0, 0, 0] :: u8 list"
  let ?s0 = "vm_start (vm_new ?c pool [- 1] args) w"
  let ?s1 = "?s0\<lparr>mach := set_reg 15 0 (tick (mach ?s0))\<rparr>"
  let ?s2 = "?s1\<lparr>mach := set_reg 14 (- 1) (tick (mach ?s1))\<rparr>"
  have d: "decode_op 1 = Some PX64_OP_MOV_IMM" "decode_op 23 = Some PX64_OP_LDC" "decode_op 18 = Some PX64_OP_CALL_NAT"
    "decode_native 28 = Some NATIVE_VRAM_READ"
    by (simp_all add: decode_op_Some decode_native_Some)
  have z: "from_be [0, 0] = (0 :: u16)" by (simp add: from_be_def)
  note defs = vm_start_def vm_new_def set_reg_def tick_def
  have r: "running (mach ?s0)" "running (mach ?s1)" "running (mach ?s2)"
    by (simp_all add: defs running_def fetchable_def)
  have "vm_step h ?s0 = Continue ?s1" "vm_step h ?s1 = Continue ?s2"
    by (simp_all add: vm_step_def defs d z exec_op_def on_vm_def on_flow_def op_mov_imm_def op_ldc_def)
  moreover have "vm_step h ?s2 = Crash"
  proof -
    have "regs (mach ?s2) ! 14 = - 1" by (simp add: defs)
    then have "with_arg 0 0 15 (?s2\<lparr>mach := tick (mach ?s2)\<rparr>) f = f (- 1)" for f :: "i64 \<Rightarrow> 'a native_result"
      by (simp add: with_arg_def nat_arg_def idx_def tick_def) (simp add: defs)
    moreover have "vram_load slot (- 1) = None" for slot
      by (rule vram_load_negative) (simp add: unsigned_minus_1_eq_mask mask_eq_exp_minus_1)
    ultimately have "op_call_nat h 1 28 15 (?s2\<lparr>mach := tick (mach ?s2)\<rparr>) = Crash"
      by (simp add: op_call_nat_def d call_native_def native_vram_read_def Let_def)
    then show ?thesis by (simp add: vm_step_def defs d exec_op_def)
  qed
  ultimately show ?thesis using r by (simp add: run_running)
qed

section \<open>Calls\<close>

text \<open>
  C9: a call returns to its caller. After a \<^verbatim>\<open>CALL\<close> at depth \<open>d\<close>, whatever instructions run
  at greater depth (nested calls included), the \<^verbatim>\<open>RET\<close> that leaves the callee continues after
  the call with the caller's registers 1 to 15 restored, \<^verbatim>\<open>$rax\<close> and registers 16 to 19
  as the callee left them, and the call depth of the caller.
\<close>

theorem call_returns_to_caller:
  assumes ok: "vm_ok (mach s)" and ip: "ip (mach s) < 2 ^ 16"
    and call: "op_call target (mach s) = Continue vm1"
    and body: "deeper h (call_sp (mach s)) (s\<lparr>mach := vm1\<rparr>) t"
    and depth: "call_sp (mach t) = call_sp (mach s) + 1"
  shows "\<exists>vm2. op_ret (mach t) = Continue vm2 \<and> ip vm2 = ip (mach s) \<and>
    call_sp vm2 = call_sp (mach s) \<and>
    (\<forall>r. 1 \<le> r \<and> r < 16 \<longrightarrow> regs vm2 ! r = regs (mach s) ! r) \<and>
    regs vm2 ! 0 = regs (mach t) ! 0 \<and>
    (\<forall>r. 16 \<le> r \<and> r < PX64_NUM_REGISTERS \<longrightarrow> regs vm2 ! r = regs (mach t) ! r)"
proof -
  let ?d = "call_sp (mach s)"
  have d: "?d < MAX_CALL_DEPTH"
    and vm1: "call_stack vm1 = (call_stack (mach s))[?d := of_nat (ip (mach s))]"
      "frame_stack vm1 = (frame_stack (mach s))[?d := take 16 (regs (mach s))]"
    using call by (auto simp: op_call_def split: if_splits)
  have "vm_ok vm1"
    using flow_keeps_call [OF ok, of target] call by (simp add: flow_keeps_def keeps_def)
  then have okt: "vm_ok (mach t)" using deeper_ok [OF body] by simp
  have fr: "caller_frames ?d (mach t) = caller_frames ?d vm1"
    using deeper_frames [OF body] by simp
  have lens: "length (call_stack (mach s)) = 8" "length (frame_stack (mach s)) = 8"
    "length (regs (mach s)) = 20" "length (regs (mach t)) = 20"
    using ok okt by (simp_all add: vm_ok_def)
  have "take (Suc ?d) (call_stack (mach t)) ! ?d = of_nat (ip (mach s))"
    "take (Suc ?d) (frame_stack (mach t)) ! ?d = take 16 (regs (mach s))"
    using fr vm1 d lens by (simp_all add: caller_frames_def)
  then have st: "call_stack (mach t) ! ?d = of_nat (ip (mach s))"
    "frame_stack (mach t) ! ?d = take 16 (regs (mach s))" by simp_all
  have "unat (of_nat (ip (mach s)) :: u16) = ip (mach s)"
    using ip by (simp add: unat_of_nat)
  then show ?thesis
    using depth st lens by (auto simp: op_ret_def Let_def nth_append nth_list_update)
qed

text \<open>\<^verbatim>\<open>MOV_IMM $rbx, 7\<close> in the callee, between a call from depth 0 and its return.\<close>

definition caller_vm :: PX64VM where
  "caller_vm = vm_new [1, 1, 0, 7, 36, 0, 0, 0] [] [] []"

theorem call_returns_to_caller_witness:
  "\<exists>vm vm2. regs vm ! 1 = 7 \<and> op_ret vm = Continue vm2 \<and> regs vm2 ! 1 = regs caller_vm ! 1"
proof -
  let ?s = "vm_start caller_vm ()"
  obtain vm1 where vm1: "op_call 0 (mach ?s) = Continue vm1" "call_sp vm1 = 1" "ip vm1 = 0"
    "steps vm1 = 0" "max_steps vm1 = MAX_VM_STEPS" "vm_code vm1 = [1, 1, 0, 7, 36, 0, 0, 0]"
    "regs vm1 = array_of 0 20"
    by (simp add: op_call_def vm_start_def caller_vm_def vm_new_def)
  let ?t = "?s\<lparr>mach := op_mov_imm 1 7 (tick vm1)\<rparr>"
  have d: "decode_op 1 = Some PX64_OP_MOV_IMM" by (simp add: decode_op_Some)
  have "vm_step idle_host (?s\<lparr>mach := vm1\<rparr>) = Continue ?t"
    using vm1 by (simp add: vm_step_def d exec_op_def on_vm_def from_be_def)
  moreover have sp: "call_sp (mach ?t) = 1"
    using vm1 by (simp add: op_mov_imm_def set_reg_def tick_def)
  moreover have "running vm1" using vm1 by (simp add: running_def fetchable_def)
  ultimately have "deeper idle_host (call_sp (mach ?s)) (?s\<lparr>mach := vm1\<rparr>) ?t"
    using vm1 by (intro deeper.step [OF deeper.start]) (simp_all add: vm_start_def caller_vm_def vm_new_def)
  note call_returns_to_caller [OF _ _ vm1(1) this]
  moreover have "vm_ok (mach ?s)" "ip (mach ?s) < 2 ^ 16" "call_sp (mach ?t) = call_sp (mach ?s) + 1"
    using sp by (simp_all add: vm_start_def caller_vm_def) (simp_all add: vm_new_def)
  ultimately obtain vm2 where "op_ret (mach ?t) = Continue vm2" "regs vm2 ! 1 = regs (mach ?s) ! 1"
    by fastforce
  moreover have "regs (mach ?t) ! 1 = 7"
    using vm1 by (simp add: op_mov_imm_def set_reg_def tick_def)
  moreover have "mach ?s = caller_vm" by (simp add: vm_start_def)
  ultimately show ?thesis by metis
qed

section \<open>Arrays and structs\<close>

text \<open>
  Arrays are isolated. In a packed layout, an \<^verbatim>\<open>ARR_STORE\<close> that succeeds keeps the layout,
  a later \<^verbatim>\<open>ARR_LOAD\<close> of the same element returns the stored value, and a load of any other
  element, of this or of another array, returns what it returned before.
\<close>

theorem array_store_isolated:
  assumes p: "arrays_packed vm" and st: "op_arr_store k ir vr vm = Continue vm'" and rd: "reg_ok rd"
  shows "arrays_packed vm' \<and> regs vm' = regs vm \<and>
    op_arr_load rd k ir vm' = Continue (set_reg rd (reg_or 0 vr vm) vm') \<and>
    (\<forall>k' ir' u. (k', reg_or (-1) ir' vm) \<noteq> (k, reg_or (-1) ir vm) \<longrightarrow>
       op_arr_load rd k' ir' vm = Continue u \<longrightarrow>
       op_arr_load rd k' ir' vm' = Continue (u\<lparr>array_slots := array_slots vm'\<rparr>))"
proof -
  let ?i = "\<lambda>r. sint (reg_or (-1) r vm)"
  have i: "0 \<le> ?i ir" and put: "arr_put vm (k, nat (?i ir)) (reg_or 0 vr vm) = Some vm'"
    using st op_arr_store_put [OF p] by blast+
  note p' = arr.put_inv [OF p put]
  have r: "regs vm' = regs vm" using put by (auto simp: arr_put_def)
  have ro: "reg_or (-1) x vm' = reg_or (-1) x vm" for x by (simp add: reg_or_def r)
  have same: "op_arr_load rd k ir vm' = Continue (set_reg rd (reg_or 0 vr vm) vm')"
    using op_arr_load_get [OF p' rd] arr.get_put_same [OF p put] i ro by simp
  have other: "op_arr_load rd k' ir' vm' = Continue (u\<lparr>array_slots := array_slots vm'\<rparr>)"
    if ne: "(k', reg_or (-1) ir' vm) \<noteq> (k, reg_or (-1) ir vm)" and ld: "op_arr_load rd k' ir' vm = Continue u"
    for k' ir' u
  proof -
    obtain v where v: "0 \<le> ?i ir'" "arr_get vm (k', nat (?i ir')) = Some v" "u = set_reg rd v vm"
      using op_arr_load_get [OF p rd] ld by blast
    have "(k', nat (?i ir')) \<noteq> (k, nat (?i ir))"
      using ne v(1) i by (auto simp: nat_eq_iff dest: sint_eqD)
    from arr.get_put_other [OF p put this] v(2) have "arr_get vm' (k', nat (?i ir')) = Some v"
      by simp
    moreover have "set_reg rd v vm' = u\<lparr>array_slots := array_slots vm'\<rparr>"
      using put v(3) by (auto simp: arr_put_def set_reg_def)
    ultimately show ?thesis using op_arr_load_get [OF p' rd] ro v(1) by simp
  qed
  from p' r same other show ?thesis by blast
qed

text \<open>
  \<^verbatim>\<open>ARR_DEF\<close> in ascending order of ids establishes that layout: the new array holds its
  declared number of zeros, the elements of the arrays defined before are unchanged, and the
  layout stays packed as long as the declared lengths sum up to at most 1024.
\<close>

theorem array_definition_packs:
  assumes "arrays_packed vm" and "k < 16"
    and "\<And>j. k \<le> j \<Longrightarrow> j < 16 \<Longrightarrow> array_lens vm ! j = 0"
    and "sum_list (map unat (array_lens vm)) + unat n \<le> 1024"
  shows "arrays_packed (op_arr_def k n vm) \<and>
    (\<forall>j i. arr_get (op_arr_def k n vm) (j, i) =
       (if j = k then if i < unat n then Some 0 else None else arr_get vm (j, i)))"
  using op_arr_def_packed [OF assms] by blast

lemma arrays_packed_new: "arrays_packed (vm_new c p k a)"
  by (auto simp: arrays_packed_def segments_def vm_new_def array_of_def sum_list_replicate)

lemma structs_packed_new: "structs_packed (vm_new c p k a)"
  by (auto simp: structs_packed_def segments_def vm_new_def array_of_def sum_list_replicate)

theorem array_definition_packs_witness:
  "arr_get (op_arr_def 0 3 (vm_new [] [] [] [])) (0, 2) = Some 0"
proof -
  let ?vm = "vm_new [] [] [] []"
  have "array_lens ?vm ! j = 0" if "0 \<le> j" "j < 16" for j
    using that by (simp add: vm_new_def)
  moreover have "sum_list (map unat (array_lens ?vm)) + unat (3 :: u16) \<le> 1024"
    by (simp add: vm_new_def array_of_def sum_list_replicate)
  ultimately show ?thesis
    using array_definition_packs [OF arrays_packed_new, where k = 0 and n = 3] by simp
qed

theorem array_store_isolated_witness:
  "\<exists>vm'. op_arr_store 0 0 1 (op_arr_def 0 3 (vm_new [] [] [] [])) = Continue vm' \<and>
     op_arr_load 2 0 0 vm' = Continue (set_reg 2 0 vm')"
proof -
  let ?vm = "op_arr_def 0 3 (vm_new [] [] [] [])"
  have p: "arrays_packed ?vm"
    by (rule op_arr_def_packed) (simp_all add: arrays_packed_new, simp_all add: vm_new_def array_of_def sum_list_replicate)
  obtain vm' where st: "op_arr_store 0 0 1 ?vm = Continue vm'"
    by (simp add: op_arr_store_def op_arr_def_def vm_new_def reg_or_def Let_def array_of_def copy_at_def)
  have "op_arr_load 2 0 0 vm' = Continue (set_reg 2 (reg_or 0 1 ?vm) vm')"
    using array_store_isolated [OF p st, of 2] by simp
  with st show ?thesis
    by (simp add: reg_or_def op_arr_def_def vm_new_def)
qed

text \<open>
  Struct fields are isolated in the same way: in a packed layout a \<^verbatim>\<open>STRUCT_STORE\<close> that
  succeeds makes a \<^verbatim>\<open>STRUCT_LOAD\<close> of the field return the stored value and leaves every other
  field of every instance as it was.
\<close>

theorem struct_store_isolated:
  assumes p: "structs_packed vm" and st: "op_struct_store k i vr vm = Continue vm'"
  shows "structs_packed vm' \<and>
    op_struct_load rd k i vm' = Continue (set_reg rd (reg_or 0 vr vm) vm') \<and>
    (\<forall>k' i' u. (k', i') \<noteq> (k, i) \<longrightarrow> op_struct_load rd k' i' vm = Continue u \<longrightarrow>
       op_struct_load rd k' i' vm' = Continue (u\<lparr>struct_slots := struct_slots vm'\<rparr>))"
proof -
  have put: "struct_put vm (k, i) (reg_or 0 vr vm) = Some vm'"
    using st op_struct_store_put [OF p] by blast
  note p' = struct.put_inv [OF p put]
  have "op_struct_load rd k' i' vm' = Continue (u\<lparr>struct_slots := struct_slots vm'\<rparr>)"
    if ne: "(k', i') \<noteq> (k, i)" and ld: "op_struct_load rd k' i' vm = Continue u" for k' i' u
  proof -
    obtain v where v: "struct_get vm (k', i') = Some v" "u = set_reg rd v vm"
      using op_struct_load_get [OF p] ld by blast
    moreover have "set_reg rd v vm' = u\<lparr>struct_slots := struct_slots vm'\<rparr>"
      using put v(2) by (auto simp: struct_put_def set_reg_def)
    ultimately show ?thesis
      using struct.get_put_other [OF p put ne] op_struct_load_get [OF p'] by simp
  qed
  then show ?thesis
    using p' op_struct_load_get [OF p'] struct.get_put_same [OF p put] by auto
qed

theorem struct_store_isolated_witness:
  "\<exists>vm'. op_struct_store 0 1 0 (op_struct_def 0 2 (vm_new [] [] [] [])) = Continue vm' \<and>
     op_struct_load 2 0 1 vm' = Continue (set_reg 2 0 vm')"
proof -
  let ?vm = "op_struct_def 0 2 (vm_new [] [] [] [])"
  have p: "structs_packed ?vm"
    by (rule op_struct_def_packed)
      (simp_all add: structs_packed_new, simp_all add: vm_new_def array_of_def sum_list_replicate)
  obtain vm' where st: "op_struct_store 0 1 0 ?vm = Continue vm'"
    by (simp add: op_struct_store_def op_struct_def_def vm_new_def reg_or_def Let_def array_of_def)
  have "op_struct_load 2 0 1 vm' = Continue (set_reg 2 (reg_or 0 0 ?vm) vm')"
    using struct_store_isolated [OF p st, of 2] by simp
  with st show ?thesis
    by (simp add: reg_or_def op_struct_def_def vm_new_def)
qed

section \<open>Arithmetic and comparison\<close>

text \<open>A register as a condition.\<close>

definition flag :: "i64 \<Rightarrow> bool" where
  "flag v \<longleftrightarrow> v \<noteq> 0"

text \<open>
  \<^verbatim>\<open>DIV\<close> and \<^verbatim>\<open>MOD\<close> agree. Where the divisor is not zero both succeed, and the quotient and
  remainder they leave satisfy \<open>a = q * b + r\<close> in 64-bit wrapping arithmetic, the overflowing
  \<open>MIN / -1\<close> included; where it is zero both stop with \<^verbatim>\<open>ERR_PX64_DIV_BY_ZERO\<close>.
\<close>

theorem div_mod_identity:
  assumes "reg_ok rd" and "reg_ok a" and "reg_ok b"
  shows "if regs vm ! b = 0
    then (\<exists>m m'. op_div rd a b vm = Fail (simple ''ERR_PX64_DIV_BY_ZERO'' m) vm \<and>
                 op_mod rd a b vm = Fail (simple ''ERR_PX64_DIV_BY_ZERO'' m') vm)
    else (\<exists>q r. op_div rd a b vm = Continue (set_reg rd q vm) \<and>
                op_mod rd a b vm = Continue (set_reg rd r vm) \<and>
                q * regs vm ! b + r = regs vm ! a)"
proof (cases "regs vm ! b = 0")
  case True
  then show ?thesis using assms by (auto simp: op_div_def op_mod_def)
next
  case False
  let ?a = "regs vm ! a" and ?b = "regs vm ! b"
  have "word_of_int (sint ?a sdiv sint ?b * sint ?b + sint ?a smod sint ?b) = ?a"
    by (simp only: sdiv_mult_smod_eq) simp
  then have "wrapping_div ?a ?b * ?b + wrapping_rem ?a ?b = ?a"
    unfolding of_int_add of_int_mult by (simp add: wrapping_div_def wrapping_rem_def)
  with False assms show ?thesis by (auto simp: op_div_def op_mod_def)
qed

theorem div_mod_identity_witness:
  "\<exists>q r. op_div 0 1 2 (vm_new [] [] [] []\<lparr>regs := [0, 0x8000000000000000, -1]\<rparr>) =
       Continue (set_reg 0 q (vm_new [] [] [] []\<lparr>regs := [0, 0x8000000000000000, -1]\<rparr>)) \<and>
     q * (-1) + r = (0x8000000000000000 :: i64)"
  using div_mod_identity [of 0 1 2 "vm_new [] [] [] []\<lparr>regs := [0, 0x8000000000000000, -1]\<rparr>"]
  by auto

text \<open>
  The comparisons agree with each other on every machine and all register values: \<^verbatim>\<open>CMP_NE\<close>
  is the negation of \<^verbatim>\<open>CMP_EQ\<close>, also on string references, \<^verbatim>\<open>CMP_GE\<close> of \<^verbatim>\<open>CMP_LT\<close>, \<^verbatim>\<open>CMP_GT\<close> of
  \<^verbatim>\<open>CMP_LE\<close>, \<^verbatim>\<open>CMP_GT\<close> is \<^verbatim>\<open>CMP_LT\<close> with the operands exchanged, and \<^verbatim>\<open>STREQ\<close> and \<^verbatim>\<open>CMP_EQ\<close> agree
  on string references.
\<close>

theorem comparisons_agree:
  assumes "vm_ok vm" and "reg_ok rd" and "reg_ok a" and "reg_ok b"
  shows "(flag (regs (op_cmp_ne rd a b vm) ! rd) \<longleftrightarrow> \<not> flag (regs (op_cmp_eq rd a b vm) ! rd)) \<and>
    (flag (regs (op_cmp_ge rd a b vm) ! rd) \<longleftrightarrow> \<not> flag (regs (op_cmp_lt rd a b vm) ! rd)) \<and>
    (flag (regs (op_cmp_gt rd a b vm) ! rd) \<longleftrightarrow> \<not> flag (regs (op_cmp_le rd a b vm) ! rd)) \<and>
    op_cmp_gt rd a b vm = op_cmp_lt rd b a vm \<and>
    (is_str_ref (regs vm ! a) \<and> is_str_ref (regs vm ! b) \<longrightarrow>
       op_streq rd a b vm = op_cmp_eq rd a b vm)"
  using assms
  by (auto simp: alu_defs alu3_def set_reg_def flag_def of_bool_i64_def same_bytes_def vm_ok_def
      split: option.split)

theorem comparisons_agree_witness:
  "flag (regs (op_cmp_ne 0 1 2 (vm_new [] [] [] [])) ! 0) \<longleftrightarrow>
   \<not> flag (regs (op_cmp_eq 0 1 2 (vm_new [] [] [] [])) ! 0)"
  using comparisons_agree [of "vm_new [] [] [] []" 0 1 2] by simp

section \<open>Tagged results\<close>

text \<open>
  The result tags. \<^verbatim>\<open>@ok\<close> and \<^verbatim>\<open>@err\<close> make values that \<^verbatim>\<open>@is_ok\<close> and \<^verbatim>\<open>@is_err\<close> tell apart,
  \<^verbatim>\<open>@unwrap\<close> returns an \<^verbatim>\<open>@ok\<close> payload unchanged when it does not use the tag bit and fails on
  every \<^verbatim>\<open>@err\<close> value.
\<close>

lemma err_tag_and: "(v AND NOT ERR_TAG) AND ERR_TAG = 0" "(ERR_TAG OR w) AND ERR_TAG = ERR_TAG"
  for v w :: i64
  by (rule bit_word_eqI; auto simp: bit_and_iff bit_or_iff bit_not_iff)+

theorem result_tags:
  "native_is_ok (native_tag_ok v) = 1 \<and> native_is_err (native_tag_ok v) = 0 \<and>
   native_is_ok (native_tag_err v) = 0 \<and> native_is_err (native_tag_err v) = 1 \<and>
   native_unwrap (native_tag_ok v) s = Ok (v AND NOT ERR_TAG, s) \<and>
   (\<exists>m. native_unwrap (native_tag_err v) s = Err (simple ''ERR_PX64_UNWRAP_FAILED'' m))"
  using err_tag_and(1) [of v] err_tag_and(2) [of "v AND NOT ERR_TAG"]
  by (simp add: native_is_ok_def native_is_err_def native_tag_ok_def native_tag_err_def
      native_unwrap_def of_bool_i64_def ERR_TAG_def) blast

section \<open>Video memory\<close>

text \<open>
  Video memory reads what was written: after an 8-byte write inside a slot, a read at
  the same offset returns the value, and a read of 8 bytes that do not overlap it returns
  what it returned before; a write that does not fit the slot changes nothing.
\<close>

theorem vram_read_after_write:
  assumes "length slot = 4096" and "unat off \<le> 4088"
  shows "\<exists>slot'. vram_store slot off v = Some slot' \<and> length slot' = 4096 \<and>
    vram_load slot' off = Some v \<and>
    (\<forall>off'. unat off' \<le> 4088 \<longrightarrow> unat off' + 8 \<le> unat off \<or> unat off + 8 \<le> unat off' \<longrightarrow>
       vram_load slot' off' = vram_load slot off')"
  using assms
  by (auto simp: vram_store_def vram_load_def Let_def sub_slice_copy_at_other from_le_to_le)

theorem vram_read_after_write_witness:
  "\<exists>slot'. vram_store (array_of 0 4096) 8 0x123456789ABCDEF0 = Some slot' \<and>
     vram_load slot' 8 = Some 0x123456789ABCDEF0"
  using vram_read_after_write [of "array_of 0 4096" 8 "0x123456789ABCDEF0"] by auto

section \<open>Fixed point\<close>

text \<open>
  \<^verbatim>\<open>@to_i64\<close> undoes \<^verbatim>\<open>@to_fix\<close>: a value that fits the \<open>64 - q\<close> integer bits of the format
  is returned unchanged after conversion to fixed point and back.
\<close>

lemma fix_q_less: "fix_q q < 64"
proof -
  have "fix_q q = unat (take_bit 6 q)"
    by (simp add: fix_q_def take_bit_eq_mask mask_numeral)
  also have "\<dots> < 64" by (simp add: unsigned_take_bit_eq take_bit_eq_mod unat_mod_distrib)
  finally show ?thesis .
qed

theorem fix_round_trip:
  assumes "- (2 ^ (63 - fix_q q)) \<le> sint v" and "sint v < 2 ^ (63 - fix_q q)"
  shows "wrapping_shr (wrapping_shl v (fix_q q)) (fix_q q) = v"
proof -
  let ?q = "fix_q q"
  have q: "?q < 64" by (rule fix_q_less)
  then have e: "(2 :: int) ^ 63 = 2 ^ (63 - ?q) * 2 ^ ?q" by (simp flip: power_add)
  have "- (2 ^ 63) \<le> sint v * 2 ^ ?q" and "sint v * 2 ^ ?q < 2 ^ 63"
    using mult_right_mono [OF assms(1), of "2 ^ ?q"] mult_strict_right_mono [OF assms(2), of "2 ^ ?q"]
    unfolding e by simp_all
  then have "signed_take_bit 63 (sint v * 2 ^ ?q) = sint v * 2 ^ ?q"
    by (intro signed_take_bit_int_eq_self) simp_all
  then have "sint (push_bit ?q v) = sint v * 2 ^ ?q"
    unfolding signed_push_bit_eq by (simp add: push_bit_eq_mult)
  then have "sint (signed_drop_bit ?q (push_bit ?q v)) = sint v"
    by (simp add: sint_signed_drop_bit_eq drop_bit_eq_div)
  with q show ?thesis
    by (simp add: wrapping_shr_def wrapping_shl_def sint_eqD)
qed

theorem fix_round_trip_witness:
  "wrapping_shr (wrapping_shl (-5) (fix_q 16)) (fix_q 16) = -5"
  by (rule fix_round_trip) (simp_all add: fix_q_def)

end
