(* ===== verification/Container.thy ===== *)
theory Container
  imports VmReplay
begin

text \<open>
  The px64 executable container: the writer at the end of
  \<^verbatim>\<open>compile_pulse_to_binary_with_tokens\<close> and the test-case runner
  (\<^verbatim>\<open>pulselang-core/src/lib.rs\<close>), and the loader \<^verbatim>\<open>run_binary_with_output\<close>
  (\<^verbatim>\<open>pulselang-core/src/vm.rs\<close>).
\<close>

section \<open>Writer\<close>

definition buffer_overflow :: CompileError where
  "buffer_overflow =
     simple ''ERR_BINARY_BUFFER_OVERFLOW'' ''Output buffer too small for compiled px64 binary payload''"

text \<open>The 16 header bytes; the three lengths are stored as 16-bit numbers.\<close>

definition header_bytes :: "nat \<Rightarrow> nat \<Rightarrow> nat \<Rightarrow> u8 list" where
  "header_bytes code_len str_pool_len const_pool_count =
     PX64_BIN_MAGIC @ to_be 2 PX64_BIN_VERSION @ to_be 2 (of_nat code_len :: u16) @
     to_be 2 (of_nat str_pool_len :: u16) @ to_be 2 (of_nat const_pool_count :: u16) @
     to_be 2 (of_nat PX64_NUM_REGISTERS :: u16) @ [0, 0]"

definition const_bytes :: "i64 list \<Rightarrow> u8 list" where
  "const_bytes cs = concat (map (to_be 8) cs)"

definition write_binary ::
  "u8 list \<Rightarrow> u8 list \<Rightarrow> i64 list \<Rightarrow> u8 list \<Rightarrow> (CompileError, nat \<times> u8 list) outcome" where
  "write_binary prog pool cpool out_buf =
     (let total_size = PX64_HEADER_SIZE + length prog + length pool + length cpool * 8
      in if length out_buf < total_size then Err buffer_overflow
         else Ok (total_size,
           copy_at (PX64_HEADER_SIZE + length prog + length pool) (const_bytes cpool)
             (copy_at (PX64_HEADER_SIZE + length prog) pool
               (copy_at PX64_HEADER_SIZE prog
                 (copy_at 0 (header_bytes (length prog) (length pool) (length cpool)) out_buf)))))"

section \<open>Loader\<close>

definition be16_at :: "nat \<Rightarrow> u8 list \<Rightarrow> nat" where
  "be16_at i b = unat (from_be (sub_slice i 2 b) :: u16)"

definition has_magic :: "u8 list \<Rightarrow> bool" where
  "has_magic bin \<longleftrightarrow> PX64_HEADER_SIZE \<le> length bin \<and> sub_slice 0 4 bin = PX64_BIN_MAGIC"

text \<open>The sections of a binary, \<^term>\<open>None\<close> when the binary is too short for its lengths.\<close>

definition sections :: "u8 list \<Rightarrow> (u8 list \<times> u8 list \<times> i64 list) option" where
  "sections bin =
     (let code_len = be16_at 6 bin;
          str_pool_len = be16_at 8 bin;
          const_count = be16_at 10 bin
      in if length bin < PX64_HEADER_SIZE + code_len + str_pool_len + const_count * 8 then None
         else
           let raw = sub_slice (PX64_HEADER_SIZE + code_len + str_pool_len) (const_count * 8) bin
           in Some (sub_slice PX64_HEADER_SIZE code_len bin,
                    sub_slice (PX64_HEADER_SIZE + code_len) str_pool_len bin,
                    map (\<lambda>i. from_be (sub_slice (i * 8) 8 raw)) [0..<min const_count 64]))"

definition load_binary :: "u8 list \<Rightarrow> (CompileError, u8 list \<times> u8 list \<times> i64 list) outcome" where
  "load_binary bin =
     (if has_magic bin then
        if (from_be (sub_slice 4 2 bin) :: u16) \<noteq> PX64_BIN_VERSION then
          Err (simple ''ERR_BINARY_VERSION_MISMATCH'' ''Unsupported px64 binary version'')
        else (case sections bin of
            None \<Rightarrow> Err (simple ''ERR_BINARY_TRUNCATED'' ''Truncated px64 binary payload'')
          | Some s \<Rightarrow> Ok s)
      else Err (simple ''ERR_BINARY_INVALID_MAGIC'' ''Invalid executable binary magic (expected PX64)''))"

definition run_binary_with_output ::
  "'w host \<Rightarrow> u8 list \<Rightarrow> str list \<Rightarrow> 'w \<Rightarrow> (CompileError, 'w vm_run run_result option) outcome" where
  "run_binary_with_output h bin args w =
     (case load_binary bin of
        Ok (prog, pool, cpool) \<Rightarrow> Ok (run_with_output h (vm_start (vm_new prog pool cpool args) w))
      | Err e \<Rightarrow> Err e
      | Panic \<Rightarrow> Panic)"

section \<open>Unit tests\<close>

record TestCaseCompiled =
  tc_name :: str
  tc_line :: nat
  tc_budget_ns :: "u64 option"
  tc_bytecode :: "u8 list"

record TestExecutionResult =
  passed :: bool
  tr_error :: "u8 list option"
  tr_steps :: nat
  elapsed_ns :: u64
  tr_budget_ns :: "u64 option"

definition rejected :: "TestCaseCompiled \<Rightarrow> string \<Rightarrow> TestExecutionResult" where
  "rejected tc msg =
     \<lparr>passed = False, tr_error = Some (bytes msg), tr_steps = 0, elapsed_ns = 0,
      tr_budget_ns = tc_budget_ns tc\<rparr>"

text \<open>\<^verbatim>\<open>(vm.steps as u64).saturating_mul(15)\<close>.\<close>

definition step_time :: "nat \<Rightarrow> u64" where
  "step_time n = of_nat (min (n mod 2 ^ 64 * 15) (2 ^ 64 - 1))"

definition budget_text :: "u64 \<Rightarrow> u64 \<Rightarrow> u8 list" where
  "budget_text elapsed budget =
     bytes ''Test exceeded budget: elapsed '' @ dec_nat (unat elapsed) @ bytes ''ns > budget '' @
     dec_nat (unat budget) @ bytes ''ns''"

definition judge :: "TestCaseCompiled \<Rightarrow> CompileError option \<Rightarrow> nat \<Rightarrow> u64 \<Rightarrow> TestExecutionResult" where
  "judge tc exec_err n elapsed =
     (let res = \<lparr>passed = True, tr_error = None, tr_steps = n, elapsed_ns = elapsed,
                 tr_budget_ns = tc_budget_ns tc\<rparr>
      in case exec_err of
           None \<Rightarrow>
             (case tc_budget_ns tc of
                Some budget \<Rightarrow>
                  if elapsed > budget
                  then res\<lparr>passed := False, tr_error := Some (budget_text elapsed budget)\<rparr>
                  else res
              | None \<Rightarrow> res)
         | Some e \<Rightarrow>
             res\<lparr>passed := False,
                 tr_error := Some (bytes (code e) @ bytes '': '' @ bytes (message e))\<rparr>)"

text \<open>
  \<open>wall\<close> is the time \<^verbatim>\<open>std::time::Instant\<close> measures, used only with \<^verbatim>\<open>std\<close> and without replay.
  \<^term>\<open>None\<close> is a test that does not return and \<^const>\<open>Panic\<close> one that panics.
\<close>

definition run_test_case_with_replay ::
  "'w host \<Rightarrow> u64 \<Rightarrow> TestCaseCompiled \<Rightarrow> DeterministicReplayConfig option \<Rightarrow> 'w \<Rightarrow>
   (unit, TestExecutionResult) outcome option" where
  "run_test_case_with_replay h wall tc replay w =
     (let bin = tc_bytecode tc
      in if \<not> has_magic bin then Some (Ok (rejected tc ''Invalid px64 binary payload''))
         else (case sections bin of
             None \<Rightarrow> Some (Ok (rejected tc ''Truncated px64 binary payload''))
           | Some (prog, pool, cpool) \<Rightarrow>
               let vm = vm_new prog pool cpool [];
                   vm = (if replay = None then vm else set_replay_config replay vm);
                   elapsed = (\<lambda>n. if cfg_std h \<and> replay = None then wall else step_time n)
               in case run_with_output h (vm_start vm w) of
                    None \<Rightarrow> None
                  | Some (Finished s) \<Rightarrow>
                      Some (Ok (judge tc None (steps (mach s)) (elapsed (steps (mach s)))))
                  | Some (Failed e s) \<Rightarrow>
                      Some (Ok (judge tc (Some e) (steps (mach s)) (elapsed (steps (mach s)))))
                  | Some Panicked \<Rightarrow> Some Panic))"

definition run_test_case ::
  "'w host \<Rightarrow> u64 \<Rightarrow> TestCaseCompiled \<Rightarrow> 'w \<Rightarrow> (unit, TestExecutionResult) outcome option" where
  "run_test_case h wall tc w = run_test_case_with_replay h wall tc None w"

section \<open>What the writer writes\<close>

lemma copy_at_append: "copy_at (length a) ys (a @ r) = a @ ys @ drop (length ys) r"
  by (simp add: copy_at_def)

lemma copy_at_append2: "n = length a + length b \<Longrightarrow> copy_at n ys (a @ b @ r) = a @ b @ ys @ drop (length ys) r"
  using copy_at_append [of "a @ b" ys r] by simp

lemma copy_at_append3:
  "n = length a + length b + length c \<Longrightarrow> copy_at n ys (a @ b @ c @ r) = a @ b @ c @ ys @ drop (length ys) r"
  using copy_at_append [of "a @ b @ c" ys r] by (simp add: add.assoc)

lemma length_header [simp]: "length (header_bytes a b c) = 16"
  by (simp add: header_bytes_def PX64_BIN_MAGIC_def bytes_def)

lemma length_const_bytes [simp]: "length (const_bytes cs) = length cs * 8"
  by (induction cs) (simp_all add: const_bytes_def)

lemma const_bytes_Cons: "const_bytes (c # cs) = to_be 8 c @ const_bytes cs"
  by (simp add: const_bytes_def)

lemma write_binary_layout:
  assumes "16 + length prog + length pool + length cpool * 8 \<le> length buf"
  shows "write_binary prog pool cpool buf =
    Ok (16 + length prog + length pool + length cpool * 8,
        header_bytes (length prog) (length pool) (length cpool) @ prog @ pool @ const_bytes cpool @
        drop (16 + length prog + length pool + length cpool * 8) buf)"
proof -
  let ?h = "header_bytes (length prog) (length pool) (length cpool)"
  have "copy_at 0 ?h buf = ?h @ drop 16 buf" by (simp add: copy_at_def)
  moreover have "copy_at 16 prog (?h @ drop 16 buf) = ?h @ prog @ drop (16 + length prog) buf"
    using copy_at_append [of ?h prog "drop 16 buf"] by (simp add: add.commute)
  moreover have "copy_at (16 + length prog) pool (?h @ prog @ drop (16 + length prog) buf) =
      ?h @ prog @ pool @ drop (16 + length prog + length pool) buf"
    by (subst copy_at_append2) (simp_all add: ac_simps)
  moreover have "copy_at (16 + length prog + length pool) (const_bytes cpool)
      (?h @ prog @ pool @ drop (16 + length prog + length pool) buf) =
      ?h @ prog @ pool @ const_bytes cpool @ drop (16 + length prog + length pool + length cpool * 8) buf"
    by (subst copy_at_append3) (simp_all add: ac_simps)
  ultimately show ?thesis
    using assms unfolding write_binary_def Let_def by (simp only: if_False linorder_not_less [symmetric] not_not)
qed

lemma sub_slice_append: "length a = i \<Longrightarrow> n \<le> length b \<Longrightarrow> sub_slice i n (a @ b) = take n b"
  by (simp add: sub_slice_def)

lemma header_fields:
  "sub_slice 0 4 (header_bytes a b c @ r) = PX64_BIN_MAGIC"
  "sub_slice 4 2 (header_bytes a b c @ r) = to_be 2 PX64_BIN_VERSION"
  "sub_slice 6 2 (header_bytes a b c @ r) = to_be 2 (of_nat a :: u16)"
  "sub_slice 8 2 (header_bytes a b c @ r) = to_be 2 (of_nat b :: u16)"
  "sub_slice 10 2 (header_bytes a b c @ r) = to_be 2 (of_nat c :: u16)"
  by (simp_all add: header_bytes_def PX64_BIN_MAGIC_def bytes_def sub_slice_def)

lemma const_slice:
  "i < length cs \<Longrightarrow> sub_slice (i * 8) 8 (const_bytes cs @ r) = to_be 8 (cs ! i)"
proof (induction cs arbitrary: i)
  case (Cons c cs)
  then show ?case
    by (cases i) (simp_all add: const_bytes_Cons sub_slice_def)
qed simp

lemma load_written:
  assumes "length prog < 2 ^ 16" "length pool < 2 ^ 16" "length cpool < 2 ^ 16"
  shows "load_binary (header_bytes (length prog) (length pool) (length cpool) @ prog @ pool @
      const_bytes cpool @ rest) = Ok (prog, pool, take 64 cpool)"
proof -
  let ?bin = "header_bytes (length prog) (length pool) (length cpool) @ prog @ pool @ const_bytes cpool @ rest"
  have m: "has_magic ?bin" by (simp add: has_magic_def header_fields)
  have v: "(from_be (sub_slice 4 2 ?bin) :: u16) = PX64_BIN_VERSION"
    by (simp add: header_fields byte_simps)
  have l: "be16_at 6 ?bin = length prog" "be16_at 8 ?bin = length pool" "be16_at 10 ?bin = length cpool"
    using assms by (simp_all add: be16_at_def header_fields byte_simps unat_of_nat)
  have raw: "sub_slice (16 + length prog + length pool) (length cpool * 8) ?bin = const_bytes cpool"
    by (simp add: sub_slice_def)
  have "map (\<lambda>i. from_be (sub_slice (i * 8) 8 (const_bytes cpool))) [0..<min (length cpool) 64] = take 64 cpool"
    using const_slice [of _ "cpool" "[]"]
    by (intro nth_equalityI) (auto simp: byte_simps)
  then have "sections ?bin = Some (prog, pool, take 64 cpool)"
    unfolding sections_def Let_def l raw by (simp add: sub_slice_def)
  with m v show ?thesis by (simp add: load_binary_def)
qed

lemma to_be_from_be16:
  assumes "length xs = 2"
  shows "to_be 2 (from_be xs :: u16) = xs"
proof -
  obtain a b where xs: "xs = [a, b]"
    using assms by (auto simp: length_Suc_conv numeral_2_eq_2)
  have "ucast (ucast b OR push_bit 8 (ucast a) :: u16) = b"
    "ucast (drop_bit 8 (ucast b OR push_bit 8 (ucast a) :: u16)) = a"
    by (rule bit_word_eqI; auto simp: bit_simps dest: bit_imp_le_length)+
  then show ?thesis
    by (simp add: xs to_be_def to_le_def from_be_def numeral_2_eq_2)
qed

lemma version_bytes: "to_be 2 PX64_BIN_VERSION = [0, 3]"
  by (simp add: to_be_def to_le_def PX64_BIN_VERSION_def upt_rec)

section \<open>Properties\<close>

text \<open>
  C13: what the writer writes, the loader reads back. When the sections fit their 16-bit
  lengths and the output buffer, the writer succeeds with the exact size, changes nothing
  past it, and loading the written bytes returns the code and the strings exactly and the
  first 64 constants (all of them for a compiler within its pool limit), with or without
  the rest of the buffer.
\<close>

theorem binary_round_trip:
  assumes "length prog < 2 ^ 16" and "length pool < 2 ^ 16" and "length cpool < 2 ^ 16"
    and "16 + length prog + length pool + length cpool * 8 \<le> length buf"
  shows "\<exists>n out. write_binary prog pool cpool buf = Ok (n, out) \<and>
    n = 16 + length prog + length pool + length cpool * 8 \<and> length out = length buf \<and>
    drop n out = drop n buf \<and>
    load_binary (take n out) = Ok (prog, pool, take 64 cpool) \<and>
    load_binary out = Ok (prog, pool, take 64 cpool)"
proof -
  let ?n = "16 + length prog + length pool + length cpool * 8"
  let ?p = "header_bytes (length prog) (length pool) (length cpool) @ prog @ pool @ const_bytes cpool"
  have w: "write_binary prog pool cpool buf = Ok (?n, ?p @ drop ?n buf)"
    using write_binary_layout [OF assms(4)] by simp
  have l: "length ?p = ?n" by simp
  have "load_binary ?p = Ok (prog, pool, take 64 cpool)"
    and "load_binary (?p @ drop ?n buf) = Ok (prog, pool, take 64 cpool)"
    using load_written [OF assms(1-3), of "[]"] load_written [OF assms(1-3), of "drop ?n buf"] by simp_all
  moreover have "take ?n (?p @ drop ?n buf) = ?p" and "drop ?n (?p @ drop ?n buf) = drop ?n buf"
    and "length (?p @ drop ?n buf) = length buf"
    using l assms(4) by (simp_all only: append_eq_conv_conj [symmetric] length_append length_drop take_append drop_append) simp_all
  ultimately show ?thesis using w by metis
qed

theorem binary_round_trip_witness:
  "\<exists>n out. write_binary [22, 0, 0, 0] [104, 105] [-7] (array_of 0 64) = Ok (n, out) \<and>
     load_binary (take n out) = Ok ([22, 0, 0, 0], [104, 105], [-7])"
  using binary_round_trip [of "[22, 0, 0, 0]" "[104, 105]" "[-7]" "array_of 0 64"] by auto



text \<open>The verdict on a test depends on what its run shows.\<close>

definition verdict ::
  "(nat \<Rightarrow> u64) \<Rightarrow> TestCaseCompiled \<Rightarrow> (PX64VM \<times> u8 list) run_result \<Rightarrow> (unit, TestExecutionResult) outcome" where
  "verdict elapsed tc r =
     (case r of
        Finished v \<Rightarrow> Ok (judge tc None (steps (fst v)) (elapsed (steps (fst v))))
      | Failed e v \<Rightarrow> Ok (judge tc (Some e) (steps (fst v)) (elapsed (steps (fst v))))
      | Panicked \<Rightarrow> Panic)"

lemma run_test_case_verdict:
  assumes "has_magic (tc_bytecode tc)" and "sections (tc_bytecode tc) = Some (prog, pool, cpool)"
  shows "run_test_case_with_replay h wall tc (Some cfg) w =
    map_option (verdict step_time tc)
      (map_option vis_result
        (run_with_output h (vm_start (set_replay_config (Some cfg) (vm_new prog pool cpool [])) w)))"
  using assms
  by (auto simp: run_test_case_with_replay_def verdict_def vis_result_def vis_def Let_def
      split: option.split run_result.split)

lemma vm_ok_replay: "vm_ok (set_replay_config c vm) = vm_ok vm"
  by (simp add: set_replay_config_def vm_ok_def)

text \<open>
  Unit tests are reproducible. With an enabled replay configuration the result of a test
  (passed, error text, steps, elapsed time, budget) is the same on any two hosts and at any
  two wall-clock times, when its code calls no console or file native or the build has no
  \<^verbatim>\<open>std\<close>.
\<close>

theorem test_replay_reproducible:
  assumes "enabled cfg"
    and "\<And>prog pool cpool. sections (tc_bytecode tc) = Some (prog, pool, cpool) \<Longrightarrow>
      sealed h prog \<and> sealed g prog"
  shows "run_test_case_with_replay h wall1 tc (Some cfg) w1 =
    run_test_case_with_replay g wall2 tc (Some cfg) w2"
proof (cases "has_magic (tc_bytecode tc) \<and> sections (tc_bytecode tc) \<noteq> None")
  case False
  then show ?thesis
    by (cases "sections (tc_bytecode tc)") (simp_all add: run_test_case_with_replay_def Let_def)
next
  case True
  then obtain prog pool cpool where s: "sections (tc_bytecode tc) = Some (prog, pool, cpool)"
    by (metis not_None_eq prod_cases3)
  let ?vm = "set_replay_config (Some cfg) (vm_new prog pool cpool [])"
  have "replay_pair h g (vm_start ?vm w1) (vm_start ?vm w2)"
    using assms(1) assms(2) [OF s]
    by (simp add: replay_pair_def vis_def vm_start_def replaying_def vm_ok_replay)
      (simp add: set_replay_config_def vm_new_def)
  from replay_pair_agree [OF this] True s show ?thesis by (simp add: run_test_case_verdict)
qed

text \<open>The two version bytes replaced.\<close>

definition with_version :: "u8 list \<Rightarrow> u8 list \<Rightarrow> u8 list" where
  "with_version v bin = copy_at 4 v bin"

text \<open>A test of one \<^verbatim>\<open>ASSERT\<close> on a zero register, and one of a foreign version.\<close>

definition failing_test :: TestCaseCompiled where
  "failing_test = \<lparr>tc_name = bytes ''t'', tc_line = 1, tc_budget_ns = None,
     tc_bytecode = header_bytes 4 0 0 @ [34, 0, 0, 0]\<rparr>"

theorem test_replay_reproducible_witness:
  "run_test_case_with_replay (counting_host 1) 11 failing_test (Some default_replay) 3 =
   run_test_case_with_replay (counting_host 2) 22 failing_test (Some default_replay) 4"
proof (rule test_replay_reproducible)
  show "enabled default_replay" by (simp add: default_replay_def with_seed_def)
  fix prog pool cpool assume "sections (tc_bytecode failing_test) = Some (prog, pool, cpool)"
  moreover have "be16_at 6 (tc_bytecode failing_test) = 4"
    by (simp add: failing_test_def be16_at_def header_fields byte_simps)
  ultimately have "prog = [34, 0, 0, 0]"
    by (auto simp: sections_def Let_def failing_test_def sub_slice_def split: if_splits)
  then show "sealed (counting_host 1) prog \<and> sealed (counting_host 2) prog"
    by (simp add: sealed_def no_host_calls_def)
qed

text \<open>
  The test runner does not check the version: a binary of a foreign version that the
  loader rejects is run, with the same result as one of the current version.
\<close>

theorem test_runner_ignores_version:
  assumes "has_magic (tc_bytecode tc)" and "length v = 2"
  shows "run_test_case_with_replay h wall (tc\<lparr>tc_bytecode := with_version v (tc_bytecode tc)\<rparr>) replay w =
    run_test_case_with_replay h wall tc replay w"
proof -
  let ?b = "tc_bytecode tc" and ?b' = "with_version v (tc_bytecode tc)"
  have l: "16 \<le> length ?b" using assms(1) by (simp add: has_magic_def)
  have same: "sub_slice i n ?b' = sub_slice i n ?b" if "i + n \<le> 4 \<or> 6 \<le> i" for i n
    unfolding with_version_def using that assms(2) l by (intro sub_slice_copy_at_other) auto
  have len: "length ?b' = length ?b" using assms(2) l by (simp add: with_version_def)
  have "has_magic ?b'" using assms(1) same [of 0 4] len by (simp add: has_magic_def)
  moreover have "sections ?b' = sections ?b"
    using same len by (simp add: sections_def be16_at_def Let_def)
  ultimately show ?thesis
    using assms(1)
    by (simp add: run_test_case_with_replay_def rejected_def judge_def Let_def
        split: option.split prod.split run_result.split)
qed

theorem test_runner_ignores_version_witness:
  "run_test_case_with_replay idle_host 0 (failing_test\<lparr>tc_bytecode := with_version [9, 9] (tc_bytecode failing_test)\<rparr>)
     None () = run_test_case_with_replay idle_host 0 failing_test None ()"
  by (rule test_runner_ignores_version) (simp_all add: failing_test_def has_magic_def header_fields)

end
