(* ===== verification/Lexer.thy ===== *)
theory Lexer
  imports Token
begin

text \<open>
  The PulseLang tokenizer (\<^verbatim>\<open>pulselang-core/src/lexer.rs\<close>): a cursor over the source bytes
  that fills a caller-supplied token buffer. The multiplication of a time literal by its unit
  is unchecked: it wraps in a release build and panics in a build with overflow checks,
  which the flag \<open>checked\<close> selects.
\<close>

section \<open>Cursor\<close>

text \<open>The cursor: the position and the line counter of \<^verbatim>\<open>Lexer\<close>.\<close>

record cursor =
  pos :: nat
  line :: nat

text \<open>\<^verbatim>\<open>while pos < src.len() && p(src[pos]) { pos += 1 }\<close>.\<close>

definition span_end :: "(u8 \<Rightarrow> bool) \<Rightarrow> u8 list \<Rightarrow> nat \<Rightarrow> nat" where
  "span_end p src i = i + length (takeWhile p (drop i src))"

definition is_digit :: "u8 \<Rightarrow> bool" where
  "is_digit b \<longleftrightarrow> 48 \<le> b \<and> b \<le> 57"

definition is_hexdigit :: "u8 \<Rightarrow> bool" where
  "is_hexdigit b \<longleftrightarrow> is_digit b \<or> 97 \<le> b \<and> b \<le> 102 \<or> 65 \<le> b \<and> b \<le> 70"

definition is_alpha :: "u8 \<Rightarrow> bool" where
  "is_alpha b \<longleftrightarrow> 97 \<le> b \<and> b \<le> 122 \<or> 65 \<le> b \<and> b \<le> 90"

definition is_word :: "u8 \<Rightarrow> bool" where
  "is_word b \<longleftrightarrow> is_alpha b \<or> is_digit b \<or> b = 95"

definition is_path_char :: "u8 \<Rightarrow> bool" where
  "is_path_char b \<longleftrightarrow> is_word b \<or> b = 46"

definition peek_next :: "u8 list \<Rightarrow> nat \<Rightarrow> u8 option" where
  "peek_next src i = idx src (i + 1)"

definition match_suffix :: "u8 list \<Rightarrow> nat \<Rightarrow> u8 list \<Rightarrow> bool" where
  "match_suffix src i suffix \<longleftrightarrow>
     i + length suffix \<le> length src \<and> sub_slice i (length suffix) src = suffix"

section \<open>White space and comments\<close>

text \<open>The body of a block comment, after its opening.\<close>

function block_comment :: "u8 list \<Rightarrow> cursor \<Rightarrow> cursor" where
  "block_comment src c =
     (if pos c + 1 < length src then
        let c1 = (if src ! pos c = 10 then c\<lparr>line := line c + 1\<rparr> else c)
        in if src ! pos c = 42 \<and> src ! (pos c + 1) = 47 then c1\<lparr>pos := pos c + 2\<rparr>
           else block_comment src (c1\<lparr>pos := pos c + 1\<rparr>)
      else c)"
  by pat_completeness auto
termination
  by (relation "measure (\<lambda>(src, c). length src - pos c)") auto

declare block_comment.simps [simp del]

lemma block_comment_pos: "pos c \<le> pos (block_comment src c)"
  by (induction src c rule: block_comment.induct)
    (subst block_comment.simps, fastforce simp: Let_def)

lemma block_comment_bound: "pos c \<le> length src \<Longrightarrow> pos (block_comment src c) \<le> length src"
  by (induction src c rule: block_comment.induct)
    (subst block_comment.simps, auto simp: Let_def)

text \<open>One round of \<^verbatim>\<open>skip_whitespace_and_comments\<close>; \<^term>\<open>None\<close> is the \<^verbatim>\<open>break\<close>.\<close>

definition skip_one :: "u8 list \<Rightarrow> cursor \<Rightarrow> cursor option" where
  "skip_one src c =
     (let b = src ! pos c
      in if b = 32 \<or> b = 9 \<or> b = 13 then Some (c\<lparr>pos := pos c + 1\<rparr>)
         else if b = 10 then Some (c\<lparr>pos := pos c + 1, line := line c + 1\<rparr>)
         else if b = 47 \<and> peek_next src (pos c) = Some 47 then
           Some (c\<lparr>pos := span_end (\<lambda>x. x \<noteq> 10) src (pos c)\<rparr>)
         else if b = 47 \<and> peek_next src (pos c) = Some 42 then
           Some (block_comment src (c\<lparr>pos := pos c + 2\<rparr>))
         else None)"

lemma span_end_ge: "i \<le> span_end p src i"
  by (simp add: span_end_def)

lemma span_end_bound: "i \<le> length src \<Longrightarrow> span_end p src i \<le> length src"
  using length_takeWhile_le [of p "drop i src"] by (simp add: span_end_def)

lemma span_end_gt: "i < length src \<Longrightarrow> p (src ! i) \<Longrightarrow> i < span_end p src i"
  by (simp add: span_end_def Cons_nth_drop_Suc [symmetric])

lemma skip_one_pos:
  assumes "skip_one src c = Some c'" and "pos c < length src"
  shows "pos c < pos c' \<and> pos c' \<le> length src"
proof -
  have "peek_next src (pos c) = Some x \<Longrightarrow> pos c + 2 \<le> length src" for x
    by (simp add: peek_next_def idx_eq_Some)
  then show ?thesis
    using assms block_comment_pos [of "c\<lparr>pos := pos c + 2\<rparr>" src] span_end_gt [of "pos c" src]
      span_end_bound [of "pos c" src] block_comment_bound [of "c\<lparr>pos := pos c + 2\<rparr>" src]
    by (auto simp: skip_one_def Let_def split: if_splits)
qed

function skip_whitespace_and_comments :: "u8 list \<Rightarrow> cursor \<Rightarrow> cursor" where
  "skip_whitespace_and_comments src c =
     (if pos c < length src then
        (case skip_one src c of
           Some c' \<Rightarrow> skip_whitespace_and_comments src c'
         | None \<Rightarrow> c)
      else c)"
  by pat_completeness auto
termination
  by (relation "measure (\<lambda>(src, c). length src - pos c)") (auto dest!: skip_one_pos)

declare skip_whitespace_and_comments.simps [simp del]

section \<open>Lexemes\<close>

text \<open>The symbols: the kind and the length, by the byte at the cursor and the next one.\<close>

definition lex_symbol :: "u8 \<Rightarrow> u8 option \<Rightarrow> (symbol \<times> nat) option" where
  "lex_symbol b nxt =
     (if b = 40 then Some (SymLParen, 1)
      else if b = 41 then Some (SymRParen, 1)
      else if b = 123 then Some (SymLBrace, 1)
      else if b = 125 then Some (SymRBrace, 1)
      else if b = 59 then Some (SymSemi, 1)
      else if b = 44 then Some (SymComma, 1)
      else if b = 46 then if nxt = Some 46 then Some (SymDotDot, 2) else Some (SymDot, 1)
      else if b = 63 then Some (SymQuestion, 1)
      else if b = 58 then
        if nxt = Some 61 then Some (SymColonEq, 2)
        else if nxt = Some 58 then Some (SymColonColon, 2) else Some (SymColon, 1)
      else if b = 43 then if nxt = Some 61 then Some (SymPlusEq, 2) else Some (SymPlus, 1)
      else if b = 45 then
        if nxt = Some 61 then Some (SymMinusEq, 2)
        else if nxt = Some 62 then Some (SymArrow, 2) else Some (SymMinus, 1)
      else if b = 42 then Some (SymStar, 1)
      else if b = 47 then Some (SymSlash, 1)
      else if b = 37 then Some (SymPercent, 1)
      else if b = 91 then Some (SymLBracket, 1)
      else if b = 93 then Some (SymRBracket, 1)
      else if b = 94 then Some (SymCaret, 1)
      else if b = 124 then
        if nxt = Some 62 then Some (SymPipe, 2)
        else if nxt = Some 124 then Some (SymOrOp, 2) else Some (SymPipeSingle, 1)
      else if b = 61 then
        if nxt = Some 61 then Some (SymEqEq, 2)
        else if nxt = Some 62 then Some (SymFatArrow, 2) else Some (SymEq, 1)
      else if b = 33 then if nxt = Some 61 then Some (SymNotEq, 2) else Some (SymExclamation, 1)
      else if b = 60 then
        if nxt = Some 60 then Some (SymShl, 2)
        else if nxt = Some 61 then Some (SymLtEq, 2) else Some (SymLt, 1)
      else if b = 62 then
        if nxt = Some 62 then Some (SymShr, 2)
        else if nxt = Some 61 then Some (SymGtEq, 2) else Some (SymGt, 1)
      else if b = 38 then if nxt = Some 38 then Some (SymAnd, 2) else Some (SymAmp, 1)
      else None)"

definition hex_digit :: "u8 \<Rightarrow> i64" where
  "hex_digit b =
     (if is_digit b then ucast (b - 48)
      else if 97 \<le> b \<and> b \<le> 102 then ucast (b - 97 + 10)
      else if 65 \<le> b \<and> b \<le> 70 then ucast (b - 65 + 10) else 0)"

definition hex_value :: "u8 list \<Rightarrow> i64" where
  "hex_value ds = fold (\<lambda>b num. push_bit 4 num OR hex_digit b) ds 0"

definition dec_value :: "u8 list \<Rightarrow> i64" where
  "dec_value ds = fold (\<lambda>b num. num * 10 + ucast (b - 48)) ds 0"

definition saturate_i64 :: "int \<Rightarrow> i64" where
  "saturate_i64 x = word_of_int (max (- (2 ^ 63)) (min (2 ^ 63 - 1) x))"

text \<open>The digits after the point: the scaled value and their number, both saturating.\<close>

definition frac_value :: "u8 list \<Rightarrow> i64 \<Rightarrow> i64 \<times> u8" where
  "frac_value ds num =
     fold (\<lambda>b (v, n).
       (saturate_i64 (sint (saturate_i64 (sint v * 10)) + uint (b - 48)),
        if n = 255 then 255 else n + 1)) ds (num, 0)"

datatype lexed = Lexed TokenKind cursor | Skipped cursor | Overflow

text \<open>\<^verbatim>\<open>(num as u64) * unit\<close>.\<close>

definition time_literal :: "bool \<Rightarrow> i64 \<Rightarrow> nat \<Rightarrow> cursor \<Rightarrow> lexed" where
  "time_literal checked num factor c =
     (if checked \<and> 2 ^ 64 \<le> unat num * factor then Overflow
      else Lexed (TkTimeLiteral (num * of_nat factor)) c)"

definition lex_number :: "bool \<Rightarrow> u8 list \<Rightarrow> cursor \<Rightarrow> lexed" where
  "lex_number checked src c =
     (let i = pos c
      in if src ! i = 48 \<and> (peek_next src i = Some 120 \<or> peek_next src i = Some 88) then
           let e = span_end is_hexdigit src (i + 2)
           in Lexed (TkNumber (hex_value (sub_slice (i + 2) (e - (i + 2)) src))) (c\<lparr>pos := e\<rparr>)
         else
           let e = span_end is_digit src i;
               num = dec_value (sub_slice i (e - i) src)
           in if idx src e = Some 46 \<and> (\<exists>b \<in> set_option (peek_next src e). is_digit b) then
                let f = span_end is_digit src (e + 1);
                    (v, n) = frac_value (sub_slice (e + 1) (f - (e + 1)) src) num
                in Lexed (TkFloatLit v n) (c\<lparr>pos := f\<rparr>)
              else if match_suffix src e [110, 115] then time_literal checked num 1 (c\<lparr>pos := e + 2\<rparr>)
              else if match_suffix src e [117, 115] then time_literal checked num 1000 (c\<lparr>pos := e + 2\<rparr>)
              else if match_suffix src e [109, 115] then time_literal checked num 1000000 (c\<lparr>pos := e + 2\<rparr>)
              else if match_suffix src e [115] then time_literal checked num 1000000000 (c\<lparr>pos := e + 1\<rparr>)
              else Lexed (TkNumber num) (c\<lparr>pos := e\<rparr>))"

definition lex_string :: "u8 list \<Rightarrow> cursor \<Rightarrow> lexed" where
  "lex_string src c =
     (let e = span_end (\<lambda>b. b \<noteq> 34) src (pos c + 1);
          l = line c + count_list (sub_slice (pos c + 1) (e - (pos c + 1)) src) 10
      in Lexed TkStringLit \<lparr>pos = (if e < length src then e + 1 else e), line = l\<rparr>)"

primrec directive_text :: "directive \<Rightarrow> string" where
  "directive_text AtContract = ''contract''"
| "directive_text AtPipeline = ''pipeline''"
| "directive_text AtBudget = ''budget''"
| "directive_text AtWcet = ''wcet''"
| "directive_text AtWithin = ''within''"
| "directive_text AtWhile = ''while''"
| "directive_text AtFor = ''for''"
| "directive_text AtAssert = ''assert''"
| "directive_text AtRequires = ''requires''"
| "directive_text AtEnsures = ''ensures''"
| "directive_text AtInvariant = ''invariant''"
| "directive_text AtLoop = ''loop''"
| "directive_text AtOnVblank = ''on_vblank''"
| "directive_text AtPoolSize = ''pool_size''"
| "directive_text AtTest = ''test''"
| "directive_text AtImport = ''import''"

definition directive_table :: "directive list" where
  "directive_table =
     [AtContract, AtPipeline, AtBudget, AtWcet, AtWithin, AtWhile, AtFor, AtAssert, AtRequires,
      AtEnsures, AtInvariant, AtLoop, AtOnVblank, AtPoolSize, AtTest, AtImport]"

primrec keyword_text :: "keyword \<Rightarrow> string" where
  "keyword_text KwLet = ''let''"
| "keyword_text KwMut = ''mut''"
| "keyword_text KwMatch = ''match''"
| "keyword_text KwIf = ''if''"
| "keyword_text KwElse = ''else''"
| "keyword_text KwWhile = ''while''"
| "keyword_text KwFor = ''for''"
| "keyword_text KwIn = ''in''"
| "keyword_text KwWithin = ''within''"
| "keyword_text KwOr = ''or''"
| "keyword_text KwDrop = ''drop''"
| "keyword_text KwPipeline = ''pipeline''"
| "keyword_text KwTask = ''task''"
| "keyword_text KwStage = ''stage''"
| "keyword_text KwCore = ''core''"
| "keyword_text KwZeroCopy = ''zero_copy''"
| "keyword_text KwHardware = ''hardware''"
| "keyword_text KwInput = ''input''"
| "keyword_text KwOutput = ''output''"
| "keyword_text KwOn = ''on''"
| "keyword_text KwEmit = ''emit''"
| "keyword_text KwReturn = ''return''"
| "keyword_text KwBudget = ''budget''"
| "keyword_text KwFn = ''fn''"
| "keyword_text KwStruct = ''struct''"
| "keyword_text KwConst = ''const''"
| "keyword_text KwEnum = ''enum''"
| "keyword_text KwFixed = ''fixed''"
| "keyword_text KwI64 = ''i64''"
| "keyword_text KwU8 = ''u8''"
| "keyword_text KwU16 = ''u16''"
| "keyword_text KwU32 = ''u32''"
| "keyword_text KwU64 = ''u64''"

definition kw_table :: "keyword list" where
  "kw_table =
     [KwLet, KwMut, KwMatch, KwIf, KwElse, KwWhile, KwFor, KwIn, KwWithin, KwOr, KwDrop, KwPipeline,
      KwTask, KwStage, KwCore, KwZeroCopy, KwHardware, KwInput, KwOutput, KwOn, KwEmit, KwReturn,
      KwBudget, KwFn, KwStruct, KwConst, KwEnum, KwFixed, KwI64, KwU8, KwU16, KwU32, KwU64]"

text \<open>The two \<^verbatim>\<open>match\<close> tables, first match first.\<close>

definition classify_directive :: "u8 list \<Rightarrow> TokenKind" where
  "classify_directive tag =
     (case find (\<lambda>d. bytes (directive_text d) = tag) directive_table of
        Some d \<Rightarrow> TkDirective d
      | None \<Rightarrow> TkIntrinsicIdent)"

definition classify_ident :: "u8 list \<Rightarrow> TokenKind" where
  "classify_ident ident =
     (case find (\<lambda>k. bytes (keyword_text k) = ident) kw_table of
        Some k \<Rightarrow> TkKeyword k
      | None \<Rightarrow> if ident = [95] then TkSymbol SymUnderscore else TkIdent)"

definition lex_token :: "bool \<Rightarrow> u8 list \<Rightarrow> cursor \<Rightarrow> lexed" where
  "lex_token checked src c =
     (let i = pos c; b = src ! i
      in case lex_symbol b (peek_next src i) of
           Some (s, n) \<Rightarrow> Lexed (TkSymbol s) (c\<lparr>pos := i + n\<rparr>)
         | None \<Rightarrow>
             if b = 34 then lex_string src c
             else if is_digit b then lex_number checked src c
             else if b = 36 then Lexed TkVarIdent (c\<lparr>pos := span_end is_word src (i + 1)\<rparr>)
             else if b = 35 then Lexed TkHardwareIdent (c\<lparr>pos := span_end is_word src (i + 1)\<rparr>)
             else if b = 64 then
               let e = span_end is_path_char src (i + 1)
               in Lexed (classify_directive (sub_slice (i + 1) (e - (i + 1)) src)) (c\<lparr>pos := e\<rparr>)
             else if is_alpha b \<or> b = 95 then
               let e = span_end is_path_char src i
               in Lexed (classify_ident (sub_slice i (e - i) src)) (c\<lparr>pos := e\<rparr>)
             else Skipped (c\<lparr>pos := i + 1\<rparr>))"

section \<open>Progress\<close>

lemma peek_next_Some: "peek_next src i = Some x \<Longrightarrow> i + 2 \<le> length src"
  by (simp add: peek_next_def idx_eq_Some)

lemma lex_symbol_len:
  "lex_symbol b nxt = Some (s, n) \<Longrightarrow> n = 1 \<or> n = 2 \<and> (\<exists>x. nxt = Some x)"
  by (simp add: lex_symbol_def split: if_splits)

lemma skip_pos:
  "pos c \<le> length src \<Longrightarrow>
   pos c \<le> pos (skip_whitespace_and_comments src c) \<and>
   pos (skip_whitespace_and_comments src c) \<le> length src"
proof (induction src c rule: skip_whitespace_and_comments.induct)
  case (1 src c)
  then show ?case
    using skip_one_pos [of src c]
    by (subst (1 2) skip_whitespace_and_comments.simps) (fastforce split: option.splits)
qed

text \<open>A lexeme is not empty and ends inside the source.\<close>

definition advances :: "u8 list \<Rightarrow> nat \<Rightarrow> lexed \<Rightarrow> bool" where
  "advances src i r =
     (case r of
        Lexed k c' \<Rightarrow> i < pos c' \<and> pos c' \<le> length src \<and> k \<noteq> TkEof
      | Skipped c' \<Rightarrow> i < pos c' \<and> pos c' \<le> length src
      | Overflow \<Rightarrow> True)"

lemma advances_time:
  "i < pos c \<Longrightarrow> pos c \<le> length src \<Longrightarrow> advances src i (time_literal checked num u c)"
  by (simp add: advances_def time_literal_def)

lemma advances_number:
  assumes "pos c < length src" and "is_digit (src ! pos c)"
  shows "advances src (pos c) (lex_number checked src c)"
proof -
  let ?i = "pos c" and ?e = "span_end is_digit src (pos c)"
  have e: "?i < ?e" "?e \<le> length src"
    using assms span_end_gt span_end_bound [of ?i src] by auto
  have h: "?i < span_end is_hexdigit src (?i + 2)" "?i + 2 \<le> length src \<Longrightarrow> span_end is_hexdigit src (?i + 2) \<le> length src"
    using span_end_ge [of "?i + 2" is_hexdigit src] span_end_bound [of "?i + 2" src] by auto
  have f: "?e < span_end is_digit src (?e + 1)" "?e + 1 \<le> length src \<Longrightarrow> span_end is_digit src (?e + 1) \<le> length src"
    using span_end_ge [of "?e + 1"] span_end_bound [of "?e + 1" src] by (auto simp: Suc_le_eq)
  show ?thesis
  proof (cases "src ! ?i = 48 \<and> (peek_next src ?i = Some 120 \<or> peek_next src ?i = Some 88)")
    case True
    then have "?i + 2 \<le> length src" using peek_next_Some by blast
    with True h show ?thesis by (simp add: lex_number_def Let_def advances_def)
  next
    case False
    show ?thesis
    proof (cases "idx src ?e = Some 46 \<and> (\<exists>b \<in> set_option (peek_next src ?e). is_digit b)")
      case True
      then have "?e + 1 \<le> length src" by (auto simp: idx_eq_Some)
      with True False e f show ?thesis
        by (auto simp: lex_number_def Let_def advances_def split: prod.split)
    next
      case no_frac: False
      then show ?thesis
        unfolding lex_number_def Let_def if_not_P [OF False] if_not_P [OF no_frac]
        using e by (auto simp: advances_time match_suffix_def) (simp_all add: advances_def)
    qed
  qed
qed

lemma advances_string:
  assumes "pos c < length src"
  shows "advances src (pos c) (lex_string src c)"
  using assms span_end_ge [of "pos c + 1" "\<lambda>b. b \<noteq> 34" src] span_end_bound [of "pos c + 1" src "\<lambda>b. b \<noteq> 34"]
  by (auto simp: lex_string_def Let_def advances_def)

lemma classify_not_Eof: "classify_directive x \<noteq> TkEof" "classify_ident x \<noteq> TkEof"
  by (simp_all add: classify_directive_def classify_ident_def split: option.split)

lemma is_path_char_start: "is_alpha b \<or> b = 95 \<Longrightarrow> is_path_char b"
  by (auto simp: is_path_char_def is_word_def)

lemma lex_token_advances:
  assumes "pos c < length src"
  shows "advances src (pos c) (lex_token checked src c)"
proof (cases "lex_symbol (src ! pos c) (peek_next src (pos c))")
  case (Some sn)
  then obtain s n where sn: "lex_symbol (src ! pos c) (peek_next src (pos c)) = Some (s, n)"
    by (cases sn) simp
  then show ?thesis
    using lex_symbol_len [OF sn] peek_next_Some [of src "pos c"] assms
    by (auto simp: lex_token_def Let_def advances_def)
next
  case None
  let ?i = "pos c"
  have s: "?i < span_end p src (?i + 1)" "span_end p src (?i + 1) \<le> length src" for p
    using span_end_ge [of "?i + 1" p src] span_end_bound [of "?i + 1" src p] assms by auto
  have w: "is_alpha (src ! ?i) \<or> src ! ?i = 95 \<Longrightarrow>
      ?i < span_end is_path_char src ?i \<and> span_end is_path_char src ?i \<le> length src"
    using span_end_gt [of ?i src is_path_char] span_end_bound [of ?i src is_path_char] assms
      is_path_char_start by auto
  show ?thesis
    using None assms s w
    by (auto simp: lex_token_def Let_def advances_string advances_number)
      (auto simp: advances_def classify_not_Eof)
qed

section \<open>The tokenizer\<close>

definition mk_token :: "u8 list \<Rightarrow> TokenKind \<Rightarrow> nat \<Rightarrow> nat \<Rightarrow> Token" where
  "mk_token src k start e =
     (let (l, col) = get_line_and_col src start
      in \<lparr>kind = k, tok_start = start, tok_len = e - start, tok_line = l, tok_col = col\<rparr>)"

text \<open>The main loop; \<^term>\<open>None\<close> is the overflow panic.\<close>

function tokenize_loop ::
  "bool \<Rightarrow> u8 list \<Rightarrow> Token list \<Rightarrow> nat \<Rightarrow> cursor \<Rightarrow> (Token list \<times> nat \<times> cursor) option" where
  "tokenize_loop checked src toks cnt c =
     (if pos c < length src \<and> cnt + 1 < length toks then
        let c1 = skip_whitespace_and_comments src c
        in if length src \<le> pos c1 then Some (toks, cnt, c1)
           else (case lex_token checked src c1 of
               Lexed k c2 \<Rightarrow>
                 tokenize_loop checked src (toks[cnt := mk_token src k (pos c1) (pos c2)]) (cnt + 1) c2
             | Skipped c2 \<Rightarrow> tokenize_loop checked src toks cnt c2
             | Overflow \<Rightarrow> None)
      else Some (toks, cnt, c))"
  by pat_completeness auto
termination
proof (relation "measure (\<lambda>(checked, src, toks, cnt, c). length src - pos c)", goal_cases)
  case (2 checked src toks cnt c c1 k c2)
  then show ?case
    using skip_pos [of c src] lex_token_advances [of c1 src checked] by (auto simp: advances_def)
next
  case (3 checked src toks cnt c c1 c2)
  then show ?case
    using skip_pos [of c src] lex_token_advances [of c1 src checked] by (auto simp: advances_def)
qed simp

declare tokenize_loop.simps [simp del]

definition max_tokens_exceeded :: "u8 list \<Rightarrow> nat \<Rightarrow> CompileError" where
  "max_tokens_exceeded src i =
     (let (l, col) = get_line_and_col src i
      in \<lparr>code = ''ERR_MAX_TOKENS_EXCEEDED'',
          message = ''Source script exceeds maximum tokens capacity'',
          err_line = l, err_col = col, byte_offset = i, token_kind = TkEof, token_len = 0,
          expected = ''Script with fewer tokens or split into smaller functions/modules'',
          stage = ''Lexer -> Tokenization'',
          suggestion = ''Reduce code size or split logic into modules''\<rparr>)"

definition tokenize :: "bool \<Rightarrow> u8 list \<Rightarrow> Token list \<Rightarrow> (CompileError, nat \<times> Token list) outcome" where
  "tokenize checked src toks =
     (if toks = [] then
        Err (simple ''ERR_TOKEN_BUFFER_EMPTY'' ''Supplied token slice has 0 capacity'')
      else (case tokenize_loop checked src toks 0 \<lparr>pos = 0, line = 1\<rparr> of
          None \<Rightarrow> Panic
        | Some (toks', cnt, c) \<Rightarrow>
            let e = pos (skip_whitespace_and_comments src c)
            in if e < length src then Err (max_tokens_exceeded src e)
               else Ok (cnt, toks'[cnt := mk_token src TkEof e e])))"

section \<open>What a token stream satisfies\<close>

text \<open>
  Every token is the lexeme at its start: the lexer at that position gives its kind and
  its length, and its line and column are those of the start. Tokens do not overlap.
\<close>

definition is_lexeme :: "bool \<Rightarrow> u8 list \<Rightarrow> Token \<Rightarrow> bool" where
  "is_lexeme checked src t \<longleftrightarrow>
     0 < tok_len t \<and> kind t \<noteq> TkEof \<and>
     (tok_line t, tok_col t) = get_line_and_col src (tok_start t) \<and>
     (\<exists>l c. lex_token checked src \<lparr>pos = tok_start t, line = l\<rparr> = Lexed (kind t) c \<and>
            pos c = tok_start t + tok_len t)"

fun tokens_between :: "bool \<Rightarrow> u8 list \<Rightarrow> nat \<Rightarrow> Token list \<Rightarrow> nat \<Rightarrow> bool" where
  "tokens_between checked src lo [] hi \<longleftrightarrow> lo \<le> hi"
| "tokens_between checked src lo (t # ts) hi \<longleftrightarrow>
     lo \<le> tok_start t \<and> is_lexeme checked src t \<and>
     tokens_between checked src (tok_start t + tok_len t) ts hi"

lemma tokens_between_mono:
  "tokens_between checked src lo ts hi \<Longrightarrow> hi \<le> hi' \<Longrightarrow> tokens_between checked src lo ts hi'"
  by (induction ts arbitrary: lo) auto

lemma tokens_between_snoc:
  assumes "tokens_between checked src lo ts hi" and "hi \<le> tok_start t" and "is_lexeme checked src t"
  shows "tokens_between checked src lo (ts @ [t]) (tok_start t + tok_len t)"
  using assms by (induction ts arbitrary: lo) auto

lemma mk_token_fields [simp]:
  "kind (mk_token src k s e) = k" "tok_start (mk_token src k s e) = s" "tok_len (mk_token src k s e) = e - s"
  "(tok_line (mk_token src k s e), tok_col (mk_token src k s e)) = get_line_and_col src s"
  by (simp_all add: mk_token_def split: prod.split)

lemma is_lexeme_mk_token:
  assumes "lex_token checked src c = Lexed k c2" and "pos c < length src"
  shows "is_lexeme checked src (mk_token src k (pos c) (pos c2))"
proof -
  have "pos c < pos c2" "k \<noteq> TkEof"
    using lex_token_advances [OF assms(2), of checked] assms(1) by (simp_all add: advances_def)
  moreover have "c = \<lparr>pos = pos c, line = line c\<rparr>" by simp
  with assms(1) have "\<exists>l c'. lex_token checked src \<lparr>pos = pos c, line = l\<rparr> = Lexed k c' \<and> pos c' = pos c2"
    by metis
  ultimately show ?thesis by (simp add: is_lexeme_def del: cursor.surjective)
qed

lemma tokenize_loop_spec:
  assumes "tokenize_loop checked src toks cnt c = Some (toks', cnt', c')"
    and "pos c \<le> length src" and "cnt < length toks" and "cnt \<le> pos c"
    and "tokens_between checked src 0 (take cnt toks) (pos c)"
  shows "length toks' = length toks \<and> cnt' < length toks' \<and> cnt' \<le> pos c' \<and> pos c' \<le> length src \<and>
    tokens_between checked src 0 (take cnt' toks') (pos c') \<and>
    (pos c' < length src \<longrightarrow> cnt' + 1 = length toks')"
  using assms
proof (induction checked src toks cnt c rule: tokenize_loop.induct)
  case (1 checked src toks cnt c)
  let ?c1 = "skip_whitespace_and_comments src c"
  have c1: "pos c \<le> pos ?c1" "pos ?c1 \<le> length src" using skip_pos 1(4) by blast+
  show ?case
  proof (cases "pos c < length src \<and> cnt + 1 < length toks \<and> pos ?c1 < length src")
    case False
    with 1(3-) c1 show ?thesis
      by (subst (asm) tokenize_loop.simps)
        (auto simp: Let_def intro: tokens_between_mono split: if_splits)
  next
    case True
    have adv: "advances src (pos ?c1) (lex_token checked src ?c1)"
      using True by (intro lex_token_advances) simp
    show ?thesis
    proof (cases "lex_token checked src ?c1")
      case (Lexed k c2)
      let ?t = "mk_token src k (pos ?c1) (pos c2)"
      have lex: "is_lexeme checked src ?t" using is_lexeme_mk_token [OF Lexed] True by simp
      have p2: "pos ?c1 < pos c2" "pos c2 \<le> length src" using adv Lexed by (simp_all add: advances_def)
      have "tokens_between checked src 0 (take cnt toks @ [?t]) (pos c2)"
        using tokens_between_snoc [OF tokens_between_mono [OF 1(7) c1(1)] _ lex] p2 by simp
      then have "tokens_between checked src 0 (take (cnt + 1) (toks[cnt := ?t])) (pos c2)"
        using 1(5) by (simp add: take_Suc_conv_app_nth)
      moreover have "tokenize_loop checked src (toks[cnt := ?t]) (cnt + 1) c2 = Some (toks', cnt', c')"
        using 1(3) True Lexed by (subst (asm) tokenize_loop.simps) (simp add: Let_def)
      ultimately show ?thesis
        using 1(1) [OF _ refl _ Lexed] True p2 c1 1(6) by simp
    next
      case (Skipped c2)
      have p2: "pos ?c1 < pos c2" "pos c2 \<le> length src" using adv Skipped by (simp_all add: advances_def)
      have "tokenize_loop checked src toks cnt c2 = Some (toks', cnt', c')"
        using 1(3) True Skipped by (subst (asm) tokenize_loop.simps) (simp add: Let_def)
      moreover have "tokens_between checked src 0 (take cnt toks) (pos c2)"
        by (rule tokens_between_mono [OF 1(7)]) (use p2 c1 in simp)
      ultimately show ?thesis
        using 1(2) [OF _ refl _ Skipped] True p2 c1 1(5,6) by simp
    next
      case Overflow
      then show ?thesis
        using 1(3) True by (subst (asm) tokenize_loop.simps) (simp add: Let_def)
    qed
  qed
qed

end
