(* ===== verification/LexerProps.thy ===== *)
theory LexerProps
  imports Lexer
begin

text \<open>
  What the tokenizer promises: sound token streams, success whenever the buffer has room,
  and the round trips of numbers and reserved words.
\<close>

section \<open>Soundness and completeness\<close>

lemma tokenize_spec:
  assumes "tokenize checked src toks = Ok (n, toks')"
  shows "length toks' = length toks \<and> n < length toks \<and> n \<le> length src \<and>
    tokens_between checked src 0 (take n toks') (length src) \<and>
    toks' ! n = mk_token src TkEof (length src) (length src)"
proof -
  from assms obtain toks1 c where l: "tokenize_loop checked src toks 0 \<lparr>pos = 0, line = 1\<rparr> = Some (toks1, n, c)"
    and e: "\<not> pos (skip_whitespace_and_comments src c) < length src"
    and t: "toks' = toks1[n := mk_token src TkEof (pos (skip_whitespace_and_comments src c))
      (pos (skip_whitespace_and_comments src c))]" and ne: "toks \<noteq> []"
    by (auto simp: tokenize_def Let_def split: if_splits option.splits)
  have spec: "length toks1 = length toks" "n < length toks1" "n \<le> pos c" "pos c \<le> length src"
    "tokens_between checked src 0 (take n toks1) (pos c)"
    using tokenize_loop_spec [OF l] ne by simp_all
  have "pos (skip_whitespace_and_comments src c) = length src"
    using skip_pos [OF spec(4)] e by simp
  with spec t show ?thesis by (auto intro: tokens_between_mono)
qed

text \<open>
  C16: a successful tokenization returns the number \<open>n\<close> of tokens with the buffer holding them
  in source order: every token is the lexeme the lexer reads at its start (not empty, with
  the line and the column of that start), no two overlap, all lie inside the source, and the
  token at \<open>n\<close> is the end marker at the end of the source.
\<close>

theorem tokenize_sound:
  assumes "tokenize checked src toks = Ok (n, toks')"
  shows "length toks' = length toks \<and> n < length toks \<and> n \<le> length src \<and>
    tokens_between checked src 0 (take n toks') (length src) \<and>
    toks' ! n = mk_token src TkEof (length src) (length src)"
  using tokenize_spec [OF assms] .

theorem tokenize_sound_witness:
  "\<exists>n toks'. tokenize False (bytes ''a'') (replicate 2 empty_token) = Ok (n, toks') \<and>
     tokens_between False (bytes ''a'') 0 (take n toks') 1"
proof -
  have "case tokenize False (bytes ''a'') (replicate 2 empty_token) of Ok x \<Rightarrow> True | _ \<Rightarrow> False"
    by code_simp
  then obtain n toks' where "tokenize False (bytes ''a'') (replicate 2 empty_token) = Ok (n, toks')"
    by (auto split: outcome.splits)
  with tokenize_sound [OF this] show ?thesis by auto
qed

lemma lex_number_no_overflow: "lex_number False src c \<noteq> Overflow"
  by (simp add: lex_number_def time_literal_def Let_def split: prod.split)

lemma lex_token_no_overflow: "lex_token False src c \<noteq> Overflow"
  by (simp add: lex_token_def lex_string_def lex_number_no_overflow Let_def split: option.split)

lemma tokenize_loop_total: "tokenize_loop False src toks cnt c \<noteq> None"
proof (induction False src toks cnt c rule: tokenize_loop.induct)
  case (1 src toks cnt c)
  then show ?case
    using lex_token_no_overflow
    by (subst tokenize_loop.simps) (auto simp: Let_def split: lexed.split)
qed

lemma lex_number_checked: "lex_number True src c = lex_number False src c \<or> lex_number True src c = Overflow"
  by (auto simp: lex_number_def time_literal_def Let_def split: prod.split)

lemma lex_token_checked: "lex_token True src c = lex_token False src c \<or> lex_token True src c = Overflow"
  using lex_number_checked [of src c] by (auto simp: lex_token_def Let_def split: option.split)

lemma tokenize_loop_checked:
  "tokenize_loop True src toks cnt c = tokenize_loop False src toks cnt c \<or>
   tokenize_loop True src toks cnt c = None \<and> (\<exists>d. pos d < length src \<and> lex_token True src d = Overflow)"
proof (induction True src toks cnt c rule: tokenize_loop.induct)
  case (1 src toks cnt c)
  let ?d = "skip_whitespace_and_comments src c"
  show ?case
  proof (cases "pos c < length src \<and> cnt + 1 < length toks \<and> pos ?d < length src")
    case True
    show ?thesis
    proof (cases "lex_token True src ?d = Overflow")
      case False
      then have same: "lex_token True src ?d = lex_token False src ?d" using lex_token_checked by blast
      show ?thesis
        using 1 True same
        by (subst (1 2 3) tokenize_loop.simps) (auto simp: Let_def split: lexed.split)
    next
      case over: True
      with True have "tokenize_loop True src toks cnt c = None"
        by (subst tokenize_loop.simps) (simp add: Let_def)
      with over True show ?thesis by blast
    qed
  next
    case False
    then show ?thesis by (subst (1 2) tokenize_loop.simps) (auto simp: Let_def)
  qed
qed

text \<open>
  C17: a buffer with more entries than the source has bytes suffices: without overflow checks the
  tokenizer returns a token stream, whatever the bytes are; with them it returns the same stream,
  or panics where the source has a time literal that overflows.
\<close>

theorem tokenize_succeeds:
  assumes "length src < length toks"
  shows "(\<exists>n toks'. tokenize False src toks = Ok (n, toks')) \<and>
    (tokenize True src toks = tokenize False src toks \<or>
     tokenize True src toks = Panic \<and> (\<exists>c. pos c < length src \<and> lex_token True src c = Overflow))"
proof
  have ne: "toks \<noteq> []" using assms by auto
  obtain toks1 n c where l: "tokenize_loop False src toks 0 \<lparr>pos = 0, line = 1\<rparr> = Some (toks1, n, c)"
    using tokenize_loop_total by (metis not_None_eq prod_cases3)
  have spec: "length toks1 = length toks" "n \<le> pos c" "pos c \<le> length src"
    "pos c < length src \<longrightarrow> n + 1 = length toks1"
    using tokenize_loop_spec [OF l] ne by auto
  then have "pos c = length src" using assms by linarith
  then have "pos (skip_whitespace_and_comments src c) = length src"
    using skip_pos [OF spec(3)] by simp
  then show "\<exists>n toks'. tokenize False src toks = Ok (n, toks')" using l assms by (auto simp: tokenize_def Let_def)
  show "tokenize True src toks = tokenize False src toks \<or>
     tokenize True src toks = Panic \<and> (\<exists>c. pos c < length src \<and> lex_token True src c = Overflow)"
    using tokenize_loop_checked [of src toks 0 "\<lparr>pos = 0, line = 1\<rparr>"] ne by (auto simp: tokenize_def)
qed

theorem tokenize_succeeds_witness:
  "(\<exists>n toks'. tokenize False (bytes ''let $a = 1;'') (replicate 12 empty_token) = Ok (n, toks')) \<and>
   tokenize True (bytes ''let $a = 1;'') (replicate 12 empty_token) \<in>
     {Panic, tokenize False (bytes ''let $a = 1;'') (replicate 12 empty_token)}"
  using tokenize_succeeds [of "bytes ''let $a = 1;''" "replicate 12 empty_token"] by (auto simp: bytes_def)

text \<open>Such a literal: 20000000000 seconds are more than \<open>2 ^ 64\<close> nanoseconds.\<close>

theorem time_literal_panics: "tokenize True (bytes ''20000000000s'') (replicate 13 empty_token) = Panic"
proof -
  let ?src = "[50, 48, 48, 48, 48, 48, 48, 48, 48, 48, 48, 115] :: u8 list"
  have src: "bytes ''20000000000s'' = ?src" by (simp add: bytes_def)
  have v: "dec_value [50, 48, 48, 48, 48, 48, 48, 48, 48, 48, 48] = 20000000000" by (simp add: dec_value_def)
  have s: "skip_whitespace_and_comments ?src \<lparr>pos = 0, line = 1\<rparr> = \<lparr>pos = 0, line = 1\<rparr>"
    by (subst skip_whitespace_and_comments.simps) (simp add: skip_one_def)
  have "span_end is_digit ?src 0 = 11" by (simp add: span_end_def is_digit_def)
  then have "lex_number True ?src \<lparr>pos = 0, line = 1\<rparr> = Overflow"
    by (simp add: lex_number_def time_literal_def match_suffix_def sub_slice_def idx_def v)
  then have "lex_token True ?src \<lparr>pos = 0, line = 1\<rparr> = Overflow"
    by (simp add: lex_token_def is_digit_def lex_symbol_def)
  with s have "tokenize_loop True ?src (replicate 13 empty_token) 0 \<lparr>pos = 0, line = 1\<rparr> = None"
    by (subst tokenize_loop.simps) (simp add: Let_def)
  then show ?thesis by (simp add: src tokenize_def)
qed
text \<open>
  The only errors are an empty buffer and a full one: \<^verbatim>\<open>ERR_MAX_TOKENS_EXCEEDED\<close> names a
  position inside the source, and only sources with at least as many bytes as the buffer has
  entries get it.
\<close>

theorem tokenize_errors:
  assumes "tokenize checked src toks = Err e"
  shows "toks = [] \<and> code e = ''ERR_TOKEN_BUFFER_EMPTY'' \<or>
    toks \<noteq> [] \<and> length toks \<le> length src \<and>
    (\<exists>i. e = max_tokens_exceeded src i \<and> i < length src \<and> length toks - 1 \<le> i)"
proof (cases "toks = []")
  case True
  with assms show ?thesis by (auto simp: tokenize_def)
next
  case False
  with assms obtain toks1 n c where l: "tokenize_loop checked src toks 0 \<lparr>pos = 0, line = 1\<rparr> = Some (toks1, n, c)"
    and e: "pos (skip_whitespace_and_comments src c) < length src"
    and x: "e = max_tokens_exceeded src (pos (skip_whitespace_and_comments src c))"
    by (auto simp: tokenize_def Let_def split: if_splits option.splits)
  have spec: "length toks1 = length toks" "n \<le> pos c" "pos c \<le> length src"
    "pos c < length src \<longrightarrow> n + 1 = length toks1"
    using tokenize_loop_spec [OF l] False by auto
  have "pos c \<le> pos (skip_whitespace_and_comments src c)" using skip_pos [OF spec(3)] by simp
  with spec e have "n + 1 = length toks" "n \<le> pos (skip_whitespace_and_comments src c)" by simp_all
  with False e x show ?thesis by auto
qed

theorem tokenize_errors_witness:
  "\<exists>e i. tokenize False (bytes ''a b'') (replicate 1 empty_token) = Err e \<and>
     e = max_tokens_exceeded (bytes ''a b'') i \<and> i < 3"
proof -
  have "case tokenize False (bytes ''a b'') (replicate 1 empty_token) of Err x \<Rightarrow> True | _ \<Rightarrow> False"
    by code_simp
  then obtain e where "tokenize False (bytes ''a b'') (replicate 1 empty_token) = Err e"
    by (auto split: outcome.splits)
  with tokenize_errors [OF this] show ?thesis by auto
qed

section \<open>Round trips\<close>

lemma digit_unat: "d < 10 \<Longrightarrow> unat (of_nat (48 + d) :: u8) = 48 + d"
  by (simp only: unat_of_nat) simp

lemma is_digit_dec: "d < 10 \<Longrightarrow> is_digit (of_nat (48 + d))"
  using digit_unat [of d] by (simp add: is_digit_def word_le_nat_alt del: of_nat_add)

lemma dec_nat_digits: "\<forall>b \<in> set (dec_nat n). is_digit b"
proof (induction n rule: dec_nat.induct)
  case (1 n)
  show ?case
  proof (cases "n < 10")
    case True
    then show ?thesis using is_digit_dec by (subst dec_nat.simps) simp
  next
    case False
    then show ?thesis using 1 is_digit_dec [of "n mod 10"] by (subst dec_nat.simps) simp
  qed
qed

lemma dec_value_snoc: "dec_value (ds @ [b]) = dec_value ds * 10 + ucast (b - 48)"
  by (simp add: dec_value_def)

lemma digit_value: "d < 10 \<Longrightarrow> (ucast (of_nat (48 + d) - 48 :: u8) :: i64) = of_nat d"
  by (simp add: unsigned_of_nat take_bit_nat_eq_self)

lemma dec_value_dec_nat: "dec_value (dec_nat n) = of_nat n"
proof (induction n rule: dec_nat.induct)
  case (1 n)
  show ?case
  proof (cases "n < 10")
    case True
    then show ?thesis
      using dec_value_snoc [of "[]"] digit_value [of n] by (subst dec_nat.simps) (simp add: dec_value_def)
  next
    case False
    then have "dec_value (dec_nat n) = of_nat (n div 10) * 10 + of_nat (n mod 10)"
      using 1 digit_value [of "n mod 10"] by (subst dec_nat.simps) (simp add: dec_value_snoc)
    also have "\<dots> = of_nat (n div 10 * 10 + n mod 10)"
      by (simp only: of_nat_add of_nat_mult of_nat_numeral)
    finally show ?thesis by (simp only: div_mult_mod_eq)
  qed
qed

lemma dec_nat_hd: "hd (dec_nat n) = 48 \<Longrightarrow> n = 0"
proof (induction n rule: dec_nat.induct)
  case (1 n)
  show ?case
  proof (cases "n < 10")
    case True
    with 1(2) have "of_nat (48 + n) = (of_nat 48 :: u8)" by (subst (asm) dec_nat.simps) simp
    then have "(48 + n) mod 256 = 48 mod 256" by (simp only: word_unat_eq_iff unat_of_nat) simp
    with True show ?thesis by simp
  next
    case False
    with 1 have "n div 10 = 0" by (subst (asm) (2) dec_nat.simps) simp
    with False show ?thesis by simp
  qed
qed

lemma lex_digits:
  assumes "ds \<noteq> []" and "\<forall>b \<in> set ds. is_digit b" and "hd ds = 48 \<Longrightarrow> length ds = 1"
  shows "lex_token checked ds \<lparr>pos = 0, line = l\<rparr> = Lexed (TkNumber (dec_value ds)) \<lparr>pos = length ds, line = l\<rparr>"
proof -
  have d: "is_digit (ds ! 0)" using assms(1,2) by simp
  then have "lex_symbol (ds ! 0) nxt = None" and "ds ! 0 \<noteq> 34" for nxt
    by (auto simp: is_digit_def lex_symbol_def word_le_nat_alt split: if_splits)
  moreover have "\<not> (ds ! 0 = 48 \<and> (peek_next ds 0 = Some 120 \<or> peek_next ds 0 = Some 88))"
    using assms(1,3) by (auto simp: peek_next_def idx_eq_Some hd_conv_nth)
  moreover have "span_end is_digit ds 0 = length ds"
    using assms(2) by (simp add: span_end_def takeWhile_eq_all_conv [THEN iffD2])
  moreover have "\<not> (idx ds (length ds) = Some 46 \<and> (\<exists>b \<in> set_option (peek_next ds (length ds)). is_digit b))"
    by (simp add: idx_eq_Some)
  moreover have "\<not> match_suffix ds (length ds) (x # xs)" for x xs by (simp add: match_suffix_def)
  ultimately have "lex_number checked ds \<lparr>pos = 0, line = l\<rparr> =
      Lexed (TkNumber (dec_value ds)) \<lparr>pos = length ds, line = l\<rparr>"
    unfolding lex_number_def Let_def by (simp only: cursor.simps if_False refl) (simp add: sub_slice_def)
  with \<open>\<And>nxt. lex_symbol (ds ! 0) nxt = None\<close> \<open>ds ! 0 \<noteq> 34\<close> d show ?thesis
    by (simp add: lex_token_def Let_def)
qed

text \<open>
  A printed natural number lexes back to itself: tokenizing the decimal digits of \<open>n\<close>
  gives one number token, at line 1 and column 1, with the value \<open>n\<close> (modulo \<open>2 ^ 64\<close>).
\<close>

theorem number_round_trip:
  assumes "2 \<le> length toks"
  shows "\<exists>toks'. tokenize checked (dec_nat n) toks = Ok (1, toks') \<and>
    toks' ! 0 = \<lparr>kind = TkNumber (of_nat n), tok_start = 0, tok_len = length (dec_nat n),
                 tok_line = 1, tok_col = 1\<rparr>"
proof -
  let ?ds = "dec_nat n" and ?c = "\<lparr>pos = 0, line = 1\<rparr>"
  have d0: "is_digit (?ds ! 0)" using dec_nat_digits [of n] by simp
  have hd: "hd ?ds = 48 \<Longrightarrow> length ?ds = 1"
    using dec_nat_hd [of n] by (simp add: dec_nat.simps [of 0])
  have lex: "lex_token checked ?ds ?c = Lexed (TkNumber (of_nat n)) \<lparr>pos = length ?ds, line = 1\<rparr>"
    using lex_digits [OF dec_nat_not_Nil dec_nat_digits hd] by (simp add: dec_value_dec_nat)
  have "skip_one ?ds ?c = None"
    using d0 by (auto simp: skip_one_def is_digit_def word_le_nat_alt Let_def)
  then have skip: "skip_whitespace_and_comments ?ds ?c = ?c"
    by (subst skip_whitespace_and_comments.simps) simp
  have end_skip: "skip_whitespace_and_comments ?ds \<lparr>pos = length ?ds, line = l\<rparr> = \<lparr>pos = length ?ds, line = l\<rparr>" for l
    by (subst skip_whitespace_and_comments.simps) simp
  let ?t = "mk_token ?ds (TkNumber (of_nat n)) 0 (length ?ds)"
  have "tokenize_loop checked ?ds toks 0 ?c = Some (toks[0 := ?t], 1, \<lparr>pos = length ?ds, line = 1\<rparr>)"
    using assms lex skip
    by (subst tokenize_loop.simps, subst tokenize_loop.simps) (simp add: Let_def)
  then have "tokenize checked ?ds toks = Ok (1, toks[0 := ?t, 1 := mk_token ?ds TkEof (length ?ds) (length ?ds)])"
    using assms by (auto simp: tokenize_def Let_def end_skip)
  moreover have "toks[0 := ?t, 1 := x] ! 0 = ?t" for x
  proof -
    have "0 < length toks" using assms by linarith
    then show ?thesis by simp
  qed
  ultimately show ?thesis
    by (auto simp: mk_token_def get_line_and_col_def)
qed

theorem number_round_trip_witness:
  "\<exists>toks'. tokenize True (dec_nat 1024) (replicate 2 empty_token) = Ok (1, toks') \<and>
     kind (toks' ! 0) = TkNumber 1024"
  using number_round_trip [of "replicate 2 empty_token" True 1024] by auto

text \<open>
  The reserved words are unambiguous: the spelling of each keyword and of each directive is
  classified as that keyword or directive, and every other spelling as an identifier (the
  lone underscore as a symbol) or as an intrinsic.
\<close>

theorem reserved_words:
  "classify_ident (bytes (keyword_text k)) = TkKeyword k \<and>
   classify_directive (bytes (directive_text d)) = TkDirective d \<and>
   (classify_ident w = TkIdent \<or> classify_ident w = TkSymbol SymUnderscore \<or>
      (\<exists>k. classify_ident w = TkKeyword k \<and> w = bytes (keyword_text k))) \<and>
   (classify_directive w = TkIntrinsicIdent \<or>
      (\<exists>d. classify_directive w = TkDirective d \<and> w = bytes (directive_text d)))"
proof -
  have "classify_ident (bytes (keyword_text k)) = TkKeyword k"
    by (cases k) (simp_all add: classify_ident_def kw_table_def bytes_def)
  moreover have "classify_directive (bytes (directive_text d)) = TkDirective d"
    by (cases d) (simp_all add: classify_directive_def directive_table_def bytes_def)
  ultimately show ?thesis
    by (auto simp: classify_ident_def classify_directive_def find_Some_iff split: option.split)
qed

text \<open>
  An unterminated block comment is not skipped to the end: the last byte of the source is
  read as code, so \<^verbatim>\<open>/* x\<close> yields an identifier.
\<close>

theorem unterminated_comment_leaks:
  "case tokenize False (bytes ''/* x'') (replicate 4 empty_token) of
     Ok (n, toks') \<Rightarrow> n = 1 \<and> kind (toks' ! 0) = TkIdent \<and> tok_start (toks' ! 0) = 3
   | _ \<Rightarrow> False"
  by code_simp

end
