(* ===== verification/Ports.thy ===== *)
theory Ports
  imports Prelude
begin

text \<open>
  The processor's view of the hardware: port input and output and the serialized time stamp
  counter, over a device state of any type. The instructions behind them (\<^verbatim>\<open>in\<close>, \<^verbatim>\<open>out\<close>,
  \<^verbatim>\<open>lfence; rdtsc\<close>) are wrapped by one-line functions of \<^verbatim>\<open>kernel/src/serial.rs\<close> and
  \<^verbatim>\<open>kernel/src/tsc.rs\<close>; the devices are not part of the repository. On top of them, the clock
  (\<^verbatim>\<open>kernel/src/tsc.rs\<close>).
\<close>

record 'w ports =
  inb :: "u16 \<Rightarrow> 'w \<Rightarrow> u8 \<times> 'w"
  outb :: "u16 \<Rightarrow> u8 \<Rightarrow> 'w \<Rightarrow> 'w"
  inw :: "u16 \<Rightarrow> 'w \<Rightarrow> u16 \<times> 'w"
  outw :: "u16 \<Rightarrow> u16 \<Rightarrow> 'w \<Rightarrow> 'w"
  read_tsc_serialized :: "'w \<Rightarrow> u64 \<times> 'w"

section \<open>Conversions\<close>

text \<open>The products are taken in 128 bits, where they fit; the quotient is cut to 64 bits.\<close>

definition tsc_to_ns :: "u64 \<Rightarrow> u64 \<Rightarrow> u64" where
  "tsc_to_ns tsc_cycles freq_hz =
     (if freq_hz = 0 then 0 else of_nat (unat tsc_cycles * 1000000000 div unat freq_hz))"

definition ns_to_tsc :: "u64 \<Rightarrow> u64 \<Rightarrow> u64" where
  "ns_to_tsc ns freq_hz = of_nat (unat ns * unat freq_hz div 1000000000)"

section \<open>Calibration\<close>

definition MAX_LOOPS :: nat where
  "MAX_LOOPS = 50000000"

definition PIT_TICKS :: u16 where
  "PIT_TICKS = of_nat (1193182 * 10 div 1000)"

text \<open>Polling the output of the timer, at most \<^const>\<open>MAX_LOOPS\<close> times.\<close>

function pit_wait :: "'w ports \<Rightarrow> nat \<Rightarrow> 'w \<Rightarrow> nat \<times> 'w" where
  "pit_wait p loop_count w =
     (let (b, w1) = inb p 0x61 w
      in if b AND 0x20 \<noteq> 0 then (loop_count, w1)
         else if MAX_LOOPS \<le> loop_count + 1 then (loop_count + 1, w1)
         else pit_wait p (loop_count + 1) w1)"
  by pat_completeness auto
termination
  by (relation "measure (\<lambda>(p, n, w). MAX_LOOPS - n)") auto

declare pit_wait.simps [simp del]

text \<open>\<^verbatim>\<open>delta_cycles * 100\<close> is unchecked: \<open>checked\<close> selects the panic of a checked build.\<close>

definition calibrate_tsc_freq :: "bool \<Rightarrow> 'w ports \<Rightarrow> 'w \<Rightarrow> (unit, u64 \<times> 'w) outcome" where
  "calibrate_tsc_freq checked p w =
     (let w = outb p 0x43 0xB0 w;
          w = outb p 0x42 (ucast (PIT_TICKS AND 0xFF)) w;
          w = outb p 0x42 (ucast (drop_bit 8 PIT_TICKS AND 0xFF)) w;
          (port_61, w) = inb p 0x61 w;
          w = outb p 0x61 (port_61 AND 0xFE) w;
          w = outb p 0x61 (port_61 AND 0xFE OR 1) w;
          (start_tsc, w) = read_tsc_serialized p w;
          (loop_count, w) = pit_wait p 0 w;
          (end_tsc, w) = read_tsc_serialized p w;
          w = outb p 0x61 (port_61 AND 0xFE) w
      in if loop_count < MAX_LOOPS \<and> end_tsc > start_tsc then
           let delta_cycles = end_tsc - start_tsc
           in if checked \<and> 2 ^ 64 \<le> unat delta_cycles * 100 then Panic
              else Ok (delta_cycles * 100, w)
         else Ok (2500000000, w))"

lemma pit_wait_bound:
  "n < MAX_LOOPS \<Longrightarrow> pit_wait p n w = (m, w') \<Longrightarrow> n \<le> m \<and> m \<le> MAX_LOOPS"
proof (induction p n w rule: pit_wait.induct)
  case (1 p n w)
  obtain b w1 where b: "inb p 0x61 w = (b, w1)" by (cases "inb p 0x61 w")
  show ?case
  proof (cases "b AND 0x20 = 0 \<and> n + 1 < MAX_LOOPS")
    case True
    then have "pit_wait p (n + 1) w1 = (m, w')"
      using 1(3) b by (subst (asm) pit_wait.simps) auto
    with 1(1) [OF b [symmetric]] True show ?thesis by fastforce
  next
    case False
    with 1(2,3) b show ?thesis by (subst (asm) pit_wait.simps) (auto split: if_splits)
  qed
qed

section \<open>Properties of the conversions\<close>

lemma tsc_to_ns_exact:
  assumes "1000000000 \<le> unat f"
  shows "unat (tsc_to_ns c f) = unat c * 1000000000 div unat f"
proof -
  have "unat c * 1000000000 div unat f \<le> unat c"
    using assms by (metis div_mult_self_is_m div_le_mono2 less_le_trans mult_le_mono2 zero_less_numeral)
  moreover have "unat c < 2 ^ 64" using unsigned_less [of c] by simp
  ultimately show ?thesis using assms by (auto simp: tsc_to_ns_def unat_of_nat)
qed

text \<open>
  For clocks of at least 1 GHz the conversion to nanoseconds is exact (no truncation at 64
  bits) and monotone, and converting back never exceeds the original cycle count and loses
  less than one nanosecond's worth of cycles plus one.
\<close>

theorem tsc_conversion:
  assumes "1000000000 \<le> unat f"
  shows "unat (tsc_to_ns c f) = unat c * 1000000000 div unat f \<and>
    (c \<le> c' \<longrightarrow> tsc_to_ns c f \<le> tsc_to_ns c' f) \<and>
    unat (ns_to_tsc (tsc_to_ns c f) f) \<le> unat c \<and>
    unat c \<le> unat (ns_to_tsc (tsc_to_ns c f) f) + unat f div 1000000000 + 1"
proof -
  let ?c = "unat c" and ?f = "unat f" and ?g = "1000000000 :: nat"
  let ?n = "?c * ?g div ?f"
  have ns: "unat (tsc_to_ns x f) = unat x * ?g div ?f" for x by (rule tsc_to_ns_exact [OF assms])
  have mono: "tsc_to_ns c f \<le> tsc_to_ns c' f" if "c \<le> c'"
    using that by (simp add: word_le_nat_alt ns div_le_mono)
  have up: "?n * ?f \<le> ?c * ?g" by (simp add: mult.commute)
  then have "?n * ?f div ?g \<le> ?c" by (metis div_le_mono div_mult_self_is_m zero_less_numeral)
  have rt: "unat (ns_to_tsc (tsc_to_ns c f) f) = ?n * ?f div ?g"
  proof -
    have "?c < 2 ^ 64" using unsigned_less [of c] by simp
    with \<open>?n * ?f div ?g \<le> ?c\<close> show ?thesis by (simp add: ns_to_tsc_def ns unat_of_nat)
  qed
  have "?c * ?g < ?n * ?f + ?f"
    using dividend_less_div_times [of ?f "?c * ?g"] assms by (simp add: add.commute)
  moreover have "?n * ?f < (?n * ?f div ?g + 1) * ?g" and "?f < (?f div ?g + 1) * ?g"
    by (simp_all add: dividend_less_div_times)
  ultimately have "?c * ?g < (?n * ?f div ?g + ?f div ?g + 2) * ?g" by (simp add: algebra_simps)
  then have "?c < ?n * ?f div ?g + ?f div ?g + 2" by (metis mult_less_cancel2)
  with ns mono rt \<open>?n * ?f div ?g \<le> ?c\<close> show ?thesis by auto
qed

theorem tsc_conversion_witness:
  "unat (tsc_to_ns 2500 2500000000) = 1000"
  using tsc_conversion [of 2500000000 2500] by simp

end
