(* ===== verification/Fifo.thy ===== *)
theory Fifo
  imports Prelude
begin

text \<open>
  The contract of a bounded queue: an abstraction to a list, a push that appends or refuses
  when full, a pop that takes the front. The ring buffers of the kernel implement it, and the
  frame pipeline relies on it.
\<close>

text \<open>Pushing and popping a sequence of items; what is refused is dropped.\<close>

primrec push_each :: "('q \<Rightarrow> 'a \<Rightarrow> 'q option) \<Rightarrow> 'a list \<Rightarrow> 'q \<Rightarrow> 'q" where
  "push_each push [] q = q"
| "push_each push (x # xs) q =
     push_each push xs (case push q x of Some q' \<Rightarrow> q' | None \<Rightarrow> q)"

primrec pop_each :: "('q \<Rightarrow> ('a \<times> 'q) option) \<Rightarrow> nat \<Rightarrow> 'q \<Rightarrow> 'a list \<times> 'q" where
  "pop_each pop 0 q = ([], q)"
| "pop_each pop (Suc n) q =
     (case pop q of
        Some (x, q') \<Rightarrow> let (xs, r) = pop_each pop n q' in (x # xs, r)
      | None \<Rightarrow> ([], q))"

locale fifo =
  fixes inv :: "'q \<Rightarrow> bool"
    and abs :: "'q \<Rightarrow> 'a list"
    and push :: "'q \<Rightarrow> 'a \<Rightarrow> 'q option"
    and pop :: "'q \<Rightarrow> ('a \<times> 'q) option"
    and cap :: nat
  assumes abs_bound: "inv q \<Longrightarrow> length (abs q) \<le> cap"
    and push_full: "inv q \<Longrightarrow> push q x = None \<longleftrightarrow> length (abs q) = cap"
    and push_some: "inv q \<Longrightarrow> push q x = Some q' \<Longrightarrow> inv q' \<and> abs q' = abs q @ [x]"
    and pop_none: "inv q \<Longrightarrow> pop q = None \<longleftrightarrow> abs q = []"
    and pop_some: "inv q \<Longrightarrow> pop q = Some (x, q') \<Longrightarrow> inv q' \<and> abs q = x # abs q'"
begin

lemma push_ok:
  assumes "inv q" and "length (abs q) < cap"
  shows "\<exists>q'. push q x = Some q' \<and> inv q' \<and> abs q' = abs q @ [x]"
proof (cases "push q x")
  case None
  with push_full [OF assms(1), of x] assms(2) show ?thesis by simp
next
  case (Some q')
  with push_some [OF assms(1) Some] show ?thesis by blast
qed

lemma pop_ok:
  assumes "inv q" and "abs q = x # xs"
  shows "\<exists>q'. pop q = Some (x, q') \<and> inv q' \<and> abs q' = xs"
proof (cases "pop q")
  case None
  with pop_none [OF assms(1)] assms(2) show ?thesis by simp
next
  case (Some p)
  then obtain y q' where "pop q = Some (y, q')" by (cases p) simp
  with pop_some [OF assms(1) this] assms(2) show ?thesis by simp
qed

lemma push_each_room:
  "inv q \<Longrightarrow> length (abs q) + length xs \<le> cap \<Longrightarrow>
   inv (push_each push xs q) \<and> abs (push_each push xs q) = abs q @ xs"
proof (induction xs arbitrary: q)
  case (Cons x xs)
  then obtain q' where "push q x = Some q'" and "inv q'" and "abs q' = abs q @ [x]"
    using push_ok [of q x] by auto
  with Cons show ?case by simp
qed simp

lemma push_each_inv:
  "inv q \<Longrightarrow> inv (push_each push xs q) \<and>
   (\<exists>ys. abs (push_each push xs q) = abs q @ ys \<and> length ys \<le> length xs)"
proof (induction xs arbitrary: q)
  case (Cons x xs)
  show ?case
  proof (cases "push q x")
    case None
    with Cons.IH [OF Cons.prems] show ?thesis by (auto intro: le_SucI)
  next
    case (Some q')
    with push_some [OF Cons.prems Some] Cons.IH [of q'] show ?thesis by auto
  qed
qed simp

lemma pop_each_takes:
  "inv q \<Longrightarrow> pop_each pop n q = (xs, q') \<Longrightarrow>
   inv q' \<and> xs = take n (abs q) \<and> abs q' = drop n (abs q)"
proof (induction n arbitrary: q xs)
  case (Suc n)
  show ?case
  proof (cases "abs q")
    case Nil
    with Suc.prems pop_none [of q] show ?thesis by auto
  next
    case (Cons y ys)
    then obtain q1 where "pop q = Some (y, q1)" "inv q1" "abs q1 = ys"
      using pop_ok [OF Suc.prems(1)] by blast
    with Suc Cons show ?thesis by (auto split: prod.splits)
  qed
qed simp

text \<open>A batch that fits comes out unchanged and in order.\<close>

lemma batch_round_trip:
  assumes "inv q" and "abs q = []" and "length xs \<le> cap"
  shows "fst (pop_each pop (length xs) (push_each push xs q)) = xs"
proof -
  have "inv (push_each push xs q)" and "abs (push_each push xs q) = xs"
    using push_each_room [of q xs] assms by auto
  then show ?thesis
    using pop_each_takes [of "push_each push xs q" "length xs"]
    by (cases "pop_each pop (length xs) (push_each push xs q)") auto
qed

end

end
