(* ===== verification/RingBuffer.thy ===== *)
theory RingBuffer
  imports Fifo
begin

text \<open>
  The lock-free single-producer single-consumer ring buffer
  (\<^verbatim>\<open>kernel/src/ring_buffer.rs\<close>): its operations as the code has them, with head and tail
  as 64-bit counters that wrap, their refinement of a bounded queue, and the interleavings of
  one producer and one consumer core at the granularity of the single memory accesses.
\<close>

section \<open>Operations\<close>

record 'a ring =
  buffer :: "'a list"
  head :: u64
  tail :: u64

definition ring_new :: "nat \<Rightarrow> 'a \<Rightarrow> 'a ring" where
  "ring_new cap x = \<lparr>buffer = replicate cap x, head = 0, tail = 0\<rparr>"

abbreviation CAP :: "'a ring \<Rightarrow> nat" where
  "CAP r \<equiv> length (buffer r)"

text \<open>\<^verbatim>\<open>push\<close>; \<^term>\<open>None\<close> is \<^verbatim>\<open>Err(())\<close>.\<close>

definition push :: "'a ring \<Rightarrow> 'a \<Rightarrow> 'a ring option" where
  "push r item =
     (if CAP r \<le> unat (head r - tail r) then None
      else Some (r\<lparr>buffer := (buffer r)[unat (head r) mod CAP r := item], head := head r + 1\<rparr>))"

definition pop :: "'a ring \<Rightarrow> ('a \<times> 'a ring) option" where
  "pop r =
     (if tail r = head r then None
      else Some (buffer r ! (unat (tail r) mod CAP r), r\<lparr>tail := tail r + 1\<rparr>))"

definition is_empty :: "'a ring \<Rightarrow> bool" where
  "is_empty r \<longleftrightarrow> tail r = head r"

definition is_full :: "'a ring \<Rightarrow> bool" where
  "is_full r \<longleftrightarrow> CAP r \<le> unat (head r - tail r)"

definition len :: "'a ring \<Rightarrow> nat" where
  "len r = (if tail r \<le> head r then min (unat (head r - tail r)) (CAP r) else 0)"

section \<open>The queue it implements\<close>

text \<open>The capacity divides \<open>2 ^ 64\<close>, so that slots keep their order when the counters wrap.\<close>

definition cap_ok :: "nat \<Rightarrow> bool" where
  "cap_ok n \<longleftrightarrow> 0 < n \<and> n < 2 ^ 64 \<and> n dvd 2 ^ 64"

definition ring_ok :: "nat \<Rightarrow> 'a ring \<Rightarrow> bool" where
  "ring_ok n r \<longleftrightarrow> cap_ok n \<and> CAP r = n \<and> unat (head r - tail r) \<le> n"

definition contents :: "'a ring \<Rightarrow> 'a list" where
  "contents r =
     map (\<lambda>i. buffer r ! (unat (tail r + of_nat i) mod CAP r)) [0..<unat (head r - tail r)]"

lemma length_contents [simp]: "length (contents r) = unat (head r - tail r)"
  by (simp add: contents_def)

lemma slot_add:
  assumes "cap_ok n"
  shows "unat (t + of_nat i :: u64) mod n = (unat t + i) mod n"
proof -
  have "unat (t + of_nat i) = (unat t + i) mod 2 ^ 64"
    by (simp add: unat_word_ariths unat_of_nat mod_simps)
  then show ?thesis
    using assms by (simp add: cap_ok_def mod_mod_cancel)
qed

lemma ring_ok_push:
  assumes ok: "ring_ok n r" and room: "unat (head r - tail r) < n"
  shows "\<exists>r'. push r x = Some r' \<and> ring_ok n r' \<and> contents r' = contents r @ [x]"
proof -
  let ?d = "unat (head r - tail r)"
  let ?r = "r\<lparr>buffer := (buffer r)[unat (head r) mod n := x], head := head r + 1\<rparr>"
  have n: "cap_ok n" "CAP r = n" using ok by (simp_all add: ring_ok_def)
  have d: "unat (head r + 1 - tail r) = ?d + 1"
  proof -
    have "?d + 1 < 2 ^ 64" using room n by (simp add: cap_ok_def)
    then have "unat (head r - tail r + 1) = ?d + 1" by (simp add: unat_word_ariths)
    then show ?thesis by (simp only: add_diff_eq diff_add_eq)
  qed
  have h: "unat (head r) mod n = (unat (tail r) + ?d) mod n"
    using slot_add [OF n(1), of "tail r" ?d] by simp
  have "contents ?r ! i = (contents r @ [x]) ! i" if i: "i < ?d + 1" for i
  proof (cases "i = ?d")
    case True
    then show ?thesis
      using n h d by (simp add: contents_def slot_add [OF n(1)] cap_ok_def nth_append)
  next
    case False
    with i have "i < ?d" by simp
    then have "(unat (tail r) + i) mod n \<noteq> (unat (tail r) + ?d) mod n"
      using mod_eq_imp [of "unat (tail r) + i" n "unat (tail r) + ?d"] room by auto
    with \<open>i < ?d\<close> show ?thesis
      using n h d by (simp add: contents_def slot_add [OF n(1)] nth_append)
  qed
  moreover have "length (contents ?r) = length (contents r @ [x])" using d by simp
  ultimately have "contents ?r = contents r @ [x]"
    using d by (intro nth_equalityI) simp_all
  moreover have "push r x = Some ?r" using n room by (simp add: push_def)
  moreover have "ring_ok n ?r" using n d room by (simp add: ring_ok_def)
  ultimately show ?thesis by blast
qed

lemma ring_ok_pop:
  assumes ok: "ring_ok n r" and ne: "tail r \<noteq> head r"
  shows "\<exists>x r'. pop r = Some (x, r') \<and> ring_ok n r' \<and> contents r = x # contents r'"
proof -
  let ?d = "unat (head r - tail r)"
  let ?r = "r\<lparr>tail := tail r + 1\<rparr>"
  have n: "cap_ok n" "CAP r = n" using ok by (simp_all add: ring_ok_def)
  have pos: "0 < ?d" using ne by (simp add: unat_gt_0)
  have d: "unat (head r - (tail r + 1)) = ?d - 1"
  proof -
    have "unat (head r - tail r - 1) = ?d - 1"
      using unat_minus_one [of "head r - tail r"] ne by simp
    then show ?thesis by (simp only: diff_diff_eq)
  qed
  have "contents r = buffer r ! (unat (tail r) mod n) # contents ?r"
  proof (rule nth_equalityI)
    show "length (contents r) = length (buffer r ! (unat (tail r) mod n) # contents ?r)"
      using pos d by simp
    fix i assume "i < length (contents r)"
    then show "contents r ! i = (buffer r ! (unat (tail r) mod n) # contents ?r) ! i"
      using n d by (cases i) (simp_all add: contents_def ac_simps less_diff_conv)
  qed
  moreover have "ring_ok n ?r" using ok d pos by (auto simp: ring_ok_def)
  ultimately show ?thesis using ne n by (auto simp: pop_def)
qed

text \<open>The ring buffer of any admissible capacity is a queue; the kernel's rings have 16 slots.\<close>

lemma ring_fifo: "cap_ok n \<Longrightarrow> fifo (ring_ok n) contents push pop n"
proof
  fix q q' :: "'a ring" and x
  assume "cap_ok n"
  show "ring_ok n q \<Longrightarrow> length (contents q) \<le> n" by (simp add: ring_ok_def)
  show "ring_ok n q \<Longrightarrow> push q x = None \<longleftrightarrow> length (contents q) = n"
    by (auto simp: ring_ok_def push_def)
  show "ring_ok n q \<Longrightarrow> push q x = Some q' \<Longrightarrow> ring_ok n q' \<and> contents q' = contents q @ [x]"
    using ring_ok_push [of n q x] by (auto simp: push_def ring_ok_def split: if_splits)
  show "ring_ok n q \<Longrightarrow> pop q = None \<longleftrightarrow> contents q = []"
    by (auto simp: pop_def contents_def unat_eq_zero)
  show "ring_ok n q \<Longrightarrow> pop q = Some (x, q') \<Longrightarrow> ring_ok n q' \<and> contents q = x # contents q'"
    using ring_ok_pop [of n q] by (auto simp: pop_def split: if_splits)
qed

lemma cap_16: "cap_ok 16"
  by (simp add: cap_ok_def)

interpretation ring16: fifo "ring_ok 16" contents push pop 16
  by (rule ring_fifo [OF cap_16])

lemma ring_new_ok: "cap_ok n \<Longrightarrow> ring_ok n (ring_new n x)"
  by (simp add: ring_ok_def ring_new_def)

lemma contents_new [simp]: "contents (ring_new n x) = []"
  by (simp add: contents_def ring_new_def)

section \<open>Two cores\<close>

text \<open>
  The memory accesses of one producer and one consumer. \<^verbatim>\<open>push\<close> loads head, loads tail, tests,
  writes the slot and stores head; \<^verbatim>\<open>pop\<close> loads tail, loads head, tests, reads the slot and
  stores tail. The \<^verbatim>\<open>Acquire\<close>/\<^verbatim>\<open>Release\<close> pairs on head and tail order the slot accesses, so
  the interleavings of these accesses are the executions. \<open>pushed\<close> and \<open>popped\<close> record what the
  two operations have completed.
\<close>

datatype 'a producer = PIdle | PHead 'a u64 | PTail 'a u64 u64 | PWritten 'a u64

datatype 'a consumer = CIdle | CTail u64 | CHead u64 u64 | CRead u64 'a

record 'a spsc =
  mem :: "'a ring"
  prod :: "'a producer"
  cons :: "'a consumer"
  pushed :: "'a list"
  popped :: "'a list"

inductive spsc_step :: "'a spsc \<Rightarrow> 'a spsc \<Rightarrow> bool" where
  load_head: "prod s = PIdle \<Longrightarrow> spsc_step s (s\<lparr>prod := PHead x (head (mem s))\<rparr>)"
| load_tail: "prod s = PHead x h \<Longrightarrow> spsc_step s (s\<lparr>prod := PTail x h (tail (mem s))\<rparr>)"
| full: "prod s = PTail x h t \<Longrightarrow> CAP (mem s) \<le> unat (h - t) \<Longrightarrow> spsc_step s (s\<lparr>prod := PIdle\<rparr>)"
| write_slot: "prod s = PTail x h t \<Longrightarrow> unat (h - t) < CAP (mem s) \<Longrightarrow>
    spsc_step s (s\<lparr>mem := (mem s)\<lparr>buffer := (buffer (mem s))[unat h mod CAP (mem s) := x]\<rparr>,
                   prod := PWritten x h\<rparr>)"
| store_head: "prod s = PWritten x h \<Longrightarrow>
    spsc_step s (s\<lparr>mem := (mem s)\<lparr>head := h + 1\<rparr>, prod := PIdle, pushed := pushed s @ [x]\<rparr>)"
| c_load_tail: "cons s = CIdle \<Longrightarrow> spsc_step s (s\<lparr>cons := CTail (tail (mem s))\<rparr>)"
| c_load_head: "cons s = CTail t \<Longrightarrow> spsc_step s (s\<lparr>cons := CHead t (head (mem s))\<rparr>)"
| empty: "cons s = CHead t h \<Longrightarrow> t = h \<Longrightarrow> spsc_step s (s\<lparr>cons := CIdle\<rparr>)"
| read_slot: "cons s = CHead t h \<Longrightarrow> t \<noteq> h \<Longrightarrow>
    spsc_step s (s\<lparr>cons := CRead t (buffer (mem s) ! (unat t mod CAP (mem s)))\<rparr>)"
| store_tail: "cons s = CRead t x \<Longrightarrow>
    spsc_step s (s\<lparr>mem := (mem s)\<lparr>tail := t + 1\<rparr>, cons := CIdle, popped := popped s @ [x]\<rparr>)"

definition spsc_init :: "nat \<Rightarrow> 'a \<Rightarrow> 'a spsc" where
  "spsc_init n x = \<lparr>mem = ring_new n x, prod = PIdle, cons = CIdle, pushed = [], popped = []\<rparr>"

abbreviation spsc_reach :: "nat \<Rightarrow> 'a \<Rightarrow> 'a spsc \<Rightarrow> bool" where
  "spsc_reach n x s \<equiv> spsc_step\<^sup>*\<^sup>* (spsc_init n x) s"

text \<open>
  The invariant: head and tail count the completed operations modulo \<open>2 ^ 64\<close>, the slots
  between them hold the items pushed and not yet popped, and the counters the two sides have
  loaded are old by no more than the ring allows.
\<close>

definition producer_ok :: "nat \<Rightarrow> 'a spsc \<Rightarrow> bool" where
  "producer_ok n s =
     (let hn = length (pushed s); tn = length (popped s)
      in case prod s of
           PIdle \<Rightarrow> True
         | PHead x h \<Rightarrow> h = head (mem s)
         | PTail x h t \<Rightarrow> h = head (mem s) \<and> (\<exists>p. t = of_nat p \<and> p \<le> tn \<and> hn \<le> p + n)
         | PWritten x h \<Rightarrow> h = head (mem s) \<and> hn < tn + n \<and> buffer (mem s) ! (hn mod n) = x)"

definition consumer_ok :: "nat \<Rightarrow> 'a spsc \<Rightarrow> bool" where
  "consumer_ok n s =
     (let hn = length (pushed s); tn = length (popped s)
      in case cons s of
           CIdle \<Rightarrow> True
         | CTail t \<Rightarrow> t = tail (mem s)
         | CHead t h \<Rightarrow> t = tail (mem s) \<and> (\<exists>q. h = of_nat q \<and> tn \<le> q \<and> q \<le> hn)
         | CRead t x \<Rightarrow> t = tail (mem s) \<and> tn < hn \<and> x = pushed s ! tn)"

definition ring_inv :: "nat \<Rightarrow> 'a spsc \<Rightarrow> bool" where
  "ring_inv n s \<longleftrightarrow>
     (let hn = length (pushed s); tn = length (popped s)
      in CAP (mem s) = n \<and> head (mem s) = of_nat hn \<and> tail (mem s) = of_nat tn \<and>
         tn \<le> hn \<and> hn \<le> tn + n \<and> popped s = take tn (pushed s) \<and>
         (\<forall>k. tn \<le> k \<and> k < hn \<longrightarrow> buffer (mem s) ! (k mod n) = pushed s ! k))"

definition spsc_inv :: "nat \<Rightarrow> 'a spsc \<Rightarrow> bool" where
  "spsc_inv n s \<longleftrightarrow> ring_inv n s \<and> producer_ok n s \<and> consumer_ok n s"

lemmas spsc_inv_defs = spsc_inv_def ring_inv_def producer_ok_def consumer_ok_def Let_def

lemma spsc_inv_init: "cap_ok n \<Longrightarrow> spsc_inv n (spsc_init n x)"
  by (simp add: spsc_inv_defs spsc_init_def ring_new_def)

lemma unat_diff_of_nat:
  assumes "b \<le> a" and "a - b < 2 ^ 64"
  shows "unat (of_nat a - of_nat b :: u64) = a - b"
proof -
  have "of_nat a - of_nat b = (of_nat (a - b) :: u64)" using assms(1) by (simp add: of_nat_diff)
  with assms(2) show ?thesis by (simp add: unat_of_nat)
qed

lemma slot_of_nat: "cap_ok n \<Longrightarrow> unat (of_nat k :: u64) mod n = k mod n"
  using slot_add [of n 0 k] by simp

lemma of_nat_eq_near:
  assumes "a \<le> b" and "b - a < 2 ^ 64" and "of_nat a = (of_nat b :: u64)"
  shows "a = b"
  using unat_diff_of_nat [OF assms(1,2)] assms(1,3) by simp

lemma write_keeps:
  assumes "cap_ok n" and "k < hn" and "hn < k + n"
  shows "(hn :: nat) mod n \<noteq> k mod n"
  using mod_eq_imp [of k n hn] assms(2,3) by auto

lemma producer_room:
  assumes "cap_ok n" and "hn \<le> q + n" and "q \<le> hn" and "unat (of_nat hn - of_nat q :: u64) < n"
  shows "hn < q + n"
proof -
  have "hn - q < 2 ^ 64" using assms(1,2) by (auto simp: cap_ok_def)
  from unat_diff_of_nat [OF assms(3) this] assms(3,4) show ?thesis by simp
qed

lemma inv_write_slot:
  assumes n: "cap_ok n" and inv: "spsc_inv n s" and p: "prod s = PTail x h t"
    and room: "unat (h - t) < CAP (mem s)"
  shows "spsc_inv n (s\<lparr>mem := (mem s)\<lparr>buffer := (buffer (mem s))[unat h mod CAP (mem s) := x]\<rparr>,
    prod := PWritten x h\<rparr>)"
proof -
  let ?hn = "length (pushed s)" and ?tn = "length (popped s)"
  have r: "ring_inv n s" and c: "consumer_ok n s" using inv by (simp_all add: spsc_inv_def)
  from inv p obtain q where h: "h = of_nat ?hn" and t: "t = of_nat q" and q: "q \<le> ?tn" "?hn \<le> q + n"
    and cap: "CAP (mem s) = n" and le: "?tn \<le> ?hn"
    by (auto simp: spsc_inv_defs)
  have lt: "?hn < q + n"
    using producer_room [OF n q(2) le_trans [OF q(1) le]] room cap by (simp add: h t)
  have slot: "unat h mod CAP (mem s) = ?hn mod n" by (simp add: h cap slot_of_nat n)
  have "?hn mod n < n" using n by (simp add: cap_ok_def)
  moreover have "?hn mod n \<noteq> k mod n" if "?tn \<le> k" "k < ?hn" for k
    using write_keeps [OF n that(2)] that(1) q(1) lt by simp
  ultimately show ?thesis
    using r c q lt h cap unfolding slot by (auto simp: spsc_inv_defs split: consumer.splits)
qed

lemma inv_store_head:
  assumes n: "cap_ok n" and inv: "spsc_inv n s" and p: "prod s = PWritten x h"
  shows "spsc_inv n (s\<lparr>mem := (mem s)\<lparr>head := h + 1\<rparr>, prod := PIdle, pushed := pushed s @ [x]\<rparr>)"
proof -
  have "length (pushed s) mod n < n" using n by (simp add: cap_ok_def)
  with inv p show ?thesis
    by (auto simp: spsc_inv_defs nth_append less_Suc_eq ac_simps split: consumer.splits)
qed

lemma consumer_head:
  assumes "spsc_inv n s" and "cons s = CHead t h" and "t \<noteq> h"
  shows "t = of_nat (length (popped s))" and "length (popped s) < length (pushed s)"
proof -
  obtain q where t: "t = of_nat (length (popped s))" and h: "h = of_nat q"
    and q: "length (popped s) \<le> q" "q \<le> length (pushed s)"
    using assms(1,2) by (auto simp: spsc_inv_defs)
  have "length (popped s) \<noteq> q" using assms(3) t h by auto
  then show "t = of_nat (length (popped s))" and "length (popped s) < length (pushed s)"
    using t q by simp_all
qed

lemma inv_read_slot:
  assumes n: "cap_ok n" and inv: "spsc_inv n s" and p: "cons s = CHead t h" and ne: "t \<noteq> h"
  shows "spsc_inv n (s\<lparr>cons := CRead t (buffer (mem s) ! (unat t mod CAP (mem s)))\<rparr>)"
proof -
  let ?s = "s\<lparr>cons := CRead t (buffer (mem s) ! (unat t mod CAP (mem s)))\<rparr>"
  have r: "ring_inv n ?s" and pr: "producer_ok n ?s"
    using inv by (simp_all add: spsc_inv_def ring_inv_def producer_ok_def cong: producer.case_cong)
  have "unat t mod CAP (mem s) = length (popped s) mod n"
    using consumer_head(1) [OF inv p ne] slot_of_nat [OF n] inv by (simp add: spsc_inv_def ring_inv_def Let_def)
  then have "consumer_ok n ?s"
    using consumer_head [OF inv p ne] inv by (simp add: consumer_ok_def spsc_inv_def ring_inv_def Let_def)
  with r pr show ?thesis by (simp add: spsc_inv_def)
qed

lemma inv_store_tail:
  assumes inv: "spsc_inv n s" and p: "cons s = CRead t x"
  shows "spsc_inv n (s\<lparr>mem := (mem s)\<lparr>tail := t + 1\<rparr>, cons := CIdle, popped := popped s @ [x]\<rparr>)"
proof -
  let ?s = "s\<lparr>mem := (mem s)\<lparr>tail := t + 1\<rparr>, cons := CIdle, popped := popped s @ [x]\<rparr>"
  have c: "t = of_nat (length (popped s))" "length (popped s) < length (pushed s)"
    "x = pushed s ! length (popped s)"
    using inv p by (simp_all add: spsc_inv_defs)
  have "popped s @ [x] = take (Suc (length (popped s))) (pushed s)"
    using inv c by (simp add: spsc_inv_def ring_inv_def Let_def take_Suc_conv_app_nth)
  then have "ring_inv n ?s"
    using inv c by (simp add: spsc_inv_def ring_inv_def Let_def)
  moreover have "producer_ok n ?s"
    using inv by (auto simp: spsc_inv_def producer_ok_def Let_def le_SucI split: producer.splits)
  ultimately show ?thesis by (simp add: spsc_inv_def consumer_ok_def)
qed

lemma spsc_inv_step:
  assumes "cap_ok n" and "spsc_step s s'" and "spsc_inv n s"
  shows "spsc_inv n s'"
  using assms(2,3,1)
proof (cases rule: spsc_step.cases)
  case (write_slot x h t)
  then show ?thesis using inv_write_slot [OF assms(1,3)] by simp
next
  case (store_head x h)
  then show ?thesis using inv_store_head [OF assms(1,3)] by simp
next
  case (read_slot t h)
  then show ?thesis using inv_read_slot [OF assms(1,3)] by simp
next
  case (store_tail t x)
  then show ?thesis using inv_store_tail [OF assms(3)] by simp
next
  case (load_tail x h)
  then show ?thesis
    using assms(3) by (auto simp: spsc_inv_defs split: consumer.splits)
next
  case (c_load_head t)
  then show ?thesis
    using assms(3) by (auto simp: spsc_inv_defs split: producer.splits)
qed (use assms(3) in \<open>auto simp: spsc_inv_defs split: producer.splits consumer.splits\<close>)

lemma spsc_reach_inv:
  assumes "cap_ok n" and "spsc_reach n x s"
  shows "spsc_inv n s"
  using assms(2) by (induction rule: rtranclp_induct) (auto intro: spsc_inv_init spsc_inv_step assms(1))

section \<open>Properties\<close>

text \<open>
  C18: the ring buffer is a FIFO queue under every interleaving of the memory accesses of one
  producer and one consumer: what has been popped is a prefix of what has been pushed, at
  most the capacity is in flight, and head and tail count the operations even after they
  wrap.
\<close>

theorem spsc_fifo:
  assumes "cap_ok n" and "spsc_reach n x s"
  shows "popped s = take (length (popped s)) (pushed s) \<and>
    length (popped s) \<le> length (pushed s) \<and> length (pushed s) \<le> length (popped s) + n \<and>
    head (mem s) = of_nat (length (pushed s)) \<and> tail (mem s) = of_nat (length (popped s))"
  using spsc_reach_inv [OF assms] by (simp add: spsc_inv_def ring_inv_def Let_def)

text \<open>One item pushed, access by access, then popped, or met by a second push.\<close>

definition one_pushed :: "nat ring" where
  "one_pushed = \<lparr>buffer = (replicate 16 0)[0 := 7], head = 1, tail = 0\<rparr>"

abbreviation at_accesses :: "nat producer \<Rightarrow> nat consumer \<Rightarrow> nat spsc" where
  "at_accesses p c \<equiv> \<lparr>mem = one_pushed, prod = p, cons = c, pushed = [7], popped = []\<rparr>"

lemmas one_more_step = rtranclp.rtrancl_into_rtrancl [where r = spsc_step]

lemma spsc_run_push: "spsc_reach 16 0 (at_accesses PIdle CIdle)"
proof -
  let ?i = "spsc_init 16 (0 :: nat)"
  have "spsc_step\<^sup>*\<^sup>* ?i (?i\<lparr>prod := PHead 7 0\<rparr>)"
    using load_head [of ?i 7] by (auto simp: spsc_init_def ring_new_def)
  from one_more_step [OF this load_tail] have "spsc_step\<^sup>*\<^sup>* ?i (?i\<lparr>prod := PTail 7 0 0\<rparr>)"
    by (simp add: spsc_init_def ring_new_def)
  from one_more_step [OF this write_slot] have "spsc_step\<^sup>*\<^sup>* ?i
      (?i\<lparr>mem := (ring_new 16 0)\<lparr>buffer := (replicate 16 0)[0 := 7]\<rparr>, prod := PWritten 7 0\<rparr>)"
    by (simp add: spsc_init_def ring_new_def)
  from one_more_step [OF this store_head] show ?thesis
    by (simp add: spsc_init_def ring_new_def one_pushed_def)
qed

lemma spsc_run_pop: "spsc_reach 16 0 (at_accesses PIdle (CRead 0 7))"
proof -
  have "spsc_reach 16 0 (at_accesses PIdle (CTail 0))"
    using one_more_step [OF spsc_run_push c_load_tail] by (simp add: one_pushed_def)
  from one_more_step [OF this c_load_head] have "spsc_reach 16 0 (at_accesses PIdle (CHead 0 1))"
    by (simp add: one_pushed_def)
  from one_more_step [OF this read_slot] show ?thesis by (simp add: one_pushed_def)
qed

lemma spsc_run_both: "spsc_reach 16 0 (at_accesses (PTail 8 1 0) (CHead 0 1))"
proof -
  have "spsc_reach 16 0 (at_accesses (PHead 8 1) CIdle)"
    using one_more_step [OF spsc_run_push load_head [where x = 8]] by (simp add: one_pushed_def)
  from one_more_step [OF this load_tail] have "spsc_reach 16 0 (at_accesses (PTail 8 1 0) CIdle)"
    by (simp add: one_pushed_def)
  from one_more_step [OF this c_load_tail] have "spsc_reach 16 0 (at_accesses (PTail 8 1 0) (CTail 0))"
    by (simp add: one_pushed_def)
  from one_more_step [OF this c_load_head] show ?thesis by (simp add: one_pushed_def)
qed

theorem spsc_fifo_witness:
  "\<exists>s. spsc_reach 16 (0 :: nat) s \<and> popped s = [7] \<and> popped s = take 1 (pushed s)"
proof -
  let ?s = "at_accesses PIdle (CRead 0 7)"
  let ?t = "?s\<lparr>mem := (mem ?s)\<lparr>tail := 0 + 1\<rparr>, cons := CIdle, popped := popped ?s @ [7]\<rparr>"
  have r: "spsc_reach 16 0 ?t" by (rule one_more_step [OF spsc_run_pop store_tail]) simp
  have "popped ?t = take (length (popped ?t)) (pushed ?t)"
    using spsc_fifo [OF cap_16 r] by blast
  with r show ?thesis by auto
qed

text \<open>
  C19: there is no data race on a slot: whenever the producer is about to write a slot and the
  consumer is about to read one, the two slots differ, and the slot the consumer reads holds
  the oldest item not yet popped.
\<close>

theorem spsc_no_race:
  assumes "cap_ok n" and "spsc_reach n x s" and "prod s = PTail y h t" and "unat (h - t) < n"
    and "cons s = CHead t' h'" and "t' \<noteq> h'"
  shows "unat h mod n \<noteq> unat t' mod n \<and>
    buffer (mem s) ! (unat t' mod n) = pushed s ! length (popped s)"
proof -
  let ?hn = "length (pushed s)" and ?tn = "length (popped s)"
  note n = assms(1)
  have inv: "spsc_inv n s" by (rule spsc_reach_inv [OF assms(1,2)])
  with assms(3,5) obtain q where h: "h = of_nat ?hn" and t: "t = of_nat q" "q \<le> ?tn" "?hn \<le> q + n"
    and t': "t' = of_nat ?tn" and h': "\<exists>j. h' = of_nat j \<and> ?tn \<le> j \<and> j \<le> ?hn" and le: "?tn \<le> ?hn"
    and slots: "\<forall>k. ?tn \<le> k \<and> k < ?hn \<longrightarrow> buffer (mem s) ! (k mod n) = pushed s ! k"
    by (auto simp: spsc_inv_defs)
  have tn: "?tn < ?hn" by (rule consumer_head(2) [OF inv assms(5,6)])
  have "?hn < q + n"
    using producer_room [OF n t(3) le_trans [OF t(2) le]] assms(4) by (simp add: h t)
  then have "?hn mod n \<noteq> ?tn mod n" using write_keeps [OF n tn] t(2) by simp
  with slots tn show ?thesis by (simp add: h t' slot_of_nat [OF n])
qed

theorem spsc_no_race_witness:
  "spsc_reach 16 0 (at_accesses (PTail 8 1 0) (CHead 0 1)) \<and>
   unat (1 :: u64) mod 16 \<noteq> unat (0 :: u64) mod 16 \<and> buffer one_pushed ! (unat (0 :: u64) mod 16) = 7"
  using spsc_no_race [OF cap_16 spsc_run_both] spsc_run_both by simp

text \<open>
  Sequential use of a 16-slot ring: a batch of at most 16 items pushed into an empty ring
  is popped unchanged and in order, wherever the counters stand (also across their wrap).
\<close>

theorem ring_batch_round_trip:
  assumes "ring_ok 16 r" and "is_empty r" and "length xs \<le> 16"
  shows "fst (pop_each pop (length xs) (push_each push xs r)) = xs"
  by (rule ring16.batch_round_trip) (use assms in \<open>auto simp: is_empty_def contents_def\<close>)

theorem ring_batch_round_trip_witness:
  "fst (pop_each pop (length [1, 2, 3 :: nat]) (push_each push [1, 2, 3 :: nat]
     \<lparr>buffer = replicate 16 0, head = - 1, tail = - 1\<rparr>)) = [1, 2, 3]"
  by (rule ring_batch_round_trip) (simp_all add: ring_ok_def is_empty_def cap_16)

text \<open>
  C20: push and pop refine a bounded list queue on every branch: push refuses exactly when 16
  items are queued and otherwise appends, pop returns the front or nothing, and
  \<^verbatim>\<open>is_empty\<close>, \<^verbatim>\<open>is_full\<close> and, until the counters wrap, \<^verbatim>\<open>len\<close> report the list.
\<close>

theorem ring_refines_queue:
  assumes "ring_ok 16 r"
  shows "(case push r x of
      None \<Rightarrow> length (contents r) = 16
    | Some r' \<Rightarrow> length (contents r) < 16 \<and> ring_ok 16 r' \<and> contents r' = contents r @ [x]) \<and>
    (case pop r of
      None \<Rightarrow> contents r = []
    | Some (y, r') \<Rightarrow> ring_ok 16 r' \<and> contents r = y # contents r') \<and>
    (is_empty r \<longleftrightarrow> contents r = []) \<and> (is_full r \<longleftrightarrow> length (contents r) = 16) \<and>
    (tail r \<le> head r \<longrightarrow> len r = length (contents r))"
proof -
  have "is_empty r \<longleftrightarrow> contents r = []" "is_full r \<longleftrightarrow> length (contents r) = 16"
    "tail r \<le> head r \<longrightarrow> len r = length (contents r)"
    using assms by (auto simp: ring_ok_def is_empty_def is_full_def len_def contents_def unat_eq_zero)
  moreover have "case push r x of None \<Rightarrow> length (contents r) = 16
    | Some r' \<Rightarrow> length (contents r) < 16 \<and> ring_ok 16 r' \<and> contents r' = contents r @ [x]"
    using ring16.push_full [OF assms] ring16.push_some [OF assms] ring16.abs_bound
    by (fastforce simp: le_less split: option.split)
  moreover have "case pop r of None \<Rightarrow> contents r = []
    | Some (y, r') \<Rightarrow> ring_ok 16 r' \<and> contents r = y # contents r'"
    using ring16.pop_none [OF assms] ring16.pop_some [OF assms]
    by (fastforce split: option.split)
  ultimately show ?thesis by blast
qed

theorem ring_refines_queue_witness:
  "contents (the (push (ring_new 16 0) (5 :: nat))) = [5]"
  using ring_refines_queue [OF ring_new_ok [OF cap_16], of "0 :: nat" 5]
  by (auto split: option.splits)

text \<open>
  \<^verbatim>\<open>len\<close> is wrong once head has wrapped and tail has not: the ring then holds an item and
  \<^verbatim>\<open>len\<close> reports zero.
\<close>

theorem ring_len_after_wrap:
  "\<exists>r :: nat ring. ring_ok 16 r \<and> contents r = [9] \<and> len r = 0"
proof (intro exI conjI)
  let ?r = "\<lparr>buffer = (replicate 16 0)[15 := 9], head = 0, tail = - 1\<rparr> :: nat ring"
  show "ring_ok 16 ?r" by (simp add: ring_ok_def cap_16)
  have "unat (- 1 :: u64) mod 16 = 15"
    by (simp add: unsigned_minus_1_eq_mask mask_eq_exp_minus_1)
  then show "contents ?r = [9]" by (simp add: contents_def)
  show "len ?r = 0" by (simp add: len_def)
qed

text \<open>
  A second producer, which the ring does not provide for: its accesses interleave with those of
  the first in any way.
\<close>

inductive two_producers :: "'a spsc \<times> 'a producer \<Rightarrow> 'a spsc \<times> 'a producer \<Rightarrow> bool" where
  first: "spsc_step s s' \<Longrightarrow> two_producers (s, q) (s', q)"
| second: "spsc_step (s\<lparr>prod := q\<rparr>) s' \<Longrightarrow> two_producers (s, q) (s'\<lparr>prod := prod s\<rparr>, prod s')"

lemmas two_more_step = rtranclp.rtrancl_into_rtrancl [where r = two_producers]

text \<open>
  Two pushes that overlap can both report success and leave one item: both load the same head,
  write the same slot and store the same new head. The boot sequence is no such case (the other
  cores wait), the benchmark of the shell beside the capture core is.
\<close>

theorem two_producers_lose:
  "\<exists>s :: nat spsc. two_producers\<^sup>*\<^sup>* (spsc_init 16 0, PIdle) (s, PIdle) \<and> prod s = PIdle \<and>
     pushed s = [7, 8] \<and> popped s = [] \<and> contents (mem s) = [8]"
proof -
  let ?i = "spsc_init 16 (0 :: nat)"
  note defs = spsc_init_def ring_new_def
  have "two_producers\<^sup>*\<^sup>* (?i, PIdle) (?i\<lparr>prod := PHead 7 0\<rparr>, PIdle)"
    using two_producers.first [OF load_head [of ?i 7]] by (auto simp: defs)
  from two_more_step [OF this two_producers.first [OF load_tail]]
  have "two_producers\<^sup>*\<^sup>* (?i, PIdle) (?i\<lparr>prod := PTail 7 0 0\<rparr>, PIdle)" by (simp add: defs)
  from two_more_step [OF this two_producers.second [OF load_head [where x = 8]]]
  have "two_producers\<^sup>*\<^sup>* (?i, PIdle) (?i\<lparr>prod := PTail 7 0 0\<rparr>, PHead 8 0)" by (simp add: defs)
  from two_more_step [OF this two_producers.second [OF load_tail]]
  have "two_producers\<^sup>*\<^sup>* (?i, PIdle) (?i\<lparr>prod := PTail 7 0 0\<rparr>, PTail 8 0 0)" by (simp add: defs)
  from two_more_step [OF this two_producers.first [OF write_slot]]
  have "two_producers\<^sup>*\<^sup>* (?i, PIdle)
      (?i\<lparr>mem := (ring_new 16 0)\<lparr>buffer := (replicate 16 0)[0 := 7]\<rparr>, prod := PWritten 7 0\<rparr>, PTail 8 0 0)"
    by (simp add: defs)
  from two_more_step [OF this two_producers.first [OF store_head]]
  have "two_producers\<^sup>*\<^sup>* (?i, PIdle) (at_accesses PIdle CIdle, PTail 8 0 0)"
    by (simp add: defs one_pushed_def)
  from two_more_step [OF this two_producers.second [OF write_slot]]
  have "two_producers\<^sup>*\<^sup>* (?i, PIdle)
      ((at_accesses PIdle CIdle)\<lparr>mem := one_pushed\<lparr>buffer := (replicate 16 0)[0 := 8]\<rparr>\<rparr>, PWritten 8 0)"
    by (simp add: one_pushed_def)
  from two_more_step [OF this two_producers.second [OF store_head]]
  have r: "two_producers\<^sup>*\<^sup>* (?i, PIdle)
      ((at_accesses PIdle CIdle)\<lparr>mem := one_pushed\<lparr>buffer := (replicate 16 0)[0 := 8]\<rparr>, pushed := [7, 8]\<rparr>, PIdle)"
    by (simp add: one_pushed_def)
  have "contents (one_pushed\<lparr>buffer := (replicate 16 0)[0 := 8]\<rparr>) = [8]"
    by (simp add: contents_def one_pushed_def)
  with r show ?thesis
    by (intro exI [of _ "(at_accesses PIdle CIdle)\<lparr>mem := one_pushed\<lparr>buffer := (replicate 16 0)[0 := 8]\<rparr>, pushed := [7, 8]\<rparr>"])
      simp
qed

end
