(* ===== verification/Pipeline.thy ===== *)
theory Pipeline
  imports Crc32 Ports RingBuffer "HOL-Library.Sublist"
begin

text \<open>
  The frame pipeline: capture (\<^verbatim>\<open>kernel/src/gpu.rs\<close>) and the polling loops of the capture,
  encode and network cores (\<^verbatim>\<open>run_role_loop\<close> in \<^verbatim>\<open>kernel/src/smp.rs\<close>), which hand frame
  handles from core to core through two ring buffers. Core 0 uses the first ring as well: the
  boot sequence (\<^verbatim>\<open>kernel/src/main.rs\<close>) leaves a test frame in it, and the benchmark of the shell
  (\<^verbatim>\<open>kernel/src/shell.rs\<close>) pushes and pops while the other cores run.
\<close>

section \<open>Frames\<close>

record FrameHandle =
  slot_id :: u8
  frame_id :: u64
  width :: u32
  height :: u32
  stride :: u32
  phys_addr :: u64
  size :: nat
  crc32 :: u32
  vblank_tsc :: u64
  capture_done_tsc :: u64

definition empty_handle :: FrameHandle where
  "empty_handle =
     \<lparr>slot_id = 0, frame_id = 0, width = 0, height = 0, stride = 0, phys_addr = 0, size = 0,
      crc32 = 0, vblank_tsc = 0, capture_done_tsc = 0\<rparr>"

abbreviation (input) NUM_FRAME_SLOTS :: nat where
  "NUM_FRAME_SLOTS \<equiv> 4"

definition FRAME_POOL :: "u8 list list" where
  "FRAME_POOL =
     [replicate 65536 0x5A, replicate 65536 0xA5, replicate 65536 0x3C, replicate 65536 0xC3]"

text \<open>Waiting for the edge of the vertical blank, at most \<open>max_spins\<close> rounds per phase.\<close>

definition is_vblank_active :: "'w ports \<Rightarrow> 'w \<Rightarrow> bool \<times> 'w" where
  "is_vblank_active p w = (let (b, w1) = inb p 0x3DA w in (b AND 0x08 \<noteq> 0, w1))"

fun spin_while :: "bool \<Rightarrow> 'w ports \<Rightarrow> nat \<Rightarrow> 'w \<Rightarrow> 'w" where
  "spin_while active p 0 w = snd (is_vblank_active p w)"
| "spin_while active p (Suc left) w =
     (let (a, w1) = is_vblank_active p w
      in if a = active then spin_while active p left w1 else w1)"

definition poll_vblank_edge :: "'w ports \<Rightarrow> u64 \<Rightarrow> 'w \<Rightarrow> u64 \<times> 'w" where
  "poll_vblank_edge p max_spins w =
     read_tsc_serialized p (spin_while False p (unat max_spins) (spin_while True p (unat max_spins) w))"

definition get_frame_slot_data :: "u8 list list \<Rightarrow> u8 \<Rightarrow> u8 list" where
  "get_frame_slot_data pool s = pool ! (unat s mod NUM_FRAME_SLOTS)"

text \<open>
  The capture: the frame number goes to the first four bytes of the slot, and the checksum is
  of the first 4096. \<open>addr\<close> is where the linker placed the slots, \<open>done_tsc\<close> the counter
  read at the end.
\<close>

definition fill_pattern :: "u64 \<Rightarrow> u8 list \<Rightarrow> u8 list" where
  "fill_pattern fid slot =
     slot[0 := ucast (fid AND 0xFF), 1 := ucast (drop_bit 8 fid AND 0xFF),
          2 := ucast (drop_bit 16 fid AND 0xFF), 3 := ucast (drop_bit 24 fid AND 0xFF)]"

definition capture_frame_zero_copy ::
  "(nat \<Rightarrow> u64) \<Rightarrow> u64 \<Rightarrow> u8 \<Rightarrow> u64 \<Rightarrow> u64 \<Rightarrow> u8 list list \<Rightarrow> FrameHandle \<times> u8 list list" where
  "capture_frame_zero_copy addr done_tsc s fid vb pool =
     (let i = unat s mod NUM_FRAME_SLOTS;
          slot = fill_pattern fid (pool ! i)
      in (\<lparr>slot_id = of_nat i, frame_id = fid, width = 1920, height = 1080, stride = 7680,
           phys_addr = addr i, size = length slot,
           crc32 = compute_crc32 (take (min 4096 (length slot)) slot),
           vblank_tsc = vb, capture_done_tsc = done_tsc\<rparr>,
          pool[i := slot]))"

section \<open>The three cores\<close>

record pipeline =
  frame_pool :: "u8 list list"
  capture_to_encode :: "FrameHandle ring"
  encode_to_net :: "FrameHandle ring"
  loop_counts :: "u64 list"
  cap_frame_seq :: u64
  cap_slot_id :: u8
  net_packet_seq :: u16
  CAPTURED_FRAMES :: u64
  CONSUMED_FRAMES :: u64
  NETWORK_FRAMES_SENT :: u64
  LAST_CAPTURE_LATENCY_NS :: u64
  LAST_FRAME_CRC :: u32
  LAST_CONSUMED_FRAME_ID :: u64
  LAST_CONSUMED_CRC :: u32
  LAST_NET_SEND_LATENCY_NS :: u64
  LAST_NET_BYTES_SENT :: u64

definition pipeline_init :: pipeline where
  "pipeline_init =
     \<lparr>frame_pool = FRAME_POOL, capture_to_encode = ring_new 16 empty_handle,
      encode_to_net = ring_new 16 empty_handle, loop_counts = [0, 0, 0, 0],
      cap_frame_seq = 0, cap_slot_id = 0, net_packet_seq = 1,
      CAPTURED_FRAMES = 0, CONSUMED_FRAMES = 0, NETWORK_FRAMES_SENT = 0,
      LAST_CAPTURE_LATENCY_NS = 0, LAST_FRAME_CRC = 0, LAST_CONSUMED_FRAME_ID = 0,
      LAST_CONSUMED_CRC = 0, LAST_NET_SEND_LATENCY_NS = 0, LAST_NET_BYTES_SENT = 0\<rparr>"

definition count_loop :: "nat \<Rightarrow> pipeline \<Rightarrow> pipeline" where
  "count_loop core pl = pl\<lparr>loop_counts := (loop_counts pl)[core := loop_counts pl ! core + 1]\<rparr>"

text \<open>
  One iteration of each loop. The counter readings are arguments; for the network core so are
  the result of \<^verbatim>\<open>stream_send_frame\<close> and the packet number it leaves (the whole body is
  \<open>network_core\<close> of theory \<open>Net\<close>).
\<close>

definition capture_iteration :: "u64 \<Rightarrow> (nat \<Rightarrow> u64) \<Rightarrow> u64 \<Rightarrow> u64 \<Rightarrow> pipeline \<Rightarrow> pipeline" where
  "capture_iteration freq addr vb done_tsc pl =
     (let pl = count_loop 1 pl;
          (handle, pool) = capture_frame_zero_copy addr done_tsc (cap_slot_id pl) (cap_frame_seq pl) vb (frame_pool pl);
          pl = pl\<lparr>frame_pool := pool,
                  LAST_CAPTURE_LATENCY_NS := tsc_to_ns (saturating_sub (capture_done_tsc handle) vb) freq,
                  LAST_FRAME_CRC := crc32 handle\<rparr>
      in case push (capture_to_encode pl) handle of
           Some r \<Rightarrow>
             pl\<lparr>capture_to_encode := r, CAPTURED_FRAMES := CAPTURED_FRAMES pl + 1,
                cap_frame_seq := cap_frame_seq pl + 1,
                cap_slot_id := of_nat ((unat (cap_slot_id pl) + 1) mod NUM_FRAME_SLOTS)\<rparr>
         | None \<Rightarrow> pl)"

definition encode_iteration :: "pipeline \<Rightarrow> pipeline" where
  "encode_iteration pl =
     (let pl = count_loop 2 pl
      in case pop (capture_to_encode pl) of
           Some (h, r) \<Rightarrow>
             let pl = pl\<lparr>capture_to_encode := r, CONSUMED_FRAMES := CONSUMED_FRAMES pl + 1,
                         LAST_CONSUMED_FRAME_ID := frame_id h, LAST_CONSUMED_CRC := crc32 h\<rparr>
             in (case push (encode_to_net pl) h of
                   Some q \<Rightarrow> pl\<lparr>encode_to_net := q\<rparr>
                 | None \<Rightarrow> pl)
         | None \<Rightarrow> pl)"

text \<open>
  The latency of a sent frame is the plain difference of two readings (\<^verbatim>\<open>smp.rs:272\<close>): \<open>checked\<close>
  selects the panic of a build with overflow checks when the second is smaller (\<^term>\<open>None\<close>).
\<close>

definition network_iteration ::
  "bool \<Rightarrow> u64 \<Rightarrow> u64 \<Rightarrow> u64 \<Rightarrow> u64 option \<Rightarrow> u16 \<Rightarrow> pipeline \<Rightarrow> pipeline option" where
  "network_iteration checked freq send_start send_end sent seq pl =
     (let pl = count_loop 3 pl
      in case pop (encode_to_net pl) of
           Some (h, r) \<Rightarrow>
             let pl = pl\<lparr>encode_to_net := r, net_packet_seq := seq\<rparr>
             in (case sent of
                   Some n \<Rightarrow>
                     if checked \<and> send_end < send_start then None
                     else Some (pl\<lparr>LAST_NET_SEND_LATENCY_NS := tsc_to_ns (send_end - send_start) freq,
                                   NETWORK_FRAMES_SENT := NETWORK_FRAMES_SENT pl + 1,
                                   LAST_NET_BYTES_SENT := n\<rparr>)
                 | None \<Rightarrow> Some pl)
         | None \<Rightarrow> Some pl)"

section \<open>Core 0\<close>

text \<open>
  A capture by core 0 into slot \<open>s\<close> under the number \<open>fid\<close>, pushed to the first ring without a
  look at the result.
\<close>

definition core0_push :: "(nat \<Rightarrow> u64) \<Rightarrow> u64 \<Rightarrow> u8 \<Rightarrow> u64 \<Rightarrow> u64 \<Rightarrow> pipeline \<Rightarrow> pipeline" where
  "core0_push addr done_tsc s fid vb pl =
     (let (handle, pool) = capture_frame_zero_copy addr done_tsc s fid vb (frame_pool pl);
          pl = pl\<lparr>frame_pool := pool\<rparr>
      in case push (capture_to_encode pl) handle of
           Some r \<Rightarrow> pl\<lparr>capture_to_encode := r\<rparr>
         | None \<Rightarrow> pl)"

text \<open>The sanity check of the boot sequence: frame 1 in slot 0, before the other cores start.\<close>

definition boot_frame :: "(nat \<Rightarrow> u64) \<Rightarrow> u64 \<Rightarrow> u64 \<Rightarrow> pipeline \<Rightarrow> pipeline" where
  "boot_frame addr done_tsc vblank_start pl = core0_push addr done_tsc 0 1 vblank_start pl"

text \<open>Sample \<open>sample_idx\<close> of the benchmark: a capture and a push, then a pop.\<close>

definition bench_push :: "(nat \<Rightarrow> u64) \<Rightarrow> u64 \<Rightarrow> nat \<Rightarrow> u64 \<Rightarrow> pipeline \<Rightarrow> pipeline" where
  "bench_push addr done_tsc sample_idx t3_start pl =
     core0_push addr done_tsc (of_nat (sample_idx mod 4)) (of_nat sample_idx) t3_start pl"

definition bench_pop :: "pipeline \<Rightarrow> pipeline" where
  "bench_pop pl =
     (case pop (capture_to_encode pl) of
        Some (_, r) \<Rightarrow> pl\<lparr>capture_to_encode := r\<rparr>
      | None \<Rightarrow> pl)"

section \<open>Executions\<close>

text \<open>
  The cores run their iterations in any order, from the state the boot sequence leaves: the
  other cores wait for \<^verbatim>\<open>START_SIGNAL\<close>, which core 0 sets after the test frame was pushed. The logs
  record everything that was \<open>stored\<close> in the first ring and \<open>taken\<close> from it, and of that the
  frames the capture core \<open>captured\<close> and the encoder took (\<open>encoded\<close>), and what the network core
  took from the second ring (\<open>delivered\<close>).

  Of the two loops that share a ring one is its only producer and the other its only consumer;
  there the ring operations of two cores interleave as queue operations
  (\<open>RingBuffer.spsc_fifo\<close>), so whole iterations are the steps. The benchmark of the shell is a
  second producer and a second consumer of the first ring: with \<open>bench\<close> its push and its pop are
  steps too, each as one queue operation, which the ring itself does not guarantee for them
  (\<open>RingBuffer.two_producers_lose\<close>): the runs with \<open>bench\<close> are those in which no access of core 0
  to the ring overlaps one of another core. With \<open>bench\<close> core 0 may also overwrite the slots at
  any moment, as scripts (\<^verbatim>\<open>lang.rs:903, 1686\<close>) and \<^verbatim>\<open>/vram\<close> do.
\<close>

record pipe_run =
  pl :: pipeline
  stored :: "FrameHandle list"
  taken :: "FrameHandle list"
  captured :: "FrameHandle list"
  encoded :: "FrameHandle list"
  delivered :: "FrameHandle list"

definition popped_front :: "'a ring \<Rightarrow> 'a list" where
  "popped_front r = (case pop r of Some (h, _) \<Rightarrow> [h] | None \<Rightarrow> [])"

definition push_log :: "'a ring \<Rightarrow> 'a \<Rightarrow> 'a list" where
  "push_log r h = (if push r h = None then [] else [h])"

definition capture_step :: "u64 \<Rightarrow> (nat \<Rightarrow> u64) \<Rightarrow> u64 \<Rightarrow> u64 \<Rightarrow> pipe_run \<Rightarrow> pipe_run" where
  "capture_step freq addr vb done_tsc s =
     (let p = pl s;
          h = fst (capture_frame_zero_copy addr done_tsc (cap_slot_id p) (cap_frame_seq p) vb (frame_pool p));
          new = push_log (capture_to_encode p) h
      in s\<lparr>pl := capture_iteration freq addr vb done_tsc p, stored := stored s @ new, captured := captured s @ new\<rparr>)"

definition encode_step :: "pipe_run \<Rightarrow> pipe_run" where
  "encode_step s =
     (let out = popped_front (capture_to_encode (pl s))
      in s\<lparr>pl := encode_iteration (pl s), taken := taken s @ out, encoded := encoded s @ out\<rparr>)"

definition network_step ::
  "bool \<Rightarrow> u64 \<Rightarrow> u64 \<Rightarrow> u64 \<Rightarrow> u64 option \<Rightarrow> u16 \<Rightarrow> pipe_run \<Rightarrow> pipe_run option" where
  "network_step checked freq t0 t1 sent seq s =
     map_option (\<lambda>p. s\<lparr>pl := p, delivered := delivered s @ popped_front (encode_to_net (pl s))\<rparr>)
       (network_iteration checked freq t0 t1 sent seq (pl s))"

definition bench_push_step :: "(nat \<Rightarrow> u64) \<Rightarrow> u64 \<Rightarrow> nat \<Rightarrow> u64 \<Rightarrow> pipe_run \<Rightarrow> pipe_run" where
  "bench_push_step addr done_tsc i t3 s =
     (let h = fst (capture_frame_zero_copy addr done_tsc (of_nat (i mod 4)) (of_nat i) t3 (frame_pool (pl s)))
      in s\<lparr>pl := bench_push addr done_tsc i t3 (pl s), stored := stored s @ push_log (capture_to_encode (pl s)) h\<rparr>)"

definition bench_pop_step :: "pipe_run \<Rightarrow> pipe_run" where
  "bench_pop_step s =
     s\<lparr>pl := bench_pop (pl s), taken := taken s @ popped_front (capture_to_encode (pl s))\<rparr>"

definition run_init :: "(nat \<Rightarrow> u64) \<Rightarrow> u64 \<Rightarrow> u64 \<Rightarrow> pipe_run" where
  "run_init addr done_tsc vb =
     \<lparr>pl = boot_frame addr done_tsc vb pipeline_init,
      stored = [fst (capture_frame_zero_copy addr done_tsc 0 1 vb FRAME_POOL)], taken = [],
      captured = [], encoded = [], delivered = []\<rparr>"

inductive pipe_reach :: "bool \<Rightarrow> pipe_run \<Rightarrow> bool" for bench where
  init: "pipe_reach bench (run_init addr done_tsc vb)"
| capture: "pipe_reach bench s \<Longrightarrow> pipe_reach bench (capture_step freq addr vb done_tsc s)"
| encode: "pipe_reach bench s \<Longrightarrow> pipe_reach bench (encode_step s)"
| network: "pipe_reach bench s \<Longrightarrow> network_step checked freq t0 t1 sent seq s = Some s' \<Longrightarrow> pipe_reach bench s'"
| bench_push: "bench \<Longrightarrow> pipe_reach bench s \<Longrightarrow> pipe_reach bench (bench_push_step addr done_tsc i t3 s)"
| bench_pop: "bench \<Longrightarrow> pipe_reach bench s \<Longrightarrow> pipe_reach bench (bench_pop_step s)"
| slots: "bench \<Longrightarrow> pipe_reach bench s \<Longrightarrow> pipe_reach bench (s\<lparr>pl := (pl s)\<lparr>frame_pool := pool\<rparr>\<rparr>)"

section \<open>Order\<close>

definition order_inv :: "bool \<Rightarrow> pipe_run \<Rightarrow> bool" where
  "order_inv bench s \<longleftrightarrow>
     ring_ok 16 (capture_to_encode (pl s)) \<and> ring_ok 16 (encode_to_net (pl s)) \<and>
     taken s @ contents (capture_to_encode (pl s)) = stored s \<and>
     subseq (captured s) (tl (stored s)) \<and> subseq (encoded s) (taken s) \<and>
     stored s \<noteq> [] \<and> frame_id (hd (stored s)) = 1 \<and>
     (\<not> bench \<longrightarrow> captured s = tl (stored s) \<and> encoded s = taken s) \<and>
     subseq (delivered s @ contents (encode_to_net (pl s))) (encoded s) \<and>
     CAPTURED_FRAMES (pl s) = of_nat (length (captured s)) \<and>
     CONSUMED_FRAMES (pl s) = of_nat (length (encoded s)) \<and>
     cap_frame_seq (pl s) = of_nat (length (captured s)) \<and>
     (\<forall>i < length (captured s). frame_id (captured s ! i) = of_nat i)"

lemma push_new: "push (ring_new 16 z) h \<noteq> None"
  by (simp add: push_def ring_new_def)

lemma capture_handle [simp]:
  "frame_id (fst (capture_frame_zero_copy addr d s fid vb pool)) = fid"
  "slot_id (fst (capture_frame_zero_copy addr d s fid vb pool)) = of_nat (unat s mod 4)"
  by (simp_all add: capture_frame_zero_copy_def Let_def)

lemma order_inv_init: "order_inv bench (run_init addr d vb)"
proof -
  let ?h = "fst (capture_frame_zero_copy addr d 0 1 vb FRAME_POOL)"
  obtain r where r: "push (ring_new 16 empty_handle) ?h = Some r" using push_new by (metis not_None_eq)
  have "ring_ok 16 r \<and> contents r = [?h]"
    using ring16.push_some [OF _ r] by (simp add: ring_new_ok cap_16)
  with r show ?thesis
    by (simp add: order_inv_def run_init_def boot_frame_def core0_push_def pipeline_init_def ring_new_ok cap_16
        case_prod_beta)
qed

lemma count_loop_frame [simp]:
  "frame_pool (count_loop k p) = frame_pool p" "capture_to_encode (count_loop k p) = capture_to_encode p"
  "encode_to_net (count_loop k p) = encode_to_net p" "cap_frame_seq (count_loop k p) = cap_frame_seq p"
  "cap_slot_id (count_loop k p) = cap_slot_id p" "CAPTURED_FRAMES (count_loop k p) = CAPTURED_FRAMES p"
  "CONSUMED_FRAMES (count_loop k p) = CONSUMED_FRAMES p"
  by (simp_all add: count_loop_def)

lemma order_inv_capture: "order_inv bench s \<Longrightarrow> order_inv bench (capture_step f a v d s)"
proof -
  assume inv: "order_inv bench s"
  let ?h = "fst (capture_frame_zero_copy a d (cap_slot_id (pl s)) (cap_frame_seq (pl s)) v (frame_pool (pl s)))"
  have id: "frame_id ?h = of_nat (length (captured s))" using inv by (simp add: order_inv_def)
  show ?thesis
  proof (cases "push (capture_to_encode (pl s)) ?h")
    case None
    with inv show ?thesis
      by (simp add: capture_step_def capture_iteration_def order_inv_def Let_def case_prod_beta push_log_def)
  next
    case (Some r)
    have r: "ring_ok 16 r" "contents r = contents (capture_to_encode (pl s)) @ [?h]"
      using ring16.push_some [OF _ Some] inv by (simp_all add: order_inv_def)
    have sub: "subseq (captured s @ [?h]) (tl (stored s) @ [?h])"
      using inv by (simp add: order_inv_def)
    from inv have "stored s \<noteq> []" "taken s @ contents (capture_to_encode (pl s)) = stored s"
      by (simp_all add: order_inv_def)
    with r inv Some id sub show ?thesis
      by (simp add: capture_step_def capture_iteration_def order_inv_def Let_def case_prod_beta push_log_def
          nth_append less_Suc_eq append_assoc [symmetric] del: append_assoc)
  qed
qed

lemma order_inv_encode: "order_inv bench s \<Longrightarrow> order_inv bench (encode_step s)"
proof -
  assume inv: "order_inv bench s"
  let ?r = "capture_to_encode (pl s)" and ?q = "encode_to_net (pl s)"
  have rq: "ring_ok 16 ?r" "ring_ok 16 ?q" using inv by (simp_all add: order_inv_def)
  show ?thesis
  proof (cases "pop ?r")
    case None
    with inv show ?thesis
      by (simp add: encode_step_def encode_iteration_def popped_front_def order_inv_def)
  next
    case (Some hr)
    then obtain h r where hr: "pop ?r = Some (h, r)" by (cases hr) simp
    have r: "ring_ok 16 r" "contents ?r = h # contents r" using ring16.pop_some [OF rq(1) hr] by simp_all
    have sub: "subseq (delivered s @ contents ?q) (encoded s @ [h])"
      "subseq (delivered s @ contents ?q @ [h]) (encoded s @ [h])" "subseq (encoded s @ [h]) (taken s @ [h])"
      using inv list_emb_append_mono [of "(=)" "delivered s @ contents ?q" "encoded s" "[h]" "[h]"]
      by (auto simp: order_inv_def intro: subseq_order.order_trans)
    show ?thesis
    proof (cases "push ?q h")
      case None
      with inv hr r sub show ?thesis
        by (simp add: encode_step_def encode_iteration_def popped_front_def order_inv_def Let_def)
    next
      case (Some q)
      with ring16.push_some [OF rq(2) Some] inv hr r sub show ?thesis
        by (simp add: encode_step_def encode_iteration_def popped_front_def order_inv_def Let_def)
    qed
  qed
qed

lemma order_inv_network:
  assumes "order_inv bench s" and "network_step c f t0 t1 sent seq s = Some s'"
  shows "order_inv bench s'"
proof -
  let ?q = "encode_to_net (pl s)"
  have rq: "ring_ok 16 ?q" using assms(1) by (simp add: order_inv_def)
  show ?thesis
  proof (cases "pop ?q")
    case None
    with assms show ?thesis
      by (auto simp: network_step_def network_iteration_def popped_front_def order_inv_def)
  next
    case (Some hr)
    then obtain h r where hr: "pop ?q = Some (h, r)" by (cases hr) simp
    with ring16.pop_some [OF rq hr] assms show ?thesis
      by (auto simp: network_step_def network_iteration_def popped_front_def order_inv_def Let_def
          split: option.splits if_splits)
  qed
qed

lemma order_inv_bench_push: "order_inv True s \<Longrightarrow> order_inv True (bench_push_step a d i t3 s)"
proof -
  assume inv: "order_inv True s"
  let ?h = "fst (capture_frame_zero_copy a d (of_nat (i mod 4)) (of_nat i) t3 (frame_pool (pl s)))"
  show ?thesis
  proof (cases "push (capture_to_encode (pl s)) ?h")
    case None
    with inv show ?thesis
      by (simp add: bench_push_step_def bench_push_def core0_push_def order_inv_def Let_def case_prod_beta push_log_def)
  next
    case (Some r)
    have r: "ring_ok 16 r" "contents r = contents (capture_to_encode (pl s)) @ [?h]"
      using ring16.push_some [OF _ Some] inv by (simp_all add: order_inv_def)
    from inv have "stored s \<noteq> []" "taken s @ contents (capture_to_encode (pl s)) = stored s"
      "subseq (captured s) (tl (stored s) @ [?h])"
      by (auto simp: order_inv_def)
    with r inv Some show ?thesis
      by (simp add: bench_push_step_def bench_push_def core0_push_def order_inv_def Let_def case_prod_beta
          push_log_def append_assoc [symmetric] del: append_assoc)
  qed
qed

lemma order_inv_bench_pop: "order_inv True s \<Longrightarrow> order_inv True (bench_pop_step s)"
proof -
  assume inv: "order_inv True s"
  let ?r = "capture_to_encode (pl s)"
  show ?thesis
  proof (cases "pop ?r")
    case None
    with inv show ?thesis by (simp add: bench_pop_step_def bench_pop_def popped_front_def order_inv_def)
  next
    case (Some hr)
    then obtain h r where hr: "pop ?r = Some (h, r)" by (cases hr) simp
    have "ring_ok 16 r" "contents ?r = h # contents r"
      using ring16.pop_some [OF _ hr] inv by (simp_all add: order_inv_def)
    with hr inv show ?thesis
      by (auto simp: bench_pop_step_def bench_pop_def popped_front_def order_inv_def)
  qed
qed

lemma pipe_reach_order: "pipe_reach bench s \<Longrightarrow> order_inv bench s"
proof (induction rule: pipe_reach.induct)
  case (slots s pool)
  then show ?case by (simp add: order_inv_def)
qed (simp_all add: order_inv_init order_inv_capture order_inv_encode order_inv_network order_inv_bench_push
    order_inv_bench_pop)

section \<open>Slots\<close>

text \<open>While core 0 leaves the slots alone after the boot frame.\<close>

definition slot_inv :: "pipe_run \<Rightarrow> bool" where
  "slot_inv s \<longleftrightarrow>
     length (frame_pool (pl s)) = 4 \<and> (\<forall>k<4. length (frame_pool (pl s) ! k) = 65536) \<and>
     cap_slot_id (pl s) = of_nat (length (captured s) mod 4) \<and>
     (\<forall>i < length (captured s). slot_id (captured s ! i) = of_nat (i mod 4)) \<and>
     (\<forall>i < length (captured s). length (captured s) \<le> i + 3 \<longrightarrow>
        take 4 (frame_pool (pl s) ! (i mod 4)) = to_le 4 (frame_id (captured s ! i)) \<and>
        crc32 (captured s ! i) = compute_crc32 (take 4096 (frame_pool (pl s) ! (i mod 4))))"

lemma low_byte: "(ucast (x AND 0xFF :: u64) :: u8) = ucast x"
  by (rule bit_word_eqI) (simp add: and_0xFF bit_simps)

lemma length_fill_pattern [simp]: "length (fill_pattern fid slot) = length slot"
  by (simp add: fill_pattern_def)

lemma take_fill_pattern:
  assumes "4 \<le> length slot"
  shows "take 4 (fill_pattern fid slot) = to_le 4 fid"
proof -
  obtain a b c d r where "slot = a # b # c # d # r"
    using assms by (auto simp: numeral_eq_Suc Suc_le_length_iff)
  then show ?thesis
    by (simp add: fill_pattern_def to_le_def low_byte numeral_eq_Suc)
qed

lemma unat_slot: "unat (of_nat (n mod 4) :: u8) = n mod 4"
proof -
  have "n mod 4 < 4" by simp
  then have "n mod 4 < 256" by linarith
  then show ?thesis by (simp add: unat_of_nat)
qed

lemma slot_inv_init: "slot_inv (run_init addr d vb)"
proof -
  have "length (FRAME_POOL ! k) = 65536" if "k < 4" for k
  proof -
    from that consider "k = 0" | "k = 1" | "k = 2" | "k = 3" by linarith
    then show ?thesis by cases (simp_all add: FRAME_POOL_def)
  qed
  moreover have "length FRAME_POOL = 4" by (simp add: FRAME_POOL_def)
  ultimately show ?thesis
    by (auto simp: slot_inv_def run_init_def boot_frame_def core0_push_def pipeline_init_def
        capture_frame_zero_copy_def Let_def nth_list_update split: option.split)
qed

lemma slot_inv_capture: "slot_inv s \<Longrightarrow> slot_inv (capture_step f a v d s)"
proof -
  assume inv: "slot_inv s"
  let ?n = "length (captured s)" and ?p = "frame_pool (pl s)"
  let ?slot = "fill_pattern (cap_frame_seq (pl s)) (?p ! (?n mod 4))"
  let ?pool = "?p[?n mod 4 := ?slot]"
  let ?h = "fst (capture_frame_zero_copy a d (cap_slot_id (pl s)) (cap_frame_seq (pl s)) v ?p)"
  have l: "length ?p = 4" "\<And>k. k < 4 \<Longrightarrow> length (?p ! k) = 65536" and c: "cap_slot_id (pl s) = of_nat (?n mod 4)"
    using inv by (simp_all add: slot_inv_def)
  have cap: "snd (capture_frame_zero_copy a d (cap_slot_id (pl s)) (cap_frame_seq (pl s)) v ?p) = ?pool"
    and hs: "slot_id ?h = of_nat (?n mod 4)" and hi: "frame_id ?h = cap_frame_seq (pl s)"
    and hc: "crc32 ?h = compute_crc32 (take 4096 ?slot)"
    using l by (simp_all add: capture_frame_zero_copy_def Let_def c unat_slot)
  have pool4: "length ?pool = 4" "\<forall>k<4. length (?pool ! k) = 65536"
    using l by (simp_all add: nth_list_update)
  have new: "?pool ! (?n mod 4) = ?slot" "take 4 ?slot = to_le 4 (frame_id ?h)"
    using l by (simp_all add: take_fill_pattern hi)
  have old: "?pool ! (i mod 4) = ?p ! (i mod 4)" if "i < ?n" "?n \<le> i + 3" for i
  proof -
    have "i mod 4 \<noteq> ?n mod 4" using mod_eq_imp [of i 4 ?n] that by auto
    then show ?thesis by simp
  qed
  show ?thesis
  proof (cases "push (capture_to_encode (pl s)) ?h")
    case None
    with inv cap pool4 old show ?thesis
      by (simp add: capture_step_def capture_iteration_def slot_inv_def Let_def case_prod_beta push_log_def)
  next
    case (Some r)
    have "(unat (cap_slot_id (pl s)) + 1) mod 4 = Suc ?n mod 4" by (simp add: c unat_slot mod_simps)
    with Some inv cap pool4 old new hs hc show ?thesis
      by (simp add: capture_step_def capture_iteration_def slot_inv_def Let_def case_prod_beta push_log_def
          nth_append less_Suc_eq)
  qed
qed

lemma slot_inv_encode: "slot_inv s \<Longrightarrow> slot_inv (encode_step s)"
  by (auto simp: slot_inv_def encode_step_def encode_iteration_def Let_def split: option.split)

lemma slot_inv_network: "slot_inv s \<Longrightarrow> network_step c f t0 t1 sent seq s = Some s' \<Longrightarrow> slot_inv s'"
  by (auto simp: slot_inv_def network_step_def network_iteration_def Let_def split: option.splits if_splits)

lemma pipe_reach_slots: "pipe_reach False s \<Longrightarrow> slot_inv s"
  by (induction rule: pipe_reach.induct)
    (simp_all add: slot_inv_init slot_inv_capture slot_inv_encode slot_inv_network)

section \<open>Properties\<close>


text \<open>Captures alone, while nothing is consumed.\<close>

primrec captures :: "nat \<Rightarrow> pipe_run" where
  "captures 0 = run_init (\<lambda>_. 0) 0 0"
| "captures (Suc n) = capture_step 1 (\<lambda>_. 0) 0 0 (captures n)"

lemma captures_reach: "pipe_reach bench (captures n)"
  by (induction n) (simp_all add: pipe_reach.intros)

lemma captures_log: "n \<le> 15 \<Longrightarrow> length (captured (captures n)) = n \<and> taken (captures n) = []"
proof (induction n)
  case 0
  then show ?case by (simp add: run_init_def)
next
  case (Suc n)
  let ?s = "captures n"
  have inv: "order_inv False ?s" by (rule pipe_reach_order [OF captures_reach])
  then have "length (contents (capture_to_encode (pl ?s))) = length (stored ?s)"
    and "length (captured ?s) = length (stored ?s) - 1"
    using Suc by (auto simp: order_inv_def)
  then have "length (contents (capture_to_encode (pl ?s))) < 16" using Suc by simp
  then have "push (capture_to_encode (pl ?s)) h \<noteq> None" for h
    using ring16.push_ok [of "capture_to_encode (pl ?s)" h] inv by (auto simp: order_inv_def)
  with Suc show ?case by (simp add: capture_step_def Let_def push_log_def)
qed

lemma captured_run:
  assumes "n \<le> 15"
  obtains s where "pipe_reach False s" "length (captured s) = n" "taken s = []"
  using captures_reach [of False n] captures_log [OF assms] that by blast


text \<open>
  The three most recent captured frames are intact: their slots still hold the frame
  number in the first four bytes, and the checksum in the handle is that of the slot's first
  4096 bytes, whatever the other cores do meanwhile and while core 0 does not write to the slots.
\<close>

theorem recent_frames_intact:
  assumes "pipe_reach False s" and "i < length (captured s)" and "length (captured s) \<le> i + 3"
  shows "let h = captured s ! i; d = get_frame_slot_data (frame_pool (pl s)) (slot_id h)
    in take 4 d = to_le 4 (frame_id h) \<and> crc32 h = compute_crc32 (take 4096 d)"
  using pipe_reach_slots [OF assms(1)] assms(2,3)
  by (simp add: slot_inv_def get_frame_slot_data_def unat_slot)

theorem recent_frames_intact_witness:
  "\<exists>s. pipe_reach False s \<and> captured s \<noteq> [] \<and>
     take 4 (get_frame_slot_data (frame_pool (pl s)) (slot_id (captured s ! 0))) = to_le 4 (frame_id (captured s ! 0))"
proof -
  obtain s where r: "pipe_reach False s" and l: "length (captured s) = 1"
    using captured_run [of 1] by auto
  from recent_frames_intact [OF r, of 0] l r show ?thesis
    by (intro exI [of _ s]) (auto simp: Let_def)
qed

text \<open>
  Handles outlive their frames: the rings let 16 handles wait each, while only four slots
  exist, so a handle can wait in the ring whose slot already holds a later frame.
\<close>

theorem stale_frame_in_flight:
  "\<exists>s. pipe_reach False s \<and> (\<exists>h \<in> set (contents (capture_to_encode (pl s))).
     take 4 (get_frame_slot_data (frame_pool (pl s)) (slot_id h)) \<noteq> to_le 4 (frame_id h))"
proof -
  obtain s where r: "pipe_reach False s" and l: "length (captured s) = 5" "taken s = []"
    using captured_run [of 5] by auto
  have o: "tl (contents (capture_to_encode (pl s))) = captured s"
    "\<And>i. i < 5 \<Longrightarrow> frame_id (captured s ! i) = of_nat i"
    using pipe_reach_order [OF r] l by (auto simp: order_inv_def)
  have s: "slot_id (captured s ! 0) = 0" "take 4 (frame_pool (pl s) ! 0) = to_le 4 (frame_id (captured s ! 4))"
  proof -
    have inv: "slot_inv s" by (rule pipe_reach_slots [OF r])
    then have "\<forall>i<5. slot_id (captured s ! i) = of_nat (i mod 4)"
      and "\<forall>i<5. 5 \<le> i + 3 \<longrightarrow> take 4 (frame_pool (pl s) ! (i mod 4)) = to_le 4 (frame_id (captured s ! i))"
      using l by (simp_all add: slot_inv_def)
    from this(1) [rule_format, of 0] this(2) [rule_format, of 4]
    show "slot_id (captured s ! 0) = 0" "take 4 (frame_pool (pl s) ! 0) = to_le 4 (frame_id (captured s ! 4))"
      by simp_all
  qed
  have "to_le 4 (4 :: u64) \<noteq> to_le 4 (0 :: u64)"
    by (simp add: to_le_def upt_rec)
  then have "take 4 (get_frame_slot_data (frame_pool (pl s)) (slot_id (captured s ! 0))) \<noteq>
      to_le 4 (frame_id (captured s ! 0))"
    using s o(2) [of 0] o(2) [of 4] by (simp add: get_frame_slot_data_def)
  moreover have "captured s ! 0 \<in> set (contents (capture_to_encode (pl s)))"
  proof -
    have "captured s ! 0 \<in> set (captured s)" using l(1) by (intro nth_mem) simp
    then show ?thesis using o(1) by (metis list.set_sel(2) tl_Nil)
  qed
  ultimately show ?thesis using r by blast
qed

end
