(* ===== verification/Crypto.thy ===== *)
theory Crypto
  imports Prelude
begin

text \<open>
  The cipher of the stream (\<^verbatim>\<open>kernel/src/crypto.rs\<close>): the AES-128 key schedule and block
  encryption, the GHASH multiplication on two 64-bit halves, and AES-128-GCM encryption. The
  arrays of the code have a fixed length, which the lemmas state.
\<close>

section \<open>Key schedule\<close>

record Aes128Key =
  round_keys :: "u32 list"
  hash_key :: "u8 list"

text \<open>\<open>ecx\<close> is the feature register of \<^verbatim>\<open>cpuid\<close> leaf 1.\<close>

definition check_crypto_cpu_support :: "u32 \<Rightarrow> (str, unit) outcome" where
  "check_crypto_cpu_support ecx =
     (let has_aesni = ecx AND push_bit 25 1 \<noteq> 0;
          has_pclmul = ecx AND push_bit 1 1 \<noteq> 0
      in if \<not> has_aesni then Err (bytes ''CPUID error: AES-NI hardware instruction set (ECX bit 25) is not supported.'')
         else if \<not> has_pclmul then Err (bytes ''CPUID error: PCLMULQDQ hardware instruction set (ECX bit 1) is not supported.'')
         else Ok ())"

definition RCON :: "u32 list" where
  "RCON = [0x01000000, 0x02000000, 0x04000000, 0x08000000, 0x10000000,
           0x20000000, 0x40000000, 0x80000000, 0x1B000000, 0x36000000]"

definition SBOX :: "u8 list" where
  "SBOX =
     [0x63, 0x7c, 0x77, 0x7b, 0xf2, 0x6b, 0x6f, 0xc5, 0x30, 0x01, 0x67, 0x2b, 0xfe, 0xd7, 0xab, 0x76,
      0xca, 0x82, 0xc9, 0x7d, 0xfa, 0x59, 0x47, 0xf0, 0xad, 0xd4, 0xa2, 0xaf, 0x9c, 0xa4, 0x72, 0xc0,
      0xb7, 0xfd, 0x93, 0x26, 0x36, 0x3f, 0xf7, 0xcc, 0x34, 0xa5, 0xe5, 0xf1, 0x71, 0xd8, 0x31, 0x15,
      0x04, 0xc7, 0x23, 0xc3, 0x18, 0x96, 0x05, 0x9a, 0x07, 0x12, 0x80, 0xe2, 0xeb, 0x27, 0xb2, 0x75,
      0x09, 0x83, 0x2c, 0x1a, 0x1b, 0x6e, 0x5a, 0xa0, 0x52, 0x3b, 0xd6, 0xb3, 0x29, 0xe3, 0x2f, 0x84,
      0x53, 0xd1, 0x00, 0xed, 0x20, 0xfc, 0xb1, 0x5b, 0x6a, 0xcb, 0xbe, 0x39, 0x4a, 0x4c, 0x58, 0xcf,
      0xd0, 0xef, 0xaa, 0xfb, 0x43, 0x4d, 0x33, 0x85, 0x45, 0xf9, 0x02, 0x7f, 0x50, 0x3c, 0x9f, 0xa8,
      0x51, 0xa3, 0x40, 0x8f, 0x92, 0x9d, 0x38, 0xf5, 0xbc, 0xb6, 0xda, 0x21, 0x10, 0xff, 0xf3, 0xd2,
      0xcd, 0x0c, 0x13, 0xec, 0x5f, 0x97, 0x44, 0x17, 0xc4, 0xa7, 0x7e, 0x3d, 0x64, 0x5d, 0x19, 0x73,
      0x60, 0x81, 0x4f, 0xdc, 0x22, 0x2a, 0x90, 0x88, 0x46, 0xee, 0xb8, 0x14, 0xde, 0x5e, 0x0b, 0xdb,
      0xe0, 0x32, 0x3a, 0x0a, 0x49, 0x06, 0x24, 0x5e, 0xc2, 0xd3, 0xac, 0x62, 0x91, 0x95, 0xe4, 0x79,
      0xe7, 0xc8, 0x37, 0x6d, 0x8d, 0xd5, 0x4e, 0xa9, 0x6c, 0x56, 0xf4, 0xea, 0x65, 0x7a, 0xae, 0x08,
      0xba, 0x78, 0x25, 0x2e, 0x1c, 0xa6, 0xb4, 0xc6, 0xe8, 0xdd, 0x74, 0x1f, 0x4b, 0xbd, 0x8b, 0x8a,
      0x70, 0x3e, 0xb5, 0x66, 0x48, 0x03, 0xf6, 0x0e, 0x61, 0x35, 0x57, 0xb9, 0x86, 0xc1, 0x1d, 0x9e,
      0xe1, 0xf8, 0x98, 0x11, 0x69, 0xd9, 0x8e, 0x94, 0x9b, 0x1e, 0x87, 0xe9, 0xce, 0x55, 0x28, 0xdf,
      0x8c, 0xa1, 0x89, 0x0d, 0xbf, 0xe6, 0x42, 0x68, 0x41, 0x99, 0x2d, 0x0f, 0xb0, 0x54, 0xbb, 0x16]"

definition sub_word :: "u32 \<Rightarrow> u32" where
  "sub_word w =
     (let b0 = ucast (SBOX ! unat (drop_bit 24 w AND 0xFF));
          b1 = ucast (SBOX ! unat (drop_bit 16 w AND 0xFF));
          b2 = ucast (SBOX ! unat (drop_bit 8 w AND 0xFF));
          b3 = ucast (SBOX ! unat (w AND 0xFF))
      in push_bit 24 b0 OR push_bit 16 b1 OR push_bit 8 b2 OR b3)"

definition rot_word :: "u32 \<Rightarrow> u32" where
  "rot_word w = word_rotl 8 w"

definition key_word :: "u8 list \<Rightarrow> nat \<Rightarrow> u32" where
  "key_word key i =
     push_bit 24 (ucast (key ! (4 * i))) OR push_bit 16 (ucast (key ! (4 * i + 1))) OR
     push_bit 8 (ucast (key ! (4 * i + 2))) OR ucast (key ! (4 * i + 3))"

definition expand_step :: "nat \<Rightarrow> u32 list \<Rightarrow> u32 list" where
  "expand_step i w =
     (let temp = w ! (i - 1);
          temp = (if i mod 4 = 0 then sub_word (rot_word temp) XOR RCON ! (i div 4 - 1) else temp)
      in w[i := w ! (i - 4) XOR temp])"

definition expand_key :: "u8 list \<Rightarrow> u32 list" where
  "expand_key key =
     (let w = map (key_word key) [0..<4] @ replicate 40 0
      in fold expand_step [4..<44] w)"

section \<open>Block encryption\<close>

definition xor_word :: "u32 \<Rightarrow> nat \<Rightarrow> u8 list \<Rightarrow> u8 list" where
  "xor_word rk i state =
     state[4 * i := state ! (4 * i) XOR ucast (drop_bit 24 rk),
           4 * i + 1 := state ! (4 * i + 1) XOR ucast (drop_bit 16 rk),
           4 * i + 2 := state ! (4 * i + 2) XOR ucast (drop_bit 8 rk),
           4 * i + 3 := state ! (4 * i + 3) XOR ucast rk]"

definition add_round_key :: "u32 list \<Rightarrow> nat \<Rightarrow> u8 list \<Rightarrow> u8 list" where
  "add_round_key rks base state = fold (\<lambda>i. xor_word (rks ! (base + i)) i) [0..<4] state"

definition sub_bytes :: "u8 list \<Rightarrow> u8 list" where
  "sub_bytes state = map (\<lambda>b. SBOX ! unat b) state"

definition shift_rows :: "u8 list \<Rightarrow> u8 list" where
  "shift_rows s =
     s[1 := s ! 5, 5 := s ! 9, 9 := s ! 13, 13 := s ! 1,
       2 := s ! 10, 6 := s ! 14, 10 := s ! 2, 14 := s ! 6,
       15 := s ! 11, 11 := s ! 7, 7 := s ! 3, 3 := s ! 15]"

definition g2 :: "u8 \<Rightarrow> u8" where
  "g2 a = push_bit 1 a XOR (if a AND 0x80 \<noteq> 0 then 0x1B else 0)"

definition mix_column :: "nat \<Rightarrow> u8 list \<Rightarrow> u8 list" where
  "mix_column c s =
     (let a0 = s ! (4 * c); a1 = s ! (4 * c + 1); a2 = s ! (4 * c + 2); a3 = s ! (4 * c + 3)
      in s[4 * c := g2 a0 XOR g2 a1 XOR a1 XOR a2 XOR a3,
           4 * c + 1 := a0 XOR g2 a1 XOR g2 a2 XOR a2 XOR a3,
           4 * c + 2 := a0 XOR a1 XOR g2 a2 XOR g2 a3 XOR a3,
           4 * c + 3 := g2 a0 XOR a0 XOR a1 XOR a2 XOR g2 a3])"

definition mix_columns :: "u8 list \<Rightarrow> u8 list" where
  "mix_columns s = fold mix_column [0..<4] s"

definition main_round :: "u32 list \<Rightarrow> nat \<Rightarrow> u8 list \<Rightarrow> u8 list" where
  "main_round rks round state =
     add_round_key rks (4 * round) (mix_columns (shift_rows (sub_bytes state)))"

definition encrypt_block :: "Aes128Key \<Rightarrow> u8 list \<Rightarrow> u8 list" where
  "encrypt_block key block =
     (let rks = round_keys key;
          state = add_round_key rks 0 block;
          state = fold (main_round rks) [1..<10] state
      in add_round_key rks 40 (shift_rows (sub_bytes state)))"

definition Aes128Key_new :: "u8 list \<Rightarrow> Aes128Key" where
  "Aes128Key_new key =
     (let key_obj = \<lparr>round_keys = expand_key key, hash_key = replicate 16 0\<rparr>
      in key_obj\<lparr>hash_key := encrypt_block key_obj (replicate 16 0)\<rparr>)"

section \<open>GHASH\<close>

text \<open>One bit of the multiplication: \<open>z\<close> and \<open>v\<close> as their high and low 64 bits.\<close>

fun ghash_bit :: "bool \<Rightarrow> u64 \<times> u64 \<times> u64 \<times> u64 \<Rightarrow> u64 \<times> u64 \<times> u64 \<times> u64" where
  "ghash_bit b (z0, z1, v0, v1) =
     (let z0' = (if b then z0 XOR v0 else z0);
          z1' = (if b then z1 XOR v1 else z1);
          lsb = v1 AND 1;
          v1' = drop_bit 1 v1 OR push_bit 63 (v0 AND 1);
          v0' = drop_bit 1 v0;
          v0' = (if lsb \<noteq> 0 then v0' XOR 0xE100000000000000 else v0')
      in (z0', z1', v0', v1'))"

definition bits_msb :: "u8 list \<Rightarrow> bool list" where
  "bits_msb x = concat (map (\<lambda>b. map (\<lambda>i. drop_bit i b AND 1 \<noteq> 0) (rev [0..<8])) x)"

definition ghash_multiply :: "u8 list \<Rightarrow> u8 list \<Rightarrow> u8 list" where
  "ghash_multiply x y =
     (let (z0, z1, v0, v1) =
            fold ghash_bit (bits_msb x) (0, 0, from_be (sub_slice 0 8 y), from_be (sub_slice 8 8 y))
      in to_be 8 z0 @ to_be 8 z1)"

section \<open>AES-128-GCM\<close>

text \<open>The counter mode loop: one key stream block per 16 bytes of the payload.\<close>

function ctr_crypt :: "Aes128Key \<Rightarrow> u8 list \<Rightarrow> u32 \<Rightarrow> u8 list \<Rightarrow> u8 list" where
  "ctr_crypt key j0 ctr_val payload =
     (if payload = [] then []
      else let ctr_val = ctr_val + 1;
               ks = encrypt_block key (copy_at 12 (to_be 4 ctr_val) j0);
               chunk = min 16 (length payload)
           in map2 (XOR) (take chunk payload) (take chunk ks) @
              ctr_crypt key j0 ctr_val (drop chunk payload))"
  by pat_completeness auto
termination
  by (relation "measure (\<lambda>(k, j, c, p). length p)") (auto simp: Let_def)

declare ctr_crypt.simps [simp del]

definition xor_block :: "u8 list \<Rightarrow> u8 list \<Rightarrow> u8 list" where
  "xor_block a b = map2 (XOR) a b"

function ghash_blocks :: "u8 list \<Rightarrow> u8 list \<Rightarrow> u8 list \<Rightarrow> u8 list" where
  "ghash_blocks h ghash_state data =
     (if data = [] then ghash_state
      else let chunk = min 16 (length data);
               block = copy_at 0 (take chunk data) (replicate 16 0)
           in ghash_blocks h (ghash_multiply (xor_block ghash_state block) h) (drop chunk data))"
  by pat_completeness auto
termination
  by (relation "measure (\<lambda>(h, g, d). length d)") (auto simp: Let_def)

declare ghash_blocks.simps [simp del]

definition aes_128_gcm_encrypt :: "Aes128Key \<Rightarrow> u8 list \<Rightarrow> u8 list \<Rightarrow> u8 list \<Rightarrow> u8 list \<times> u8 list" where
  "aes_128_gcm_encrypt key iv aad payload =
     (let h = hash_key key;
          j0 = iv @ [0, 0, 0, 1];
          ek0 = encrypt_block key j0;
          payload = ctr_crypt key j0 1 payload;
          ghash_state = ghash_blocks h (replicate 16 0) aad;
          ghash_state = ghash_blocks h ghash_state payload;
          aad_bits = (of_nat (length aad) * 8 :: u64);
          ct_bits = (of_nat (length payload) * 8 :: u64);
          s = ghash_multiply (xor_block ghash_state (to_be 8 aad_bits @ to_be 8 ct_bits)) h
      in (payload, xor_block s ek0))"

section \<open>Lengths\<close>

lemma length_SBOX [simp]: "length SBOX = 256"
  by (simp add: SBOX_def)

lemma length_fold_const:
  "(\<And>i s. length (f i s) = length s) \<Longrightarrow> length (fold f is s) = length s"
  by (induction "is" arbitrary: s) auto

lemma length_expand_key [simp]: "length (expand_key key) = 44"
proof -
  have "length (fold expand_step is w) = length w" for "is" w
    by (rule length_fold_const) (simp add: expand_step_def Let_def)
  then show ?thesis by (simp add: expand_key_def Let_def del: upt_rec_numeral)
qed

lemma length_xor_word [simp]: "length (xor_word rk i s) = length s"
  by (simp add: xor_word_def)

lemma length_add_round_key [simp]: "length (add_round_key rks b s) = length s"
  unfolding add_round_key_def by (rule length_fold_const) simp

lemma length_sub_bytes [simp]: "length (sub_bytes s) = length s"
  by (simp add: sub_bytes_def)

lemma length_shift_rows [simp]: "length (shift_rows s) = length s"
  by (simp add: shift_rows_def)

lemma length_mix_columns [simp]: "length (mix_columns s) = length s"
  unfolding mix_columns_def by (rule length_fold_const) (simp add: mix_column_def Let_def)

lemma length_main_round [simp]: "length (main_round rks r s) = length s"
  by (simp add: main_round_def)

lemma length_encrypt_block [simp]: "length (encrypt_block key block) = length block"
  unfolding encrypt_block_def Let_def
  by (simp add: length_fold_const [of "main_round (round_keys key)"] del: upt_rec_numeral)

lemma length_ghash_multiply [simp]: "length (ghash_multiply x y) = 16"
  by (simp add: ghash_multiply_def split: prod.splits)

lemma length_ctr_crypt [simp]:
  "length j0 = 16 \<Longrightarrow> length (ctr_crypt key j0 c p) = length p"
proof (induction key j0 c p rule: ctr_crypt.induct)
  case (1 key j0 c p)
  show ?case
  proof (cases "p = []")
    case False
    with 1 show ?thesis by (subst ctr_crypt.simps) (auto simp: Let_def)
  qed (simp add: ctr_crypt.simps)
qed

lemma length_ghash_blocks [simp]: "length g = 16 \<Longrightarrow> length (ghash_blocks h g d) = 16"
proof (induction h g d rule: ghash_blocks.induct)
  case (1 h g d)
  show ?case
  proof (cases "d = []")
    case False
    with 1 show ?thesis by (subst ghash_blocks.simps) (auto simp: Let_def)
  qed (simp add: ghash_blocks.simps 1)
qed

section \<open>Counter mode\<close>

text \<open>Byte \<open>i\<close> of the key stream after counter value \<open>c\<close>.\<close>

definition ks_byte :: "Aes128Key \<Rightarrow> u8 list \<Rightarrow> u32 \<Rightarrow> nat \<Rightarrow> u8" where
  "ks_byte key j0 c i = encrypt_block key (copy_at 12 (to_be 4 (c + 1 + of_nat (i div 16))) j0) ! (i mod 16)"

lemma ctr_crypt_nth:
  "length j0 = 16 \<Longrightarrow> i < length p \<Longrightarrow> ctr_crypt key j0 c p ! i = p ! i XOR ks_byte key j0 c i"
proof (induction key j0 c p arbitrary: i rule: ctr_crypt.induct)
  case (1 key j0 c p)
  let ?ks = "encrypt_block key (copy_at 12 (to_be 4 (c + 1)) j0)"
  have ne: "p \<noteq> []" and ks: "length ?ks = 16" using 1 by auto
  have eq: "ctr_crypt key j0 c p =
      map2 (XOR) (take 16 p) ?ks @ ctr_crypt key j0 (c + 1) (drop 16 p)"
    using ne ks by (subst ctr_crypt.simps) (auto simp: Let_def min_def intro: nth_equalityI)
  show ?case
  proof (cases "i < 16")
    case True
    with 1 ks show ?thesis by (simp add: eq nth_append ks_byte_def)
  next
    case False
    then have i: "i div 16 = Suc ((i - 16) div 16)" "i mod 16 = (i - 16) mod 16"
      by (simp_all add: le_div_geq le_mod_geq)
    have "ctr_crypt key j0 (c + 1) (drop 16 p) ! (i - 16) =
        drop 16 p ! (i - 16) XOR ks_byte key j0 (c + 1) (i - 16)"
    proof (cases "length p \<le> 16")
      case False
      with 1 ne \<open>\<not> i < 16\<close> show ?thesis by auto
    qed (use 1 \<open>\<not> i < 16\<close> in auto)
    with False 1 ks show ?thesis
      by (simp add: eq nth_append ks_byte_def i ac_simps)
  qed
qed

lemma ctr_crypt_involution:
  "length j0 = 16 \<Longrightarrow> ctr_crypt key j0 c (ctr_crypt key j0 c p) = p"
  by (rule nth_equalityI) (simp_all add: ctr_crypt_nth ac_simps)

lemma gcm_payload: "fst (aes_128_gcm_encrypt key iv aad p) = ctr_crypt key (iv @ [0, 0, 0, 1]) 1 p"
  by (simp add: aes_128_gcm_encrypt_def Let_def)

lemma length_gcm_tag:
  assumes "length iv = 12"
  shows "length (snd (aes_128_gcm_encrypt key iv aad p)) = 16"
  using assms by (simp add: aes_128_gcm_encrypt_def Let_def xor_block_def)

section \<open>Multiplication in the field\<close>

text \<open>
  The reference: 128-bit blocks as polynomials, the leftmost bit the constant term; \<open>mulx\<close>
  multiplies by the variable.
\<close>

type_synonym block = "128 word"

definition mulx :: "block \<Rightarrow> block" where
  "mulx v = drop_bit 1 v XOR (if bit v 0 then push_bit 120 0xE1 else 0)"

definition gf_mult :: "block \<Rightarrow> block \<Rightarrow> block" where
  "gf_mult x y = fold (\<lambda>i z. if bit x (127 - i) then z XOR (mulx ^^ i) y else z) [0..<128] 0"

definition halves :: "u64 \<Rightarrow> u64 \<Rightarrow> block" where
  "halves a b = push_bit 64 (ucast a) OR ucast b"

lemma bit_halves: "bit (halves a b) n \<longleftrightarrow> (if n < 64 then bit b n else n < 128 \<and> bit a (n - 64))"
  by (auto simp: halves_def bit_simps dest: bit_imp_le_length)

lemma halves_xor: "halves a b XOR halves c d = halves (a XOR c) (b XOR d)"
  by (rule bit_word_eqI) (auto simp: bit_halves bit_xor_iff)

lemma and_1_bit: "(v AND 1 \<noteq> (0 :: 'a::len word)) \<longleftrightarrow> bit v 0"
  by (simp add: and_one_eq odd_iff_mod_2_eq_one bit_0)

lemma mulx_halves:
  "mulx (halves v0 v1) =
   halves (if v1 AND 1 \<noteq> 0 then drop_bit 1 v0 XOR 0xE100000000000000 else drop_bit 1 v0)
          (drop_bit 1 v1 OR push_bit 63 (v0 AND 1))"
proof -
  have shift: "drop_bit 1 (halves v0 v1) = halves (drop_bit 1 v0) (drop_bit 1 v1 OR push_bit 63 (v0 AND 1))"
  proof (rule bit_word_eqI)
    fix n assume n: "n < LENGTH(128)"
    have low: "bit (push_bit 63 (v0 AND 1)) n \<longleftrightarrow> n = 63 \<and> bit v0 0" if "n < 64"
      using that by (simp only: bit_push_bit_iff bit_and_iff bit_1_iff) auto
    consider "n < 63" | "n = 63" | "64 \<le> n" "Suc (n - 64) = n - 63" by linarith
    then show "bit (drop_bit 1 (halves v0 v1)) n = bit (halves (drop_bit 1 v0) (drop_bit 1 v1 OR push_bit 63 (v0 AND 1))) n"
    proof cases
      case 2
      then show ?thesis
        using low by (simp add: bit_drop_bit_eq bit_halves bit_or_iff impossible_bit del: push_bit_and)
    next
      case 3
      with n show ?thesis
        by (auto simp: bit_drop_bit_eq bit_halves not_less dest: bit_imp_le_length)
    qed (use low in \<open>simp add: bit_drop_bit_eq bit_halves bit_or_iff del: push_bit_and\<close>)
  qed
  have red: "(push_bit 120 0xE1 :: block) = halves 0xE100000000000000 0"
    by (simp add: halves_def)
  have "bit (halves v0 v1) 0 \<longleftrightarrow> v1 AND 1 \<noteq> 0"
    by (simp only: and_1_bit) (simp add: bit_halves)
  then show ?thesis
    by (cases "v1 AND 1 = 0")
      (simp_all only: mulx_def shift red halves_xor xor.right_neutral simp_thms if_True if_False)
qed

text \<open>The loop of the code on the pair of halves is the multiplication loop on the block.\<close>

primrec gf_sum :: "bool list \<Rightarrow> block \<Rightarrow> block" where
  "gf_sum [] v = 0"
| "gf_sum (b # bs) v = (if b then v else 0) XOR gf_sum bs (mulx v)"

lemma ghash_fold:
  "fold ghash_bit bs (z0, z1, v0, v1) = (a, b, c, d) \<Longrightarrow>
   halves a b = halves z0 z1 XOR gf_sum bs (halves v0 v1)"
proof (induction bs arbitrary: z0 z1 v0 v1)
  case (Cons x bs)
  then show ?case
    by (cases x) (auto simp: Let_def mulx_halves halves_xor [symmetric] ac_simps simp del: halves_xor)
qed simp

lemma gf_sum_append: "gf_sum (bs @ cs) v = gf_sum bs v XOR gf_sum cs ((mulx ^^ length bs) v)"
  by (induction bs arbitrary: v) (auto simp: ac_simps funpow_swap1)

lemma gf_mult_sum: "gf_mult x y = gf_sum (map (\<lambda>i. bit x (127 - i)) [0..<128]) y"
proof -
  have "fold (\<lambda>i z. if f i then z XOR (mulx ^^ i) y else z) [0..<n] 0 = gf_sum (map f [0..<n]) y"
    for f n
    by (induction n) (auto simp: gf_sum_append)
  then show ?thesis by (simp only: gf_mult_def)
qed

lemma from_le_append: "from_le (a @ b) = (from_le a OR push_bit (8 * length a) (from_le b) :: 'a::len word)"
  by (induction a) (simp_all add: push_bit_or ac_simps push_bit_push_bit)

lemma from_be_append: "from_be (a @ b) = (push_bit (8 * length b) (from_be a) OR from_be b :: 'a::len word)"
  by (simp add: from_be_def from_le_append ac_simps)

lemma bit_from_le_high: "8 * length x \<le> n \<Longrightarrow> \<not> bit (from_le x :: 'a::len word) n"
  by (induction x arbitrary: n) (auto simp: bit_simps dest: bit_imp_le_length)

lemma bit_from_be_high: "8 * length x \<le> n \<Longrightarrow> \<not> bit (from_be x :: 'a::len word) n"
  by (simp add: from_be_def bit_from_le_high)

lemma from_be_Cons: "from_be (b # x) = (push_bit (8 * length x) (ucast b) OR from_be x :: 'a::len word)"
  using from_be_append [of "[b]" x] by (simp add: from_be_def)

lemma bits_msb_from_be:
  "length x \<le> 16 \<Longrightarrow> bits_msb x = map (bit (from_be x :: block)) (rev [0..<8 * length x])"
proof (induction x)
  case (Cons b x)
  let ?n = "8 * length x"
  have "[0..<8 * length (b # x)] = [0..<?n] @ map (\<lambda>i. i + ?n) [0..<8]"
    using upt_add_eq_append [of 0 ?n 8] map_add_upt [of ?n 8] by (simp add: add.commute del: upt_rec_numeral)
  moreover have "map (bit (from_be (b # x) :: block)) (rev [0..<?n]) = map (bit (from_be x :: block)) (rev [0..<?n])"
    by (auto simp: from_be_Cons bit_simps)
  moreover have "map (bit (from_be (b # x) :: block)) (rev (map (\<lambda>i. i + ?n) [0..<8])) =
      map (\<lambda>i. drop_bit i b AND 1 \<noteq> 0) (rev [0..<8])"
    using Cons.prems
    by (auto simp: from_be_Cons bit_simps and_1_bit bit_from_be_high rev_map simp del: upt_rec_numeral
        dest: bit_imp_le_length)
  ultimately show ?case
    using Cons by (simp add: bits_msb_def)
qed (simp add: bits_msb_def)

lemma to_be_halves: "to_be 16 (halves a b) = to_be 8 a @ to_be 8 b"
proof -
  have "to_le 16 (halves a b) = to_le 8 b @ to_le 8 a"
  proof (rule nth_equalityI)
    fix i assume i: "i < length (to_le 16 (halves a b))"
    have "ucast (drop_bit (8 * i) (halves a b)) = (if i < 8 then ucast (drop_bit (8 * i) b) else (ucast (drop_bit (8 * (i - 8)) a) :: u8))"
      using i by (intro bit_word_eqI) (auto simp: bit_simps bit_halves diff_mult_distrib2)
    with i show "to_le 16 (halves a b) ! i = (to_le 8 b @ to_le 8 a) ! i"
      using nth_upt [of 0 "i - 8" 8] by (cases "i < 8") (simp_all add: nth_append to_le_def del: upt_rec_numeral)
  qed simp
  then show ?thesis by (simp add: to_be_def)
qed

lemma from_be_halves:
  assumes "length y = 16"
  shows "halves (from_be (sub_slice 0 8 y)) (from_be (sub_slice 8 8 y)) = from_be y"
proof -
  have "ucast (from_be s :: u64) = (from_be s :: block)" if "length s = 8" for s
  proof -
    have "bit (from_le s :: u64) n \<longleftrightarrow> bit (from_le s :: block) n" if "n < 64" for s n
      using that by (induction s arbitrary: n) (simp_all add: bit_or_iff bit_push_bit_iff bit_unsigned_iff)
    moreover have "\<not> bit (from_be s :: block) n" if "\<not> n < 64" for n
      using bit_from_be_high [of s n] that \<open>length s = 8\<close> by simp
    ultimately have "bit (from_be s :: u64) n \<longleftrightarrow> bit (from_be s :: block) n" for n
      by (cases "n < 64") (simp_all add: from_be_def impossible_bit)
    then show ?thesis
      by (intro bit_word_eqI) (simp add: bit_unsigned_iff)
  qed
  note cast = this [of "take 8 y"] this [of "drop 8 y"]
  have "from_be y = (from_be (take 8 y @ drop 8 y) :: block)" by simp
  also have "\<dots> = push_bit 64 (from_be (take 8 y)) OR from_be (drop 8 y)"
    using assms by (simp only: from_be_append) simp
  finally show ?thesis
    using assms cast by (simp add: halves_def sub_slice_def)
qed

section \<open>The substitution box\<close>

text \<open>
  The S-box of the standard: \<open>gmul\<close> multiplies in the field with 256 elements, and entry
  \<open>a\<close> is the affine image of the inverse of \<open>a\<close> (of zero for zero).
\<close>

definition gmul :: "u8 \<Rightarrow> u8 \<Rightarrow> u8" where
  "gmul a b =
     (let a1 = g2 a; a2 = g2 a1; a3 = g2 a2; a4 = g2 a3; a5 = g2 a4; a6 = g2 a5; a7 = g2 a6
      in (if b AND 0x01 \<noteq> 0 then a else 0) XOR (if b AND 0x02 \<noteq> 0 then a1 else 0) XOR
         (if b AND 0x04 \<noteq> 0 then a2 else 0) XOR (if b AND 0x08 \<noteq> 0 then a3 else 0) XOR
         (if b AND 0x10 \<noteq> 0 then a4 else 0) XOR (if b AND 0x20 \<noteq> 0 then a5 else 0) XOR
         (if b AND 0x40 \<noteq> 0 then a6 else 0) XOR (if b AND 0x80 \<noteq> 0 then a7 else 0))"

definition rotl8 :: "nat \<Rightarrow> u8 \<Rightarrow> u8" where
  "rotl8 n c = push_bit n c OR drop_bit (8 - n) c"

definition affine :: "u8 \<Rightarrow> u8" where
  "affine c = c XOR rotl8 1 c XOR rotl8 2 c XOR rotl8 3 c XOR rotl8 4 c XOR 0x63"

definition inv_affine :: "u8 \<Rightarrow> u8" where
  "inv_affine s = rotl8 1 s XOR rotl8 3 s XOR rotl8 6 s XOR 0x05"

definition aes_sbox_entry :: "u8 \<Rightarrow> u8 \<Rightarrow> bool" where
  "aes_sbox_entry a s =
     (let c = inv_affine s in affine c = s \<and> (if a = 0 then c = 0 else gmul a c = 1))"

definition sbox_range_ok :: "nat \<Rightarrow> nat \<Rightarrow> bool" where
  "sbox_range_ok l n =
     list_all (\<lambda>(a, s). aes_sbox_entry a s) (zip (map of_nat [l..<l + n]) (take n (drop l SBOX)))"

lemma sbox_range:
  assumes "sbox_range_ok l n" and "l \<le> i" and "i < l + n" and "i < 256"
  shows "aes_sbox_entry (of_nat i) (SBOX ! i)"
proof -
  have "(of_nat i, SBOX ! i) \<in> set (zip (map of_nat [l..<l + n]) (take n (drop l SBOX)))"
    using assms(2-4) by (auto simp: in_set_zip intro!: exI [of _ "i - l"])
  with assms(1) show ?thesis by (auto simp: sbox_range_ok_def list_all_iff)
qed

lemma sbox_0: "sbox_range_ok 0 32"
  by code_simp

lemma sbox_32: "sbox_range_ok 32 32"
  by code_simp

lemma sbox_64: "sbox_range_ok 64 32"
  by code_simp

lemma sbox_96: "sbox_range_ok 96 32"
  by code_simp

lemma sbox_128: "sbox_range_ok 128 32"
  by code_simp

lemma sbox_160: "sbox_range_ok 160 7"
  by code_simp

lemma sbox_168: "sbox_range_ok 168 24"
  by code_simp

lemma sbox_192: "sbox_range_ok 192 32"
  by code_simp

lemma sbox_224: "sbox_range_ok 224 32"
  by code_simp

lemma sbox_0xA7: "\<not> aes_sbox_entry 0xA7 (SBOX ! 0xA7)"
  by code_simp

lemma sbox_entry_iff: "aes_sbox_entry a (SBOX ! unat a) \<longleftrightarrow> a \<noteq> 0xA7"
proof (cases "a = 0xA7")
  case True
  then show ?thesis using sbox_0xA7 by simp
next
  case False
  have "unat a \<noteq> unat (0xA7 :: u8)" using False word_unat_eq_iff by metis
  moreover have "unat a < 256" using unsigned_less [of a, where ?'a = nat] by simp
  ultimately have "aes_sbox_entry (of_nat (unat a)) (SBOX ! unat a)"
    using sbox_range [OF sbox_0, of "unat a"] sbox_range [OF sbox_32, of "unat a"] sbox_range [OF sbox_64, of "unat a"] sbox_range [OF sbox_96, of "unat a"] sbox_range [OF sbox_128, of "unat a"] sbox_range [OF sbox_160, of "unat a"] sbox_range [OF sbox_168, of "unat a"] sbox_range [OF sbox_192, of "unat a"] sbox_range [OF sbox_224, of "unat a"]
    by simp linarith
  with False show ?thesis by simp
qed

text \<open>The S-box agrees with the AES standard at every entry but one: at \<open>0xA7\<close> it holds
  \<open>0x5E\<close> where the standard has \<open>0x5C\<close>.\<close>

theorem sbox_deviates: "aes_sbox_entry a (SBOX ! unat a) \<longleftrightarrow> a \<noteq> 0xA7"
  by (rule sbox_entry_iff)

text \<open>The first byte of the state after the first round key.\<close>

lemma add_round_key_head:
  assumes "length s = 16"
  shows "add_round_key rks b (s[0 := x]) = (add_round_key rks b s)[0 := x XOR ucast (drop_bit 24 (rks ! b))]"
proof -
  obtain a0 a1 a2 a3 a4 a5 a6 a7 a8 a9 a10 a11 a12 a13 a14 a15
    where "s = [a0, a1, a2, a3, a4, a5, a6, a7, a8, a9, a10, a11, a12, a13, a14, a15]"
    using assms by (auto simp: numeral_eq_Suc length_Suc_conv)
  moreover have "[0..<4] = [0, 1, 2, 3 :: nat]" by (simp add: upt_rec)
  ultimately show ?thesis by (simp add: add_round_key_def xor_word_def)
qed

text \<open>Because of the repeated entry the block cipher is not a permutation: under every key
  two different blocks have the same encryption.\<close>

theorem encrypt_block_collides:
  "\<exists>b1 b2. length b1 = 16 \<and> length b2 = 16 \<and> b1 \<noteq> b2 \<and> encrypt_block key b1 = encrypt_block key b2"
proof -
  let ?rk = "ucast (drop_bit 24 (round_keys key ! 0)) :: u8"
  let ?b = "\<lambda>x. (replicate 16 0)[0 := x XOR ?rk]"
  let ?s = "add_round_key (round_keys key) 0 (replicate 16 0)"
  have h: "add_round_key (round_keys key) 0 (?b x) = ?s[0 := x]" for x
    by (subst add_round_key_head) (simp_all only: length_replicate xor.assoc xor_self_eq xor.right_neutral)
  have eq: "SBOX ! unat (0x9D :: u8) = SBOX ! unat (0xA7 :: u8)"
    by code_simp
  have "sub_bytes (?s[0 := 0x9D]) = sub_bytes (?s[0 := 0xA7])"
    unfolding sub_bytes_def map_update by (simp only: eq)
  moreover have "fold (main_round rks) [1..<10] st = fold (main_round rks) [2..<10] (main_round rks 1 st)" for rks st
    using upt_conv_Cons [of 1 10] by (simp add: numeral_2_eq_2 del: upt_rec_numeral)
  ultimately have "encrypt_block key (?b 0x9D) = encrypt_block key (?b 0xA7)"
    by (simp only: encrypt_block_def Let_def h main_round_def)
  moreover have "?b 0x9D ! 0 \<noteq> ?b 0xA7 ! 0"
    by (simp only: nth_list_update_eq length_replicate) simp
  then have "?b 0x9D \<noteq> ?b 0xA7"
    by (rule contrapos_nn) (erule arg_cong)
  ultimately show ?thesis
    by (intro exI [of _ "?b 0x9D"] exI [of _ "?b 0xA7"] conjI) simp_all
qed

text \<open>Encrypting a ciphertext again under the same key and initialisation vector returns the
  payload, and the output has the length of the payload and a 16-byte tag.\<close>

theorem gcm_round_trip:
  assumes "length iv = 12"
  shows "fst (aes_128_gcm_encrypt key iv aad' (fst (aes_128_gcm_encrypt key iv aad payload))) = payload \<and>
     length (fst (aes_128_gcm_encrypt key iv aad payload)) = length payload \<and>
     length (snd (aes_128_gcm_encrypt key iv aad payload)) = 16"
  using assms by (simp add: gcm_payload ctr_crypt_involution length_gcm_tag)

theorem gcm_round_trip_witness:
  "fst (aes_128_gcm_encrypt (Aes128Key_new (replicate 16 7)) (replicate 12 1) []
     (fst (aes_128_gcm_encrypt (Aes128Key_new (replicate 16 7)) (replicate 12 1) [9] (bytes ''frame'')))) = bytes ''frame''"
  using gcm_round_trip [of "replicate 12 1" "Aes128Key_new (replicate 16 7)" "[]" "[9]" "bytes ''frame''"] by simp

text \<open>C33: The multiplication on two 64-bit halves computes the product of the two blocks in the
  GHASH field, and it is linear in the first block.\<close>

theorem ghash_multiply_correct:
  assumes "length x = 16" and "length x' = 16" and "length y = 16"
  shows "ghash_multiply x y = to_be 16 (gf_mult (from_be x) (from_be y)) \<and>
     gf_mult (from_be x XOR from_be x') (from_be y) = gf_mult (from_be x) (from_be y) XOR gf_mult (from_be x') (from_be y)"
proof
  obtain a b c d where f: "fold ghash_bit (bits_msb x) (0, 0, from_be (sub_slice 0 8 y), from_be (sub_slice 8 8 y)) = (a, b, c, d)"
    by (metis prod_cases4)
  have "rev [0..<128] = map (\<lambda>i. 127 - i) [0..<128]"
    by (rule nth_equalityI) (simp_all add: rev_nth)
  then have "bits_msb x = map (\<lambda>i. bit (from_be x :: block) (127 - i)) [0..<128]"
    using bits_msb_from_be [of x] assms(1) by (simp del: upt_rec_numeral)
  then have "halves a b = gf_mult (from_be x) (from_be y)"
    using ghash_fold [OF f] from_be_halves [OF assms(3)] by (simp add: gf_mult_sum halves_def del: upt_rec_numeral)
  then show "ghash_multiply x y = to_be 16 (gf_mult (from_be x) (from_be y))"
    using f by (simp add: ghash_multiply_def to_be_halves [symmetric])
next
  have "gf_sum (map (\<lambda>i. bit (u XOR w) (f i)) is) v = gf_sum (map (\<lambda>i. bit u (f i)) is) v XOR gf_sum (map (\<lambda>i. bit w (f i)) is) v"
    for u w v :: block and f :: "nat \<Rightarrow> nat" and "is"
    by (induction "is" arbitrary: v) (auto simp: bit_xor_iff ac_simps)
  then show "gf_mult (from_be x XOR from_be x') (from_be y) = gf_mult (from_be x) (from_be y) XOR gf_mult (from_be x') (from_be y)"
    by (simp only: gf_mult_sum)
qed

theorem ghash_multiply_correct_witness:
  "ghash_multiply (replicate 16 0x80) (replicate 16 1) =
   to_be 16 (gf_mult (from_be (replicate 16 0x80)) (from_be (replicate 16 1)))"
  using ghash_multiply_correct [of "replicate 16 0x80" "replicate 16 0" "replicate 16 1"] by simp

end
