(* ===== verification/E1000.thy ===== *)
theory E1000
  imports Prelude
begin

text \<open>
  The network card driver (\<^verbatim>\<open>kernel/src/e1000.rs\<close>): descriptor rings and packet buffers in
  memory, initialisation, and the transmit and receive polls. The card itself is reached through
  volatile reads and writes of its registers, over a device state of any type; it also sets the
  status of descriptors, which the theorems state as the step it is.
\<close>

section \<open>Rings\<close>

record 'w mmio =
  mmio_read32 :: "u64 \<Rightarrow> u32 \<Rightarrow> 'w \<Rightarrow> u32 \<times> 'w"
  mmio_write32 :: "u64 \<Rightarrow> u32 \<Rightarrow> u32 \<Rightarrow> 'w \<Rightarrow> 'w"

definition NUM_TX_DESCS :: nat where "NUM_TX_DESCS = 64"
definition NUM_RX_DESCS :: nat where "NUM_RX_DESCS = 64"
definition PACKET_BUFFER_SIZE :: nat where "PACKET_BUFFER_SIZE = 2048"

record TxDesc =
  tx_addr :: u64
  tx_length :: u16
  tx_cso :: u8
  tx_cmd :: u8
  tx_status :: u8
  tx_css :: u8
  tx_special :: u16

record RxDesc =
  rx_addr :: u64
  rx_length :: u16
  rx_checksum :: u16
  rx_status :: u8
  rx_errors :: u8
  rx_special :: u16

record E1000Driver =
  drv_bar0 :: u64
  drv_mac :: "u8 list"
  drv_tx_tail :: nat
  drv_rx_tail :: nat

record e1000 =
  TX_DESCS :: "TxDesc list"
  RX_DESCS :: "RxDesc list"
  TX_BUFFERS :: "u8 list list"
  RX_BUFFERS :: "u8 list list"
  E1000_drv :: "E1000Driver option"
  E1000_BAR0 :: u64
  E1000_TX_TAIL :: nat
  E1000_RX_TAIL :: nat
  E1000_MAC :: "u8 list"
  E1000_INITIALIZED :: bool

definition e1000_static :: e1000 where
  "e1000_static =
     \<lparr>TX_DESCS = replicate NUM_TX_DESCS
        \<lparr>tx_addr = 0, tx_length = 0, tx_cso = 0, tx_cmd = 0, tx_status = 0, tx_css = 0, tx_special = 0\<rparr>,
      RX_DESCS = replicate NUM_RX_DESCS
        \<lparr>rx_addr = 0, rx_length = 0, rx_checksum = 0, rx_status = 0, rx_errors = 0, rx_special = 0\<rparr>,
      TX_BUFFERS = replicate NUM_TX_DESCS (replicate PACKET_BUFFER_SIZE 0),
      RX_BUFFERS = replicate NUM_RX_DESCS (replicate PACKET_BUFFER_SIZE 0),
      E1000_drv = None, E1000_BAR0 = 0, E1000_TX_TAIL = 0, E1000_RX_TAIL = 0,
      E1000_MAC = replicate 6 0, E1000_INITIALIZED = False\<rparr>"

section \<open>Initialisation\<close>

definition mac_of :: "u32 \<Rightarrow> u32 \<Rightarrow> u8 list" where
  "mac_of ral rah =
     (let mac = [ucast (ral AND 0xFF), ucast (drop_bit 8 ral AND 0xFF), ucast (drop_bit 16 ral AND 0xFF),
                 ucast (drop_bit 24 ral AND 0xFF), ucast (rah AND 0xFF), ucast (drop_bit 8 rah AND 0xFF)]
      in if mac = replicate 6 0 \<or> mac = replicate 6 0xFF then [0x52, 0x54, 0x00, 0x12, 0x34, 0x56] else mac)"

text \<open>
  \<open>tx_ring\<close>, \<open>rx_ring\<close>, \<open>tx_buf\<close> and \<open>rx_buf\<close> are the addresses of the static arrays.
  A descriptor is 16 bytes.
\<close>

definition init_e1000 ::
  "'w mmio \<Rightarrow> u64 \<Rightarrow> u64 \<Rightarrow> (nat \<Rightarrow> u64) \<Rightarrow> (nat \<Rightarrow> u64) \<Rightarrow> u64 \<Rightarrow> 'w \<Rightarrow> e1000 \<Rightarrow> (str, unit) outcome \<times> 'w \<times> e1000" where
  "init_e1000 m tx_ring rx_ring tx_buf rx_buf bar0 w st =
     (let w = mmio_write32 m bar0 0x00D8 0xFFFFFFFF w;
          (_, w) = mmio_read32 m bar0 0x00C0 w;
          (ral, w) = mmio_read32 m bar0 0x5400 w;
          (rah, w) = mmio_read32 m bar0 0x5404 w;
          mac = mac_of ral rah;
          txd = map (\<lambda>i. (TX_DESCS st ! i)\<lparr>tx_addr := tx_buf i, tx_cmd := 0, tx_status := 1\<rparr>) [0..<NUM_TX_DESCS];
          w = mmio_write32 m bar0 0x3800 (ucast (tx_ring AND 0xFFFFFFFF)) w;
          w = mmio_write32 m bar0 0x3804 (ucast (drop_bit 32 tx_ring)) w;
          w = mmio_write32 m bar0 0x3808 (of_nat (NUM_TX_DESCS * 16)) w;
          w = mmio_write32 m bar0 0x3810 0 w;
          w = mmio_write32 m bar0 0x3818 0 w;
          w = mmio_write32 m bar0 0x0400 (push_bit 1 1 OR push_bit 3 1 OR push_bit 4 15 OR push_bit 12 64) w;
          rxd = map (\<lambda>i. (RX_DESCS st ! i)\<lparr>rx_addr := rx_buf i, rx_status := 0\<rparr>) [0..<NUM_RX_DESCS];
          w = mmio_write32 m bar0 0x2800 (ucast (rx_ring AND 0xFFFFFFFF)) w;
          w = mmio_write32 m bar0 0x2804 (ucast (drop_bit 32 rx_ring)) w;
          w = mmio_write32 m bar0 0x2808 (of_nat (NUM_RX_DESCS * 16)) w;
          w = mmio_write32 m bar0 0x2810 0 w;
          w = mmio_write32 m bar0 0x2818 (of_nat (NUM_RX_DESCS - 1)) w;
          w = mmio_write32 m bar0 0x0100 (push_bit 1 1 OR push_bit 15 1 OR push_bit 26 1) w
      in (Ok (), w,
          st\<lparr>TX_DESCS := txd, RX_DESCS := rxd, E1000_BAR0 := bar0, E1000_MAC := mac,
             E1000_TX_TAIL := 0, E1000_RX_TAIL := 0, E1000_INITIALIZED := True,
             E1000_drv := Some \<lparr>drv_bar0 = bar0, drv_mac = mac, drv_tx_tail = 0, drv_rx_tail = 0\<rparr>\<rparr>))"

section \<open>Transmit and receive\<close>

definition send_packet :: "'w mmio \<Rightarrow> u8 list \<Rightarrow> 'w \<Rightarrow> e1000 \<Rightarrow> (unit, unit) outcome \<times> 'w \<times> e1000" where
  "send_packet m packet w st =
     (if \<not> E1000_INITIALIZED st \<or> E1000_BAR0 st = 0 then (Err (), w, st)
      else let i = E1000_TX_TAIL st mod NUM_TX_DESCS;
               desc = TX_DESCS st ! i
           in if tx_status desc AND 1 = 0 \<and> tx_cmd desc \<noteq> 0 then (Err (), w, st)
              else let copy_len = min (length packet) PACKET_BUFFER_SIZE;
                       buf = copy_at 0 (take copy_len packet) (TX_BUFFERS st ! i);
                       desc = desc\<lparr>tx_length := of_nat copy_len,
                                   tx_cmd := push_bit 0 1 OR push_bit 1 1 OR push_bit 3 1,
                                   tx_status := 0\<rparr>;
                       next_tail = (i + 1) mod NUM_TX_DESCS
                   in (Ok (), mmio_write32 m (E1000_BAR0 st) 0x3818 (of_nat next_tail) w,
                       st\<lparr>TX_DESCS := (TX_DESCS st)[i := desc],
                          TX_BUFFERS := (TX_BUFFERS st)[i := buf], E1000_TX_TAIL := next_tail\<rparr>))"

text \<open>
  The packet is copied to the start of \<open>out\<close>; a card that reports a packet longer than its
  buffer makes the slice of the buffer panic when \<open>out\<close> is that long as well.
\<close>

definition poll_rx_packet ::
  "'w mmio \<Rightarrow> u8 list \<Rightarrow> 'w \<Rightarrow> e1000 \<Rightarrow> (unit, nat option \<times> u8 list) outcome \<times> 'w \<times> e1000" where
  "poll_rx_packet m out w st =
     (if \<not> E1000_INITIALIZED st \<or> E1000_BAR0 st = 0 then (Ok (None, out), w, st)
      else let i = (E1000_RX_TAIL st + 1) mod NUM_RX_DESCS;
               desc = RX_DESCS st ! i
           in if rx_status desc AND 1 = 0 then (Ok (None, out), w, st)
              else let copy_len = min (unat (rx_length desc)) (length out);
                       buf = RX_BUFFERS st ! i
                   in if length buf < copy_len then (Panic, w, st)
                      else (Ok (Some copy_len, copy_at 0 (take copy_len buf) out),
                            mmio_write32 m (E1000_BAR0 st) 0x2818 (of_nat i) w,
                            st\<lparr>RX_DESCS := (RX_DESCS st)[i := desc\<lparr>rx_status := 0\<rparr>], E1000_RX_TAIL := i\<rparr>))"

section \<open>The rings stay well formed\<close>

definition e1000_ok :: "e1000 \<Rightarrow> bool" where
  "e1000_ok st \<longleftrightarrow>
     length (TX_DESCS st) = NUM_TX_DESCS \<and> length (RX_DESCS st) = NUM_RX_DESCS \<and>
     length (TX_BUFFERS st) = NUM_TX_DESCS \<and> length (RX_BUFFERS st) = NUM_RX_DESCS \<and>
     (\<forall>b \<in> set (TX_BUFFERS st). length b = PACKET_BUFFER_SIZE) \<and>
     (\<forall>b \<in> set (RX_BUFFERS st). length b = PACKET_BUFFER_SIZE) \<and>
     E1000_TX_TAIL st < NUM_TX_DESCS \<and> E1000_RX_TAIL st < NUM_RX_DESCS"

lemma e1000_static_ok [keeps_ok]: "e1000_ok e1000_static"
  by (simp add: e1000_ok_def e1000_static_def NUM_TX_DESCS_def NUM_RX_DESCS_def)

lemma init_e1000_ok [keeps_ok]:
  "e1000_ok st \<Longrightarrow> init_e1000 m a b c d bar0 w st = (r, w', st') \<Longrightarrow> e1000_ok st'"
  by (auto simp: e1000_ok_def init_e1000_def Let_def NUM_TX_DESCS_def NUM_RX_DESCS_def
      split: prod.splits simp del: upt_rec_numeral)

lemma send_packet_ok [keeps_ok]:
  "e1000_ok st \<Longrightarrow> send_packet m packet w st = (r, w', st') \<Longrightarrow> e1000_ok st'"
  by (auto simp: e1000_ok_def send_packet_def Let_def NUM_TX_DESCS_def split: if_splits
      dest!: set_update_subset_insert [THEN subsetD])

lemma poll_rx_packet_ok [keeps_ok]:
  "e1000_ok st \<Longrightarrow> poll_rx_packet m out w st = (r, w', st') \<Longrightarrow> e1000_ok st'"
  by (auto simp: e1000_ok_def poll_rx_packet_def Let_def NUM_RX_DESCS_def split: if_splits)

lemma send_packet_not_panic: "fst (send_packet m packet w st) \<noteq> Panic"
  by (simp add: send_packet_def Let_def)

lemma poll_rx_packet_not_panic:
  assumes "e1000_ok st" and "length out \<le> PACKET_BUFFER_SIZE"
  shows "fst (poll_rx_packet m out w st) \<noteq> Panic"
  using assms by (auto simp: poll_rx_packet_def Let_def e1000_ok_def NUM_RX_DESCS_def)

text \<open>Sending a sequence of packets, stopping at the first one that is refused.\<close>

fun send_packets :: "'w mmio \<Rightarrow> u8 list list \<Rightarrow> 'w \<Rightarrow> e1000 \<Rightarrow> (unit, unit) outcome \<times> 'w \<times> e1000" where
  "send_packets m [] w st = (Ok (), w, st)"
| "send_packets m (pk # pks) w st =
     (case send_packet m pk w st of
        (Ok _, w', st') \<Rightarrow> send_packets m pks w' st'
      | r \<Rightarrow> r)"

section \<open>Properties\<close>

definition tx_busy :: "TxDesc \<Rightarrow> bool" where
  "tx_busy d \<longleftrightarrow> tx_status d AND 1 = 0 \<and> tx_cmd d \<noteq> 0"

text \<open>
  The descriptor that takes the \<open>j\<close>-th packet from now on, around the ring; that the next \<open>n\<close> of
  them are free (never used, or completed by the card); and that a packet stands in a descriptor
  for the card to send.
\<close>

definition tx_slot :: "e1000 \<Rightarrow> nat \<Rightarrow> nat" where
  "tx_slot st j = (E1000_TX_TAIL st + j) mod NUM_TX_DESCS"

definition tx_free :: "nat \<Rightarrow> e1000 \<Rightarrow> bool" where
  "tx_free n st \<longleftrightarrow>
     e1000_ok st \<and> E1000_INITIALIZED st \<and> E1000_BAR0 st \<noteq> 0 \<and> n \<le> NUM_TX_DESCS \<and>
     (\<forall>j<n. \<not> tx_busy (TX_DESCS st ! tx_slot st j))"

definition tx_queued :: "e1000 \<Rightarrow> nat \<Rightarrow> u8 list \<Rightarrow> bool" where
  "tx_queued st i pk \<longleftrightarrow>
     tx_busy (TX_DESCS st ! i) \<and> unat (tx_length (TX_DESCS st ! i)) = length pk \<and>
     take (length pk) (TX_BUFFERS st ! i) = pk"

text \<open>What sending does not touch: the other descriptors and their buffers.\<close>

definition tx_same :: "nat set \<Rightarrow> e1000 \<Rightarrow> e1000 \<Rightarrow> bool" where
  "tx_same A st st' \<longleftrightarrow> (\<forall>i. i \<notin> A \<longrightarrow> TX_DESCS st' ! i = TX_DESCS st ! i \<and> TX_BUFFERS st' ! i = TX_BUFFERS st ! i)"

lemma tx_same_queued: "tx_same A st st' \<Longrightarrow> i \<notin> A \<Longrightarrow> tx_queued st' i pk = tx_queued st i pk"
  by (simp add: tx_same_def tx_queued_def)

lemma tx_same_trans: "tx_same A st st' \<Longrightarrow> tx_same B st' st'' \<Longrightarrow> A \<subseteq> C \<Longrightarrow> B \<subseteq> C \<Longrightarrow> tx_same C st st''"
  unfolding tx_same_def by (metis subsetD)

lemma tx_slot_inj: "i < NUM_TX_DESCS \<Longrightarrow> j < NUM_TX_DESCS \<Longrightarrow> tx_slot st i = tx_slot st j \<longleftrightarrow> i = j"
  using mod_eq_imp [of "E1000_TX_TAIL st + i" NUM_TX_DESCS "E1000_TX_TAIL st + j"]
    mod_eq_imp [of "E1000_TX_TAIL st + j" NUM_TX_DESCS "E1000_TX_TAIL st + i"]
  by (cases "i \<le> j") (auto simp: tx_slot_def)

lemma tx_slot_shift: "E1000_TX_TAIL st' = tx_slot st 1 \<Longrightarrow> tx_slot st' j = tx_slot st (Suc j)"
  by (simp add: tx_slot_def mod_simps)

lemma send_packet_refused:
  "E1000_INITIALIZED st \<Longrightarrow> E1000_BAR0 st \<noteq> 0 \<Longrightarrow> E1000_TX_TAIL st < NUM_TX_DESCS \<Longrightarrow>
   tx_busy (TX_DESCS st ! E1000_TX_TAIL st) \<Longrightarrow> send_packet m pk w st = (Err (), w, st)"
  by (simp add: send_packet_def tx_busy_def)

lemma send_packet_free:
  assumes "tx_free (Suc n) st" and "length pk \<le> PACKET_BUFFER_SIZE"
  shows "\<exists>w' st'. send_packet m pk w st = (Ok (), w', st') \<and> tx_free n st' \<and> tx_queued st' (tx_slot st 0) pk \<and>
     E1000_TX_TAIL st' = tx_slot st 1 \<and> tx_same {tx_slot st 0} st st'"
proof -
  let ?k = "tx_slot st 0"
  have k: "E1000_TX_TAIL st mod NUM_TX_DESCS = ?k" "\<not> tx_busy (TX_DESCS st ! ?k)" "?k < length (TX_BUFFERS st)"
    "?k < length (TX_DESCS st)" "length (TX_BUFFERS st ! ?k) = PACKET_BUFFER_SIZE"
    using assms by (auto simp: tx_free_def e1000_ok_def tx_slot_def NUM_TX_DESCS_def)
  let ?d = "(TX_DESCS st ! ?k)\<lparr>tx_length := of_nat (length pk), tx_cmd := 11, tx_status := 0\<rparr>"
  obtain w' st' where s: "send_packet m pk w st = (Ok (), w', st')"
    and st': "st' = st\<lparr>TX_DESCS := (TX_DESCS st)[?k := ?d],
                TX_BUFFERS := (TX_BUFFERS st)[?k := copy_at 0 pk (TX_BUFFERS st ! ?k)], E1000_TX_TAIL := (?k + 1) mod NUM_TX_DESCS\<rparr>"
    using assms k by (auto simp: send_packet_def Let_def tx_free_def tx_busy_def)
  have ok: "e1000_ok st'"
    using send_packet_ok [OF _ s] assms(1) by (simp add: tx_free_def)
  have tail: "E1000_TX_TAIL st' = tx_slot st 1" by (simp add: st' tx_slot_def mod_simps)
  have same: "tx_same {?k} st st'" by (auto simp: tx_same_def st')
  have "unat (of_nat (length pk) :: u16) = length pk"
    using assms(2) by (simp add: PACKET_BUFFER_SIZE_def unsigned_of_nat take_bit_nat_eq_self_iff)
  then have queued: "tx_queued st' ?k pk"
    using k assms(2) by (simp add: tx_queued_def st' tx_busy_def copy_at_def)
  have "\<not> tx_busy (TX_DESCS st' ! tx_slot st' j)" if "j < n" for j
  proof -
    have "tx_slot st (Suc j) \<noteq> ?k" using that assms(1) by (subst tx_slot_inj) (auto simp: tx_free_def)
    then have "TX_DESCS st' ! tx_slot st' j = TX_DESCS st ! tx_slot st (Suc j)"
      using same by (simp add: tx_slot_shift [OF tail] tx_same_def)
    with that assms(1) show ?thesis by (simp add: tx_free_def)
  qed
  then have "tx_free n st'" using ok assms(1) by (simp add: tx_free_def) (simp add: st')
  with s queued tail same show ?thesis by blast
qed

lemma tx_free_le: "tx_free n st \<Longrightarrow> k \<le> n \<Longrightarrow> tx_free k st"
  by (auto simp: tx_free_def)

lemma send_packets_free:
  assumes "tx_free (length pks) st" and "\<forall>pk \<in> set pks. length pk \<le> PACKET_BUFFER_SIZE"
  shows "\<exists>w' st'. send_packets m pks w st = (Ok (), w', st') \<and> tx_free 0 st' \<and>
     E1000_TX_TAIL st' = tx_slot st (length pks) \<and> tx_same (tx_slot st ` {..<length pks}) st st' \<and>
     (\<forall>i<length pks. tx_queued st' (tx_slot st i) (pks ! i))"
  using assms
proof (induction pks arbitrary: w st)
  case Nil
  then show ?case by (auto simp: tx_same_def tx_slot_def tx_free_def e1000_ok_def)
next
  case (Cons pk pks)
  obtain w1 st1 where s1: "send_packet m pk w st = (Ok (), w1, st1)" "tx_free (length pks) st1"
      "tx_queued st1 (tx_slot st 0) pk" "E1000_TX_TAIL st1 = tx_slot st 1" "tx_same {tx_slot st 0} st st1"
    using send_packet_free [of "length pks" st pk m w] Cons.prems by auto
  note shift = tx_slot_shift [OF s1(4)]
  obtain w2 st2 where s2: "send_packets m pks w1 st1 = (Ok (), w2, st2)" "tx_free 0 st2"
      "E1000_TX_TAIL st2 = tx_slot st (Suc (length pks))"
      "tx_same ((\<lambda>j. tx_slot st (Suc j)) ` {..<length pks}) st1 st2"
      "\<forall>i<length pks. tx_queued st2 (tx_slot st (Suc i)) (pks ! i)"
    using Cons.IH [OF s1(2), of w1] Cons.prems(2) by (auto simp: shift)
  have n: "Suc (length pks) \<le> NUM_TX_DESCS" using Cons.prems(1) by (simp add: tx_free_def)
  have "tx_slot st 0 \<notin> (\<lambda>j. tx_slot st (Suc j)) ` {..<length pks}"
    using n by (auto simp: tx_slot_inj)
  with s1(3) s2(4) have "tx_queued st2 (tx_slot st 0) pk" by (simp add: tx_same_queued)
  then have "\<forall>i<length (pk # pks). tx_queued st2 (tx_slot st i) ((pk # pks) ! i)"
    using s2(5) by (simp add: nth_Cons split: nat.split)
  moreover have "tx_same (tx_slot st ` {..<length (pk # pks)}) st st2"
    by (rule tx_same_trans [OF s1(5) s2(4)]) auto
  ultimately show ?case using s1(1) s2(1-3) by simp
qed

text \<open>A free transmit ring takes exactly 64 packets while the card completes none, from any
  tail on and each in its own buffer; the next one is refused and changes nothing. The 64th packet
  moves the tail register back to where it was, the value of the head register, which tells the
  card that the ring is empty.\<close>

theorem tx_ring_capacity:
  assumes "tx_free 64 st" and "length pks = 64" and "\<forall>pk \<in> set pks. length pk \<le> PACKET_BUFFER_SIZE"
  shows "\<exists>w' st'. send_packets m pks w st = (Ok (), w', st') \<and> E1000_TX_TAIL st' = E1000_TX_TAIL st \<and>
     (\<forall>i<64. tx_queued st' (tx_slot st i) (pks ! i)) \<and>
     send_packet m pk w' st' = (Err (), w', st')"
proof -
  obtain w' st' where s: "send_packets m pks w st = (Ok (), w', st')" "tx_free 0 st'"
      "E1000_TX_TAIL st' = tx_slot st 64" "\<forall>i<64. tx_queued st' (tx_slot st i) (pks ! i)"
    using send_packets_free [OF _ assms(3), of st m w] assms(1,2) by auto
  have tail: "tx_slot st 64 = E1000_TX_TAIL st" "tx_slot st 0 = E1000_TX_TAIL st"
    using assms(1) by (simp_all add: tx_slot_def tx_free_def e1000_ok_def NUM_TX_DESCS_def)
  have "tx_busy (TX_DESCS st' ! E1000_TX_TAIL st')"
    using s(4) [rule_format, of 0] tail s(3) by (simp add: tx_queued_def)
  moreover have "E1000_TX_TAIL st' < NUM_TX_DESCS" "E1000_INITIALIZED st'" "E1000_BAR0 st' \<noteq> 0"
    using s(2) by (simp_all add: tx_free_def e1000_ok_def)
  ultimately have "send_packet m pk w' st' = (Err (), w', st')" by (intro send_packet_refused)
  with s tail show ?thesis by simp
qed

definition quiet_mmio :: "unit mmio" where
  "quiet_mmio = \<lparr>mmio_read32 = (\<lambda>b r w. (0, w)), mmio_write32 = (\<lambda>b r v w. w)\<rparr>"

definition e1000_started :: e1000 where
  "e1000_started = snd (snd (init_e1000 quiet_mmio 0x10000 0x20000 (\<lambda>i. 0x30000 + of_nat (2048 * i))
     (\<lambda>i. 0x60000 + of_nat (2048 * i)) 0xFEB00000 () e1000_static))"

lemma e1000_started_ok: "e1000_ok e1000_started"
  unfolding e1000_started_def using init_e1000_ok [OF e1000_static_ok] by (metis prod.collapse)

lemma started_not_busy: "i < NUM_TX_DESCS \<Longrightarrow> \<not> tx_busy (TX_DESCS e1000_started ! i)"
  by (simp add: e1000_started_def init_e1000_def quiet_mmio_def Let_def tx_busy_def
      NUM_TX_DESCS_def del: upt_rec_numeral)

lemma started_up: "E1000_INITIALIZED e1000_started" "E1000_BAR0 e1000_started \<noteq> 0"
  by (simp_all add: e1000_started_def init_e1000_def quiet_mmio_def Let_def)

text \<open>From any tail on.\<close>

lemma tx_free_started: "t < NUM_TX_DESCS \<Longrightarrow> tx_free 64 (e1000_started\<lparr>E1000_TX_TAIL := t\<rparr>)"
  using e1000_started_ok started_not_busy started_up
  by (simp add: tx_free_def tx_slot_def e1000_ok_def NUM_TX_DESCS_def)

theorem tx_ring_capacity_witness:
  "\<exists>w' st'. send_packets quiet_mmio (replicate 64 [1, 2, 3]) () (e1000_started\<lparr>E1000_TX_TAIL := 60\<rparr>) = (Ok (), w', st') \<and>
     E1000_TX_TAIL st' = 60 \<and> send_packet quiet_mmio [4] w' st' = (Err (), w', st')"
  using tx_ring_capacity [OF tx_free_started, of 60 "replicate 64 [1, 2, 3]" quiet_mmio "()" "[4]"]
  by (auto simp: PACKET_BUFFER_SIZE_def NUM_TX_DESCS_def)

text \<open>Initialisation sets the card's receive head to descriptor 0 but starts polling at
  descriptor 1, so the first packet, which the card stores at its head, is not seen.\<close>

theorem first_rx_packet_missed:
  assumes "e1000_ok st" and "init_e1000 m tx_ring rx_ring tx_buf rx_buf bar0 w st = (r, w', st')"
  shows "fst (poll_rx_packet m out w'
     (st'\<lparr>RX_DESCS := (RX_DESCS st')[0 := (RX_DESCS st' ! 0)\<lparr>rx_length := len, rx_status := 1\<rparr>],
         RX_BUFFERS := (RX_BUFFERS st')[0 := pkt]\<rparr>)) = Ok (None, out)"
proof -
  have "RX_DESCS st' = map (\<lambda>i. (RX_DESCS st ! i)\<lparr>rx_addr := rx_buf i, rx_status := 0\<rparr>) [0..<NUM_RX_DESCS]"
    and "E1000_RX_TAIL st' = 0"
    using assms(2) by (auto simp: init_e1000_def Let_def split: prod.splits)
  then show ?thesis
    by (simp add: poll_rx_packet_def Let_def NUM_RX_DESCS_def del: upt_rec_numeral)
qed

theorem first_rx_packet_missed_witness:
  "fst (poll_rx_packet quiet_mmio [0, 0, 0, 0] ()
     (e1000_started\<lparr>RX_DESCS := (RX_DESCS e1000_started)[0 := (RX_DESCS e1000_started ! 0)\<lparr>rx_length := 4, rx_status := 1\<rparr>],
         RX_BUFFERS := (RX_BUFFERS e1000_started)[0 := [1, 2, 3, 4]]\<rparr>)) = Ok (None, [0, 0, 0, 0])"
proof -
  obtain r w' st' where e: "init_e1000 quiet_mmio 0x10000 0x20000 (\<lambda>i. 0x30000 + of_nat (2048 * i))
     (\<lambda>i. 0x60000 + of_nat (2048 * i)) 0xFEB00000 () e1000_static = (r, w', st')"
    by (rule prod_cases3)
  then have "st' = e1000_started" by (simp add: e1000_started_def)
  with first_rx_packet_missed [OF e1000_static_ok e, where out = "[0, 0, 0, 0]" and len = 4 and pkt = "[1, 2, 3, 4]"] show ?thesis
    by simp
qed

end
