(* ===== verification/Net.thy ===== *)
theory Net
  imports Pipeline Crypto E1000
begin

text \<open>
  The streaming protocol (\<^verbatim>\<open>kernel/src/net.rs\<close>): the IP checksum, the delay-based congestion
  controller, the poll for acknowledgements, and the packetization, encryption and transmission
  of a frame through the network card.
\<close>

section \<open>State\<close>

definition STATIC_MASTER_KEY :: "u8 list" where
  "STATIC_MASTER_KEY =
     [0x01, 0x23, 0x45, 0x67, 0x89, 0xAB, 0xCD, 0xEF, 0xFE, 0xDC, 0xBA, 0x98, 0x76, 0x54, 0x32, 0x10]"

definition STATIC_MASTER_SALT :: "u8 list" where
  "STATIC_MASTER_SALT = [0xA5, 0x5A, 0xA5, 0x5A, 0xA5, 0x5A, 0xA5, 0x5A, 0xA5, 0x5A, 0xA5, 0x5A]"

definition RTP_PAYLOAD_TYPE_VIDEO :: u8 where "RTP_PAYLOAD_TYPE_VIDEO = 96"
definition RTP_SSRC_VIDEO :: u32 where "RTP_SSRC_VIDEO = 0x12345678"
definition MAX_SRTP_PAYLOAD_CHUNK :: nat where "MAX_SRTP_PAYLOAD_CHUNK = 1380"
definition CONGESTION_THRESHOLD_NS :: u64 where "CONGESTION_THRESHOLD_NS = 200000"

datatype SendError = DeadlineExceeded | NicQueueFull | InvalidFrame

record net =
  MIN_RTT_NS :: u64
  LAST_RTT_NS :: u64
  DELTA_DELAY_NS :: u64
  CONGESTION_RATE_PCT :: u8
  CONSECUTIVE_GOOD_FRAMES :: u32
  TOTAL_PACKETS_SENT :: u64
  TOTAL_FRAMES_DROPPED :: u64
  TOTAL_ACKS_RECEIVED :: u64

definition net_init :: net where
  "net_init =
     \<lparr>MIN_RTT_NS = 50000, LAST_RTT_NS = 50000, DELTA_DELAY_NS = 0, CONGESTION_RATE_PCT = 100,
      CONSECUTIVE_GOOD_FRAMES = 0, TOTAL_PACKETS_SENT = 0, TOTAL_FRAMES_DROPPED = 0, TOTAL_ACKS_RECEIVED = 0\<rparr>"

section \<open>Checksum\<close>

text \<open>An odd length makes \<^verbatim>\<open>header[i + 1]\<close> panic: \<^term>\<open>None\<close>.\<close>

fun sum_words :: "u8 list \<Rightarrow> u32 \<Rightarrow> u32 option" where
  "sum_words [] acc = Some acc"
| "sum_words [a] acc = None"
| "sum_words (a # b # header) acc = sum_words header (acc + (push_bit 8 (ucast a) OR ucast b))"

lemma carry_nat:
  "unat (((s :: u32) AND 0xFFFF) + drop_bit 16 s) = unat s mod 65536 + unat s div 65536"
proof -
  have "s AND 0xFFFF = take_bit 16 s"
    by (simp add: take_bit_eq_mask mask_eq_exp_minus_1)
  then have "unat (s AND 0xFFFF) = unat s mod 65536"
    by (simp add: take_bit_eq_mod unat_mod)
  moreover have "unat (drop_bit 16 s) = unat s div 65536"
    by (simp add: drop_bit_eq_div unat_div)
  moreover have "unat s mod 65536 + unat s div 65536 < 2 ^ 32"
    using unsigned_less [of s, where ?'a = nat] by simp
  ultimately show ?thesis
    by (simp add: unat_word_ariths)
qed

lemma no_carry: "drop_bit 16 (s :: u32) = 0 \<longleftrightarrow> unat s < 65536"
proof -
  have "unat (drop_bit 16 s) = unat s div 65536"
    by (simp add: drop_bit_eq_div unat_div)
  then show ?thesis
    by (metis div_eq_0_iff unsigned_eq_0_iff zero_neq_numeral)
qed

function fold_carry :: "u32 \<Rightarrow> u32" where
  "fold_carry acc = (if drop_bit 16 acc \<noteq> 0 then fold_carry ((acc AND 0xFFFF) + drop_bit 16 acc) else acc)"
  by pat_completeness auto
termination
proof (relation "measure unat", goal_cases)
  case (2 acc)
  then have "65536 \<le> unat acc" by (simp add: no_carry)
  moreover have "unat acc = 65536 * (unat acc div 65536) + unat acc mod 65536" by simp
  ultimately have "unat acc mod 65536 + unat acc div 65536 < unat acc" by linarith
  then show ?case by (simp only: in_measure carry_nat)
qed simp

declare fold_carry.simps [simp del]

definition compute_ip_checksum :: "u8 list \<Rightarrow> u16 option" where
  "compute_ip_checksum header =
     (case sum_words header 0 of
        None \<Rightarrow> None
      | Some acc \<Rightarrow> Some (NOT (ucast (fold_carry acc))))"

text \<open>Carries folded in: the residue modulo 65535, with 65535 itself in place of a multiple.\<close>

lemma unat_fold_carry:
  "unat (fold_carry s) = (if unat s = 0 then 0 else (unat s - 1) mod 65535 + 1)"
proof (induction s rule: fold_carry.induct)
  case (1 s)
  show ?case
  proof (cases "drop_bit 16 s = 0")
    case True
    then have "unat s < 65536" by (simp add: no_carry)
    with True show ?thesis by (subst fold_carry.simps) (cases "unat s", auto)
  next
    case False
    let ?t = "(s AND 0xFFFF) + drop_bit 16 s"
    have big: "65536 \<le> unat s" using False by (simp add: no_carry)
    have t: "unat ?t = unat s mod 65536 + unat s div 65536" by (rule carry_nat)
    have split: "unat s = 65536 * (unat s div 65536) + unat s mod 65536" by simp
    have pos: "0 < unat ?t" unfolding t using big split by linarith
    from split have "unat s - 1 = (unat ?t - 1) + 65535 * (unat s div 65536)"
      using pos big unfolding t by linarith
    then have "(unat s - 1) mod 65535 = (unat ?t - 1) mod 65535"
      by simp
    with 1 False big pos show ?thesis by (subst fold_carry.simps) auto
  qed
qed

section \<open>Congestion control\<close>

text \<open>What an acknowledgement with round trip time \<open>rtt_ns\<close> does to the controller.\<close>

definition ack_update :: "u64 \<Rightarrow> net \<Rightarrow> net" where
  "ack_update rtt_ns n =
     (let n = n\<lparr>LAST_RTT_NS := rtt_ns, TOTAL_ACKS_RECEIVED := TOTAL_ACKS_RECEIVED n + 1\<rparr>;
          min_rtt = MIN_RTT_NS n;
          (n, min_rtt) = (if rtt_ns < min_rtt \<or> min_rtt = 0 then (n\<lparr>MIN_RTT_NS := rtt_ns\<rparr>, rtt_ns) else (n, min_rtt));
          delta_delay = saturating_sub rtt_ns min_rtt;
          n = n\<lparr>DELTA_DELAY_NS := delta_delay\<rparr>
      in if CONGESTION_THRESHOLD_NS < delta_delay
         then let curr = CONGESTION_RATE_PCT n;
                  new_rate = ucast ((ucast curr :: u32) * 80 div 100)
              in n\<lparr>CONGESTION_RATE_PCT := max 20 new_rate, CONSECUTIVE_GOOD_FRAMES := 0\<rparr>
         else let good = CONSECUTIVE_GOOD_FRAMES n + 1;
                  n = n\<lparr>CONSECUTIVE_GOOD_FRAMES := good\<rparr>
              in if 4 \<le> good
                 then let curr = CONGESTION_RATE_PCT n;
                          new_rate = min 100 (if curr \<le> 250 then curr + 5 else 255)
                      in n\<lparr>CONGESTION_RATE_PCT := new_rate, CONSECUTIVE_GOOD_FRAMES := 0\<rparr>
                 else n)"

definition on_ack_received :: "'w ports \<Rightarrow> u64 \<Rightarrow> u64 \<Rightarrow> 'w \<Rightarrow> net \<Rightarrow> net \<times> 'w" where
  "on_ack_received p t_pkt_tx freq_hz w n =
     (let (now_tsc, w) = read_tsc_serialized p w
      in if now_tsc < t_pkt_tx then (n, w)
         else (ack_update (tsc_to_ns (now_tsc - t_pkt_tx) freq_hz) n, w))"

text \<open>The poll for an acknowledgement: a packet of at least 66 bytes with the marker at byte 42.\<close>

definition poll_rx_ack ::
  "'w ports \<Rightarrow> 'w mmio \<Rightarrow> u64 \<Rightarrow> 'w \<Rightarrow> e1000 \<Rightarrow> net \<Rightarrow> (unit, bool) outcome \<times> 'w \<times> e1000 \<times> net" where
  "poll_rx_ack p m freq_hz w nic n =
     (case poll_rx_packet m (replicate 128 0) w nic of
        (Ok (Some rx_len, rx_buf), w, nic) \<Rightarrow>
          if 66 \<le> rx_len
          then let ack_bytes = sub_slice 42 24 rx_buf;
                   magic = (from_be (sub_slice 0 4 ack_bytes) :: u32)
               in if magic = 0x41434B31
                  then let t_tx = from_be (sub_slice 8 8 ack_bytes);
                           (n, w) = on_ack_received p t_tx freq_hz w n
                       in (Ok True, w, nic, n)
                  else (Ok False, w, nic, n)
          else (Ok False, w, nic, n)
      | (Ok (None, _), w, nic) \<Rightarrow> (Ok False, w, nic, n)
      | (Err _, w, nic) \<Rightarrow> (Panic, w, nic, n)
      | (Panic, w, nic) \<Rightarrow> (Panic, w, nic, n))"

section \<open>Packets\<close>

definition eth_header :: "u8 list \<Rightarrow> u8 list" where
  "eth_header src_mac = replicate 6 0xFF @ src_mac @ to_be 2 (0x0800 :: u16)"

definition ip_header :: "u16 \<Rightarrow> FrameHandle \<Rightarrow> u16 \<Rightarrow> u8 list" where
  "ip_header ip_total_len frame ip_csum =
     [0x45, 0x00] @ to_be 2 ip_total_len @ drop 6 (to_be 8 (frame_id frame)) @ to_be 2 (0x4000 :: u16) @
     [64, 17] @ to_be 2 ip_csum @ [192, 168, 1, 10] @ [192, 168, 1, 20]"

definition udp_header :: "u16 \<Rightarrow> u8 list" where
  "udp_header udp_len = to_be 2 (5004 :: u16) @ to_be 2 (5004 :: u16) @ to_be 2 udp_len @ to_be 2 (0 :: u16)"

definition srtp_header :: "u16 \<Rightarrow> FrameHandle \<Rightarrow> u8 list" where
  "srtp_header seq frame =
     [0x80, RTP_PAYLOAD_TYPE_VIDEO] @ to_be 2 seq @
     to_be 4 (ucast (vblank_tsc frame AND 0xFFFFFFFF) :: u32) @ to_be 4 RTP_SSRC_VIDEO"

definition packet_iv :: "u16 \<Rightarrow> u8 list" where
  "packet_iv seq =
     (let iv = STATIC_MASTER_SALT
      in iv[4 := iv ! 4 XOR ucast (drop_bit 24 RTP_SSRC_VIDEO AND 0xFF),
            5 := iv ! 5 XOR ucast (drop_bit 16 RTP_SSRC_VIDEO AND 0xFF),
            6 := iv ! 6 XOR ucast (drop_bit 8 RTP_SSRC_VIDEO AND 0xFF),
            7 := iv ! 7 XOR ucast (RTP_SSRC_VIDEO AND 0xFF),
            10 := iv ! 10 XOR ucast (drop_bit 8 seq AND 0xFF),
            11 := iv ! 11 XOR ucast (seq AND 0xFF)])"

text \<open>
  The packet of one chunk. The code writes the parts one after the other into a buffer of 1514
  bytes; the header checksum is computed with its own field cleared.
\<close>

definition make_packet :: "Aes128Key \<Rightarrow> u8 list \<Rightarrow> FrameHandle \<Rightarrow> u16 \<Rightarrow> u8 list \<Rightarrow> u8 list option" where
  "make_packet key src_mac frame seq chunk =
     (let ip_total_len = of_nat (20 + 8 + 12 + length chunk + 16);
          udp_len = of_nat (8 + 12 + length chunk + 16)
      in case compute_ip_checksum (ip_header ip_total_len frame 0) of
           None \<Rightarrow> None
         | Some ip_csum \<Rightarrow>
             let aad = srtp_header seq frame;
                 (payload, tag) = aes_128_gcm_encrypt key (packet_iv seq) aad chunk
             in Some (eth_header src_mac @ ip_header ip_total_len frame ip_csum @ udp_header udp_len @
                      aad @ payload @ tag))"

section \<open>Sending a frame\<close>

text \<open>
  The packet loop, on the part of the frame not sent yet. The sequence number is advanced before
  the packet is handed to the card, the counters after.
\<close>

function send_chunks ::
  "'w ports \<Rightarrow> 'w mmio \<Rightarrow> Aes128Key \<Rightarrow> u8 list \<Rightarrow> FrameHandle \<Rightarrow> u64 \<Rightarrow> u8 list \<Rightarrow> nat \<Rightarrow> u16 \<Rightarrow> net \<Rightarrow> e1000 \<Rightarrow> 'w \<Rightarrow>
   (SendError, nat) outcome \<times> u16 \<times> net \<times> e1000 \<times> 'w" where
  "send_chunks p m key src_mac frame deadline_tsc rest bytes_sent packet_seq n nic w =
     (if rest = [] then (Ok bytes_sent, packet_seq, n, nic, w)
      else let (t, w) = read_tsc_serialized p w
           in if deadline_tsc < t
              then (Err DeadlineExceeded, packet_seq, n\<lparr>TOTAL_FRAMES_DROPPED := TOTAL_FRAMES_DROPPED n + 1\<rparr>, nic, w)
              else let chunk_len = min MAX_SRTP_PAYLOAD_CHUNK (length rest)
                   in case make_packet key src_mac frame packet_seq (take chunk_len rest) of
                        None \<Rightarrow> (Panic, packet_seq, n, nic, w)
                      | Some packet \<Rightarrow>
                          (case send_packet m packet w nic of
                             (Ok _, w, nic) \<Rightarrow>
                               send_chunks p m key src_mac frame deadline_tsc (drop chunk_len rest)
                                 (bytes_sent + (14 + 20 + 8 + 12 + chunk_len + 16)) (packet_seq + 1)
                                 (n\<lparr>TOTAL_PACKETS_SENT := TOTAL_PACKETS_SENT n + 1\<rparr>) nic w
                           | (_, w, nic) \<Rightarrow> (Err NicQueueFull, packet_seq + 1, n, nic, w)))"
  by pat_completeness auto
termination
  by (relation "measure (\<lambda>(p, m, k, s, f, d, rest, b, q, n, nic, w). length rest)")
    (auto simp: MAX_SRTP_PAYLOAD_CHUNK_def)

declare send_chunks.simps [simp del]

text \<open>\<open>memory a n\<close> is the slice of \<open>n\<close> bytes at address \<open>a\<close>, read without a check.\<close>

definition stream_send_frame ::
  "'w ports \<Rightarrow> 'w mmio \<Rightarrow> (u64 \<Rightarrow> nat \<Rightarrow> u8 list) \<Rightarrow> FrameHandle \<Rightarrow> u64 \<Rightarrow> u16 \<Rightarrow> net \<Rightarrow> e1000 \<Rightarrow> 'w \<Rightarrow>
   (SendError, nat) outcome \<times> u16 \<times> net \<times> e1000 \<times> 'w" where
  "stream_send_frame p m memory frame deadline_tsc packet_seq n nic w =
     (let (current_tsc, w) = read_tsc_serialized p w
      in if deadline_tsc < current_tsc
         then (Err DeadlineExceeded, packet_seq, n\<lparr>TOTAL_FRAMES_DROPPED := TOTAL_FRAMES_DROPPED n + 1\<rparr>, nic, w)
         else let src_mac = (case E1000_drv nic of Some d \<Rightarrow> drv_mac d | None \<Rightarrow> [0x52, 0x54, 0x00, 0x12, 0x34, 0x56]);
                  key = Aes128Key_new STATIC_MASTER_KEY
              in if phys_addr frame < 0x1000 \<or> size frame = 0 \<or> 16 * 1024 * 1024 < size frame
                 then (Ok 0, packet_seq, n, nic, w)
                 else send_chunks p m key src_mac frame deadline_tsc (memory (phys_addr frame) (size frame))
                        0 packet_seq n nic w)"

section \<open>The checksum verifies\<close>

fun word_sum :: "u8 list \<Rightarrow> nat" where
  "word_sum (a # b # header) = 256 * unat a + unat b + word_sum header"
| "word_sum _ = 0"

lemma unat_be_pair: "unat (push_bit 8 (ucast (a :: u8)) OR ucast (b :: u8) :: u32) = 256 * unat a + unat b"
proof -
  have "push_bit 8 (ucast a) OR ucast b = (push_bit 8 (ucast a) + ucast b :: u32)"
    by (rule disjunctive_add [symmetric]) (auto simp: bit_simps dest: bit_imp_le_length)
  moreover have "unat (push_bit 8 (ucast a) :: u32) = 256 * unat a"
    using unsigned_less [of a, where ?'a = nat]
    by (simp add: push_bit_eq_mult unat_word_ariths unsigned_ucast_eq take_bit_eq_mod)
  moreover have "unat a < 256" "unat b < 256"
    using unsigned_less [of a, where ?'a = nat] unsigned_less [of b, where ?'a = nat] by simp_all
  ultimately show ?thesis
    by (simp add: unat_word_ariths unsigned_ucast_eq take_bit_eq_mod)
qed

lemma sum_words_nat:
  "even (length h) \<Longrightarrow> unat acc + word_sum h < 2 ^ 32 \<Longrightarrow>
   \<exists>s. sum_words h acc = Some s \<and> unat s = unat acc + word_sum h"
proof (induction h arbitrary: acc rule: word_sum.induct)
  case (1 a b h)
  let ?v = "push_bit 8 (ucast a) OR ucast b :: u32"
  have "unat (acc + ?v) = unat acc + (256 * unat a + unat b)"
    using "1.prems"(2) unat_be_pair [of a b] by (simp add: unat_word_ariths)
  with "1.IH" [of "acc + ?v"] "1.prems" show ?case by (auto simp: add.assoc)
qed auto

lemma to_be_2: "to_be 2 (w :: u16) = [ucast (drop_bit 8 w), ucast w]"
  by (simp add: to_be_def to_le_def numeral_2_eq_2)

lemma unat_to_be_2: "256 * unat (ucast (drop_bit 8 (w :: u16)) :: u8) + unat (ucast w :: u8) = unat w"
proof -
  have "unat (ucast (drop_bit 8 w) :: u8) = unat w div 256"
    using unsigned_less [of w, where ?'a = nat]
    by (simp add: unsigned_ucast_eq drop_bit_eq_div unat_div take_bit_eq_mod)
  moreover have "unat (ucast w :: u8) = unat w mod 256"
    by (simp add: unsigned_ucast_eq take_bit_eq_mod)
  ultimately show ?thesis by simp
qed

lemma length_ip_header [simp]: "length (ip_header tlen frame c) = 20"
  by (simp add: ip_header_def)

lemma drop_6_id: "\<exists>x y. drop 6 (to_be 8 (frame_id frame)) = [x, y]"
proof -
  have "length (drop 6 (to_be 8 (frame_id frame))) = Suc (Suc 0)" by simp
  then show ?thesis by (simp only: length_Suc_conv length_0_conv) blast
qed

lemma word_sum_ip_header:
  "word_sum (ip_header tlen frame c) = word_sum (ip_header tlen frame 0) + unat c"
  "0 < word_sum (ip_header tlen frame 0)" "word_sum (ip_header tlen frame c) < 2 ^ 32"
proof -
  obtain x y where d: "drop 6 (to_be 8 (frame_id frame)) = [x, y]"
    using drop_6_id by blast
  show "word_sum (ip_header tlen frame c) = word_sum (ip_header tlen frame 0) + unat c"
    using unat_to_be_2 [of c] by (simp add: ip_header_def to_be_2 d)
  show "0 < word_sum (ip_header tlen frame 0)"
    by (simp add: ip_header_def to_be_2 d)
  have "word_sum h \<le> 65535 * length h" for h
  proof (induction h rule: word_sum.induct)
    case (1 a b h)
    then show ?case
      using unsigned_less [of a, where ?'a = nat] unsigned_less [of b, where ?'a = nat] by simp
  qed simp_all
  from this [of "ip_header tlen frame c"] show "word_sum (ip_header tlen frame c) < 2 ^ 32"
    by simp
qed


lemma ones_complement:
  fixes S :: nat
  assumes "0 < S"
  shows "(S - 1) mod 65535 + 1 \<le> 65535"
    and "(S + (65535 - ((S - 1) mod 65535 + 1)) - 1) mod 65535 + 1 = 65535"
proof -
  define q r where "q = (S - 1) div 65535" and "r = (S - 1) mod 65535"
  have r: "r < 65535" by (simp add: r_def)
  then show "(S - 1) mod 65535 + 1 \<le> 65535" by (simp add: r_def [symmetric])
  have "S - 1 = q * 65535 + r" by (simp add: q_def r_def)
  with assms r have "S + (65535 - (r + 1)) - 1 = q * 65535 + 65534" by linarith
  then show "(S + (65535 - ((S - 1) mod 65535 + 1)) - 1) mod 65535 + 1 = 65535"
    unfolding r_def [symmetric] by simp
qed

lemma checksum_nat:
  assumes "even (length h)" and "word_sum h < 2 ^ 32"
  shows "\<exists>c. compute_ip_checksum h = Some c \<and>
     unat c = 65535 - (if word_sum h = 0 then 0 else (word_sum h - 1) mod 65535 + 1)"
proof -
  obtain s where s: "sum_words h 0 = Some s" "unat s = word_sum h"
    using sum_words_nat [of h 0] assms by auto
  let ?r = "if word_sum h = 0 then 0 else (word_sum h - 1) mod 65535 + 1"
  have "?r \<le> 65535" using ones_complement(1) by simp
  moreover have "unat (fold_carry s) = ?r" using s(2) by (simp add: unat_fold_carry)
  ultimately have "unat (ucast (fold_carry s) :: u16) = ?r"
    by (simp add: unsigned_ucast_eq take_bit_eq_mod)
  moreover have "unat (NOT v) = 65535 - unat v" for v :: u16
  proof -
    have "NOT v = - 1 - v" by (simp add: not_eq_complement)
    moreover have "unat (- 1 :: u16) = 65535" by (simp add: unsigned_minus_1_eq_mask mask_eq_exp_minus_1)
    ultimately show ?thesis using unat_sub [of v "- 1"] word_n1_ge [of v] by metis
  qed
  ultimately show ?thesis
    using s(1) by (simp add: compute_ip_checksum_def)
qed

lemma ip_header_checksum:
  assumes "compute_ip_checksum (ip_header tlen frame 0) = Some c"
  shows "compute_ip_checksum (ip_header tlen frame c) = Some 0"
proof -
  let ?S = "word_sum (ip_header tlen frame 0)" and ?S' = "word_sum (ip_header tlen frame c)"
  have c: "unat c = 65535 - ((?S - 1) mod 65535 + 1)"
    using checksum_nat [of "ip_header tlen frame 0"] word_sum_ip_header(2,3) [of tlen frame] assms by fastforce
  have "?S' = ?S + (65535 - ((?S - 1) mod 65535 + 1))"
    using word_sum_ip_header(1) [of tlen frame c] c by simp
  then have "(?S' - 1) mod 65535 + 1 = 65535"
    using ones_complement(2) [OF word_sum_ip_header(2)] by simp
  moreover have "?S' \<noteq> 0" using word_sum_ip_header(1) [of tlen frame c] word_sum_ip_header(2) [of tlen frame] by linarith
  ultimately have "\<exists>d. compute_ip_checksum (ip_header tlen frame c) = Some d \<and> unat d = 0"
    using checksum_nat [of "ip_header tlen frame c"] word_sum_ip_header(3) by auto
  then show ?thesis by (auto simp: unsigned_eq_0_iff)
qed

section \<open>What a packet holds\<close>

text \<open>The receiver's view: the sequence number and the decrypted payload.\<close>

definition packet_seq_num :: "u8 list \<Rightarrow> u16" where
  "packet_seq_num pk = from_be (sub_slice 44 2 pk)"

definition packet_payload :: "Aes128Key \<Rightarrow> u8 list \<Rightarrow> u8 list" where
  "packet_payload key pk =
     fst (aes_128_gcm_encrypt key (packet_iv (packet_seq_num pk)) [] (sub_slice 54 (length pk - 70) pk))"

lemma length_packet_iv [simp]: "length (packet_iv seq) = 12"
  by (simp add: packet_iv_def STATIC_MASTER_SALT_def Let_def)

lemma length_srtp_header [simp]: "length (srtp_header seq frame) = 12"
  by (simp add: srtp_header_def)

lemma length_udp_header [simp]: "length (udp_header l) = 8"
  by (simp add: udp_header_def)

lemma length_eth_header [simp]: "length mac = 6 \<Longrightarrow> length (eth_header mac) = 14"
  by (simp add: eth_header_def)

lemma make_packet_total:
  "\<exists>c payload tag. compute_ip_checksum (ip_header (of_nat (56 + length chunk)) frame 0) = Some c \<and>
     aes_128_gcm_encrypt key (packet_iv seq) (srtp_header seq frame) chunk = (payload, tag) \<and>
     make_packet key mac frame seq chunk = Some (eth_header mac @ ip_header (of_nat (56 + length chunk)) frame c @
       udp_header (of_nat (36 + length chunk)) @ srtp_header seq frame @ payload @ tag)"
proof -
  obtain c where "compute_ip_checksum (ip_header (of_nat (56 + length chunk)) frame 0) = Some c"
    using checksum_nat [of "ip_header (of_nat (56 + length chunk)) frame 0"] word_sum_ip_header(3) by auto
  moreover have "20 + 8 + 12 + length chunk + 16 = 56 + length chunk" "8 + 12 + length chunk + 16 = 36 + length chunk"
    by simp_all
  ultimately show ?thesis
    unfolding make_packet_def Let_def
    by (cases "aes_128_gcm_encrypt key (packet_iv seq) (srtp_header seq frame) chunk") (simp only: prod.case option.case, blast)
qed

lemma sub_slice_app:
  "sub_slice (length xs) n (xs @ ys) = take n ys"
  "length xs \<le> i \<Longrightarrow> sub_slice i n (xs @ ys) = sub_slice (i - length xs) n ys"
  by (simp_all add: sub_slice_def)

lemma unat_u16: "k < 65536 \<Longrightarrow> unat (of_nat k :: u16) = k"
  by (simp add: unsigned_of_nat take_bit_eq_mod)

lemma make_packet_parts:
  assumes "length mac = 6" and "length chunk \<le> MAX_SRTP_PAYLOAD_CHUNK"
    and "make_packet key mac frame seq chunk = Some pk"
  shows "length pk = 70 + length chunk" "compute_ip_checksum (sub_slice 14 20 pk) = Some 0"
    and "unat (from_be (sub_slice 16 2 pk) :: u16) = length pk - 14"
    and "unat (from_be (sub_slice 38 2 pk) :: u16) = length pk - 34"
    and "packet_seq_num pk = seq" "packet_payload key pk = chunk"
proof -
  let ?tl = "of_nat (56 + length chunk) :: u16" and ?ul = "of_nat (36 + length chunk) :: u16"
  obtain c payload tag where c: "compute_ip_checksum (ip_header ?tl frame 0) = Some c"
    and e: "aes_128_gcm_encrypt key (packet_iv seq) (srtp_header seq frame) chunk = (payload, tag)"
    and pk: "pk = eth_header mac @ ip_header ?tl frame c @ udp_header ?ul @ srtp_header seq frame @ payload @ tag"
    using make_packet_total [of chunk frame key seq mac] assms(3) by auto
  have pt: "payload = ctr_crypt key (packet_iv seq @ [0, 0, 0, 1]) 1 chunk" "length tag = 16"
    using e gcm_payload [of key "packet_iv seq" "srtp_header seq frame" chunk]
      length_gcm_tag [of "packet_iv seq" key "srtp_header seq frame" chunk] by simp_all
  then have lp: "length payload = length chunk" by simp
  show len: "length pk = 70 + length chunk"
    using pt(2) lp assms(1) by (simp add: pk)
  have u: "unat ?tl = length pk - 14" "unat ?ul = length pk - 34"
    using assms(2) len unat_u16 [of "56 + length chunk"] unat_u16 [of "36 + length chunk"]
    by (simp_all add: MAX_SRTP_PAYLOAD_CHUNK_def)
  have "sub_slice 14 20 pk = ip_header ?tl frame c"
    using assms(1) by (simp add: pk sub_slice_app sub_slice_def)
  then show "compute_ip_checksum (sub_slice 14 20 pk) = Some 0"
    using ip_header_checksum [OF c] by simp
  have "sub_slice 16 2 pk = to_be 2 ?tl"
    using assms(1) by (simp add: pk sub_slice_app ip_header_def sub_slice_def)
  then show "unat (from_be (sub_slice 16 2 pk) :: u16) = length pk - 14"
    by (simp only: from_be_to_be16 u)
  have "sub_slice 38 2 pk = to_be 2 ?ul"
    using assms(1) by (simp add: pk sub_slice_app udp_header_def sub_slice_def)
  then show "unat (from_be (sub_slice 38 2 pk) :: u16) = length pk - 34"
    by (simp only: from_be_to_be16 u)
  have "sub_slice 44 2 pk = to_be 2 seq"
    using assms(1) by (simp add: pk sub_slice_app srtp_header_def sub_slice_def)
  then show q: "packet_seq_num pk = seq"
    by (simp only: packet_seq_num_def from_be_to_be16)
  have "sub_slice 54 (length pk - 70) pk = payload"
    using assms(1) lp len by (simp add: pk sub_slice_app sub_slice_def)
  then show "packet_payload key pk = chunk"
    by (simp add: packet_payload_def q gcm_payload pt(1) ctr_crypt_involution)
qed

section \<open>Transmission\<close>

text \<open>One round of the loop.\<close>

lemma send_chunks_late:
  "rest \<noteq> [] \<Longrightarrow> read_tsc_serialized p w = (t, w1) \<Longrightarrow> deadline < t \<Longrightarrow>
   send_chunks p m key mac frame deadline rest b seq n nic w =
     (Err DeadlineExceeded, seq, n\<lparr>TOTAL_FRAMES_DROPPED := TOTAL_FRAMES_DROPPED n + 1\<rparr>, nic, w1)"
  by (simp add: send_chunks.simps)

lemma send_chunks_step:
  assumes "rest \<noteq> []" and "read_tsc_serialized p w = (t, w1)" and "\<not> deadline < t"
    and "make_packet key mac frame seq (take (min MAX_SRTP_PAYLOAD_CHUNK (length rest)) rest) = Some pk"
  shows "send_chunks p m key mac frame deadline rest b seq n nic w =
     (case send_packet m pk w1 nic of
        (Ok _, w2, nic2) \<Rightarrow>
          send_chunks p m key mac frame deadline (drop MAX_SRTP_PAYLOAD_CHUNK rest)
            (b + (70 + min MAX_SRTP_PAYLOAD_CHUNK (length rest))) (seq + 1)
            (n\<lparr>TOTAL_PACKETS_SENT := TOTAL_PACKETS_SENT n + 1\<rparr>) nic2 w2
      | (_, w2, nic2) \<Rightarrow> (Err NicQueueFull, seq + 1, n, nic2, w2))"
proof -
  have "drop (min MAX_SRTP_PAYLOAD_CHUNK (length rest)) rest = drop MAX_SRTP_PAYLOAD_CHUNK rest"
    by (simp add: min_def)
  moreover have "14 + 20 + 8 + 12 + k + 16 = 70 + k" for k :: nat by simp
  ultimately show ?thesis
    using assms(2-4) by (subst send_chunks.simps) (simp add: assms(1) Let_def split: prod.split outcome.split)
qed

lemma make_packet_not_None: "\<exists>pk. make_packet key mac frame seq chunk = Some pk"
  using make_packet_total by blast

text \<open>Enough free descriptors and enough time: the packets are all queued, in order.\<close>

lemma send_chunks_delivers:
  assumes "length mac = 6" and "\<forall>w. fst (read_tsc_serialized p w) \<le> deadline"
  shows "tx_free ((length rest + 1379) div 1380) nic \<Longrightarrow>
   \<exists>pks n' nic' w'. send_chunks p m key mac frame deadline rest b seq n nic w =
        (Ok (b + length rest + 70 * length pks), seq + of_nat (length pks), n', nic', w') \<and>
     length pks = (length rest + 1379) div 1380 \<and>
     concat (map (packet_payload key) pks) = rest \<and>
     (\<forall>i<length pks. packet_seq_num (pks ! i) = seq + of_nat i \<and>
        compute_ip_checksum (sub_slice 14 20 (pks ! i)) = Some 0 \<and> tx_queued nic' (tx_slot nic i) (pks ! i)) \<and>
     tx_same (tx_slot nic ` {..<length pks}) nic nic' \<and> E1000_TX_TAIL nic' = tx_slot nic (length pks) \<and>
     TOTAL_PACKETS_SENT n' = TOTAL_PACKETS_SENT n + of_nat (length pks)"
proof (induction "length rest" arbitrary: rest b seq n nic w rule: less_induct)
  case less
  show ?case
  proof (cases "rest = []")
    case True
    with less.prems show ?thesis
      by (intro exI [of _ "[]"]) (simp add: send_chunks.simps tx_same_def tx_slot_def tx_free_def e1000_ok_def)
  next
    case False
    let ?C = MAX_SRTP_PAYLOAD_CHUNK
    let ?chunk = "take (min ?C (length rest)) rest" and ?rest = "drop ?C rest"
    obtain t w1 where t: "read_tsc_serialized p w = (t, w1)" "\<not> deadline < t"
      using assms(2) by (metis fst_conv not_less surj_pair)
    obtain pk where pk: "make_packet key mac frame seq ?chunk = Some pk"
      using make_packet_not_None by blast
    have cl: "length ?chunk \<le> ?C" by simp
    note parts = make_packet_parts [OF assms(1) cl pk]
    have lpk: "length pk \<le> PACKET_BUFFER_SIZE"
      using parts(1) cl by (simp add: MAX_SRTP_PAYLOAD_CHUNK_def PACKET_BUFFER_SIZE_def)
    have count: "(length rest + 1379) div 1380 = Suc ((length ?rest + 1379) div 1380)"
    proof (cases "length rest \<le> 1380")
      case True
      with False have "0 < length rest" by simp
      then obtain q where "length rest = Suc q" by (cases "length rest") auto
      with True show ?thesis by (simp add: MAX_SRTP_PAYLOAD_CHUNK_def)
    next
      case False
      then have "length rest + 1379 = (length rest - 1380 + 1379) + 1380" by simp
      then show ?thesis using False by (simp add: MAX_SRTP_PAYLOAD_CHUNK_def)
    qed
    obtain w2 nic2 where s: "send_packet m pk w1 nic = (Ok (), w2, nic2)"
        "tx_free ((length ?rest + 1379) div 1380) nic2" "tx_queued nic2 (tx_slot nic 0) pk"
        "E1000_TX_TAIL nic2 = tx_slot nic 1" "tx_same {tx_slot nic 0} nic nic2"
      using send_packet_free [OF less.prems [unfolded count] lpk, of m w1] by blast
    note shift = tx_slot_shift [OF s(4)]
    let ?n = "n\<lparr>TOTAL_PACKETS_SENT := TOTAL_PACKETS_SENT n + 1\<rparr>"
    have shorter: "length ?rest < length rest" using False by (simp add: MAX_SRTP_PAYLOAD_CHUNK_def)
    obtain pks n' nic' w' where ih:
        "send_chunks p m key mac frame deadline ?rest (b + (70 + min ?C (length rest))) (seq + 1) ?n nic2 w2 =
           (Ok (b + (70 + min ?C (length rest)) + length ?rest + 70 * length pks), seq + 1 + of_nat (length pks), n', nic', w')"
        "length pks = (length ?rest + 1379) div 1380" "concat (map (packet_payload key) pks) = ?rest"
        "\<forall>i<length pks. packet_seq_num (pks ! i) = seq + 1 + of_nat i \<and>
           compute_ip_checksum (sub_slice 14 20 (pks ! i)) = Some 0 \<and> tx_queued nic' (tx_slot nic (Suc i)) (pks ! i)"
        "tx_same ((\<lambda>j. tx_slot nic (Suc j)) ` {..<length pks}) nic2 nic'"
        "E1000_TX_TAIL nic' = tx_slot nic (Suc (length pks))"
        "TOTAL_PACKETS_SENT n' = TOTAL_PACKETS_SENT ?n + of_nat (length pks)"
      using less.hyps [OF shorter s(2), of "b + (70 + min ?C (length rest))" "seq + 1" ?n w2]
      unfolding shift by blast
    have "Suc (length pks) \<le> NUM_TX_DESCS" using less.prems count ih(2) by (simp add: tx_free_def)
    then have "tx_slot nic 0 \<notin> (\<lambda>j. tx_slot nic (Suc j)) ` {..<length pks}" by (auto simp: tx_slot_inj)
    with s(3) ih(5) have q0: "tx_queued nic' (tx_slot nic 0) pk" by (simp add: tx_same_queued)
    have same: "tx_same (tx_slot nic ` {..<length (pk # pks)}) nic nic'"
      by (rule tx_same_trans [OF s(5) ih(5)]) auto
    have "packet_seq_num ((pk # pks) ! i) = seq + of_nat i \<and>
        compute_ip_checksum (sub_slice 14 20 ((pk # pks) ! i)) = Some 0 \<and>
        tx_queued nic' (tx_slot nic i) ((pk # pks) ! i)"
      if "i < length (pk # pks)" for i
      using that ih(4) parts q0 by (cases i) (auto simp: ac_simps)
    moreover have "b + (70 + min ?C (length rest)) + length ?rest + 70 * length pks =
        b + length rest + 70 * length (pk # pks)"
      by (simp add: min_def)
    moreover have "concat (map (packet_payload key) (pk # pks)) = rest"
      using ih(3) parts(6) by (simp add: min_def)
    ultimately show ?thesis
      using send_chunks_step [OF False t pk, of m b n nic] s(1) ih(1,2,6,7) count same
      by (intro exI [of _ "pk # pks"] exI [of _ n'] exI [of _ nic'] exI [of _ w']) (auto simp: ac_simps)
  qed
qed

text \<open>The controller's state.\<close>

definition net_ok :: "net \<Rightarrow> bool" where
  "net_ok n \<longleftrightarrow>
     20 \<le> CONGESTION_RATE_PCT n \<and> CONGESTION_RATE_PCT n \<le> 100 \<and> CONSECUTIVE_GOOD_FRAMES n < 4 \<and>
     MIN_RTT_NS n \<le> LAST_RTT_NS n \<and> DELTA_DELAY_NS n = LAST_RTT_NS n - MIN_RTT_NS n"

lemma net_ok_counters [simp]:
  "net_ok (n\<lparr>TOTAL_PACKETS_SENT := a\<rparr>) = net_ok n" "net_ok (n\<lparr>TOTAL_FRAMES_DROPPED := a\<rparr>) = net_ok n"
  by (simp_all add: net_ok_def)

text \<open>What every run of the loop does to the counters.\<close>

lemma send_chunks_outcomes:
  "send_chunks p m key mac frame deadline rest b seq n nic w = (r, seq', n', nic', w') \<Longrightarrow>
   r \<noteq> Panic \<and> r \<noteq> Err InvalidFrame \<and> (e1000_ok nic \<longrightarrow> e1000_ok nic') \<and> (net_ok n' \<longleftrightarrow> net_ok n) \<and>
   TOTAL_FRAMES_DROPPED n' = TOTAL_FRAMES_DROPPED n + (if r = Err DeadlineExceeded then 1 else 0) \<and>
   (\<exists>k. seq' = seq + of_nat k + (if r = Err NicQueueFull then 1 else 0) \<and>
        TOTAL_PACKETS_SENT n' = TOTAL_PACKETS_SENT n + of_nat k)"
proof (induction "length rest" arbitrary: rest b seq n nic w rule: less_induct)
  case less
  show ?case
  proof (cases "rest = []")
    case True
    with less.prems show ?thesis by (auto simp: send_chunks.simps intro!: exI [of _ 0])
  next
    case False
    obtain t w1 where t: "read_tsc_serialized p w = (t, w1)" by fastforce
    show ?thesis
    proof (cases "deadline < t")
      case True
      with send_chunks_late [OF False t True] less.prems show ?thesis by (auto intro!: exI [of _ 0])
    next
      case late: False
      obtain pk where pk: "make_packet key mac frame seq (take (min MAX_SRTP_PAYLOAD_CHUNK (length rest)) rest) = Some pk"
        using make_packet_not_None by blast
      obtain x w2 nic2 where s: "send_packet m pk w1 nic = (x, w2, nic2)" by (metis prod_cases3)
      note step = less.prems [unfolded send_chunks_step [OF False t late pk] s prod.case]
      note keep = send_packet_ok [OF _ s]
      show ?thesis
      proof (cases x)
        case (Ok u)
        have "length (drop MAX_SRTP_PAYLOAD_CHUNK rest) < length rest"
          using False by (simp add: MAX_SRTP_PAYLOAD_CHUNK_def)
        from less.hyps [OF this step [unfolded Ok outcome.case]] keep show ?thesis
          by (auto simp: ac_simps intro: exI [of _ "Suc k" for k])
      next
        case (Err u)
        with step keep show ?thesis by (auto intro!: exI [of _ 0])
      next
        case Panic
        with send_packet_not_panic [of m pk w1 nic] s show ?thesis by simp
      qed
    qed
  qed
qed

section \<open>Properties\<close>

text \<open>C27: A frame that is sent in time and finds room in the transmit ring is handed to the card: when
  no reading of the clock is past the deadline and the descriptors from the tail on, around the
  ring, are free for its packets (unused or completed by the card), the call returns the number of
  bytes put on the wire, the packets stand in exactly these descriptors, marked to be sent, with
  consecutive sequence numbers and valid IP checksums, their decrypted payloads, put together, are
  the frame, and every other descriptor and buffer is as before.\<close>

theorem stream_send_frame_delivers:
  assumes "\<forall>w. fst (read_tsc_serialized p w) \<le> deadline" and "tx_free ((size frame + 1379) div 1380) nic"
    and "E1000_drv nic = Some d" and "length (drv_mac d) = 6"
    and "0x1000 \<le> phys_addr frame" and "0 < size frame" and "length (memory (phys_addr frame) (size frame)) = size frame"
  shows "\<exists>pks n' nic' w'. stream_send_frame p m memory frame deadline seq n nic w =
        (Ok (size frame + 70 * length pks), seq + of_nat (length pks), n', nic', w') \<and>
     length pks = (size frame + 1379) div 1380 \<and>
     concat (map (packet_payload (Aes128Key_new STATIC_MASTER_KEY)) pks) = memory (phys_addr frame) (size frame) \<and>
     (\<forall>i<length pks. packet_seq_num (pks ! i) = seq + of_nat i \<and>
        compute_ip_checksum (sub_slice 14 20 (pks ! i)) = Some 0 \<and> tx_queued nic' (tx_slot nic i) (pks ! i)) \<and>
     tx_same (tx_slot nic ` {..<length pks}) nic nic' \<and> E1000_TX_TAIL nic' = tx_slot nic (length pks) \<and>
     TOTAL_PACKETS_SENT n' = TOTAL_PACKETS_SENT n + of_nat (length pks)"
proof -
  let ?rest = "memory (phys_addr frame) (size frame)"
  obtain t w1 where t: "read_tsc_serialized p w = (t, w1)" "\<not> deadline < t"
    using assms(1) by (metis fst_conv not_less surj_pair)
  have "size frame \<le> 64 * 1380"
  proof -
    have "(size frame + 1379) div 1380 \<le> 64" using assms(2) by (simp add: tx_free_def NUM_TX_DESCS_def)
    then show ?thesis by linarith
  qed
  then have "stream_send_frame p m memory frame deadline seq n nic w =
      send_chunks p m (Aes128Key_new STATIC_MASTER_KEY) (drv_mac d) frame deadline ?rest 0 seq n nic w1"
    using t assms(3,6) leD [OF assms(5)] by (simp add: stream_send_frame_def)
  with send_chunks_delivers [OF assms(4,1), of ?rest nic m "Aes128Key_new STATIC_MASTER_KEY" frame 0 seq n w1] assms(2,7)
  show ?thesis by simp
qed

definition still_ports :: "unit ports" where
  "still_ports =
     \<lparr>inb = (\<lambda>a w. (0, w)), outb = (\<lambda>a v w. w), inw = (\<lambda>a w. (0, w)), outw = (\<lambda>a v w. w),
      read_tsc_serialized = (\<lambda>w. (1000, w))\<rparr>"

lemma e1000_started_drv: "\<exists>d. E1000_drv e1000_started = Some d \<and> length (drv_mac d) = 6"
  by (simp add: e1000_started_def init_e1000_def quiet_mmio_def Let_def mac_of_def)

text \<open>Three packets from descriptor 63 on: they go to the descriptors 63, 0 and 1.\<close>

theorem stream_send_frame_delivers_witness:
  "\<exists>pks n' nic' w'. stream_send_frame still_ports quiet_mmio (\<lambda>a l. replicate l 7)
     (empty_handle\<lparr>phys_addr := 0x10000, size := 3000\<rparr>) 2000 65535 net_init (e1000_started\<lparr>E1000_TX_TAIL := 63\<rparr>) () =
     (Ok 3210, 2, n', nic', w') \<and> length pks = 3 \<and> E1000_TX_TAIL nic' = 2 \<and>
     tx_queued nic' 63 (pks ! 0) \<and> tx_queued nic' 0 (pks ! 1) \<and> tx_queued nic' 1 (pks ! 2)"
proof -
  let ?nic = "e1000_started\<lparr>E1000_TX_TAIL := 63\<rparr>"
  obtain d where d: "E1000_drv e1000_started = Some d" "length (drv_mac d) = 6"
    using e1000_started_drv by blast
  have free: "tx_free ((3000 + 1379) div 1380) ?nic"
    by (rule tx_free_le [OF tx_free_started]) (simp_all add: NUM_TX_DESCS_def)
  obtain pks n' nic' w' where r: "stream_send_frame still_ports quiet_mmio (\<lambda>a l. replicate l 7)
      (empty_handle\<lparr>phys_addr := 0x10000, size := 3000\<rparr>) 2000 65535 net_init ?nic () =
      (Ok (3000 + 70 * length pks), 65535 + of_nat (length pks), n', nic', w')"
    "length pks = (3000 + 1379) div 1380" "\<forall>i<length pks. tx_queued nic' (tx_slot ?nic i) (pks ! i)"
    "E1000_TX_TAIL nic' = tx_slot ?nic (length pks)"
    using stream_send_frame_delivers [of still_ports 2000 "empty_handle\<lparr>phys_addr := 0x10000, size := 3000\<rparr>" ?nic d
        "\<lambda>a l. replicate l 7" quiet_mmio 65535 net_init "()"] free d
    by (auto simp: still_ports_def)
  have l: "length pks = 3" using r(2) by simp
  have "tx_queued nic' (tx_slot ?nic 0) (pks ! 0)" "tx_queued nic' (tx_slot ?nic 1) (pks ! 1)"
    "tx_queued nic' (tx_slot ?nic 2) (pks ! 2)"
    using r(3) l by simp_all
  with r(1,4) l show ?thesis by (auto simp: tx_slot_def NUM_TX_DESCS_def)
qed

lemma stream_send_frame_counts:
  assumes "stream_send_frame p m memory frame deadline seq n nic w = (r, seq', n', nic', w')" and "e1000_ok nic"
  shows "r \<noteq> Panic \<and> r \<noteq> Err InvalidFrame \<and> e1000_ok nic' \<and> (net_ok n' \<longleftrightarrow> net_ok n) \<and>
     TOTAL_FRAMES_DROPPED n' = TOTAL_FRAMES_DROPPED n + (if r = Err DeadlineExceeded then 1 else 0) \<and>
     (\<exists>k. seq' = seq + of_nat k + (if r = Err NicQueueFull then 1 else 0) \<and>
          TOTAL_PACKETS_SENT n' = TOTAL_PACKETS_SENT n + of_nat k)"
proof -
  obtain t w1 where t: "read_tsc_serialized p w = (t, w1)" by fastforce
  consider "deadline < t"
    | "\<not> deadline < t" "phys_addr frame < 0x1000 \<or> size frame = 0 \<or> 16 * 1024 * 1024 < size frame"
    | "\<not> deadline < t" "\<not> (phys_addr frame < 0x1000 \<or> size frame = 0 \<or> 16 * 1024 * 1024 < size frame)"
    by blast
  then show ?thesis
  proof cases
    case 3
    then obtain mac where "send_chunks p m (Aes128Key_new STATIC_MASTER_KEY) mac frame deadline
        (memory (phys_addr frame) (size frame)) 0 seq n nic w1 = (r, seq', n', nic', w')"
      using assms(1) t by (auto simp: stream_send_frame_def Let_def)
    from send_chunks_outcomes [OF this] assms(2) show ?thesis by simp
  qed (use assms t in \<open>auto simp: stream_send_frame_def Let_def intro!: exI [of _ 0]\<close>)
qed

text \<open>Whatever the clock and the card do, sending a frame never panics and keeps the card's
  rings well formed; a late frame counts as one dropped frame, each queued packet advances
  the sequence number and the packet counter, and a packet the card refuses uses up a sequence
  number but is counted nowhere.\<close>

theorem stream_send_frame_outcomes:
  assumes "stream_send_frame p m memory frame deadline seq n nic w = (r, seq', n', nic', w')" and "e1000_ok nic"
  shows "r \<noteq> Panic \<and> r \<noteq> Err InvalidFrame \<and> e1000_ok nic' \<and>
     TOTAL_FRAMES_DROPPED n' = TOTAL_FRAMES_DROPPED n + (if r = Err DeadlineExceeded then 1 else 0) \<and>
     (\<exists>k. seq' = seq + of_nat k + (if r = Err NicQueueFull then 1 else 0) \<and>
          TOTAL_PACKETS_SENT n' = TOTAL_PACKETS_SENT n + of_nat k)"
  using stream_send_frame_counts [OF assms] by blast

theorem stream_send_frame_outcomes_witness:
  "\<exists>seq' n' nic' w'. stream_send_frame still_ports quiet_mmio (\<lambda>a l. replicate l 7)
     (empty_handle\<lparr>phys_addr := 0x10000, size := 3000\<rparr>) 999 0 net_init e1000_started () =
     (Err DeadlineExceeded, seq', n', nic', w') \<and> TOTAL_FRAMES_DROPPED n' = 1"
proof -
  have ok: "e1000_ok e1000_started" by (rule e1000_started_ok)
  have r: "fst (stream_send_frame still_ports quiet_mmio (\<lambda>a l. replicate l 7)
     (empty_handle\<lparr>phys_addr := 0x10000, size := 3000\<rparr>) 999 0 net_init e1000_started ()) = Err DeadlineExceeded"
    by (simp add: stream_send_frame_def still_ports_def)
  then obtain seq' n' nic' w' where e: "stream_send_frame still_ports quiet_mmio (\<lambda>a l. replicate l 7)
     (empty_handle\<lparr>phys_addr := 0x10000, size := 3000\<rparr>) 999 0 net_init e1000_started () = (Err DeadlineExceeded, seq', n', nic', w')"
    by (metis fst_conv prod_cases5)
  from stream_send_frame_outcomes [OF e ok] e show ?thesis
    by (auto simp: net_init_def)
qed

lemma net_init_ok: "net_ok net_init"
  by (simp add: net_ok_def net_init_def)

lemma rate_u8:
  "20 \<le> r \<Longrightarrow> r \<le> 100 \<Longrightarrow>
   unat (max 20 (ucast ((ucast r :: u32) * 80 div 100)) :: u8) = max 20 (unat (r :: u8) * 80 div 100)"
  "r \<le> 100 \<Longrightarrow> unat (min 100 (if r \<le> 250 then r + 5 else 255) :: u8) = min 100 (unat r + 5)"
proof -
  assume "r \<le> 100"
  then have r: "unat r \<le> 100" by (simp add: word_le_nat_alt)
  have "unat ((ucast r :: u32) * 80 div 100) = unat r * 80 div 100"
    using r by (simp add: unat_div unat_word_ariths unsigned_ucast_eq take_bit_eq_mod)
  then have "unat (ucast ((ucast r :: u32) * 80 div 100) :: u8) = unat r * 80 div 100"
    using r by (simp add: unsigned_ucast_eq take_bit_eq_mod)
  then show "unat (max 20 (ucast ((ucast r :: u32) * 80 div 100)) :: u8) = max 20 (unat r * 80 div 100)"
    by (simp add: max_def word_le_nat_alt)
  have "r \<le> 250" "unat (r + 5) = unat r + 5"
    using r by (simp_all add: word_le_nat_alt unat_word_ariths)
  then show "unat (min 100 (if r \<le> 250 then r + 5 else 255) :: u8) = min 100 (unat r + 5)"
    by (simp add: min_def word_le_nat_alt)
qed

text \<open>The update by cases: the new minimum, and the rate and the run of good frames.\<close>

definition new_min :: "u64 \<Rightarrow> net \<Rightarrow> u64" where
  "new_min rtt n = (if rtt < MIN_RTT_NS n \<or> MIN_RTT_NS n = 0 then rtt else MIN_RTT_NS n)"

lemma new_min_le: "new_min rtt n \<le> rtt"
  by (auto simp: new_min_def not_less)

lemma ack_update_times:
  "LAST_RTT_NS (ack_update rtt n) = rtt" "MIN_RTT_NS (ack_update rtt n) = new_min rtt n"
  "DELTA_DELAY_NS (ack_update rtt n) = rtt - new_min rtt n"
  using new_min_le [of rtt n]
  by (auto simp: ack_update_def Let_def new_min_def saturating_sub_def not_less)

lemma ack_update_congested:
  assumes "net_ok n" and "CONGESTION_THRESHOLD_NS < rtt - new_min rtt n"
  shows "unat (CONGESTION_RATE_PCT (ack_update rtt n)) = max 20 (unat (CONGESTION_RATE_PCT n) * 80 div 100)"
    and "CONSECUTIVE_GOOD_FRAMES (ack_update rtt n) = 0"
proof -
  have d: "CONGESTION_THRESHOLD_NS < saturating_sub rtt (new_min rtt n)"
    using assms(2) new_min_le [of rtt n] by (simp add: saturating_sub_def)
  have "CONGESTION_RATE_PCT (ack_update rtt n) = max 20 (ucast ((ucast (CONGESTION_RATE_PCT n) :: u32) * 80 div 100))
      \<and> CONSECUTIVE_GOOD_FRAMES (ack_update rtt n) = 0"
    using d by (auto simp: ack_update_def Let_def new_min_def)
  with assms(1) rate_u8(1) show
    "unat (CONGESTION_RATE_PCT (ack_update rtt n)) = max 20 (unat (CONGESTION_RATE_PCT n) * 80 div 100)"
    "CONSECUTIVE_GOOD_FRAMES (ack_update rtt n) = 0"
    by (auto simp: net_ok_def)
qed

lemma ack_update_good:
  assumes "net_ok n" and "\<not> CONGESTION_THRESHOLD_NS < rtt - new_min rtt n"
  shows "unat (CONGESTION_RATE_PCT (ack_update rtt n)) =
       (if CONSECUTIVE_GOOD_FRAMES n = 3 then min 100 (unat (CONGESTION_RATE_PCT n) + 5) else unat (CONGESTION_RATE_PCT n))"
    and "unat (CONSECUTIVE_GOOD_FRAMES (ack_update rtt n)) = (unat (CONSECUTIVE_GOOD_FRAMES n) + 1) mod 4"
proof -
  have d: "\<not> CONGESTION_THRESHOLD_NS < saturating_sub rtt (new_min rtt n)"
    using assms(2) new_min_le [of rtt n] by (simp add: saturating_sub_def)
  have g: "unat (CONSECUTIVE_GOOD_FRAMES n) < 4"
    using assms(1) by (simp add: net_ok_def word_less_nat_alt)
  then have s: "unat (CONSECUTIVE_GOOD_FRAMES n + 1) = unat (CONSECUTIVE_GOOD_FRAMES n) + 1"
    by (simp add: unat_word_ariths)
  have full: "4 \<le> CONSECUTIVE_GOOD_FRAMES n + 1 \<longleftrightarrow> CONSECUTIVE_GOOD_FRAMES n = 3"
    using g s by (auto simp: word_le_nat_alt word_unat_eq_iff)
  have r: "CONGESTION_RATE_PCT (ack_update rtt n) =
      (if CONSECUTIVE_GOOD_FRAMES n = 3
       then min 100 (if CONGESTION_RATE_PCT n \<le> 250 then CONGESTION_RATE_PCT n + 5 else 255) else CONGESTION_RATE_PCT n)"
    using d full by (cases "rtt < MIN_RTT_NS n \<or> MIN_RTT_NS n = 0") (simp_all add: ack_update_def Let_def new_min_def)
  have c: "CONSECUTIVE_GOOD_FRAMES (ack_update rtt n) =
      (if CONSECUTIVE_GOOD_FRAMES n = 3 then 0 else CONSECUTIVE_GOOD_FRAMES n + 1)"
    using d full by (cases "rtt < MIN_RTT_NS n \<or> MIN_RTT_NS n = 0") (simp_all add: ack_update_def Let_def new_min_def)
  show "unat (CONGESTION_RATE_PCT (ack_update rtt n)) =
       (if CONSECUTIVE_GOOD_FRAMES n = 3 then min 100 (unat (CONGESTION_RATE_PCT n) + 5) else unat (CONGESTION_RATE_PCT n))"
    using rate_u8(2) assms(1) by (simp add: r net_ok_def)
  show "unat (CONSECUTIVE_GOOD_FRAMES (ack_update rtt n)) = (unat (CONSECUTIVE_GOOD_FRAMES n) + 1) mod 4"
    using g s by (auto simp: c word_unat_eq_iff)
qed

lemma ack_update_ok [keeps_ok]:
  assumes "net_ok n"
  shows "net_ok (ack_update rtt n)"
proof -
  have r: "20 \<le> unat (CONGESTION_RATE_PCT n)" "unat (CONGESTION_RATE_PCT n) \<le> 100"
    using assms by (simp_all add: net_ok_def word_le_nat_alt)
  show ?thesis
  proof (cases "CONGESTION_THRESHOLD_NS < rtt - new_min rtt n")
    case True
    with ack_update_congested [OF assms True] r show ?thesis
      by (auto simp: net_ok_def word_le_nat_alt ack_update_times new_min_le [simplified word_le_nat_alt])
  next
    case False
    have "(unat (CONSECUTIVE_GOOD_FRAMES n) + 1) mod 4 < 4" by simp
    with ack_update_good [OF assms False] r show ?thesis
      by (auto simp: net_ok_def word_le_nat_alt word_less_nat_alt ack_update_times new_min_le [simplified word_le_nat_alt])
  qed
qed

text \<open>A run of acknowledgements.\<close>

definition ack_all :: "u64 list \<Rightarrow> net \<Rightarrow> net" where
  "ack_all rtts n = fold ack_update rtts n"

lemma ack_all_ok: "net_ok n \<Longrightarrow> net_ok (ack_all rtts n)"
  unfolding ack_all_def by (induction rtts arbitrary: n) (auto intro: ack_update_ok)

lemma ack_all_good:
  assumes "net_ok n" and "\<forall>rtt \<in> set rtts. rtt \<le> CONGESTION_THRESHOLD_NS"
  shows "unat (CONSECUTIVE_GOOD_FRAMES (ack_all rtts n)) = (unat (CONSECUTIVE_GOOD_FRAMES n) + length rtts) mod 4 \<and>
     unat (CONGESTION_RATE_PCT (ack_all rtts n)) =
       min 100 (unat (CONGESTION_RATE_PCT n) + 5 * ((unat (CONSECUTIVE_GOOD_FRAMES n) + length rtts) div 4))"
  using assms
proof (induction rtts rule: rev_induct)
  case Nil
  then show ?case by (simp add: ack_all_def net_ok_def word_le_nat_alt word_less_nat_alt)
next
  case (snoc rtt rtts)
  let ?m = "ack_all rtts n" and ?g = "unat (CONSECUTIVE_GOOD_FRAMES n) + length rtts"
  have ok: "net_ok ?m" using ack_all_ok [OF snoc.prems(1)] .
  have "unat (rtt - new_min rtt ?m) \<le> unat rtt"
    using new_min_le [of rtt ?m] by (simp add: unat_sub)
  then have "\<not> CONGESTION_THRESHOLD_NS < rtt - new_min rtt ?m"
    using snoc.prems(2) by (simp add: word_less_nat_alt word_le_nat_alt)
  note good = ack_update_good [OF ok this]
  have c3: "CONSECUTIVE_GOOD_FRAMES ?m = 3 \<longleftrightarrow> ?g mod 4 = 3"
    using snoc by (simp add: word_unat_eq_iff)
  have e: "ack_all (rtts @ [rtt]) n = ack_update rtt ?m" by (simp add: ack_all_def)
  have "(?g mod 4 + 1) mod 4 = (?g + 1) mod 4" by (simp add: mod_simps)
  moreover have "min 100 (unat (CONGESTION_RATE_PCT n) + 5 * ((?g + 1) div 4)) =
      (if ?g mod 4 = 3 then min 100 (min 100 (unat (CONGESTION_RATE_PCT n) + 5 * (?g div 4)) + 5)
       else min 100 (unat (CONGESTION_RATE_PCT n) + 5 * (?g div 4)))"
  proof -
    have "(?g + 1) div 4 = ?g div 4 + (if ?g mod 4 = 3 then 1 else 0)" by presburger
    then show ?thesis by auto
  qed
  ultimately show ?case
    using snoc good c3 by (simp add: e add.assoc)
qed



lemma ucast_low_byte: "(ucast ((x :: u16) AND 0xFF) :: u8) = ucast x"
  unfolding and_0xFF by (rule bit_word_eqI) (auto simp: bit_simps)

text \<open>The initialisation vector depends on the 16-bit sequence number alone: different numbers
  have different vectors, and the packets \<open>i\<close> and \<open>i + 65536\<close> of a session are encrypted with
  the same key stream, so the exclusive or of their ciphertexts is that of their contents.\<close>

theorem keystream_reuse:
  assumes "length mac = 6" and "length a \<le> MAX_SRTP_PAYLOAD_CHUNK" and "length b = length a"
    and "make_packet key mac frame (of_nat i) a = Some pa"
    and "make_packet key mac frame' (of_nat (i + 65536)) b = Some pb"
  shows "map2 (XOR) (sub_slice 54 (length a) pa) (sub_slice 54 (length a) pb) = map2 (XOR) a b \<and>
     (packet_iv s = packet_iv s' \<longleftrightarrow> s = s')"
proof
  let ?s = "of_nat i :: u16"
  have s: "(of_nat (i + 65536) :: u16) = ?s" by simp
  let ?ct = "ctr_crypt key (packet_iv ?s @ [0, 0, 0, 1]) 1"
  have ct: "sub_slice 54 (length c) pk = ?ct c"
    if mk: "make_packet key mac fr ?s c = Some pk" for c fr pk
  proof -
    obtain k payload tag where e: "aes_128_gcm_encrypt key (packet_iv ?s) (srtp_header ?s fr) c = (payload, tag)"
      and pk: "pk = eth_header mac @ ip_header (of_nat (56 + length c)) fr k @
        udp_header (of_nat (36 + length c)) @ srtp_header ?s fr @ payload @ tag"
      using make_packet_total [of c fr key ?s mac] mk by auto
    have "payload = ?ct c"
      using e gcm_payload [of key "packet_iv ?s" "srtp_header ?s fr" c] by simp
    then show ?thesis
      using assms(1) by (simp add: pk sub_slice_app sub_slice_def)
  qed
  have "sub_slice 54 (length a) pa = ?ct a" "sub_slice 54 (length a) pb = ?ct b"
    using ct [OF assms(4)] ct [OF assms(5) [unfolded s]] assms(3) by simp_all
  then show "map2 (XOR) (sub_slice 54 (length a) pa) (sub_slice 54 (length a) pb) = map2 (XOR) a b"
    using assms(3) by (intro nth_equalityI)
      (auto simp: ctr_crypt_nth xor.assoc xor.left_commute [of "ks_byte key j c i" for j c i])
  show "packet_iv s = packet_iv s' \<longleftrightarrow> s = s'"
  proof
    assume e: "packet_iv s = packet_iv s'"
    from arg_cong [OF e, of "\<lambda>l. l ! 10"] arg_cong [OF e, of "\<lambda>l. l ! 11"]
    have "ucast (drop_bit 8 s AND 0xFF) = (ucast (drop_bit 8 s' AND 0xFF) :: u8)" "ucast (s AND 0xFF) = (ucast (s' AND 0xFF) :: u8)"
      by (simp_all only: packet_iv_def Let_def) (simp_all add: STATIC_MASTER_SALT_def)
    then have "(ucast (drop_bit 8 s) :: u8) = ucast (drop_bit 8 s')" "(ucast s :: u8) = ucast s'"
      by (simp_all only: ucast_low_byte)
    then show "s = s'"
      using unat_to_be_2 [of s] unat_to_be_2 [of s'] by (simp add: word_unat_eq_iff)
  qed simp
qed

theorem keystream_reuse_witness:
  "\<exists>pa pb. make_packet (Aes128Key_new STATIC_MASTER_KEY) (replicate 6 2) empty_handle 5 [1, 2] = Some pa \<and>
     make_packet (Aes128Key_new STATIC_MASTER_KEY) (replicate 6 2) empty_handle (of_nat (5 + 65536)) [7, 8] = Some pb \<and>
     map2 (XOR) (sub_slice 54 2 pa) (sub_slice 54 2 pb) = [6, 10]"
proof -
  obtain pa pb where "make_packet (Aes128Key_new STATIC_MASTER_KEY) (replicate 6 2) empty_handle (of_nat 5) [1, 2] = Some pa"
    "make_packet (Aes128Key_new STATIC_MASTER_KEY) (replicate 6 2) empty_handle (of_nat (5 + 65536)) [7, 8] = Some pb"
    using make_packet_not_None by blast
  with keystream_reuse [OF _ _ _ this] show ?thesis
    by (auto simp: MAX_SRTP_PAYLOAD_CHUNK_def numeral_2_eq_2)
qed

section \<open>The network core\<close>

text \<open>
  The whole loop body of the network core: the poll for acknowledgements, the pop, the deadline
  20 ms ahead, the transmission and the counters. With \<open>checked\<close> the difference of the two
  readings around the transmission panics when the clock went backwards.
\<close>

definition network_core ::
  "bool \<Rightarrow> 'w ports \<Rightarrow> 'w mmio \<Rightarrow> (u64 \<Rightarrow> nat \<Rightarrow> u8 list) \<Rightarrow> u64 \<Rightarrow> pipeline \<Rightarrow> net \<Rightarrow> e1000 \<Rightarrow> 'w \<Rightarrow>
   (unit, pipeline) outcome \<times> net \<times> e1000 \<times> 'w" where
  "network_core checked p m memory freq pln n nic w =
     (let pln = pln\<lparr>loop_counts := (loop_counts pln)[3 := loop_counts pln ! 3 + 1]\<rparr>
      in case poll_rx_ack p m freq w nic n of
        (Ok _, w, nic, n) \<Rightarrow>
          (case pop (encode_to_net pln) of
             None \<Rightarrow> (Ok pln, n, nic, w)
           | Some (frame, ring) \<Rightarrow>
               let pln = pln\<lparr>encode_to_net := ring\<rparr>;
                   deadline_delta_tsc = ns_to_tsc 20000000 freq;
                   (now, w) = read_tsc_serialized p w;
                   deadline_tsc = now + deadline_delta_tsc;
                   (send_start_tsc, w) = read_tsc_serialized p w
               in (case stream_send_frame p m memory frame deadline_tsc (net_packet_seq pln) n nic w of
                     (Ok sent, seq, n, nic, w) \<Rightarrow>
                       let pln = pln\<lparr>net_packet_seq := seq\<rparr>;
                           (send_end_tsc, w) = read_tsc_serialized p w
                       in if checked \<and> send_end_tsc < send_start_tsc then (Panic, n, nic, w)
                          else let send_lat_ns = tsc_to_ns (send_end_tsc - send_start_tsc) freq;
                                   pln = pln\<lparr>LAST_NET_SEND_LATENCY_NS := send_lat_ns\<rparr>;
                                   pln = pln\<lparr>NETWORK_FRAMES_SENT := NETWORK_FRAMES_SENT pln + 1\<rparr>;
                                   pln = pln\<lparr>LAST_NET_BYTES_SENT := of_nat sent\<rparr>
                               in (Ok pln, n, nic, w)
                   | (Err _, seq, n, nic, w) \<Rightarrow> (Ok (pln\<lparr>net_packet_seq := seq\<rparr>), n, nic, w)
                   | (Panic, seq, n, nic, w) \<Rightarrow> (Panic, n, nic, w)))
      | (_, w, nic, n) \<Rightarrow> (Panic, n, nic, w))"

text \<open>
  A counter that does not go backwards: \<open>clock w\<close> is the last reading, no reading is below it, and
  writes to the registers of the card do not set it back.
\<close>

definition monotone_clock :: "'w ports \<Rightarrow> 'w mmio \<Rightarrow> ('w \<Rightarrow> u64) \<Rightarrow> bool" where
  "monotone_clock p m clock \<longleftrightarrow>
     (\<forall>w t w'. read_tsc_serialized p w = (t, w') \<longrightarrow> clock w \<le> t \<and> clock w' = t) \<and>
     (\<forall>a r v w. clock w \<le> clock (mmio_write32 m a r v w))"

lemma send_packet_clock:
  "monotone_clock p m clock \<Longrightarrow> send_packet m pk w nic = (x, w', nic') \<Longrightarrow> clock w \<le> clock w'"
  by (auto simp: send_packet_def Let_def monotone_clock_def split: if_splits)

lemma send_chunks_clock:
  assumes "monotone_clock p m clock"
  shows "send_chunks p m key mac frame deadline rest b seq n nic w = (r, seq', n', nic', w') \<Longrightarrow> clock w \<le> clock w'"
proof (induction "length rest" arbitrary: rest b seq n nic w rule: less_induct)
  case less
  show ?case
  proof (cases "rest = []")
    case True
    with less.prems show ?thesis by (simp add: send_chunks.simps)
  next
    case False
    obtain t w1 where t: "read_tsc_serialized p w = (t, w1)" by fastforce
    have w1: "clock w \<le> clock w1" using assms t by (fastforce simp: monotone_clock_def)
    show ?thesis
    proof (cases "deadline < t")
      case True
      with send_chunks_late [OF False t True] less.prems w1 show ?thesis by simp
    next
      case late: False
      obtain pk where pk: "make_packet key mac frame seq (take (min MAX_SRTP_PAYLOAD_CHUNK (length rest)) rest) = Some pk"
        using make_packet_not_None by blast
      obtain x w2 nic2 where s: "send_packet m pk w1 nic = (x, w2, nic2)" by (metis prod_cases3)
      note step = less.prems [unfolded send_chunks_step [OF False t late pk] s prod.case]
      note w2 = order_trans [OF w1 send_packet_clock [OF assms s]]
      show ?thesis
      proof (cases x)
        case (Ok u)
        have "length (drop MAX_SRTP_PAYLOAD_CHUNK rest) < length rest"
          using False by (simp add: MAX_SRTP_PAYLOAD_CHUNK_def)
        from less.hyps [OF this step [unfolded Ok outcome.case]] w2 show ?thesis by (rule order_trans [rotated])
      qed (use step w2 in auto)
    qed
  qed
qed

lemma stream_send_frame_clock:
  assumes "monotone_clock p m clock"
    and "stream_send_frame p m memory frame deadline seq n nic w = (r, seq', n', nic', w')"
  shows "clock w \<le> clock w'"
proof -
  obtain t w1 where t: "read_tsc_serialized p w = (t, w1)" by fastforce
  have w1: "clock w \<le> clock w1" using assms(1) t by (fastforce simp: monotone_clock_def)
  show ?thesis
    using assms(2) t w1 send_chunks_clock [OF assms(1)]
    by (auto simp: stream_send_frame_def Let_def split: if_splits intro: order_trans)
qed

lemma poll_rx_packet_no_Err: "fst (poll_rx_packet m out w st) \<noteq> Err e"
  by (auto simp: poll_rx_packet_def Let_def)

lemma poll_rx_ack_ok:
  assumes "e1000_ok nic" and "net_ok n" and "poll_rx_ack p m freq w nic n = (r, w', nic', n')"
  shows "(\<exists>b. r = Ok b) \<and> e1000_ok nic' \<and> net_ok n'"
proof -
  obtain x w1 nic1 where x: "poll_rx_packet m (replicate 128 0) w nic = (x, w1, nic1)" by (metis prod_cases3)
  have ok: "e1000_ok nic1" by (rule poll_rx_packet_ok [OF assms(1) x])
  have "x \<noteq> Panic"
    using poll_rx_packet_not_panic [OF assms(1), of "replicate 128 0" m w] x by (simp add: PACKET_BUFFER_SIZE_def)
  moreover have "x \<noteq> Err e" for e using poll_rx_packet_no_Err [of m "replicate 128 0" w nic e] x by simp
  ultimately obtain y where y: "x = Ok y" by (cases x) auto
  have ack: "net_ok (fst (on_ack_received p t f v n))" for t f v
    using assms(2) by (auto simp: on_ack_received_def Let_def intro: ack_update_ok split: prod.splits)
  show ?thesis
    using assms(2,3) x y ok ack
    by (auto simp: poll_rx_ack_def Let_def split: prod.splits option.splits if_splits) (metis fst_conv)
qed

lemma network_core_iteration:
  assumes "e1000_ok nic" and "net_ok n" and "checked \<Longrightarrow> monotone_clock p m clock"
    and "network_core checked p m memory freq pln n nic w = (r, n', nic', w')"
  shows "(\<exists>pln' t0 t1 sent seq. r = Ok pln' \<and> network_iteration checked freq t0 t1 sent seq pln = Some pln') \<and>
     e1000_ok nic' \<and> net_ok n'"
proof -
  obtain b w1 nic1 n1 where a: "poll_rx_ack p m freq w nic n = (Ok b, w1, nic1, n1)"
    and ok: "e1000_ok nic1" "net_ok n1"
    using poll_rx_ack_ok [OF assms(1,2)] by (metis prod_cases4)
  note core = network_core_def network_iteration_def count_loop_def Let_def
  show ?thesis
  proof (cases "pop (encode_to_net pln)")
    case None
    with assms(4) a ok show ?thesis by (auto simp: core)
  next
    case (Some fr)
    obtain frame ring where fr: "fr = (frame, ring)" by fastforce
    obtain now w2 where t1: "read_tsc_serialized p w1 = (now, w2)" by fastforce
    obtain st w3 where t2: "read_tsc_serialized p w2 = (st, w3)" by fastforce
    obtain res seq n2 nic2 w4 where s: "stream_send_frame p m memory frame (now + ns_to_tsc 20000000 freq)
        (net_packet_seq pln) n1 nic1 w3 = (res, seq, n2, nic2, w4)" by (metis prod_cases5)
    obtain en w5 where t3: "read_tsc_serialized p w4 = (en, w5)" by fastforce
    have keep: "e1000_ok nic2" "res \<noteq> Panic" "net_ok n2"
      using stream_send_frame_counts [OF s ok(1)] ok(2) by auto
    have up: "\<not> (checked \<and> en < st)"
    proof
      assume c: "checked \<and> en < st"
      then have m: "monotone_clock p m clock" using assms(3) by simp
      then have "clock w3 = st" "clock w4 \<le> en" using t2 t3 unfolding monotone_clock_def by blast+
      with stream_send_frame_clock [OF m s] c show False by (meson leD order_trans)
    qed
    show ?thesis
    proof (cases res)
      case (Ok sent)
      let ?pln = "pln\<lparr>loop_counts := (loop_counts pln)[3 := loop_counts pln ! 3 + 1],
          encode_to_net := ring, net_packet_seq := seq, LAST_NET_SEND_LATENCY_NS := tsc_to_ns (en - st) freq,
          NETWORK_FRAMES_SENT := NETWORK_FRAMES_SENT pln + 1, LAST_NET_BYTES_SENT := of_nat sent\<rparr>"
      have "r = Ok ?pln" "n' = n2" "nic' = nic2"
        using Ok assms(4) a Some fr t1 t2 t3 s up by (auto simp: core)
      moreover have "network_iteration checked freq st en (Some (of_nat sent)) seq pln = Some ?pln"
        using up Some fr by (auto simp: core)
      ultimately show ?thesis using keep by blast
    next
      case (Err e)
      let ?pln = "pln\<lparr>loop_counts := (loop_counts pln)[3 := loop_counts pln ! 3 + 1],
          encode_to_net := ring, net_packet_seq := seq\<rparr>"
      have "r = Ok ?pln" "n' = n2" "nic' = nic2"
        using Err assms(4) a Some fr t1 t2 s by (auto simp: core)
      moreover have "network_iteration checked freq 0 0 None seq pln = Some ?pln"
        using Some fr by (auto simp: core)
      ultimately show ?thesis using keep by blast
    qed (use keep in simp)
  qed
qed

text \<open>C28: The loop body of the network core, with the real packet path, keeps the pipeline on its
  course: without overflow checks, or with a clock that does not go backwards, it never panics; it
  takes the front frame of the ring and leaves a pipeline that the runs of the three cores reach, so
  that their order results hold for it; the invariants of the card's driver and of the congestion
  controller are kept.\<close>

theorem network_core_refines:
  assumes "e1000_ok nic" and "net_ok n" and "checked \<Longrightarrow> monotone_clock p m clock" and "pipe_reach bench s"
    and "network_core checked p m memory freq (pl s) n nic w = (r, n', nic', w')"
  shows "(\<exists>s'. r = Ok (pl s') \<and> pipe_reach bench s' \<and>
        delivered s' = delivered s @ take 1 (contents (encode_to_net (pl s))) \<and>
        contents (encode_to_net (pl s')) = drop 1 (contents (encode_to_net (pl s))) \<and>
        captured s' = captured s \<and> encoded s' = encoded s) \<and>
     e1000_ok nic' \<and> net_ok n'"
proof -
  obtain pln' t0 t1 sent seq where i: "r = Ok pln'" "network_iteration checked freq t0 t1 sent seq (pl s) = Some pln'"
    and ok: "e1000_ok nic'" "net_ok n'"
    using network_core_iteration [OF assms(1,2,3,5)] by blast
  let ?q = "encode_to_net (pl s)"
  let ?s' = "s\<lparr>pl := pln', delivered := delivered s @ popped_front ?q\<rparr>"
  have "network_step checked freq t0 t1 sent seq s = Some ?s'" using i(2) by (simp add: network_step_def)
  then have reach: "pipe_reach bench ?s'" using assms(4) by (rule pipe_reach.network [rotated])
  have rq: "ring_ok 16 ?q" using pipe_reach_order [OF assms(4)] by (simp add: order_inv_def)
  have "popped_front ?q = take 1 (contents ?q) \<and> contents (encode_to_net pln') = drop 1 (contents ?q)"
  proof (cases "pop ?q")
    case None
    then have "contents ?q = []" using ring16.pop_none [OF rq] by simp
    with None i(2) show ?thesis by (auto simp: popped_front_def network_iteration_def)
  next
    case (Some hr)
    then obtain h q where hr: "pop ?q = Some (h, q)" by (cases hr) simp
    then show ?thesis using ring16.pop_some [OF rq hr] i(2)
      by (auto simp: popped_front_def network_iteration_def Let_def split: option.splits if_splits)
  qed
  with reach i(1) ok show ?thesis by (intro conjI exI [of _ ?s']) auto
qed

theorem network_core_refines_witness:
  "\<exists>s r n' nic' w'. pipe_reach False s \<and>
     network_core True still_ports quiet_mmio (\<lambda>a l. replicate l 7) 1000000 (pl s) net_init e1000_started () =
     (r, n', nic', w') \<and> (\<exists>s'. r = Ok (pl s') \<and> pipe_reach False s') \<and> e1000_ok nic'"
proof -
  let ?s = "run_init (\<lambda>_. 0) 0 0"
  have s: "pipe_reach False ?s" by (rule pipe_reach.init)
  have clock: "monotone_clock still_ports quiet_mmio (\<lambda>_. 1000)"
    by (simp add: monotone_clock_def still_ports_def)
  obtain r n' nic' w' where e: "network_core True still_ports quiet_mmio (\<lambda>a l. replicate l 7) 1000000 (pl ?s) net_init
      e1000_started () = (r, n', nic', w')" by (metis prod_cases4)
  from network_core_refines [OF e1000_started_ok net_init_ok clock s e] e s show ?thesis by blast
qed

text \<open>
  With overflow checks and a clock that goes backwards the loop body does panic: the first reading
  is 10, all later ones are lower.
\<close>

definition falling_ports :: "u64 ports" where
  "falling_ports =
     \<lparr>inb = (\<lambda>a w. (0, w)), outb = (\<lambda>a v w. w), inw = (\<lambda>a w. (0, w)), outw = (\<lambda>a v w. w),
      read_tsc_serialized = (\<lambda>w. (w, w - 1))\<rparr>"

definition still_mmio :: "u64 mmio" where
  "still_mmio = \<lparr>mmio_read32 = (\<lambda>b r w. (0, w)), mmio_write32 = (\<lambda>b r v w. w)\<rparr>"

definition one_frame :: pipeline where
  "one_frame = pipeline_init\<lparr>encode_to_net := \<lparr>buffer = replicate 16 empty_handle, head = 1, tail = 0\<rparr>\<rparr>"

theorem network_core_clock_panics:
  "fst (network_core True falling_ports still_mmio (\<lambda>a l. replicate l 7) 1000000 one_frame net_init e1000_static 10) = Panic"
proof -
  have "poll_rx_ack falling_ports still_mmio 1000000 10 e1000_static net_init = (Ok False, 10, e1000_static, net_init)"
    by (simp add: poll_rx_ack_def poll_rx_packet_def e1000_static_def)
  moreover have "pop (encode_to_net one_frame) = Some (empty_handle, \<lparr>buffer = replicate 16 empty_handle, head = 1, tail = 1\<rparr>)"
    by (simp add: one_frame_def pop_def)
  moreover have "stream_send_frame falling_ports still_mmio (\<lambda>a l. replicate l 7) empty_handle d s net_init e1000_static 8 =
      (if d < 8 then (Err DeadlineExceeded, s, net_init\<lparr>TOTAL_FRAMES_DROPPED := 1\<rparr>, e1000_static, 7)
       else (Ok 0, s, net_init, e1000_static, 7))" for d s
    by (simp add: stream_send_frame_def falling_ports_def empty_handle_def net_init_def)
  ultimately show ?thesis
    by (simp add: network_core_def falling_ports_def ns_to_tsc_def)
qed

end
