(* ===== verification/Latency.thy ===== *)
theory Latency
  imports Ports Store "HOL-Library.Multiset"
begin

text \<open>
  The latency profiler (\<^verbatim>\<open>kernel/src/latency.rs\<close>): the event log of one run, the samples of
  each pipeline stage, the in-place quicksort and the statistics computed with it, and the two
  reports. A report is the list of lines it prints.
\<close>

section \<open>Events and samples\<close>

definition MAX_EVENTS :: nat where "MAX_EVENTS = 16"
definition NUM_PIPELINE_STAGES :: nat where "NUM_PIPELINE_STAGES = 7"
definition STATS_SAMPLE_COUNT :: nat where "STATS_SAMPLE_COUNT = 1000"

record LatencyRecord =
  tsc :: u64
  core_id :: u8
  event_id :: u8
  valid :: bool

definition AtomicLatencyRecord_new :: LatencyRecord where
  "AtomicLatencyRecord_new = \<lparr>tsc = 0, core_id = 0, event_id = 0, valid = False\<rparr>"

record profiler =
  EVENT_LOG :: "LatencyRecord list"
  STAGE_SAMPLES :: "u32 list list"

definition profiler_init :: profiler where
  "profiler_init =
     \<lparr>EVENT_LOG = replicate MAX_EVENTS AtomicLatencyRecord_new,
      STAGE_SAMPLES = replicate NUM_PIPELINE_STAGES (replicate STATS_SAMPLE_COUNT 0)\<rparr>"

text \<open>\<open>lapic_id\<close> is the identifier of the running core, as the \<^verbatim>\<open>cpuid\<close> instruction has it.\<close>

definition latency_mark :: "'w ports \<Rightarrow> u8 \<Rightarrow> u8 \<Rightarrow> 'w \<Rightarrow> profiler \<Rightarrow> profiler \<times> 'w" where
  "latency_mark p lapic_id ev w pr =
     (let (t, w) = read_tsc_serialized p w;
          i = unat ev mod MAX_EVENTS
      in (pr\<lparr>EVENT_LOG := (EVENT_LOG pr)[i := \<lparr>tsc = t, core_id = lapic_id, event_id = ev, valid = True\<rparr>]\<rparr>, w))"

definition get_event_name :: "nat \<Rightarrow> str \<times> str" where
  "get_event_name ev =
     (if ev = 0 then (bytes ''Input Event Trigger'', bytes ''0.00 ms (0 us)'')
      else if ev = 1 then (bytes ''ISR Wakeup / Dispatch'', bytes ''0.05 ms (50 us)'')
      else if ev = 2 then (bytes ''Userspace Completion Notify'', bytes ''0.15 ms (150 us)'')
      else if ev = 3 then (bytes ''GPU Processing Start'', bytes ''0.30 ms (300 us)'')
      else if ev = 4 then (bytes ''Screen Frame Capture Done'', bytes ''2.00 ms (2000 us)'')
      else if ev = 5 then (bytes ''NVENC Video Encode Done'', bytes ''4.50 ms (4500 us)'')
      else if ev = 6 then (bytes ''Kernel-Bypass NIC TX Sent'', bytes ''5.00 ms (5000 us)'')
      else if ev = 7 then (bytes ''Loop Iteration Start'', bytes ''< 50 ns'')
      else if ev = 8 then (bytes ''Loop Iteration End'', bytes ''< 50 ns'')
      else (bytes ''Custom Event'', bytes ''N/A''))"

definition get_stage_info :: "nat \<Rightarrow> str \<times> nat" where
  "get_stage_info stage =
     (if stage = 0 then (bytes ''Input -> ISR Wakeup'', 50)
      else if stage = 1 then (bytes ''ISR -> Userspace Notify'', 100)
      else if stage = 2 then (bytes ''Userspace -> GPU Start'', 150)
      else if stage = 3 then (bytes ''GPU Start -> Capture Done'', 1700)
      else if stage = 4 then (bytes ''Capture -> NVENC Encode'', 2500)
      else if stage = 5 then (bytes ''NVENC -> Network TX Sent'', 500)
      else if stage = 6 then (bytes ''Total Glass-to-Glass (E2E)'', 5000)
      else (bytes ''Unknown Stage'', 0))"

definition record_stage_sample :: "nat \<Rightarrow> nat \<Rightarrow> u32 \<Rightarrow> profiler \<Rightarrow> profiler" where
  "record_stage_sample stage_idx sample_idx val_ns pr =
     (if stage_idx < NUM_PIPELINE_STAGES \<and> sample_idx < STATS_SAMPLE_COUNT
      then pr\<lparr>STAGE_SAMPLES := (STAGE_SAMPLES pr)
                [stage_idx := (STAGE_SAMPLES pr ! stage_idx)[sample_idx := val_ns]]\<rparr>
      else pr)"

section \<open>Quicksort\<close>

text \<open>\<^verbatim>\<open>arr.swap(i, j)\<close> for indices inside the slice.\<close>

definition swap :: "nat \<Rightarrow> nat \<Rightarrow> 'a list \<Rightarrow> 'a list" where
  "swap i j xs = xs[i := xs ! j, j := xs ! i]"

text \<open>The loop over \<open>j\<close>, with the number of elements already moved to the front.\<close>

definition part_step :: "u32 \<Rightarrow> nat \<Rightarrow> nat \<times> u32 list \<Rightarrow> nat \<times> u32 list" where
  "part_step pivot j s =
     (case s of (i, arr) \<Rightarrow> if arr ! j \<le> pivot then (i + 1, swap i j arr) else (i, arr))"

definition partition_u32 :: "u32 list \<Rightarrow> nat \<times> u32 list" where
  "partition_u32 arr =
     (let len = length arr;
          pivot = arr ! (len - 1);
          (i, arr) = fold (part_step pivot) [0..<len - 1] (0, arr)
      in (i, swap i (len - 1) arr))"

lemma length_swap [simp]: "length (swap i j xs) = length xs"
  by (simp add: swap_def)

lemma nth_swap:
  "i < length xs \<Longrightarrow> j < length xs \<Longrightarrow> k < length xs \<Longrightarrow>
   swap i j xs ! k = xs ! (if k = i then j else if k = j then i else k)"
  by (auto simp: swap_def nth_list_update)

lemma mset_swap_at: "i < length xs \<Longrightarrow> j < length xs \<Longrightarrow> mset (swap i j xs) = mset xs"
  unfolding swap_def by (rule mset_swap)

text \<open>
  What the loop keeps: the elements moved so far are at most the pivot, the ones passed over
  are above it, the pivot itself stays at the end.
\<close>

lemma part_loop:
  assumes "m < length arr" and "fold (part_step (last arr)) [0..<m] (0, arr) = (i, ys)"
  shows "mset ys = mset arr \<and> length ys = length arr \<and> i \<le> m \<and>
     (\<forall>k<i. ys ! k \<le> last arr) \<and> (\<forall>k. i \<le> k \<and> k < m \<longrightarrow> last arr < ys ! k) \<and>
     (\<forall>k. m \<le> k \<and> k < length arr \<longrightarrow> ys ! k = arr ! k)"
  using assms
proof (induction m arbitrary: i ys)
  case (Suc m)
  obtain i0 ys0 where f: "fold (part_step (last arr)) [0..<m] (0, arr) = (i0, ys0)"
    by (cases "fold (part_step (last arr)) [0..<m] (0, arr)")
  with Suc.IH [OF _ f] Suc.prems(1)
  have ih: "mset ys0 = mset arr" "length ys0 = length arr" "i0 \<le> m" "\<forall>k<i0. ys0 ! k \<le> last arr"
    "\<forall>k. i0 \<le> k \<and> k < m \<longrightarrow> last arr < ys0 ! k" "\<forall>k. m \<le> k \<and> k < length arr \<longrightarrow> ys0 ! k = arr ! k"
    by auto
  have s: "part_step (last arr) m (i0, ys0) = (i, ys)"
    using Suc.prems(2) f by simp
  show ?case
  proof (cases "ys0 ! m \<le> last arr")
    case True
    with s have "i = i0 + 1" "ys = swap i0 m ys0"
      by (auto simp: part_step_def)
    with True ih Suc.prems(1) show ?thesis
      by (auto simp: mset_swap_at nth_swap less_Suc_eq)
  next
    case False
    with s have "i = i0" "ys = ys0"
      by (auto simp: part_step_def)
    with False ih Suc.prems(1) show ?thesis
      by (auto simp: less_Suc_eq not_le)
  qed
qed simp

lemma partition_u32_spec:
  assumes "arr \<noteq> []" and "partition_u32 arr = (i, ys)"
  shows "i < length arr" "length ys = length arr" "mset ys = mset arr"
    and "x \<in> set (take i ys) \<Longrightarrow> x \<le> ys ! i" "x \<in> set (drop (i + 1) ys) \<Longrightarrow> ys ! i \<le> x"
proof -
  let ?m = "length arr - 1"
  obtain zs where f: "fold (part_step (last arr)) [0..<?m] (0, arr) = (i, zs)"
    and ys: "ys = swap i ?m zs"
    using assms by (auto simp: partition_u32_def Let_def last_conv_nth split: prod.splits)
  have m: "?m < length arr" using assms(1) by simp
  note l = part_loop [OF m f]
  have i: "i \<le> ?m" and len: "length zs = length arr" and piv: "zs ! ?m = last arr"
    using l m assms(1) by (auto simp: last_conv_nth)
  have il: "i < length zs" and ml: "?m < length zs" using i m len by auto
  show "i < length arr" "length ys = length arr" "mset ys = mset arr"
    using l il ml ys by (auto simp: mset_swap_at)
  have at: "ys ! k = zs ! (if k = i then ?m else if k = ?m then i else k)" if "k < length arr" for k
    using that il ml len ys by (simp add: nth_swap)
  have yi: "ys ! i = last arr" using at [of i] il len piv by simp
  show "x \<le> ys ! i" if "x \<in> set (take i ys)"
  proof -
    from that obtain k where "k < i" "x = ys ! k"
      by (auto simp: in_set_conv_nth)
    with at [of k] l il len i show ?thesis by (auto simp: yi)
  qed
  show "ys ! i \<le> x" if "x \<in> set (drop (i + 1) ys)"
  proof -
    from that obtain k where k: "i < k" "k < length arr" "x = ys ! k"
      using \<open>length ys = length arr\<close>
      by (auto simp: in_set_conv_nth) (metis add.commute add_Suc_right less_add_Suc1 less_diff_conv)
    show ?thesis
    proof (cases "k = ?m")
      case True
      with k at [of k] i have "x = zs ! i" by (auto split: if_splits)
      moreover have "last arr < zs ! i" using l k True by auto
      ultimately show ?thesis by (simp add: yi)
    next
      case False
      with k at [of k] l show ?thesis by (auto simp: yi intro: less_imp_le)
    qed
  qed
qed

text \<open>The recursive calls sort the slices before and after the pivot in place.\<close>

function quicksort_u32 :: "u32 list \<Rightarrow> u32 list" where
  "quicksort_u32 arr =
     (if length arr \<le> 1 then arr
      else let (pivot_idx, arr) = partition_u32 arr
           in quicksort_u32 (take pivot_idx arr) @ [arr ! pivot_idx] @
              quicksort_u32 (drop (pivot_idx + 1) arr))"
  by pat_completeness auto
termination
proof (relation "measure length", goal_cases)
  case (2 arr p i ys)
  then have "arr \<noteq> []" "partition_u32 arr = (i, ys)" by auto
  with partition_u32_spec [OF this] show ?case by simp
next
  case (3 arr p i ys)
  then have "arr \<noteq> []" "partition_u32 arr = (i, ys)" by auto
  with partition_u32_spec [OF this] show ?case by simp
qed simp

declare quicksort_u32.simps [simp del]

text \<open>The recursion rule as cases.\<close>

lemma quicksort_step:
  "\<not> length arr \<le> 1 \<Longrightarrow> partition_u32 arr = (i, ys) \<Longrightarrow>
   quicksort_u32 arr = quicksort_u32 (take i ys) @ [ys ! i] @ quicksort_u32 (drop (i + 1) ys)"
  by (simp add: quicksort_u32.simps [of arr])

lemma mset_quicksort: "mset (quicksort_u32 arr) = mset arr"
proof (induction arr rule: quicksort_u32.induct)
  case (1 arr)
  show ?case
  proof (cases "length arr \<le> 1")
    case False
    obtain i ys where p: "partition_u32 arr = (i, ys)" by (cases "partition_u32 arr")
    with False have ne: "arr \<noteq> []" by auto
    note ps = partition_u32_spec [OF ne p]
    have "mset (take i ys @ [ys ! i] @ drop (i + 1) ys) = mset ys"
      using ps(1,2) id_take_nth_drop [of i ys] by simp
    with 1 False p ps show ?thesis by (simp add: quicksort_step)
  qed (simp add: quicksort_u32.simps)
qed

lemma set_quicksort [simp]: "set (quicksort_u32 arr) = set arr"
  by (rule mset_eq_setD) (rule mset_quicksort)

lemma sorted_quicksort: "sorted (quicksort_u32 arr)"
proof (induction arr rule: quicksort_u32.induct)
  case (1 arr)
  show ?case
  proof (cases "length arr \<le> 1")
    case True
    then show ?thesis by (cases arr) (auto simp: quicksort_u32.simps)
  next
    case False
    obtain i ys where p: "partition_u32 arr = (i, ys)" by (cases "partition_u32 arr")
    with False have ne: "arr \<noteq> []" by auto
    note ps = partition_u32_spec [OF ne p]
    from 1 False p have "sorted (quicksort_u32 (take i ys))" "sorted (quicksort_u32 (drop (i + 1) ys))"
      by auto
    with False p ps(4,5) show ?thesis
      by (auto simp: quicksort_step sorted_append intro: order_trans)
  qed
qed

lemma quicksort_is_sort: "quicksort_u32 arr = sort arr"
  by (rule sym, rule properties_for_sort) (simp_all add: mset_quicksort sorted_quicksort)

lemma length_quicksort [simp]: "length (quicksort_u32 arr) = length arr"
  by (simp add: quicksort_is_sort)

section \<open>Statistics\<close>

record StageStats =
  mean_us :: u32
  p50_us :: u32
  p95_us :: u32
  p99_us :: u32
  max_us :: u32
  min_us :: u32

text \<open>\<^term>\<open>None\<close> is the panic of a stage index out of range.\<close>

definition compute_stage_stats :: "profiler \<Rightarrow> nat \<Rightarrow> StageStats option" where
  "compute_stage_stats pr stage_idx =
     (case idx (STAGE_SAMPLES pr) stage_idx of
        None \<Rightarrow> None
      | Some samples \<Rightarrow>
          let sorted = quicksort_u32 samples;
              sum = fold (\<lambda>v s. s + ucast v) sorted (0 :: u64);
              mean_ns = (ucast (sum div of_nat STATS_SAMPLE_COUNT) :: u32)
          in Some \<lparr>mean_us = mean_ns div 1000,
                   p50_us = sorted ! (STATS_SAMPLE_COUNT * 50 div 100) div 1000,
                   p95_us = sorted ! (STATS_SAMPLE_COUNT * 95 div 100) div 1000,
                   p99_us = sorted ! (STATS_SAMPLE_COUNT * 99 div 100) div 1000,
                   max_us = sorted ! (STATS_SAMPLE_COUNT - 1) div 1000,
                   min_us = sorted ! 0 div 1000\<rparr>)"

section \<open>Reports\<close>

text \<open>\<^verbatim>\<open>{:n}\<close> pads a number on the left and a string on the right.\<close>

definition num_w :: "nat \<Rightarrow> nat \<Rightarrow> str" where
  "num_w n v = (let s = dec_nat v in replicate (n - length s) 32 @ s)"

definition str_w :: "nat \<Rightarrow> str \<Rightarrow> str" where
  "str_w n s = s @ replicate (n - length s) 32"

definition report_row :: "u64 \<Rightarrow> u64 \<Rightarrow> nat \<Rightarrow> LatencyRecord \<Rightarrow> u64 option \<Rightarrow> str \<times> u64 option" where
  "report_row freq_hz base_tsc ev r prev_ns =
     (let time_ns = tsc_to_ns (saturating_sub (tsc r) base_tsc) freq_hz;
          (desc, budget) = get_event_name ev;
          delta_ns = (case prev_ns of Some q \<Rightarrow> saturating_sub time_ns q | None \<Rightarrow> 0)
      in (num_w 8 ev @ bytes '' | '' @ str_w 29 desc @ bytes '' | '' @ num_w 4 (unat (core_id r)) @
          bytes '' | '' @ num_w 14 (unat time_ns) @ bytes '' | '' @ num_w 10 (unat delta_ns) @
          bytes '' | '' @ budget, Some time_ns))"

fun report_rows :: "u64 \<Rightarrow> u64 \<Rightarrow> LatencyRecord list \<Rightarrow> nat list \<Rightarrow> u64 option \<Rightarrow> str list" where
  "report_rows freq_hz base_tsc log [] prev_ns = []"
| "report_rows freq_hz base_tsc log (ev # evs) prev_ns =
     (if valid (log ! ev)
      then let (row, prev_ns) = report_row freq_hz base_tsc ev (log ! ev) prev_ns
           in row # report_rows freq_hz base_tsc log evs prev_ns
      else report_rows freq_hz base_tsc log evs prev_ns)"

definition loop_report :: "u64 \<Rightarrow> LatencyRecord list \<Rightarrow> str list" where
  "loop_report freq_hz log =
     (let loop_start = log ! 7; loop_end = log ! 8
      in if valid loop_start \<and> valid loop_end \<and> tsc loop_start < tsc loop_end
         then let loop_cycles = tsc loop_end - tsc loop_start;
                  loop_ns = tsc_to_ns loop_cycles freq_hz;
                  per_iter_ns = loop_ns div 10000;
                  per_iter_cycles = loop_cycles div 10000
              in [bytes ''----------------------------------------------------------------------------'',
                  bytes ''[BENCHMARK] Polling Loop Iteration Cost: '' @ dec_nat (unat per_iter_ns) @
                  bytes '' ns/iter ('' @ dec_nat (unat per_iter_cycles) @
                  bytes '' cycles/iter, 10,000 iters in '' @ dec_nat (unat loop_ns) @ bytes '' ns)'',
                  bytes ''[BUDGET CHECK] Polling loop iteration cost of '' @ dec_nat (unat per_iter_ns) @
                  bytes '' ns is well within < 50 ns budget'']
         else [])"

definition latency_report :: "u64 \<Rightarrow> profiler \<Rightarrow> str list" where
  "latency_report freq_hz pr =
     (let log = EVENT_LOG pr;
          base_tsc = (if valid (log ! 0) then tsc (log ! 0) else 0);
          rows = report_rows freq_hz base_tsc log [0..<7] None
      in [bytes ''======================== LATENCY MEASUREMENT REPORT ========================'',
          bytes ''Event ID | Event Description             | Core | Timestamp (ns) | Delta (ns) | Budget'',
          bytes ''----------------------------------------------------------------------------''] @
         rows @
         (if rows = []
          then [bytes ''  [LATENCY] No single-run telemetry events recorded yet. Run 'benchmark' to generate sample traces.'']
          else []) @
         loop_report freq_hz log @
         [bytes ''============================================================================''])"

definition stage_status :: "StageStats \<Rightarrow> nat \<Rightarrow> str" where
  "stage_status st budget_us =
     (if unat (max_us st) \<le> budget_us then bytes ''PASS''
      else if unat (p99_us st) \<le> budget_us then bytes ''PASS (p99)''
      else bytes ''EXCEEDED'')"

definition stage_row :: "profiler \<Rightarrow> nat \<Rightarrow> str option" where
  "stage_row pr stage =
     (case compute_stage_stats pr stage of
        None \<Rightarrow> None
      | Some st \<Rightarrow>
          let (name, budget_us) = get_stage_info stage
          in Some (str_w 32 name @ bytes '' | '' @ num_w 4 budget_us @ bytes '' us  | '' @
                   num_w 5 (unat (mean_us st)) @ bytes '' us | '' @ num_w 5 (unat (p50_us st)) @ bytes '' us | '' @
                   num_w 5 (unat (p95_us st)) @ bytes '' us | '' @ num_w 5 (unat (p99_us st)) @ bytes '' us | '' @
                   num_w 7 (unat (max_us st)) @ bytes '' us  | '' @ stage_status st budget_us))"

fun stage_rows :: "profiler \<Rightarrow> nat list \<Rightarrow> str list option" where
  "stage_rows pr [] = Some []"
| "stage_rows pr (stage # stages) =
     (case stage_row pr stage of
        None \<Rightarrow> None
      | Some row \<Rightarrow> (case stage_rows pr stages of None \<Rightarrow> None | Some rows \<Rightarrow> Some (row # rows)))"

definition print_statistical_latency_report :: "profiler \<Rightarrow> str list option" where
  "print_statistical_latency_report pr =
     (case stage_rows pr [0..<NUM_PIPELINE_STAGES] of
        None \<Rightarrow> None
      | Some rows \<Rightarrow> Some
          ([bytes ''==================== STATISTICAL LATENCY REPORT (1000 SAMPLES) ===================='',
            bytes ''Pipeline Stage                   | Budget   | Mean     | p50      | p95      | p99      | Max (Worst) | Status'',
            bytes ''---------------------------------------------------------------------------------------------------------''] @
           rows @
           [bytes ''Criteria: PASS = Worst-case Max <= Budget; PASS (p99) = 99th percentile <= Budget.'',
            bytes ''========================================================================================================='']))"

section \<open>The profiler's state\<close>

definition profiler_ok :: "profiler \<Rightarrow> bool" where
  "profiler_ok pr \<longleftrightarrow>
     length (EVENT_LOG pr) = MAX_EVENTS \<and> length (STAGE_SAMPLES pr) = NUM_PIPELINE_STAGES \<and>
     (\<forall>s \<in> set (STAGE_SAMPLES pr). length s = STATS_SAMPLE_COUNT)"

lemma profiler_init_ok [keeps_ok]: "profiler_ok profiler_init"
  by (simp add: profiler_ok_def profiler_init_def)

lemma latency_mark_ok [keeps_ok]: "profiler_ok pr \<Longrightarrow> profiler_ok (fst (latency_mark p c ev w pr))"
  by (auto simp: profiler_ok_def latency_mark_def Let_def split: prod.splits)

lemma record_stage_sample_ok [keeps_ok]:
  "profiler_ok pr \<Longrightarrow> profiler_ok (record_stage_sample i j v pr)"
  by (auto simp: profiler_ok_def record_stage_sample_def dest!: set_update_subset_insert [THEN subsetD])

lemma profiler_samples:
  "profiler_ok pr \<Longrightarrow> i < NUM_PIPELINE_STAGES \<Longrightarrow> length (STAGE_SAMPLES pr ! i) = STATS_SAMPLE_COUNT"
  by (simp add: profiler_ok_def)

text \<open>The samples are a store: a recorded sample is read back and no other changes.\<close>

definition sample_at :: "profiler \<Rightarrow> nat \<times> nat \<Rightarrow> u32 option" where
  "sample_at pr k =
     (case idx (STAGE_SAMPLES pr) (fst k) of Some s \<Rightarrow> idx s (snd k) | None \<Rightarrow> None)"

definition put_sample :: "profiler \<Rightarrow> nat \<times> nat \<Rightarrow> u32 \<Rightarrow> profiler option" where
  "put_sample pr k v =
     (if fst k < NUM_PIPELINE_STAGES \<and> snd k < STATS_SAMPLE_COUNT
      then Some (record_stage_sample (fst k) (snd k) v pr) else None)"

interpretation samples: store profiler_ok sample_at put_sample
proof (unfold_locales, goal_cases)
  case (1 s k v s')
  then show ?case by (auto simp: put_sample_def keeps_ok split: if_splits)
next
  case (2 s k v s')
  then show ?case
    by (auto simp: put_sample_def sample_at_def record_stage_sample_def profiler_samples split: if_splits)
      (auto simp: profiler_ok_def)
next
  case (3 s k v s' k')
  then show ?case
    by (cases "fst k = fst k'"; cases k; cases k')
      (auto simp: put_sample_def sample_at_def record_stage_sample_def idx_def split: if_splits)
qed


section \<open>Properties\<close>

lemma unat_div_1000_mono: "(x :: u32) \<le> y \<Longrightarrow> unat (x div 1000) \<le> unat (y div 1000)"
  by (simp add: unat_div word_le_nat_alt div_le_mono)

lemma sum_u64:
  "length xs \<le> 2 ^ 32 \<Longrightarrow>
   unat (fold (\<lambda>v s. s + ucast (v :: u32)) xs (0 :: u64)) = sum_list (map unat xs)"
proof -
  have b: "sum_list (map unat xs) \<le> length xs * (2 ^ 32 - 1)" for xs :: "u32 list"
  proof (induction xs)
    case (Cons x xs)
    have "unat x \<le> 2 ^ 32 - 1" using unsigned_less [of x, where ?'a = nat] by simp
    with Cons show ?case by simp
  qed simp
  have f: "fold (\<lambda>v s. s + ucast (v :: u32)) xs s = s + of_nat (sum_list (map unat xs))" for s :: u64
    by (induction xs arbitrary: s) (simp_all add: ac_simps)
  assume "length xs \<le> 2 ^ 32"
  with b [of xs] have "sum_list (map unat xs) \<le> 2 ^ 32 * (2 ^ 32 - 1)"
    by (meson le_trans mult_le_mono1)
  then have "sum_list (map unat xs) < 2 ^ 64" by simp
  then show ?thesis by (simp add: f unsigned_of_nat take_bit_nat_eq_self_iff)
qed

lemma sorted_between:
  "sorted xs \<Longrightarrow> x \<in> set xs \<Longrightarrow> xs ! 0 \<le> x \<and> x \<le> xs ! (length xs - 1)"
  by (auto simp: in_set_conv_nth intro!: sorted_nth_mono)

lemma mean_bounds:
  assumes "sorted xs" and "length xs = STATS_SAMPLE_COUNT"
  shows "unat (xs ! 0) \<le> sum_list (map unat xs) div STATS_SAMPLE_COUNT"
    and "sum_list (map unat xs) div STATS_SAMPLE_COUNT \<le> unat (xs ! (length xs - 1) :: u32)"
proof -
  have "unat (xs ! 0) * length xs \<le> sum_list (map unat xs)"
    using sum_list_mono [of xs "\<lambda>_. unat (xs ! 0)" unat] sorted_between [OF assms(1)]
    by (simp add: sum_list_triv word_le_nat_alt mult.commute)
  then have "unat (xs ! 0) * STATS_SAMPLE_COUNT div STATS_SAMPLE_COUNT \<le> sum_list (map unat xs) div STATS_SAMPLE_COUNT"
    unfolding assms(2) by (rule div_le_mono)
  then show "unat (xs ! 0) \<le> sum_list (map unat xs) div STATS_SAMPLE_COUNT"
    by (simp add: STATS_SAMPLE_COUNT_def)
  have "sum_list (map unat xs) \<le> unat (xs ! (length xs - 1)) * length xs"
    using sum_list_mono [of xs unat "\<lambda>_. unat (xs ! (length xs - 1))"] sorted_between [OF assms(1)]
    by (simp add: sum_list_triv word_le_nat_alt mult.commute)
  then have "sum_list (map unat xs) div STATS_SAMPLE_COUNT \<le> unat (xs ! (length xs - 1)) * STATS_SAMPLE_COUNT div STATS_SAMPLE_COUNT"
    unfolding assms(2) by (rule div_le_mono)
  then show "sum_list (map unat xs) div STATS_SAMPLE_COUNT \<le> unat (xs ! (length xs - 1))"
    by (simp add: STATS_SAMPLE_COUNT_def)
qed

text \<open>What the statistics of a stage are, in terms of its sorted samples.\<close>

lemma compute_stage_stats_eq:
  assumes "profiler_ok pr" and "stage < NUM_PIPELINE_STAGES"
  defines "xs \<equiv> sort (STAGE_SAMPLES pr ! stage)"
  shows "\<exists>st. compute_stage_stats pr stage = Some st \<and>
     unat (mean_us st) = sum_list (map unat xs) div 1000 div 1000 \<and>
     p50_us st = xs ! 500 div 1000 \<and> p95_us st = xs ! 950 div 1000 \<and> p99_us st = xs ! 990 div 1000 \<and>
     max_us st = xs ! 999 div 1000 \<and> min_us st = xs ! 0 div 1000"
proof -
  have len: "length xs = STATS_SAMPLE_COUNT" and st: "stage < length (STAGE_SAMPLES pr)"
    using profiler_samples [OF assms(1,2)] assms(1,2) by (auto simp: xs_def profiler_ok_def)
  let ?sum = "fold (\<lambda>v s. s + ucast (v :: u32)) xs (0 :: u64)"
  have u: "unat ?sum = sum_list (map unat xs)"
    by (rule sum_u64) (simp add: len STATS_SAMPLE_COUNT_def)
  have "sorted xs" by (simp add: xs_def)
  note mb = mean_bounds(2) [OF this len]
  have "sum_list (map unat xs) div 1000 < 2 ^ 32"
    using le_less_trans [OF mb unsigned_less] by (simp add: STATS_SAMPLE_COUNT_def)
  moreover have "unat (?sum div 1000) = sum_list (map unat xs) div 1000"
    using u by (simp add: unat_div)
  ultimately have "unat (ucast (?sum div 1000) :: u32) = sum_list (map unat xs) div 1000"
    by (simp add: unsigned_ucast_eq take_bit_nat_eq_self_iff)
  then show ?thesis
    using st by (simp add: compute_stage_stats_def quicksort_is_sort xs_def [symmetric] Let_def
        STATS_SAMPLE_COUNT_def unat_div)
qed

text \<open>At least \<open>n + 1\<close> elements are at most the one at position \<open>n\<close> of the sorted list.\<close>

lemma percentile_count:
  fixes xs :: "'a::linorder list"
  assumes "n < length xs" and "\<And>x. x \<in> set xs \<Longrightarrow> x \<le> sort xs ! n \<Longrightarrow> P x"
  shows "n + 1 \<le> length (filter P xs)"
proof -
  have "length (filter P xs) = length (filter P (sort xs))"
    by (simp add: filter_sort)
  also have "\<dots> \<ge> length (filter P (take (n + 1) (sort xs)))"
    by (metis append_take_drop_id filter_append le_add1 length_append)
  also have "filter P (take (n + 1) (sort xs)) = take (n + 1) (sort xs)"
  proof (rule filter_True, rule ballI)
    fix x assume x: "x \<in> set (take (n + 1) (sort xs))"
    then obtain k where "k \<le> n" "x = sort xs ! k"
      using assms(1) by (auto simp: in_set_conv_nth less_Suc_eq_le)
    then have "x \<le> sort xs ! n"
      using assms(1) by (auto intro: sorted_nth_mono)
    moreover have "x \<in> set xs" using in_set_takeD [OF x] by simp
    ultimately show "P x" using assms(2) by blast
  qed
  finally show ?thesis using assms(1) by simp
qed

text \<open>A sample, in nanoseconds, within a budget in microseconds.\<close>

definition within_us :: "nat \<Rightarrow> u32 \<Rightarrow> bool" where
  "within_us budget x \<longleftrightarrow> unat (x div 1000) \<le> budget"

text \<open>C34: The in-place quicksort sorts: its result is the sorted permutation of its input.\<close>

theorem quicksort_sorts: "sorted (quicksort_u32 arr) \<and> mset (quicksort_u32 arr) = mset arr"
  by (simp add: mset_quicksort sorted_quicksort)

text \<open>The statistics of a stage exist and are ordered: the minimum is at most the median,
  the 95th and 99th percentile and the maximum in turn, and the mean lies between minimum and
  maximum.\<close>

theorem stage_stats_ordered:
  assumes "profiler_ok pr" and "stage < NUM_PIPELINE_STAGES"
  shows "\<exists>st. compute_stage_stats pr stage = Some st \<and>
     min_us st \<le> p50_us st \<and> p50_us st \<le> p95_us st \<and> p95_us st \<le> p99_us st \<and> p99_us st \<le> max_us st \<and>
     min_us st \<le> mean_us st \<and> mean_us st \<le> max_us st"
proof -
  let ?xs = "sort (STAGE_SAMPLES pr ! stage)"
  obtain st where st: "compute_stage_stats pr stage = Some st"
    and mean: "unat (mean_us st) = sum_list (map unat ?xs) div 1000 div 1000"
    and p: "p50_us st = ?xs ! 500 div 1000" "p95_us st = ?xs ! 950 div 1000" "p99_us st = ?xs ! 990 div 1000"
      "max_us st = ?xs ! 999 div 1000" "min_us st = ?xs ! 0 div 1000"
    using compute_stage_stats_eq [OF assms] by blast
  have len: "length ?xs = STATS_SAMPLE_COUNT"
    using profiler_samples [OF assms] by simp
  have m: "unat (?xs ! i div 1000) \<le> unat (?xs ! j div 1000)" if "i \<le> j" "j < 1000" for i j
    using that len by (intro unat_div_1000_mono sorted_nth_mono) (auto simp: STATS_SAMPLE_COUNT_def)
  have "unat (?xs ! 0) div 1000 \<le> unat (mean_us st)" "unat (mean_us st) \<le> unat (?xs ! 999) div 1000"
    using mean_bounds [of ?xs] len unfolding mean
    by (auto simp: STATS_SAMPLE_COUNT_def intro!: div_le_mono)
  with p m [of 0 500] m [of 500 950] m [of 950 990] m [of 990 999] show ?thesis
    by (intro exI [of _ st]) (simp add: st word_le_nat_alt unat_div)
qed

theorem stage_stats_ordered_witness:
  "\<exists>st. compute_stage_stats profiler_init 3 = Some st \<and> min_us st \<le> mean_us st \<and> p99_us st \<le> max_us st"
  using stage_stats_ordered [OF profiler_init_ok, of 3] by (auto simp: NUM_PIPELINE_STAGES_def)

text \<open>The status column is sound: \<open>PASS\<close> means that every sample of the stage is within the
  budget, \<open>PASS (p99)\<close> that at least 991 of the 1000 are and the worst is not, \<open>EXCEEDED\<close>
  that more than nine samples are over it.\<close>

theorem stage_status_sound:
  assumes "profiler_ok pr" and "stage < NUM_PIPELINE_STAGES" and "compute_stage_stats pr stage = Some st"
  shows "(stage_status st budget = bytes ''PASS'' \<longleftrightarrow> list_all (within_us budget) (STAGE_SAMPLES pr ! stage)) \<and>
     (stage_status st budget = bytes ''PASS (p99)'' \<longrightarrow>
        991 \<le> length (filter (within_us budget) (STAGE_SAMPLES pr ! stage)) \<and> \<not> list_all (within_us budget) (STAGE_SAMPLES pr ! stage)) \<and>
     (stage_status st budget = bytes ''EXCEEDED'' \<longrightarrow>
        10 \<le> length (filter (\<lambda>x. \<not> within_us budget x) (STAGE_SAMPLES pr ! stage)))"
proof -
  let ?s = "STAGE_SAMPLES pr ! stage" and ?xs = "sort (STAGE_SAMPLES pr ! stage)"
  have len: "length ?s = 1000"
    using profiler_samples [OF assms(1,2)] by (simp add: STATS_SAMPLE_COUNT_def)
  have p: "p99_us st = ?xs ! 990 div 1000" "max_us st = ?xs ! 999 div 1000"
    using compute_stage_stats_eq [OF assms(1,2)] assms(3) by auto
  have top: "x \<le> ?xs ! 999" if "x \<in> set ?s" for x
    using sorted_between [of ?xs x] that len by simp
  have max: "within_us budget (?xs ! 999) \<longleftrightarrow> list_all (within_us budget) ?s"
  proof
    assume "within_us budget (?xs ! 999)"
    with top show "list_all (within_us budget) ?s"
      unfolding within_us_def list_all_iff by (meson le_trans unat_div_1000_mono)
  next
    assume "list_all (within_us budget) ?s"
    moreover have "?xs ! 999 \<in> set ?s" using nth_mem [of 999 ?xs] len by simp
    ultimately show "within_us budget (?xs ! 999)" by (simp add: list_all_iff)
  qed
  have p99: "991 \<le> length (filter (within_us budget) ?s)" if "within_us budget (?xs ! 990)"
    using percentile_count [of 990 ?s "within_us budget"] that len unat_div_1000_mono
    by (fastforce simp: within_us_def intro: le_trans)
  have over: "10 \<le> length (filter (\<lambda>x. \<not> within_us budget x) ?s)" if "\<not> (within_us budget) (?xs ! 990)"
  proof -
    have "filter (\<lambda>x. \<not> within_us budget x) (drop 990 ?xs) = drop 990 ?xs"
    proof (rule filter_True, rule ballI)
      fix x assume "x \<in> set (drop 990 ?xs)"
      then obtain k where "x = ?xs ! (990 + k)" "990 + k < length ?xs"
        by (auto simp: in_set_conv_nth)
      then have "?xs ! 990 \<le> x" by (auto intro: sorted_nth_mono)
      with that show "\<not> within_us budget x"
        unfolding within_us_def by (meson le_trans unat_div_1000_mono)
    qed
    then have "10 = length (filter (\<lambda>x. \<not> within_us budget x) (drop 990 ?xs))" using len by simp
    also have "\<dots> \<le> length (filter (\<lambda>x. \<not> within_us budget x) ?xs)"
      by (metis append_take_drop_id filter_append le_add2 length_append)
    finally show ?thesis by (simp add: filter_sort)
  qed
  show ?thesis
    using max p99 over p by (auto simp: stage_status_def within_us_def)
qed

theorem stage_status_sound_witness:
  "stage_status (the (compute_stage_stats profiler_init 3)) 1700 = bytes ''PASS''"
proof -
  obtain st where st: "compute_stage_stats profiler_init 3 = Some st"
    using compute_stage_stats_eq [OF profiler_init_ok, of 3] by (auto simp: NUM_PIPELINE_STAGES_def)
  have "list_all (within_us 1700) (STAGE_SAMPLES profiler_init ! 3)"
    by (simp add: profiler_init_def NUM_PIPELINE_STAGES_def list_all_iff within_us_def)
  with stage_status_sound [OF profiler_init_ok _ st, of 1700] st show ?thesis
    by (simp add: NUM_PIPELINE_STAGES_def)
qed

end
