(* ===== verification/Paths.thy ===== *)
theory Paths
  imports Prelude
begin

text \<open>
  The paths of the RAM file system (\<^verbatim>\<open>fs_normalize_path\<close> in \<^verbatim>\<open>kernel/src/fs.rs\<close>): the code works
  on a byte buffer of 64 bytes; the reference definition is a stack of path components.
\<close>

section \<open>The code\<close>

abbreviation (input) MAX_FILENAME_LEN :: nat where
  "MAX_FILENAME_LEN \<equiv> 64"

datatype FsError =
  FileNotFound | DiskFull | FileTooLarge | ReadOnly | InvalidName | NotADirectory | IsADirectory
| DirectoryNotEmpty | AlreadyExists

text \<open>One component; \<open>out\<close> is the output buffer up to its length.\<close>

definition norm_part :: "str \<Rightarrow> str \<Rightarrow> (FsError, str) outcome" where
  "norm_part part out =
     (if part = [] \<or> part = bytes ''.'' then Ok out
      else if part = bytes ''..'' then
        (if 1 < length out then
           (let cur_str = (if utf8_valid out then out else bytes ''/'')
            in case rfind cur_str 47 of
                 Some pos \<Rightarrow> Ok (if pos = 0 then take 1 out else take pos out)
               | None \<Rightarrow> Ok out)
         else Ok out)
      else if 1 < length out then
        (if MAX_FILENAME_LEN \<le> length out + 1 + length part then Err InvalidName
         else if MAX_FILENAME_LEN \<le> length (out @ [47]) + length part then Err InvalidName
         else Ok (out @ [47] @ part))
      else if MAX_FILENAME_LEN \<le> length out + length part then Err InvalidName
      else Ok (out @ part))"

fun norm_parts :: "str list \<Rightarrow> str \<Rightarrow> (FsError, str) outcome" where
  "norm_parts [] out = Ok out"
| "norm_parts (part # parts) out =
     (case norm_part part out of Ok out \<Rightarrow> norm_parts parts out | Err e \<Rightarrow> Err e | Panic \<Rightarrow> Panic)"

definition full_path :: "str \<Rightarrow> str \<Rightarrow> str" where
  "full_path input cwd =
     (let clean = trim input
      in if starts_with clean [47] then clean
         else let clean_cwd = (if cwd = [] then bytes ''/'' else cwd)
              in if clean_cwd = bytes ''/'' then 47 # clean else clean_cwd @ [47] @ clean)"

definition fs_normalize_path :: "str \<Rightarrow> str \<Rightarrow> (FsError, str) outcome" where
  "fs_normalize_path input cwd =
     (if trim input = [] then Err InvalidName
      else let temp = full_path input cwd
           in if MAX_FILENAME_LEN \<le> length temp then Err InvalidName
              else if \<not> utf8_valid temp then Err InvalidName
              else norm_parts (split_on 47 temp) [47])"

section \<open>The reference\<close>

fun resolve :: "str list \<Rightarrow> str list \<Rightarrow> str list" where
  "resolve st [] = st"
| "resolve st (p # ps) =
     (if p = [] \<or> p = bytes ''.'' then resolve st ps
      else if p = bytes ''..'' then resolve (butlast st) ps
      else resolve (st @ [p]) ps)"

definition render :: "str list \<Rightarrow> str" where
  "render st = (if st = [] then [47] else concat (map (\<lambda>p. 47 # p) st))"

definition component :: "str \<Rightarrow> bool" where
  "component p \<longleftrightarrow> p \<noteq> [] \<and> 47 \<notin> set p \<and> p \<noteq> bytes ''.'' \<and> p \<noteq> bytes ''..''"

text \<open>An absolute path without empty components and without dots.\<close>

definition canonical :: "str \<Rightarrow> bool" where
  "canonical q \<longleftrightarrow> length q < 64 \<and> utf8_valid q \<and> (\<exists>st. q = render st \<and> list_all component st)"

section \<open>UTF-8\<close>

text \<open>A valid string is empty or begins with a whole character.\<close>

lemma utf8_uncons:
  assumes "utf8_valid (a # r)"
  shows "\<exists>c t. a # r = c @ t \<and> c \<noteq> [] \<and> utf8_valid t \<and> (\<forall>u. utf8_valid (c @ u) = utf8_valid u) \<and> (47 \<notin> set c \<or> c = [47])"
proof -
  note eval = utf8_valid.simps append.simps if_False if_True simp_thms list.case
  have slash: "cont b \<Longrightarrow> b \<noteq> 47" for b by (auto simp: cont_def)
  consider (one) "a < 0x80" | (two) "\<not> a < 0x80" "0xC2 \<le> a \<and> a \<le> 0xDF"
    | (three) "\<not> a < 0x80" "\<not> (0xC2 \<le> a \<and> a \<le> 0xDF)" "0xE0 \<le> a \<and> a \<le> 0xEF"
    | (four) "\<not> a < 0x80" "\<not> (0xC2 \<le> a \<and> a \<le> 0xDF)" "\<not> (0xE0 \<le> a \<and> a \<le> 0xEF)" "0xF0 \<le> a \<and> a \<le> 0xF4"
    using assms by (simp split: if_splits)
  then show ?thesis
  proof cases
    case one
    with assms have "utf8_valid ([a] @ u) = utf8_valid u" for u by (simp only: eval)
    with one assms show ?thesis by (intro exI [of _ "[a]"] exI [of _ r]) (simp add: eval)
  next
    case two
    then obtain b r' where r: "r = b # r'" "cont b" "utf8_valid r'"
      using assms by (auto simp only: eval split: list.splits)
    have "utf8_valid ([a, b] @ u) = utf8_valid u" for u using two r(2) by (simp only: eval)
    moreover have "a \<noteq> 47" using two by auto
    ultimately show ?thesis
      using r slash [of b] by (intro exI [of _ "[a, b]"] exI [of _ r']) (simp del: utf8_valid.simps)
  next
    case three
    then obtain b c r' where r: "r = b # c # r'" "cont b" "(a = 0xE0 \<longrightarrow> 0xA0 \<le> b)" "(a = 0xED \<longrightarrow> b \<le> 0x9F)" "cont c" "utf8_valid r'"
      using assms by (auto simp only: eval split: list.splits)
    have "utf8_valid ([a, b, c] @ u) = utf8_valid u" for u using three r(2-5) by (simp only: eval) blast
    moreover have "a \<noteq> 47" using three by auto
    ultimately show ?thesis
      using r slash [of b] slash [of c] by (intro exI [of _ "[a, b, c]"] exI [of _ r']) (simp del: utf8_valid.simps)
  next
    case four
    then obtain b c d r' where r: "r = b # c # d # r'" "cont b" "(a = 0xF0 \<longrightarrow> 0x90 \<le> b)" "(a = 0xF4 \<longrightarrow> b \<le> 0x8F)"
        "cont c" "cont d" "utf8_valid r'"
      using assms by (auto simp only: eval split: list.splits)
    have "utf8_valid ([a, b, c, d] @ u) = utf8_valid u" for u using four r(2-6) by (simp only: eval) blast
    moreover have "a \<noteq> 47" using four by auto
    ultimately show ?thesis
      using r slash [of b] slash [of c] slash [of d]
      by (intro exI [of _ "[a, b, c, d]"] exI [of _ r']) (simp del: utf8_valid.simps)
  qed
qed

lemma utf8_induct [consumes 1, case_names Nil Char]:
  assumes "utf8_valid s" and "P []"
    and "\<And>c t. c \<noteq> [] \<Longrightarrow> \<forall>u. utf8_valid (c @ u) = utf8_valid u \<Longrightarrow> 47 \<notin> set c \<or> c = [47] \<Longrightarrow> utf8_valid t \<Longrightarrow> P t \<Longrightarrow> P (c @ t)"
  shows "P s"
  using assms(1)
proof (induction "length s" arbitrary: s rule: less_induct)
  case less
  show ?case
  proof (cases s)
    case (Cons a r)
    then obtain c t where c: "s = c @ t" "c \<noteq> []" "utf8_valid t" "\<forall>u. utf8_valid (c @ u) = utf8_valid u" "47 \<notin> set c \<or> c = [47]"
      using utf8_uncons [of a r] less.prems by auto
    then have "P t" by (intro less.hyps) auto
    with c show ?thesis using assms(3) by simp
  qed (simp add: assms(2))
qed

lemma utf8_append: "utf8_valid a \<Longrightarrow> utf8_valid (a @ b) = utf8_valid b"
  by (induction rule: utf8_induct) auto

lemma split_on_append:
  "sep \<notin> set c \<Longrightarrow> split_on sep (c @ t) = (c @ hd (split_on sep t)) # tl (split_on sep t)"
  by (induction c) (auto split: list.splits)

lemma utf8_parts: "utf8_valid s \<Longrightarrow> p \<in> set (split_on 47 s) \<Longrightarrow> utf8_valid p"
proof (induction arbitrary: p rule: utf8_induct)
  case (Char c t)
  have hd: "utf8_valid (hd (split_on 47 t))" by (rule Char.IH) simp
  have tl: "q \<in> set (tl (split_on 47 t)) \<Longrightarrow> utf8_valid q" for q
    using Char.IH by (cases "split_on 47 t") auto
  show ?case
  proof (cases "c = [47]")
    case True
    with Char.prems Char.IH show ?thesis by auto
  next
    case False
    then have "split_on 47 (c @ t) = (c @ hd (split_on 47 t)) # tl (split_on 47 t)"
      using Char.hyps(3) by (simp add: split_on_append)
    with Char.prems Char.hyps(2) hd tl show ?thesis by auto
  qed
qed simp

section \<open>Refinement\<close>

lemma render_snoc: "render (st @ [p]) = (if st = [] then 47 # p else render st @ 47 # p)"
  by (simp add: render_def)

lemma utf8_render: "\<forall>p \<in> set st. utf8_valid p \<Longrightarrow> utf8_valid (render st)"
proof (induction st rule: rev_induct)
  case (snoc p st)
  then show ?case by (simp add: render_snoc utf8_append)
qed (simp add: render_def)

lemma length_render: "list_all component st \<Longrightarrow> 1 < length (render st) \<longleftrightarrow> st \<noteq> []"
  by (cases st) (auto simp: render_def component_def Suc_lessI)

definition weight :: "str list \<Rightarrow> nat" where
  "weight st = (\<Sum>p\<leftarrow>st. Suc (length p))"

lemma length_render_weight: "st \<noteq> [] \<Longrightarrow> length (render st) = weight st"
  by (simp add: render_def weight_def length_concat comp_def)

lemma weight_resolve: "weight (resolve st [p]) \<le> weight st + Suc (length p)"
  by (cases st rule: rev_cases) (auto simp: weight_def)

lemma norm_part_refines:
  assumes "list_all component st" and "\<forall>p \<in> set st. utf8_valid p"
    and "weight st + Suc (length part) < 64"
  shows "norm_part part (render st) = Ok (render (resolve st [part]))"
proof (cases "part = [] \<or> part = bytes ''.''")
  case normal: False
  show ?thesis
  proof (cases "part = bytes ''..''")
    case dots: True
    show ?thesis
    proof (cases st rule: rev_cases)
      case Nil
      then show ?thesis using dots by (simp add: norm_part_def render_def)
    next
      case (snoc st' p)
      have r: "rfind (render st) 47 = Some (if st' = [] then 0 else length (render st'))"
        using assms(1) rfind_append [of 47 p "render st'"] rfind_append [of 47 p "[]"]
        by (simp add: snoc render_snoc component_def)
      have ne: "render st' \<noteq> []" by (simp add: render_def)
      have "1 < length (render st)" using length_render [OF assms(1)] snoc by simp
      then show ?thesis
        using dots r ne utf8_render [OF assms(2)] by (auto simp: norm_part_def snoc render_snoc) (simp add: render_def)
    qed
  next
    case False
    have "resolve st [part] = st @ [part]" using normal False by simp
    then show ?thesis
      using assms(3) normal False length_render [OF assms(1)] length_render_weight [of st]
      by (auto simp: norm_part_def render_snoc) (auto simp: render_def weight_def)
  qed
qed (simp add: norm_part_def)

lemma resolve_Cons: "resolve st (p # ps) = resolve (resolve st [p]) ps"
  by simp

definition good_stack :: "str list \<Rightarrow> bool" where
  "good_stack st \<longleftrightarrow> list_all component st \<and> (\<forall>p \<in> set st. utf8_valid p)"

lemma good_stack_step:
  assumes "good_stack st" "47 \<notin> set p" "utf8_valid p"
  shows "good_stack (resolve st [p])"
proof -
  consider "resolve st [p] = st" | "resolve st [p] = butlast st" | "resolve st [p] = st @ [p]" "component p"
    using assms(2) by (cases "p = [] \<or> p = bytes ''.''"; cases "p = bytes ''..''") (simp_all add: component_def del: bytes_Cons)
  then show ?thesis
    using assms(1,3) by cases (auto simp: good_stack_def list_all_iff simp del: resolve.simps dest: in_set_butlastD)
qed

lemma good_stack_resolve:
  "good_stack st \<Longrightarrow> \<forall>p \<in> set ps. 47 \<notin> set p \<and> utf8_valid p \<Longrightarrow> good_stack (resolve st ps)"
proof (induction ps arbitrary: st)
  case (Cons p ps)
  then have "good_stack (resolve st [p])" by (intro good_stack_step) simp_all
  with Cons show ?case unfolding resolve_Cons [of st p ps] by (simp del: resolve.simps)
qed simp

lemma norm_parts_refines:
  assumes "good_stack st" and "\<forall>p \<in> set parts. 47 \<notin> set p \<and> utf8_valid p" and "weight st + weight parts < 64"
  shows "norm_parts parts (render st) = Ok (render (resolve st parts))"
  using assms
proof (induction parts arbitrary: st)
  case (Cons part parts)
  have "norm_part part (render st) = Ok (render (resolve st [part]))"
    using Cons.prems by (intro norm_part_refines) (simp_all add: weight_def good_stack_def)
  moreover have "norm_parts parts (render (resolve st [part])) = Ok (render (resolve (resolve st [part]) parts))"
  proof (rule Cons.IH)
    show "good_stack (resolve st [part])" using Cons.prems by (intro good_stack_step) simp_all
    show "weight (resolve st [part]) + weight parts < 64"
      using Cons.prems(3) weight_resolve [of st part] by (simp add: weight_def)
  qed (use Cons.prems in simp)
  ultimately show ?case unfolding resolve_Cons [of st part parts] by (simp del: resolve.simps)
qed simp

lemma weight_split: "weight (split_on c s) = Suc (length s)"
proof -
  have "weight ps = (\<Sum>p\<leftarrow>ps. length p) + length ps" for ps by (induction ps) (simp_all add: weight_def)
  with sum_split_on [of c s] split_on_not_Nil [of c s] show ?thesis
    by (cases "split_on c s") auto
qed

text \<open>A path that starts with a slash.\<close>

lemma norm_parts_absolute:
  assumes "utf8_valid (47 # s)" and "length s < 63"
  shows "norm_parts (split_on 47 (47 # s)) [47] = Ok (render (resolve [] (split_on 47 (47 # s))))"
    and "good_stack (resolve [] (split_on 47 (47 # s)))"
proof -
  have v: "\<forall>p \<in> set (split_on 47 s). 47 \<notin> set p \<and> utf8_valid p"
    using assms(1) utf8_parts [of s] split_on_no_sep by (simp; blast)
  have g: "good_stack []" by (simp add: good_stack_def)
  have "norm_parts (split_on 47 s) (render []) = Ok (render (resolve [] (split_on 47 s)))"
    using assms(2) weight_split [of 47 s] by (intro norm_parts_refines g v) (simp add: weight_def)
  then show "norm_parts (split_on 47 (47 # s)) [47] = Ok (render (resolve [] (split_on 47 (47 # s))))"
    by (simp add: norm_part_def render_def)
  show "good_stack (resolve [] (split_on 47 (47 # s)))" using good_stack_resolve [OF g v] by simp
qed

lemma full_path_absolute:
  "trim input \<noteq> [] \<Longrightarrow> cwd = [] \<or> hd cwd = 47 \<Longrightarrow> \<exists>s. full_path input cwd = 47 # s"
  by (cases cwd; cases "trim input") (auto simp: full_path_def Let_def starts_with_def)

text \<open>The result as a stack of components.\<close>

lemma normalize_eq:
  assumes "cwd = [] \<or> hd cwd = 47" and "utf8_valid (full_path input cwd)"
  shows "fs_normalize_path input cwd =
     (if trim input = [] \<or> 64 \<le> length (full_path input cwd) then Err InvalidName
      else Ok (render (resolve [] (split_on 47 (full_path input cwd)))))"
proof (cases "trim input = [] \<or> 64 \<le> length (full_path input cwd)")
  case False
  then obtain s where s: "full_path input cwd = 47 # s" using full_path_absolute assms(1) by blast
  then show ?thesis
    using False assms(2) norm_parts_absolute(1) [of s] unfolding fs_normalize_path_def Let_def s by simp
qed (auto simp: fs_normalize_path_def)

lemma split_render: "list_all component st \<Longrightarrow> st \<noteq> [] \<Longrightarrow> split_on 47 (render st) = [] # st"
proof (induction st)
  case (Cons p st)
  show ?case
  proof (cases st)
    case Nil
    with Cons.prems show ?thesis using split_on_append [of 47 p "[]"] by (simp add: render_def component_def)
  next
    case (Cons q st')
    then have r: "render (p # st) = 47 # p @ render st" by (simp add: render_def)
    show ?thesis
      using Cons.IH Cons.prems Cons split_on_append [of 47 p "render st"] unfolding r
      by (simp add: component_def)
  qed
qed simp

lemma resolve_stack: "list_all component st' \<Longrightarrow> resolve st st' = st @ st'"
  by (induction st' arbitrary: st) (auto simp: component_def)


lemma norm_parts_length: "norm_parts parts out = Ok q \<Longrightarrow> length out < 64 \<Longrightarrow> length q < 64"
proof (induction parts arbitrary: out)
  case (Cons part parts)
  then obtain o' where o': "norm_part part out = Ok o'" "norm_parts parts o' = Ok q"
    by (auto split: outcome.splits)
  have "length o' < 64"
    using o'(1) Cons.prems(2) by (auto simp: norm_part_def Let_def split: if_splits option.splits)
  with Cons.IH o'(2) show ?case by blast
qed simp

lemma norm_parts_error: "norm_parts parts out = Err e \<Longrightarrow> e = InvalidName" "norm_parts parts out \<noteq> Panic"
proof -
  have step: "norm_part part out = Err e \<Longrightarrow> e = InvalidName" "norm_part part out \<noteq> Panic" for part out e
    by (auto simp: norm_part_def Let_def split: if_splits option.splits)
  show "norm_parts parts out = Err e \<Longrightarrow> e = InvalidName" "norm_parts parts out \<noteq> Panic"
    by (induction parts arbitrary: out) (auto simp: step split: outcome.splits dest: step(1))
qed

lemma normalize_canonical:
  assumes "cwd = [] \<or> hd cwd = 47" and "fs_normalize_path input cwd = Ok q"
  shows "canonical q"
proof -
  let ?full = "full_path input cwd"
  have ok: "trim input \<noteq> []" "length ?full < 64" "utf8_valid ?full" "norm_parts (split_on 47 ?full) [47] = Ok q"
    using assms(2) by (auto simp: fs_normalize_path_def Let_def split: if_splits)
  obtain s where s: "?full = 47 # s" using full_path_absolute [OF ok(1) assms(1)] by blast
  have "q = render (resolve [] (split_on 47 ?full))" "good_stack (resolve [] (split_on 47 ?full))"
    using norm_parts_absolute [of s] ok s by auto
  moreover have "length q < 64" using norm_parts_length [OF ok(4)] by simp
  ultimately show ?thesis
    unfolding canonical_def good_stack_def using utf8_render by blast
qed

lemma canonical_absolute: "canonical q \<Longrightarrow> \<exists>s. q = 47 # s"
  by (auto simp: canonical_def render_def neq_Nil_conv)

lemma resolve_split_render:
  assumes "list_all component st"
  shows "resolve [] (split_on 47 (render st)) = st"
proof (cases "st = []")
  case True
  then show ?thesis by (simp add: render_def)
next
  case False
  then show ?thesis using assms by (simp add: split_render resolve_stack)
qed

text \<open>A canonical path without white space at its end is left as it is.\<close>

lemma normalize_canonical_id:
  assumes "canonical q" and "trim q = q"
  shows "fs_normalize_path q cwd = Ok q"
proof -
  obtain s where s: "q = 47 # s" using canonical_absolute [OF assms(1)] by blast
  obtain st where st: "q = render st" "list_all component st" using assms(1) by (auto simp: canonical_def)
  have "full_path q cwd = q" using assms(2) s by (simp add: full_path_def starts_with_def Let_def)
  moreover have "norm_parts (split_on 47 q) [47] = Ok q"
    using norm_parts_absolute(1) [of s] assms(1) resolve_split_render [OF st(2)] s st(1) by (simp add: canonical_def)
  ultimately show ?thesis
    using assms s by (simp add: fs_normalize_path_def canonical_def)
qed

section \<open>Trimming\<close>

lemma ws_len_prefix: "ws_len (take n s) \<noteq> 0 \<Longrightarrow> ws_len s \<noteq> 0"
proof (cases s)
  case (Cons a r)
  assume "ws_len (take n s) \<noteq> 0"
  with Cons show ?thesis
    by (cases n; cases r; cases "tl r") (auto simp: take_Cons' split: if_splits list.splits)
qed simp

lemma trim_start_ws: "ws_len (trim_start s) = 0"
proof (induction s rule: trim_start.induct)
  case (1 s)
  then show ?case by (cases "ws_len s = 0") (simp_all add: trim_start.simps [of s])
qed

lemma trim_end_ws: "ws_end (trim_end s) = 0"
proof (induction s rule: trim_end.induct)
  case (1 s)
  then show ?case by (cases "ws_end s = 0") (simp_all add: trim_end.simps [of s])
qed

lemma trim_end_prefix: "\<exists>n. trim_end s = take n s"
proof (induction s rule: trim_end.induct)
  case (1 s)
  show ?case
  proof (cases "ws_end s = 0")
    case True
    then show ?thesis by (intro exI [of _ "length s"]) (simp add: trim_end.simps [of s])
  next
    case False
    then obtain n where "trim_end s = take n (take (length s - ws_end s) s)"
      using "1.IH" by (auto simp: trim_end.simps [of s])
    then show ?thesis by (auto simp: take_take)
  qed
qed

lemma trim_trim [simp]: "trim (trim s) = trim s"
proof -
  have "ws_len (trim s) = 0"
    unfolding trim_def using trim_end_prefix trim_start_ws ws_len_prefix by metis
  moreover have "ws_end (trim s) = 0" unfolding trim_def by (rule trim_end_ws)
  ultimately show ?thesis
    by (subst trim_def) (simp add: trim_start.simps [of "trim s"] trim_end.simps [of "trim s"])
qed

lemma normalize_trim [simp]: "fs_normalize_path (trim p) cwd = fs_normalize_path p cwd"
  by (simp add: fs_normalize_path_def full_path_def)

section \<open>Properties\<close>

text \<open>
  C29: For a current directory that is an absolute path (or empty), \<^verbatim>\<open>fs_normalize_path\<close> computes
  exactly what a stack of components gives: the path is split at the slashes, empty components
  and \<^verbatim>\<open>.\<close> are left out, \<^verbatim>\<open>..\<close> removes the last component, if any. It fails exactly when the
  input is blank or the path before normalization is 64 bytes or longer: the length checks inside
  its loop never fail. The hypothesis on UTF-8 is what a Rust string slice guarantees.
\<close>

theorem normalize_refines:
  assumes "cwd = [] \<or> hd cwd = 47" and "utf8_valid (full_path input cwd)"
  shows "fs_normalize_path input cwd =
     (if trim input = [] \<or> 64 \<le> length (full_path input cwd) then Err InvalidName
      else Ok (render (resolve [] (split_on 47 (full_path input cwd)))))"
  using normalize_eq [OF assms] .

theorem normalize_refines_witness:
  "fs_normalize_path (bytes '' ../log//./a.txt '') (bytes ''/var/tmp'') = Ok (bytes ''/var/log/a.txt'')"
proof -
  have f: "full_path (bytes '' ../log//./a.txt '') (bytes ''/var/tmp'') = bytes ''/var/tmp/../log//./a.txt''"
    and t: "trim (bytes '' ../log//./a.txt '') \<noteq> []" by code_simp+
  have r: "render (resolve [] (split_on 47 (bytes ''/var/tmp/../log//./a.txt''))) = bytes ''/var/log/a.txt''" by code_simp
  show ?thesis
    using normalize_refines [of "bytes ''/var/tmp''" "bytes '' ../log//./a.txt ''"] unfolding f r using t by simp
qed

text \<open>
  A normalized path is absolute, shorter than 64 bytes and has no empty component, no \<^verbatim>\<open>.\<close> and
  no \<^verbatim>\<open>..\<close>; normalizing it again, in any directory, changes nothing, unless it ends in white space.
\<close>

theorem normalize_idempotent:
  assumes "cwd = [] \<or> hd cwd = 47" and "fs_normalize_path input cwd = Ok q"
  shows "canonical q \<and> (trim q = q \<longrightarrow> fs_normalize_path q cwd' = Ok q)"
  using normalize_canonical [OF assms] normalize_canonical_id by blast

theorem normalize_idempotent_witness:
  "canonical (bytes ''/home'') \<and> fs_normalize_path (bytes ''/home'') (bytes ''/bin'') = Ok (bytes ''/home'')"
proof -
  have n: "fs_normalize_path (bytes ''/bin/../home'') [] = Ok (bytes ''/home'')" and t: "trim (bytes ''/home'') = bytes ''/home''"
    by code_simp+
  show ?thesis using normalize_idempotent [OF _ n, of "bytes ''/bin''"] t by blast
qed

text \<open>
  The exception is real: a file whose name ends in a blank can be created through a trailing
  slash, and its normalized name denotes another file.
\<close>

theorem normalize_blank_name:
  "fs_normalize_path (bytes ''/a/ /'') cwd = Ok (bytes ''/a/ '') \<and>
   fs_normalize_path (bytes ''/a/ '') cwd = Ok (bytes ''/a'')"
proof -
  have f: "full_path (bytes ''/a/ /'') cwd = full_path (bytes ''/a/ /'') []"
    "full_path (bytes ''/a/ '') cwd = full_path (bytes ''/a/ '') []"
  proof -
    have "starts_with (trim (bytes ''/a/ /'')) [47]" "starts_with (trim (bytes ''/a/ '')) [47]" by code_simp+
    then show "full_path (bytes ''/a/ /'') cwd = full_path (bytes ''/a/ /'') []"
      "full_path (bytes ''/a/ '') cwd = full_path (bytes ''/a/ '') []" by (simp_all add: full_path_def Let_def del: bytes_Cons)
  qed
  have "fs_normalize_path (bytes ''/a/ /'') [] = Ok (bytes ''/a/ '')" "fs_normalize_path (bytes ''/a/ '') [] = Ok (bytes ''/a'')"
    by code_simp+
  then show ?thesis unfolding fs_normalize_path_def f by blast
qed

end
