(* ===== verification/Vfs.thy ===== *)
theory Vfs
  imports Pipeline
begin

text \<open>
  The virtual files under \<^verbatim>\<open>/vram\<close> (\<^verbatim>\<open>kernel/src/vfs.rs\<close>): the frame slots of the capture
  pool, a scratch buffer and a text with statistics.
\<close>

section \<open>Strings\<close>

text \<open>\<^verbatim>\<open>s.trim_start_matches(p)\<close>: the prefix goes as often as it is there.\<close>

function trim_start_matches :: "str \<Rightarrow> str \<Rightarrow> str" where
  "trim_start_matches p s =
     (if p \<noteq> [] \<and> starts_with s p then trim_start_matches p (drop (length p) s) else s)"
  by pat_completeness auto
termination
proof (relation "measure (\<lambda>(p, s). length s)")
  show "wf (measure (\<lambda>(p :: str, s :: str). length s))" by simp
next
  fix p s :: str assume "p \<noteq> [] \<and> starts_with s p"
  then have "0 < length p" "s \<noteq> []" by (auto simp: starts_with_def)
  then show "((p, drop (length p) s), p, s) \<in> measure (\<lambda>(p, s). length s)" by simp
qed

declare trim_start_matches.simps [simp del]

text \<open>
  \<^verbatim>\<open>s.parse::<usize>()\<close>: one plus sign may stand before the digits; no digits, another
  character or a value past 64 bits is an error.
\<close>

fun digits_value :: "str \<Rightarrow> nat \<Rightarrow> nat option" where
  "digits_value [] n = (if n < 2 ^ 64 then Some n else None)"
| "digits_value (b # s) n =
     (if 48 \<le> b \<and> b \<le> 57 then digits_value s (10 * n + unat (b - 48)) else None)"

definition parse_usize :: "str \<Rightarrow> nat option" where
  "parse_usize s =
     (let d = (case s of b # r \<Rightarrow> if b = 43 then r else s | [] \<Rightarrow> [])
      in if d = [] then None else digits_value d 0)"

section \<open>State\<close>

abbreviation (input) VFS_SCRATCH_SIZE :: nat where
  "VFS_SCRATCH_SIZE \<equiv> 65536"

text \<open>\<open>pool\<close> is the frame pool of \<^verbatim>\<open>gpu.rs\<close>, which the capture core also writes.\<close>

record vfs =
  VFS_SCRATCH_BUFFER :: "u8 list"
  VFS_SCRATCH_LEN :: nat
  pool :: "u8 list list"

definition vfs_init :: vfs where
  "vfs_init = \<lparr>VFS_SCRATCH_BUFFER = replicate 65536 0, VFS_SCRATCH_LEN = 0, pool = FRAME_POOL\<rparr>"

definition VFS_ENTRIES :: "str list" where
  "VFS_ENTRIES = map bytes [''slot0'', ''slot1'', ''slot2'', ''slot3'', ''slot4'', ''slot5'', ''slot6'',
     ''slot7'', ''stats'', ''scratch'']"

definition vfs_list_entries :: "str list" where
  "vfs_list_entries = VFS_ENTRIES"

section \<open>Operations\<close>

definition vfs_is_vram_path :: "str \<Rightarrow> bool" where
  "vfs_is_vram_path path =
     (let p = trim path
      in p = bytes ''/vram'' \<or> p = bytes ''/vram/'' \<or> starts_with p (bytes ''/vram/'') \<or>
         p = bytes ''vram'' \<or> starts_with p (bytes ''vram/''))"

definition vram_clean :: "str \<Rightarrow> str" where
  "vram_clean path =
     trim_start_matches [47] (trim_start_matches (bytes ''vram'') (trim_start_matches [47] path))"

definition stats_lines :: "str list" where
  "stats_lines = map (\<lambda>l. bytes l @ [10])
     [''==================== [LatencyVFS: GPU VRAM FILE SYSTEM] ===================='',
      ''Mount Point: /vram/ | Backing: Physical GPU DMA Framebuffer Pool'',
      ''Resolution: 1920x1080 @ 32bpp | Total VRAM Slots: 8 (63.28 MB DMA Pool)'',
      ''Status: ACTIVE | Zero-Copy GPU Direct Access: ENABLED'',
      ''----------------------------------------------------------------------------'',
      ''Virtual Files:'',
      ''  /vram/slot0..slot7 : Raw RGBA32 Frame Buffer Slots (8,294,400 bytes each)'',
      ''  /vram/scratch      : High-Speed Zero-Copy Scratch Pad (65,536 bytes)'',
      ''  /vram/stats        : Telemetry & Memory Allocation Statistics'',
      ''----------------------------------------------------------------------------'']"

text \<open>What fits the 1024 bytes of \<^verbatim>\<open>STATS_TEXT_BUFFER\<close>; \<open>cur\<close> is the buffer up to the cursor.\<close>

definition append_str :: "str \<Rightarrow> str \<Rightarrow> str" where
  "append_str cur s = cur @ take (min (length s) (1024 - length cur)) s"

definition slot_of :: "str \<Rightarrow> nat option" where
  "slot_of clean =
     (case parse_usize (drop 4 clean) of
        Some i \<Rightarrow> if i < NUM_FRAME_SLOTS then Some i else None
      | None \<Rightarrow> None)"

definition vfs_read :: "str \<Rightarrow> vfs \<Rightarrow> u8 list option" where
  "vfs_read path v =
     (let clean = vram_clean path
      in if clean = [] then None
         else if clean = bytes ''stats'' then Some (foldl append_str [] stats_lines)
         else if starts_with clean (bytes ''slot'') then
           (case slot_of clean of
              Some i \<Rightarrow> Some (get_frame_slot_data (pool v) (of_nat i))
            | None \<Rightarrow> None)
         else if clean = bytes ''scratch'' then
           (let n = min (VFS_SCRATCH_LEN v) VFS_SCRATCH_SIZE
            in if 0 < n then Some (take n (VFS_SCRATCH_BUFFER v)) else Some (VFS_SCRATCH_BUFFER v))
         else None)"

definition vfs_write :: "str \<Rightarrow> u8 list \<Rightarrow> vfs \<Rightarrow> (string, unit) outcome \<times> vfs" where
  "vfs_write path dat v =
     (let clean = vram_clean path
      in if clean = bytes ''scratch'' then
           (let n = min (length dat) VFS_SCRATCH_SIZE
            in (Ok (), v\<lparr>VFS_SCRATCH_BUFFER := copy_at 0 (take n dat) (VFS_SCRATCH_BUFFER v), VFS_SCRATCH_LEN := n\<rparr>))
         else if starts_with clean (bytes ''slot'') then
           (case slot_of clean of
              Some i \<Rightarrow>
                let n = min (length dat) (length (get_frame_slot_data (pool v) (of_nat i)))
                in (Ok (), v\<lparr>pool := (pool v)[i := copy_at 0 (take n dat) (pool v ! i)]\<rparr>)
            | None \<Rightarrow> (Err ''Invalid slot index (0..7 allowed)'', v))
         else (Err ''Read-only VRAM virtual file'', v))"

section \<open>Invariant and contents\<close>

definition vfs_ok :: "vfs \<Rightarrow> bool" where
  "vfs_ok v \<longleftrightarrow> length (VFS_SCRATCH_BUFFER v) = 65536 \<and> VFS_SCRATCH_LEN v \<le> 65536 \<and>
     length (pool v) = 4 \<and> (\<forall>i<4. length (pool v ! i) = 65536)"

lemma less_4: "i < 4 \<Longrightarrow> i = 0 \<or> i = 1 \<or> i = 2 \<or> i = (3 :: nat)"
  by linarith

lemma vfs_init_ok: "vfs_ok vfs_init"
  unfolding vfs_ok_def vfs_init_def FRAME_POOL_def by (auto dest!: less_4)

text \<open>The buffer a path names: a slot, the scratch buffer (4), or none that can be written.\<close>

definition vram_target :: "str \<Rightarrow> nat option" where
  "vram_target path =
     (let clean = vram_clean path
      in if clean = bytes ''scratch'' then Some 4
         else if starts_with clean (bytes ''slot'') then slot_of clean else None)"

lemma slot_of_less: "slot_of clean = Some i \<Longrightarrow> i < 4"
  by (auto simp: slot_of_def split: option.splits if_splits)

lemma frame_slot_nth: "i < 4 \<Longrightarrow> get_frame_slot_data fs (of_nat i) = fs ! i"
  by (simp add: get_frame_slot_data_def unat_of_nat)

lemma length_copy_head: "length ys \<le> length xs \<Longrightarrow> length (copy_at 0 ys xs) = length xs"
  by simp

lemma vfs_write_ok [keeps_ok]: "vfs_ok v \<Longrightarrow> vfs_ok (snd (vfs_write path dat v))"
  by (auto simp: vfs_write_def vfs_ok_def Let_def slot_of_less frame_slot_nth nth_list_update length_copy_head
      split: option.splits if_splits simp del: length_copy_at)

lemma vfs_write_target:
  "fst (vfs_write path dat v) = Ok () \<longleftrightarrow> vram_target path \<noteq> None"
  "vram_target path = None \<Longrightarrow> snd (vfs_write path dat v) = v"
  by (auto simp: vfs_write_def vram_target_def Let_def split: option.splits)

lemma scratch_names: "bytes ''scratch'' \<noteq> []" "bytes ''scratch'' \<noteq> bytes ''stats''" "\<not> starts_with (bytes ''scratch'') (bytes ''slot'')"
  "\<not> starts_with [] (bytes ''slot'')" "\<not> starts_with (bytes ''stats'') (bytes ''slot'')"
  by (simp_all add: starts_with_def)

lemma vfs_read_target:
  "vram_target path = Some 4 \<Longrightarrow>
     vfs_read path v = Some (if VFS_SCRATCH_LEN v = 0 then VFS_SCRATCH_BUFFER v
       else take (min (VFS_SCRATCH_LEN v) 65536) (VFS_SCRATCH_BUFFER v))"
  "vram_target path = Some i \<Longrightarrow> i < 4 \<Longrightarrow> vfs_read path v = Some (pool v ! i)"
  "vram_target path = None \<Longrightarrow> vfs_read path v = vfs_read path vfs_init"
  using scratch_names
  by (auto simp: vfs_read_def vram_target_def Let_def frame_slot_nth dest: slot_of_less
      split: if_splits option.splits simp del: bytes_Cons)

lemma vram_target_cases: "vram_target path = Some i \<Longrightarrow> i < 4 \<or> i = 4"
  by (auto simp: vram_target_def Let_def dest: slot_of_less split: if_splits)

lemma vfs_write_state:
  "vram_target path = Some 4 \<Longrightarrow> snd (vfs_write path dat v) =
     v\<lparr>VFS_SCRATCH_BUFFER := copy_at 0 (take 65536 dat) (VFS_SCRATCH_BUFFER v), VFS_SCRATCH_LEN := min (length dat) 65536\<rparr>"
  "vram_target path = Some i \<Longrightarrow> i < 4 \<Longrightarrow> snd (vfs_write path dat v) =
     v\<lparr>pool := (pool v)[i := copy_at 0 (take (length (pool v ! i)) dat) (pool v ! i)]\<rparr>"
  by (auto simp: vfs_write_def vram_target_def Let_def frame_slot_nth min_def dest: slot_of_less
      split: if_splits option.splits simp del: bytes_Cons)

lemma vfs_read_frame:
  assumes "vfs_ok v" and "vram_target path' \<noteq> vram_target path"
  shows "vfs_read path' (snd (vfs_write path dat v)) = vfs_read path' v"
proof (cases "vram_target path")
  case None
  then show ?thesis by (simp add: vfs_write_target)
next
  case (Some i)
  show ?thesis
  proof (cases "vram_target path'")
    case None
    then show ?thesis using vfs_read_target(3) by metis
  next
    case j: (Some j)
    then show ?thesis
      using Some assms(2) vram_target_cases [OF Some] vram_target_cases [OF j]
      by (auto simp: vfs_read_target vfs_write_state)
  qed
qed

text \<open>
  Writing a virtual file keeps the buffers at their sizes; it succeeds exactly for the scratch
  buffer and the four slots of the pool, and otherwise changes nothing. The file then starts with
  the bytes written, as many as fit, and every other virtual file reads as before.
\<close>

theorem vfs_write_read:
  assumes "vfs_ok v" and "vfs_write path dat v = (r, v')"
  shows "vfs_ok v' \<and> (r = Ok () \<longleftrightarrow> vram_target path \<noteq> None) \<and> (r \<noteq> Ok () \<longrightarrow> v' = v) \<and>
    (r = Ok () \<and> dat \<noteq> [] \<longrightarrow> (\<exists>b. vfs_read path v' = Some b \<and> take (length dat) b = take 65536 dat)) \<and>
    (\<forall>path'. vram_target path' \<noteq> vram_target path \<longrightarrow> vfs_read path' v' = vfs_read path' v)"
proof -
  have v': "v' = snd (vfs_write path dat v)" and r: "r = fst (vfs_write path dat v)" using assms(2) by auto
  have "\<exists>b. vfs_read path v' = Some b \<and> take (length dat) b = take 65536 dat" if "dat \<noteq> []" "vram_target path = Some i" for i
    using vram_target_cases [OF that(2)] that assms(1)
    by (auto simp: v' vfs_read_target vfs_write_state vfs_ok_def copy_at_def min_def)
  then show ?thesis
    unfolding v' r using vfs_write_ok [OF assms(1)] vfs_write_target vfs_read_frame [OF assms(1)] by auto
qed

theorem vfs_write_read_witness:
  "vfs_ok (snd (vfs_write (bytes ''/vram/slot3'') [1, 2, 3] vfs_init)) \<and>
   (\<exists>b. vfs_read (bytes ''/vram/slot3'') (snd (vfs_write (bytes ''/vram/slot3'') [1, 2, 3] vfs_init)) = Some b \<and>
      take 3 b = [1, 2, 3])"
proof -
  have t: "vram_target (bytes ''/vram/slot3'') = Some 3"
    by (simp add: vram_target_def vram_clean_def trim_start_matches.simps starts_with_def slot_of_def parse_usize_def)
  obtain r v' where w: "vfs_write (bytes ''/vram/slot3'') [1, 2, 3] vfs_init = (r, v')" by fastforce
  have v': "snd (vfs_write (bytes ''/vram/slot3'') [1, 2, 3] vfs_init) = v'" by (simp only: w snd_conv)
  show ?thesis unfolding v' using vfs_write_read [OF vfs_init_ok w] unfolding t by (simp add: numeral_3_eq_3)
qed

text \<open>
  An empty write to the scratch buffer does not empty the file: the length 0 also marks a buffer
  that was never written, and the read returns all 65536 bytes, the old contents among them.
\<close>

theorem scratch_empty_write:
  assumes "vram_target path = Some 4"
  shows "vfs_read path (snd (vfs_write path [] v)) = Some (VFS_SCRATCH_BUFFER v)"
  using assms by (simp add: vfs_read_target vfs_write_state)

theorem scratch_empty_write_witness:
  "\<exists>rest. vfs_read (bytes ''/vram/scratch'') (snd (vfs_write (bytes ''/vram/scratch'') []
     (snd (vfs_write (bytes ''/vram/scratch'') [7] vfs_init)))) = Some (7 # rest)"
proof -
  have t: "vram_target (bytes ''/vram/scratch'') = Some 4"
    by (simp add: vram_target_def vram_clean_def trim_start_matches.simps starts_with_def)
  have "VFS_SCRATCH_BUFFER (snd (vfs_write (bytes ''/vram/scratch'') [7] v)) = 7 # drop 1 (VFS_SCRATCH_BUFFER v)" for v
    by (simp add: vfs_write_state(1) [OF t] copy_at_def del: bytes_Cons)
  then show ?thesis unfolding scratch_empty_write [OF t] by blast
qed

end
