(* ===== verification/Disk.thy ===== *)
theory Disk
  imports Ports
begin

text \<open>
  The export disk (\<^verbatim>\<open>kernel/src/export_disk.rs\<close>): the ATA driver in programmed I/O mode, the
  boot sector of a FAT16 volume, the 8.3 file names, and reading, writing and deleting files of
  the root directory. The drive is reached through the ports; the theory \<open>Fat\<close> states what
  the files do on a drive that stores its sectors. Sector and cluster arithmetic is on natural
  numbers: all values of the code fit their 32 bits (lemma \<open>bpb_lba_bounds\<close>), except the bound
  of the cluster search, which is a 16-bit sum.

  The sector buffers are static in the code; every use is preceded by the read or fill that
  defines the contents, so they are values here. A read of a file returns the bytes it stores at
  the start of the caller's buffer.
\<close>

section \<open>Steps that may fail\<close>

type_synonym error = string

type_synonym ('s, 'a) step = "'s \<Rightarrow> (error, 'a) outcome \<times> 's"

definition ret :: "'a \<Rightarrow> ('s, 'a) step" where
  "ret a s = (Ok a, s)"

definition fail :: "error \<Rightarrow> ('s, 'a) step" where
  "fail e s = (Err e, s)"

text \<open>\<^verbatim>\<open>let a = m?; f(a)\<close>\<close>

definition and_then :: "('s, 'a) step \<Rightarrow> ('a \<Rightarrow> ('s, 'b) step) \<Rightarrow> ('s, 'b) step" where
  "and_then m f s =
     (case m s of (Ok a, s') \<Rightarrow> f a s' | (Err e, s') \<Rightarrow> (Err e, s') | (Panic, s') \<Rightarrow> (Panic, s'))"

definition exec :: "('s \<Rightarrow> 's) \<Rightarrow> ('s, unit) step" where
  "exec f s = (Ok (), f s)"

section \<open>ATA driver\<close>

definition ATA_PRIMARY_DATA :: u16 where "ATA_PRIMARY_DATA = 0x1F0"
definition ATA_SECONDARY_DATA :: u16 where "ATA_SECONDARY_DATA = 0x170"
definition ATA_CMD_READ_SECTORS :: u8 where "ATA_CMD_READ_SECTORS = 0x20"
definition ATA_CMD_WRITE_SECTORS :: u8 where "ATA_CMD_WRITE_SECTORS = 0x30"
definition ATA_CMD_CACHE_FLUSH :: u8 where "ATA_CMD_CACHE_FLUSH = 0xE7"
definition ATA_STATUS_BSY :: u8 where "ATA_STATUS_BSY = 0x80"
definition ATA_STATUS_DRQ :: u8 where "ATA_STATUS_DRQ = 0x08"
definition ATA_STATUS_ERR :: u8 where "ATA_STATUS_ERR = 0x01"

abbreviation (input) SECTOR_SIZE :: nat where "SECTOR_SIZE \<equiv> 512"
abbreviation (input) MAX_EXPORT_FILE_SIZE :: nat where "MAX_EXPORT_FILE_SIZE \<equiv> 65536"

fun poll_ready :: "nat \<Rightarrow> 'w ports \<Rightarrow> u16 \<Rightarrow> ('w, unit) step" where
  "poll_ready n p status_port w =
     (if n = 0 then (Err ''ATA disk timeout waiting for ready'', w)
      else let (st, w) = inb p status_port w
           in if st AND ATA_STATUS_BSY = 0 then (Ok (), w) else poll_ready (n - 1) p status_port w)"

fun poll_drq :: "nat \<Rightarrow> 'w ports \<Rightarrow> u16 \<Rightarrow> ('w, unit) step" where
  "poll_drq n p status_port w =
     (if n = 0 then (Err ''ATA disk timeout waiting for DRQ'', w)
      else let (st, w) = inb p status_port w
           in if st AND ATA_STATUS_ERR \<noteq> 0 then (Err ''ATA disk error flag set'', w)
              else if st AND ATA_STATUS_BSY = 0 \<and> st AND ATA_STATUS_DRQ \<noteq> 0 then (Ok (), w)
              else poll_drq (n - 1) p status_port w)"

declare poll_ready.simps [simp del] poll_drq.simps [simp del]

definition ata_wait_ready :: "'w ports \<Rightarrow> u16 \<Rightarrow> ('w, unit) step" where
  "ata_wait_ready p base_port = poll_ready 100000 p (base_port + 7)"

definition ata_wait_drq :: "'w ports \<Rightarrow> u16 \<Rightarrow> ('w, unit) step" where
  "ata_wait_drq p base_port = poll_drq 100000 p (base_port + 7)"

text \<open>Selecting the drive, the delay of four status reads, the address and the command.\<close>

definition drive_sel :: "u8 \<Rightarrow> u32 \<Rightarrow> u8" where
  "drive_sel drive lba = 0xE0 OR push_bit 4 (drive AND 1) OR ucast (drop_bit 24 lba AND 0x0F)"

definition ata_command :: "'w ports \<Rightarrow> u16 \<Rightarrow> u8 \<Rightarrow> u32 \<Rightarrow> u8 \<Rightarrow> 'w \<Rightarrow> 'w" where
  "ata_command p base_port drive lba cmd w =
     (let w = outb p (base_port + 6) (drive_sel drive lba) w;
          w = ((\<lambda>w. snd (inb p (base_port + 7) w)) ^^ 4) w;
          w = outb p (base_port + 2) 1 w;
          w = outb p (base_port + 3) (ucast (lba AND 0xFF)) w;
          w = outb p (base_port + 4) (ucast (drop_bit 8 lba AND 0xFF)) w;
          w = outb p (base_port + 5) (ucast (drop_bit 16 lba AND 0xFF)) w
      in outb p (base_port + 7) cmd w)"

primrec read_words :: "nat \<Rightarrow> 'w ports \<Rightarrow> u16 \<Rightarrow> 'w \<Rightarrow> u8 list \<times> 'w" where
  "read_words 0 p port w = ([], w)"
| "read_words (Suc n) p port w =
     (let (word, w) = inw p port w;
          (bs, w) = read_words n p port w
      in (ucast (word AND 0xFF) # ucast (drop_bit 8 word AND 0xFF) # bs, w))"

fun write_words :: "'w ports \<Rightarrow> u16 \<Rightarrow> u8 list \<Rightarrow> 'w \<Rightarrow> 'w" where
  "write_words p port (a # b # bs) w = write_words p port bs (outw p port (ucast a OR push_bit 8 (ucast b)) w)"
| "write_words p port _ w = w"

definition ata_read_sector :: "'w ports \<Rightarrow> u16 \<Rightarrow> u8 \<Rightarrow> nat \<Rightarrow> ('w, u8 list) step" where
  "ata_read_sector p base_port drive lba =
     and_then (ata_wait_ready p base_port) (\<lambda>_.
     and_then (exec (ata_command p base_port drive (of_nat lba) ATA_CMD_READ_SECTORS)) (\<lambda>_.
     and_then (ata_wait_drq p base_port) (\<lambda>_ w.
       let (buf, w) = read_words 256 p base_port w in (Ok buf, w))))"

definition ata_write_sector :: "'w ports \<Rightarrow> u16 \<Rightarrow> u8 \<Rightarrow> nat \<Rightarrow> u8 list \<Rightarrow> ('w, unit) step" where
  "ata_write_sector p base_port drive lba buf =
     and_then (ata_wait_ready p base_port) (\<lambda>_.
     and_then (exec (ata_command p base_port drive (of_nat lba) ATA_CMD_WRITE_SECTORS)) (\<lambda>_.
     and_then (ata_wait_drq p base_port) (\<lambda>_.
     and_then (exec (write_words p base_port buf)) (\<lambda>_.
     and_then (ata_wait_ready p base_port) (\<lambda>_.
     and_then (exec (outb p (base_port + 7) ATA_CMD_CACHE_FLUSH)) (\<lambda>_.
       ata_wait_ready p base_port))))))"

section \<open>Boot sector\<close>

record Fat16Bpb =
  bytes_per_sector :: nat
  sectors_per_cluster :: nat
  reserved_sectors :: nat
  num_fats :: nat
  root_dir_entries :: nat
  total_sectors :: nat
  fat_size_sectors :: nat
  root_dir_start_lba :: nat
  root_dir_sectors :: nat
  data_start_lba :: nat
  total_data_clusters :: nat

definition Fat16Bpb_empty :: Fat16Bpb where
  "Fat16Bpb_empty =
     \<lparr>bytes_per_sector = 512, sectors_per_cluster = 4, reserved_sectors = 4, num_fats = 2,
      root_dir_entries = 512, total_sectors = 32768, fat_size_sectors = 32, root_dir_start_lba = 68,
      root_dir_sectors = 32, data_start_lba = 100, total_data_clusters = 8167\<rparr>"

definition le16_at :: "u8 list \<Rightarrow> nat \<Rightarrow> u16" where
  "le16_at b i = from_le [b ! i, b ! (i + 1)]"

definition le32_at :: "u8 list \<Rightarrow> nat \<Rightarrow> u32" where
  "le32_at b i = from_le [b ! i, b ! (i + 1), b ! (i + 2), b ! (i + 3)]"

definition parse_bpb :: "u8 list \<Rightarrow> (error, Fat16Bpb) outcome" where
  "parse_bpb s =
     (if s ! 510 \<noteq> 0x55 \<or> s ! 511 \<noteq> 0xAA then Err ''Invalid boot sector signature (0x55AA missing)''
      else if le16_at s 11 \<noteq> 512 then Err ''Unsupported sector size (only 512 bytes supported)''
      else if s ! 13 = 0 then Err ''Invalid sectors per cluster (0)''
      else let bps = unat (le16_at s 11);
               spc = unat (s ! 13);
               reserved = unat (le16_at s 14);
               nf = unat (s ! 16);
               rde = unat (le16_at s 17);
               ts16 = unat (le16_at s 19);
               fss = unat (le16_at s 22);
               ts32 = unat (le32_at s 32);
               ts = (if ts16 \<noteq> 0 then ts16 else ts32);
               rds = reserved + nf * fss;
               rdsec = (rde * 32 + (bps - 1)) div bps;
               dsl = rds + rdsec
           in Ok \<lparr>bytes_per_sector = bps, sectors_per_cluster = spc, reserved_sectors = reserved,
                  num_fats = nf, root_dir_entries = rde, total_sectors = ts, fat_size_sectors = fss,
                  root_dir_start_lba = rds, root_dir_sectors = rdsec, data_start_lba = dsl,
                  total_data_clusters = (ts - dsl) div spc\<rparr>)"

section \<open>File names\<close>

definition ascii_upper :: "u8 \<Rightarrow> u8" where
  "ascii_upper b = (if 97 \<le> b \<and> b \<le> 122 then b - 32 else b)"

definition ascii_lower :: "u8 \<Rightarrow> u8" where
  "ascii_lower b = (if 65 \<le> b \<and> b \<le> 90 then b + 32 else b)"

definition base_name :: "str \<Rightarrow> str" where
  "base_name name =
     (case rfind name 47 of
        Some i \<Rightarrow> drop (i + 1) name
      | None \<Rightarrow> (case rfind name 92 of Some i \<Rightarrow> drop (i + 1) name | None \<Rightarrow> name))"

definition to_83_name :: "str \<Rightarrow> u8 list" where
  "to_83_name name =
     (let base = base_name (trim name);
          (stem, ext) = (case rfind base 46 of Some i \<Rightarrow> (take i base, drop (i + 1) base) | None \<Rightarrow> (base, []));
          stem = map ascii_upper (take 8 stem);
          ext = map ascii_upper (take 3 ext)
      in stem @ replicate (8 - length stem) 32 @ ext @ replicate (3 - length ext) 32)"

text \<open>The name of a directory entry, as it is listed: the blanks go, a dot before an extension.\<close>

definition entry_name :: "u8 list \<Rightarrow> u8 list" where
  "entry_name entry =
     (let stem = filter (\<lambda>b. b \<noteq> 32) (take 8 entry);
          ext = filter (\<lambda>b. b \<noteq> 32) (sub_slice 8 3 entry)
      in if ext \<noteq> [] then stem @ 46 # ext else stem)"

section \<open>The disk\<close>

record DiskLocation =
  base_port :: u16
  drive :: u8
  detected :: bool

record 'w disk =
  dev :: 'w
  EXPORT_DISK_LOC :: DiskLocation
  SYNC_MUTEX_FLAG :: bool

definition disk_init :: "'w \<Rightarrow> 'w disk" where
  "disk_init w =
     \<lparr>dev = w, EXPORT_DISK_LOC = \<lparr>base_port = ATA_PRIMARY_DATA, drive = 1, detected = False\<rparr>,
      SYNC_MUTEX_FLAG = False\<rparr>"

definition on_dev :: "('w, 'a) step \<Rightarrow> ('w disk, 'a) step" where
  "on_dev m d = (case m (dev d) of (r, w) \<Rightarrow> (r, d\<lparr>dev := w\<rparr>))"

definition read_sec :: "'w ports \<Rightarrow> DiskLocation \<Rightarrow> nat \<Rightarrow> ('w disk, u8 list) step" where
  "read_sec p loc lba = on_dev (ata_read_sector p (base_port loc) (drive loc) lba)"

definition write_sec :: "'w ports \<Rightarrow> DiskLocation \<Rightarrow> nat \<Rightarrow> u8 list \<Rightarrow> ('w disk, unit) step" where
  "write_sec p loc lba buf = on_dev (ata_write_sector p (base_port loc) (drive loc) lba buf)"

fun detect_among :: "'w ports \<Rightarrow> (u16 \<times> u8) list \<Rightarrow> 'w disk \<Rightarrow> DiskLocation option \<times> 'w disk" where
  "detect_among p [] d = (None, d)"
| "detect_among p ((bp, dr) # cs) d =
     (case on_dev (ata_read_sector p bp dr 0) d of
        (Ok buf, d) \<Rightarrow>
          (case parse_bpb buf of
             Ok _ \<Rightarrow> let loc = \<lparr>base_port = bp, drive = dr, detected = True\<rparr> in (Some loc, d\<lparr>EXPORT_DISK_LOC := loc\<rparr>)
           | _ \<Rightarrow> detect_among p cs d)
      | (_, d) \<Rightarrow> detect_among p cs d)"

definition export_disk_detect :: "'w ports \<Rightarrow> 'w disk \<Rightarrow> DiskLocation option \<times> 'w disk" where
  "export_disk_detect p d =
     detect_among p [(ATA_PRIMARY_DATA, 1), (ATA_PRIMARY_DATA, 0), (ATA_SECONDARY_DATA, 1), (ATA_SECONDARY_DATA, 0)] d"

definition get_export_disk_loc :: "'w ports \<Rightarrow> ('w disk, DiskLocation) step" where
  "get_export_disk_loc p d =
     (if detected (EXPORT_DISK_LOC d) then (Ok (EXPORT_DISK_LOC d), d)
      else case export_disk_detect p d of
             (Some loc, d) \<Rightarrow> (Ok loc, d)
           | (None, d) \<Rightarrow> (Err ''No FAT16 Export Disk detected on ATA ports (0x1F0/0x170)'', d))"

definition export_disk_get_bpb :: "'w ports \<Rightarrow> ('w disk, Fat16Bpb) step" where
  "export_disk_get_bpb p =
     and_then (get_export_disk_loc p) (\<lambda>loc.
     and_then (read_sec p loc 0) (\<lambda>buf d. (parse_bpb buf, d)))"

section \<open>Directory and cluster chains\<close>

definition dir_entry :: "u8 list \<Rightarrow> nat \<Rightarrow> u8 list" where
  "dir_entry buf i = sub_slice (32 * i) 32 buf"

definition first_cluster :: "u8 list \<Rightarrow> u16" where
  "first_cluster entry = le16_at entry 26"

definition file_size :: "u8 list \<Rightarrow> nat" where
  "file_size entry = unat (le32_at entry 28)"

text \<open>The entries of one directory sector up to the end mark.\<close>

fun live_entries :: "u8 list \<Rightarrow> nat list \<Rightarrow> nat list" where
  "live_entries buf [] = []"
| "live_entries buf (i # is) = (if dir_entry buf i ! 0 = 0 then [] else i # live_entries buf is)"

definition skipped :: "u8 list \<Rightarrow> bool" where
  "skipped entry \<longleftrightarrow> entry ! 0 = 0xE5 \<or> entry ! 11 AND 0x0F = 0x0F"

definition find_name :: "u8 list \<Rightarrow> u8 list \<Rightarrow> nat option" where
  "find_name target buf =
     List.find (\<lambda>i. \<not> skipped (dir_entry buf i) \<and> take 11 (dir_entry buf i) = target) (live_entries buf [0..<16])"

text \<open>The search for a name: the end mark ends the search of its sector, not of the directory.\<close>

fun find_file :: "'w ports \<Rightarrow> DiskLocation \<Rightarrow> u8 list \<Rightarrow> nat list \<Rightarrow> ('w disk, (nat \<times> nat \<times> u8 list) option) step" where
  "find_file p loc target [] = ret None"
| "find_file p loc target (lba # lbas) =
     and_then (read_sec p loc lba) (\<lambda>buf.
       case find_name target buf of
         Some i \<Rightarrow> ret (Some (lba, i, buf))
       | None \<Rightarrow> find_file p loc target lbas)"

definition root_lbas :: "Fat16Bpb \<Rightarrow> nat list" where
  "root_lbas bpb = [root_dir_start_lba bpb..<root_dir_start_lba bpb + root_dir_sectors bpb]"

definition list_row :: "u8 list \<Rightarrow> str \<times> nat \<times> nat \<times> bool" where
  "list_row entry =
     (let name = entry_name entry
      in (if utf8_valid name then name else bytes ''<invalid>'', file_size entry,
          unat (first_cluster entry), entry ! 11 AND 0x10 \<noteq> 0))"

definition listed :: "u8 list \<Rightarrow> bool" where
  "listed entry \<longleftrightarrow> \<not> (skipped entry \<or> entry ! 11 AND 0x08 \<noteq> 0)"

fun list_sectors :: "'w ports \<Rightarrow> DiskLocation \<Rightarrow> nat list \<Rightarrow> ('w disk, (str \<times> nat \<times> nat \<times> bool) list) step" where
  "list_sectors p loc [] = ret []"
| "list_sectors p loc (lba # lbas) =
     and_then (read_sec p loc lba) (\<lambda>buf.
     and_then (list_sectors p loc lbas) (\<lambda>rows.
       ret (map list_row (filter listed (map (dir_entry buf) (live_entries buf [0..<16]))) @ rows)))"

text \<open>
  The listing returns the number of its rows; the rows (name, size, first cluster, directory
  flag) stand for the printed lines, of which the code prints those read before a failure. The size
  in the heading is the 32-bit product \<^verbatim>\<open>bpb.total_sectors * 512\<close>: \<open>checked\<close> selects the panic of a
  build with overflow checks.
\<close>

definition export_disk_list_files :: "bool \<Rightarrow> 'w ports \<Rightarrow> ('w disk, nat \<times> (str \<times> nat \<times> nat \<times> bool) list) step" where
  "export_disk_list_files checked p =
     and_then (get_export_disk_loc p) (\<lambda>loc.
     and_then (export_disk_get_bpb p) (\<lambda>bpb.
       if checked \<and> 2 ^ 32 \<le> total_sectors bpb * 512 then Pair Panic
       else and_then (list_sectors p loc (root_lbas bpb)) (\<lambda>rows. ret (length rows, rows))))"

definition cluster_lba :: "Fat16Bpb \<Rightarrow> nat \<Rightarrow> nat" where
  "cluster_lba bpb c = data_start_lba bpb + (c - 2) * sectors_per_cluster bpb"

definition fat_sec :: "Fat16Bpb \<Rightarrow> nat \<Rightarrow> nat" where
  "fat_sec bpb c = reserved_sectors bpb + c * 2 div SECTOR_SIZE"

definition fat_offset :: "nat \<Rightarrow> nat" where
  "fat_offset c = c * 2 mod SECTOR_SIZE"

text \<open>The sectors of one cluster, until enough bytes are read.\<close>

fun read_cluster :: "'w ports \<Rightarrow> DiskLocation \<Rightarrow> nat \<Rightarrow> nat list \<Rightarrow> u8 list \<Rightarrow> ('w disk, u8 list) step" where
  "read_cluster p loc want [] out = ret out"
| "read_cluster p loc want (lba # lbas) out =
     (if want \<le> length out then ret out
      else and_then (read_sec p loc lba) (\<lambda>buf.
             read_cluster p loc want lbas (out @ take (min SECTOR_SIZE (want - length out)) buf)))"

lemma read_sec_fst:
  "read_sec p loc lba d = (Ok buf, d') \<Longrightarrow> length buf = 512"
proof -
  have "length (fst (read_words n p port w)) = 2 * n" for n port w
    by (induction n arbitrary: w) (auto simp: Let_def split: prod.splits, (metis fst_conv)+)
  then show "read_sec p loc lba d = (Ok buf, d') \<Longrightarrow> length buf = 512"
    by (auto simp: read_sec_def on_dev_def ata_read_sector_def and_then_def exec_def Let_def
        split: prod.splits outcome.splits) (metis fst_conv numeral_times_numeral semiring_norm(11,12,13))
qed

text \<open>
  The loops along a cluster chain take a bound on their rounds and give \<^const>\<open>Panic\<close> when it is
  not enough, where the code would loop on. A round of the read adds at least one byte, so the
  number of bytes wanted is enough; a round of the release clears the cluster it visits, so the
  number of clusters is enough on a drive that stores what is written.
\<close>

primrec read_chain :: "nat \<Rightarrow> 'w ports \<Rightarrow> DiskLocation \<Rightarrow> Fat16Bpb \<Rightarrow> nat \<Rightarrow> nat \<Rightarrow> u8 list \<Rightarrow> ('w disk, u8 list) step" where
  "read_chain 0 p loc bpb want c out =
     (if 2 \<le> c \<and> c < 0xFFF8 \<and> length out < want then Pair Panic else ret out)"
| "read_chain (Suc fuel) p loc bpb want c out =
     (if 2 \<le> c \<and> c < 0xFFF8 \<and> length out < want
      then and_then (read_cluster p loc want [cluster_lba bpb c..<cluster_lba bpb c + sectors_per_cluster bpb] out) (\<lambda>out.
           and_then (read_sec p loc (fat_sec bpb c)) (\<lambda>buf.
             read_chain fuel p loc bpb want (unat (le16_at buf (fat_offset c))) out))
      else ret out)"

definition export_disk_read_clusters :: "'w ports \<Rightarrow> Fat16Bpb \<Rightarrow> DiskLocation \<Rightarrow> nat \<Rightarrow> nat \<Rightarrow> nat \<Rightarrow> ('w disk, u8 list) step" where
  "export_disk_read_clusters p bpb loc fc fs out_len =
     (if fs = 0 \<or> fc < 2 then ret []
      else let want = min fs out_len in read_chain want p loc bpb want fc [])"

definition export_disk_read_file :: "'w ports \<Rightarrow> str \<Rightarrow> nat \<Rightarrow> ('w disk, u8 list) step" where
  "export_disk_read_file p filename out_len =
     and_then (get_export_disk_loc p) (\<lambda>loc.
     and_then (export_disk_get_bpb p) (\<lambda>bpb.
     and_then (find_file p loc (to_83_name filename) (root_lbas bpb)) (\<lambda>found.
       case found of
         None \<Rightarrow> fail ''File not found on Export Disk''
       | Some (lba, i, buf) \<Rightarrow>
           let entry = dir_entry buf i
           in export_disk_read_clusters p bpb loc (unat (first_cluster entry)) (file_size entry) out_len)))"

section \<open>Deleting\<close>

primrec free_chain :: "nat \<Rightarrow> 'w ports \<Rightarrow> DiskLocation \<Rightarrow> Fat16Bpb \<Rightarrow> nat \<Rightarrow> ('w disk, unit) step" where
  "free_chain 0 p loc bpb c = (if 2 \<le> c \<and> c < 0xFFF8 then Pair Panic else ret ())"
| "free_chain (Suc fuel) p loc bpb c =
     (if 2 \<le> c \<and> c < 0xFFF8
      then and_then (read_sec p loc (fat_sec bpb c)) (\<lambda>buf.
           let buf' = copy_at (fat_offset c) [0, 0] buf
           in and_then (write_sec p loc (fat_sec bpb c) buf') (\<lambda>_.
              and_then (write_sec p loc (fat_sec bpb c + fat_size_sectors bpb) buf') (\<lambda>_.
                free_chain fuel p loc bpb (unat (le16_at buf (fat_offset c))))))
      else ret ())"

definition export_disk_delete_file :: "'w ports \<Rightarrow> str \<Rightarrow> ('w disk, unit) step" where
  "export_disk_delete_file p filename =
     and_then (get_export_disk_loc p) (\<lambda>loc.
     and_then (export_disk_get_bpb p) (\<lambda>bpb.
     and_then (find_file p loc (to_83_name filename) (root_lbas bpb)) (\<lambda>found.
       case found of
         None \<Rightarrow> ret ()
       | Some (lba, i, buf) \<Rightarrow>
           and_then (write_sec p loc lba (buf[32 * i := 0xE5])) (\<lambda>_.
             free_chain 65536 p loc bpb (unat (first_cluster (dir_entry buf i)))))))"

section \<open>Writing\<close>

text \<open>The search for free clusters stops when enough are found.\<close>

fun find_clusters :: "'w ports \<Rightarrow> DiskLocation \<Rightarrow> Fat16Bpb \<Rightarrow> nat \<Rightarrow> nat list \<Rightarrow> nat list \<Rightarrow> ('w disk, nat list) step" where
  "find_clusters p loc bpb needed [] found = ret found"
| "find_clusters p loc bpb needed (c # cs) found =
     and_then (read_sec p loc (fat_sec bpb c)) (\<lambda>buf.
       if le16_at buf (fat_offset c) = 0
       then if length found + 1 = needed then ret (found @ [c])
            else find_clusters p loc bpb needed cs (found @ [c])
       else find_clusters p loc bpb needed cs found)"

text \<open>The data, one sector at a time, the last ones filled up with zeros.\<close>

fun write_sectors :: "'w ports \<Rightarrow> DiskLocation \<Rightarrow> nat list \<Rightarrow> u8 list \<Rightarrow> ('w disk, u8 list) step" where
  "write_sectors p loc [] rest = ret rest"
| "write_sectors p loc (lba # lbas) rest =
     and_then (write_sec p loc lba (take SECTOR_SIZE rest @ replicate (SECTOR_SIZE - length rest) 0)) (\<lambda>_.
       write_sectors p loc lbas (drop SECTOR_SIZE rest))"

fun write_clusters :: "'w ports \<Rightarrow> DiskLocation \<Rightarrow> Fat16Bpb \<Rightarrow> nat list \<Rightarrow> u8 list \<Rightarrow> ('w disk, unit) step" where
  "write_clusters p loc bpb [] rest = ret ()"
| "write_clusters p loc bpb (c # cs) rest =
     and_then (write_sectors p loc [cluster_lba bpb c..<cluster_lba bpb c + sectors_per_cluster bpb] rest) (\<lambda>rest.
       write_clusters p loc bpb cs rest)"

text \<open>The links of the chain, in both copies of the table; the last one is the end mark.\<close>

fun link_clusters :: "'w ports \<Rightarrow> DiskLocation \<Rightarrow> Fat16Bpb \<Rightarrow> nat list \<Rightarrow> ('w disk, unit) step" where
  "link_clusters p loc bpb [] = ret ()"
| "link_clusters p loc bpb (c # cs) =
     and_then (read_sec p loc (fat_sec bpb c)) (\<lambda>buf.
     let next_val = (case cs of [] \<Rightarrow> (0xFFFF :: u16) | c' # _ \<Rightarrow> of_nat c');
         buf = copy_at (fat_offset c) (to_le 2 next_val) buf
     in and_then (write_sec p loc (fat_sec bpb c) buf) (\<lambda>_.
        and_then (write_sec p loc (fat_sec bpb c + fat_size_sectors bpb) buf) (\<lambda>_.
          link_clusters p loc bpb cs)))"

definition usable :: "u8 list \<Rightarrow> u8 list \<Rightarrow> bool" where
  "usable target entry \<longleftrightarrow> take 11 entry = target \<or> entry ! 0 = 0 \<or> entry ! 0 = 0xE5"

definition new_entry :: "u8 list \<Rightarrow> u16 \<Rightarrow> nat \<Rightarrow> u8 list" where
  "new_entry target fc n = target @ [0x20] @ replicate 14 0 @ to_le 2 fc @ to_le 4 (of_nat n :: u32)"

fun save_entry :: "'w ports \<Rightarrow> DiskLocation \<Rightarrow> u8 list \<Rightarrow> u16 \<Rightarrow> nat \<Rightarrow> nat list \<Rightarrow> ('w disk, bool) step" where
  "save_entry p loc target fc n [] = ret False"
| "save_entry p loc target fc n (lba # lbas) =
     and_then (read_sec p loc lba) (\<lambda>buf.
       case List.find (\<lambda>i. usable target (dir_entry buf i)) [0..<16] of
         Some i \<Rightarrow> and_then (write_sec p loc lba (copy_at (32 * i) (new_entry target fc n) buf)) (\<lambda>_. ret True)
       | None \<Rightarrow> save_entry p loc target fc n lbas)"

text \<open>
  \<^verbatim>\<open>2..(bpb.total_data_clusters as u16 + 2)\<close>: the count is cut to 16 bits, and the sum
  overflows for the two largest counts: a panic of a checked build, an empty range otherwise.
\<close>

definition cluster_range :: "bool \<Rightarrow> Fat16Bpb \<Rightarrow> nat list option" where
  "cluster_range checked bpb =
     (let n = total_data_clusters bpb mod 65536
      in if n + 2 < 65536 then Some [2..<n + 2] else if checked then None else Some [])"

definition needed_clusters :: "Fat16Bpb \<Rightarrow> u8 list \<Rightarrow> nat" where
  "needed_clusters bpb data =
     (let cluster_size = sectors_per_cluster bpb * SECTOR_SIZE
      in if data = [] then 1 else (length data + cluster_size - 1) div cluster_size)"

definition export_disk_write_file :: "bool \<Rightarrow> 'w ports \<Rightarrow> str \<Rightarrow> u8 list \<Rightarrow> ('w disk, nat) step" where
  "export_disk_write_file checked p filename data =
     and_then (get_export_disk_loc p) (\<lambda>loc.
     and_then (export_disk_get_bpb p) (\<lambda>bpb.
     let target = to_83_name filename;
         needed = needed_clusters bpb data
     in if 64 < needed then fail ''File size exceeds static cluster allocation limit (128KB)''
        else case cluster_range checked bpb of
               None \<Rightarrow> Pair Panic
             | Some candidates \<Rightarrow>
        and_then (find_clusters p loc bpb needed candidates []) (\<lambda>cs.
        if length cs < needed then fail ''Not enough free space on Export Disk''
        else
        and_then (write_clusters p loc bpb cs data) (\<lambda>_.
        and_then (link_clusters p loc bpb cs) (\<lambda>_.
        and_then (save_entry p loc target (of_nat (hd cs)) (length data) (root_lbas bpb)) (\<lambda>saved.
          if saved then ret (length data) else fail ''Root directory is full on Export Disk''))))))"

section \<open>Write-through\<close>

text \<open>
  The write-through of the RAM file system: not while another one runs and not before a disk was
  detected; errors of the disk are ignored, a panic is not.
\<close>

definition sync_name :: "str \<Rightarrow> str" where
  "sync_name path = (case rfind path 47 of Some i \<Rightarrow> drop (i + 1) path | None \<Rightarrow> path)"

definition guarded_sync :: "str \<Rightarrow> (str \<Rightarrow> ('w disk, 'a) step) \<Rightarrow> ('w disk, unit) step" where
  "guarded_sync path op d =
     (if SYNC_MUTEX_FLAG d \<or> \<not> detected (EXPORT_DISK_LOC d) then (Ok (), d)
      else let d = d\<lparr>SYNC_MUTEX_FLAG := True\<rparr>;
               base = sync_name path
           in if base = [] then (Ok (), d\<lparr>SYNC_MUTEX_FLAG := False\<rparr>)
              else case op base d of
                     (Panic, d) \<Rightarrow> (Panic, d)
                   | (_, d) \<Rightarrow> (Ok (), d\<lparr>SYNC_MUTEX_FLAG := False\<rparr>))"

definition export_disk_auto_sync_file :: "bool \<Rightarrow> 'w ports \<Rightarrow> str \<Rightarrow> u8 list \<Rightarrow> ('w disk, unit) step" where
  "export_disk_auto_sync_file checked p path data =
     guarded_sync path (\<lambda>base. export_disk_write_file checked p base data)"

definition export_disk_auto_sync_delete :: "'w ports \<Rightarrow> str \<Rightarrow> ('w disk, unit) step" where
  "export_disk_auto_sync_delete p path = guarded_sync path (export_disk_delete_file p)"

section \<open>Lengths and bounds\<close>

lemma length_to_83_name [simp]: "length (to_83_name name) = 11"
  by (auto simp: to_83_name_def Let_def split: prod.splits)

lemma parse_bpb_geometry:
  assumes "parse_bpb s = Ok bpb"
  shows "0 < sectors_per_cluster bpb" "sectors_per_cluster bpb < 256" "reserved_sectors bpb < 65536"
    and "num_fats bpb < 256" "fat_size_sectors bpb < 65536"
    and "root_dir_start_lba bpb = reserved_sectors bpb + num_fats bpb * fat_size_sectors bpb"
    and "data_start_lba bpb = root_dir_start_lba bpb + root_dir_sectors bpb" "root_dir_sectors bpb \<le> 4096"
proof -
  have u8: "unat (x :: u8) < 256" and u16: "unat (y :: u16) < 65536" for x y
    using unsigned_less [of x, where ?'a = nat] unsigned_less [of y, where ?'a = nat] by simp_all
  show "0 < sectors_per_cluster bpb" "sectors_per_cluster bpb < 256" "reserved_sectors bpb < 65536"
      "num_fats bpb < 256" "fat_size_sectors bpb < 65536"
      "root_dir_start_lba bpb = reserved_sectors bpb + num_fats bpb * fat_size_sectors bpb"
      "data_start_lba bpb = root_dir_start_lba bpb + root_dir_sectors bpb"
    using assms u8 u16 by (auto simp: parse_bpb_def Let_def unsigned_eq_0_iff gr0_conv_Suc [symmetric] split: if_splits)
      (simp_all add: unat_gt_0)
  have "root_dir_sectors bpb = (unat (le16_at s 17) * 32 + (unat (le16_at s 11) - 1)) div unat (le16_at s 11)"
    and "le16_at s 11 = 512"
    using assms by (auto simp: parse_bpb_def Let_def split: if_splits)
  then show "root_dir_sectors bpb \<le> 4096"
    using u16 [of "le16_at s 17"] by simp
qed

text \<open>The sector numbers of the code fit their 32 bits.\<close>

lemma bpb_lba_bounds:
  assumes "parse_bpb s = Ok bpb" and "c < 65536"
  shows "cluster_lba bpb c + sectors_per_cluster bpb < 2 ^ 32"
    and "fat_sec bpb c + fat_size_sectors bpb < 2 ^ 32"
proof -
  note g = parse_bpb_geometry [OF assms(1)]
  have a: "num_fats bpb * fat_size_sectors bpb \<le> 255 * 65535"
    using g(4,5) by (intro mult_le_mono) auto
  have b: "(c - 2) * sectors_per_cluster bpb \<le> 65535 * 255"
    using g(2) assms(2) by (intro mult_le_mono) auto
  show "cluster_lba bpb c + sectors_per_cluster bpb < 2 ^ 32"
    using a b g by (simp add: cluster_lba_def)
  show "fat_sec bpb c + fat_size_sectors bpb < 2 ^ 32"
    using g assms(2) by (simp add: fat_sec_def)
qed

end
