(* ===== verification/Fs.thy ===== *)
theory Fs
  imports Paths Vfs Disk Store
begin

text \<open>
  The RAM file system LatencyFS (\<^verbatim>\<open>kernel/src/fs.rs\<close>): 128 static entries, looked up by their
  normalized path, with write-through to the export disk, and the import of the export disk at
  boot (\<^verbatim>\<open>export_disk_auto_import\<close> in \<^verbatim>\<open>kernel/src/export_disk.rs\<close>). Slices never leave their
  array (theorem \<open>fs_invariant\<close>), so the model takes them without a panic; the panics it has are those of
  the disk.
\<close>

section \<open>State\<close>

abbreviation (input) MAX_FILES :: nat where "MAX_FILES \<equiv> 128"
abbreviation (input) MAX_FILE_SIZE :: nat where "MAX_FILE_SIZE \<equiv> 4096"

record FileEntry =
  name :: "u8 list"
  name_len :: nat
  data :: "u8 list"
  fsize :: nat
  is_dir :: bool
  read_only :: bool
  modified_tsc :: u64
  used :: bool

definition FileEntry_empty :: FileEntry where
  "FileEntry_empty =
     \<lparr>name = replicate 64 0, name_len = 0, data = replicate 4096 0, fsize = 0, is_dir = False,
      read_only = False, modified_tsc = 0, used = False\<rparr>"

definition name_str :: "FileEntry \<Rightarrow> str" where
  "name_str f =
     (if name_len f = 0 then []
      else let b = take (name_len f) (name f) in if utf8_valid b then b else bytes ''<invalid utf8>'')"

text \<open>
  \<open>CURRENT_DIR\<close> is the shell's current directory, the first \<^verbatim>\<open>CURRENT_DIR_LEN\<close> bytes of its buffer.
\<close>

record 'w fs =
  files :: "FileEntry list"
  CURRENT_DIR :: "u8 list"
  vram :: vfs
  disk :: "'w disk"

definition LatencyFS_new :: "'w \<Rightarrow> 'w fs" where
  "LatencyFS_new w =
     \<lparr>files = replicate 128 FileEntry_empty, CURRENT_DIR = bytes ''/'', vram = vfs_init, disk = disk_init w\<rparr>"

section \<open>Lookup\<close>

text \<open>\<^verbatim>\<open>for (idx, file) in FS.files.iter().enumerate() { if ... }\<close>\<close>

definition find_slot :: "(FileEntry \<Rightarrow> bool) \<Rightarrow> FileEntry list \<Rightarrow> nat option" where
  "find_slot P fs = List.find (\<lambda>i. P (fs ! i)) [0..<length fs]"

definition named :: "str \<Rightarrow> FileEntry \<Rightarrow> bool" where
  "named q f \<longleftrightarrow> used f \<and> name_str f = q"

definition cwd :: "'w fs \<Rightarrow> str" where
  "cwd s = (if utf8_valid (CURRENT_DIR s) then CURRENT_DIR s else bytes ''/'')"

definition fs_path :: "'w fs \<Rightarrow> str \<Rightarrow> (FsError, str) outcome" where
  "fs_path s path =
     (case fs_normalize_path path (cwd s) of
        Ok q \<Rightarrow> if utf8_valid q then Ok q else Err InvalidName
      | Err e \<Rightarrow> Err e
      | Panic \<Rightarrow> Panic)"

definition child_of :: "str \<Rightarrow> str \<Rightarrow> bool" where
  "child_of q n \<longleftrightarrow> starts_with n q \<and> length q < length n \<and> n ! length q = 47"

definition file_bytes :: "FileEntry \<Rightarrow> u8 list" where
  "file_bytes f = take (fsize f) (data f)"

definition fs_clock :: "'w ports \<Rightarrow> 'w fs \<Rightarrow> u64 \<times> 'w fs" where
  "fs_clock p s =
     (case read_tsc_serialized p (dev (disk s)) of (t, w) \<Rightarrow> (t, s\<lparr>disk := (disk s)\<lparr>dev := w\<rparr>\<rparr>))"

text \<open>A step on the disk: its result is ignored, a panic is not.\<close>

definition on_disk :: "('w disk, unit) step \<Rightarrow> 'a \<Rightarrow> 'w fs \<Rightarrow> (FsError, 'a) outcome \<times> 'w fs" where
  "on_disk m a s =
     (case m (disk s) of (Panic, d) \<Rightarrow> (Panic, s\<lparr>disk := d\<rparr>) | (_, d) \<Rightarrow> (Ok a, s\<lparr>disk := d\<rparr>))"

section \<open>Operations\<close>

definition fs_mkdir :: "'w ports \<Rightarrow> str \<Rightarrow> 'w fs \<Rightarrow> (FsError, nat) outcome \<times> 'w fs" where
  "fs_mkdir p path s =
     (case fs_path s path of
        Err e \<Rightarrow> (Err e, s)
      | Panic \<Rightarrow> (Panic, s)
      | Ok q \<Rightarrow>
          (case find_slot (named q) (files s) of
             Some i \<Rightarrow> (Ok i, s)
           | None \<Rightarrow>
               (case find_slot (\<lambda>f. \<not> used f) (files s) of
                  Some i \<Rightarrow>
                    let (t, s) = fs_clock p s;
                        f = (files s ! i)\<lparr>used := True, is_dir := True, name_len := length q,
                              name := copy_at 0 q (name (files s ! i)), fsize := 0, read_only := False, modified_tsc := t\<rparr>
                    in (Ok i, s\<lparr>files := (files s)[i := f]\<rparr>)
                | None \<Rightarrow> (Err DiskFull, s))))"

definition fs_is_dir :: "str \<Rightarrow> 'w fs \<Rightarrow> bool" where
  "fs_is_dir path s =
     (let clean = trim path
      in if clean = bytes ''/'' \<or> clean = bytes ''.'' \<or> clean = bytes ''..'' then True
         else if vfs_is_vram_path clean \<and>
           (clean = bytes ''/vram'' \<or> clean = bytes ''/vram/'' \<or> clean = bytes ''vram'' \<or> clean = bytes ''vram/'') then True
         else case fs_path s clean of
                Ok q \<Rightarrow>
                  q = bytes ''/'' \<or> q = bytes ''/vram'' \<or>
                  list_ex (\<lambda>f. used f \<and> is_dir f \<and> name_str f = q) (files s) \<or>
                  list_ex (\<lambda>f. used f \<and> child_of q (name_str f)) (files s)
              | _ \<Rightarrow> False)"

definition synced :: "str \<Rightarrow> bool" where
  "synced q \<longleftrightarrow> \<not> starts_with q (bytes ''/vram'')"

text \<open>
  The change of the entries by \<^verbatim>\<open>fs_create_internal\<close>, for a normalized path: the existing entry
  is overwritten, a new one takes the first free slot. Of the data, the bytes past the new size
  stay.
\<close>

definition put_entry :: "str \<Rightarrow> u8 list \<Rightarrow> bool \<Rightarrow> u64 \<Rightarrow> FileEntry list \<Rightarrow> (FsError, nat \<times> FileEntry list) outcome" where
  "put_entry q content ro t fs =
     (case find_slot (named q) fs of
        Some i \<Rightarrow>
          if read_only (fs ! i) then Err ReadOnly
          else Ok (i, fs[i := (fs ! i)\<lparr>is_dir := False, data := copy_at 0 content (data (fs ! i)),
                 fsize := length content, modified_tsc := t\<rparr>])
      | None \<Rightarrow>
          (case find_slot (\<lambda>f. \<not> used f) fs of
             Some i \<Rightarrow>
               Ok (i, fs[i := (fs ! i)\<lparr>used := True, is_dir := False, name_len := length q,
                 name := copy_at 0 q (name (fs ! i)), data := copy_at 0 content (data (fs ! i)),
                 fsize := length content, read_only := ro, modified_tsc := t\<rparr>])
           | None \<Rightarrow> Err DiskFull))"

definition fs_create_internal ::
  "bool \<Rightarrow> 'w ports \<Rightarrow> str \<Rightarrow> u8 list \<Rightarrow> bool \<Rightarrow> 'w fs \<Rightarrow> (FsError, nat) outcome \<times> 'w fs" where
  "fs_create_internal checked p path content ro s =
     (if MAX_FILE_SIZE < length content then (Err FileTooLarge, s)
      else case fs_path s path of
             Err e \<Rightarrow> (Err e, s)
           | Panic \<Rightarrow> (Panic, s)
           | Ok q \<Rightarrow>
               (let (t, s') = fs_clock p s
                in case put_entry q content ro t (files s') of
                     Ok (i, fs) \<Rightarrow>
                       if \<not> ro \<and> synced q
                       then on_disk (export_disk_auto_sync_file checked p q content) i (s'\<lparr>files := fs\<rparr>)
                       else (Ok i, s'\<lparr>files := fs\<rparr>)
                   | Err e \<Rightarrow> (Err e, s)
                   | Panic \<Rightarrow> (Panic, s)))"

definition fs_read :: "str \<Rightarrow> 'w fs \<Rightarrow> u8 list option" where
  "fs_read path s =
     (let clean = trim path
      in if clean = [] then None
         else if vfs_is_vram_path clean then vfs_read clean (vram s)
         else case fs_path s clean of
                Ok q \<Rightarrow>
                  (case find_slot (\<lambda>f. used f \<and> \<not> is_dir f \<and> name_str f = q) (files s) of
                     Some i \<Rightarrow> Some (file_bytes (files s ! i))
                   | None \<Rightarrow>
                       (case find_slot (\<lambda>f. used f \<and> \<not> is_dir f \<and>
                           (case rfind (name_str f) 47 of Some pos \<Rightarrow> drop (pos + 1) (name_str f) = clean | None \<Rightarrow> False))
                           (files s) of
                          Some i \<Rightarrow> Some (file_bytes (files s ! i))
                        | None \<Rightarrow>
                            (case find_slot (\<lambda>f. used f \<and> \<not> is_dir f \<and> to_83_name (name_str f) = to_83_name clean)
                                (files s) of
                               Some i \<Rightarrow> Some (file_bytes (files s ! i))
                             | None \<Rightarrow> None)))
              | _ \<Rightarrow> None)"

definition fs_write :: "bool \<Rightarrow> 'w ports \<Rightarrow> str \<Rightarrow> u8 list \<Rightarrow> 'w fs \<Rightarrow> (FsError, unit) outcome \<times> 'w fs" where
  "fs_write checked p path content s =
     (if vfs_is_vram_path (trim path) then
        (case vfs_write (trim path) content (vram s) of
           (Ok _, v) \<Rightarrow> (Ok (), s\<lparr>vram := v\<rparr>)
         | (Err _, v) \<Rightarrow> (Err DiskFull, s\<lparr>vram := v\<rparr>)
         | (Panic, v) \<Rightarrow> (Panic, s\<lparr>vram := v\<rparr>))
      else case fs_create_internal checked p path content False s of
             (Ok _, s) \<Rightarrow> (Ok (), s)
           | (Err e, s) \<Rightarrow> (Err e, s)
           | (Panic, s) \<Rightarrow> (Panic, s))"

definition fs_delete :: "'w ports \<Rightarrow> str \<Rightarrow> 'w fs \<Rightarrow> (FsError, unit) outcome \<times> 'w fs" where
  "fs_delete p path s =
     (case fs_path s path of
        Err e \<Rightarrow> (Err e, s)
      | Panic \<Rightarrow> (Panic, s)
      | Ok q \<Rightarrow>
          if list_ex (\<lambda>f. used f \<and> name_str f \<noteq> q \<and> child_of q (name_str f)) (files s) then (Err DirectoryNotEmpty, s)
          else case find_slot (named q) (files s) of
                 Some i \<Rightarrow>
                   if read_only (files s ! i) then (Err ReadOnly, s)
                   else let s = s\<lparr>files := (files s)[i := FileEntry_empty]\<rparr>
                        in if synced q then on_disk (export_disk_auto_sync_delete p q) () s else (Ok (), s)
               | None \<Rightarrow> (Err FileNotFound, s))"

definition fs_rename :: "bool \<Rightarrow> 'w ports \<Rightarrow> str \<Rightarrow> str \<Rightarrow> 'w fs \<Rightarrow> (FsError, unit) outcome \<times> 'w fs" where
  "fs_rename checked p old_name new_name s =
     (case (fs_path s old_name, fs_path s new_name) of
        (Ok q, Ok q') \<Rightarrow>
          if q' = [] \<or> MAX_FILENAME_LEN < length q' then (Err InvalidName, s)
          else if find_slot (named q') (files s) \<noteq> None then (Err AlreadyExists, s)
          else (case find_slot (named q) (files s) of
                  Some i \<Rightarrow>
                    if read_only (files s ! i) then (Err ReadOnly, s)
                    else let (t, s) = fs_clock p s;
                             f = (files s ! i)\<lparr>name_len := length q', name := copy_at 0 q' (name (files s ! i)), modified_tsc := t\<rparr>;
                             s = s\<lparr>files := (files s)[i := f]\<rparr>;
                             (r, s) = (if synced q then on_disk (export_disk_auto_sync_delete p q) () s else (Ok (), s))
                         in if r = Panic then (Panic, s)
                            else if synced q' \<and> \<not> is_dir f
                            then on_disk (export_disk_auto_sync_file checked p q' (file_bytes f)) () s
                            else (Ok (), s)
                | None \<Rightarrow> (Err FileNotFound, s))
      | (Ok _, Err e) \<Rightarrow> (Err e, s)
      | (Err e, _) \<Rightarrow> (Err e, s)
      | _ \<Rightarrow> (Panic, s))"

definition fs_copy :: "bool \<Rightarrow> 'w ports \<Rightarrow> str \<Rightarrow> str \<Rightarrow> 'w fs \<Rightarrow> (FsError, unit) outcome \<times> 'w fs" where
  "fs_copy checked p src_name dst_name s =
     (case (fs_path s src_name, fs_path s dst_name) of
        (Ok src, Ok dst) \<Rightarrow>
          (case fs_read src s of
             Some d \<Rightarrow> fs_write checked p dst d s
           | None \<Rightarrow> (Err FileNotFound, s))
      | (Ok _, Err e) \<Rightarrow> (Err e, s)
      | (Err e, _) \<Rightarrow> (Err e, s)
      | _ \<Rightarrow> (Panic, s))"

definition fs_exists :: "str \<Rightarrow> 'w fs \<Rightarrow> bool" where
  "fs_exists path s \<longleftrightarrow>
     list_ex (named path) (files s) \<or>
     list_ex (\<lambda>f. used f \<and> to_83_name (name_str f) = to_83_name path) (files s)"

text \<open>
  The shell's \<^verbatim>\<open>cd\<close> (\<^verbatim>\<open>kernel/src/shell.rs\<close>); \<^term>\<open>Ok False\<close> stands for its message. The copy into
  the buffer panics when the lengths differ.
\<close>

definition shell_cd :: "str \<Rightarrow> 'w fs \<Rightarrow> (unit, bool) outcome \<times> 'w fs" where
  "shell_cd arg s =
     (let target = (if arg = [] then bytes ''/'' else arg)
      in case fs_normalize_path target (cwd s) of
           Ok q \<Rightarrow>
             let norm_path = (if utf8_valid q then q else bytes ''/'')
             in if fs_is_dir norm_path s
                then if length norm_path = length q then (Ok True, s\<lparr>CURRENT_DIR := norm_path\<rparr>) else (Panic, s)
                else (Ok False, s)
         | _ \<Rightarrow> (Ok False, s))"

section \<open>Import of the export disk\<close>

text \<open>The path of an imported file, cut to 63 bytes.\<close>

definition import_path :: "str \<Rightarrow> str \<Rightarrow> str" where
  "import_path dir raw = dir @ take (63 - length dir) (map ascii_lower raw)"

text \<open>A creation whose result is ignored.\<close>

definition create_ignored :: "bool \<Rightarrow> 'w ports \<Rightarrow> str \<Rightarrow> u8 list \<Rightarrow> ('w fs, unit) step" where
  "create_ignored checked p path content s =
     (if utf8_valid path
      then (case fs_create_internal checked p path content False s of
              (Panic, s) \<Rightarrow> (Panic, s)
            | (_, s) \<Rightarrow> (Ok (), s))
      else (Ok (), s))"

definition on_disk_step :: "('w disk, 'a) step \<Rightarrow> ('w fs, 'a) step" where
  "on_disk_step m s = (case m (disk s) of (r, d) \<Rightarrow> (r, s\<lparr>disk := d\<rparr>))"

definition import_entry :: "bool \<Rightarrow> 'w ports \<Rightarrow> DiskLocation \<Rightarrow> Fat16Bpb \<Rightarrow> u8 list \<Rightarrow> ('w fs, bool) step" where
  "import_entry checked p loc bpb entry s =
     (if skipped entry \<or> entry ! 11 AND 0x08 \<noteq> 0 \<or> entry ! 11 AND 0x10 \<noteq> 0 then (Ok False, s)
      else let raw_name = entry_name entry
           in if \<not> utf8_valid raw_name \<or> MAX_EXPORT_FILE_SIZE < file_size entry then (Ok False, s)
              else case on_disk_step (export_disk_read_clusters p bpb loc (unat (first_cluster entry))
                          (file_size entry) MAX_EXPORT_FILE_SIZE) s of
                     (Panic, s) \<Rightarrow> (Panic, s)
                   | (r, s) \<Rightarrow>
                       let dat = (case r of Ok d \<Rightarrow> d | _ \<Rightarrow> [])
                       in and_then (create_ignored checked p (import_path (bytes ''/'') raw_name) dat) (\<lambda>_.
                          and_then (if ends_with raw_name (bytes ''.PUL'') \<or> ends_with raw_name (bytes ''.pul'')
                             then create_ignored checked p (import_path (bytes ''/pulselang/'') raw_name) dat
                             else ret ()) (\<lambda>_. ret True)) s)"

fun import_entries :: "bool \<Rightarrow> 'w ports \<Rightarrow> DiskLocation \<Rightarrow> Fat16Bpb \<Rightarrow> u8 list list \<Rightarrow> nat \<Rightarrow> ('w fs, nat) step" where
  "import_entries checked p loc bpb [] n = ret n"
| "import_entries checked p loc bpb (e # es) n =
     and_then (import_entry checked p loc bpb e) (\<lambda>b. import_entries checked p loc bpb es (if b then n + 1 else n))"

text \<open>A directory sector that cannot be read ends the import.\<close>

fun import_sectors :: "bool \<Rightarrow> 'w ports \<Rightarrow> DiskLocation \<Rightarrow> Fat16Bpb \<Rightarrow> nat list \<Rightarrow> nat \<Rightarrow> ('w fs, nat) step" where
  "import_sectors checked p loc bpb [] n s = (Ok n, s)"
| "import_sectors checked p loc bpb (lba # lbas) n s =
     (case on_disk_step (read_sec p loc lba) s of
        (Ok buf, s) \<Rightarrow>
          and_then (import_entries checked p loc bpb (map (dir_entry buf) (live_entries buf [0..<16])) n)
            (\<lambda>n. import_sectors checked p loc bpb lbas n) s
      | (Err _, s) \<Rightarrow> (Ok n, s)
      | (Panic, s) \<Rightarrow> (Panic, s))"

definition set_sync_flag :: "bool \<Rightarrow> 'w fs \<Rightarrow> 'w fs" where
  "set_sync_flag b s = s\<lparr>disk := (disk s)\<lparr>SYNC_MUTEX_FLAG := b\<rparr>\<rparr>"

definition export_disk_auto_import :: "bool \<Rightarrow> 'w ports \<Rightarrow> ('w fs, nat) step" where
  "export_disk_auto_import checked p =
     and_then (on_disk_step (get_export_disk_loc p)) (\<lambda>loc.
     and_then (on_disk_step (export_disk_get_bpb p)) (\<lambda>bpb.
     and_then (exec (set_sync_flag True)) (\<lambda>_.
     and_then (import_sectors checked p loc bpb (root_lbas bpb) 0) (\<lambda>n.
     and_then (exec (set_sync_flag False)) (\<lambda>_. ret n)))))"

section \<open>The entries as a store\<close>

lemma find_slot_Some: "find_slot P fs = Some i \<Longrightarrow> i < length fs \<and> P (fs ! i)"
  by (auto simp: find_slot_def find_Some_iff)

lemma find_slot_None: "find_slot P fs = None \<longleftrightarrow> (\<forall>i<length fs. \<not> P (fs ! i))"
  by (auto simp: find_slot_def find_None_iff)

lemma find_slot_exists: "i < length fs \<Longrightarrow> P (fs ! i) \<Longrightarrow> \<exists>j. find_slot P fs = Some j"
  using find_slot_None [of P fs] by (cases "find_slot P fs") auto

definition entry_ok :: "FileEntry \<Rightarrow> bool" where
  "entry_ok f \<longleftrightarrow> length (name f) = 64 \<and> length (data f) = 4096 \<and> fsize f \<le> 4096 \<and> name_len f < 64 \<and>
     (used f \<longrightarrow> canonical (take (name_len f) (name f)))"

definition unique_names :: "FileEntry list \<Rightarrow> bool" where
  "unique_names fs \<longleftrightarrow> (\<forall>i<length fs. \<forall>j<length fs. used (fs ! i) \<and> used (fs ! j) \<and> name_str (fs ! i) = name_str (fs ! j) \<longrightarrow> i = j)"

definition files_ok :: "FileEntry list \<Rightarrow> bool" where
  "files_ok fs \<longleftrightarrow> length fs = 128 \<and> (\<forall>i<128. entry_ok (fs ! i)) \<and> unique_names fs"

lemma canonical_simps: "canonical q \<Longrightarrow> q \<noteq> [] \<and> utf8_valid q \<and> length q < 64"
  using canonical_absolute [of q] by (auto simp: canonical_def)

lemma name_str_used: "entry_ok f \<Longrightarrow> used f \<Longrightarrow> name_str f = take (name_len f) (name f) \<and> canonical (name_str f)"
  using canonical_simps [of "take (name_len f) (name f)"] by (auto simp: entry_ok_def name_str_def)

lemma name_str_set:
  assumes "canonical q" and "length (name f) = 64"
  shows "name_str (f\<lparr>name_len := length q, name := copy_at 0 q (name f)\<rparr>) = q"
  using canonical_simps [OF assms(1)] by (simp add: name_str_def copy_at_def)

lemma name_str_ignores [simp]:
  "name_str (f\<lparr>data := d\<rparr>) = name_str f" "name_str (f\<lparr>fsize := n\<rparr>) = name_str f" "name_str (f\<lparr>is_dir := b\<rparr>) = name_str f"
  "name_str (f\<lparr>read_only := b\<rparr>) = name_str f" "name_str (f\<lparr>modified_tsc := t\<rparr>) = name_str f" "name_str (f\<lparr>used := b\<rparr>) = name_str f"
  by (simp_all add: name_str_def)

lemma files_ok_update:
  assumes "files_ok fs" "i < 128" "entry_ok f"
    and "used f \<Longrightarrow> \<forall>j<128. j \<noteq> i \<and> used (fs ! j) \<longrightarrow> name_str (fs ! j) \<noteq> name_str f"
  shows "files_ok (fs[i := f])"
  using assms unfolding files_ok_def unique_names_def by (auto simp: nth_list_update)

definition file_get :: "FileEntry list \<Rightarrow> str \<Rightarrow> u8 list option" where
  "file_get fs q =
     (case find_slot (\<lambda>f. used f \<and> \<not> is_dir f \<and> name_str f = q) fs of
        Some i \<Rightarrow> Some (file_bytes (fs ! i)) | None \<Rightarrow> None)"

lemma file_get_iff:
  assumes "files_ok fs"
  shows "file_get fs q = Some v \<longleftrightarrow> (\<exists>i<128. used (fs ! i) \<and> \<not> is_dir (fs ! i) \<and> name_str (fs ! i) = q \<and> file_bytes (fs ! i) = v)"
proof -
  let ?P = "\<lambda>f. used f \<and> \<not> is_dir f \<and> name_str f = q"
  have len: "length fs = 128" and u: "unique_names fs" using assms by (auto simp: files_ok_def)
  show ?thesis
  proof (cases "find_slot ?P fs")
    case None
    then have "\<forall>i<length fs. \<not> ?P (fs ! i)" by (simp only: find_slot_None)
    with None len show ?thesis by (auto simp: file_get_def)
  next
    case (Some i)
    then have i: "i < 128" "?P (fs ! i)" using find_slot_Some [OF Some] len by auto
    have "j = i" if "j < 128" "?P (fs ! j)" for j
      using that i u len unfolding unique_names_def by metis
    then have j: "\<And>j. j < 128 \<Longrightarrow> used (fs ! j) \<Longrightarrow> \<not> is_dir (fs ! j) \<Longrightarrow> name_str (fs ! j) = q \<Longrightarrow> j = i" by blast
    have "file_get fs q = Some (file_bytes (fs ! i))" by (simp add: file_get_def Some)
    with i j show ?thesis by (metis option.inject)
  qed
qed

text \<open>An update of one slot changes the contents under its old and its new name only.\<close>

lemma file_get_update:
  assumes "files_ok fs" "files_ok (fs[i := f])" "i < 128"
    and "used (fs ! i) \<Longrightarrow> name_str (fs ! i) \<noteq> q" "used f \<Longrightarrow> name_str f \<noteq> q"
  shows "file_get (fs[i := f]) q = file_get fs q"
proof -
  have "length fs = 128" using assms(1) by (simp add: files_ok_def)
  then have "file_get (fs[i := f]) q = Some v \<longleftrightarrow> file_get fs q = Some v" for v
    unfolding file_get_iff [OF assms(1)] file_get_iff [OF assms(2)]
    using assms(3-5) by (metis nth_list_update_eq nth_list_update_neq)
  then show ?thesis by (metis not_Some_eq)
qed

lemma put_entry_cases:
  assumes "put_entry q content ro t fs = Ok (i, fs')" and "files_ok fs" and "canonical q" and "length content \<le> 4096"
  obtains f where "fs' = fs[i := f]" "i < 128" "entry_ok f" "used f" "\<not> is_dir f" "name_str f = q" "file_bytes f = content"
    "\<forall>j<128. j \<noteq> i \<and> used (fs ! j) \<longrightarrow> name_str (fs ! j) \<noteq> q" "used (fs ! i) \<longrightarrow> name_str (fs ! i) = q"
proof (cases "find_slot (named q) fs")
  case (Some k)
  let ?f = "(fs ! k)\<lparr>is_dir := False, data := copy_at 0 content (data (fs ! k)), fsize := length content, modified_tsc := t\<rparr>"
  have len: "length fs = 128" using assms(2) by (simp add: files_ok_def)
  have k: "k < 128" "used (fs ! k)" "name_str (fs ! k) = q"
    using find_slot_Some [OF Some] len by (auto simp: named_def)
  have e: "entry_ok (fs ! k)" using assms(2) k(1) by (simp add: files_ok_def)
  have "i = k" "fs' = fs[k := ?f]" using assms(1) Some by (auto simp: put_entry_def split: if_splits)
  moreover have "\<forall>j<128. j \<noteq> k \<and> used (fs ! j) \<longrightarrow> name_str (fs ! j) \<noteq> q"
    using assms(2) k len unfolding files_ok_def unique_names_def by metis
  moreover have "entry_ok ?f" using e assms(4) by (simp add: entry_ok_def)
  moreover have "file_bytes ?f = content" using assms(4) e by (simp add: file_bytes_def copy_at_def entry_ok_def)
  ultimately show thesis using k by (intro that [of ?f]) simp_all
next
  case None
  then obtain k where k': "find_slot (\<lambda>f. \<not> used f) fs = Some k" "i = k"
    using assms(1) by (auto simp: put_entry_def split: option.splits)
  let ?f = "(fs ! k)\<lparr>used := True, is_dir := False, name_len := length q, name := copy_at 0 q (name (fs ! k)),
      data := copy_at 0 content (data (fs ! k)), fsize := length content, read_only := ro, modified_tsc := t\<rparr>"
  have len: "length fs = 128" using assms(2) by (simp add: files_ok_def)
  have k: "k < 128" "\<not> used (fs ! k)" using find_slot_Some [OF k'(1)] len by auto
  have e: "entry_ok (fs ! k)" using assms(2) k(1) by (simp add: files_ok_def)
  then have l: "length (name (fs ! k)) = 64" "length (data (fs ! k)) = 4096" by (auto simp: entry_ok_def)
  have q: "length q < 64" using canonical_simps [OF assms(3)] by simp
  have "name_str ?f = name_str ((fs ! k)\<lparr>name_len := length q, name := copy_at 0 q (name (fs ! k))\<rparr>)"
    by (simp add: name_str_def)
  then have n: "name_str ?f = q" using name_str_set [OF assms(3) l(1)] by simp
  moreover have "entry_ok ?f" using l q assms(3,4) by (simp add: entry_ok_def) (simp add: copy_at_def)
  moreover have "fs' = fs[k := ?f]" using assms(1) None k' by (auto simp: put_entry_def)
  moreover have "file_bytes ?f = content" using assms(4) l by (simp add: file_bytes_def copy_at_def)
  moreover have "\<forall>j<128. j \<noteq> k \<and> used (fs ! j) \<longrightarrow> name_str (fs ! j) \<noteq> q"
    using None len by (auto simp: find_slot_None named_def)
  ultimately show thesis using k k'(2) by (intro that [of ?f]) simp_all
qed

lemma put_entry_ok:
  assumes "put_entry q content ro t fs = Ok (i, fs')" "files_ok fs" "canonical q" "length content \<le> 4096"
  shows "files_ok fs'" "file_get fs' q = Some content" "q' \<noteq> q \<Longrightarrow> file_get fs' q' = file_get fs q'"
proof -
  obtain f where f: "fs' = fs[i := f]" "i < 128" "entry_ok f" "used f" "\<not> is_dir f" "name_str f = q" "file_bytes f = content"
    "\<forall>j<128. j \<noteq> i \<and> used (fs ! j) \<longrightarrow> name_str (fs ! j) \<noteq> q" "used (fs ! i) \<longrightarrow> name_str (fs ! i) = q"
    using put_entry_cases [OF assms] .
  show ok: "files_ok fs'" using f unfolding f(1) by (intro files_ok_update assms(2)) auto
  have "length fs = 128" using assms(2) by (simp add: files_ok_def)
  then show "file_get fs' q = Some content"
    using f unfolding file_get_iff [OF ok] by (intro exI [of _ i]) simp
  show "q' \<noteq> q \<Longrightarrow> file_get fs' q' = file_get fs q'"
    using f ok unfolding f(1) by (intro file_get_update assms(2)) auto
qed

definition file_put :: "u64 \<Rightarrow> FileEntry list \<Rightarrow> str \<Rightarrow> u8 list \<Rightarrow> FileEntry list option" where
  "file_put t fs q content =
     (if canonical q \<and> length content \<le> 4096
      then (case put_entry q content False t fs of Ok (i, fs') \<Rightarrow> Some fs' | _ \<Rightarrow> None) else None)"

interpretation entries: store files_ok file_get "file_put t" for t
proof
  fix fs fs' q q' v assume a: "files_ok fs" "file_put t fs q v = Some fs'"
  then obtain i where p: "put_entry q v False t fs = Ok (i, fs')" "canonical q" "length v \<le> 4096"
    by (auto simp: file_put_def split: if_splits outcome.splits)
  note ok = put_entry_ok [OF p(1) a(1) p(2,3)]
  show "files_ok fs'" "file_get fs' q = Some v" "q' \<noteq> q \<Longrightarrow> file_get fs' q' = file_get fs q'" using ok by blast+
qed

section \<open>The invariant of the file system\<close>

definition fs_ok :: "'w fs \<Rightarrow> bool" where
  "fs_ok s \<longleftrightarrow> files_ok (files s) \<and> canonical (CURRENT_DIR s) \<and> vfs_ok (vram s)"

lemma fs_path_canonical: "fs_ok s \<Longrightarrow> fs_path s path = Ok q \<Longrightarrow> canonical q"
  using normalize_canonical [of "cwd s" path q] canonical_absolute [of "CURRENT_DIR s"] canonical_simps [of "CURRENT_DIR s"]
  by (auto simp: fs_ok_def fs_path_def cwd_def split: outcome.splits if_splits)

lemma fs_clock_frame:
  "fs_clock p s = (t, s') \<Longrightarrow> files s' = files s" "fs_clock p s = (t, s') \<Longrightarrow> CURRENT_DIR s' = CURRENT_DIR s"
  "fs_clock p s = (t, s') \<Longrightarrow> vram s' = vram s"
  by (auto simp: fs_clock_def split: prod.splits)

lemma on_disk_frame:
  assumes "on_disk m a s = (r, s')"
  shows "files s' = files s" "CURRENT_DIR s' = CURRENT_DIR s" "vram s' = vram s" "r = Ok a \<or> r = Panic"
  using assms by (auto simp: on_disk_def split: prod.splits outcome.splits)

lemma on_disk_step_frame:
  assumes "on_disk_step m s = (r, s')"
  shows "files s' = files s" "CURRENT_DIR s' = CURRENT_DIR s" "vram s' = vram s"
  using assms by (auto simp: on_disk_step_def split: prod.splits)

lemma fs_ok_frame:
  "files s' = files s \<Longrightarrow> CURRENT_DIR s' = CURRENT_DIR s \<Longrightarrow> vram s' = vram s \<Longrightarrow> fs_ok s' = fs_ok s"
  by (simp add: fs_ok_def)

lemma FileEntry_empty_ok: "entry_ok FileEntry_empty" "\<not> used FileEntry_empty"
  by (simp_all add: entry_ok_def FileEntry_empty_def)

lemma LatencyFS_new_ok: "fs_ok (LatencyFS_new w)"
proof -
  have "canonical (bytes ''/'')" by (auto simp: canonical_def render_def intro!: exI [of _ "[]"])
  then show ?thesis
    using FileEntry_empty_ok vfs_init_ok by (simp add: fs_ok_def LatencyFS_new_def files_ok_def unique_names_def del: bytes_Cons)
qed

text \<open>The creation of an entry, as the state sees it.\<close>

lemma fs_create_cases:
  assumes "fs_create_internal checked p path content ro s = (r, s')"
  obtains (fail) e where "r = Err e" "s' = s" | (panic) "fs_path s path = Panic" "r = Panic" "s' = s"
  | (put) q i t fs' where "fs_path s path = Ok q" "length content \<le> 4096" "put_entry q content ro t (files s) = Ok (i, fs')"
      "files s' = fs'" "CURRENT_DIR s' = CURRENT_DIR s" "vram s' = vram s" "r = Ok i \<or> r = Panic"
proof (cases "4096 < length content")
  case True
  then have "r = Err FileTooLarge" "s' = s" using assms by (simp_all add: fs_create_internal_def)
  then show thesis by (rule fail)
next
  case small: False
  show thesis
  proof (cases "fs_path s path")
    case (Ok q)
    obtain t s1 where t: "fs_clock p s = (t, s1)" by fastforce
    note tf = fs_clock_frame [OF t]
    show thesis
    proof (cases "put_entry q content ro t (files s)")
      case (Ok x)
      obtain i fs' where x: "x = (i, fs')" by fastforce
      have "on_disk (export_disk_auto_sync_file checked p q content) i (s1\<lparr>files := fs'\<rparr>) = (r, s') \<or>
          r = Ok i \<and> s' = s1\<lparr>files := fs'\<rparr>"
        using assms small Ok x t tf \<open>fs_path s path = _\<close> by (auto simp: fs_create_internal_def split: if_splits)
      then have fr: "files s' = fs' \<and> CURRENT_DIR s' = CURRENT_DIR s \<and> vram s' = vram s \<and> (r = Ok i \<or> r = Panic)"
        using on_disk_frame [of "export_disk_auto_sync_file checked p q content" i "s1\<lparr>files := fs'\<rparr>" r s'] tf
        by (elim disjE) simp_all
      have "put_entry q content ro t (files s) = Ok (i, fs')" using Ok x by simp
      with fr small \<open>fs_path s path = _\<close> show thesis by (intro put; (blast | simp))
    next
      case (Err e)
      then have "r = Err e" "s' = s"
        using assms small t tf \<open>fs_path s path = _\<close> by (simp_all add: fs_create_internal_def)
      then show thesis by (rule fail)
    next
      case Panic
      then show thesis by (auto simp: put_entry_def split: option.splits if_splits)
    qed
  next
    case (Err e)
    then have "r = Err e" "s' = s" using assms small by (simp_all add: fs_create_internal_def)
    then show thesis by (rule fail)
  next
    case Panic
    moreover from this have "r = Panic" "s' = s" using assms small by (simp_all add: fs_create_internal_def)
    ultimately show thesis by (rule panic)
  qed
qed

lemma fs_create_ok [keeps_ok]: "fs_ok s \<Longrightarrow> fs_ok (snd (fs_create_internal checked p path content ro s))"
proof -
  assume ok: "fs_ok s"
  obtain r s' where c: "fs_create_internal checked p path content ro s = (r, s')" by fastforce
  then show ?thesis
  proof (cases rule: fs_create_cases)
    case (put q i t fs')
    then show ?thesis
      using ok put_entry_ok(1) [OF put(3)] fs_path_canonical [OF ok] c by (simp add: fs_ok_def)
  qed (use ok c in auto)
qed

lemma fs_mkdir_ok [keeps_ok]:
  assumes ok: "fs_ok s"
  shows "fs_ok (snd (fs_mkdir p path s))"
proof (cases "\<exists>q i. fs_path s path = Ok q \<and> find_slot (named q) (files s) = None \<and> find_slot (\<lambda>f. \<not> used f) (files s) = Some i")
  case False
  then show ?thesis using ok by (auto simp: fs_mkdir_def split: outcome.splits option.splits)
next
  case True
  then obtain q i where q: "fs_path s path = Ok q" "find_slot (named q) (files s) = None" "find_slot (\<lambda>f. \<not> used f) (files s) = Some i"
    by blast
  obtain t s1 where t: "fs_clock p s = (t, s1)" by fastforce
  note can = fs_path_canonical [OF ok q(1)]
  have f: "files_ok (files s)" using ok by (simp add: fs_ok_def)
  have i: "i < 128" "\<not> used (files s ! i)" using find_slot_Some [OF q(3)] f by (auto simp: files_ok_def)
  let ?g = "files s ! i"
  let ?f = "?g\<lparr>used := True, is_dir := True, name_len := length q, name := copy_at 0 q (name ?g), fsize := 0,
      read_only := False, modified_tsc := t\<rparr>"
  have e: "length (name ?g) = 64" "length (data ?g) = 4096" using f i(1) by (auto simp: files_ok_def entry_ok_def)
  have "name_str ?f = name_str (?g\<lparr>name_len := length q, name := copy_at 0 q (name ?g)\<rparr>)" by (simp add: name_str_def)
  then have n: "name_str ?f = q" using name_str_set [OF can e(1)] by simp
  have "entry_ok ?f" using can canonical_simps [OF can] e by (simp add: entry_ok_def) (simp add: copy_at_def)
  moreover have "\<forall>j<128. j \<noteq> i \<and> used (files s ! j) \<longrightarrow> name_str (files s ! j) \<noteq> name_str ?f"
    unfolding n using q(2) f by (auto simp: find_slot_None named_def files_ok_def)
  ultimately have "files_ok ((files s)[i := ?f])" using f i by (intro files_ok_update) auto
  then show ?thesis
    using ok q t fs_clock_frame [OF t] by (simp add: fs_mkdir_def fs_ok_def)
qed

lemma fs_write_ok [keeps_ok]: "fs_ok s \<Longrightarrow> fs_ok (snd (fs_write checked p path content s))"
  using fs_create_ok [of s checked p path content False] vfs_write_ok [of "vram s" "trim path" content]
  by (auto simp: fs_write_def fs_ok_def split: prod.splits outcome.splits)

lemma fs_copy_ok [keeps_ok]: "fs_ok s \<Longrightarrow> fs_ok (snd (fs_copy checked p a b s))"
  using fs_write_ok by (auto simp: fs_copy_def split: outcome.splits option.splits)

lemma fs_delete_cases:
  assumes "fs_delete p path s = (r, s')"
  obtains (fail) e where "r = Err e" "s' = s" | (panic) "r = Panic" "s' = s"
  | (gone) q i where "fs_path s path = Ok q" "find_slot (named q) (files s) = Some i" "\<not> read_only (files s ! i)"
      "\<not> list_ex (\<lambda>f. used f \<and> name_str f \<noteq> q \<and> child_of q (name_str f)) (files s)"
      "files s' = (files s)[i := FileEntry_empty]" "CURRENT_DIR s' = CURRENT_DIR s" "vram s' = vram s" "r = Ok () \<or> r = Panic"
proof (cases "\<exists>q i. fs_path s path = Ok q \<and> find_slot (named q) (files s) = Some i \<and> \<not> read_only (files s ! i) \<and>
    \<not> list_ex (\<lambda>f. used f \<and> name_str f \<noteq> q \<and> child_of q (name_str f)) (files s)")
  case False
  then have "(\<exists>e. r = Err e) \<and> s' = s \<or> r = Panic \<and> s' = s"
    using assms by (auto simp: fs_delete_def split: outcome.splits option.splits if_splits)
  then show thesis using fail panic by blast
next
  case True
  then obtain q i where q: "fs_path s path = Ok q" "find_slot (named q) (files s) = Some i" "\<not> read_only (files s ! i)"
      "\<not> list_ex (\<lambda>f. used f \<and> name_str f \<noteq> q \<and> child_of q (name_str f)) (files s)" by blast
  let ?s = "s\<lparr>files := (files s)[i := FileEntry_empty]\<rparr>"
  have "on_disk (export_disk_auto_sync_delete p q) () ?s = (r, s') \<or> r = Ok () \<and> s' = ?s"
    using assms q by (auto simp: fs_delete_def Let_def split: if_splits)
  then have "files s' = (files s)[i := FileEntry_empty] \<and> CURRENT_DIR s' = CURRENT_DIR s \<and> vram s' = vram s \<and> (r = Ok () \<or> r = Panic)"
    using on_disk_frame [of "export_disk_auto_sync_delete p q" "()" ?s r s'] by (elim disjE) simp_all
  then show thesis using gone q by blast
qed

lemma fs_delete_ok [keeps_ok]: "fs_ok s \<Longrightarrow> fs_ok (snd (fs_delete p path s))"
proof -
  assume ok: "fs_ok s"
  obtain r s' where c: "fs_delete p path s = (r, s')" by fastforce
  then show ?thesis
  proof (cases rule: fs_delete_cases)
    case (gone q i)
    have "i < 128" using find_slot_Some [OF gone(2)] ok by (simp add: fs_ok_def files_ok_def)
    then have "files_ok ((files s)[i := FileEntry_empty])"
      using ok FileEntry_empty_ok by (intro files_ok_update) (auto simp: fs_ok_def)
    with ok gone c show ?thesis by (simp add: fs_ok_def)
  qed (use ok c in auto)
qed

end
