(* ===== verification/FsProps.thy ===== *)
theory FsProps
  imports Fs
begin

text \<open>
  Properties of the RAM file system: the invariant over all operations, what is read after a
  write, and the effect of each operation on the other files.
\<close>

section \<open>Renaming\<close>

lemma fs_rename_cases:
  assumes "fs_rename checked p a b s = (r, s')"
  obtains (stop) "r \<noteq> Ok ()" "s' = s"
  | (moved) q q' i t where "fs_path s a = Ok q" "fs_path s b = Ok q'" "find_slot (named q') (files s) = None"
      "find_slot (named q) (files s) = Some i" "\<not> read_only (files s ! i)"
      "files s' = (files s)[i := (files s ! i)\<lparr>name_len := length q', name := copy_at 0 q' (name (files s ! i)), modified_tsc := t\<rparr>]"
      "CURRENT_DIR s' = CURRENT_DIR s" "vram s' = vram s" "r = Ok () \<or> r = Panic"
proof (cases "\<exists>q q' i. fs_path s a = Ok q \<and> fs_path s b = Ok q' \<and> q' \<noteq> [] \<and> length q' \<le> 64 \<and>
    find_slot (named q') (files s) = None \<and> find_slot (named q) (files s) = Some i \<and> \<not> read_only (files s ! i)")
  case False
  then have "r \<noteq> Ok () \<and> s' = s"
    using assms by (auto simp: fs_rename_def split: outcome.splits option.splits if_splits)
  then show thesis using stop by blast
next
  case True
  then obtain q q' i where q: "fs_path s a = Ok q" "fs_path s b = Ok q'" "q' \<noteq> []" "length q' \<le> 64"
      "find_slot (named q') (files s) = None" "find_slot (named q) (files s) = Some i" "\<not> read_only (files s ! i)" by blast
  obtain t s1 where t: "fs_clock p s = (t, s1)" by fastforce
  note tf = fs_clock_frame [OF t]
  let ?f = "(files s ! i)\<lparr>name_len := length q', name := copy_at 0 q' (name (files s ! i)), modified_tsc := t\<rparr>"
  let ?s = "s1\<lparr>files := (files s)[i := ?f]\<rparr>"
  obtain r2 s2 where m: "(if synced q then on_disk (export_disk_auto_sync_delete p q) () ?s else (Ok (), ?s)) = (r2, s2)" by fastforce
  have f2: "files s2 = (files s)[i := ?f] \<and> CURRENT_DIR s2 = CURRENT_DIR s \<and> vram s2 = vram s \<and> (r2 = Ok () \<or> r2 = Panic)"
    using m on_disk_frame [of "export_disk_auto_sync_delete p q" "()" ?s r2 s2] tf by (auto split: if_splits)
  have "r2 = Panic \<and> r = Panic \<and> s' = s2 \<or> r = Ok () \<and> s' = s2 \<or>
      on_disk (export_disk_auto_sync_file checked p q' (file_bytes ?f)) () s2 = (r, s')"
    using assms q t tf m by (auto simp: fs_rename_def Let_def split: if_splits)
  then have "files s' = (files s)[i := ?f] \<and> CURRENT_DIR s' = CURRENT_DIR s \<and> vram s' = vram s \<and> (r = Ok () \<or> r = Panic)"
    using f2 on_disk_frame [of "export_disk_auto_sync_file checked p q' (file_bytes ?f)" "()" s2 r s'] by (elim disjE) simp_all
  then show thesis using moved q by blast
qed

lemma renamed_files:
  assumes ok: "files_ok fs" and "canonical q'" and "find_slot (named q') fs = None" and "find_slot (named q) fs = Some i"
    and f_def: "f = (fs ! i)\<lparr>name_len := length q', name := copy_at 0 q' (name (fs ! i)), modified_tsc := t\<rparr>"
  shows "files_ok (fs[i := f])" "i < 128" "used f" "name_str f = q'" "name_str (fs ! i) = q" "file_bytes f = file_bytes (fs ! i)"
    "is_dir f = is_dir (fs ! i)" "used (fs ! i)"
proof -
  have len: "length fs = 128" using ok by (simp add: files_ok_def)
  show i: "i < 128" and u: "used (fs ! i)" and "name_str (fs ! i) = q"
    using find_slot_Some [OF assms(4)] len by (auto simp: named_def)
  have e: "length (name (fs ! i)) = 64" "entry_ok (fs ! i)" using ok i by (auto simp: files_ok_def entry_ok_def)
  have "name_str f = name_str ((fs ! i)\<lparr>name_len := length q', name := copy_at 0 q' (name (fs ! i))\<rparr>)"
    by (simp add: f_def name_str_def)
  then show n: "name_str f = q'" using name_str_set [OF assms(2) e(1)] by simp
  show "used f" "file_bytes f = file_bytes (fs ! i)" "is_dir f = is_dir (fs ! i)" using u by (simp_all add: f_def file_bytes_def)
  have "entry_ok f"
    using e canonical_simps [OF assms(2)] assms(2) by (simp add: f_def entry_ok_def) (simp add: copy_at_def)
  moreover have "\<forall>j<128. j \<noteq> i \<and> used (fs ! j) \<longrightarrow> name_str (fs ! j) \<noteq> name_str f"
    unfolding n using assms(3) len by (auto simp: find_slot_None named_def)
  ultimately show "files_ok (fs[i := f])" using ok i by (intro files_ok_update) auto
qed

lemma fs_rename_ok [keeps_ok]: "fs_ok s \<Longrightarrow> fs_ok (snd (fs_rename checked p a b s))"
proof -
  assume ok: "fs_ok s"
  obtain r s' where c: "fs_rename checked p a b s = (r, s')" by fastforce
  then show ?thesis
  proof (cases rule: fs_rename_cases)
    case (moved q q' i t)
    have "files_ok (files s)" using ok by (simp add: fs_ok_def)
    from renamed_files(1) [OF this fs_path_canonical [OF ok moved(2)] moved(3,4) refl, of t] moved c ok
    show ?thesis by (simp add: fs_ok_def)
  qed (use ok c in auto)
qed

section \<open>Import\<close>

lemma and_then_keeps:
  assumes "\<And>s. I s \<Longrightarrow> I (snd (m s))" and "\<And>a s. I s \<Longrightarrow> I (snd (f a s))" and "I s"
  shows "I (snd (and_then m f s))"
  using assms by (auto simp: and_then_def split: prod.splits outcome.splits) (metis snd_conv)+

lemma on_disk_step_ok [keeps_ok]: "fs_ok s \<Longrightarrow> fs_ok (snd (on_disk_step m s))"
  using on_disk_step_frame [of m s "fst (on_disk_step m s)" "snd (on_disk_step m s)"] fs_ok_frame by auto

lemma create_ignored_ok [keeps_ok]: "fs_ok s \<Longrightarrow> fs_ok (snd (create_ignored checked p path content s))"
  using fs_create_ok [of s checked p path content False]
  by (auto simp: create_ignored_def split: prod.splits outcome.splits)

lemma ret_ok [keeps_ok]: "fs_ok s \<Longrightarrow> fs_ok (snd (ret a s))"
  by (simp add: ret_def)

lemma import_entry_ok [keeps_ok]:
  assumes "fs_ok s"
  shows "fs_ok (snd (import_entry checked p loc bpb entry s))"
proof -
  obtain r s1 where r: "on_disk_step (export_disk_read_clusters p bpb loc (unat (first_cluster entry)) (file_size entry) 65536) s = (r, s1)"
    by fastforce
  then have s1: "fs_ok s1" using on_disk_step_ok [OF assms] by (metis snd_conv)
  have k: "fs_ok (snd (and_then (create_ignored checked p a d) (\<lambda>_.
      and_then (if c then create_ignored checked p b d else ret ()) (\<lambda>_. ret True)) s1))" for a b c d
    using s1 by (intro and_then_keeps [of fs_ok]) (auto intro: keeps_ok)
  show ?thesis
    using assms s1 k by (cases r) (simp_all add: import_entry_def r Let_def)
qed

lemma import_entries_ok [keeps_ok]: "fs_ok s \<Longrightarrow> fs_ok (snd (import_entries checked p loc bpb es n s))"
proof (induction es arbitrary: n s)
  case (Cons e es)
  then show ?case
    unfolding import_entries.simps by (intro and_then_keeps [of fs_ok]) (auto intro: keeps_ok)
qed (simp add: keeps_ok)

lemma import_sectors_ok [keeps_ok]: "fs_ok s \<Longrightarrow> fs_ok (snd (import_sectors checked p loc bpb lbas n s))"
proof (induction lbas arbitrary: n s)
  case (Cons lba lbas)
  obtain r s1 where r: "on_disk_step (read_sec p loc lba) s = (r, s1)" by fastforce
  then have s1: "fs_ok s1" using on_disk_step_ok [OF Cons.prems] by (metis snd_conv)
  have "fs_ok (snd (and_then (import_entries checked p loc bpb es n) (\<lambda>n. import_sectors checked p loc bpb lbas n) s1))" for es
    using Cons.IH s1 by (intro and_then_keeps [of fs_ok]) (auto intro: keeps_ok)
  with s1 r show ?case by (cases r) simp_all
qed simp

lemma set_sync_flag_ok [keeps_ok]: "fs_ok s \<Longrightarrow> fs_ok (snd (exec (set_sync_flag b) s))"
  by (simp add: exec_def set_sync_flag_def fs_ok_def)

lemma auto_import_ok [keeps_ok]: "fs_ok s \<Longrightarrow> fs_ok (snd (export_disk_auto_import checked p s))"
  unfolding export_disk_auto_import_def by (intro and_then_keeps [of fs_ok]) (auto intro: keeps_ok)

section \<open>The current directory and the frames\<close>

lemma shell_cd_ok [keeps_ok]:
  assumes "fs_ok s"
  shows "fs_ok (snd (shell_cd arg s))"
proof (cases "fs_normalize_path (if arg = [] then bytes ''/'' else arg) (cwd s)")
  case (Ok q)
  have c: "canonical (cwd s)" using assms canonical_simps [of "CURRENT_DIR s"] by (simp add: fs_ok_def cwd_def)
  then have "canonical q" using normalize_canonical [OF _ Ok] canonical_absolute [OF c] by auto
  then have "canonical q" "utf8_valid q" using canonical_simps [of q] by auto
  then show ?thesis using assms Ok by (simp add: shell_cd_def fs_ok_def Let_def del: bytes_Cons)
qed (use assms in \<open>auto simp: shell_cd_def\<close>)

definition capture_into :: "(nat \<Rightarrow> u64) \<Rightarrow> u64 \<Rightarrow> u8 \<Rightarrow> u64 \<Rightarrow> u64 \<Rightarrow> 'w fs \<Rightarrow> 'w fs" where
  "capture_into addr done_tsc slot fid vb s =
     s\<lparr>vram := (vram s)\<lparr>pool := snd (capture_frame_zero_copy addr done_tsc slot fid vb (pool (vram s)))\<rparr>\<rparr>"

lemma capture_into_ok [keeps_ok]: "fs_ok s \<Longrightarrow> fs_ok (capture_into addr done_tsc slot fid vb s)"
  by (auto simp: fs_ok_def capture_into_def vfs_ok_def capture_frame_zero_copy_def Let_def nth_list_update)

section \<open>All operations\<close>

text \<open>Everything that changes the files, the current directory or the frame pool.\<close>

inductive fs_step :: "bool \<Rightarrow> 'w ports \<Rightarrow> 'w fs \<Rightarrow> 'w fs \<Rightarrow> bool" for checked :: bool and p :: "'w ports" where
  mkdir: "fs_step checked p s (snd (fs_mkdir p path s))"
| create_file: "fs_step checked p s (snd (fs_create_internal checked p path content ro s))"
| write_file: "fs_step checked p s (snd (fs_write checked p path content s))"
| delete_file: "fs_step checked p s (snd (fs_delete p path s))"
| rename_file: "fs_step checked p s (snd (fs_rename checked p a b s))"
| copy_file: "fs_step checked p s (snd (fs_copy checked p a b s))"
| import_disk: "fs_step checked p s (snd (export_disk_auto_import checked p s))"
| change_dir: "fs_step checked p s (snd (shell_cd arg s))"
| capture: "fs_step checked p s (capture_into addr done_tsc slot fid vb s)"

inductive_cases fs_stepE: "fs_step checked p s s'"

lemma fs_step_ok: "fs_step checked p s s' \<Longrightarrow> fs_ok s \<Longrightarrow> fs_ok s'"
  by (erule fs_stepE) (auto intro: keeps_ok)

text \<open>
  C25: In every state the file operations, the import of the export disk, changes of directory and
  captured frames can reach from the empty file system, there are 128 entries with buffers of 64
  and 4096 bytes, the recorded lengths stay inside them (so no slice of the code is out of range),
  every used entry has a canonical path as its name and no two have the same, the current
  directory is canonical, and the buffers under \<^verbatim>\<open>/vram\<close> keep their sizes.
\<close>

theorem fs_invariant:
  assumes "(fs_step checked p)\<^sup>*\<^sup>* (LatencyFS_new w) s"
  shows "fs_ok s"
  using assms
proof (induction rule: rtranclp_induct)
  case base
  show ?case by (rule LatencyFS_new_ok)
next
  case (step s s')
  then show ?case using fs_step_ok by blast
qed

definition null_ports :: "unit ports" where
  "null_ports = \<lparr>inb = \<lambda>_ w. (0, w), outb = \<lambda>_ _ w. w, inw = \<lambda>_ w. (0, w), outw = \<lambda>_ _ w. w,
     read_tsc_serialized = \<lambda>w. (0, w)\<rparr>"

theorem fs_invariant_witness:
  "fs_ok (snd (fs_rename True null_ports (bytes ''/a'') (bytes ''/b'')
     (snd (fs_mkdir null_ports (bytes ''/a'') (LatencyFS_new ())))))"
proof (rule fs_invariant [of True null_ports "()"])
  let ?s = "snd (fs_mkdir null_ports (bytes ''/a'') (LatencyFS_new ()))"
  have "fs_step True null_ports (LatencyFS_new ()) ?s" by (rule mkdir)
  moreover have "fs_step True null_ports ?s (snd (fs_rename True null_ports (bytes ''/a'') (bytes ''/b'') ?s))" by (rule rename_file)
  ultimately show "(fs_step True null_ports)\<^sup>*\<^sup>* (LatencyFS_new ()) (snd (fs_rename True null_ports (bytes ''/a'') (bytes ''/b'') ?s))"
    by (blast intro: rtranclp.rtrancl_into_rtrancl)
qed

section \<open>Reading, writing, deleting, renaming\<close>

lemma fs_path_trim [simp]: "fs_path s (trim path) = fs_path s path"
  by (simp add: fs_path_def)

lemma fs_path_frame: "CURRENT_DIR s' = CURRENT_DIR s \<Longrightarrow> fs_path s' = fs_path s"
  by (rule ext) (simp add: fs_path_def cwd_def)

lemma fs_path_blank: "trim path = [] \<Longrightarrow> fs_path s path = Err InvalidName"
  by (simp add: fs_path_def fs_normalize_path_def)

lemma fs_read_exact:
  assumes "fs_path s path = Ok q" and "\<not> vfs_is_vram_path path" and "file_get (files s) q = Some v"
  shows "fs_read path s = Some v"
proof -
  have "trim path \<noteq> []" using assms(1) fs_path_blank [of path s] by auto
  moreover have "\<not> vfs_is_vram_path (trim path)" using assms(2) by (simp add: vfs_is_vram_path_def)
  ultimately show ?thesis
    using assms(1,3) by (auto simp: fs_read_def file_get_def Let_def split: option.splits)
qed

text \<open>A write, whatever its result, touches at most the file it names; a successful one stores the contents.\<close>

lemma fs_write_effect:
  assumes "fs_ok s" and "\<not> vfs_is_vram_path path" and "fs_write checked p path content s = (r, s')"
  shows "(r = Ok () \<longrightarrow> fs_read path s' = Some content \<and> (\<exists>q. fs_path s path = Ok q)) \<and>
    (\<forall>q'. fs_path s path \<noteq> Ok q' \<longrightarrow> file_get (files s') q' = file_get (files s) q')"
proof -
  have "\<not> vfs_is_vram_path (trim path)" using assms(2) by (simp add: vfs_is_vram_path_def)
  then obtain r1 where c: "fs_create_internal checked p path content False s = (r1, s')"
    and r: "r = Ok () \<longleftrightarrow> (\<exists>i. r1 = Ok i)"
    using assms(3) by (auto simp: fs_write_def split: prod.splits outcome.splits)
  from c show ?thesis
  proof (cases rule: fs_create_cases)
    case (put q i t fs')
    note ok = put_entry_ok [OF put(3) _ fs_path_canonical [OF assms(1) put(1)] put(2)]
    have "files_ok (files s)" using assms(1) by (simp add: fs_ok_def)
    with ok put(4) have "file_get (files s') q = Some content" "\<forall>q'. q' \<noteq> q \<longrightarrow> file_get (files s') q' = file_get (files s) q'"
      by auto
    moreover have "fs_path s' path = Ok q" using put(1,5) fs_path_frame by metis
    ultimately show ?thesis using fs_read_exact assms(2) put(1) by auto
  qed (use r in auto)
qed

text \<open>
  C30: What is written to a file outside \<^verbatim>\<open>/vram\<close> is what is read from it, and no other file
  changes.
\<close>

theorem fs_write_read:
  assumes "fs_ok s" and "\<not> vfs_is_vram_path path" and "fs_write checked p path content s = (Ok (), s')"
  shows "fs_read path s' = Some content \<and>
    (\<exists>q. fs_path s path = Ok q \<and> (\<forall>q'. q' \<noteq> q \<longrightarrow> file_get (files s') q' = file_get (files s) q'))"
  using fs_write_effect [OF assms] by auto

lemma find_slot_new: "find_slot (named q) (files (LatencyFS_new w)) = None" "find_slot (\<lambda>f. \<not> used f) (files (LatencyFS_new w)) = Some 0"
proof -
  have u: "\<not> used FileEntry_empty" by (simp add: FileEntry_empty_def)
  show "find_slot (named q) (files (LatencyFS_new w)) = None"
    using u by (simp add: find_slot_None LatencyFS_new_def named_def)
  have "List.find P (x # xs) = (if P x then Some x else List.find P xs)" for P and x :: nat and xs by simp
  moreover have "[0..<128] = 0 # [1..<128 :: nat]" by (simp add: upt_conv_Cons)
  ultimately show "find_slot (\<lambda>f. \<not> used f) (files (LatencyFS_new w)) = Some 0"
    using u by (simp add: find_slot_def LatencyFS_new_def)
qed

lemma path_new: "fs_path (LatencyFS_new w) path = (case fs_normalize_path path (bytes ''/'') of
     Ok q \<Rightarrow> if utf8_valid q then Ok q else Err InvalidName | Err e \<Rightarrow> Err e | Panic \<Rightarrow> Panic)"
  by (simp add: fs_path_def cwd_def LatencyFS_new_def)

lemma demo_path: "fs_path (LatencyFS_new w) (bytes ''log.txt'') = Ok (bytes ''/log.txt'')" "\<not> vfs_is_vram_path (bytes ''log.txt'')"
proof -
  have "fs_normalize_path (bytes ''log.txt'') (bytes ''/'') = Ok (bytes ''/log.txt'')" "utf8_valid (bytes ''/log.txt'')" by code_simp+
  then show "fs_path (LatencyFS_new w) (bytes ''log.txt'') = Ok (bytes ''/log.txt'')" unfolding path_new by simp
  show "\<not> vfs_is_vram_path (bytes ''log.txt'')" by code_simp
qed

lemma create_new:
  assumes "fs_path (LatencyFS_new w) path = Ok q" and "length content \<le> 4096"
  shows "fst (fs_create_internal checked p path content False (LatencyFS_new w)) = Ok 0"
proof -
  let ?s = "LatencyFS_new w"
  obtain t s1 where t: "fs_clock p ?s = (t, s1)" by fastforce
  obtain fs' where "put_entry q content False t (files ?s) = Ok (0, fs')" by (simp add: put_entry_def find_slot_new)
  moreover have "\<not> detected (EXPORT_DISK_LOC (disk s1))"
  proof -
    have "EXPORT_DISK_LOC (disk s1) = EXPORT_DISK_LOC (disk ?s)" using t by (auto simp: fs_clock_def split: prod.splits)
    moreover have "disk ?s = disk_init w" by (simp only: LatencyFS_new_def fs.simps)
    ultimately show ?thesis by (simp add: disk_init_def)
  qed
  ultimately show ?thesis
    using assms t fs_clock_frame(1) [OF t] unfolding fs_create_internal_def
    by (simp add: on_disk_def export_disk_auto_sync_file_def guarded_sync_def)
qed

lemma demo_write: "\<exists>s'. fs_write True null_ports (bytes ''log.txt'') [1, 2] (LatencyFS_new ()) = (Ok (), s')"
proof -
  have v: "\<not> vfs_is_vram_path (trim (bytes ''log.txt''))" by code_simp
  obtain s' where "fs_create_internal True null_ports (bytes ''log.txt'') [1, 2] False (LatencyFS_new ()) = (Ok 0, s')"
    using create_new [OF demo_path(1), of "[1, 2]" True null_ports] by (cases "fs_create_internal True null_ports (bytes ''log.txt'') [1, 2] False (LatencyFS_new ())") simp
  with v show ?thesis by (simp add: fs_write_def del: bytes_Cons)
qed

theorem fs_write_read_witness:
  "\<exists>s'. fs_write True null_ports (bytes ''log.txt'') [1, 2] (LatencyFS_new ()) = (Ok (), s') \<and>
     fs_read (bytes ''log.txt'') s' = Some [1, 2]"
proof -
  obtain s' where w: "fs_write True null_ports (bytes ''log.txt'') [1, 2] (LatencyFS_new ()) = (Ok (), s')"
    using demo_write by blast
  then show ?thesis using fs_write_read [OF LatencyFS_new_ok demo_path(2) w] by blast
qed

lemma put_entry_error:
  "put_entry q content ro t fs = Err ReadOnly \<longleftrightarrow> (\<exists>i. find_slot (named q) fs = Some i \<and> read_only (fs ! i))"
  "put_entry q content ro t fs = Err DiskFull \<longleftrightarrow> find_slot (named q) fs = None \<and> (\<forall>i<length fs. used (fs ! i))"
  "put_entry q content ro t fs = Err e \<Longrightarrow> e = ReadOnly \<or> e = DiskFull"
proof -
  have free: "find_slot (\<lambda>f. \<not> used f) fs = None \<longleftrightarrow> (\<forall>i<length fs. used (fs ! i))" by (simp add: find_slot_None)
  show "put_entry q content ro t fs = Err ReadOnly \<longleftrightarrow> (\<exists>i. find_slot (named q) fs = Some i \<and> read_only (fs ! i))"
    "put_entry q content ro t fs = Err DiskFull \<longleftrightarrow> find_slot (named q) fs = None \<and> (\<forall>i<length fs. used (fs ! i))"
    "put_entry q content ro t fs = Err e \<Longrightarrow> e = ReadOnly \<or> e = DiskFull"
    unfolding free [symmetric] by (auto simp: put_entry_def split: option.splits if_splits)
qed

text \<open>
  The errors of the creation of a file: too large, exactly past 4096 bytes; otherwise an
  invalid name, exactly when the path cannot be normalized; otherwise read-only, exactly when the
  existing entry is; otherwise a full disk, exactly when there is no such entry and all 128 are in
  use. An error leaves the state as it was.
\<close>

theorem fs_create_errors:
  assumes "fs_create_internal checked p path content ro s = (r, s')"
  shows "(r = Err FileTooLarge \<longleftrightarrow> 4096 < length content) \<and>
    (length content \<le> 4096 \<longrightarrow>
      (r = Err InvalidName \<longleftrightarrow> fs_path s path = Err InvalidName) \<and>
      (\<forall>q. fs_path s path = Ok q \<longrightarrow>
        (r = Err ReadOnly \<longleftrightarrow> (\<exists>i. find_slot (named q) (files s) = Some i \<and> read_only (files s ! i))) \<and>
        (r = Err DiskFull \<longleftrightarrow> find_slot (named q) (files s) = None \<and> (\<forall>i<length (files s). used (files s ! i))))) \<and>
    (\<forall>e. r = Err e \<longrightarrow> s' = s)"
proof -
  have frame: "\<forall>e. r = Err e \<longrightarrow> s' = s"
    using assms by (cases rule: fs_create_cases) auto
  obtain t s1 where t: "fs_clock p s = (t, s1)" by fastforce
  note tf = fs_clock_frame(1) [OF t]
  have path: "e = InvalidName" if "fs_path s path = Err e" for e
    using that norm_parts_error by (auto simp: fs_path_def fs_normalize_path_def Let_def split: outcome.splits if_splits)
  have ok: "r = Err e \<longleftrightarrow> put_entry q content ro t (files s) = Err e" if "fs_path s path = Ok q" "length content \<le> 4096" for q e
  proof (cases "put_entry q content ro t (files s)")
    case (Ok x)
    then obtain i fs' where "put_entry q content ro t (files s) = Ok (i, fs')" by (cases x) auto
    with that assms t tf have "on_disk (export_disk_auto_sync_file checked p q content) i (s1\<lparr>files := fs'\<rparr>) = (r, s') \<or> r = Ok i"
      by (auto simp: fs_create_internal_def split: if_splits)
    with Ok show ?thesis using on_disk_frame(4) by fastforce
  next
    case (Err e')
    with that assms t tf show ?thesis by (auto simp: fs_create_internal_def)
  next
    case Panic
    with that assms t tf show ?thesis by (auto simp: fs_create_internal_def)
  qed
  show ?thesis
  proof (cases "4096 < length content")
    case True
    then show ?thesis using assms frame by (auto simp: fs_create_internal_def)
  next
    case small: False
    show ?thesis
    proof (cases "fs_path s path")
      case (Ok q)
      then show ?thesis
        using small frame ok [OF Ok] put_entry_error(1,2) [of q content ro t "files s"] put_entry_error(3) [of q content ro t "files s"]
        by (metis FsError.distinct not_le outcome.distinct(1) outcome.inject(1))
    next
      case (Err e)
      then show ?thesis using assms small frame path by (auto simp: fs_create_internal_def)
    next
      case Panic
      then show ?thesis using assms small frame by (auto simp: fs_create_internal_def)
    qed
  qed
qed

theorem fs_create_errors_witness:
  "fst (fs_create_internal True null_ports (bytes ''/x'') (replicate 4097 0) False (LatencyFS_new ())) = Err FileTooLarge"
proof -
  obtain r s' where c: "fs_create_internal True null_ports (bytes ''/x'') (replicate 4097 0) False (LatencyFS_new ()) = (r, s')"
    by fastforce
  have "4096 < length (replicate 4097 (0 :: u8))" by (simp only: length_replicate)
  with fs_create_errors [OF c] c show ?thesis by (metis fst_conv)
qed

text \<open>
  A file or directory is deleted only when no other entry lies below it; then it is gone and
  the contents of every other file stay.
\<close>

theorem fs_delete_effect:
  assumes "fs_ok s" and "fs_delete p path s = (Ok (), s')"
  shows "\<exists>q. fs_path s path = Ok q \<and> find_slot (named q) (files s) \<noteq> None \<and> find_slot (named q) (files s') = None \<and>
    (\<forall>f \<in> set (files s). used f \<longrightarrow> \<not> child_of q (name_str f)) \<and>
    (\<forall>q'. q' \<noteq> q \<longrightarrow> file_get (files s') q' = file_get (files s) q')"
  using assms(2)
proof (cases rule: fs_delete_cases)
  case (gone q i)
  have ok: "files_ok (files s)" using assms(1) by (simp add: fs_ok_def)
  then have len: "length (files s) = 128" and u: "unique_names (files s)" by (auto simp: files_ok_def)
  have i: "i < 128" "used (files s ! i)" "name_str (files s ! i) = q"
    using find_slot_Some [OF gone(2)] len by (auto simp: named_def)
  have ok': "files_ok (files s')" using fs_delete_ok [OF assms(1), of p path] assms(2) by (simp add: fs_ok_def)
  have "\<not> named q (files s' ! j)" if "j < 128" for j
    using that i u len FileEntry_empty_ok(2) unfolding gone(5) unique_names_def named_def by (metis nth_list_update)
  then have none: "find_slot (named q) (files s') = None" using len by (simp add: find_slot_None gone(5))
  have child: "\<not> child_of q (name_str f)" if "f \<in> set (files s)" "used f" for f
    using that gone(4) by (auto simp: list_ex_iff child_of_def)
  have "file_get (files s') q' = file_get (files s) q'" if "q' \<noteq> q" for q'
    using that i ok ok' FileEntry_empty_ok(2) unfolding gone(5) by (intro file_get_update) auto
  with none gone(1,2) child show ?thesis by auto
qed auto

text \<open>
  C35: A rename moves the contents to the new name, which was not in use, and changes no other
  file. In particular the files below a renamed directory keep their old paths: they are no longer
  below it.
\<close>

theorem fs_rename_effect:
  assumes "fs_ok s" and "fs_rename checked p a b s = (Ok (), s')"
  shows "\<exists>q q'. fs_path s a = Ok q \<and> fs_path s b = Ok q' \<and> find_slot (named q') (files s) = None \<and>
    file_get (files s') q' = file_get (files s) q \<and> find_slot (named q) (files s') = None \<and>
    (\<forall>n. n \<noteq> q \<and> n \<noteq> q' \<longrightarrow> file_get (files s') n = file_get (files s) n)"
  using assms(2)
proof (cases rule: fs_rename_cases)
  case (moved q q' i t)
  have ok: "files_ok (files s)" using assms(1) by (simp add: fs_ok_def)
  then have len: "length (files s) = 128" and u: "unique_names (files s)" by (auto simp: files_ok_def)
  let ?f = "(files s ! i)\<lparr>name_len := length q', name := copy_at 0 q' (name (files s ! i)), modified_tsc := t\<rparr>"
  note m = renamed_files [where f = ?f and t = t, OF ok fs_path_canonical [OF assms(1) moved(2)] moved(3,4) refl]
  have ne: "q \<noteq> q'" using moved(3,4) by auto
  have "\<not> named q (files s' ! j)" if "j < 128" for j
    using that m(2,4,5,8) u len ne unfolding moved(6) unique_names_def named_def by (metis nth_list_update)
  then have none: "find_slot (named q) (files s') = None" using len by (simp add: find_slot_None moved(6))
  have "file_get (files s') q' = Some v \<longleftrightarrow> file_get (files s) q = Some v" for v
  proof -
    have only: "(\<exists>j<128. used (fs ! j) \<and> \<not> is_dir (fs ! j) \<and> name_str (fs ! j) = x \<and> file_bytes (fs ! j) = v) \<longleftrightarrow>
        \<not> is_dir (fs ! i) \<and> file_bytes (fs ! i) = v"
      if "files_ok fs" "used (fs ! i)" "name_str (fs ! i) = x" for fs x
      using that m(2) unfolding files_ok_def unique_names_def by metis
    have "(files s)[i := ?f] ! i = ?f" using m(2) len by simp
    then show ?thesis
      unfolding moved(6) file_get_iff [OF m(1)] file_get_iff [OF ok]
      using only [OF m(1)] only [OF ok] m(3-8) by simp
  qed
  then have g: "file_get (files s') q' = file_get (files s) q" by (metis not_Some_eq)
  have "file_get (files s') n = file_get (files s) n" if "n \<noteq> q" "n \<noteq> q'" for n
    using that m unfolding moved(6) by (intro file_get_update ok) auto
  with g none moved(1-3) show ?thesis by blast
qed simp

subsection \<open>A file system with one file\<close>

definition demo_entry :: FileEntry where
  "demo_entry = FileEntry_empty\<lparr>used := True, name_len := length (bytes ''/a''), name := copy_at 0 (bytes ''/a'') (name FileEntry_empty)\<rparr>"

definition demo_fs :: "unit fs" where
  "demo_fs = (LatencyFS_new ())\<lparr>files := (files (LatencyFS_new ()))[0 := demo_entry]\<rparr>"

lemma demo_paths: "fs_path demo_fs (bytes ''/a'') = Ok (bytes ''/a'')" "fs_path demo_fs (bytes ''/b'') = Ok (bytes ''/b'')"
proof -
  have "cwd demo_fs = bytes ''/''" by (simp add: cwd_def demo_fs_def LatencyFS_new_def)
  moreover have "fs_normalize_path (bytes ''/a'') (bytes ''/'') = Ok (bytes ''/a'')" "fs_normalize_path (bytes ''/b'') (bytes ''/'') = Ok (bytes ''/b'')"
    "utf8_valid (bytes ''/a'')" "utf8_valid (bytes ''/b'')" by code_simp+
  ultimately show "fs_path demo_fs (bytes ''/a'') = Ok (bytes ''/a'')" "fs_path demo_fs (bytes ''/b'') = Ok (bytes ''/b'')"
    by (simp_all only: fs_path_def outcome.case if_True)
qed

lemma demo_entry_simps: "used demo_entry" "name_str demo_entry = bytes ''/a''" "\<not> read_only demo_entry" "entry_ok demo_entry"
proof -
  have n: "fs_normalize_path (bytes ''/a'') [] = Ok (bytes ''/a'')" by code_simp
  have can: "canonical (bytes ''/a'')" by (rule normalize_canonical [OF _ n]) simp
  show "used demo_entry" "\<not> read_only demo_entry" by (simp_all add: demo_entry_def FileEntry_empty_def)
  have l: "length (name FileEntry_empty) = 64" using FileEntry_empty_ok(1) by (simp add: entry_ok_def)
  have "name_str demo_entry = name_str (FileEntry_empty\<lparr>name_len := length (bytes ''/a''), name := copy_at 0 (bytes ''/a'') (name FileEntry_empty)\<rparr>)"
    by (simp add: name_str_def demo_entry_def)
  then show "name_str demo_entry = bytes ''/a''" using name_str_set [OF can l] by simp
  show "entry_ok demo_entry"
    using FileEntry_empty_ok(1) can by (simp add: demo_entry_def entry_ok_def del: bytes_Cons) (simp add: copy_at_def)
qed

lemma demo_files:
  "length (files demo_fs) = 128" "files demo_fs ! 0 = demo_entry" "0 < j \<Longrightarrow> j < 128 \<Longrightarrow> files demo_fs ! j = FileEntry_empty"
proof -
  have "files (LatencyFS_new ()) = replicate 128 FileEntry_empty" by (simp only: LatencyFS_new_def fs.simps)
  then show "length (files demo_fs) = 128" "files demo_fs ! 0 = demo_entry" "0 < j \<Longrightarrow> j < 128 \<Longrightarrow> files demo_fs ! j = FileEntry_empty"
    by (simp_all add: demo_fs_def)
qed

lemma demo_slots: "find_slot (named (bytes ''/a'')) (files demo_fs) = Some 0" "find_slot (named (bytes ''/b'')) (files demo_fs) = None"
proof -
  have all: "\<And>j. j < 128 \<Longrightarrow> files demo_fs ! j = demo_entry \<and> j = 0 \<or> files demo_fs ! j = FileEntry_empty"
    using demo_files(2,3) by (metis gr0I)
  have b: "bytes ''/a'' \<noteq> bytes ''/b''" by simp
  show "find_slot (named (bytes ''/b'')) (files demo_fs) = None"
    unfolding find_slot_None demo_files(1) named_def using all b demo_entry_simps(2) FileEntry_empty_ok(2) by metis
  obtain j where j: "find_slot (named (bytes ''/a'')) (files demo_fs) = Some j"
    using find_slot_exists [of 0 "files demo_fs" "named (bytes ''/a'')"] demo_files(1,2) demo_entry_simps(1,2)
    by (auto simp: named_def simp del: bytes_Cons)
  then have "named (bytes ''/a'') (files demo_fs ! j)" "j < 128" using find_slot_Some [OF j] demo_files(1) by auto
  then have "j = 0" using all [of j] FileEntry_empty_ok(2) by (auto simp: named_def)
  with j show "find_slot (named (bytes ''/a'')) (files demo_fs) = Some 0" by simp
qed

lemma demo_fs_ok: "fs_ok demo_fs"
proof -
  have new: "files_ok (files (LatencyFS_new ()))" "canonical (CURRENT_DIR (LatencyFS_new ()))" "vfs_ok (vram (LatencyFS_new ()))"
    using LatencyFS_new_ok [of "()"] by (simp_all only: fs_ok_def)
  have "\<not> used (files (LatencyFS_new ()) ! j)" if "j < 128" for j
    using that FileEntry_empty_ok(2) by (simp add: LatencyFS_new_def)
  then have "files_ok ((files (LatencyFS_new ()))[0 := demo_entry])"
    using new demo_entry_simps by (intro files_ok_update) auto
  with new show ?thesis by (simp add: fs_ok_def demo_fs_def)
qed

lemma demo_not_detected: "\<not> detected (EXPORT_DISK_LOC (disk demo_fs))"
  by (simp add: demo_fs_def LatencyFS_new_def disk_init_def)

lemma no_sync: "\<not> detected (EXPORT_DISK_LOC (disk s)) \<Longrightarrow> on_disk (guarded_sync q op) a s = (Ok a, s)"
  by (simp add: on_disk_def guarded_sync_def)

theorem fs_delete_effect_witness:
  "\<exists>s'. fs_delete null_ports (bytes ''/a'') demo_fs = (Ok (), s') \<and> find_slot (named (bytes ''/a'')) (files s') = None"
proof -
  have "\<not> list_ex (\<lambda>f. used f \<and> name_str f \<noteq> bytes ''/a'' \<and> child_of (bytes ''/a'') (name_str f)) (files demo_fs)"
    unfolding list_ex_length demo_files(1) using demo_files(2,3) demo_entry_simps(2) FileEntry_empty_ok(2) by (metis gr0I)
  then obtain s' where d: "fs_delete null_ports (bytes ''/a'') demo_fs = (Ok (), s')"
    using demo_not_detected
    by (simp add: fs_delete_def demo_paths demo_slots demo_files(2) demo_entry_simps Let_def export_disk_auto_sync_delete_def no_sync del: bytes_Cons)
  show ?thesis using d fs_delete_effect [OF demo_fs_ok d] demo_paths(1) by auto
qed

theorem fs_rename_effect_witness:
  "\<exists>s'. fs_rename True null_ports (bytes ''/a'') (bytes ''/b'') demo_fs = (Ok (), s') \<and>
     file_get (files s') (bytes ''/b'') = file_get (files demo_fs) (bytes ''/a'')"
proof -
  have t: "fs_clock null_ports demo_fs = (0, demo_fs)" by (simp add: fs_clock_def null_ports_def)
  have "fst (fs_rename True null_ports (bytes ''/a'') (bytes ''/b'') demo_fs) = Ok ()"
    using demo_not_detected
    by (simp add: fs_rename_def demo_paths demo_slots demo_files(2) demo_entry_simps t Let_def export_disk_auto_sync_delete_def
        export_disk_auto_sync_file_def no_sync del: bytes_Cons split: prod.splits) (auto simp: bytes_def)
  then obtain s' where d: "fs_rename True null_ports (bytes ''/a'') (bytes ''/b'') demo_fs = (Ok (), s')" by (metis prod.collapse)
  show ?thesis using d fs_rename_effect [OF demo_fs_ok d] demo_paths by auto
qed

end
