(* ===== verification/Fat.thy ===== *)
theory Fat
  imports Disk
begin

text \<open>
  What the file operations of the export disk do on a drive that stores its sectors: an
  interface for such a drive as a locale, the operations as functions on the sectors, and the
  proof that a file that was written is read back. At the end, a drive of the kind the interface
  describes, as a state machine behind the ports.
\<close>

section \<open>Steps with a known result\<close>

definition yields :: "('s \<Rightarrow> bool) \<Rightarrow> ('s, 'a) step \<Rightarrow> 'a \<Rightarrow> ('s \<Rightarrow> bool) \<Rightarrow> bool" where
  "yields P m a Q \<longleftrightarrow> (\<forall>s. P s \<longrightarrow> (\<exists>s'. m s = (Ok a, s') \<and> Q s'))"

lemma yields_ret [intro]: "yields P (ret a) a P"
  by (simp add: yields_def ret_def)

lemma yields_then: "yields P m a Q \<Longrightarrow> yields Q (f a) b R \<Longrightarrow> yields P (and_then m f) b R"
  by (fastforce simp: yields_def and_then_def)

lemma yieldsE: "yields P m a Q \<Longrightarrow> P s \<Longrightarrow> (\<And>s'. m s = (Ok a, s') \<Longrightarrow> Q s' \<Longrightarrow> R) \<Longrightarrow> R"
  by (auto simp: yields_def)

section \<open>Sectors\<close>

type_synonym sectors = "nat \<Rightarrow> u8 list"

text \<open>A located disk whose drive holds the sectors \<open>S\<close>.\<close>

definition holds :: "('w \<Rightarrow> bool) \<Rightarrow> ('w \<Rightarrow> sectors) \<Rightarrow> DiskLocation \<Rightarrow> bool \<Rightarrow> sectors \<Rightarrow> 'w disk \<Rightarrow> bool" where
  "holds ready sec loc fl S d \<longleftrightarrow>
     ready (dev d) \<and> sec (dev d) = S \<and> EXPORT_DISK_LOC d = loc \<and> detected loc \<and> SYNC_MUTEX_FLAG d = fl"

definition fat_get :: "Fat16Bpb \<Rightarrow> sectors \<Rightarrow> nat \<Rightarrow> u16" where
  "fat_get bpb S c = le16_at (S (fat_sec bpb c)) (fat_offset c)"

fun look_up :: "u8 list \<Rightarrow> sectors \<Rightarrow> nat list \<Rightarrow> (nat \<times> nat \<times> u8 list) option" where
  "look_up target S [] = None"
| "look_up target S (lba # lbas) =
     (case find_name target (S lba) of Some i \<Rightarrow> Some (lba, i, S lba) | None \<Rightarrow> look_up target S lbas)"

fun put_sectors :: "nat list \<Rightarrow> u8 list \<Rightarrow> sectors \<Rightarrow> sectors" where
  "put_sectors [] rest S = S"
| "put_sectors (lba # lbas) rest S =
     put_sectors lbas (drop 512 rest) (S(lba := take 512 rest @ replicate (512 - length rest) 0))"

definition cluster_lbas :: "Fat16Bpb \<Rightarrow> nat \<Rightarrow> nat list" where
  "cluster_lbas bpb c = [cluster_lba bpb c..<cluster_lba bpb c + sectors_per_cluster bpb]"

definition fat_set :: "Fat16Bpb \<Rightarrow> nat \<Rightarrow> u16 \<Rightarrow> sectors \<Rightarrow> sectors" where
  "fat_set bpb c v S =
     (let buf = copy_at (fat_offset c) (to_le 2 v) (S (fat_sec bpb c))
      in S(fat_sec bpb c := buf, fat_sec bpb c + fat_size_sectors bpb := buf))"

fun link_chain :: "Fat16Bpb \<Rightarrow> nat list \<Rightarrow> sectors \<Rightarrow> sectors" where
  "link_chain bpb [] S = S"
| "link_chain bpb (c # cs) S =
     link_chain bpb cs (fat_set bpb c (case cs of [] \<Rightarrow> 0xFFFF | c' # _ \<Rightarrow> of_nat c') S)"

fun place_entry :: "u8 list \<Rightarrow> u8 list \<Rightarrow> sectors \<Rightarrow> nat list \<Rightarrow> sectors option" where
  "place_entry target entry S [] = None"
| "place_entry target entry S (lba # lbas) =
     (case List.find (\<lambda>i. usable target (dir_entry (S lba) i)) [0..<16] of
        Some i \<Rightarrow> Some (S(lba := copy_at (32 * i) entry (S lba)))
      | None \<Rightarrow> place_entry target entry S lbas)"

lemma put_sectors_append:
  "put_sectors (as @ bs) rest S = put_sectors bs (drop (512 * length as) rest) (put_sectors as rest S)"
proof (induction as arbitrary: rest S)
  case (Cons a as)
  have "drop (512 * length as) (drop 512 rest) = drop (512 * length (a # as)) rest"
    by (simp add: algebra_simps)
  then show ?case by (simp only: append_Cons put_sectors.simps Cons.IH)
qed simp

lemma fat_offset_eq: "fat_offset c = 2 * (c mod 256)"
  using mult_mod_right [of 2 c 256] by (simp add: fat_offset_def mult.commute)

lemma fat_offset_bound: "fat_offset c + 2 \<le> 512"
  using mod_less_divisor [of 256 c] by (simp add: fat_offset_eq)

text \<open>A condition the state gives may be used.\<close>

lemma yields_cond: "(\<And>s. P s \<Longrightarrow> C) \<Longrightarrow> (C \<Longrightarrow> yields P m a Q) \<Longrightarrow> yields P m a Q"
  by (auto simp: yields_def)

lemma length_sectors: "\<forall>x \<in> set xs. length (S x) = 512 \<Longrightarrow> length (concat (map S xs)) = 512 * length xs"
  by (induction xs) auto

text \<open>The clusters \<open>cs\<close> are linked in this order and the last one is the end of its chain.\<close>

fun chain :: "Fat16Bpb \<Rightarrow> sectors \<Rightarrow> nat list \<Rightarrow> bool" where
  "chain bpb S [] = True"
| "chain bpb S (c # cs) =
     (2 \<le> c \<and> c < 0xFFF8 \<and> unat (fat_get bpb S c) = (case cs of [] \<Rightarrow> 0xFFFF | c' # _ \<Rightarrow> c') \<and> chain bpb S cs)"

section \<open>The drive\<close>

locale block_device =
  fixes p :: "'w ports"
    and loc :: DiskLocation
    and ready :: "'w \<Rightarrow> bool"
    and sec :: "'w \<Rightarrow> sectors"
    and cap :: nat
  assumes sector_length: "ready w \<Longrightarrow> lba < cap \<Longrightarrow> length (sec w lba) = 512"
    and sector_read: "ready w \<Longrightarrow> lba < cap \<Longrightarrow>
      \<exists>w'. ata_read_sector p (base_port loc) (drive loc) lba w = (Ok (sec w lba), w') \<and> ready w' \<and> sec w' = sec w"
    and sector_write: "ready w \<Longrightarrow> lba < cap \<Longrightarrow> length buf = 512 \<Longrightarrow>
      \<exists>w'. ata_write_sector p (base_port loc) (drive loc) lba buf w = (Ok (), w') \<and> ready w' \<and> sec w' = (sec w)(lba := buf)"
begin

lemma holds_length: "holds ready sec loc fl S d \<Longrightarrow> lba < cap \<Longrightarrow> length (S lba) = 512"
  using sector_length by (auto simp: holds_def)

lemma read_sec_yields:
  "lba < cap \<Longrightarrow> yields (holds ready sec loc fl S) (read_sec p loc lba) (S lba) (holds ready sec loc fl S)"
  unfolding yields_def read_sec_def on_dev_def holds_def using sector_read by fastforce

lemma write_sec_yields:
  "lba < cap \<Longrightarrow> length buf = 512 \<Longrightarrow>
   yields (holds ready sec loc fl S) (write_sec p loc lba buf) () (holds ready sec loc fl (S(lba := buf)))"
  unfolding yields_def write_sec_def on_dev_def holds_def using sector_write by fastforce

lemma find_file_yields:
  "\<forall>lba \<in> set lbas. lba < cap \<Longrightarrow>
   yields (holds ready sec loc fl S) (find_file p loc target lbas) (look_up target S lbas) (holds ready sec loc fl S)"
  by (induction lbas) (auto intro!: yields_then read_sec_yields split: option.split)

lemma find_clusters_yields:
  assumes "\<forall>c \<in> set cs. fat_sec bpb c < cap" and "length found < needed"
  shows "yields (holds ready sec loc fl S) (find_clusters p loc bpb needed cs found)
     (found @ take (needed - length found) (filter (\<lambda>c. fat_get bpb S c = 0) cs)) (holds ready sec loc fl S)"
  using assms
proof (induction cs arbitrary: found)
  case (Cons c cs)
  have r: "yields (holds ready sec loc fl S) (read_sec p loc (fat_sec bpb c)) (S (fat_sec bpb c)) (holds ready sec loc fl S)"
    using Cons.prems(1) by (intro read_sec_yields) simp
  show ?case
  proof (cases "fat_get bpb S c = 0")
    case free: True
    show ?thesis
    proof (cases "length found + 1 = needed")
      case True
      with free show ?thesis by (auto simp: fat_get_def intro!: yields_then [OF r])
    next
      case False
      then have "length (found @ [c]) < needed" using Cons.prems(2) by simp
      moreover have "needed - length found = Suc (needed - length (found @ [c]))"
        using calculation by simp
      ultimately show ?thesis
        using free False Cons.IH [of "found @ [c]"] Cons.prems(1)
        by (auto simp: fat_get_def intro!: yields_then [OF r])
    qed
  next
    case False
    with Cons.IH [of found] Cons.prems show ?thesis
      unfolding find_clusters.simps by (intro yields_then [OF r]) (simp add: fat_get_def)
  qed
qed auto

lemma write_sectors_yields:
  "\<forall>lba \<in> set lbas. lba < cap \<Longrightarrow>
   yields (holds ready sec loc fl S) (write_sectors p loc lbas rest) (drop (512 * length lbas) rest)
     (holds ready sec loc fl (put_sectors lbas rest S))"
proof (induction lbas arbitrary: rest S)
  case (Cons lba lbas)
  let ?buf = "take 512 rest @ replicate (512 - length rest) 0"
  have "yields (holds ready sec loc fl S) (write_sec p loc lba ?buf) () (holds ready sec loc fl (S(lba := ?buf)))"
    using Cons.prems by (intro write_sec_yields) auto
  moreover have "yields (holds ready sec loc fl (S(lba := ?buf))) (write_sectors p loc lbas (drop 512 rest))
      (drop (512 * length lbas) (drop 512 rest)) (holds ready sec loc fl (put_sectors lbas (drop 512 rest) (S(lba := ?buf))))"
    using Cons.prems by (intro Cons.IH) simp
  moreover have "drop (512 * length (lba # lbas)) rest = drop (512 * length lbas) (drop 512 rest)"
    by (simp add: algebra_simps)
  ultimately show ?case
    by (simp only: write_sectors.simps put_sectors.simps yields_then)
qed auto

lemma write_clusters_yields:
  "\<forall>c \<in> set cs. \<forall>lba \<in> set (cluster_lbas bpb c). lba < cap \<Longrightarrow>
   yields (holds ready sec loc fl S) (write_clusters p loc bpb cs rest) ()
     (holds ready sec loc fl (put_sectors (concat (map (cluster_lbas bpb) cs)) rest S))"
proof (induction cs arbitrary: rest S)
  case (Cons c cs)
  have "yields (holds ready sec loc fl S) (write_sectors p loc (cluster_lbas bpb c) rest)
      (drop (512 * length (cluster_lbas bpb c)) rest) (holds ready sec loc fl (put_sectors (cluster_lbas bpb c) rest S))"
    using Cons.prems by (intro write_sectors_yields) simp
  moreover have "yields (holds ready sec loc fl (put_sectors (cluster_lbas bpb c) rest S))
      (write_clusters p loc bpb cs (drop (512 * length (cluster_lbas bpb c)) rest)) ()
      (holds ready sec loc fl (put_sectors (concat (map (cluster_lbas bpb) cs))
        (drop (512 * length (cluster_lbas bpb c)) rest) (put_sectors (cluster_lbas bpb c) rest S)))"
    using Cons.prems by (intro Cons.IH) simp
  ultimately show ?case
    by (simp add: cluster_lbas_def [symmetric] put_sectors_append yields_then)
qed auto

lemma link_clusters_yields:
  "\<forall>c \<in> set cs. fat_sec bpb c + fat_size_sectors bpb < cap \<Longrightarrow>
   yields (holds ready sec loc fl S) (link_clusters p loc bpb cs) () (holds ready sec loc fl (link_chain bpb cs S))"
proof (induction cs arbitrary: S)
  case (Cons c cs)
  let ?v = "case cs of [] \<Rightarrow> (0xFFFF :: u16) | c' # _ \<Rightarrow> of_nat c'"
  let ?buf = "copy_at (fat_offset c) (to_le 2 ?v) (S (fat_sec bpb c))"
  let ?H = "holds ready sec loc fl"
  have b: "fat_sec bpb c < cap" "fat_sec bpb c + fat_size_sectors bpb < cap" using Cons.prems by auto
  have rest: "yields (?H (fat_set bpb c ?v S)) (link_clusters p loc bpb cs) () (?H (link_chain bpb (c # cs) S))"
    using Cons by simp
  have "yields (?H S) (and_then (write_sec p loc (fat_sec bpb c) ?buf) (\<lambda>_.
      and_then (write_sec p loc (fat_sec bpb c + fat_size_sectors bpb) ?buf) (\<lambda>_. link_clusters p loc bpb cs))) ()
      (?H (link_chain bpb (c # cs) S))" if "length (S (fat_sec bpb c)) = 512"
    using that b fat_offset_bound [of c] rest
    by (intro yields_then [OF write_sec_yields] yields_then [OF write_sec_yields]) (auto simp: fat_set_def Let_def)
  then show ?case
    unfolding link_clusters.simps using holds_length b(1)
    by (intro yields_cond [OF _ yields_then [OF read_sec_yields]]) (auto simp: Let_def)
qed auto

lemma save_entry_yields:
  assumes "\<forall>lba \<in> set lbas. lba < cap" and "length target = 11"
  shows "yields (holds ready sec loc fl S) (save_entry p loc target fc n lbas)
     (place_entry target (new_entry target fc n) S lbas \<noteq> None)
     (holds ready sec loc fl (case place_entry target (new_entry target fc n) S lbas of Some S' \<Rightarrow> S' | None \<Rightarrow> S))"
  using assms(1)
proof (induction lbas)
  case (Cons lba lbas)
  let ?H = "holds ready sec loc fl"
  have r: "yields (?H S) (read_sec p loc lba) (S lba) (?H S)"
    using Cons.prems by (intro read_sec_yields) simp
  show ?case
  proof (cases "List.find (\<lambda>i. usable target (dir_entry (S lba) i)) [0..<16]")
    case None
    with Cons show ?thesis by (auto intro!: yields_then [OF r])
  next
    case (Some i)
    then have i: "i < 16" by (auto simp: find_Some_iff)
    let ?buf = "copy_at (32 * i) (new_entry target fc n) (S lba)"
    have "yields (?H S) (and_then (write_sec p loc lba ?buf) (\<lambda>_. ret True)) True (?H (S(lba := ?buf)))"
    proof (rule yields_cond)
      show "length (S lba) = 512" if "?H S d" for d
        using holds_length [OF that] Cons.prems by simp
      assume "length (S lba) = 512"
      then have "length ?buf = 512" using i assms(2) by (simp add: new_entry_def)
      then show "yields (?H S) (and_then (write_sec p loc lba ?buf) (\<lambda>_. ret True)) True (?H (S(lba := ?buf)))"
        using Cons.prems by (intro yields_then [OF write_sec_yields]) auto
    qed
    then show ?thesis
      unfolding save_entry.simps by (intro yields_then [OF r]) (simp add: Some fun_upd_def)
  qed
qed auto

lemma read_cluster_yields:
  assumes "\<forall>lba \<in> set lbas. lba < cap" and "length out \<le> want" and "\<forall>lba \<in> set lbas. length (S lba) = 512"
  shows "yields (holds ready sec loc fl S) (read_cluster p loc want lbas out) (take want (out @ concat (map S lbas)))
     (holds ready sec loc fl S)"
  using assms
proof (induction lbas arbitrary: out)
  case (Cons lba lbas)
  let ?H = "holds ready sec loc fl S"
  have r: "yields ?H (read_sec p loc lba) (S lba) ?H"
    using Cons.prems by (intro read_sec_yields) simp
  show ?case
  proof (cases "want \<le> length out")
    case True
    with Cons.prems(2) show ?thesis by auto
  next
    case False
    let ?out = "out @ take (min 512 (want - length out)) (S lba)"
    have len: "length ?out \<le> want" using False Cons.prems(3) by auto
    have e: "take want (?out @ concat (map S lbas)) = take want (out @ concat (map S (lba # lbas)))"
      using False Cons.prems(3) by (cases "512 \<le> want - length out") (auto simp: min_def)
    have "yields ?H (read_cluster p loc want lbas ?out) (take want (?out @ concat (map S lbas))) ?H"
      using Cons.prems len by (intro Cons.IH) auto
    with False r show ?thesis unfolding e by (simp add: yields_then)
  qed
qed auto

text \<open>Reading along a chain.\<close>

lemma read_chain_yields:
  assumes "chain bpb S cs" and "\<forall>c \<in> set cs. fat_sec bpb c < cap \<and> (\<forall>lba \<in> set (cluster_lbas bpb c). lba < cap \<and> length (S lba) = 512)"
    and "0 < sectors_per_cluster bpb" and "length out \<le> want" and "want - length out \<le> fuel"
    and "c = (case cs of [] \<Rightarrow> 0xFFFF | c' # _ \<Rightarrow> c')"
  shows "yields (holds ready sec loc fl S) (read_chain fuel p loc bpb want c out)
     (take want (out @ concat (map S (concat (map (cluster_lbas bpb) cs))))) (holds ready sec loc fl S)"
  using assms
proof (induction cs arbitrary: c out fuel)
  case Nil
  then show ?case by (cases fuel) auto
next
  case (Cons c0 cs)
  let ?H = "holds ready sec loc fl S"
  show ?case
  proof (cases "length out < want")
    case False
    with Cons.prems(4) show ?thesis by (cases fuel) auto
  next
    case True
    then obtain f where f: "fuel = Suc f" using Cons.prems(5) by (cases fuel) auto
    have c: "c = c0" "2 \<le> c0" "c0 < 0xFFF8"
      "unat (le16_at (S (fat_sec bpb c0)) (fat_offset c0)) = (case cs of [] \<Rightarrow> 0xFFFF | c' # _ \<Rightarrow> c')" "chain bpb S cs"
      using Cons.prems(1,6) by (auto simp: fat_get_def)
    let ?out = "take want (out @ concat (map S (cluster_lbas bpb c0)))"
    have len: "length (concat (map S (cluster_lbas bpb c0))) = 512 * sectors_per_cluster bpb"
      using Cons.prems(2) length_sectors [of "cluster_lbas bpb c0" S] by (simp add: cluster_lbas_def)
    have r1: "yields ?H (read_cluster p loc want (cluster_lbas bpb c0) out) ?out ?H"
      using Cons.prems by (intro read_cluster_yields) auto
    have r2: "yields ?H (read_sec p loc (fat_sec bpb c0)) (S (fat_sec bpb c0)) ?H"
      using Cons.prems by (intro read_sec_yields) simp
    have "want - length ?out \<le> f"
      using Cons.prems(3,5) f len True by auto
    then have r3: "yields ?H (read_chain f p loc bpb want (case cs of [] \<Rightarrow> 0xFFFF | c' # _ \<Rightarrow> c') ?out)
        (take want (?out @ concat (map S (concat (map (cluster_lbas bpb) cs))))) ?H"
      using Cons.prems c(5) by (intro Cons.IH) auto
    have e: "take want (take want (out @ xs) @ ys) = take want (out @ xs @ ys)" for xs ys
      by (cases "want \<le> length (out @ xs)") (auto simp: min_def)
    have "yields ?H (and_then (read_cluster p loc want (cluster_lbas bpb c0) out) (\<lambda>out.
        and_then (read_sec p loc (fat_sec bpb c0)) (\<lambda>buf.
          read_chain f p loc bpb want (unat (le16_at buf (fat_offset c0))) out)))
        (take want (out @ concat (map S (concat (map (cluster_lbas bpb) (c0 # cs)))))) ?H"
      using r3 [unfolded e] by (intro yields_then [OF r1] yields_then [OF r2]) (simp only: c(4) list.map concat.simps map_append concat_append)
    with True c f show ?thesis
      by (simp only: read_chain.simps cluster_lbas_def [symmetric] if_True simp_thms)
  qed
qed

end

section \<open>Sectors written and read\<close>

lemma put_sectors_other: "lba \<notin> set lbas \<Longrightarrow> put_sectors lbas rest S lba = S lba"
  by (induction lbas arbitrary: rest S) auto

lemma put_sectors_length:
  "length (S lba) = 512 \<Longrightarrow> length (put_sectors lbas rest S lba) = 512"
proof (induction lbas arbitrary: rest S)
  case (Cons l lbas)
  show ?case unfolding put_sectors.simps by (rule Cons.IH) (use Cons.prems in auto)
qed simp

lemma put_sectors_readback:
  "distinct lbas \<Longrightarrow> length data \<le> 512 * length lbas \<Longrightarrow>
   concat (map (put_sectors lbas data S) lbas) = data @ replicate (512 * length lbas - length data) 0"
proof (induction lbas arbitrary: data S)
  case (Cons lba lbas)
  let ?buf = "take 512 data @ replicate (512 - length data) 0"
  have "put_sectors (lba # lbas) data S lba = ?buf"
    using Cons.prems(1) by (simp add: put_sectors_other)
  moreover have "concat (map (put_sectors lbas (drop 512 data) (S(lba := ?buf))) lbas) =
      drop 512 data @ replicate (512 * length lbas - length (drop 512 data)) 0"
    using Cons.prems by (intro Cons.IH) auto
  ultimately have "concat (map (put_sectors (lba # lbas) data S) (lba # lbas)) =
      ?buf @ drop 512 data @ replicate (512 * length lbas - length (drop 512 data)) 0"
    by simp
  also have "\<dots> = data @ replicate (512 * length (lba # lbas) - length data) 0"
  proof (cases "length data \<le> 512")
    case True
    then have e: "512 * length (lba # lbas) - length data = (512 - length data) + 512 * length lbas" by simp
    show ?thesis unfolding e replicate_add using True by simp
  next
    case False
    then have e: "512 * length (lba # lbas) - length data = 512 * length lbas - (length data - 512)" by simp
    have "take 512 data @ drop 512 data @ z = data @ z" for z
      by (metis append_assoc append_take_drop_id)
    then show ?thesis unfolding e using False by simp
  qed
  finally show ?case .
qed simp

section \<open>The allocation table\<close>

lemma le16_copy_same:
  assumes "off + 2 \<le> length b"
  shows "le16_at (copy_at off (to_le 2 v) b) off = v"
proof -
  have "[copy_at off (to_le 2 v) b ! off, copy_at off (to_le 2 v) b ! (off + 1)] = to_le 2 v"
    using assms by (intro nth_equalityI) (auto simp: nth_copy_at less_Suc_eq numeral_2_eq_2)
  then show ?thesis by (simp only: le16_at_def from_le_to_le16)
qed

lemma fat_sec_div: "fat_sec bpb c = reserved_sectors bpb + c div 256"
  by (simp add: fat_sec_def div_mult2_eq [of "c * 2" 2 256, simplified])

lemma fat_get_set:
  assumes "fat_sec bpb c' < reserved_sectors bpb + fat_size_sectors bpb" and "length (S (fat_sec bpb c)) = 512"
  shows "fat_get bpb (fat_set bpb c v S) c' = (if c' = c then v else fat_get bpb S c')"
proof -
  have f2: "fat_sec bpb c' \<noteq> fat_sec bpb c + fat_size_sectors bpb"
    using assms(1) by (simp add: fat_sec_div)
  show ?thesis
  proof (cases "fat_sec bpb c' = fat_sec bpb c")
    case False
    with f2 show ?thesis by (auto simp: fat_get_def fat_set_def Let_def)
  next
    case True
    show ?thesis
    proof (cases "c' = c")
      case eq: True
      with f2 assms(2) fat_offset_bound [of c] show ?thesis
        by (simp add: fat_get_def fat_set_def Let_def le16_copy_same)
    next
      case False
      have "c' mod 256 \<noteq> c mod 256"
        using True False by (metis add_left_cancel div_mult_mod_eq fat_sec_div)
      then have "fat_offset c' + 2 \<le> fat_offset c \<or> fat_offset c + 2 \<le> fat_offset c'"
        by (auto simp: fat_offset_eq)
      with f2 True False assms(2) fat_offset_bound [of c] fat_offset_bound [of c'] show ?thesis
        by (auto simp: fat_get_def fat_set_def Let_def le16_at_def nth_copy_at)
    qed
  qed
qed

lemma fat_set_length:
  "length (S (fat_sec bpb c)) = 512 \<Longrightarrow> length (S lba) = 512 \<Longrightarrow> length (fat_set bpb c v S lba) = 512"
  using fat_offset_bound [of c] by (simp add: fat_set_def Let_def)

lemma link_chain_length:
  "\<forall>lba<cap. length (S lba) = 512 \<Longrightarrow> \<forall>c \<in> set cs. fat_sec bpb c < cap \<Longrightarrow>
   lba < cap \<Longrightarrow> length (link_chain bpb cs S lba) = 512"
proof (induction cs arbitrary: S)
  case (Cons c cs)
  show ?case unfolding link_chain.simps by (rule Cons.IH) (use Cons.prems in \<open>auto intro: fat_set_length\<close>)
qed simp

lemma link_chain_sector:
  "\<forall>c \<in> set cs. lba \<noteq> fat_sec bpb c \<and> lba \<noteq> fat_sec bpb c + fat_size_sectors bpb \<Longrightarrow> link_chain bpb cs S lba = S lba"
  by (induction cs arbitrary: S) (auto simp: fat_set_def Let_def)

lemma link_chain_get_other:
  assumes "fat_sec bpb c' < reserved_sectors bpb + fat_size_sectors bpb" and "c' \<notin> set cs"
  shows "\<forall>lba<cap. length (S lba) = 512 \<Longrightarrow> \<forall>c \<in> set cs. fat_sec bpb c < cap \<Longrightarrow>
   fat_get bpb (link_chain bpb cs S) c' = fat_get bpb S c'"
  using assms(2)
proof (induction cs arbitrary: S)
  case (Cons c cs)
  let ?S = "fat_set bpb c (case cs of [] \<Rightarrow> 0xFFFF | c' # _ \<Rightarrow> of_nat c') S"
  have "fat_get bpb (link_chain bpb cs ?S) c' = fat_get bpb ?S c'"
    using Cons.prems by (intro Cons.IH) (auto intro: fat_set_length)
  also have "\<dots> = fat_get bpb S c'"
    using Cons.prems fat_get_set [OF assms(1), of S c] by simp
  finally show ?case by simp
qed simp

lemma link_chain_chain:
  assumes "distinct cs" and "\<forall>c \<in> set cs. 2 \<le> c \<and> c < 0xFFF8 \<and> fat_sec bpb c < reserved_sectors bpb + fat_size_sectors bpb \<and> fat_sec bpb c < cap"
    and "\<forall>lba<cap. length (S lba) = 512"
  shows "chain bpb (link_chain bpb cs S) cs"
  using assms
proof (induction cs arbitrary: S)
  case (Cons c cs)
  let ?v = "case cs of [] \<Rightarrow> (0xFFFF :: u16) | c' # _ \<Rightarrow> of_nat c'"
  let ?S = "fat_set bpb c ?v S"
  have len: "\<forall>lba<cap. length (?S lba) = 512"
    using Cons.prems by (auto intro: fat_set_length)
  have "fat_get bpb (link_chain bpb cs ?S) c = fat_get bpb ?S c"
    using Cons.prems len by (intro link_chain_get_other [of _ _ _ cap]) auto
  also have "\<dots> = ?v"
    using Cons.prems fat_get_set [of bpb c S c ?v] by simp
  finally have "unat (fat_get bpb (link_chain bpb cs ?S) c) = (case cs of [] \<Rightarrow> 0xFFFF | c' # _ \<Rightarrow> c')"
    using Cons.prems(2) by (auto simp: unsigned_of_nat take_bit_eq_mod split: list.splits)
  moreover have "chain bpb (link_chain bpb cs ?S) cs"
    using Cons.prems len by (intro Cons.IH) auto
  ultimately show ?case using Cons.prems(2) by simp
qed simp

section \<open>The directory\<close>

lemma find_skip: "\<forall>x \<in> set as. \<not> P x \<Longrightarrow> List.find P (as @ bs) = List.find P bs"
  by (induction as) auto

lemma live_entries_append:
  "\<forall>j \<in> set as. dir_entry buf j ! 0 \<noteq> 0 \<Longrightarrow> live_entries buf (as @ bs) = as @ live_entries buf bs"
  by (induction as) auto

lemma set_live_entries: "set (live_entries buf is) \<subseteq> set is"
  by (induction "is") auto

lemma dir_entry_copy:
  assumes "length buf = 512" and "i < 16" and "j < 16" and "length e = 32"
  shows "dir_entry (copy_at (32 * i) e buf) j = (if j = i then e else dir_entry buf j)"
proof (cases "j = i")
  case True
  with assms show ?thesis by (simp add: dir_entry_def)
next
  case False
  then have "32 * j + 32 \<le> 32 * i \<or> 32 * i + length e \<le> 32 * j" using assms(4) by linarith
  moreover have "32 * i + length e \<le> length buf" using assms by simp
  ultimately show ?thesis
    using False by (simp add: dir_entry_def sub_slice_copy_at_other)
qed

lemma find_name_None:
  assumes "List.find (\<lambda>i. usable target (dir_entry buf i)) [0..<16] = None"
  shows "find_name target buf = None"
proof -
  have "\<forall>i \<in> set (live_entries buf [0..<16]). take 11 (dir_entry buf i) \<noteq> target"
    using assms set_live_entries [of buf "[0..<16]"] unfolding find_None_iff usable_def by blast
  then show ?thesis
    unfolding find_name_def find_None_iff by blast
qed

lemma find_name_placed:
  assumes "length buf = 512" and "length e = 32" and "take 11 e = target" and "\<not> skipped e" and "e ! 0 \<noteq> 0"
    and "List.find (\<lambda>i. usable target (dir_entry buf i)) [0..<16] = Some i"
  shows "find_name target (copy_at (32 * i) e buf) = Some i"
proof -
  let ?buf = "copy_at (32 * i) e buf"
  have i: "i < 16" and before: "\<not> usable target (dir_entry buf j)" if "j < i" for j
    using assms(6) that by (auto simp: find_Some_iff)
  have i: "i < 16" using assms(6) by (auto simp: find_Some_iff)
  have s: "[0..<16] = [0..<i] @ i # [Suc i..<16]"
    using i upt_add_eq_append [of 0 i "16 - i"] upt_conv_Cons [of i 16] by simp
  have same: "dir_entry ?buf j = dir_entry buf j" if "j < i" for j
    using dir_entry_copy [OF assms(1) i, of j e] assms(2) that i by simp
  have new: "dir_entry ?buf i = e"
    using dir_entry_copy [OF assms(1) i i assms(2)] by simp
  have "live_entries ?buf [0..<16] = [0..<i] @ live_entries ?buf (i # [Suc i..<16])"
    unfolding s using before by (intro live_entries_append) (auto simp: same usable_def)
  moreover have "live_entries ?buf (i # [Suc i..<16]) = i # live_entries ?buf [Suc i..<16]"
    using assms(5) by (simp add: new)
  ultimately have "find_name target ?buf = List.find (\<lambda>i. \<not> skipped (dir_entry ?buf i) \<and> take 11 (dir_entry ?buf i) = target)
      ([0..<i] @ i # live_entries ?buf [Suc i..<16])"
    by (simp only: find_name_def)
  also have "\<dots> = List.find (\<lambda>i. \<not> skipped (dir_entry ?buf i) \<and> take 11 (dir_entry ?buf i) = target)
      (i # live_entries ?buf [Suc i..<16])"
    using before by (intro find_skip) (auto simp: same usable_def)
  also have "\<dots> = Some i"
    using assms(3,4) by (simp add: new)
  finally show ?thesis .
qed

lemma look_up_placed:
  assumes "length e = 32" and "take 11 e = target" and "\<not> skipped e" and "e ! 0 \<noteq> 0"
  shows "place_entry target e S lbas = Some S' \<Longrightarrow> distinct lbas \<Longrightarrow> \<forall>lba \<in> set lbas. length (S lba) = 512 \<Longrightarrow>
   \<exists>lba i. look_up target S' lbas = Some (lba, i, S' lba) \<and> dir_entry (S' lba) i = e \<and> lba \<in> set lbas \<and>
     i < 16 \<and> S' = S(lba := copy_at (32 * i) e (S lba))"
proof (induction lbas)
  case (Cons lba lbas)
  show ?case
  proof (cases "List.find (\<lambda>i. usable target (dir_entry (S lba) i)) [0..<16]")
    case None
    then have pe: "place_entry target e S lbas = Some S'" using Cons.prems(1) by simp
    have d: "distinct lbas" "\<forall>lba \<in> set lbas. length (S lba) = 512" "lba \<notin> set lbas"
      using Cons.prems(2,3) by auto
    from Cons.IH [OF pe d(1,2)] obtain l i where l: "look_up target S' lbas = Some (l, i, S' l)"
        "dir_entry (S' l) i = e" "l \<in> set lbas" "i < 16" "S' = S(l := copy_at (32 * i) e (S l))" by blast
    have "S' lba = S lba" unfolding l(5) using l(3) d(3) by auto
    then have "look_up target S' (lba # lbas) = Some (l, i, S' l)"
      using l(1) find_name_None [OF None] by simp
    with l show ?thesis by (intro exI [of _ l] exI [of _ i] conjI) (assumption | simp)+
  next
    case (Some i)
    then have i: "i < 16" by (auto simp: find_Some_iff)
    have S': "S' = S(lba := copy_at (32 * i) e (S lba))" using Some Cons.prems(1) by simp
    have len: "length (S lba) = 512" using Cons.prems(3) by simp
    have "find_name target (S' lba) = Some i"
      using find_name_placed [OF len assms Some] by (simp add: S')
    moreover have "dir_entry (S' lba) i = e"
      using dir_entry_copy [OF len i i assms(1)] by (simp add: S')
    ultimately show ?thesis
      using i S' by (intro exI [of _ lba] exI [of _ i]) simp
  qed
qed simp

lemma new_entry_fields:
  assumes "length target = 11" and "n < 2 ^ 32"
  shows "length (new_entry target fc n) = 32" "take 11 (new_entry target fc n) = target"
    and "first_cluster (new_entry target fc n) = fc" "file_size (new_entry target fc n) = n"
    and "new_entry target fc n ! 0 = target ! 0" "new_entry target fc n ! 11 = 0x20"
proof -
  show "length (new_entry target fc n) = 32" "take 11 (new_entry target fc n) = target"
      "new_entry target fc n ! 0 = target ! 0" "new_entry target fc n ! 11 = 0x20"
    using assms(1) by (simp_all add: new_entry_def nth_append)
  have "sub_slice 26 2 (new_entry target fc n) = to_le 2 fc" "sub_slice 28 4 (new_entry target fc n) = to_le 4 (of_nat n :: u32)"
    using assms(1) by (simp_all add: new_entry_def sub_slice_def)
  moreover have "[e ! 26, e ! 27] = sub_slice 26 2 e" "[e ! 28, e ! 29, e ! 30, e ! 31] = sub_slice 28 4 e"
    if "length e = 32" for e :: "u8 list"
    using that by (auto simp: sub_slice_def intro!: nth_equalityI simp: less_Suc_eq numeral_eq_Suc)
  ultimately show "first_cluster (new_entry target fc n) = fc" "file_size (new_entry target fc n) = n"
    using \<open>length (new_entry target fc n) = 32\<close> assms(2)
    by (simp_all add: first_cluster_def file_size_def le16_at_def le32_at_def from_le_to_le16 from_le_to_le32
        unsigned_of_nat take_bit_eq_mod)
qed

section \<open>Volumes\<close>

text \<open>
  A volume the file operations work on: the boot sector is valid and the tables behind it do not
  overlap it, there are two copies of the table, the table has an entry for every cluster, the
  clusters have FAT16 numbers and lie on the drive.
\<close>

definition fat_volume :: "nat \<Rightarrow> sectors \<Rightarrow> Fat16Bpb \<Rightarrow> bool" where
  "fat_volume cap S bpb \<longleftrightarrow>
     parse_bpb (S 0) = Ok bpb \<and> 1 \<le> reserved_sectors bpb \<and> 2 \<le> num_fats bpb \<and>
     total_data_clusters bpb + 2 \<le> 256 * fat_size_sectors bpb \<and> total_data_clusters bpb \<le> 65524 \<and>
     data_start_lba bpb + total_data_clusters bpb * sectors_per_cluster bpb \<le> cap"

definition clusters :: "Fat16Bpb \<Rightarrow> nat list" where
  "clusters bpb = [2..<total_data_clusters bpb + 2]"

definition free_clusters :: "Fat16Bpb \<Rightarrow> sectors \<Rightarrow> nat list" where
  "free_clusters bpb S = filter (\<lambda>c. fat_get bpb S c = 0) (clusters bpb)"

lemma volume_cluster:
  assumes "fat_volume cap S bpb" and "c \<in> set (clusters bpb)"
  shows "fat_sec bpb c < reserved_sectors bpb + fat_size_sectors bpb" "1 \<le> fat_sec bpb c"
    and "fat_sec bpb c + fat_size_sectors bpb < root_dir_start_lba bpb"
    and "fat_sec bpb c + fat_size_sectors bpb < cap" "2 \<le> c" "c < 0xFFF8"
    and "lba \<in> set (cluster_lbas bpb c) \<Longrightarrow> data_start_lba bpb \<le> lba \<and> lba < cap"
proof -
  have v: "parse_bpb (S 0) = Ok bpb" "1 \<le> reserved_sectors bpb" "2 \<le> num_fats bpb"
      "total_data_clusters bpb + 2 \<le> 256 * fat_size_sectors bpb" "total_data_clusters bpb \<le> 65524"
      "data_start_lba bpb + total_data_clusters bpb * sectors_per_cluster bpb \<le> cap"
    using assms(1) by (auto simp: fat_volume_def)
  note g = parse_bpb_geometry [OF v(1)]
  have c: "2 \<le> c" "c < total_data_clusters bpb + 2" using assms(2) by (auto simp: clusters_def)
  show "2 \<le> c" "c < 0xFFF8" using c v(5) by auto
  have "c div 256 < fat_size_sectors bpb" using c v(4) by (simp add: div_less_iff_less_mult mult.commute)
  then show f: "fat_sec bpb c < reserved_sectors bpb + fat_size_sectors bpb" by (simp add: fat_sec_div)
  show "1 \<le> fat_sec bpb c" using v(2) by (simp add: fat_sec_div)
  have "2 * fat_size_sectors bpb \<le> num_fats bpb * fat_size_sectors bpb" using v(3) by (rule mult_le_mono1)
  with f g(6) show r: "fat_sec bpb c + fat_size_sectors bpb < root_dir_start_lba bpb" by linarith
  with g(7) v(6) show "fat_sec bpb c + fat_size_sectors bpb < cap" by simp
  assume "lba \<in> set (cluster_lbas bpb c)"
  moreover have "(c - 2) * sectors_per_cluster bpb + sectors_per_cluster bpb \<le> total_data_clusters bpb * sectors_per_cluster bpb"
  proof -
    have "Suc (c - 2) \<le> total_data_clusters bpb" using c by linarith
    from mult_le_mono1 [OF this, of "sectors_per_cluster bpb"] show ?thesis by simp
  qed
  ultimately show "data_start_lba bpb \<le> lba \<and> lba < cap"
    using v(6) by (auto simp: cluster_lbas_def cluster_lba_def)
qed

lemma distinct_cluster_lbas:
  "distinct cs \<Longrightarrow> \<forall>c \<in> set cs. 2 \<le> c \<Longrightarrow> distinct (concat (map (cluster_lbas bpb) cs))"
proof (induction cs)
  case (Cons c cs)
  have "set (cluster_lbas bpb c) \<inter> set (cluster_lbas bpb c') = {}" if c': "c' \<in> set cs" for c'
  proof -
    have "c \<noteq> c'" "2 \<le> c" "2 \<le> c'" using Cons.prems c' by auto
    then have "c - 2 \<noteq> c' - 2" by linarith
    then consider "Suc (c - 2) \<le> c' - 2" | "Suc (c' - 2) \<le> c - 2" by linarith
    then show ?thesis
    proof cases
      case 1
      then have "Suc (c - 2) * sectors_per_cluster bpb \<le> (c' - 2) * sectors_per_cluster bpb" by (rule mult_le_mono1)
      then show ?thesis by (auto simp: cluster_lbas_def cluster_lba_def)
    next
      case 2
      then have "Suc (c' - 2) * sectors_per_cluster bpb \<le> (c - 2) * sectors_per_cluster bpb" by (rule mult_le_mono1)
      then show ?thesis by (auto simp: cluster_lbas_def cluster_lba_def)
    qed
  qed
  moreover have "distinct (cluster_lbas bpb c)" by (simp add: cluster_lbas_def)
  ultimately show ?case using Cons by auto
qed simp

lemma needed_clusters_enough:
  assumes "0 < sectors_per_cluster bpb"
  shows "1 \<le> needed_clusters bpb data" "length data \<le> needed_clusters bpb data * (sectors_per_cluster bpb * 512)"
proof -
  let ?k = "sectors_per_cluster bpb * 512"
  have k: "0 < ?k" using assms by simp
  have e: "length data \<le> (length data + ?k - 1) div ?k * ?k"
    using dividend_less_div_times [OF k, of "length data + ?k - 1"] k by linarith
  show "length data \<le> needed_clusters bpb data * ?k"
    using e by (auto simp: needed_clusters_def Let_def)
  have "1 \<le> (length data + ?k - 1) div ?k" if "data \<noteq> []"
  proof -
    have "?k \<le> length data + ?k - 1" using that by (cases data) auto
    then show ?thesis using k by (metis div_greater_zero_iff less_eq_Suc_le One_nat_def)
  qed
  then show "1 \<le> needed_clusters bpb data" by (simp add: needed_clusters_def Let_def)
qed

lemma place_entry_None:
  "place_entry target e S lbas = None \<longleftrightarrow> (\<forall>lba \<in> set lbas. \<forall>i<16. \<not> usable target (dir_entry (S lba) i))"
  by (induction lbas) (auto simp: find_None_iff find_Some_iff split: option.splits)

lemma place_entry_cong:
  "\<forall>lba \<in> set lbas. S lba = T lba \<Longrightarrow> place_entry target e S lbas = None \<longleftrightarrow> place_entry target e T lbas = None"
  by (simp add: place_entry_None)

text \<open>The sectors after a file was stored in the clusters \<open>cs\<close>, before its directory entry.\<close>

definition store_data :: "Fat16Bpb \<Rightarrow> nat list \<Rightarrow> u8 list \<Rightarrow> sectors \<Rightarrow> sectors" where
  "store_data bpb cs data S = link_chain bpb cs (put_sectors (concat (map (cluster_lbas bpb) cs)) data S)"

lemma store_data_frame:
  assumes "fat_volume cap S bpb" and "set cs \<subseteq> set (clusters bpb)"
    and "lba = 0 \<or> root_dir_start_lba bpb \<le> lba \<and> lba < data_start_lba bpb"
  shows "store_data bpb cs data S lba = S lba"
proof -
  have "0 < data_start_lba bpb"
    using assms(1) parse_bpb_geometry(6,7) [of "S 0" bpb] by (simp add: fat_volume_def)
  then have d: "lba \<notin> set (concat (map (cluster_lbas bpb) cs))"
    using assms(2,3) volume_cluster(7) [OF assms(1)] by fastforce
  have "lba \<noteq> fat_sec bpb c \<and> lba \<noteq> fat_sec bpb c + fat_size_sectors bpb" if "c \<in> set cs" for c
    using assms(2,3) that volume_cluster(2,3) [OF assms(1), of c] by auto
  then show ?thesis
    unfolding store_data_def using d by (simp add: link_chain_sector put_sectors_other)
qed

lemma store_data_chain:
  assumes "fat_volume cap S bpb" and "set cs \<subseteq> set (clusters bpb)" and "distinct cs" and "\<forall>lba<cap. length (S lba) = 512"
  shows "chain bpb (store_data bpb cs data S) cs"
  unfolding store_data_def
proof (rule link_chain_chain [of _ _ cap])
  show "\<forall>lba<cap. length (put_sectors (concat (map (cluster_lbas bpb) cs)) data S lba) = 512"
    using assms(4) by (simp add: put_sectors_length)
  show "\<forall>c \<in> set cs. 2 \<le> c \<and> c < 0xFFF8 \<and> fat_sec bpb c < reserved_sectors bpb + fat_size_sectors bpb \<and> fat_sec bpb c < cap"
  proof
    fix c assume "c \<in> set cs"
    with assms(2) have c: "c \<in> set (clusters bpb)" by auto
    show "2 \<le> c \<and> c < 0xFFF8 \<and> fat_sec bpb c < reserved_sectors bpb + fat_size_sectors bpb \<and> fat_sec bpb c < cap"
      using volume_cluster [OF assms(1) c] by auto
  qed
qed (rule assms(3))

lemma store_data_contents:
  assumes "fat_volume cap S bpb" and "set cs \<subseteq> set (clusters bpb)" and "distinct cs"
    and "length data \<le> 512 * (length cs * sectors_per_cluster bpb)"
  shows "\<exists>z. concat (map (store_data bpb cs data S) (concat (map (cluster_lbas bpb) cs))) = data @ z"
proof -
  let ?L = "concat (map (cluster_lbas bpb) cs)"
  have fat: "lba \<noteq> fat_sec bpb c \<and> lba \<noteq> fat_sec bpb c + fat_size_sectors bpb" if "lba \<in> set ?L" "c \<in> set cs" for lba c
  proof -
    have "data_start_lba bpb \<le> lba" using that(1) assms(2) volume_cluster(7) [OF assms(1)] by auto
    moreover have "root_dir_start_lba bpb \<le> data_start_lba bpb"
      using assms(1) parse_bpb_geometry(7) [of "S 0" bpb] by (simp add: fat_volume_def)
    ultimately show ?thesis using that(2) assms(2) volume_cluster(3) [OF assms(1), of c] by auto
  qed
  have "map (store_data bpb cs data S) ?L = map (put_sectors ?L data S) ?L"
    unfolding store_data_def using fat by (intro map_cong) (auto simp: link_chain_sector)
  moreover have "distinct ?L"
    using assms(2,3) volume_cluster(5) [OF assms(1)] by (intro distinct_cluster_lbas) auto
  moreover have "length ?L = length cs * sectors_per_cluster bpb"
    by (simp add: length_concat cluster_lbas_def o_def sum_list_triv)
  ultimately show ?thesis
    using put_sectors_readback [of ?L data S] assms(4) by metis
qed

lemma chain_cong:
  "\<forall>c \<in> set cs. S (fat_sec bpb c) = T (fat_sec bpb c) \<Longrightarrow> chain bpb S cs = chain bpb T cs"
  by (induction cs) (auto simp: fat_get_def)

lemma store_data_length:
  assumes "fat_volume cap S bpb" and "set cs \<subseteq> set (clusters bpb)" and "\<forall>lba<cap. length (S lba) = 512" and "lba < cap"
  shows "length (store_data bpb cs data S lba) = 512"
  unfolding store_data_def
  using assms volume_cluster(4) [OF assms(1)]
  by (intro link_chain_length [of cap]) (auto simp: put_sectors_length intro: le_less_trans [OF le_add1])

text \<open>Links that stay in the table.\<close>

definition good_link :: "Fat16Bpb \<Rightarrow> nat \<Rightarrow> bool" where
  "good_link bpb c \<longleftrightarrow> c < 2 \<or> 0xFFF8 \<le> c \<or> c \<in> set (clusters bpb)"

definition valid_links :: "Fat16Bpb \<Rightarrow> sectors \<Rightarrow> bool" where
  "valid_links bpb S \<longleftrightarrow> (\<forall>c \<in> set (clusters bpb). good_link bpb (unat (fat_get bpb S c)))"

definition used_clusters :: "Fat16Bpb \<Rightarrow> sectors \<Rightarrow> nat list" where
  "used_clusters bpb S = filter (\<lambda>c. fat_get bpb S c \<noteq> 0) (clusters bpb)"

lemma look_up_Some:
  "look_up target S lbas = Some (lba, i, buf) \<Longrightarrow> lba \<in> set lbas \<and> i < 16 \<and> buf = S lba"
proof (induction lbas)
  case (Cons l lbas)
  have "i < 16" if "find_name target (S l) = Some i" for i
    using that set_live_entries [of "S l" "[0..<16]"] unfolding find_name_def find_Some_iff
    by (metis (no_types, lifting) atLeastLessThan_iff nth_mem set_upt subsetD)
  with Cons show ?case by (auto split: option.splits)
qed simp

section \<open>Files on the drive\<close>

context block_device
begin

lemma get_loc_yields:
  "yields (holds ready sec loc fl S) (get_export_disk_loc p) loc (holds ready sec loc fl S)"
  by (auto simp: yields_def holds_def get_export_disk_loc_def)

lemma get_bpb_yields:
  assumes "fat_volume cap S bpb" and "0 < cap"
  shows "yields (holds ready sec loc fl S) (export_disk_get_bpb p) bpb (holds ready sec loc fl S)"
proof -
  have "yields (holds ready sec loc fl S) (\<lambda>d. (parse_bpb (S 0), d)) bpb (holds ready sec loc fl S)"
    using assms(1) by (simp add: yields_def fat_volume_def)
  then show ?thesis
    unfolding export_disk_get_bpb_def
    using assms(2) by (intro yields_then [OF get_loc_yields] yields_then [OF read_sec_yields]) auto
qed

lemma root_lbas_bound:
  "fat_volume cap S bpb \<Longrightarrow> lba \<in> set (root_lbas bpb) \<Longrightarrow> root_dir_start_lba bpb \<le> lba \<and> lba < data_start_lba bpb \<and> lba < cap"
  using parse_bpb_geometry(7) [of "S 0" bpb] by (auto simp: fat_volume_def root_lbas_def)

lemma volume_cap: "fat_volume cap S bpb \<Longrightarrow> 0 < cap"
  using parse_bpb_geometry(6,7) [of "S 0" bpb] by (auto simp: fat_volume_def)

text \<open>The write, as a function of the sectors.\<close>

lemma write_file_yields:
  assumes vol: "fat_volume cap S bpb" and n64: "needed_clusters bpb data \<le> 64"
    and room: "needed_clusters bpb data \<le> length (free_clusters bpb S)"
    and slot: "\<exists>lba \<in> set (root_lbas bpb). \<exists>i<16. usable (to_83_name name) (dir_entry (S lba) i)"
  defines "cs \<equiv> take (needed_clusters bpb data) (free_clusters bpb S)"
  shows "\<exists>S'. place_entry (to_83_name name) (new_entry (to_83_name name) (of_nat (hd cs)) (length data))
        (store_data bpb cs data S) (root_lbas bpb) = Some S' \<and>
     yields (holds ready sec loc fl S) (export_disk_write_file checked p name data) (length data) (holds ready sec loc fl S')"
proof -
  let ?H = "holds ready sec loc fl" and ?t = "to_83_name name"
  let ?S1 = "put_sectors (concat (map (cluster_lbas bpb) cs)) data S"
  let ?S2 = "store_data bpb cs data S"
  let ?e = "new_entry ?t (of_nat (hd cs)) (length data)"
  have v: "parse_bpb (S 0) = Ok bpb" "total_data_clusters bpb \<le> 65524" using vol by (auto simp: fat_volume_def)
  have pos: "1 \<le> needed_clusters bpb data" using needed_clusters_enough(1) parse_bpb_geometry(1) [OF v(1)] by blast
  have sub: "set cs \<subseteq> set (clusters bpb)"
    unfolding cs_def free_clusters_def by (meson filter_is_subset order_trans set_take_subset)
  have len: "length cs = needed_clusters bpb data" using room by (simp add: cs_def)
  have cand: "cluster_range checked bpb = Some (clusters bpb)"
    using v(2) by (simp add: cluster_range_def clusters_def Let_def)
  have same: "\<forall>lba \<in> set (root_lbas bpb). ?S2 lba = S lba"
    using store_data_frame [OF vol sub] root_lbas_bound [OF vol] by blast
  obtain S' where S': "place_entry ?t ?e ?S2 (root_lbas bpb) = Some S'"
    using slot same place_entry_None [of ?t ?e ?S2 "root_lbas bpb"]
    by (cases "place_entry ?t ?e ?S2 (root_lbas bpb)") auto
  have "yields (?H S) (find_clusters p loc bpb (needed_clusters bpb data) (clusters bpb) [])
      ([] @ take (needed_clusters bpb data - length ([] :: nat list)) (filter (\<lambda>c. fat_get bpb S c = 0) (clusters bpb))) (?H S)"
    using pos volume_cluster(4) [OF vol] by (intro find_clusters_yields) (auto intro: le_less_trans [OF le_add1])
  then have y1: "yields (?H S) (find_clusters p loc bpb (needed_clusters bpb data) (clusters bpb) []) cs (?H S)"
    by (simp add: cs_def free_clusters_def)
  have y2: "yields (?H S) (write_clusters p loc bpb cs data) () (?H ?S1)"
    using volume_cluster(7) [OF vol] sub by (intro write_clusters_yields) auto
  have y3: "yields (?H ?S1) (link_clusters p loc bpb cs) () (?H ?S2)"
    unfolding store_data_def using volume_cluster(4) [OF vol] sub by (intro link_clusters_yields) auto
  have y4: "yields (?H ?S2) (save_entry p loc ?t (of_nat (hd cs)) (length data) (root_lbas bpb)) True (?H S')"
    using save_entry_yields [of "root_lbas bpb" ?t fl ?S2 "of_nat (hd cs)" "length data"] root_lbas_bound [OF vol] S'
    by simp
  have y34: "yields (?H S) (and_then (write_clusters p loc bpb cs data) (\<lambda>_.
        and_then (link_clusters p loc bpb cs) (\<lambda>_.
        and_then (save_entry p loc ?t (of_nat (hd cs)) (length data) (root_lbas bpb)) (\<lambda>saved.
          if saved then ret (length data) else fail ''Root directory is full on Export Disk'')))) (length data) (?H S')"
    using y4 by (intro yields_then [OF y2] yields_then [OF y3] yields_then [OF y4]) auto
  have "yields (?H S) (export_disk_write_file checked p name data) (length data) (?H S')"
    unfolding export_disk_write_file_def Let_def
    using n64 cand len y34
    by (intro yields_then [OF get_loc_yields] yields_then [OF get_bpb_yields [OF vol volume_cap [OF vol]]])
      (simp add: yields_then [OF y1])
  with S' show ?thesis by blast
qed

text \<open>Reading a file whose entry and chain are known.\<close>

lemma read_file_yields:
  assumes vol: "fat_volume cap S bpb" and len: "\<forall>lba<cap. length (S lba) = 512"
    and entry: "look_up (to_83_name name) S (root_lbas bpb) = Some (lba, i, buf)"
    and fc: "unat (first_cluster (dir_entry buf i)) = hd cs" and sz: "file_size (dir_entry buf i) = length data"
    and ch: "chain bpb S cs" "cs \<noteq> []" "set cs \<subseteq> set (clusters bpb)"
    and contents: "concat (map S (concat (map (cluster_lbas bpb) cs))) = data @ z" and "length data \<le> out_len"
  shows "yields (holds ready sec loc fl S) (export_disk_read_file p name out_len) data (holds ready sec loc fl S)"
proof -
  let ?H = "holds ready sec loc fl S" and ?t = "to_83_name name"
  have c: "fat_sec bpb c < cap \<and> (\<forall>lba \<in> set (cluster_lbas bpb c). lba < cap \<and> length (S lba) = 512)" if "c \<in> set cs" for c
  proof -
    have c': "c \<in> set (clusters bpb)" using ch(3) that by auto
    show ?thesis using volume_cluster(4,7) [OF vol c'] len by auto
  qed
  have two: "2 \<le> hd cs" using ch(2,3) volume_cluster(5) [OF vol] by (metis hd_in_set subsetD)
  have hd: "hd cs = (case cs of [] \<Rightarrow> 0xFFFF | c' # _ \<Rightarrow> c')" using ch(2) by (cases cs) auto
  have v: "parse_bpb (S 0) = Ok bpb" using vol by (simp add: fat_volume_def)
  have r: "yields ?H (export_disk_read_clusters p bpb loc (hd cs) (length data) out_len) data ?H"
  proof (cases "data = []")
    case True
    then show ?thesis by (auto simp: export_disk_read_clusters_def)
  next
    case False
    have "yields ?H (read_chain (length data) p loc bpb (length data) (hd cs) [])
        (take (length data) ([] @ concat (map S (concat (map (cluster_lbas bpb) cs))))) ?H"
      using ch(1) c parse_bpb_geometry(1) [OF v] hd by (intro read_chain_yields) auto
    moreover have "take (length data) ([] @ concat (map S (concat (map (cluster_lbas bpb) cs)))) = data"
      by (simp only: contents) simp
    ultimately show ?thesis
      using False two assms(10) by (simp add: export_disk_read_clusters_def min_absorb1 Let_def)
  qed
  have f: "yields ?H (find_file p loc ?t (root_lbas bpb)) (Some (lba, i, buf)) ?H"
    using find_file_yields [of "root_lbas bpb" fl S ?t] root_lbas_bound [OF vol] entry by simp
  show ?thesis
    unfolding export_disk_read_file_def
    using r by (intro yields_then [OF get_loc_yields] yields_then [OF get_bpb_yields [OF vol volume_cap [OF vol]]] yields_then [OF f])
      (simp add: Let_def fc sz)
qed

text \<open>The sectors after a file was written: its entry is found and its chain holds the data.\<close>

lemma written_file:
  assumes vol: "fat_volume cap S bpb" and len: "\<forall>lba<cap. length (S lba) = 512" and "needed_clusters bpb data \<le> 64"
    and "needed_clusters bpb data \<le> length (free_clusters bpb S)"
    and name: "to_83_name name ! 0 \<noteq> 0" "to_83_name name ! 0 \<noteq> 0xE5"
    and cs: "cs = take (needed_clusters bpb data) (free_clusters bpb S)"
    and S': "place_entry (to_83_name name) (new_entry (to_83_name name) (of_nat (hd cs)) (length data))
      (store_data bpb cs data S) (root_lbas bpb) = Some S'"
  shows "fat_volume cap S' bpb \<and> (\<forall>x<cap. length (S' x) = 512) \<and>
    (\<exists>lba i. look_up (to_83_name name) S' (root_lbas bpb) = Some (lba, i, S' lba) \<and>
       unat (first_cluster (dir_entry (S' lba) i)) = hd cs \<and> file_size (dir_entry (S' lba) i) = length data) \<and>
    chain bpb S' cs \<and> cs \<noteq> [] \<and> set cs \<subseteq> set (clusters bpb) \<and>
    (\<exists>z. concat (map S' (concat (map (cluster_lbas bpb) cs))) = data @ z)"
proof -
  let ?t = "to_83_name name" and ?S2 = "store_data bpb cs data S"
  let ?e = "new_entry ?t (of_nat (hd cs)) (length data)"
  have v: "parse_bpb (S 0) = Ok bpb" using vol by (simp add: fat_volume_def)
  note geo = parse_bpb_geometry [OF v]
  note need = needed_clusters_enough [OF geo(1), of data]
  have sub: "set cs \<subseteq> set (clusters bpb)"
    unfolding cs free_clusters_def by (meson filter_is_subset order_trans set_take_subset)
  have lcs: "length cs = needed_clusters bpb data" using assms(4) by (simp add: cs)
  then have ne: "cs \<noteq> []" using need(1) by auto
  have dis: "distinct cs" unfolding cs free_clusters_def clusters_def by simp
  have small: "length data < 2 ^ 32"
    using need(2) mult_le_mono [OF assms(3), of "sectors_per_cluster bpb" 255] geo(2) by (simp add: algebra_simps)
  note e = new_entry_fields [OF length_to_83_name [of name] small, of "of_nat (hd cs)"]
  have l2: "\<forall>lba<cap. length (?S2 lba) = 512" using store_data_length [OF vol sub len] by blast
  have dr: "distinct (root_lbas bpb)" "\<forall>lba \<in> set (root_lbas bpb). length (?S2 lba) = 512"
    using l2 root_lbas_bound [OF vol] by (simp_all add: root_lbas_def)
  obtain lba i where look: "look_up ?t S' (root_lbas bpb) = Some (lba, i, S' lba)" "dir_entry (S' lba) i = ?e"
      "lba \<in> set (root_lbas bpb)" "i < 16" "S' = ?S2(lba := copy_at (32 * i) ?e (?S2 lba))"
    using look_up_placed [OF e(1,2) _ _ S' dr] name e(5,6) by (auto simp: skipped_def)
  note lba = root_lbas_bound [OF vol look(3)]
  have other: "S' x = ?S2 x" if "x < root_dir_start_lba bpb \<or> data_start_lba bpb \<le> x" for x
    unfolding look(5) using that lba by auto
  have "S' 0 = S 0"
    using other [of 0] store_data_frame [OF vol sub, of 0 data] geo(6) vol by (auto simp: fat_volume_def)
  then have vol': "fat_volume cap S' bpb" using vol by (simp add: fat_volume_def)
  have l': "\<forall>x<cap. length (S' x) = 512" unfolding look(5) using l2 e(1) look(4) by simp
  have hd: "hd cs < 65528" using ne sub volume_cluster(6) [OF vol] by (metis hd_in_set subsetD)
  have "chain bpb S' cs = chain bpb ?S2 cs"
    using other volume_cluster(3) [OF vol] sub by (intro chain_cong) (auto dest!: subsetD intro: le_less_trans [OF le_add1])
  then have ch: "chain bpb S' cs" using store_data_chain [OF vol sub dis len] by simp
  have same: "map S' (concat (map (cluster_lbas bpb) cs)) = map ?S2 (concat (map (cluster_lbas bpb) cs))"
    using other sub volume_cluster(7) [OF vol] by (intro map_cong) auto
  have z: "\<exists>z. concat (map S' (concat (map (cluster_lbas bpb) cs))) = data @ z"
    unfolding same using store_data_contents [OF vol sub dis, of data] need(2) lcs by (simp add: ac_simps)
  have "unat (first_cluster (dir_entry (S' lba) i)) = hd cs" "file_size (dir_entry (S' lba) i) = length data"
    using hd e by (auto simp: look(2) unsigned_of_nat take_bit_eq_mod)
  with vol' l' look(1) ch ne sub z show ?thesis by blast
qed

lemma write_read_yields:
  assumes vol: "fat_volume cap S bpb" and len: "\<forall>lba<cap. length (S lba) = 512" and "needed_clusters bpb data \<le> 64"
    and "needed_clusters bpb data \<le> length (free_clusters bpb S)"
    and "\<exists>lba \<in> set (root_lbas bpb). \<exists>i<16. usable (to_83_name name) (dir_entry (S lba) i)"
    and name: "to_83_name name ! 0 \<noteq> 0" "to_83_name name ! 0 \<noteq> 0xE5"
  shows "\<exists>S'. (\<forall>fl. yields (holds ready sec loc fl S) (export_disk_write_file checked p name data) (length data)
        (holds ready sec loc fl S')) \<and>
     (\<forall>fl out_len. length data \<le> out_len \<longrightarrow>
        yields (holds ready sec loc fl S') (export_disk_read_file p name out_len) data (holds ready sec loc fl S'))"
proof -
  let ?t = "to_83_name name" and ?cs = "take (needed_clusters bpb data) (free_clusters bpb S)"
  let ?S' = "place_entry ?t (new_entry ?t (of_nat (hd ?cs)) (length data)) (store_data bpb ?cs data S) (root_lbas bpb)"
  obtain S' where S': "?S' = Some S'" using write_file_yields [OF vol assms(3-5)] by blast
  have "\<forall>fl. yields (holds ready sec loc fl S) (export_disk_write_file checked p name data) (length data) (holds ready sec loc fl S')"
    using write_file_yields [OF vol assms(3-5)] S' by fastforce
  moreover note w = written_file [OF vol len assms(3,4) name refl S']
  have "yields (holds ready sec loc fl S') (export_disk_read_file p name out_len) data (holds ready sec loc fl S')"
    if "length data \<le> out_len" for fl out_len
    using w that by (elim conjE exE) (rule read_file_yields; assumption)
  ultimately show ?thesis by blast
qed

lemma write_then_read:
  assumes "fat_volume cap S bpb" and d: "holds ready sec loc fl S d" and "needed_clusters bpb data \<le> 64"
    and "needed_clusters bpb data \<le> length (free_clusters bpb S)"
    and "\<exists>lba \<in> set (root_lbas bpb). \<exists>i<16. usable (to_83_name name) (dir_entry (S lba) i)"
    and "to_83_name name ! 0 \<noteq> 0" "to_83_name name ! 0 \<noteq> 0xE5" and "length data \<le> out_len"
  shows "\<exists>d1 d2. export_disk_write_file checked p name data d = (Ok (length data), d1) \<and>
     export_disk_read_file p name out_len d1 = (Ok data, d2)"
proof -
  have "\<forall>lba<cap. length (S lba) = 512" using holds_length [OF d] by blast
  then obtain S' where "yields (holds ready sec loc fl S) (export_disk_write_file checked p name data) (length data) (holds ready sec loc fl S')"
      "yields (holds ready sec loc fl S') (export_disk_read_file p name out_len) data (holds ready sec loc fl S')"
    using write_read_yields [OF assms(1) _ assms(3-7)] assms(8) by blast
  with d show ?thesis by (metis yieldsE)
qed

text \<open>Releasing a chain ends, even if its links form a cycle: each round clears the link it follows.\<close>

lemma free_chain_yields:
  assumes "fat_volume cap S bpb" and "\<forall>lba<cap. length (S lba) = 512" and "valid_links bpb S" and "good_link bpb c"
    and "length (used_clusters bpb S) < fuel"
  shows "\<exists>S'. yields (holds ready sec loc fl S) (free_chain fuel p loc bpb c) () (holds ready sec loc fl S') \<and>
     (\<forall>lba. root_dir_start_lba bpb \<le> lba \<longrightarrow> S' lba = S lba)"
  using assms
proof (induction fuel arbitrary: S c)
  case (Suc f)
  let ?H = "holds ready sec loc fl"
  show ?case
  proof (cases "2 \<le> c \<and> c < 0xFFF8")
    case False
    then show ?thesis by (intro exI [of _ S]) auto
  next
    case True
    then have c: "c \<in> set (clusters bpb)" using Suc.prems(4) by (auto simp: good_link_def)
    note vc = volume_cluster [OF Suc.prems(1) c]
    let ?S = "fat_set bpb c 0 S" and ?next = "unat (fat_get bpb S c)"
    let ?buf = "copy_at (fat_offset c) [0, 0] (S (fat_sec bpb c))"
    have b: "fat_sec bpb c < cap" "fat_sec bpb c + fat_size_sectors bpb < cap" using vc(4) by auto
    have ls: "length (S (fat_sec bpb c)) = 512" using Suc.prems(2) b by blast
    have lb: "length ?buf = 512" using ls fat_offset_bound [of c] by simp
    have z: "to_le 2 (0 :: u16) = [0, 0]" by (simp add: to_le_def numeral_2_eq_2)
    have up: "?S = S(fat_sec bpb c := ?buf, fat_sec bpb c + fat_size_sectors bpb := ?buf)"
      by (simp add: fat_set_def z Let_def)
    have get: "fat_get bpb ?S c' = (if c' = c then 0 else fat_get bpb S c')" if "c' \<in> set (clusters bpb)" for c'
      using fat_get_set [where S = S and c = c and v = 0] volume_cluster(1) [OF Suc.prems(1) that] ls by blast
    have vol: "fat_volume cap ?S bpb"
      using Suc.prems(1) vc(2) by (simp add: fat_volume_def up)
    have len: "\<forall>lba<cap. length (?S lba) = 512" using Suc.prems(2) lb by (simp add: up)
    have links: "valid_links bpb ?S"
      using Suc.prems(3) get by (auto simp: valid_links_def good_link_def)
    have frame: "?S lba = S lba" if "root_dir_start_lba bpb \<le> lba" for lba
      using that vc(3) by (auto simp: up)
    have good: "good_link bpb ?next" using Suc.prems(3) c by (auto simp: valid_links_def)
    have "\<exists>S'. yields (?H ?S) (free_chain f p loc bpb ?next) () (?H S') \<and> (\<forall>lba. root_dir_start_lba bpb \<le> lba \<longrightarrow> S' lba = ?S lba)"
    proof (cases "fat_get bpb S c = 0")
      case zero: True
      then show ?thesis by (intro exI [of _ ?S]) (cases f; auto)
    next
      case False
      have "used_clusters bpb ?S = filter (\<lambda>x. x \<noteq> c) (used_clusters bpb S)"
        unfolding used_clusters_def filter_filter using get by (intro filter_cong) auto
      moreover have "c \<in> set (used_clusters bpb S)" using False c by (simp add: used_clusters_def)
      ultimately have "length (used_clusters bpb ?S) < length (used_clusters bpb S)"
        by (metis (mono_tags, lifting) length_filter_less)
      then show ?thesis
        using Suc.IH [OF vol len links good] Suc.prems(5) by simp
    qed
    then obtain S' where y: "yields (?H ?S) (free_chain f p loc bpb ?next) () (?H S')"
      and fr: "\<forall>lba. root_dir_start_lba bpb \<le> lba \<longrightarrow> S' lba = ?S lba" by blast
    have "yields (?H S) (and_then (write_sec p loc (fat_sec bpb c) ?buf) (\<lambda>_.
        and_then (write_sec p loc (fat_sec bpb c + fat_size_sectors bpb) ?buf) (\<lambda>_. free_chain f p loc bpb ?next))) () (?H S')"
      using y [unfolded up]
      by (intro yields_then [OF write_sec_yields [OF b(1) lb]] yields_then [OF write_sec_yields [OF b(2) lb]])
    then have "yields (?H S) (free_chain (Suc f) p loc bpb c) () (?H S')"
      using True by (simp add: Let_def fat_get_def yields_then [OF read_sec_yields [OF b(1)]])
    with fr frame show ?thesis by (intro exI [of _ S']) simp
  qed
qed simp

lemma delete_ends:
  assumes vol: "fat_volume cap S bpb" and d: "holds ready sec loc fl S d" and links: "valid_links bpb S"
    and entries: "\<forall>lba \<in> set (root_lbas bpb). \<forall>i<16. good_link bpb (unat (first_cluster (dir_entry (S lba) i)))"
  shows "\<exists>d' S'. export_disk_delete_file p name d = (Ok (), d') \<and> holds ready sec loc fl S' d' \<and>
     (\<forall>lba. data_start_lba bpb \<le> lba \<longrightarrow> S' lba = S lba)"
proof -
  let ?H = "holds ready sec loc fl" and ?t = "to_83_name name"
  have len: "\<forall>lba<cap. length (S lba) = 512" using holds_length [OF d] by blast
  have f: "yields (?H S) (find_file p loc ?t (root_lbas bpb)) (look_up ?t S (root_lbas bpb)) (?H S)"
    using root_lbas_bound [OF vol] by (intro find_file_yields) blast
  have start: "yields (?H S) (export_disk_delete_file p name) () (?H T)"
    if "yields (?H S) (case look_up ?t S (root_lbas bpb) of None \<Rightarrow> ret ()
       | Some (lba, i, buf) \<Rightarrow> and_then (write_sec p loc lba (buf[32 * i := 0xE5])) (\<lambda>_.
           free_chain 65536 p loc bpb (unat (first_cluster (dir_entry buf i))))) () (?H T)" for T
    unfolding export_disk_delete_file_def
    by (intro yields_then [OF get_loc_yields] yields_then [OF get_bpb_yields [OF vol volume_cap [OF vol]]] yields_then [OF f] that)
  show ?thesis
  proof (cases "look_up ?t S (root_lbas bpb)")
    case None
    then have "yields (?H S) (export_disk_delete_file p name) () (?H S)"
      by (intro start) auto
    with d show ?thesis by (metis yieldsE)
  next
    case (Some r)
    then obtain lba i where r: "r = (lba, i, S lba)" "lba \<in> set (root_lbas bpb)" "i < 16"
      using look_up_Some by (metis prod_cases3)
    note lba = root_lbas_bound [OF vol r(2)]
    let ?S = "S(lba := (S lba)[32 * i := 0xE5])"
    have "0 < root_dir_start_lba bpb"
      using vol parse_bpb_geometry(6) [of "S 0" bpb] by (simp add: fat_volume_def)
    then have vol': "fat_volume cap ?S bpb" using vol lba by (simp add: fat_volume_def)
    have same: "fat_get bpb ?S c = fat_get bpb S c" if "c \<in> set (clusters bpb)" for c
      using volume_cluster(3) [OF vol that] lba by (auto simp: fat_get_def)
    have len': "\<forall>x<cap. length (?S x) = 512" using len by simp
    have links': "valid_links bpb ?S" using links same by (simp add: valid_links_def)
    have used: "length (used_clusters bpb ?S) < 65536"
    proof -
      have "length (used_clusters bpb ?S) \<le> length (clusters bpb)" by (simp add: used_clusters_def)
      moreover have "length (clusters bpb) = total_data_clusters bpb" unfolding clusters_def length_upt by simp
      moreover have "total_data_clusters bpb \<le> 65524" using vol by (simp add: fat_volume_def)
      ultimately show ?thesis by linarith
    qed
    have good: "good_link bpb (unat (first_cluster (dir_entry (S lba) i)))"
      using entries r by blast
    obtain S' where y: "yields (?H ?S) (free_chain 65536 p loc bpb (unat (first_cluster (dir_entry (S lba) i)))) () (?H S')"
      and fr: "\<forall>x. root_dir_start_lba bpb \<le> x \<longrightarrow> S' x = ?S x"
      using free_chain_yields [OF vol' len' links' good used, of fl] by blast
    have w: "yields (?H S) (write_sec p loc lba ((S lba)[32 * i := 0xE5])) () (?H ?S)"
      using lba len by (intro write_sec_yields) auto
    have "yields (?H S) (export_disk_delete_file p name) () (?H S')"
      using Some r y by (intro start) (auto intro!: yields_then [OF w])
    moreover have "S' x = S x" if "data_start_lba bpb \<le> x" for x
      using fr that lba by auto
    ultimately show ?thesis using d by (metis yieldsE)
  qed
qed

end

end
