(* ===== verification/AtaDrive.thy ===== *)
theory AtaDrive
  imports Fat
begin

text \<open>
  A drive that stores its sectors, as a state machine behind the ports of the ATA driver, and
  the interpretation of the drive interface on it: the driver's read and write commands move
  whole sectors. The properties of the export disk are stated for every drive that keeps the
  interface; this one shows that there are such drives.
\<close>

section \<open>The drive\<close>

datatype transfer = Idle | Reading "u8 list" | Writing nat "u8 list"

record ata =
  media :: sectors
  sel :: u8
  lba_lo :: u8
  lba_mid :: u8
  lba_hi :: u8
  xfer :: transfer

definition ata_lba :: "ata \<Rightarrow> nat" where
  "ata_lba w = unat (ucast (lba_lo w) OR push_bit 8 (ucast (lba_mid w)) OR push_bit 16 (ucast (lba_hi w)) OR
     push_bit 24 (ucast (sel w AND 0x0F)) :: u32)"

definition ata_start :: "u8 \<Rightarrow> ata \<Rightarrow> ata" where
  "ata_start cmd w =
     (if sel w AND 0x10 = 0 then w
      else if cmd = ATA_CMD_READ_SECTORS then w\<lparr>xfer := Reading (media w (ata_lba w))\<rparr>
      else if cmd = ATA_CMD_WRITE_SECTORS then w\<lparr>xfer := Writing (ata_lba w) []\<rparr>
      else w)"

definition ata_take :: "ata \<Rightarrow> u16 \<times> ata" where
  "ata_take w =
     (case xfer w of
        Reading (a # b # bs) \<Rightarrow> (ucast a OR push_bit 8 (ucast b), w\<lparr>xfer := if bs = [] then Idle else Reading bs\<rparr>)
      | _ \<Rightarrow> (0, w))"

definition ata_give :: "u16 \<Rightarrow> ata \<Rightarrow> ata" where
  "ata_give v w =
     (case xfer w of
        Writing lba bs \<Rightarrow>
          let bs = bs @ [ucast v, ucast (drop_bit 8 v)]
          in if length bs = 512 then w\<lparr>media := (media w)(lba := bs), xfer := Idle\<rparr> else w\<lparr>xfer := Writing lba bs\<rparr>
      | _ \<Rightarrow> w)"

text \<open>The slave drive on the primary channel.\<close>

definition ata_ports :: "ata ports" where
  "ata_ports =
     \<lparr>inb = (\<lambda>port w. (if port = 0x1F7 then if xfer w = Idle then 0x40 else 0x48 else 0, w)),
      outb = (\<lambda>port v w. if port = 0x1F6 then w\<lparr>sel := v\<rparr> else if port = 0x1F3 then w\<lparr>lba_lo := v\<rparr>
        else if port = 0x1F4 then w\<lparr>lba_mid := v\<rparr> else if port = 0x1F5 then w\<lparr>lba_hi := v\<rparr>
        else if port = 0x1F7 then ata_start v w else w),
      inw = (\<lambda>port w. if port = 0x1F0 then ata_take w else (0, w)),
      outw = (\<lambda>port v w. if port = 0x1F0 then ata_give v w else w),
      read_tsc_serialized = (\<lambda>w. (0, w))\<rparr>"

definition slave :: DiskLocation where
  "slave = \<lparr>base_port = ATA_PRIMARY_DATA, drive = 1, detected = True\<rparr>"

abbreviation (input) ata_cap :: nat where "ata_cap \<equiv> 2 ^ 28"

definition ata_ready :: "ata \<Rightarrow> bool" where
  "ata_ready w \<longleftrightarrow> xfer w = Idle \<and> (\<forall>lba<ata_cap. length (media w lba) = 512)"

section \<open>One command\<close>

lemma wait_ready_idle: "xfer w = Idle \<Longrightarrow> ata_wait_ready ata_ports 0x1F0 w = (Ok (), w)"
  by (simp add: ata_wait_ready_def poll_ready.simps [of 100000] ata_ports_def ATA_STATUS_BSY_def)

lemma wait_drq_busy: "xfer w \<noteq> Idle \<Longrightarrow> ata_wait_drq ata_ports 0x1F0 w = (Ok (), w)"
  by (simp add: ata_wait_drq_def poll_drq.simps [of 100000] ata_ports_def ATA_STATUS_BSY_def ATA_STATUS_DRQ_def ATA_STATUS_ERR_def)

lemma and_0x0F: "(x :: 'a::len word) AND 0x0F = take_bit 4 x"
  by (simp add: take_bit_eq_mask mask_eq_exp_minus_1)

lemma drive_sel_slave: "drive_sel 1 l AND 0x10 \<noteq> 0" "drive_sel 1 l AND 0x0F = ucast (take_bit 4 (drop_bit 24 l))"
proof -
  have e: "drive_sel 1 l = 0xF0 OR ucast (take_bit 4 (drop_bit 24 l))"
    unfolding drive_sel_def and_0x0F by (simp add: or.assoc [symmetric])
  have "bit (drive_sel 1 l AND 0x10) 4" unfolding e by (simp add: bit_and_iff bit_or_iff)
  then show "drive_sel 1 l AND 0x10 \<noteq> 0" by force
  have "take_bit 4 (0xF0 :: u8) = 0" by simp
  then show "drive_sel 1 l AND 0x0F = ucast (take_bit 4 (drop_bit 24 l))"
    unfolding and_0x0F e take_bit_or by (simp add: bit_eq_iff bit_simps)
qed

lemma lba_parts:
  fixes l :: u32
  assumes "unat l < ata_cap"
  shows "ucast (ucast (l AND 0xFF) :: u8) OR push_bit 8 (ucast (ucast (drop_bit 8 l AND 0xFF) :: u8)) OR
     push_bit 16 (ucast (ucast (drop_bit 16 l AND 0xFF) :: u8)) OR
     push_bit 24 (ucast (drive_sel 1 l AND 0x0F)) = l"
proof (rule bit_word_eqI)
  fix n assume n: "n < LENGTH(32)"
  have hi: "\<not> bit l n" if "28 \<le> n"
  proof -
    have "take_bit 28 l = l"
      using assms by (simp add: word_unat_eq_iff unsigned_take_bit_eq take_bit_nat_eq_self_iff)
    then show ?thesis using that by (metis bit_take_bit_iff not_less)
  qed
  consider "n < 8" | "8 \<le> n" "n < 16" | "16 \<le> n" "n < 24" | "24 \<le> n" "n < 28" | "28 \<le> n" by linarith
  then show "bit (ucast (ucast (l AND 0xFF) :: u8) OR push_bit 8 (ucast (ucast (drop_bit 8 l AND 0xFF) :: u8)) OR
     push_bit 16 (ucast (ucast (drop_bit 16 l AND 0xFF) :: u8)) OR
     push_bit 24 (ucast (drive_sel 1 l AND 0x0F)) :: u32) n = bit l n"
    unfolding drive_sel_slave and_0xFF
    by cases (use n hi in \<open>auto simp: bit_simps\<close>)
qed


text \<open>The state after a command: the registers hold the address and the transfer has begun.\<close>

lemma command_effect:
  assumes "lba < ata_cap" and "cmd = ATA_CMD_READ_SECTORS \<or> cmd = ATA_CMD_WRITE_SECTORS"
  shows "\<exists>w'. ata_command ata_ports 0x1F0 1 (of_nat lba) cmd w = w' \<and> media w' = media w \<and>
     xfer w' = (if cmd = ATA_CMD_READ_SECTORS then Reading (media w lba) else Writing lba [])"
proof -
  let ?l = "of_nat lba :: u32"
  have ul: "unat ?l = lba" using assms(1) by (simp add: unsigned_of_nat take_bit_nat_eq_self_iff)
  let ?w = "w\<lparr>sel := drive_sel 1 ?l, lba_lo := ucast (?l AND 0xFF), lba_mid := ucast (drop_bit 8 ?l AND 0xFF),
      lba_hi := ucast (drop_bit 16 ?l AND 0xFF)\<rparr>"
  have keep: "((\<lambda>w. snd (inb ata_ports 0x1F7 w)) ^^ k) v = v" for k v
    by (induction k) (simp_all add: ata_ports_def)
  have "ata_command ata_ports 0x1F0 1 ?l cmd w = ata_start cmd ?w"
    unfolding ata_command_def Let_def by (simp add: keep) (simp add: ata_ports_def)
  moreover have "ata_lba ?w = lba"
    using lba_parts [of ?l] ul assms(1) by (simp add: ata_lba_def)
  ultimately show ?thesis
    using drive_sel_slave(1) [of ?l] assms(2)
    by (auto simp: ata_start_def ATA_CMD_READ_SECTORS_def ATA_CMD_WRITE_SECTORS_def)
qed

lemma word_bytes:
  "(ucast ((ucast a OR push_bit 8 (ucast b) :: u16) AND 0xFF) :: u8) = a"
  "(ucast (drop_bit 8 (ucast a OR push_bit 8 (ucast b) :: u16) AND 0xFF) :: u8) = b"
  "(ucast (ucast a OR push_bit 8 (ucast b) :: u16) :: u8) = a"
  "(ucast (drop_bit 8 (ucast a OR push_bit 8 (ucast b) :: u16)) :: u8) = b"
  unfolding and_0xFF by (rule bit_word_eqI; auto simp: bit_simps dest: bit_imp_le_length)+

definition reading :: "u8 list \<Rightarrow> ata \<Rightarrow> ata" where
  "reading bs w = w\<lparr>xfer := if bs = [] then Idle else Reading bs\<rparr>"

lemma read_words_all:
  "length bs = 2 * n \<Longrightarrow> read_words n ata_ports 0x1F0 (reading bs w) = (bs, reading [] w)"
proof (induction n arbitrary: bs)
  case (Suc n)
  then obtain a b cs where bs: "bs = a # b # cs" "length cs = 2 * n"
    by (auto simp: length_Suc_conv)
  have "inw ata_ports 0x1F0 (reading bs w) = (ucast a OR push_bit 8 (ucast b), reading cs w)"
    by (simp add: bs(1) ata_ports_def reading_def ata_take_def)
  with Suc.IH [OF bs(2)] show ?case by (simp add: bs(1) word_bytes del: drop_bit_or)
qed (simp add: reading_def)

lemma write_words_all:
  "length cs + length bs = 512 \<Longrightarrow> even (length bs) \<Longrightarrow> bs \<noteq> [] \<Longrightarrow>
   write_words ata_ports 0x1F0 bs (w\<lparr>xfer := Writing lba cs\<rparr>) =
     w\<lparr>media := (media w)(lba := cs @ bs), xfer := Idle\<rparr>"
proof (induction bs arbitrary: cs rule: induct_list012)
  case (3 a b bs)
  let ?v = "ucast a OR push_bit 8 (ucast b) :: u16"
  have o: "outw ata_ports 0x1F0 ?v (w\<lparr>xfer := Writing lba cs\<rparr>) =
      (if length cs + 2 = 512 then w\<lparr>media := (media w)(lba := cs @ [a, b]), xfer := Idle\<rparr>
       else w\<lparr>xfer := Writing lba (cs @ [a, b])\<rparr>)"
    by (simp add: ata_ports_def ata_give_def word_bytes del: drop_bit_or)
  show ?case
  proof (cases "bs = []")
    case True
    with 3 o show ?thesis by (simp add: fun_upd_def)
  next
    case False
    moreover have "length cs + 2 \<noteq> 512" using 3 False by auto
    ultimately show ?thesis
      using 3 o "3.IH"(1) [of "cs @ [a, b]"] by simp
  qed
qed auto

interpretation ata_slave: block_device ata_ports slave ata_ready media ata_cap
proof (unfold_locales, goal_cases)
  case (1 w lba)
  then show ?case by (simp add: ata_ready_def)
next
  case (2 w lba)
  then have idle: "xfer w = Idle" and len: "length (media w lba) = 512" by (auto simp: ata_ready_def)
  obtain w1 where w1: "ata_command ata_ports 0x1F0 1 (of_nat lba) ATA_CMD_READ_SECTORS w = w1"
      "media w1 = media w" "xfer w1 = Reading (media w lba)"
    using command_effect [OF 2(2), of ATA_CMD_READ_SECTORS w] by auto
  have "reading (media w lba) w1 = w1" using w1(3) len by (auto simp: reading_def)
  then have "read_words 256 ata_ports 0x1F0 w1 = (media w lba, reading [] w1)"
    using read_words_all [of "media w lba" 256 w1] len by simp
  then show ?case
    using 2 wait_ready_idle [OF idle] wait_drq_busy [of w1] w1
    by (simp add: ata_read_sector_def and_then_def exec_def slave_def ATA_PRIMARY_DATA_def ata_ready_def reading_def)
next
  case (3 w lba buf)
  then have idle: "xfer w = Idle" by (auto simp: ata_ready_def)
  obtain w1 where w1: "ata_command ata_ports 0x1F0 1 (of_nat lba) ATA_CMD_WRITE_SECTORS w = w1"
      "media w1 = media w" "xfer w1 = Writing lba []"
    using command_effect [OF 3(2), of ATA_CMD_WRITE_SECTORS w]
    by (auto simp: ATA_CMD_READ_SECTORS_def ATA_CMD_WRITE_SECTORS_def)
  let ?w2 = "w1\<lparr>media := (media w1)(lba := buf), xfer := Idle\<rparr>"
  have "w1\<lparr>xfer := Writing lba []\<rparr> = w1" using w1(3) by simp
  moreover have "buf \<noteq> []" using 3(3) by auto
  ultimately have ww: "write_words ata_ports 0x1F0 buf w1 = ?w2"
    using write_words_all [where cs = "[]" and bs = buf and w = w1 and lba = lba] 3(3) by simp
  have fl: "outb ata_ports 0x1F7 ATA_CMD_CACHE_FLUSH ?w2 = ?w2"
    by (simp add: ata_ports_def ata_start_def ATA_CMD_READ_SECTORS_def ATA_CMD_WRITE_SECTORS_def ATA_CMD_CACHE_FLUSH_def)
  show ?case
    using 3 wait_ready_idle [OF idle] wait_drq_busy [of w1] wait_ready_idle [of ?w2] w1 ww fl
    by (simp add: ata_write_sector_def and_then_def exec_def slave_def ATA_PRIMARY_DATA_def ata_ready_def)
qed

section \<open>Files on a drive that keeps its sectors\<close>

text \<open>
  C26: On a FAT16 volume with enough free clusters and a usable directory slot, behind any drive
  that keeps the interface, writing a file returns the number of its bytes, and reading it back
  into a buffer that is large enough returns exactly these bytes. The first byte of the name may
  be neither of the two marks of the directory.
\<close>

theorem fat_write_read:
  assumes "block_device p loc ready sec cap" and "fat_volume cap S bpb" and "holds ready sec loc fl S d"
    and "needed_clusters bpb data \<le> 64" and "needed_clusters bpb data \<le> length (free_clusters bpb S)"
    and "\<exists>lba \<in> set (root_lbas bpb). \<exists>i<16. usable (to_83_name name) (dir_entry (S lba) i)"
    and "to_83_name name ! 0 \<noteq> 0" and "to_83_name name ! 0 \<noteq> 0xE5" and "length data \<le> out_len"
  shows "\<exists>d1 d2. export_disk_write_file checked p name data d = (Ok (length data), d1) \<and>
     export_disk_read_file p name out_len d1 = (Ok data, d2)"
  using block_device.write_then_read [OF assms] .


subsection \<open>A small volume\<close>

definition demo_boot :: "u8 list" where
  "demo_boot = replicate 11 0 @ [0, 2, 1, 1, 0, 2, 16, 0, 14, 0, 0, 1, 0] @ replicate 486 0 @ [0x55, 0xAA]"

definition demo_media :: sectors where
  "demo_media lba = (if lba = 0 then demo_boot else replicate 512 0)"

definition demo_disk :: "ata disk" where
  "demo_disk =
     \<lparr>dev = \<lparr>media = demo_media, sel = 0, lba_lo = 0, lba_mid = 0, lba_hi = 0, xfer = Idle\<rparr>,
      EXPORT_DISK_LOC = slave, SYNC_MUTEX_FLAG = False\<rparr>"

definition demo_bpb :: Fat16Bpb where
  "demo_bpb =
     \<lparr>bytes_per_sector = 512, sectors_per_cluster = 1, reserved_sectors = 1, num_fats = 2,
      root_dir_entries = 16, total_sectors = 14, fat_size_sectors = 1, root_dir_start_lba = 3,
      root_dir_sectors = 1, data_start_lba = 4, total_data_clusters = 10\<rparr>"

lemma demo_volume: "fat_volume ata_cap demo_media demo_bpb"
proof -
  have "parse_bpb demo_boot = Ok demo_bpb" by code_simp
  then show ?thesis by (simp add: fat_volume_def demo_media_def) (simp add: demo_bpb_def)
qed

lemma demo_holds: "holds ata_ready media slave False demo_media demo_disk"
proof -
  have "length demo_boot = 512" by (simp add: demo_boot_def)
  then show ?thesis by (simp add: holds_def demo_disk_def ata_ready_def demo_media_def slave_def)
qed

lemma demo_free: "free_clusters demo_bpb demo_media = [2..<12]"
  by code_simp

lemma demo_slot: "dir_entry (demo_media 3) i ! 0 = 0" "first_cluster (dir_entry (demo_media 3) i) = 0" if "i < 16"
  using that by (simp_all add: demo_media_def dir_entry_def first_cluster_def le16_at_def sub_slice_def)

lemma demo_links: "valid_links demo_bpb demo_media"
  by code_simp

lemma demo_root: "root_lbas demo_bpb = [3]"
  by code_simp

theorem fat_write_read_witness:
  "\<exists>d1 d2. export_disk_write_file True ata_ports (bytes ''LOG.TXT'') (replicate 600 7) demo_disk = (Ok 600, d1) \<and>
     export_disk_read_file ata_ports (bytes ''LOG.TXT'') 1024 d1 = (Ok (replicate 600 7), d2)"
proof -
  have need: "needed_clusters demo_bpb (replicate 600 7) = 2"
    by (simp add: needed_clusters_def demo_bpb_def)
  have name: "to_83_name (bytes ''LOG.TXT'') ! 0 = 76" by code_simp
  have slot: "\<exists>lba \<in> set (root_lbas demo_bpb). \<exists>i<16. usable (to_83_name (bytes ''LOG.TXT'')) (dir_entry (demo_media lba) i)"
    by (auto simp: demo_root usable_def demo_slot intro!: exI [of _ 0])
  show ?thesis
    using fat_write_read [OF ata_slave.block_device_axioms demo_volume demo_holds _ _ slot,
        of "replicate 600 7" 1024 True]
    by (simp add: need demo_free name del: bytes_Cons)
qed


end
