(* ===== verification/Disasm.thy ===== *)
theory Disasm
  imports Container
begin

text \<open>
  The disassembler (\<^verbatim>\<open>pulselang-core/src/disasm.rs\<close>). A listing is the list of the lines
  the code hands to \<^verbatim>\<open>writeln!\<close>; the writer is the growing \<^verbatim>\<open>String\<close> of
  \<^verbatim>\<open>disasm_with_filename\<close>, which never fails. The theorems relate a listing to the code
  bytes of the binary: its length, its panic, and the hexadecimal columns, from which the
  code can be read back.
\<close>

section \<open>Hexadecimal output\<close>

text \<open>\<^verbatim>\<open>{:x}\<close> and \<^verbatim>\<open>{:0nx}\<close>.\<close>

definition hex_char :: "nat \<Rightarrow> u8" where
  "hex_char n = of_nat (if n < 10 then 48 + n else 87 + n)"

fun hex_nat :: "nat \<Rightarrow> str" where
  "hex_nat n = (if n < 16 then [hex_char n] else hex_nat (n div 16) @ [hex_char (n mod 16)])"

declare hex_nat.simps [simp del]

definition hex_pad :: "nat \<Rightarrow> nat \<Rightarrow> str" where
  "hex_pad w n = replicate (w - length (hex_nat n)) 48 @ hex_nat n"

abbreviation hex2 :: "u8 \<Rightarrow> str" where
  "hex2 b \<equiv> hex_pad 2 (unat b)"

section \<open>One px64 instruction\<close>

text \<open>\<^verbatim>\<open>"{:04x}:   {} {} {} {}  {}"\<close>: the offset, four hexadecimal columns and the text.\<close>

definition row :: "nat \<Rightarrow> str \<Rightarrow> str \<Rightarrow> str \<Rightarrow> str \<Rightarrow> str \<Rightarrow> str" where
  "row op_ip a b c d txt =
     hex_pad 4 op_ip @ bytes '':   '' @ a @ bytes '' '' @ b @ bytes '' '' @ c @ bytes '' '' @ d @ bytes ''  '' @ txt"

definition imm16_word :: "u8 \<Rightarrow> u8 \<Rightarrow> u16" where
  "imm16_word rs1 rs2 = from_be [rs1, rs2]"

definition reg3_text :: "string \<Rightarrow> u8 \<Rightarrow> u8 \<Rightarrow> u8 \<Rightarrow> str" where
  "reg3_text name rd rs1 rs2 =
     bytes name @ bytes (px64_reg_name rd) @ bytes '', '' @ bytes (px64_reg_name rs1) @ bytes '', '' @
     bytes (px64_reg_name rs2)"

text \<open>
  The arm of one opcode. \<^term>\<open>None\<close> is the panic of \<^verbatim>\<open>const_pool[const_idx]\<close>, an
  array of 64 elements.
\<close>

definition disasm_instr :: "nat \<Rightarrow> i64 list \<Rightarrow> nat \<Rightarrow> u8 \<Rightarrow> u8 \<Rightarrow> u8 \<Rightarrow> u8 \<Rightarrow> str option" where
  "disasm_instr const_count cpool op_ip op rd rs1 rs2 =
     (let h = hex2; z = bytes ''00''; d = (\<lambda>b :: u8. dec_nat (unat b));
          imm16 = imm16_word rs1 rs2; imm = dec_nat (unat imm16); target = bytes ''0x'' @ hex_pad 4 (unat imm16);
          rd_str = bytes (px64_reg_name rd); rs1_str = bytes (px64_reg_name rs1); rs2_str = bytes (px64_reg_name rs2);
          full = (\<lambda>txt. Some (row op_ip (h op) (h rd) (h rs1) (h rs2) txt));
          reg3 = (\<lambda>name. Some (row op_ip (h op) (h rd) (h rs1) (h rs2) (reg3_text name rd rs1 rs2)))
      in case decode_op op of
        None \<Rightarrow> full (bytes ''UNKNOWN_OP_0x'' @ h op)
      | Some PX64_OP_NOP \<Rightarrow> Some (row op_ip z z z z (bytes ''NOP''))
      | Some PX64_OP_MOV_IMM \<Rightarrow> full (bytes ''MOV          '' @ rd_str @ bytes '', '' @ imm)
      | Some PX64_OP_MOV_REG \<Rightarrow>
          Some (row op_ip (h op) (h rd) (h rs1) z (bytes ''MOV          '' @ rd_str @ bytes '', '' @ rs1_str))
      | Some PX64_OP_MOV_STR \<Rightarrow>
          full (bytes ''MOVS         '' @ rd_str @ bytes '', str[offset:'' @ d rs1 @ bytes '', len:'' @ d rs2 @ bytes '']'')
      | Some PX64_OP_ADD \<Rightarrow> reg3 ''ADD          ''
      | Some PX64_OP_SUB \<Rightarrow> reg3 ''SUB          ''
      | Some PX64_OP_MUL \<Rightarrow> reg3 ''MUL          ''
      | Some PX64_OP_DIV \<Rightarrow> reg3 ''DIV          ''
      | Some PX64_OP_MOD \<Rightarrow> reg3 ''MOD          ''
      | Some PX64_OP_CMP_EQ \<Rightarrow> reg3 ''CMPEQ        ''
      | Some PX64_OP_CMP_NE \<Rightarrow> reg3 ''CMPNE        ''
      | Some PX64_OP_CMP_LT \<Rightarrow> reg3 ''CMPLT        ''
      | Some PX64_OP_CMP_LE \<Rightarrow> reg3 ''CMPLE        ''
      | Some PX64_OP_CMP_GT \<Rightarrow> reg3 ''CMPGT        ''
      | Some PX64_OP_CMP_GE \<Rightarrow> reg3 ''CMPGE        ''
      | Some PX64_OP_JMP \<Rightarrow> Some (row op_ip (h op) z (h rs1) (h rs2) (bytes ''JMP          '' @ target))
      | Some PX64_OP_JZ \<Rightarrow> full (bytes ''JZ           '' @ rd_str @ bytes '', '' @ target)
      | Some PX64_OP_JNZ \<Rightarrow> full (bytes ''JNZ          '' @ rd_str @ bytes '', '' @ target)
      | Some PX64_OP_CALL_NAT \<Rightarrow>
          full (bytes ''CALL_NAT     '' @ rd_str @ bytes '' = '' @ bytes (px64_native_name rs1) @ bytes ''('' @ rs2_str @ bytes '')'')
      | Some PX64_OP_WITHIN_START \<Rightarrow>
          Some (row op_ip (h op) (h rd) z z (bytes ''WITHIN_START budget:'' @ rd_str))
      | Some PX64_OP_WITHIN_END \<Rightarrow> Some (row op_ip (h op) z z z (bytes ''WITHIN_END''))
      | Some PX64_OP_DROP \<Rightarrow> Some (row op_ip (h op) z z z (bytes ''DROP''))
      | Some PX64_OP_HALT \<Rightarrow> Some (row op_ip (h op) z z z (bytes ''HALT''))
      | Some PX64_OP_LDC \<Rightarrow>
          if unat imm16 < const_count then
            (case idx cpool (unat imm16) of
               None \<Rightarrow> None
             | Some c \<Rightarrow> full (bytes ''LDC          '' @ rd_str @ bytes '', const['' @ imm @ bytes ''] ('' @ dec_i64 c @ bytes '')''))
          else full (bytes ''LDC          '' @ rd_str @ bytes '', const['' @ imm @ bytes ''] (<out of bounds>)'')
      | Some PX64_OP_ADDI \<Rightarrow> full (bytes ''ADDI         '' @ rd_str @ bytes '', '' @ rs1_str @ bytes '', '' @ d rs2)
      | Some PX64_OP_SUBI \<Rightarrow> full (bytes ''SUBI         '' @ rd_str @ bytes '', '' @ rs1_str @ bytes '', '' @ d rs2)
      | Some PX64_OP_AND \<Rightarrow> reg3 ''AND          ''
      | Some PX64_OP_OR \<Rightarrow> reg3 ''OR           ''
      | Some PX64_OP_XOR \<Rightarrow> reg3 ''XOR          ''
      | Some PX64_OP_SHL \<Rightarrow> reg3 ''SHL          ''
      | Some PX64_OP_SHR \<Rightarrow> reg3 ''SHR          ''
      | Some PX64_OP_ARR_DEF \<Rightarrow> full (bytes ''ARR_DEF      arr['' @ d rd @ bytes ''], len: '' @ imm)
      | Some PX64_OP_ARR_LOAD \<Rightarrow>
          full (bytes ''ARR_LOAD     '' @ rd_str @ bytes '', arr['' @ d rs1 @ bytes ''][''  @ rs2_str @ bytes '']'')
      | Some PX64_OP_ARR_STORE \<Rightarrow>
          full (bytes ''ARR_STORE    arr['' @ d rd @ bytes ''][''  @ rs1_str @ bytes ''], '' @ rs2_str)
      | Some PX64_OP_ASSERT \<Rightarrow> Some (row op_ip (h op) (h rd) z z (bytes ''ASSERT       '' @ rd_str))
      | Some PX64_OP_CALL \<Rightarrow> Some (row op_ip (h op) z (h rs1) (h rs2) (bytes ''CALL         '' @ target))
      | Some PX64_OP_RET \<Rightarrow> Some (row op_ip (h op) z z z (bytes ''RET''))
      | Some PX64_OP_STRUCT_DEF \<Rightarrow>
          Some (row op_ip (h op) (h rd) (h rs1) z (bytes ''STRUCT_DEF   inst['' @ d rd @ bytes ''], fields: '' @ d rs1))
      | Some PX64_OP_STRUCT_LOAD \<Rightarrow>
          full (bytes ''STRUCT_LOAD  '' @ rd_str @ bytes '', inst['' @ d rs1 @ bytes ''].f['' @ d rs2 @ bytes '']'')
      | Some PX64_OP_STRUCT_STORE \<Rightarrow>
          full (bytes ''STRUCT_STORE inst['' @ d rd @ bytes ''].f['' @ d rs1 @ bytes ''], '' @ rs2_str)
      | Some PX64_OP_TBL_DEF \<Rightarrow>
          full (bytes ''TBL_DEF      table['' @ d rd @ bytes ''], base: '' @ d rs1 @ bytes '', len: '' @ d rs2)
      | Some PX64_OP_TBL_LOAD \<Rightarrow>
          full (bytes ''TBL_LOAD     '' @ rd_str @ bytes '', table['' @ d rs1 @ bytes ''][''  @ rs2_str @ bytes '']'')
      | Some PX64_OP_STREQ \<Rightarrow> reg3 ''STREQ        ''
      | Some PX64_OP_SPILL_STORE \<Rightarrow> full (bytes ''SPILL_STORE  slot['' @ d rd @ bytes ''], '' @ rs1_str)
      | Some PX64_OP_SPILL_LOAD \<Rightarrow> full (bytes ''SPILL_LOAD   '' @ rd_str @ bytes '', slot['' @ d rs1 @ bytes '']''))"

section \<open>The px64 listing\<close>

fun px64_loop :: "nat \<Rightarrow> i64 list \<Rightarrow> nat \<Rightarrow> u8 list \<Rightarrow> str list option" where
  "px64_loop const_count cpool at (op # rd # rs1 # rs2 # rest) =
     (case disasm_instr const_count cpool at op rd rs1 rs2 of
        None \<Rightarrow> None
      | Some line \<Rightarrow> map_option (\<lambda>ls. line # ls) (px64_loop const_count cpool (at + 4) rest))"
| "px64_loop const_count cpool at _ = Some []"

definition px64_const_pool :: "u8 list \<Rightarrow> i64 list" where
  "px64_const_pool bin =
     (let const_start = PX64_HEADER_SIZE + be16_at 6 bin + be16_at 8 bin;
          const_count = be16_at 10 bin;
          const_raw = sub_slice const_start (const_count * 8) bin
      in if const_start + const_count * 8 \<le> length bin then
           copy_at 0 (map (\<lambda>i. from_be (sub_slice (i * 8) 8 const_raw)) [0..<min const_count 64]) (replicate 64 0)
         else replicate 64 0)"

definition px64_header_lines :: "u8 list \<Rightarrow> str \<Rightarrow> str list" where
  "px64_header_lines bin filename =
     [bytes ''=== [px64 Virtual Register Machine Disassembly] '' @ filename @ bytes '' ==='',
      bytes ''NOTE: Registers ($rax..$r15, #f0..#f3) are px64 VM virtual registers, not host CPU GPRs.'',
      bytes ''Magic: PX64 | Version: '' @ dec_nat (be16_at 4 bin) @ bytes '' | Code: '' @ dec_nat (be16_at 6 bin) @
        bytes '' B | Registers: '' @ dec_nat (be16_at 12 bin) @ bytes '' GPRs+HW | StringPool: '' @
        dec_nat (be16_at 8 bin) @ bytes '' B | ConstPool: '' @ dec_nat (be16_at 10 bin) @ bytes '' entries'',
      bytes ''OFFSET  HEX          INSTRUCTION  OPERANDS (px64 Virtual Registers)'',
      bytes ''---------------------------------------------------------------'']"

text \<open>\<^verbatim>\<open>&bin[16..min(16 + code_len, bin.len())]\<close>.\<close>

definition code_of :: "u8 list \<Rightarrow> u8 list" where
  "code_of bin = drop PX64_HEADER_SIZE (take (min (PX64_HEADER_SIZE + be16_at 6 bin) (length bin)) bin)"

definition px64_listing :: "u8 list \<Rightarrow> str \<Rightarrow> (CompileError, str list) outcome" where
  "px64_listing bin filename =
     (case px64_loop (be16_at 10 bin) (px64_const_pool bin) 0 (code_of bin) of
        None \<Rightarrow> Panic
      | Some ls \<Rightarrow> Ok (px64_header_lines bin filename @ ls))"

section \<open>The legacy listing\<close>

definition PULSE_BIN_MAGIC :: "u8 list" where
  "PULSE_BIN_MAGIC = bytes ''PX64''"

abbreviation (input) PULSE_HEADER_SIZE :: nat where
  "PULSE_HEADER_SIZE \<equiv> 16"

datatype (plugins only: code size) pulse_op =
    OP_NOP | OP_PUSH_CONST | OP_LOAD_VAR | OP_STORE_VAR | OP_ADD | OP_SUB | OP_MUL | OP_DIV
  | OP_MOD | OP_CMP_EQ | OP_CMP_NE | OP_CMP_LT | OP_CMP_LE | OP_CMP_GT | OP_CMP_GE | OP_JUMP
  | OP_JUMP_IF_FALSE | OP_CALL_NATIVE | OP_WITHIN_START | OP_WITHIN_END | OP_DROP | OP_PUSH_STR | OP_HALT

definition pulse_ops :: "pulse_op list" where
  "pulse_ops =
    [OP_NOP, OP_PUSH_CONST, OP_LOAD_VAR, OP_STORE_VAR, OP_ADD, OP_SUB, OP_MUL, OP_DIV,
     OP_MOD, OP_CMP_EQ, OP_CMP_NE, OP_CMP_LT, OP_CMP_LE, OP_CMP_GT, OP_CMP_GE, OP_JUMP,
     OP_JUMP_IF_FALSE, OP_CALL_NATIVE, OP_WITHIN_START, OP_WITHIN_END, OP_DROP, OP_PUSH_STR, OP_HALT]"

definition decode_pulse_op :: "u8 \<Rightarrow> pulse_op option" where
  "decode_pulse_op b = idx pulse_ops (unat b)"

text \<open>
  The arm of one legacy opcode: how many operand bytes it takes from \<^term>\<open>rest\<close> and
  the text it prints. An operand that is cut off takes nothing and prints nothing.
\<close>

definition legacy_instr :: "u8 \<Rightarrow> u8 list \<Rightarrow> nat \<times> str option" where
  "legacy_instr op rest =
     (let plain = (\<lambda>name. (0, Some (bytes name)));
          operand = (\<lambda>n txt. if n \<le> length rest then (n, Some txt) else (0, None));
          d = (\<lambda>b :: u8. dec_nat (unat b));
          target = bytes ''0x'' @ hex_pad 4 (unat (from_be (take 2 rest) :: u16))
      in case decode_pulse_op op of
        None \<Rightarrow> (0, Some (bytes ''UNKNOWN_OP_'' @ d op))
      | Some OP_NOP \<Rightarrow> plain ''OP_NOP''
      | Some OP_PUSH_CONST \<Rightarrow> operand 8 (bytes ''OP_PUSH_CONST       '' @ dec_i64 (from_be (take 8 rest)))
      | Some OP_LOAD_VAR \<Rightarrow> operand 1 (bytes ''OP_LOAD_VAR         slot:'' @ d (hd rest))
      | Some OP_STORE_VAR \<Rightarrow> operand 1 (bytes ''OP_STORE_VAR        slot:'' @ d (hd rest))
      | Some OP_ADD \<Rightarrow> plain ''OP_ADD''
      | Some OP_SUB \<Rightarrow> plain ''OP_SUB''
      | Some OP_MUL \<Rightarrow> plain ''OP_MUL''
      | Some OP_DIV \<Rightarrow> plain ''OP_DIV''
      | Some OP_MOD \<Rightarrow> plain ''OP_MOD''
      | Some OP_CMP_EQ \<Rightarrow> plain ''OP_CMP_EQ''
      | Some OP_CMP_NE \<Rightarrow> plain ''OP_CMP_NE''
      | Some OP_CMP_LT \<Rightarrow> plain ''OP_CMP_LT''
      | Some OP_CMP_LE \<Rightarrow> plain ''OP_CMP_LE''
      | Some OP_CMP_GT \<Rightarrow> plain ''OP_CMP_GT''
      | Some OP_CMP_GE \<Rightarrow> plain ''OP_CMP_GE''
      | Some OP_JUMP \<Rightarrow> operand 2 (bytes ''OP_JUMP             '' @ target)
      | Some OP_JUMP_IF_FALSE \<Rightarrow> operand 2 (bytes ''OP_JUMP_IF_FALSE    '' @ target)
      | Some OP_CALL_NATIVE \<Rightarrow>
          operand 1 (bytes ''OP_CALL_NATIVE      '' @ bytes (px64_native_name (hd rest)) @ bytes '' (id:'' @ d (hd rest) @ bytes '')'')
      | Some OP_WITHIN_START \<Rightarrow>
          operand 8 (bytes ''OP_WITHIN_START     '' @ dec_nat (unat (from_be (take 8 rest) :: u64)) @ bytes '' us'')
      | Some OP_WITHIN_END \<Rightarrow> plain ''OP_WITHIN_END''
      | Some OP_DROP \<Rightarrow> plain ''OP_DROP''
      | Some OP_PUSH_STR \<Rightarrow>
          operand 2 (bytes ''OP_PUSH_STR         offset:'' @ d (hd rest) @ bytes '', len:'' @ d (hd (tl rest)))
      | Some OP_HALT \<Rightarrow> plain ''OP_HALT'')"

function legacy_loop :: "nat \<Rightarrow> u8 list \<Rightarrow> str list" where
  "legacy_loop at [] = []"
| "legacy_loop at (op # rest) =
     (let (n, txt) = legacy_instr op rest
      in (case txt of None \<Rightarrow> [] | Some t \<Rightarrow> [hex_pad 4 at @ bytes '':   '' @ t]) @
         legacy_loop (at + 1 + n) (drop n rest))"
  by pat_completeness auto
termination by (relation "measure (\<lambda>(at, code). length code)") auto

definition legacy_listing :: "u8 list \<Rightarrow> str \<Rightarrow> str list" where
  "legacy_listing bin filename =
     [bytes ''=== Legacy PulseLang Bytecode Disassembly: '' @ filename @ bytes '' ==='',
      bytes ''Magic: PULS | Version: 2 | Code: '' @ dec_nat (be16_at 6 bin) @ bytes '' B | StringPool: '' @
        dec_nat (be16_at 8 bin) @ bytes '' B'',
      bytes ''OFFSET  OPCODE              OPERANDS'',
      bytes ''---------------------------------------------------''] @
     legacy_loop 0 (code_of bin)"

section \<open>The entry points\<close>

definition disassemble_px64_with_filename :: "u8 list \<Rightarrow> str \<Rightarrow> (CompileError, str list) outcome" where
  "disassemble_px64_with_filename bin filename =
     (if has_magic bin then px64_listing bin filename
      else if PULSE_HEADER_SIZE \<le> length bin \<and> sub_slice 0 4 bin = PULSE_BIN_MAGIC then
        Ok (legacy_listing bin filename)
      else Err (simple ''ERR_BINARY_INVALID_MAGIC'' ''Invalid executable binary magic (expected PX64)''))"

definition disassemble_px64 :: "u8 list \<Rightarrow> (CompileError, str list) outcome" where
  "disassemble_px64 bin = disassemble_px64_with_filename bin (bytes ''binary'')"

definition disasm_with_filename :: "u8 list \<Rightarrow> str \<Rightarrow> (CompileError, str) outcome" where
  "disasm_with_filename bin filename =
     (case disassemble_px64_with_filename bin filename of
        Ok ls \<Rightarrow> Ok (concat (map (\<lambda>l. l @ [10]) ls))
      | Err e \<Rightarrow> Err e
      | Panic \<Rightarrow> Panic)"

definition disasm :: "u8 list \<Rightarrow> (CompileError, str) outcome" where
  "disasm bin = disasm_with_filename bin (bytes ''binary'')"

section \<open>When one instruction panics\<close>

text \<open>An LDC whose index the header covers but the 64 elements of the array do not.\<close>

definition ldc_past_pool :: "nat \<Rightarrow> u8 list \<Rightarrow> bool" where
  "ldc_past_pool const_count i \<longleftrightarrow>
     i ! 0 = op_code PX64_OP_LDC \<and> 64 \<le> be16_at 2 i \<and> be16_at 2 i < const_count"

lemma imm16_at: "unat (imm16_word a b) = be16_at 2 [op, rd, a, b]"
  by (simp add: be16_at_def imm16_word_def sub_slice_def)

lemma disasm_instr_None:
  assumes "length cpool = 64"
  shows "disasm_instr cc cpool at op rd rs1 rs2 = None \<longleftrightarrow> ldc_past_pool cc [op, rd, rs1, rs2]"
proof (cases "decode_op op")
  case None
  then have "op \<noteq> op_code PX64_OP_LDC" by (metis decode_op_code option.distinct(1))
  with None show ?thesis by (simp add: disasm_instr_def ldc_past_pool_def)
next
  case (Some o')
  then have op: "op = op_code o'" by (simp add: decode_op_Some)
  show ?thesis
    unfolding op disasm_instr_def decode_op_code Let_def
    using assms
    by (cases o') (auto simp: ldc_past_pool_def imm16_at [of _ _ 23 rd] idx_def)
qed

text \<open>The code, cut in instructions; a rest of fewer than four bytes is not decoded.\<close>

fun instrs :: "u8 list \<Rightarrow> u8 list list" where
  "instrs (op # rd # rs1 # rs2 # rest) = [op, rd, rs1, rs2] # instrs rest"
| "instrs _ = []"

lemma length_instrs: "length (instrs prog) = length prog div 4"
  by (induction prog rule: instrs.induct) simp_all

lemma concat_instrs: "4 dvd length prog \<Longrightarrow> concat (instrs prog) = prog"
proof (induction prog rule: instrs.induct)
  case (1 op rd rs1 rs2 rest)
  then have "4 dvd length rest" by simp presburger
  with 1 show ?case by simp
qed (simp_all, presburger+)

definition instr_line :: "nat \<Rightarrow> i64 list \<Rightarrow> nat \<Rightarrow> u8 list \<Rightarrow> str option" where
  "instr_line cc cpool at i = disasm_instr cc cpool at (i ! 0) (i ! 1) (i ! 2) (i ! 3)"

lemma length_of_instrs: "i \<in> set (instrs prog) \<Longrightarrow> length i = 4"
  by (induction prog rule: instrs.induct) auto

lemma nth_four: "length xs = 4 \<Longrightarrow> [xs ! 0, xs ! Suc 0, xs ! 2, xs ! 3] = xs"
  by (auto simp: length_Suc_conv numeral_eq_Suc)

lemma instr_line_None:
  "length cpool = 64 \<Longrightarrow> length i = 4 \<Longrightarrow> instr_line cc cpool at i = None \<longleftrightarrow> ldc_past_pool cc i"
  by (simp add: instr_line_def disasm_instr_None nth_four)

text \<open>The loop is a map over the instructions, each with its offset.\<close>

lemma px64_loop_map:
  assumes "length cpool = 64"
  shows "px64_loop cc cpool at prog =
    (if \<exists>i \<in> set (instrs prog). ldc_past_pool cc i then None
     else Some (map (\<lambda>k. the (instr_line cc cpool (at + 4 * k) (instrs prog ! k))) [0..<length (instrs prog)]))"
  using assms
proof (induction cc cpool at prog rule: px64_loop.induct)
  case (1 cc cpool at op rd rs1 rs2 rest)
  note p = 1(2)
  let ?i = "[op, rd, rs1, rs2]"
  have u: "[0..<length (instrs (op # rd # rs1 # rs2 # rest))] = 0 # map Suc [0..<length (instrs rest)]"
    by (simp add: upt_conv_Cons map_Suc_upt del: upt_Suc)
  show ?case
  proof (cases "ldc_past_pool cc ?i")
    case True
    then show ?thesis by (simp add: disasm_instr_None [OF p, THEN iffD2])
  next
    case False
    then obtain l where l: "disasm_instr cc cpool at op rd rs1 rs2 = Some l"
      using disasm_instr_None [OF p] by (metis option.exhaust)
    then have "instr_line cc cpool at ?i = Some l" by (simp add: instr_line_def)
    then show ?thesis
      using False 1(1) [OF l p] unfolding u by (simp add: l o_def algebra_simps)
  qed
qed simp_all

section \<open>The hexadecimal columns\<close>

text \<open>
  Several arms print \<^verbatim>\<open>00\<close> for an operand byte they do not use. An instruction is
  canonical when these bytes are zero.
\<close>

definition canonical_instr :: "u8 list \<Rightarrow> bool" where
  "canonical_instr i \<longleftrightarrow>
     (case decode_op (i ! 0) of
        Some op \<Rightarrow>
          (op \<in> {PX64_OP_NOP, PX64_OP_WITHIN_END, PX64_OP_DROP, PX64_OP_HALT, PX64_OP_RET} \<longrightarrow>
             i ! 1 = 0 \<and> i ! 2 = 0 \<and> i ! 3 = 0) \<and>
          (op \<in> {PX64_OP_MOV_REG, PX64_OP_STRUCT_DEF} \<longrightarrow> i ! 3 = 0) \<and>
          (op \<in> {PX64_OP_JMP, PX64_OP_CALL} \<longrightarrow> i ! 1 = 0) \<and>
          (op \<in> {PX64_OP_WITHIN_START, PX64_OP_ASSERT} \<longrightarrow> i ! 2 = 0 \<and> i ! 3 = 0)
      | None \<Rightarrow> True)"

definition unhex :: "u8 \<Rightarrow> nat" where
  "unhex c = (if unat c < 58 then unat c - 48 else unat c - 87)"

text \<open>Reads the four columns of a line back: the digits at 8, 11, 14 and 17.\<close>

definition read_columns :: "str \<Rightarrow> u8 list" where
  "read_columns line = map (\<lambda>p. of_nat (16 * unhex (line ! p) + unhex (line ! (p + 1)))) [8, 11, 14, 17]"

lemma unhex_hex_char [simp]: "n < 16 \<Longrightarrow> unhex (hex_char n) = n"
  by (auto simp: unhex_def hex_char_def unat_of_nat)

lemma hex_pad_small: "n < 16 \<Longrightarrow> hex_pad (Suc w) n = replicate w 48 @ [hex_char n]"
  by (subst hex_pad_def, subst (1 2) hex_nat.simps) simp

lemma hex_pad_step: "16 \<le> n \<Longrightarrow> hex_pad (Suc w) n = hex_pad w (n div 16) @ [hex_char (n mod 16)]"
  by (subst (1 2) hex_pad_def, subst (1 2) hex_nat.simps) simp

lemma hex_pad_Suc: "0 < w \<Longrightarrow> hex_pad (Suc w) n = hex_pad w (n div 16) @ [hex_char (n mod 16)]"
proof (cases "n < 16")
  case True
  assume "0 < w"
  then obtain v where "w = Suc v" by (cases w) auto
  then show ?thesis using True by (simp add: hex_pad_small hex_char_def replicate_append_same)
qed (simp add: hex_pad_step)

lemma length_hex_pad: "n < 16 ^ w \<Longrightarrow> 0 < w \<Longrightarrow> length (hex_pad w n) = w"
proof (induction w arbitrary: n)
  case (Suc w)
  show ?case
  proof (cases w)
    case 0
    then show ?thesis using Suc.prems by (simp add: hex_pad_small)
  next
    case (Suc v)
    have "n div 16 < 16 ^ w" using Suc.prems by (simp add: less_mult_imp_div_less mult.commute)
    then show ?thesis using Suc.IH [of "n div 16"] Suc by (simp add: hex_pad_Suc)
  qed
qed simp

lemma hex2_digits: "hex2 b = [hex_char (unat b div 16), hex_char (unat b mod 16)]"
proof -
  have "unat b div 16 < 16" using unsigned_less [of b, where ?'a = nat] by simp
  then show ?thesis
    using hex_pad_Suc [of 1 "unat b"] hex_pad_small [of "unat b div 16" 0] by (simp add: numeral_2_eq_2)
qed

lemma read_row:
  assumes "at < 65536"
  shows "read_columns (row at (hex2 a) (hex2 b) (hex2 c) (hex2 d) txt) = [a, b, c, d]"
proof -
  have "length (hex_pad 4 at) = 4" using assms by (intro length_hex_pad) simp_all
  then obtain w x y z where p: "hex_pad 4 at = [w, x, y, z]"
    by (auto simp: length_Suc_conv numeral_eq_Suc)
  have e: "16 * word_of_nat (unat v div 16) + word_of_nat (unat v mod 16) = v" for v :: u8
  proof -
    have "word_of_nat (16 * (unat v div 16) + unat v mod 16) = v"
      by (simp only: mult_div_mod_eq) simp
    then show ?thesis by (simp only: of_nat_add of_nat_mult of_nat_numeral)
  qed
  have m: "unat v mod 16 < 16" "unat v div 16 < 16" for v :: u8
    using unsigned_less [of v, where ?'a = nat] by simp_all
  show ?thesis
    by (simp add: read_columns_def row_def p hex2_digits m e)
qed

lemma hex2_zero: "hex_pad 2 0 = [48, 48]"
  using hex2_digits [of 0] by (simp add: hex_char_def)

lemma instr_line_row:
  assumes "length i = 4" and "canonical_instr i" and "instr_line cc cpool at i = Some line"
  shows "\<exists>txt. line = row at (hex2 (i ! 0)) (hex2 (i ! 1)) (hex2 (i ! 2)) (hex2 (i ! 3)) txt"
proof (cases "decode_op (i ! 0)")
  case None
  then show ?thesis using assms(3) by (auto simp: instr_line_def disasm_instr_def Let_def)
next
  case (Some op)
  then have i0: "i ! 0 = op_code op" by (simp add: decode_op_Some)
  have c: "canonical_instr i" and s: "instr_line cc cpool at i = Some line" by fact+
  note s' = s [unfolded instr_line_def disasm_instr_def Some Let_def option.case]
  note c' = c [unfolded canonical_instr_def Some option.case]
  show ?thesis
    using s' c' by (cases op; simp add: i0 hex2_zero split: if_splits option.splits; blast)
qed

section \<open>Properties\<close>

lemma length_px64_const_pool [simp]: "length (px64_const_pool bin) = 64"
  by (simp add: px64_const_pool_def Let_def)

lemma length_code_of: "length (code_of bin) = min (be16_at 6 bin) (length bin - 16)"
  by (auto simp: code_of_def min_def)

lemma be16_bound: "be16_at i b < 65536"
  using unsigned_less [of "from_be (sub_slice i 2 b) :: u16", where ?'a = nat] by (simp add: be16_at_def)

text \<open>
  The disassembler is total up to one panic. A binary without the magic is rejected; one
  with it panics exactly when its code has an LDC whose index is at least 64 and below the
  constant count of the header; otherwise the listing has the five header lines and one line
  per complete instruction, the line of instruction k showing offset 4k. The branch for the
  legacy format is never taken.
\<close>

theorem disassembler_total:
  "disassemble_px64_with_filename bin filename =
     (if \<not> has_magic bin then
        Err (simple ''ERR_BINARY_INVALID_MAGIC'' ''Invalid executable binary magic (expected PX64)'')
      else if \<exists>i \<in> set (instrs (code_of bin)). ldc_past_pool (be16_at 10 bin) i then Panic
      else Ok (px64_header_lines bin filename @
        map (\<lambda>k. the (instr_line (be16_at 10 bin) (px64_const_pool bin) (4 * k) (instrs (code_of bin) ! k)))
          [0..<min (be16_at 6 bin) (length bin - 16) div 4]))"
proof -
  have "PULSE_BIN_MAGIC = PX64_BIN_MAGIC" by (simp add: PULSE_BIN_MAGIC_def PX64_BIN_MAGIC_def)
  then show ?thesis
    by (auto simp: disassemble_px64_with_filename_def px64_listing_def px64_loop_map has_magic_def
        length_instrs length_code_of)
qed

text \<open>
  The hexadecimal columns of a listing are the code. For a binary whose code is canonical
  and a whole number of instructions, reading the columns of the instruction lines gives back
  the code bytes.
\<close>

theorem listing_round_trip:
  assumes "disassemble_px64_with_filename bin filename = Ok ls"
    and "\<forall>i \<in> set (instrs (code_of bin)). canonical_instr i"
    and "4 dvd length (code_of bin)"
  shows "concat (map read_columns (drop 5 ls)) = code_of bin"
proof -
  let ?is = "instrs (code_of bin)" and ?cc = "be16_at 10 bin" and ?cp = "px64_const_pool bin"
  have nl: "\<not> (\<exists>i \<in> set ?is. ldc_past_pool ?cc i)" and m: "has_magic bin"
    using assms(1) unfolding disassemble_px64_with_filename_def px64_listing_def
    by (auto simp: px64_loop_map PULSE_BIN_MAGIC_def PX64_BIN_MAGIC_def has_magic_def split: if_splits)
  then have ls: "drop 5 ls = map (\<lambda>k. the (instr_line ?cc ?cp (4 * k) (?is ! k))) [0..<length ?is]"
    using assms(1) by (auto simp: disassemble_px64_with_filename_def px64_listing_def px64_loop_map px64_header_lines_def)
  have "read_columns (the (instr_line ?cc ?cp (4 * k) (?is ! k))) = ?is ! k" if k: "k < length ?is" for k
  proof -
    have i: "?is ! k \<in> set ?is" using k by simp
    have l4: "length (?is ! k) = 4" using i length_of_instrs by blast
    obtain line where line: "instr_line ?cc ?cp (4 * k) (?is ! k) = Some line"
      using nl i l4 instr_line_None [of ?cp "?is ! k" ?cc "4 * k"] by auto
    have "4 * k < 65536"
      using k be16_bound [of 6 bin] by (simp add: length_instrs length_code_of)
    then show ?thesis
      using instr_line_row [OF l4 _ line] assms(2) i read_row l4 by (auto simp: line nth_four)
  qed
  then have "map read_columns (drop 5 ls) = ?is"
    unfolding ls by (intro nth_equalityI) simp_all
  then show ?thesis using concat_instrs [OF assms(3)] by simp
qed

text \<open>A binary with the code MOV $rax, 7; HALT and no pools.\<close>

definition demo_bin :: "u8 list" where
  "demo_bin = header_bytes 8 0 0 @ [1, 0, 0, 7, 22, 0, 0, 0]"

theorem listing_round_trip_witness:
  "\<exists>ls. disassemble_px64_with_filename demo_bin (bytes ''demo'') = Ok ls \<and>
     concat (map read_columns (drop 5 ls)) = [1, 0, 0, 7, 22, 0, 0, 0]"
proof -
  have d: "decode_op 1 = Some PX64_OP_MOV_IMM" "decode_op 22 = Some PX64_OP_HALT"
    by (simp_all add: decode_op_Some)
  have l: "be16_at 6 demo_bin = 8" "be16_at 10 demo_bin = 0"
    by (simp_all add: demo_bin_def be16_at_def header_fields byte_simps)
  have e: "4 dvd length [1, 0, 0, 7, 22, 0, 0, 0 :: u8]" by simp presburger
  have m: "has_magic demo_bin" by (simp add: demo_bin_def has_magic_def header_fields)
  have c: "code_of demo_bin = [1, 0, 0, 7, 22, 0, 0, 0]"
    unfolding code_of_def l by (simp add: demo_bin_def)
  obtain ls where ls: "disassemble_px64_with_filename demo_bin (bytes ''demo'') = Ok ls"
    by (simp add: disassemble_px64_with_filename_def m px64_listing_def px64_loop_map l c ldc_past_pool_def
        del: px64_loop.simps)
  moreover have "concat (map read_columns (drop 5 ls)) = code_of demo_bin"
    using listing_round_trip [OF ls] e by (simp add: c canonical_instr_def d del: list.size)
  ultimately show ?thesis by (simp add: c)
qed

end
