(* ===== verification/Include.thy ===== *)
theory Include
  imports Token
begin

text \<open>
  The include preprocessor (\<^verbatim>\<open>pulselang-core/src/include.rs\<close>): it copies a source text
  and replaces every \<^verbatim>\<open>@include "path";\<close> by the expansion of the file. The resolver that
  loads a file is a parameter and may change a state of type \<^typ>\<open>'w\<close>. The theorems show
  what a text without directive becomes, and exactly when an expansion succeeds, in terms of
  the chains of files that include one another.
\<close>

section \<open>Directives\<close>

definition blank :: "u8 \<Rightarrow> bool" where
  "blank b \<longleftrightarrow> b = 32 \<or> b = 9"

text \<open>
  The directive at the head of a text: its path and the text after it. \<^term>\<open>None\<close> when the
  head is not \<^verbatim>\<open>@include\<close>, or lacks an opening or a closing quote on the same line.
\<close>

definition read_directive :: "str \<Rightarrow> (str \<times> str) option" where
  "read_directive s =
     (if starts_with s (bytes ''@include'') then
        (case dropWhile blank (drop 8 s) of
           [] \<Rightarrow> None
         | q # r \<Rightarrow>
             if q = 34 then
               (let inc_path = takeWhile (\<lambda>b. b \<noteq> 34 \<and> b \<noteq> 10 \<and> b \<noteq> 13) r
                in case drop (length inc_path) r of
                     [] \<Rightarrow> None
                   | c # r2 \<Rightarrow>
                       if c = 34 then
                         (let r3 = dropWhile blank r2
                          in Some (inc_path, case r3 of [] \<Rightarrow> [] | e # r4 \<Rightarrow> if e = 59 then r4 else r3))
                       else None)
             else None)
      else None)"

lemma length_directive:
  assumes "read_directive s = Some (p, rest)"
  shows "length rest < length s"
proof -
  have dw: "length (dropWhile blank xs) \<le> length xs" for xs by (rule length_dropWhile_le)
  from assms obtain q r where r: "dropWhile blank (drop 8 s) = q # r"
    and d: "(let inc_path = takeWhile (\<lambda>b. b \<noteq> 34 \<and> b \<noteq> 10 \<and> b \<noteq> 13) r
       in case drop (length inc_path) r of [] \<Rightarrow> None
          | c # r2 \<Rightarrow> if c = 34 then (let r3 = dropWhile blank r2
               in Some (inc_path, case r3 of [] \<Rightarrow> [] | e # r4 \<Rightarrow> if e = 59 then r4 else r3)) else None)
       = Some (p, rest)"
    by (auto simp: read_directive_def split: if_splits list.splits)
  have s: "length r < length s"
    using dw [of "drop 8 s"] r by simp
  from d obtain c r2 where r2: "drop (length p) r = c # r2"
    and rest: "length rest \<le> length (dropWhile blank r2)"
    by (auto simp: Let_def split: if_splits list.splits)
  have "length r2 < length r" using arg_cong [OF r2, of length] by simp
  with s rest dw [of r2] show ?thesis by simp
qed

section \<open>Expansion\<close>

abbreviation (input) MAX_INCLUDE_DEPTH :: nat where
  "MAX_INCLUDE_DEPTH \<equiv> 8"

definition max_depth_error :: CompileError where
  "max_depth_error =
     simple ''ERR_MAX_INCLUDE_DEPTH'' ''Maximum @include depth exceeded (max 8 levels limit reached)''"

definition circular_error :: CompileError where
  "circular_error = simple ''ERR_CIRCULAR_INCLUDE'' ''Circular @include dependency detected in script''"

definition not_found_error :: CompileError where
  "not_found_error =
     simple ''ERR_INCLUDE_NOT_FOUND'' ''Included file could not be found or loaded by resolver''"

text \<open>\<^verbatim>\<open>result.push(bytes[i] as char)\<close>: the byte becomes the character with that number, stored in UTF-8.\<close>

definition push_byte :: "u8 \<Rightarrow> str" where
  "push_byte b = (if b < 128 then [b] else [0xC0 OR drop_bit 6 b, 0x80 OR (b AND 0x3F)])"

definition newline_after :: "str \<Rightarrow> str" where
  "newline_after s = (if ends_with s [10] then [] else [10])"

text \<open>
  The loop of \<^verbatim>\<open>preprocess_recursive\<close> on the rest of the text, with the call of itself for an
  included file. The call checks the depth first; the file name is on the call stack while the
  file is expanded.
\<close>

function include_loop ::
  "('w \<Rightarrow> str \<Rightarrow> str option \<times> 'w) \<Rightarrow> nat \<Rightarrow> str list \<Rightarrow> str \<Rightarrow> str \<Rightarrow> 'w \<Rightarrow> (CompileError + str) \<times> 'w" where
  "include_loop resolver depth call_stack [] result w = (Inr result, w)"
| "include_loop resolver depth call_stack (b # bs) result w =
     (case read_directive (b # bs) of
        None \<Rightarrow> include_loop resolver depth call_stack bs (result @ push_byte b) w
      | Some (inc_path, rest) \<Rightarrow>
          if inc_path \<in> set call_stack then (Inl circular_error, w)
          else (case resolver w inc_path of
              (None, w1) \<Rightarrow> (Inl not_found_error, w1)
            | (Some inc_content, w1) \<Rightarrow>
                if MAX_INCLUDE_DEPTH < depth + 1 then (Inl max_depth_error, w1)
                else (case include_loop resolver (depth + 1) (call_stack @ [inc_path]) inc_content [] w1 of
                    (Inl e, w2) \<Rightarrow> (Inl e, w2)
                  | (Inr expanded_child, w2) \<Rightarrow>
                      include_loop resolver depth call_stack rest
                        (result @ expanded_child @ newline_after expanded_child) w2)))"
  by pat_completeness auto
termination
  by (relation "measures [\<lambda>(_, depth, _). 9 - depth, \<lambda>(_, _, _, s, _). length s]")
     (use length_directive in \<open>fastforce+\<close>)

definition preprocess_recursive ::
  "('w \<Rightarrow> str \<Rightarrow> str option \<times> 'w) \<Rightarrow> str \<Rightarrow> str \<Rightarrow> str list \<Rightarrow> nat \<Rightarrow> 'w \<Rightarrow> (CompileError + str) \<times> 'w" where
  "preprocess_recursive resolver src current_file call_stack depth w =
     (if MAX_INCLUDE_DEPTH < depth then (Inl max_depth_error, w)
      else include_loop resolver depth (call_stack @ [current_file]) src [] w)"

definition root_name :: str where
  "root_name = bytes ''<root>''"

definition preprocess_includes ::
  "('w \<Rightarrow> str \<Rightarrow> str option \<times> 'w) \<Rightarrow> str \<Rightarrow> 'w \<Rightarrow> (CompileError + str) \<times> 'w" where
  "preprocess_includes resolver root_src w = preprocess_recursive resolver root_src root_name [] 0 w"

text \<open>The included file is handled by \<^verbatim>\<open>preprocess_recursive\<close>, one level deeper.\<close>

lemma include_loop_child:
  assumes "read_directive (b # bs) = Some (p, rest)" and "p \<notin> set st" and "res w p = (Some c, w1)"
  shows "include_loop res d st (b # bs) acc w =
    (case preprocess_recursive res c p st (d + 1) w1 of
       (Inl e, w2) \<Rightarrow> (Inl e, w2)
     | (Inr x, w2) \<Rightarrow> include_loop res d st rest (acc @ x @ newline_after x) w2)"
  using assms by (simp add: preprocess_recursive_def)

section \<open>Include chains\<close>

text \<open>The paths of the directives of a text, in order.\<close>

function included :: "str \<Rightarrow> str list" where
  "included [] = []"
| "included (b # bs) =
     (case read_directive (b # bs) of None \<Rightarrow> included bs | Some (p, rest) \<Rightarrow> p # included rest)"
  by pat_completeness auto
termination
  by (relation "measure length") (use length_directive in \<open>fastforce+\<close>)

text \<open>
  \<^term>\<open>include_chain files s ps\<close>: the text \<^term>\<open>s\<close> includes the first file of \<^term>\<open>ps\<close>, which
  includes the second, and so on; every file but perhaps the last can be loaded.
\<close>

inductive include_chain :: "(str \<Rightarrow> str option) \<Rightarrow> str \<Rightarrow> str list \<Rightarrow> bool" for files where
  direct: "p \<in> set (included s) \<Longrightarrow> include_chain files s [p]"
| nested: "p \<in> set (included s) \<Longrightarrow> files p = Some c \<Longrightarrow> include_chain files c ps \<Longrightarrow> include_chain files s (p # ps)"

inductive_cases include_chain_cases: "include_chain files s ps"

text \<open>What a chain may look like below a file at some depth with a call stack.\<close>

definition chain_ok :: "(str \<Rightarrow> str option) \<Rightarrow> nat \<Rightarrow> str list \<Rightarrow> str list \<Rightarrow> bool" where
  "chain_ok files d st ps \<longleftrightarrow>
     distinct ps \<and> set ps \<inter> set st = {} \<and> d + length ps \<le> MAX_INCLUDE_DEPTH \<and> files (last ps) \<noteq> None"

definition chains_ok :: "(str \<Rightarrow> str option) \<Rightarrow> nat \<Rightarrow> str list \<Rightarrow> str \<Rightarrow> bool" where
  "chains_ok files d st s \<longleftrightarrow> (\<forall>ps. include_chain files s ps \<longrightarrow> chain_ok files d st ps)"

abbreviation pure_resolver :: "(str \<Rightarrow> str option) \<Rightarrow> unit \<Rightarrow> str \<Rightarrow> str option \<times> unit" where
  "pure_resolver files \<equiv> \<lambda>w p. (files p, w)"

lemma chain_not_Nil [simp]: "\<not> include_chain files s []"
  by (auto elim: include_chain_cases)

lemma chain_Cons:
  "include_chain files s (p # ps) \<longleftrightarrow>
     p \<in> set (included s) \<and> (ps = [] \<or> (\<exists>c. files p = Some c \<and> include_chain files c ps))"
  by (auto elim: include_chain_cases intro: include_chain.intros)

lemma chains_ok_Nil: "chains_ok files d st []"
  by (auto simp: chains_ok_def elim: include_chain_cases)

lemma chains_ok_plain:
  "read_directive (b # bs) = None \<Longrightarrow> chains_ok files d st (b # bs) = chains_ok files d st bs"
proof -
  assume "read_directive (b # bs) = None"
  then have "include_chain files (b # bs) ps = include_chain files bs ps" for ps
    by (cases ps) (simp_all add: chain_Cons)
  then show ?thesis by (simp add: chains_ok_def)
qed

text \<open>A directive is fine when the file may be entered, its chains are fine below it, and the rest is fine.\<close>

lemma chains_ok_directive:
  assumes "read_directive (b # bs) = Some (p, rest)"
  shows "chains_ok files d st (b # bs) \<longleftrightarrow>
    p \<notin> set st \<and> d < MAX_INCLUDE_DEPTH \<and>
    (\<exists>c. files p = Some c \<and> chains_ok files (d + 1) (st @ [p]) c) \<and> chains_ok files d st rest"
proof -
  have inc: "included (b # bs) = p # included rest" using assms by simp
  have split: "include_chain files (b # bs) ps \<longleftrightarrow>
      ps = [p] \<or> (\<exists>c qs. ps = p # qs \<and> files p = Some c \<and> include_chain files c qs) \<or> include_chain files rest ps" for ps
    by (cases ps) (auto simp: chain_Cons inc simp del: included.simps)
  have "chains_ok files d st (b # bs) \<longleftrightarrow> chain_ok files d st [p] \<and>
      (\<forall>c. files p = Some c \<longrightarrow> (\<forall>qs. include_chain files c qs \<longrightarrow> chain_ok files d st (p # qs))) \<and>
      chains_ok files d st rest"
    unfolding chains_ok_def split by blast
  moreover have "chain_ok files d st (p # qs) \<longleftrightarrow> p \<notin> set st \<and> chain_ok files (d + 1) (st @ [p]) qs"
    if "include_chain files c qs" for c qs
  proof -
    have "qs \<noteq> []" using that by auto
    then show ?thesis by (auto simp: chain_ok_def)
  qed
  moreover have "chain_ok files d st [p] \<longleftrightarrow> p \<notin> set st \<and> d < MAX_INCLUDE_DEPTH \<and> files p \<noteq> None"
    by (auto simp: chain_ok_def)
  ultimately show ?thesis unfolding chains_ok_def by auto
qed

text \<open>The loop succeeds exactly when all chains of the rest of the text are fine.\<close>

lemma include_loop_success:
  "(\<exists>out. fst (include_loop (pure_resolver files) d st s acc w) = Inr out) \<longleftrightarrow> chains_ok files d st s"
proof (induction "pure_resolver files" d st s acc w rule: include_loop.induct)
  case (2 d st b bs acc w)
  show ?case
  proof (cases "read_directive (b # bs)")
    case None
    then show ?thesis using 2(1) by (simp add: chains_ok_plain)
  next
    case (Some pr)
    obtain p rest where d: "read_directive (b # bs) = Some (p, rest)" using Some by (cases pr) simp
    consider "p \<in> set st" | "files p = None" | "8 \<le> d"
      | c where "p \<notin> set st" "files p = Some c" "d < 8" by force
    then show ?thesis
    proof cases
      case 4
      note IH = 2(2-3) [OF d refl 4(1), of "Some c" "()" c]
      show ?thesis
      proof (cases "include_loop (pure_resolver files) (d + 1) (st @ [p]) c [] ()")
        case (Pair r w2)
        show ?thesis
          using IH 4 Pair unfolding chains_ok_directive [OF d]
          by (cases r) (auto simp: d)
      qed
    qed (auto simp: chains_ok_directive [OF d] d split: option.splits)
  qed
qed (simp add: chains_ok_Nil)

section \<open>Text without directives\<close>

lemma include_loop_plain:
  "included s = [] \<Longrightarrow> include_loop res d st s acc w = (Inr (acc @ concat (map push_byte s)), w)"
proof (induction s arbitrary: acc)
  case (Cons b bs)
  then have "read_directive (b # bs) = None" and "included bs = []"
    by (auto split: option.splits)
  with Cons show ?case by simp
qed simp

lemma push_byte_eq: "push_byte b = [b] \<longleftrightarrow> b < 128"
  by (simp add: push_byte_def)

lemma length_push_byte: "length (push_byte b) = (if b < 128 then 1 else 2)"
  by (simp add: push_byte_def)

lemma length_pushed: "length s \<le> length (concat (map push_byte s))"
  by (induction s) (auto simp: length_push_byte)

lemma pushed_eq: "concat (map push_byte s) = s \<longleftrightarrow> is_ascii s"
proof (induction s)
  case (Cons b bs)
  show ?case
  proof (cases "b < 128")
    case True
    then show ?thesis using Cons by (simp add: push_byte_def is_ascii_def)
  next
    case False
    have "length (concat (map push_byte (b # bs))) > length (b # bs)"
      using length_pushed [of bs] False by (simp add: length_push_byte)
    then have "concat (map push_byte (b # bs)) \<noteq> b # bs" by (metis less_irrefl)
    with False show ?thesis by (simp add: is_ascii_def)
  qed
qed (simp add: is_ascii_def)

section \<open>Properties\<close>

text \<open>
  C40: When an expansion succeeds. With a resolver that is a fixed set of files, the
  preprocessor returns a text exactly when every chain of includes that starts in the root
  text names each file once and never the root, has at most eight files, and ends in a file
  that can be loaded. In particular it returns on every input, and every cycle is an error.
\<close>

theorem include_success_iff:
  "(\<exists>out. preprocess_includes (pure_resolver files) src () = (Inr out, ())) \<longleftrightarrow>
   (\<forall>ps. include_chain files src ps \<longrightarrow>
      distinct (root_name # ps) \<and> length ps \<le> 8 \<and> files (last ps) \<noteq> None)"
proof -
  have "(\<exists>out. preprocess_includes (pure_resolver files) src () = (Inr out, ())) \<longleftrightarrow>
      (\<exists>out. fst (include_loop (pure_resolver files) 0 [root_name] src [] ()) = Inr out)"
    by (simp add: preprocess_includes_def preprocess_recursive_def prod_eq_iff)
  also have "\<dots> \<longleftrightarrow> chains_ok files 0 [root_name] src" by (rule include_loop_success)
  finally show ?thesis by (auto simp: chains_ok_def chain_ok_def)
qed

text \<open>A root text with one include of a file that includes nothing.\<close>

definition demo_files :: "str \<Rightarrow> str option" where
  "demo_files = [bytes ''a'' \<mapsto> bytes ''x'']"

definition demo_root :: str where
  "demo_root = bytes ''@include'' @ [32, 34, 97, 34, 59, 121]"

lemma demo_included: "included demo_root = [bytes ''a'']" "included (bytes ''x'') = []"
  by code_simp+

theorem include_success_iff_witness:
  "\<exists>out. preprocess_includes (pure_resolver demo_files) demo_root () = (Inr out, ())"
proof (rule include_success_iff [THEN iffD2], intro allI impI)
  fix ps assume "include_chain demo_files demo_root ps"
  moreover have "\<not> include_chain demo_files (bytes ''x'') qs" for qs
    by (cases qs) (simp_all only: chain_Cons chain_not_Nil demo_included list.set empty_iff simp_thms)
  ultimately have "ps = [bytes ''a'']"
    by (cases ps) (auto simp: chain_Cons demo_included demo_files_def split: if_splits)
  then show "distinct (root_name # ps) \<and> length ps \<le> 8 \<and> demo_files (last ps) \<noteq> None"
    by (simp add: demo_files_def root_name_def)
qed

text \<open>
  A text without a directive. The resolver is not called and every byte is copied as the
  character of that number, so the text comes back unchanged exactly when it is ASCII; any
  other UTF-8 text is corrupted.
\<close>

theorem plain_text_copied:
  assumes "included src = []"
  shows "preprocess_includes res src w = (Inr (concat (map push_byte src)), w) \<and>
    (preprocess_includes res src w = (Inr src, w) \<longleftrightarrow> is_ascii src)"
  using include_loop_plain [OF assms, of res 0 "[root_name]" "[]" w] pushed_eq [of src]
  by (simp add: preprocess_includes_def preprocess_recursive_def)

theorem plain_text_copied_witness:
  "preprocess_includes (pure_resolver demo_files) [0xC3, 0xA9] () = (Inr [0xC3, 0x83, 0xC2, 0xA9], ()) \<and>
   utf8_valid [0xC3, 0xA9]"
proof -
  have "included [0xC3, 0xA9] = []" by code_simp
  moreover have "concat (map push_byte [0xC3, 0xA9]) = [0xC3, 0x83, 0xC2, 0xA9]" "utf8_valid [0xC3, 0xA9]"
    by code_simp+
  ultimately show ?thesis using plain_text_copied [of "[0xC3, 0xA9]"] by metis
qed

end
