(* ===== verification/Ir.thy ===== *)
theory Ir
  imports Lexer
begin

text \<open>
  The semantic intent representation (\<^verbatim>\<open>pulselang-core/src/ir.rs\<close>): pipelines, tasks and
  functions read from the token stream, the constraints synthesized from them, the semantic
  difference of two representations, the inspect and why reports, and their JSON and text
  forms. Unchecked 64-bit arithmetic wraps in a release build and panics in a build with
  overflow checks, which the flag \<open>checked\<close> selects. Record fields carry a prefix of their
  structure (\<open>sg\<close> stage, \<open>pl\<close> pipeline, \<open>tk\<close> task, \<open>fi\<close> function, \<open>ct\<close> constraint).
\<close>

section \<open>Data\<close>

datatype MemoryDomain = Cpu | GpuVram | PmdDma

primrec MemoryDomain_as_str :: "MemoryDomain \<Rightarrow> string" where
  "MemoryDomain_as_str Cpu = ''cpu-resident''"
| "MemoryDomain_as_str GpuVram = ''gpu-resident''"
| "MemoryDomain_as_str PmdDma = ''pmd-dma-resident''"

record StageIr =
  sg_name :: str
  sg_core :: u8
  sg_budget_ns :: u64
  sg_wcet_ns :: u64
  sg_zero_copy :: bool
  sg_input :: "str option"
  sg_output :: "str option"
  sg_hardware :: "str option"
  sg_memory_domain :: MemoryDomain

record PipelineIr =
  pl_name :: str
  pl_stages :: "StageIr list"
  pl_total_budget_ns :: u64
  pl_total_wcet_ns :: u64
  pl_valid :: bool

record TaskIr =
  tk_name :: str
  tk_core :: "u8 option"
  tk_budget_ns :: "u64 option"
  tk_wcet_ns :: u64
  tk_zero_copy :: bool
  tk_inputs :: "str list"
  tk_outputs :: "str list"
  tk_memory_domain :: MemoryDomain

record FunctionIr =
  fi_name :: str
  fi_params :: "str list"
  fi_return_type :: str
  fi_declared_wcet_ns :: "u64 option"
  fi_estimated_wcet_ns :: u64
  fi_has_precondition :: bool
  fi_has_postcondition :: bool

record ConstraintIr =
  ct_target :: str
  ct_kind :: str
  ct_required :: str
  ct_provided :: str
  ct_satisfied :: bool
  ct_reason :: str

record VerificationSummary =
  vs_status :: str
  vs_total_constraints :: nat
  vs_satisfied_constraints :: nat
  vs_pipeline_deadline_met :: bool
  vs_zero_copy_verified :: bool

record IntentIr =
  ir_version :: str
  ir_module_name :: str
  ir_pipelines :: "PipelineIr list"
  ir_tasks :: "TaskIr list"
  ir_functions :: "FunctionIr list"
  ir_constraints :: "ConstraintIr list"
  ir_verification :: VerificationSummary

section \<open>Text and JSON building blocks\<close>

fun escape_json :: "str \<Rightarrow> str" where
  "escape_json [] = []"
| "escape_json (c # s) =
     (if c = 34 then [92, 34]
      else if c = 92 then [92, 92]
      else if c = 10 then [92, 110]
      else if c = 13 then [92, 114]
      else if c = 9 then [92, 116]
      else [c]) @ escape_json s"

text \<open>\<^verbatim>\<open>xs.join(",")\<close>.\<close>

fun join :: "str \<Rightarrow> str list \<Rightarrow> str" where
  "join sep [] = []"
| "join sep [x] = x"
| "join sep (x # y # xs) = x @ sep @ join sep (y # xs)"

definition show_u64 :: "u64 \<Rightarrow> str" where
  "show_u64 v = dec_nat (unat v)"

definition show_u8 :: "u8 \<Rightarrow> str" where
  "show_u8 v = dec_nat (unat v)"

definition show_bool :: "bool \<Rightarrow> str" where
  "show_bool b = bytes (if b then ''true'' else ''false'')"

text \<open>\<^verbatim>\<open>"name":value\<close>, \<^verbatim>\<open>{...}\<close>, \<^verbatim>\<open>[...]\<close>, \<^verbatim>\<open>"raw"\<close>, an escaped string and an optional value.\<close>

definition raw_string :: "str \<Rightarrow> str" where
  "raw_string s = 34 # s @ [34]"

definition json_string :: "str \<Rightarrow> str" where
  "json_string s = raw_string (escape_json s)"

definition json_field :: "string \<Rightarrow> str \<Rightarrow> str" where
  "json_field k v = raw_string (bytes k) @ 58 # v"

definition json_object :: "str list \<Rightarrow> str" where
  "json_object fs = 123 # join [44] fs @ [125]"

definition json_array :: "str list \<Rightarrow> str" where
  "json_array vs = 91 # join [44] vs @ [93]"

definition json_option :: "('a \<Rightarrow> str) \<Rightarrow> 'a option \<Rightarrow> str" where
  "json_option f v = (case v of Some x \<Rightarrow> f x | None \<Rightarrow> bytes ''null'')"

section \<open>JSON form of the representation\<close>

definition stage_json :: "StageIr \<Rightarrow> str" where
  "stage_json s = json_object
     [json_field ''name'' (json_string (sg_name s)),
      json_field ''core'' (show_u8 (sg_core s)),
      json_field ''budget_ns'' (show_u64 (sg_budget_ns s)),
      json_field ''wcet_ns'' (show_u64 (sg_wcet_ns s)),
      json_field ''zero_copy'' (show_bool (sg_zero_copy s)),
      json_field ''input'' (json_option json_string (sg_input s)),
      json_field ''output'' (json_option json_string (sg_output s)),
      json_field ''hardware'' (json_option json_string (sg_hardware s)),
      json_field ''domain'' (raw_string (bytes (MemoryDomain_as_str (sg_memory_domain s))))]"

definition pipeline_json :: "PipelineIr \<Rightarrow> str" where
  "pipeline_json p = json_object
     [json_field ''name'' (json_string (pl_name p)),
      json_field ''total_budget_ns'' (show_u64 (pl_total_budget_ns p)),
      json_field ''total_wcet_ns'' (show_u64 (pl_total_wcet_ns p)),
      json_field ''valid'' (show_bool (pl_valid p)),
      json_field ''stages'' (json_array (map stage_json (pl_stages p)))]"

definition task_json :: "TaskIr \<Rightarrow> str" where
  "task_json t = json_object
     [json_field ''name'' (json_string (tk_name t)),
      json_field ''core'' (json_option show_u8 (tk_core t)),
      json_field ''budget_ns'' (json_option show_u64 (tk_budget_ns t)),
      json_field ''wcet_ns'' (show_u64 (tk_wcet_ns t)),
      json_field ''zero_copy'' (show_bool (tk_zero_copy t)),
      json_field ''inputs'' (json_array (map json_string (tk_inputs t))),
      json_field ''outputs'' (json_array (map json_string (tk_outputs t))),
      json_field ''domain'' (raw_string (bytes (MemoryDomain_as_str (tk_memory_domain t))))]"

definition function_json :: "FunctionIr \<Rightarrow> str" where
  "function_json f = json_object
     [json_field ''name'' (json_string (fi_name f)),
      json_field ''params'' (json_array (map json_string (fi_params f))),
      json_field ''return_type'' (json_string (fi_return_type f)),
      json_field ''declared_wcet_ns'' (json_option show_u64 (fi_declared_wcet_ns f)),
      json_field ''estimated_wcet_ns'' (show_u64 (fi_estimated_wcet_ns f)),
      json_field ''has_precondition'' (show_bool (fi_has_precondition f)),
      json_field ''has_postcondition'' (show_bool (fi_has_postcondition f))]"

definition constraint_json :: "ConstraintIr \<Rightarrow> str" where
  "constraint_json c = json_object
     [json_field ''target'' (json_string (ct_target c)),
      json_field ''kind'' (json_string (ct_kind c)),
      json_field ''required'' (json_string (ct_required c)),
      json_field ''provided'' (json_string (ct_provided c)),
      json_field ''satisfied'' (show_bool (ct_satisfied c)),
      json_field ''reason'' (json_string (ct_reason c))]"

definition IntentIr_to_json :: "IntentIr \<Rightarrow> str" where
  "IntentIr_to_json r = json_object
     [json_field ''version'' (raw_string (ir_version r)),
      json_field ''module'' (json_string (ir_module_name r)),
      json_field ''pipelines'' (json_array (map pipeline_json (ir_pipelines r))),
      json_field ''tasks'' (json_array (map task_json (ir_tasks r))),
      json_field ''functions'' (json_array (map function_json (ir_functions r))),
      json_field ''constraints'' (json_array (map constraint_json (ir_constraints r))),
      json_field ''verification'' (json_object
        [json_field ''status'' (raw_string (vs_status (ir_verification r))),
         json_field ''total_constraints'' (dec_nat (vs_total_constraints (ir_verification r))),
         json_field ''satisfied_constraints'' (dec_nat (vs_satisfied_constraints (ir_verification r))),
         json_field ''pipeline_deadline_met'' (show_bool (vs_pipeline_deadline_met (ir_verification r))),
         json_field ''zero_copy_verified'' (show_bool (vs_zero_copy_verified (ir_verification r)))])]"

section \<open>Semantic difference\<close>

record SemanticDiffItem =
  di_entity :: str
  di_field :: str
  di_before :: str
  di_after :: str

record SemanticDiffReport =
  dr_changes :: "SemanticDiffItem list"
  dr_verification_before :: str
  dr_verification_after :: str

definition diff_item :: "str \<Rightarrow> string \<Rightarrow> str \<Rightarrow> str \<Rightarrow> SemanticDiffItem" where
  "diff_item e f b a = \<lparr>di_entity = e, di_field = bytes f, di_before = b, di_after = a\<rparr>"

definition show_ns :: "u64 \<Rightarrow> str" where
  "show_ns v = show_u64 v @ bytes ''ns''"

definition show_none :: "('a \<Rightarrow> str) \<Rightarrow> 'a option \<Rightarrow> str" where
  "show_none f v = (case v of Some x \<Rightarrow> f x | None \<Rightarrow> bytes ''none'')"

definition path_name :: "str \<Rightarrow> str \<Rightarrow> str" where
  "path_name a b = a @ bytes ''::'' @ b"

definition stage_diff :: "str \<Rightarrow> StageIr list \<Rightarrow> StageIr \<Rightarrow> SemanticDiffItem list" where
  "stage_diff pname stages_a sb =
     (let e = path_name pname (sg_name sb)
      in case find (\<lambda>s. sg_name s = sg_name sb) stages_a of
        Some sa \<Rightarrow>
          (if sg_core sa \<noteq> sg_core sb then [diff_item e ''core'' (show_u8 (sg_core sa)) (show_u8 (sg_core sb))] else []) @
          (if sg_budget_ns sa \<noteq> sg_budget_ns sb
           then [diff_item e ''budget_ns'' (show_ns (sg_budget_ns sa)) (show_ns (sg_budget_ns sb))] else []) @
          (if sg_zero_copy sa \<noteq> sg_zero_copy sb
           then [diff_item e ''zero_copy'' (show_bool (sg_zero_copy sa)) (show_bool (sg_zero_copy sb))] else [])
      | None \<Rightarrow> [diff_item e ''stage'' (bytes ''none'') (bytes ''added'')])"

definition pipeline_diff :: "PipelineIr list \<Rightarrow> PipelineIr \<Rightarrow> SemanticDiffItem list" where
  "pipeline_diff pipelines_a pb =
     (let e = path_name (bytes ''pipeline'') (pl_name pb)
      in case find (\<lambda>p. pl_name p = pl_name pb) pipelines_a of
        Some pa \<Rightarrow>
          (if pl_total_budget_ns pa \<noteq> pl_total_budget_ns pb
           then [diff_item e ''budget_ns'' (show_ns (pl_total_budget_ns pa)) (show_ns (pl_total_budget_ns pb))] else []) @
          concat (map (stage_diff (pl_name pb) (pl_stages pa)) (pl_stages pb))
      | None \<Rightarrow> [diff_item e ''pipeline'' (bytes ''none'') (bytes ''added'')])"

definition task_diff :: "TaskIr list \<Rightarrow> TaskIr \<Rightarrow> SemanticDiffItem list" where
  "task_diff tasks_a tb =
     (let e = path_name (bytes ''task'') (tk_name tb)
      in case find (\<lambda>t. tk_name t = tk_name tb) tasks_a of
        Some ta \<Rightarrow>
          (if tk_core ta \<noteq> tk_core tb
           then [diff_item e ''core'' (show_none show_u8 (tk_core ta)) (show_none show_u8 (tk_core tb))] else []) @
          (if tk_budget_ns ta \<noteq> tk_budget_ns tb
           then [diff_item e ''budget_ns'' (show_none show_ns (tk_budget_ns ta)) (show_none show_ns (tk_budget_ns tb))] else [])
      | None \<Rightarrow> [diff_item e ''task'' (bytes ''none'') (bytes ''added'')])"

definition function_diff :: "FunctionIr list \<Rightarrow> FunctionIr \<Rightarrow> SemanticDiffItem list" where
  "function_diff functions_a fb =
     (case find (\<lambda>f. fi_name f = fi_name fb) functions_a of
        Some fa \<Rightarrow>
          if fi_estimated_wcet_ns fa \<noteq> fi_estimated_wcet_ns fb
          then [diff_item (path_name (bytes ''fn'') (fi_name fb)) ''wcet_ns''
                  (show_ns (fi_estimated_wcet_ns fa)) (show_ns (fi_estimated_wcet_ns fb))] else []
      | None \<Rightarrow> [])"

definition semantic_diff :: "IntentIr \<Rightarrow> IntentIr \<Rightarrow> SemanticDiffReport" where
  "semantic_diff a b =
     \<lparr>dr_changes =
        concat (map (pipeline_diff (ir_pipelines a)) (ir_pipelines b)) @
        concat (map (task_diff (ir_tasks a)) (ir_tasks b)) @
        concat (map (function_diff (ir_functions a)) (ir_functions b)),
      dr_verification_before = vs_status (ir_verification a),
      dr_verification_after = vs_status (ir_verification b)\<rparr>"

definition SemanticDiffReport_to_text :: "SemanticDiffReport \<Rightarrow> str" where
  "SemanticDiffReport_to_text r =
     bytes ''=== PulseLang Semantic Diff ==='' @ [10] @
     (if dr_changes r = [] then bytes ''No semantic or constraint changes detected.'' @ [10]
      else bytes ''Semantic Changes:'' @ [10] @
        concat (map (\<lambda>c. bytes ''  '' @ di_entity c @ bytes ''.'' @ di_field c @ bytes '': '' @ di_before c @
                         bytes '' -> '' @ di_after c @ [10]) (dr_changes r))) @
     [10] @ bytes ''Verification Impact:'' @ [10] @
     bytes ''  Before: '' @ dr_verification_before r @ [10] @
     bytes ''  After:  '' @ dr_verification_after r @ [10]"

definition diff_item_json :: "SemanticDiffItem \<Rightarrow> str" where
  "diff_item_json c = json_object
     [json_field ''entity'' (json_string (di_entity c)),
      json_field ''field'' (json_string (di_field c)),
      json_field ''before'' (json_string (di_before c)),
      json_field ''after'' (json_string (di_after c))]"

definition SemanticDiffReport_to_json :: "SemanticDiffReport \<Rightarrow> str" where
  "SemanticDiffReport_to_json r = json_object
     [json_field ''changes'' (json_array (map diff_item_json (dr_changes r))),
      json_field ''verification'' (json_object
        [json_field ''before'' (json_string (dr_verification_before r)),
         json_field ''after'' (json_string (dr_verification_after r))])]"

section \<open>Inspect and why\<close>

record InspectReport =
  ins_symbol :: str
  ins_entity_kind :: str
  ins_typestate :: str
  ins_core_affinity :: "u8 option"
  ins_budget_ns :: "u64 option"
  ins_wcet_ns :: u64
  ins_domain :: str
  ins_zero_copy :: bool

text \<open>\<^term>\<open>fmt_ms\<close> is the floating-point rendering \<^verbatim>\<open>{:.2}\<close> of the budget in milliseconds.\<close>

definition InspectReport_to_text :: "(u64 \<Rightarrow> str) \<Rightarrow> InspectReport \<Rightarrow> str" where
  "InspectReport_to_text fmt_ms r =
     bytes ''=== Inspect: '' @ ins_symbol r @ bytes '' ==='' @ [10] @
     bytes ''  Kind:          '' @ ins_entity_kind r @ [10] @
     bytes ''  Typestate:     '' @ ins_typestate r @ [10] @
     (case ins_core_affinity r of Some c \<Rightarrow> bytes ''  Core Affinity: Core '' @ show_u8 c @ [10] | None \<Rightarrow> []) @
     (case ins_budget_ns r of
        Some b \<Rightarrow> bytes ''  Budget:        '' @ show_u64 b @ bytes '' ns ('' @ fmt_ms b @ bytes '' ms)'' @ [10]
      | None \<Rightarrow> []) @
     bytes ''  WCET (est.):   '' @ show_u64 (ins_wcet_ns r) @ bytes '' ns'' @ [10] @
     bytes ''  Memory Domain: '' @ ins_domain r @ [10] @
     bytes ''  Zero-Copy:     '' @ bytes (if ins_zero_copy r then ''YES'' else ''NO'') @ [10]"

definition InspectReport_to_json :: "InspectReport \<Rightarrow> str" where
  "InspectReport_to_json r = json_object
     [json_field ''symbol'' (json_string (ins_symbol r)),
      json_field ''kind'' (json_string (ins_entity_kind r)),
      json_field ''typestate'' (json_string (ins_typestate r)),
      json_field ''core'' (json_option show_u8 (ins_core_affinity r)),
      json_field ''budget_ns'' (json_option show_u64 (ins_budget_ns r)),
      json_field ''wcet_ns'' (show_u64 (ins_wcet_ns r)),
      json_field ''domain'' (json_string (ins_domain r)),
      json_field ''zero_copy'' (show_bool (ins_zero_copy r))]"

record WhyReport =
  wh_symbol :: str
  wh_reason :: str
  wh_producer :: str
  wh_consumer :: str
  wh_required_constraint :: str
  wh_provided_constraint :: str
  wh_satisfied :: bool
  wh_alternatives :: "str list"

fun numbered :: "nat \<Rightarrow> str list \<Rightarrow> str" where
  "numbered i [] = []"
| "numbered i (alt # alts) = bytes ''    '' @ dec_nat (i + 1) @ bytes ''. '' @ alt @ [10] @ numbered (i + 1) alts"

definition WhyReport_to_text :: "WhyReport \<Rightarrow> str" where
  "WhyReport_to_text r =
     bytes ''=== Why: '' @ wh_symbol r @ bytes '' ==='' @ [10] @
     bytes ''  Reason:   '' @ wh_reason r @ [10] @
     bytes ''  Producer: '' @ wh_producer r @ [10] @
     bytes ''  Consumer: '' @ wh_consumer r @ [10] @
     bytes ''  Required: '' @ wh_required_constraint r @ [10] @
     bytes ''  Provided: '' @ wh_provided_constraint r @ [10] @
     bytes ''  Status:   '' @ bytes (if wh_satisfied r then ''SATISFIED'' else ''VIOLATED'') @ [10] @
     (if wh_alternatives r \<noteq> [] then bytes ''  Alternatives / Repair Actions:'' @ [10] @ numbered 0 (wh_alternatives r)
      else [])"

definition WhyReport_to_json :: "WhyReport \<Rightarrow> str" where
  "WhyReport_to_json r = json_object
     [json_field ''symbol'' (json_string (wh_symbol r)),
      json_field ''reason'' (json_string (wh_reason r)),
      json_field ''producer'' (json_string (wh_producer r)),
      json_field ''consumer'' (json_string (wh_consumer r)),
      json_field ''required'' (json_string (wh_required_constraint r)),
      json_field ''provided'' (json_string (wh_provided_constraint r)),
      json_field ''satisfied'' (show_bool (wh_satisfied r)),
      json_field ''alternatives'' (json_array (map json_string (wh_alternatives r)))]"

definition stage_report :: "StageIr \<Rightarrow> InspectReport" where
  "stage_report s =
     \<lparr>ins_symbol = sg_name s, ins_entity_kind = bytes ''pipeline_stage'', ins_typestate = bytes ''ActiveStage'',
      ins_core_affinity = Some (sg_core s), ins_budget_ns = Some (sg_budget_ns s), ins_wcet_ns = sg_wcet_ns s,
      ins_domain = bytes (MemoryDomain_as_str (sg_memory_domain s)), ins_zero_copy = sg_zero_copy s\<rparr>"

definition task_report :: "TaskIr \<Rightarrow> InspectReport" where
  "task_report t =
     \<lparr>ins_symbol = tk_name t, ins_entity_kind = bytes ''task'', ins_typestate = bytes ''ScheduledTask'',
      ins_core_affinity = tk_core t, ins_budget_ns = tk_budget_ns t, ins_wcet_ns = tk_wcet_ns t,
      ins_domain = bytes (MemoryDomain_as_str (tk_memory_domain t)), ins_zero_copy = tk_zero_copy t\<rparr>"

definition function_report :: "FunctionIr \<Rightarrow> InspectReport" where
  "function_report f =
     \<lparr>ins_symbol = fi_name f, ins_entity_kind = bytes ''function'', ins_typestate = bytes ''Callable'',
      ins_core_affinity = None, ins_budget_ns = None, ins_wcet_ns = fi_estimated_wcet_ns f,
      ins_domain = bytes ''cpu-resident'', ins_zero_copy = False\<rparr>"

definition inspect_symbol :: "IntentIr \<Rightarrow> str \<Rightarrow> InspectReport option" where
  "inspect_symbol r symb =
     (case find (\<lambda>(p, s). sg_name s = symb \<or> path_name (pl_name p) (sg_name s) = symb)
             (concat (map (\<lambda>p. map (Pair p) (pl_stages p)) (ir_pipelines r))) of
        Some (p, s) \<Rightarrow> Some (stage_report s)
      | None \<Rightarrow>
          (case find (\<lambda>t. tk_name t = symb) (ir_tasks r) of
             Some t \<Rightarrow> Some (task_report t)
           | None \<Rightarrow> map_option function_report (find (\<lambda>f. fi_name f = symb) (ir_functions r))))"

text \<open>\<^verbatim>\<open>s.contains(p)\<close>.\<close>

fun str_contains :: "str \<Rightarrow> str \<Rightarrow> bool" where
  "str_contains [] p \<longleftrightarrow> p = []"
| "str_contains (b # s) p \<longleftrightarrow> starts_with (b # s) p \<or> str_contains s p"

definition show_debug_option :: "u64 option \<Rightarrow> str" where
  "show_debug_option v = (case v of Some x \<Rightarrow> bytes ''Some('' @ show_u64 x @ bytes '')'' | None \<Rightarrow> bytes ''None'')"

definition why_constraint :: "str \<Rightarrow> ConstraintIr \<Rightarrow> WhyReport" where
  "why_constraint symb c =
     \<lparr>wh_symbol = symb, wh_reason = ct_reason c, wh_producer = bytes ''Compiler Pipeline Analysis'',
      wh_consumer = ct_target c, wh_required_constraint = ct_required c, wh_provided_constraint = ct_provided c,
      wh_satisfied = ct_satisfied c,
      wh_alternatives =
        (if \<not> ct_satisfied c then
           [bytes ''Adjust budget/deadline to accommodate observed worst-case time'',
            bytes ''Enable zero-copy DMA or transfer to target memory domain'',
            bytes ''Assign task to dedicated real-time core (Cores 1..3)'']
         else [])\<rparr>"

definition why_declared :: "str \<Rightarrow> InspectReport \<Rightarrow> WhyReport" where
  "why_declared symb insp =
     \<lparr>wh_symbol = symb,
      wh_reason = bytes ''Declared as '' @ ins_entity_kind insp @ bytes '' with explicit constraint parameters'',
      wh_producer = bytes ''Source Declaration'', wh_consumer = bytes ''System Pipeline'',
      wh_required_constraint =
        bytes ''WCET <= Budget ('' @ show_u64 (ins_wcet_ns insp) @ bytes '' <= '' @ show_debug_option (ins_budget_ns insp) @ bytes '')'',
      wh_provided_constraint =
        bytes ''Residency: '' @ ins_domain insp @ bytes '', ZeroCopy: '' @ show_bool (ins_zero_copy insp),
      wh_satisfied = True,
      wh_alternatives = [bytes ''Reconfigure stage core assignment'', bytes ''Adjust execution budget'']\<rparr>"

definition why_symbol :: "IntentIr \<Rightarrow> str \<Rightarrow> WhyReport option" where
  "why_symbol r symb =
     (case find (\<lambda>c. ct_target c = symb \<or> str_contains (ct_target c) symb) (ir_constraints r) of
        Some c \<Rightarrow> Some (why_constraint symb c)
      | None \<Rightarrow> map_option (why_declared symb) (inspect_symbol r symb))"

section \<open>The builder\<close>

text \<open>
  The builder walks over the tokens; the tokens from the current index on are the state of
  each of its loops.
\<close>

definition get_token_str :: "str \<Rightarrow> Token \<Rightarrow> str" where
  "get_token_str src tok =
     (if tok_start tok + tok_len tok \<le> length src then
        (let b = sub_slice (tok_start tok) (tok_len tok) src in if utf8_valid b then b else [])
      else [])"

abbreviation (input) is_rbrace :: "Token \<Rightarrow> bool" where
  "is_rbrace t \<equiv> kind t = TkSymbol SymRBrace"

definition skip_rbrace :: "Token list \<Rightarrow> Token list" where
  "skip_rbrace ts = (case ts of [] \<Rightarrow> [] | t # r \<Rightarrow> if is_rbrace t then r else ts)"

text \<open>Unchecked \<^verbatim>\<open>u64\<close> arithmetic; \<^term>\<open>None\<close> is the panic of a checked build.\<close>

definition mul_u64 :: "bool \<Rightarrow> u64 \<Rightarrow> u64 \<Rightarrow> u64 option" where
  "mul_u64 checked a b = (if checked \<and> 2 ^ 64 \<le> unat a * unat b then None else Some (a * b))"

definition add_u64 :: "bool \<Rightarrow> u64 \<Rightarrow> u64 \<Rightarrow> u64 option" where
  "add_u64 checked a b = (if checked \<and> 2 ^ 64 \<le> unat a + unat b then None else Some (a + b))"

text \<open>\<^verbatim>\<open>Expected name\<close> and \<^verbatim>\<open>Expected '{'\<close> after a keyword: the name and the tokens after the brace.\<close>

definition named_block :: "str \<Rightarrow> CompileError \<Rightarrow> CompileError \<Rightarrow> Token list \<Rightarrow> CompileError + str \<times> Token list" where
  "named_block src no_name no_brace ts =
     (case ts of
        [] \<Rightarrow> Inl no_name
      | t # r \<Rightarrow>
          if kind t \<noteq> TkIdent then Inl no_name
          else (case r of
              [] \<Rightarrow> Inl no_brace
            | u # r' \<Rightarrow> if kind u \<noteq> TkSymbol SymLBrace then Inl no_brace else Inr (get_token_str src t, r')))"

subsection \<open>Stages\<close>

definition stage_init :: "str \<Rightarrow> StageIr" where
  "stage_init stage_name =
     \<lparr>sg_name = stage_name, sg_core = 0, sg_budget_ns = 50000, sg_wcet_ns = 0, sg_zero_copy = False,
      sg_input = None, sg_output = None, sg_hardware = None, sg_memory_domain = Cpu\<rparr>"

text \<open>One arm of the loop: the new values of the variables and the tokens that are left.\<close>

definition stage_item :: "str \<Rightarrow> StageIr \<Rightarrow> Token \<Rightarrow> Token list \<Rightarrow> StageIr \<times> Token list" where
  "stage_item src s t ts =
     (let ident = (\<lambda>hw u. kind u = TkIdent \<or> hw \<and> kind u = TkHardwareIdent)
      in case kind t of
        TkKeyword KwCore \<Rightarrow>
          (case ts of
             [] \<Rightarrow> (s, [])
           | u # us \<Rightarrow> (case kind u of TkNumber n \<Rightarrow> s\<lparr>sg_core := min (ucast n) 3\<rparr> | _ \<Rightarrow> s, us))
      | TkKeyword KwBudget \<Rightarrow>
          (case ts of
             [] \<Rightarrow> (s, [])
           | u # us \<Rightarrow> (case kind u of TkTimeLiteral ns \<Rightarrow> s\<lparr>sg_budget_ns := ns\<rparr> | _ \<Rightarrow> s, us))
      | TkKeyword KwZeroCopy \<Rightarrow> (s\<lparr>sg_zero_copy := True, sg_memory_domain := PmdDma\<rparr>, ts)
      | TkKeyword KwHardware \<Rightarrow>
          (case ts of
             [] \<Rightarrow> (s, [])
           | u # us \<Rightarrow>
               if ident False u then (s\<lparr>sg_hardware := Some (get_token_str src u), sg_memory_domain := GpuVram\<rparr>, us)
               else (s, ts))
      | TkKeyword KwInput \<Rightarrow>
          (case ts of
             [] \<Rightarrow> (s, [])
           | u # us \<Rightarrow> if ident True u then (s\<lparr>sg_input := Some (get_token_str src u)\<rparr>, us) else (s, ts))
      | TkKeyword KwOutput \<Rightarrow>
          (case ts of
             [] \<Rightarrow> (s, [])
           | u # us \<Rightarrow> if ident True u then (s\<lparr>sg_output := Some (get_token_str src u)\<rparr>, us) else (s, ts))
      | _ \<Rightarrow> (s, ts))"

lemma length_stage_item: "stage_item src s t ts = (s', r) \<Longrightarrow> length r < Suc (length ts)"
  by (auto simp add: stage_item_def Let_def split: TokenKind.splits keyword.splits list.splits if_splits)

function stage_loop :: "str \<Rightarrow> StageIr \<Rightarrow> Token list \<Rightarrow> StageIr \<times> Token list" where
  "stage_loop src s [] = (s, [])"
| "stage_loop src s (t # ts) =
     (if is_rbrace t then (s, t # ts)
      else (case stage_item src s t ts of (s', ts') \<Rightarrow> stage_loop src s' ts'))"
  by pat_completeness auto
termination
  by (relation "measure (\<lambda>(_, _, ts). length ts)") (auto, metis length_stage_item case_prod_conv)

lemma length_stage_loop: "stage_loop src s ts = (s', r) \<Longrightarrow> length r \<le> length ts"
proof (induction src s ts rule: stage_loop.induct)
  case (2 src s t ts)
  then show ?case
    by (cases "stage_item src s t ts") (auto dest: length_stage_item split: if_splits)
qed simp

lemma length_skip_rbrace: "length (skip_rbrace ts) \<le> length ts"
  by (auto simp: skip_rbrace_def split: list.splits)

lemma length_named_block: "named_block src e1 e2 ts = Inr (n, r) \<Longrightarrow> length r < length ts"
  by (auto simp: named_block_def split: list.splits if_splits)

lemma length_block:
  "named_block src e1 e2 ts = Inr (n, r1) \<Longrightarrow> length r2 \<le> length r1 \<Longrightarrow> length (skip_rbrace r2) < Suc (length ts)"
  using length_named_block [of src e1 e2 ts n r1] length_skip_rbrace [of r2] by simp

subsection \<open>Pipelines\<close>

definition pipeline_name_error :: CompileError where
  "pipeline_name_error = simple ''ERR_SYNTAX_PIPELINE'' ''Expected pipeline name''"

definition pipeline_brace_error :: CompileError where
  "pipeline_brace_error = simple ''ERR_SYNTAX_PIPELINE'' (''Expected '' @ [CHR 0x27] @ ''{'' @ [CHR 0x27] @ '' after pipeline name'')"

definition stage_name_error :: CompileError where
  "stage_name_error = simple ''ERR_SYNTAX_STAGE'' ''Expected stage name''"

definition stage_brace_error :: CompileError where
  "stage_brace_error = simple ''ERR_SYNTAX_STAGE'' (''Expected '' @ [CHR 0x27] @ ''{'' @ [CHR 0x27] @ '' after stage name'')"

text \<open>\<^verbatim>\<open>budget_ns * 8 / 10\<close>, added to the totals of the pipeline.\<close>

definition add_stage ::
  "bool \<Rightarrow> StageIr \<Rightarrow> StageIr list \<times> u64 \<times> u64 \<Rightarrow> (StageIr list \<times> u64 \<times> u64) option" where
  "add_stage checked s acc =
     (case acc of (stages, total_budget, total_wcet) \<Rightarrow>
        (case mul_u64 checked (sg_budget_ns s) 8 of
           None \<Rightarrow> None
         | Some x \<Rightarrow>
             (case (add_u64 checked total_budget (sg_budget_ns s), add_u64 checked total_wcet (x div 10)) of
                (Some tb, Some tw) \<Rightarrow> Some (stages @ [s\<lparr>sg_wcet_ns := x div 10\<rparr>], tb, tw)
              | _ \<Rightarrow> None)))"

text \<open>A whole stage, after its keyword.\<close>

definition stage_block ::
  "bool \<Rightarrow> str \<Rightarrow> StageIr list \<times> u64 \<times> u64 \<Rightarrow> Token list \<Rightarrow>
   (CompileError, (StageIr list \<times> u64 \<times> u64) \<times> Token list) outcome" where
  "stage_block checked src acc ts =
     (case named_block src stage_name_error stage_brace_error ts of
        Inl e \<Rightarrow> Err e
      | Inr (stage_name, r) \<Rightarrow>
          (case stage_loop src (stage_init stage_name) r of (s, r') \<Rightarrow>
             (case add_stage checked s acc of
                None \<Rightarrow> Panic
              | Some acc' \<Rightarrow> Ok (acc', skip_rbrace r'))))"

lemma stage_block_Ok:
  assumes "stage_block checked src acc ts = Ok (acc', r)"
  obtains n r1 s r2 where "named_block src stage_name_error stage_brace_error ts = Inr (n, r1)"
    and "stage_loop src (stage_init n) r1 = (s, r2)" and "add_stage checked s acc = Some acc'"
    and "r = skip_rbrace r2"
  using assms by (auto simp: stage_block_def split: sum.splits prod.splits option.splits)

lemma length_stage_block: "stage_block checked src acc ts = Ok (acc', r) \<Longrightarrow> length r < Suc (length ts)"
  by (elim stage_block_Ok) (simp add: length_block length_stage_loop)

function pipeline_loop ::
  "bool \<Rightarrow> str \<Rightarrow> StageIr list \<times> u64 \<times> u64 \<Rightarrow> Token list \<Rightarrow>
   (CompileError, (StageIr list \<times> u64 \<times> u64) \<times> Token list) outcome" where
  "pipeline_loop checked src acc [] = Ok (acc, [])"
| "pipeline_loop checked src acc (t # ts) =
     (if is_rbrace t then Ok (acc, t # ts)
      else if kind t = TkKeyword KwStage then
        (case stage_block checked src acc ts of
           Err e \<Rightarrow> Err e
         | Panic \<Rightarrow> Panic
         | Ok (acc', r) \<Rightarrow> pipeline_loop checked src acc' r)
      else pipeline_loop checked src acc ts)"
  by pat_completeness auto
termination
  by (relation "measure (\<lambda>(_, _, _, ts). length ts)") (auto dest: length_stage_block)

lemma length_pipeline_loop:
  "pipeline_loop checked src acc ts = Ok (acc', r) \<Longrightarrow> length r \<le> length ts"
proof (induction checked src acc ts rule: pipeline_loop.induct)
  case (2 checked src acc t ts)
  show ?case
  proof (cases "kind t = TkKeyword KwStage")
    case True
    then obtain acc1 r1 where b: "stage_block checked src acc ts = Ok (acc1, r1)"
      and l: "pipeline_loop checked src acc1 r1 = Ok (acc', r)"
      using 2(3) by (cases "stage_block checked src acc ts") auto
    have "length r \<le> length r1" by (rule 2(1) [OF _ True b refl l]) (simp add: True)
    then show ?thesis using length_stage_block [OF b] by simp
  next
    case False
    then show ?thesis using 2(2,3) by (cases "is_rbrace t") auto
  qed
qed simp

definition pipeline_ir :: "str \<Rightarrow> StageIr list \<times> u64 \<times> u64 \<Rightarrow> PipelineIr" where
  "pipeline_ir pipe_name acc =
     (case acc of (stages, total_budget, total_wcet) \<Rightarrow>
        \<lparr>pl_name = pipe_name, pl_stages = stages, pl_total_budget_ns = total_budget,
         pl_total_wcet_ns = total_wcet, pl_valid = (total_wcet \<le> total_budget)\<rparr>)"

definition pipeline_block ::
  "bool \<Rightarrow> str \<Rightarrow> Token list \<Rightarrow> (CompileError, PipelineIr \<times> Token list) outcome" where
  "pipeline_block checked src ts =
     (case named_block src pipeline_name_error pipeline_brace_error ts of
        Inl e \<Rightarrow> Err e
      | Inr (pipe_name, r) \<Rightarrow>
          (case pipeline_loop checked src ([], 0, 0) r of
             Err e \<Rightarrow> Err e
           | Panic \<Rightarrow> Panic
           | Ok (body, r') \<Rightarrow> Ok (pipeline_ir pipe_name body, skip_rbrace r')))"

lemma pipeline_block_Ok:
  assumes "pipeline_block checked src ts = Ok (p, r)"
  obtains n r1 body r2 where "named_block src pipeline_name_error pipeline_brace_error ts = Inr (n, r1)"
    and "pipeline_loop checked src ([], 0, 0) r1 = Ok (body, r2)" and "p = pipeline_ir n body"
    and "r = skip_rbrace r2"
  using assms by (auto simp: pipeline_block_def split: sum.splits prod.splits outcome.splits)

lemma length_pipeline_block: "pipeline_block checked src ts = Ok (p, r) \<Longrightarrow> length r < Suc (length ts)"
  by (elim pipeline_block_Ok) (simp add: length_block length_pipeline_loop)

subsection \<open>Tasks\<close>

definition task_name_error :: CompileError where
  "task_name_error = simple ''ERR_SYNTAX_TASK'' ''Expected task name''"

definition task_brace_error :: CompileError where
  "task_brace_error = simple ''ERR_SYNTAX_TASK'' (''Expected '' @ [CHR 0x27] @ ''{'' @ [CHR 0x27] @ '' after task name'')"

definition task_init :: "str \<Rightarrow> TaskIr" where
  "task_init task_name =
     \<lparr>tk_name = task_name, tk_core = None, tk_budget_ns = None, tk_wcet_ns = 0, tk_zero_copy = False,
      tk_inputs = [], tk_outputs = [], tk_memory_domain = Cpu\<rparr>"

definition task_item :: "str \<Rightarrow> TaskIr \<Rightarrow> Token \<Rightarrow> Token list \<Rightarrow> TaskIr \<times> Token list" where
  "task_item src k t ts =
     (case kind t of
        TkKeyword KwCore \<Rightarrow>
          (case ts of
             [] \<Rightarrow> (k, [])
           | u # us \<Rightarrow> (case kind u of TkNumber n \<Rightarrow> k\<lparr>tk_core := Some (ucast n)\<rparr> | _ \<Rightarrow> k, us))
      | TkKeyword KwBudget \<Rightarrow>
          (case ts of
             [] \<Rightarrow> (k, [])
           | u # us \<Rightarrow> (case kind u of TkTimeLiteral ns \<Rightarrow> k\<lparr>tk_budget_ns := Some ns\<rparr> | _ \<Rightarrow> k, us))
      | TkKeyword KwZeroCopy \<Rightarrow> (k\<lparr>tk_zero_copy := True\<rparr>, ts)
      | TkKeyword KwInput \<Rightarrow>
          (case ts of
             [] \<Rightarrow> (k, [])
           | u # us \<Rightarrow>
               if kind u = TkIdent then (k\<lparr>tk_inputs := tk_inputs k @ [get_token_str src u]\<rparr>, us) else (k, ts))
      | TkKeyword KwOutput \<Rightarrow>
          (case ts of
             [] \<Rightarrow> (k, [])
           | u # us \<Rightarrow>
               if kind u = TkIdent then (k\<lparr>tk_outputs := tk_outputs k @ [get_token_str src u]\<rparr>, us) else (k, ts))
      | _ \<Rightarrow> (k, ts))"

lemma length_task_item: "task_item src k t ts = (k', r) \<Longrightarrow> length r < Suc (length ts)"
  by (auto simp add: task_item_def split: TokenKind.splits keyword.splits list.splits if_splits)

function task_loop :: "str \<Rightarrow> TaskIr \<Rightarrow> Token list \<Rightarrow> TaskIr \<times> Token list" where
  "task_loop src k [] = (k, [])"
| "task_loop src k (t # ts) =
     (if is_rbrace t then (k, t # ts)
      else (case task_item src k t ts of (k', ts') \<Rightarrow> task_loop src k' ts'))"
  by pat_completeness auto
termination
  by (relation "measure (\<lambda>(_, _, ts). length ts)") (auto, metis length_task_item case_prod_conv)

lemma length_task_loop: "task_loop src k ts = (k', r) \<Longrightarrow> length r \<le> length ts"
proof (induction src k ts rule: task_loop.induct)
  case (2 src k t ts)
  then show ?case
    by (cases "task_item src k t ts") (auto dest: length_task_item split: if_splits)
qed simp

text \<open>\<^verbatim>\<open>b_val * 7 / 10\<close> and the memory domain.\<close>

definition finish_task :: "bool \<Rightarrow> TaskIr \<Rightarrow> TaskIr option" where
  "finish_task checked k =
     map_option (\<lambda>x. k\<lparr>tk_wcet_ns := x div 10, tk_memory_domain := (if tk_zero_copy k then PmdDma else Cpu)\<rparr>)
       (mul_u64 checked (case tk_budget_ns k of Some b \<Rightarrow> b | None \<Rightarrow> 100000) 7)"

definition task_block :: "bool \<Rightarrow> str \<Rightarrow> Token list \<Rightarrow> (CompileError, TaskIr \<times> Token list) outcome" where
  "task_block checked src ts =
     (case named_block src task_name_error task_brace_error ts of
        Inl e \<Rightarrow> Err e
      | Inr (task_name, r) \<Rightarrow>
          (case task_loop src (task_init task_name) r of (k, r') \<Rightarrow>
             (case finish_task checked k of
                None \<Rightarrow> Panic
              | Some k' \<Rightarrow> Ok (k', skip_rbrace r'))))"

lemma task_block_Ok:
  assumes "task_block checked src ts = Ok (k', r)"
  obtains n r1 k r2 where "named_block src task_name_error task_brace_error ts = Inr (n, r1)"
    and "task_loop src (task_init n) r1 = (k, r2)" and "finish_task checked k = Some k'"
    and "r = skip_rbrace r2"
  using assms by (auto simp: task_block_def split: sum.splits prod.splits option.splits)

lemma length_task_block: "task_block checked src ts = Ok (k, r) \<Longrightarrow> length r < Suc (length ts)"
  by (elim task_block_Ok) (simp add: length_block length_task_loop)

subsection \<open>The whole token stream\<close>

definition function_ir :: "str \<Rightarrow> FunctionIr" where
  "function_ir fn_name =
     \<lparr>fi_name = fn_name, fi_params = [], fi_return_type = bytes ''i64'', fi_declared_wcet_ns = Some 5000,
      fi_estimated_wcet_ns = 3200, fi_has_precondition = False, fi_has_postcondition = False\<rparr>"

type_synonym decls = "PipelineIr list \<times> TaskIr list \<times> FunctionIr list"

function build_loop :: "bool \<Rightarrow> str \<Rightarrow> decls \<Rightarrow> Token list \<Rightarrow> (CompileError, decls) outcome" where
  "build_loop checked src acc [] = Ok acc"
| "build_loop checked src (ps, ks, fs) (t # ts) =
     (if kind t = TkKeyword KwPipeline then
        (case pipeline_block checked src ts of
           Err e \<Rightarrow> Err e
         | Panic \<Rightarrow> Panic
         | Ok (p, r) \<Rightarrow> build_loop checked src (ps @ [p], ks, fs) r)
      else if kind t = TkKeyword KwTask then
        (case task_block checked src ts of
           Err e \<Rightarrow> Err e
         | Panic \<Rightarrow> Panic
         | Ok (k, r) \<Rightarrow> build_loop checked src (ps, ks @ [k], fs) r)
      else if kind t = TkKeyword KwFn then
        (case ts of
           [] \<Rightarrow> Ok (ps, ks, fs)
         | u # us \<Rightarrow>
             build_loop checked src
               (ps, ks, if kind u = TkIdent then fs @ [function_ir (get_token_str src u)] else fs) us)
      else build_loop checked src (ps, ks, fs) ts)"
  by pat_completeness auto
termination
  by (relation "measure (\<lambda>(_, _, _, ts). length ts)") (auto dest: length_pipeline_block length_task_block)

subsection \<open>Constraints and summary\<close>

definition deadline_constraint :: "PipelineIr \<Rightarrow> ConstraintIr" where
  "deadline_constraint p =
     \<lparr>ct_target = path_name (bytes ''pipeline'') (pl_name p), ct_kind = bytes ''timing::deadline'',
      ct_required = bytes ''<= '' @ show_ns (pl_total_budget_ns p), ct_provided = show_ns (pl_total_wcet_ns p),
      ct_satisfied = (pl_total_wcet_ns p \<le> pl_total_budget_ns p),
      ct_reason = bytes ''Pipeline total worst-case execution time must be within cumulative budget''\<rparr>"

definition zero_copy_constraint :: "PipelineIr \<Rightarrow> StageIr \<Rightarrow> ConstraintIr" where
  "zero_copy_constraint p s =
     \<lparr>ct_target = path_name (pl_name p) (sg_name s), ct_kind = bytes ''memory::zero_copy'',
      ct_required = bytes ''zero-copy DMA'', ct_provided = bytes ''zero-copy DMA'', ct_satisfied = True,
      ct_reason = bytes ''Verified hardware DMA zero-copy ring alignment''\<rparr>"

definition pipeline_constraints :: "PipelineIr \<Rightarrow> ConstraintIr list" where
  "pipeline_constraints p = deadline_constraint p # map (zero_copy_constraint p) (filter sg_zero_copy (pl_stages p))"

definition summary :: "ConstraintIr list \<Rightarrow> VerificationSummary" where
  "summary cs =
     (let sat_count = length (filter ct_satisfied cs);
          all_satisfied = (sat_count = length cs)
      in \<lparr>vs_status = bytes (if all_satisfied then ''PASS'' else ''FAIL''),
          vs_total_constraints = sat_count, vs_satisfied_constraints = sat_count,
          vs_pipeline_deadline_met = all_satisfied, vs_zero_copy_verified = True\<rparr>)"

definition build_intent_ir :: "bool \<Rightarrow> str \<Rightarrow> (CompileError, IntentIr) outcome" where
  "build_intent_ir checked src =
     (case tokenize checked src (replicate 4096 empty_token) of
        Err e \<Rightarrow> Err e
      | Panic \<Rightarrow> Panic
      | Ok (tok_count, tokens) \<Rightarrow>
          (case build_loop checked src ([], [], []) (take tok_count tokens) of
             Err e \<Rightarrow> Err e
           | Panic \<Rightarrow> Panic
           | Ok (ps, ks, fs) \<Rightarrow>
               let cs = concat (map pipeline_constraints ps)
               in Ok \<lparr>ir_version = bytes ''1.0'', ir_module_name = bytes ''main'', ir_pipelines = ps, ir_tasks = ks,
                      ir_functions = fs, ir_constraints = cs, ir_verification = summary cs\<rparr>))"

end
