(* ===== verification/IrProps.thy ===== *)
theory IrProps
  imports Ir
begin

text \<open>
  What the intent representation satisfies: the shape of everything the builder returns, the
  verdict of its verification, the semantic difference, and the JSON strings.
\<close>

section \<open>A larger token buffer gives the same tokens\<close>

lemma tokenize_loop_longer:
  assumes "tokenize_loop checked src toks cnt c = Some (toks', n, c')"
    and "length src \<le> pos (skip_whitespace_and_comments src c')" and "pos c \<le> length src" and "cnt < length toks"
  shows "\<exists>c''. tokenize_loop checked src (toks @ ext) cnt c = Some (toks' @ ext, n, c'') \<and>
    pos c'' \<le> length src \<and> length src \<le> pos (skip_whitespace_and_comments src c'')"
  using assms
proof (induction checked src toks cnt c rule: tokenize_loop.induct)
  case (1 checked src toks cnt c)
  let ?c1 = "skip_whitespace_and_comments src c"
  have c1: "pos c \<le> pos ?c1" "pos ?c1 \<le> length src" using skip_pos [OF 1(5)] by blast+
  show ?case
  proof (cases "pos c < length src \<and> cnt + 1 < length toks \<and> pos ?c1 < length src")
    case False
    then consider "pos c = length src" | "length src = pos ?c1"
      | "\<not> cnt + 1 < length toks" "pos c < length src" "pos ?c1 < length src" using 1(5) c1 by linarith
    then show ?thesis
    proof cases
      case 1
      then show ?thesis using "1.prems" by (auto simp: tokenize_loop.simps [of checked src])
    next
      case 2
      then show ?thesis
        using "1.prems" skip_pos [OF c1(2)] by (auto simp: tokenize_loop.simps [of checked src] Let_def split: if_splits)
    next
      case 3
      then show ?thesis using "1.prems" by (auto simp: tokenize_loop.simps [of checked src toks])
    qed
  next
    case True
    have adv: "advances src (pos ?c1) (lex_token checked src ?c1)" using True by (intro lex_token_advances) simp
    show ?thesis
    proof (cases "lex_token checked src ?c1")
      case (Lexed k c2)
      then have p2: "pos c2 \<le> length src" using adv by (simp add: advances_def)
      have "tokenize_loop checked src (toks[cnt := mk_token src k (pos ?c1) (pos c2)]) (cnt + 1) c2 = Some (toks', n, c')"
        using "1.prems"(1) True Lexed by (simp add: tokenize_loop.simps [of checked src toks] Let_def)
      note IH = "1.IH"(1) [OF _ refl _ Lexed this "1.prems"(2) p2]
      show ?thesis using IH True Lexed "1.prems"(4)
        by (simp add: tokenize_loop.simps [of checked src "toks @ ext"] Let_def list_update_append)
    next
      case (Skipped c2)
      then have p2: "pos c2 \<le> length src" using adv by (simp add: advances_def)
      have "tokenize_loop checked src toks cnt c2 = Some (toks', n, c')"
        using "1.prems"(1) True Skipped by (simp add: tokenize_loop.simps [of checked src toks] Let_def)
      note IH = "1.IH"(2) [OF _ refl _ Skipped this "1.prems"(2) p2]
      show ?thesis using IH True Skipped "1.prems"(4)
        by (simp add: tokenize_loop.simps [of checked src "toks @ ext"] Let_def)
    next
      case Overflow
      then show ?thesis using "1.prems"(1) True by (simp add: tokenize_loop.simps [of checked src toks] Let_def)
    qed
  qed
qed

lemma tokenize_longer:
  assumes "tokenize checked src toks = Ok (n, toks')"
  shows "\<exists>toks''. tokenize checked src (toks @ ext) = Ok (n, toks'') \<and> take n toks'' = take n toks'"
proof -
  let ?sk = "skip_whitespace_and_comments src"
  obtain t1 c' where ne: "toks \<noteq> []"
    and l: "tokenize_loop checked src toks 0 \<lparr>pos = 0, line = 1\<rparr> = Some (t1, n, c')"
    and e: "length src \<le> pos (?sk c')" and t': "toks' = t1[n := mk_token src TkEof (pos (?sk c')) (pos (?sk c'))]"
    using assms by (auto simp: tokenize_def Let_def split: if_splits option.splits)
  obtain c'' where l2: "tokenize_loop checked src (toks @ ext) 0 \<lparr>pos = 0, line = 1\<rparr> = Some (t1 @ ext, n, c'')"
    and e2: "length src \<le> pos (?sk c'')"
    using tokenize_loop_longer [OF l e, of ext] ne by auto
  have "n < length t1" using tokenize_loop_spec [OF l] ne by simp
  then show ?thesis using ne l2 e2 t' by (auto simp: tokenize_def Let_def)
qed

section \<open>Well-formed representations\<close>

definition stage_ok :: "StageIr \<Rightarrow> bool" where
  "stage_ok s \<longleftrightarrow>
     sg_core s \<le> 3 \<and> sg_wcet_ns s = sg_budget_ns s * 8 div 10 \<and>
     (sg_zero_copy s \<longrightarrow> sg_memory_domain s \<noteq> Cpu) \<and>
     (sg_memory_domain s = PmdDma \<longrightarrow> sg_zero_copy s) \<and>
     (sg_memory_domain s = GpuVram \<longrightarrow> sg_hardware s \<noteq> None)"

definition pipeline_ok :: "PipelineIr \<Rightarrow> bool" where
  "pipeline_ok p \<longleftrightarrow>
     (\<forall>s \<in> set (pl_stages p). stage_ok s) \<and>
     pl_total_budget_ns p = sum_list (map sg_budget_ns (pl_stages p)) \<and>
     pl_total_wcet_ns p = sum_list (map sg_wcet_ns (pl_stages p)) \<and>
     pl_valid p = (pl_total_wcet_ns p \<le> pl_total_budget_ns p)"

definition task_ok :: "TaskIr \<Rightarrow> bool" where
  "task_ok k \<longleftrightarrow>
     tk_wcet_ns k = (case tk_budget_ns k of Some b \<Rightarrow> b | None \<Rightarrow> 100000) * 7 div 10 \<and>
     tk_memory_domain k = (if tk_zero_copy k then PmdDma else Cpu)"

definition ir_ok :: "IntentIr \<Rightarrow> bool" where
  "ir_ok r \<longleftrightarrow>
     (\<forall>p \<in> set (ir_pipelines r). pipeline_ok p) \<and> (\<forall>k \<in> set (ir_tasks r). task_ok k) \<and>
     (\<forall>f \<in> set (ir_functions r). f = function_ir (fi_name f)) \<and>
     ir_constraints r = concat (map pipeline_constraints (ir_pipelines r)) \<and>
     ir_verification r = summary (ir_constraints r)"

text \<open>While a stage is read, everything but its time estimate is already as it should be.\<close>

definition stage_open :: "StageIr \<Rightarrow> bool" where
  "stage_open s \<longleftrightarrow> stage_ok (s\<lparr>sg_wcet_ns := sg_budget_ns s * 8 div 10\<rparr>)"

lemma stage_open_init: "stage_open (stage_init n)"
  by (simp add: stage_open_def stage_ok_def stage_init_def)

lemma stage_open_item: "stage_open s \<Longrightarrow> stage_item src s t ts = (s', r) \<Longrightarrow> stage_open s'"
  by (auto simp: stage_item_def stage_open_def stage_ok_def Let_def
      split: TokenKind.splits keyword.splits list.splits if_splits)

lemma stage_open_loop: "stage_open s \<Longrightarrow> stage_loop src s ts = (s', r) \<Longrightarrow> stage_open s'"
proof (induction src s ts rule: stage_loop.induct)
  case (2 src s t ts)
  then show ?case
    by (cases "stage_item src s t ts") (auto dest: stage_open_item split: if_splits)
qed simp

text \<open>The accumulator of a pipeline: good stages and their totals; exact ones in a checked build.\<close>

definition totals_ok :: "bool \<Rightarrow> StageIr list \<times> u64 \<times> u64 \<Rightarrow> bool" where
  "totals_ok checked acc \<longleftrightarrow>
     (case acc of (stages, tb, tw) \<Rightarrow>
        (\<forall>s \<in> set stages. stage_ok s) \<and>
        tb = sum_list (map sg_budget_ns stages) \<and> tw = sum_list (map sg_wcet_ns stages) \<and>
        (checked \<longrightarrow> tw \<le> tb))"

lemma mul_u64_Some: "mul_u64 checked a b = Some x \<Longrightarrow> x = a * b \<and> (checked \<longrightarrow> unat x = unat a * unat b)"
  by (auto simp: mul_u64_def unat_word_ariths split: if_splits)

lemma add_u64_Some: "add_u64 checked a b = Some x \<Longrightarrow> x = a + b \<and> (checked \<longrightarrow> unat x = unat a + unat b)"
  by (auto simp: add_u64_def unat_word_ariths split: if_splits)

lemma add_stage_ok:
  assumes "totals_ok checked acc" and "stage_open s" and "add_stage checked s acc = Some acc'"
  shows "totals_ok checked acc'"
proof -
  obtain stages tb tw where acc: "acc = (stages, tb, tw)" by (cases acc)
  obtain x tb' tw' where x: "mul_u64 checked (sg_budget_ns s) 8 = Some x"
    and b: "add_u64 checked tb (sg_budget_ns s) = Some tb'" and w: "add_u64 checked tw (x div 10) = Some tw'"
    and acc': "acc' = (stages @ [s\<lparr>sg_wcet_ns := x div 10\<rparr>], tb', tw')"
    using assms(3) by (auto simp: add_stage_def acc split: option.splits)
  note facts = mul_u64_Some [OF x] add_u64_Some [OF b] add_u64_Some [OF w]
  have "tw' \<le> tb'" if checked
  proof -
    have "unat x = unat (sg_budget_ns s) * 8" and "unat tb' = unat tb + unat (sg_budget_ns s)"
      and "unat tw' = unat tw + unat x div 10" and "unat tw \<le> unat tb"
      using that facts assms(1) by (auto simp: totals_ok_def acc word_le_nat_alt unat_div)
    then show ?thesis by (simp add: word_le_nat_alt)
  qed
  then show ?thesis
    using facts assms(1,2) by (auto simp: totals_ok_def acc acc' stage_open_def)
qed

lemma stage_block_ok:
  "stage_block checked src acc ts = Ok (acc', r) \<Longrightarrow> totals_ok checked acc \<Longrightarrow> totals_ok checked acc'"
  by (elim stage_block_Ok) (metis add_stage_ok stage_open_loop stage_open_init)

lemma pipeline_loop_ok:
  "pipeline_loop checked src acc ts = Ok (acc', r) \<Longrightarrow> totals_ok checked acc \<Longrightarrow> totals_ok checked acc'"
proof (induction checked src acc ts rule: pipeline_loop.induct)
  case (2 checked src acc t ts)
  show ?case
  proof (cases "kind t = TkKeyword KwStage")
    case True
    then obtain acc1 r1 where b: "stage_block checked src acc ts = Ok (acc1, r1)"
      and l: "pipeline_loop checked src acc1 r1 = Ok (acc', r)"
      using 2(3) by (cases "stage_block checked src acc ts") auto
    show ?thesis by (rule 2(1) [OF _ True b refl l stage_block_ok [OF b 2(4)]]) (simp add: True)
  next
    case False
    then show ?thesis using 2(2-4) by (cases "is_rbrace t") auto
  qed
qed simp

lemma pipeline_block_ok:
  assumes "pipeline_block checked src ts = Ok (p, r)"
  shows "pipeline_ok p \<and> (checked \<longrightarrow> pl_valid p)"
  using assms
proof (rule pipeline_block_Ok)
  fix n r1 body r2
  assume l: "pipeline_loop checked src ([], 0, 0) r1 = Ok (body, r2)" and p: "p = pipeline_ir n body"
  have "totals_ok checked body" using pipeline_loop_ok [OF l] by (simp add: totals_ok_def)
  then show ?thesis by (cases body) (simp add: p pipeline_ir_def pipeline_ok_def totals_ok_def)
qed

lemma task_block_ok: "task_block checked src ts = Ok (k, r) \<Longrightarrow> task_ok k"
  by (elim task_block_Ok) (auto simp: finish_task_def task_ok_def dest: mul_u64_Some)

definition decls_ok :: "bool \<Rightarrow> decls \<Rightarrow> bool" where
  "decls_ok checked d \<longleftrightarrow>
     (case d of (ps, ks, fs) \<Rightarrow>
        (\<forall>p \<in> set ps. pipeline_ok p \<and> (checked \<longrightarrow> pl_valid p)) \<and> (\<forall>k \<in> set ks. task_ok k) \<and>
        (\<forall>f \<in> set fs. f = function_ir (fi_name f)))"

lemma build_loop_ok:
  "build_loop checked src acc ts = Ok acc' \<Longrightarrow> decls_ok checked acc \<Longrightarrow> decls_ok checked acc'"
proof (induction checked src acc ts rule: build_loop.induct)
  case (2 checked src ps ks fs t ts)
  consider (pipeline) "kind t = TkKeyword KwPipeline" | (task) "kind t = TkKeyword KwTask"
    | (fn) "kind t = TkKeyword KwFn" | (other) "kind t \<notin> {TkKeyword KwPipeline, TkKeyword KwTask, TkKeyword KwFn}"
    by auto
  then show ?case
  proof cases
    case pipeline
    then obtain p r where b: "pipeline_block checked src ts = Ok (p, r)"
      and l: "build_loop checked src (ps @ [p], ks, fs) r = Ok acc'"
      using 2(5) by (cases "pipeline_block checked src ts") auto
    show ?thesis
      by (rule 2(1) [OF pipeline b refl l]) (use 2(6) pipeline_block_ok [OF b] in \<open>auto simp: decls_ok_def\<close>)
  next
    case task
    then obtain k r where b: "task_block checked src ts = Ok (k, r)"
      and l: "build_loop checked src (ps, ks @ [k], fs) r = Ok acc'"
      using 2(5) by (cases "task_block checked src ts") auto
    show ?thesis
      by (rule 2(2) [OF _ task b refl l]) (use 2(6) task_block_ok [OF b] task in \<open>auto simp: decls_ok_def\<close>)
  next
    case fn
    then show ?thesis
      using 2(3) [OF _ _ fn] 2(5,6) by (cases ts) (auto simp: decls_ok_def function_ir_def split: if_splits)
  next
    case other
    then show ?thesis using 2(4-6) by simp
  qed
qed simp

lemma build_intent_ir_Ok:
  assumes "build_intent_ir checked src = Ok r"
  shows "ir_ok r \<and> (checked \<longrightarrow> (\<forall>p \<in> set (ir_pipelines r). pl_valid p))"
proof -
  obtain n tokens ps ks fs where b: "build_loop checked src ([], [], []) (take n tokens) = Ok (ps, ks, fs)"
    and r: "r = (let cs = concat (map pipeline_constraints ps)
      in \<lparr>ir_version = bytes ''1.0'', ir_module_name = bytes ''main'', ir_pipelines = ps, ir_tasks = ks,
          ir_functions = fs, ir_constraints = cs, ir_verification = summary cs\<rparr>)"
    using assms by (auto simp: build_intent_ir_def Let_def split: outcome.splits)
  have "decls_ok checked (ps, ks, fs)" using build_loop_ok [OF b] by (simp add: decls_ok_def)
  then show ?thesis by (auto simp: r Let_def ir_ok_def decls_ok_def)
qed

section \<open>JSON strings\<close>

text \<open>
  A reader of JSON strings, from after the opening quote: the text and what follows the
  closing quote. It knows the escapes the writer uses.
\<close>

fun read_json_string :: "str \<Rightarrow> (str \<times> str) option" where
  "read_json_string [] = None"
| "read_json_string (c # s) =
     (if c = 34 then Some ([], s)
      else if c = 92 then
        (case s of
           [] \<Rightarrow> None
         | e # s' \<Rightarrow>
             (case (if e = 34 then Some 34 else if e = 92 then Some 92 else if e = 110 then Some 10
                    else if e = 114 then Some 13 else if e = 116 then Some 9 else None) of
                None \<Rightarrow> None
              | Some d \<Rightarrow> map_option (\<lambda>(x, r). (d # x, r)) (read_json_string s')))
      else map_option (\<lambda>(x, r). (c # x, r)) (read_json_string s))"

lemma read_escaped: "read_json_string (escape_json s @ 34 # rest) = Some (s, rest)"
  by (induction s) simp_all

section \<open>Semantic difference\<close>

lemma find_by_name:
  assumes "distinct (map name xs)" and "x \<in> set xs"
  shows "find (\<lambda>y. name y = name x) xs = Some x"
  using assms by (induction xs) (auto simp: image_iff)

definition names_distinct :: "IntentIr \<Rightarrow> bool" where
  "names_distinct r \<longleftrightarrow>
     distinct (map pl_name (ir_pipelines r)) \<and> distinct (map tk_name (ir_tasks r)) \<and>
     distinct (map fi_name (ir_functions r)) \<and>
     (\<forall>p \<in> set (ir_pipelines r). distinct (map sg_name (pl_stages p)))"

lemma stage_diff_same: "distinct (map sg_name ss) \<Longrightarrow> s \<in> set ss \<Longrightarrow> stage_diff n ss s = []"
  by (simp add: stage_diff_def find_by_name)

lemma pipeline_diff_same:
  "distinct (map pl_name ps) \<Longrightarrow> p \<in> set ps \<Longrightarrow> distinct (map sg_name (pl_stages p)) \<Longrightarrow> pipeline_diff ps p = []"
  by (simp add: pipeline_diff_def find_by_name stage_diff_same)

lemma task_diff_same: "distinct (map tk_name ks) \<Longrightarrow> k \<in> set ks \<Longrightarrow> task_diff ks k = []"
  by (simp add: task_diff_def find_by_name)

lemma function_diff_same: "distinct (map fi_name fs) \<Longrightarrow> f \<in> set fs \<Longrightarrow> function_diff fs f = []"
  by (simp add: function_diff_def find_by_name)

section \<open>Properties\<close>


text \<open>
  The verification verdict carries no information. In a build with overflow checks every
  representation the builder returns has all its constraints satisfied and the status PASS,
  and no why report ever names a violated constraint, whatever budgets the source declares:
  the time estimate is derived from the budget it is compared with.
\<close>

theorem verification_always_passes:
  assumes "build_intent_ir True src = Ok r"
  shows "vs_status (ir_verification r) = bytes ''PASS'' \<and>
    vs_satisfied_constraints (ir_verification r) = length (ir_constraints r) \<and>
    (\<forall>c \<in> set (ir_constraints r). ct_satisfied c) \<and>
    (\<forall>symb w. why_symbol r symb = Some w \<longrightarrow> wh_satisfied w)"
proof -
  have v: "\<forall>p \<in> set (ir_pipelines r). pl_valid p" and ok: "ir_ok r"
    using build_intent_ir_Ok [OF assms] by simp_all
  have c: "\<forall>c \<in> set (ir_constraints r). ct_satisfied c"
    using v ok by (auto simp: ir_ok_def pipeline_ok_def pipeline_constraints_def deadline_constraint_def zero_copy_constraint_def)
  then have f: "filter ct_satisfied (ir_constraints r) = ir_constraints r" by simp
  have "wh_satisfied w" if "why_symbol r symb = Some w" for symb w
    using that c by (auto simp: why_symbol_def why_constraint_def why_declared_def find_Some_iff split: option.splits)
  then show ?thesis using c f ok by (simp add: ir_ok_def summary_def Let_def)
qed

text \<open>
  The semantic difference reports nothing for anything that was removed. Between two
  representations of which the second has only declarations of the first (and names are
  unique in the first), no change is reported; in particular a representation does not differ
  from itself, nor from the empty one that replaces it.
\<close>

theorem diff_ignores_removals:
  assumes "names_distinct a" and "set (ir_pipelines b) \<subseteq> set (ir_pipelines a)"
    and "set (ir_tasks b) \<subseteq> set (ir_tasks a)" and "set (ir_functions b) \<subseteq> set (ir_functions a)"
  shows "dr_changes (semantic_diff a b) = []"
  using assms
  by (auto simp: semantic_diff_def names_distinct_def pipeline_diff_same task_diff_same function_diff_same subset_iff)

text \<open>
  JSON strings are read back. Reading the JSON form of any text, up to its closing quote,
  gives the text and the rest of the document: no character of a name ends the string early.
\<close>

theorem json_string_round_trip:
  "\<exists>tail. json_string s @ rest = 34 # tail \<and> read_json_string tail = Some (s, rest)"
  using read_escaped [of s rest] by (simp add: json_string_def raw_string_def)

section \<open>Witnesses\<close>

text \<open>A source with a pipeline of one stage.\<close>

definition demo_source :: str where
  "demo_source = bytes ''pipeline p{stage s{}}''"

definition demo_tokens :: "Token list" where
  "demo_tokens =
     (let tok = (\<lambda>k s n. \<lparr>kind = k, tok_start = s, tok_len = n, tok_line = 1, tok_col = s + 1\<rparr>)
      in [tok (TkKeyword KwPipeline) 0 8,
         tok TkIdent 9 1,
         tok (TkSymbol SymLBrace) 10 1,
         tok (TkKeyword KwStage) 11 5,
         tok TkIdent 17 1,
         tok (TkSymbol SymLBrace) 18 1,
         tok (TkSymbol SymRBrace) 19 1,
         tok (TkSymbol SymRBrace) 20 1,
         tok TkEof 21 0])"

lemma demo_tokenized: "tokenize True demo_source (replicate 9 empty_token) = Ok (8, demo_tokens)"
  by code_simp

lemma demo_built: "case build_loop True demo_source ([], [], []) (take 8 demo_tokens) of Ok (ps, _) \<Rightarrow> length ps = 1 | _ \<Rightarrow> False"
  by (simp add: demo_tokens_def Let_def pipeline_block_def named_block_def stage_block_def stage_init_def
      add_stage_def mul_u64_def add_u64_def skip_rbrace_def)

lemma demo_builds: "\<exists>r. build_intent_ir True demo_source = Ok r \<and> length (ir_pipelines r) = 1"
proof -
  obtain ps ks fs where b: "build_loop True demo_source ([], [], []) (take 8 demo_tokens) = Ok (ps, ks, fs)"
    and l: "length ps = 1"
    using demo_built by (auto split: outcome.splits)
  obtain toks where "tokenize True demo_source (replicate 9 empty_token @ replicate 4087 empty_token) = Ok (8, toks)"
    and "take 8 toks = take 8 demo_tokens"
    using tokenize_longer [OF demo_tokenized] by blast
  then show ?thesis
    using b l unfolding replicate_add [symmetric] by (simp add: build_intent_ir_def Let_def)
qed


theorem verification_always_passes_witness:
  "\<exists>r. build_intent_ir True demo_source = Ok r \<and> vs_status (ir_verification r) = bytes ''PASS''"
  using demo_builds verification_always_passes by blast

theorem diff_ignores_removals_witness:
  "\<exists>a b. ir_pipelines a \<noteq> [] \<and> ir_pipelines b = [] \<and> dr_changes (semantic_diff a b) = []"
proof -
  obtain r where "build_intent_ir True demo_source = Ok r" and r: "length (ir_pipelines r) = 1" using demo_builds by blast
  from r obtain p where p: "ir_pipelines r = [p]" by (auto simp: length_Suc_conv)
  define a where "a = r\<lparr>ir_pipelines := [p\<lparr>pl_stages := []\<rparr>], ir_tasks := [], ir_functions := []\<rparr>"
  have "dr_changes (semantic_diff a (a\<lparr>ir_pipelines := []\<rparr>)) = []"
    by (rule diff_ignores_removals) (simp_all add: a_def names_distinct_def)
  moreover have "ir_pipelines a \<noteq> []" "ir_pipelines (a\<lparr>ir_pipelines := []\<rparr>) = []" by (simp_all add: a_def)
  ultimately show ?thesis by blast
qed

end
