(* ===== verification/Editor.thy ===== *)
theory Editor
  imports FsProps
begin

text \<open>
  The screen editor (\<^verbatim>\<open>kernel/src/editor.rs\<close>): the text buffer with its cursor, the view, the
  file operations and the interpreter of key bytes with its escape sequences. What is sent to
  the terminal is not modelled; what drawing does to the editor state is. The buffer operations
  return \<^term>\<open>None\<close> where the code would panic. In a session \<^term>\<open>Panic\<close> is a panic of the
  editor's own code and an \<^const>\<open>Err\<close> one of the file system it calls. Running a script
  (\<^verbatim>\<open>lang::run_pulse_auto\<close>) is a parameter of the session.
\<close>

section \<open>State\<close>

abbreviation (input) MAX_EDITOR_BUF :: nat where
  "MAX_EDITOR_BUF \<equiv> 4096"

datatype EditorEscState = Normal | Esc | Ss3 | Csi "u16 list" nat

record PulseEditor =
  ed_buffer :: "u8 list"
  buf_len :: nat
  ed_cursor :: nat
  top_line :: nat
  ed_filename :: "u8 list"
  filename_len :: nat
  status_msg :: "u8 list"
  status_msg_len :: nat
  needs_redraw :: bool
  is_running :: bool
  esc_state :: EditorEscState

definition PulseEditor_new :: PulseEditor where
  "PulseEditor_new =
     \<lparr>ed_buffer = replicate MAX_EDITOR_BUF 0, buf_len = 0, ed_cursor = 0, top_line = 1,
      ed_filename = replicate 32 0, filename_len = 0, status_msg = replicate 64 0, status_msg_len = 0,
      needs_redraw = True, is_running = False, esc_state = Normal\<rparr>"

definition set_filename :: "str \<Rightarrow> PulseEditor \<Rightarrow> PulseEditor" where
  "set_filename nm e =
     (let n = min (length nm) 32
      in e\<lparr>filename_len := n, ed_filename := copy_at 0 (take n nm) (ed_filename e)\<rparr>)"

definition filename_str :: "PulseEditor \<Rightarrow> str" where
  "filename_str e =
     (let s = take (filename_len e) (ed_filename e)
      in if filename_len e = 0 \<or> \<not> utf8_valid s then bytes ''untitled.pul'' else s)"

definition set_status :: "str \<Rightarrow> PulseEditor \<Rightarrow> PulseEditor" where
  "set_status msg e =
     (let n = min (length msg) 64
      in e\<lparr>status_msg_len := n, status_msg := copy_at 0 (take n msg) (status_msg e)\<rparr>)"

definition status_str :: "PulseEditor \<Rightarrow> str" where
  "status_str e =
     (let s = take (status_msg_len e) (status_msg e)
      in if status_msg_len e = 0 \<or> \<not> utf8_valid s then [] else s)"

section \<open>Scans and shifts over the buffer\<close>

text \<open>\<^verbatim>\<open>while pos < hi && p(buffer[pos]) { pos += 1 }\<close>.\<close>

function fwd_while :: "(u8 \<Rightarrow> bool) \<Rightarrow> u8 list \<Rightarrow> nat \<Rightarrow> nat \<Rightarrow> nat option" where
  "fwd_while p b hi pos =
     (if pos < hi then
        (case idx b pos of
           None \<Rightarrow> None
         | Some c \<Rightarrow> if p c then fwd_while p b hi (pos + 1) else Some pos)
      else Some pos)"
  by pat_completeness auto
termination by (relation "measure (\<lambda>(p, b, hi, pos). hi - pos)") auto

declare fwd_while.simps [simp del]

text \<open>\<^verbatim>\<open>while pos > 0 && p(buffer[pos - 1]) { pos -= 1 }\<close>.\<close>

fun back_while :: "(u8 \<Rightarrow> bool) \<Rightarrow> u8 list \<Rightarrow> nat \<Rightarrow> nat option" where
  "back_while p b 0 = Some 0"
| "back_while p b (Suc pos) =
     (case idx b pos of
        None \<Rightarrow> None
      | Some c \<Rightarrow> if p c then back_while p b pos else Some (Suc pos))"

text \<open>
  \<^verbatim>\<open>for i in (lo..hi).rev() { buffer[i + n] = buffer[i] }\<close> and
  \<^verbatim>\<open>for i in lo..hi { buffer[i] = buffer[i + n] }\<close>.
\<close>

definition shift_up :: "nat \<Rightarrow> nat \<Rightarrow> nat \<Rightarrow> u8 list \<Rightarrow> u8 list option" where
  "shift_up lo hi n b =
     (if lo < hi \<and> length b < hi + n then None
      else Some (fold (\<lambda>i b. b[i + n := b ! i]) (rev [lo..<hi]) b))"

definition shift_down :: "nat \<Rightarrow> nat \<Rightarrow> nat \<Rightarrow> u8 list \<Rightarrow> u8 list option" where
  "shift_down lo hi n b =
     (if lo < hi \<and> length b < hi + n then None
      else Some (fold (\<lambda>i b. b[i := b ! (i + n)]) [lo..<hi] b))"

section \<open>Editing\<close>

definition put_text :: "str \<Rightarrow> u8 list \<Rightarrow> PulseEditor \<Rightarrow> PulseEditor option" where
  "put_text s b e =
     (if ed_cursor e + length s \<le> length b then
        Some (e\<lparr>ed_buffer := copy_at (ed_cursor e) s b, ed_cursor := ed_cursor e + length s,
                buf_len := buf_len e + length s, needs_redraw := True\<rparr>)
      else None)"

definition insert_char :: "u8 \<Rightarrow> PulseEditor \<Rightarrow> PulseEditor option" where
  "insert_char c e =
     (if buf_len e < MAX_EDITOR_BUF - 1 then
        if ed_cursor e = buf_len e then put_text [c] (ed_buffer e) e
        else (case shift_up (ed_cursor e) (buf_len e) 1 (ed_buffer e) of
            None \<Rightarrow> None
          | Some b \<Rightarrow> put_text [c] b e)
      else Some e)"

definition insert_str :: "str \<Rightarrow> PulseEditor \<Rightarrow> PulseEditor option" where
  "insert_str s e =
     (if buf_len e + length s \<le> MAX_EDITOR_BUF then
        if ed_cursor e = buf_len e then put_text s (ed_buffer e) e
        else (case shift_up (ed_cursor e) (buf_len e) (length s) (ed_buffer e) of
            None \<Rightarrow> None
          | Some b \<Rightarrow> put_text s b e)
      else Some e)"

text \<open>
  Removes \<^term>\<open>count\<close> bytes at \<^term>\<open>at\<close>; the subtraction \<^verbatim>\<open>buf_len - count\<close> must not underflow.
\<close>

definition cut :: "nat \<Rightarrow> nat \<Rightarrow> PulseEditor \<Rightarrow> PulseEditor option" where
  "cut at count e =
     (if buf_len e < count then None
      else (case shift_down at (buf_len e - count) count (ed_buffer e) of
          None \<Rightarrow> None
        | Some b \<Rightarrow> Some (e\<lparr>ed_buffer := b, buf_len := buf_len e - count, needs_redraw := True\<rparr>)))"

definition delete_char_backspace :: "PulseEditor \<Rightarrow> PulseEditor option" where
  "delete_char_backspace e =
     (if 0 < ed_cursor e then
        map_option (\<lambda>e'. e'\<lparr>ed_cursor := ed_cursor e - 1\<rparr>) (cut (ed_cursor e - 1) 1 e)
      else Some e)"

definition delete_char_under_cursor :: "PulseEditor \<Rightarrow> PulseEditor option" where
  "delete_char_under_cursor e = (if ed_cursor e < buf_len e then cut (ed_cursor e) 1 e else Some e)"

section \<open>Moving\<close>

definition word_gap :: "u8 \<Rightarrow> bool" where
  "word_gap c \<longleftrightarrow> c = 32 \<or> c = 9 \<or> c = 10"

definition move_word_left :: "PulseEditor \<Rightarrow> PulseEditor option" where
  "move_word_left e =
     (if ed_cursor e = 0 then Some e
      else (case back_while word_gap (ed_buffer e) (ed_cursor e) of
          None \<Rightarrow> None
        | Some k \<Rightarrow>
            map_option (\<lambda>k'. e\<lparr>ed_cursor := k', needs_redraw := True\<rparr>)
              (back_while (\<lambda>c. \<not> word_gap c) (ed_buffer e) k)))"

definition move_word_right :: "PulseEditor \<Rightarrow> PulseEditor option" where
  "move_word_right e =
     (if buf_len e \<le> ed_cursor e then Some e
      else (case fwd_while (\<lambda>c. \<not> word_gap c) (ed_buffer e) (buf_len e) (ed_cursor e) of
          None \<Rightarrow> None
        | Some k \<Rightarrow>
            map_option (\<lambda>k'. e\<lparr>ed_cursor := k', needs_redraw := True\<rparr>)
              (fwd_while word_gap (ed_buffer e) (buf_len e) k)))"

abbreviation no_newline :: "u8 \<Rightarrow> bool" where
  "no_newline \<equiv> \<lambda>c. c \<noteq> 10"

text \<open>The line start is one past the last newline before the cursor.\<close>

definition get_current_line_start_and_col :: "PulseEditor \<Rightarrow> (nat \<times> nat) option" where
  "get_current_line_start_and_col e =
     map_option (\<lambda>line_start. (line_start, ed_cursor e - line_start)) (back_while no_newline (ed_buffer e) (ed_cursor e))"

definition move_cursor_up :: "PulseEditor \<Rightarrow> PulseEditor option" where
  "move_cursor_up e =
     (case get_current_line_start_and_col e of
        None \<Rightarrow> None
      | Some (cur_line_start, col) \<Rightarrow>
          if 0 < cur_line_start then
            map_option (\<lambda>prev_line_start.
                e\<lparr>ed_cursor := prev_line_start + min col (cur_line_start - 1 - prev_line_start), needs_redraw := True\<rparr>)
              (back_while no_newline (ed_buffer e) (cur_line_start - 1))
          else Some e)"

definition move_cursor_down :: "PulseEditor \<Rightarrow> PulseEditor option" where
  "move_cursor_down e =
     (case get_current_line_start_and_col e of
        None \<Rightarrow> None
      | Some (_, col) \<Rightarrow>
          (case fwd_while no_newline (ed_buffer e) (buf_len e) (ed_cursor e) of
             None \<Rightarrow> None
           | Some k \<Rightarrow>
               if k < buf_len e then
                 map_option (\<lambda>line_end. e\<lparr>ed_cursor := (k + 1) + min col (line_end - (k + 1)), needs_redraw := True\<rparr>)
                   (fwd_while no_newline (ed_buffer e) (buf_len e) (k + 1))
               else Some e))"

definition kill_line_forward :: "PulseEditor \<Rightarrow> PulseEditor option" where
  "kill_line_forward e =
     (if buf_len e \<le> ed_cursor e then Some e
      else (case fwd_while no_newline (ed_buffer e) (buf_len e) (ed_cursor e) of
          None \<Rightarrow> None
        | Some k \<Rightarrow>
            let line_end = (if k = ed_cursor e \<and> k < buf_len e \<and> ed_buffer e ! k = 10 then k + 1 else k);
                count = line_end - ed_cursor e
            in if 0 < count then cut (ed_cursor e) count e else Some e))"

definition kill_line_backward :: "PulseEditor \<Rightarrow> PulseEditor option" where
  "kill_line_backward e =
     (case get_current_line_start_and_col e of
        None \<Rightarrow> None
      | Some (start, count) \<Rightarrow>
          if 0 < count then map_option (\<lambda>e'. e'\<lparr>ed_cursor := start\<rparr>) (cut start count e) else Some e)"

text \<open>Ctrl+K: cuts the line of the cursor with its newline.\<close>

definition cut_current_line :: "PulseEditor \<Rightarrow> PulseEditor option" where
  "cut_current_line e =
     (case get_current_line_start_and_col e of
        None \<Rightarrow> None
      | Some (start, _) \<Rightarrow>
          (case fwd_while no_newline (ed_buffer e) (buf_len e) start of
             None \<Rightarrow> None
           | Some k \<Rightarrow>
               let count = (if k < buf_len e then k + 1 else k) - start
               in if 0 < count then
                    map_option (\<lambda>e'. e'\<lparr>ed_cursor := start, needs_redraw := needs_redraw e\<rparr>) (cut start count e)
                  else Some e))"

definition cursor_right :: "PulseEditor \<Rightarrow> PulseEditor option" where
  "cursor_right e = Some (if ed_cursor e < buf_len e then e\<lparr>ed_cursor := ed_cursor e + 1\<rparr> else e)"

definition cursor_left :: "PulseEditor \<Rightarrow> PulseEditor option" where
  "cursor_left e = Some (if 0 < ed_cursor e then e\<lparr>ed_cursor := ed_cursor e - 1\<rparr> else e)"

definition cursor_home :: "PulseEditor \<Rightarrow> PulseEditor option" where
  "cursor_home e = map_option (\<lambda>(start, _). e\<lparr>ed_cursor := start\<rparr>) (get_current_line_start_and_col e)"

definition cursor_end :: "PulseEditor \<Rightarrow> PulseEditor option" where
  "cursor_end e =
     (case get_current_line_start_and_col e of
        None \<Rightarrow> None
      | Some (start, _) \<Rightarrow>
          map_option (\<lambda>k. e\<lparr>ed_cursor := k\<rparr>) (fwd_while no_newline (ed_buffer e) (buf_len e) start))"

fun times :: "nat \<Rightarrow> (PulseEditor \<Rightarrow> PulseEditor option) \<Rightarrow> PulseEditor \<Rightarrow> PulseEditor option" where
  "times 0 f e = Some e"
| "times (Suc n) f e = (case f e of None \<Rightarrow> None | Some e' \<Rightarrow> times n f e')"

section \<open>View\<close>

fun row_col :: "u8 list \<Rightarrow> nat \<times> nat \<Rightarrow> nat \<times> nat" where
  "row_col [] rc = rc"
| "row_col (c # cs) (row, col) =
     row_col cs (if c = 10 then (row + 1, 1) else if c = 9 then (row, col + 4) else (row, col + 1))"

definition get_row_col :: "PulseEditor \<Rightarrow> (nat \<times> nat) option" where
  "get_row_col e =
     (if ed_cursor e \<le> length (ed_buffer e) then Some (row_col (take (ed_cursor e) (ed_buffer e)) (1, 1)) else None)"

definition adjust_scroll :: "PulseEditor \<Rightarrow> (bool \<times> PulseEditor) option" where
  "adjust_scroll e =
     (case get_row_col e of
        None \<Rightarrow> None
      | Some (row, _) \<Rightarrow>
          let old_top = top_line e;
              top = (if old_top = 0 then 1 else old_top);
              new_top = (if row < top then row else if top + 21 \<le> row then row - 21 + 1 else top)
          in Some (new_top \<noteq> old_top, e\<lparr>top_line := new_top\<rparr>))"

text \<open>The state after a redraw; the cursor row on the screen, \<^verbatim>\<open>row - top_line + 2\<close>, must not underflow.\<close>

definition redraw :: "PulseEditor \<Rightarrow> PulseEditor option" where
  "redraw e =
     (case adjust_scroll e of
        None \<Rightarrow> None
      | Some (_, e') \<Rightarrow>
          (case get_row_col e' of
             None \<Rightarrow> None
           | Some (row, _) \<Rightarrow> if row < top_line e' then None else Some (e'\<lparr>needs_redraw := False\<rparr>)))"

definition redraw_current_line :: "PulseEditor \<Rightarrow> PulseEditor option" where
  "redraw_current_line e =
     (case adjust_scroll e of
        None \<Rightarrow> None
      | Some (moved, e') \<Rightarrow>
          if moved then redraw e'
          else (case (get_row_col e', get_current_line_start_and_col e') of
              (Some (row, _), Some _) \<Rightarrow>
                if top_line e' \<le> row \<and> row < top_line e' + 21 then Some (e'\<lparr>needs_redraw := False\<rparr>) else redraw e'
            | _ \<Rightarrow> None))"

definition update_cursor_only :: "PulseEditor \<Rightarrow> PulseEditor option" where
  "update_cursor_only e =
     (case adjust_scroll e of
        None \<Rightarrow> None
      | Some (moved, e') \<Rightarrow>
          if moved then redraw e'
          else (case get_row_col e' of
              None \<Rightarrow> None
            | Some (row, _) \<Rightarrow> if row < top_line e' then None else Some e'))"

text \<open>The lengths the syntax colouring uses.\<close>

definition word_char :: "u8 \<Rightarrow> bool" where
  "word_char c \<longleftrightarrow> 48 \<le> c \<and> c \<le> 57 \<or> 65 \<le> c \<and> c \<le> 90 \<or> 97 \<le> c \<and> c \<le> 122"

definition get_word_len :: "PulseEditor \<Rightarrow> nat \<Rightarrow> nat option" where
  "get_word_len e at =
     map_option (\<lambda>k. let len = k - at in if len = 0 \<and> at < buf_len e then 1 else len)
       (fwd_while (\<lambda>c. word_char c \<or> c = 46 \<or> c = 95) (ed_buffer e) (buf_len e) at)"

definition get_time_literal_len :: "PulseEditor \<Rightarrow> nat \<Rightarrow> nat option" where
  "get_time_literal_len e at = map_option (\<lambda>k. k - at) (fwd_while word_char (ed_buffer e) (buf_len e) at)"

section \<open>Sessions\<close>

text \<open>A panic of the file system, which ends the session as one of the editor does.\<close>

datatype session_fault = FsPanic

record 'w session =
  ed :: PulseEditor
  sys :: "'w fs"
  last_was_cr :: bool
  line_changed :: bool
  structure_changed :: bool
  cursor_only :: bool

text \<open>What the editor calls: the file system, with its ports, and the language runtime.\<close>

record 'w ed_host =
  ports_of :: "'w ports"
  checked_build :: bool
  run_script :: "u8 list \<Rightarrow> 'w fs \<Rightarrow> bool \<times> 'w fs"

definition load_file :: "str \<Rightarrow> 'w fs \<Rightarrow> PulseEditor \<Rightarrow> PulseEditor" where
  "load_file nm s e =
     (let e1 = (set_filename nm e)\<lparr>ed_cursor := 0, buf_len := 0, top_line := 1, esc_state := Normal\<rparr>
      in (case fs_read nm s of
            Some content \<Rightarrow>
              let len = min (length content) MAX_EDITOR_BUF
              in set_status (bytes ''Loaded from LatencyFS.'')
                   (e1\<lparr>ed_buffer := copy_at 0 (take len content) (ed_buffer e1), buf_len := len\<rparr>)
          | None \<Rightarrow> set_status (bytes ''New buffer.'') e1)\<lparr>needs_redraw := True\<rparr>)"

definition ed_text :: "PulseEditor \<Rightarrow> str" where
  "ed_text e = take (buf_len e) (ed_buffer e)"

definition save_file :: "'w ed_host \<Rightarrow> 'w session \<Rightarrow> (session_fault, 'w session) outcome" where
  "save_file h s =
     (case fs_write (checked_build h) (ports_of h) (filename_str (ed s)) (ed_text (ed s)) (sys s) of
        (Ok _, f) \<Rightarrow> Ok (s\<lparr>ed := (set_status (bytes ''Saved to LatencyFS.'') (ed s))\<lparr>needs_redraw := True\<rparr>, sys := f\<rparr>)
      | (Err _, f) \<Rightarrow> Ok (s\<lparr>ed := (set_status (bytes ''Save failed!'') (ed s))\<lparr>needs_redraw := True\<rparr>, sys := f\<rparr>)
      | (Panic, f) \<Rightarrow> Err FsPanic)"

text \<open>An editor operation in a session.\<close>

definition on_ed :: "(PulseEditor \<Rightarrow> PulseEditor option) \<Rightarrow> 'w session \<Rightarrow> (session_fault, 'w session) outcome" where
  "on_ed f s = (case f (ed s) of None \<Rightarrow> Panic | Some e \<Rightarrow> Ok (s\<lparr>ed := e\<rparr>))"

definition then_set :: "('w session \<Rightarrow> 'w session) \<Rightarrow> (session_fault, 'w session) outcome \<Rightarrow> (session_fault, 'w session) outcome" where
  "then_set g r = (case r of Ok s \<Rightarrow> Ok (g s) | Err e \<Rightarrow> Err e | Panic \<Rightarrow> Panic)"

definition run_code :: "'w ed_host \<Rightarrow> 'w session \<Rightarrow> (session_fault, 'w session) outcome" where
  "run_code h s =
     (case run_script h (ed_text (ed s)) (sys s) of (fine, f) \<Rightarrow>
        on_ed redraw
          (s\<lparr>sys := f,
             ed := (set_status (bytes (if fine then ''Code executed successfully.''
                                       else ''Compile/Runtime error! (Diagnostic displayed)'')) (ed s))
                   \<lparr>needs_redraw := True\<rparr>\<rparr>))"

abbreviation (input) changed :: "'w session \<Rightarrow> 'w session" where
  "changed s \<equiv> s\<lparr>structure_changed := True\<rparr>"

abbreviation (input) moved :: "'w session \<Rightarrow> 'w session" where
  "moved s \<equiv> s\<lparr>cursor_only := True\<rparr>"

definition set_esc :: "EditorEscState \<Rightarrow> 'w session \<Rightarrow> 'w session" where
  "set_esc x s = s\<lparr>ed := (ed s)\<lparr>esc_state := x\<rparr>\<rparr>"

definition quit :: "'w session \<Rightarrow> 'w session" where
  "quit s = s\<lparr>ed := (ed s)\<lparr>is_running := False\<rparr>\<rparr>"

definition clear_buffer :: "PulseEditor \<Rightarrow> PulseEditor" where
  "clear_buffer e = set_status (bytes ''Buffer cleared.'') (e\<lparr>buf_len := 0, ed_cursor := 0\<rparr>)"

definition printable :: "u8 \<Rightarrow> bool" where
  "printable b \<longleftrightarrow> 0x20 \<le> b \<and> b \<le> 0x7E"

definition key_normal :: "'w ed_host \<Rightarrow> u8 \<Rightarrow> 'w session \<Rightarrow> (session_fault, 'w session) outcome" where
  "key_normal h b s =
     (if b = 0x1B then Ok (set_esc Esc s)
      else if b = 0x11 then Ok (quit s)
      else if b = 0x13 then then_set changed (save_file h s)
      else if b = 0x12 then then_set changed (run_code h s)
      else if b = 0x18 then then_set quit (save_file h s)
      else if b = 0x0C then Ok (changed s)
      else if b = 0x19 then then_set changed (on_ed (times 20 move_cursor_up) s)
      else if b = 0x16 then then_set changed (on_ed (times 20 move_cursor_down) s)
      else if b = 0x0B then then_set changed (on_ed cut_current_line s)
      else if b = 0x15 then Ok (changed s)
      else if b = 9 then
        then_set (\<lambda>s. s\<lparr>line_changed := True, last_was_cr := False\<rparr>) (on_ed (insert_str (bytes ''    '')) s)
      else if b = 0x08 \<or> b = 0x7F then
        then_set (\<lambda>s. s\<lparr>structure_changed := True, last_was_cr := False\<rparr>) (on_ed delete_char_backspace s)
      else if b = 13 then
        then_set (\<lambda>s. s\<lparr>structure_changed := True, last_was_cr := True\<rparr>) (on_ed (insert_char 10) s)
      else if b = 10 then
        if \<not> last_was_cr s then
          then_set (\<lambda>s. s\<lparr>structure_changed := True, last_was_cr := False\<rparr>) (on_ed (insert_char 10) s)
        else Ok (s\<lparr>last_was_cr := False\<rparr>)
      else if printable b then
        then_set (\<lambda>s. s\<lparr>line_changed := True, last_was_cr := False\<rparr>) (on_ed (insert_char b) s)
      else Ok (s\<lparr>last_was_cr := False\<rparr>))"

definition key_esc :: "'w ed_host \<Rightarrow> u8 \<Rightarrow> 'w session \<Rightarrow> (session_fault, 'w session) outcome" where
  "key_esc h b s =
     (if b = 91 then Ok (set_esc (Csi [0, 0, 0, 0] 0) s)
      else if b = 79 then Ok (set_esc Ss3 s)
      else if b = 115 \<or> b = 83 then then_set (\<lambda>s. set_esc Normal (changed s)) (save_file h s)
      else if b = 114 \<or> b = 82 then then_set (\<lambda>s. set_esc Normal (changed s)) (run_code h s)
      else if b = 113 \<or> b = 81 then Ok (quit s)
      else if b = 99 \<or> b = 67 then
        Ok (set_esc Normal (changed (s\<lparr>ed := clear_buffer (ed s)\<rparr>)))
      else if printable b then
        then_set (\<lambda>s. set_esc Normal (s\<lparr>line_changed := True\<rparr>)) (on_ed (insert_char b) s)
      else Ok (set_esc Normal s))"

definition key_ss3 :: "'w ed_host \<Rightarrow> u8 \<Rightarrow> 'w session \<Rightarrow> (session_fault, 'w session) outcome" where
  "key_ss3 h b s =
     then_set (set_esc Normal)
       (if b = 65 then then_set moved (on_ed move_cursor_up s)
        else if b = 66 then then_set moved (on_ed move_cursor_down s)
        else if b = 67 then then_set moved (on_ed cursor_right s)
        else if b = 68 then then_set moved (on_ed cursor_left s)
        else if b = 72 then then_set moved (on_ed cursor_home s)
        else if b = 70 then then_set moved (on_ed cursor_end s)
        else if b = 81 then then_set changed (save_file h s)
        else if b = 82 then Ok (changed s)
        else Ok s)"

text \<open>\<^verbatim>\<open>saturating_mul(10).saturating_add(d)\<close>.\<close>

definition add_digit :: "u8 \<Rightarrow> u16 \<Rightarrow> u16" where
  "add_digit b v = of_nat (min 65535 (min 65535 (unat v * 10) + (unat b - 48)))"

definition csi_tilde :: "'w ed_host \<Rightarrow> u16 \<Rightarrow> 'w session \<Rightarrow> (session_fault, 'w session) outcome" where
  "csi_tilde h v s =
     (if v = 12 then then_set (\<lambda>s. set_esc Normal (changed s)) (save_file h s)
      else if v = 15 then then_set (\<lambda>s. set_esc Normal (changed s)) (run_code h s)
      else if v = 21 then Ok (quit s)
      else then_set (set_esc Normal)
        (if v = 3 then then_set changed (on_ed delete_char_under_cursor s)
         else if v = 1 \<or> v = 7 then then_set moved (on_ed cursor_home s)
         else if v = 4 \<or> v = 8 then then_set moved (on_ed cursor_end s)
         else if v = 5 then then_set changed (on_ed (times 20 move_cursor_up) s)
         else if v = 6 then then_set changed (on_ed (times 20 move_cursor_down) s)
         else if v = 200 \<or> v = 201 then Ok (changed s)
         else Ok s))"

definition key_csi :: "'w ed_host \<Rightarrow> u16 list \<Rightarrow> nat \<Rightarrow> u8 \<Rightarrow> 'w session \<Rightarrow> (session_fault, 'w session) outcome" where
  "key_csi h params param_count b s =
     (let is_ctrl = (params ! 0 = 1 \<and> params ! 1 = 5);
          move = (\<lambda>f. then_set (\<lambda>s. set_esc Normal (moved s)) (on_ed f s))
      in if 48 \<le> b \<and> b \<le> 57 then
           Ok (if param_count < 4 then
                 set_esc (Csi (params[param_count := add_digit b (params ! param_count)]) param_count) s else s)
         else if b = 59 then
           Ok (if param_count < 3 then set_esc (Csi params (param_count + 1)) s else s)
         else if b = 65 then move (if is_ctrl then times 5 move_cursor_up else move_cursor_up)
         else if b = 66 then move (if is_ctrl then times 5 move_cursor_down else move_cursor_down)
         else if b = 67 then move (if is_ctrl then move_word_right else cursor_right)
         else if b = 68 then move (if is_ctrl then move_word_left else cursor_left)
         else if b = 72 then move cursor_home
         else if b = 70 then move cursor_end
         else if b = 126 then csi_tilde h (params ! 0) s
         else if b = 80 then
           then_set (\<lambda>s. set_esc Normal (changed s)) (on_ed delete_char_under_cursor s)
         else Ok (set_esc Normal s))"

definition handle_byte :: "'w ed_host \<Rightarrow> u8 \<Rightarrow> 'w session \<Rightarrow> (session_fault, 'w session) outcome" where
  "handle_byte h b s =
     (case esc_state (ed s) of
        Normal \<Rightarrow> key_normal h b s
      | Esc \<Rightarrow> key_esc h b s
      | Ss3 \<Rightarrow> key_ss3 h b s
      | Csi params param_count \<Rightarrow> key_csi h params param_count b s)"

text \<open>The bytes that arrive before the input is drained; a quit ends the loop at once.\<close>

fun drain :: "'w ed_host \<Rightarrow> u8 list \<Rightarrow> 'w session \<Rightarrow> (session_fault, 'w session) outcome" where
  "drain h [] s = Ok s"
| "drain h (b # bs) s =
     (case handle_byte h b s of
        Ok s' \<Rightarrow> if is_running (ed s') then drain h bs s' else Ok s'
      | Err e \<Rightarrow> Err e
      | Panic \<Rightarrow> Panic)"

definition refresh :: "'w session \<Rightarrow> (session_fault, 'w session) outcome" where
  "refresh s =
     (if (structure_changed s \<or> line_changed s \<or> cursor_only s) \<and> is_running (ed s) then
        if structure_changed s then
          then_set (\<lambda>s. s\<lparr>structure_changed := False, line_changed := False, cursor_only := False\<rparr>) (on_ed redraw s)
        else if line_changed s then
          then_set (\<lambda>s. s\<lparr>line_changed := False, cursor_only := False\<rparr>) (on_ed redraw_current_line s)
        else then_set (\<lambda>s. s\<lparr>cursor_only := False\<rparr>) (on_ed update_cursor_only s)
      else Ok s)"

text \<open>The main loop over the bursts of input.\<close>

fun edit_loop :: "'w ed_host \<Rightarrow> u8 list list \<Rightarrow> 'w session \<Rightarrow> (session_fault, 'w session) outcome" where
  "edit_loop h [] s = Ok s"
| "edit_loop h (burst # bursts) s =
     (if is_running (ed s) then
        (case drain h burst s of
           Ok s1 \<Rightarrow>
             (case refresh s1 of
                Ok s2 \<Rightarrow> edit_loop h bursts s2
              | Err e \<Rightarrow> Err e
              | Panic \<Rightarrow> Panic)
         | Err e \<Rightarrow> Err e
         | Panic \<Rightarrow> Panic)
      else Ok s)"

definition open_session :: "str \<Rightarrow> 'w fs \<Rightarrow> PulseEditor \<Rightarrow> 'w session" where
  "open_session nm f e =
     \<lparr>ed = set_status (bytes ''Ready. (^S: Save, ^R: Run, ^Q: Quit, ^X: Save&Quit, Esc C: Clear)'')
             ((load_file nm f e)\<lparr>is_running := True\<rparr>),
      sys = f, last_was_cr = False, line_changed = False, structure_changed = False, cursor_only = False\<rparr>"

definition start_editor :: "'w ed_host \<Rightarrow> str \<Rightarrow> u8 list list \<Rightarrow> 'w fs \<Rightarrow> PulseEditor \<Rightarrow> (session_fault, 'w session) outcome" where
  "start_editor h nm input f e =
     (case on_ed redraw (open_session nm f e) of
        Ok s \<Rightarrow> edit_loop h input s
      | Err e \<Rightarrow> Err e
      | Panic \<Rightarrow> Panic)"

end
