(* ===== verification/EditorProps.thy ===== *)
theory EditorProps
  imports Editor
begin

text \<open>
  What the editor satisfies: the buffer operations act on the text around the cursor as on a
  pair of lists, no input makes the editor panic or lose its invariant, the cursor stays in
  view, typing and erasing are inverse, and saving stores the text under the name of the file.
\<close>

section \<open>Scans\<close>

lemma back_while_le: "back_while p b n = Some k \<Longrightarrow> k \<le> n"
  by (induction n) (fastforce split: option.splits if_splits)+

lemma back_while_total: "n \<le> length b \<Longrightarrow> \<exists>k. back_while p b n = Some k"
  by (induction n) auto

lemma back_while_some: "n \<le> length b \<Longrightarrow> \<exists>k \<le> n. back_while p b n = Some k"
  using back_while_total back_while_le by blast

lemma fwd_while_some: "pos \<le> hi \<Longrightarrow> hi \<le> length b \<Longrightarrow> \<exists>k. fwd_while p b hi pos = Some k \<and> pos \<le> k \<and> k \<le> hi"
proof (induction p b hi pos rule: fwd_while.induct)
  case (1 p b hi pos)
  show ?case
  proof (cases "pos < hi \<and> p (b ! pos)")
    case True
    then obtain k where "fwd_while p b hi (pos + 1) = Some k" "pos + 1 \<le> k" "k \<le> hi"
      using 1(1) [of "b ! pos"] 1(3) by auto
    then show ?thesis using True 1(3) by (subst fwd_while.simps) auto
  next
    case False
    then show ?thesis using 1(2,3) by (subst fwd_while.simps) auto
  qed
qed

lemma fwd_while_stop: "pos < length b \<Longrightarrow> \<not> p (b ! pos) \<Longrightarrow> fwd_while p b hi pos = Some pos"
  by (subst fwd_while.simps) simp

section \<open>Shifts\<close>

lemma fold_up_nth:
  "hi + n \<le> length b \<Longrightarrow> lo \<le> hi \<Longrightarrow>
   length (fold (\<lambda>i b. b[i + n := b ! i]) (rev [lo..<hi]) b) = length b \<and>
   (\<forall>k < length b. fold (\<lambda>i b. b[i + n := b ! i]) (rev [lo..<hi]) b ! k =
      (if lo + n \<le> k \<and> k < hi + n then b ! (k - n) else b ! k))"
proof (induction hi arbitrary: b)
  case (Suc hi)
  show ?case
  proof (cases "lo = Suc hi")
    case False
    then have "lo \<le> hi" using Suc.prems by simp
    then show ?thesis using Suc.IH [of "b[hi + n := b ! hi]"] Suc.prems by (auto simp: nth_list_update less_Suc_eq)
  qed auto
qed auto

lemma fold_down_nth:
  "hi + n \<le> length b \<Longrightarrow> lo \<le> hi \<Longrightarrow>
   length (fold (\<lambda>i b. b[i := b ! (i + n)]) [lo..<hi] b) = length b \<and>
   (\<forall>k < length b. fold (\<lambda>i b. b[i := b ! (i + n)]) [lo..<hi] b ! k =
      (if lo \<le> k \<and> k < hi then b ! (k + n) else b ! k))"
proof (induction hi)
  case (Suc hi)
  show ?case
  proof (cases "lo = Suc hi")
    case False
    then show ?thesis using Suc by (auto simp: nth_list_update)
  qed auto
qed simp

lemma shift_up_some:
  assumes "hi + n \<le> length b" and "lo \<le> hi"
  obtains r where "shift_up lo hi n b = Some r" and "length r = length b" and "take lo r = take lo b"
    and "sub_slice (lo + n) (hi - lo) r = sub_slice lo (hi - lo) b"
proof
  let ?r = "fold (\<lambda>i b. b[i + n := b ! i]) (rev [lo..<hi]) b"
  note r = fold_up_nth [OF assms]
  show "shift_up lo hi n b = Some ?r" using assms by (simp add: shift_up_def)
  show "length ?r = length b" using r by simp
  show "take lo ?r = take lo b" using r assms by (intro nth_equalityI) auto
  show "sub_slice (lo + n) (hi - lo) ?r = sub_slice lo (hi - lo) b"
    using r assms by (intro nth_equalityI) (auto simp: nth_sub_slice)
qed

lemma shift_down_some:
  assumes "hi + n \<le> length b" and "lo \<le> hi"
  obtains r where "shift_down lo hi n b = Some r" and "length r = length b" and "take lo r = take lo b"
    and "sub_slice lo (hi - lo) r = sub_slice (lo + n) (hi - lo) b"
proof
  let ?r = "fold (\<lambda>i b. b[i := b ! (i + n)]) [lo..<hi] b"
  note r = fold_down_nth [OF assms]
  show "shift_down lo hi n b = Some ?r" using assms by (simp add: shift_down_def)
  show "length ?r = length b" using r by simp
  show "take lo ?r = take lo b" using r assms by (intro nth_equalityI) auto
  show "sub_slice lo (hi - lo) ?r = sub_slice (lo + n) (hi - lo) b"
    using r assms by (intro nth_equalityI) (auto simp: nth_sub_slice add.commute add.left_commute)
qed

section \<open>Invariant and text\<close>

definition ed_ok :: "PulseEditor \<Rightarrow> bool" where
  "ed_ok e \<longleftrightarrow>
     length (ed_buffer e) = MAX_EDITOR_BUF \<and> buf_len e \<le> MAX_EDITOR_BUF \<and> ed_cursor e \<le> buf_len e \<and>
     1 \<le> top_line e \<and> length (ed_filename e) = 32 \<and> filename_len e \<le> 32 \<and>
     length (status_msg e) = 64 \<and> status_msg_len e \<le> 64 \<and>
     (case esc_state e of Csi params n \<Rightarrow> length params = 4 \<and> n \<le> 3 | _ \<Rightarrow> True)"

text \<open>The text before and after the cursor.\<close>

definition zip_of :: "PulseEditor \<Rightarrow> str \<times> str" where
  "zip_of e = (take (ed_cursor e) (ed_text e), drop (ed_cursor e) (ed_text e))"

text \<open>What no buffer operation touches.\<close>

definition same_frame :: "PulseEditor \<Rightarrow> PulseEditor \<Rightarrow> bool" where
  "same_frame e e' \<longleftrightarrow>
     top_line e' = top_line e \<and> ed_filename e' = ed_filename e \<and> filename_len e' = filename_len e \<and>
     status_msg e' = status_msg e \<and> status_msg_len e' = status_msg_len e \<and>
     is_running e' = is_running e \<and> esc_state e' = esc_state e"

lemma length_ed_text: "ed_ok e \<Longrightarrow> length (ed_text e) = buf_len e"
  by (simp add: ed_ok_def ed_text_def)

lemma put_text_some:
  assumes "ed_ok e" and "buf_len e + length s \<le> MAX_EDITOR_BUF"
    and "length b = MAX_EDITOR_BUF" and "take (ed_cursor e) b = take (ed_cursor e) (ed_buffer e)"
    and "sub_slice (ed_cursor e + length s) (buf_len e - ed_cursor e) b =
         sub_slice (ed_cursor e) (buf_len e - ed_cursor e) (ed_buffer e)"
  shows "\<exists>e'. put_text s b e = Some e' \<and> ed_ok e' \<and> same_frame e e' \<and>
    zip_of e' = (fst (zip_of e) @ s, snd (zip_of e))"
proof -
  let ?c = "ed_cursor e" and ?n = "buf_len e"
  let ?e = "e\<lparr>ed_buffer := copy_at ?c s b, ed_cursor := ?c + length s, buf_len := ?n + length s, needs_redraw := True\<rparr>"
  have le: "?c \<le> ?n" "length (ed_buffer e) = 4096" "?n \<le> 4096" using assms(1) by (simp_all add: ed_ok_def)
  have "put_text s b e = Some ?e" using assms le by (simp add: put_text_def)
  moreover have "ed_ok ?e" using assms le by (simp add: ed_ok_def)
  moreover have "take (?n + length s) (copy_at ?c s b) =
      take ?c (ed_buffer e) @ s @ sub_slice ?c (?n - ?c) (ed_buffer e)"
  proof (cases "?c = ?n \<and> s = []")
    case True
    then show ?thesis using assms(4) le by (simp add: copy_at_def sub_slice_def)
  next
    case False
    then have "\<not> ?n + length s \<le> ?c" using le by (cases s) auto
    then show ?thesis using assms(2-5) le by (auto simp: copy_at_def sub_slice_def min_def)
  qed
  then have "zip_of ?e = (fst (zip_of e) @ s, snd (zip_of e))"
    using assms(1) le by (auto simp: zip_of_def ed_text_def sub_slice_def ed_ok_def min_def drop_take)
  ultimately show ?thesis by (auto simp: same_frame_def)
qed

lemma insert_str_some:
  assumes "ed_ok e" and "buf_len e + length s \<le> MAX_EDITOR_BUF"
  shows "\<exists>e'. insert_str s e = Some e' \<and> ed_ok e' \<and> same_frame e e' \<and>
    zip_of e' = (fst (zip_of e) @ s, snd (zip_of e))"
proof (cases "ed_cursor e = buf_len e")
  case True
  then have "insert_str s e = put_text s (ed_buffer e) e" using assms by (simp add: insert_str_def)
  then show ?thesis
    using put_text_some [OF assms, of "ed_buffer e"] assms True by (simp add: ed_ok_def sub_slice_def)
next
  case False
  obtain r where r: "shift_up (ed_cursor e) (buf_len e) (length s) (ed_buffer e) = Some r"
    "length r = length (ed_buffer e)" "take (ed_cursor e) r = take (ed_cursor e) (ed_buffer e)"
    "sub_slice (ed_cursor e + length s) (buf_len e - ed_cursor e) r =
     sub_slice (ed_cursor e) (buf_len e - ed_cursor e) (ed_buffer e)"
    using assms by (elim shift_up_some [rotated 2]) (simp_all add: ed_ok_def)
  then show ?thesis
    using put_text_some [OF assms, of r] assms False by (simp add: ed_ok_def insert_str_def)
qed

lemma insert_char_str:
  "insert_char c e = (if buf_len e < MAX_EDITOR_BUF - 1 then insert_str [c] e else Some e)"
  by (simp add: insert_char_def insert_str_def)

lemma cut_some:
  assumes "ed_ok e" and "at + count \<le> buf_len e"
  shows "\<exists>e'. cut at count e = Some e' \<and> length (ed_buffer e') = MAX_EDITOR_BUF \<and> buf_len e' = buf_len e - count \<and>
    ed_cursor e' = ed_cursor e \<and> same_frame e e' \<and> ed_text e' = take at (ed_text e) @ drop (at + count) (ed_text e)"
proof -
  let ?n = "buf_len e"
  obtain r where r: "shift_down at (?n - count) count (ed_buffer e) = Some r"
    "length r = length (ed_buffer e)" "take at r = take at (ed_buffer e)"
    "sub_slice at (?n - count - at) r = sub_slice (at + count) (?n - count - at) (ed_buffer e)"
    using assms by (elim shift_down_some [rotated 2]) (simp_all add: ed_ok_def)
  have "take (?n - count) r = take at r @ sub_slice at (?n - count - at) r"
    using assms(2) by (metis sub_slice_def take_add le_add_diff_inverse add_le_imp_le_diff)
  then have "take (?n - count) r = take at (ed_text e) @ drop (at + count) (ed_text e)"
    using r assms by (simp add: ed_text_def sub_slice_def drop_take min_def add.commute)
  then show ?thesis
    using r assms by (auto simp: cut_def ed_ok_def same_frame_def ed_text_def)
qed

section \<open>Every buffer operation\<close>

text \<open>An operation that keeps the invariant and the frame; \<^term>\<open>keeps_text\<close> one that only moves the cursor.\<close>

definition edits :: "(PulseEditor \<Rightarrow> PulseEditor option) \<Rightarrow> bool" where
  "edits f \<longleftrightarrow> (\<forall>e. ed_ok e \<longrightarrow> (\<exists>e'. f e = Some e' \<and> ed_ok e' \<and> same_frame e e'))"

definition keeps_text :: "(PulseEditor \<Rightarrow> PulseEditor option) \<Rightarrow> bool" where
  "keeps_text f \<longleftrightarrow> (\<forall>e e'. f e = Some e' \<longrightarrow> ed_text e' = ed_text e)"

lemma same_frame_refl [simp]: "same_frame e e"
  by (simp add: same_frame_def)

lemma same_frame_trans: "same_frame e e' \<Longrightarrow> same_frame e' e'' \<Longrightarrow> same_frame e e''"
  by (simp add: same_frame_def)

lemma edits_insert_str: "edits (insert_str s)"
  unfolding edits_def
proof (intro allI impI)
  fix e assume "ed_ok e"
  then show "\<exists>e'. insert_str s e = Some e' \<and> ed_ok e' \<and> same_frame e e'"
    using insert_str_some [of e s] by (cases "buf_len e + length s \<le> 4096") (auto simp: insert_str_def)
qed

lemma edits_insert_char: "edits (insert_char c)"
  using edits_insert_str [of "[c]"] by (auto simp: edits_def insert_char_str)

lemma cut_at:
  assumes "ed_ok e" and "at + count \<le> buf_len e" and "c \<le> at"
  shows "\<exists>e'. cut at count e = Some e' \<and> ed_ok (e'\<lparr>ed_cursor := c\<rparr>) \<and> same_frame e e' \<and>
    ed_cursor e' = ed_cursor e \<and> ed_text e' = take at (ed_text e) @ drop (at + count) (ed_text e)"
  using cut_some [OF assms(1,2)] assms by (auto simp: ed_ok_def same_frame_def)

lemma cut_at_cursor:
  assumes "ed_ok e" and "ed_cursor e + count \<le> buf_len e"
  shows "\<exists>e'. cut (ed_cursor e) count e = Some e' \<and> ed_ok e' \<and> same_frame e e' \<and>
    ed_cursor e' = ed_cursor e \<and> ed_text e' = take (ed_cursor e) (ed_text e) @ drop (ed_cursor e + count) (ed_text e)"
  using cut_at [OF assms, of "ed_cursor e"] by (auto simp: ed_ok_def)

lemma backspace_some:
  assumes "ed_ok e" and "0 < ed_cursor e"
  shows "\<exists>e'. delete_char_backspace e = Some e' \<and> ed_ok e' \<and> same_frame e e' \<and>
    zip_of e' = (butlast (fst (zip_of e)), snd (zip_of e))"
proof -
  have le: "ed_cursor e \<le> buf_len e" "length (ed_text e) = buf_len e"
    using assms(1) length_ed_text by (simp_all add: ed_ok_def)
  obtain e' where c: "cut (ed_cursor e - 1) 1 e = Some e'" and ok: "ed_ok (e'\<lparr>ed_cursor := ed_cursor e - 1\<rparr>)"
    and fr: "same_frame e e'" and t: "ed_text e' = take (ed_cursor e - 1) (ed_text e) @ drop (ed_cursor e) (ed_text e)"
    using cut_at [OF assms(1), of "ed_cursor e - 1" 1 "ed_cursor e - 1"] assms(2) le by auto
  let ?e = "e'\<lparr>ed_cursor := ed_cursor e - 1\<rparr>"
  have "ed_text ?e = ed_text e'" by (simp add: ed_text_def)
  then have "zip_of ?e = (butlast (fst (zip_of e)), snd (zip_of e))"
    using t le assms(2) by (simp add: zip_of_def butlast_take)
  then show ?thesis using c ok fr assms(2) by (simp add: delete_char_backspace_def same_frame_def)
qed

lemma delete_some:
  assumes "ed_ok e" and "ed_cursor e < buf_len e"
  shows "\<exists>e'. delete_char_under_cursor e = Some e' \<and> ed_ok e' \<and> same_frame e e' \<and>
    zip_of e' = (fst (zip_of e), tl (snd (zip_of e)))"
proof -
  have l: "length (ed_text e) = buf_len e" using assms(1) length_ed_text by simp
  show ?thesis
    using cut_at_cursor [OF assms(1), of 1] assms(2) l
    by (auto simp: delete_char_under_cursor_def zip_of_def drop_Suc tl_drop)
qed

lemma edits_backspace: "edits delete_char_backspace"
  using backspace_some by (fastforce simp: edits_def delete_char_backspace_def)

lemma edits_delete: "edits delete_char_under_cursor"
  using delete_some by (fastforce simp: edits_def delete_char_under_cursor_def)

text \<open>The line of the cursor.\<close>

lemma line_start_some:
  assumes "ed_ok e"
  shows "\<exists>a \<le> ed_cursor e. get_current_line_start_and_col e = Some (a, ed_cursor e - a)"
  using back_while_some [of "ed_cursor e" "ed_buffer e" no_newline] assms
  by (auto simp: get_current_line_start_and_col_def ed_ok_def)

lemma ok_cursor: "ed_ok e \<Longrightarrow> c \<le> buf_len e \<Longrightarrow> ed_ok (e\<lparr>ed_cursor := c\<rparr>)"
  by (simp add: ed_ok_def)

lemma ok_redraw [simp]: "ed_ok (e\<lparr>needs_redraw := x\<rparr>) = ed_ok e"
  by (simp add: ed_ok_def)

lemma text_frame [simp]:
  "ed_text (e\<lparr>ed_cursor := c\<rparr>) = ed_text e" "ed_text (e\<lparr>needs_redraw := x\<rparr>) = ed_text e"
  by (simp_all add: ed_text_def)

lemma fwd_ok:
  "ed_ok e \<Longrightarrow> c \<le> buf_len e \<Longrightarrow>
   \<exists>k. fwd_while p (ed_buffer e) (buf_len e) c = Some k \<and> c \<le> k \<and> k \<le> buf_len e"
  using fwd_while_some [of c "buf_len e" "ed_buffer e" p] by (simp add: ed_ok_def)

lemma bwd_ok: "ed_ok e \<Longrightarrow> c \<le> buf_len e \<Longrightarrow> \<exists>k \<le> c. back_while p (ed_buffer e) c = Some k"
  using back_while_some [of c "ed_buffer e" p] by (simp add: ed_ok_def)

lemma cursor_bound: "ed_ok e \<Longrightarrow> ed_cursor e \<le> buf_len e"
  by (simp add: ed_ok_def)

lemma move_result:
  "ed_ok e \<Longrightarrow> c \<le> buf_len e \<Longrightarrow>
   ed_ok (e\<lparr>ed_cursor := c, needs_redraw := True\<rparr>) \<and> same_frame e (e\<lparr>ed_cursor := c, needs_redraw := True\<rparr>) \<and>
   ed_ok (e\<lparr>ed_cursor := c\<rparr>) \<and> same_frame e (e\<lparr>ed_cursor := c\<rparr>)"
  by (simp add: ed_ok_def same_frame_def)

lemma editsI: "(\<And>e. ed_ok e \<Longrightarrow> \<exists>e'. f e = Some e' \<and> ed_ok e' \<and> same_frame e e') \<Longrightarrow> edits f"
  by (simp add: edits_def)

lemma edits_cursor_left: "edits cursor_left" and edits_cursor_right: "edits cursor_right"
  by (auto simp: edits_def cursor_left_def cursor_right_def move_result same_frame_def ed_ok_def)

lemma edits_cursor_home: "edits cursor_home"
proof (rule editsI)
  fix e assume e: "ed_ok e"
  then obtain a where "a \<le> ed_cursor e" "get_current_line_start_and_col e = Some (a, ed_cursor e - a)"
    using line_start_some by blast
  then show "\<exists>e'. cursor_home e = Some e' \<and> ed_ok e' \<and> same_frame e e'"
    using move_result [OF e, of a] cursor_bound [OF e] by (simp add: cursor_home_def)
qed

lemma edits_cursor_end: "edits cursor_end"
proof (rule editsI)
  fix e assume e: "ed_ok e"
  then obtain a where a: "a \<le> ed_cursor e" "get_current_line_start_and_col e = Some (a, ed_cursor e - a)"
    using line_start_some by blast
  obtain k where "fwd_while no_newline (ed_buffer e) (buf_len e) a = Some k" "k \<le> buf_len e"
    using fwd_ok [OF e, of a] a(1) cursor_bound [OF e] by auto
  then show "\<exists>e'. cursor_end e = Some e' \<and> ed_ok e' \<and> same_frame e e'"
    using move_result [OF e, of k] a by (simp add: cursor_end_def)
qed

lemma edits_move_cursor_up: "edits move_cursor_up"
proof (rule editsI)
  fix e assume e: "ed_ok e"
  then obtain a where a: "a \<le> ed_cursor e" "get_current_line_start_and_col e = Some (a, ed_cursor e - a)"
    using line_start_some by blast
  obtain k where k: "k \<le> a - 1" "back_while no_newline (ed_buffer e) (a - 1) = Some k"
    using bwd_ok [OF e, of "a - 1"] a(1) cursor_bound [OF e] by (metis diff_le_self le_trans)
  have "k + min (ed_cursor e - a) (a - 1 - k) \<le> buf_len e" using k(1) a(1) cursor_bound [OF e] by linarith
  from move_result [OF e this] show "\<exists>e'. move_cursor_up e = Some e' \<and> ed_ok e' \<and> same_frame e e'"
    using a e k by (simp add: move_cursor_up_def)
qed

lemma edits_move_cursor_down: "edits move_cursor_down"
proof (rule editsI)
  fix e assume e: "ed_ok e"
  then obtain a where a: "get_current_line_start_and_col e = Some (a, ed_cursor e - a)"
    using line_start_some by blast
  obtain k where k: "fwd_while no_newline (ed_buffer e) (buf_len e) (ed_cursor e) = Some k" "k \<le> buf_len e"
    using fwd_ok [OF e cursor_bound [OF e]] by auto
  show "\<exists>e'. move_cursor_down e = Some e' \<and> ed_ok e' \<and> same_frame e e'"
  proof (cases "k < buf_len e")
    case True
    then obtain j where j: "fwd_while no_newline (ed_buffer e) (buf_len e) (k + 1) = Some j" "k + 1 \<le> j" "j \<le> buf_len e"
      using fwd_ok [OF e, of "k + 1"] by auto
    have "(k + 1) + min (ed_cursor e - a) (j - (k + 1)) \<le> buf_len e" using j by linarith
    from move_result [OF e this] show ?thesis using a k j True by (simp add: move_cursor_down_def)
  next
    case False
    then show ?thesis using a e k by (simp add: move_cursor_down_def)
  qed
qed

lemma edits_move_word_left: "edits move_word_left"
proof (rule editsI)
  fix e assume e: "ed_ok e"
  obtain k where k: "k \<le> ed_cursor e" "back_while word_gap (ed_buffer e) (ed_cursor e) = Some k"
    using bwd_ok [OF e cursor_bound [OF e]] by blast
  then obtain j where j: "j \<le> k" "back_while (\<lambda>c. \<not> word_gap c) (ed_buffer e) k = Some j"
    using bwd_ok [OF e, of k] cursor_bound [OF e] by auto
  then have "j \<le> buf_len e" using k cursor_bound [OF e] by simp
  from move_result [OF e this] show "\<exists>e'. move_word_left e = Some e' \<and> ed_ok e' \<and> same_frame e e'"
    using k j e by (simp add: move_word_left_def)
qed

lemma edits_move_word_right: "edits move_word_right"
proof (rule editsI)
  fix e assume e: "ed_ok e"
  obtain k where k: "fwd_while (\<lambda>c. \<not> word_gap c) (ed_buffer e) (buf_len e) (ed_cursor e) = Some k" "k \<le> buf_len e"
    using fwd_ok [OF e cursor_bound [OF e]] by blast
  then obtain j where j: "fwd_while word_gap (ed_buffer e) (buf_len e) k = Some j" "j \<le> buf_len e"
    using fwd_ok [OF e, of k] by auto
  from move_result [OF e j(2)] show "\<exists>e'. move_word_right e = Some e' \<and> ed_ok e' \<and> same_frame e e'"
    using k j e by (simp add: move_word_right_def)
qed

lemma edits_cut:
  assumes "ed_ok e" and "at + count \<le> buf_len e" and "c \<le> at"
  shows "\<exists>e'. map_option (\<lambda>e'. e'\<lparr>ed_cursor := c\<rparr>) (cut at count e) = Some e' \<and> ed_ok e' \<and> same_frame e e'"
  using cut_at [OF assms] by (auto simp: same_frame_def)

lemma edits_kill_backward: "edits kill_line_backward"
proof (rule editsI)
  fix e assume e: "ed_ok e"
  then obtain a where a: "a \<le> ed_cursor e" "get_current_line_start_and_col e = Some (a, ed_cursor e - a)"
    using line_start_some by blast
  then show "\<exists>e'. kill_line_backward e = Some e' \<and> ed_ok e' \<and> same_frame e e'"
    using e cursor_bound [OF e] edits_cut [OF e, of a "ed_cursor e - a" a] by (auto simp: kill_line_backward_def)
qed

lemma edits_kill_forward: "edits kill_line_forward"
proof (rule editsI)
  fix e assume e: "ed_ok e"
  show "\<exists>e'. kill_line_forward e = Some e' \<and> ed_ok e' \<and> same_frame e e'"
  proof (cases "ed_cursor e < buf_len e")
    case True
    obtain k where k: "fwd_while no_newline (ed_buffer e) (buf_len e) (ed_cursor e) = Some k"
      "ed_cursor e \<le> k" "k \<le> buf_len e"
      using fwd_ok [OF e cursor_bound [OF e]] by blast
    let ?m = "if k = ed_cursor e \<and> k < buf_len e \<and> ed_buffer e ! k = 10 then k + 1 else k"
    have m: "ed_cursor e \<le> ?m" "?m \<le> buf_len e" using k by auto
    then have "ed_cursor e + (?m - ed_cursor e) \<le> buf_len e" by simp
    then obtain e' where "cut (ed_cursor e) (?m - ed_cursor e) e = Some e'" "ed_ok e'" "same_frame e e'"
      using cut_at_cursor [OF e] by blast
    then show ?thesis using True k(1) e by (auto simp: kill_line_forward_def Let_def)
  qed (use e in \<open>simp add: kill_line_forward_def\<close>)
qed

lemma edits_cut_current_line: "edits cut_current_line"
proof (rule editsI)
  fix e assume e: "ed_ok e"
  then obtain a where a: "a \<le> ed_cursor e" "get_current_line_start_and_col e = Some (a, ed_cursor e - a)"
    using line_start_some by blast
  obtain k where k: "fwd_while no_newline (ed_buffer e) (buf_len e) a = Some k" "a \<le> k" "k \<le> buf_len e"
    using fwd_ok [OF e, of a] a(1) cursor_bound [OF e] by auto
  let ?n = "(if k < buf_len e then k + 1 else k) - a"
  have "a + ?n \<le> buf_len e" using k(2,3) by auto
  then obtain e' where "cut a ?n e = Some e'" "ed_ok (e'\<lparr>ed_cursor := a\<rparr>)" "same_frame e e'"
    using cut_at [OF e] by blast
  then show "\<exists>e'. cut_current_line e = Some e' \<and> ed_ok e' \<and> same_frame e e'"
    using a k(1) e by (auto simp: cut_current_line_def Let_def same_frame_def ed_ok_def)
qed

lemma edits_times: "edits f \<Longrightarrow> edits (times n f)"
proof (induction n)
  case (Suc n)
  show ?case
  proof (rule editsI)
    fix e assume "ed_ok e"
    then obtain e1 where e1: "f e = Some e1" "ed_ok e1" "same_frame e e1" using Suc.prems by (auto simp: edits_def)
    then obtain e2 where "times n f e1 = Some e2" "ed_ok e2" "same_frame e1 e2"
      using Suc.IH [OF Suc.prems] by (auto simp: edits_def)
    then show "\<exists>e'. times (Suc n) f e = Some e' \<and> ed_ok e' \<and> same_frame e e'"
      using e1 same_frame_trans by auto
  qed
qed (simp add: edits_def)

lemmas edits_all =
  edits_insert_str edits_insert_char edits_backspace edits_delete edits_cursor_left edits_cursor_right
  edits_cursor_home edits_cursor_end edits_move_cursor_up edits_move_cursor_down edits_move_word_left
  edits_move_word_right edits_cut_current_line edits_times

section \<open>The view\<close>

definition visible :: "PulseEditor \<Rightarrow> bool" where
  "visible e \<longleftrightarrow> (\<exists>row col. get_row_col e = Some (row, col) \<and> top_line e \<le> row \<and> row < top_line e + 21)"

lemma row_col_row: "fst rc \<le> fst (row_col cs rc)"
  by (induction cs rc rule: row_col.induct) auto

lemma row_pos: "get_row_col e = Some (row, col) \<Longrightarrow> 1 \<le> row"
  using row_col_row [of "(1, 1)" "take (ed_cursor e) (ed_buffer e)"] by (auto simp: get_row_col_def split: if_splits)

lemma get_row_col_frame [simp]: "get_row_col (e\<lparr>top_line := x\<rparr>) = get_row_col e"
  by (simp add: get_row_col_def)

lemma get_row_col_some: "ed_ok e \<Longrightarrow> \<exists>row col. get_row_col e = Some (row, col)"
  by (auto simp: get_row_col_def ed_ok_def prod_eq_iff intro: exI [of _ "fst _"])

lemma adjust_scroll_some:
  assumes "ed_ok e"
  shows "\<exists>m t. adjust_scroll e = Some (m, e\<lparr>top_line := t\<rparr>) \<and> 1 \<le> t \<and> visible (e\<lparr>top_line := t\<rparr>)"
proof -
  obtain row col where r: "get_row_col e = Some (row, col)" using get_row_col_some [OF assms] by blast
  then have row: "1 \<le> row" by (rule row_pos)
  let ?top = "if top_line e = 0 then 1 else top_line e"
  let ?t = "if row < ?top then row else if ?top + 21 \<le> row then row - 21 + 1 else ?top"
  have "adjust_scroll e = Some (?t \<noteq> top_line e, e\<lparr>top_line := ?t\<rparr>)"
    unfolding adjust_scroll_def r by (simp only: option.case prod.case Let_def)
  moreover have "1 \<le> ?t \<and> visible (e\<lparr>top_line := ?t\<rparr>)" using row by (auto simp: visible_def r)
  ultimately show ?thesis by blast
qed

text \<open>A drawing operation: total, keeps everything but the view, and leaves the cursor in view.\<close>

definition draws :: "(PulseEditor \<Rightarrow> PulseEditor option) \<Rightarrow> bool" where
  "draws f \<longleftrightarrow>
     (\<forall>e. ed_ok e \<longrightarrow> (\<exists>t r. f e = Some (e\<lparr>top_line := t, needs_redraw := r\<rparr>) \<and> 1 \<le> t \<and> visible (e\<lparr>top_line := t\<rparr>)))"

lemma visible_redraw [simp]: "visible (e\<lparr>needs_redraw := x\<rparr>) = visible e"
  by (simp add: visible_def get_row_col_def)

lemma redraw_some:
  assumes "ed_ok e"
  shows "\<exists>t. redraw e = Some (e\<lparr>top_line := t, needs_redraw := False\<rparr>) \<and> 1 \<le> t \<and> visible (e\<lparr>top_line := t\<rparr>)"
  using adjust_scroll_some [OF assms] by (auto simp: redraw_def visible_def)

lemma ok_top: "ed_ok e \<Longrightarrow> 1 \<le> t \<Longrightarrow> ed_ok (e\<lparr>top_line := t\<rparr>)"
  by (simp add: ed_ok_def)

lemma draws_redraw: "draws redraw"
  using redraw_some by (fastforce simp: draws_def)

lemma draws_line: "draws redraw_current_line"
  unfolding draws_def
proof (intro allI impI)
  fix e assume e: "ed_ok e"
  obtain m t where a: "adjust_scroll e = Some (m, e\<lparr>top_line := t\<rparr>)" "1 \<le> t" "visible (e\<lparr>top_line := t\<rparr>)"
    using adjust_scroll_some [OF e] by blast
  note ok = ok_top [OF e a(2)]
  obtain t' where r: "redraw (e\<lparr>top_line := t\<rparr>) = Some (e\<lparr>top_line := t', needs_redraw := False\<rparr>)" "1 \<le> t'"
      "visible (e\<lparr>top_line := t'\<rparr>)"
    using redraw_some [OF ok] by auto
  obtain s where s: "get_current_line_start_and_col (e\<lparr>top_line := t\<rparr>) = Some s" using line_start_some [OF ok] by blast
  show "\<exists>t r. redraw_current_line e = Some (e\<lparr>top_line := t, needs_redraw := r\<rparr>) \<and> 1 \<le> t \<and> visible (e\<lparr>top_line := t\<rparr>)"
  proof (cases m)
    case True
    then show ?thesis using a r by (auto simp: redraw_current_line_def)
  next
    case False
    then have "redraw_current_line e = Some (e\<lparr>top_line := t, needs_redraw := False\<rparr>)"
      using a s by (auto simp: redraw_current_line_def visible_def)
    then show ?thesis using a by blast
  qed
qed

lemma draws_cursor: "draws update_cursor_only"
  unfolding draws_def
proof (intro allI impI)
  fix e assume e: "ed_ok e"
  obtain m t where a: "adjust_scroll e = Some (m, e\<lparr>top_line := t\<rparr>)" "1 \<le> t" "visible (e\<lparr>top_line := t\<rparr>)"
    using adjust_scroll_some [OF e] by blast
  obtain t' where r: "redraw (e\<lparr>top_line := t\<rparr>) = Some (e\<lparr>top_line := t', needs_redraw := False\<rparr>)" "1 \<le> t'"
      "visible (e\<lparr>top_line := t'\<rparr>)"
    using redraw_some [OF ok_top [OF e a(2)]] by auto
  have n: "e\<lparr>top_line := t\<rparr> = e\<lparr>top_line := t, needs_redraw := needs_redraw e\<rparr>" by simp
  show "\<exists>t r. update_cursor_only e = Some (e\<lparr>top_line := t, needs_redraw := r\<rparr>) \<and> 1 \<le> t \<and> visible (e\<lparr>top_line := t\<rparr>)"
  proof (cases m)
    case True
    then show ?thesis using a r by (auto simp: update_cursor_only_def)
  next
    case False
    then have "update_cursor_only e = Some (e\<lparr>top_line := t\<rparr>)" using a by (auto simp: update_cursor_only_def visible_def)
    then show ?thesis using a n by metis
  qed
qed

section \<open>Sessions\<close>

text \<open>The cursor is in view, or a redraw is due before the next input is waited for.\<close>

definition session_ok :: "'w session \<Rightarrow> bool" where
  "session_ok s \<longleftrightarrow>
     ed_ok (ed s) \<and>
     (is_running (ed s) \<longrightarrow> visible (ed s) \<or> structure_changed s \<or> line_changed s \<or> cursor_only s)"

definition safe :: "(session_fault, 'w session) outcome \<Rightarrow> bool" where
  "safe r \<longleftrightarrow> (case r of Ok s \<Rightarrow> session_ok s | Err _ \<Rightarrow> True | Panic \<Rightarrow> False)"

lemma on_ed_edits:
  assumes "edits f" and "ed_ok (ed s)"
  shows "\<exists>e'. on_ed f s = Ok (s\<lparr>ed := e'\<rparr>) \<and> ed_ok e' \<and> same_frame (ed s) e'"
proof -
  obtain e' where "f (ed s) = Some e'" "ed_ok e'" "same_frame (ed s) e'" using assms by (auto simp: edits_def)
  then show ?thesis by (auto simp: on_ed_def)
qed

lemma safe_edit:
  assumes "edits f" and "session_ok s"
    and "\<And>s'. ed_ok (ed s') \<Longrightarrow> ed_ok (ed (g s')) \<and> (structure_changed (g s') \<or> line_changed (g s') \<or> cursor_only (g s'))"
  shows "safe (then_set g (on_ed f s))"
proof -
  have "ed_ok (ed s)" using assms(2) by (simp add: session_ok_def)
  then obtain e' where "on_ed f s = Ok (s\<lparr>ed := e'\<rparr>)" "ed_ok e'" using on_ed_edits [OF assms(1)] by blast
  then show ?thesis using assms(3) [of "s\<lparr>ed := e'\<rparr>"] by (simp add: safe_def then_set_def session_ok_def)
qed

lemma ed_ok_status: "ed_ok e \<Longrightarrow> ed_ok (set_status m e)"
  by (auto simp: set_status_def ed_ok_def Let_def)

lemma visible_status [simp]: "visible (set_status m e) = visible e"
  by (simp add: visible_def set_status_def get_row_col_def Let_def)

lemma running_status [simp]: "is_running (set_status m e) = is_running e"
  by (simp add: set_status_def Let_def)

lemma save_file_cases:
  obtains (panic) "save_file h s = Err FsPanic"
  | (saved) m f where "save_file h s = Ok (s\<lparr>ed := (set_status m (ed s))\<lparr>needs_redraw := True\<rparr>, sys := f\<rparr>)"
  by (cases "fs_write (checked_build h) (ports_of h) (filename_str (ed s)) (ed_text (ed s)) (sys s)" rule: prod.exhaust,
      rename_tac r f, case_tac r) (auto simp: save_file_def)

lemma safe_save:
  assumes "ed_ok (ed s)"
    and "\<And>s'. ed_ok (ed s') \<Longrightarrow> session_ok (g s')"
  shows "safe (then_set g (save_file h s))"
  using ed_ok_status [OF assms(1)] assms(2)
  by (cases h s rule: save_file_cases) (auto simp: safe_def then_set_def)

lemma safe_run:
  assumes "ed_ok (ed s)" and "\<And>s'. ed_ok (ed s') \<Longrightarrow> session_ok (g s')"
  shows "safe (then_set g (run_code h s))"
proof -
  obtain fine f where f: "run_script h (ed_text (ed s)) (sys s) = (fine, f)" by fastforce
  define m where "m = bytes (if fine then ''Code executed successfully.'' else ''Compile/Runtime error! (Diagnostic displayed)'')"
  define e where "e = (set_status m (ed s))\<lparr>needs_redraw := True\<rparr>"
  have "ed_ok e" using ed_ok_status [OF assms(1)] by (simp add: e_def)
  then obtain t where "redraw e = Some (e\<lparr>top_line := t, needs_redraw := False\<rparr>)" "1 \<le> t"
    using redraw_some by blast
  moreover have "ed_ok (e\<lparr>top_line := t, needs_redraw := False\<rparr>)" using \<open>ed_ok e\<close> calculation(2) by (simp add: ed_ok_def)
  moreover have "run_code h s = on_ed redraw (s\<lparr>sys := f, ed := e\<rparr>)"
    by (simp add: run_code_def f m_def e_def)
  ultimately show ?thesis using assms(2) by (simp add: on_ed_def then_set_def safe_def)
qed


lemma set_esc_facts [simp]:
  "visible (ed (set_esc x s)) = visible (ed s)" "is_running (ed (set_esc x s)) = is_running (ed s)"
  "structure_changed (set_esc x s) = structure_changed s" "line_changed (set_esc x s) = line_changed s"
  "cursor_only (set_esc x s) = cursor_only s"
  by (simp_all add: set_esc_def visible_def get_row_col_def)

lemma ok_esc:
  "ed_ok (ed s) \<Longrightarrow> (case x of Csi params n \<Rightarrow> length params = 4 \<and> n \<le> 3 | _ \<Rightarrow> True) \<Longrightarrow> ed_ok (ed (set_esc x s))"
  by (simp add: set_esc_def ed_ok_def)

lemma session_ok_esc:
  "session_ok s \<Longrightarrow> (case x of Csi params n \<Rightarrow> length params = 4 \<and> n \<le> 3 | _ \<Rightarrow> True) \<Longrightarrow> session_ok (set_esc x s)"
  by (simp add: session_ok_def ok_esc)

lemma session_ok_quit: "ed_ok (ed s) \<Longrightarrow> session_ok (quit s)"
  by (simp add: session_ok_def quit_def ed_ok_def)

lemma session_ok_flagged: "ed_ok (ed s) \<Longrightarrow> structure_changed s \<or> line_changed s \<or> cursor_only s \<Longrightarrow> session_ok s"
  by (simp add: session_ok_def)

lemma safe_Ok [simp]: "safe (Ok s) = session_ok s"
  by (simp add: safe_def)

lemma safe_then_esc: "safe r \<Longrightarrow> safe (then_set (set_esc Normal) r)"
  by (cases r) (simp_all add: safe_def then_set_def session_ok_esc)

lemma safe_key_normal:
  assumes "session_ok s"
  shows "safe (key_normal h b s)"
proof -
  have ok: "ed_ok (ed s)" using assms by (simp add: session_ok_def)
  have e: "safe (then_set changed (on_ed f s))"
    "safe (then_set (\<lambda>s. s\<lparr>structure_changed := True, last_was_cr := x\<rparr>) (on_ed f s))"
    "safe (then_set (\<lambda>s. s\<lparr>line_changed := True, last_was_cr := x\<rparr>) (on_ed f s))" if "edits f" for f x
    by (rule safe_edit [OF that assms]; simp)+
  have o: "safe (then_set changed (save_file h s))" "safe (then_set changed (run_code h s))"
    "safe (then_set quit (save_file h s))"
    by (rule safe_save [OF ok] safe_run [OF ok]; simp add: session_ok_flagged session_ok_quit)+
  have c: "session_ok (set_esc Esc s)" "session_ok (quit s)" "session_ok (changed s)" "session_ok (s\<lparr>last_was_cr := x\<rparr>)" for x
    using assms ok session_ok_esc [OF assms, of Esc] session_ok_quit by (auto simp: session_ok_def)
  show ?thesis
    unfolding key_normal_def by (simp add: e o c edits_all)
qed

lemma safe_key_esc:
  assumes "session_ok s"
  shows "safe (key_esc h b s)"
proof -
  have ok: "ed_ok (ed s)" using assms by (simp add: session_ok_def)
  have o: "safe (then_set (\<lambda>s. set_esc Normal (changed s)) (save_file h s))"
    "safe (then_set (\<lambda>s. set_esc Normal (changed s)) (run_code h s))"
    by (rule safe_save [OF ok] safe_run [OF ok]; simp add: session_ok_flagged session_ok_esc)+
  have e: "safe (then_set (\<lambda>s. set_esc Normal (s\<lparr>line_changed := True\<rparr>)) (on_ed (insert_char b) s))"
    by (rule safe_edit [OF edits_insert_char assms]) (simp add: ok_esc)
  have k: "session_ok (set_esc Normal (changed (s\<lparr>ed := clear_buffer (ed s)\<rparr>)))"
    using ok ed_ok_status [of "(ed s)\<lparr>buf_len := 0, ed_cursor := 0\<rparr>"]
    by (intro session_ok_esc session_ok_flagged) (simp_all add: clear_buffer_def ed_ok_def)
  show ?thesis
    using assms by (simp add: key_esc_def o e k session_ok_esc session_ok_quit ok)
qed

lemma safe_key_ss3:
  assumes "session_ok s"
  shows "safe (key_ss3 h b s)"
proof -
  have ok: "ed_ok (ed s)" using assms by (simp add: session_ok_def)
  have e: "safe (then_set moved (on_ed f s))" if "edits f" for f
    by (rule safe_edit [OF that assms]) simp
  have o: "safe (then_set changed (save_file h s))" by (rule safe_save [OF ok]) (simp add: session_ok_flagged)
  have c: "session_ok (changed s)" using ok by (simp add: session_ok_flagged)
  show ?thesis
    unfolding key_ss3_def by (rule safe_then_esc) (simp add: e o c assms edits_all)
qed

lemma safe_csi_tilde:
  assumes "session_ok s"
  shows "safe (csi_tilde h v s)"
proof -
  have ok: "ed_ok (ed s)" using assms by (simp add: session_ok_def)
  have o: "safe (then_set (\<lambda>s. set_esc Normal (changed s)) (save_file h s))"
    "safe (then_set (\<lambda>s. set_esc Normal (changed s)) (run_code h s))"
    by (rule safe_save [OF ok] safe_run [OF ok]; simp add: session_ok_flagged session_ok_esc)+
  have e: "safe (then_set moved (on_ed f s))" "safe (then_set changed (on_ed f s))" if "edits f" for f
    by (rule safe_edit [OF that assms]; simp)+
  have c: "session_ok (changed s)" using ok by (simp add: session_ok_flagged)
  show ?thesis
    unfolding csi_tilde_def by (simp add: o session_ok_quit [OF ok] safe_then_esc e c assms edits_all)
qed

lemma safe_key_csi:
  assumes "session_ok s" and "length params = 4" and "n \<le> 3"
  shows "safe (key_csi h params n b s)"
proof -
  have e: "safe (then_set (\<lambda>s. set_esc Normal (moved s)) (on_ed f s))"
    "safe (then_set (\<lambda>s. set_esc Normal (changed s)) (on_ed f s))" if "edits f" for f
    by (rule safe_edit [OF that assms(1)]; simp add: ok_esc)+
  have m: "edits (if c then f else g)" if "edits f" "edits g" for c f g using that by simp
  show ?thesis
    using assms unfolding key_csi_def Let_def
    by (simp add: e safe_csi_tilde session_ok_esc edits_all)
qed

lemma safe_handle_byte: "session_ok s \<Longrightarrow> safe (handle_byte h b s)"
  by (cases "esc_state (ed s)")
    (simp_all add: handle_byte_def safe_key_normal safe_key_esc safe_key_ss3 safe_key_csi session_ok_def ed_ok_def)

lemma safe_drain: "session_ok s \<Longrightarrow> safe (drain h bs s)"
proof (induction bs arbitrary: s)
  case (Cons b bs)
  then show ?case
    using safe_handle_byte [OF Cons.prems, of h b] by (cases "handle_byte h b s") (auto simp: safe_def)
qed simp

text \<open>After a refresh the cursor of a running editor is in view.\<close>

definition settled :: "'w session \<Rightarrow> bool" where
  "settled s \<longleftrightarrow> ed_ok (ed s) \<and> (is_running (ed s) \<longrightarrow> visible (ed s))"

lemma on_ed_draws:
  assumes "draws f" and "ed_ok (ed s)"
  shows "\<exists>e'. on_ed f s = Ok (s\<lparr>ed := e'\<rparr>) \<and> ed_ok e' \<and> visible e' \<and> is_running e' = is_running (ed s)"
proof -
  obtain t r where f: "f (ed s) = Some ((ed s)\<lparr>top_line := t, needs_redraw := r\<rparr>)" and "1 \<le> t"
    and "visible ((ed s)\<lparr>top_line := t\<rparr>)"
    using assms by (auto simp: draws_def)
  then have "ed_ok ((ed s)\<lparr>top_line := t, needs_redraw := r\<rparr>)" "visible ((ed s)\<lparr>top_line := t, needs_redraw := r\<rparr>)"
    using assms(2) by (simp_all add: ed_ok_def)
  then show ?thesis using f by (auto simp: on_ed_def)
qed

lemma refresh_settles: "session_ok s \<Longrightarrow> \<exists>s'. refresh s = Ok s' \<and> settled s'"
  using on_ed_draws [OF draws_redraw, of s] on_ed_draws [OF draws_line, of s] on_ed_draws [OF draws_cursor, of s]
  by (auto simp: refresh_def session_ok_def settled_def then_set_def)

lemma settled_ok: "settled s \<Longrightarrow> session_ok s"
  by (simp add: settled_def session_ok_def)

lemma edit_loop_settled:
  "settled s \<Longrightarrow> edit_loop h bursts s \<noteq> Panic \<and> (\<forall>s'. edit_loop h bursts s = Ok s' \<longrightarrow> settled s')"
proof (induction bursts arbitrary: s)
  case (Cons burst bursts)
  show ?case
  proof (cases "drain h burst s")
    case (Ok s1)
    then have "session_ok s1" using safe_drain [OF settled_ok [OF Cons.prems], of h burst] by simp
    then obtain s2 where "refresh s1 = Ok s2" "settled s2" using refresh_settles by blast
    then show ?thesis using Ok Cons by simp
  next
    case Panic
    then show ?thesis using safe_drain [OF settled_ok [OF Cons.prems], of h burst] by (simp add: safe_def)
  qed (use Cons.prems in simp)
qed simp

section \<open>Files\<close>

lemma ed_ok_load:
  assumes "ed_ok e"
  shows "ed_ok (load_file nm f e)"
proof (cases "fs_read nm f")
  case None
  then show ?thesis using assms by (auto simp: load_file_def set_filename_def ed_ok_def set_status_def Let_def)
next
  case (Some content)
  then show ?thesis using assms by (auto simp: load_file_def set_filename_def ed_ok_def set_status_def Let_def)
qed

lemma load_text: "ed_ok e \<Longrightarrow> fs_read nm f = Some content \<Longrightarrow> ed_text (load_file nm f e) = take MAX_EDITOR_BUF content"
  by (auto simp: load_file_def set_filename_def set_status_def ed_text_def ed_ok_def copy_at_def Let_def min_def)

lemma load_name:
  assumes "ed_ok e"
  shows "filename_str (load_file nm f e) =
    (if nm = [] \<or> \<not> utf8_valid (take 32 nm) then bytes ''untitled.pul'' else take 32 nm)"
proof -
  have "take (filename_len (load_file nm f e)) (ed_filename (load_file nm f e)) = take 32 nm"
    and "filename_len (load_file nm f e) = min (length nm) 32"
    using assms by (auto simp: load_file_def set_filename_def set_status_def ed_ok_def copy_at_def Let_def min_def split: option.split)
  then show ?thesis by (auto simp: filename_str_def Let_def)
qed

lemma status_set: "ed_ok e \<Longrightarrow> length m \<le> 64 \<Longrightarrow> m \<noteq> [] \<Longrightarrow> utf8_valid m \<Longrightarrow> status_str (set_status m e) = m"
  by (auto simp: status_str_def set_status_def ed_ok_def copy_at_def Let_def)

lemma save_messages:
  assumes "ed_ok e"
  shows "status_str (set_status (bytes ''Saved to LatencyFS.'') e) = bytes ''Saved to LatencyFS.''"
    "status_str (set_status (bytes ''Save failed!'') e) = bytes ''Save failed!''"
proof -
  have u: "utf8_valid (bytes ''Saved to LatencyFS.'')" "utf8_valid (bytes ''Save failed!'')" by code_simp+
  show "status_str (set_status (bytes ''Saved to LatencyFS.'') e) = bytes ''Saved to LatencyFS.''"
    by (rule status_set [OF assms _ _ u(1)]) simp_all
  show "status_str (set_status (bytes ''Save failed!'') e) = bytes ''Save failed!''"
    by (rule status_set [OF assms _ _ u(2)]) simp_all
qed

lemma text_status [simp]: "ed_text (set_status m e) = ed_text e"
  by (simp add: ed_text_def set_status_def Let_def)

lemma status_redraw [simp]: "status_str (e\<lparr>needs_redraw := x\<rparr>) = status_str e"
  by (simp add: status_str_def)

section \<open>Typing\<close>

lemma zip_length: "ed_ok e \<Longrightarrow> buf_len e = length (fst (zip_of e)) + length (snd (zip_of e)) \<and> ed_cursor e = length (fst (zip_of e))"
  using length_ed_text [of e] by (auto simp: zip_of_def ed_ok_def)

definition typing :: "'w session \<Rightarrow> bool" where
  "typing s \<longleftrightarrow> ed_ok (ed s) \<and> esc_state (ed s) = Normal \<and> is_running (ed s)"

lemma type_byte:
  assumes "typing s" and "printable b" and "buf_len (ed s) < MAX_EDITOR_BUF - 1"
  shows "\<exists>s'. handle_byte h b s = Ok s' \<and> typing s' \<and>
    zip_of (ed s') = (fst (zip_of (ed s)) @ [b], snd (zip_of (ed s)))"
proof -
  have nb: "b \<noteq> 0x1B" "b \<noteq> 0x11" "b \<noteq> 0x13" "b \<noteq> 0x12" "b \<noteq> 0x18" "b \<noteq> 0x0C" "b \<noteq> 0x19" "b \<noteq> 0x16" "b \<noteq> 0x0B" "b \<noteq> 0x15"
    "b \<noteq> 9" "b \<noteq> 8" "b \<noteq> 0x7F" "b \<noteq> 13" "b \<noteq> 10"
    using assms(2) by (auto simp: printable_def)
  have ok: "ed_ok (ed s)" and st: "esc_state (ed s) = Normal" "is_running (ed s)" using assms(1) by (simp_all add: typing_def)
  obtain e' where e': "insert_char b (ed s) = Some e'" "ed_ok e'" "same_frame (ed s) e'"
    "zip_of e' = (fst (zip_of (ed s)) @ [b], snd (zip_of (ed s)))"
    using insert_str_some [OF ok, of "[b]"] assms(3) by (auto simp: insert_char_str)
  have "handle_byte h b s = then_set (\<lambda>s. s\<lparr>line_changed := True, last_was_cr := False\<rparr>) (on_ed (insert_char b) s)"
    using nb assms(2) st by (simp add: handle_byte_def key_normal_def)
  then show ?thesis using e' st by (simp add: then_set_def on_ed_def typing_def same_frame_def)
qed

lemma erase_byte:
  assumes "typing s" and "fst (zip_of (ed s)) \<noteq> []"
  shows "\<exists>s'. handle_byte h 8 s = Ok s' \<and> typing s' \<and>
    zip_of (ed s') = (butlast (fst (zip_of (ed s))), snd (zip_of (ed s)))"
proof -
  have ok: "ed_ok (ed s)" and st: "esc_state (ed s) = Normal" "is_running (ed s)" using assms(1) by (simp_all add: typing_def)
  have "0 < ed_cursor (ed s)" using zip_length [OF ok] assms(2) by auto
  then obtain e' where e': "delete_char_backspace (ed s) = Some e'" "ed_ok e'" "same_frame (ed s) e'"
    "zip_of e' = (butlast (fst (zip_of (ed s))), snd (zip_of (ed s)))"
    using backspace_some [OF ok] by auto
  then show ?thesis
    using st by (simp add: handle_byte_def key_normal_def then_set_def on_ed_def typing_def same_frame_def)
qed

lemma type_bytes:
  "typing s \<Longrightarrow> \<forall>b \<in> set cs. printable b \<Longrightarrow> buf_len (ed s) + length cs < MAX_EDITOR_BUF \<Longrightarrow>
   \<exists>s'. drain h cs s = Ok s' \<and> typing s' \<and> zip_of (ed s') = (fst (zip_of (ed s)) @ cs, snd (zip_of (ed s)))"
proof (induction cs arbitrary: s)
  case (Cons b cs)
  obtain s1 where s1: "handle_byte h b s = Ok s1" "typing s1"
    "zip_of (ed s1) = (fst (zip_of (ed s)) @ [b], snd (zip_of (ed s)))"
    using type_byte [OF Cons.prems(1), of b h] Cons.prems by auto
  then have "buf_len (ed s1) = buf_len (ed s) + 1"
    using zip_length [of "ed s1"] zip_length [of "ed s"] Cons.prems(1) by (simp add: typing_def)
  then obtain s2 where "drain h cs s1 = Ok s2" "typing s2"
    "zip_of (ed s2) = (fst (zip_of (ed s1)) @ cs, snd (zip_of (ed s1)))"
    using Cons.IH [OF s1(2)] Cons.prems by auto
  then show ?case using s1 by (auto simp: typing_def)
qed simp

lemma erase_bytes:
  "typing s \<Longrightarrow> fst (zip_of (ed s)) = xs @ cs \<Longrightarrow>
   \<exists>s'. drain h (replicate (length cs) 8) s = Ok s' \<and> typing s' \<and> zip_of (ed s') = (xs, snd (zip_of (ed s)))"
proof (induction cs arbitrary: s rule: rev_induct)
  case Nil
  then show ?case by (cases "zip_of (ed s)") simp
next
  case (snoc c cs)
  obtain s1 where s1: "handle_byte h 8 s = Ok s1" "typing s1" "zip_of (ed s1) = (xs @ cs, snd (zip_of (ed s)))"
    using erase_byte [OF snoc.prems(1), of h] snoc.prems(2) by (auto simp: butlast_append)
  then obtain s2 where "drain h (replicate (length cs) 8) s1 = Ok s2" "typing s2" "zip_of (ed s2) = (xs, snd (zip_of (ed s1)))"
    using snoc.IH [OF s1(2)] by auto
  then show ?case using s1 by (auto simp: typing_def)
qed

section \<open>Properties\<close>


text \<open>
  Typing and erasing. In a session that is not inside an escape sequence, typing printable
  characters that fit inserts them before the cursor and nothing else in the text changes; as
  many backspaces restore the text and the cursor.
\<close>

theorem type_then_erase:
  assumes "typing s" and "\<forall>b \<in> set cs. printable b" and "buf_len (ed s) + length cs < MAX_EDITOR_BUF"
  shows "\<exists>s1 s2. drain h cs s = Ok s1 \<and>
    zip_of (ed s1) = (fst (zip_of (ed s)) @ cs, snd (zip_of (ed s))) \<and>
    drain h (replicate (length cs) 8) s1 = Ok s2 \<and> zip_of (ed s2) = zip_of (ed s)"
proof -
  obtain s1 where s1: "drain h cs s = Ok s1" "typing s1" "zip_of (ed s1) = (fst (zip_of (ed s)) @ cs, snd (zip_of (ed s)))"
    using type_bytes [OF assms] by blast
  then obtain s2 where "drain h (replicate (length cs) 8) s1 = Ok s2" "zip_of (ed s2) = (fst (zip_of (ed s)), snd (zip_of (ed s1)))"
    using erase_bytes [OF s1(2), of "fst (zip_of (ed s))" cs h] by auto
  then show ?thesis using s1 by auto
qed

text \<open>
  C38: What is reported as saved is saved. When a save ends with the message that the text was
  saved, the file system holds exactly the text of the buffer under the name of the file, and
  opening that file again shows the same text.
\<close>

theorem editor_save_reopen:
  assumes "fs_ok (sys s)" and "ed_ok (ed s)" and "\<not> vfs_is_vram_path (filename_str (ed s))"
    and "save_file h s = Ok s'" and "status_str (ed s') = bytes ''Saved to LatencyFS.''" and "ed_ok e2"
  shows "fs_read (filename_str (ed s)) (sys s') = Some (ed_text (ed s)) \<and>
    ed_text (load_file (filename_str (ed s)) (sys s') e2) = ed_text (ed s)"
proof -
  obtain r f where w: "fs_write (checked_build h) (ports_of h) (filename_str (ed s)) (ed_text (ed s)) (sys s) = (r, f)" by fastforce
  have "r = Ok ()"
  proof (cases r)
    case (Err x)
    then have "status_str (ed s') = bytes ''Save failed!''"
      using assms(4) w save_messages(2) [OF assms(2)] by (auto simp: save_file_def)
    then show ?thesis using assms(5) by simp
  qed (use assms(4) w in \<open>auto simp: save_file_def\<close>)
  moreover from this have "sys s' = f" using assms(4) w by (auto simp: save_file_def)
  ultimately have "fs_read (filename_str (ed s)) (sys s') = Some (ed_text (ed s))"
    using fs_write_effect [OF assms(1,3) w] by simp
  moreover have "length (ed_text (ed s)) \<le> MAX_EDITOR_BUF" using length_ed_text [OF assms(2)] assms(2) by (simp add: ed_ok_def)
  ultimately show ?thesis using load_text [OF assms(6), of "filename_str (ed s)" "sys s'"] by simp
qed

text \<open>
  A file with a long name is not saved. The editor keeps only the first 32 bytes of a name
  while the file system takes 64: after opening a longer name, every save goes to those 32
  bytes, and the file that was opened, when its path is another one, is never changed.
\<close>

theorem long_name_saved_elsewhere:
  assumes "ed_ok e" and "32 < length nm" and "utf8_valid (take 32 nm)" and "\<not> vfs_is_vram_path (take 32 nm)"
  shows "filename_str (load_file nm f e) = take 32 nm \<and>
    (\<forall>s s' q. filename_str (ed s) = take 32 nm \<and> fs_ok (sys s) \<and> fs_path (sys s) nm = Ok q \<and>
       fs_path (sys s) (take 32 nm) \<noteq> Ok q \<and> save_file h s = Ok s' \<longrightarrow>
       file_get (files (sys s')) q = file_get (files (sys s)) q)"
proof (intro conjI allI impI)
  have "nm \<noteq> []" using assms(2) by auto
  then show "filename_str (load_file nm f e) = take 32 nm"
    using load_name [OF assms(1), of nm f] assms(3) by simp
next
  fix s s' q
  assume a: "filename_str (ed s) = take 32 nm \<and> fs_ok (sys s) \<and> fs_path (sys s) nm = Ok q \<and>
    fs_path (sys s) (take 32 nm) \<noteq> Ok q \<and> save_file h s = Ok s'"
  obtain r f' where w: "fs_write (checked_build h) (ports_of h) (take 32 nm) (ed_text (ed s)) (sys s) = (r, f')" by fastforce
  have "sys s' = f'" using a w by (cases r) (auto simp: save_file_def)
  then show "file_get (files (sys s')) q = file_get (files (sys s)) q"
    using fs_write_effect [OF _ assms(4) w] a by auto
qed

text \<open>The colouring of a directive, a variable or a hardware handle stops after its first character.\<close>

theorem sigil_word_length:
  assumes "ed_ok e" and "i < buf_len e" and "ed_buffer e ! i = 64 \<or> ed_buffer e ! i = 36 \<or> ed_buffer e ! i = 35"
  shows "get_word_len e i = Some 1"
  using assms fwd_while_stop [of i "ed_buffer e" "\<lambda>c. word_char c \<or> c = 46 \<or> c = 95" "buf_len e"]
  by (auto simp: get_word_len_def ed_ok_def word_char_def)

section \<open>Witnesses\<close>

definition demo_host :: "unit ed_host" where
  "demo_host = \<lparr>ports_of = null_ports, checked_build = True, run_script = (\<lambda>t f. (True, f))\<rparr>"

definition demo_editor :: PulseEditor where
  "demo_editor =
     (set_filename (bytes ''log.txt'') PulseEditor_new)
       \<lparr>ed_buffer := [104, 105] @ replicate 4094 0, buf_len := 2, is_running := True\<rparr>"

definition demo_session :: "unit session" where
  "demo_session =
     \<lparr>ed = demo_editor, sys = LatencyFS_new (), last_was_cr = False, line_changed = False,
      structure_changed = False, cursor_only = False\<rparr>"

lemma ed_ok_new: "ed_ok PulseEditor_new"
  by (simp add: ed_ok_def PulseEditor_new_def)

lemma demo_editor_ok: "ed_ok demo_editor" "esc_state demo_editor = Normal" "is_running demo_editor" "ed_text demo_editor = [104, 105]"
  by (simp_all add: demo_editor_def ed_ok_def PulseEditor_new_def set_filename_def Let_def ed_text_def)

lemma demo_editor_name: "filename_str demo_editor = bytes ''log.txt''"
proof -
  have "utf8_valid (bytes ''log.txt'')" by code_simp
  then show ?thesis
    by (simp add: demo_editor_def filename_str_def set_filename_def PulseEditor_new_def copy_at_def Let_def)
qed


theorem type_then_erase_witness:
  "\<exists>s1 s2. drain demo_host [33, 63] demo_session = Ok s1 \<and> zip_of (ed s1) = ([33, 63], [104, 105]) \<and>
     drain demo_host [8, 8] s1 = Ok s2 \<and> zip_of (ed s2) = ([], [104, 105])"
proof -
  have z: "zip_of (ed demo_session) = ([], [104, 105])"
    using demo_editor_ok(4) by (simp add: zip_of_def demo_session_def demo_editor_def PulseEditor_new_def set_filename_def Let_def)
  have "buf_len demo_editor = 2" by (simp add: demo_editor_def)
  then have p: "typing demo_session" "\<forall>b \<in> set [33, 63]. printable b" "buf_len (ed demo_session) + length [33, 63 :: u8] < 4096"
    using demo_editor_ok by (simp_all add: typing_def demo_session_def printable_def)
  have r: "replicate (length [33, 63 :: u8]) (8 :: u8) = [8, 8]" by simp
  show ?thesis using type_then_erase [OF p, of demo_host] unfolding z r fst_conv snd_conv append_Nil .
qed

lemma demo_save:
  "\<exists>f. fs_write True null_ports (bytes ''log.txt'') [104, 105] (LatencyFS_new ()) = (Ok (), f)"
proof -
  have v: "\<not> vfs_is_vram_path (trim (bytes ''log.txt''))" by code_simp
  obtain f where "fs_create_internal True null_ports (bytes ''log.txt'') [104, 105] False (LatencyFS_new ()) = (Ok 0, f)"
    using create_new [OF demo_path(1), of "[104, 105]" True null_ports]
    by (cases "fs_create_internal True null_ports (bytes ''log.txt'') [104, 105] False (LatencyFS_new ())") simp
  with v show ?thesis by (simp add: fs_write_def del: bytes_Cons)
qed

theorem editor_save_reopen_witness:
  "\<exists>s'. save_file demo_host demo_session = Ok s' \<and> fs_read (bytes ''log.txt'') (sys s') = Some [104, 105] \<and>
     ed_text (load_file (bytes ''log.txt'') (sys s') PulseEditor_new) = [104, 105]"
proof -
  obtain f where f: "fs_write True null_ports (bytes ''log.txt'') [104, 105] (LatencyFS_new ()) = (Ok (), f)"
    using demo_save by blast
  define s' where "s' = demo_session\<lparr>ed := (set_status (bytes ''Saved to LatencyFS.'') demo_editor)\<lparr>needs_redraw := True\<rparr>, sys := f\<rparr>"
  have n: "filename_str (ed demo_session) = bytes ''log.txt''" "ed_text (ed demo_session) = [104, 105]"
    "sys demo_session = LatencyFS_new ()" "ed demo_session = demo_editor"
    using demo_editor_name demo_editor_ok by (simp_all add: demo_session_def)
  have s': "save_file demo_host demo_session = Ok s'"
    unfolding save_file_def n s'_def by (simp add: demo_host_def f demo_editor_name demo_editor_ok del: bytes_Cons)
  have st: "status_str (ed s') = bytes ''Saved to LatencyFS.''"
    using save_messages(1) [OF demo_editor_ok(1)] by (simp add: s'_def del: bytes_Cons)
  have "fs_ok (sys demo_session)" "ed_ok (ed demo_session)" "\<not> vfs_is_vram_path (filename_str (ed demo_session))"
    using LatencyFS_new_ok demo_editor_ok(1) demo_path(2) by (simp_all add: n demo_editor_name del: bytes_Cons)
  from editor_save_reopen [OF this s' st ed_ok_new, unfolded n(1,2)] s' show ?thesis
    by (intro exI [of _ s'] conjI) simp_all
qed

theorem long_name_saved_elsewhere_witness:
  "filename_str (load_file (replicate 33 97) (LatencyFS_new ()) PulseEditor_new) = replicate 32 97 \<and>
   fs_path (LatencyFS_new ()) (replicate 33 97) = Ok (47 # replicate 33 97) \<and>
   fs_path (LatencyFS_new ()) (replicate 32 97) = Ok (47 # replicate 32 97)"
proof -
  have u: "utf8_valid (replicate 32 97)" "utf8_valid (47 # replicate 33 97)" "utf8_valid (47 # replicate 32 97)" "\<not> vfs_is_vram_path (replicate 32 97)"
    by code_simp+
  have t: "take 32 (replicate 33 97) = (replicate 32 97 :: str)" by simp
  have p: "fs_normalize_path (replicate 33 97) (bytes ''/'') = Ok (47 # replicate 33 97)"
    "fs_normalize_path (replicate 32 97) (bytes ''/'') = Ok (47 # replicate 32 97)"
    by code_simp+
  show ?thesis
    using long_name_saved_elsewhere [OF ed_ok_new, of "replicate 33 97" "LatencyFS_new ()" demo_host] u unfolding t path_new
    by (simp add: p del: bytes_Cons)
qed

end
