(* ===== verification/Serial.thy ===== *)
theory Serial
  imports Ports Fifo "HOL-Library.Sublist"
begin

text \<open>
  The serial console (\<^verbatim>\<open>kernel/src/serial.rs\<close>): the polled UART driver with its receive buffer
  of 4096 bytes, which every send drains the card into, the normalization of line ends, and the
  lock under which the cores print. The polling loops have no bound in the code, so they are
  partial functions: \<^term>\<open>None\<close> is a loop that never ends. What a UART promises is the locale
  \<open>uart\<close>.
\<close>

section \<open>State\<close>

record serial =
  RX_BUFFER :: "u8 list"
  RX_HEAD :: nat
  RX_TAIL :: nat
  LAST_BYTE_SENT :: u8

abbreviation (input) RX_BUF_SIZE :: nat where
  "RX_BUF_SIZE \<equiv> 4096"

abbreviation (input) COM1_BASE :: u16 where
  "COM1_BASE \<equiv> 0x3F8"

definition serial_new :: serial where
  "serial_new = \<lparr>RX_BUFFER = replicate RX_BUF_SIZE 0, RX_HEAD = 0, RX_TAIL = 0, LAST_BYTE_SENT = 0\<rparr>"

section \<open>Driver\<close>

definition init_serial :: "'w ports \<Rightarrow> 'w \<Rightarrow> 'w" where
  "init_serial p w =
     fold (\<lambda>(r, v). outb p (COM1_BASE + r) v)
       [(1, 0x00), (3, 0x80), (0, 0x01), (1, 0x00), (3, 0x03), (2, 0x07), (4, 0x0B)] w"

text \<open>Storing a received byte: \<^term>\<open>None\<close> when the buffer is full and the byte is dropped.\<close>

definition rx_push :: "serial \<Rightarrow> u8 \<Rightarrow> serial option" where
  "rx_push u b =
     (let head = RX_HEAD u mod RX_BUF_SIZE;
          tail = RX_TAIL u mod RX_BUF_SIZE;
          next_head = (head + 1) mod RX_BUF_SIZE
      in if next_head \<noteq> tail then Some (u\<lparr>RX_BUFFER := (RX_BUFFER u)[head := b], RX_HEAD := next_head\<rparr>) else None)"

definition rx_pop :: "serial \<Rightarrow> (u8 \<times> serial) option" where
  "rx_pop u =
     (let head = RX_HEAD u mod RX_BUF_SIZE;
          tail = RX_TAIL u mod RX_BUF_SIZE
      in if head \<noteq> tail then Some (RX_BUFFER u ! tail, u\<lparr>RX_TAIL := (tail + 1) mod RX_BUF_SIZE\<rparr>) else None)"

definition rx_put :: "u8 \<Rightarrow> serial \<Rightarrow> serial" where
  "rx_put b u = (case rx_push u b of Some u' \<Rightarrow> u' | None \<Rightarrow> u)"

partial_function (option) drain_rx_internal :: "'w ports \<Rightarrow> serial \<Rightarrow> 'w \<Rightarrow> (serial \<times> 'w) option" where
  "drain_rx_internal p u w =
     (let (st, w1) = inb p (COM1_BASE + 5) w
      in if st AND 0x01 \<noteq> 0 then
           let (b, w2) = inb p COM1_BASE w1 in drain_rx_internal p (rx_put b u) w2
         else Some (u, w1))"

definition is_transmit_empty :: "'w ports \<Rightarrow> 'w \<Rightarrow> bool \<times> 'w" where
  "is_transmit_empty p w = (let (st, w1) = inb p (COM1_BASE + 5) w in (st AND 0x20 \<noteq> 0, w1))"

partial_function (option) wait_transmit :: "'w ports \<Rightarrow> serial \<Rightarrow> 'w \<Rightarrow> (serial \<times> 'w) option" where
  "wait_transmit p u w =
     (case is_transmit_empty p w of (e, w1) \<Rightarrow>
        if e then Some (u, w1)
        else Option.bind (drain_rx_internal p u w1) (\<lambda>(u1, w2). wait_transmit p u1 w2))"

text \<open>Waiting for room, sending one byte, and draining again.\<close>

definition put_byte :: "'w ports \<Rightarrow> u8 \<Rightarrow> serial \<times> 'w \<Rightarrow> (serial \<times> 'w) option" where
  "put_byte p b s =
     (case s of (u, w) \<Rightarrow>
        Option.bind (wait_transmit p u w) (\<lambda>(u1, w1). Some (u1, outb p COM1_BASE b w1)))"

definition then_drain :: "'w ports \<Rightarrow> serial \<times> 'w \<Rightarrow> (serial \<times> 'w) option" where
  "then_drain p s = (case s of (u, w) \<Rightarrow> drain_rx_internal p u w)"

definition send_byte :: "'w ports \<Rightarrow> u8 \<Rightarrow> serial \<times> 'w \<Rightarrow> (serial \<times> 'w) option" where
  "send_byte p b s =
     Option.bind (then_drain p s) (\<lambda>s1.
     Option.bind (if b = 10 \<and> LAST_BYTE_SENT (fst s1) \<noteq> 13
                  then Option.bind (put_byte p 13 s1) (then_drain p) else Some s1) (\<lambda>s2.
     Option.bind (put_byte p b s2) (\<lambda>(u, w).
     then_drain p (u\<lparr>LAST_BYTE_SENT := b\<rparr>, w))))"

fun send_str :: "'w ports \<Rightarrow> u8 list \<Rightarrow> serial \<times> 'w \<Rightarrow> (serial \<times> 'w) option" where
  "send_str p [] s = Some s"
| "send_str p (b # bs) s = Option.bind (send_byte p b s) (send_str p bs)"

definition is_data_ready :: "'w ports \<Rightarrow> serial \<times> 'w \<Rightarrow> (bool \<times> serial \<times> 'w) option" where
  "is_data_ready p s =
     Option.bind (then_drain p s) (\<lambda>(u, w).
       Some (RX_HEAD u mod RX_BUF_SIZE \<noteq> RX_TAIL u mod RX_BUF_SIZE, u, w))"

definition read_byte_nonblocking :: "'w ports \<Rightarrow> serial \<times> 'w \<Rightarrow> (u8 option \<times> serial \<times> 'w) option" where
  "read_byte_nonblocking p s =
     Option.bind (then_drain p s) (\<lambda>(u, w).
       case rx_pop u of
         Some (b, u') \<Rightarrow> Some (Some b, u', w)
       | None \<Rightarrow> Some (None, u, w))"

section \<open>The receive buffer is a queue\<close>

definition serial_ok :: "serial \<Rightarrow> bool" where
  "serial_ok u \<longleftrightarrow> length (RX_BUFFER u) = RX_BUF_SIZE \<and> RX_HEAD u < RX_BUF_SIZE \<and> RX_TAIL u < RX_BUF_SIZE"

definition rx_len :: "serial \<Rightarrow> nat" where
  "rx_len u = (RX_HEAD u + RX_BUF_SIZE - RX_TAIL u) mod RX_BUF_SIZE"

definition received :: "serial \<Rightarrow> u8 list" where
  "received u = map (\<lambda>i. RX_BUFFER u ! ((RX_TAIL u + i) mod RX_BUF_SIZE)) [0..<rx_len u]"

lemma serial_ok_new: "serial_ok serial_new" "received serial_new = []"
  by (simp_all add: serial_ok_def serial_new_def received_def rx_len_def)

lemma rx_cases:
  assumes "serial_ok u"
  obtains (up) "RX_TAIL u \<le> RX_HEAD u" "rx_len u = RX_HEAD u - RX_TAIL u"
  | (round) "RX_HEAD u < RX_TAIL u" "rx_len u = RX_HEAD u + RX_BUF_SIZE - RX_TAIL u"
proof (cases "RX_TAIL u \<le> RX_HEAD u")
  case True
  then have "RX_HEAD u + 4096 - RX_TAIL u = (RX_HEAD u - RX_TAIL u) + 4096" by simp
  then have "rx_len u = (RX_HEAD u - RX_TAIL u) mod 4096" unfolding rx_len_def by (simp only: mod_add_self2)
  also have "\<dots> = RX_HEAD u - RX_TAIL u" using assms by (intro mod_less) (auto simp: serial_ok_def)
  finally show ?thesis using True up by blast
next
  case False
  with assms have "rx_len u = RX_HEAD u + 4096 - RX_TAIL u" by (simp add: rx_len_def serial_ok_def)
  with False round show ?thesis by simp
qed

lemma rx_len_eq:
  "serial_ok u \<Longrightarrow> rx_len u = (if RX_TAIL u \<le> RX_HEAD u then RX_HEAD u - RX_TAIL u else RX_HEAD u + RX_BUF_SIZE - RX_TAIL u)"
  by (erule rx_cases) simp_all

lemma rx_len_bound: "rx_len u < RX_BUF_SIZE"
  by (simp add: rx_len_def)

lemma rx_slot:
  assumes "serial_ok u" and "i \<le> rx_len u"
  shows "(RX_TAIL u + i) mod RX_BUF_SIZE = RX_HEAD u \<longleftrightarrow> i = rx_len u"
  using assms(1)
proof (cases rule: rx_cases)
  case up
  with assms have "RX_TAIL u + i < 4096" by (auto simp: serial_ok_def)
  with up assms(2) show ?thesis by (auto simp: mod_less)
next
  case round
  with assms have "RX_TAIL u + i < 2 * 4096" by (auto simp: serial_ok_def)
  show ?thesis
  proof (cases "RX_TAIL u + i < 4096")
    case True
    with round assms show ?thesis by (auto simp: mod_less)
  next
    case False
    with \<open>RX_TAIL u + i < 2 * 4096\<close> have "(RX_TAIL u + i) mod 4096 = RX_TAIL u + i - 4096"
      by (simp add: mod_if)
    with False round assms(1) show ?thesis by (auto simp: serial_ok_def)
  qed
qed

lemma rx_push_cases:
  assumes "serial_ok u"
  shows "rx_push u b = (if rx_len u = RX_BUF_SIZE - 1 then None
     else Some (u\<lparr>RX_BUFFER := (RX_BUFFER u)[RX_HEAD u := b], RX_HEAD := (RX_HEAD u + 1) mod RX_BUF_SIZE\<rparr>))"
proof -
  have "(RX_HEAD u + 1) mod 4096 = RX_TAIL u \<longleftrightarrow> rx_len u = 4095"
    using assms
  proof (cases rule: rx_cases)
    case up
    with assms show ?thesis by (cases "RX_HEAD u = 4095") (auto simp: serial_ok_def)
  next
    case round
    with assms show ?thesis by (auto simp: serial_ok_def)
  qed
  with assms show ?thesis by (simp add: rx_push_def Let_def serial_ok_def)
qed

lemma rx_push_received:
  assumes "serial_ok u" and "rx_push u b = Some u'"
  shows "serial_ok u' \<and> received u' = received u @ [b] \<and> LAST_BYTE_SENT u' = LAST_BYTE_SENT u"
proof -
  let ?n = "rx_len u"
  have n: "?n < 4095" and u': "u' = u\<lparr>RX_BUFFER := (RX_BUFFER u)[RX_HEAD u := b], RX_HEAD := (RX_HEAD u + 1) mod 4096\<rparr>"
    using assms rx_push_cases [OF assms(1), of b] rx_len_bound [of u] by (auto split: if_splits)
  have len: "rx_len u' = ?n + 1"
  proof -
    have "(RX_HEAD u + 1) mod 4096 + 4096 - RX_TAIL u = (RX_HEAD u + 1) mod 4096 + (4096 - RX_TAIL u)"
      using assms(1) by (simp add: serial_ok_def)
    then have "rx_len u' = (RX_HEAD u + 1 + (4096 - RX_TAIL u)) mod 4096"
      unfolding u' rx_len_def by (simp add: mod_add_left_eq)
    also have "\<dots> = (RX_HEAD u + 4096 - RX_TAIL u + 1) mod 4096"
      using assms(1) by (intro arg_cong [of _ _ "\<lambda>k. k mod 4096"]) (simp add: serial_ok_def)
    also have "\<dots> = (?n + 1) mod 4096" unfolding rx_len_def by (rule mod_add_left_eq [symmetric])
    finally show ?thesis using n by simp
  qed
  have "RX_BUFFER u' ! ((RX_TAIL u + i) mod 4096) = (if i = ?n then b else RX_BUFFER u ! ((RX_TAIL u + i) mod 4096))"
    if "i < ?n + 1" for i
    using rx_slot [OF assms(1), of i] that assms(1) by (auto simp: u' serial_ok_def nth_list_update)
  moreover have "RX_TAIL u' = RX_TAIL u" by (simp add: u')
  ultimately have "received u' = received u @ [b]" unfolding received_def len by simp
  moreover have "serial_ok u'" using assms(1) by (simp add: u' serial_ok_def)
  ultimately show ?thesis by (simp add: u')
qed

lemma rx_pop_received:
  assumes "serial_ok u"
  shows "case rx_pop u of
      None \<Rightarrow> received u = []
    | Some (b, u') \<Rightarrow> serial_ok u' \<and> received u = b # received u' \<and> LAST_BYTE_SENT u' = LAST_BYTE_SENT u"
proof (cases "RX_HEAD u = RX_TAIL u")
  case True
  then show ?thesis by (simp add: rx_pop_def received_def rx_len_def)
next
  case False
  let ?u = "u\<lparr>RX_TAIL := (RX_TAIL u + 1) mod 4096\<rparr>"
  have pop: "rx_pop u = Some (RX_BUFFER u ! RX_TAIL u, ?u)"
    using False assms by (simp add: rx_pop_def serial_ok_def Let_def)
  have ok: "serial_ok ?u" using assms by (simp add: serial_ok_def)
  have len: "rx_len u = Suc (rx_len ?u)"
    using assms ok False by (auto simp: rx_len_eq serial_ok_def mod_if split: if_splits)
  have "received u = RX_BUFFER u ! RX_TAIL u # map (\<lambda>i. RX_BUFFER u ! ((RX_TAIL u + Suc i) mod 4096)) [0..<rx_len ?u]"
    unfolding received_def len using assms by (simp add: upt_conv_Cons map_Suc_upt [symmetric] serial_ok_def del: upt_Suc)
  also have "\<dots> = RX_BUFFER u ! RX_TAIL u # received ?u"
    by (simp add: received_def mod_add_left_eq Suc_eq_plus1 add.assoc [symmetric] add.commute [of _ 1] del: One_nat_def)
  finally show ?thesis using pop ok by simp
qed

lemma length_received: "length (received u) = rx_len u"
  by (simp add: received_def)

interpretation rx: fifo serial_ok received rx_push rx_pop "RX_BUF_SIZE - 1"
proof (unfold_locales, goal_cases)
  case (1 q)
  show ?case using rx_len_bound [of q] by (simp add: length_received)
next
  case (2 q x)
  then show ?case by (simp add: rx_push_cases length_received)
next
  case (3 q x q')
  then show ?case using rx_push_received by blast
next
  case (4 q)
  then show ?case using rx_pop_received [of q] by (auto split: option.splits)
next
  case (5 q x q')
  then show ?case using rx_pop_received [of q] by simp
qed

text \<open>A line feed that no carriage return precedes gets one.\<close>

fun crlf :: "u8 \<Rightarrow> u8 list \<Rightarrow> u8 list" where
  "crlf prev [] = []"
| "crlf prev (b # bs) = (if b = 10 \<and> prev \<noteq> 13 then [13, 10] else [b]) @ crlf b bs"

section \<open>What a UART promises\<close>

text \<open>
  A step of the driver moves bytes from the line to the buffer; nothing is lost while the
  buffer has room for all that is still to come.
\<close>

definition moves :: "('w \<Rightarrow> u8 list) \<Rightarrow> serial \<times> 'w \<Rightarrow> serial \<times> 'w \<Rightarrow> bool" where
  "moves incoming s s' \<longleftrightarrow>
     serial_ok (fst s') \<and> suffix (incoming (snd s')) (incoming (snd s)) \<and>
     prefix (received (fst s)) (received (fst s')) \<and>
     (length (received (fst s)) + length (incoming (snd s)) < RX_BUF_SIZE \<longrightarrow>
      received (fst s') @ incoming (snd s') = received (fst s) @ incoming (snd s))"

text \<open>
  \<open>incoming w\<close> are the bytes the line still has for the driver, \<open>sent w\<close> those the driver has
  put on it. A status read with bit 0 set says that a byte can be read, one with bit 5 set that
  a byte can be written; how often bit 5 is read as clear before it is set is bounded by
  \<open>patience\<close>.
\<close>

locale uart =
  fixes p :: "'w ports"
    and incoming :: "'w \<Rightarrow> u8 list"
    and sent :: "'w \<Rightarrow> u8 list"
    and has_byte :: "'w \<Rightarrow> bool"
    and can_send :: "'w \<Rightarrow> bool"
    and patience :: "'w \<Rightarrow> nat"
  assumes status: "inb p (COM1_BASE + 5) w = (st, w') \<Longrightarrow>
      incoming w' = incoming w \<and> sent w' = sent w \<and> patience w' \<le> patience w \<and>
      (st AND 0x01 \<noteq> 0 \<longrightarrow> has_byte w') \<and>
      (if st AND 0x20 \<noteq> 0 then can_send w' else patience w' < patience w)"
    and receive: "has_byte w \<Longrightarrow> inb p COM1_BASE w = (b, w') \<Longrightarrow>
      incoming w = b # incoming w' \<and> sent w' = sent w \<and> patience w' \<le> patience w"
    and transmit: "can_send w \<Longrightarrow>
      sent (outb p COM1_BASE b w) = sent w @ [b] \<and> incoming (outb p COM1_BASE b w) = incoming w"
begin

lemma moves_refl: "serial_ok u \<Longrightarrow> incoming w' = incoming w \<Longrightarrow> received u = received u0 \<Longrightarrow> moves incoming (u0, w) (u, w')"
  by (simp add: moves_def)

lemma moves_trans:
  assumes "moves incoming a b" and "moves incoming b c"
  shows "moves incoming a c"
proof -
  have "length (received (fst b)) + length (incoming (snd b)) = length (received (fst a)) + length (incoming (snd a))"
    if "received (fst b) @ incoming (snd b) = received (fst a) @ incoming (snd a)"
    using arg_cong [OF that, of length] by simp
  with assms show ?thesis
    unfolding moves_def by (auto intro: suffix_order.trans prefix_order.trans)
qed

lemma moves_put:
  assumes "serial_ok u" and "incoming w = b # incoming w'"
  shows "moves incoming (u, w) (rx_put b u, w') \<and> LAST_BYTE_SENT (rx_put b u) = LAST_BYTE_SENT u"
proof (cases "rx_push u b")
  case None
  then have "length (received u) = 4095" using rx.push_full [OF assms(1), of b] by simp
  with None assms show ?thesis by (simp add: moves_def rx_put_def suffix_ConsI)
next
  case (Some u')
  with rx_push_received [OF assms(1) Some] assms show ?thesis
    by (simp add: moves_def rx_put_def suffix_ConsI)
qed

lemma drain_moves:
  assumes "serial_ok u"
  shows "\<exists>u' w'. drain_rx_internal p u w = Some (u', w') \<and> moves incoming (u, w) (u', w') \<and>
    sent w' = sent w \<and> patience w' \<le> patience w \<and> LAST_BYTE_SENT u' = LAST_BYTE_SENT u"
  using assms
proof (induction "length (incoming w)" arbitrary: u w)
  case 0
  obtain st w1 where s: "inb p (COM1_BASE + 5) w = (st, w1)" by fastforce
  have "st AND 1 = 0"
    using status [OF s] receive [of w1] 0 by (cases "inb p COM1_BASE w1") auto
  with s status [OF s] 0 show ?case
    by (subst drain_rx_internal.simps) (auto intro: moves_refl)
next
  case (Suc n)
  obtain st w1 where s: "inb p (COM1_BASE + 5) w = (st, w1)" by fastforce
  show ?case
  proof (cases "st AND 1 = 0")
    case True
    with s status [OF s] Suc.prems show ?thesis
      by (subst drain_rx_internal.simps) (auto intro: moves_refl)
  next
    case False
    obtain b w2 where b: "inb p COM1_BASE w1 = (b, w2)" by fastforce
    have r: "incoming w = b # incoming w2" "sent w2 = sent w" "patience w2 \<le> patience w"
      using status [OF s] receive [OF _ b] False by auto
    note put = moves_put [OF Suc.prems r(1)]
    have "serial_ok (rx_put b u)" using put by (simp add: moves_def)
    moreover have "n = length (incoming w2)" using Suc.hyps(2) r(1) by simp
    ultimately obtain u' w' where d: "drain_rx_internal p (rx_put b u) w2 = Some (u', w')"
      "moves incoming (rx_put b u, w2) (u', w')" "sent w' = sent w2" "patience w' \<le> patience w2"
      "LAST_BYTE_SENT u' = LAST_BYTE_SENT (rx_put b u)"
      using Suc.hyps(1) by blast
    have "drain_rx_internal p u w = Some (u', w')"
      using s b d(1) False by (subst drain_rx_internal.simps) simp
    then show ?thesis using d put r moves_trans by fastforce
  qed
qed

lemma wait_moves:
  assumes "serial_ok u"
  shows "\<exists>u' w'. wait_transmit p u w = Some (u', w') \<and> moves incoming (u, w) (u', w') \<and>
    sent w' = sent w \<and> can_send w' \<and> LAST_BYTE_SENT u' = LAST_BYTE_SENT u"
  using assms
proof (induction "patience w" arbitrary: u w rule: less_induct)
  case less
  obtain st w1 where s: "inb p (COM1_BASE + 5) w = (st, w1)" by fastforce
  show ?case
  proof (cases "st AND 0x20 = 0")
    case False
    with s status [OF s] less.prems show ?thesis
      by (subst wait_transmit.simps) (auto simp: is_transmit_empty_def intro: moves_refl)
  next
    case True
    obtain u2 w2 where d: "drain_rx_internal p u w1 = Some (u2, w2)" "moves incoming (u, w1) (u2, w2)"
      "sent w2 = sent w1" "patience w2 \<le> patience w1" "LAST_BYTE_SENT u2 = LAST_BYTE_SENT u"
      using drain_moves [OF less.prems] by blast
    have m: "moves incoming (u, w) (u2, w2)" using d(2) status [OF s] by (simp add: moves_def)
    moreover have "patience w2 < patience w" using d(4) status [OF s] True by simp
    ultimately obtain u' w' where "wait_transmit p u2 w2 = Some (u', w')" "moves incoming (u2, w2) (u', w')"
      "sent w' = sent w2" "can_send w'" "LAST_BYTE_SENT u' = LAST_BYTE_SENT u2"
      using less.hyps [of w2 u2] by (auto simp: moves_def)
    with s d m status [OF s] True show ?thesis
      by (subst wait_transmit.simps) (auto simp: is_transmit_empty_def intro: moves_trans)
  qed
qed

lemma put_byte_moves:
  assumes "serial_ok (fst s)"
  shows "\<exists>s'. put_byte p b s = Some s' \<and> moves incoming s s' \<and> sent (snd s') = sent (snd s) @ [b] \<and>
    LAST_BYTE_SENT (fst s') = LAST_BYTE_SENT (fst s)"
proof -
  obtain u w where s: "s = (u, w)" by fastforce
  with wait_moves [of u w] assms obtain u' w' where w: "wait_transmit p u w = Some (u', w')"
    "moves incoming (u, w) (u', w')" "sent w' = sent w" "can_send w'" "LAST_BYTE_SENT u' = LAST_BYTE_SENT u"
    by auto
  with transmit [OF w(4), of b] s show ?thesis by (auto simp: put_byte_def moves_def)
qed

lemma then_drain_moves:
  assumes "serial_ok (fst s)"
  shows "\<exists>s'. then_drain p s = Some s' \<and> moves incoming s s' \<and> sent (snd s') = sent (snd s) \<and>
    LAST_BYTE_SENT (fst s') = LAST_BYTE_SENT (fst s)"
  using assms drain_moves [of "fst s" "snd s"] by (auto simp: then_drain_def split: prod.splits)

lemma moves_ok: "moves incoming s s' \<Longrightarrow> serial_ok (fst s')"
  by (simp add: moves_def)

lemma send_byte_moves:
  assumes "serial_ok (fst s)"
  shows "\<exists>s'. send_byte p b s = Some s' \<and> moves incoming s s' \<and> LAST_BYTE_SENT (fst s') = b \<and>
    sent (snd s') = sent (snd s) @ (if b = 10 \<and> LAST_BYTE_SENT (fst s) \<noteq> 13 then [13, 10] else [b])"
proof -
  obtain s1 where s1: "then_drain p s = Some s1" "moves incoming s s1" "sent (snd s1) = sent (snd s)"
    "LAST_BYTE_SENT (fst s1) = LAST_BYTE_SENT (fst s)"
    using then_drain_moves [OF assms] by blast
  obtain s2 where s2: "(if b = 10 \<and> LAST_BYTE_SENT (fst s1) \<noteq> 13
      then Option.bind (put_byte p 13 s1) (then_drain p) else Some s1) = Some s2" "moves incoming s1 s2"
    "sent (snd s2) = sent (snd s) @ (if b = 10 \<and> LAST_BYTE_SENT (fst s) \<noteq> 13 then [13] else [])"
  proof (cases "b = 10 \<and> LAST_BYTE_SENT (fst s1) \<noteq> 13")
    case True
    obtain s3 where s3: "put_byte p 13 s1 = Some s3" "moves incoming s1 s3" "sent (snd s3) = sent (snd s1) @ [13]"
      using put_byte_moves [OF moves_ok [OF s1(2)]] by blast
    then obtain s4 where "then_drain p s3 = Some s4" "moves incoming s3 s4" "sent (snd s4) = sent (snd s3)"
      using then_drain_moves [OF moves_ok [OF s3(2)]] by blast
    with s1 s3 True show ?thesis by (intro that [of s4]) (auto intro: moves_trans)
  next
    case False
    with s1 show ?thesis
      by (intro that [of s1]) (auto simp: moves_def)
  qed
  obtain s3 where s3: "put_byte p b s2 = Some s3" "moves incoming s2 s3" "sent (snd s3) = sent (snd s2) @ [b]"
    using put_byte_moves [OF moves_ok [OF s2(2)]] by blast
  let ?s4 = "((fst s3)\<lparr>LAST_BYTE_SENT := b\<rparr>, snd s3)"
  have r: "received ((fst s3)\<lparr>LAST_BYTE_SENT := b\<rparr>) = received (fst s3)" by (simp add: received_def rx_len_def)
  have m4: "moves incoming s3 ?s4"
    using moves_ok [OF s3(2)] r by (simp add: moves_def serial_ok_def)
  obtain s5 where s5: "then_drain p ?s4 = Some s5" "moves incoming ?s4 s5" "sent (snd s5) = sent (snd s3)"
    "LAST_BYTE_SENT (fst s5) = b"
    using then_drain_moves [OF moves_ok [OF m4]] by auto
  have "send_byte p b s = Some s5"
    using s1(1) s2(1) s3(1) s5(1) by (simp add: send_byte_def split_beta)
  moreover have "moves incoming s s5"
    using s1(2) s2(2) s3(2) m4 s5(2) by (blast intro: moves_trans)
  ultimately show ?thesis using s2(3) s3(3) s5(3,4) by auto
qed

lemma send_str_moves:
  "serial_ok (fst s) \<Longrightarrow>
   \<exists>s'. send_str p msg s = Some s' \<and> moves incoming s s' \<and>
     sent (snd s') = sent (snd s) @ crlf (LAST_BYTE_SENT (fst s)) msg"
proof (induction msg arbitrary: s)
  case Nil
  then show ?case by (simp add: moves_def)
next
  case (Cons b msg)
  obtain s1 where s1: "send_byte p b s = Some s1" "moves incoming s s1" "LAST_BYTE_SENT (fst s1) = b"
    "sent (snd s1) = sent (snd s) @ (if b = 10 \<and> LAST_BYTE_SENT (fst s) \<noteq> 13 then [13, 10] else [b])"
    using send_byte_moves [OF Cons.prems] by blast
  with Cons.IH [OF moves_ok [OF s1(2)]] show ?case by (auto intro: moves_trans)
qed

lemma read_byte_moves:
  assumes "serial_ok (fst s)"
  shows "\<exists>r s1 s'. read_byte_nonblocking p s = Some (r, s') \<and> moves incoming s s1 \<and> snd s' = snd s1 \<and>
    serial_ok (fst s') \<and> received (fst s1) = (case r of Some b \<Rightarrow> [b] | None \<Rightarrow> []) @ received (fst s') \<and>
    (r = None \<longrightarrow> received (fst s1) = [])"
proof -
  obtain s1 where s1: "then_drain p s = Some s1" "moves incoming s s1"
    using then_drain_moves [OF assms] by blast
  note ok = moves_ok [OF s1(2)]
  show ?thesis
  proof (cases "rx_pop (fst s1)")
    case None
    with s1 ok rx_pop_received [OF ok] show ?thesis
      by (intro exI [of _ None] exI [of _ s1]) (auto simp: read_byte_nonblocking_def split_beta)
  next
    case (Some q)
    with s1 ok rx_pop_received [OF ok] show ?thesis
      by (intro exI [of _ "Some (fst q)"] exI [of _ s1] exI [of _ "(snd q, snd s1)"])
        (auto simp: read_byte_nonblocking_def split_beta)
  qed
qed

end

section \<open>A UART\<close>

text \<open>A device with these registers: it is busy for two status reads after each byte it is given.\<close>

record uart16550 =
  uart_in :: "u8 list"
  uart_out :: "u8 list"
  uart_busy :: nat

definition uart_ports :: "uart16550 ports" where
  "uart_ports =
     \<lparr>inb = (\<lambda>r w.
        if r = 0x3FD then
          ((if uart_in w = [] then 0 else 1) OR (if uart_busy w = 0 then 0x20 else 0), w\<lparr>uart_busy := uart_busy w - 1\<rparr>)
        else if r = 0x3F8 \<and> uart_in w \<noteq> [] then (hd (uart_in w), w\<lparr>uart_in := tl (uart_in w)\<rparr>)
        else (0, w)),
      outb = (\<lambda>r b w. if r = 0x3F8 \<and> uart_busy w = 0 then w\<lparr>uart_out := uart_out w @ [b], uart_busy := 2\<rparr> else w),
      inw = (\<lambda>r w. (0, w)), outw = (\<lambda>r v w. w), read_tsc_serialized = (\<lambda>w. (0, w))\<rparr>"

interpretation com1: uart uart_ports uart_in uart_out "\<lambda>w. uart_in w \<noteq> []" "\<lambda>w. uart_busy w = 0" uart_busy
proof (unfold_locales, goal_cases)
  case (1 w st w')
  then show ?case by (auto simp: uart_ports_def split: if_splits)
next
  case (2 w b w')
  then show ?case by (auto simp: uart_ports_def)
next
  case (3 w b)
  then show ?case by (simp add: uart_ports_def)
qed

section \<open>Printing from several cores\<close>

text \<open>
  \<^verbatim>\<open>_print\<close>: a core that finds \<^verbatim>\<open>PRINT_LOCK\<close> free takes it, sends its message byte by byte and
  frees it. \<open>messages\<close> records the messages in the order in which the lock was taken. The editor
  (\<^verbatim>\<open>editor.rs:442, 502, 599, 665\<close>), the hex dump of the shell (\<^verbatim>\<open>shell.rs:1518, 1520\<close>) and the
  script runner (\<^verbatim>\<open>lang.rs:220, 222\<close>) call \<^verbatim>\<open>SERIAL.send_byte\<close> without taking the lock: a core that
  is not inside \<^verbatim>\<open>_print\<close> can do so at any moment. The bytes handed to \<^verbatim>\<open>send_byte\<close> carry on the
  line the way they came. The steps of the cores interleave in any way.
\<close>

datatype printer = Silent | Printing "u8 list"

datatype line_byte = Locked u8 | Direct u8

fun locked_bytes :: "line_byte list \<Rightarrow> u8 list" where
  "locked_bytes [] = []"
| "locked_bytes (Locked b # bs) = b # locked_bytes bs"
| "locked_bytes (Direct b # bs) = locked_bytes bs"

lemma locked_bytes_append [simp]: "locked_bytes (bs @ cs) = locked_bytes bs @ locked_bytes cs"
  by (induction bs rule: locked_bytes.induct) simp_all

record console =
  PRINT_LOCK :: bool
  printers :: "nat \<Rightarrow> printer"
  on_line :: "line_byte list"
  messages :: "u8 list list"

definition console_new :: console where
  "console_new = \<lparr>PRINT_LOCK = False, printers = (\<lambda>_. Silent), on_line = [], messages = []\<rparr>"

inductive print_step :: "console \<Rightarrow> console \<Rightarrow> bool" where
  take_lock: "printers s c = Silent \<Longrightarrow> \<not> PRINT_LOCK s \<Longrightarrow>
    print_step s (s\<lparr>PRINT_LOCK := True, printers := (printers s)(c := Printing msg), messages := messages s @ [msg]\<rparr>)"
| emit: "printers s c = Printing (b # bs) \<Longrightarrow>
    print_step s (s\<lparr>printers := (printers s)(c := Printing bs), on_line := on_line s @ [Locked b]\<rparr>)"
| free_lock: "printers s c = Printing [] \<Longrightarrow>
    print_step s (s\<lparr>PRINT_LOCK := False, printers := (printers s)(c := Silent)\<rparr>)"
| direct: "printers s c = Silent \<Longrightarrow> print_step s (s\<lparr>on_line := on_line s @ [Direct b]\<rparr>)"

definition print_reach :: "console \<Rightarrow> bool" where
  "print_reach s \<longleftrightarrow> print_step\<^sup>*\<^sup>* console_new s"

text \<open>Who holds the lock, and what of its message is still to come.\<close>

definition print_inv :: "console \<Rightarrow> bool" where
  "print_inv s \<longleftrightarrow>
     (if PRINT_LOCK s
      then \<exists>c rest. printers s c = Printing rest \<and> (\<forall>d. d \<noteq> c \<longrightarrow> printers s d = Silent) \<and>
             messages s \<noteq> [] \<and> concat (messages s) = locked_bytes (on_line s) @ rest \<and> suffix rest (last (messages s))
      else (\<forall>d. printers s d = Silent) \<and> concat (messages s) = locked_bytes (on_line s))"

lemma print_inv_holder:
  assumes "print_inv s" and "printers s c = Printing rest"
  shows "PRINT_LOCK s" "\<And>d. d \<noteq> c \<Longrightarrow> printers s d = Silent" "messages s \<noteq> []"
    "concat (messages s) = locked_bytes (on_line s) @ rest" "suffix rest (last (messages s))"
proof -
  have lock: "PRINT_LOCK s" using assms by (auto simp: print_inv_def split: if_splits)
  with assms(1) obtain c' rest' where h: "printers s c' = Printing rest'" "\<forall>d. d \<noteq> c' \<longrightarrow> printers s d = Silent"
    "messages s \<noteq> []" "concat (messages s) = locked_bytes (on_line s) @ rest'" "suffix rest' (last (messages s))"
    by (auto simp: print_inv_def)
  with assms(2) have "c' = c" by (metis printer.distinct(1))
  with h assms(2) lock show "PRINT_LOCK s" "\<And>d. d \<noteq> c \<Longrightarrow> printers s d = Silent" "messages s \<noteq> []"
    "concat (messages s) = locked_bytes (on_line s) @ rest" "suffix rest (last (messages s))" by auto
qed

lemma print_inv_step:
  assumes "print_step s s'" and "print_inv s"
  shows "print_inv s'"
  using assms(1)
proof cases
  case (take_lock c msg)
  with assms(2) show ?thesis by (auto simp: print_inv_def intro: exI [of _ c])
next
  case (emit c b bs)
  with print_inv_holder [OF assms(2) emit(2)] show ?thesis
    by (auto simp: print_inv_def intro!: exI [of _ c] dest: suffix_ConsD)
next
  case (free_lock c)
  with print_inv_holder [OF assms(2) free_lock(2)] show ?thesis by (auto simp: print_inv_def)
next
  case (direct c b)
  with assms(2) show ?thesis by (auto simp: print_inv_def)
qed

lemma print_reach_inv: "print_reach s \<Longrightarrow> print_inv s"
  unfolding print_reach_def
proof (induction rule: rtranclp_induct)
  case base
  show ?case by (simp add: print_inv_def console_new_def)
next
  case (step y z)
  then show ?case by (blast intro: print_inv_step)
qed

lemma all_locked: "list_all (\<lambda>x. \<exists>b. x = Locked b) bs \<Longrightarrow> map Locked (locked_bytes bs) = bs"
  by (induction bs rule: locked_bytes.induct) auto

section \<open>Properties\<close>

text \<open>
  C22: Console output. Behind every UART that keeps its contract, sending a string ends, puts
  exactly the string on the line, with a carriage return before each line feed that has none,
  and meanwhile loses no input: what the line delivers while the driver waits is appended to
  the receive buffer in order as long as the buffer has room.
\<close>

theorem serial_send:
  assumes "uart p incoming sent has_byte can_send patience" and "serial_ok (fst s)"
  shows "\<exists>s'. send_str p msg s = Some s' \<and> sent (snd s') = sent (snd s) @ crlf (LAST_BYTE_SENT (fst s)) msg \<and>
    serial_ok (fst s') \<and> prefix (received (fst s)) (received (fst s')) \<and>
    (length (received (fst s)) + length (incoming (snd s)) < RX_BUF_SIZE \<longrightarrow>
     received (fst s') @ incoming (snd s') = received (fst s) @ incoming (snd s))"
  using uart.send_str_moves [OF assms, of msg] by (auto simp: moves_def)

text \<open>
  Console input. A read ends and returns the oldest byte that was received and not yet
  read, or none when there is none; it loses and reorders nothing while the buffer has room.
\<close>

theorem serial_read:
  assumes "uart p incoming sent has_byte can_send patience" and "serial_ok (fst s)"
    and "length (received (fst s)) + length (incoming (snd s)) < RX_BUF_SIZE"
  shows "\<exists>r s'. read_byte_nonblocking p s = Some (r, s') \<and> serial_ok (fst s') \<and>
    received (fst s) @ incoming (snd s) =
      (case r of Some b \<Rightarrow> [b] | None \<Rightarrow> []) @ received (fst s') @ incoming (snd s') \<and>
    (r = None \<longrightarrow> received (fst s) = [])"
proof -
  obtain r s1 s' where m: "read_byte_nonblocking p s = Some (r, s')" "moves incoming s s1" "snd s' = snd s1"
    "serial_ok (fst s')" "received (fst s1) = (case r of Some b \<Rightarrow> [b] | None \<Rightarrow> []) @ received (fst s')"
    "r = None \<longrightarrow> received (fst s1) = []"
    using uart.read_byte_moves [OF assms(1,2)] by blast
  have "received (fst s1) @ incoming (snd s1) = received (fst s) @ incoming (snd s)"
    "prefix (received (fst s)) (received (fst s1))"
    using m(2) assms(3) by (simp_all add: moves_def)
  with m show ?thesis by (intro exI [of _ r] exI [of _ s']) auto
qed

text \<open>
  C21: Printed messages do not mix with one another. Whatever the interleaving, and whatever
  cores write directly in between, the bytes that \<^verbatim>\<open>_print\<close> put on the line are the messages one
  after the other in the order in which the lock was taken, the last one possibly cut, and
  complete whenever the lock is free. While no core writes directly this is the whole line. A
  direct byte may stand inside a message: see \<open>direct_byte_splits\<close>.
\<close>

theorem print_atomic:
  assumes "print_reach s"
  shows "\<exists>rest. concat (messages s) = locked_bytes (on_line s) @ rest \<and> (rest \<noteq> [] \<longrightarrow> suffix rest (last (messages s))) \<and>
    (\<not> PRINT_LOCK s \<longrightarrow> rest = []) \<and>
    (list_all (\<lambda>x. \<exists>b. x = Locked b) (on_line s) \<longrightarrow> map Locked (locked_bytes (on_line s)) = on_line s)"
proof (cases "PRINT_LOCK s")
  case True
  then show ?thesis using print_reach_inv [OF assms] all_locked [of "on_line s"] by (auto simp: print_inv_def)
next
  case False
  then show ?thesis using print_reach_inv [OF assms] all_locked [of "on_line s"] by (auto simp: print_inv_def)
qed

section \<open>Witnesses\<close>

definition demo_uart :: uart16550 where
  "demo_uart = \<lparr>uart_in = [113], uart_out = [], uart_busy = 1\<rparr>"

theorem serial_send_witness:
  "\<exists>s'. send_str uart_ports [72, 10] (serial_new, demo_uart) = Some s' \<and> uart_out (snd s') = [72, 13, 10] \<and>
     received (fst s') @ uart_in (snd s') = [113]"
  using serial_send [OF com1.uart_axioms, of "(serial_new, demo_uart)" "[72, 10]"] serial_ok_new
  by (auto simp: demo_uart_def serial_new_def)

theorem serial_read_witness:
  "\<exists>r s'. read_byte_nonblocking uart_ports (serial_new, demo_uart) = Some (r, s') \<and>
     [113] = (case r of Some b \<Rightarrow> [b] | None \<Rightarrow> []) @ received (fst s') @ uart_in (snd s')"
  using serial_read [OF com1.uart_axioms, of "(serial_new, demo_uart)"] serial_ok_new
  by (auto simp: demo_uart_def)

text \<open>
  A core prints a message while another writes a byte directly: the byte splits the message.
\<close>

definition demo_console :: console where
  "demo_console = console_new\<lparr>PRINT_LOCK := True, printers := (\<lambda>_. Silent)(3 := Printing []),
     on_line := [Locked 72, Direct 46, Locked 10], messages := [[72, 10]]\<rparr>"

lemma demo_console_reach: "print_reach demo_console"
proof -
  let ?s = "\<lambda>l bs. console_new\<lparr>PRINT_LOCK := True, printers := (\<lambda>_. Silent)(3 := Printing bs), on_line := l, messages := [[72, 10]]\<rparr>"
  have "print_step console_new (?s [] [72, 10])"
    using print_step.take_lock [of console_new 3 "[72, 10]"] by (simp add: console_new_def)
  moreover have "print_step (?s [] [72, 10]) (?s [Locked 72] [10])"
    using print_step.emit [of "?s [] [72, 10]" 3 72 "[10]"] by (simp add: console_new_def)
  moreover have "print_step (?s [Locked 72] [10]) (?s [Locked 72, Direct 46] [10])"
    using print_step.direct [of "?s [Locked 72] [10]" 0 46] by (simp add: console_new_def)
  moreover have "print_step (?s [Locked 72, Direct 46] [10]) demo_console"
    using print_step.emit [of "?s [Locked 72, Direct 46] [10]" 3 10 "[]"]
    by (simp add: console_new_def demo_console_def)
  ultimately show ?thesis by (auto simp: print_reach_def intro: rtranclp_trans)
qed

theorem print_atomic_witness:
  "\<exists>rest. concat (messages demo_console) = locked_bytes (on_line demo_console) @ rest"
  using print_atomic [OF demo_console_reach] by blast

theorem direct_byte_splits:
  "\<exists>s. print_reach s \<and> messages s = [[72, 10]] \<and> on_line s = [Locked 72, Direct 46, Locked 10]"
  using demo_console_reach by (intro exI [of _ demo_console]) (simp add: demo_console_def)

end
