(* ===== verification/KernelVm.thy ===== *)
theory KernelVm
  imports VmRun Net Serial
begin

text \<open>
  The px64 machine of the kernel (\<^verbatim>\<open>PX64VM\<close> in \<^verbatim>\<open>kernel/src/lang.rs\<close>), a second implementation
  of the instruction set of \<^verbatim>\<open>pulselang-core/src/vm.rs\<close> for programs that run in the operating
  system: with smaller memories, a wall-clock limit, and native functions that reach the
  network, the frame pipeline and the console. An instruction returns \<^term>\<open>None\<close> when a native
  never returns; the other outcomes are those of \<^typ>\<open>'s flow\<close>.
\<close>

section \<open>State\<close>

record kvm =
  k_code :: "u8 list"
  k_str_pool :: "u8 list"
  k_const_pool :: "i64 list"
  k_ip :: nat
  k_regs :: "i64 list"
  k_call_stack :: "u16 list"
  k_frame_stack :: "i64 list list"
  k_call_sp :: nat
  k_deadline_stack :: "u64 list"
  k_dl_sp :: nat
  k_array_slots :: "i64 list"
  k_array_lens :: "u16 list"
  k_array_bases :: "u16 list"
  k_struct_slots :: "i64 list"
  k_struct_field_counts :: "u8 list"
  k_struct_bases :: "u16 list"
  k_table_lens :: "u8 list"
  k_table_bases :: "u8 list"
  k_spill_slots :: "i64 list"

definition kvm_new :: "u8 list \<Rightarrow> u8 list \<Rightarrow> i64 list \<Rightarrow> kvm" where
  "kvm_new prog pool consts =
     \<lparr>k_code = prog, k_str_pool = pool, k_const_pool = consts, k_ip = 0,
      k_regs = array_of 0 PX64_NUM_REGISTERS, k_call_stack = array_of 0 MAX_CALL_DEPTH,
      k_frame_stack = array_of (array_of 0 16) MAX_CALL_DEPTH, k_call_sp = 0,
      k_deadline_stack = array_of 0 8, k_dl_sp = 0,
      k_array_slots = array_of 0 256, k_array_lens = array_of 0 8, k_array_bases = array_of 0 8,
      k_struct_slots = array_of 0 256, k_struct_field_counts = array_of 0 8, k_struct_bases = array_of 0 8,
      k_table_lens = array_of 0 8, k_table_bases = array_of 0 8, k_spill_slots = array_of 0 32\<rparr>"

text \<open>
  The statics of the kernel a script reaches, and what is outside the repository: the ports, the
  registers of the network card, the addresses of the frame slots, the identity of the core, and
  whether arithmetic is checked.
\<close>

record 'w kstatics =
  SCRIPT_ARGS :: "u8 list list"
  SCRIPT_ARG_LENS :: "nat list"
  SCRIPT_ARGC :: nat
  k_pipe :: pipeline
  k_net :: net
  k_nic :: e1000
  k_serial :: serial
  k_world :: 'w

record 'w kenv =
  k_ports :: "'w ports"
  k_mmio :: "'w mmio"
  k_slot_addr :: "nat \<Rightarrow> u64"
  k_lapic_id :: u8
  k_checked :: bool
  k_tsc_freq_hz :: u64

text \<open>The machine with the local \<^verbatim>\<open>timeout_tsc\<close> of its loop.\<close>

record 'w krun =
  k_mach :: kvm
  timeout_tsc :: u64
  statics :: "'w kstatics"

section \<open>Script arguments\<close>

definition trim_matches :: "u8 \<Rightarrow> str \<Rightarrow> str" where
  "trim_matches c s = rev (dropWhile (\<lambda>b. b = c) (rev (dropWhile (\<lambda>b. b = c) s)))"

definition store_arg :: "nat \<Rightarrow> str \<Rightarrow> 'w kstatics \<Rightarrow> 'w kstatics" where
  "store_arg i arg st =
     (let raw = trim_matches 39 (trim_matches 34 arg);
          len = min (length raw) 128
      in st\<lparr>SCRIPT_ARGS := (SCRIPT_ARGS st)[i := copy_at 0 (take len raw) (SCRIPT_ARGS st ! i)],
            SCRIPT_ARG_LENS := (SCRIPT_ARG_LENS st)[i := len]\<rparr>)"

definition set_script_args :: "str list \<Rightarrow> 'w kstatics \<Rightarrow> 'w kstatics" where
  "set_script_args args st =
     fold (\<lambda>(i, arg). store_arg i arg) (zip [0..<8] (take 8 args)) (st\<lparr>SCRIPT_ARGC := min (length args) 8\<rparr>)"

definition script_arg :: "'w kstatics \<Rightarrow> nat \<Rightarrow> u8 list option" where
  "script_arg st i =
     (if i < SCRIPT_ARGC st then Some (take (SCRIPT_ARG_LENS st ! i) (SCRIPT_ARGS st ! i)) else None)"

definition k_get_str_bytes :: "kvm \<Rightarrow> 'w kstatics \<Rightarrow> i64 \<Rightarrow> u8 list option" where
  "k_get_str_bytes k st val =
     (if val AND STR_TAG \<noteq> 0 then
        let offset = unat (drop_bit 32 (val AND 0x00FFFFFF00000000));
            len = unat (val AND 0xFFFFFFFF)
        in if offset + len \<le> length (k_str_pool k) then Some (sub_slice offset len (k_str_pool k)) else None
      else if val AND ARG_TAG \<noteq> 0 then script_arg st (unat (val AND 0xFF))
      else None)"

section \<open>Instructions on the machine\<close>

definition k_set_reg :: "nat \<Rightarrow> i64 \<Rightarrow> kvm \<Rightarrow> kvm" where
  "k_set_reg rd v k = (if reg_ok rd then k\<lparr>k_regs := (k_regs k)[rd := v]\<rparr> else k)"

definition k_reg_or :: "i64 \<Rightarrow> nat \<Rightarrow> kvm \<Rightarrow> i64" where
  "k_reg_or d r k = (if reg_ok r then k_regs k ! r else d)"

definition k_alu2 :: "(i64 \<Rightarrow> i64) \<Rightarrow> nat \<Rightarrow> nat \<Rightarrow> kvm \<Rightarrow> kvm" where
  "k_alu2 f rd rs1 k = (if reg_ok rd \<and> reg_ok rs1 then k_set_reg rd (f (k_regs k ! rs1)) k else k)"

definition k_alu3 :: "(i64 \<Rightarrow> i64 \<Rightarrow> i64) \<Rightarrow> nat \<Rightarrow> nat \<Rightarrow> nat \<Rightarrow> kvm \<Rightarrow> kvm" where
  "k_alu3 f rd rs1 rs2 k =
     (if reg_ok rd \<and> reg_ok rs1 \<and> reg_ok rs2 then k_set_reg rd (f (k_regs k ! rs1) (k_regs k ! rs2)) k else k)"

definition k_ldc :: "nat \<Rightarrow> u16 \<Rightarrow> kvm \<Rightarrow> kvm flow" where
  "k_ldc rd imm16 k =
     (let const_idx = unat imm16
      in if length (k_const_pool k) \<le> const_idx then
           Fail (simple ''ERR_PX64_CONST_OUT_OF_BOUNDS''
                        ''Constant pool index out of bounds during LDC execution'') k
         else Continue (k_set_reg rd (k_const_pool k ! const_idx) k))"

definition k_div :: "string \<Rightarrow> (i64 \<Rightarrow> i64 \<Rightarrow> i64) \<Rightarrow> nat \<Rightarrow> nat \<Rightarrow> nat \<Rightarrow> kvm \<Rightarrow> kvm flow" where
  "k_div msg f rd rs1 rs2 k =
     (if reg_ok rd \<and> reg_ok rs1 \<and> reg_ok rs2 then
        let denom = k_regs k ! rs2
        in if denom = 0 then Fail (simple ''ERR_PX64_DIV_BY_ZERO'' msg) k
           else Continue (k_set_reg rd (f (k_regs k ! rs1) denom) k)
      else Continue k)"

definition k_same_bytes :: "'w kstatics \<Rightarrow> kvm \<Rightarrow> i64 \<Rightarrow> i64 \<Rightarrow> bool" where
  "k_same_bytes st k v1 v2 =
     (case (k_get_str_bytes k st v1, k_get_str_bytes k st v2) of
        (Some b1, Some b2) \<Rightarrow> b1 = b2
      | _ \<Rightarrow> False)"

definition k_equal :: "'w kstatics \<Rightarrow> kvm \<Rightarrow> i64 \<Rightarrow> i64 \<Rightarrow> bool" where
  "k_equal st k v1 v2 =
     (if v1 = v2 then True
      else if is_str_ref v1 \<and> is_str_ref v2 then k_same_bytes st k v1 v2
      else False)"

definition k_cmp_eq :: "'w kstatics \<Rightarrow> nat \<Rightarrow> nat \<Rightarrow> nat \<Rightarrow> kvm \<Rightarrow> kvm" where
  "k_cmp_eq st rd rs1 rs2 k = k_alu3 (\<lambda>v1 v2. of_bool_i64 (k_equal st k v1 v2)) rd rs1 rs2 k"

definition k_cmp_ne :: "'w kstatics \<Rightarrow> nat \<Rightarrow> nat \<Rightarrow> nat \<Rightarrow> kvm \<Rightarrow> kvm" where
  "k_cmp_ne st rd rs1 rs2 k = k_alu3 (\<lambda>v1 v2. of_bool_i64 (\<not> k_equal st k v1 v2)) rd rs1 rs2 k"

definition k_streq :: "'w kstatics \<Rightarrow> nat \<Rightarrow> nat \<Rightarrow> nat \<Rightarrow> kvm \<Rightarrow> kvm" where
  "k_streq st rd rs1 rs2 k =
     k_alu3 (\<lambda>v1 v2. of_bool_i64 (v1 = v2 \<or> k_same_bytes st k v1 v2)) rd rs1 rs2 k"

definition k_arr_base :: "nat \<Rightarrow> u16 \<Rightarrow> kvm \<Rightarrow> nat" where
  "k_arr_base arr_id imm16 k = sum_list (map unat (take arr_id ((k_array_lens k)[arr_id := imm16])))"

definition k_arr_def :: "nat \<Rightarrow> u16 \<Rightarrow> kvm \<Rightarrow> kvm" where
  "k_arr_def arr_id imm16 k =
     (if arr_id < 8 then
        let len = unat imm16;
            base = k_arr_base arr_id imm16 k
        in k\<lparr>k_array_lens := (k_array_lens k)[arr_id := imm16],
             k_array_bases := (k_array_bases k)[arr_id := of_nat base],
             k_array_slots := (if base + len \<le> 256 then copy_at base (array_of 0 len) (k_array_slots k)
                               else k_array_slots k)\<rparr>
      else k)"

definition k_arr_load :: "nat \<Rightarrow> nat \<Rightarrow> nat \<Rightarrow> kvm \<Rightarrow> kvm flow" where
  "k_arr_load rd arr_id idx_reg k =
     (let i = sint (k_reg_or (-1) idx_reg k)
      in if 8 \<le> arr_id then
           Fail (simple ''ERR_PX64_ARRAY_INVALID_ID'' ''Array ID is invalid'') k
         else if i < 0 \<or> i \<ge> uint (k_array_lens k ! arr_id) then
           Fail (simple ''ERR_PX64_ARRAY_OUT_OF_BOUNDS'' ''Array element access out of bounds'') k
         else if reg_ok rd then
           (case idx (k_array_slots k) (unat (k_array_bases k ! arr_id) + nat i) of
              Some v \<Rightarrow> Continue (k_set_reg rd v k)
            | None \<Rightarrow> Crash)
         else Continue k)"

definition k_arr_store :: "nat \<Rightarrow> nat \<Rightarrow> nat \<Rightarrow> kvm \<Rightarrow> kvm flow" where
  "k_arr_store arr_id idx_reg val_reg k =
     (let i = sint (k_reg_or (-1) idx_reg k);
          v = k_reg_or 0 val_reg k
      in if 8 \<le> arr_id then
           Fail (simple ''ERR_PX64_ARRAY_INVALID_ID'' ''Array ID is invalid'') k
         else if i < 0 \<or> i \<ge> uint (k_array_lens k ! arr_id) then
           Fail (simple ''ERR_PX64_ARRAY_OUT_OF_BOUNDS'' ''Array element access out of bounds'') k
         else
           let n = unat (k_array_bases k ! arr_id) + nat i
           in if n < length (k_array_slots k)
              then Continue (k\<lparr>k_array_slots := (k_array_slots k)[n := v]\<rparr>) else Crash)"

definition k_struct_base :: "nat \<Rightarrow> nat \<Rightarrow> kvm \<Rightarrow> nat" where
  "k_struct_base inst_id rs1 k =
     sum_list (map unat (take inst_id ((k_struct_field_counts k)[inst_id := of_nat rs1])))"

definition k_struct_def :: "nat \<Rightarrow> nat \<Rightarrow> kvm \<Rightarrow> kvm" where
  "k_struct_def inst_id rs1 k =
     (if inst_id < 8 then
        k\<lparr>k_struct_field_counts := (k_struct_field_counts k)[inst_id := of_nat rs1],
          k_struct_bases := (k_struct_bases k)[inst_id := of_nat (k_struct_base inst_id rs1 k)]\<rparr>
      else k)"

definition k_struct_load :: "nat \<Rightarrow> nat \<Rightarrow> nat \<Rightarrow> kvm \<Rightarrow> kvm flow" where
  "k_struct_load rd inst_id offset k =
     (if 8 \<le> inst_id \<or> unat (k_struct_field_counts k ! inst_id) \<le> offset then
        Fail (simple ''ERR_PX64_STRUCT_OUT_OF_BOUNDS'' ''Struct field offset out of bounds'') k
      else
        (case idx (k_struct_slots k) (unat (k_struct_bases k ! inst_id) + offset) of
           Some v \<Rightarrow> Continue (k_set_reg rd v k)
         | None \<Rightarrow> Crash))"

definition k_struct_store :: "nat \<Rightarrow> nat \<Rightarrow> nat \<Rightarrow> kvm \<Rightarrow> kvm flow" where
  "k_struct_store inst_id offset val_reg k =
     (let v = k_reg_or 0 val_reg k
      in if 8 \<le> inst_id \<or> unat (k_struct_field_counts k ! inst_id) \<le> offset then
           Fail (simple ''ERR_PX64_STRUCT_OUT_OF_BOUNDS'' ''Struct field offset out of bounds'') k
         else
           let n = unat (k_struct_bases k ! inst_id) + offset
           in if n < length (k_struct_slots k)
              then Continue (k\<lparr>k_struct_slots := (k_struct_slots k)[n := v]\<rparr>) else Crash)"

definition k_tbl_def :: "nat \<Rightarrow> nat \<Rightarrow> nat \<Rightarrow> kvm \<Rightarrow> kvm" where
  "k_tbl_def tbl_id rs1 rs2 k =
     (if tbl_id < 8 then
        k\<lparr>k_table_bases := (k_table_bases k)[tbl_id := of_nat rs1],
          k_table_lens := (k_table_lens k)[tbl_id := of_nat rs2]\<rparr>
      else k)"

text \<open>The constant pool is indexed without a check.\<close>

definition k_tbl_load :: "nat \<Rightarrow> nat \<Rightarrow> nat \<Rightarrow> kvm \<Rightarrow> kvm flow" where
  "k_tbl_load rd tbl_id idx_reg k =
     (let i = sint (k_reg_or (-1) idx_reg k)
      in if 8 \<le> tbl_id then
           Fail (simple ''ERR_PX64_TABLE_INVALID_ID'' ''Const table ID is invalid'') k
         else if i < 0 \<or> i \<ge> uint (k_table_lens k ! tbl_id) then
           Fail (simple ''ERR_PX64_TABLE_OUT_OF_BOUNDS''
                        ''Const table lookup index out of bounds'') k
         else
           (case idx (k_const_pool k) (unat (k_table_bases k ! tbl_id) + nat i) of
              Some v \<Rightarrow> Continue (k_set_reg rd v k)
            | None \<Rightarrow> Crash))"

definition k_assert :: "nat \<Rightarrow> kvm \<Rightarrow> kvm flow" where
  "k_assert rd k =
     (if k_reg_or 0 rd k = 0 then
        Fail (simple ''ERR_PX64_ASSERTION_FAILED''
                     ''PulseLang assertion failed: condition evaluated to false (0)'') k
      else Continue k)"

definition k_call :: "u16 \<Rightarrow> kvm \<Rightarrow> kvm flow" where
  "k_call imm16 k =
     (if MAX_CALL_DEPTH \<le> k_call_sp k then
        Fail (simple ''ERR_PX64_STACK_OVERFLOW''
          ''Call stack overflow: exceeded MAX_CALL_DEPTH limit (8 nested calls maximum, unbounded recursion prohibited)'') k
      else Continue
        (k\<lparr>k_call_stack := (k_call_stack k)[k_call_sp k := of_nat (k_ip k)],
           k_frame_stack := (k_frame_stack k)[k_call_sp k := take 16 (k_regs k)],
           k_call_sp := k_call_sp k + 1,
           k_ip := unat imm16\<rparr>))"

definition k_ret :: "kvm \<Rightarrow> kvm flow" where
  "k_ret k =
     (if k_call_sp k = 0 then Break k
      else
        let sp = k_call_sp k - 1;
            return_val = k_regs k ! 0;
            return_ip = unat (k_call_stack k ! sp)
        in Continue
          (k\<lparr>k_call_sp := sp,
             k_regs := (k_frame_stack k ! sp @ drop 16 (k_regs k))[0 := return_val],
             k_ip := return_ip\<rparr>))"

definition k_jump_if :: "(i64 \<Rightarrow> bool) \<Rightarrow> nat \<Rightarrow> u16 \<Rightarrow> kvm \<Rightarrow> kvm" where
  "k_jump_if c rd imm16 k = (if reg_ok rd \<and> c (k_regs k ! rd) then k\<lparr>k_ip := unat imm16\<rparr> else k)"

definition k_spill_store :: "nat \<Rightarrow> nat \<Rightarrow> kvm \<Rightarrow> kvm" where
  "k_spill_store slot val_reg k =
     (let v = k_reg_or 0 val_reg k
      in if slot < 32 then k\<lparr>k_spill_slots := (k_spill_slots k)[slot := v]\<rparr> else k)"

definition k_spill_load :: "nat \<Rightarrow> nat \<Rightarrow> kvm \<Rightarrow> kvm" where
  "k_spill_load rd slot k =
     (let v = (if slot < 32 then k_spill_slots k ! slot else 0) in k_set_reg rd v k)"

end
