(* ===== verification/KernelRun.thy ===== *)
theory KernelRun
  imports KernelVm
begin

text \<open>
  The native functions of the kernel's px64 machine and its execution loop (\<^verbatim>\<open>PX64VM::run\<close> in
  \<^verbatim>\<open>kernel/src/lang.rs\<close>). A native returns its value and the statics, an error or a panic;
  \<^term>\<open>None\<close> is a native that never returns. Sums of counter readings overflow: a panic in a
  checked build, a wrapped value otherwise.
\<close>

type_synonym 'w knative = "(CompileError, i64 \<times> 'w kstatics) outcome option"

section \<open>Clock and console\<close>

definition k_tsc :: "'w kenv \<Rightarrow> 'w kstatics \<Rightarrow> u64 \<times> 'w kstatics" where
  "k_tsc e st = (let (t, w) = read_tsc_serialized (k_ports e) (k_world st) in (t, st\<lparr>k_world := w\<rparr>))"

definition add_tsc :: "'w kenv \<Rightarrow> u64 \<Rightarrow> u64 \<Rightarrow> u64 option" where
  "add_tsc e a b = (if k_checked e \<and> 2 ^ 64 \<le> unat a + unat b then None else Some (a + b))"

definition serial_print :: "'w kenv \<Rightarrow> u8 list \<Rightarrow> 'w kstatics \<Rightarrow> 'w kstatics option" where
  "serial_print e b st =
     map_option (\<lambda>(u, w). st\<lparr>k_serial := u, k_world := w\<rparr>)
       (send_str (k_ports e) b (k_serial st, k_world st))"

definition k_ret1 :: "i64 \<Rightarrow> 'w kstatics \<Rightarrow> 'w knative" where
  "k_ret1 v st = Some (Ok (v, st))"

definition print_ret :: "'w kenv \<Rightarrow> u8 list \<Rightarrow> 'w kstatics \<Rightarrow> 'w knative" where
  "print_ret e b st = map_option (\<lambda>st'. Ok (0, st')) (serial_print e b st)"

text \<open>
  The text of a pool reference. The offset is shifted arithmetically, so a negative value has
  an offset near the end of the address space, and \<^verbatim>\<open>offset + len\<close> can overflow; wrapped
  and within the pool it then makes a slice that ends before it starts, which panics.
\<close>

definition k_pool_text :: "'w kenv \<Rightarrow> kvm \<Rightarrow> i64 \<Rightarrow> (unit, u8 list option) outcome" where
  "k_pool_text e k v =
     (let raw = v AND NOT STR_TAG;
          offset = unat (signed_drop_bit 32 raw);
          len = unat (raw AND 0xFFFFFFFF);
          end_at = offset + len
      in if 2 ^ 64 \<le> end_at then
           (if k_checked e \<or> end_at - 2 ^ 64 \<le> length (k_str_pool k) then Panic else Ok None)
         else if end_at \<le> length (k_str_pool k) \<and> utf8_valid (sub_slice offset len (k_str_pool k))
         then Ok (Some (sub_slice offset len (k_str_pool k))) else Ok None)"

definition k_arg_text :: "'w kstatics \<Rightarrow> i64 \<Rightarrow> u8 list option" where
  "k_arg_text st v =
     (case script_arg st (unat (v AND 0xFF)) of
        Some s \<Rightarrow> if utf8_valid s then Some s else None
      | None \<Rightarrow> None)"

text \<open>Printing a text with what follows it, or nothing at all when there is no text.\<close>

definition print_text :: "'w kenv \<Rightarrow> u8 list \<Rightarrow> u8 list option \<Rightarrow> 'w kstatics \<Rightarrow> 'w knative" where
  "print_text e after t st = (case t of Some s \<Rightarrow> print_ret e (s @ after) st | None \<Rightarrow> k_ret1 0 st)"

definition k_print_ref :: "'w kenv \<Rightarrow> u8 list \<Rightarrow> kvm \<Rightarrow> i64 \<Rightarrow> 'w kstatics \<Rightarrow> 'w knative" where
  "k_print_ref e after k v st =
     (if v AND ARG_TAG \<noteq> 0 then print_text e after (k_arg_text st v) st
      else (case k_pool_text e k v of
              Ok t \<Rightarrow> print_text e after t st
            | _ \<Rightarrow> Some Panic))"

definition k_print :: "'w kenv \<Rightarrow> kvm \<Rightarrow> i64 \<Rightarrow> 'w kstatics \<Rightarrow> 'w knative" where
  "k_print e k arg_val st =
     (if is_str_ref arg_val then k_print_ref e [] k arg_val st else print_ret e (dec_i64 arg_val) st)"

definition k_println :: "'w kenv \<Rightarrow> kvm \<Rightarrow> nat \<Rightarrow> i64 \<Rightarrow> 'w kstatics \<Rightarrow> 'w knative" where
  "k_println e k arg_reg arg_val st =
     (if is_str_ref arg_val then k_print_ref e [10] k arg_val st
      else if arg_reg \<noteq> 0 \<or> arg_val \<noteq> 0 then print_ret e (dec_i64 arg_val @ [10]) st
      else print_ret e [10] st)"

section \<open>Frames and network\<close>

definition k_gpu_capture :: "'w kenv \<Rightarrow> 'w kstatics \<Rightarrow> 'w knative" where
  "k_gpu_capture e st =
     (let (vblank, w) = poll_vblank_edge (k_ports e) 5 (k_world st);
          (done_tsc, w) = read_tsc_serialized (k_ports e) w;
          (handle, pool) = capture_frame_zero_copy (k_slot_addr e) done_tsc 0 1 vblank (frame_pool (k_pipe st))
      in k_ret1 (ucast (slot_id handle)) (st\<lparr>k_pipe := (k_pipe st)\<lparr>frame_pool := pool\<rparr>, k_world := w\<rparr>))"

text \<open>The frame of a slot, at most 1400 bytes of it, is sent from where it lies.\<close>

definition k_net_send :: "'w kenv \<Rightarrow> i64 \<Rightarrow> 'w kstatics \<Rightarrow> 'w knative" where
  "k_net_send e arg_val st =
     (let slot = (ucast arg_val :: u8) mod 4;
          (now, st1) = k_tsc e st;
          data_slice = get_frame_slot_data (frame_pool (k_pipe st1)) slot;
          send_size = min 1400 (length data_slice);
          handle = \<lparr>slot_id = slot, frame_id = 1, width = 1920, height = 1080, stride = 7680,
                    phys_addr = k_slot_addr e (unat slot), size = send_size, crc32 = 0x12345678,
                    vblank_tsc = now, capture_done_tsc = now\<rparr>
      in case add_tsc e now (ns_to_tsc 50000000 (k_tsc_freq_hz e)) of
           None \<Rightarrow> Some Panic
         | Some deadline \<Rightarrow>
             (case stream_send_frame (k_ports e) (k_mmio e) (\<lambda>a n. take n data_slice) handle deadline 1
                     (k_net st1) (k_nic st1) (k_world st1) of
                (Panic, _) \<Rightarrow> Some Panic
              | (_, _, n, nic, w) \<Rightarrow> k_ret1 1 (st1\<lparr>k_net := n, k_nic := nic, k_world := w\<rparr>)))"

definition k_net_set_rate :: "i64 \<Rightarrow> 'w kstatics \<Rightarrow> 'w knative" where
  "k_net_set_rate arg_val st =
     k_ret1 0 (st\<lparr>k_net := (k_net st)\<lparr>CONGESTION_RATE_PCT := ucast arg_val\<rparr>\<rparr>)"

definition k_ring_depth :: "i64 \<Rightarrow> 'w kstatics \<Rightarrow> i64" where
  "k_ring_depth arg_val st =
     (if arg_val = 0 then of_nat (len (capture_to_encode (k_pipe st)))
      else if arg_val = 1 then of_nat (len (encode_to_net (k_pipe st)))
      else 0)"

section \<open>Waiting\<close>

partial_function (option) wait_until :: "'w ports \<Rightarrow> u64 \<Rightarrow> 'w \<Rightarrow> 'w option" where
  "wait_until p limit w =
     (let (t, w1) = read_tsc_serialized p w in if t < limit then wait_until p limit w1 else Some w1)"

definition k_busy_wait :: "'w kenv \<Rightarrow> i64 \<Rightarrow> 'w kstatics \<Rightarrow> 'w knative" where
  "k_busy_wait e arg_val st =
     (if 0 < sint arg_val then
        let (start, st1) = k_tsc e st
        in case add_tsc e start (ns_to_tsc arg_val (k_tsc_freq_hz e)) of
             None \<Rightarrow> Some Panic
           | Some limit \<Rightarrow>
               map_option (\<lambda>w. Ok (0, st1\<lparr>k_world := w\<rparr>)) (wait_until (k_ports e) limit (k_world st1))
      else k_ret1 0 st)"

section \<open>Native functions of the machine alone\<close>

definition k_nat_arg :: "nat \<Rightarrow> i64 \<Rightarrow> nat \<Rightarrow> kvm \<Rightarrow> i64 option" where
  "k_nat_arg n d arg_reg k = (if arg_reg > n then idx (k_regs k) (arg_reg - (n + 1)) else Some d)"

text \<open>Natives of one and of two further arguments.\<close>

definition k_with1 :: "i64 \<Rightarrow> nat \<Rightarrow> kvm \<Rightarrow> (i64 \<Rightarrow> (CompileError, i64) outcome) \<Rightarrow> (CompileError, i64) outcome" where
  "k_with1 d arg_reg k f = (case k_nat_arg 0 d arg_reg k of Some a \<Rightarrow> f a | None \<Rightarrow> Panic)"

definition k_with2 ::
  "i64 \<Rightarrow> i64 \<Rightarrow> nat \<Rightarrow> kvm \<Rightarrow> (i64 \<Rightarrow> i64 \<Rightarrow> (CompileError, i64) outcome) \<Rightarrow> (CompileError, i64) outcome" where
  "k_with2 d1 d2 arg_reg k f =
     k_with1 d1 arg_reg k (\<lambda>a. case k_nat_arg 1 d2 arg_reg k of Some b \<Rightarrow> f a b | None \<Rightarrow> Panic)"

definition k_unwrap :: "i64 \<Rightarrow> (CompileError, i64) outcome" where
  "k_unwrap arg_val =
     (if arg_val AND ERR_TAG \<noteq> 0 then
        Err (simple ''ERR_PX64_UNWRAP_FAILED''
          ''PulseLang unwrap failed: called @unwrap() on an Err result value'')
      else Ok arg_val)"

definition k_fix_div :: "i64 \<Rightarrow> i64 \<Rightarrow> i64 \<Rightarrow> (CompileError, i64) outcome" where
  "k_fix_div arg_val b q =
     (if b = 0 then Err (simple ''ERR_PX64_DIV_BY_ZERO'' ''Division by zero in fixed-point division'')
      else Ok (wrapping_div (wrapping_shl arg_val (fix_q q)) b))"

definition k_pure_native :: "native \<Rightarrow> nat \<Rightarrow> i64 \<Rightarrow> kvm \<Rightarrow> (CompileError, i64) outcome option" where
  "k_pure_native f arg_reg arg_val k =
     (case f of
        NATIVE_TAG_OK \<Rightarrow> Some (Ok (arg_val AND NOT ERR_TAG))
      | NATIVE_TAG_ERR \<Rightarrow> Some (Ok (ERR_TAG OR (arg_val AND NOT ERR_TAG)))
      | NATIVE_IS_OK \<Rightarrow> Some (Ok (of_bool_i64 (arg_val AND ERR_TAG = 0)))
      | NATIVE_IS_ERR \<Rightarrow> Some (Ok (of_bool_i64 (arg_val AND ERR_TAG \<noteq> 0)))
      | NATIVE_UNWRAP \<Rightarrow> Some (k_unwrap arg_val)
      | NATIVE_MATH_MIN \<Rightarrow> Some (k_with1 0 arg_reg k (\<lambda>b. Ok (smin arg_val b)))
      | NATIVE_MATH_MAX \<Rightarrow> Some (k_with1 0 arg_reg k (\<lambda>b. Ok (smax arg_val b)))
      | NATIVE_MATH_ABS \<Rightarrow> Some (Ok (saturating_abs arg_val))
      | NATIVE_MATH_CLAMP \<Rightarrow> Some (k_with2 0 0 arg_reg k (\<lambda>lo hi. Ok (smin (smax arg_val lo) hi)))
      | NATIVE_BIT_POPCNT \<Rightarrow> Some (Ok (of_nat (count_ones arg_val)))
      | NATIVE_BIT_LZCNT \<Rightarrow> Some (Ok (of_nat (leading_zeros arg_val)))
      | NATIVE_CRC32 \<Rightarrow>
          Some (k_with1 0 arg_reg k (\<lambda>v. Ok (ucast (compute_crc32 (to_le 8 v) XOR (ucast arg_val :: u32)))))
      | NATIVE_FIX_TO_FIX \<Rightarrow> Some (k_with1 16 arg_reg k (\<lambda>q. Ok (wrapping_shl arg_val (fix_q q))))
      | NATIVE_FIX_TO_I64 \<Rightarrow> Some (k_with1 16 arg_reg k (\<lambda>q. Ok (wrapping_shr arg_val (fix_q q))))
      | NATIVE_FIX_MUL \<Rightarrow> Some (k_with2 0 16 arg_reg k (\<lambda>b q. Ok (wrapping_shr (arg_val * b) (fix_q q))))
      | NATIVE_FIX_DIV \<Rightarrow> Some (k_with2 0 16 arg_reg k (k_fix_div arg_val))
      | _ \<Rightarrow> None)"

section \<open>Video memory\<close>

definition k_vram_read :: "nat \<Rightarrow> i64 \<Rightarrow> kvm \<Rightarrow> 'w kstatics \<Rightarrow> 'w knative" where
  "k_vram_read arg_reg arg_val k st =
     (case k_nat_arg 0 0 arg_reg k of
        None \<Rightarrow> Some Panic
      | Some offset \<Rightarrow>
          (case vram_load (get_frame_slot_data (frame_pool (k_pipe st)) (of_nat (unat arg_val mod 4))) offset of
             Some v \<Rightarrow> k_ret1 v st
           | None \<Rightarrow> Some Panic))"

definition k_vram_write :: "nat \<Rightarrow> i64 \<Rightarrow> kvm \<Rightarrow> 'w kstatics \<Rightarrow> 'w knative" where
  "k_vram_write arg_reg arg_val k st =
     (let slot = unat arg_val mod 4
      in case (k_nat_arg 0 0 arg_reg k, k_nat_arg 1 0 arg_reg k) of
           (Some offset, Some val) \<Rightarrow>
             (case vram_store (frame_pool (k_pipe st) ! slot) offset val of
                Some slot' \<Rightarrow>
                  k_ret1 0 (st\<lparr>k_pipe := (k_pipe st)\<lparr>frame_pool := (frame_pool (k_pipe st))[slot := slot']\<rparr>\<rparr>)
              | None \<Rightarrow> Some Panic)
         | _ \<Rightarrow> Some Panic)"

section \<open>Dispatch\<close>

definition k_call_native :: "'w kenv \<Rightarrow> native \<Rightarrow> nat \<Rightarrow> i64 \<Rightarrow> kvm \<Rightarrow> 'w kstatics \<Rightarrow> 'w knative" where
  "k_call_native e f arg_reg arg_val k st =
     (case k_pure_native f arg_reg arg_val k of
        Some (Ok v) \<Rightarrow> k_ret1 v st
      | Some (Err x) \<Rightarrow> Some (Err x)
      | Some Panic \<Rightarrow> Some Panic
      | None \<Rightarrow>
          (case f of
             NATIVE_PRINT \<Rightarrow> k_print e k arg_val st
           | NATIVE_PRINTLN \<Rightarrow> k_println e k arg_reg arg_val st
           | NATIVE_SYS_TSC \<Rightarrow> Some (Ok (k_tsc e st))
           | NATIVE_NET_RTT \<Rightarrow> k_ret1 (LAST_RTT_NS (k_net st)) st
           | NATIVE_NET_SET_RATE \<Rightarrow> k_net_set_rate arg_val st
           | NATIVE_GPU_CAPTURE \<Rightarrow> k_gpu_capture e st
           | NATIVE_NET_SEND \<Rightarrow> k_net_send e arg_val st
           | NATIVE_SCRIPT_ARGC \<Rightarrow> k_ret1 (of_nat (SCRIPT_ARGC st)) st
           | NATIVE_SCRIPT_ARG \<Rightarrow>
               k_ret1 (if 0 \<le> sint arg_val \<and> unat arg_val < 8 then ARG_TAG OR (arg_val AND 0xFF) else 0) st
           | NATIVE_STREQ \<Rightarrow> k_ret1 0 st
           | NATIVE_CORE_ID \<Rightarrow> k_ret1 (ucast (k_lapic_id e)) st
           | NATIVE_TSC_FREQ \<Rightarrow> k_ret1 (k_tsc_freq_hz e div 1000000) st
           | NATIVE_UPTIME_NS \<Rightarrow>
               (let (t, st') = k_tsc e st in k_ret1 (tsc_to_ns t (k_tsc_freq_hz e)) st')
           | NATIVE_BUSY_WAIT \<Rightarrow> k_busy_wait e arg_val st
           | NATIVE_RING_DEPTH \<Rightarrow> k_ret1 (k_ring_depth arg_val st) st
           | NATIVE_VRAM_READ \<Rightarrow> k_vram_read arg_reg arg_val k st
           | NATIVE_VRAM_WRITE \<Rightarrow> k_vram_write arg_reg arg_val k st
           | _ \<Rightarrow> k_ret1 0 st))"

text \<open>Only printing and capturing move the wall-clock limit.\<close>

definition is_blocking_io :: "native option \<Rightarrow> bool" where
  "is_blocking_io f \<longleftrightarrow> f \<in> {Some NATIVE_PRINT, Some NATIVE_PRINTLN, Some NATIVE_GPU_CAPTURE}"

definition saturating_add_u64 :: "u64 \<Rightarrow> u64 \<Rightarrow> u64" where
  "saturating_add_u64 a b = (if 2 ^ 64 \<le> unat a + unat b then - 1 else a + b)"

definition k_op_call_nat :: "'w kenv \<Rightarrow> nat \<Rightarrow> nat \<Rightarrow> nat \<Rightarrow> 'w krun \<Rightarrow> 'w krun flow option" where
  "k_op_call_nat e rd rs1 rs2 s =
     (let f = decode_native (of_nat rs1);
          arg_val = k_reg_or 0 rs2 (k_mach s);
          (t_nat_start, st) = k_tsc e (statics s)
      in case (case f of Some g \<Rightarrow> k_call_native e g rs2 arg_val (k_mach s) st | None \<Rightarrow> k_ret1 0 st) of
           None \<Rightarrow> None
         | Some (Ok (v, st1)) \<Rightarrow>
             let (limit, st2) =
                   (if is_blocking_io f then
                      let (t, st2) = k_tsc e st1
                      in (saturating_add_u64 (timeout_tsc s) (saturating_sub t t_nat_start), st2)
                    else (timeout_tsc s, st1))
             in Some (Continue (s\<lparr>k_mach := k_set_reg rd v (k_mach s), timeout_tsc := limit, statics := st2\<rparr>))
         | Some (Err x) \<Rightarrow> Some (Fail x (s\<lparr>statics := st\<rparr>))
         | Some Panic \<Rightarrow> Some Crash)"

section \<open>Deadlines\<close>

definition k_within_start :: "'w kenv \<Rightarrow> nat \<Rightarrow> 'w krun \<Rightarrow> 'w krun flow" where
  "k_within_start e rd s =
     (let budget_ns = k_reg_or 500000 rd (k_mach s);
          (now, st) = k_tsc e (statics s);
          k = k_mach s
      in case add_tsc e now (ns_to_tsc budget_ns (k_tsc_freq_hz e)) of
           None \<Rightarrow> Crash
         | Some deadline \<Rightarrow>
             Continue (s\<lparr>statics := st, k_mach :=
               (if k_dl_sp k < 8 then
                  k\<lparr>k_deadline_stack := (k_deadline_stack k)[k_dl_sp k := deadline], k_dl_sp := k_dl_sp k + 1\<rparr>
                else k)\<rparr>))"

definition k_within_end :: "kvm \<Rightarrow> kvm" where
  "k_within_end k = (if k_dl_sp k > 0 then k\<lparr>k_dl_sp := k_dl_sp k - 1\<rparr> else k)"

definition k_drop :: "'w kenv \<Rightarrow> 'w krun \<Rightarrow> 'w krun flow option" where
  "k_drop e s =
     (let k = k_mach s
      in if k_dl_sp k > 0 then
           let dl = k_deadline_stack k ! (k_dl_sp k - 1);
               (now, st) = k_tsc e (statics s)
           in if now > dl then
                map_option (\<lambda>st'. Continue (s\<lparr>statics := st'\<rparr>)) (serial_print e deadline_drop_text st)
              else Some (Continue (s\<lparr>statics := st\<rparr>))
         else Some (Continue s))"

section \<open>Executing a decoded instruction\<close>

definition k_on :: "(kvm \<Rightarrow> kvm) \<Rightarrow> 'w krun \<Rightarrow> 'w krun flow option" where
  "k_on f s = Some (Continue (s\<lparr>k_mach := f (k_mach s)\<rparr>))"

definition k_on_flow :: "(kvm \<Rightarrow> kvm flow) \<Rightarrow> 'w krun \<Rightarrow> 'w krun flow option" where
  "k_on_flow f s =
     Some (case f (k_mach s) of
        Continue k \<Rightarrow> Continue (s\<lparr>k_mach := k\<rparr>)
      | Break k \<Rightarrow> Break (s\<lparr>k_mach := k\<rparr>)
      | Fail x k \<Rightarrow> Fail x (s\<lparr>k_mach := k\<rparr>)
      | Crash \<Rightarrow> Crash)"

definition k_exec_op ::
  "'w kenv \<Rightarrow> px64_op \<Rightarrow> nat \<Rightarrow> nat \<Rightarrow> nat \<Rightarrow> u16 \<Rightarrow> 'w krun \<Rightarrow> 'w krun flow option" where
  "k_exec_op e op rd rs1 rs2 imm16 s =
     (case op of
        PX64_OP_NOP \<Rightarrow> Some (Continue s)
      | PX64_OP_HALT \<Rightarrow> Some (Break s)
      | PX64_OP_MOV_IMM \<Rightarrow> k_on (k_set_reg rd (ucast imm16)) s
      | PX64_OP_LDC \<Rightarrow> k_on_flow (k_ldc rd imm16) s
      | PX64_OP_ADDI \<Rightarrow> k_on (k_alu2 (\<lambda>a. a + of_nat rs2) rd rs1) s
      | PX64_OP_SUBI \<Rightarrow> k_on (k_alu2 (\<lambda>a. a - of_nat rs2) rd rs1) s
      | PX64_OP_AND \<Rightarrow> k_on (k_alu3 (\<lambda>a b. a AND b) rd rs1 rs2) s
      | PX64_OP_OR \<Rightarrow> k_on (k_alu3 (\<lambda>a b. a OR b) rd rs1 rs2) s
      | PX64_OP_XOR \<Rightarrow> k_on (k_alu3 (\<lambda>a b. a XOR b) rd rs1 rs2) s
      | PX64_OP_SHL \<Rightarrow> k_on (k_alu3 (\<lambda>a b. wrapping_shl a (unat (b AND 63))) rd rs1 rs2) s
      | PX64_OP_SHR \<Rightarrow> k_on (k_alu3 (\<lambda>a b. drop_bit (unat (b AND 63)) a) rd rs1 rs2) s
      | PX64_OP_ARR_DEF \<Rightarrow> k_on (k_arr_def rd imm16) s
      | PX64_OP_ARR_LOAD \<Rightarrow> k_on_flow (k_arr_load rd rs1 rs2) s
      | PX64_OP_ARR_STORE \<Rightarrow> k_on_flow (k_arr_store rd rs1 rs2) s
      | PX64_OP_STRUCT_DEF \<Rightarrow> k_on (k_struct_def rd rs1) s
      | PX64_OP_STRUCT_LOAD \<Rightarrow> k_on_flow (k_struct_load rd rs1 rs2) s
      | PX64_OP_STRUCT_STORE \<Rightarrow> k_on_flow (k_struct_store rd rs1 rs2) s
      | PX64_OP_TBL_DEF \<Rightarrow> k_on (k_tbl_def rd rs1 rs2) s
      | PX64_OP_TBL_LOAD \<Rightarrow> k_on_flow (k_tbl_load rd rs1 rs2) s
      | PX64_OP_ASSERT \<Rightarrow> k_on_flow (k_assert rd) s
      | PX64_OP_CALL \<Rightarrow> k_on_flow (k_call imm16) s
      | PX64_OP_RET \<Rightarrow> k_on_flow k_ret s
      | PX64_OP_MOV_REG \<Rightarrow> k_on (k_alu2 (\<lambda>a. a) rd rs1) s
      | PX64_OP_MOV_STR \<Rightarrow> k_on (k_set_reg rd (STR_TAG OR push_bit 32 (of_nat rs1) OR of_nat rs2)) s
      | PX64_OP_ADD \<Rightarrow> k_on (k_alu3 (+) rd rs1 rs2) s
      | PX64_OP_SUB \<Rightarrow> k_on (k_alu3 (-) rd rs1 rs2) s
      | PX64_OP_MUL \<Rightarrow> k_on (k_alu3 (*) rd rs1 rs2) s
      | PX64_OP_DIV \<Rightarrow>
          k_on_flow (k_div ''Division by zero in px64 virtual register machine'' wrapping_div rd rs1 rs2) s
      | PX64_OP_MOD \<Rightarrow>
          k_on_flow (k_div ''Modulo by zero in px64 virtual register machine'' wrapping_rem rd rs1 rs2) s
      | PX64_OP_CMP_EQ \<Rightarrow> k_on (k_cmp_eq (statics s) rd rs1 rs2) s
      | PX64_OP_SPILL_STORE \<Rightarrow> k_on (k_spill_store rd rs1) s
      | PX64_OP_SPILL_LOAD \<Rightarrow> k_on (k_spill_load rd rs1) s
      | PX64_OP_CMP_NE \<Rightarrow> k_on (k_cmp_ne (statics s) rd rs1 rs2) s
      | PX64_OP_STREQ \<Rightarrow> k_on (k_streq (statics s) rd rs1 rs2) s
      | PX64_OP_CMP_LT \<Rightarrow> k_on (k_alu3 (\<lambda>a b. of_bool_i64 (sint a < sint b)) rd rs1 rs2) s
      | PX64_OP_CMP_LE \<Rightarrow> k_on (k_alu3 (\<lambda>a b. of_bool_i64 (sint a \<le> sint b)) rd rs1 rs2) s
      | PX64_OP_CMP_GT \<Rightarrow> k_on (k_alu3 (\<lambda>a b. of_bool_i64 (sint a > sint b)) rd rs1 rs2) s
      | PX64_OP_CMP_GE \<Rightarrow> k_on (k_alu3 (\<lambda>a b. of_bool_i64 (sint a \<ge> sint b)) rd rs1 rs2) s
      | PX64_OP_JMP \<Rightarrow> k_on (\<lambda>k. k\<lparr>k_ip := unat imm16\<rparr>) s
      | PX64_OP_JZ \<Rightarrow> k_on (k_jump_if (\<lambda>v. v = 0) rd imm16) s
      | PX64_OP_JNZ \<Rightarrow> k_on (k_jump_if (\<lambda>v. v \<noteq> 0) rd imm16) s
      | PX64_OP_CALL_NAT \<Rightarrow> k_op_call_nat e rd rs1 rs2 s
      | PX64_OP_WITHIN_START \<Rightarrow> Some (k_within_start e rd s)
      | PX64_OP_WITHIN_END \<Rightarrow> k_on k_within_end s
      | PX64_OP_DROP \<Rightarrow> k_drop e s)"

section \<open>The loop\<close>

definition k_fetchable :: "kvm \<Rightarrow> bool" where
  "k_fetchable k \<longleftrightarrow> k_ip k + 4 \<le> length (k_code k)"

definition k_step :: "'w kenv \<Rightarrow> 'w krun \<Rightarrow> 'w krun flow option" where
  "k_step e s =
     (let k = k_mach s;
          b = (\<lambda>n. k_code k ! (k_ip k + n));
          s1 = s\<lparr>k_mach := k\<lparr>k_ip := k_ip k + 4\<rparr>\<rparr>
      in case decode_op (b 0) of
           Some op \<Rightarrow> k_exec_op e op (unat (b 1)) (unat (b 2)) (unat (b 3)) (from_be [b 2, b 3]) s1
         | None \<Rightarrow> Some (Fail invalid_opcode s1))"

definition timeout_exceeded :: CompileError where
  "timeout_exceeded =
     simple ''ERR_PX64_TIMEOUT_EXCEEDED''
       ''Execution exceeded wall-clock execution deadline (watchdog safety violation)''"

text \<open>The counter is read, and compared with the limit, before every instruction and at the end.\<close>

definition k_clock :: "'w kenv \<Rightarrow> 'w krun \<Rightarrow> bool \<times> 'w krun" where
  "k_clock e s = (let (t, st) = k_tsc e (statics s) in (timeout_tsc s < t, s\<lparr>statics := st\<rparr>))"

definition k_finish :: "'w kenv \<Rightarrow> nat \<Rightarrow> 'w krun \<Rightarrow> 'w krun run_result" where
  "k_finish e n s =
     (let (late, s1) = k_clock e s
      in if late then Failed timeout_exceeded s1
         else if MAX_VM_STEPS \<le> n then Failed wcet_exceeded s1
         else Finished s1)"

function k_loop :: "'w kenv \<Rightarrow> nat \<Rightarrow> 'w krun \<Rightarrow> 'w krun run_result option" where
  "k_loop e n s =
     (if k_fetchable (k_mach s) then
        let (late, s1) = k_clock e s
        in if late then Some (Failed timeout_exceeded s1)
           else if MAX_VM_STEPS \<le> n then Some (Failed wcet_exceeded s1)
           else case k_step e s1 of
                  None \<Rightarrow> None
                | Some (Continue s2) \<Rightarrow> k_loop e (n + 1) s2
                | Some (Break s2) \<Rightarrow> Some (k_finish e (n + 1) s2)
                | Some (Fail x s2) \<Rightarrow> Some (Failed x s2)
                | Some Crash \<Rightarrow> Some Panicked
      else Some (k_finish e n s))"
  by pat_completeness auto
termination by (relation "measure (\<lambda>(e, n, s). MAX_VM_STEPS - n)") auto

declare k_loop.simps [simp del]

definition k_enter :: "'w kenv \<Rightarrow> kvm \<Rightarrow> 'w kstatics \<Rightarrow> 'w krun option" where
  "k_enter e k st =
     (let (start_tsc, st1) = k_tsc e st
      in map_option (\<lambda>limit. \<lparr>k_mach = k, timeout_tsc = limit, statics = st1\<rparr>)
           (add_tsc e start_tsc (ns_to_tsc 5000000 (k_tsc_freq_hz e))))"

definition k_run :: "'w kenv \<Rightarrow> kvm \<Rightarrow> 'w kstatics \<Rightarrow> 'w krun run_result option" where
  "k_run e k st = (case k_enter e k st of None \<Rightarrow> Some Panicked | Some s \<Rightarrow> k_loop e 0 s)"

end
