(* ===== verification/KernelProps.thy ===== *)
theory KernelProps
  imports KernelRun VmInv
begin

text \<open>
  The two px64 machines compared: a simulation between the kernel's machine and that of
  \<^verbatim>\<open>pulselang-core\<close> for the instructions both implement alike, lifted to whole runs.
\<close>

section \<open>Related states\<close>

text \<open>
  Program, registers, call stack and spill slots are equal; of the larger memories of the core
  machine the part the kernel has is equal.
\<close>

definition agrees :: "kvm \<Rightarrow> PX64VM \<Rightarrow> bool" where
  "agrees k vm \<longleftrightarrow>
     vm_code vm = k_code k \<and> str_pool vm = k_str_pool k \<and> const_pool vm = k_const_pool k \<and>
     ip vm = k_ip k \<and> regs vm = k_regs k \<and>
     call_stack vm = k_call_stack k \<and> frame_stack vm = k_frame_stack k \<and> call_sp vm = k_call_sp k \<and>
     take 8 (array_lens vm) = k_array_lens k \<and> take 8 (array_bases vm) = k_array_bases k \<and>
     take 256 (array_slots vm) = k_array_slots k \<and>
     take 8 (struct_field_counts vm) = k_struct_field_counts k \<and> take 8 (struct_bases vm) = k_struct_bases k \<and>
     take 256 (struct_slots vm) = k_struct_slots k \<and>
     take 8 (table_lens vm) = k_table_lens k \<and> take 8 (table_bases vm) = k_table_bases k \<and>
     spill_slots vm = k_spill_slots k"

text \<open>Everything the program has declared lies within the memories of the kernel.\<close>

definition kfit :: "kvm \<Rightarrow> bool" where
  "kfit k \<longleftrightarrow>
     (\<forall>i<8. unat (k_array_bases k ! i) + unat (k_array_lens k ! i) \<le> 256 \<and>
            unat (k_struct_bases k ! i) + unat (k_struct_field_counts k ! i) \<le> 256 \<and>
            unat (k_table_bases k ! i) + unat (k_table_lens k ! i) \<le> length (k_const_pool k))"

definition same_args :: "'w kstatics \<Rightarrow> PX64VM \<Rightarrow> bool" where
  "same_args st vm \<longleftrightarrow> (\<forall>i. script_arg st i = idx (vm_args vm) i)"

definition msim :: "'w kstatics \<Rightarrow> kvm \<Rightarrow> PX64VM \<Rightarrow> bool" where
  "msim st k vm \<longleftrightarrow> agrees k vm \<and> vm_ok vm \<and> kfit k \<and> same_args st vm"

lemma msimI:
  assumes "msim st k vm" and "agrees k' vm'" and "keeps vm vm'" and "kfit k'"
  shows "msim st k' vm'"
  using assms by (auto simp: msim_def keeps_def same_program_def same_args_def)

lemma msim_lengths:
  assumes "msim st k vm"
  shows "length (k_regs k) = PX64_NUM_REGISTERS" "length (k_array_slots k) = 256" "length (k_struct_slots k) = 256"
    "length (k_array_lens k) = 8" "length (k_array_bases k) = 8" "length (k_struct_field_counts k) = 8"
    "length (k_struct_bases k) = 8" "length (k_table_lens k) = 8" "length (k_table_bases k) = 8"
  using assms by (auto simp: msim_def agrees_def vm_ok_def dest!: sym [of "take _ _"] sym [of "regs vm"])

section \<open>Portable instructions\<close>

text \<open>A reference without stray bits: the two machines cut the offset of a string differently.\<close>

definition plain_ref :: "i64 \<Rightarrow> bool" where
  "plain_ref v \<longleftrightarrow> v AND STR_TAG = 0 \<or> v AND 0xBF00000000000000 = 0"

definition portable_native :: "native \<Rightarrow> bool" where
  "portable_native f \<longleftrightarrow>
     f \<in> {NATIVE_TAG_OK, NATIVE_TAG_ERR, NATIVE_IS_OK, NATIVE_IS_ERR, NATIVE_UNWRAP, NATIVE_MATH_MIN,
          NATIVE_MATH_MAX, NATIVE_MATH_ABS, NATIVE_MATH_CLAMP, NATIVE_BIT_POPCNT, NATIVE_BIT_LZCNT,
          NATIVE_CRC32, NATIVE_FIX_TO_FIX, NATIVE_FIX_TO_I64, NATIVE_FIX_MUL, NATIVE_FIX_DIV}"

definition portable_op :: "px64_op \<Rightarrow> nat \<Rightarrow> nat \<Rightarrow> nat \<Rightarrow> u16 \<Rightarrow> kvm \<Rightarrow> bool" where
  "portable_op op rd rs1 rs2 imm16 k =
     (case op of
        PX64_OP_ARR_DEF \<Rightarrow> rd < 8 \<and> k_arr_base rd imm16 k + unat imm16 \<le> 256
      | PX64_OP_ARR_LOAD \<Rightarrow> rs1 < 8
      | PX64_OP_ARR_STORE \<Rightarrow> rd < 8
      | PX64_OP_STRUCT_DEF \<Rightarrow> rd < 8 \<and> k_struct_base rd rs1 k + rs1 \<le> 256
      | PX64_OP_STRUCT_LOAD \<Rightarrow> rs1 < 8
      | PX64_OP_STRUCT_STORE \<Rightarrow> rd < 8
      | PX64_OP_TBL_DEF \<Rightarrow> rd < 8 \<and> rs1 + rs2 \<le> length (k_const_pool k)
      | PX64_OP_TBL_LOAD \<Rightarrow> rs1 < 8
      | PX64_OP_CMP_EQ \<Rightarrow> plain_ref (k_reg_or 0 rs1 k) \<and> plain_ref (k_reg_or 0 rs2 k)
      | PX64_OP_CMP_NE \<Rightarrow> plain_ref (k_reg_or 0 rs1 k) \<and> plain_ref (k_reg_or 0 rs2 k)
      | PX64_OP_STREQ \<Rightarrow> plain_ref (k_reg_or 0 rs1 k) \<and> plain_ref (k_reg_or 0 rs2 k)
      | PX64_OP_CALL_NAT \<Rightarrow>
          rs2 \<le> PX64_NUM_REGISTERS \<and>
          (case decode_native (of_nat rs1) of Some f \<Rightarrow> portable_native f | None \<Rightarrow> True)
      | PX64_OP_WITHIN_START \<Rightarrow> False
      | PX64_OP_WITHIN_END \<Rightarrow> False
      | PX64_OP_DROP \<Rightarrow> False
      | _ \<Rightarrow> True)"

text \<open>The next instruction of a machine is portable.\<close>

definition portable :: "kvm \<Rightarrow> bool" where
  "portable k =
     (let b = (\<lambda>n. k_code k ! (k_ip k + n))
      in case decode_op (b 0) of
           Some op \<Rightarrow> portable_op op (unat (b 1)) (unat (b 2)) (unat (b 3)) (from_be [b 2, b 3]) k
         | None \<Rightarrow> True)"

section \<open>The instructions\<close>

lemma agrees_set_reg: "agrees k vm \<Longrightarrow> agrees (k_set_reg rd v k) (set_reg rd v vm)"
  by (simp add: agrees_def k_set_reg_def set_reg_def)

lemma kfit_set_reg [simp]: "kfit (k_set_reg rd v k) = kfit k"
  by (simp add: kfit_def k_set_reg_def)

lemma msim_set_reg: "msim st k vm \<Longrightarrow> msim st (k_set_reg rd v k) (set_reg rd v vm)"
  by (rule msimI) (auto simp: msim_def intro: agrees_set_reg keeps_set_reg)

lemma msim_regs: "msim st k vm \<Longrightarrow> regs vm = k_regs k"
  by (simp add: msim_def agrees_def)

lemma msim_reg_or: "msim st k vm \<Longrightarrow> reg_or d r vm = k_reg_or d r k"
  by (simp add: msim_regs reg_or_def k_reg_or_def)

lemma msim_alu3: "msim st k vm \<Longrightarrow> (\<And>a b. g a b = f a b) \<Longrightarrow> msim st (k_alu3 f rd rs1 rs2 k) (alu3 g rd rs1 rs2 vm)"
  by (simp add: k_alu3_def alu3_def msim_regs msim_set_reg)

lemma msim_alu2: 
  "msim st k vm \<Longrightarrow> msim st (k_alu2 f rd rs1 k) (if reg_ok rd \<and> reg_ok rs1 then set_reg rd (f (regs vm ! rs1)) vm else vm)"
  by (simp add: k_alu2_def msim_regs msim_set_reg)

lemma msim_vm_ok: "msim st k vm \<Longrightarrow> vm_ok vm"
  by (simp add: msim_def)

lemma msim_pools: "msim st k vm \<Longrightarrow> str_pool vm = k_str_pool k" "msim st k vm \<Longrightarrow> const_pool vm = k_const_pool k"
  by (simp_all add: msim_def agrees_def)

subsection \<open>String references\<close>

lemma plain_offset:
  fixes v :: i64
  assumes "v AND 0xBF00000000000000 = 0"
  shows "drop_bit 32 (v AND NOT STR_TAG) = drop_bit 32 (v AND 0x00FFFFFF00000000)"
proof -
  have c: "NOT 0xBF00000000000000 AND NOT STR_TAG = (0x00FFFFFFFFFFFFFF :: i64)"
    by (simp add: STR_TAG_def)
  have "v = (v AND 0xBF00000000000000) OR (v AND NOT 0xBF00000000000000)"
    by (simp only: flip: bit.conj_disj_distrib) simp
  then have "v AND NOT STR_TAG = (v AND NOT 0xBF00000000000000) AND NOT STR_TAG"
    by (simp only: assms or.left_neutral)
  also have "\<dots> = v AND 0x00FFFFFFFFFFFFFF" by (simp only: and.assoc c)
  finally have "drop_bit 32 (v AND NOT STR_TAG) = drop_bit 32 v AND drop_bit 32 0x00FFFFFFFFFFFFFF"
    by (simp only: drop_bit_and)
  also have "drop_bit 32 (0x00FFFFFFFFFFFFFF :: i64) = drop_bit 32 (0x00FFFFFF00000000 :: i64)"
    by (simp add: drop_bit_eq_div)
  finally show ?thesis by (simp only: drop_bit_and)
qed

lemma ref_length: "(v AND NOT STR_TAG) AND 0xFFFFFFFF = (v :: i64) AND 0xFFFFFFFF"
proof -
  have "NOT STR_TAG AND 0xFFFFFFFF = (0xFFFFFFFF :: i64)" by (simp add: STR_TAG_def)
  then show ?thesis by (simp only: and.assoc)
qed

lemma msim_str_bytes:
  assumes "msim st k vm" and "plain_ref v"
  shows "get_str_bytes vm v = k_get_str_bytes k st v"
proof (cases "v AND STR_TAG = 0")
  case True
  with assms show ?thesis by (simp add: get_str_bytes_def k_get_str_bytes_def msim_def same_args_def)
next
  case False
  with assms(2) have "v AND 0xBF00000000000000 = 0" by (simp add: plain_ref_def)
  from plain_offset [OF this] False msim_pools [OF assms(1)] show ?thesis
    by (simp add: get_str_bytes_def k_get_str_bytes_def Let_def ref_length)
qed

lemma msim_same_bytes:
  "msim st k vm \<Longrightarrow> plain_ref a \<Longrightarrow> plain_ref b \<Longrightarrow> same_bytes vm a b = k_same_bytes st k a b"
  by (simp add: same_bytes_def k_same_bytes_def msim_str_bytes)

lemma msim_compare:
  assumes "msim st k vm" and "plain_ref (k_reg_or 0 rs1 k)" "plain_ref (k_reg_or 0 rs2 k)"
  shows "msim st (k_cmp_eq st rd rs1 rs2 k) (op_cmp_eq rd rs1 rs2 vm)"
    "msim st (k_cmp_ne st rd rs1 rs2 k) (op_cmp_ne rd rs1 rs2 vm)"
    "msim st (k_streq st rd rs1 rs2 k) (op_streq rd rs1 rs2 vm)"
proof -
  have p: "plain_ref (k_regs k ! rs1)" "plain_ref (k_regs k ! rs2)" if "reg_ok rs1" "reg_ok rs2"
    using assms(2,3) that by (simp_all add: k_reg_or_def)
  note s = msim_same_bytes [OF assms(1)] msim_str_bytes [OF assms(1)]
  show "msim st (k_cmp_eq st rd rs1 rs2 k) (op_cmp_eq rd rs1 rs2 vm)"
    using assms(1) p by (simp add: k_cmp_eq_def op_cmp_eq_def k_alu3_def alu3_def k_equal_def msim_regs s msim_set_reg)
  show "msim st (k_streq st rd rs1 rs2 k) (op_streq rd rs1 rs2 vm)"
    using assms(1) p by (simp add: k_streq_def op_streq_def k_alu3_def alu3_def msim_regs s msim_set_reg)
  have "op_cmp_ne rd rs1 rs2 vm = alu3 (\<lambda>v1 v2. of_bool_i64
      (\<not> (if v1 = v2 then True else if is_str_ref v1 \<and> is_str_ref v2 then same_bytes vm v1 v2 else False))) rd rs1 rs2 vm"
    unfolding op_cmp_ne_def same_bytes_def
    by (rule arg_cong [of _ _ "\<lambda>f. alu3 f rd rs1 rs2 vm"], rule ext, rule ext) (simp split: option.split)
  then show "msim st (k_cmp_ne st rd rs1 rs2 k) (op_cmp_ne rd rs1 rs2 vm)"
    using assms(1) p by (simp add: k_cmp_ne_def k_alu3_def alu3_def k_equal_def msim_regs s msim_set_reg)
qed

subsection \<open>Memories\<close>

definition flow_msim :: "'w kstatics \<Rightarrow> kvm flow \<Rightarrow> PX64VM flow \<Rightarrow> bool" where
  "flow_msim st kf f =
     (case (kf, f) of
        (Continue k, Continue vm) \<Rightarrow> msim st k vm
      | (Break k, Break vm) \<Rightarrow> msim st k vm
      | (Fail x k, Fail y vm) \<Rightarrow> x = y \<and> msim st k vm
      | _ \<Rightarrow> False)"

lemma kfit_frame [simp]:
  "kfit (k\<lparr>k_array_slots := a\<rparr>) = kfit k" "kfit (k\<lparr>k_struct_slots := a\<rparr>) = kfit k"
  "kfit (k\<lparr>k_spill_slots := a\<rparr>) = kfit k" "kfit (k\<lparr>k_ip := n\<rparr>) = kfit k"
  "kfit (k\<lparr>k_regs := a\<rparr>) = kfit k" "kfit (k\<lparr>k_call_sp := n\<rparr>) = kfit k"
  "kfit (k\<lparr>k_call_stack := b\<rparr>) = kfit k" "kfit (k\<lparr>k_frame_stack := c\<rparr>) = kfit k"
  by (simp_all add: kfit_def)

lemma unat_of_nat_small: "n < 2 ^ LENGTH('a::len) \<Longrightarrow> unat (of_nat n :: 'a word) = n"
  by (simp add: unsigned_of_nat take_bit_nat_eq_self)

lemma keeps_slots:
  "vm_ok vm \<Longrightarrow> keeps vm (vm\<lparr>array_slots := (array_slots vm)[n := v]\<rparr>)"
  "vm_ok vm \<Longrightarrow> keeps vm (vm\<lparr>struct_slots := (struct_slots vm)[n := v]\<rparr>)"
  by (simp_all add: vm_inv_simps)

lemma take_copy_at: "a + length d \<le> n \<Longrightarrow> n \<le> length xs \<Longrightarrow> take n (copy_at a d xs) = copy_at a d (take n xs)"
  by (rule nth_equalityI) (auto simp: nth_copy_at)

lemma nth_of_take: "take n xs = ys \<Longrightarrow> i < n \<Longrightarrow> xs ! i = ys ! i"
  by auto

lemma idx_of_take: "take n xs = ys \<Longrightarrow> i < length ys \<Longrightarrow> idx xs i = Some (ys ! i)"
  by auto

lemma prefix_update: "take n xs = ys \<Longrightarrow> take i (xs[i := v]) = take i (ys[i := v])" if "i < n"
  using that by (auto simp: min_def)

lemma msim_arr_def:
  assumes "msim st k vm" and "i < 8" and "k_arr_base i imm16 k + unat imm16 \<le> 256"
  shows "msim st (k_arr_def i imm16 k) (op_arr_def i imm16 vm)"
proof (rule msimI [OF assms(1)])
  note a = assms(1) [unfolded msim_def agrees_def vm_ok_def]
  have base: "sum_list (map unat (take i ((array_lens vm)[i := imm16]))) = k_arr_base i imm16 k"
    unfolding k_arr_base_def using a assms(2) by (subst prefix_update [of i 8]) auto
  have "take 256 (copy_at (k_arr_base i imm16 k) (array_of 0 (unat imm16)) (array_slots vm)) =
      copy_at (k_arr_base i imm16 k) (array_of 0 (unat imm16)) (k_array_slots k)"
    using a assms(3) by (subst take_copy_at) auto
  then show "agrees (k_arr_def i imm16 k) (op_arr_def i imm16 vm)"
    using a assms(2,3) base by (simp add: agrees_def k_arr_def_def op_arr_def_def Let_def take_update_swap)
  show "keeps vm (op_arr_def i imm16 vm)" using a by (auto intro: keeps_arr_def simp: vm_ok_def)
  have "unat (of_nat (k_arr_base i imm16 k) :: u16) = k_arr_base i imm16 k"
    using assms(3) by (intro unat_of_nat_small) simp
  then show "kfit (k_arr_def i imm16 k)"
    using a assms(2,3) msim_lengths [OF assms(1)]
    by (auto simp: kfit_def k_arr_def_def Let_def nth_list_update)
qed

lemma msim_struct_def:
  assumes "msim st k vm" and "i < 8" and "k_struct_base i n k + n \<le> 256" and "n < 256"
  shows "msim st (k_struct_def i n k) (op_struct_def i n vm)"
proof (rule msimI [OF assms(1)])
  note a = assms(1) [unfolded msim_def agrees_def vm_ok_def]
  have base: "sum_list (map unat (take i ((struct_field_counts vm)[i := of_nat n]))) = k_struct_base i n k"
    unfolding k_struct_base_def using a assms(2) by (subst prefix_update [of i 8]) auto
  show "agrees (k_struct_def i n k) (op_struct_def i n vm)"
    using a assms(2,3) base by (simp add: agrees_def k_struct_def_def op_struct_def_def Let_def take_update_swap)
  show "keeps vm (op_struct_def i n vm)" using a by (auto intro: keeps_struct_def simp: vm_ok_def)
  have "unat (of_nat (k_struct_base i n k) :: u16) = k_struct_base i n k" "unat (of_nat n :: u8) = n"
    using assms(3,4) by (simp_all add: unat_of_nat_small)
  then show "kfit (k_struct_def i n k)"
    using a assms(2,3) msim_lengths [OF assms(1)]
    by (auto simp: kfit_def k_struct_def_def nth_list_update)
qed

lemma msim_tbl_def:
  assumes "msim st k vm" and "i < 8" and "a + n \<le> length (k_const_pool k)" and "a < 256" "n < 256"
  shows "msim st (k_tbl_def i a n k) (op_tbl_def i a n vm)"
proof (rule msimI [OF assms(1)])
  note a = assms(1) [unfolded msim_def agrees_def vm_ok_def]
  show "agrees (k_tbl_def i a n k) (op_tbl_def i a n vm)"
    using a assms(2) by (simp add: agrees_def k_tbl_def_def op_tbl_def_def take_update_swap)
  show "keeps vm (op_tbl_def i a n vm)" using a by (auto intro: keeps_tbl_def simp: vm_ok_def)
  have "unat (of_nat a :: u8) = a" "unat (of_nat n :: u8) = n"
    using assms(4,5) by (simp_all add: unat_of_nat_small)
  then show "kfit (k_tbl_def i a n k)"
    using a assms(2,3) msim_lengths [OF assms(1)]
    by (auto simp: kfit_def k_tbl_def_def nth_list_update)
qed

lemma index_bound: "\<not> (i < 0 \<or> i \<ge> uint (w :: 'a::len word)) \<Longrightarrow> nat i < unat w"
  using nat_less_iff [of i "unat w"] by auto

lemma flow_arr_load:
  assumes "msim st k vm" and "i < 8"
  shows "flow_msim st (k_arr_load rd i r k) (op_arr_load rd i r vm)"
proof -
  note a = assms(1) [unfolded msim_def agrees_def]
  have e: "array_lens vm ! i = k_array_lens k ! i" "array_bases vm ! i = k_array_bases k ! i"
    using a assms(2) by (auto intro: nth_of_take)
  have "idx (array_slots vm) n = Some (k_array_slots k ! n)" "idx (k_array_slots k) n = Some (k_array_slots k ! n)"
    if "n < 256" for n
    using a that msim_lengths(2) [OF assms(1)] by (auto intro: idx_of_take)
  moreover have "unat (k_array_bases k ! i) + unat (k_array_lens k ! i) \<le> 256"
    using a assms(2) by (simp add: kfit_def)
  moreover note index_bound [of "sint (k_reg_or (- 1) r k)" "k_array_lens k ! i"]
  ultimately show ?thesis
    unfolding flow_msim_def k_arr_load_def op_arr_load_def Let_def msim_reg_or [OF assms(1)] e
    using assms msim_set_reg [OF assms(1)]
    by (cases "sint (k_reg_or (- 1) r k) < 0 \<or> sint (k_reg_or (- 1) r k) \<ge> uint (k_array_lens k ! i)") simp_all
qed

lemma flow_arr_store:
  assumes "msim st k vm" and "i < 8"
  shows "flow_msim st (k_arr_store i r r2 k) (op_arr_store i r r2 vm)"
proof -
  note a = assms(1) [unfolded msim_def agrees_def vm_ok_def]
  have e: "array_lens vm ! i = k_array_lens k ! i" "array_bases vm ! i = k_array_bases k ! i"
    using a assms(2) by (auto intro: nth_of_take)
  have put: "msim st (k\<lparr>k_array_slots := (k_array_slots k)[n := v]\<rparr>) (vm\<lparr>array_slots := (array_slots vm)[n := v]\<rparr>)" for n v
  proof (rule msimI [OF assms(1)])
    show "agrees (k\<lparr>k_array_slots := (k_array_slots k)[n := v]\<rparr>) (vm\<lparr>array_slots := (array_slots vm)[n := v]\<rparr>)"
      using a by (simp add: agrees_def take_update_swap)
    show "keeps vm (vm\<lparr>array_slots := (array_slots vm)[n := v]\<rparr>)" by (rule keeps_slots [OF msim_vm_ok [OF assms(1)]])
    show "kfit (k\<lparr>k_array_slots := (k_array_slots k)[n := v]\<rparr>)" using a by simp
  qed
  have "unat (k_array_bases k ! i) + unat (k_array_lens k ! i) \<le> 256"
    using a assms(2) by (simp add: kfit_def)
  moreover note index_bound [of "sint (k_reg_or (- 1) r k)" "k_array_lens k ! i"] msim_lengths(2) [OF assms(1)]
  moreover have "length (array_slots vm) = 1024" using a by blast
  ultimately show ?thesis
    unfolding flow_msim_def k_arr_store_def op_arr_store_def Let_def msim_reg_or [OF assms(1)] e
    using assms put
    by (cases "sint (k_reg_or (- 1) r k) < 0 \<or> sint (k_reg_or (- 1) r k) \<ge> uint (k_array_lens k ! i)") simp_all
qed

lemma flow_struct_load:
  assumes "msim st k vm" and "i < 8"
  shows "flow_msim st (k_struct_load rd i n k) (op_struct_load rd i n vm)"
proof -
  note a = assms(1) [unfolded msim_def agrees_def]
  have e: "struct_field_counts vm ! i = k_struct_field_counts k ! i" "struct_bases vm ! i = k_struct_bases k ! i"
    using a assms(2) by (auto intro: nth_of_take)
  have "idx (struct_slots vm) j = Some (k_struct_slots k ! j)" "idx (k_struct_slots k) j = Some (k_struct_slots k ! j)"
    if "j < 256" for j
    using a that msim_lengths(3) [OF assms(1)] by (auto intro: idx_of_take)
  moreover have "unat (k_struct_bases k ! i) + unat (k_struct_field_counts k ! i) \<le> 256"
    using a assms(2) by (simp add: kfit_def)
  ultimately show ?thesis
    using assms(2)
    by (auto simp: flow_msim_def k_struct_load_def op_struct_load_def e assms(1) msim_set_reg [OF assms(1)])
qed

lemma flow_struct_store:
  assumes "msim st k vm" and "i < 8"
  shows "flow_msim st (k_struct_store i n r k) (op_struct_store i n r vm)"
proof -
  note a = assms(1) [unfolded msim_def agrees_def vm_ok_def]
  have e: "struct_field_counts vm ! i = k_struct_field_counts k ! i" "struct_bases vm ! i = k_struct_bases k ! i"
    using a assms(2) by (auto intro: nth_of_take)
  have put: "msim st (k\<lparr>k_struct_slots := (k_struct_slots k)[j := v]\<rparr>) (vm\<lparr>struct_slots := (struct_slots vm)[j := v]\<rparr>)" for j v
  proof (rule msimI [OF assms(1)])
    show "agrees (k\<lparr>k_struct_slots := (k_struct_slots k)[j := v]\<rparr>) (vm\<lparr>struct_slots := (struct_slots vm)[j := v]\<rparr>)"
      using a by (simp add: agrees_def take_update_swap)
    show "keeps vm (vm\<lparr>struct_slots := (struct_slots vm)[j := v]\<rparr>)" by (rule keeps_slots [OF msim_vm_ok [OF assms(1)]])
    show "kfit (k\<lparr>k_struct_slots := (k_struct_slots k)[j := v]\<rparr>)" using a by simp
  qed
  have "unat (k_struct_bases k ! i) + unat (k_struct_field_counts k ! i) \<le> 256"
    using a assms(2) by (simp add: kfit_def)
  then show ?thesis
    using assms(2) a msim_lengths(3) [OF assms(1)]
    by (auto simp: flow_msim_def k_struct_store_def op_struct_store_def Let_def msim_reg_or [OF assms(1)] e assms(1) put)
qed

lemma flow_tbl_load:
  assumes "msim st k vm" and "i < 8"
  shows "flow_msim st (k_tbl_load rd i r k) (op_tbl_load rd i r vm)"
proof -
  note a = assms(1) [unfolded msim_def agrees_def]
  have e: "table_lens vm ! i = k_table_lens k ! i" "table_bases vm ! i = k_table_bases k ! i"
    using a assms(2) by (auto intro: nth_of_take)
  have "unat (k_table_bases k ! i) + unat (k_table_lens k ! i) \<le> length (k_const_pool k)"
    using a assms(2) by (simp add: kfit_def)
  then show ?thesis
    using assms(2) index_bound [of "sint (k_reg_or (- 1) r k)" "k_table_lens k ! i"] msim_pools [OF assms(1)]
    by (auto simp: flow_msim_def k_tbl_load_def op_tbl_load_def Let_def msim_reg_or [OF assms(1)] e
        assms(1) msim_set_reg [OF assms(1)])
qed

subsection \<open>The remaining instructions\<close>

lemma flow_ldc: "msim st k vm \<Longrightarrow> flow_msim st (k_ldc rd imm16 k) (op_ldc rd imm16 vm)"
  by (simp add: flow_msim_def k_ldc_def op_ldc_def Let_def msim_pools msim_set_reg)

lemma flow_div:
  assumes "msim st k vm"
  shows "flow_msim st (k_div ''Division by zero in px64 virtual register machine'' wrapping_div rd rs1 rs2 k) (op_div rd rs1 rs2 vm)"
    "flow_msim st (k_div ''Modulo by zero in px64 virtual register machine'' wrapping_rem rd rs1 rs2 k) (op_mod rd rs1 rs2 vm)"
  using assms by (auto simp: flow_msim_def k_div_def op_div_def op_mod_def Let_def msim_regs msim_set_reg)

lemma flow_assert: "msim st k vm \<Longrightarrow> flow_msim st (k_assert rd k) (op_assert rd vm)"
  by (simp add: flow_msim_def k_assert_def op_assert_def msim_reg_or)

lemma flow_call:
  assumes "msim st k vm"
  shows "flow_msim st (k_call imm16 k) (op_call imm16 vm)"
proof -
  have sp: "call_sp vm = k_call_sp k" using assms by (simp add: msim_def agrees_def)
  show ?thesis
  proof (cases "MAX_CALL_DEPTH \<le> k_call_sp k")
    case True
    with sp assms show ?thesis by (simp add: flow_msim_def k_call_def op_call_def)
  next
    case False
    obtain k' vm' where r: "k_call imm16 k = Continue k'" "op_call imm16 vm = Continue vm'" "agrees k' vm'" "kfit k'"
      using assms False by (simp add: k_call_def op_call_def msim_def agrees_def)
    have "keeps vm vm'" using flow_keeps_call [OF msim_vm_ok [OF assms], of imm16] r(2) by (simp add: flow_keeps_def)
    with r msimI [OF assms] show ?thesis by (simp add: flow_msim_def)
  qed
qed

lemma flow_ret:
  assumes "msim st k vm"
  shows "flow_msim st (k_ret k) (op_ret vm)"
proof (cases "k_call_sp k = 0")
  case True
  with assms have "call_sp vm = 0" by (simp add: msim_def agrees_def)
  with True assms show ?thesis by (simp add: flow_msim_def k_ret_def op_ret_def)
next
  case False
  obtain k' vm' where r: "k_ret k = Continue k'" "op_ret vm = Continue vm'" "agrees k' vm'" "kfit k'"
    using assms False by (simp add: k_ret_def op_ret_def msim_def agrees_def Let_def)
  have "keeps vm vm'" using flow_keeps_ret [OF msim_vm_ok [OF assms]] r(2) by (simp add: flow_keeps_def)
  with r msimI [OF assms] show ?thesis by (simp add: flow_msim_def)
qed

lemma msim_jump: "msim st k vm \<Longrightarrow> msim st (k\<lparr>k_ip := n\<rparr>) (vm\<lparr>ip := n\<rparr>)"
  by (rule msimI) (auto simp: msim_def agrees_def vm_inv_simps)

lemma msim_jump_if:
  assumes "msim st k vm"
  shows "msim st (k_jump_if (\<lambda>v. v = 0) rd imm16 k) (op_jz rd imm16 vm)"
    "msim st (k_jump_if (\<lambda>v. v \<noteq> 0) rd imm16 k) (op_jnz rd imm16 vm)"
  using assms by (simp_all add: k_jump_if_def op_jz_def op_jnz_def msim_regs msim_jump)

lemma msim_spill:
  assumes "msim st k vm"
  shows "msim st (k_spill_store i r k) (op_spill_store i r vm)" "msim st (k_spill_load r i k) (op_spill_load r i vm)"
proof -
  have "agrees (k_spill_store i r k) (op_spill_store i r vm)" "kfit (k_spill_store i r k)"
    using assms msim_reg_or [OF assms]
    by (simp_all add: k_spill_store_def op_spill_store_def Let_def msim_def agrees_def)
  then show "msim st (k_spill_store i r k) (op_spill_store i r vm)"
    using msimI [OF assms] keeps_spill_store [OF msim_vm_ok [OF assms]] by blast
  have "spill_slots vm = k_spill_slots k" using assms by (simp add: msim_def agrees_def)
  then show "msim st (k_spill_load r i k) (op_spill_load r i vm)"
    using assms by (simp add: k_spill_load_def op_spill_load_def msim_set_reg Let_def)
qed

subsection \<open>Native functions\<close>

lemma msim_nat_arg: "msim st k vm \<Longrightarrow> nat_arg n d r vm = k_nat_arg n d r k"
  by (simp add: nat_arg_def k_nat_arg_def msim_regs)

lemma native_agrees:
  assumes "msim st k (mach t)" and "portable_native f" and "r \<le> PX64_NUM_REGISTERS"
  shows "\<exists>x. k_pure_native f r v k = Some x \<and> x \<noteq> Panic \<and>
    call_native h f r v t = (case x of Ok w \<Rightarrow> Ok (w, t) | Err e \<Rightarrow> Err e | Panic \<Rightarrow> Panic)"
proof -
  have "\<exists>a. k_nat_arg n d r k = Some a" for n d
    using assms(3) msim_lengths(1) [OF assms(1)] by (auto simp: k_nat_arg_def)
  then obtain A B where arg: "k_nat_arg 0 d r k = Some (A d)" "k_nat_arg (Suc 0) d r k = Some (B d)" for d
    by metis
  show ?thesis
    using assms(2) unfolding portable_native_def
    by (elim insertE emptyE)
      (simp_all add: k_pure_native_def call_native_def native_tag_ok_def native_tag_err_def native_is_ok_def
        native_is_err_def native_unwrap_def k_unwrap_def native_math_min_def native_math_max_def
        native_math_clamp_def native_crc32_def native_fix_to_fix_def native_fix_to_i64_def native_fix_mul_def
        native_fix_div_def k_fix_div_def ret1_def with_arg_def k_with1_def k_with2_def msim_nat_arg [OF assms(1)] arg)
qed

section \<open>One step\<close>

definition rsim :: "'w krun \<Rightarrow> 'v vm_run \<Rightarrow> bool" where
  "rsim s t \<longleftrightarrow> msim (statics s) (k_mach s) (mach t)"

definition step_sim :: "'w krun flow option \<Rightarrow> 'v vm_run flow \<Rightarrow> bool" where
  "step_sim r f =
     (case (r, f) of
        (Some (Continue s), Continue t) \<Rightarrow> rsim s t
      | (Some (Break s), Break t) \<Rightarrow> rsim s t
      | (Some (Fail x s), Fail y t) \<Rightarrow> x = y \<and> rsim s t
      | _ \<Rightarrow> False)"

lemma step_sim_on: "msim (statics s) (f (k_mach s)) (g (mach t)) \<Longrightarrow> step_sim (k_on f s) (on_vm g t)"
  by (simp add: step_sim_def k_on_def on_vm_def rsim_def)

lemma step_sim_on_flow:
  "flow_msim (statics s) (f (k_mach s)) (g (mach t)) \<Longrightarrow> step_sim (k_on_flow f s) (on_flow g t)"
  by (auto simp: step_sim_def k_on_flow_def on_flow_def rsim_def flow_msim_def split: flow.splits)

lemma script_arg_world [simp]: "script_arg (st\<lparr>k_world := w\<rparr>) i = script_arg st i"
  by (simp add: script_arg_def)

lemma same_args_world [simp]: "same_args (st\<lparr>k_world := w\<rparr>) vm = same_args st vm"
  by (simp add: same_args_def)

lemma msim_world [simp]: "msim (st\<lparr>k_world := w\<rparr>) k vm = msim st k vm"
  by (simp add: msim_def)

lemma k_tsc_world: "\<exists>w. snd (k_tsc e st) = st\<lparr>k_world := w\<rparr>"
  by (auto simp: k_tsc_def split: prod.split)

lemma portable_native_not_blocking: "portable_native f \<Longrightarrow> \<not> is_blocking_io (Some f)"
  by (auto simp: portable_native_def is_blocking_io_def)

lemma step_sim_call_nat:
  assumes "rsim s t" and "portable_op PX64_OP_CALL_NAT rd rs1 rs2 imm16 (k_mach s)"
  shows "step_sim (k_op_call_nat e rd rs1 rs2 s) (op_call_nat h rd rs1 rs2 t)"
proof -
  note m = assms(1) [unfolded rsim_def]
  obtain t0 w where c: "k_tsc e (statics s) = (t0, (statics s)\<lparr>k_world := w\<rparr>)"
    using k_tsc_world [of e "statics s"] by (metis prod.collapse)
  note a = msim_reg_or [OF m, of 0 rs2]
  show ?thesis
  proof (cases "decode_native (of_nat rs1)")
    case None
    then show ?thesis
      using m by (simp add: k_op_call_nat_def op_call_nat_def c a k_ret1_def ret1_def is_blocking_io_def
          step_sim_def rsim_def msim_set_reg)
  next
    case (Some f)
    have p: "portable_native f" "rs2 \<le> PX64_NUM_REGISTERS" using assms(2) Some by (simp_all add: portable_op_def)
    obtain x where x: "k_pure_native f rs2 (k_reg_or 0 rs2 (k_mach s)) (k_mach s) = Some x" "x \<noteq> Panic"
      "call_native h f rs2 (k_reg_or 0 rs2 (k_mach s)) t = (case x of Ok w \<Rightarrow> Ok (w, t) | Err e \<Rightarrow> Err e | Panic \<Rightarrow> Panic)"
      using native_agrees [OF m p] by blast
    show ?thesis
      using m x Some portable_native_not_blocking [OF p(1)]
      by (cases x) (simp_all add: k_op_call_nat_def op_call_nat_def c a k_call_native_def k_ret1_def
          step_sim_def rsim_def msim_set_reg)
  qed
qed

lemma exec_agrees:
  assumes "rsim s t" and p: "portable_op op rd rs1 rs2 imm16 (k_mach s)" and "rs1 < 256" "rs2 < 256"
  shows "step_sim (k_exec_op e op rd rs1 rs2 imm16 s) (exec_op h op rd rs1 rs2 imm16 t)"
proof -
  note m = assms(1) [unfolded rsim_def]
  note alu = msim_alu3 [OF m refl] msim_alu2 [OF m, of "\<lambda>a. a + of_nat rs2"] msim_alu2 [OF m, of "\<lambda>a. a - of_nat rs2"]
    msim_alu2 [OF m, of "\<lambda>a. a"]
  have nat: "op = PX64_OP_CALL_NAT \<Longrightarrow> step_sim (k_op_call_nat e rd rs1 rs2 s) (op_call_nat h rd rs1 rs2 t)"
    using step_sim_call_nat [OF assms(1)] p by blast
  show ?thesis
    using p assms(1,3,4) nat
    by (cases op)
      (simp_all add: k_exec_op_def exec_op_def portable_op_def step_sim_on step_sim_on_flow alu_defs(1-13,17-20) alu
        msim_set_reg [OF m] flow_ldc [OF m] flow_div [OF m] flow_assert [OF m] flow_call [OF m] flow_ret [OF m]
        msim_arr_def [OF m] flow_arr_load [OF m] flow_arr_store [OF m] msim_struct_def [OF m]
        flow_struct_load [OF m] flow_struct_store [OF m] msim_tbl_def [OF m] flow_tbl_load [OF m]
        msim_compare [OF m] msim_spill [OF m] msim_jump_if [OF m] op_jmp_def msim_jump [OF m],
       simp_all add: step_sim_def)
qed

lemma rsim_clock:
  assumes "rsim s t"
  shows "rsim (snd (k_clock e s)) t" "k_mach (snd (k_clock e s)) = k_mach s"
proof -
  obtain w where "snd (k_tsc e (statics s)) = (statics s)\<lparr>k_world := w\<rparr>" using k_tsc_world [of e "statics s"] by blast
  with assms show "rsim (snd (k_clock e s)) t" "k_mach (snd (k_clock e s)) = k_mach s"
    by (simp_all add: k_clock_def rsim_def split_beta)
qed

lemma k_clock_mach [simp]: "k_mach (snd (k_clock e s)) = k_mach s"
  by (simp add: k_clock_def split_beta)

lemma portable_no_key:
  assumes "agrees k vm" and "portable k"
  shows "\<not> reads_key vm"
proof
  assume r: "reads_key vm"
  let ?b = "\<lambda>n. k_code k ! (k_ip k + n)"
  have b: "?b 0 = op_code PX64_OP_CALL_NAT" "?b 2 = native_code NATIVE_TERM_READ_KEY"
    using r assms(1) by (simp_all add: reads_key_def agrees_def)
  then have "decode_op (?b 0) = Some PX64_OP_CALL_NAT" "decode_native (of_nat (unat (?b 2))) = Some NATIVE_TERM_READ_KEY"
    by (simp_all add: decode_op_code decode_native_code del: op_code.simps native_code.simps)
  with assms(2) show False by (simp add: portable_def portable_op_def portable_native_def Let_def)
qed

lemma portable_op_ip [simp]: "portable_op op rd rs1 rs2 imm16 (k\<lparr>k_ip := n\<rparr>) = portable_op op rd rs1 rs2 imm16 k"
  by (cases op) (simp_all add: portable_op_def k_arr_base_def k_struct_base_def k_reg_or_def)

lemma step_agrees:
  assumes "rsim s t" and "portable (k_mach s)" and "steps (mach t) < max_steps (mach t)"
  shows "step_sim (k_step e s) (vm_step h t)"
proof -
  let ?k = "k_mach s" and ?vm = "mach t"
  let ?b = "\<lambda>n. k_code ?k ! (k_ip ?k + n)"
  have ag: "vm_code ?vm = k_code ?k" "ip ?vm = k_ip ?k" and ok: "vm_ok ?vm"
    using assms(1) by (auto simp: rsim_def msim_def agrees_def)
  let ?s1 = "s\<lparr>k_mach := ?k\<lparr>k_ip := k_ip ?k + 4\<rparr>\<rparr>" and ?t1 = "t\<lparr>mach := tick ?vm\<rparr>"
  have "agrees (?k\<lparr>k_ip := k_ip ?k + 4\<rparr>) (tick ?vm)" "same_args (statics s) (tick ?vm)"
    using assms(1) by (auto simp: rsim_def msim_def agrees_def tick_def same_args_def)
  then have s1: "rsim ?s1 ?t1"
    using assms(1) tick_ok [OF ok assms(3)] by (simp add: rsim_def msim_def)
  show ?thesis
  proof (cases "decode_op (?b 0)")
    case None
    then show ?thesis using s1 by (simp add: k_step_def vm_step_def ag step_sim_def Let_def)
  next
    case (Some op)
    let ?i = "from_be [?b 2, ?b 3] :: u16"
    have "portable_op op (unat (?b 1)) (unat (?b 2)) (unat (?b 3)) ?i (k_mach ?s1)"
      using assms(2) Some by (simp add: portable_def Let_def)
    moreover have "unat (?b n) < 256" for n using unsigned_less [of "?b n", where ?'a = nat] by simp
    ultimately have "step_sim (k_exec_op e op (unat (?b 1)) (unat (?b 2)) (unat (?b 3)) ?i ?s1)
      (exec_op h op (unat (?b 1)) (unat (?b 2)) (unat (?b 3)) ?i ?t1)"
      by (intro exec_agrees [OF s1])
    then show ?thesis using Some by (simp add: k_step_def vm_step_def ag Let_def)
  qed
qed

section \<open>Whole runs\<close>

text \<open>The states a run of the kernel's machine passes through.\<close>

definition k_next :: "'w kenv \<Rightarrow> 'w krun \<Rightarrow> 'w krun option" where
  "k_next e s =
     (if k_fetchable (k_mach s) \<and> \<not> fst (k_clock e s) then
        (case k_step e (snd (k_clock e s)) of Some (Continue s') \<Rightarrow> Some s' | _ \<Rightarrow> None)
      else None)"

inductive k_reach :: "'w kenv \<Rightarrow> 'w krun \<Rightarrow> 'w krun \<Rightarrow> bool" for e where
  here: "k_reach e s s"
| next_step: "k_next e s = Some s1 \<Longrightarrow> k_reach e s1 s2 \<Longrightarrow> k_reach e s s2"

text \<open>
  What the core machine does when the kernel's machine ends with a result. Besides the
  wall-clock limit, one difference is left: a program that ends with its last permitted
  instruction is an error in the kernel and not in the core machine.
\<close>

definition result_sim :: "'w krun run_result \<Rightarrow> 'v vm_run run_result option \<Rightarrow> bool" where
  "result_sim r q =
     (case r of
        Finished s \<Rightarrow> \<exists>t. q = Some (Finished t) \<and> agrees (k_mach s) (mach t)
      | Failed x s \<Rightarrow>
          x = timeout_exceeded \<or>
          (\<exists>t. agrees (k_mach s) (mach t) \<and>
               (q = Some (Failed x t) \<or> x = wcet_exceeded \<and> q = Some (Finished t)))
      | Panicked \<Rightarrow> False)"

lemma result_sim_finish:
  assumes "rsim s t"
  shows "result_sim (k_finish e n s) (Some (Finished t))"
  using assms by (auto simp: result_sim_def k_finish_def split_beta rsim_def msim_def)

lemma loop_agrees:
  assumes "rsim s t" and "steps (mach t) = n" and "max_steps (mach t) = MAX_VM_STEPS"
    and "\<And>s'. k_reach e s s' \<Longrightarrow> k_fetchable (k_mach s') \<Longrightarrow> portable (k_mach s')"
  shows "\<exists>r. k_loop e n s = Some r \<and> result_sim r (run_with_output h t)"
  using assms
proof (induction e n s arbitrary: t rule: k_loop.induct)
  case (1 e n s)
  note m = "1.prems"(1)
  obtain late s1 where c: "k_clock e s = (late, s1)" by fastforce
  have s1: "rsim s1 t" "k_mach s1 = k_mach s" using rsim_clock [OF m, of e] c by simp_all
  have f: "fetchable (mach t) = k_fetchable (k_mach s)"
    using m by (auto simp: rsim_def msim_def agrees_def fetchable_def k_fetchable_def)
  have ag: "agrees (k_mach s) (mach t)" "vm_ok (mach t)" using m by (simp_all add: rsim_def msim_def)
  show ?case
  proof (cases "k_fetchable (k_mach s)")
    case False
    then have "run_with_output h t = Some (Finished t)" using f by (subst run_with_output.simps) simp
    then show ?thesis using result_sim_finish [OF m] False by (subst k_loop.simps) simp
  next
    case fetch: True
    show ?thesis
    proof (cases "late \<or> MAX_VM_STEPS \<le> n")
      case True
      have "run_with_output h t = Some (Failed wcet_exceeded t)" if "MAX_VM_STEPS \<le> n"
        using that fetch f "1.prems"(2,3) by (subst run_with_output.simps) simp
      then show ?thesis
        using True fetch c s1 ag by (subst k_loop.simps) (auto simp: result_sim_def)
    next
      case False
      then have run: "running (mach t)" using f fetch "1.prems"(2,3) by (simp add: running_def)
      have p: "portable (k_mach s1)" using "1.prems"(4) [OF k_reach.here fetch] s1(2) by simp
      have sim: "step_sim (k_step e s1) (vm_step h t)"
        using step_agrees [OF s1(1) p] run by (simp add: running_def)
      have keeps: "run_keeps step_rel t (vm_step h t)" "\<not> reads_key (mach t)"
        using vm_step_keeps [OF ag(2)] run portable_no_key [OF ag(1)] p s1(2) by (simp_all add: running_def)
      show ?thesis
      proof (cases "vm_step h t")
        case (Continue t2)
        with sim obtain s2 where s2: "k_step e s1 = Some (Continue s2)" "rsim s2 t2"
          by (auto simp: step_sim_def split: option.splits flow.splits)
        have t2: "steps (mach t2) = n + 1" "max_steps (mach t2) = MAX_VM_STEPS"
          using keeps Continue "1.prems"(2,3) by (auto simp: run_keeps_def step_rel_def same_program_def)
        have "k_next e s = Some s2" using fetch c s2(1) False by (simp add: k_next_def)
        then have "portable (k_mach s')" if "k_reach e s2 s'" "k_fetchable (k_mach s')" for s'
          using "1.prems"(4) k_reach.next_step that by blast
        from "1.IH" [OF fetch c [symmetric] refl, OF _ _ s2(1) refl s2(2) t2 this]
        obtain r where "k_loop e (n + 1) s2 = Some r" "result_sim r (run_with_output h t2)" using False by auto
        then show ?thesis
          using False fetch c s2(1) Continue run_running [OF run, of h] by (subst k_loop.simps) auto
      next
        case (Break t2)
        with sim obtain s2 where "k_step e s1 = Some (Break s2)" "rsim s2 t2"
          by (auto simp: step_sim_def split: option.splits flow.splits)
        then show ?thesis
          using False fetch c Break run_running [OF run, of h] result_sim_finish [of s2 t2]
          by (subst k_loop.simps) auto
      next
        case (Fail x t2)
        with sim obtain s2 where "k_step e s1 = Some (Fail x s2)" "rsim s2 t2"
          by (auto simp: step_sim_def split: option.splits flow.splits)
        then show ?thesis
          using False fetch c Fail run_running [OF run, of h]
          by (subst k_loop.simps) (auto simp: result_sim_def rsim_def msim_def)
      next
        case Crash
        with sim show ?thesis by (auto simp: step_sim_def split: option.splits flow.splits)
      qed
    qed
  qed
qed

lemma k_enter_cases:
  assumes "k_enter e k st = Some s"
  shows "k_mach s = k" "\<exists>w. statics s = st\<lparr>k_world := w\<rparr>"
  using assms k_tsc_world [of e st] by (auto simp: k_enter_def split_beta)

lemma rsim_enter:
  assumes "k_enter e (kvm_new prog pool consts) st = Some s" and "\<And>i. script_arg st i = idx argv i"
  shows "rsim s (vm_start (vm_new prog pool consts argv) w)"
proof -
  have "agrees (kvm_new prog pool consts) (vm_new prog pool consts argv)"
    by (simp add: agrees_def kvm_new_def vm_new_def array_of_def)
  moreover have "kfit (kvm_new prog pool consts)" by (simp add: kfit_def kvm_new_def)
  moreover have "same_args (statics s) (vm_new prog pool consts argv)"
    using assms(2) k_enter_cases(2) [OF assms(1)] by (auto simp: same_args_def vm_new_def)
  ultimately show ?thesis
    using k_enter_cases(1) [OF assms(1)] by (simp add: rsim_def msim_def vm_start_def)
qed

section \<open>A static condition\<close>

text \<open>Code all of whose instructions, at every offset, are portable whatever the registers hold.\<close>

definition plain_code :: "u8 list \<Rightarrow> bool" where
  "plain_code prog =
     list_all (\<lambda>i. case decode_op (prog ! i) of
        Some op \<Rightarrow> op \<notin> {PX64_OP_ARR_DEF, PX64_OP_ARR_LOAD, PX64_OP_ARR_STORE, PX64_OP_STRUCT_DEF,
                         PX64_OP_STRUCT_LOAD, PX64_OP_STRUCT_STORE, PX64_OP_TBL_DEF, PX64_OP_TBL_LOAD,
                         PX64_OP_CMP_EQ, PX64_OP_CMP_NE, PX64_OP_STREQ, PX64_OP_CALL_NAT,
                         PX64_OP_WITHIN_START, PX64_OP_WITHIN_END, PX64_OP_DROP}
      | None \<Rightarrow> True) [0..<length prog - 3]"

lemma plain_code_portable: "plain_code (k_code k) \<Longrightarrow> k_fetchable k \<Longrightarrow> portable k"
  by (auto simp: plain_code_def list_all_iff k_fetchable_def portable_def portable_op_def Let_def
      split: option.splits px64_op.splits)

lemma plain_code_reach:
  fixes t :: "unit vm_run"
  assumes "k_reach e s s'" and "rsim s t" and "plain_code (k_code (k_mach s))" and "k_fetchable (k_mach s')"
  shows "portable (k_mach s')"
  using assms
proof (induction arbitrary: t rule: k_reach.induct)
  case (here s)
  then show ?case by (blast intro: plain_code_portable)
next
  case (next_step s s1 s2)
  let ?t = "t\<lparr>mach := (mach t)\<lparr>steps := 0, max_steps := 1\<rparr>\<rparr>"
  have t: "rsim s ?t" using next_step.prems(1)
    by (auto simp: rsim_def msim_def agrees_def same_args_def vm_ok_def)
  have f: "k_fetchable (k_mach s)" and k: "k_step e (snd (k_clock e s)) = Some (Continue s1)"
    using next_step.hyps(1) by (auto simp: k_next_def split: if_splits option.splits flow.splits)
  have "step_sim (k_step e (snd (k_clock e s))) (vm_step idle_host ?t)"
  proof (rule step_agrees)
    show "rsim (snd (k_clock e s)) ?t" by (rule rsim_clock(1) [OF t])
    show "portable (k_mach (snd (k_clock e s)))" using next_step.prems(2) f by (simp add: plain_code_portable)
  qed simp
  then obtain t1 where t1: "vm_step idle_host ?t = Continue t1" "rsim s1 t1"
    using k by (auto simp: step_sim_def split: flow.splits)
  have "same_program (mach ?t) (mach t1)"
    using vm_step_keeps [of ?t idle_host] t t1(1) by (simp add: rsim_def msim_def run_keeps_def step_rel_def)
  then have "k_code (k_mach s1) = k_code (k_mach s)"
    using t t1(2) by (simp add: rsim_def msim_def agrees_def same_program_def)
  with next_step t1(2) show ?case by simp
qed

section \<open>Properties\<close>

text \<open>
  C10: The two px64 machines agree. Take a program whose run in the kernel executes only portable
  instructions: no deadlines, of the native functions only those that compute, arrays, structs
  and tables within the eight and within the 256 slots of the kernel, and string comparisons of
  references without stray bits. The run in the kernel ends without a panic; if it ends well, the
  core machine ends well with the same registers, memories and call stack, on every host; if it
  fails, it exceeded the wall-clock limit, or the core machine fails with the same error, or the
  program ended exactly at the step limit, which only the kernel reports.
\<close>

theorem kernel_core_agree:
  assumes "k_enter e (kvm_new prog pool consts) st = Some s0" and "\<And>i. script_arg st i = idx argv i"
    and "\<And>s. k_reach e s0 s \<Longrightarrow> k_fetchable (k_mach s) \<Longrightarrow> portable (k_mach s)"
  shows "\<exists>r. k_run e (kvm_new prog pool consts) st = Some r \<and>
    result_sim r (run_vm h (vm_new prog pool consts argv) w)"
proof -
  have "rsim s0 (vm_start (vm_new prog pool consts argv) w)" by (rule rsim_enter [OF assms(1,2)])
  from loop_agrees [OF this _ _ assms(3)] show ?thesis
    using assms(1) by (simp add: k_run_def run_vm_def vm_start_def vm_new_def)
qed

text \<open>
  A script can take the congestion controller out of its range. Whatever rate the controller
  maintains, \<^verbatim>\<open>@net_set_rate\<close> in the kernel stores the low byte of its argument unchecked.
\<close>

theorem script_sets_any_rate:
  "\<exists>st'. k_call_native e NATIVE_NET_SET_RATE r v k st = Some (Ok (0, st')) \<and>
     CONGESTION_RATE_PCT (k_net st') = ucast v"
  by (simp add: k_call_native_def k_pure_native_def k_net_set_rate_def k_ret1_def)

section \<open>Concrete runs\<close>

text \<open>Ports that answer nothing, and a kernel that has just started.\<close>

definition frozen_ports :: "unit ports" where
  "frozen_ports =
     \<lparr>inb = (\<lambda>r w. (0, w)), outb = (\<lambda>r b w. w), inw = (\<lambda>r w. (0, w)), outw = (\<lambda>r v w. w),
      read_tsc_serialized = (\<lambda>w. (1, w))\<rparr>"

definition still_env :: "unit kenv" where
  "still_env =
     \<lparr>k_ports = frozen_ports, k_mmio = quiet_mmio, k_slot_addr = (\<lambda>i. 0x200000 + of_nat i * 65536), k_lapic_id = 0,
      k_checked = True, k_tsc_freq_hz = 1000000000\<rparr>"

definition fresh_statics :: "unit kstatics" where
  "fresh_statics =
     \<lparr>SCRIPT_ARGS = array_of (array_of 0 128) 8, SCRIPT_ARG_LENS = array_of 0 8, SCRIPT_ARGC = 0,
      k_pipe = pipeline_init, k_net = net_init, k_nic = e1000_static, k_serial = serial_new, k_world = ()\<rparr>"

lemma still_tsc: "k_tsc still_env st = (1, st)"
  by (simp add: k_tsc_def still_env_def frozen_ports_def)

lemma still_clock: "0 < timeout_tsc s \<Longrightarrow> k_clock still_env s = (False, s)"
  by (simp add: k_clock_def still_tsc)

lemma still_enter: "k_enter still_env k st = Some \<lparr>k_mach = k, timeout_tsc = 5000001, statics = st\<rparr>"
  by (simp add: k_enter_def still_tsc add_tsc_def ns_to_tsc_def) (simp add: still_env_def)

text \<open>\<^verbatim>\<open>MOV_IMM $rax, 6; MOV_IMM $rcx, 7; MUL $rdx, $rax, $rcx; HALT\<close>.\<close>

definition product_prog :: "u8 list" where
  "product_prog = [op_code PX64_OP_MOV_IMM, 0, 0, 6, op_code PX64_OP_MOV_IMM, 1, 0, 7,
                   op_code PX64_OP_MUL, 2, 0, 1, op_code PX64_OP_HALT, 0, 0, 0]"

lemma product_prog_plain: "plain_code product_prog"
  by code_simp

theorem kernel_core_agree_witness:
  "\<exists>r. k_run still_env (kvm_new product_prog [] []) fresh_statics = Some r \<and>
     result_sim r (run_vm idle_host (vm_new product_prog [] [] []) ())"
proof (rule kernel_core_agree [OF still_enter])
  show args: "script_arg fresh_statics i = idx [] i" for i
    by (simp add: script_arg_def fresh_statics_def idx_def)
  show "portable (k_mach s)"
    if "k_reach still_env \<lparr>k_mach = kvm_new product_prog [] [], timeout_tsc = 5000001, statics = fresh_statics\<rparr> s"
      "k_fetchable (k_mach s)" for s
    using plain_code_reach [OF that(1) rsim_enter [OF still_enter args] _ that(2)] product_prog_plain
    by (simp add: kvm_new_def)
qed

text \<open>
  \<^verbatim>\<open>ARR_DEF #0, 300; MOV_IMM $rcx, 299; ARR_LOAD $rax, #0, $rcx; HALT\<close>: an array of 300 elements
  and a read of its last element.
\<close>

definition array300_prog :: "u8 list" where
  "array300_prog = [op_code PX64_OP_ARR_DEF, 0, 1, 44, op_code PX64_OP_MOV_IMM, 1, 1, 43,
                    op_code PX64_OP_ARR_LOAD, 0, 0, 1, op_code PX64_OP_HALT, 0, 0, 0]"

lemma array_of_same [simp]: "i < n \<Longrightarrow> (array_of x n)[i := x] = array_of x n"
  by (metis list_update_id nth_array_of)

lemma array300_imm: "from_be [1, 44] = (300 :: u16)" "from_be [1, 43] = (299 :: u16)"
  by code_simp+

lemma array300_bytes:
  "array300_prog ! 1 = 0" "array300_prog ! 2 = 1" "array300_prog ! 3 = 44" "array300_prog ! 5 = 1" "array300_prog ! 6 = 1"
  "array300_prog ! 7 = 43" "array300_prog ! 9 = 0" "array300_prog ! 10 = 0" "array300_prog ! 11 = 1" "length array300_prog = 16"
  by (simp_all add: array300_prog_def)

lemma array300_decode:
  "decode_op (array300_prog ! 0) = Some PX64_OP_ARR_DEF" "decode_op (array300_prog ! 4) = Some PX64_OP_MOV_IMM"
  "decode_op (array300_prog ! 8) = Some PX64_OP_ARR_LOAD" "decode_op (array300_prog ! 12) = Some PX64_OP_HALT"
  by (simp_all add: array300_prog_def decode_op_code del: op_code.simps)

definition array300_k :: kvm where
  "array300_k = (kvm_new array300_prog [] [])\<lparr>k_array_lens := (array_of 0 8)[0 := 300]\<rparr>"

lemma array300_steps:
  "k_step e \<lparr>k_mach = kvm_new array300_prog [] [], timeout_tsc = l, statics = st\<rparr> =
     Some (Continue \<lparr>k_mach = array300_k\<lparr>k_ip := 4\<rparr>, timeout_tsc = l, statics = st\<rparr>)"
  "k_step e \<lparr>k_mach = array300_k\<lparr>k_ip := 4\<rparr>, timeout_tsc = l, statics = st\<rparr> =
     Some (Continue \<lparr>k_mach = array300_k\<lparr>k_ip := 8, k_regs := (array_of 0 20)[1 := 299]\<rparr>, timeout_tsc = l, statics = st\<rparr>)"
  "k_step e \<lparr>k_mach = array300_k\<lparr>k_ip := 8, k_regs := (array_of 0 20)[1 := 299]\<rparr>, timeout_tsc = l, statics = st\<rparr> =
     Some Crash"
  using array300_decode array300_bytes
  by (simp_all add: k_step_def kvm_new_def Let_def k_exec_op_def k_on_def k_on_flow_def k_arr_def_def k_arr_base_def
      k_arr_load_def idx_def k_reg_or_def k_set_reg_def array300_k_def array300_imm numeral_2_eq_2 [symmetric])

definition array300_vm :: PX64VM where
  "array300_vm = (vm_new array300_prog [] [] [])\<lparr>array_lens := (array_of 0 16)[0 := 300]\<rparr>"

abbreviation array300_at :: "nat \<Rightarrow> nat \<Rightarrow> i64 \<Rightarrow> 'w \<Rightarrow> 'w vm_run" where
  "array300_at i n v w \<equiv> vm_start (array300_vm\<lparr>ip := i, steps := n, regs := (array_of 0 20)[1 := v]\<rparr>) w"

lemma array_of_fill: "n \<le> m \<Longrightarrow> copy_at 0 (array_of x n) (array_of x m) = array_of x m"
  by (rule nth_equalityI) (auto simp: nth_copy_at)

lemma array300_core_steps:
  "vm_step h (vm_start (vm_new array300_prog [] [] []) w) = Continue (array300_at 4 1 0 w)"
  "vm_step h (array300_at 4 1 0 w) = Continue (array300_at 8 2 299 w)"
  "vm_step h (array300_at 8 2 299 w) = Continue (array300_at 12 3 299 w)"
  "vm_step h (array300_at 12 3 299 w) = Break (array300_at 16 4 299 w)"
  using array300_decode array300_bytes
  by (simp_all add: vm_step_def vm_start_def vm_new_def Let_def exec_op_def on_vm_def on_flow_def op_arr_def_def
      op_mov_imm_def op_arr_load_def reg_or_def set_reg_def array300_vm_def tick_def array300_imm array_of_fill
      idx_def numeral_2_eq_2 [symmetric] list_update_swap)

lemma still_loop:
  assumes "k_fetchable k" and "n < MAX_VM_STEPS" and "0 < l"
  shows "k_loop still_env n \<lparr>k_mach = k, timeout_tsc = l, statics = st\<rparr> =
    (case k_step still_env \<lparr>k_mach = k, timeout_tsc = l, statics = st\<rparr> of
       None \<Rightarrow> None | Some (Continue s) \<Rightarrow> k_loop still_env (n + 1) s
     | Some (Break s) \<Rightarrow> Some (k_finish still_env (n + 1) s)
     | Some (Fail x s) \<Rightarrow> Some (Failed x s) | Some Crash \<Rightarrow> Some Panicked)"
  using assms by (subst k_loop.simps) (simp add: still_clock)

text \<open>
  The memories of the two machines differ in size. A program that declares an array of 300
  elements and reads the last one ends well in the core machine and panics in the kernel, where
  the declaration does not fit into the 256 slots and is accepted all the same.
\<close>

theorem kernel_array_limit:
  "k_run still_env (kvm_new array300_prog [] []) fresh_statics = Some Panicked \<and>
   (\<exists>t. run_vm idle_host (vm_new array300_prog [] [] []) () = Some (Finished t))"
proof
  have "k_fetchable (kvm_new array300_prog [] [])" "k_fetchable (array300_k\<lparr>k_ip := 4\<rparr>)"
    "k_fetchable (array300_k\<lparr>k_ip := 8, k_regs := x\<rparr>)" for x
    by (simp_all add: k_fetchable_def array300_k_def kvm_new_def array300_bytes)
  then show "k_run still_env (kvm_new array300_prog [] []) fresh_statics = Some Panicked"
    by (simp add: k_run_def still_enter still_loop array300_steps del: One_nat_def)
  have r: "run_with_output idle_host (vm_start vm ()) =
     (case vm_step idle_host (vm_start vm ()) of
        Continue s' \<Rightarrow> run_with_output idle_host s' | Break s' \<Rightarrow> Some (Finished s')
      | Fail e s' \<Rightarrow> Some (Failed e s') | Crash \<Rightarrow> Some Panicked)" if "running vm" for vm
    using run_running [of "vm_start vm ()"] that by (simp add: vm_start_def)
  have "running (vm_new array300_prog [] [] [])"
    by (simp add: running_def fetchable_def vm_new_def array300_bytes)
  moreover have "running (array300_vm\<lparr>ip := i, steps := n, regs := x\<rparr>)" if "i \<le> 12" "n < 10000" for i n x
    using that by (simp add: running_def fetchable_def array300_vm_def vm_new_def array300_bytes)
  ultimately show "\<exists>t. run_vm idle_host (vm_new array300_prog [] [] []) () = Some (Finished t)"
    by (simp add: run_vm_def r array300_core_steps del: One_nat_def array_of_same)
qed

end
