(* ===== verification/KernelLang.thy ===== *)
theory KernelLang
  imports KernelProps Disasm
begin

text \<open>
  Running a program in the kernel (\<^verbatim>\<open>kernel/src/lang.rs\<close>): the stack machine for binaries of the
  old format, the loader that chooses the machine by the header of a binary, and the choice
  between binary and source. The compiler is an argument here; \<open>KernelCompile\<close> gives it.
\<close>

section \<open>The legacy stack machine\<close>

record lvm =
  l_code :: "u8 list"
  l_str_pool :: "u8 list"
  l_ip :: nat
  l_stack :: "i64 list"
  l_sp :: nat
  l_vars :: "i64 list"
  l_deadline_stack :: "u64 list"
  l_dl_sp :: nat

definition lvm_new :: "u8 list \<Rightarrow> u8 list \<Rightarrow> lvm" where
  "lvm_new prog pool =
     \<lparr>l_code = prog, l_str_pool = pool, l_ip = 0, l_stack = array_of 0 64, l_sp = 0, l_vars = array_of 0 48,
      l_deadline_stack = array_of 0 8, l_dl_sp = 0\<rparr>"

definition l_push :: "i64 \<Rightarrow> lvm \<Rightarrow> (CompileError, lvm) outcome" where
  "l_push val l =
     (if 64 \<le> l_sp l then Err (simple ''ERR_VM_STACK_OVERFLOW'' ''VM Evaluation stack overflow'')
      else Ok (l\<lparr>l_stack := (l_stack l)[l_sp l := val], l_sp := l_sp l + 1\<rparr>))"

definition l_pop :: "lvm \<Rightarrow> (CompileError, i64 \<times> lvm) outcome" where
  "l_pop l =
     (if l_sp l = 0 then Err (simple ''ERR_VM_STACK_UNDERFLOW'' ''VM Evaluation stack underflow'')
      else Ok (l_stack l ! (l_sp l - 1), l\<lparr>l_sp := l_sp l - 1\<rparr>))"

text \<open>Sequencing, and the operand bytes of an instruction, which are read without a check.\<close>

definition l_then :: "('e, 'a) outcome \<Rightarrow> ('a \<Rightarrow> ('e, 'b) outcome) \<Rightarrow> ('e, 'b) outcome" where
  "l_then r f = (case r of Ok a \<Rightarrow> f a | Err e \<Rightarrow> Err e | Panic \<Rightarrow> Panic)"

definition l_operand :: "nat \<Rightarrow> lvm \<Rightarrow> (CompileError, u8 list \<times> lvm) outcome" where
  "l_operand n l =
     (if l_ip l + n \<le> length (l_code l) then Ok (sub_slice (l_ip l) n (l_code l), l\<lparr>l_ip := l_ip l + n\<rparr>) else Panic)"

definition l_binop :: "(i64 \<Rightarrow> i64 \<Rightarrow> i64 option) \<Rightarrow> lvm \<Rightarrow> (CompileError, lvm) outcome" where
  "l_binop f l =
     l_then (l_pop l) (\<lambda>(b, l1). l_then (l_pop l1) (\<lambda>(a, l2).
       case f a b of Some v \<Rightarrow> l_push v l2 | None \<Rightarrow> Panic))"

text \<open>The division operators panic on the one quotient that does not fit.\<close>

definition l_divide :: "(i64 \<Rightarrow> i64 \<Rightarrow> i64) \<Rightarrow> i64 \<Rightarrow> i64 \<Rightarrow> i64 option" where
  "l_divide f a b = (if b = 0 then Some 0 else if sint a = - (2 ^ 63) \<and> b = - 1 then None else Some (f a b))"

definition l_load_var :: "lvm \<Rightarrow> (CompileError, lvm) outcome" where
  "l_load_var l =
     l_then (l_operand 1 l) (\<lambda>(bs, l1).
       case idx (l_vars l1) (unat (hd bs)) of Some v \<Rightarrow> l_push v l1 | None \<Rightarrow> Panic)"

definition l_store_var :: "lvm \<Rightarrow> (CompileError, lvm) outcome" where
  "l_store_var l =
     l_then (l_operand 1 l) (\<lambda>(bs, l1). l_then (l_pop l1) (\<lambda>(v, l2).
       if unat (hd bs) < length (l_vars l2) then Ok (l2\<lparr>l_vars := (l_vars l2)[unat (hd bs) := v]\<rparr>) else Panic))"

definition l_jump_if_false :: "lvm \<Rightarrow> (CompileError, lvm) outcome" where
  "l_jump_if_false l =
     l_then (l_operand 2 l) (\<lambda>(bs, l1). l_then (l_pop l1) (\<lambda>(c, l2).
       Ok (if c = 0 then l2\<lparr>l_ip := unat (from_be bs :: u16)\<rparr> else l2)))"

definition l_push_str :: "lvm \<Rightarrow> (CompileError, lvm) outcome" where
  "l_push_str l =
     l_then (l_operand 4 l) (\<lambda>(bs, l1).
       l_push (STR_TAG OR push_bit 32 (ucast (from_be (take 2 bs) :: u16)) OR ucast (from_be (drop 2 bs) :: u16)) l1)"

text \<open>The instructions that touch the machine alone; the jump reads its operand and does not skip it.\<close>

definition l_pure_op :: "pulse_op \<Rightarrow> lvm \<Rightarrow> (CompileError, lvm) outcome option" where
  "l_pure_op op l =
     (case op of
        OP_NOP \<Rightarrow> Some (Ok l)
      | OP_PUSH_CONST \<Rightarrow> Some (l_then (l_operand 8 l) (\<lambda>(bs, l1). l_push (from_be bs) l1))
      | OP_LOAD_VAR \<Rightarrow> Some (l_load_var l)
      | OP_STORE_VAR \<Rightarrow> Some (l_store_var l)
      | OP_ADD \<Rightarrow> Some (l_binop (\<lambda>a b. Some (a + b)) l)
      | OP_SUB \<Rightarrow> Some (l_binop (\<lambda>a b. Some (a - b)) l)
      | OP_MUL \<Rightarrow> Some (l_binop (\<lambda>a b. Some (a * b)) l)
      | OP_DIV \<Rightarrow> Some (l_binop (l_divide wrapping_div) l)
      | OP_MOD \<Rightarrow> Some (l_binop (l_divide wrapping_rem) l)
      | OP_CMP_EQ \<Rightarrow> Some (l_binop (\<lambda>a b. Some (of_bool_i64 (a = b))) l)
      | OP_CMP_NE \<Rightarrow> Some (l_binop (\<lambda>a b. Some (of_bool_i64 (a \<noteq> b))) l)
      | OP_CMP_LT \<Rightarrow> Some (l_binop (\<lambda>a b. Some (of_bool_i64 (sint a < sint b))) l)
      | OP_CMP_LE \<Rightarrow> Some (l_binop (\<lambda>a b. Some (of_bool_i64 (sint a \<le> sint b))) l)
      | OP_CMP_GT \<Rightarrow> Some (l_binop (\<lambda>a b. Some (of_bool_i64 (sint a > sint b))) l)
      | OP_CMP_GE \<Rightarrow> Some (l_binop (\<lambda>a b. Some (of_bool_i64 (sint a \<ge> sint b))) l)
      | OP_JUMP \<Rightarrow> Some (l_then (l_operand 2 l) (\<lambda>(bs, l1). Ok (l1\<lparr>l_ip := unat (from_be bs :: u16)\<rparr>)))
      | OP_JUMP_IF_FALSE \<Rightarrow> Some (l_jump_if_false l)
      | OP_PUSH_STR \<Rightarrow> Some (l_push_str l)
      | OP_WITHIN_END \<Rightarrow> Some (Ok (if l_dl_sp l > 0 then l\<lparr>l_dl_sp := l_dl_sp l - 1\<rparr> else l))
      | _ \<Rightarrow> None)"

subsection \<open>Native functions and deadlines\<close>

record 'w lrun =
  l_mach :: lvm
  l_timeout :: u64
  l_statics :: "'w kstatics"

type_synonym 'w lres = "(CompileError, lvm \<times> 'w kstatics) outcome option"

definition l_ret :: "i64 \<Rightarrow> lvm \<Rightarrow> 'w kstatics \<Rightarrow> 'w lres" where
  "l_ret v l st = Some (l_then (l_push v l) (\<lambda>l'. Ok (l', st)))"

text \<open>Popping the argument of a native that has one.\<close>

definition l_arg :: "lvm \<Rightarrow> (i64 \<Rightarrow> lvm \<Rightarrow> 'w lres) \<Rightarrow> 'w lres" where
  "l_arg l f = (case l_pop l of Ok (v, l1) \<Rightarrow> f v l1 | Err e \<Rightarrow> Some (Err e) | Panic \<Rightarrow> Some Panic)"

text \<open>Printing is that of the register machine, over the string pool of this one.\<close>

definition l_print_value :: "'w kenv \<Rightarrow> u8 list \<Rightarrow> lvm \<Rightarrow> i64 \<Rightarrow> 'w kstatics \<Rightarrow> 'w knative" where
  "l_print_value e after l v st =
     (if is_str_ref v then k_print_ref e after (kvm_new [] (l_str_pool l) []) v st
      else print_ret e (dec_i64 v @ after) st)"

definition l_printed :: "'w knative \<Rightarrow> lvm \<Rightarrow> 'w lres" where
  "l_printed r l =
     (case r of
        None \<Rightarrow> None
      | Some (Ok (_, st)) \<Rightarrow> l_ret 0 l st
      | Some (Err x) \<Rightarrow> Some (Err x)
      | Some Panic \<Rightarrow> Some Panic)"

definition l_net_send :: "'w kenv \<Rightarrow> lvm \<Rightarrow> 'w kstatics \<Rightarrow> 'w lres" where
  "l_net_send e l st =
     (let (vb, w) = read_tsc_serialized (k_ports e) (k_world st);
          (done_tsc, w) = read_tsc_serialized (k_ports e) w;
          (handle, pool) = capture_frame_zero_copy (k_slot_addr e) done_tsc 0 1 vb (frame_pool (k_pipe st));
          (now, w) = read_tsc_serialized (k_ports e) w;
          data_slice = get_frame_slot_data pool 0
      in case add_tsc e now (ns_to_tsc 50000000 (k_tsc_freq_hz e)) of
           None \<Rightarrow> Some Panic
         | Some deadline \<Rightarrow>
             (case stream_send_frame (k_ports e) (k_mmio e) (\<lambda>a n. take n data_slice) handle deadline 1
                     (k_net st) (k_nic st) w of
                (Panic, _) \<Rightarrow> Some Panic
              | (_, _, n, nic, w) \<Rightarrow>
                  l_ret 1 l (st\<lparr>k_pipe := (k_pipe st)\<lparr>frame_pool := pool\<rparr>, k_net := n, k_nic := nic, k_world := w\<rparr>)))"

definition l_call_native :: "'w kenv \<Rightarrow> native option \<Rightarrow> nat \<Rightarrow> lvm \<Rightarrow> 'w kstatics \<Rightarrow> 'w lres" where
  "l_call_native e f argc l st =
     (case f of
        Some NATIVE_PRINT \<Rightarrow>
          if 0 < argc then l_arg l (\<lambda>v l1. l_printed (l_print_value e [] l1 v st) l1) else l_ret 0 l st
      | Some NATIVE_PRINTLN \<Rightarrow>
          if 0 < argc then l_arg l (\<lambda>v l1. l_printed (l_print_value e [10] l1 v st) l1)
          else l_printed (print_ret e [10] st) l
      | Some NATIVE_SYS_TSC \<Rightarrow> (let (t, st1) = k_tsc e st in l_ret t l st1)
      | Some NATIVE_NET_RTT \<Rightarrow> l_ret (LAST_RTT_NS (k_net st)) l st
      | Some NATIVE_NET_SET_RATE \<Rightarrow>
          if 0 < argc
          then l_arg l (\<lambda>v l1. l_ret 0 l1 (st\<lparr>k_net := (k_net st)\<lparr>CONGESTION_RATE_PCT := ucast v\<rparr>\<rparr>))
          else l_ret 0 l st
      | Some NATIVE_GPU_CAPTURE \<Rightarrow>
          (case k_gpu_capture e st of Some (Ok (v, st1)) \<Rightarrow> l_ret v l st1 | _ \<Rightarrow> Some Panic)
      | Some NATIVE_NET_SEND \<Rightarrow>
          if 0 < argc then l_arg l (\<lambda>_ l1. l_net_send e l1 st) else l_ret 1 l st
      | Some NATIVE_SCRIPT_ARGC \<Rightarrow> l_ret (of_nat (SCRIPT_ARGC st)) l st
      | Some NATIVE_SCRIPT_ARG \<Rightarrow>
          if 0 < argc
          then l_arg l (\<lambda>i l1. l_ret (if 0 \<le> sint i \<and> unat i < 8 then ARG_TAG OR (i AND 0xFF) else 0) l1 st)
          else l_ret 0 l st
      | _ \<Rightarrow> Some (Ok (l, st)))"

definition l_op_call_native :: "'w kenv \<Rightarrow> 'w lrun \<Rightarrow> 'w lrun flow option" where
  "l_op_call_native e s =
     (case l_operand 2 (l_mach s) of
        Ok (bs, l) \<Rightarrow>
          let f = decode_native (hd bs);
              (t_nat_start, st) = k_tsc e (l_statics s)
          in (case l_call_native e f (unat (bs ! 1)) l st of
                None \<Rightarrow> None
              | Some (Ok (l1, st1)) \<Rightarrow>
                  let (limit, st2) =
                        (if is_blocking_io f then
                           let (t, st2) = k_tsc e st1
                           in (saturating_add_u64 (l_timeout s) (saturating_sub t t_nat_start), st2)
                         else (l_timeout s, st1))
                  in Some (Continue \<lparr>l_mach = l1, l_timeout = limit, l_statics = st2\<rparr>)
              | Some (Err x) \<Rightarrow> Some (Fail x s)
              | Some Panic \<Rightarrow> Some Crash)
      | _ \<Rightarrow> Some Crash)"

text \<open>The budget is converted in 64 bits: the product overflows, unlike \<^const>\<open>ns_to_tsc\<close>.\<close>

definition l_budget :: "'w kenv \<Rightarrow> u64 \<Rightarrow> u64 option" where
  "l_budget e ns =
     (let f = k_tsc_freq_hz e;
          factor = (if 0 < f then f else 3)
      in if k_checked e \<and> 2 ^ 64 \<le> unat ns * unat factor then None
         else Some (if 0 < f then ns * f div 1000000000 else ns * 3))"

definition l_within_start :: "'w kenv \<Rightarrow> 'w lrun \<Rightarrow> 'w lrun flow option" where
  "l_within_start e s =
     (case l_operand 8 (l_mach s) of
        Ok (bs, l) \<Rightarrow>
          (case l_budget e (from_be bs) of
             None \<Rightarrow> Some Crash
           | Some budget \<Rightarrow>
               if l_dl_sp l < 8 then
                 let (now, st) = k_tsc e (l_statics s)
                 in (case add_tsc e now budget of
                       None \<Rightarrow> Some Crash
                     | Some dl \<Rightarrow>
                         Some (Continue (s\<lparr>l_statics := st,
                           l_mach := l\<lparr>l_deadline_stack := (l_deadline_stack l)[l_dl_sp l := dl],
                                       l_dl_sp := l_dl_sp l + 1\<rparr>\<rparr>)))
               else Some (Continue (s\<lparr>l_mach := l\<rparr>)))
      | _ \<Rightarrow> Some Crash)"

definition l_drop :: "'w kenv \<Rightarrow> 'w lrun \<Rightarrow> 'w lrun flow option" where
  "l_drop e s =
     (let l = l_mach s
      in if l_dl_sp l > 0 then
           let (now, st) = k_tsc e (l_statics s)
           in if now > l_deadline_stack l ! (l_dl_sp l - 1) then
                map_option (\<lambda>st'. Continue (s\<lparr>l_statics := st'\<rparr>)) (serial_print e deadline_drop_text st)
              else Some (Continue (s\<lparr>l_statics := st\<rparr>))
         else Some (Continue s))"

subsection \<open>The loop\<close>

definition l_exec :: "'w kenv \<Rightarrow> pulse_op \<Rightarrow> 'w lrun \<Rightarrow> 'w lrun flow option" where
  "l_exec e op s =
     (case l_pure_op op (l_mach s) of
        Some (Ok l) \<Rightarrow> Some (Continue (s\<lparr>l_mach := l\<rparr>))
      | Some (Err x) \<Rightarrow> Some (Fail x s)
      | Some Panic \<Rightarrow> Some Crash
      | None \<Rightarrow>
          (case op of
             OP_CALL_NATIVE \<Rightarrow> l_op_call_native e s
           | OP_WITHIN_START \<Rightarrow> l_within_start e s
           | OP_DROP \<Rightarrow> l_drop e s
           | _ \<Rightarrow> Some (Break s)))"

definition l_step :: "'w kenv \<Rightarrow> 'w lrun \<Rightarrow> 'w lrun flow option" where
  "l_step e s =
     (let l = l_mach s;
          s1 = s\<lparr>l_mach := l\<lparr>l_ip := l_ip l + 1\<rparr>\<rparr>
      in case decode_pulse_op (l_code l ! l_ip l) of
           Some op \<Rightarrow> l_exec e op s1
         | None \<Rightarrow> Some (Fail (simple ''ERR_VM_INVALID_OPCODE'' ''Invalid opcode'') s1))"

definition l_timeout_exceeded :: CompileError where
  "l_timeout_exceeded =
     simple ''ERR_PX64_TIMEOUT_EXCEEDED''
       ''Execution exceeded 5.0ms wall-clock execution deadline (watchdog safety violation)''"

function l_loop :: "'w kenv \<Rightarrow> nat \<Rightarrow> 'w lrun \<Rightarrow> 'w lrun run_result option" where
  "l_loop e n s =
     (if l_ip (l_mach s) < length (l_code (l_mach s)) then
        if MAX_VM_STEPS \<le> n then Some (Failed wcet_exceeded s)
        else let (t, st) = k_tsc e (l_statics s);
                 s1 = s\<lparr>l_statics := st\<rparr>
             in if l_timeout s < t then Some (Failed l_timeout_exceeded s1)
                else case l_step e s1 of
                       None \<Rightarrow> None
                     | Some (Continue s2) \<Rightarrow> l_loop e (n + 1) s2
                     | Some (Break s2) \<Rightarrow> Some (Finished s2)
                     | Some (Fail x s2) \<Rightarrow> Some (Failed x s2)
                     | Some Crash \<Rightarrow> Some Panicked
      else Some (Finished s))"
  by pat_completeness auto
termination by (relation "measure (\<lambda>(e, n, s). MAX_VM_STEPS - n)") auto

declare l_loop.simps [simp del]

definition l_run :: "'w kenv \<Rightarrow> lvm \<Rightarrow> 'w kstatics \<Rightarrow> 'w lrun run_result option" where
  "l_run e l st =
     (let (start_tsc, st1) = k_tsc e st
      in case add_tsc e start_tsc (ns_to_tsc 5000000 (k_tsc_freq_hz e)) of
           None \<Rightarrow> Some Panicked
         | Some limit \<Rightarrow> l_loop e 0 \<lparr>l_mach = l, l_timeout = limit, l_statics = st1\<rparr>)"

section \<open>Loading and running\<close>

definition PULSE_BIN_VERSION :: u16 where
  "PULSE_BIN_VERSION = 3"

text \<open>What running a program returns, with the statics it leaves.\<close>

type_synonym 'w kresult = "'w kstatics run_result option"

definition k_result :: "'w krun run_result option \<Rightarrow> 'w kresult" where
  "k_result r = map_option (map_run_result statics) r"

definition l_result :: "'w lrun run_result option \<Rightarrow> 'w kresult" where
  "l_result r = map_option (map_run_result l_statics) r"

definition run_legacy_binary :: "'w kenv \<Rightarrow> u8 list \<Rightarrow> 'w kstatics \<Rightarrow> 'w kresult" where
  "run_legacy_binary e bin st =
     (if (from_be (sub_slice 4 2 bin) :: u16) \<noteq> PULSE_BIN_VERSION then
        Some (Failed (simple ''ERR_BINARY_VERSION_MISMATCH'' ''Unsupported PulseLang binary version'') st)
      else
        let code_len = be16_at 6 bin;
            str_pool_len = be16_at 8 bin
        in if length bin < PULSE_HEADER_SIZE + code_len + str_pool_len then
             Some (Failed (simple ''ERR_BINARY_TRUNCATED'' ''Truncated binary bytecode payload'') st)
           else l_result (l_run e (lvm_new (sub_slice PULSE_HEADER_SIZE code_len bin)
                    (sub_slice (PULSE_HEADER_SIZE + code_len) str_pool_len bin)) st))"

text \<open>
  The loader copies at most 64 constants and then takes the first \<^verbatim>\<open>const_count\<close> of the 64:
  more than 64 panics.
\<close>

definition run_px64_binary :: "'w kenv \<Rightarrow> u8 list \<Rightarrow> 'w kstatics \<Rightarrow> 'w kresult" where
  "run_px64_binary e bin st =
     (if (from_be (sub_slice 4 2 bin) :: u16) \<noteq> PX64_BIN_VERSION then
        Some (Failed (simple ''ERR_BINARY_VERSION_MISMATCH'' ''Unsupported px64 binary version'') st)
      else
        let code_len = be16_at 6 bin;
            str_pool_len = be16_at 8 bin;
            const_count = be16_at 10 bin;
            const_bytes = const_count * 8
        in if length bin < PX64_HEADER_SIZE + code_len + str_pool_len + const_bytes then
             Some (Failed (simple ''ERR_BINARY_TRUNCATED'' ''Truncated px64 binary payload'') st)
           else
             let raw = sub_slice (PX64_HEADER_SIZE + code_len + str_pool_len) const_bytes bin;
                 consts = map (\<lambda>i. from_be (sub_slice (i * 8) 8 raw)) [0..<min const_count 64] @
                          array_of 0 (64 - min const_count 64)
             in if 64 < const_count then Some Panicked
                else k_result (k_run e (kvm_new (sub_slice PX64_HEADER_SIZE code_len bin)
                       (sub_slice (PX64_HEADER_SIZE + code_len) str_pool_len bin) (take const_count consts)) st))"

definition run_pulse_binary :: "'w kenv \<Rightarrow> u8 list \<Rightarrow> 'w kstatics \<Rightarrow> 'w kresult" where
  "run_pulse_binary e bin st =
     (if PX64_HEADER_SIZE \<le> length bin \<and> take 4 bin = PX64_BIN_MAGIC then run_px64_binary e bin st
      else if PULSE_HEADER_SIZE \<le> length bin \<and> take 4 bin = PULSE_BIN_MAGIC then run_legacy_binary e bin st
      else Some (Failed (simple ''ERR_BINARY_INVALID_MAGIC''
             ''Invalid executable binary magic (expected PX64)'') st))"

text \<open>
  \<open>compile src\<close> is what lexer and compiler make of a source: an error, or code, string pool and
  constants.
\<close>

definition run_pulse_script ::
  "'w kenv \<Rightarrow> (u8 list \<Rightarrow> (CompileError, u8 list \<times> u8 list \<times> i64 list) outcome) \<Rightarrow> u8 list \<Rightarrow> 'w kstatics \<Rightarrow> 'w kresult" where
  "run_pulse_script e compile src st =
     (case compile src of
        Ok (prog, pool, consts) \<Rightarrow> k_result (k_run e (kvm_new prog pool consts) st)
      | Err x \<Rightarrow> Some (Failed x st)
      | Panic \<Rightarrow> Some Panicked)"

definition run_pulse_auto ::
  "'w kenv \<Rightarrow> (u8 list \<Rightarrow> (CompileError, u8 list \<times> u8 list \<times> i64 list) outcome) \<Rightarrow> u8 list \<Rightarrow> 'w kstatics \<Rightarrow> 'w kresult" where
  "run_pulse_auto e compile data st =
     (if 4 \<le> length data \<and> (take 4 data = PX64_BIN_MAGIC \<or> take 4 data = PULSE_BIN_MAGIC)
      then run_pulse_binary e data st else run_pulse_script e compile data st)"

section \<open>Properties\<close>

lemma magic_slice: "sub_slice 0 4 bin = take 4 bin"
  by (simp add: sub_slice_def)

lemma magics_equal: "PULSE_BIN_MAGIC = PX64_BIN_MAGIC"
  by (simp add: PULSE_BIN_MAGIC_def PX64_BIN_MAGIC_def)

lemma run_pulse_binary_eq:
  "run_pulse_binary e bin st =
     (case load_binary bin of
        Ok (prog, pool, consts) \<Rightarrow>
          if 64 < be16_at 10 bin then Some Panicked else k_result (k_run e (kvm_new prog pool consts) st)
      | Err x \<Rightarrow> Some (Failed x st)
      | Panic \<Rightarrow> Some Panicked)"
proof (cases "has_magic bin")
  case False
  then show ?thesis
    by (auto simp: run_pulse_binary_def load_binary_def has_magic_def magics_equal magic_slice
        )
next
  case True
  then have "run_pulse_binary e bin st = run_px64_binary e bin st"
    by (simp add: run_pulse_binary_def has_magic_def magic_slice)
  with True show ?thesis
    by (simp add: run_px64_binary_def load_binary_def sections_def Let_def min_def)
qed

lemma auto_binary: "has_magic bin \<Longrightarrow> run_pulse_auto e compile bin st = run_pulse_binary e bin st"
  by (simp add: run_pulse_auto_def has_magic_def magic_slice)

text \<open>
  C15: The loader of the kernel and that of the core library accept the same binaries, read the
  same sections from them and reject the others with the same error, but for binaries with more
  than 64 constants, which panic in the kernel. The legacy machine is never started.
\<close>

theorem kernel_loader:
  "run_pulse_binary e bin st =
     (case load_binary bin of
        Ok (prog, pool, consts) \<Rightarrow>
          if 64 < be16_at 10 bin then Some Panicked else k_result (k_run e (kvm_new prog pool consts) st)
      | Err x \<Rightarrow> Some (Failed x st)
      | Panic \<Rightarrow> Some Panicked)"
  by (rule run_pulse_binary_eq)

text \<open>
  A compiled program runs in the kernel as it was compiled: the binary that the compiler's
  writer makes of code, string pool and at most 64 constants is recognized as a binary, and
  running it is running the machine on these three.
\<close>

theorem kernel_runs_written_binary:
  assumes w: "write_binary prog pool consts buf = Ok (n, bin)"
    and len: "length prog < 65536" "length pool < 65536" "length consts \<le> 64"
  shows "run_pulse_auto e compile (take n bin) st = k_result (k_run e (kvm_new prog pool consts) st)"
proof -
  let ?h = "header_bytes (length prog) (length pool) (length consts)"
  have room: "16 + length prog + length pool + length consts * 8 \<le> length buf"
    using w by (rule_tac ccontr) (simp add: write_binary_def Let_def)
  from write_binary_layout [OF room] w
  have bin: "take n bin = ?h @ prog @ pool @ const_bytes consts @ []" by auto
  have "load_binary (take n bin) = Ok (prog, pool, consts)"
    unfolding bin using len by (subst load_written) simp_all
  moreover from this have "has_magic (take n bin)"
    by (simp add: load_binary_def split: if_splits)
  moreover have "be16_at 10 (take n bin) = length consts"
    using len unfolding bin by (simp add: be16_at_def header_fields byte_simps unat_of_nat)
  ultimately show ?thesis
    using len by (simp add: auto_binary run_pulse_binary_eq)
qed

theorem kernel_runs_written_binary_witness:
  "\<exists>n bin. write_binary product_prog [] [7] (replicate 100 0) = Ok (n, bin) \<and>
     run_pulse_auto still_env (\<lambda>src. Panic) (take n bin) fresh_statics =
     k_result (k_run still_env (kvm_new product_prog [] [7]) fresh_statics)"
proof -
  have room: "16 + length product_prog + length [] + length [7 :: i64] * 8 \<le> length (replicate 100 (0 :: u8))"
    by (simp add: product_prog_def)
  show ?thesis
    using kernel_runs_written_binary [OF write_binary_layout [OF room]] write_binary_layout [OF room]
    by (simp add: product_prog_def)
qed

end
