(* ===== verification/CompState.thy ===== *)
theory CompState
  imports Token
begin

text \<open>
  The state of the single-pass compiler (\<^verbatim>\<open>pulselang-core/src/compiler.rs\<close>) and the operations
  every later part is made of: reading tokens, emitting and patching instructions, the
  temporaries, the constant pool and the lookup of names. A table of the source that is a fixed
  array with a count is the list of its used entries here, and a name with its length is the
  list of its bytes; the variables keep their arrays, since entries behind the count are read
  again when the count grows. Of a diagnostic the code and the position are modelled; its
  constant texts are not.
\<close>

section \<open>Data\<close>

datatype ResourceKind = HardwareFrame | PacketBuffer | RingSlot | FileHandle

datatype Typestate = Unallocated | Captured nat nat ResourceKind | Sent | Dropped | Moved nat nat

record FnMeta =
  fn_name :: "u8 list"
  entry_pc :: u16
  param_names :: "u8 list list"
  ensures_tokens :: "(nat \<times> nat) list"
  param_fixed_scales :: "u8 option list"
  fn_declared_wcet_ns :: "u64 option"
  fn_estimated_wcet_ns :: u64

record WcetItem =
  item_name :: "u8 list"
  item_declared_ns :: "u64 option"
  item_estimated_ns :: u64

record ArrayMeta =
  arr_name :: "u8 list"
  arr_id :: u8
  arr_base :: u16
  arr_len :: u16

record StructFieldMeta =
  field_name :: "u8 list"
  field_offset :: u8

record StructDefMeta =
  def_name :: "u8 list"
  def_fields :: "StructFieldMeta list"

record EnumDefMeta =
  enum_name :: "u8 list"
  variants :: "u8 list list"

record StructInstMeta =
  inst_var_name :: "u8 list"
  struct_def_idx :: nat
  inst_id :: u8
  inst_base_slot :: u16
  inst_field_count :: u8

record ConstTableMeta =
  tbl_name :: "u8 list"
  tbl_id :: u8
  tbl_base_idx :: u8
  tbl_len :: u8

datatype CombinatorFnTarget = UserDefined FnMeta | Builtin native

record ViewMeta =
  view_name :: "u8 list"
  view_arr_id :: u8
  base_reg :: u8
  stride_imm :: u16
  len_imm :: u16

abbreviation (input) MAX_VARS :: nat where
  "MAX_VARS \<equiv> 48"

abbreviation (input) MAX_ENUMS :: nat where
  "MAX_ENUMS \<equiv> 16"

abbreviation (input) MAX_ENUM_VARIANTS :: nat where
  "MAX_ENUM_VARIANTS \<equiv> 16"

definition RUNTIME_TINY :: u16 where "RUNTIME_TINY = 1"
definition RUNTIME_CORE :: u16 where "RUNTIME_CORE = 2"
definition RUNTIME_MATH :: u16 where "RUNTIME_MATH = 4"
definition RUNTIME_FIX :: u16 where "RUNTIME_FIX = 8"
definition RUNTIME_SYS :: u16 where "RUNTIME_SYS = 16"
definition RUNTIME_NET :: u16 where "RUNTIME_NET = 32"
definition RUNTIME_VRAM :: u16 where "RUNTIME_VRAM = 64"
definition RUNTIME_GPU :: u16 where "RUNTIME_GPU = 128"
definition RUNTIME_TERM :: u16 where "RUNTIME_TERM = 256"
definition RUNTIME_FILE :: u16 where "RUNTIME_FILE = 512"
definition RUNTIME_ALL :: u16 where "RUNTIME_ALL = 0x3FF"

record Compiler =
  c_src :: "u8 list"
  c_tokens :: "Token list"
  current :: nat
  c_code :: "u8 list"
  var_names :: "u8 list list"
  var_regs :: "u8 list"
  var_mut :: "bool list"
  var_spill :: "bool list"
  var_spill_slot :: "u8 list"
  var_count :: nat
  var_enum_types :: "nat option list"
  var_fixed_scales :: "u8 option list"
  enums :: "EnumDefMeta list"
  current_expr_enum_type :: "nat option"
  spill_count :: nat
  c_str_pool :: "u8 list"
  c_const_pool :: "i64 list"
  temp_used :: u8
  handle_states :: "Typestate list"
  c_arrays :: "ArrayMeta list"
  total_array_elements :: nat
  c_functions :: "FnMeta list"
  current_fn :: "nat option"
  struct_defs :: "StructDefMeta list"
  struct_insts :: "StructInstMeta list"
  total_struct_fields :: nat
  const_tables :: "ConstTableMeta list"
  views :: "ViewMeta list"
  current_expr_fixed_scale :: "u8 option"
  target_fixed_scale :: "u8 option"
  declared_script_wcet_ns :: "u64 option"
  declared_script_budget_ns :: "u64 option"
  wcet_items :: "WcetItem list"
  total_synthesized_wcet_ns :: u64
  max_elements :: nat
  max_arrays :: nat
  max_struct_defs :: nat
  max_struct_insts :: nat
  max_struct_fields :: nat
  max_const_tables :: nat
  imported_runtimes :: u16
  has_explicit_imports :: bool

abbreviation code_len :: "Compiler \<Rightarrow> nat" where
  "code_len c \<equiv> length (c_code c)"

definition Compiler_new :: "u8 list \<Rightarrow> Token list \<Rightarrow> Compiler" where
  "Compiler_new src toks =
     \<lparr>c_src = src, c_tokens = toks, current = 0, c_code = [],
      var_names = replicate MAX_VARS [], var_regs = replicate MAX_VARS 0,
      var_mut = replicate MAX_VARS True, var_spill = replicate MAX_VARS False,
      var_spill_slot = replicate MAX_VARS 0, var_count = 0,
      var_enum_types = replicate MAX_VARS None, var_fixed_scales = replicate MAX_VARS None,
      enums = [], current_expr_enum_type = None, spill_count = 0, c_str_pool = [], c_const_pool = [],
      temp_used = 0, handle_states = replicate 4 Unallocated, c_arrays = [], total_array_elements = 0,
      c_functions = [], current_fn = None, struct_defs = [], struct_insts = [], total_struct_fields = 0,
      const_tables = [], views = [], current_expr_fixed_scale = None, target_fixed_scale = None,
      declared_script_wcet_ns = None, declared_script_budget_ns = None, wcet_items = [],
      total_synthesized_wcet_ns = 0, max_elements = 256, max_arrays = 8, max_struct_defs = 8,
      max_struct_insts = 8, max_struct_fields = 256, max_const_tables = 8,
      imported_runtimes = RUNTIME_ALL, has_explicit_imports = False\<rparr>"

section \<open>Compiling actions\<close>

record Diagnostic =
  d_code :: string
  d_line :: nat
  d_col :: nat
  d_offset :: nat
  d_kind :: TokenKind
  d_len :: nat

text \<open>
  An action changes the state and returns a value, reports an error, or panics. \<^term>\<open>None\<close> is an
  action that has used up its fuel.
\<close>

type_synonym 'a comp = "Compiler \<Rightarrow> (Diagnostic, 'a \<times> Compiler) outcome option"

definition give :: "'a \<Rightarrow> 'a comp" where
  "give x c = Some (Ok (x, c))"

definition seqc :: "'a comp \<Rightarrow> ('a \<Rightarrow> 'b comp) \<Rightarrow> 'b comp" where
  "seqc m f c =
     (case m c of
        None \<Rightarrow> None
      | Some (Ok (x, c')) \<Rightarrow> f x c'
      | Some (Err e) \<Rightarrow> Some (Err e)
      | Some Panic \<Rightarrow> Some Panic)"

definition thenc :: "'a comp \<Rightarrow> 'b comp \<Rightarrow> 'b comp" where
  "thenc m k = seqc m (\<lambda>_. k)"

definition crash :: "'a comp" where
  "crash c = Some Panic"

definition look :: "(Compiler \<Rightarrow> 'a) \<Rightarrow> 'a comp" where
  "look f c = Some (Ok (f c, c))"

definition change :: "(Compiler \<Rightarrow> Compiler) \<Rightarrow> unit comp" where
  "change f c = Some (Ok ((), f c))"

section \<open>Tokens\<close>

definition peek :: "Compiler \<Rightarrow> Token" where
  "peek c = (if current c < length (c_tokens c) then c_tokens c ! current c else empty_token)"

definition peek_ahead :: "nat \<Rightarrow> Compiler \<Rightarrow> Token" where
  "peek_ahead k c =
     (if current c + k < length (c_tokens c) then c_tokens c ! (current c + k) else empty_token)"

abbreviation peek_kind :: "Compiler \<Rightarrow> TokenKind" where
  "peek_kind c \<equiv> kind (peek c)"

definition advance :: "Token comp" where
  "advance c =
     Some (Ok (peek c, if current c < length (c_tokens c) then c\<lparr>current := current c + 1\<rparr> else c))"

definition match_token :: "TokenKind \<Rightarrow> bool comp" where
  "match_token k c = (if peek_kind c = k then thenc advance (give True) c else give False c)"

definition diagnose :: "string \<Rightarrow> Compiler \<Rightarrow> Diagnostic" where
  "diagnose msg c =
     (let tok = peek c
      in \<lparr>d_code = msg, d_line = tok_line tok, d_col = tok_col tok, d_offset = tok_start tok,
          d_kind = kind tok, d_len = tok_len tok\<rparr>)"

definition fail_c :: "string \<Rightarrow> 'a comp" where
  "fail_c msg c = Some (Err (diagnose msg c))"

text \<open>A token that may be there, and one that must.\<close>

definition skip_c :: "TokenKind \<Rightarrow> unit comp" where
  "skip_c k = thenc (match_token k) (give ())"

definition expect :: "TokenKind \<Rightarrow> string \<Rightarrow> unit comp" where
  "expect k msg = seqc (match_token k) (\<lambda>b. if b then give () else fail_c msg)"

definition ensure_c :: "bool \<Rightarrow> string \<Rightarrow> unit comp" where
  "ensure_c b msg = (if b then give () else fail_c msg)"

text \<open>The bytes of a token; a token that is not inside the source panics.\<close>

definition in_source :: "Token \<Rightarrow> Compiler \<Rightarrow> bool" where
  "in_source tok c \<longleftrightarrow> tok_start tok + tok_len tok \<le> length (c_src c)"

definition lexeme :: "Token \<Rightarrow> Compiler \<Rightarrow> u8 list" where
  "lexeme tok c = sub_slice (tok_start tok) (tok_len tok) (c_src c)"

definition name_of :: "Token \<Rightarrow> u8 list comp" where
  "name_of tok c = (if in_source tok c then give (lexeme tok c) c else crash c)"

definition name_or_empty :: "Token \<Rightarrow> Compiler \<Rightarrow> u8 list" where
  "name_or_empty tok c = (if in_source tok c then lexeme tok c else [])"

section \<open>Instructions\<close>

definition emit_inst :: "px64_op \<Rightarrow> u8 \<Rightarrow> u8 \<Rightarrow> u8 \<Rightarrow> nat comp" where
  "emit_inst op rd rs1 rs2 c =
     (if MAX_BYTECODE_SIZE < code_len c + 4 then fail_c ''ERR_BYTECODE_OVERFLOW'' c
      else Some (Ok (code_len c, c\<lparr>c_code := c_code c @ [op_code op, rd, rs1, rs2]\<rparr>)))"

definition emit_imm16 :: "px64_op \<Rightarrow> u8 \<Rightarrow> u16 \<Rightarrow> nat comp" where
  "emit_imm16 op rd imm = emit_inst op rd (ucast (drop_bit 8 imm)) (ucast imm)"

text \<open>An instruction whose position is not used.\<close>

definition emit :: "px64_op \<Rightarrow> u8 \<Rightarrow> u8 \<Rightarrow> u8 \<Rightarrow> unit comp" where
  "emit op rd rs1 rs2 = thenc (emit_inst op rd rs1 rs2) (give ())"

definition emit_imm :: "px64_op \<Rightarrow> u8 \<Rightarrow> u16 \<Rightarrow> unit comp" where
  "emit_imm op rd imm = thenc (emit_imm16 op rd imm) (give ())"

definition patch_imm16 :: "nat \<Rightarrow> u16 \<Rightarrow> unit comp" where
  "patch_imm16 pos imm =
     change (\<lambda>c. if pos + 3 < MAX_BYTECODE_SIZE
       then c\<lparr>c_code := (c_code c)[pos + 2 := ucast (drop_bit 8 imm), pos + 3 := ucast imm]\<rparr> else c)"

text \<open>\<^verbatim>\<open>self.patch_imm16(pos, self.code_len as u16)\<close>: the jump at \<open>pos\<close> goes here.\<close>

definition patch_here :: "nat \<Rightarrow> unit comp" where
  "patch_here pos c = patch_imm16 pos (of_nat (code_len c)) c"

section \<open>Temporaries\<close>

definition free_temps :: "Compiler \<Rightarrow> nat list" where
  "free_temps c = filter (\<lambda>i. \<not> bit (temp_used c) i) [0..<8]"

definition alloc_temp :: "u8 comp" where
  "alloc_temp c =
     (case free_temps c of
        i # _ \<Rightarrow> Some (Ok (15 - of_nat i, c\<lparr>temp_used := temp_used c OR push_bit i 1\<rparr>))
      | [] \<Rightarrow> fail_c ''ERR_EXPR_TOO_COMPLEX'' c)"

definition free_temp :: "u8 \<Rightarrow> unit comp" where
  "free_temp reg =
     change (\<lambda>c. if 8 \<le> reg \<and> reg \<le> 15
       then c\<lparr>temp_used := temp_used c AND NOT (push_bit (15 - unat reg) 1)\<rparr> else c)"

section \<open>Constants\<close>

fun position :: "('a \<Rightarrow> bool) \<Rightarrow> 'a list \<Rightarrow> nat option" where
  "position P [] = None"
| "position P (x # xs) = (if P x then Some 0 else map_option Suc (position P xs))"

definition append_table_constant :: "i64 \<Rightarrow> u16 comp" where
  "append_table_constant val c =
     (if MAX_CONST_POOL \<le> length (c_const_pool c) then fail_c ''ERR_CONST_POOL_FULL'' c
      else Some (Ok (of_nat (length (c_const_pool c)), c\<lparr>c_const_pool := c_const_pool c @ [val]\<rparr>)))"

definition add_constant :: "i64 \<Rightarrow> u16 comp" where
  "add_constant val c =
     (case position ((=) val) (c_const_pool c) of
        Some i \<Rightarrow> give (of_nat i) c
      | None \<Rightarrow> append_table_constant val c)"

text \<open>\<^verbatim>\<open>0..=65535\<close> holds for a nonnegative value below 65536, that is for its 64 bits read unsigned.\<close>

definition emit_const :: "u8 \<Rightarrow> i64 \<Rightarrow> unit comp" where
  "emit_const dst val =
     (if val \<le> 65535 then emit_imm PX64_OP_MOV_IMM dst (ucast val)
      else seqc (add_constant val) (\<lambda>i. emit_imm PX64_OP_LDC dst i))"

definition find_string_in_pool :: "u8 list \<Rightarrow> Compiler \<Rightarrow> nat option" where
  "find_string_in_pool s c =
     (if s = [] then Some 0
      else if length (c_str_pool c) < length s then None
      else find (\<lambda>i. sub_slice i (length s) (c_str_pool c) = s) [0..<length (c_str_pool c) - length s + 1])"

section \<open>Lookup\<close>

definition lookup_array :: "Token \<Rightarrow> u8 comp" where
  "lookup_array tok =
     seqc (name_of tok) (\<lambda>name c.
       case find (\<lambda>a. arr_name a = name) (c_arrays c) of
         Some a \<Rightarrow> give (arr_id a) c
       | None \<Rightarrow> fail_c ''ERR_ARRAY_UNDEFINED'' c)"

definition lookup_view :: "Token \<Rightarrow> ViewMeta option comp" where
  "lookup_view tok = seqc (name_of tok) (\<lambda>name. look (\<lambda>c. find (\<lambda>v. view_name v = name) (views c)))"

definition find_fn :: "u8 list \<Rightarrow> Compiler \<Rightarrow> FnMeta option" where
  "find_fn name c = find (\<lambda>f. fn_name f = name) (c_functions c)"

definition builtin_combinators :: "(string \<times> native) list" where
  "builtin_combinators =
     [(''min'', NATIVE_MATH_MIN), (''max'', NATIVE_MATH_MAX), (''abs'', NATIVE_MATH_ABS),
      (''clamp'', NATIVE_MATH_CLAMP), (''popcnt'', NATIVE_BIT_POPCNT), (''lzcnt'', NATIVE_BIT_LZCNT),
      (''crc32'', NATIVE_CRC32), (''to_fix'', NATIVE_FIX_TO_FIX), (''to_i64'', NATIVE_FIX_TO_I64),
      (''fix_mul'', NATIVE_FIX_MUL), (''fix_div'', NATIVE_FIX_DIV), (''print'', NATIVE_PRINT),
      (''println'', NATIVE_PRINTLN)]"

definition lookup_combinator_fn :: "u8 list \<Rightarrow> CombinatorFnTarget comp" where
  "lookup_combinator_fn name c =
     (case find_fn name c of
        Some f \<Rightarrow> give (UserDefined f) c
      | None \<Rightarrow>
          (case find (\<lambda>(s, f). name = bytes s \<or> name = bytes (CHR ''@'' # s)) builtin_combinators of
             Some (s, f) \<Rightarrow> give (Builtin f) c
           | None \<Rightarrow> fail_c ''ERR_UNKNOWN_FUNCTION'' c))"

definition lookup_fn_by_name :: "u8 list \<Rightarrow> FnMeta comp" where
  "lookup_fn_by_name name c =
     (case find_fn name c of Some f \<Rightarrow> give f c | None \<Rightarrow> fail_c ''ERR_UNKNOWN_FUNCTION'' c)"

definition lookup_enum_by_name :: "u8 list \<Rightarrow> Compiler \<Rightarrow> nat option" where
  "lookup_enum_by_name name c = position (\<lambda>d. enum_name d = name) (enums c)"

definition lookup_enum_variant :: "nat \<Rightarrow> u8 list \<Rightarrow> Compiler \<Rightarrow> nat option" where
  "lookup_enum_variant e name c =
     (case idx (enums c) e of Some d \<Rightarrow> position ((=) name) (variants d) | None \<Rightarrow> None)"

definition var_position :: "u8 list \<Rightarrow> Compiler \<Rightarrow> nat option" where
  "var_position name c = position ((=) name) (take (var_count c) (var_names c))"

definition get_var_index :: "Token \<Rightarrow> Compiler \<Rightarrow> nat option" where
  "get_var_index tok c = (if in_source tok c then var_position (lexeme tok c) c else None)"

definition get_var_enum_type :: "Token \<Rightarrow> Compiler \<Rightarrow> nat option" where
  "get_var_enum_type tok c =
     (case get_var_index tok c of
        Some i \<Rightarrow> if i < MAX_VARS then var_enum_types c ! i else None
      | None \<Rightarrow> None)"

definition param_position :: "u8 list \<Rightarrow> Compiler \<Rightarrow> nat option" where
  "param_position name c =
     (case current_fn c of
        Some f \<Rightarrow> position ((=) name) (param_names (c_functions c ! f))
      | None \<Rightarrow> None)"

definition get_var_fixed_scale :: "Token \<Rightarrow> u8 option comp" where
  "get_var_fixed_scale tok =
     seqc (name_of tok) (\<lambda>name. look (\<lambda>c.
       case param_position name c of
         Some p \<Rightarrow> param_fixed_scales (c_functions c ! the (current_fn c)) ! p
       | None \<Rightarrow>
           (case get_var_index tok c of
              Some i \<Rightarrow> if i < MAX_VARS then var_fixed_scales c ! i else None
            | None \<Rightarrow> None)))"

definition is_struct_type :: "Token \<Rightarrow> bool comp" where
  "is_struct_type tok =
     seqc (name_of tok) (\<lambda>name. look (\<lambda>c. \<exists>d \<in> set (struct_defs c). def_name d = name))"

definition lookup_struct_field :: "u8 list \<Rightarrow> u8 list \<Rightarrow> (u8 \<times> u8) comp" where
  "lookup_struct_field var fld c =
     (case find (\<lambda>i. inst_var_name i = var) (struct_insts c) of
        None \<Rightarrow> fail_c ''ERR_UNKNOWN_STRUCT_VAR'' c
      | Some inst \<Rightarrow>
          (case find (\<lambda>f. field_name f = fld) (def_fields (struct_defs c ! struct_def_idx inst)) of
             Some f \<Rightarrow> give (inst_id inst, field_offset f) c
           | None \<Rightarrow> fail_c ''ERR_UNKNOWN_STRUCT_FIELD'' c))"

definition lookup_const_table :: "u8 list \<Rightarrow> (u8 \<times> u8) comp" where
  "lookup_const_table name c =
     (case find (\<lambda>t. tbl_name t = name) (const_tables c) of
        Some t \<Rightarrow> give (tbl_id t, tbl_len t) c
      | None \<Rightarrow> fail_c ''ERR_UNKNOWN_CONST_TABLE'' c)"

definition is_spilled_var :: "Token \<Rightarrow> Compiler \<Rightarrow> u8 option" where
  "is_spilled_var tok c =
     (case find (\<lambda>i. var_names c ! i = name_or_empty tok c \<and> var_spill c ! i) [0..<var_count c] of
        Some i \<Rightarrow> Some (var_spill_slot c ! i)
      | None \<Rightarrow> None)"

section \<open>Variables\<close>

definition register_names :: "(string list \<times> u8) list" where
  "register_names =
     [([''$rax'', ''$r0'', ''$result'', ''$ret''], 0), ([''$rcx'', ''$r1''], 1), ([''$rdx'', ''$r2''], 2),
      ([''$rbx'', ''$r3''], 3), ([''$rsp'', ''$r4''], 4), ([''$rbp'', ''$r5''], 5), ([''$rsi'', ''$r6''], 6),
      ([''$rdi'', ''$r7''], 7), ([''$r8''], 8), ([''$r9''], 9), ([''$r10''], 10), ([''$r11''], 11),
      ([''$r12''], 12), ([''$r13''], 13), ([''$r14''], 14), ([''$r15''], 15),
      ([''#f'', ''#frame'', ''#f0'', ''#slot0''], 16), ([''#f1'', ''#slot1''], 17),
      ([''#f2'', ''#slot2''], 18), ([''#f3'', ''#slot3''], 19)]"

definition fixed_register :: "u8 list \<Rightarrow> u8 option" where
  "fixed_register name =
     map_option snd (find (\<lambda>(ns, r). name \<in> bytes ` set ns) register_names)"

definition param_regs :: "u8 list" where
  "param_regs = [7, 6, 2, 1]"

text \<open>A new variable in the next register.\<close>

definition new_var :: "u8 list \<Rightarrow> bool \<Rightarrow> Compiler \<Rightarrow> Compiler" where
  "new_var name mutable c =
     (let i = var_count c
      in c\<lparr>var_names := (var_names c)[i := take 16 name], var_mut := (var_mut c)[i := mutable],
          var_regs := (var_regs c)[i := of_nat (1 + i)], var_count := i + 1\<rparr>)"

definition declare_var :: "Token \<Rightarrow> bool \<Rightarrow> u8 comp" where
  "declare_var tok mutable c =
     (let name = name_or_empty tok c
      in case fixed_register name of
           Some r \<Rightarrow> give r c
         | None \<Rightarrow>
             (case var_position name c of
                Some i \<Rightarrow> give (var_regs c ! i) (c\<lparr>var_mut := (var_mut c)[i := mutable]\<rparr>)
              | None \<Rightarrow>
                  let i = var_count c
                  in if MAX_VARS \<le> i then fail_c ''ERR_MAX_VARS_EXCEEDED'' c
                     else if i < 13 then
                       give (of_nat (1 + i)) ((new_var name mutable c)\<lparr>var_spill := (var_spill c)[i := False],
                         var_spill_slot := (var_spill_slot c)[i := 0]\<rparr>)
                     else if 32 \<le> spill_count c then
                       fail_c ''ERR_MAX_VARS_EXCEEDED'' c
                     else
                       give 255 ((new_var name mutable c)\<lparr>var_regs := (var_regs c)[i := 255],
                         var_spill := (var_spill c)[i := True],
                         var_spill_slot := (var_spill_slot c)[i := of_nat (spill_count c)],
                         spill_count := spill_count c + 1\<rparr>)))"

definition resolve_var :: "Token \<Rightarrow> u8 comp" where
  "resolve_var tok =
     seqc (name_of tok) (\<lambda>name c.
       case fixed_register name of
         Some r \<Rightarrow> give r c
       | None \<Rightarrow>
           (case param_position name c of
              Some p \<Rightarrow> give (param_regs ! p) c
            | None \<Rightarrow>
                (case var_position name c of
                   Some i \<Rightarrow> give (var_regs c ! i) c
                 | None \<Rightarrow>
                     if 13 \<le> var_count c then fail_c ''ERR_MAX_VARS_EXCEEDED'' c
                     else give (of_nat (1 + var_count c)) (new_var name True c))))"

definition check_var_mutation :: "Token \<Rightarrow> unit comp" where
  "check_var_mutation tok =
     seqc (name_of tok) (\<lambda>name c.
       if take 1 name = bytes ''#'' \<or> take 2 name = bytes ''$r'' then give () c
       else case var_position name c of
              Some i \<Rightarrow> ensure_c (var_mut c ! i) ''ERR_MUTABILITY_VIOLATION'' c
            | None \<Rightarrow> give () c)"

section \<open>Ownership of hardware handles\<close>

definition is_handle :: "u8 \<Rightarrow> bool" where
  "is_handle r \<longleftrightarrow> 16 \<le> r \<and> r \<le> 19"

definition handle_slot :: "u8 \<Rightarrow> nat" where
  "handle_slot r = unat r - 16"

definition handle :: "u8 \<Rightarrow> Compiler \<Rightarrow> Typestate" where
  "handle r c = handle_states c ! handle_slot r"

definition set_handle :: "u8 \<Rightarrow> Typestate \<Rightarrow> Compiler \<Rightarrow> Compiler" where
  "set_handle r t c = c\<lparr>handle_states := (handle_states c)[handle_slot r := t]\<rparr>"

definition check_hw_assign_pre :: "u8 \<Rightarrow> (nat \<times> ResourceKind) option comp" where
  "check_hw_assign_pre var_reg c =
     (if \<not> is_handle var_reg then give None c
      else case handle var_reg c of
             Captured _ _ _ \<Rightarrow> fail_c ''ERR_LINEAR_OVERWRITE'' c
           | _ \<Rightarrow>
               if peek_kind c = TkHardwareIdent then
                 (case resolve_var (peek c) c of
                    Some (Ok (src_reg, c')) \<Rightarrow>
                      if is_handle src_reg then
                        (case handle src_reg c' of
                           Moved _ _ \<Rightarrow> fail_c ''ERR_RESOURCE_USE_AFTER_MOVE'' c'
                         | Unallocated \<Rightarrow> fail_c ''ERR_LINEAR_USE_BEFORE_ALLOC'' c'
                         | Captured _ _ k \<Rightarrow> give (Some (handle_slot src_reg, k)) c'
                         | _ \<Rightarrow> fail_c ''ERR_RESOURCE_USE_AFTER_MOVE'' c')
                      else give None c'
                  | Some (Err _) \<Rightarrow> give None c
                  | Some Panic \<Rightarrow> Some Panic
                  | None \<Rightarrow> None)
               else give None c)"

definition apply_hw_assign_post :: "u8 \<Rightarrow> Token \<Rightarrow> (nat \<times> ResourceKind) option \<Rightarrow> unit comp" where
  "apply_hw_assign_post var_reg ident moved_from =
     change (\<lambda>c.
       if \<not> is_handle var_reg then c
       else let held = Captured (tok_line ident) (tok_col ident)
            in case moved_from of
                 Some (src_slot, k) \<Rightarrow>
                   set_handle var_reg (held k)
                     (c\<lparr>handle_states := (handle_states c)[src_slot := Moved (tok_line ident) (tok_col ident)]\<rparr>)
               | None \<Rightarrow> set_handle var_reg (held HardwareFrame) c)"

text \<open>The ways a handle is given up: by sending it and by releasing it.\<close>

definition send_handle :: "u8 \<Rightarrow> unit comp" where
  "send_handle r c =
     (case handle r c of
        Unallocated \<Rightarrow> fail_c ''ERR_LINEAR_USE_BEFORE_ALLOC'' c
      | Moved _ _ \<Rightarrow> fail_c ''ERR_RESOURCE_USE_AFTER_MOVE'' c
      | Captured _ _ _ \<Rightarrow> give () (set_handle r Sent c)
      | _ \<Rightarrow> fail_c ''ERR_LINEAR_DOUBLE_SEND'' c)"

definition release_handle :: "u8 \<Rightarrow> unit comp" where
  "release_handle r c =
     (case handle r c of
        Unallocated \<Rightarrow> fail_c ''ERR_LINEAR_USE_BEFORE_ALLOC'' c
      | Moved _ _ \<Rightarrow> fail_c ''ERR_RESOURCE_USE_AFTER_MOVE'' c
      | Captured _ _ _ \<Rightarrow> give () (set_handle r Dropped c)
      | _ \<Rightarrow> fail_c ''ERR_RESOURCE_DOUBLE_RELEASE'' c)"

section \<open>Runtime modules\<close>

definition required_runtime :: "native \<Rightarrow> u16" where
  "required_runtime f =
     (if f \<in> {NATIVE_PRINT, NATIVE_PRINTLN} then RUNTIME_TINY
      else if f \<in> {NATIVE_MATH_MIN, NATIVE_MATH_MAX, NATIVE_MATH_ABS, NATIVE_MATH_CLAMP,
                   NATIVE_BIT_POPCNT, NATIVE_BIT_LZCNT, NATIVE_CRC32} then RUNTIME_MATH
      else if f \<in> {NATIVE_FIX_TO_FIX, NATIVE_FIX_TO_I64, NATIVE_FIX_MUL, NATIVE_FIX_DIV} then RUNTIME_FIX
      else if f \<in> {NATIVE_SYS_TSC, NATIVE_CORE_ID, NATIVE_TSC_FREQ, NATIVE_UPTIME_NS,
                   NATIVE_BUSY_WAIT, NATIVE_RING_DEPTH} then RUNTIME_SYS
      else if f \<in> {NATIVE_NET_RTT, NATIVE_NET_SET_RATE, NATIVE_NET_SEND} then RUNTIME_NET
      else if f \<in> {NATIVE_VRAM_READ, NATIVE_VRAM_WRITE} then RUNTIME_VRAM
      else if f = NATIVE_GPU_CAPTURE then RUNTIME_GPU
      else if f \<in> {NATIVE_TERM_RAW, NATIVE_TERM_READ_KEY, NATIVE_TERM_SIZE} then RUNTIME_TERM
      else if f \<in> {NATIVE_FILE_READ, NATIVE_FILE_WRITE, NATIVE_FILE_EXISTS} then RUNTIME_FILE
      else RUNTIME_CORE)"

definition check_intrinsic_runtime :: "native \<Rightarrow> unit comp" where
  "check_intrinsic_runtime f c =
     ensure_c (\<not> has_explicit_imports c \<or> imported_runtimes c AND required_runtime f \<noteq> 0)
       ''ERR_RUNTIME_NOT_IMPORTED'' c"

end
