(* ===== verification/CompDecl.thy ===== *)
theory CompDecl
  imports CompState
begin

text \<open>
  Declarations (\<^verbatim>\<open>pulselang-core/src/compiler.rs\<close>): arrays and their pool sizes, views, structs,
  enums and constant tables. A loop over tokens takes the number of rounds it may make; each
  round consumes a token, so that the number of tokens is always enough.
\<close>

abbreviation sym :: "symbol \<Rightarrow> TokenKind" where
  "sym s \<equiv> TkSymbol s"

text \<open>The condition \<^verbatim>\<open>peek != k && peek != Eof\<close> of the loops, negated.\<close>

definition closes :: "symbol \<Rightarrow> Compiler \<Rightarrow> bool" where
  "closes s c \<longleftrightarrow> peek_kind c = sym s \<or> peek_kind c = TkEof"

section \<open>Arrays\<close>

definition declare_array :: "Token \<Rightarrow> nat \<Rightarrow> u8 comp" where
  "declare_array tok len c =
     (let name = name_or_empty tok c;
          n = length (c_arrays c);
          total = total_array_elements c
      in if max_arrays c \<le> n \<or> 16 \<le> n then fail_c ''ERR_MAX_ARRAYS_EXCEEDED'' c
         else if max_elements c < total + len \<or> 1024 < total + len then fail_c ''ERR_ARRAY_CAPACITY_EXCEEDED'' c
         else if 8 \<le> n then crash c
         else give (of_nat n)
           (c\<lparr>c_arrays := c_arrays c @
                [\<lparr>arr_name = take 16 name, arr_id = of_nat n, arr_base = of_nat total, arr_len = of_nat len\<rparr>],
             total_array_elements := total + len\<rparr>))"

definition pool_limit :: "u8 list \<Rightarrow> nat \<Rightarrow> Compiler \<Rightarrow> Compiler" where
  "pool_limit name val c =
     (if name = bytes ''elements'' \<or> name = bytes ''capacity'' then c\<lparr>max_elements := min val 1024\<rparr>
      else if name = bytes ''arrays'' then c\<lparr>max_arrays := min val 16\<rparr>
      else if name = bytes ''structs'' then c\<lparr>max_struct_defs := min val 16, max_struct_insts := min val 16\<rparr>
      else if name = bytes ''fields'' then c\<lparr>max_struct_fields := min val 1024\<rparr>
      else if name = bytes ''tables'' then c\<lparr>max_const_tables := min val 16\<rparr>
      else c)"

definition pool_entry :: "Token \<Rightarrow> unit comp" where
  "pool_entry tok =
     (case kind tok of
        TkNumber n \<Rightarrow> change (\<lambda>c. if 0 < sint n then c\<lparr>max_elements := min (unat n) 1024\<rparr> else c)
      | TkIdent \<Rightarrow>
          seqc (name_of tok) (\<lambda>name.
          thenc (skip_c (sym SymColon)) (
          seqc advance (\<lambda>val_tok.
            case kind val_tok of
              TkNumber n \<Rightarrow> change (pool_limit name (if 0 < sint n then unat n else 1))
            | _ \<Rightarrow> give ())))
      | _ \<Rightarrow> give ())"

fun pool_entries :: "nat \<Rightarrow> unit comp" where
  "pool_entries 0 c = None"
| "pool_entries (Suc n) c =
     (if closes SymRParen c then give () c
      else seqc advance (\<lambda>tok.
           thenc (pool_entry tok) (
           seqc (match_token (sym SymComma)) (\<lambda>more. if more then pool_entries n else give ()))) c)"

definition declare_pool_size :: "nat \<Rightarrow> unit comp" where
  "declare_pool_size n =
     thenc (skip_c (sym SymLParen)) (
     thenc (pool_entries n) (
     thenc (skip_c (sym SymRParen)) (skip_c (sym SymSemi))))"

text \<open>The brackets of the literal that starts at the current token, \<open>toks\<close> being the rest.\<close>

fun count_elements :: "Token list \<Rightarrow> nat \<Rightarrow> nat \<Rightarrow> bool \<Rightarrow> nat" where
  "count_elements [] depth n has_elem = n"
| "count_elements (t # ts) depth n has_elem =
     (if kind t \<in> {sym SymLBracket, sym SymLParen, sym SymLBrace} then count_elements ts (depth + 1) n True
      else if kind t \<in> {sym SymRBracket, sym SymRParen, sym SymRBrace} then
        if depth = 1 then (if has_elem then n + 1 else n) else count_elements ts (depth - 1) n has_elem
      else if kind t = sym SymComma \<and> depth = 1 then count_elements ts depth (n + 1) False
      else if kind t = TkEof then n
      else count_elements ts depth n True)"

definition count_array_literal_elements :: "Compiler \<Rightarrow> nat" where
  "count_array_literal_elements c = count_elements (drop (current c) (c_tokens c)) 1 0 False"

section \<open>Views\<close>

definition declare_view :: "Token \<Rightarrow> u8 \<Rightarrow> u8 \<Rightarrow> u16 \<Rightarrow> u16 \<Rightarrow> unit comp" where
  "declare_view tok arr base stride len =
     seqc (name_of tok) (\<lambda>name c.
       if 8 \<le> length (views c) then fail_c ''ERR_MAX_VIEWS_EXCEEDED'' c
       else
         let view = (\<lambda>s. \<lparr>view_name = s, view_arr_id = arr, base_reg = base, stride_imm = stride, len_imm = len\<rparr>)
         in case position (\<lambda>v. view_name v = name) (views c) of
              Some i \<Rightarrow> give () (c\<lparr>views := (views c)[i := view name]\<rparr>)
            | None \<Rightarrow> give () (c\<lparr>views := views c @ [view (take 16 name)]\<rparr>))"

section \<open>Structs\<close>

fun struct_fields :: "nat \<Rightarrow> StructFieldMeta list \<Rightarrow> StructFieldMeta list comp" where
  "struct_fields 0 fs c = None"
| "struct_fields (Suc n) fs c =
     (if closes SymRBrace c then give fs c
      else seqc advance (\<lambda>f_tok.
           thenc (ensure_c (kind f_tok = TkIdent) ''ERR_EXPECTED_FIELD_NAME'') (
           seqc (name_of f_tok) (\<lambda>f_name.
           thenc (ensure_c (length fs < 8) ''ERR_MAX_FIELDS_EXCEEDED'') (
           thenc (expect (sym SymColon) ''ERR_EXPECTED_COLON'') (
           thenc advance (
             let fs' = fs @ [\<lparr>field_name = take 16 f_name, field_offset = of_nat (length fs)\<rparr>]
             in seqc (match_token (sym SymComma)) (\<lambda>more. if more then struct_fields n fs' else give fs'))))))) c)"

definition declare_struct_def :: "nat \<Rightarrow> unit comp" where
  "declare_struct_def n =
     seqc advance (\<lambda>name_tok.
     thenc (ensure_c (kind name_tok = TkIdent) ''ERR_EXPECTED_STRUCT_NAME'') (
     seqc (name_of name_tok) (\<lambda>s_name.
     seqc (look struct_defs) (\<lambda>defs.
     thenc (ensure_c (length defs < 8) ''ERR_MAX_STRUCTS_EXCEEDED'') (
     thenc (ensure_c (s_name \<notin> def_name ` set defs) ''ERR_STRUCT_REDEFINED'') (
     thenc (expect (sym SymLBrace) ''ERR_EXPECTED_LBRACE'') (
     seqc (struct_fields n []) (\<lambda>fs.
     thenc (expect (sym SymRBrace) ''ERR_EXPECTED_RBRACE'') (
     thenc (skip_c (sym SymSemi)) (
     change (\<lambda>c. c\<lparr>struct_defs := struct_defs c @ [\<lparr>def_name = take 16 s_name, def_fields = fs\<rparr>]\<rparr>)))))))))))"

definition declare_struct_inst :: "Token \<Rightarrow> Token \<Rightarrow> u8 comp" where
  "declare_struct_inst var_tok type_tok =
     seqc (name_of var_tok) (\<lambda>var_name.
     seqc (name_of type_tok) (\<lambda>type_name c.
       case position (\<lambda>d. def_name d = type_name) (struct_defs c) of
         None \<Rightarrow> fail_c ''ERR_UNKNOWN_STRUCT_TYPE'' c
       | Some d \<Rightarrow>
           let k = length (struct_insts c);
               count = length (def_fields (struct_defs c ! d));
               total = total_struct_fields c
           in if 8 \<le> k then fail_c ''ERR_MAX_STRUCT_INSTS_EXCEEDED'' c
              else if 256 < total + count then fail_c ''ERR_STRUCT_CAPACITY_EXCEEDED'' c
              else thenc (emit_inst PX64_OP_STRUCT_DEF (of_nat k) (of_nat count) 0) (give (of_nat k))
                (c\<lparr>total_struct_fields := total + count,
                   struct_insts := struct_insts c @
                     [\<lparr>inst_var_name = take 16 var_name, struct_def_idx = d, inst_id = of_nat k,
                       inst_base_slot = of_nat total, inst_field_count = of_nat count\<rparr>]\<rparr>)))"

section \<open>Enums\<close>

fun enum_variants :: "nat \<Rightarrow> u8 list list \<Rightarrow> u8 list list comp" where
  "enum_variants 0 vs c = None"
| "enum_variants (Suc n) vs c =
     (if closes SymRBrace c then give vs c
      else seqc advance (\<lambda>v_tok.
           thenc (ensure_c (kind v_tok = TkIdent) ''ERR_EXPECTED_VARIANT_NAME'') (
           seqc (name_of v_tok) (\<lambda>v_name.
           thenc (ensure_c (length vs < MAX_ENUM_VARIANTS) ''ERR_MAX_VARIANTS_EXCEEDED'') (
           thenc (ensure_c (v_name \<notin> set vs) ''ERR_DUPLICATE_ENUM_VARIANT'') (
           seqc (match_token (sym SymComma)) (\<lambda>comma.
           thenc (if comma then give () else skip_c (sym SymSemi)) (
             enum_variants n (vs @ [take 32 v_name])))))))) c)"

definition declare_enum_def :: "nat \<Rightarrow> unit comp" where
  "declare_enum_def n =
     seqc advance (\<lambda>name_tok.
     thenc (ensure_c (kind name_tok = TkIdent) ''ERR_EXPECTED_ENUM_NAME'') (
     seqc (name_of name_tok) (\<lambda>e_name.
     seqc (look enums) (\<lambda>es.
     thenc (ensure_c (length es < MAX_ENUMS) ''ERR_MAX_ENUMS_EXCEEDED'') (
     thenc (ensure_c (e_name \<notin> enum_name ` set es) ''ERR_DUPLICATE_ENUM_NAME'') (
     thenc (expect (sym SymLBrace) ''ERR_EXPECTED_LBRACE'') (
     seqc (enum_variants n []) (\<lambda>vs.
     thenc (expect (sym SymRBrace) ''ERR_EXPECTED_RBRACE'') (
     thenc (skip_c (sym SymSemi)) (
     change (\<lambda>c. c\<lparr>enums := enums c @ [\<lparr>enum_name = take 32 e_name, variants = vs\<rparr>]\<rparr>)))))))))))"

section \<open>Constant tables\<close>

text \<open>\<^verbatim>\<open>-n\<close>, which overflows for the smallest number.\<close>

definition negate :: "bool \<Rightarrow> i64 \<Rightarrow> i64 comp" where
  "negate checked n = (if checked \<and> n = 0x8000000000000000 then crash else give (- n))"

definition table_element :: "bool \<Rightarrow> i64 comp" where
  "table_element checked =
     seqc (match_token (sym SymMinus)) (\<lambda>is_neg.
     seqc advance (\<lambda>elem_tok.
       case kind elem_tok of
         TkNumber n \<Rightarrow> if is_neg then negate checked n else give n
       | TkTimeLiteral ns \<Rightarrow> give ns
       | _ \<Rightarrow> fail_c ''ERR_TABLE_NON_CONSTANT_ELEMENT''))"

fun table_elements :: "bool \<Rightarrow> nat \<Rightarrow> nat \<Rightarrow> nat comp" where
  "table_elements checked 0 len c = None"
| "table_elements checked (Suc n) len c =
     (if closes SymRBracket c then give len c
      else seqc (table_element checked) (\<lambda>val.
           thenc (append_table_constant val) (
           seqc (match_token (sym SymComma)) (\<lambda>more.
             if more then table_elements checked n (len + 1) else give (len + 1)))) c)"

definition table_length :: "nat comp" where
  "table_length =
     seqc advance (\<lambda>len_tok.
       case kind len_tok of
         TkNumber n \<Rightarrow> if 0 < sint n \<and> sint n \<le> 64 then give (unat n) else fail_c ''ERR_TABLE_INVALID_LEN''
       | _ \<Rightarrow> fail_c ''ERR_TABLE_INVALID_LEN'')"

definition declare_const_table :: "bool \<Rightarrow> nat \<Rightarrow> unit comp" where
  "declare_const_table checked n =
     (seqc advance (\<lambda>name_tok.
       thenc (ensure_c (kind name_tok = TkIdent) ''ERR_EXPECTED_CONST_NAME'') (
       seqc (name_of name_tok) (\<lambda>t_name.
       seqc (look const_tables) (\<lambda>ts.
       thenc (ensure_c (length ts < 8) ''ERR_MAX_TABLES_EXCEEDED'') (
       thenc (ensure_c (t_name \<notin> tbl_name ` set ts) ''ERR_TABLE_REDEFINED'') (
       thenc (expect (sym SymColon) ''ERR_EXPECTED_COLON'') (
       thenc (expect (sym SymLBracket) ''ERR_EXPECTED_LBRACKET'') (
       thenc advance (
       thenc (expect (sym SymSemi) ''ERR_TABLE_SYNTAX'') (
       seqc table_length (\<lambda>expected_len.
       thenc (expect (sym SymRBracket) ''ERR_TABLE_SYNTAX'') (
       thenc (expect (sym SymEq) ''ERR_EXPECTED_EQ'') (
       thenc (expect (sym SymLBracket) ''ERR_EXPECTED_LBRACKET'') (
       seqc (look (\<lambda>c. length (c_const_pool c))) (\<lambda>pool_len.
       thenc (ensure_c (pool_len + expected_len \<le> 256) ''ERR_CONST_POOL_EXCEEDED'') (
       seqc (table_elements checked n 0) (\<lambda>actual_len.
       thenc (ensure_c (actual_len = expected_len) ''ERR_TABLE_LENGTH_MISMATCH'') (
       thenc (expect (sym SymRBracket) ''ERR_EXPECTED_RBRACKET'') (
       thenc (skip_c (sym SymSemi)) (
       thenc (change (\<lambda>c. c\<lparr>const_tables := const_tables c @
       [\<lparr>tbl_name = take 16 t_name, tbl_id = of_nat (length ts), tbl_base_idx = of_nat pool_len,
         tbl_len = of_nat expected_len\<rparr>]\<rparr>)) (
       emit PX64_OP_TBL_DEF (of_nat (length ts)) (of_nat pool_len) (of_nat expected_len)))))))))))))))))))))))"

end
