(* ===== verification/CompExpr.thy ===== *)
theory CompExpr
  imports CompDecl VmOps
begin

text \<open>
  Expressions (\<^verbatim>\<open>pulselang-core/src/compiler.rs\<close>, from \<^verbatim>\<open>expression\<close> down to \<^verbatim>\<open>primary\<close>, and the
  combinators over array views). An expression is compiled into a destination register; a level
  that finds a constant returns it instead and leaves loading it to the level above. The levels
  are functions of the parsers they call, \<open>prim\<close>, \<open>tern\<close>, \<open>ex\<close> and \<open>stmt\<close>; the recursion
  through them is closed with the statements.
\<close>

section \<open>Binary operators\<close>

text \<open>\<^verbatim>\<open>if let Some(a) = val { self.emit_const(r, a)?; }\<close>\<close>

definition load_const :: "u8 \<Rightarrow> i64 option \<Rightarrow> unit comp" where
  "load_const r val = (case val of Some a \<Rightarrow> emit_const r a | None \<Rightarrow> give ())"

definition load_both :: "u8 \<Rightarrow> u8 \<Rightarrow> i64 option \<Rightarrow> i64 option \<Rightarrow> unit comp" where
  "load_both dst rhs_reg val rhs_val = thenc (load_const dst val) (load_const rhs_reg rhs_val)"

text \<open>Two constants are folded; otherwise both operands are loaded and \<open>m\<close> is emitted.\<close>

definition fold_or :: "(i64 \<Rightarrow> i64 \<Rightarrow> i64 comp) \<Rightarrow> unit comp \<Rightarrow> u8 \<Rightarrow> u8 \<Rightarrow> i64 option \<Rightarrow> i64 option \<Rightarrow> i64 option comp" where
  "fold_or f m dst rhs_reg val rhs_val =
     (case (val, rhs_val) of
        (Some a, Some b) \<Rightarrow> seqc (f a b) (\<lambda>v. give (Some v))
      | _ \<Rightarrow> (thenc (load_both dst rhs_reg val rhs_val) (
        thenc m (
        give None))))"

text \<open>
  What a level does with an operator: its kind, the scales of both sides, the registers and the
  constants.
\<close>

type_synonym combine =
  "TokenKind \<Rightarrow> u8 option \<Rightarrow> u8 option \<Rightarrow> u8 \<Rightarrow> u8 \<Rightarrow> i64 option \<Rightarrow> i64 option \<Rightarrow> i64 option comp"

fun level_loop :: "nat \<Rightarrow> (TokenKind \<Rightarrow> bool) \<Rightarrow> combine \<Rightarrow> (u8 \<Rightarrow> i64 option comp) \<Rightarrow> u8 \<Rightarrow> i64 option \<Rightarrow> i64 option comp" where
  "level_loop 0 is_op comb next dst val c = None"
| "level_loop (Suc n) is_op comb next dst val c =
     (if is_op (peek_kind c) then
        (seqc advance (\<lambda>op.
          seqc (look current_expr_fixed_scale) (\<lambda>lhs_scale.
          seqc alloc_temp (\<lambda>rhs_reg.
          seqc (next rhs_reg) (\<lambda>rhs_val.
          seqc (look current_expr_fixed_scale) (\<lambda>rhs_scale.
          seqc (comb (kind op) lhs_scale rhs_scale dst rhs_reg val rhs_val) (\<lambda>val'.
          thenc (free_temp rhs_reg) (
          level_loop n is_op comb next dst val')))))))) c
      else give val c)"

definition level :: "nat \<Rightarrow> (TokenKind \<Rightarrow> bool) \<Rightarrow> combine \<Rightarrow> (u8 \<Rightarrow> i64 option comp) \<Rightarrow> u8 \<Rightarrow> i64 option comp" where
  "level n is_op comb next dst = seqc (next dst) (level_loop n is_op comb next dst)"

text \<open>An operator that is one instruction.\<close>

definition simple_op :: "(TokenKind \<Rightarrow> i64 \<Rightarrow> i64 \<Rightarrow> i64) \<Rightarrow> (TokenKind \<Rightarrow> px64_op) \<Rightarrow> combine" where
  "simple_op f opc k s1 s2 dst rhs_reg =
     fold_or (\<lambda>a b. give (f k a b)) (emit (opc k) dst dst rhs_reg) dst rhs_reg"

text \<open>Logical operators: both sides are evaluated and compared with zero.\<close>

definition emit_logic :: "px64_op \<Rightarrow> u8 \<Rightarrow> u8 \<Rightarrow> unit comp" where
  "emit_logic op dst rhs_reg =
     (seqc alloc_temp (\<lambda>zero_reg.
       thenc (emit_const zero_reg 0) (
       thenc (emit PX64_OP_CMP_NE dst dst zero_reg) (
       seqc alloc_temp (\<lambda>rhs_bool.
       thenc (emit PX64_OP_CMP_NE rhs_bool rhs_reg zero_reg) (
       thenc (emit op dst dst rhs_bool) (
       thenc (free_temp rhs_bool) (
       free_temp zero_reg))))))))"

definition logic_op :: "(bool \<Rightarrow> bool \<Rightarrow> bool) \<Rightarrow> px64_op \<Rightarrow> combine" where
  "logic_op f op k s1 s2 dst rhs_reg =
     fold_or (\<lambda>a b. give (of_bool_i64 (f (a \<noteq> 0) (b \<noteq> 0)))) (emit_logic op dst rhs_reg) dst rhs_reg"

definition set_scale :: "u8 option \<Rightarrow> unit comp" where
  "set_scale s = change (\<lambda>c. c\<lparr>current_expr_fixed_scale := s\<rparr>)"

definition term_op :: combine where
  "term_op k s1 s2 dst rhs_reg val rhs_val =
     (thenc ((case (s1, s2) of
        (Some a, Some b) \<Rightarrow> if a \<noteq> b then fail_c ''ERR_FIXED_SCALE_MISMATCH'' else set_scale (Some a)
      | _ \<Rightarrow> give ())) (
       fold_or (\<lambda>a b. give (if k = sym SymPlus then a + b else a - b))
       (emit (if k = sym SymPlus then PX64_OP_ADD else PX64_OP_SUB) dst dst rhs_reg) dst rhs_reg val rhs_val))"

text \<open>A shift of \<open>dst\<close> by the scale, through a temporary.\<close>

definition emit_shift :: "px64_op \<Rightarrow> u8 \<Rightarrow> u8 \<Rightarrow> unit comp" where
  "emit_shift op dst s =
     (seqc alloc_temp (\<lambda>shift_reg.
       thenc (emit_imm PX64_OP_MOV_IMM shift_reg (ucast s)) (
       thenc (emit op dst dst shift_reg) (
       free_temp shift_reg))))"

definition emit_mul :: "u8 option \<Rightarrow> u8 option \<Rightarrow> u8 \<Rightarrow> u8 \<Rightarrow> unit comp" where
  "emit_mul s1 s2 dst rhs_reg =
     (case (s1, s2) of
        (Some a, Some b) \<Rightarrow>
          if a \<noteq> b then fail_c ''ERR_FIXED_SCALE_MISMATCH''
          else (thenc (emit PX64_OP_MUL dst dst rhs_reg) (
            thenc (emit_shift PX64_OP_SHR dst a) (
            set_scale (Some a))))
      | (None, None) \<Rightarrow> (thenc (emit PX64_OP_MUL dst dst rhs_reg) (
        set_scale None))
      | _ \<Rightarrow> (thenc (emit PX64_OP_MUL dst dst rhs_reg) (
        thenc (emit_shift PX64_OP_SHR dst (case s1 of Some s \<Rightarrow> s | None \<Rightarrow> the s2)) (
        set_scale None))))"

definition emit_div :: "u8 option \<Rightarrow> u8 option \<Rightarrow> u8 \<Rightarrow> u8 \<Rightarrow> unit comp" where
  "emit_div s1 s2 dst rhs_reg =
     (case (s1, s2) of
        (Some a, Some b) \<Rightarrow>
          if a \<noteq> b then fail_c ''ERR_FIXED_SCALE_MISMATCH''
          else (thenc (emit_shift PX64_OP_SHL dst a) (
            thenc (emit PX64_OP_DIV dst dst rhs_reg) (
            set_scale (Some a))))
      | _ \<Rightarrow> (thenc (emit PX64_OP_DIV dst dst rhs_reg) (
        set_scale None)))"

definition emit_mod :: "u8 \<Rightarrow> u8 \<Rightarrow> unit comp" where
  "emit_mod dst rhs_reg = thenc (emit PX64_OP_MOD dst dst rhs_reg) (set_scale None)"

definition fold_factor :: "TokenKind \<Rightarrow> i64 \<Rightarrow> i64 \<Rightarrow> i64 comp" where
  "fold_factor k a b =
     (if k = sym SymStar then give (a * b)
      else if b = 0 then fail_c ''ERR_DIV_BY_ZERO''
      else if k = sym SymSlash then give (wrapping_div a b)
      else give (wrapping_rem a b))"

definition factor_op :: combine where
  "factor_op k s1 s2 dst rhs_reg =
     fold_or (fold_factor k)
       (if k = sym SymStar then emit_mul s1 s2 dst rhs_reg
        else if k = sym SymSlash then emit_div s1 s2 dst rhs_reg
        else emit_mod dst rhs_reg) dst rhs_reg"

definition shift_fold :: "TokenKind \<Rightarrow> i64 \<Rightarrow> i64 \<Rightarrow> i64" where
  "shift_fold k a b =
     (if k = sym SymShl then wrapping_shl a (unat (b AND 63)) else drop_bit (unat (b AND 63)) a)"

definition comparison_fold :: "TokenKind \<Rightarrow> i64 \<Rightarrow> i64 \<Rightarrow> i64" where
  "comparison_fold k a b =
     of_bool_i64 (if k = sym SymLt then sint a < sint b else if k = sym SymLtEq then sint a \<le> sint b
            else if k = sym SymGt then sint a > sint b else sint a \<ge> sint b)"

definition comparison_code :: "TokenKind \<Rightarrow> px64_op" where
  "comparison_code k =
     (if k = sym SymLt then PX64_OP_CMP_LT else if k = sym SymLtEq then PX64_OP_CMP_LE
      else if k = sym SymGt then PX64_OP_CMP_GT else PX64_OP_CMP_GE)"

definition factor :: "nat \<Rightarrow> (u8 \<Rightarrow> i64 option comp) \<Rightarrow> u8 \<Rightarrow> i64 option comp" where
  "factor n = level n (\<lambda>k. k \<in> {sym SymStar, sym SymSlash, sym SymPercent}) factor_op"

definition term_c :: "nat \<Rightarrow> (u8 \<Rightarrow> i64 option comp) \<Rightarrow> u8 \<Rightarrow> i64 option comp" where
  "term_c n prim = level n (\<lambda>k. k \<in> {sym SymPlus, sym SymMinus}) term_op (factor n prim)"

definition shift_c :: "nat \<Rightarrow> (u8 \<Rightarrow> i64 option comp) \<Rightarrow> u8 \<Rightarrow> i64 option comp" where
  "shift_c n prim =
     level n (\<lambda>k. k \<in> {sym SymShl, sym SymShr})
       (simple_op shift_fold (\<lambda>k. if k = sym SymShl then PX64_OP_SHL else PX64_OP_SHR)) (term_c n prim)"

definition bitwise_and :: "nat \<Rightarrow> (u8 \<Rightarrow> i64 option comp) \<Rightarrow> u8 \<Rightarrow> i64 option comp" where
  "bitwise_and n prim =
     level n (\<lambda>k. k = sym SymAmp) (simple_op (\<lambda>k a b. a AND b) (\<lambda>k. PX64_OP_AND)) (shift_c n prim)"

definition bitwise_xor :: "nat \<Rightarrow> (u8 \<Rightarrow> i64 option comp) \<Rightarrow> u8 \<Rightarrow> i64 option comp" where
  "bitwise_xor n prim =
     level n (\<lambda>k. k = sym SymCaret) (simple_op (\<lambda>k a b. a XOR b) (\<lambda>k. PX64_OP_XOR)) (bitwise_and n prim)"

definition bitwise_or :: "nat \<Rightarrow> (u8 \<Rightarrow> i64 option comp) \<Rightarrow> u8 \<Rightarrow> i64 option comp" where
  "bitwise_or n prim =
     level n (\<lambda>k. k = sym SymPipeSingle) (simple_op (\<lambda>k a b. a OR b) (\<lambda>k. PX64_OP_OR)) (bitwise_xor n prim)"

definition comparison :: "nat \<Rightarrow> (u8 \<Rightarrow> i64 option comp) \<Rightarrow> u8 \<Rightarrow> i64 option comp" where
  "comparison n prim =
     level n (\<lambda>k. k \<in> {sym SymLt, sym SymLtEq, sym SymGt, sym SymGtEq})
       (simple_op comparison_fold comparison_code) (bitwise_or n prim)"

definition equality :: "nat \<Rightarrow> (u8 \<Rightarrow> i64 option comp) \<Rightarrow> u8 \<Rightarrow> i64 option comp" where
  "equality n prim =
     level n (\<lambda>k. k \<in> {sym SymEqEq, sym SymNotEq})
       (simple_op (\<lambda>k a b. of_bool_i64 (if k = sym SymEqEq then a = b else a \<noteq> b))
          (\<lambda>k. if k = sym SymEqEq then PX64_OP_CMP_EQ else PX64_OP_CMP_NE)) (comparison n prim)"

definition logic_and :: "nat \<Rightarrow> (u8 \<Rightarrow> i64 option comp) \<Rightarrow> u8 \<Rightarrow> i64 option comp" where
  "logic_and n prim = level n (\<lambda>k. k = sym SymAnd) (logic_op (\<and>) PX64_OP_AND) (equality n prim)"

definition logic_or :: "nat \<Rightarrow> (u8 \<Rightarrow> i64 option comp) \<Rightarrow> u8 \<Rightarrow> i64 option comp" where
  "logic_or n prim = level n (\<lambda>k. k = sym SymOrOp) (logic_op (\<or>) PX64_OP_OR) (logic_and n prim)"

section \<open>The conditional operator and pipes\<close>

fun block_c :: "nat \<Rightarrow> unit comp \<Rightarrow> unit comp" where
  "block_c 0 stmt c = None"
| "block_c (Suc n) stmt c = (if closes SymRBrace c then give () c else thenc stmt (block_c n stmt) c)"

text \<open>Statements up to the closing brace.\<close>

definition braced :: "nat \<Rightarrow> unit comp \<Rightarrow> unit comp" where
  "braced n stmt = thenc (block_c n stmt) (skip_c (sym SymRBrace))"

definition branch :: "nat \<Rightarrow> unit comp \<Rightarrow> unit comp \<Rightarrow> unit comp" where
  "branch n stmt other = seqc (match_token (sym SymLBrace)) (\<lambda>b. if b then braced n stmt else other)"

definition ternary_body ::
  "nat \<Rightarrow> (u8 \<Rightarrow> i64 option comp) \<Rightarrow> (u8 \<Rightarrow> unit comp) \<Rightarrow> unit comp \<Rightarrow> u8 \<Rightarrow> i64 option comp" where
  "ternary_body n prim ex stmt dst =
     (seqc (logic_or n prim dst) (\<lambda>val.
       seqc (match_token (sym SymQuestion)) (\<lambda>q.
       if q then (thenc (load_const dst val) (
         seqc (emit_inst PX64_OP_JZ dst 0 0) (\<lambda>jz_pos.
         thenc (branch n stmt (ex dst)) (
         seqc (match_token (sym SymColon)) (\<lambda>colon.
         if colon then (seqc (emit_inst PX64_OP_JMP 0 0 0) (\<lambda>jmp_end_pos.
           thenc (patch_here jz_pos) (
           thenc (branch n stmt (ex dst)) (
           thenc (patch_here jmp_end_pos) (
           give None)))))
       else thenc (patch_here jz_pos) (give None))))))
     else give val)))"

definition pipe_target :: "u8 \<Rightarrow> u8 list \<Rightarrow> native comp" where
  "pipe_target dst name =
     (if name \<in> {bytes ''@send'', bytes ''net.send''} then
        thenc (if is_handle dst then send_handle dst else give ()) (give NATIVE_NET_SEND)
      else if name \<in> {bytes ''@release'', bytes ''@drop''} then
        thenc (if is_handle dst then release_handle dst else give ()) (give NATIVE_DROP)
      else if name \<in> {bytes ''@print'', bytes ''print''} then give NATIVE_PRINT
      else if name \<in> {bytes ''@println'', bytes ''println''} then give NATIVE_PRINTLN
      else if name \<in> {bytes ''@rate'', bytes ''net.set_rate''} then give NATIVE_NET_SET_RATE
      else fail_c ''ERR_INVALID_PIPE_TARGET'')"

fun pipes :: "nat \<Rightarrow> u8 \<Rightarrow> unit comp" where
  "pipes 0 dst c = None"
| "pipes (Suc n) dst c =
     (seqc (match_token (sym SymPipe)) (\<lambda>p.
       if p then (seqc (look peek_kind) (\<lambda>k.
         thenc (if k = TkIntrinsicIdent \<or> k = TkIdent then (seqc advance (\<lambda>tok.
           seqc (name_of tok) (\<lambda>name.
           seqc (pipe_target dst name) (\<lambda>func_id.
           thenc (check_intrinsic_runtime func_id) (
           emit PX64_OP_CALL_NAT dst (native_code func_id) dst))))) else give ()) (
         pipes n dst)))
     else give ())) c"

definition expression_body :: "nat \<Rightarrow> (u8 \<Rightarrow> i64 option comp) \<Rightarrow> u8 \<Rightarrow> unit comp" where
  "expression_body n tern dst =
     (seqc (tern dst) (\<lambda>val.
       thenc (load_const dst val) (
       pipes n dst)))"

end
