(* ===== verification/CompPrim.thy ===== *)
theory CompPrim
  imports CompExpr
begin

text \<open>
  Views, combinators and primary expressions (\<^verbatim>\<open>pulselang-core/src/compiler.rs\<close>,
  \<^verbatim>\<open>parse_view_source\<close> to \<^verbatim>\<open>compile_reduce_to_reg\<close> and \<^verbatim>\<open>primary\<close>).
\<close>

section \<open>Views of arrays\<close>

definition view_of :: "u8 \<Rightarrow> u8 \<Rightarrow> u16 \<Rightarrow> u16 \<Rightarrow> ViewMeta" where
  "view_of arr base stride len =
     \<lparr>view_name = [], view_arr_id = arr, base_reg = base, stride_imm = stride, len_imm = len\<rparr>"

definition array_len :: "u8 \<Rightarrow> u16 comp" where
  "array_len arr c = (if unat arr < length (c_arrays c) then give (arr_len (c_arrays c ! unat arr)) c
     else if unat arr < 8 then give 0 c else crash c)"

definition is_view_intrinsic :: "u8 list \<Rightarrow> bool" where
  "is_view_intrinsic name \<longleftrightarrow> name \<in> {bytes ''@row'', bytes ''@col'', bytes ''@slice''}"

text \<open>A positive number, or the default.\<close>

definition size_or :: "nat \<Rightarrow> nat comp" where
  "size_or d =
     seqc advance (\<lambda>tok. give (case kind tok of TkNumber n \<Rightarrow> if 0 < sint n then unat n else d | _ \<Rightarrow> d))"

text \<open>\<^verbatim>\<open>MOV_IMM r, (v >> 8) as u8, (v & 0xff) as u8\<close>\<close>

definition move_imm :: "u8 \<Rightarrow> nat \<Rightarrow> unit comp" where
  "move_imm r v = emit PX64_OP_MOV_IMM r (of_nat (v div 256)) (of_nat (v mod 256))"

definition view_intrinsic :: "(u8 \<Rightarrow> unit comp) \<Rightarrow> u8 list \<Rightarrow> u8 \<Rightarrow> ViewMeta comp" where
  "view_intrinsic ex name base =
     (thenc advance (
       thenc (skip_c (sym SymLParen)) (
       seqc advance (\<lambda>arr_tok.
       seqc (lookup_array arr_tok) (\<lambda>arr.
       seqc (array_len arr) (\<lambda>total_len.
       thenc (skip_c (sym SymComma)) (
       thenc (ex base) (
       thenc (skip_c (sym SymComma)) (
       seqc (size_or (if name = bytes ''@slice'' then 1 else 3)) (\<lambda>size.
       thenc (skip_c (sym SymRParen)) (
       if name = bytes ''@row'' then (seqc alloc_temp (\<lambda>cols_reg.
         thenc (move_imm cols_reg size) (
         thenc (emit PX64_OP_MUL base base cols_reg) (
         thenc (free_temp cols_reg) (
         give (view_of arr base 1 (of_nat size)))))))
     else if name = bytes ''@col'' then give (view_of arr base (of_nat size) (of_nat (unat total_len div size)))
     else give (view_of arr base 1 (of_nat size)))))))))))))"

definition parse_view_source_to_reg :: "(u8 \<Rightarrow> unit comp) \<Rightarrow> u8 \<Rightarrow> ViewMeta comp" where
  "parse_view_source_to_reg ex base =
     (seqc (look peek) (\<lambda>tok.
       seqc ((if kind tok = TkIntrinsicIdent \<or> kind tok = TkIdent then name_of tok else give [])) (\<lambda>name.
       if is_view_intrinsic name then view_intrinsic ex name base
     else (thenc advance (
       seqc (lookup_view tok) (\<lambda>v.
       case v of
         Some view \<Rightarrow> give view
       | None \<Rightarrow> (seqc (lookup_array tok) (\<lambda>arr.
         seqc (array_len arr) (\<lambda>len.
         thenc (emit PX64_OP_MOV_IMM base 0 0) (
         give (view_of arr base 1 len)))))))))))"

text \<open>The view of a whole array takes its base from register 0.\<close>

definition parse_view_source :: "(u8 \<Rightarrow> unit comp) \<Rightarrow> ViewMeta comp" where
  "parse_view_source ex =
     (seqc (look peek) (\<lambda>tok.
       seqc (give (kind tok = TkVarIdent \<or> kind tok = TkIdent)) (\<lambda>named.
       seqc ((if named then name_of tok else give [])) (\<lambda>name.
       if named \<and> \<not> is_view_intrinsic name then (thenc advance (
         seqc (lookup_view tok) (\<lambda>v.
         case v of
         Some view \<Rightarrow> give view
       | None \<Rightarrow> (seqc (lookup_array tok) (\<lambda>arr.
         seqc (array_len arr) (\<lambda>len.
         give (view_of arr 0 1 len)))))))
     else (seqc alloc_temp (\<lambda>temp_base.
       parse_view_source_to_reg ex temp_base))))))"

section \<open>Combinators\<close>

text \<open>The counter and the bound of a loop over a view, and the test at its start.\<close>

definition loop_head :: "u16 \<Rightarrow> (u8 \<times> u8 \<times> nat \<times> u8 \<times> nat) comp" where
  "loop_head count =
     (seqc alloc_temp (\<lambda>loop_i.
       thenc (emit PX64_OP_MOV_IMM loop_i 0 0) (
       seqc alloc_temp (\<lambda>count_reg.
       thenc (move_imm count_reg (unat count)) (
       seqc (look (\<lambda>c. code_len c)) (\<lambda>loop_start_pc.
       seqc alloc_temp (\<lambda>cond_reg.
       thenc (emit PX64_OP_CMP_LT cond_reg loop_i count_reg) (
       seqc (emit_imm16 PX64_OP_JZ cond_reg 0) (\<lambda>jz_pc.
       give (loop_i, count_reg, loop_start_pc, cond_reg, jz_pc))))))))))"

definition loop_tail :: "u8 \<Rightarrow> nat \<Rightarrow> nat \<Rightarrow> unit comp" where
  "loop_tail loop_i loop_start_pc jz_pc =
     (thenc (emit PX64_OP_ADDI loop_i loop_i 1) (
       thenc (emit_imm PX64_OP_JMP 0 (of_nat loop_start_pc)) (
       patch_here jz_pc)))"

text \<open>The element of a view at the counter, in a new temporary.\<close>

definition load_element :: "ViewMeta \<Rightarrow> u8 \<Rightarrow> u8 comp" where
  "load_element v loop_i =
     (seqc alloc_temp (\<lambda>idx_reg.
       thenc (if stride_imm v = 1 then emit PX64_OP_ADD idx_reg (base_reg v) loop_i
     else (seqc alloc_temp (\<lambda>stride_reg.
       thenc (move_imm stride_reg (unat (stride_imm v))) (
       thenc (emit PX64_OP_MUL idx_reg loop_i stride_reg) (
       thenc (emit PX64_OP_ADD idx_reg idx_reg (base_reg v)) (
       free_temp stride_reg)))))) (
       seqc alloc_temp (\<lambda>elem_reg.
       thenc (emit PX64_OP_ARR_LOAD elem_reg (view_arr_id v) idx_reg) (
       thenc (free_temp idx_reg) (
       give elem_reg))))))"

definition apply_combinator :: "CombinatorFnTarget \<Rightarrow> bool \<Rightarrow> u8 \<Rightarrow> u8 \<Rightarrow> u8 \<Rightarrow> unit comp" where
  "apply_combinator target is_sum dst elem1_reg elem2_reg =
     (case target of
        UserDefined f \<Rightarrow> (thenc (emit PX64_OP_MOV_REG 7 elem1_reg 0) (
          thenc (emit PX64_OP_MOV_REG 6 elem2_reg 0) (
          thenc (free_temp elem2_reg) (
          thenc (free_temp elem1_reg) (
          thenc (emit_imm PX64_OP_CALL 0 (entry_pc f)) (
          if is_sum then emit PX64_OP_ADD dst dst 0 else emit PX64_OP_MOV_REG dst 0 0))))))
      | Builtin f \<Rightarrow> (thenc (emit PX64_OP_CALL_NAT elem1_reg (native_code f) elem1_reg) (
        thenc (free_temp elem2_reg) (
        thenc (if is_sum then emit PX64_OP_ADD dst dst elem1_reg else emit PX64_OP_MOV_REG dst elem1_reg 0) (
        free_temp elem1_reg)))))"

definition compile_zip_with_to_reg :: "u8 \<Rightarrow> ViewMeta \<Rightarrow> ViewMeta \<Rightarrow> u8 list \<Rightarrow> bool \<Rightarrow> unit comp" where
  "compile_zip_with_to_reg dst v1 v2 f_name is_sum =
     (seqc (lookup_combinator_fn f_name) (\<lambda>target.
       thenc (if is_sum then emit PX64_OP_MOV_IMM dst 0 0 else give ()) (
       seqc (loop_head (min (len_imm v1) (len_imm v2))) (\<lambda>(loop_i, count_reg, loop_start_pc, cond_reg, jz_pc).
       thenc (free_temp cond_reg) (
       seqc (load_element v1 loop_i) (\<lambda>elem1_reg.
       seqc (load_element v2 loop_i) (\<lambda>elem2_reg.
       thenc (apply_combinator target is_sum dst elem1_reg elem2_reg) (
       thenc (loop_tail loop_i loop_start_pc jz_pc) (
       thenc (free_temp count_reg) (
       free_temp loop_i))))))))))"

definition compile_sum_to_reg :: "u8 \<Rightarrow> ViewMeta \<Rightarrow> unit comp" where
  "compile_sum_to_reg dst v =
     (thenc (emit PX64_OP_MOV_IMM dst 0 0) (
       seqc (loop_head (len_imm v)) (\<lambda>(loop_i, count_reg, loop_start_pc, cond_reg, jz_pc).
       seqc (load_element v loop_i) (\<lambda>elem_reg.
       thenc (emit PX64_OP_ADD dst dst elem_reg) (
       thenc (free_temp elem_reg) (
       thenc (loop_tail loop_i loop_start_pc jz_pc) (
       thenc (free_temp cond_reg) (
       thenc (free_temp count_reg) (
       free_temp loop_i)))))))))"

definition compile_reduce_to_reg :: "u8 \<Rightarrow> ViewMeta \<Rightarrow> i64 option \<Rightarrow> u8 list \<Rightarrow> unit comp" where
  "compile_reduce_to_reg dst v init_val f_name =
     (seqc (lookup_fn_by_name f_name) (\<lambda>f.
       thenc ((case init_val of Some i \<Rightarrow> emit_const dst i | None \<Rightarrow> emit PX64_OP_MOV_IMM dst 0 0)) (
       seqc (loop_head (len_imm v)) (\<lambda>(loop_i, count_reg, loop_start_pc, cond_reg, jz_pc).
       seqc (load_element v loop_i) (\<lambda>elem_reg.
       thenc (emit PX64_OP_MOV_REG 7 dst 0) (
       thenc (emit PX64_OP_MOV_REG 6 elem_reg 0) (
       thenc (free_temp elem_reg) (
       thenc (emit_imm PX64_OP_CALL 0 (entry_pc f)) (
       thenc (emit PX64_OP_MOV_REG dst 0 0) (
       thenc (loop_tail loop_i loop_start_pc jz_pc) (
       thenc (free_temp cond_reg) (
       thenc (free_temp count_reg) (
       free_temp loop_i)))))))))))))"

section \<open>Literals\<close>

definition fixed_repr :: "i64 \<Rightarrow> u8 \<Rightarrow> u8 \<Rightarrow> i64" where
  "fixed_repr scaled frac_digits scale =
     of_int ((sint scaled * 2 ^ unat scale) sdiv min (10 ^ unat frac_digits) (2 ^ 63 - 1))"

definition primary_float :: "i64 \<Rightarrow> u8 \<Rightarrow> u8 \<Rightarrow> i64 option comp" where
  "primary_float scaled frac_digits dst =
     (seqc (look (\<lambda>c. case target_fixed_scale c of Some s \<Rightarrow> s | None \<Rightarrow> 16)) (\<lambda>scale.
       seqc (add_constant (fixed_repr scaled frac_digits scale)) (\<lambda>c_idx.
       thenc (emit_imm PX64_OP_LDC dst c_idx) (
       thenc (set_scale (Some scale)) (
       give (Some (fixed_repr scaled frac_digits scale)))))))"

definition hex_nibble :: "u8 \<Rightarrow> u8 option" where
  "hex_nibble h =
     (if 48 \<le> h \<and> h \<le> 57 then Some (h - 48)
      else if 97 \<le> h \<and> h \<le> 102 then Some (h - 97 + 10)
      else if 65 \<le> h \<and> h \<le> 70 then Some (h - 65 + 10)
      else None)"

definition escape_char :: "u8 \<Rightarrow> u8" where
  "escape_char e = (if e = 110 then 10 else if e = 114 then 13 else if e = 116 then 9 else if e = 101 then 27 else e)"

text \<open>The bytes of a literal with its escapes replaced; 92 is the backslash and 120 is \<^verbatim>\<open>x\<close>.\<close>

fun unescape :: "u8 list \<Rightarrow> u8 list" where
  "unescape [] = []"
| "unescape [b] = [b]"
| "unescape (b # e # r) =
     (if b \<noteq> 92 then b # unescape (e # r)
      else if e = 120 \<and> 2 \<le> length r then
        (case (hex_nibble (r ! 0), hex_nibble (r ! 1)) of
           (Some v1, Some v2) \<Rightarrow> (push_bit 4 v1 OR v2) # unescape (drop 2 r)
         | _ \<Rightarrow> 92 # unescape (e # r))
      else escape_char e # unescape r)"

text \<open>The value of a string: by an instruction with two bytes, or as a constant.\<close>

definition emit_str :: "u8 \<Rightarrow> nat \<Rightarrow> nat \<Rightarrow> unit comp" where
  "emit_str dst offset len =
     (if offset < 256 then emit PX64_OP_MOV_STR dst (of_nat offset) (of_nat len)
      else emit_const dst (STR_TAG OR push_bit 32 (of_nat offset) OR of_nat len))"

text \<open>A string literal without its quotes.\<close>

definition unquoted :: "Token \<Rightarrow> u8 list comp" where
  "unquoted tok c =
     (if tok_len tok < 2 then give [] c
      else if tok_start tok + tok_len tok - 1 \<le> length (c_src c)
      then give (sub_slice (tok_start tok + 1) (tok_len tok - 2) (c_src c)) c
      else crash c)"

definition primary_string :: "Token \<Rightarrow> u8 \<Rightarrow> i64 option comp" where
  "primary_string tok dst =
     (seqc (unquoted tok) (\<lambda>s.
       seqc (look (\<lambda>c. length (c_str_pool c))) (\<lambda>offset.
       seqc (give (unescape s)) (\<lambda>out.
       thenc (ensure_c (offset + length out \<le> MAX_STRING_POOL) ''ERR_STRING_POOL_FULL'') (
       seqc (look (find_string_in_pool out)) (\<lambda>prev.
       thenc ((case prev of
        Some prev_offset \<Rightarrow> emit_str dst prev_offset (length out)
      | None \<Rightarrow> (thenc (change (\<lambda>c. c\<lparr>c_str_pool := c_str_pool c @ out\<rparr>)) (
        emit_str dst offset (length out))))) (
       give None)))))))"

section \<open>Variables\<close>

definition set_expr_types :: "Token \<Rightarrow> unit comp" where
  "set_expr_types tok =
     (seqc (get_var_fixed_scale tok) (\<lambda>scale.
       change (\<lambda>c. c\<lparr>current_expr_enum_type := get_var_enum_type tok c, current_expr_fixed_scale := scale\<rparr>)))"

definition primary_var :: "(u8 \<Rightarrow> unit comp) \<Rightarrow> Token \<Rightarrow> u8 \<Rightarrow> i64 option comp" where
  "primary_var ex tok dst =
     (seqc (look peek_kind) (\<lambda>k.
       seqc (look (is_spilled_var tok)) (\<lambda>spilled.
       if k = sym SymLBracket then (seqc (lookup_array tok) (\<lambda>arr.
         thenc advance (
         seqc alloc_temp (\<lambda>idx_reg.
         thenc (ex idx_reg) (
         thenc (skip_c (sym SymRBracket)) (
         thenc (emit PX64_OP_ARR_LOAD dst arr idx_reg) (
         thenc (free_temp idx_reg) (
         give None))))))))
     else if k = sym SymDot then (thenc advance (
       seqc advance (\<lambda>field_tok.
       thenc (ensure_c (kind field_tok = TkIdent) ''ERR_EXPECTED_FIELD_NAME'') (
       seqc (name_of tok) (\<lambda>var_name.
       seqc (name_of field_tok) (\<lambda>f_name.
       seqc (lookup_struct_field var_name f_name) (\<lambda>(inst, offset).
       thenc (emit PX64_OP_STRUCT_LOAD dst inst offset) (
       give None))))))))
     else case spilled of
       Some slot \<Rightarrow> (thenc (set_expr_types tok) (
         thenc (emit PX64_OP_SPILL_LOAD dst slot 0) (
         give None)))
     | None \<Rightarrow> (thenc (set_expr_types tok) (
       seqc (resolve_var tok) (\<lambda>var_reg.
       seqc (look (\<lambda>c. is_handle var_reg \<and> (case handle var_reg c of Moved _ _ \<Rightarrow> True | _ \<Rightarrow> False))) (\<lambda>moved.
       thenc (ensure_c (\<not> moved) ''ERR_RESOURCE_USE_AFTER_MOVE'') (
       thenc (if var_reg \<noteq> dst then emit PX64_OP_MOV_REG dst var_reg 0 else give ()) (
       give None)))))))))"

section \<open>Calls\<close>

fun call_args :: "nat \<Rightarrow> (u8 \<Rightarrow> unit comp) \<Rightarrow> nat \<Rightarrow> u8 list \<Rightarrow> u8 list comp" where
  "call_args 0 ex params temps c = None"
| "call_args (Suc n) ex params temps c =
     (if closes SymRParen c then give temps c
      else (thenc (ensure_c (length temps < params) ''ERR_TOO_MANY_ARGS'') (
        seqc alloc_temp (\<lambda>tmp.
        thenc (ex tmp) (
        seqc (match_token (sym SymComma)) (\<lambda>more.
        if more then call_args n ex params (temps @ [tmp]) else give (temps @ [tmp])))))) c)"

fun move_args :: "(u8 \<times> u8) list \<Rightarrow> unit comp" where
  "move_args [] = give ()"
| "move_args ((p, t) # rest) =
     (thenc (emit PX64_OP_MOV_REG p t 0) (
       thenc (free_temp t) (
       move_args rest)))"

definition call_user :: "nat \<Rightarrow> (u8 \<Rightarrow> unit comp) \<Rightarrow> FnMeta \<Rightarrow> u8 \<Rightarrow> i64 option comp" where
  "call_user n ex f dst =
     (thenc advance (
       seqc (call_args n ex (length (param_names f)) []) (\<lambda>temps.
       thenc (move_args (zip param_regs temps)) (
       thenc (ensure_c (length (param_names f) \<le> length temps) ''ERR_TOO_FEW_ARGS'') (
       thenc (expect (sym SymRParen) ''ERR_UNCLOSED_PAREN'') (
       thenc (emit_imm PX64_OP_CALL 0 (entry_pc f)) (
       thenc (if dst \<noteq> 0 then emit PX64_OP_MOV_REG dst 0 0 else give ()) (
       give None))))))))"

definition call_streq :: "(u8 \<Rightarrow> unit comp) \<Rightarrow> u8 \<Rightarrow> i64 option comp" where
  "call_streq ex dst =
     (thenc advance (
       seqc alloc_temp (\<lambda>s1_reg.
       thenc (ex s1_reg) (
       thenc (expect (sym SymComma) ''ERR_EXPECTED_COMMA'') (
       seqc alloc_temp (\<lambda>s2_reg.
       thenc (ex s2_reg) (
       thenc (expect (sym SymRParen) ''ERR_UNCLOSED_PAREN'') (
       thenc (emit PX64_OP_STREQ dst s1_reg s2_reg) (
       thenc (free_temp s2_reg) (
       thenc (free_temp s1_reg) (
       give None)))))))))))"

text \<open>Whether \<^verbatim>\<open>|> @sum()\<close> follows, which is consumed then.\<close>

definition piped_sum :: "bool comp" where
  "piped_sum =
     (seqc (look peek_kind) (\<lambda>k.
       if k = sym SymPipe then (seqc (look (peek_ahead 1)) (\<lambda>next_tok.
         seqc (name_of next_tok) (\<lambda>next_name.
         if next_name \<in> {bytes ''@sum'', bytes ''sum''} then (thenc advance (
           thenc advance (
           seqc (match_token (sym SymLParen)) (\<lambda>paren.
           thenc (if paren then skip_c (sym SymRParen) else give ()) (
           give True)))))
       else give False)))
     else give False))"

definition call_zip_with :: "(u8 \<Rightarrow> unit comp) \<Rightarrow> u8 \<Rightarrow> i64 option comp" where
  "call_zip_with ex dst =
     (thenc advance (
       seqc (parse_view_source ex) (\<lambda>v1.
       thenc (expect (sym SymComma) ''ERR_EXPECTED_COMMA'') (
       seqc (parse_view_source ex) (\<lambda>v2.
       thenc (expect (sym SymComma) ''ERR_EXPECTED_COMMA'') (
       seqc advance (\<lambda>fn_tok.
       seqc (name_of fn_tok) (\<lambda>f_name.
       thenc (expect (sym SymRParen) ''ERR_UNCLOSED_PAREN'') (
       seqc piped_sum (\<lambda>is_sum.
       thenc (compile_zip_with_to_reg dst v1 v2 f_name is_sum) (
       give None)))))))))))"

definition call_sum :: "(u8 \<Rightarrow> unit comp) \<Rightarrow> u8 \<Rightarrow> i64 option comp" where
  "call_sum ex dst =
     (thenc advance (
       seqc (match_token (sym SymRParen)) (\<lambda>empty.
       if empty then give None
     else (seqc (parse_view_source ex) (\<lambda>v.
       thenc (expect (sym SymRParen) ''ERR_UNCLOSED_PAREN'') (
       thenc (compile_sum_to_reg dst v) (
       give None)))))))"

definition call_reduce :: "(u8 \<Rightarrow> unit comp) \<Rightarrow> u8 \<Rightarrow> i64 option comp" where
  "call_reduce ex dst =
     (thenc advance (
       seqc (parse_view_source ex) (\<lambda>v.
       thenc (expect (sym SymComma) ''ERR_EXPECTED_COMMA'') (
       seqc alloc_temp (\<lambda>init_reg.
       thenc (ex init_reg) (
       thenc (expect (sym SymComma) ''ERR_EXPECTED_COMMA'') (
       seqc advance (\<lambda>fn_tok.
       seqc (name_of fn_tok) (\<lambda>f_name.
       thenc (expect (sym SymRParen) ''ERR_UNCLOSED_PAREN'') (
       thenc (emit PX64_OP_MOV_REG dst init_reg 0) (
       thenc (free_temp init_reg) (
       thenc (compile_reduce_to_reg dst v None f_name) (
       give None)))))))))))))"

definition intrinsics :: "(string list \<times> native \<times> nat) list" where
  "intrinsics =
     [([''@print'', ''print''], NATIVE_PRINT, 1), ([''@println'', ''println''], NATIVE_PRINTLN, 1),
      ([''@tsc'', ''sys.tsc''], NATIVE_SYS_TSC, 0), ([''@rtt'', ''net.rtt''], NATIVE_NET_RTT, 0),
      ([''@rate'', ''net.set_rate''], NATIVE_NET_SET_RATE, 1), ([''@capture'', ''gpu.capture''], NATIVE_GPU_CAPTURE, 0),
      ([''@send'', ''net.send''], NATIVE_NET_SEND, 1), ([''@release'', ''@drop''], NATIVE_DROP, 1),
      ([''@argc'', ''sys.argc''], NATIVE_SCRIPT_ARGC, 0), ([''@arg'', ''sys.arg''], NATIVE_SCRIPT_ARG, 1),
      ([''@ok''], NATIVE_TAG_OK, 1), ([''@err''], NATIVE_TAG_ERR, 1), ([''@is_ok''], NATIVE_IS_OK, 1),
      ([''@is_err''], NATIVE_IS_ERR, 1), ([''@unwrap''], NATIVE_UNWRAP, 1),
      ([''@core_id'', ''sys.core_id''], NATIVE_CORE_ID, 0), ([''@tsc_freq'', ''sys.tsc_freq''], NATIVE_TSC_FREQ, 0),
      ([''@uptime_ns'', ''sys.uptime_ns''], NATIVE_UPTIME_NS, 0),
      ([''@busy_wait'', ''sys.busy_wait''], NATIVE_BUSY_WAIT, 1),
      ([''@ring_depth'', ''sys.ring_depth''], NATIVE_RING_DEPTH, 1),
      ([''@min'', ''math.min''], NATIVE_MATH_MIN, 2), ([''@max'', ''math.max''], NATIVE_MATH_MAX, 2),
      ([''@abs'', ''math.abs''], NATIVE_MATH_ABS, 1), ([''@clamp'', ''math.clamp''], NATIVE_MATH_CLAMP, 3),
      ([''@popcnt'', ''bit.popcnt''], NATIVE_BIT_POPCNT, 1), ([''@lzcnt'', ''bit.lzcnt''], NATIVE_BIT_LZCNT, 1),
      ([''@crc32'', ''hash.crc32''], NATIVE_CRC32, 2), ([''@vram_read'', ''vram.read''], NATIVE_VRAM_READ, 2),
      ([''@vram_write'', ''vram.write''], NATIVE_VRAM_WRITE, 3), ([''@to_fix'', ''fix.to_fix''], NATIVE_FIX_TO_FIX, 2),
      ([''@to_i64'', ''fix.to_i64''], NATIVE_FIX_TO_I64, 2), ([''@fix_mul'', ''fix.mul''], NATIVE_FIX_MUL, 3),
      ([''@fix_div'', ''fix.div''], NATIVE_FIX_DIV, 3), ([''@term_raw'', ''term.raw''], NATIVE_TERM_RAW, 1),
      ([''@term_read_key'', ''term.read_key''], NATIVE_TERM_READ_KEY, 0),
      ([''@term_size'', ''term.size''], NATIVE_TERM_SIZE, 0), ([''@file_read'', ''file.read''], NATIVE_FILE_READ, 1),
      ([''@file_write'', ''file.write''], NATIVE_FILE_WRITE, 2), ([''@file_exists'', ''file.exists''], NATIVE_FILE_EXISTS, 1),
      ([''@str_len'', ''str.len''], NATIVE_STR_LEN, 1), ([''@char_at'', ''str.char_at''], NATIVE_CHAR_AT, 2)]"

definition intrinsic :: "u8 list \<Rightarrow> (native \<times> nat) option" where
  "intrinsic name = map_option snd (find (\<lambda>(ns, f). name \<in> bytes ` set ns) intrinsics)"

text \<open>
  The handle an argument names, 0 for none: a failing \<^verbatim>\<open>resolve_var\<close> is ignored.
\<close>

definition raw_handle :: "u8 comp" where
  "raw_handle c =
     (if peek_kind c = TkHardwareIdent then
        (case resolve_var (peek c) c of Some (Err _) \<Rightarrow> give 0 c | r \<Rightarrow> r)
      else give 0 c)"

definition one_arg :: "(u8 \<Rightarrow> unit comp) \<Rightarrow> native \<Rightarrow> u8 comp" where
  "one_arg ex f =
     (seqc (look peek_kind) (\<lambda>k.
       if k = sym SymRParen then give 0
     else (seqc raw_handle (\<lambda>h.
       thenc (if f = NATIVE_NET_SEND \<and> is_handle h then send_handle h else give ()) (
       thenc (if f = NATIVE_DROP \<and> is_handle h then release_handle h else give ()) (
       seqc alloc_temp (\<lambda>r.
       thenc (ex r) (
       give r))))))))"

text \<open>Arguments separated by commas, each in a temporary of its own.\<close>

fun more_args :: "nat \<Rightarrow> (u8 \<Rightarrow> unit comp) \<Rightarrow> u8 list comp" where
  "more_args 0 ex = give []"
| "more_args (Suc k) ex =
     (thenc (expect (sym SymComma) ''ERR_EXPECTED_COMMA'') (
       seqc alloc_temp (\<lambda>r.
       thenc (ex r) (
       seqc (more_args k ex) (\<lambda>rs.
       give (r # rs))))))"

definition intrinsic_args :: "(u8 \<Rightarrow> unit comp) \<Rightarrow> native \<Rightarrow> nat \<Rightarrow> u8 list comp" where
  "intrinsic_args ex f arity =
     (if arity = 0 then give []
      else if arity = 1 then seqc (one_arg ex f) (\<lambda>r. give [r])
      else (seqc alloc_temp (\<lambda>r.
        thenc (ex r) (
        seqc (more_args (arity - 1) ex) (\<lambda>rs.
        give (r # rs))))))"

fun free_all :: "u8 list \<Rightarrow> unit comp" where
  "free_all [] = give ()"
| "free_all (r # rs) = thenc (free_temp r) (free_all rs)"

definition call_intrinsic :: "(u8 \<Rightarrow> unit comp) \<Rightarrow> u8 list \<Rightarrow> u8 \<Rightarrow> i64 option comp" where
  "call_intrinsic ex name dst =
     (case intrinsic name of
        None \<Rightarrow> fail_c ''ERR_UNKNOWN_INTRINSIC''
      | Some (f, arity) \<Rightarrow> (thenc advance (
        seqc (intrinsic_args ex f arity) (\<lambda>args.
        thenc (expect (sym SymRParen) ''ERR_UNCLOSED_PAREN'') (
        thenc (check_intrinsic_runtime f) (
        thenc (emit PX64_OP_CALL_NAT dst (native_code f) (case args of r # _ \<Rightarrow> r | [] \<Rightarrow> 0)) (
        thenc (free_all (rev args)) (
        give None))))))))"

definition primary_call :: "nat \<Rightarrow> (u8 \<Rightarrow> unit comp) \<Rightarrow> u8 list \<Rightarrow> u8 \<Rightarrow> i64 option comp" where
  "primary_call n ex name dst =
     (seqc (look (find_fn name)) (\<lambda>f.
       case f of
       Some meta \<Rightarrow> call_user n ex meta dst
     | None \<Rightarrow>
         if name \<in> {bytes ''@streq'', bytes ''str.eq''} then call_streq ex dst
         else if name = bytes ''@zip_with'' then call_zip_with ex dst
         else if name \<in> {bytes ''@sum'', bytes ''sum''} then call_sum ex dst
         else if name \<in> {bytes ''@reduce'', bytes ''reduce''} then call_reduce ex dst
         else call_intrinsic ex name dst))"

definition enum_variant :: "u8 list \<Rightarrow> u8 list \<Rightarrow> (nat \<times> nat) comp" where
  "enum_variant name variant_name c =
     (case lookup_enum_by_name name c of
        None \<Rightarrow> fail_c ''ERR_UNKNOWN_ENUM_TYPE'' c
      | Some e \<Rightarrow>
          (case lookup_enum_variant e variant_name c of
             None \<Rightarrow> fail_c ''ERR_UNKNOWN_ENUM_VARIANT'' c
           | Some v \<Rightarrow> give (e, v) c))"

definition primary_ident :: "nat \<Rightarrow> (u8 \<Rightarrow> unit comp) \<Rightarrow> Token \<Rightarrow> u8 \<Rightarrow> i64 option comp" where
  "primary_ident n ex tok dst =
     (seqc (name_of tok) (\<lambda>name.
       seqc (look peek_kind) (\<lambda>k.
       if k = sym SymColonColon then (thenc advance (
         seqc advance (\<lambda>variant_tok.
         thenc (ensure_c (kind variant_tok = TkIdent) ''ERR_EXPECTED_VARIANT_NAME'') (
         seqc (name_of variant_tok) (\<lambda>variant_name.
         seqc (enum_variant name variant_name) (\<lambda>(e, v).
         thenc (change (\<lambda>c. c\<lparr>current_expr_enum_type := Some e\<rparr>)) (
         thenc (emit_imm PX64_OP_MOV_IMM dst (of_nat v)) (
         give (Some (of_nat v))))))))))
     else if k = sym SymLBracket then (seqc (lookup_const_table name) (\<lambda>(tbl, len).
       thenc advance (
       seqc alloc_temp (\<lambda>idx_reg.
       thenc (ex idx_reg) (
       thenc (skip_c (sym SymRBracket)) (
       thenc (emit PX64_OP_TBL_LOAD dst tbl idx_reg) (
       thenc (free_temp idx_reg) (
       give None))))))))
     else (seqc ((if k = sym SymLBrace then is_struct_type tok else give False)) (\<lambda>literal.
       thenc (ensure_c (\<not> literal) ''ERR_STRUCT_LITERAL_UNSUPPORTED'') (
       if k = sym SymLParen then primary_call n ex name dst
       else (seqc (resolve_var tok) (\<lambda>var_reg.
         thenc (if var_reg \<noteq> dst then emit PX64_OP_MOV_REG dst var_reg 0 else give ()) (
         give None)))))))))"

section \<open>Operators before their operand\<close>

definition primary_minus :: "bool \<Rightarrow> (u8 \<Rightarrow> i64 option comp) \<Rightarrow> u8 \<Rightarrow> i64 option comp" where
  "primary_minus checked prim dst =
     (seqc alloc_temp (\<lambda>zero_reg.
       thenc (emit_const zero_reg 0) (
       seqc alloc_temp (\<lambda>rhs_reg.
       seqc (prim rhs_reg) (\<lambda>rhs_val.
       case rhs_val of
       Some b \<Rightarrow> (thenc (free_temp rhs_reg) (
         thenc (free_temp zero_reg) (
         seqc (negate checked b) (\<lambda>v.
         give (Some v)))))
     | None \<Rightarrow> (thenc (emit PX64_OP_SUB dst zero_reg rhs_reg) (
       thenc (free_temp rhs_reg) (
       thenc (free_temp zero_reg) (
       give None)))))))))"

definition primary_not :: "(u8 \<Rightarrow> i64 option comp) \<Rightarrow> u8 \<Rightarrow> i64 option comp" where
  "primary_not prim dst =
     (seqc alloc_temp (\<lambda>rhs_reg.
       seqc (prim rhs_reg) (\<lambda>rhs_val.
       case rhs_val of
       Some b \<Rightarrow> (thenc (free_temp rhs_reg) (
         give (Some (of_bool_i64 (b = 0)))))
     | None \<Rightarrow> (seqc alloc_temp (\<lambda>zero_reg.
       thenc (emit_const zero_reg 0) (
       thenc (emit PX64_OP_CMP_EQ dst rhs_reg zero_reg) (
       thenc (free_temp zero_reg) (
       thenc (free_temp rhs_reg) (
       give None)))))))))"

definition primary_group :: "(u8 \<Rightarrow> i64 option comp) \<Rightarrow> u8 \<Rightarrow> i64 option comp" where
  "primary_group tern dst =
     (seqc (tern dst) (\<lambda>val.
       thenc (expect (sym SymRParen) ''ERR_UNCLOSED_PAREN'') (
       give val)))"

definition primary_body ::
  "bool \<Rightarrow> nat \<Rightarrow> (u8 \<Rightarrow> i64 option comp) \<Rightarrow> (u8 \<Rightarrow> i64 option comp) \<Rightarrow> (u8 \<Rightarrow> unit comp) \<Rightarrow> u8 \<Rightarrow> i64 option comp" where
  "primary_body checked n prim tern ex dst =
     seqc advance (\<lambda>tok.
       case kind tok of
         TkNumber v \<Rightarrow> give (Some v)
       | TkTimeLiteral ns \<Rightarrow> give (Some ns)
       | TkFloatLit scaled frac_digits \<Rightarrow> primary_float scaled frac_digits dst
       | TkStringLit \<Rightarrow> primary_string tok dst
       | TkVarIdent \<Rightarrow> primary_var ex tok dst
       | TkHardwareIdent \<Rightarrow> primary_var ex tok dst
       | TkIntrinsicIdent \<Rightarrow> primary_ident n ex tok dst
       | TkIdent \<Rightarrow> primary_ident n ex tok dst
       | TkSymbol SymMinus \<Rightarrow> primary_minus checked prim dst
       | TkSymbol SymExclamation \<Rightarrow> primary_not prim dst
       | TkSymbol SymLParen \<Rightarrow> primary_group tern dst
       | _ \<Rightarrow> fail_c ''ERR_SYNTAX_UNEXPECTED_TOKEN'')"

end
