(* ===== verification/CompStmt.thy ===== *)
theory CompStmt
  imports CompPrim
begin

text \<open>
  Statements (\<^verbatim>\<open>pulselang-core/src/compiler.rs\<close>, \<^verbatim>\<open>statement\<close>): one definition per arm, as a
  function of the parsers \<open>ex\<close> for expressions and \<open>stmt\<close> for nested statements.
\<close>

abbreviation kw :: "keyword \<Rightarrow> TokenKind" where
  "kw k \<equiv> TkKeyword k"

abbreviation dir :: "directive \<Rightarrow> TokenKind" where
  "dir d \<equiv> TkDirective d"

section \<open>Imports and directives\<close>

definition import_mask :: "u8 list \<Rightarrow> u16 option" where
  "import_mask name =
     map_option snd (find (\<lambda>(ns, m). name \<in> bytes ` set ns)
       [([''tiny''], RUNTIME_TINY), ([''core''], RUNTIME_CORE OR RUNTIME_TINY),
        ([''math''], RUNTIME_MATH OR RUNTIME_CORE OR RUNTIME_TINY), ([''fix''], RUNTIME_FIX OR RUNTIME_CORE),
        ([''sys''], RUNTIME_SYS OR RUNTIME_CORE), ([''net''], RUNTIME_NET OR RUNTIME_SYS OR RUNTIME_CORE),
        ([''vram''], RUNTIME_VRAM OR RUNTIME_CORE),
        ([''gpu''], RUNTIME_GPU OR RUNTIME_VRAM OR RUNTIME_SYS OR RUNTIME_CORE),
        ([''term'', ''tui''], RUNTIME_TERM OR RUNTIME_FILE OR RUNTIME_SYS OR RUNTIME_CORE OR RUNTIME_TINY),
        ([''file''], RUNTIME_FILE OR RUNTIME_CORE OR RUNTIME_TINY)])"

definition import_name :: "Token \<Rightarrow> u8 list comp" where
  "import_name tok =
     (if kind tok = TkStringLit then unquoted tok
      else if kind tok = TkIdent then name_of tok
      else fail_c ''ERR_IMPORT_SYNTAX'')"

definition import_stmt :: "unit comp" where
  "import_stmt =
     (thenc advance (
       seqc advance (\<lambda>name_tok.
       seqc (import_name name_tok) (\<lambda>raw_name.
       thenc (skip_c (sym SymSemi)) (
       thenc (change (\<lambda>c. if has_explicit_imports c then c else c\<lparr>has_explicit_imports := True, imported_runtimes := 0\<rparr>)) (
       case import_mask raw_name of
       Some m \<Rightarrow> change (\<lambda>c. c\<lparr>imported_runtimes := imported_runtimes c OR m\<rparr>)
     | None \<Rightarrow> fail_c ''ERR_UNKNOWN_RUNTIME''))))))"

text \<open>
  The number of tokens up to and with the one that closes the bracket, and the depth that is
  left at the end of the tokens.
\<close>

fun balance :: "symbol \<Rightarrow> symbol \<Rightarrow> Token list \<Rightarrow> nat \<Rightarrow> nat \<times> nat" where
  "balance op cl [] d = (0, d)"
| "balance op cl (t # ts) d =
     (if d = 0 \<or> kind t = TkEof then (0, d)
      else let (n, r) = balance op cl ts (if kind t = sym op then d + 1 else if kind t = sym cl then d - 1 else d)
           in (n + 1, r))"

definition skip_balanced :: "symbol \<Rightarrow> symbol \<Rightarrow> nat comp" where
  "skip_balanced op cl c =
     (let (n, d) = balance op cl (drop (current c) (c_tokens c)) 1
      in give d (c\<lparr>current := current c + n\<rparr>))"

definition skip_until :: "symbol \<Rightarrow> unit comp" where
  "skip_until s =
     change (\<lambda>c. c\<lparr>current := current c +
       length (takeWhile (\<lambda>t. kind t \<noteq> sym s \<and> kind t \<noteq> TkEof) (drop (current c) (c_tokens c)))\<rparr>)"

definition is_budget :: "TokenKind \<Rightarrow> bool" where
  "is_budget k \<longleftrightarrow> k = dir AtBudget \<or> k = kw KwBudget"

text \<open>A budget clause whose value is not used.\<close>

definition skip_budget :: "unit comp" where
  "skip_budget =
     (seqc (look peek_kind) (\<lambda>k.
       if is_budget k then (thenc advance (
         seqc (match_token (sym SymLParen)) (\<lambda>paren.
         if paren then thenc advance (skip_c (sym SymRParen)) else give ())))
     else give ()))"

definition test_stmt :: "unit comp" where
  "test_stmt =
     (thenc advance (
       seqc (look peek_kind) (\<lambda>k.
       thenc (if k = TkStringLit then thenc advance (give ()) else give ()) (
       thenc skip_budget (
       seqc (match_token (sym SymLBrace)) (\<lambda>brace.
       thenc (if brace then thenc (skip_balanced SymLBrace SymRBrace) (give ())
     else (seqc (match_token (sym SymLParen)) (\<lambda>paren.
       if paren then (thenc (skip_until SymRParen) (
         thenc (skip_c (sym SymRParen)) (
         skip_c (sym SymSemi))))
       else give ()))) (
       skip_c (sym SymSemi))))))))"

definition time_value :: "TokenKind \<Rightarrow> u64 option" where
  "time_value k = (case k of TkTimeLiteral ns \<Rightarrow> Some ns | TkNumber n \<Rightarrow> Some n | _ \<Rightarrow> None)"

text \<open>\<^verbatim>\<open>(time)\<close> after a clause of the contract.\<close>

definition contract_value :: "(u64 \<Rightarrow> Compiler \<Rightarrow> Compiler) \<Rightarrow> unit comp" where
  "contract_value f =
     (thenc advance (
       seqc (match_token (sym SymLParen)) (\<lambda>paren.
       if paren then (seqc advance (\<lambda>t.
         thenc ((case time_value (kind t) of Some ns \<Rightarrow> change (f ns) | None \<Rightarrow> give ())) (
         skip_c (sym SymRParen))))
     else give ())))"

fun contract_items :: "nat \<Rightarrow> unit comp" where
  "contract_items 0 c = None"
| "contract_items (Suc n) c =
     (if closes SymSemi c then give () c
      else thenc
        (if peek_kind c = dir AtWcet then contract_value (\<lambda>ns c. c\<lparr>declared_script_wcet_ns := Some ns\<rparr>)
         else if is_budget (peek_kind c) then contract_value (\<lambda>ns c. c\<lparr>declared_script_budget_ns := Some ns\<rparr>)
         else thenc advance (give ()))
        (contract_items n) c)"

definition contract_stmt :: "nat \<Rightarrow> unit comp" where
  "contract_stmt n =
     (thenc advance (
       thenc (skip_c (sym SymColon)) (
       thenc (contract_items n) (
       expect (sym SymSemi) ''ERR_MISSING_SEMICOLON''))))"

definition pipeline_stmt :: "nat \<Rightarrow> unit comp \<Rightarrow> unit comp" where
  "pipeline_stmt n stmt =
     (thenc advance (
       thenc (skip_c (sym SymColon)) (
       thenc advance (
       thenc skip_budget (
       seqc (match_token (sym SymSemi)) (\<lambda>semi.
       if semi then give () else branch n stmt (give ())))))))"

definition on_stmt :: "nat \<Rightarrow> unit comp \<Rightarrow> unit comp" where
  "on_stmt n stmt =
     (thenc advance (
       thenc (skip_c (sym SymColon)) (
       seqc (match_token (sym SymLParen)) (\<lambda>paren.
       thenc (if paren then thenc advance (skip_c (sym SymRParen)) else give ()) (
       seqc (match_token (sym SymLBrace)) (\<lambda>brace.
       if brace then thenc (braced n stmt) (skip_c (sym SymSemi)) else give ()))))))"

definition within_stmt :: "nat \<Rightarrow> unit comp \<Rightarrow> unit comp" where
  "within_stmt n stmt =
     (thenc advance (
       seqc (match_token (sym SymLParen)) (\<lambda>has_paren.
       seqc advance (\<lambda>time_tok.
       thenc (if has_paren then skip_c (sym SymRParen) else give ()) (
       seqc ((case time_value (kind time_tok) of
       Some ns \<Rightarrow> give ns
     | None \<Rightarrow> fail_c ''ERR_EXPECTED_TIME_LITERAL'')) (\<lambda>deadline_ns.
       thenc (emit_const 0 deadline_ns) (
       thenc (emit PX64_OP_WITHIN_START 0 0 0) (
       thenc (expect (sym SymLBrace) ''ERR_EXPECTED_LBRACE'') (
       thenc (braced n stmt) (
       thenc (emit PX64_OP_WITHIN_END 0 0 0) (
       seqc (match_token (sym SymExclamation)) (\<lambda>bang.
       seqc ((if bang then give True else match_token (kw KwOr))) (\<lambda>alt.
       seqc ((if alt then match_token (kw KwDrop) else give False)) (\<lambda>drop_kw.
       thenc (if drop_kw then (thenc (emit PX64_OP_DROP 0 0 0) (
         change (\<lambda>c. c\<lparr>handle_states := map (\<lambda>t. case t of Captured _ _ _ \<Rightarrow> Dropped | _ \<Rightarrow> t) (handle_states c)\<rparr>)))
     else give ()) (
       skip_c (sym SymSemi))))))))))))))))"

section \<open>Loops and branches\<close>

text \<open>A check of the condition that starts at a remembered token.\<close>

definition emit_check_at :: "(u8 \<Rightarrow> unit comp) \<Rightarrow> nat \<Rightarrow> unit comp" where
  "emit_check_at ex start_tok =
     (thenc (change (\<lambda>c. c\<lparr>current := start_tok\<rparr>)) (
       seqc alloc_temp (\<lambda>cond_reg.
       thenc (ex cond_reg) (
       thenc (emit PX64_OP_ASSERT cond_reg 0 0) (
       free_temp cond_reg)))))"

fun emit_checks :: "(u8 \<Rightarrow> unit comp) \<Rightarrow> nat list \<Rightarrow> unit comp" where
  "emit_checks ex [] = give ()"
| "emit_checks ex (t # ts) = thenc (emit_check_at ex t) (emit_checks ex ts)"

text \<open>The position in the tokens is the same afterwards.\<close>

definition emit_checks_here :: "(u8 \<Rightarrow> unit comp) \<Rightarrow> nat list \<Rightarrow> unit comp" where
  "emit_checks_here ex ts =
     (seqc (look current) (\<lambda>saved.
       thenc (emit_checks ex ts) (
       change (\<lambda>c. c\<lparr>current := saved\<rparr>))))"

definition emit_ensures_checks :: "(u8 \<Rightarrow> unit comp) \<Rightarrow> nat \<Rightarrow> unit comp" where
  "emit_ensures_checks ex f =
     seqc (look (\<lambda>c. map fst (ensures_tokens (c_functions c ! f)))) (emit_checks_here ex)"

definition emit_invariant_check :: "(u8 \<Rightarrow> unit comp) \<Rightarrow> nat option \<Rightarrow> unit comp" where
  "emit_invariant_check ex start_tok = emit_checks_here ex (case start_tok of Some t \<Rightarrow> [t] | None \<Rightarrow> [])"

text \<open>The start of a condition in parentheses, which is skipped.\<close>

definition invariant_clause :: "nat option comp" where
  "invariant_clause =
     (seqc (match_token (dir AtInvariant)) (\<lambda>present.
       if present then (thenc (expect (sym SymLParen) ''ERR_INVARIANT_SYNTAX'') (
         seqc (look current) (\<lambda>inv_start.
         thenc (skip_balanced SymLParen SymRParen) (
         give (Some inv_start)))))
     else give None))"

fun confined :: "Typestate \<Rightarrow> Typestate \<Rightarrow> bool" where
  "confined Unallocated t = (case t of Captured _ _ _ \<Rightarrow> False | _ \<Rightarrow> True)"
| "confined (Captured _ _ _) t = (case t of Captured _ _ _ \<Rightarrow> True | _ \<Rightarrow> False)"
| "confined Sent t = (t = Sent)"
| "confined Dropped t = (t = Dropped)"
| "confined (Moved _ _) t = (case t of Moved _ _ \<Rightarrow> True | _ \<Rightarrow> False)"

definition check_confinement :: "Typestate list \<Rightarrow> unit comp" where
  "check_confinement pre c =
     ensure_c (list_all2 confined pre (handle_states c)) ''ERR_TYPESTATE_MISMATCH'' c"

definition while_stmt :: "nat \<Rightarrow> (u8 \<Rightarrow> unit comp) \<Rightarrow> unit comp \<Rightarrow> unit comp" where
  "while_stmt n ex stmt =
     (thenc advance (
       seqc (look (\<lambda>c. code_len c)) (\<lambda>loop_start.
       thenc (skip_c (sym SymLParen)) (
       seqc (look peek_kind) (\<lambda>k.
       thenc (ensure_c (case k of TkNumber v \<Rightarrow> v = 0 | _ \<Rightarrow> True) ''ERR_UNBOUNDED_LOOP'') (
       thenc (ex 0) (
       thenc (skip_c (sym SymRParen)) (
       seqc invariant_clause (\<lambda>inv_start.
       thenc (emit_invariant_check ex inv_start) (
       seqc (emit_inst PX64_OP_JZ 0 0 0) (\<lambda>jz_pos.
       seqc (look handle_states) (\<lambda>pre.
       thenc (expect (sym SymLBrace) ''ERR_EXPECTED_LBRACE'') (
       thenc (braced n stmt) (
       thenc (emit_invariant_check ex inv_start) (
       thenc (check_confinement pre) (
       thenc (emit_imm PX64_OP_JMP 0 (of_nat loop_start)) (
       patch_here jz_pos)))))))))))))))))"

definition range_bound :: "i64 comp" where
  "range_bound =
     (seqc (look peek_kind) (\<lambda>k.
       case time_value k of
       Some v \<Rightarrow> thenc advance (give v)
     | None \<Rightarrow> fail_c ''ERR_FOR_NON_CONSTANT_BOUND''))"

text \<open>\<^verbatim>\<open>(end_val - start_val) as u64\<close> when the range is not empty.\<close>

definition iterations :: "bool \<Rightarrow> i64 \<Rightarrow> i64 \<Rightarrow> int comp" where
  "iterations checked start_val end_val =
     (if sint start_val < sint end_val then
        if checked \<and> 2 ^ 63 \<le> sint end_val - sint start_val then crash else give (uint (end_val - start_val))
      else give 0)"

definition for_stmt :: "bool \<Rightarrow> nat \<Rightarrow> (u8 \<Rightarrow> unit comp) \<Rightarrow> unit comp \<Rightarrow> unit comp" where
  "for_stmt checked n ex stmt =
     (thenc advance (
       seqc (match_token (sym SymLParen)) (\<lambda>has_paren.
       seqc (look peek_kind) (\<lambda>k.
       thenc (ensure_c (k = TkVarIdent) ''ERR_FOR_EXPECTED_VAR'') (
       seqc advance (\<lambda>var_tok.
       seqc (resolve_var var_tok) (\<lambda>var_reg.
       thenc (expect (kw KwIn) ''ERR_FOR_EXPECTED_IN'') (
       seqc range_bound (\<lambda>start_val.
       thenc (expect (sym SymDotDot) ''ERR_FOR_EXPECTED_DOTDOT'') (
       seqc range_bound (\<lambda>end_val.
       thenc (if has_paren then skip_c (sym SymRParen) else give ()) (
       seqc (iterations checked start_val end_val) (\<lambda>iters.
       thenc (emit_const var_reg start_val) (
       seqc alloc_temp (\<lambda>end_reg.
       thenc (emit_const end_reg end_val) (
       seqc (look (\<lambda>c. code_len c)) (\<lambda>loop_start.
       thenc (emit PX64_OP_CMP_LT 0 var_reg end_reg) (
       seqc (emit_inst PX64_OP_JZ 0 0 0) (\<lambda>jz_pos.
       seqc invariant_clause (\<lambda>inv_start.
       thenc (emit_invariant_check ex inv_start) (
       thenc (expect (sym SymLBrace) ''ERR_EXPECTED_LBRACE'') (
       seqc (look handle_states) (\<lambda>pre.
       seqc (look (\<lambda>c. code_len c)) (\<lambda>body_code_start.
       thenc (braced n stmt) (
       thenc (emit_invariant_check ex inv_start) (
       seqc (look (\<lambda>c. code_len c)) (\<lambda>body_code_end.
       thenc (check_confinement pre) (
       thenc (ensure_c ((int (body_code_end - body_code_start) div 4 + 4) * iters \<le> 10000) ''ERR_FOR_WCET_EXCEEDED'') (
       thenc (emit PX64_OP_ADDI var_reg var_reg 1) (
       thenc (emit_imm PX64_OP_JMP 0 (of_nat loop_start)) (
       thenc (patch_here jz_pos) (
       free_temp end_reg))))))))))))))))))))))))))))))))"

definition assert_stmt :: "(u8 \<Rightarrow> unit comp) \<Rightarrow> unit comp" where
  "assert_stmt ex =
     (thenc advance (
       thenc (skip_c (sym SymLParen)) (
       thenc (ex 0) (
       thenc (skip_c (sym SymRParen)) (
       thenc (skip_c (sym SymSemi)) (
       emit PX64_OP_ASSERT 0 0 0))))))"

fun same_state :: "Typestate \<Rightarrow> Typestate \<Rightarrow> bool" where
  "same_state Unallocated t = (t = Unallocated)"
| "same_state (Captured _ _ _) t = (case t of Captured _ _ _ \<Rightarrow> True | _ \<Rightarrow> False)"
| "same_state Sent t = (t = Sent \<or> t = Dropped)"
| "same_state Dropped t = (t = Dropped \<or> t = Sent)"
| "same_state (Moved _ _) t = (case t of Moved _ _ \<Rightarrow> True | _ \<Rightarrow> False)"

text \<open>The part after \<^verbatim>\<open>else\<close>: a nested \<^verbatim>\<open>if\<close> or a block.\<close>

definition else_branch :: "nat \<Rightarrow> unit comp \<Rightarrow> nat \<Rightarrow> Typestate list \<Rightarrow> unit comp" where
  "else_branch n stmt jz_pos pre =
     (seqc (emit_inst PX64_OP_JMP 0 0 0) (\<lambda>jmp_pos.
       thenc (patch_here jz_pos) (
       thenc (change (\<lambda>c. c\<lparr>handle_states := pre\<rparr>)) (
       seqc (look peek_kind) (\<lambda>k.
       thenc (if k = kw KwIf then stmt
     else thenc (expect (sym SymLBrace) ''ERR_EXPECTED_LBRACE'') (braced n stmt)) (
       patch_here jmp_pos))))))"

definition if_stmt :: "nat \<Rightarrow> (u8 \<Rightarrow> unit comp) \<Rightarrow> unit comp \<Rightarrow> unit comp" where
  "if_stmt n ex stmt =
     (thenc advance (
       thenc (skip_c (sym SymLParen)) (
       thenc (ex 0) (
       thenc (skip_c (sym SymRParen)) (
       seqc (emit_inst PX64_OP_JZ 0 0 0) (\<lambda>jz_pos.
       seqc (look handle_states) (\<lambda>pre.
       thenc (expect (sym SymLBrace) ''ERR_EXPECTED_LBRACE'') (
       thenc (braced n stmt) (
       seqc (look handle_states) (\<lambda>states_if.
       seqc (match_token (kw KwElse)) (\<lambda>has_else.
       thenc (if has_else then else_branch n stmt jz_pos pre else patch_here jz_pos) (
       seqc (look (\<lambda>c. if has_else then handle_states c else pre)) (\<lambda>states_else.
       thenc (ensure_c (list_all2 same_state states_if states_else) ''ERR_TYPESTATE_MISMATCH'') (
       change (\<lambda>c. c\<lparr>handle_states := states_if\<rparr>)))))))))))))))"

section \<open>Let\<close>

definition match_eq :: "bool comp" where
  "match_eq = seqc (match_token (sym SymColonEq)) (\<lambda>b. if b then give True else match_token (sym SymEq))"

definition at_eq :: "Compiler \<Rightarrow> bool" where
  "at_eq c \<longleftrightarrow> peek_kind c = sym SymColonEq \<or> peek_kind c = sym SymEq"

fun array_elems :: "nat \<Rightarrow> (u8 \<Rightarrow> unit comp) \<Rightarrow> u8 \<Rightarrow> nat option \<Rightarrow> nat \<Rightarrow> unit comp" where
  "array_elems 0 ex arr limit i c = None"
| "array_elems (Suc n) ex arr limit i c =
     (if closes SymRBracket c then give () c
      else (thenc (ensure_c (case limit of Some len \<Rightarrow> i < len | None \<Rightarrow> True) ''ERR_ARRAY_INIT_TOO_MANY_ELEMENTS'') (
        seqc alloc_temp (\<lambda>idx_reg.
        seqc alloc_temp (\<lambda>val_reg.
        thenc (move_imm idx_reg i) (
        thenc (ex val_reg) (
        thenc (emit PX64_OP_ARR_STORE arr idx_reg val_reg) (
        thenc (free_temp val_reg) (
        thenc (free_temp idx_reg) (
        seqc (match_token (sym SymComma)) (\<lambda>more.
        if more then array_elems n ex arr limit (i + 1) else give ())))))))))) c)"

definition array_literal :: "nat \<Rightarrow> (u8 \<Rightarrow> unit comp) \<Rightarrow> u8 \<Rightarrow> nat option \<Rightarrow> unit comp" where
  "array_literal n ex arr limit =
     thenc (array_elems n ex arr limit 0) (expect (sym SymRBracket) ''ERR_ARRAY_SYNTAX'')"

definition new_array :: "Token \<Rightarrow> nat \<Rightarrow> u8 comp" where
  "new_array ident len =
     (seqc (declare_array ident len) (\<lambda>arr.
       thenc (emit_imm PX64_OP_ARR_DEF arr (of_nat len)) (
       give arr)))"

definition array_size :: "nat comp" where
  "array_size =
     seqc advance (\<lambda>len_tok.
       case kind len_tok of
         TkNumber v \<Rightarrow> if 0 < sint v then give (unat v) else fail_c ''ERR_ARRAY_INVALID_LEN''
       | _ \<Rightarrow> fail_c ''ERR_ARRAY_INVALID_LEN'')"

definition let_array :: "nat \<Rightarrow> (u8 \<Rightarrow> unit comp) \<Rightarrow> Token \<Rightarrow> unit comp" where
  "let_array n ex ident =
     (thenc advance (
       thenc (expect (sym SymSemi) ''ERR_ARRAY_SYNTAX'') (
       seqc array_size (\<lambda>len.
       thenc (expect (sym SymRBracket) ''ERR_ARRAY_SYNTAX'') (
       seqc (new_array ident len) (\<lambda>arr.
       seqc match_eq (\<lambda>eq.
       thenc (if eq then thenc (expect (sym SymLBracket) ''ERR_EXPECTED_LBRACKET'') (array_literal n ex arr (Some len))
     else give ()) (
       skip_c (sym SymSemi)))))))))"

definition let_literal :: "nat \<Rightarrow> (u8 \<Rightarrow> unit comp) \<Rightarrow> Token \<Rightarrow> unit comp" where
  "let_literal n ex ident =
     (thenc advance (
       thenc advance (
       seqc (look count_array_literal_elements) (\<lambda>len.
       thenc (ensure_c (len \<noteq> 0) ''ERR_ARRAY_INVALID_LEN'') (
       seqc (new_array ident len) (\<lambda>arr.
       thenc (array_literal n ex arr None) (
       skip_c (sym SymSemi))))))))"

definition let_view :: "(u8 \<Rightarrow> unit comp) \<Rightarrow> Token \<Rightarrow> bool \<Rightarrow> unit comp" where
  "let_view ex ident is_mut =
     (thenc advance (
       seqc (declare_var ident is_mut) (\<lambda>var_reg.
       seqc (parse_view_source_to_reg ex var_reg) (\<lambda>view.
       thenc (declare_view ident (view_arr_id view) var_reg (stride_imm view) (len_imm view)) (
       skip_c (sym SymSemi))))))"

definition set_var_types :: "Token \<Rightarrow> nat option \<Rightarrow> u8 option \<Rightarrow> unit comp" where
  "set_var_types ident e s =
     change (\<lambda>c. case get_var_index ident c of
         Some i \<Rightarrow> if i < MAX_VARS
           then c\<lparr>var_enum_types := (var_enum_types c)[i := e], var_fixed_scales := (var_fixed_scales c)[i := s]\<rparr> else c
       | None \<Rightarrow> c)"

definition set_var_enum :: "Token \<Rightarrow> unit comp" where
  "set_var_enum ident =
     change (\<lambda>c. case get_var_index ident c of
         Some i \<Rightarrow> if i < MAX_VARS then c\<lparr>var_enum_types := (var_enum_types c)[i := current_expr_enum_type c]\<rparr> else c
       | None \<Rightarrow> c)"

definition either :: "'a option \<Rightarrow> 'a option \<Rightarrow> 'a option" where
  "either a b = (case a of Some x \<Rightarrow> Some x | None \<Rightarrow> b)"

definition store_spilled :: "(u8 \<Rightarrow> unit comp) \<Rightarrow> u8 \<Rightarrow> unit comp" where
  "store_spilled ex slot =
     (seqc alloc_temp (\<lambda>temp_val.
       thenc (ex temp_val) (
       thenc (emit PX64_OP_SPILL_STORE slot temp_val 0) (
       free_temp temp_val))))"

definition let_init :: "(u8 \<Rightarrow> unit comp) \<Rightarrow> Token \<Rightarrow> u8 \<Rightarrow> nat option \<Rightarrow> u8 option \<Rightarrow> unit comp" where
  "let_init ex ident var_reg e s =
     (seqc (check_hw_assign_pre var_reg) (\<lambda>hw_move.
       thenc (change (\<lambda>c. c\<lparr>current_expr_enum_type := None, current_expr_fixed_scale := None, target_fixed_scale := s\<rparr>)) (
       seqc (look (is_spilled_var ident)) (\<lambda>spilled.
       thenc ((case spilled of Some slot \<Rightarrow> store_spilled ex slot | None \<Rightarrow> ex var_reg)) (
       thenc (apply_hw_assign_post var_reg ident hw_move) (
       seqc (look (\<lambda>c. (either e (current_expr_enum_type c), either s (current_expr_fixed_scale c)))) (\<lambda>types.
       thenc (set_var_types ident (fst types) (snd types)) (
       change (\<lambda>c. c\<lparr>target_fixed_scale := None\<rparr>)))))))))"

definition let_value :: "nat \<Rightarrow> (u8 \<Rightarrow> unit comp) \<Rightarrow> Token \<Rightarrow> bool \<Rightarrow> nat option \<Rightarrow> u8 option \<Rightarrow> unit comp" where
  "let_value n ex ident is_mut e s =
     (seqc (look at_eq) (\<lambda>eq.
       seqc (look (peek_ahead 1)) (\<lambda>next_tok.
       seqc (look (\<lambda>c. (kind next_tok = TkIntrinsicIdent \<or> kind next_tok = TkIdent) \<and> in_source next_tok c \<and>
       is_view_intrinsic (lexeme next_tok c))) (\<lambda>view.
       if eq \<and> kind next_tok = sym SymLBracket then let_literal n ex ident
     else if eq \<and> view then let_view ex ident is_mut
     else (seqc (declare_var ident is_mut) (\<lambda>var_reg.
       seqc match_eq (\<lambda>init.
       thenc (if init then let_init ex ident var_reg e s
       else if e \<noteq> None \<or> s \<noteq> None then set_var_types ident e s
       else give ()) (
       skip_c (sym SymSemi)))))))))"

definition fixed_scale_of :: "TokenKind \<Rightarrow> u8 option" where
  "fixed_scale_of k = (case k of TkNumber v \<Rightarrow> if 1 \<le> sint v \<and> sint v \<le> 31 then Some (ucast v) else None | _ \<Rightarrow> None)"

definition fixed_type :: "u8 comp" where
  "fixed_type =
     (thenc (expect (sym SymLt) ''ERR_FIXED_SYNTAX'') (
       seqc advance (\<lambda>n_tok.
       seqc ((case fixed_scale_of (kind n_tok) of Some s \<Rightarrow> give s | None \<Rightarrow> fail_c ''ERR_INVALID_FIXED_SCALE'')) (\<lambda>scale.
       thenc (expect (sym SymGt) ''ERR_FIXED_SYNTAX'') (
       give scale)))))"

definition is_int_type :: "TokenKind \<Rightarrow> bool" where
  "is_int_type k \<longleftrightarrow> k \<in> {kw KwU8, kw KwU16, kw KwU32, kw KwU64, kw KwI64}"

definition let_typed :: "nat \<Rightarrow> (u8 \<Rightarrow> unit comp) \<Rightarrow> Token \<Rightarrow> bool \<Rightarrow> unit comp" where
  "let_typed n ex ident is_mut =
     (seqc advance (\<lambda>type_tok.
       if kind type_tok = kw KwFixed then (seqc fixed_type (\<lambda>s.
         let_value n ex ident is_mut None (Some s)))
     else (seqc (is_struct_type type_tok) (\<lambda>st.
       if st then thenc (declare_struct_inst ident type_tok) (skip_c (sym SymSemi))
       else if is_int_type (kind type_tok) then let_value n ex ident is_mut None None
       else (seqc (name_of type_tok) (\<lambda>type_name.
         seqc (look (lookup_enum_by_name type_name)) (\<lambda>e.
         let_value n ex ident is_mut e None)))))))"

definition let_stmt :: "nat \<Rightarrow> (u8 \<Rightarrow> unit comp) \<Rightarrow> unit comp" where
  "let_stmt n ex =
     (thenc advance (
       seqc (match_token (kw KwMut)) (\<lambda>is_mut.
       seqc advance (\<lambda>ident.
       seqc (match_token (sym SymColon)) (\<lambda>typed.
       seqc ((if typed then match_token (sym SymLBracket) else give False)) (\<lambda>arr.
       if arr then let_array n ex ident
     else if typed then let_typed n ex ident is_mut
     else let_value n ex ident is_mut None None))))))"

section \<open>Assignments\<close>

definition assign_field :: "(u8 \<Rightarrow> unit comp) \<Rightarrow> unit comp" where
  "assign_field ex =
     (seqc advance (\<lambda>var_tok.
       thenc (skip_c (sym SymDot)) (
       seqc advance (\<lambda>field_tok.
       thenc (ensure_c (kind field_tok = TkIdent) ''ERR_EXPECTED_FIELD_NAME'') (
       seqc (name_of var_tok) (\<lambda>var_name.
       seqc (name_of field_tok) (\<lambda>f_name.
       seqc (lookup_struct_field var_name f_name) (\<lambda>(inst, offset).
       seqc match_eq (\<lambda>eq.
       thenc (ensure_c eq ''ERR_EXPECTED_COLON_EQ'') (
       seqc alloc_temp (\<lambda>val_reg.
       thenc (ex val_reg) (
       thenc (skip_c (sym SymSemi)) (
       thenc (emit PX64_OP_STRUCT_STORE inst offset val_reg) (
       free_temp val_reg))))))))))))))"

definition assign_element :: "(u8 \<Rightarrow> unit comp) \<Rightarrow> unit comp" where
  "assign_element ex =
     (seqc advance (\<lambda>ident.
       seqc (lookup_array ident) (\<lambda>arr.
       thenc (skip_c (sym SymLBracket)) (
       seqc alloc_temp (\<lambda>idx_reg.
       thenc (ex idx_reg) (
       thenc (skip_c (sym SymRBracket)) (
       seqc match_eq (\<lambda>eq.
       thenc (ensure_c eq ''ERR_EXPECTED_COLON_EQ'') (
       seqc alloc_temp (\<lambda>val_reg.
       thenc (ex val_reg) (
       thenc (skip_c (sym SymSemi)) (
       thenc (emit PX64_OP_ARR_STORE arr idx_reg val_reg) (
       thenc (free_temp val_reg) (
       free_temp idx_reg))))))))))))))"

definition expression_statement :: "(u8 \<Rightarrow> unit comp) \<Rightarrow> unit comp" where
  "expression_statement ex = thenc (ex 0) (expect (sym SymSemi) ''ERR_MISSING_SEMICOLON'')"

text \<open>\<^verbatim>\<open>$x += e\<close> and \<^verbatim>\<open>$x -= e\<close> for a variable in a spill slot.\<close>

definition update_spilled :: "(u8 \<Rightarrow> unit comp) \<Rightarrow> Token \<Rightarrow> u8 \<Rightarrow> px64_op \<Rightarrow> unit comp" where
  "update_spilled ex ident slot op =
     (thenc (check_var_mutation ident) (
       seqc alloc_temp (\<lambda>temp_lhs.
       thenc (emit PX64_OP_SPILL_LOAD temp_lhs slot 0) (
       seqc alloc_temp (\<lambda>temp_rhs.
       thenc (ex temp_rhs) (
       thenc (emit op temp_lhs temp_lhs temp_rhs) (
       thenc (emit PX64_OP_SPILL_STORE slot temp_lhs 0) (
       thenc (free_temp temp_rhs) (
       thenc (free_temp temp_lhs) (
       expect (sym SymSemi) ''ERR_MISSING_SEMICOLON''))))))))))"

definition assign_spilled :: "(u8 \<Rightarrow> unit comp) \<Rightarrow> Token \<Rightarrow> u8 \<Rightarrow> unit comp" where
  "assign_spilled ex ident slot =
     (thenc (check_var_mutation ident) (
       thenc (change (\<lambda>c. c\<lparr>current_expr_enum_type := None\<rparr>)) (
       thenc (store_spilled ex slot) (
       thenc (set_var_enum ident) (
       expect (sym SymSemi) ''ERR_MISSING_SEMICOLON'')))))"

definition small_number :: "TokenKind \<Rightarrow> u8 option" where
  "small_number k = (case k of TkNumber v \<Rightarrow> if 0 \<le> sint v \<and> sint v \<le> 255 then Some (ucast v) else None | _ \<Rightarrow> None)"

text \<open>The same for a variable in a register, with a short form for small numbers.\<close>

definition update_reg :: "(u8 \<Rightarrow> unit comp) \<Rightarrow> Token \<Rightarrow> u8 \<Rightarrow> px64_op \<Rightarrow> px64_op \<Rightarrow> unit comp" where
  "update_reg ex ident var_reg op op_imm =
     (thenc (check_var_mutation ident) (
       seqc (look peek_kind) (\<lambda>k.
       thenc ((case small_number k of
        Some v \<Rightarrow> thenc advance (emit op_imm var_reg var_reg v)
      | None \<Rightarrow> (seqc alloc_temp (\<lambda>tmp_reg.
        thenc (ex tmp_reg) (
        thenc (emit op var_reg var_reg tmp_reg) (
        free_temp tmp_reg)))))) (
       expect (sym SymSemi) ''ERR_MISSING_SEMICOLON''))))"

definition assign_reg :: "(u8 \<Rightarrow> unit comp) \<Rightarrow> Token \<Rightarrow> u8 \<Rightarrow> unit comp" where
  "assign_reg ex ident var_reg =
     (thenc (check_var_mutation ident) (
       seqc (check_hw_assign_pre var_reg) (\<lambda>hw_move.
       thenc (change (\<lambda>c. c\<lparr>current_expr_enum_type := None\<rparr>)) (
       thenc (ex var_reg) (
       thenc (apply_hw_assign_post var_reg ident hw_move) (
       thenc (set_var_enum ident) (
       expect (sym SymSemi) ''ERR_MISSING_SEMICOLON'')))))))"

definition var_in_register :: "(u8 \<Rightarrow> unit comp) \<Rightarrow> Token \<Rightarrow> unit comp" where
  "var_in_register ex ident =
     (seqc (resolve_var ident) (\<lambda>var_reg.
       seqc match_eq (\<lambda>eq.
       if eq then assign_reg ex ident var_reg
     else (seqc (match_token (sym SymPlusEq)) (\<lambda>plus.
       if plus then update_reg ex ident var_reg PX64_OP_ADD PX64_OP_ADDI
       else (seqc (match_token (sym SymMinusEq)) (\<lambda>minus.
         if minus then update_reg ex ident var_reg PX64_OP_SUB PX64_OP_SUBI
         else thenc (change (\<lambda>c. c\<lparr>current := current c - 1\<rparr>)) (expression_statement ex))))))))"

definition var_in_slot :: "(u8 \<Rightarrow> unit comp) \<Rightarrow> Token \<Rightarrow> u8 \<Rightarrow> unit comp" where
  "var_in_slot ex ident slot =
     (seqc match_eq (\<lambda>eq.
       if eq then assign_spilled ex ident slot
     else (seqc (match_token (sym SymPlusEq)) (\<lambda>plus.
       if plus then update_spilled ex ident slot PX64_OP_ADD
       else (seqc (match_token (sym SymMinusEq)) (\<lambda>minus.
         if minus then update_spilled ex ident slot PX64_OP_SUB
         else var_in_register ex ident))))))"

definition var_stmt :: "(u8 \<Rightarrow> unit comp) \<Rightarrow> unit comp" where
  "var_stmt ex =
     (seqc (look (\<lambda>c. kind (peek_ahead 1 c))) (\<lambda>k.
       if k = sym SymDot then assign_field ex
     else if k = sym SymLBracket then assign_element ex
     else (seqc advance (\<lambda>ident.
       seqc (look (is_spilled_var ident)) (\<lambda>spilled.
       case spilled of
         Some slot \<Rightarrow> var_in_slot ex ident slot
       | None \<Rightarrow> var_in_register ex ident)))))"

end
