(* ===== verification/Compile.thy ===== *)
theory Compile
  imports CompStmt Container Lexer
begin

text \<open>
  Pattern matching, functions, the recursion of the parsers and the compiler's entry points
  (\<^verbatim>\<open>pulselang-core/src/compiler.rs\<close>, \<^verbatim>\<open>statement\<close> and \<^verbatim>\<open>compile\<close>, and
  \<^verbatim>\<open>compile_pulse_to_binary_with_tokens\<close> and \<^verbatim>\<open>check\<close> of \<^verbatim>\<open>pulselang-core/src/lib.rs\<close>).
\<close>

section \<open>Match\<close>

record match_state =
  arm_jmp_ends :: "nat list"
  has_ok_arm :: bool
  has_err_arm :: bool
  has_wildcard :: bool
  handled_variants :: "bool list"
  match_enum_type :: "nat option"

definition add_arm :: "nat \<Rightarrow> match_state \<Rightarrow> match_state" where
  "add_arm jmp_end ms = ms\<lparr>arm_jmp_ends := arm_jmp_ends ms @ [jmp_end]\<rparr>"

text \<open>The body of an arm and the jump behind the last one.\<close>

definition arm_body :: "nat \<Rightarrow> unit comp \<Rightarrow> nat comp" where
  "arm_body n stmt =
     (thenc (branch n stmt stmt) (
       thenc (skip_c (sym SymComma)) (
       emit_imm16 PX64_OP_JMP 0 0)))"

text \<open>An arm behind a jump that skips it.\<close>

definition guarded_arm :: "nat \<Rightarrow> unit comp \<Rightarrow> nat \<Rightarrow> match_state \<Rightarrow> match_state comp" where
  "guarded_arm n stmt skip_pos ms =
     (seqc (arm_body n stmt) (\<lambda>jmp_end.
       thenc (patch_here skip_pos) (
       give (add_arm jmp_end ms))))"

definition wildcard_arm :: "nat \<Rightarrow> unit comp \<Rightarrow> match_state \<Rightarrow> match_state comp" where
  "wildcard_arm n stmt ms =
     (thenc advance (
       thenc (expect (sym SymFatArrow) ''ERR_EXPECTED_FAT_ARROW'') (
       seqc (arm_body n stmt) (\<lambda>jmp_end.
       give (add_arm jmp_end (ms\<lparr>has_wildcard := True, handled_variants := replicate MAX_ENUM_VARIANTS True\<rparr>))))))"

text \<open>The jump that skips an arm unless the matched value is the pattern.\<close>

definition compare_arm :: "u8 \<Rightarrow> u8 \<Rightarrow> nat comp" where
  "compare_arm match_reg pat_reg =
     (seqc alloc_temp (\<lambda>cmp_reg.
       thenc (emit PX64_OP_CMP_EQ cmp_reg match_reg pat_reg) (
       thenc (free_temp pat_reg) (
       seqc (emit_imm16 PX64_OP_JZ cmp_reg 0) (\<lambda>jz_skip.
       thenc (free_temp cmp_reg) (
       give jz_skip))))))"

definition same_enum :: "nat option \<Rightarrow> nat \<Rightarrow> bool" where
  "same_enum expected_enum e \<longleftrightarrow> (case expected_enum of Some e' \<Rightarrow> e' = e | None \<Rightarrow> True)"

definition enum_arm :: "nat \<Rightarrow> unit comp \<Rightarrow> u8 \<Rightarrow> match_state \<Rightarrow> match_state comp" where
  "enum_arm n stmt match_reg ms =
     (seqc advance (\<lambda>enum_tok.
       thenc advance (
       seqc advance (\<lambda>var_tok.
       thenc (ensure_c (kind var_tok = TkIdent) ''ERR_EXPECTED_VARIANT_NAME'') (
       seqc (name_of enum_tok) (\<lambda>e_name.
       seqc (name_of var_tok) (\<lambda>v_name.
       seqc (look (lookup_enum_by_name e_name)) (\<lambda>found.
       seqc ((case found of Some e \<Rightarrow> give e | None \<Rightarrow> fail_c ''ERR_UNKNOWN_ENUM_TYPE'')) (\<lambda>e.
       thenc (ensure_c (same_enum (match_enum_type ms) e) ''ERR_ENUM_TYPE_MISMATCH'') (
       seqc (look (lookup_enum_variant e v_name)) (\<lambda>variant.
       seqc ((case variant of Some v \<Rightarrow> give v | None \<Rightarrow> fail_c ''ERR_UNKNOWN_ENUM_VARIANT'')) (\<lambda>v.
       thenc (ensure_c (\<not> handled_variants ms ! v) ''ERR_UNREACHABLE_PATTERN'') (
       thenc (expect (sym SymFatArrow) ''ERR_EXPECTED_FAT_ARROW'') (
       seqc alloc_temp (\<lambda>pat_reg.
       thenc (emit_imm PX64_OP_MOV_IMM pat_reg (of_nat v)) (
       seqc (compare_arm match_reg pat_reg) (\<lambda>jz_skip.
       guarded_arm n stmt jz_skip
       (ms\<lparr>handled_variants := (handled_variants ms)[v := True], match_enum_type := Some e\<rparr>))))))))))))))))))"

text \<open>\<^verbatim>\<open>Ok($v) =>\<close> and \<^verbatim>\<open>Err($v) =>\<close>: the variable that is bound.\<close>

definition result_pattern :: "Token comp" where
  "result_pattern =
     (thenc advance (
       thenc (expect (sym SymLParen) ''ERR_EXPECTED_LPAREN'') (
       seqc advance (\<lambda>bind_tok.
       thenc (expect (sym SymRParen) ''ERR_UNCLOSED_PAREN'') (
       thenc (expect (sym SymFatArrow) ''ERR_EXPECTED_FAT_ARROW'') (
       give bind_tok))))))"

definition test_result :: "native \<Rightarrow> u8 \<Rightarrow> nat comp" where
  "test_result f match_reg =
     (seqc alloc_temp (\<lambda>test_reg.
       thenc (emit PX64_OP_CALL_NAT test_reg (native_code f) match_reg) (
       seqc (emit_imm16 PX64_OP_JNZ test_reg 0) (\<lambda>jnz_skip.
       thenc (free_temp test_reg) (
       give jnz_skip)))))"

definition ok_arm :: "nat \<Rightarrow> unit comp \<Rightarrow> u8 \<Rightarrow> match_state \<Rightarrow> match_state comp" where
  "ok_arm n stmt match_reg ms =
     (seqc result_pattern (\<lambda>bind_tok.
       seqc (test_result NATIVE_IS_ERR match_reg) (\<lambda>jnz_skip.
       seqc (resolve_var bind_tok) (\<lambda>bind_reg.
       seqc alloc_temp (\<lambda>unwrap_reg.
       thenc (emit PX64_OP_CALL_NAT unwrap_reg (native_code NATIVE_UNWRAP) match_reg) (
       thenc (emit PX64_OP_MOV_REG bind_reg unwrap_reg 0) (
       thenc (free_temp unwrap_reg) (
       guarded_arm n stmt jnz_skip (ms\<lparr>has_ok_arm := True\<rparr>)))))))))"

definition err_arm :: "nat \<Rightarrow> unit comp \<Rightarrow> u8 \<Rightarrow> match_state \<Rightarrow> match_state comp" where
  "err_arm n stmt match_reg ms =
     (seqc result_pattern (\<lambda>bind_tok.
       seqc (test_result NATIVE_IS_OK match_reg) (\<lambda>jnz_skip.
       seqc (resolve_var bind_tok) (\<lambda>bind_reg.
       seqc alloc_temp (\<lambda>tag_reg.
       thenc (emit_const tag_reg ERR_TAG) (
       thenc (emit PX64_OP_XOR bind_reg match_reg tag_reg) (
       thenc (free_temp tag_reg) (
       guarded_arm n stmt jnz_skip (ms\<lparr>has_err_arm := True\<rparr>)))))))))"

definition value_arm :: "nat \<Rightarrow> (u8 \<Rightarrow> unit comp) \<Rightarrow> unit comp \<Rightarrow> u8 \<Rightarrow> match_state \<Rightarrow> match_state comp" where
  "value_arm n ex stmt match_reg ms =
     (seqc alloc_temp (\<lambda>pat_reg.
       thenc (ex pat_reg) (
       thenc (expect (sym SymFatArrow) ''ERR_EXPECTED_FAT_ARROW'') (
       seqc (compare_arm match_reg pat_reg) (\<lambda>jz_skip.
       guarded_arm n stmt jz_skip ms)))))"

fun match_arms :: "nat \<Rightarrow> (u8 \<Rightarrow> unit comp) \<Rightarrow> unit comp \<Rightarrow> nat \<Rightarrow> u8 \<Rightarrow> match_state \<Rightarrow> match_state comp" where
  "match_arms 0 ex stmt k match_reg ms c = None"
| "match_arms (Suc n) ex stmt k match_reg ms c =
     (if closes SymRBrace c then give ms c
      else (thenc (ensure_c (length (arm_jmp_ends ms) < 16) ''ERR_MAX_MATCH_ARMS_EXCEEDED'') (
        seqc (look peek) (\<lambda>pat_tok.
        seqc (name_of pat_tok) (\<lambda>name.
        seqc (look (\<lambda>c. kind (peek_ahead 1 c))) (\<lambda>next_kind.
        if kind pat_tok = sym SymUnderscore \<or> name = bytes ''_'' then wildcard_arm k stmt ms
        else (seqc ((if (kind pat_tok = TkIdent \<or> kind pat_tok = TkIntrinsicIdent) \<and> next_kind = sym SymColonColon
                  then enum_arm k stmt match_reg ms
                  else if name = bytes ''Ok'' then ok_arm k stmt match_reg ms
                  else if name = bytes ''Err'' then err_arm k stmt match_reg ms
                  else value_arm k ex stmt match_reg ms)) (\<lambda>ms'.
          match_arms n ex stmt k match_reg ms'))))))) c)"

definition exhaustive :: "match_state \<Rightarrow> Compiler \<Rightarrow> bool" where
  "exhaustive ms c \<longleftrightarrow>
     has_wildcard ms \<or>
     (case match_enum_type ms of
        Some e \<Rightarrow> (\<forall>v < length (variants (enums c ! e)). handled_variants ms ! v)
      | None \<Rightarrow> has_ok_arm ms \<and> has_err_arm ms)"

fun patch_all :: "nat list \<Rightarrow> unit comp" where
  "patch_all [] = give ()"
| "patch_all (p # ps) = thenc (patch_here p) (patch_all ps)"

definition match_stmt :: "nat \<Rightarrow> (u8 \<Rightarrow> unit comp) \<Rightarrow> unit comp \<Rightarrow> unit comp" where
  "match_stmt n ex stmt =
     (thenc advance (
       thenc (change (\<lambda>c. c\<lparr>current_expr_enum_type := None\<rparr>)) (
       seqc alloc_temp (\<lambda>match_reg.
       thenc (ex match_reg) (
       seqc (look current_expr_enum_type) (\<lambda>e.
       thenc (expect (sym SymLBrace) ''ERR_EXPECTED_LBRACE'') (
       seqc (match_arms n ex stmt n match_reg
       \<lparr>arm_jmp_ends = [], has_ok_arm = False, has_err_arm = False, has_wildcard = False,
        handled_variants = replicate MAX_ENUM_VARIANTS False, match_enum_type = e\<rparr>) (\<lambda>ms.
       thenc (expect (sym SymRBrace) ''ERR_UNCLOSED_BRACE'') (
       seqc (look (exhaustive ms)) (\<lambda>complete.
       thenc (ensure_c complete ''ERR_NON_EXHAUSTIVE_MATCH'') (
       thenc (patch_all (arm_jmp_ends ms)) (
       thenc (free_temp match_reg) (
       skip_c (sym SymSemi))))))))))))))"

section \<open>Functions\<close>

text \<open>The type of a parameter; only a fixed-point scale is kept.\<close>

definition param_type :: "u8 option comp" where
  "param_type =
     (seqc (match_token (sym SymColon)) (\<lambda>colon.
       if colon then (seqc advance (\<lambda>t_tok.
         seqc ((if kind t_tok = kw KwFixed then match_token (sym SymLt) else give False)) (\<lambda>lt.
         if lt then (seqc advance (\<lambda>n_tok.
           thenc (skip_c (sym SymGt)) (
           give (fixed_scale_of (kind n_tok)))))
       else give None)))
     else give None))"

fun fn_params :: "nat \<Rightarrow> u8 list list \<Rightarrow> u8 option list \<Rightarrow> (u8 list list \<times> u8 option list) comp" where
  "fn_params 0 names scales c = None"
| "fn_params (Suc n) names scales c =
     (if closes SymRParen c then give (names, scales) c
      else (seqc advance (\<lambda>p_tok.
        thenc (ensure_c (kind p_tok = TkVarIdent) ''ERR_EXPECTED_PARAM_VAR'') (
        seqc (name_of p_tok) (\<lambda>p_name.
        thenc (ensure_c (length names < 4) ''ERR_MAX_PARAMS_EXCEEDED'') (
        seqc param_type (\<lambda>scale.
        seqc (match_token (sym SymComma)) (\<lambda>more.
        if more then fn_params n (names @ [take 16 p_name]) (scales @ [scale])
        else give (names @ [take 16 p_name], scales @ [scale])))))))) c)"

definition update_fn :: "nat \<Rightarrow> (FnMeta \<Rightarrow> FnMeta) \<Rightarrow> unit comp" where
  "update_fn i f = change (\<lambda>c. c\<lparr>c_functions := (c_functions c)[i := f (c_functions c ! i)]\<rparr>)"

definition wcet_clause :: "nat \<Rightarrow> unit comp" where
  "wcet_clause fn_idx =
     (thenc (expect (sym SymLParen) ''ERR_CONTRACT_SYNTAX'') (
       seqc advance (\<lambda>t.
       seqc ((case kind t of
       TkTimeLiteral ns \<Rightarrow> give ns
     | TkNumber v \<Rightarrow> if 0 \<le> sint v then give v else fail_c ''ERR_EXPECTED_TIME_LITERAL''
     | _ \<Rightarrow> fail_c ''ERR_EXPECTED_TIME_LITERAL'')) (\<lambda>wcet_ns.
       thenc (expect (sym SymRParen) ''ERR_UNCLOSED_PAREN'') (
       update_fn fn_idx (\<lambda>f. f\<lparr>fn_declared_wcet_ns := Some wcet_ns\<rparr>))))))"

definition requires_clause :: "(u8 \<Rightarrow> unit comp) \<Rightarrow> unit comp" where
  "requires_clause ex =
     (thenc (expect (sym SymLParen) ''ERR_CONTRACT_SYNTAX'') (
       seqc alloc_temp (\<lambda>cond_reg.
       thenc (ex cond_reg) (
       thenc (expect (sym SymRParen) ''ERR_UNCLOSED_PAREN'') (
       thenc (emit PX64_OP_ASSERT cond_reg 0 0) (
       free_temp cond_reg))))))"

definition ensures_clause :: "nat \<Rightarrow> unit comp" where
  "ensures_clause fn_idx =
     (thenc (expect (sym SymLParen) ''ERR_CONTRACT_SYNTAX'') (
       seqc (look current) (\<lambda>start_tok.
       seqc (skip_balanced SymLParen SymRParen) (\<lambda>depth.
       thenc (ensure_c (depth = 0) ''ERR_UNCLOSED_PAREN'') (
       seqc (look (\<lambda>c. current c - 1)) (\<lambda>end_tok.
       update_fn fn_idx (\<lambda>f. if length (ensures_tokens f) < 4
       then f\<lparr>ensures_tokens := ensures_tokens f @ [(start_tok, end_tok)]\<rparr> else f)))))))"

fun fn_clauses :: "nat \<Rightarrow> (u8 \<Rightarrow> unit comp) \<Rightarrow> nat \<Rightarrow> unit comp" where
  "fn_clauses 0 ex fn_idx c = None"
| "fn_clauses (Suc n) ex fn_idx c =
     (let k = peek_kind c
      in if k = dir AtWcet then (thenc advance (
        thenc (wcet_clause fn_idx) (
        fn_clauses n ex fn_idx))) c
         else if k = dir AtRequires then (thenc advance (
           thenc (requires_clause ex) (
           fn_clauses n ex fn_idx))) c
         else if k = dir AtEnsures then (thenc advance (
           thenc (ensures_clause fn_idx) (
           fn_clauses n ex fn_idx))) c
         else give () c)"

text \<open>\<^verbatim>\<open>(count as u64).saturating_mul(3).max(10)\<close>; the count is at most 1024.\<close>

definition fn_wcet :: "nat \<Rightarrow> u64" where
  "fn_wcet inst_count = of_int (max (min (int inst_count * 3) (2 ^ 64 - 1)) 10)"

definition record_wcet :: "nat \<Rightarrow> u64 \<Rightarrow> unit comp" where
  "record_wcet fn_idx estimated =
     (thenc (update_fn fn_idx (\<lambda>f. f\<lparr>fn_estimated_wcet_ns := estimated\<rparr>)) (
       thenc (change (\<lambda>c. let f = c_functions c ! fn_idx
       in if length (wcet_items c) < 16
          then c\<lparr>wcet_items := wcet_items c @ [\<lparr>item_name = fn_name f,
            item_declared_ns = fn_declared_wcet_ns f, item_estimated_ns = estimated\<rparr>]\<rparr> else c)) (
       seqc (look (\<lambda>c. fn_declared_wcet_ns (c_functions c ! fn_idx))) (\<lambda>declared_ns.
       ensure_c (case declared_ns of Some d \<Rightarrow> estimated \<le> d | None \<Rightarrow> True) ''ERR_WCET_CONTRACT_MISMATCH''))))"

definition fn_body :: "nat \<Rightarrow> (u8 \<Rightarrow> unit comp) \<Rightarrow> unit comp \<Rightarrow> nat \<Rightarrow> unit comp" where
  "fn_body n ex stmt fn_idx =
     (thenc (fn_clauses n ex fn_idx) (
       thenc (expect (sym SymLBrace) ''ERR_EXPECTED_LBRACE'') (
       seqc (look (\<lambda>c. code_len c)) (\<lambda>fn_body_start.
       thenc (braced n stmt) (
       seqc (look (\<lambda>c. code_len c)) (\<lambda>fn_body_end.
       thenc (record_wcet fn_idx (fn_wcet ((fn_body_end - fn_body_start) div 4))) (
       thenc (emit_ensures_checks ex fn_idx) (
       emit PX64_OP_RET 0 0 0))))))))"

definition fn_stmt :: "nat \<Rightarrow> (u8 \<Rightarrow> unit comp) \<Rightarrow> unit comp \<Rightarrow> unit comp" where
  "fn_stmt n ex stmt =
     (thenc advance (
       seqc advance (\<lambda>name_tok.
       thenc (ensure_c (kind name_tok = TkIdent) ''ERR_EXPECTED_FN_NAME'') (
       seqc (name_of name_tok) (\<lambda>f_name.
       seqc (look c_functions) (\<lambda>fns.
       thenc (ensure_c (length fns < 16) ''ERR_MAX_FNS_EXCEEDED'') (
       thenc (ensure_c (f_name \<notin> fn_name ` set fns) ''ERR_FN_REDEFINED'') (
       seqc (emit_imm16 PX64_OP_JMP 0 0) (\<lambda>jmp_skip.
       seqc (look (\<lambda>c. code_len c)) (\<lambda>entry.
       thenc (expect (sym SymLParen) ''ERR_EXPECTED_LPAREN'') (
       seqc (fn_params n [] []) (\<lambda>params.
       thenc (expect (sym SymRParen) ''ERR_EXPECTED_RPAREN'') (
       seqc (match_token (sym SymArrow)) (\<lambda>arrow.
       thenc (if arrow then thenc advance (give ()) else give ()) (
       seqc (look (\<lambda>c. length (c_functions c))) (\<lambda>fn_idx.
       seqc (look current_fn) (\<lambda>prev_fn.
       seqc (look var_count) (\<lambda>saved_var_count.
       thenc (change (\<lambda>c. c\<lparr>c_functions := c_functions c @
         [\<lparr>fn_name = take 32 f_name, entry_pc = of_nat entry, param_names = fst params, ensures_tokens = [],
           param_fixed_scales = snd params, fn_declared_wcet_ns = None, fn_estimated_wcet_ns = 0\<rparr>],
       current_fn := Some fn_idx\<rparr>)) (
       thenc (fn_body n ex stmt fn_idx) (
       thenc (change (\<lambda>c. c\<lparr>var_count := saved_var_count, current_fn := prev_fn\<rparr>)) (
       patch_here jmp_skip)))))))))))))))))))))"

definition return_stmt :: "(u8 \<Rightarrow> unit comp) \<Rightarrow> unit comp" where
  "return_stmt ex =
     (thenc advance (
       seqc (look peek_kind) (\<lambda>k.
       thenc (if k \<noteq> sym SymSemi then ex 0 else give ()) (
       thenc (skip_c (sym SymSemi)) (
       seqc (look current_fn) (\<lambda>f.
       thenc ((case f of Some fn_idx \<Rightarrow> emit_ensures_checks ex fn_idx | None \<Rightarrow> give ())) (
       emit PX64_OP_RET 0 0 0)))))))"

section \<open>Statements and the recursion of the parsers\<close>

definition keyword_stmt :: "bool \<Rightarrow> nat \<Rightarrow> (u8 \<Rightarrow> unit comp) \<Rightarrow> unit comp \<Rightarrow> keyword \<Rightarrow> unit comp" where
  "keyword_stmt checked n ex stmt k =
     (case k of
        KwPipeline \<Rightarrow> pipeline_stmt n stmt
      | KwOn \<Rightarrow> on_stmt n stmt
      | KwWithin \<Rightarrow> within_stmt n stmt
      | KwWhile \<Rightarrow> while_stmt n ex stmt
      | KwFor \<Rightarrow> for_stmt checked n ex stmt
      | KwLet \<Rightarrow> let_stmt n ex
      | KwIf \<Rightarrow> if_stmt n ex stmt
      | KwMatch \<Rightarrow> match_stmt n ex stmt
      | KwFn \<Rightarrow> fn_stmt n ex stmt
      | KwReturn \<Rightarrow> return_stmt ex
      | KwStruct \<Rightarrow> thenc advance (declare_struct_def n)
      | KwEnum \<Rightarrow> thenc advance (declare_enum_def n)
      | KwConst \<Rightarrow> thenc advance (declare_const_table checked n)
      | _ \<Rightarrow> expression_statement ex)"

definition directive_stmt :: "bool \<Rightarrow> nat \<Rightarrow> (u8 \<Rightarrow> unit comp) \<Rightarrow> unit comp \<Rightarrow> directive \<Rightarrow> unit comp" where
  "directive_stmt checked n ex stmt d =
     (case d of
        AtImport \<Rightarrow> import_stmt
      | AtTest \<Rightarrow> test_stmt
      | AtContract \<Rightarrow> contract_stmt n
      | AtPoolSize \<Rightarrow> thenc advance (declare_pool_size n)
      | AtPipeline \<Rightarrow> pipeline_stmt n stmt
      | AtOnVblank \<Rightarrow> on_stmt n stmt
      | AtWithin \<Rightarrow> within_stmt n stmt
      | AtWhile \<Rightarrow> while_stmt n ex stmt
      | AtFor \<Rightarrow> for_stmt checked n ex stmt
      | AtAssert \<Rightarrow> assert_stmt ex
      | _ \<Rightarrow> expression_statement ex)"

definition statement_body :: "bool \<Rightarrow> nat \<Rightarrow> (u8 \<Rightarrow> unit comp) \<Rightarrow> unit comp \<Rightarrow> unit comp" where
  "statement_body checked n ex stmt c =
     (case peek_kind c of
        TkSymbol SymSemi \<Rightarrow> thenc advance (give ())
      | TkDirective d \<Rightarrow> directive_stmt checked n ex stmt d
      | TkKeyword k \<Rightarrow> keyword_stmt checked n ex stmt k
      | TkVarIdent \<Rightarrow> var_stmt ex
      | TkHardwareIdent \<Rightarrow> var_stmt ex
      | _ \<Rightarrow> expression_statement ex) c"

text \<open>
  The first argument bounds the depth of the recursion and the rounds of every loop.
\<close>

fun primary :: "nat \<Rightarrow> bool \<Rightarrow> u8 \<Rightarrow> i64 option comp"
  and ternary :: "nat \<Rightarrow> bool \<Rightarrow> u8 \<Rightarrow> i64 option comp"
  and expression :: "nat \<Rightarrow> bool \<Rightarrow> u8 \<Rightarrow> unit comp"
  and statement :: "nat \<Rightarrow> bool \<Rightarrow> unit comp" where
  "primary 0 checked dst = (\<lambda>c. None)"
| "primary (Suc n) checked dst = primary_body checked n (primary n checked) (ternary n checked) (expression n checked) dst"
| "ternary 0 checked dst = (\<lambda>c. None)"
| "ternary (Suc n) checked dst = ternary_body n (primary n checked) (expression n checked) (statement n checked) dst"
| "expression 0 checked dst = (\<lambda>c. None)"
| "expression (Suc n) checked dst = expression_body n (ternary n checked) dst"
| "statement 0 checked = (\<lambda>c. None)"
| "statement (Suc n) checked = statement_body checked n (expression n checked) (statement n checked)"

section \<open>Programs\<close>

fun statements :: "nat \<Rightarrow> unit comp \<Rightarrow> unit comp" where
  "statements 0 stmt c = None"
| "statements (Suc n) stmt c = (if peek_kind c = TkEof then give () c else thenc stmt (statements n stmt) c)"

text \<open>The first handle that is still captured at the end.\<close>

definition unconsumed :: "Compiler \<Rightarrow> Diagnostic option" where
  "unconsumed c =
     (case find (\<lambda>t. case t of Captured _ _ _ \<Rightarrow> True | _ \<Rightarrow> False) (handle_states c) of
        Some (Captured l k _) \<Rightarrow>
          Some \<lparr>d_code = ''ERR_LINEAR_UNCONSUMED_HANDLE'', d_line = l, d_col = k, d_offset = 0,
                d_kind = TkHardwareIdent, d_len = 2\<rparr>
      | _ \<Rightarrow> None)"

definition check_handles :: "unit comp" where
  "check_handles c = (case unconsumed c of Some d \<Rightarrow> Some (Err d) | None \<Rightarrow> give () c)"

definition compile :: "nat \<Rightarrow> bool \<Rightarrow> nat comp" where
  "compile n checked =
     (thenc (statements n (statement n checked)) (
       thenc check_handles (
       thenc (emit PX64_OP_HALT 0 0 0) (
       thenc (change (\<lambda>c. c\<lparr>total_synthesized_wcet_ns := of_int (min (int (code_len c div 4) * 3) (2 ^ 64 - 1))\<rparr>)) (
       seqc (look (\<lambda>c. case declared_script_wcet_ns c of
       Some d \<Rightarrow> total_synthesized_wcet_ns c \<le> d
     | None \<Rightarrow> True)) (\<lambda>in_time.
       thenc (ensure_c in_time ''ERR_WCET_CONTRACT_MISMATCH'') (
       look (\<lambda>c. code_len c))))))))"

text \<open>A diagnostic of lexer, compiler and writer without its texts.\<close>

definition diagnostic_of :: "CompileError \<Rightarrow> Diagnostic" where
  "diagnostic_of e =
     \<lparr>d_code = code e, d_line = err_line e, d_col = err_col e, d_offset = byte_offset e,
      d_kind = token_kind e, d_len = token_len e\<rparr>"

definition compile_source :: "nat \<Rightarrow> bool \<Rightarrow> u8 list \<Rightarrow> Token list \<Rightarrow> (Diagnostic, Compiler) outcome option" where
  "compile_source n checked src buffer =
     (case tokenize checked src buffer of
        Err e \<Rightarrow> Some (Err (diagnostic_of e))
      | Panic \<Rightarrow> Some Panic
      | Ok (tok_count, toks) \<Rightarrow>
          (case compile n checked (Compiler_new src (take (tok_count + 1) toks)) of
             None \<Rightarrow> None
           | Some (Ok (_, c)) \<Rightarrow> Some (Ok c)
           | Some (Err e) \<Rightarrow> Some (Err e)
           | Some Panic \<Rightarrow> Some Panic))"

definition compile_pulse_to_binary_with_tokens ::
  "nat \<Rightarrow> bool \<Rightarrow> u8 list \<Rightarrow> Token list \<Rightarrow> u8 list \<Rightarrow> (Diagnostic, nat \<times> u8 list) outcome option" where
  "compile_pulse_to_binary_with_tokens n checked src buffer out_buf =
     (case compile_source n checked src buffer of
        None \<Rightarrow> None
      | Some (Ok c) \<Rightarrow>
          (case write_binary (c_code c) (c_str_pool c) (c_const_pool c) out_buf of
             Ok r \<Rightarrow> Some (Ok r)
           | Err e \<Rightarrow> Some (Err (diagnostic_of e))
           | Panic \<Rightarrow> Some Panic)
      | Some (Err e) \<Rightarrow> Some (Err e)
      | Some Panic \<Rightarrow> Some Panic)"

section \<open>Statistics\<close>

record CompileStats =
  st_code_size :: nat
  st_instruction_count :: nat
  st_str_pool_len :: nat
  st_const_pool_len :: nat
  st_var_count :: nat
  st_function_count :: nat
  st_array_count :: nat
  st_struct_def_count :: nat
  st_struct_inst_count :: nat
  st_const_table_count :: nat
  st_total_binary_size :: nat
  st_estimated_wcet_ns :: u64
  st_declared_wcet_ns :: "u64 option"
  st_declared_budget_ns :: "u64 option"
  st_wcet_breakdown :: "WcetItem list"
  st_imported_runtimes :: u16

definition stats :: "Compiler \<Rightarrow> CompileStats" where
  "stats c =
     \<lparr>st_code_size = code_len c, st_instruction_count = code_len c div 4, st_str_pool_len = length (c_str_pool c),
      st_const_pool_len = length (c_const_pool c), st_var_count = var_count c,
      st_function_count = length (c_functions c), st_array_count = length (c_arrays c),
      st_struct_def_count = length (struct_defs c), st_struct_inst_count = length (struct_insts c),
      st_const_table_count = length (const_tables c),
      st_total_binary_size = PX64_HEADER_SIZE + code_len c + length (c_str_pool c) + length (c_const_pool c) * 8,
      st_estimated_wcet_ns = total_synthesized_wcet_ns c, st_declared_wcet_ns = declared_script_wcet_ns c,
      st_declared_budget_ns = declared_script_budget_ns c, st_wcet_breakdown = wcet_items c,
      st_imported_runtimes = (if has_explicit_imports c then imported_runtimes c else RUNTIME_ALL)\<rparr>"

definition check_source :: "nat \<Rightarrow> bool \<Rightarrow> u8 list \<Rightarrow> (Diagnostic, CompileStats) outcome option" where
  "check_source n checked src =
     (case compile_source n checked src (replicate MAX_TOKENS empty_token) of
        None \<Rightarrow> None
      | Some (Ok c) \<Rightarrow> Some (Ok (stats c))
      | Some (Err e) \<Rightarrow> Some (Err e)
      | Some Panic \<Rightarrow> Some Panic)"

end
