(* ===== verification/CompLogic.thy ===== *)
theory CompLogic
  imports Compile VmSafety
begin

text \<open>
  What every action of the compiler keeps, as a logic of triples: the invariant
  \<open>comp_ok\<close> of the compiler's state, the temporaries that are taken, the number of tokens that
  are left, and facts about the emitted code that later actions cannot falsify, such as that a
  jump is at a position. A triple also says that the action returns, and that it panics only when
  the environment allows for it.
\<close>

section \<open>The invariant\<close>

text \<open>
  The source and tokens that are compiled, and whether the compiler may panic: with overflow
  checks, and when the sizes of the array pool are changed.
\<close>

record cenv =
  may_panic :: bool
  env_src :: "u8 list"
  env_toks :: "Token list"

definition in_env :: "cenv \<Rightarrow> Token \<Rightarrow> bool" where
  "in_env e t \<longleftrightarrow> tok_start t + tok_len t \<le> length (env_src e)"

definition env_ok :: "cenv \<Rightarrow> bool" where
  "env_ok e \<longleftrightarrow>
     (\<forall>t \<in> set (env_toks e). in_env e t) \<and>
     (\<not> may_panic e \<longrightarrow> (\<forall>t \<in> set (env_toks e). kind t \<noteq> TkDirective AtPoolSize))"

definition jumps :: "px64_op set" where
  "jumps = {PX64_OP_JMP, PX64_OP_JZ, PX64_OP_JNZ, PX64_OP_CALL}"

text \<open>A native call names a register, or a native that reads no register below its argument.\<close>

definition call_ok :: "u8 \<Rightarrow> u8 \<Rightarrow> bool" where
  "call_ok f arg \<longleftrightarrow> unat arg \<le> PX64_NUM_REGISTERS \<or>
     f \<in> native_code ` {NATIVE_PRINT, NATIVE_PRINTLN, NATIVE_NET_SET_RATE, NATIVE_NET_SEND, NATIVE_DROP}"

definition instr_ok :: "nat \<Rightarrow> nat \<Rightarrow> ArrayMeta list \<Rightarrow> StructInstMeta list \<Rightarrow> px64_op \<Rightarrow> u8 \<Rightarrow> u8 \<Rightarrow> u8 \<Rightarrow> bool" where
  "instr_ok len consts arrs insts op rd rs1 rs2 \<longleftrightarrow>
     (op \<in> jumps \<longrightarrow> 4 dvd imm16_of rs1 rs2 \<and> imm16_of rs1 rs2 \<le> len) \<and>
     (op = PX64_OP_LDC \<longrightarrow> imm16_of rs1 rs2 < consts) \<and>
     (op = PX64_OP_CALL_NAT \<longrightarrow> call_ok rs1 rs2) \<and>
     (op = PX64_OP_ARR_DEF \<longrightarrow> unat rd < length arrs \<and> imm16_of rs1 rs2 = unat (arr_len (arrs ! unat rd))) \<and>
     (op = PX64_OP_STRUCT_DEF \<longrightarrow> unat rd < length insts \<and> rs1 = inst_field_count (insts ! unat rd))"

definition code_ok :: "u8 list \<Rightarrow> nat \<Rightarrow> ArrayMeta list \<Rightarrow> StructInstMeta list \<Rightarrow> bool" where
  "code_ok prog consts arrs insts \<longleftrightarrow>
     4 dvd length prog \<and> length prog \<le> MAX_BYTECODE_SIZE \<and>
     (\<forall>i. i < length prog \<longrightarrow> 4 dvd i \<longrightarrow>
        (\<exists>op. prog ! i = op_code op \<and>
           instr_ok (length prog) consts arrs insts op (prog ! (i + 1)) (prog ! (i + 2)) (prog ! (i + 3))))"

definition arrays_ok :: "ArrayMeta list \<Rightarrow> nat \<Rightarrow> bool" where
  "arrays_ok arrs size_n \<longleftrightarrow>
     length arrs \<le> 8 \<and> (\<forall>a \<in> set arrs. unat (arr_id a) < 8) \<and> size_n = sum_list (map (\<lambda>a. unat (arr_len a)) arrs) \<and> size_n \<le> 1024"

definition structs_ok :: "StructDefMeta list \<Rightarrow> StructInstMeta list \<Rightarrow> nat \<Rightarrow> bool" where
  "structs_ok defs insts size_n \<longleftrightarrow>
     (\<forall>d \<in> set defs. length (def_fields d) \<le> 8) \<and>
     length insts \<le> 8 \<and> (\<forall>i \<in> set insts. struct_def_idx i < length defs) \<and>
     size_n = sum_list (map (\<lambda>i. unat (inst_field_count i)) insts) \<and> size_n \<le> 256"

definition vars_ok :: "Compiler \<Rightarrow> bool" where
  "vars_ok c \<longleftrightarrow>
     length (var_names c) = MAX_VARS \<and> length (var_regs c) = MAX_VARS \<and> length (var_mut c) = MAX_VARS \<and>
     length (var_spill c) = MAX_VARS \<and> length (var_spill_slot c) = MAX_VARS \<and>
     length (var_enum_types c) = MAX_VARS \<and> length (var_fixed_scales c) = MAX_VARS \<and> var_count c \<le> MAX_VARS"

definition fns_ok :: "nat \<Rightarrow> FnMeta list \<Rightarrow> nat option \<Rightarrow> bool" where
  "fns_ok len fns cur \<longleftrightarrow>
     (\<forall>f \<in> set fns. 4 dvd unat (entry_pc f) \<and> unat (entry_pc f) \<le> len \<and> length (param_names f) \<le> 4 \<and>
        length (param_fixed_scales f) = length (param_names f)) \<and>
     (\<forall>f. cur = Some f \<longrightarrow> f < length fns)"

definition comp_ok :: "cenv \<Rightarrow> Compiler \<Rightarrow> bool" where
  "comp_ok e c \<longleftrightarrow>
     env_ok e \<and> c_src c = env_src e \<and> c_tokens c = env_toks e \<and>
     (\<not> may_panic e \<longrightarrow> max_arrays c \<le> 8) \<and>
     code_ok (c_code c) (length (c_const_pool c)) (c_arrays c) (struct_insts c) \<and>
     length (c_const_pool c) \<le> MAX_CONST_POOL \<and> length (c_str_pool c) \<le> MAX_STRING_POOL \<and>
     arrays_ok (c_arrays c) (total_array_elements c) \<and>
     structs_ok (struct_defs c) (struct_insts c) (total_struct_fields c) \<and>
     vars_ok c \<and> fns_ok (code_len c) (c_functions c) (current_fn c) \<and>
     length (handle_states c) = 4"

section \<open>Facts that stay true\<close>

definition grows :: "Compiler \<Rightarrow> Compiler \<Rightarrow> bool" where
  "grows c c' \<longleftrightarrow>
     code_len c \<le> code_len c' \<and> (\<forall>i < code_len c. 4 dvd i \<longrightarrow> c_code c' ! i = c_code c ! i) \<and>
     length (c_const_pool c) \<le> length (c_const_pool c') \<and>
     (\<exists>xs. c_arrays c' = c_arrays c @ xs) \<and> length (c_functions c) \<le> length (c_functions c')"

definition stable :: "(Compiler \<Rightarrow> bool) \<Rightarrow> bool" where
  "stable f \<longleftrightarrow> (\<forall>c c'. f c \<longrightarrow> grows c c' \<longrightarrow> f c')"

definition jump_at :: "nat \<Rightarrow> Compiler \<Rightarrow> bool" where
  "jump_at p c \<longleftrightarrow> 4 dvd p \<and> p < code_len c \<and> (\<exists>op \<in> jumps. c_code c ! p = op_code op)"

definition jumps_at :: "nat list \<Rightarrow> Compiler \<Rightarrow> bool" where
  "jumps_at ps c \<longleftrightarrow> (\<forall>p \<in> set ps. jump_at p c)"

definition target :: "u16 \<Rightarrow> Compiler \<Rightarrow> bool" where
  "target t c \<longleftrightarrow> 4 dvd unat t \<and> unat t \<le> code_len c"

definition const_at :: "u16 \<Rightarrow> Compiler \<Rightarrow> bool" where
  "const_at i c \<longleftrightarrow> unat i < length (c_const_pool c)"

definition array_is :: "u8 \<Rightarrow> u16 \<Rightarrow> Compiler \<Rightarrow> bool" where
  "array_is a len c \<longleftrightarrow> unat a < length (c_arrays c) \<and> arr_len (c_arrays c ! unat a) = len"

definition fn_there :: "nat option \<Rightarrow> Compiler \<Rightarrow> bool" where
  "fn_there f c \<longleftrightarrow> (\<forall>i. f = Some i \<longrightarrow> i < length (c_functions c))"

definition always :: "bool \<Rightarrow> Compiler \<Rightarrow> bool" where
  "always P c \<longleftrightarrow> P"

lemma stable_facts [simp]:
  "stable (jump_at p)" "stable (jumps_at ps)" "stable (target t)" "stable (const_at i)" "stable (array_is a len)"
  "stable (fn_there f)" "stable (always P)"
  by (auto simp: stable_def grows_def jump_at_def jumps_at_def target_def const_at_def array_is_def fn_there_def
      always_def nth_append)

lemma grows_refl [simp]: "grows c c"
  by (simp add: grows_def)

section \<open>Triples\<close>

definition used :: "Compiler \<Rightarrow> nat set" where
  "used c = {i. i < 8 \<and> bit (temp_used c) i}"

definition rem :: "Compiler \<Rightarrow> nat" where
  "rem c = length (c_tokens c) - current c"

text \<open>
  How many temporaries are taken at least, a bound for the tokens that are left, and facts. The
  bound is strict, so that no state satisfies the bound 0.
\<close>

type_synonym asrt = "nat \<times> nat \<times> (Compiler \<Rightarrow> bool) list"

definition facts :: "(Compiler \<Rightarrow> bool) list \<Rightarrow> Compiler \<Rightarrow> bool" where
  "facts Fs c \<longleftrightarrow> (\<forall>f \<in> set Fs. stable f \<and> f c)"

lemma facts_simps [simp]:
  "facts [] c" "facts (f # Fs) c \<longleftrightarrow> stable f \<and> f c \<and> facts Fs c" "facts (Fs @ Gs) c \<longleftrightarrow> facts Fs c \<and> facts Gs c"
  by (auto simp: facts_def)

lemma facts_subset: "facts Fs c \<Longrightarrow> set Gs \<subseteq> set Fs \<Longrightarrow> facts Gs c"
  unfolding facts_def by blast

lemma facts_grows: "facts Fs c \<Longrightarrow> grows c c' \<Longrightarrow> facts Fs c'"
  unfolding facts_def stable_def by blast

lemma facts_mem: "facts Fs c \<Longrightarrow> f \<in> set Fs \<Longrightarrow> f c"
  unfolding facts_def by blast

fun holds_in :: "cenv \<Rightarrow> asrt \<Rightarrow> Compiler \<Rightarrow> bool" where
  "holds_in e (u, k, Fs) c =
     (comp_ok e c \<and> u \<le> card (used c) \<and> rem c < k \<and> facts Fs c)"

fun result_ok :: "cenv \<Rightarrow> ('a \<Rightarrow> asrt) \<Rightarrow> (Diagnostic, 'a \<times> Compiler) outcome option \<Rightarrow> bool" where
  "result_ok e Q None = False"
| "result_ok e Q (Some (Ok (x, c))) = holds_in e (Q x) c"
| "result_ok e Q (Some (Err d)) = True"
| "result_ok e Q (Some Panic) = may_panic e"

definition W :: "cenv \<Rightarrow> asrt \<Rightarrow> 'a comp \<Rightarrow> ('a \<Rightarrow> asrt) \<Rightarrow> bool" where
  "W e A m Q \<longleftrightarrow> (\<forall>c. holds_in e A c \<longrightarrow> result_ok e Q (m c))"

text \<open>The same from a state that is not at the end of the tokens.\<close>

definition W_more :: "cenv \<Rightarrow> asrt \<Rightarrow> 'a comp \<Rightarrow> ('a \<Rightarrow> asrt) \<Rightarrow> bool" where
  "W_more e A m Q \<longleftrightarrow> (\<forall>c. holds_in e A c \<longrightarrow> peek_kind c \<noteq> TkEof \<longrightarrow> result_ok e Q (m c))"

fun weaker :: "asrt \<Rightarrow> asrt \<Rightarrow> bool" where
  "weaker (u, k, Fs) (u', k', Fs') \<longleftrightarrow> u' \<le> u \<and> k \<le> k' \<and> set Fs' \<subseteq> set Fs"

lemma weaker_holds: "weaker A B \<Longrightarrow> holds_in e A c \<Longrightarrow> holds_in e B c"
  by (cases A; cases B) (auto intro: facts_subset)

lemma W_I: "(\<And>c. holds_in e A c \<Longrightarrow> result_ok e Q (m c)) \<Longrightarrow> W e A m Q"
  by (simp add: W_def)

lemma W_D: "W e A m Q \<Longrightarrow> holds_in e A c \<Longrightarrow> result_ok e Q (m c)"
  by (simp add: W_def)

lemma result_ok_mono: "result_ok e Q r \<Longrightarrow> (\<And>x c. holds_in e (Q x) c \<Longrightarrow> holds_in e (S x) c) \<Longrightarrow> result_ok e S r"
  by (cases "(e, Q, r)" rule: result_ok.cases) auto

lemma result_ok_seq:
  assumes "result_ok e Q (m c)" and f: "\<And>x. W e (Q x) (f x) S"
  shows "result_ok e S (seqc m f c)"
  using assms(1) by (cases "(e, Q, m c)" rule: result_ok.cases) (auto simp: seqc_def intro: W_D [OF f])

lemma W_seq:
  assumes "W e A m Q" and "\<And>x. W e (Q x) (f x) S"
  shows "W e A (seqc m f) S"
  using assms by (auto intro!: W_I result_ok_seq [of e Q m _ f] dest: W_D)

lemma W_last:
  assumes "W e A m Q" and "\<And>x. weaker (Q x) (S x)"
  shows "W e A m S"
  using W_D [OF assms(1)] weaker_holds [OF assms(2)] by (blast intro: W_I result_ok_mono)

lemma W_pre: "W e B m S \<Longrightarrow> weaker A B \<Longrightarrow> W e A m S"
  using weaker_holds unfolding W_def by blast

text \<open>The control structure of actions.\<close>

lemma W_always: "(P \<Longrightarrow> W e (u, k, Fs) m S) \<Longrightarrow> W e (u, k, always P # Fs) m S"
  unfolding W_def by (auto simp: always_def)

lemma W_pos: "(0 < k \<Longrightarrow> W e (u, k, Fs) m S) \<Longrightarrow> W e (u, k, Fs) m S"
  unfolding W_def by auto

lemma W_none [simp]: "W e (u, 0, Fs) m S"
  by (simp add: W_def)

lemma W_give: "weaker A (S x) \<Longrightarrow> W e A (give x) S"
  using weaker_holds by (auto simp: W_def give_def)

lemma W_seq_give: "W e A (f x) S \<Longrightarrow> W e A (seqc (give x) f) S"
  by (simp add: W_def seqc_def give_def)

lemma W_fail: "W e A (fail_c msg) S"
  by (simp add: W_def fail_c_def)

lemma W_seq_fail: "W e A (seqc (fail_c msg) f) S"
  by (simp add: W_def seqc_def fail_c_def)

lemma W_crash: "may_panic e \<Longrightarrow> W e A crash S"
  by (simp add: W_def crash_def)

lemma W_seq_crash: "may_panic e \<Longrightarrow> W e A (seqc crash f) S"
  by (simp add: W_def seqc_def crash_def)

lemma seqc_assoc: "seqc (seqc m f) g = seqc m (\<lambda>x. seqc (f x) g)"
  by (rule ext) (simp add: seqc_def split: option.split outcome.split)

lemma W_assoc: "W e A (seqc m (\<lambda>x. seqc (f x) g)) S \<Longrightarrow> W e A (seqc (seqc m f) g) S"
  by (simp add: seqc_assoc)

lemma W_if: "(b \<Longrightarrow> W e A m S) \<Longrightarrow> (\<not> b \<Longrightarrow> W e A m' S) \<Longrightarrow> W e A (if b then m else m') S"
  by simp

lemma W_seq_if:
  "(b \<Longrightarrow> W e A (seqc m f) S) \<Longrightarrow> (\<not> b \<Longrightarrow> W e A (seqc m' f) S) \<Longrightarrow> W e A (seqc (if b then m else m') f) S"
  by simp

lemma W_option:
  "(x = None \<Longrightarrow> W e A m S) \<Longrightarrow> (\<And>y. x = Some y \<Longrightarrow> W e A (f y) S) \<Longrightarrow>
   W e A (case x of None \<Rightarrow> m | Some y \<Rightarrow> f y) S"
  by (cases x) auto

lemma W_seq_option:
  "(x = None \<Longrightarrow> W e A (seqc m g) S) \<Longrightarrow> (\<And>y. x = Some y \<Longrightarrow> W e A (seqc (f y) g) S) \<Longrightarrow>
   W e A (seqc (case x of None \<Rightarrow> m | Some y \<Rightarrow> f y) g) S"
  by (cases x) auto

lemma W_prod: "(\<And>a b. x = (a, b) \<Longrightarrow> W e A (f a b) S) \<Longrightarrow> W e A (case x of (a, b) \<Rightarrow> f a b) S"
  by (cases x) auto

lemma W_test: "W e A m S \<Longrightarrow> W e A m' S \<Longrightarrow> W e A (\<lambda>c. if P c then m c else m' c) S"
  by (simp add: W_def)

lemma W_test_more: "W e A m S \<Longrightarrow> W_more e A m' S \<Longrightarrow> W e A (\<lambda>c. if closes s c then m c else m' c) S"
  by (simp add: W_def W_more_def closes_def)

lemma W_weak_more: "W e A m S \<Longrightarrow> W_more e A m S"
  by (simp add: W_def W_more_def)

lemma W_seq_ensure: "(b \<Longrightarrow> W e A (f ()) S) \<Longrightarrow> W e A (seqc (ensure_c b msg) f) S"
  unfolding ensure_c_def by (intro W_seq_if W_seq_give W_seq_fail)

lemma W_ensure: "(b \<Longrightarrow> weaker A (S ())) \<Longrightarrow> W e A (ensure_c b msg) S"
  unfolding ensure_c_def by (intro W_if W_give W_fail)

lemma W_seq_look: "(\<And>x. W e A (f x) S) \<Longrightarrow> W e A (seqc (look g) f) S"
  by (simp add: W_def look_def seqc_def)

lemma holds_add: "stable f \<Longrightarrow> f c \<Longrightarrow> holds_in e (u, k, Fs) c \<Longrightarrow> holds_in e (u, k, f # Fs) c"
  by simp

lemma W_look:
  assumes "\<And>c. comp_ok e c \<Longrightarrow> P (g c)"
  shows "W e (u, k, Fs) (look g) (\<lambda>x. (u, k, always (P x) # Fs))"
  unfolding W_def look_def result_ok.simps
  by (intro allI impI holds_add) (simp_all add: assms always_def)

lemma W_look_fact:
  assumes "\<And>c. comp_ok e c \<Longrightarrow> P (g c) c" and "\<And>x. stable (P x)"
  shows "W e (u, k, Fs) (look g) (\<lambda>x. (u, k, P x # Fs))"
  unfolding W_def look_def result_ok.simps
  by (intro allI impI holds_add) (simp_all add: assms)

text \<open>A change that grows the state, or leaves alone what the invariant is about.\<close>

lemma holds_grows:
  assumes "holds_in e (u, k, Fs) c" and "comp_ok e c'" and "grows c c'" and "u' \<le> card (used c')" and "rem c' < k'"
  shows "holds_in e (u', k', Fs) c'"
  using assms by (auto intro: facts_grows)

lemma W_change:
  assumes "\<And>c. holds_in e A c \<Longrightarrow> holds_in e B (g c)"
  shows "W e A (change g) (\<lambda>_. B)"
  using assms by (simp add: W_def change_def)

lemma W_change_same:
  assumes "\<And>c. comp_ok e c \<Longrightarrow> comp_ok e (g c) \<and> grows c (g c) \<and> temp_used (g c) = temp_used c \<and>
     c_tokens (g c) = c_tokens c \<and> current (g c) = current c"
  shows "W e (u, k, Fs) (change g) (\<lambda>_. (u, k, Fs))"
proof (rule W_change)
  fix c assume c: "holds_in e (u, k, Fs) c"
  then have "comp_ok e c" "u \<le> card (used c)" "rem c < k" by simp_all
  with assms [of c] show "holds_in e (u, k, Fs) (g c)"
    by (intro holds_grows [OF c]) (auto simp: used_def rem_def)
qed

section \<open>Tokens\<close>

lemma in_env_empty [simp]: "in_env e empty_token"
  by (simp add: in_env_def empty_token_def)

lemma kind_empty [simp]: "kind empty_token = TkEof"
  by (simp add: empty_token_def)

lemma peek_in_env: "comp_ok e c \<Longrightarrow> in_env e (peek c)"
  by (auto simp: comp_ok_def peek_def env_ok_def)

lemma peek_ahead_in_env: "comp_ok e c \<Longrightarrow> in_env e (peek_ahead n c)"
  by (auto simp: comp_ok_def peek_ahead_def env_ok_def)

text \<open>Moving over tokens.\<close>

lemma comp_ok_current [simp]: "comp_ok e (c\<lparr>current := n\<rparr>) = comp_ok e c"
  by (simp add: comp_ok_def vars_ok_def)

lemma used_current [simp]: "used (c\<lparr>current := n\<rparr>) = used c"
  by (simp add: used_def)

lemma holds_current:
  assumes "holds_in e (u, k, Fs) c" and "length (env_toks e) - n < k'"
  shows "holds_in e (u, k', Fs) (c\<lparr>current := n\<rparr>)"
proof (rule holds_grows [OF assms(1)])
  have c: "comp_ok e c" and u: "u \<le> card (used c)" using assms(1) by simp_all
  then show "comp_ok e (c\<lparr>current := n\<rparr>)" "u \<le> card (used (c\<lparr>current := n\<rparr>))" by simp_all
  show "rem (c\<lparr>current := n\<rparr>) < k'" using c assms(2) by (simp add: rem_def comp_ok_def)
qed (simp add: grows_def)

lemma W_advance:
  "W e (u, k, Fs) advance (\<lambda>tok. (u, if kind tok = TkEof then k else k - 1, always (in_env e tok) # Fs))"
proof (rule W_I)
  fix c assume c: "holds_in e (u, k, Fs) c"
  then have ok: "comp_ok e c" and r: "rem c < k" by simp_all
  have "holds_in e (u, k', Fs) (c\<lparr>current := current c + 1\<rparr>)"
    if "current c < length (c_tokens c)" and "k' = k \<or> k' = k - 1" for k'
    using that ok r by (intro holds_current [OF c]) (auto simp: rem_def comp_ok_def)
  then show "result_ok e (\<lambda>tok. (u, if kind tok = TkEof then k else k - 1, always (in_env e tok) # Fs)) (advance c)"
    using c peek_in_env [OF ok] by (auto simp: advance_def always_def peek_def)
qed

lemma W_advance_weak: "W e (u, k, Fs) advance (\<lambda>tok. (u, k, always (in_env e tok) # Fs))"
  by (rule W_last [OF W_advance]) auto

lemma W_match:
  assumes "s \<noteq> TkEof"
  shows "W e (u, k, Fs) (match_token s) (\<lambda>b. (u, if b then k - 1 else k, Fs))"
proof (rule W_I)
  fix c assume c: "holds_in e (u, k, Fs) c"
  show "result_ok e (\<lambda>b. (u, if b then k - 1 else k, Fs)) (match_token s c)"
    using c assms W_D [OF W_advance c]
    by (auto simp: match_token_def thenc_def seqc_def give_def always_def advance_def)
qed

lemma W_skip: "s \<noteq> TkEof \<Longrightarrow> W e (u, k, Fs) (skip_c s) (\<lambda>_. (u, k, Fs))"
  unfolding skip_c_def thenc_def by (rule W_seq [OF W_match], assumption, rule W_give) auto

lemma W_expect: "s \<noteq> TkEof \<Longrightarrow> W e (u, k, Fs) (expect s msg) (\<lambda>_. (u, k - 1, Fs))"
  unfolding expect_def
  by (rule W_seq [OF W_match], assumption, rule W_if, rule W_give, simp, rule W_fail)

lemma W_name_of: "in_env e tok \<Longrightarrow> W e A (name_of tok) (\<lambda>_. A)"
  by (cases A) (auto simp: W_def name_of_def in_env_def in_source_def comp_ok_def give_def)

text \<open>From a state that is not at the end, the first token is one.\<close>

lemma W_more_advance:
  assumes "\<And>tok. in_env e tok \<Longrightarrow> kind tok \<noteq> TkEof \<Longrightarrow> 0 < k \<Longrightarrow> W e (u, k - 1, Fs) (f tok) S"
  shows "W_more e (u, k, Fs) (seqc advance f) S"
  unfolding W_more_def
proof (intro allI impI)
  fix c assume c: "holds_in e (u, k, Fs) c" and p: "peek_kind c \<noteq> TkEof"
  from W_D [OF W_advance c] p have h: "holds_in e (u, k - 1, Fs) (snd (peek c, c\<lparr>current := current c + 1\<rparr>))"
    and i: "in_env e (peek c)" and cur: "current c < length (c_tokens c)"
    by (auto simp: advance_def always_def peek_def split: if_splits)
  have "0 < k" using c by simp
  with W_D [OF assms [OF i p] h [unfolded snd_conv]] show "result_ok e S (seqc advance f c)"
    using cur by (simp add: seqc_def advance_def)
qed

section \<open>Instructions\<close>

lemma imm16_of_split [simp]: "imm16_of (ucast (drop_bit 8 (w :: u16))) (ucast w) = unat w"
proof -
  have "from_be [ucast (drop_bit 8 w), ucast w] = w"
    by (rule bit_word_eqI) (auto simp: from_be_def bit_simps)
  then show ?thesis by (simp add: imm16_of_def)
qed

lemma imm16_of_0 [simp]: "imm16_of 0 0 = 0"
  by (simp add: imm16_of_def from_be_def)

lemma instr_ok_more:
  assumes "instr_ok len n arrs insts op rd a b" and "len \<le> len'" and "n \<le> n'"
  shows "instr_ok len' n' (arrs @ xs) (insts @ ys) op rd a b"
  using assms by (auto simp: instr_ok_def nth_append)

lemma code_ok_more: "code_ok prog n arrs insts \<Longrightarrow> n \<le> n' \<Longrightarrow> code_ok prog n' (arrs @ xs) (insts @ ys)"
  unfolding code_ok_def using instr_ok_more [of "length prog" n arrs insts _ _ _ _ "length prog" n' xs ys] by blast

lemma code_ok_append:
  assumes ok: "code_ok prog n arrs insts" and "length prog + 4 \<le> MAX_BYTECODE_SIZE"
    and new: "instr_ok (length prog + 4) n arrs insts op rd a b"
  shows "code_ok (prog @ [op_code op, rd, a, b]) n arrs insts"
proof -
  have "\<exists>op'. (prog @ [op_code op, rd, a, b]) ! i = op_code op' \<and>
      instr_ok (length prog + 4) n arrs insts op' ((prog @ [op_code op, rd, a, b]) ! (i + 1))
        ((prog @ [op_code op, rd, a, b]) ! (i + 2)) ((prog @ [op_code op, rd, a, b]) ! (i + 3))"
    if i: "i < length prog + 4" "4 dvd i" for i
  proof (cases "i < length prog")
    case True
    have "i + 3 < length prog" using i ok True by (auto simp: code_ok_def elim!: dvdE)
    moreover obtain op' where "prog ! i = op_code op'"
      "instr_ok (length prog) n arrs insts op' (prog ! (i + 1)) (prog ! (i + 2)) (prog ! (i + 3))"
      using ok True i(2) by (auto simp: code_ok_def)
    ultimately show ?thesis
      using instr_ok_more [of "length prog" n arrs insts op' _ _ _ "length prog + 4" n "[]" "[]"]
      by (auto simp: nth_append)
  next
    case False
    then have "i = length prog" using i ok by (auto simp: code_ok_def elim!: dvdE)
    with new show ?thesis by (auto simp: nth_append)
  qed
  moreover have "4 dvd length prog + 4" using ok by (simp add: code_ok_def)
  moreover have len: "length (prog @ [op_code op, rd, a, b]) = length prog + 4" by simp
  ultimately show ?thesis using assms(2) unfolding code_ok_def len by blast
qed

lemma code_ok_patch:
  assumes ok: "code_ok prog n arrs insts" and p: "4 dvd p" "p < length prog" "op \<in> jumps" "prog ! p = op_code op"
    and t: "4 dvd imm16_of a b" "imm16_of a b \<le> length prog"
  shows "code_ok (prog[p + 2 := a, p + 3 := b]) n arrs insts"
proof -
  have "\<exists>op'. prog[p + 2 := a, p + 3 := b] ! i = op_code op' \<and>
      instr_ok (length prog) n arrs insts op' (prog[p + 2 := a, p + 3 := b] ! (i + 1))
        (prog[p + 2 := a, p + 3 := b] ! (i + 2)) (prog[p + 2 := a, p + 3 := b] ! (i + 3))"
    if i: "i < length prog" "4 dvd i" for i
  proof (cases "i = p")
    case True
    have "p + 3 < length prog" using p(1,2) ok by (auto simp: code_ok_def elim!: dvdE)
    with True p(3,4) t show ?thesis by (intro exI [of _ op]) (auto simp: instr_ok_def jumps_def)
  next
    case False
    then have "i \<noteq> p + 2" "i \<noteq> p + 3" "i + 1 \<noteq> p + 2" "i + 1 \<noteq> p + 3" "i + 2 \<noteq> p + 2" "i + 2 \<noteq> p + 3"
      "i + 3 \<noteq> p + 2" "i + 3 \<noteq> p + 3" using p(1) i(2) by (presburger, presburger, presburger, presburger, auto, presburger+)
    moreover obtain op' where "prog ! i = op_code op'"
      "instr_ok (length prog) n arrs insts op' (prog ! (i + 1)) (prog ! (i + 2)) (prog ! (i + 3))"
      using ok i by (auto simp: code_ok_def)
    ultimately show ?thesis by auto
  qed
  with ok show ?thesis by (auto simp: code_ok_def)
qed

text \<open>Appending an instruction; \<open>F\<close> is the fact that is known of it.\<close>

definition appended :: "px64_op \<Rightarrow> u8 \<Rightarrow> u8 \<Rightarrow> u8 \<Rightarrow> Compiler \<Rightarrow> Compiler" where
  "appended op rd a b c = c\<lparr>c_code := c_code c @ [op_code op, rd, a, b]\<rparr>"

lemma holds_append:
  assumes c: "holds_in e (u, k, Fs) c" and "code_len c + 4 \<le> MAX_BYTECODE_SIZE"
    and new: "instr_ok (code_len c + 4) (length (c_const_pool c)) (c_arrays c) (struct_insts c) op rd a b"
  shows "holds_in e (u, k, Fs) (appended op rd a b c)"
proof (rule holds_grows [OF c])
  have ok: "comp_ok e c" using c by simp
  have "fns_ok (code_len c + 4) (c_functions c) (current_fn c)"
    using ok by (force simp: comp_ok_def fns_ok_def)
  moreover have "code_ok (c_code c @ [op_code op, rd, a, b]) (length (c_const_pool c)) (c_arrays c) (struct_insts c)"
    using ok by (intro code_ok_append [OF _ assms(2) new]) (simp add: comp_ok_def)
  ultimately show "comp_ok e (appended op rd a b c)"
    using ok by (simp add: appended_def comp_ok_def vars_ok_def eval_nat_numeral)
  show "grows c (appended op rd a b c)" by (simp add: grows_def appended_def nth_append)
qed (use c in \<open>simp_all add: appended_def used_def rem_def\<close>)

text \<open>Instructions whose operands say nothing about the rest of the program.\<close>

definition plain :: "px64_op \<Rightarrow> bool" where
  "plain op \<longleftrightarrow> op \<notin> jumps \<union> {PX64_OP_LDC, PX64_OP_CALL_NAT, PX64_OP_ARR_DEF, PX64_OP_STRUCT_DEF}"

lemma emit_inst_ok:
  assumes c: "holds_in e (u, k, Fs) c"
    and new: "\<And>len. code_len c \<le> len \<Longrightarrow> instr_ok len (length (c_const_pool c)) (c_arrays c) (struct_insts c) op rd a b"
    and f: "\<And>p. f p = [] \<or> (\<exists>g. f p = [g] \<and> stable g \<and> (p = code_len c \<longrightarrow> g (appended op rd a b c)))"
  shows "result_ok e (\<lambda>p. (u, k, f p @ Fs)) (emit_inst op rd a b c)"
proof (cases "MAX_BYTECODE_SIZE < code_len c + 4")
  case False
  have h: "holds_in e (u, k, Fs) (appended op rd a b c)"
    using False by (intro holds_append [OF c] new) simp_all
  have "holds_in e (u, k, f (code_len c) @ Fs) (appended op rd a b c)"
    using f [of "code_len c"] h by (elim disjE exE conjE) auto
  with False show ?thesis by (simp add: emit_inst_def appended_def)
qed (simp add: emit_inst_def fail_c_def)

lemma W_emit_inst:
  assumes "\<And>c len. holds_in e (u, k, Fs) c \<Longrightarrow> code_len c \<le> len \<Longrightarrow>
    instr_ok len (length (c_const_pool c)) (c_arrays c) (struct_insts c) op rd a b"
  shows "W e (u, k, Fs) (emit_inst op rd a b) (\<lambda>_. (u, k, Fs))"
  using emit_inst_ok [of e u k Fs _ op rd a b "\<lambda>_. []"] assms by (intro W_I) (metis append_Nil)

lemma W_emit_any:
  assumes "\<And>c len. holds_in e (u, k, Fs) c \<Longrightarrow> code_len c \<le> len \<Longrightarrow>
    instr_ok len (length (c_const_pool c)) (c_arrays c) (struct_insts c) op rd a b"
  shows "W e (u, k, Fs) (emit op rd a b) (\<lambda>_. (u, k, Fs))"
  unfolding emit_def thenc_def by (rule W_seq [OF W_emit_inst [OF assms]]) (auto intro: W_give)

lemma plain_ok: "plain op \<Longrightarrow> instr_ok len n arrs insts op rd a b"
  by (simp add: plain_def instr_ok_def)

lemma W_emit: "plain op \<Longrightarrow> W e (u, k, Fs) (emit op rd a b) (\<lambda>_. (u, k, Fs))"
  by (intro W_emit_any plain_ok)

lemma W_emit_native: "call_ok f r \<Longrightarrow> W e (u, k, Fs) (emit PX64_OP_CALL_NAT rd f r) (\<lambda>_. (u, k, Fs))"
  by (rule W_emit_any) (simp add: instr_ok_def jumps_def)

lemma emit_imm_emit: "emit_imm op rd imm = emit op rd (ucast (drop_bit 8 imm)) (ucast imm)"
  by (simp add: emit_imm_def emit_imm16_def emit_def)

lemma W_emit_imm: "plain op \<Longrightarrow> W e (u, k, Fs) (emit_imm op rd imm) (\<lambda>_. (u, k, Fs))"
  unfolding emit_imm_emit by (rule W_emit)

lemma W_emit_ldc: "const_at i \<in> set Fs \<Longrightarrow> W e (u, k, Fs) (emit_imm PX64_OP_LDC rd i) (\<lambda>_. (u, k, Fs))"
  unfolding emit_imm_emit by (rule W_emit_any) (auto simp: instr_ok_def jumps_def const_at_def dest!: facts_mem)

lemma W_emit_arr_def:
  "array_is rd len \<in> set Fs \<Longrightarrow> W e (u, k, Fs) (emit_imm PX64_OP_ARR_DEF rd len) (\<lambda>_. (u, k, Fs))"
  unfolding emit_imm_emit by (rule W_emit_any) (auto simp: instr_ok_def jumps_def array_is_def dest!: facts_mem)

lemma W_emit_jump:
  assumes "op \<in> jumps" and "target t \<in> set Fs"
  shows "W e (u, k, Fs) (emit_imm op rd t) (\<lambda>_. (u, k, Fs))"
  unfolding emit_imm_emit
  by (rule W_emit_any) (use assms in \<open>auto simp: instr_ok_def target_def jumps_def dest!: facts_mem\<close>)

lemma W_jump:
  assumes "op \<in> jumps"
  shows "W e (u, k, Fs) (emit_inst op rd 0 0) (\<lambda>p. (u, k, jump_at p # Fs))"
proof (rule W_I)
  fix c assume c: "holds_in e (u, k, Fs) c"
  have ok: "4 dvd code_len c" using c by (simp add: comp_ok_def code_ok_def)
  have "\<And>len. instr_ok len (length (c_const_pool c)) (c_arrays c) (struct_insts c) op rd 0 0"
    using assms by (auto simp: instr_ok_def jumps_def)
  moreover have "jump_at (code_len c) (appended op rd 0 0 c)"
    using assms ok by (auto simp: jump_at_def appended_def nth_append)
  ultimately show "result_ok e (\<lambda>p. (u, k, jump_at p # Fs)) (emit_inst op rd 0 0 c)"
    using emit_inst_ok [OF c, of op rd 0 0 "\<lambda>p. [jump_at p]"] by simp
qed

lemma W_jump_imm: "op \<in> jumps \<Longrightarrow> W e (u, k, Fs) (emit_imm16 op rd 0) (\<lambda>p. (u, k, jump_at p # Fs))"
  unfolding emit_imm16_def using W_jump by simp

lemma code_len_u16: "comp_ok e c \<Longrightarrow> unat (of_nat (code_len c) :: u16) = code_len c"
  by (simp add: comp_ok_def code_ok_def unat_of_nat)

lemma W_here: "W e (u, k, Fs) (look (\<lambda>c. code_len c)) (\<lambda>p. (u, k, target (of_nat p) # Fs))"
  by (rule W_look_fact) (auto simp: target_def code_len_u16, simp add: comp_ok_def code_ok_def)

lemma W_patch:
  assumes "jump_at p \<in> set Fs"
  shows "W e (u, k, Fs) (patch_here p) (\<lambda>_. (u, k, Fs))"
proof (rule W_I)
  fix c assume c: "holds_in e (u, k, Fs) c"
  let ?a = "ucast (drop_bit 8 (of_nat (code_len c) :: u16)) :: u8" and ?b = "ucast (of_nat (code_len c) :: u16) :: u8"
  let ?c = "c\<lparr>c_code := (c_code c)[p + 2 := ?a, p + 3 := ?b]\<rparr>"
  have ok: "comp_ok e c" and j: "jump_at p c" using c facts_mem [OF _ assms] by simp_all
  from j obtain op where op: "op \<in> jumps" "c_code c ! p = op_code op" "4 dvd p" "p < code_len c"
    by (auto simp: jump_at_def)
  have t: "imm16_of ?a ?b = code_len c" using code_len_u16 [OF ok] by simp
  have cok: "code_ok (c_code c) (length (c_const_pool c)) (c_arrays c) (struct_insts c)" using ok by (simp add: comp_ok_def)
  then have "4 dvd code_len c" by (simp add: code_ok_def)
  then have "code_ok ((c_code c)[p + 2 := ?a, p + 3 := ?b]) (length (c_const_pool c)) (c_arrays c) (struct_insts c)"
    by (intro code_ok_patch [OF cok op(3,4,1,2)]) (simp_all only: t order_refl)
  then have "comp_ok e ?c" using ok by (simp add: comp_ok_def vars_ok_def)
  moreover have "grows c ?c"
  proof -
    have "(c_code c)[p + 2 := ?a, p + 3 := ?b] ! i = c_code c ! i" if "4 dvd i" for i
    proof -
      have "p + 2 \<noteq> i" "p + 3 \<noteq> i" using that op(3) by presburger+
      then show ?thesis by simp
    qed
    then show ?thesis unfolding grows_def by simp
  qed
  ultimately have "holds_in e (u, k, Fs) ?c"
    by (rule holds_grows [OF c]) (use c in \<open>simp_all add: used_def rem_def\<close>)
  with c show "result_ok e (\<lambda>_. (u, k, Fs)) (patch_here p c)"
    by (simp add: patch_here_def patch_imm16_def change_def)
qed

section \<open>Temporaries and constants\<close>

lemma used_finite [simp]: "finite (used c)"
  by (simp add: used_def)

lemma W_alloc:
  "W e (u, k, Fs) alloc_temp (\<lambda>r. (u + 1, k, always (8 \<le> r \<and> r \<le> 15 \<and> u < 8) # Fs))"
proof (rule W_I)
  fix c assume c: "holds_in e (u, k, Fs) c"
  show "result_ok e (\<lambda>r. (u + 1, k, always (8 \<le> r \<and> r \<le> 15 \<and> u < 8) # Fs)) (alloc_temp c)"
  proof (cases "free_temps c")
    case (Cons i more)
    then have i: "i < 8" "\<not> bit (temp_used c) i"
      by (auto simp: free_temps_def dest!: arg_cong [of _ _ set])
    let ?c = "c\<lparr>temp_used := temp_used c OR push_bit i 1\<rparr>"
    have "used ?c = insert i (used c)"
      using i by (auto simp: used_def bit_or_iff bit_push_bit_iff bit_exp_iff)
    moreover have "i \<notin> used c" using i by (simp add: used_def)
    ultimately have n: "card (used ?c) = Suc (card (used c))" by simp
    have "card (used ?c) \<le> card {..<8 :: nat}" by (rule card_mono) (auto simp: used_def)
    then have "u < 8" using n c by simp
    moreover have "8 \<le> (15 - of_nat i :: u8) \<and> (15 - of_nat i :: u8) \<le> 15"
    proof -
      have "i = 0 \<or> i = 1 \<or> i = 2 \<or> i = 3 \<or> i = 4 \<or> i = 5 \<or> i = 6 \<or> i = 7" using i(1) by arith
      then show ?thesis by (elim disjE) simp_all
    qed
    moreover have "holds_in e (u + 1, k, Fs) ?c"
      using c n by (intro holds_grows [OF c]) (auto simp: comp_ok_def vars_ok_def grows_def rem_def)
    ultimately show ?thesis using Cons by (simp add: alloc_temp_def always_def)
  qed (simp add: alloc_temp_def fail_c_def)
qed

lemma W_free: "W e (u, k, Fs) (free_temp r) (\<lambda>_. (u - 1, k, Fs))"
  unfolding free_temp_def
proof (rule W_change)
  fix c assume c: "holds_in e (u, k, Fs) c"
  let ?c = "c\<lparr>temp_used := temp_used c AND NOT (push_bit (15 - unat r) 1)\<rparr>"
  have "used c - {15 - unat r} \<subseteq> used ?c"
    by (auto simp: used_def bit_and_iff bit_not_iff bit_push_bit_iff bit_exp_iff)
  then have "card (used c - {15 - unat r}) \<le> card (used ?c)" by (rule card_mono [rotated]) simp
  moreover have "card (used c) - 1 \<le> card (used c - {15 - unat r})" by (simp add: card_Diff_singleton_if)
  moreover have "u \<le> card (used c)" using c by simp
  ultimately have "u - 1 \<le> card (used ?c)" by linarith
  then have "holds_in e (u - 1, k, Fs) ?c"
    using c by (intro holds_grows [OF c]) (auto simp: comp_ok_def vars_ok_def grows_def rem_def)
  moreover have "holds_in e (u - 1, k, Fs) c" by (rule weaker_holds [OF _ c]) simp
  ultimately show "holds_in e (u - 1, k, Fs) (if 8 \<le> r \<and> r \<le> 15 then ?c else c)" by simp
qed

end
