(* ===== verification/CompRules.thy ===== *)
theory CompRules
  imports CompLogic
begin

text \<open>
  The rules of the logic for the constant pool, the lookups, the variables and the handles, and
  the lists of rules that walk through an action.
\<close>

section \<open>Constants\<close>

lemma grows_pool: "grows c (c\<lparr>c_const_pool := c_const_pool c @ vs\<rparr>)"
  by (simp add: grows_def)

lemma W_append_const: "W e (u, k, Fs) (append_table_constant v) (\<lambda>i. (u, k, const_at i # Fs))"
proof (rule W_I)
  fix c assume c: "holds_in e (u, k, Fs) c"
  show "result_ok e (\<lambda>i. (u, k, const_at i # Fs)) (append_table_constant v c)"
  proof (cases "MAX_CONST_POOL \<le> length (c_const_pool c)")
    case False
    let ?c = "c\<lparr>c_const_pool := c_const_pool c @ [v]\<rparr>"
    have ok: "comp_ok e c" using c by simp
    have "code_ok (c_code c) (length (c_const_pool c) + 1) (c_arrays c) (struct_insts c)"
      using ok code_ok_more [of "c_code c" "length (c_const_pool c)" "c_arrays c" "struct_insts c" _ "[]" "[]"]
      by (simp add: comp_ok_def)
    then have "comp_ok e ?c" using ok False by (simp add: comp_ok_def vars_ok_def)
    then have "holds_in e (u, k, Fs) ?c"
      by (rule holds_grows [OF c _ grows_pool]) (use c in \<open>simp_all add: used_def rem_def\<close>)
    moreover have "const_at (of_nat (length (c_const_pool c))) ?c"
      using False by (simp add: const_at_def unat_of_nat)
    ultimately show ?thesis using False by (simp add: append_table_constant_def)
  qed (simp add: append_table_constant_def fail_c_def)
qed

lemma position_less: "position P xs = Some i \<Longrightarrow> i < length xs"
  by (induction xs arbitrary: i) (auto split: if_splits)

lemma W_add_const: "W e (u, k, Fs) (add_constant v) (\<lambda>i. (u, k, const_at i # Fs))"
proof (rule W_I)
  fix c assume c: "holds_in e (u, k, Fs) c"
  show "result_ok e (\<lambda>i. (u, k, const_at i # Fs)) (add_constant v c)"
  proof (cases "position ((=) v) (c_const_pool c)")
    case None
    with W_D [OF W_append_const c] show ?thesis by (simp add: add_constant_def)
  next
    case (Some i)
    have "i < 64" using position_less [OF Some] c by (simp add: comp_ok_def)
    with Some c position_less [OF Some] show ?thesis
      by (simp add: add_constant_def give_def const_at_def unat_of_nat)
  qed
qed

lemma plain_simps [simp]:
  "plain PX64_OP_MOV_IMM" "plain PX64_OP_MOV_REG" "plain PX64_OP_MOV_STR" "plain PX64_OP_ADDI" "plain PX64_OP_SUBI"
  "plain PX64_OP_AND" "plain PX64_OP_OR" "plain PX64_OP_XOR" "plain PX64_OP_SHL" "plain PX64_OP_SHR"
  "plain PX64_OP_ADD" "plain PX64_OP_SUB" "plain PX64_OP_MUL" "plain PX64_OP_DIV" "plain PX64_OP_MOD"
  "plain PX64_OP_CMP_EQ" "plain PX64_OP_CMP_NE" "plain PX64_OP_CMP_LT" "plain PX64_OP_CMP_LE" "plain PX64_OP_CMP_GT"
  "plain PX64_OP_CMP_GE" "plain PX64_OP_STREQ" "plain PX64_OP_ARR_LOAD" "plain PX64_OP_ARR_STORE"
  "plain PX64_OP_STRUCT_LOAD" "plain PX64_OP_STRUCT_STORE" "plain PX64_OP_TBL_DEF" "plain PX64_OP_TBL_LOAD"
  "plain PX64_OP_SPILL_LOAD" "plain PX64_OP_SPILL_STORE" "plain PX64_OP_ASSERT" "plain PX64_OP_RET" "plain PX64_OP_HALT"
  "plain PX64_OP_WITHIN_START" "plain PX64_OP_WITHIN_END" "plain PX64_OP_DROP"
  by (simp_all add: plain_def jumps_def)

lemma jumps_simps [simp]:
  "PX64_OP_JMP \<in> jumps" "PX64_OP_JZ \<in> jumps" "PX64_OP_JNZ \<in> jumps" "PX64_OP_CALL \<in> jumps"
  by (simp_all add: jumps_def)

lemma W_emit_const: "W e (u, k, Fs) (emit_const dst v) (\<lambda>_. (u, k, Fs))"
  unfolding emit_const_def
  by (intro W_if W_emit_imm W_seq [OF W_add_const] W_last [OF W_emit_ldc]) auto

section \<open>Lookup\<close>

lemma W_keep_I:
  assumes "\<And>c. comp_ok e c \<Longrightarrow> (\<exists>x. m c = Some (Ok (x, c))) \<or> (\<exists>d. m c = Some (Err d))"
  shows "W e A m (\<lambda>_. A)"
proof (rule W_I)
  fix c assume c: "holds_in e A c"
  then have "comp_ok e c" by (cases A) simp
  from assms [OF this] c show "result_ok e (\<lambda>_. A) (m c)" by auto
qed

lemma W_lookup_array:
  assumes "in_env e tok"
  shows "W e (u, k, Fs) (lookup_array tok) (\<lambda>a. (u, k, always (unat a < 8) # Fs))"
  unfolding lookup_array_def
proof (rule W_seq [OF W_name_of [OF assms]], rule W_I)
  fix name c assume c: "holds_in e (u, k, Fs) c"
  then have "\<forall>a \<in> set (c_arrays c). unat (arr_id a) < 8" by (simp add: comp_ok_def arrays_ok_def)
  with c show "result_ok e (\<lambda>a. (u, k, always (unat a < 8) # Fs))
      (case find (\<lambda>a. arr_name a = name) (c_arrays c) of
         Some a \<Rightarrow> give (arr_id a) c | None \<Rightarrow> fail_c ''ERR_ARRAY_UNDEFINED'' c)"
    by (auto simp: give_def fail_c_def always_def find_Some_iff split: option.split)
qed

lemma W_array_len: "unat arr < 8 \<Longrightarrow> W e A (array_len arr) (\<lambda>_. A)"
  by (rule W_keep_I) (simp add: array_len_def give_def)

lemma W_lookup_view: "in_env e tok \<Longrightarrow> W e A (lookup_view tok) (\<lambda>_. A)"
  unfolding lookup_view_def by (rule W_seq [OF W_name_of], assumption, rule W_keep_I) (simp add: look_def)

lemma find_fn_target: "comp_ok e c \<Longrightarrow> find_fn name c = Some f \<Longrightarrow> target (entry_pc f) c"
  by (auto simp: find_fn_def find_Some_iff comp_ok_def fns_ok_def target_def)

lemma W_seq_find_fn:
  assumes "W e (u, k, Fs) (f None) S" and "\<And>m. W e (u, k, target (entry_pc m) # Fs) (f (Some m)) S"
  shows "W e (u, k, Fs) (seqc (look (find_fn name)) f) S"
proof (rule W_I)
  fix c assume c: "holds_in e (u, k, Fs) c"
  show "result_ok e S (seqc (look (find_fn name)) f c)"
  proof (cases "find_fn name c")
    case None
    with W_D [OF assms(1) c] show ?thesis by (simp add: seqc_def look_def)
  next
    case (Some m)
    then have "holds_in e (u, k, target (entry_pc m) # Fs) c"
      using c find_fn_target [of e c name m] by simp
    with Some W_D [OF assms(2)] show ?thesis by (simp add: seqc_def look_def)
  qed
qed

lemma W_lookup_fn: "W e (u, k, Fs) (lookup_fn_by_name name) (\<lambda>f. (u, k, target (entry_pc f) # Fs))"
  by (rule W_I) (auto simp: lookup_fn_by_name_def give_def fail_c_def find_fn_target split: option.split)

definition combinator_ok :: "CombinatorFnTarget \<Rightarrow> Compiler \<Rightarrow> bool" where
  "combinator_ok t c \<longleftrightarrow> (\<forall>f. t = UserDefined f \<longrightarrow> target (entry_pc f) c)"

lemma stable_combinator [simp]: "stable (combinator_ok t)"
  using stable_facts(3) unfolding stable_def combinator_ok_def by blast

lemma W_lookup_combinator: "W e (u, k, Fs) (lookup_combinator_fn name) (\<lambda>t. (u, k, combinator_ok t # Fs))"
  by (rule W_I)
    (auto simp: lookup_combinator_fn_def give_def fail_c_def combinator_ok_def find_fn_target split: option.split)

lemma W_combinator:
  "combinator_ok (UserDefined f) \<in> set Fs \<Longrightarrow> W e (u, k, target (entry_pc f) # Fs) m S \<Longrightarrow> W e (u, k, Fs) m S"
  unfolding W_def using facts_mem [of Fs _ "combinator_ok (UserDefined f)"] by (auto simp: combinator_ok_def)

lemma W_struct_field: "W e A (lookup_struct_field v f) (\<lambda>_. A)"
  by (rule W_keep_I) (auto simp: lookup_struct_field_def give_def fail_c_def split: option.split)

lemma W_const_table: "W e A (lookup_const_table name) (\<lambda>_. A)"
  by (rule W_keep_I) (auto simp: lookup_const_table_def give_def fail_c_def split: option.split)

lemma W_fixed_scale: "in_env e tok \<Longrightarrow> W e A (get_var_fixed_scale tok) (\<lambda>_. A)"
  unfolding get_var_fixed_scale_def by (rule W_seq [OF W_name_of], assumption, rule W_keep_I) (simp add: look_def)

lemma W_is_struct: "in_env e tok \<Longrightarrow> W e A (is_struct_type tok) (\<lambda>_. A)"
  unfolding is_struct_type_def by (rule W_seq [OF W_name_of], assumption, rule W_keep_I) (simp add: look_def)

lemma W_enum_variant: "W e A (enum_variant name v) (\<lambda>_. A)"
  by (rule W_keep_I) (auto simp: enum_variant_def give_def fail_c_def split: option.split)

lemma W_mutation: "in_env e tok \<Longrightarrow> W e A (check_var_mutation tok) (\<lambda>_. A)"
  unfolding check_var_mutation_def
  by (rule W_seq [OF W_name_of], assumption, rule W_keep_I)
    (auto simp: give_def fail_c_def ensure_c_def split: option.split)

lemma W_runtime: "W e A (check_intrinsic_runtime f) (\<lambda>_. A)"
  by (rule W_keep_I) (simp add: check_intrinsic_runtime_def ensure_c_def give_def fail_c_def)

lemma W_look_peek: "W e (u, k, Fs) (look peek) (\<lambda>tok. (u, k, always (in_env e tok) # Fs))"
  by (rule W_look) (rule peek_in_env)

lemma W_look_ahead: "W e (u, k, Fs) (look (peek_ahead n)) (\<lambda>tok. (u, k, always (in_env e tok) # Fs))"
  by (rule W_look) (rule peek_ahead_in_env)

lemma W_unquoted: "in_env e tok \<Longrightarrow> W e A (unquoted tok) (\<lambda>_. A)"
  by (rule W_keep_I) (auto simp: unquoted_def give_def in_env_def comp_ok_def)

section \<open>Variables and handles\<close>

text \<open>A state that differs in variables, handles and types only.\<close>

definition kept :: "cenv \<Rightarrow> Compiler \<Rightarrow> Compiler \<Rightarrow> bool" where
  "kept e c c' \<longleftrightarrow> comp_ok e c' \<and> grows c c' \<and> temp_used c' = temp_used c \<and>
     c_tokens c' = c_tokens c \<and> current c' = current c"

lemma kept_refl: "comp_ok e c \<Longrightarrow> kept e c c"
  by (simp add: kept_def)

lemma kept_holds: "holds_in e (u, k, Fs) c \<Longrightarrow> kept e c c' \<Longrightarrow> holds_in e (u, k, Fs) c'"
  by (rule holds_grows [of e u k Fs c]) (auto simp: kept_def used_def rem_def)

lemma W_kept:
  assumes "\<And>c. comp_ok e c \<Longrightarrow> (\<exists>x c'. m c = Some (Ok (x, c')) \<and> kept e c c') \<or> (\<exists>d. m c = Some (Err d))"
  shows "W e (u, k, Fs) m (\<lambda>_. (u, k, Fs))"
proof (rule W_I)
  fix c assume c: "holds_in e (u, k, Fs) c"
  then have "comp_ok e c" by simp
  from assms [OF this] kept_holds [OF c] show "result_ok e (\<lambda>_. (u, k, Fs)) (m c)" by auto
qed

lemma kept_new_var: "comp_ok e c \<Longrightarrow> var_count c < MAX_VARS \<Longrightarrow> kept e c (new_var name b c)"
  by (simp add: kept_def comp_ok_def vars_ok_def grows_def new_var_def Let_def)

lemma kept_spill:
  "kept e c c' \<Longrightarrow>
   kept e c (c'\<lparr>var_spill := (var_spill c)[i := b], var_spill_slot := (var_spill_slot c)[i := s]\<rparr>)"
  "kept e c c' \<Longrightarrow> kept e c (c'\<lparr>var_regs := (var_regs c)[i := r],
     var_spill := (var_spill c)[i := b], var_spill_slot := (var_spill_slot c)[i := s], spill_count := n\<rparr>)"
  if "comp_ok e c" for c c'
  using that by (simp_all add: kept_def comp_ok_def vars_ok_def grows_def)

lemma kept_mut: "comp_ok e c \<Longrightarrow> kept e c (c\<lparr>var_mut := (var_mut c)[i := b]\<rparr>)"
  by (simp add: kept_def comp_ok_def vars_ok_def grows_def)

lemma W_declare_var: "W e (u, k, Fs) (declare_var tok b) (\<lambda>_. (u, k, Fs))"
proof (rule W_kept)
  fix c assume c: "comp_ok e c"
  show "(\<exists>x c'. declare_var tok b c = Some (Ok (x, c')) \<and> kept e c c') \<or> (\<exists>d. declare_var tok b c = Some (Err d))"
  proof (cases "fixed_register (name_or_empty tok c)")
    case None
    then show ?thesis
      using c kept_spill [OF c kept_new_var [OF c]] kept_mut [OF c]
      by (auto simp: declare_var_def Let_def give_def fail_c_def split: option.split)
  qed (use c in \<open>simp add: declare_var_def give_def kept_refl\<close>)
qed

lemma W_resolve_var: "in_env e tok \<Longrightarrow> W e (u, k, Fs) (resolve_var tok) (\<lambda>_. (u, k, Fs))"
  unfolding resolve_var_def
  by (rule W_seq [OF W_name_of], assumption, rule W_kept)
    (auto simp: give_def fail_c_def kept_refl kept_new_var split: option.split)

lemma kept_handles: "comp_ok e c \<Longrightarrow> length hs = 4 \<Longrightarrow> kept e c (c\<lparr>handle_states := hs\<rparr>)"
  by (simp add: kept_def comp_ok_def vars_ok_def grows_def)

lemma kept_set_handle: "comp_ok e c \<Longrightarrow> kept e c (set_handle r t c)"
  unfolding set_handle_def by (rule kept_handles) (auto simp: comp_ok_def)

lemma W_send: "W e (u, k, Fs) (send_handle r) (\<lambda>_. (u, k, Fs))"
  by (rule W_kept) (auto simp: send_handle_def give_def fail_c_def kept_set_handle split: Typestate.split)

lemma W_release: "W e (u, k, Fs) (release_handle r) (\<lambda>_. (u, k, Fs))"
  by (rule W_kept) (auto simp: release_handle_def give_def fail_c_def kept_set_handle split: Typestate.split)

lemma W_hw_pre: "W e (u, k, Fs) (check_hw_assign_pre r) (\<lambda>_. (u, k, Fs))"
proof (rule W_I)
  fix c assume c: "holds_in e (u, k, Fs) c"
  then have "in_env e (peek c)" by (simp add: peek_in_env)
  from W_D [OF W_resolve_var [OF this] c] c show "result_ok e (\<lambda>_. (u, k, Fs)) (check_hw_assign_pre r c)"
    by (cases "(e, \<lambda>_ :: u8. (u, k, Fs), resolve_var (peek c) c)" rule: result_ok.cases)
      (auto simp: check_hw_assign_pre_def give_def fail_c_def split: Typestate.split)
qed

lemma W_raw_handle: "W e (u, k, Fs) raw_handle (\<lambda>_. (u, k, Fs))"
proof (rule W_I)
  fix c assume c: "holds_in e (u, k, Fs) c"
  then have "in_env e (peek c)" by (simp add: peek_in_env)
  from W_D [OF W_resolve_var [OF this] c] c show "result_ok e (\<lambda>_. (u, k, Fs)) (raw_handle c)"
    by (cases "(e, \<lambda>_ :: u8. (u, k, Fs), resolve_var (peek c) c)" rule: result_ok.cases)
      (auto simp: raw_handle_def give_def)
qed

lemma W_change_kept: "(\<And>c. comp_ok e c \<Longrightarrow> kept e c (g c)) \<Longrightarrow> W e (u, k, Fs) (change g) (\<lambda>_. (u, k, Fs))"
  by (rule W_kept) (simp add: change_def)

lemma W_hw_post: "W e (u, k, Fs) (apply_hw_assign_post r tok m) (\<lambda>_. (u, k, Fs))"
  unfolding apply_hw_assign_post_def
proof (rule W_change_kept)
  fix c assume c: "comp_ok e c"
  have "kept e c (set_handle r t (c\<lparr>handle_states := (handle_states c)[i := t']\<rparr>))" for t t' i
    using c unfolding set_handle_def by (auto intro!: kept_handles simp: comp_ok_def)
  with c show "kept e c (if \<not> is_handle r then c
       else let held = Captured (tok_line tok) (tok_col tok)
            in case m of
                 Some (src_slot, k) \<Rightarrow>
                   set_handle r (held k)
                     (c\<lparr>handle_states := (handle_states c)[src_slot := Moved (tok_line tok) (tok_col tok)]\<rparr>)
               | None \<Rightarrow> set_handle r (held HardwareFrame) c)"
    by (auto simp: Let_def kept_refl kept_set_handle split: option.split)
qed

text \<open>Changes of fields the invariant says nothing about.\<close>

lemma kept_fields:
  assumes "comp_ok e c"
  shows "kept e c (c\<lparr>current_expr_enum_type := x\<rparr>)" "kept e c (c\<lparr>current_expr_fixed_scale := s\<rparr>)"
    "kept e c (c\<lparr>current_expr_enum_type := x, current_expr_fixed_scale := s\<rparr>)"
    "kept e c (c\<lparr>current_expr_enum_type := x, current_expr_fixed_scale := s, target_fixed_scale := t\<rparr>)"
    "kept e c (c\<lparr>target_fixed_scale := t\<rparr>)"
    "kept e c (c\<lparr>has_explicit_imports := h, imported_runtimes := w\<rparr>)" "kept e c (c\<lparr>imported_runtimes := w\<rparr>)"
    "kept e c (c\<lparr>declared_script_wcet_ns := ns\<rparr>)" "kept e c (c\<lparr>declared_script_budget_ns := ns\<rparr>)"
    "kept e c (c\<lparr>wcet_items := ws\<rparr>)" "kept e c (c\<lparr>total_synthesized_wcet_ns := n\<rparr>)"
    "kept e c (c\<lparr>const_tables := ts\<rparr>)" "kept e c (c\<lparr>views := vs\<rparr>)" "kept e c (c\<lparr>enums := es\<rparr>)"
    "kept e c (c\<lparr>max_elements := m\<rparr>)"
  using assms by (simp_all add: kept_def comp_ok_def vars_ok_def grows_def)

lemma W_declare_view: "in_env e tok \<Longrightarrow> W e (u, k, Fs) (declare_view tok a b s l) (\<lambda>_. (u, k, Fs))"
  unfolding declare_view_def
  by (rule W_seq [OF W_name_of], assumption, rule W_kept)
    (auto simp: give_def fail_c_def Let_def kept_fields split: option.split)

lemma W_set_scale: "W e (u, k, Fs) (set_scale s) (\<lambda>_. (u, k, Fs))"
  unfolding set_scale_def by (rule W_change_kept) (rule kept_fields)

lemma kept_var_types:
  assumes "comp_ok e c"
  shows "kept e c (c\<lparr>var_enum_types := (var_enum_types c)[i := x]\<rparr>)"
    "kept e c (c\<lparr>var_enum_types := (var_enum_types c)[i := x], var_fixed_scales := (var_fixed_scales c)[i := s]\<rparr>)"
  using assms by (simp_all add: kept_def comp_ok_def vars_ok_def grows_def)

lemma W_var_types: "W e (u, k, Fs) (set_var_types tok x s) (\<lambda>_. (u, k, Fs))"
  "W e (u, k, Fs) (set_var_enum tok) (\<lambda>_. (u, k, Fs))"
  unfolding set_var_types_def set_var_enum_def
  by (rule W_change_kept; simp add: kept_refl kept_var_types split: option.split)+

section \<open>Walking through an action\<close>

lemma weaker_refl [simp]: "weaker A A"
  by (cases A) simp

text \<open>Unfolding a recursive action.\<close>

lemma W_unfold: "(\<And>c. m c = m' c) \<Longrightarrow> W e A m' S \<Longrightarrow> W e A m S"
  by (simp add: W_def)

lemma W_seq_prod:
  "(\<And>a b. x = (a, b) \<Longrightarrow> W e A (seqc (f a b) g) S) \<Longrightarrow> W e A (seqc (case x of (a, b) \<Rightarrow> f a b) g) S"
  by (cases x) auto

lemma W_free_top: "W e (u + 1, k, Fs) (free_temp r) (\<lambda>_. (u, k, Fs))"
  using W_free [of e "u + 1"] by simp

lemma W_give_always:
  "P x \<Longrightarrow> weaker A (u x, k x, Fs x) \<Longrightarrow> W e A (give x) (\<lambda>x. (u x, k x, always (P x) # Fs x))"
  using weaker_holds [of A "(u x, k x, Fs x)" e] by (auto simp: W_def give_def always_def)

lemma W_if_const: "W e A m S \<Longrightarrow> W e A (if True then m else m') S" "W e A m' S \<Longrightarrow> W e A (if False then m else m') S"
  by simp_all

lemma W_seq_if_const:
  "W e A (seqc m f) S \<Longrightarrow> W e A (seqc (if True then m else m') f) S"
  "W e A (seqc m' f) S \<Longrightarrow> W e A (seqc (if False then m else m') f) S"
  by simp_all

lemma W_seq_match:
  assumes "s \<noteq> TkEof" and "W e (u, k - 1, Fs) (f True) S" and "W e (u, k, Fs) (f False) S"
  shows "W e (u, k, Fs) (seqc (match_token s) f) S"
proof (rule W_seq [OF W_match [OF assms(1)]])
  show "W e (u, if b then k - 1 else k, Fs) (f b) S" for b using assms(2,3) by (cases b) simp_all
qed

lemma W_change_any: "(\<And>c. comp_ok e c \<Longrightarrow> kept e c (g c)) \<Longrightarrow> weaker (u, k, Fs) (S ()) \<Longrightarrow> W e (u, k, Fs) (change g) S"
  by (rule W_last [OF W_change_kept]) auto

lemma W_seq_change: "(\<And>c. comp_ok e c \<Longrightarrow> kept e c (g c)) \<Longrightarrow> W e (u, k, Fs) (f ()) S \<Longrightarrow> W e (u, k, Fs) (seqc (change g) f) S"
  by (rule W_seq [OF W_change_kept]) auto

lemmas flow_rules =
  W_always W_if_const W_if W_option W_prod W_seq_prod W_give W_fail W_seq_give W_seq_fail W_assoc W_seq_if_const W_seq_if W_seq_option
  W_seq_ensure W_ensure

lemmas token_rules =
  W_advance_weak [THEN W_seq] W_advance_weak [THEN W_last] W_seq_match W_match [THEN W_last]
  W_skip [THEN W_seq] W_skip [THEN W_last] W_expect [THEN W_seq] W_expect [THEN W_last]
  W_name_of [THEN W_seq] W_name_of [THEN W_last] W_unquoted [THEN W_seq] W_unquoted [THEN W_last]

lemmas emit_rules =
  W_emit_native [THEN W_seq] W_emit_native [THEN W_last] W_emit [THEN W_seq] W_emit [THEN W_last]
  W_emit_ldc [THEN W_seq] W_emit_ldc [THEN W_last] W_emit_arr_def [THEN W_seq]
  W_emit_jump [where op = PX64_OP_CALL, THEN W_seq] W_emit_jump [where op = PX64_OP_JMP, THEN W_seq]
  W_emit_imm [THEN W_seq] W_emit_imm [THEN W_last] W_emit_const [THEN W_seq] W_emit_const [THEN W_last]
  W_jump [THEN W_seq] W_jump_imm [THEN W_seq] W_jump_imm [THEN W_last] W_patch [THEN W_seq] W_patch [THEN W_last]
  W_alloc [THEN W_seq] W_free_top [THEN W_seq] W_free_top [THEN W_last] W_free [THEN W_seq] W_free [THEN W_last]
  W_append_const [THEN W_seq] W_add_const [THEN W_seq]

lemmas look_rules =
  W_look_peek [THEN W_seq] W_look_ahead [THEN W_seq] W_here [THEN W_seq] W_seq_find_fn W_seq_look

lemmas state_rules =
  W_lookup_array [THEN W_seq] W_array_len [THEN W_seq] W_lookup_view [THEN W_seq] W_lookup_fn [THEN W_seq]
  W_lookup_combinator [THEN W_seq] W_struct_field [THEN W_seq] W_const_table [THEN W_seq] W_fixed_scale [THEN W_seq]
  W_is_struct [THEN W_seq] W_enum_variant [THEN W_seq] W_mutation [THEN W_seq] W_runtime [THEN W_seq]
  W_declare_var [THEN W_seq] W_resolve_var [THEN W_seq] W_send [THEN W_seq] W_send [THEN W_last]
  W_release [THEN W_seq] W_release [THEN W_last] W_hw_pre [THEN W_seq] W_raw_handle [THEN W_seq]
  W_hw_post [THEN W_seq] W_declare_view [THEN W_seq] W_set_scale [THEN W_seq] W_set_scale [THEN W_last]
  W_var_types [THEN W_seq] W_var_types [THEN W_last] W_seq_change W_change_any

lemmas comp_rules = flow_rules token_rules emit_rules look_rules state_rules

text \<open>
  The parsers an action calls: they return with one token fewer, for every state at or after the
  one the action starts in, and for every position when a temporary more is taken.
\<close>

definition tokens :: "cenv \<Rightarrow> nat" where
  "tokens e = length (env_toks e)"

definition parser_ok :: "cenv \<Rightarrow> nat \<Rightarrow> nat \<Rightarrow> ('b \<Rightarrow> 'a comp) \<Rightarrow> bool" where
  "parser_ok e u k p \<longleftrightarrow>
     (\<forall>u' k' Fs x. u \<le> u' \<and> k' \<le> k \<or> u < u' \<and> k' \<le> tokens e + 1 \<longrightarrow>
        W e (u', k', Fs) (p x) (\<lambda>_. (u', k' - 1, Fs)))"

lemma parser_at:
  assumes "parser_ok e u k p" and "u \<le> u' \<and> k' \<le> k \<or> u < u' \<and> k' \<le> tokens e + 1"
  shows "parser_ok e u' k' p"
  unfolding parser_ok_def
proof (intro allI impI)
  fix u'' k'' Fs x assume "u' \<le> u'' \<and> k'' \<le> k' \<or> u' < u'' \<and> k'' \<le> tokens e + 1"
  with assms(2) have "u \<le> u'' \<and> k'' \<le> k \<or> u < u'' \<and> k'' \<le> tokens e + 1" by linarith
  then show "W e (u'', k'', Fs) (p x) (\<lambda>_. (u'', k'' - 1, Fs))" 
    by (rule assms(1) [unfolded parser_ok_def, rule_format])
qed

lemma parser_mono: "parser_ok e u k p \<Longrightarrow> u \<le> u' \<Longrightarrow> k' \<le> k \<Longrightarrow> parser_ok e u' k' p"
  by (erule parser_at) simp

lemma parser_W: "parser_ok e u k p \<Longrightarrow> u \<le> u' \<Longrightarrow> k' \<le> k \<Longrightarrow> W e (u', k', Fs) (p x) (\<lambda>_. (u', k' - 1, Fs))"
  unfolding parser_ok_def by blast

lemma parser_W_const: "parser_ok e u k (\<lambda>_ :: unit. m) \<Longrightarrow> u \<le> u' \<Longrightarrow> k' \<le> k \<Longrightarrow> W e (u', k', Fs) m (\<lambda>_. (u', k' - 1, Fs))"
  by (drule parser_W) auto

lemmas parser_rules = parser_W [THEN W_seq] parser_W [THEN W_last]

lemmas stmt_rules = parser_W_const [THEN W_seq] parser_W_const [THEN W_last]

end
