(* ===== verification/CompInv.thy ===== *)
theory CompInv
  imports CompRules
begin

text \<open>Every action of the expression parser keeps the invariant and returns.\<close>

section \<open>Operators\<close>

lemma W_emit_shift: "plain op \<Longrightarrow> W e (u, k, Fs) (emit_shift op dst s) (\<lambda>_. (u, k, Fs))"
  unfolding emit_shift_def thenc_def by (intro comp_rules) auto

lemma W_load_const: "W e (u, k, Fs) (load_const r v) (\<lambda>_. (u, k, Fs))"
  unfolding load_const_def by (intro comp_rules) auto

lemma W_emit_mul: "W e (u, k, Fs) (emit_mul s1 s2 dst r) (\<lambda>_. (u, k, Fs))"
  unfolding emit_mul_def thenc_def by (intro comp_rules W_emit_shift [THEN W_seq]) auto

lemma W_emit_div: "W e (u, k, Fs) (emit_div s1 s2 dst r) (\<lambda>_. (u, k, Fs))"
  unfolding emit_div_def thenc_def by (intro comp_rules W_emit_shift [THEN W_seq]) auto

lemma W_emit_mod: "W e (u, k, Fs) (emit_mod dst r) (\<lambda>_. (u, k, Fs))"
  unfolding emit_mod_def thenc_def by (intro comp_rules) auto

lemma W_emit_logic: "plain op \<Longrightarrow> W e (u, k, Fs) (emit_logic op dst r) (\<lambda>_. (u, k, Fs))"
  unfolding emit_logic_def thenc_def by (intro comp_rules) auto

lemma W_fold_or:
  assumes "\<And>a b. W e (u, k, Fs) (f a b) (\<lambda>_. (u, k, Fs))" and "W e (u, k, Fs) m (\<lambda>_. (u, k, Fs))"
  shows "W e (u, k, Fs) (fold_or f m dst r v w) (\<lambda>_. (u, k, Fs))"
  unfolding fold_or_def load_both_def thenc_def
  by (intro comp_rules W_load_const [THEN W_seq] assms [THEN W_seq]) auto

definition combine_ok :: "cenv \<Rightarrow> combine \<Rightarrow> bool" where
  "combine_ok e comb \<longleftrightarrow> (\<forall>u k Fs kd s1 s2 dst r v w. W e (u, k, Fs) (comb kd s1 s2 dst r v w) (\<lambda>_. (u, k, Fs)))"

lemma combine_simple: "(\<And>kd. plain (opc kd)) \<Longrightarrow> combine_ok e (simple_op f opc)"
  unfolding combine_ok_def simple_op_def by (intro allI W_fold_or comp_rules) auto

lemma combine_logic: "plain op \<Longrightarrow> combine_ok e (logic_op f op)"
  unfolding combine_ok_def logic_op_def by (intro allI W_fold_or W_emit_logic comp_rules) auto

lemma combine_term: "combine_ok e term_op"
  unfolding combine_ok_def term_op_def thenc_def
  by (intro allI comp_rules W_fold_or [THEN W_last]) auto

lemma W_fold_factor: "W e (u, k, Fs) (fold_factor kd a b) (\<lambda>_. (u, k, Fs))"
  unfolding fold_factor_def by (intro comp_rules) auto

lemma combine_factor: "combine_ok e factor_op"
  unfolding combine_ok_def factor_op_def
  by (intro allI W_fold_or W_fold_factor W_if W_emit_mul W_emit_div W_emit_mod)

lemma W_level_loop:
  assumes "combine_ok e comb" and "parser_ok e u k next" and "k \<le> n"
  shows "W e (u, k, Fs) (level_loop n is_op comb next dst v) (\<lambda>_. (u, k, Fs))"
  using assms(2,3)
proof (induction n arbitrary: k v)
  case (Suc n)
  note comb = assms(1) [unfolded combine_ok_def, rule_format]
  have IH: "W e (u, k - 1, Fs) (level_loop n is_op comb next dst v) (\<lambda>_. (u, k - 1, Fs))" for v
    using Suc parser_mono [OF Suc(2)] by (intro Suc.IH) auto
  show ?case
    by (rule W_unfold, rule level_loop.simps(2), unfold thenc_def)
      (intro W_test comp_rules parser_rules [OF Suc(2)] comb [THEN W_seq] IH [THEN W_last]; auto)
qed simp

lemma parser_level:
  assumes "combine_ok e comb" and "parser_ok e u k next" and "k \<le> n" and "tokens e < n"
  shows "parser_ok e u k (level n is_op comb next)"
  unfolding parser_ok_def level_def
proof (intro allI impI)
  fix u' k' Fs dst assume uk: "u \<le> u' \<and> k' \<le> k \<or> u < u' \<and> k' \<le> tokens e + 1"
  note p = parser_at [OF assms(2) uk]
  have "k' - 1 \<le> n" using uk assms(3,4) by auto
  from W_level_loop [OF assms(1) parser_mono [OF p] this] p
  show "W e (u', k', Fs) (seqc (next dst) (level_loop n is_op comb next dst)) (\<lambda>_. (u', k' - 1, Fs))"
    by (intro parser_rules [OF p]) auto
qed

lemma parser_logic_or:
  assumes "parser_ok e u k prim" and "k \<le> n" and "tokens e < n"
  shows "parser_ok e u k (logic_or n prim)"
  unfolding logic_or_def logic_and_def equality_def comparison_def bitwise_or_def bitwise_xor_def bitwise_and_def
    shift_c_def term_c_def factor_def
  by (intro parser_level combine_logic combine_simple combine_term combine_factor assms) (simp_all add: comparison_code_def)

section \<open>The conditional operator and pipes\<close>

lemma W_block:
  assumes "parser_ok e u k (\<lambda>_ :: unit. stmt)" and "k \<le> n"
  shows "W e (u, k, Fs) (block_c n stmt) (\<lambda>_. (u, k, Fs))"
  using assms
proof (induction n arbitrary: k)
  case (Suc n)
  have IH: "W e (u, k - 1, Fs) (block_c n stmt) (\<lambda>_. (u, k - 1, Fs))"
    using Suc parser_mono [OF Suc(2)] by (intro Suc.IH) auto
  show ?case
    by (rule W_unfold, rule block_c.simps(2), unfold thenc_def)
      (intro W_test comp_rules stmt_rules [OF Suc(2)] IH [THEN W_last]; auto)
qed simp

lemma W_braced:
  assumes "parser_ok e u k (\<lambda>_ :: unit. stmt)" and "k \<le> n"
  shows "W e (u, k, Fs) (braced n stmt) (\<lambda>_. (u, k, Fs))"
  unfolding braced_def thenc_def by (intro W_block [OF assms, THEN W_seq] comp_rules) auto

lemma W_branch:
  assumes "parser_ok e u k (\<lambda>_ :: unit. stmt)" and "k \<le> n" and "W e (u, k, Fs) other (\<lambda>_. (u, k, Fs))"
  shows "W e (u, k, Fs) (branch n stmt other) (\<lambda>_. (u, k, Fs))"
  unfolding branch_def
  by (intro W_seq_match W_if_const W_last [OF assms(3)] W_last [OF W_braced] parser_mono [OF assms(1)]) (use assms(2) in auto)

lemma parser_ternary:
  assumes prim: "parser_ok e u k prim" and ex: "parser_ok e u (k - 1) ex" and stmt: "parser_ok e u (k - 1) (\<lambda>_ :: unit. stmt)"
    and n: "k \<le> n" "tokens e < n"
  shows "W e (u, k, Fs) (ternary_body n prim ex stmt dst) (\<lambda>_. (u, k - 1, Fs))"
  unfolding ternary_body_def thenc_def
  by (intro parser_rules [OF parser_logic_or [OF prim n]] comp_rules W_load_const [THEN W_seq]
      W_branch [THEN W_seq] parser_mono [OF stmt] parser_W [OF ex, THEN W_last]) (use n in auto)

lemma W_pipe_target:
  "W e (u, k, Fs) (pipe_target dst name) (\<lambda>f. (u, k, always (\<forall>r. call_ok (native_code f) r) # Fs))"
  unfolding pipe_target_def thenc_def by (intro W_give_always comp_rules) (auto simp: call_ok_def)

lemma W_pipes: "k \<le> n \<Longrightarrow> W e (u, k, Fs) (pipes n dst) (\<lambda>_. (u, k, Fs))"
proof (induction n arbitrary: k)
  case (Suc n)
  have IH: "W e (u, k - 1, Fs) (pipes n dst) (\<lambda>_. (u, k - 1, Fs))" using Suc by (intro Suc.IH) auto
  show ?case
    by (rule W_unfold, rule pipes.simps(2), unfold thenc_def)
      (intro comp_rules W_pipe_target [THEN W_seq] IH [THEN W_last]; auto)
qed simp

lemma parser_expression:
  assumes "parser_ok e u k tern" and "k \<le> n" and "tokens e < n"
  shows "W e (u, k, Fs) (expression_body n tern dst) (\<lambda>_. (u, k - 1, Fs))"
  unfolding expression_body_def thenc_def
  by (intro parser_rules [OF assms(1)] W_load_const [THEN W_seq] W_pipes [THEN W_last]) (use assms in auto)

section \<open>Views and combinators\<close>

lemma W_size_or: "W e (u, k, Fs) (size_or d) (\<lambda>_. (u, k, Fs))"
  unfolding size_or_def by (intro comp_rules) auto

lemma W_move_imm: "W e (u, k, Fs) (move_imm r v) (\<lambda>_. (u, k, Fs))"
  unfolding move_imm_def by (intro comp_rules) auto

lemma W_view_intrinsic:
  assumes "parser_ok e u k ex"
  shows "W e (u, k, Fs) (view_intrinsic ex name base) (\<lambda>_. (u, k, Fs))"
  unfolding view_intrinsic_def thenc_def
  by (intro comp_rules W_size_or [THEN W_seq] W_move_imm [THEN W_seq] parser_rules [OF assms]) auto

lemma W_view_to_reg:
  assumes "parser_ok e u k ex"
  shows "W e (u, k, Fs) (parse_view_source_to_reg ex base) (\<lambda>_. (u, k, Fs))"
  unfolding parse_view_source_to_reg_def thenc_def
  by (intro comp_rules W_view_intrinsic [OF assms, THEN W_last]) auto

lemma W_view:
  assumes "parser_ok e u k ex"
  shows "W e (u, k, Fs) (parse_view_source ex) (\<lambda>_. (u, k, Fs))"
  unfolding parse_view_source_def thenc_def
  by (intro comp_rules W_view_to_reg [THEN W_last] parser_mono [OF assms]) auto

lemma W_load_element:
  "W e (u, k, Fs) (load_element v i) (\<lambda>r. (u + 1, k, always (8 \<le> r \<and> r \<le> 15) # Fs))"
  unfolding load_element_def thenc_def by (intro W_give_always comp_rules W_move_imm [THEN W_seq]) auto

lemma W_loop_head:
  assumes "\<And>i cr st cd jz. W e (u + 1 + 1 + 1, k, jump_at jz # target (of_nat st) # Fs) (f (i, cr, st, cd, jz)) S"
  shows "W e (u, k, Fs) (seqc (loop_head n) f) S"
  unfolding loop_head_def thenc_def by (intro comp_rules W_move_imm [THEN W_seq] assms) auto

lemma W_loop_tail:
  "jump_at jz \<in> set Fs \<Longrightarrow> target (of_nat st) \<in> set Fs \<Longrightarrow> W e (u, k, Fs) (loop_tail i st jz) (\<lambda>_. (u, k, Fs))"
  unfolding loop_tail_def thenc_def by (intro comp_rules) auto

lemma call_ok_reg: "r \<le> 20 \<Longrightarrow> call_ok f r"
  by (simp add: call_ok_def word_le_nat_alt)

lemma W_apply_combinator:
  assumes "combinator_ok t \<in> set Fs" and "8 \<le> r" "r \<le> 15"
  shows "W e (u + 1 + 1, k, Fs) (apply_combinator t is_sum dst r r') (\<lambda>_. (u, k, Fs))"
proof (cases t)
  case (UserDefined f)
  with assms(1) have f: "combinator_ok (UserDefined f) \<in> set Fs" by simp
  show ?thesis
    unfolding apply_combinator_def UserDefined thenc_def
    by (rule W_combinator [OF f]) (simp only: CombinatorFnTarget.case, intro comp_rules, auto)
next
  case (Builtin f)
  have "r \<le> 20" using assms(3) by unat_arith
  then show ?thesis
    unfolding apply_combinator_def Builtin thenc_def CombinatorFnTarget.case
    by (intro comp_rules call_ok_reg) auto
qed

lemma W_zip_with: "W e (u, k, Fs) (compile_zip_with_to_reg dst v1 v2 name is_sum) (\<lambda>_. (u, k, Fs))"
  unfolding compile_zip_with_to_reg_def thenc_def
  by (intro comp_rules W_loop_head W_load_element [THEN W_seq] W_apply_combinator [THEN W_seq] W_loop_tail [THEN W_seq]) auto

lemma W_sum: "W e (u, k, Fs) (compile_sum_to_reg dst v) (\<lambda>_. (u, k, Fs))"
  unfolding compile_sum_to_reg_def thenc_def
  by (intro comp_rules W_loop_head W_load_element [THEN W_seq] W_loop_tail [THEN W_seq]) auto

lemma W_reduce: "W e (u, k, Fs) (compile_reduce_to_reg dst v init name) (\<lambda>_. (u, k, Fs))"
  unfolding compile_reduce_to_reg_def thenc_def
  by (intro comp_rules W_loop_head W_load_element [THEN W_seq] W_loop_tail [THEN W_seq]) auto

section \<open>Literals and variables\<close>

lemma W_primary_float: "W e (u, k, Fs) (primary_float s d dst) (\<lambda>_. (u, k, Fs))"
  unfolding primary_float_def thenc_def by (intro comp_rules) auto

lemma W_emit_str: "W e (u, k, Fs) (emit_str dst off len) (\<lambda>_. (u, k, Fs))"
  unfolding emit_str_def by (intro comp_rules) auto

lemma kept_str: "comp_ok e c \<Longrightarrow> length s \<le> MAX_STRING_POOL \<Longrightarrow> kept e c (c\<lparr>c_str_pool := s\<rparr>)"
  by (simp add: kept_def comp_ok_def vars_ok_def grows_def)

text \<open>The room that was found is still there when the string is stored.\<close>

lemma seqc_steps:
  "seqc (look g) f c = f (g c) c" "seqc (give x) f c = f x c" "seqc (change h) f' c = f' () (h c)"
  "seqc (ensure_c b msg) f' c = (if b then f' () c else fail_c msg c)"
  by (simp_all add: seqc_def look_def give_def change_def ensure_c_def fail_c_def)

lemma W_primary_string:
  assumes "in_env e tok"
  shows "W e (u, k, Fs) (primary_string tok dst) (\<lambda>_. (u, k, Fs))"
  unfolding primary_string_def thenc_def
proof (rule W_seq [OF W_unquoted [OF assms]], rule W_I)
  fix s c assume c: "holds_in e (u, k, Fs) c"
  have emitted: "W e (u, k, Fs) (seqc (emit_str dst off len) (\<lambda>_. give (None :: i64 option))) (\<lambda>_. (u, k, Fs))" for off len
    by (intro W_emit_str [THEN W_seq] comp_rules) auto
  have "kept e c (c\<lparr>c_str_pool := c_str_pool c @ unescape s\<rparr>)" if "length (c_str_pool c) + length (unescape s) \<le> MAX_STRING_POOL"
    using c that by (intro kept_str) auto
  from W_D [OF emitted c] W_D [OF emitted kept_holds [OF c this]]
  show "result_ok e (\<lambda>_. (u, k, Fs)) (seqc (look (\<lambda>c. length (c_str_pool c))) (\<lambda>offset.
       seqc (give (unescape s)) (\<lambda>out. seqc (ensure_c (offset + length out \<le> MAX_STRING_POOL) ''ERR_STRING_POOL_FULL'') (\<lambda>_.
       seqc (look (find_string_in_pool out)) (\<lambda>prev. seqc (case prev of
          Some prev_offset \<Rightarrow> emit_str dst prev_offset (length out)
        | None \<Rightarrow> seqc (change (\<lambda>c. c\<lparr>c_str_pool := c_str_pool c @ out\<rparr>)) (\<lambda>_. emit_str dst offset (length out)))
          (\<lambda>_. give (None :: i64 option)))))) c)"
    by (simp add: seqc_steps seqc_assoc fail_c_def split: option.split)
qed

lemma W_set_expr_types: "in_env e tok \<Longrightarrow> W e (u, k, Fs) (set_expr_types tok) (\<lambda>_. (u, k, Fs))"
  unfolding set_expr_types_def by (intro comp_rules) (auto intro: kept_fields)

lemma W_primary_var:
  assumes "parser_ok e u k ex" and "in_env e tok"
  shows "W e (u, k, Fs) (primary_var ex tok dst) (\<lambda>_. (u, k, Fs))"
  unfolding primary_var_def thenc_def
  by (intro comp_rules W_set_expr_types [THEN W_seq] parser_rules [OF assms(1)]) (use assms in auto)

section \<open>Calls\<close>

lemma W_call_args:
  assumes "parser_ok e u k ex" and "k \<le> n"
  shows "W e (u + length ts, k, Fs) (call_args n ex params ts) (\<lambda>ts'. (u + length ts', k, Fs))"
  using assms
proof (induction n arbitrary: k ts)
  case (Suc n)
  have IH: "W e (u + length ts + 1, k - 1, Fs) (call_args n ex params (ts @ [t])) (\<lambda>ts'. (u + length ts', k - 1, Fs))" for t ts
    using Suc Suc.IH [of "k - 1" "ts @ [t]"] parser_mono [OF Suc(2)] by (auto simp: add.assoc)
  show ?case
    by (rule W_unfold, rule call_args.simps(2), unfold thenc_def)
      (intro W_test comp_rules parser_rules [OF Suc(2)], auto intro!: W_last [OF W_pre [OF IH]])
qed simp

lemma W_move_args: "W e (u + length ps, k, Fs) (move_args ps) (\<lambda>_. (u, k, Fs))"
proof (induction ps)
  case (Cons p ps)
  obtain a b where p: "p = (a, b)" by (cases p)
  show ?case
    unfolding p move_args.simps thenc_def by (intro comp_rules Cons.IH [THEN W_pre, THEN W_last]) auto
qed (auto intro: W_give)

lemma W_call_user:
  assumes ex: "parser_ok e u k ex" and n: "k \<le> n" and t: "target (entry_pc f) \<in> set Fs"
  shows "W e (u, k, Fs) (call_user n ex f dst) (\<lambda>_. (u, k, Fs))"
proof -
  have args: "W e (u, k, Fs) (call_args n ex p []) (\<lambda>ts. (u + length ts, k, Fs))" for p
    using W_call_args [OF ex n, of "[]"] by simp
  have moved: "W e (u + length ts, k, Fs) (move_args (zip param_regs ts)) (\<lambda>_. (u, k, Fs))" for ts
    by (rule W_pre [OF W_move_args]) simp
  show ?thesis
    unfolding call_user_def thenc_def
    by (intro comp_rules args [THEN W_seq] moved [THEN W_seq]) (use t in auto)
qed

lemma W_call_streq:
  assumes "parser_ok e u k ex"
  shows "W e (u, k, Fs) (call_streq ex dst) (\<lambda>_. (u, k, Fs))"
  unfolding call_streq_def thenc_def by (intro comp_rules parser_rules [OF assms]) auto

lemma W_piped_sum: "W e (u, k, Fs) piped_sum (\<lambda>_. (u, k, Fs))"
  unfolding piped_sum_def thenc_def by (intro comp_rules) auto

lemma W_call_zip:
  assumes "parser_ok e u k ex"
  shows "W e (u, k, Fs) (call_zip_with ex dst) (\<lambda>_. (u, k, Fs))"
  unfolding call_zip_with_def thenc_def
  by (intro comp_rules W_view [THEN W_seq] parser_mono [OF assms] W_piped_sum [THEN W_seq] W_zip_with [THEN W_seq]) auto

lemma W_call_sum:
  assumes "parser_ok e u k ex"
  shows "W e (u, k, Fs) (call_sum ex dst) (\<lambda>_. (u, k, Fs))"
  unfolding call_sum_def thenc_def
  by (intro comp_rules W_view [THEN W_seq] parser_mono [OF assms] W_sum [THEN W_seq]) auto

lemma W_call_reduce:
  assumes "parser_ok e u k ex"
  shows "W e (u, k, Fs) (call_reduce ex dst) (\<lambda>_. (u, k, Fs))"
  unfolding call_reduce_def thenc_def
  by (intro comp_rules W_view [THEN W_seq] parser_mono [OF assms] parser_rules [OF assms] W_reduce [THEN W_seq]) auto

text \<open>An argument list: how many of its registers are temporaries.\<close>

definition temps :: "u8 list \<Rightarrow> nat" where
  "temps rs = length (filter (\<lambda>r. 8 \<le> r \<and> r \<le> 15) rs)"

lemma temps_simps [simp]:
  "temps [] = 0" "temps (r # rs) = (if 8 \<le> r \<and> r \<le> 15 then temps rs + 1 else temps rs)" "temps (rev rs) = temps rs"
  by (simp_all add: temps_def rev_filter [symmetric])

lemma W_free_other: "\<not> (8 \<le> r \<and> r \<le> 15) \<Longrightarrow> W e A (free_temp r) (\<lambda>_. A)"
  by (auto simp: W_def free_temp_def change_def)

lemma W_free_all: "W e (u + temps rs, k, Fs) (free_all rs) (\<lambda>_. (u, k, Fs))"
proof (induction rs)
  case (Cons r rs)
  show ?case
  proof (cases "8 \<le> r \<and> r \<le> 15")
    case True
    then show ?thesis
      unfolding free_all.simps thenc_def
      by (simp add: add.assoc [symmetric]) (intro W_free_top [unfolded Suc_eq_plus1 [symmetric], THEN W_seq] Cons.IH)
  next
    case False
    then have t: "temps (r # rs) = temps rs" by simp
    show ?thesis
      unfolding t free_all.simps thenc_def by (intro W_free_other [OF False, THEN W_seq] Cons.IH)
  qed
qed (auto intro: W_give)

lemma W_one_arg:
  assumes "parser_ok e u k ex"
  shows "W e (u, k, Fs) (one_arg ex f) (\<lambda>r. (u + temps [r], k, always (r \<le> 15) # Fs))"
  unfolding one_arg_def thenc_def
  by (intro W_give_always comp_rules parser_rules [OF assms]) auto

lemma W_more_args:
  assumes "parser_ok e u k ex"
  shows "W e (u, k, Fs) (more_args m ex) (\<lambda>rs. (u + temps rs, k, always (\<forall>r \<in> set rs. r \<le> 15) # Fs))"
  using assms
proof (induction m arbitrary: u k)
  case 0
  show ?case unfolding more_args.simps by (intro W_give_always) auto
next
  case (Suc m)
  have IH: "W e (u + 1, k - 1 - 1, Fs) (more_args m ex) (\<lambda>rs. (u + 1 + temps rs, k - 1 - 1, always (\<forall>r \<in> set rs. r \<le> 15) # Fs))"
    by (rule Suc.IH) (rule parser_mono [OF Suc(2)], auto)
  show ?case
    unfolding more_args.simps thenc_def
    by (intro W_give_always comp_rules parser_rules [OF Suc(2)] IH [THEN W_seq]) auto
qed

lemma W_intrinsic_args:
  assumes "parser_ok e u k ex"
  shows "W e (u, k, Fs) (intrinsic_args ex f a) (\<lambda>rs. (u + temps rs, k, always (\<forall>r \<in> set rs. r \<le> 15) # Fs))"
proof -
  have more: "W e (u + 1, k - 1, Fs) (more_args m ex) (\<lambda>rs. (u + 1 + temps rs, k - 1, always (\<forall>r \<in> set rs. r \<le> 15) # Fs))" for m
    by (rule W_more_args) (rule parser_mono [OF assms], auto)
  show ?thesis
    unfolding intrinsic_args_def thenc_def
    by (intro W_give_always comp_rules parser_rules [OF assms] W_one_arg [OF assms, THEN W_seq] more [THEN W_seq]) auto
qed

lemma W_call_intrinsic:
  assumes "parser_ok e u k ex"
  shows "W e (u, k, Fs) (call_intrinsic ex name dst) (\<lambda>_. (u, k, Fs))"
proof -
  have free: "W e (u + temps rs, k', Fs) (free_all (rev rs)) (\<lambda>_. (u, k', Fs))" for rs k'
    using W_free_all [of e u "rev rs"] by simp
  have ok: "call_ok g (case rs of [] \<Rightarrow> 0 | r # _ \<Rightarrow> r)" if "\<forall>r \<in> set rs. r \<le> 15" for g and rs :: "u8 list"
    using that by (auto simp: call_ok_def word_le_nat_alt split: list.split)
  show ?thesis
    unfolding call_intrinsic_def thenc_def
    by (intro comp_rules W_intrinsic_args [OF assms, THEN W_seq] free [THEN W_seq] ok) auto
qed

lemma W_primary_call:
  assumes ex: "parser_ok e u k ex" and n: "k \<le> n"
  shows "W e (u, k, Fs) (primary_call n ex name dst) (\<lambda>_. (u, k, Fs))"
  unfolding primary_call_def option.case
  by (rule W_seq_find_fn; simp only: option.case)
    (intro W_if W_call_streq W_call_zip W_call_sum W_call_reduce W_call_intrinsic ex W_call_user [OF ex n, THEN W_last]; auto)+

lemma W_primary_ident:
  assumes ex: "parser_ok e u k ex" and n: "k \<le> n" and tok: "in_env e tok"
  shows "W e (u, k, Fs) (primary_ident n ex tok dst) (\<lambda>_. (u, k, Fs))"
  unfolding primary_ident_def thenc_def
  by (intro comp_rules parser_rules [OF ex] W_primary_call [THEN W_last] parser_mono [OF ex]) (use n tok in \<open>auto intro: kept_fields\<close>)

section \<open>Primary expressions\<close>

lemma W_negate: "(checked \<Longrightarrow> may_panic e) \<Longrightarrow> W e A (negate checked v) (\<lambda>_. A)"
  unfolding negate_def by (intro W_if W_crash W_give) auto

lemma W_primary_minus:
  assumes "parser_ok e u k prim" and "checked \<Longrightarrow> may_panic e"
  shows "W e (u, k, Fs) (primary_minus checked prim dst) (\<lambda>_. (u, k, Fs))"
  unfolding primary_minus_def thenc_def
  by (intro comp_rules parser_rules [OF assms(1)] W_negate [THEN W_seq]) (use assms in auto)

lemma W_primary_not:
  assumes "parser_ok e u k prim"
  shows "W e (u, k, Fs) (primary_not prim dst) (\<lambda>_. (u, k, Fs))"
  unfolding primary_not_def thenc_def by (intro comp_rules parser_rules [OF assms]) auto

lemma W_primary_group:
  assumes "parser_ok e u k tern"
  shows "W e (u, k, Fs) (primary_group tern dst) (\<lambda>_. (u, k, Fs))"
  unfolding primary_group_def thenc_def by (intro comp_rules parser_rules [OF assms]) auto

lemma W_seq_advance:
  assumes "\<And>tok. in_env e tok \<Longrightarrow> kind tok \<noteq> TkEof \<Longrightarrow> W e (u, k - 1, Fs) (f tok) S"
    and "\<And>tok. kind tok = TkEof \<Longrightarrow> W e (u, k, Fs) (f tok) S"
  shows "W e (u, k, Fs) (seqc advance f) S"
proof (rule W_seq [OF W_advance], rule W_always)
  show "W e (u, if kind tok = TkEof then k else k - 1, Fs) (f tok) S" if "in_env e tok" for tok
    using assms that by (cases "kind tok = TkEof") auto
qed

lemma parser_primary:
  assumes prim: "parser_ok e u (k - 1) prim" and tern: "parser_ok e u (k - 1) tern" and ex: "parser_ok e u (k - 1) ex"
    and n: "k \<le> n" and p: "checked \<Longrightarrow> may_panic e"
  shows "W e (u, k, Fs) (primary_body checked n prim tern ex dst) (\<lambda>_. (u, k - 1, Fs))"
proof -
  have n: "k - 1 \<le> n" using n by simp
  show ?thesis
    unfolding primary_body_def
    apply (rule W_seq_advance)
    subgoal premises tok for tok
    proof -
      note parts = W_primary_float W_primary_string [OF tok(1)] W_primary_var [OF ex tok(1)]
        W_primary_ident [OF ex n tok(1)] W_primary_minus [OF prim p] W_primary_not [OF prim] W_primary_group [OF tern]
      show ?thesis
        by (cases "kind tok") (auto intro: parts [unfolded One_nat_def] W_give W_fail split: symbol.split)
    qed
    by (simp add: W_fail)
qed

end
