(* ===== verification/CompDeclInv.thy ===== *)
theory CompDeclInv
  imports CompInv
begin

text \<open>Declarations keep the invariant: arrays, pool sizes, structs, enums and constant tables.\<close>

section \<open>Arrays\<close>

lemma array_added:
  assumes ok: "comp_ok e c" and "length (c_arrays c) < 8" and len: "total_array_elements c + len \<le> 1024"
    and a: "arr_id a = of_nat (length (c_arrays c))" "arr_len a = of_nat len"
  shows "kept e c (c\<lparr>c_arrays := c_arrays c @ [a], total_array_elements := total_array_elements c + len\<rparr>)"
proof -
  have "code_ok (c_code c) (length (c_const_pool c)) (c_arrays c @ [a]) (struct_insts c)"
    using ok code_ok_more [of "c_code c" "length (c_const_pool c)" "c_arrays c" "struct_insts c" _ "[a]" "[]"]
    by (simp add: comp_ok_def)
  moreover have "unat (of_nat len :: u16) = len" "unat (arr_id a) < 8"
    using assms by (simp_all add: unat_of_nat)
  then have "arrays_ok (c_arrays c @ [a]) (total_array_elements c + len)"
    using assms by (simp add: comp_ok_def arrays_ok_def)
  ultimately show ?thesis using ok by (simp add: kept_def comp_ok_def vars_ok_def grows_def)
qed

lemma W_declare_array: "W e (u, k, Fs) (declare_array tok len) (\<lambda>a. (u, k, array_is a (of_nat len) # Fs))"
proof (rule W_I)
  fix c assume c: "holds_in e (u, k, Fs) c"
  let ?n = "length (c_arrays c)" and ?t = "total_array_elements c"
  let ?a = "\<lparr>arr_name = take 16 (name_or_empty tok c), arr_id = of_nat ?n, arr_base = of_nat ?t, arr_len = of_nat len\<rparr>"
  let ?c = "c\<lparr>c_arrays := c_arrays c @ [?a], total_array_elements := ?t + len\<rparr>"
  have ok: "comp_ok e c" using c by simp
  have "?n < 8 \<or> may_panic e" if "\<not> max_arrays c \<le> ?n" using that ok by (auto simp: comp_ok_def)
  moreover have "holds_in e (u, k, array_is (of_nat ?n) (of_nat len) # Fs) ?c" if "?n < 8" "?t + len \<le> 1024"
  proof (rule holds_add)
    show "array_is (of_nat ?n) (of_nat len) ?c" using that(1) by (simp add: array_is_def unat_of_nat)
    show "holds_in e (u, k, Fs) ?c" by (rule kept_holds [OF c array_added [OF ok that]]) simp_all
  qed simp
  ultimately show "result_ok e (\<lambda>a. (u, k, array_is a (of_nat len) # Fs)) (declare_array tok len c)"
    by (auto simp: declare_array_def Let_def fail_c_def crash_def give_def)
qed

lemma kept_pool_limit: "may_panic e \<Longrightarrow> comp_ok e c \<Longrightarrow> kept e c (pool_limit name v c)"
  by (simp add: pool_limit_def kept_def comp_ok_def vars_ok_def grows_def)

lemma W_pool_entry:
  assumes "may_panic e" and "in_env e tok"
  shows "W e (u, k, Fs) (pool_entry tok) (\<lambda>_. (u, k, Fs))"
proof (cases "kind tok")
  case TkIdent
  show ?thesis
    unfolding pool_entry_def TkIdent TokenKind.case thenc_def
    apply (intro W_name_of [THEN W_seq] W_skip [THEN W_seq] W_advance_weak [THEN W_seq] W_always)
    using assms by (auto simp: kept_pool_limit kept_refl intro!: W_change_any W_give split: TokenKind.split)
qed (auto simp: pool_entry_def kept_fields kept_refl intro!: W_change_any W_give)

lemma W_pool_entries:
  assumes "may_panic e" and "k \<le> n"
  shows "W e (u, k, Fs) (pool_entries n) (\<lambda>_. (u, k, Fs))"
  using assms(2)
proof (induction n arbitrary: k)
  case (Suc n)
  have IH: "W e (u, k - 1, Fs) (pool_entries n) (\<lambda>_. (u, k - 1, Fs))" using Suc by (intro Suc.IH) auto
  show ?case
    by (rule W_unfold, rule pool_entries.simps(2), unfold thenc_def)
      (intro W_test comp_rules W_pool_entry [OF assms(1), THEN W_seq] IH [THEN W_last]; auto)
qed simp

lemma W_pool_size: "may_panic e \<Longrightarrow> k \<le> n \<Longrightarrow> W e (u, k, Fs) (declare_pool_size n) (\<lambda>_. (u, k, Fs))"
  unfolding declare_pool_size_def thenc_def by (intro comp_rules W_pool_entries [THEN W_seq]) auto

section \<open>Structs and enums\<close>

lemma W_struct_fields:
  assumes "k \<le> n" and "length fs \<le> 8"
  shows "W e (u, k, Fs) (struct_fields n fs) (\<lambda>fs. (u, k, always (length fs \<le> 8) # Fs))"
  using assms
proof (induction n arbitrary: k fs)
  case (Suc n)
  have IH: "W e (u, k - 1 - 1, Fs) (struct_fields n (fs @ [f])) (\<lambda>fs. (u, k - 1 - 1, always (length fs \<le> 8) # Fs))"
    if "length fs < 8" for f using Suc that by (intro Suc.IH) auto
  show ?case
    by (rule W_unfold, rule struct_fields.simps(2), unfold thenc_def Let_def)
      (intro W_test W_give_always comp_rules IH [THEN W_last]; use Suc in auto)
qed simp

lemma kept_struct_def:
  assumes "comp_ok e c" and "length fs \<le> 8"
  shows "kept e c (c\<lparr>struct_defs := struct_defs c @ [\<lparr>def_name = s, def_fields = fs\<rparr>]\<rparr>)"
  using assms by (auto simp: kept_def comp_ok_def vars_ok_def grows_def structs_ok_def)

lemma W_struct_def: "k \<le> n \<Longrightarrow> W e (u, k, Fs) (declare_struct_def n) (\<lambda>_. (u, k, Fs))"
  unfolding declare_struct_def_def thenc_def
  by (intro comp_rules W_struct_fields [THEN W_seq]) (auto simp: kept_struct_def)

lemma inst_added:
  assumes ok: "comp_ok e c" and "length (struct_insts c) < 8" and d: "d < length (struct_defs c)"
    and "total_struct_fields c + length (def_fields (struct_defs c ! d)) \<le> 256"
  shows "kept e c (c\<lparr>total_struct_fields := total_struct_fields c + length (def_fields (struct_defs c ! d)),
     struct_insts := struct_insts c @ [\<lparr>inst_var_name = s, struct_def_idx = d, inst_id = i, inst_base_slot = b,
       inst_field_count = of_nat (length (def_fields (struct_defs c ! d)))\<rparr>]\<rparr>)" (is "kept e c (?g c)")
proof -
  let ?n = "length (def_fields (struct_defs c ! d))"
  have "?n \<le> 8" using ok d by (auto simp: comp_ok_def structs_ok_def)
  then have n: "unat (of_nat ?n :: u8) = ?n" by (simp add: unat_of_nat)
  have "code_ok (c_code c) (length (c_const_pool c)) (c_arrays c) (struct_insts c @ [x])" for x
    using ok code_ok_more [of "c_code c" "length (c_const_pool c)" "c_arrays c" "struct_insts c" _ "[]" "[x]"]
    by (simp add: comp_ok_def)
  moreover have "structs_ok (struct_defs (?g c)) (struct_insts (?g c)) (total_struct_fields (?g c))"
    using assms n by (simp add: comp_ok_def structs_ok_def)
  ultimately show ?thesis using ok by (simp add: kept_def comp_ok_def vars_ok_def grows_def)
qed

lemma W_struct_inst:
  assumes "in_env e tok" and "in_env e ty"
  shows "W e (u, k, Fs) (declare_struct_inst tok ty) (\<lambda>_. (u, k, Fs))"
  unfolding declare_struct_inst_def
proof (rule W_seq [OF W_name_of [OF assms(1)]], rule W_seq [OF W_name_of [OF assms(2)]], rule W_I)
  fix var ty c assume c: "holds_in e (u, k, Fs) c"
  let ?k = "length (struct_insts c)"
  let ?f = "\<lambda>d. \<lparr>inst_var_name = take 16 var, struct_def_idx = d, inst_id = of_nat ?k,
     inst_base_slot = of_nat (total_struct_fields c), inst_field_count = of_nat (length (def_fields (struct_defs c ! d)))\<rparr>"
  let ?c = "\<lambda>d. c\<lparr>total_struct_fields := total_struct_fields c + length (def_fields (struct_defs c ! d)),
     struct_insts := struct_insts c @ [?f d]\<rparr>"
  have emitted: "result_ok e (\<lambda>_. (u, k, Fs)) (seqc (emit_inst PX64_OP_STRUCT_DEF (of_nat ?k)
      (of_nat (length (def_fields (struct_defs c ! d)))) 0) (\<lambda>_. give x) (?c d))"
    if d: "d < length (struct_defs c)" "?k < 8" "total_struct_fields c + length (def_fields (struct_defs c ! d)) \<le> 256" for d and x :: u8
  proof (rule result_ok_seq)
    have "holds_in e (u, k, Fs) (?c d)" using c d by (intro kept_holds [OF c] inst_added) simp_all
    then show "result_ok e (\<lambda>p. (u, k, [] @ Fs)) (emit_inst PX64_OP_STRUCT_DEF (of_nat ?k)
      (of_nat (length (def_fields (struct_defs c ! d)))) 0 (?c d))"
      by (rule emit_inst_ok) (use d(2) in \<open>simp_all add: instr_ok_def jumps_def unat_of_nat\<close>)
  qed (auto intro: W_give)
  then show "result_ok e (\<lambda>_. (u, k, Fs))
      (case position (\<lambda>d. def_name d = ty) (struct_defs c) of
         None \<Rightarrow> fail_c ''ERR_UNKNOWN_STRUCT_TYPE'' c
       | Some d \<Rightarrow>
           let k = length (struct_insts c);
               count = length (def_fields (struct_defs c ! d));
               total = total_struct_fields c
           in if 8 \<le> k then fail_c ''ERR_MAX_STRUCT_INSTS_EXCEEDED'' c
              else if 256 < total + count then fail_c ''ERR_STRUCT_CAPACITY_EXCEEDED'' c
              else thenc (emit_inst PX64_OP_STRUCT_DEF (of_nat k) (of_nat count) 0) (give (of_nat k :: u8))
                (c\<lparr>total_struct_fields := total + count,
                   struct_insts := struct_insts c @
                     [\<lparr>inst_var_name = take 16 var, struct_def_idx = d, inst_id = of_nat k,
                       inst_base_slot = of_nat total, inst_field_count = of_nat count\<rparr>]\<rparr>))"
    by (auto simp: Let_def thenc_def fail_c_def dest: position_less split: option.split)
qed

lemma W_enum_variants:
  assumes "k \<le> n"
  shows "W e (u, k, Fs) (enum_variants n vs) (\<lambda>_. (u, k, Fs))"
  using assms
proof (induction n arbitrary: k vs)
  case (Suc n)
  have IH: "W e (u, k - 1, Fs) (enum_variants n vs) (\<lambda>_. (u, k - 1, Fs))" for vs using Suc by (intro Suc.IH) auto
  have IH': "W e (u, k - 1 - 1, Fs) (enum_variants n vs) (\<lambda>_. (u, k - 1 - 1, Fs))" for vs using Suc by (intro Suc.IH) auto
  show ?case
    by (rule W_unfold, rule enum_variants.simps(2), unfold thenc_def)
      (intro W_test W_seq_advance comp_rules IH [THEN W_last] IH' [THEN W_last]; auto)
qed simp

lemma W_enum_def: "k \<le> n \<Longrightarrow> W e (u, k, Fs) (declare_enum_def n) (\<lambda>_. (u, k, Fs))"
  unfolding declare_enum_def_def thenc_def
  by (intro comp_rules W_enum_variants [THEN W_seq]) (auto intro: kept_fields)

section \<open>Constant tables\<close>

lemma W_table_element:
  "(checked \<Longrightarrow> may_panic e) \<Longrightarrow> W e (u, k, Fs) (table_element checked) (\<lambda>_. (u, k, Fs))"
  unfolding table_element_def
  by (intro W_seq_match W_advance_weak [THEN W_seq] W_always)
    (auto intro!: W_if W_negate [THEN W_last] W_give W_fail split: TokenKind.split)

lemma W_table_elements:
  assumes "checked \<Longrightarrow> may_panic e" and "k \<le> n"
  shows "W e (u, k, Fs) (table_elements checked n len) (\<lambda>_. (u, k, Fs))"
  using assms(2)
proof (induction n arbitrary: k len)
  case (Suc n)
  have IH: "W e (u, k - 1, Fs) (table_elements checked n len) (\<lambda>_. (u, k - 1, Fs))" for len using Suc by (intro Suc.IH) auto
  note elem = W_table_element [of checked e, OF assms(1)]
  show ?case
    by (rule W_unfold, rule table_elements.simps(2), unfold thenc_def)
      (intro W_test comp_rules elem [THEN W_seq] IH [THEN W_pre, THEN W_last]; auto)
qed simp

lemma W_table_length: "W e (u, k, Fs) table_length (\<lambda>_. (u, k, Fs))"
  unfolding table_length_def
  by (intro W_advance_weak [THEN W_seq] W_always) (auto intro!: W_if W_give W_fail split: TokenKind.split)

lemma W_const_decl:
  assumes "checked \<Longrightarrow> may_panic e" and "k \<le> n"
  shows "W e (u, k, Fs) (declare_const_table checked n) (\<lambda>_. (u, k, Fs))"
  unfolding declare_const_table_def thenc_def
  by (intro comp_rules W_table_length [THEN W_seq] W_table_elements [THEN W_seq]) (use assms in \<open>auto intro: kept_fields\<close>)

end
