(* ===== verification/CompStmtInv.thy ===== *)
theory CompStmtInv
  imports CompDeclInv
begin

text \<open>
  Statements keep the invariant, return, and consume a token: one lemma per arm of
  \<^verbatim>\<open>statement\<close>, from a state that is not at the end of the tokens.
\<close>

section \<open>Skipping tokens\<close>

lemma W_current: "tokens e - n < k' \<Longrightarrow> W e (u, k, Fs) (change (\<lambda>c. c\<lparr>current := n\<rparr>)) (\<lambda>_. (u, k', Fs))"
  unfolding tokens_def by (rule W_change) (rule holds_current)

lemma W_skip_to:
  assumes "\<And>c. current c \<le> f c"
  shows "W e (u, k, Fs) (change (\<lambda>c. c\<lparr>current := f c\<rparr>)) (\<lambda>_. (u, k, Fs))"
proof (rule W_change)
  fix c assume c: "holds_in e (u, k, Fs) c"
  have "length (env_toks e) - f c < k" using c assms [of c] by (auto simp: rem_def comp_ok_def)
  then show "holds_in e (u, k, Fs) (c\<lparr>current := f c\<rparr>)" by (rule holds_current [OF c])
qed

lemma W_skip_until: "W e (u, k, Fs) (skip_until s) (\<lambda>_. (u, k, Fs))"
  unfolding skip_until_def by (rule W_skip_to) simp

lemma W_balanced: "W e (u, k, Fs) (skip_balanced a b) (\<lambda>_. (u, k, Fs))"
proof (rule W_I)
  fix c assume c: "holds_in e (u, k, Fs) c"
  have "length (env_toks e) - (current c + n) < k" for n using c by (auto simp: rem_def comp_ok_def)
  then have "holds_in e (u, k, Fs) (c\<lparr>current := current c + n\<rparr>)" for n by (rule holds_current [OF c])
  then show "result_ok e (\<lambda>_. (u, k, Fs)) (skip_balanced a b c)"
    by (auto simp: skip_balanced_def give_def Let_def split: prod.split)
qed

lemma W_skip_budget: "W e (u, k, Fs) skip_budget (\<lambda>_. (u, k, Fs))"
  unfolding skip_budget_def thenc_def by (intro comp_rules) auto

section \<open>Imports and directives\<close>

lemma W_import_name: "in_env e tok \<Longrightarrow> W e (u, k, Fs) (import_name tok) (\<lambda>_. (u, k, Fs))"
  unfolding import_name_def by (intro comp_rules) auto

lemma W_import: "W_more e (u, k, Fs) import_stmt (\<lambda>_. (u, k - 1, Fs))"
  unfolding import_stmt_def thenc_def
  by (intro W_more_advance comp_rules W_import_name [THEN W_seq]) (auto intro: kept_fields kept_refl)

lemma W_test_stmt: "W_more e (u, k, Fs) test_stmt (\<lambda>_. (u, k - 1, Fs))"
  unfolding test_stmt_def thenc_def
  by (intro W_more_advance comp_rules W_skip_budget [THEN W_seq] W_balanced [THEN W_seq] W_skip_until [THEN W_seq]) auto

lemma W_contract_value:
  assumes "\<And>ns c. comp_ok e c \<Longrightarrow> kept e c (f ns c)"
  shows "W_more e (u, k, Fs) (contract_value f) (\<lambda>_. (u, k - 1, Fs))"
  unfolding contract_value_def thenc_def by (intro W_more_advance comp_rules) (auto intro: assms)

lemma W_more_seq: "W_more e A m Q \<Longrightarrow> (\<And>x. W e (Q x) (f x) S) \<Longrightarrow> W_more e A (seqc m f) S"
  unfolding W_more_def by (blast intro: result_ok_seq)

lemma W_more_unfold: "(\<And>c. m c = m' c) \<Longrightarrow> W_more e A m' S \<Longrightarrow> W_more e A m S"
  by (simp add: W_more_def)

lemma W_more_last: "W_more e A m Q \<Longrightarrow> (\<And>x. weaker (Q x) (S x)) \<Longrightarrow> W_more e A m S"
  unfolding W_more_def using result_ok_mono weaker_holds by meson

lemma W_more_test: "W_more e A m S \<Longrightarrow> W_more e A m' S \<Longrightarrow> W_more e A (\<lambda>c. if P c then m c else m' c) S"
  by (simp add: W_more_def)

lemma W_contract_items:
  assumes "k \<le> n"
  shows "W e (u, k, Fs) (contract_items n) (\<lambda>_. (u, k, Fs))"
  using assms
proof (induction n arbitrary: k)
  case (Suc n)
  have IH: "W e (u, k - 1, Fs) (contract_items n) (\<lambda>_. (u, k, Fs))"
    using Suc by (intro W_last [OF Suc.IH]) auto
  have eq: "contract_items (Suc n) c = (if closes SymSemi c then give () c
      else if peek_kind c = dir AtWcet then seqc (contract_value (\<lambda>ns c. c\<lparr>declared_script_wcet_ns := Some ns\<rparr>)) (\<lambda>_. contract_items n) c
      else if is_budget (peek_kind c) then seqc (contract_value (\<lambda>ns c. c\<lparr>declared_script_budget_ns := Some ns\<rparr>)) (\<lambda>_. contract_items n) c
      else seqc advance (\<lambda>_. contract_items n) c)" for c
    by (simp add: thenc_def seqc_assoc seqc_def give_def split: option.split outcome.split)
  show ?case
    by (rule W_unfold, rule eq)
      (intro W_test_more W_more_test W_more_seq [OF W_contract_value] W_more_advance IH; auto intro: W_give kept_fields)
qed simp

lemma W_contract: "k \<le> n \<Longrightarrow> W_more e (u, k, Fs) (contract_stmt n) (\<lambda>_. (u, k - 1, Fs))"
  unfolding contract_stmt_def thenc_def by (intro W_more_advance comp_rules W_contract_items [THEN W_seq]) auto

lemma W_pool_stmt: "may_panic e \<Longrightarrow> k \<le> n \<Longrightarrow> W_more e (u, k, Fs) (thenc advance (declare_pool_size n)) (\<lambda>_. (u, k - 1, Fs))"
  unfolding thenc_def by (intro W_more_advance W_pool_size) auto

text \<open>Blocks.\<close>

lemma W_pipeline:
  assumes "parser_ok e u (k - 1) (\<lambda>_ :: unit. stmt)" and "k \<le> n"
  shows "W_more e (u, k, Fs) (pipeline_stmt n stmt) (\<lambda>_. (u, k - 1, Fs))"
  unfolding pipeline_stmt_def thenc_def
  by (intro W_more_advance comp_rules W_skip_budget [THEN W_seq] W_branch [THEN W_last] parser_mono [OF assms(1)])
    (use assms in \<open>auto intro: W_give\<close>)

lemma W_on:
  assumes "parser_ok e u (k - 1) (\<lambda>_ :: unit. stmt)" and "k \<le> n"
  shows "W_more e (u, k, Fs) (on_stmt n stmt) (\<lambda>_. (u, k - 1, Fs))"
  unfolding on_stmt_def thenc_def
  by (intro W_more_advance comp_rules W_braced [THEN W_seq] parser_mono [OF assms(1)]) (use assms in auto)

lemma kept_dropped: "comp_ok e c \<Longrightarrow> kept e c (c\<lparr>handle_states := map f (handle_states c)\<rparr>)"
  by (rule kept_handles) (auto simp: comp_ok_def)

lemma W_within:
  assumes "parser_ok e u (k - 1) (\<lambda>_ :: unit. stmt)" and "k \<le> n"
  shows "W_more e (u, k, Fs) (within_stmt n stmt) (\<lambda>_. (u, k - 1, Fs))"
  unfolding within_stmt_def thenc_def
  by (intro W_more_advance comp_rules W_braced [THEN W_seq] parser_mono [OF assms(1)]) (use assms in \<open>auto intro: kept_dropped\<close>)

section \<open>Checks of conditions\<close>

lemma W_anywhere: "W e (u, tokens e + 1, Fs) m S \<Longrightarrow> W e (u, k, Fs) m S"
  unfolding W_def by (auto simp: rem_def comp_ok_def tokens_def)

lemma W_check_at:
  assumes "parser_ok e u k ex"
  shows "W e (u, tokens e + 1, Fs) (emit_check_at ex t) (\<lambda>_. (u, tokens e + 1, Fs))"
proof -
  have ex: "W e (u + 1, tokens e + 1, Fs) (ex r) (\<lambda>_. (u + 1, tokens e + 1 - 1, Fs))" for r
    by (rule assms [unfolded parser_ok_def, rule_format]) simp
  show ?thesis
    unfolding emit_check_at_def thenc_def
    by (intro W_current [where k' = "tokens e + 1", THEN W_seq] comp_rules ex [THEN W_seq]) auto
qed

lemma W_checks:
  assumes "parser_ok e u k ex"
  shows "W e (u, tokens e + 1, Fs) (emit_checks ex ts) (\<lambda>_. (u, tokens e + 1, Fs))"
proof (induction ts)
  case (Cons t ts)
  show ?case unfolding emit_checks.simps thenc_def by (intro W_check_at [OF assms, THEN W_seq] Cons.IH)
qed (auto intro: W_give)

lemma W_seq_look_current:
  assumes "\<And>n. tokens e - n < k \<Longrightarrow> W e (u, k, Fs) (f n) S"
  shows "W e (u, k, Fs) (seqc (look current) f) S"
proof (rule W_I)
  fix c assume c: "holds_in e (u, k, Fs) c"
  then have "tokens e - current c < k" by (auto simp: rem_def comp_ok_def tokens_def)
  from W_D [OF assms [OF this] c] show "result_ok e S (seqc (look current) f c)" by (simp add: seqc_steps)
qed

lemma W_checks_here:
  assumes "parser_ok e u k ex"
  shows "W e (u, k', Fs) (emit_checks_here ex ts) (\<lambda>_. (u, k', Fs))"
  unfolding emit_checks_here_def thenc_def
  by (rule W_seq_look_current, rule W_anywhere) (intro W_checks [OF assms, THEN W_seq] W_current [THEN W_last], auto)

lemma W_ensures:
  assumes "parser_ok e u k ex"
  shows "W e (u, k', Fs) (emit_ensures_checks ex f) (\<lambda>_. (u, k', Fs))"
  unfolding emit_ensures_checks_def by (intro W_seq_look W_checks_here [OF assms])

lemma W_invariant_check:
  assumes "parser_ok e u k ex"
  shows "W e (u, k', Fs) (emit_invariant_check ex t) (\<lambda>_. (u, k', Fs))"
  unfolding emit_invariant_check_def by (rule W_checks_here [OF assms])

lemma W_invariant_clause: "W e (u, k, Fs) invariant_clause (\<lambda>_. (u, k, Fs))"
  unfolding invariant_clause_def thenc_def by (intro comp_rules W_balanced [THEN W_seq]) auto

lemma W_confinement: "W e A (check_confinement pre) (\<lambda>_. A)"
  by (rule W_keep_I) (simp add: check_confinement_def ensure_c_def give_def fail_c_def)

section \<open>Loops and branches\<close>

lemma W_while:
  assumes ex: "parser_ok e u k ex" and stmt: "parser_ok e u (k - 1) (\<lambda>_ :: unit. stmt)" and n: "k \<le> n"
  shows "W_more e (u, k, Fs) (while_stmt n ex stmt) (\<lambda>_. (u, k - 1, Fs))"
  unfolding while_stmt_def thenc_def
  by (intro W_more_advance comp_rules parser_rules [OF ex] W_invariant_clause [THEN W_seq]
      W_invariant_check [OF ex, THEN W_seq] W_braced [THEN W_seq] parser_mono [OF stmt] W_confinement [THEN W_seq])
    (use n in auto)

lemma W_range: "W e (u, k, Fs) range_bound (\<lambda>_. (u, k, Fs))"
  unfolding range_bound_def thenc_def by (intro comp_rules) auto

lemma W_iterations: "(checked \<Longrightarrow> may_panic e) \<Longrightarrow> W e A (iterations checked a b) (\<lambda>_. A)"
  unfolding iterations_def by (intro W_if W_crash W_give) auto

lemma W_for:
  assumes ex: "parser_ok e u k ex" and stmt: "parser_ok e u (k - 1) (\<lambda>_ :: unit. stmt)" and n: "k \<le> n"
    and p: "checked \<Longrightarrow> may_panic e"
  shows "W_more e (u, k, Fs) (for_stmt checked n ex stmt) (\<lambda>_. (u, k - 1, Fs))"
  unfolding for_stmt_def thenc_def
  by (intro W_more_advance comp_rules parser_rules [OF ex] W_range [THEN W_seq] W_iterations [THEN W_seq] W_invariant_clause [THEN W_seq]
      W_invariant_check [OF parser_mono [OF ex], THEN W_seq] W_braced [THEN W_seq] parser_mono [OF stmt] W_confinement [THEN W_seq])
    (use n p in auto)

lemma W_assert:
  assumes "parser_ok e u k ex"
  shows "W_more e (u, k, Fs) (assert_stmt ex) (\<lambda>_. (u, k - 1, Fs))"
  unfolding assert_stmt_def thenc_def by (intro W_more_advance comp_rules parser_rules [OF assms]) auto

lemma W_look_handles: "W e (u, k, Fs) (look handle_states) (\<lambda>hs. (u, k, always (length hs = 4) # Fs))"
  by (rule W_look) (simp add: comp_ok_def)

lemma W_else:
  assumes stmt: "parser_ok e u k (\<lambda>_ :: unit. stmt)" and n: "k \<le> n" and "jump_at p \<in> set Fs" and "length pre = 4"
  shows "W e (u, k, Fs) (else_branch n stmt p pre) (\<lambda>_. (u, k, Fs))"
  unfolding else_branch_def thenc_def
  by (intro comp_rules stmt_rules [OF stmt] W_braced [THEN W_seq] parser_mono [OF stmt]) (use assms in \<open>auto intro: kept_handles\<close>)

lemma W_if_stmt:
  assumes ex: "parser_ok e u k ex" and stmt: "parser_ok e u (k - 1) (\<lambda>_ :: unit. stmt)" and n: "k \<le> n"
  shows "W_more e (u, k, Fs) (if_stmt n ex stmt) (\<lambda>_. (u, k - 1, Fs))"
  unfolding if_stmt_def thenc_def
  by (intro W_more_advance W_look_handles [THEN W_seq] comp_rules parser_rules [OF ex] W_braced [THEN W_seq]
      W_else [THEN W_seq] parser_mono [OF stmt]) (use n in \<open>auto intro: kept_handles\<close>)

section \<open>Let\<close>

lemma W_match_eq: "W e (u, k, Fs) match_eq (\<lambda>_. (u, k, Fs))"
  unfolding match_eq_def by (intro comp_rules) auto

lemma W_array_elems:
  assumes "parser_ok e u k ex" and "k \<le> n"
  shows "W e (u, k, Fs) (array_elems n ex arr limit i) (\<lambda>_. (u, k, Fs))"
  using assms
proof (induction n arbitrary: k i)
  case (Suc n)
  have IH: "W e (u, k - 1 - 1, Fs) (array_elems n ex arr limit i) (\<lambda>_. (u, k - 1 - 1, Fs))" for i
    using Suc parser_mono [OF Suc(2)] by (intro Suc.IH) auto
  show ?case
    by (rule W_unfold, rule array_elems.simps(2), unfold thenc_def)
      (intro W_test comp_rules W_move_imm [THEN W_seq] parser_rules [OF Suc(2)] IH [THEN W_last]; auto)
qed simp

lemma W_array_literal:
  assumes "parser_ok e u k ex" and "k \<le> n"
  shows "W e (u, k, Fs) (array_literal n ex arr limit) (\<lambda>_. (u, k, Fs))"
  unfolding array_literal_def thenc_def by (intro W_array_elems [OF assms, THEN W_seq] comp_rules) auto

lemma W_new_array: "W e (u, k, Fs) (new_array tok len) (\<lambda>_. (u, k, Fs))"
  unfolding new_array_def thenc_def by (intro W_declare_array [THEN W_seq] comp_rules) auto

lemma W_array_size: "W e (u, k, Fs) array_size (\<lambda>_. (u, k, Fs))"
  unfolding array_size_def
  by (intro W_advance_weak [THEN W_seq] W_always) (auto intro!: W_if W_give W_fail split: TokenKind.split)

lemma W_let_array:
  assumes "parser_ok e u k ex" and "k \<le> n"
  shows "W e (u, k, Fs) (let_array n ex tok) (\<lambda>_. (u, k, Fs))"
  unfolding let_array_def thenc_def
  by (intro comp_rules W_array_size [THEN W_seq] W_new_array [THEN W_seq] W_match_eq [THEN W_seq] W_array_literal [THEN W_seq]
      parser_mono [OF assms(1)]) (use assms in auto)

lemma W_let_literal:
  assumes "parser_ok e u k ex" and "k \<le> n"
  shows "W e (u, k, Fs) (let_literal n ex tok) (\<lambda>_. (u, k, Fs))"
  unfolding let_literal_def thenc_def
  by (intro comp_rules W_new_array [THEN W_seq] W_array_literal [THEN W_seq] parser_mono [OF assms(1)]) (use assms in auto)

lemma W_let_view:
  assumes "parser_ok e u k ex" and "in_env e tok"
  shows "W e (u, k, Fs) (let_view ex tok b) (\<lambda>_. (u, k, Fs))"
  unfolding let_view_def thenc_def
  by (intro comp_rules W_view_to_reg [THEN W_seq] parser_mono [OF assms(1)]) (use assms in auto)

lemma W_store_spilled:
  assumes "parser_ok e u k ex"
  shows "W e (u, k, Fs) (store_spilled ex slot) (\<lambda>_. (u, k, Fs))"
  unfolding store_spilled_def thenc_def by (intro comp_rules parser_rules [OF assms]) auto

lemma W_let_init:
  assumes "parser_ok e u k ex"
  shows "W e (u, k, Fs) (let_init ex tok r x s) (\<lambda>_. (u, k, Fs))"
  unfolding let_init_def thenc_def
  by (intro comp_rules parser_rules [OF assms] W_store_spilled [THEN W_seq] parser_mono [OF assms]) (auto intro: kept_fields)

lemma W_let_value:
  assumes "parser_ok e u k ex" and "k \<le> n" and "in_env e tok"
  shows "W e (u, k, Fs) (let_value n ex tok b x s) (\<lambda>_. (u, k, Fs))"
  unfolding let_value_def thenc_def
  by (intro comp_rules W_let_literal [THEN W_last] W_let_view [THEN W_last] W_match_eq [THEN W_seq] W_let_init [THEN W_seq]
      parser_mono [OF assms(1)]) (use assms in auto)

lemma W_fixed_type: "W e (u, k, Fs) fixed_type (\<lambda>_. (u, k, Fs))"
  unfolding fixed_type_def thenc_def by (intro comp_rules) auto

lemma W_let_typed:
  assumes "parser_ok e u k ex" and "k \<le> n" and "in_env e tok"
  shows "W e (u, k, Fs) (let_typed n ex tok b) (\<lambda>_. (u, k, Fs))"
  unfolding let_typed_def thenc_def
  by (intro comp_rules W_fixed_type [THEN W_seq] W_let_value [THEN W_last] W_struct_inst [THEN W_seq] parser_mono [OF assms(1)])
    (use assms in auto)

lemma W_let:
  assumes "parser_ok e u (k - 1) ex" and "k \<le> n"
  shows "W_more e (u, k, Fs) (let_stmt n ex) (\<lambda>_. (u, k - 1, Fs))"
  unfolding let_stmt_def thenc_def
  by (intro W_more_advance comp_rules W_let_array [THEN W_last] W_let_typed [THEN W_last] W_let_value [THEN W_last]
      parser_mono [OF assms(1)]) (use assms in auto)

section \<open>Assignments\<close>

lemma W_assign_field:
  assumes "parser_ok e u (k - 1) ex"
  shows "W_more e (u, k, Fs) (assign_field ex) (\<lambda>_. (u, k - 1, Fs))"
  unfolding assign_field_def thenc_def
  by (intro W_more_advance comp_rules W_match_eq [THEN W_seq] parser_rules [OF assms]) auto

lemma W_assign_element:
  assumes "parser_ok e u (k - 1) ex"
  shows "W_more e (u, k, Fs) (assign_element ex) (\<lambda>_. (u, k - 1, Fs))"
  unfolding assign_element_def thenc_def
  by (intro W_more_advance comp_rules W_match_eq [THEN W_seq] parser_rules [OF assms]) auto

lemma W_expression_statement:
  assumes "parser_ok e u k ex"
  shows "W e (u, k, Fs) (expression_statement ex) (\<lambda>_. (u, k - 1, Fs))"
  unfolding expression_statement_def thenc_def by (intro comp_rules parser_rules [OF assms]) auto

lemma W_update_spilled:
  assumes "parser_ok e u k ex" and "plain op" and "in_env e tok"
  shows "W e (u, k, Fs) (update_spilled ex tok slot op) (\<lambda>_. (u, k, Fs))"
  unfolding update_spilled_def thenc_def by (intro comp_rules parser_rules [OF assms(1)]) (use assms in auto)

lemma W_assign_spilled:
  assumes "parser_ok e u k ex" and "in_env e tok"
  shows "W e (u, k, Fs) (assign_spilled ex tok slot) (\<lambda>_. (u, k, Fs))"
  unfolding assign_spilled_def thenc_def
  by (intro comp_rules W_store_spilled [THEN W_seq] parser_mono [OF assms(1)]) (use assms in \<open>auto intro: kept_fields\<close>)

lemma W_update_reg:
  assumes "parser_ok e u k ex" and "plain op" and "plain op'" and "in_env e tok"
  shows "W e (u, k, Fs) (update_reg ex tok r op op') (\<lambda>_. (u, k, Fs))"
  unfolding update_reg_def thenc_def by (intro comp_rules parser_rules [OF assms(1)]) (use assms in auto)

lemma W_assign_reg:
  assumes "parser_ok e u k ex" and "in_env e tok"
  shows "W e (u, k, Fs) (assign_reg ex tok r) (\<lambda>_. (u, k, Fs))"
  unfolding assign_reg_def thenc_def by (intro comp_rules parser_rules [OF assms(1)]) (use assms in \<open>auto intro: kept_fields\<close>)

text \<open>An expression statement starts again at the variable.\<close>

lemma W_back: "W e (u, k, Fs) (change (\<lambda>c. c\<lparr>current := current c - 1\<rparr>)) (\<lambda>_. (u, k + 1, Fs))"
proof (rule W_change)
  fix c assume c: "holds_in e (u, k, Fs) c"
  have "length (env_toks e) - (current c - 1) < k + 1" using c by (auto simp: rem_def comp_ok_def)
  then show "holds_in e (u, k + 1, Fs) (c\<lparr>current := current c - 1\<rparr>)" by (rule holds_current [OF c])
qed

lemma W_var_in_register:
  assumes ex: "parser_ok e u (k + 1) ex" and tok: "in_env e tok"
  shows "W e (u, k, Fs) (var_in_register ex tok) (\<lambda>_. (u, k, Fs))"
  unfolding var_in_register_def thenc_def
  by (intro W_back [THEN W_seq] comp_rules W_match_eq [THEN W_seq] W_assign_reg [THEN W_last] W_update_reg [THEN W_last]
      W_expression_statement [THEN W_last] parser_mono [OF ex]) (use tok in auto)

lemma W_var_in_slot:
  assumes ex: "parser_ok e u (k + 1) ex" and tok: "in_env e tok"
  shows "W e (u, k, Fs) (var_in_slot ex tok slot) (\<lambda>_. (u, k, Fs))"
  unfolding var_in_slot_def thenc_def
  by (intro comp_rules W_match_eq [THEN W_seq] W_assign_spilled [THEN W_last] W_update_spilled [THEN W_last]
      W_var_in_register [THEN W_last] parser_mono [OF ex]) (use tok in auto)

lemma W_more_look: "(\<And>x. W_more e A (f x) S) \<Longrightarrow> W_more e A (seqc (look g) f) S"
  by (simp add: W_more_def seqc_steps)

lemma W_more_if: "W_more e A m S \<Longrightarrow> W_more e A m' S \<Longrightarrow> W_more e A (if b then m else m') S"
  by simp

lemma W_var:
  assumes ex: "parser_ok e u k ex"
  shows "W_more e (u, k, Fs) (var_stmt ex) (\<lambda>_. (u, k - 1, Fs))"
  unfolding var_stmt_def thenc_def
  by (intro W_more_look W_more_if W_assign_field W_assign_element W_more_advance comp_rules W_var_in_slot W_var_in_register
      parser_mono [OF ex]) auto

end
