(* ===== verification/CompileInv.thy ===== *)
theory CompileInv
  imports CompStmtInv
begin

text \<open>
  Pattern matching, functions and the recursion of the parsers: the compiler returns when its
  fuel is large enough for the tokens, and what it returns satisfies the invariant.
\<close>

section \<open>Match\<close>

lemma W_jumps:
  assumes "jumps_at ps \<in> set Fs" and "p \<in> set ps" and "W e (u, k, jump_at p # Fs) m S"
  shows "W e (u, k, Fs) m S"
proof (rule W_I)
  fix c assume c: "holds_in e (u, k, Fs) c"
  then have "facts Fs c" by simp
  from facts_mem [OF this assms(1)] assms(2) have "jump_at p c" by (simp add: jumps_at_def)
  then have "holds_in e (u, k, jump_at p # Fs) c" using c by simp
  then show "result_ok e S (m c)" by (rule W_D [OF assms(3)])
qed

lemma W_patch_all: "jumps_at ps \<in> set Fs \<Longrightarrow> set qs \<subseteq> set ps \<Longrightarrow> W e (u, k, Fs) (patch_all qs) (\<lambda>_. (u, k, Fs))"
proof (induction qs)
  case (Cons q qs)
  have q: "W e (u, k, Fs) (patch_here q) (\<lambda>_. (u, k, Fs))"
    using Cons by (intro W_jumps [of ps Fs q] W_last [OF W_patch]) auto
  show ?case
    unfolding patch_all.simps thenc_def using Cons by (intro q [THEN W_seq] Cons.IH) auto
qed (auto intro: W_give)

text \<open>An arm is added to the jumps that are patched at the end.\<close>

abbreviation arms :: "match_state \<Rightarrow> Compiler \<Rightarrow> bool" where
  "arms ms \<equiv> jumps_at (arm_jmp_ends ms)"

lemma W_give_arm:
  assumes "jump_at p \<in> set Fs" and "arms ms \<in> set Fs" and w: "weaker (u, k, Fs) (u', k', Gs)"
  shows "W e (u, k, Fs) (give (add_arm p ms)) (\<lambda>ms'. (u', k', arms ms' # Gs))"
proof (rule W_I)
  fix c assume c: "holds_in e (u, k, Fs) c"
  then have "jump_at p c" "arms ms c" using facts_mem assms(1,2) by auto
  then have "arms (add_arm p ms) c" by (auto simp: add_arm_def jumps_at_def)
  with weaker_holds [OF w c] show "result_ok e (\<lambda>ms'. (u', k', arms ms' # Gs)) (give (add_arm p ms) c)"
    by (simp add: give_def)
qed

lemma W_arm_body:
  assumes "parser_ok e u k (\<lambda>_ :: unit. stmt)" and "k \<le> n"
  shows "W e (u, k, Fs) (arm_body n stmt) (\<lambda>p. (u, k, jump_at p # Fs))"
  unfolding arm_body_def thenc_def
  by (intro W_branch [OF assms, THEN W_seq] comp_rules parser_W_const [OF assms(1), THEN W_last]) auto

lemma W_guarded_arm:
  assumes "parser_ok e u k (\<lambda>_ :: unit. stmt)" and "k \<le> n" and "jump_at p \<in> set Fs" and "arms ms \<in> set Fs"
  shows "W e (u, k, Fs) (guarded_arm n stmt p ms) (\<lambda>ms'. (u, k, arms ms' # Fs))"
  unfolding guarded_arm_def thenc_def
  by (intro W_arm_body [OF assms(1,2), THEN W_seq] W_give_arm comp_rules) (use assms in auto)

lemma W_wildcard:
  assumes "parser_ok e u k (\<lambda>_ :: unit. stmt)" and "k \<le> n" and "arms ms \<in> set Fs"
  shows "W e (u, k, Fs) (wildcard_arm n stmt ms) (\<lambda>ms'. (u, k, arms ms' # Fs))"
  unfolding wildcard_arm_def thenc_def
  by (intro W_arm_body [OF parser_mono [OF assms(1)], THEN W_seq] W_give_arm comp_rules) (use assms in auto)

lemma W_compare: "W e (u + 1, k, Fs) (compare_arm m r) (\<lambda>p. (u, k, jump_at p # Fs))"
  unfolding compare_arm_def thenc_def by (intro comp_rules) auto

lemma W_enum_arm:
  assumes stmt: "parser_ok e u k (\<lambda>_ :: unit. stmt)" and "k \<le> n" and "arms ms \<in> set Fs"
  shows "W e (u, k, Fs) (enum_arm n stmt m ms) (\<lambda>ms'. (u, k - 1, arms ms' # Fs))"
  unfolding enum_arm_def thenc_def
  by (intro comp_rules W_compare [THEN W_seq] W_guarded_arm [THEN W_last] parser_mono [OF stmt]) (use assms in auto)

lemma W_result_pattern: "W e (u, k, Fs) result_pattern (\<lambda>tok. (u, k - 1, always (in_env e tok) # Fs))"
  unfolding result_pattern_def thenc_def by (intro W_give_always comp_rules) auto

lemma W_test_result: "m \<le> 15 \<Longrightarrow> W e (u, k, Fs) (test_result f m) (\<lambda>p. (u, k, jump_at p # Fs))"
  unfolding test_result_def thenc_def by (intro comp_rules) (auto simp: call_ok_def word_le_nat_alt)

lemma W_ok_arm:
  assumes stmt: "parser_ok e u k (\<lambda>_ :: unit. stmt)" and "k \<le> n" and "arms ms \<in> set Fs" and "m \<le> 15"
  shows "W e (u, k, Fs) (ok_arm n stmt m ms) (\<lambda>ms'. (u, k - 1, arms ms' # Fs))"
  unfolding ok_arm_def thenc_def
  by (intro comp_rules W_result_pattern [THEN W_seq] W_test_result [THEN W_seq] W_guarded_arm [THEN W_last] parser_mono [OF stmt])
    (use assms in \<open>auto simp: call_ok_def word_le_nat_alt\<close>)

lemma W_err_arm:
  assumes stmt: "parser_ok e u k (\<lambda>_ :: unit. stmt)" and "k \<le> n" and "arms ms \<in> set Fs" and "m \<le> 15"
  shows "W e (u, k, Fs) (err_arm n stmt m ms) (\<lambda>ms'. (u, k - 1, arms ms' # Fs))"
  unfolding err_arm_def thenc_def
  by (intro comp_rules W_result_pattern [THEN W_seq] W_test_result [THEN W_seq] W_guarded_arm [THEN W_last] parser_mono [OF stmt])
    (use assms in auto)

lemma W_value_arm:
  assumes ex: "parser_ok e u k ex" and stmt: "parser_ok e u k (\<lambda>_ :: unit. stmt)" and "k \<le> n" and "arms ms \<in> set Fs"
  shows "W e (u, k, Fs) (value_arm n ex stmt m ms) (\<lambda>ms'. (u, k - 1, arms ms' # Fs))"
  unfolding value_arm_def thenc_def
  by (intro comp_rules parser_rules [OF ex] W_compare [THEN W_seq] W_guarded_arm [THEN W_last] parser_mono [OF stmt])
    (use assms in auto)

lemma W_match_arms:
  assumes "parser_ok e u k ex" and "parser_ok e u k (\<lambda>_ :: unit. stmt)" and "k \<le> n" and "k \<le> n'" and "arms ms \<in> set Fs" and "m \<le> 15"
  shows "W e (u, k, Fs) (match_arms n ex stmt n' m ms) (\<lambda>ms'. (u, k, arms ms' # Fs))"
  using assms(1-5)
proof (induction n arbitrary: k ms Fs)
  case (Suc n)
  have IH: "W e (u, k - 1, arms ms' # Fs) (match_arms n ex stmt n' m ms') (\<lambda>ms''. (u, k - 1, arms ms'' # arms ms' # Fs))" for ms'
    using Suc parser_mono [OF Suc(2)] parser_mono [OF Suc(3)] by (intro Suc.IH) auto
  note stmt = W_wildcard [OF Suc(3) Suc(5) Suc(6)]
    W_enum_arm [OF Suc(3) Suc(5) Suc(6)] W_ok_arm [OF Suc(3) Suc(5) Suc(6) assms(6)]
    W_err_arm [OF Suc(3) Suc(5) Suc(6) assms(6)] W_value_arm [OF Suc(2) Suc(3) Suc(5) Suc(6)]
  have give: "W e (u, k, Fs) (give ms) (\<lambda>ms'. (u, k, arms ms' # Fs))"
    using Suc(6) facts_mem by (auto simp: W_def give_def)
  show ?case
    by (rule W_unfold, rule match_arms.simps(2), unfold thenc_def)
      (intro W_test give comp_rules stmt [THEN W_seq] stmt [THEN W_last] IH [THEN W_last]; auto)
qed simp

lemma jumps_at_Nil: "W e (u, k, jumps_at [] # Fs) m S \<Longrightarrow> W e (u, k, Fs) m S"
  unfolding W_def by (simp add: jumps_at_def)

lemma W_match_stmt:
  assumes ex: "parser_ok e u k ex" and stmt: "parser_ok e u (k - 1) (\<lambda>_ :: unit. stmt)" and n: "k \<le> n"
  shows "W_more e (u, k, Fs) (match_stmt n ex stmt) (\<lambda>_. (u, k - 1, Fs))"
proof -
  have start: "W e (u + 1, k - 1 - 1 - 1, Fs) (match_arms n ex stmt n r
       \<lparr>arm_jmp_ends = [], has_ok_arm = a, has_err_arm = b, has_wildcard = d, handled_variants = hs, match_enum_type = t\<rparr>)
      (\<lambda>ms. (u + 1, k - 1 - 1 - 1, arms ms # jumps_at [] # Fs))" if "r \<le> 15" for r a b d hs t
    by (rule jumps_at_Nil, rule W_match_arms) (use n that in \<open>auto intro: parser_mono [OF ex] parser_mono [OF stmt]\<close>)
  show ?thesis
    unfolding match_stmt_def thenc_def
    by (intro W_more_advance comp_rules parser_rules [OF ex] start [THEN W_seq] W_patch_all [THEN W_seq]) (auto intro: kept_fields)
qed

section \<open>Functions\<close>

lemma W_param_type: "W e (u, k, Fs) param_type (\<lambda>_. (u, k, Fs))"
  unfolding param_type_def thenc_def by (intro comp_rules) auto

lemma W_fn_params:
  assumes "k \<le> n" and "length names \<le> 4" and "length scales = length names"
  shows "W e (u, k, Fs) (fn_params n names scales)
    (\<lambda>p. (u, k, always (length (fst p) \<le> 4 \<and> length (snd p) = length (fst p)) # Fs))"
  using assms
proof (induction n arbitrary: k names scales)
  case (Suc n)
  have IH: "W e (u, k - 1, Fs) (fn_params n (names @ [a]) (scales @ [b]))
    (\<lambda>p. (u, k - 1, always (length (fst p) \<le> 4 \<and> length (snd p) = length (fst p)) # Fs))" if "length names < 4" for a b
    using Suc that by (intro Suc.IH) auto
  show ?case
    by (rule W_unfold, rule fn_params.simps(2), unfold thenc_def)
      (intro W_test W_give_always comp_rules W_param_type [THEN W_seq] IH [THEN W_last]; use Suc in auto)
qed simp

lemma kept_fns:
  assumes "comp_ok e c" and "fns_ok (code_len c) fns cur" and "length (c_functions c) \<le> length fns" and "v \<le> MAX_VARS"
  shows "kept e c (c\<lparr>c_functions := fns, current_fn := cur\<rparr>)" "kept e c (c\<lparr>c_functions := fns, var_count := v, current_fn := cur\<rparr>)"
  using assms by (simp_all add: kept_def comp_ok_def vars_ok_def grows_def)

lemma W_update_fn:
  assumes "\<And>m. entry_pc (f m) = entry_pc m \<and> param_names (f m) = param_names m \<and> param_fixed_scales (f m) = param_fixed_scales m"
  shows "W e (u, k, Fs) (update_fn i f) (\<lambda>_. (u, k, Fs))"
  unfolding update_fn_def
proof (rule W_change_kept)
  fix c assume c: "comp_ok e c"
  have old: "4 dvd unat (entry_pc m) \<and> unat (entry_pc m) \<le> code_len c \<and> length (param_names m) \<le> 4 \<and>
      length (param_fixed_scales m) = length (param_names m)" if "m \<in> set (c_functions c)" for m
    using c that by (simp add: comp_ok_def fns_ok_def)
  have "fns_ok (code_len c) ((c_functions c)[i := f (c_functions c ! i)]) (current_fn c)"
  proof (cases "i < length (c_functions c)")
    case True
    then have "c_functions c ! i \<in> set (c_functions c)" by simp
    from old [OF this] have new: "4 dvd unat (entry_pc (f (c_functions c ! i))) \<and> unat (entry_pc (f (c_functions c ! i))) \<le> code_len c \<and>
        length (param_names (f (c_functions c ! i))) \<le> 4 \<and>
        length (param_fixed_scales (f (c_functions c ! i))) = length (param_names (f (c_functions c ! i)))"
      by (simp only: assms [of "c_functions c ! i"])
    have "m \<in> set (c_functions c) \<or> m = f (c_functions c ! i)"
      if "m \<in> set ((c_functions c)[i := f (c_functions c ! i)])" for m
      using that set_update_subset_insert by fastforce
    with old new c show ?thesis by (auto simp only: comp_ok_def fns_ok_def length_list_update)
  qed (use c in \<open>simp add: comp_ok_def list_update_beyond\<close>)
  then show "kept e c (c\<lparr>c_functions := (c_functions c)[i := f (c_functions c ! i)]\<rparr>)"
    using c by (simp add: kept_def comp_ok_def vars_ok_def grows_def)
qed

lemma W_wcet_clause: "W e (u, k, Fs) (wcet_clause i) (\<lambda>_. (u, k, Fs))"
proof -
  have val: "W e A (case kd of TkTimeLiteral ns \<Rightarrow> give ns
     | TkNumber v \<Rightarrow> if 0 \<le> sint v then give v else fail_c ''ERR_EXPECTED_TIME_LITERAL''
     | _ \<Rightarrow> fail_c ''ERR_EXPECTED_TIME_LITERAL'') (\<lambda>_. A)" for A and kd
    by (auto intro!: W_if W_give W_fail split: TokenKind.split)
  show ?thesis
    unfolding wcet_clause_def thenc_def
    by (intro comp_rules val [THEN W_seq] W_update_fn [THEN W_last]) auto
qed

lemma W_requires:
  assumes "parser_ok e u k ex"
  shows "W e (u, k, Fs) (requires_clause ex) (\<lambda>_. (u, k, Fs))"
  unfolding requires_clause_def thenc_def by (intro comp_rules parser_rules [OF assms]) auto

lemma W_ensures_clause: "W e (u, k, Fs) (ensures_clause i) (\<lambda>_. (u, k, Fs))"
  unfolding ensures_clause_def thenc_def
  by (intro comp_rules W_balanced [THEN W_seq] W_update_fn [THEN W_last]) auto

lemma W_more_clause: "W e (u, k - 1, Fs) m S \<Longrightarrow> W_more e (u, k, Fs) (seqc advance (\<lambda>_. m)) S"
  by (rule W_more_advance)

lemma W_fn_clauses:
  assumes "parser_ok e u k ex" and "k \<le> n"
  shows "W e (u, k, Fs) (fn_clauses n ex i) (\<lambda>_. (u, k, Fs))"
  using assms
proof (induction n arbitrary: k)
  case (Suc n)
  have ex: "parser_ok e u (k - 1) ex" by (rule parser_mono [OF Suc(2)]) auto
  have IH: "W e (u, k - 1, Fs) (fn_clauses n ex i) (\<lambda>_. (u, k, Fs))"
    using Suc ex by (intro W_last [OF Suc.IH]) auto
  have clause: "W_more e (u, k, Fs) (seqc advance (\<lambda>_. seqc m (\<lambda>_. fn_clauses n ex i))) (\<lambda>_. (u, k, Fs))"
    if "W e (u, k - 1, Fs) m (\<lambda>_. (u, k - 1, Fs))" for m :: "unit comp"
    by (intro W_more_clause W_seq [OF that] IH)
  show ?case
  proof (rule W_I)
    fix c assume c: "holds_in e (u, k, Fs) c"
    note step = clause [OF W_wcet_clause] clause [OF W_requires [OF ex]] clause [OF W_ensures_clause]
    show "result_ok e (\<lambda>_. (u, k, Fs)) (fn_clauses (Suc n) ex i c)"
      using c step by (auto simp: W_more_def fn_clauses.simps(2) Let_def thenc_def give_def)
  qed
qed simp

lemma W_record_wcet: "W e (u, k, Fs) (record_wcet i w) (\<lambda>_. (u, k, Fs))"
  unfolding record_wcet_def thenc_def
  by (intro comp_rules W_update_fn [THEN W_seq]) (auto simp: Let_def kept_fields kept_refl)

lemma W_fn_body:
  assumes ex: "parser_ok e u k ex" and stmt: "parser_ok e u k (\<lambda>_ :: unit. stmt)" and n: "k \<le> n"
  shows "W e (u, k, Fs) (fn_body n ex stmt i) (\<lambda>_. (u, k, Fs))"
  unfolding fn_body_def thenc_def
  by (intro W_fn_clauses [OF ex n, THEN W_seq] comp_rules W_braced [THEN W_seq] parser_mono [OF stmt] W_record_wcet [THEN W_seq]
      W_ensures [OF ex, THEN W_seq]) (use n in auto)

text \<open>The new function's entry is a target, and the enclosing function is still there afterwards.\<close>

definition fns_from :: "nat \<Rightarrow> Compiler \<Rightarrow> bool" where
  "fns_from i c \<longleftrightarrow> i \<le> length (c_functions c)"

lemma stable_fns_from [simp]: "stable (fns_from i)"
  by (auto simp: stable_def fns_from_def grows_def)

lemma W_look_fns: "W e (u, k, Fs) (look (\<lambda>c. length (c_functions c))) (\<lambda>i. (u, k, fns_from i # Fs))"
  by (rule W_look_fact) (simp_all add: fns_from_def)

lemma W_look_fn: "W e (u, k, Fs) (look current_fn) (\<lambda>f. (u, k, fn_there f # Fs))"
  by (rule W_look_fact) (auto simp: fn_there_def comp_ok_def fns_ok_def)

lemma W_look_count: "W e (u, k, Fs) (look var_count) (\<lambda>n. (u, k, always (n \<le> MAX_VARS) # Fs))"
  by (rule W_look) (simp add: comp_ok_def vars_ok_def)

lemma W_change_facts:
  assumes "\<And>c. comp_ok e c \<Longrightarrow> facts Fs c \<Longrightarrow> kept e c (g c)"
  shows "W e (u, k, Fs) (change g) (\<lambda>_. (u, k, Fs))"
  by (rule W_change) (rule kept_holds, assumption, rule assms, auto)

lemma W_add_fn:
  assumes "target entry \<in> set Fs" and "fns_from i \<in> set Fs" and "length (fst p) \<le> 4" "length (snd p) = length (fst p)"
  shows "W e (u, k, Fs) (change (\<lambda>c. c\<lparr>c_functions := c_functions c @
         [\<lparr>fn_name = name, entry_pc = entry, param_names = fst p, ensures_tokens = [],
           param_fixed_scales = snd p, fn_declared_wcet_ns = None, fn_estimated_wcet_ns = 0\<rparr>],
       current_fn := Some i\<rparr>)) (\<lambda>_. (u, k, Fs))"
proof (rule W_change_facts)
  fix c assume c: "comp_ok e c" and Fs: "facts Fs c"
  have "target entry c" "fns_from i c" using facts_mem [OF Fs assms(1)] facts_mem [OF Fs assms(2)] .
  with c assms(3,4) show "kept e c (c\<lparr>c_functions := c_functions c @
         [\<lparr>fn_name = name, entry_pc = entry, param_names = fst p, ensures_tokens = [],
           param_fixed_scales = snd p, fn_declared_wcet_ns = None, fn_estimated_wcet_ns = 0\<rparr>],
       current_fn := Some i\<rparr>)"
    by (intro kept_fns(1)) (auto simp: comp_ok_def fns_ok_def target_def fns_from_def)
qed

lemma W_leave_fn:
  assumes "fn_there f \<in> set Fs" and "n \<le> MAX_VARS"
  shows "W e (u, k, Fs) (change (\<lambda>c. c\<lparr>var_count := n, current_fn := f\<rparr>)) (\<lambda>_. (u, k, Fs))"
proof (rule W_change_facts)
  fix c assume c: "comp_ok e c" and Fs: "facts Fs c"
  have "fn_there f c" using facts_mem [OF Fs assms(1)] .
  then have "fns_ok (code_len c) (c_functions c) f" using c by (simp add: comp_ok_def fns_ok_def fn_there_def)
  with c assms(2) show "kept e c (c\<lparr>var_count := n, current_fn := f\<rparr>)"
    by (simp add: kept_def comp_ok_def vars_ok_def grows_def)
qed

lemma W_fn:
  assumes ex: "parser_ok e u (k - 1) ex" and stmt: "parser_ok e u (k - 1) (\<lambda>_ :: unit. stmt)" and n: "k \<le> n"
  shows "W_more e (u, k, Fs) (fn_stmt n ex stmt) (\<lambda>_. (u, k - 1, Fs))"
  unfolding fn_stmt_def thenc_def
  by (intro W_more_advance W_look_fns [THEN W_seq] W_look_fn [THEN W_seq] W_look_count [THEN W_seq] W_add_fn [THEN W_seq]
      W_leave_fn [THEN W_seq] comp_rules W_fn_params [THEN W_seq] W_fn_body [THEN W_seq]
      parser_mono [OF ex] parser_mono [OF stmt]) (use n in auto)

lemma W_return:
  assumes ex: "parser_ok e u k ex"
  shows "W_more e (u, k, Fs) (return_stmt ex) (\<lambda>_. (u, k - 1, Fs))"
  unfolding return_stmt_def thenc_def
  by (intro W_more_advance comp_rules parser_rules [OF ex] W_ensures [OF ex, THEN W_seq]) auto

section \<open>Statements\<close>

text \<open>What a statement may rely on: its parsers, the rounds of its loops, and where panics come from.\<close>

lemma W_keyword:
  assumes ex: "parser_ok e u k ex" and stmt: "parser_ok e u (k - 1) (\<lambda>_ :: unit. stmt)" and n: "k \<le> n"
    and p: "checked \<Longrightarrow> may_panic e"
  shows "W_more e (u, k, Fs) (keyword_stmt checked n ex stmt kd) (\<lambda>_. (u, k - 1, Fs))"
proof -
  have ex': "parser_ok e u (k - 1) ex" and n': "k - 1 \<le> n" using parser_mono [OF ex] n by auto
  have decl: "W_more e (u, k, Fs) (thenc advance m) (\<lambda>_. (u, k - 1, Fs))"
    if "W e (u, k - 1, Fs) m (\<lambda>_. (u, k - 1, Fs))" for m :: "unit comp"
    using that unfolding thenc_def by (intro W_more_advance)
  note stmts = W_pipeline [OF stmt n] W_on [OF stmt n] W_within [OF stmt n] W_while [OF ex stmt n] W_for [OF ex stmt n p]
    W_let [OF ex' n] W_if_stmt [OF ex stmt n] W_match_stmt [OF ex stmt n] W_fn [OF ex' stmt n] W_return [OF ex]
    decl [OF W_struct_def [OF n']] decl [OF W_enum_def [OF n']] decl [OF W_const_decl [OF p n']]
    W_weak_more [OF W_expression_statement [OF ex]]
  show ?thesis by (cases kd) (simp_all add: keyword_stmt_def stmts [simplified])
qed

lemma W_directive:
  assumes ex: "parser_ok e u k ex" and stmt: "parser_ok e u (k - 1) (\<lambda>_ :: unit. stmt)" and n: "k \<le> n"
    and p: "checked \<Longrightarrow> may_panic e" and pool: "d = AtPoolSize \<Longrightarrow> may_panic e"
  shows "W_more e (u, k, Fs) (directive_stmt checked n ex stmt d) (\<lambda>_. (u, k - 1, Fs))"
proof -
  note stmts = W_import W_test_stmt W_contract [OF n] W_pool_stmt [OF _ n]
    W_pipeline [OF stmt n] W_on [OF stmt n] W_within [OF stmt n] W_while [OF ex stmt n] W_for [OF ex stmt n p]
    W_assert [OF ex] W_weak_more [OF W_expression_statement [OF ex]]
  show ?thesis using pool by (cases d) (simp_all add: directive_stmt_def stmts [simplified])
qed

lemma W_statement:
  assumes ex: "parser_ok e u k ex" and stmt: "parser_ok e u (k - 1) (\<lambda>_ :: unit. stmt)" and n: "k \<le> n"
    and p: "checked \<Longrightarrow> may_panic e"
  shows "W e (u, k, Fs) (statement_body checked n ex stmt) (\<lambda>_. (u, k - 1, Fs))"
proof (rule W_I)
  fix c assume c: "holds_in e (u, k, Fs) c"
  have more: "result_ok e Q (m c)" if "W_more e (u, k, Fs) m Q" "peek_kind c \<noteq> TkEof" for m :: "unit comp" and Q
    using that c by (simp add: W_more_def)
  have pool: "may_panic e" if "peek_kind c = TkDirective AtPoolSize"
    using that c by (auto simp: comp_ok_def env_ok_def peek_def split: if_splits)
  have semi: "W_more e (u, k, Fs) (thenc advance (give ())) (\<lambda>_. (u, k - 1, Fs))"
    unfolding thenc_def by (intro W_more_advance W_give) simp
  note expr = W_D [OF W_expression_statement [OF ex] c]
  show "result_ok e (\<lambda>_. (u, k - 1, Fs)) (statement_body checked n ex stmt c)"
  proof (cases "peek_kind c")
    case (TkDirective d)
    with pool more [OF W_directive [OF ex stmt n p, where d = d]] show ?thesis by (simp add: statement_body_def)
  next
    case (TkKeyword kd)
    with more [OF W_keyword [OF ex stmt n p]] show ?thesis by (simp add: statement_body_def)
  next
    case (TkSymbol s)
    with more [OF semi] expr show ?thesis by (simp add: statement_body_def split: symbol.split)
  qed (use more [OF W_var [OF ex]] expr in \<open>simp_all add: statement_body_def\<close>)
qed

section \<open>The recursion\<close>

text \<open>A bound for the depth: every call consumes a token, or takes a temporary and starts anywhere.\<close>

definition depth :: "cenv \<Rightarrow> nat \<Rightarrow> nat \<Rightarrow> nat" where
  "depth e u k = (8 - u) * (tokens e + 2) + k"

lemma W_many: "8 < u \<Longrightarrow> W e (u, k, Fs) m S"
proof (rule W_I)
  fix c assume "8 < u" and "holds_in e (u, k, Fs) c"
  moreover have "card (used c) \<le> card {..<8 :: nat}" by (rule card_mono) (auto simp: used_def)
  ultimately show "result_ok e S (m c)" by simp
qed

lemma depth_mono: "u \<le> u' \<Longrightarrow> k' \<le> k \<Longrightarrow> depth e u' k' \<le> depth e u k"
  unfolding depth_def by (intro add_mono mult_le_mono1 diff_le_mono2)

lemma depth_temp:
  assumes "u < u'" and "u' \<le> 8" and "k' \<le> tokens e + 1"
  shows "depth e u' k' \<le> depth e u k"
proof -
  have "8 - u = Suc (8 - Suc u)" using assms by simp
  then have "depth e u k = (8 - Suc u) * (tokens e + 2) + (tokens e + 2) + k" by (simp add: depth_def)
  moreover have "(8 - u') * (tokens e + 2) \<le> (8 - Suc u) * (tokens e + 2)" using assms by (intro mult_le_mono1) simp
  ultimately show ?thesis using assms(3) by (simp add: depth_def)
qed

definition reaches :: "cenv \<Rightarrow> nat \<Rightarrow> ('b \<Rightarrow> 'a comp) \<Rightarrow> bool" where
  "reaches e n p \<longleftrightarrow> (\<forall>u k Fs x. k \<le> tokens e + 1 \<longrightarrow> 4 * depth e u k + tokens e \<le> n \<longrightarrow> W e (u, k, Fs) (p x) (\<lambda>_. (u, k - 1, Fs)))"

lemma reaches_parser:
  assumes "reaches e m p" and "4 * depth e u k + tokens e \<le> m" and "k \<le> tokens e + 1"
  shows "parser_ok e u k p"
  unfolding parser_ok_def
proof (intro allI impI)
  fix u' k' Fs x assume uk: "u \<le> u' \<and> k' \<le> k \<or> u < u' \<and> k' \<le> tokens e + 1"
  show "W e (u', k', Fs) (p x) (\<lambda>_. (u', k' - 1, Fs))"
  proof (cases "8 < u'")
    case False
    then have "depth e u' k' \<le> depth e u k" using uk depth_mono depth_temp by (meson not_less)
    then show ?thesis using assms uk unfolding reaches_def by auto
  qed (rule W_many)
qed

lemma depth_less: "0 < k \<Longrightarrow> depth e u k = depth e u (k - 1) + 1"
  by (simp add: depth_def)

text \<open>All four parsers, with the fuel each of them needs.\<close>

lemma reachesI:
  assumes "\<And>u k Fs x. 0 < k \<Longrightarrow> k \<le> tokens e + 1 \<Longrightarrow> 4 * depth e u k + tokens e \<le> m \<Longrightarrow>
     4 * depth e u (k - 1) + tokens e \<le> m - 4 \<Longrightarrow> k \<le> m \<Longrightarrow> 4 \<le> m \<Longrightarrow> W e (u, k, Fs) (p x) (\<lambda>_. (u, k - 1, Fs))"
  shows "reaches e m p"
  unfolding reaches_def
proof (intro allI impI)
  fix u k Fs x assume k: "k \<le> tokens e + 1" and d: "4 * depth e u k + tokens e \<le> m"
  show "W e (u, k, Fs) (p x) (\<lambda>_. (u, k - 1, Fs))"
  proof (cases "k = 0")
    case False
    have "k \<le> depth e u k" by (simp add: depth_def)
    moreover have "4 * depth e u (k - 1) + tokens e \<le> m - 4" using d depth_less [of k e u] False by simp
    ultimately show ?thesis using assms k d False by simp
  qed simp
qed

lemma parsers_reach:
  assumes p: "checked \<Longrightarrow> may_panic e"
  shows "(\<forall>m. m + 2 \<le> n \<longrightarrow> reaches e m (primary n checked)) \<and> (\<forall>m. m + 3 \<le> n \<longrightarrow> reaches e m (ternary n checked)) \<and>
     (\<forall>m. m + 4 \<le> n \<longrightarrow> reaches e m (expression n checked)) \<and> (\<forall>m. m + 5 \<le> n \<longrightarrow> reaches e m (\<lambda>_ :: unit. statement n checked))"
proof (induction n)
  case (Suc n)
  have prim: "m + 2 \<le> n \<Longrightarrow> reaches e m (primary n checked)" for m using Suc by blast
  have tern: "m + 3 \<le> n \<Longrightarrow> reaches e m (ternary n checked)" for m using Suc by blast
  have expr: "m + 4 \<le> n \<Longrightarrow> reaches e m (expression n checked)" for m using Suc by blast
  have stmt: "m + 5 \<le> n \<Longrightarrow> reaches e m (\<lambda>_ :: unit. statement n checked)" for m using Suc by blast
  have "reaches e m (primary (Suc n) checked)" if "m + 2 \<le> Suc n" for m
    unfolding primary.simps
    by (rule reachesI, rule parser_primary [OF _ _ _ _ p])
      (use that in \<open>auto intro!: reaches_parser [OF prim, of "m - 4"] reaches_parser [OF tern, of "m - 4"] reaches_parser [OF expr, of "m - 4"]\<close>)
  moreover have "reaches e m (ternary (Suc n) checked)" if "m + 3 \<le> Suc n" for m
    unfolding ternary.simps
    by (rule reachesI, rule parser_ternary)
      (use that in \<open>auto intro!: reaches_parser [OF prim, of m] reaches_parser [OF expr, of "m - 4"] reaches_parser [OF stmt, of "m - 4"]\<close>)
  moreover have "reaches e m (expression (Suc n) checked)" if "m + 4 \<le> Suc n" for m
    unfolding expression.simps
    by (rule reachesI, rule parser_expression) (use that in \<open>auto intro!: reaches_parser [OF tern, of m]\<close>)
  moreover have "reaches e m (\<lambda>_ :: unit. statement (Suc n) checked)" if "m + 5 \<le> Suc n" for m
    unfolding statement.simps
    by (rule reachesI, rule W_statement [OF _ _ _ p])
      (use that in \<open>auto intro!: reaches_parser [OF expr, of m] reaches_parser [OF stmt, of "m - 4"]\<close>)
  ultimately show ?case by blast
qed simp

section \<open>Programs\<close>

lemma W_statements:
  assumes "parser_ok e u k (\<lambda>_ :: unit. stmt)" and "k \<le> n"
  shows "W e (u, k, Fs) (statements n stmt) (\<lambda>_. (u, k, Fs))"
  using assms
proof (induction n arbitrary: k)
  case (Suc n)
  have IH: "W e (u, k - 1, Fs) (statements n stmt) (\<lambda>_. (u, k - 1, Fs))"
    using Suc parser_mono [OF Suc(2)] by (intro Suc.IH) auto
  show ?case
    by (rule W_unfold, rule statements.simps(2), unfold thenc_def)
      (intro W_test comp_rules stmt_rules [OF Suc(2)] IH [THEN W_last]; auto)
qed simp

lemma W_check_handles: "W e A check_handles (\<lambda>_. A)"
  by (rule W_keep_I) (auto simp: check_handles_def give_def split: option.split)

definition enough_fuel :: "Token list \<Rightarrow> nat" where
  "enough_fuel toks = 37 * length toks + 80"

lemma W_compile:
  assumes "checked \<Longrightarrow> may_panic e" and "enough_fuel (env_toks e) \<le> n"
  shows "W e (0, tokens e + 1, []) (compile n checked) (\<lambda>_. (0, tokens e + 1, []))"
proof -
  have m: "37 * tokens e + 80 \<le> n" using assms(2) by (simp add: enough_fuel_def tokens_def)
  have "reaches e (n - 5) (\<lambda>_ :: unit. statement n checked)" using parsers_reach [OF assms(1), where n = n] m by auto
  then have "parser_ok e 0 (tokens e + 1) (\<lambda>_ :: unit. statement n checked)"
    by (rule reaches_parser) (use m in \<open>simp_all add: depth_def\<close>)
  moreover have "tokens e + 1 \<le> n" using m by simp
  ultimately have s: "W e (0, tokens e + 1, []) (statements n (statement n checked)) (\<lambda>_. (0, tokens e + 1, []))"
    by (rule W_statements)
  show ?thesis
    unfolding compile_def thenc_def
    by (intro s [THEN W_seq] W_check_handles [THEN W_seq] comp_rules W_here [THEN W_last]) (auto intro: kept_fields)
qed

end
