(* ===== verification/CompRun.thy ===== *)
theory CompRun
  imports CompLogic
begin

text \<open>
  Runs of compiled programs. The code that the invariant \<^const>\<open>comp_ok\<close> describes is executed one
  aligned instruction after the other: every jump, call and return leads to an aligned
  instruction, every opcode is one, and no instruction indexes beyond the machine's arrays.
\<close>

section \<open>The instruction pointer\<close>

definition same_place :: "'w vm_run \<Rightarrow> 'w vm_run flow \<Rightarrow> bool" where
  "same_place s f = (case f of Continue s' \<Rightarrow> ip (mach s') = ip (mach s) | _ \<Rightarrow> True)"

lemma ip_set_reg [simp]: "ip (set_reg r v vm) = ip vm"
  by (simp add: set_reg_def)

lemma ip_vm_ops [simp]:
  "ip (op_mov_imm a i vm) = ip vm" "ip (op_mov_reg a b vm) = ip vm"
  "ip (op_mov_str a b c vm) = ip vm" "ip (op_addi a b c vm) = ip vm"
  "ip (op_subi a b c vm) = ip vm" "ip (op_and a b c vm) = ip vm"
  "ip (op_or a b c vm) = ip vm" "ip (op_xor a b c vm) = ip vm"
  "ip (op_shl a b c vm) = ip vm" "ip (op_shr a b c vm) = ip vm"
  "ip (op_add a b c vm) = ip vm" "ip (op_sub a b c vm) = ip vm"
  "ip (op_mul a b c vm) = ip vm" "ip (op_cmp_eq a b c vm) = ip vm"
  "ip (op_cmp_ne a b c vm) = ip vm" "ip (op_streq a b c vm) = ip vm"
  "ip (op_cmp_lt a b c vm) = ip vm" "ip (op_cmp_le a b c vm) = ip vm"
  "ip (op_cmp_gt a b c vm) = ip vm" "ip (op_cmp_ge a b c vm) = ip vm"
  "ip (op_tbl_def a b c vm) = ip vm" "ip (op_arr_def k i vm) = ip vm" "ip (op_struct_def k n vm) = ip vm"
  "ip (op_spill_store a b vm) = ip vm" "ip (op_spill_load a b vm) = ip vm"
  "ip (op_within_end vm) = ip vm"
  by (simp_all add: alu_defs alu3_def op_tbl_def_def op_arr_def_def op_struct_def_def op_spill_store_def
      op_spill_load_def op_within_end_def Let_def)

lemma ip_flow_ops:
  "op_ldc a i vm = Continue vm' \<Longrightarrow> ip vm' = ip vm"
  "op_div a b c vm = Continue vm' \<Longrightarrow> ip vm' = ip vm"
  "op_mod a b c vm = Continue vm' \<Longrightarrow> ip vm' = ip vm"
  "op_arr_load a b c vm = Continue vm' \<Longrightarrow> ip vm' = ip vm"
  "op_arr_store a b c vm = Continue vm' \<Longrightarrow> ip vm' = ip vm"
  "op_struct_load a b c vm = Continue vm' \<Longrightarrow> ip vm' = ip vm"
  "op_struct_store a b c vm = Continue vm' \<Longrightarrow> ip vm' = ip vm"
  "op_tbl_load a b c vm = Continue vm' \<Longrightarrow> ip vm' = ip vm"
  "op_assert a vm = Continue vm' \<Longrightarrow> ip vm' = ip vm"
  by (auto simp: op_ldc_def op_div_def op_mod_def op_arr_load_def op_arr_store_def
      op_struct_load_def op_struct_store_def op_tbl_load_def op_assert_def
      Let_def split: if_splits option.splits)

lemma same_place_on_vm: "ip (f (mach s)) = ip (mach s) \<Longrightarrow> same_place s (on_vm f s)"
  by (simp add: same_place_def on_vm_def)

lemma same_place_on_flow:
  assumes "\<And>vm'. f (mach s) = Continue vm' \<Longrightarrow> ip vm' = ip (mach s)"
  shows "same_place s (on_flow f s)"
proof (cases "f (mach s)")
  case (Continue vm')
  from assms [OF this] Continue show ?thesis by (simp add: same_place_def on_flow_def)
qed (simp_all add: same_place_def on_flow_def)

lemma call_native_ip:
  assumes "call_native h f r v s = Ok (x, s')"
  shows "ip (mach s') = ip (mach s)"
proof (cases "f = NATIVE_TERM_READ_KEY \<or> f = NATIVE_VRAM_WRITE")
  case True
  with assms show ?thesis
    by (auto simp: call_native_def native_term_read_key_def native_vram_write_def with_arg_def
        Let_def split: if_splits option.splits prod.splits)
next
  case False
  with call_native_pure [of f s h r v] assms show ?thesis by (simp add: pure_native_def)
qed

lemma same_place_call_nat: "same_place s (op_call_nat h rd rs1 rs2 s)"
proof (cases "decode_native (of_nat rs1)")
  case None
  then show ?thesis by (simp add: op_call_nat_def same_place_def ret1_def)
next
  case (Some f)
  then show ?thesis
    using call_native_ip [of h f rs2 "reg_or 0 rs2 (mach s)" s]
    by (cases "call_native h f rs2 (reg_or 0 rs2 (mach s)) s") (auto simp: op_call_nat_def same_place_def)
qed

lemma same_place_deadline:
  "same_place s (Continue (op_within_start h rd s))" "same_place s (Continue (op_drop h s))"
  using get_uptime_mach(1) [of h s]
  by (cases "get_uptime_ns h s"; simp add: op_within_start_def op_drop_def same_place_def write_out_def Let_def)+

lemma exec_op_same_place:
  assumes "op \<notin> {PX64_OP_JMP, PX64_OP_JZ, PX64_OP_JNZ, PX64_OP_CALL, PX64_OP_RET}"
  shows "same_place s (exec_op h op rd rs1 rs2 i s)"
  using assms
  by (cases op)
    (simp_all add: exec_op_def same_place_on_vm same_place_call_nat same_place_deadline
      same_place_on_flow [OF ip_flow_ops(1)] same_place_on_flow [OF ip_flow_ops(2)]
      same_place_on_flow [OF ip_flow_ops(3)] same_place_on_flow [OF ip_flow_ops(4)]
      same_place_on_flow [OF ip_flow_ops(5)] same_place_on_flow [OF ip_flow_ops(6)]
      same_place_on_flow [OF ip_flow_ops(7)] same_place_on_flow [OF ip_flow_ops(8)]
      same_place_on_flow [OF ip_flow_ops(9)],
     simp_all add: same_place_def)

text \<open>Where the machine is and where it will return to.\<close>

definition aligned :: "PX64VM \<Rightarrow> bool" where
  "aligned vm \<longleftrightarrow> 4 dvd ip vm \<and> (\<forall>k < call_sp vm. 4 dvd unat (call_stack vm ! k))"

lemma aligned_new [simp]: "aligned (vm_new c p k a)"
  by (simp add: aligned_def vm_new_def)

lemma aligned_tick [simp]: "aligned (tick vm) = aligned vm"
  by (simp add: aligned_def tick_def)

lemma four_dvd_unat: "4 dvd n \<Longrightarrow> 4 dvd unat (of_nat n :: u16)"
  by (simp add: unat_of_nat dvd_mod)

lemma aligned_call: "vm_ok vm \<Longrightarrow> aligned vm \<Longrightarrow> 4 dvd unat i \<Longrightarrow> op_call i vm = Continue vm' \<Longrightarrow> aligned vm'"
  by (auto simp: aligned_def vm_ok_def op_call_def nth_list_update four_dvd_unat less_Suc_eq split: if_splits)

lemma aligned_ret: "aligned vm \<Longrightarrow> op_ret vm = Continue vm' \<Longrightarrow> aligned vm'"
  by (auto simp: aligned_def op_ret_def Let_def split: if_splits)

lemma exec_op_aligned:
  assumes ex: "exec_op h op a b c i s = Continue s'" and ok: "vm_ok (mach s)" and al: "aligned (mach s)"
    and j: "op \<in> jumps \<Longrightarrow> 4 dvd unat i"
  shows "aligned (mach s')"
proof (cases "op \<in> {PX64_OP_JMP, PX64_OP_JZ, PX64_OP_JNZ, PX64_OP_CALL, PX64_OP_RET}")
  case True
  then consider "op \<in> {PX64_OP_JMP, PX64_OP_JZ, PX64_OP_JNZ}" | "op = PX64_OP_CALL" | "op = PX64_OP_RET" by blast
  then show ?thesis
  proof cases
    case 1
    with ex al j show ?thesis
      by (auto simp: exec_op_def on_vm_def jumps_def op_jmp_def op_jz_def op_jnz_def aligned_def)
  next
    case 2
    with ex aligned_call [OF ok al j] show ?thesis
      by (auto simp: exec_op_def on_flow_def jumps_def split: flow.splits)
  next
    case 3
    with ex aligned_ret [OF al] show ?thesis by (auto simp: exec_op_def on_flow_def split: flow.splits)
  qed
next
  case False
  have "ip (mach s') = ip (mach s)"
    using exec_op_same_place [OF False, of s h a b c i] ex by (simp add: same_place_def)
  moreover have "call_stack (mach s') = call_stack (mach s) \<and> call_sp (mach s') = call_sp (mach s)"
  proof (cases "op \<in> {PX64_OP_ARR_DEF, PX64_OP_STRUCT_DEF}")
    case True
    with ex show ?thesis by (auto simp: exec_op_def on_vm_def op_arr_def_def op_struct_def_def Let_def)
  next
    case not_def: False
    with False exec_op_keeps_skel [of op s h a b c i] ex show ?thesis by (simp add: keeps_skel_def skeleton_def)
  qed
  ultimately show ?thesis using al by (simp add: aligned_def)
qed

section \<open>Native calls\<close>

text \<open>These natives do not look at the registers beside their argument.\<close>

lemma call_ok_no_crash:
  assumes "length (regs (mach s)) = PX64_NUM_REGISTERS" and "call_ok f arg"
    and "f \<noteq> native_code NATIVE_VRAM_READ" and "f \<noteq> native_code NATIVE_VRAM_WRITE"
  shows "op_call_nat h rd (unat f) (unat arg) s \<noteq> Crash"
proof (cases "unat arg \<le> PX64_NUM_REGISTERS")
  case True
  then show ?thesis
    using assms by (intro call_nat_no_crash) (auto simp: decode_native_Some)
next
  case False
  then obtain g where g: "f = native_code g"
      "g \<in> {NATIVE_PRINT, NATIVE_PRINTLN, NATIVE_NET_SET_RATE, NATIVE_NET_SEND, NATIVE_DROP}"
    using assms(2) unfolding call_ok_def by blast
  have "call_native h g r v s \<noteq> Panic" for r v
    using g(2) by (auto simp: call_native_def native_print_def native_println_def ret1_def Let_def)
  moreover have "decode_native f = Some g" using g(1) by (simp add: decode_native_Some)
  ultimately show ?thesis
    by (cases "call_native h g (unat arg) (reg_or 0 (unat arg) (mach s)) s") (auto simp: op_call_nat_def)
qed

section \<open>The invariant of a run\<close>

definition sizes :: "('a \<Rightarrow> nat) \<Rightarrow> 'a list \<Rightarrow> nat \<Rightarrow> nat" where
  "sizes f xs k = (if k < length xs then f (xs ! k) else 0)"

lemma sum_sizes: "length xs \<le> n \<Longrightarrow> sum_list (map (sizes f xs) [0..<n]) = sum_list (map f xs)"
proof (induction n arbitrary: xs)
  case (Suc n)
  then show ?case
  proof (cases xs)
    case (Cons x ys)
    have "map (sizes f xs) [0..<Suc n] = f x # map (sizes f ys) [0..<n]"
      unfolding upt_conv_Cons [OF zero_less_Suc] list.map map_Suc_upt [symmetric] map_map
      by (simp add: sizes_def Cons comp_def)
    then show ?thesis using Suc.IH [of ys] Suc.prems Cons by simp
  qed (simp add: sizes_def [abs_def])
qed simp

abbreviation array_sizes :: "Compiler \<Rightarrow> nat \<Rightarrow> nat" where
  "array_sizes c \<equiv> sizes (\<lambda>a. unat (arr_len a)) (c_arrays c)"

abbreviation struct_sizes :: "Compiler \<Rightarrow> nat \<Rightarrow> nat" where
  "struct_sizes c \<equiv> sizes (\<lambda>i. unat (inst_field_count i)) (struct_insts c)"

lemma sizes_have_room: "comp_ok e c \<Longrightarrow> have_room (array_sizes c) (struct_sizes c)"
  by (auto simp: comp_ok_def arrays_ok_def structs_ok_def have_room_def sum_sizes)

text \<open>No instruction of the code is a native call that accesses video memory.\<close>

definition no_vram_calls :: "u8 list \<Rightarrow> bool" where
  "no_vram_calls prog =
     list_all (\<lambda>k. prog ! (4 * k) = op_code PX64_OP_CALL_NAT \<longrightarrow>
        prog ! (4 * k + 2) \<noteq> native_code NATIVE_VRAM_READ \<and> prog ! (4 * k + 2) \<noteq> native_code NATIVE_VRAM_WRITE)
       [0..<length prog div 4]"

lemma no_vram_callsD:
  assumes "no_vram_calls prog" and "4 dvd i" and "i < length prog" and "4 dvd length prog" and "prog ! i = op_code PX64_OP_CALL_NAT"
  shows "prog ! (i + 2) \<noteq> native_code NATIVE_VRAM_READ \<and> prog ! (i + 2) \<noteq> native_code NATIVE_VRAM_WRITE"
  using assms by (auto simp: no_vram_calls_def list_all_iff elim!: dvdE)

definition run_inv :: "Compiler \<Rightarrow> PX64VM \<Rightarrow> bool" where
  "run_inv c vm \<longleftrightarrow>
     vm_ok vm \<and> vm_code vm = c_code c \<and> const_pool vm = c_const_pool c \<and> aligned vm \<and>
     laid_out (array_sizes c) (struct_sizes c) vm"

text \<open>The instruction a machine is about to execute.\<close>

lemma fetched:
  assumes "comp_ok e c" and "run_inv c vm" and "fetchable vm"
  obtains op where "vm_code vm ! ip vm = op_code op"
    "instr_ok (length (c_code c)) (length (c_const_pool c)) (c_arrays c) (struct_insts c) op
       (vm_code vm ! (ip vm + 1)) (vm_code vm ! (ip vm + 2)) (vm_code vm ! (ip vm + 3))"
proof -
  have "4 dvd ip vm" "ip vm < length (c_code c)" "vm_code vm = c_code c"
    using assms(2,3) by (simp_all add: run_inv_def aligned_def fetchable_def)
  moreover have "code_ok (c_code c) (length (c_const_pool c)) (c_arrays c) (struct_insts c)"
    using assms(1) by (simp add: comp_ok_def)
  ultimately show thesis using that unfolding code_ok_def by metis
qed

lemma fetched_is:
  assumes "comp_ok e c" and "run_inv c vm" and "fetchable vm" and "vm_code vm ! ip vm = op_code op"
  shows "instr_ok (length (c_code c)) (length (c_const_pool c)) (c_arrays c) (struct_insts c) op
       (vm_code vm ! (ip vm + 1)) (vm_code vm ! (ip vm + 2)) (vm_code vm ! (ip vm + 3))"
  using fetched [OF assms(1-3)] assms(4) by (metis decode_op_Some option.inject)

lemma run_inv_sized:
  assumes "comp_ok e c" and "run_inv c vm" and "fetchable vm"
  shows "sized (array_sizes c) (struct_sizes c) (vm_code vm) (ip vm)"
  using fetched_is [OF assms, of PX64_OP_ARR_DEF] fetched_is [OF assms, of PX64_OP_STRUCT_DEF]
  unfolding sized_def instr_ok_def sizes_def by (simp del: op_code.simps)

lemma run_inv_no_crash:
  assumes c: "comp_ok e c" and i: "run_inv c (mach s)" and r: "running (mach s)" and v: "no_vram_calls (c_code c)"
  shows "vm_step h s \<noteq> Crash"
proof (rule step_no_crash)
  show "vm_ok (mach s)" "running (mach s)" "laid_out (array_sizes c) (struct_sizes c) (mach s)"
    using i r by (simp_all add: run_inv_def)
  show "have_room (array_sizes c) (struct_sizes c)" using c by (rule sizes_have_room)
  assume "decode_op (vm_code (mach s) ! ip (mach s)) = Some PX64_OP_CALL_NAT"
  then have call: "vm_code (mach s) ! ip (mach s) = op_code PX64_OP_CALL_NAT" by (simp add: decode_op_Some)
  have f: "fetchable (mach s)" and tick: "vm_ok (tick (mach s))"
    using r i tick_ok by (simp_all add: running_def run_inv_def)
  have "call_ok (vm_code (mach s) ! (ip (mach s) + 2)) (vm_code (mach s) ! (ip (mach s) + 3))"
    using fetched_is [OF c i f call] unfolding instr_ok_def by blast
  moreover have "vm_code (mach s) ! (ip (mach s) + 2) \<noteq> native_code NATIVE_VRAM_READ \<and>
      vm_code (mach s) ! (ip (mach s) + 2) \<noteq> native_code NATIVE_VRAM_WRITE"
    using v call f i c
    by (intro no_vram_callsD) (auto simp: run_inv_def aligned_def fetchable_def comp_ok_def code_ok_def)
  ultimately show "op_call_nat h (unat (vm_code (mach s) ! (ip (mach s) + 1))) (unat (vm_code (mach s) ! (ip (mach s) + 2)))
      (unat (vm_code (mach s) ! (ip (mach s) + 3))) (s\<lparr>mach := tick (mach s)\<rparr>) \<noteq> Crash"
    using tick by (intro call_ok_no_crash) (auto simp: vm_ok_def)
qed

lemma run_inv_step:
  assumes c: "comp_ok e c" and i: "run_inv c (mach s)" and r: "running (mach s)" and st: "vm_step h s = Continue s'"
  shows "run_inv c (mach s')"
proof -
  have f: "fetchable (mach s)" and ok: "vm_ok (mach s)" and tick: "vm_ok (tick (mach s))"
    using r i tick_ok by (simp_all add: running_def run_inv_def)
  let ?b = "\<lambda>k. vm_code (mach s) ! (ip (mach s) + k)"
  obtain op where op: "?b 0 = op_code op"
    and ins: "instr_ok (length (c_code c)) (length (c_const_pool c)) (c_arrays c) (struct_insts c) op (?b 1) (?b 2) (?b 3)"
    using fetched [OF c i f] by auto
  have "exec_op h op (unat (?b 1)) (unat (?b 2)) (unat (?b 3)) (from_be [?b 2, ?b 3]) (s\<lparr>mach := tick (mach s)\<rparr>) = Continue s'"
    using st op by (simp add: vm_step_def Let_def)
  then have "aligned (mach s')"
    by (rule exec_op_aligned) (use tick i ins in \<open>auto simp: run_inv_def instr_ok_def imm16_of_def\<close>)
  moreover have "laid_out (array_sizes c) (struct_sizes c) (mach s')"
    by (rule step_keeps_layout [OF ok r _ run_inv_sized [OF c i f] st]) (use i in \<open>simp add: run_inv_def\<close>)
  ultimately show ?thesis
    using vm_step_keeps [OF ok, of h] r st i
    by (auto simp: running_def run_keeps_def step_rel_def same_program_def run_inv_def)
qed

section \<open>Errors of a run\<close>

text \<open>The errors that only bytecode no compiler wrote gets.\<close>

definition bad_code_errors :: "string set" where
  "bad_code_errors = {''ERR_PX64_INVALID_OPCODE'', ''ERR_PX64_CONST_OUT_OF_BOUNDS''}"

lemma call_native_error: "call_native h f r v s = Err x \<Longrightarrow> code x \<notin> bad_code_errors"
  by (cases f)
    (auto simp: call_native_def native_defs native_term_read_key_def native_vram_write_def with_arg_def ret1_def
      bad_code_errors_def Let_def split: if_splits option.splits prod.splits)

lemma call_nat_error:
  assumes "op_call_nat h rd rs1 rs2 s = Fail x s'"
  shows "code x \<notin> bad_code_errors"
proof (cases "decode_native (of_nat rs1)")
  case (Some f)
  with assms call_native_error [of h f rs2 "reg_or 0 rs2 (mach s)" s] show ?thesis
    by (cases "call_native h f rs2 (reg_or 0 rs2 (mach s)) s") (auto simp: op_call_nat_def)
qed (use assms in \<open>simp add: op_call_nat_def ret1_def\<close>)

lemma flow_op_errors:
  "op_div a b c vm = Fail x vm' \<Longrightarrow> code x \<notin> bad_code_errors"
  "op_mod a b c vm = Fail x vm' \<Longrightarrow> code x \<notin> bad_code_errors"
  "op_arr_load a b c vm = Fail x vm' \<Longrightarrow> code x \<notin> bad_code_errors"
  "op_arr_store a b c vm = Fail x vm' \<Longrightarrow> code x \<notin> bad_code_errors"
  "op_struct_load a b c vm = Fail x vm' \<Longrightarrow> code x \<notin> bad_code_errors"
  "op_struct_store a b c vm = Fail x vm' \<Longrightarrow> code x \<notin> bad_code_errors"
  "op_tbl_load a b c vm = Fail x vm' \<Longrightarrow> code x \<notin> bad_code_errors"
  "op_assert a vm = Fail x vm' \<Longrightarrow> code x \<notin> bad_code_errors"
  "op_call i vm = Fail x vm' \<Longrightarrow> code x \<notin> bad_code_errors"
  "op_ret vm = Fail x vm' \<Longrightarrow> code x \<notin> bad_code_errors"
  by (auto simp: op_div_def op_mod_def op_arr_load_def op_arr_store_def op_struct_load_def op_struct_store_def
      op_tbl_load_def op_assert_def op_call_def op_ret_def bad_code_errors_def Let_def split: if_splits option.splits)

lemma on_flow_Fail: "on_flow f s = Fail x s' \<Longrightarrow> \<exists>vm'. f (mach s) = Fail x vm'"
  by (simp add: on_flow_def split: flow.splits)

lemma exec_op_error:
  assumes "exec_op h op a b c i s = Fail x s'" and "op \<noteq> PX64_OP_LDC"
  shows "code x \<notin> bad_code_errors"
  using assms
  by (cases op) (auto simp: exec_op_def on_vm_def dest!: on_flow_Fail dest: flow_op_errors call_nat_error)

lemma run_inv_error:
  assumes c: "comp_ok e c" and i: "run_inv c (mach s)" and r: "running (mach s)" and st: "vm_step h s = Fail x s'"
  shows "code x \<notin> bad_code_errors"
proof -
  have f: "fetchable (mach s)" using r by (simp add: running_def)
  let ?b = "\<lambda>k. vm_code (mach s) ! (ip (mach s) + k)"
  obtain op where op: "?b 0 = op_code op"
    and ins: "instr_ok (length (c_code c)) (length (c_const_pool c)) (c_arrays c) (struct_insts c) op (?b 1) (?b 2) (?b 3)"
    using fetched [OF c i f] by auto
  have ex: "exec_op h op (unat (?b 1)) (unat (?b 2)) (unat (?b 3)) (from_be [?b 2, ?b 3]) (s\<lparr>mach := tick (mach s)\<rparr>) = Fail x s'"
    using st op by (simp add: vm_step_def Let_def)
  have "op \<noteq> PX64_OP_LDC"
  proof
    assume "op = PX64_OP_LDC"
    moreover from this ins have "unat (from_be [?b 2, ?b 3] :: u16) < length (c_const_pool c)"
      by (simp add: instr_ok_def imm16_of_def)
    ultimately show False using ex i by (simp add: exec_op_def on_flow_def op_ldc_def run_inv_def tick_def)
  qed
  with exec_op_error [OF ex] show ?thesis .
qed

lemma run_inv_safe:
  assumes "run_with_output h s = Some r" and "comp_ok e c" and "no_vram_calls (c_code c)" and "run_inv c (mach s)"
  shows "r \<noteq> Panicked \<and> (\<forall>x s'. r = Failed x s' \<longrightarrow> code x \<notin> bad_code_errors)"
  using assms
proof (induction rule: run_induct)
  case (stopped s)
  then show ?case by (simp add: wcet_exceeded_def bad_code_errors_def)
next
  case (continue s s' r)
  then show ?case using run_inv_step by blast
next
  case (fail s s' x)
  then show ?case using run_inv_error by blast
next
  case (crash s)
  then show ?case using run_inv_no_crash by blast
qed simp

lemma run_inv_new: "run_inv c (vm_new (c_code c) pool (c_const_pool c) args)"
  by (simp add: run_inv_def) (simp add: vm_new_def)

end
