(* ===== verification/CompProps.thy ===== *)
theory CompProps
  imports CompileInv CompRun LexerProps VmProps
begin

text \<open>
  What the compiler promises: it returns for every source, its panics, the code it writes, and that
  the machine executes this code without a panic.
\<close>

section \<open>From the source to the first state\<close>

lemma tokens_between_in:
  "tokens_between checked src lo ts hi \<Longrightarrow> t \<in> set ts \<Longrightarrow> tok_start t + tok_len t \<le> hi"
proof (induction ts arbitrary: lo)
  case (Cons a ts)
  have "tokens_between checked src i ts hi \<Longrightarrow> i \<le> hi" for i by (induction ts arbitrary: i) force+
  with Cons show ?case by auto
qed simp

lemma tokenize_in_source:
  assumes "tokenize checked src buffer = Ok (m, toks)"
  shows "\<forall>t \<in> set (take (m + 1) toks). tok_start t + tok_len t \<le> length src"
    and "length (take (m + 1) toks) \<le> length buffer"
proof -
  note s = tokenize_spec [OF assms]
  then have "take (m + 1) toks = take m toks @ [mk_token src TkEof (length src) (length src)]"
    by (simp add: take_Suc_conv_app_nth)
  with s show "\<forall>t \<in> set (take (m + 1) toks). tok_start t + tok_len t \<le> length src"
    by (auto dest: tokens_between_in)
  show "length (take (m + 1) toks) \<le> length buffer" using s by simp
qed

lemma comp_ok_new: "env_ok e \<Longrightarrow> comp_ok e (Compiler_new (env_src e) (env_toks e))"
  by (simp add: comp_ok_def Compiler_new_def code_ok_def arrays_ok_def structs_ok_def vars_ok_def fns_ok_def)

lemma compile_result:
  assumes "env_ok e" and "checked \<Longrightarrow> may_panic e" and "enough_fuel (env_toks e) \<le> n"
  shows "result_ok e (\<lambda>_. (0, tokens e + 1, [])) (compile n checked (Compiler_new (env_src e) (env_toks e)))"
proof (rule W_D [OF W_compile [OF assms(2,3)]])
  have "rem (Compiler_new (env_src e) (env_toks e)) < tokens e + 1"
    by (simp add: rem_def tokens_def Compiler_new_def)
  then show "holds_in e (0, tokens e + 1, []) (Compiler_new (env_src e) (env_toks e))"
    using comp_ok_new [OF assms(1)] by simp
qed

lemma compile_source_result:
  assumes "enough_fuel buffer \<le> n"
    and p: "\<not> p \<Longrightarrow> \<not> checked \<and> (\<forall>m toks. tokenize checked src buffer = Ok (m, toks) \<longrightarrow>
      (\<forall>t \<in> set (take (m + 1) toks). kind t \<noteq> TkDirective AtPoolSize))"
  obtains d where "compile_source n checked src buffer = Some (Err d)"
  | "compile_source n checked src buffer = Some Panic" "p"
  | c e where "compile_source n checked src buffer = Some (Ok c)" "comp_ok e c"
proof (cases "tokenize checked src buffer")
  case (Ok x)
  then obtain m toks where t: "tokenize checked src buffer = Ok (m, toks)" by (cases x) simp
  define e where "e = \<lparr>may_panic = p, env_src = src, env_toks = take (m + 1) toks\<rparr>"
  have "env_ok e" using tokenize_in_source(1) [OF t] p t by (auto simp: env_ok_def in_env_def e_def)
  moreover have "enough_fuel (env_toks e) \<le> n"
    using tokenize_in_source(2) [OF t] assms(1) by (simp add: enough_fuel_def e_def)
  ultimately have "result_ok e (\<lambda>_. (0, tokens e + 1, [])) (compile n checked (Compiler_new (env_src e) (env_toks e)))"
    using p by (intro compile_result) (auto simp: e_def)
  then have "result_ok e (\<lambda>_. (0, tokens e + 1, [])) (compile n checked (Compiler_new src (take (m + 1) toks)))"
    by (simp add: e_def)
  then show thesis
    using that t by (cases "(e, \<lambda>_ :: nat. (0, tokens e + 1, []) :: asrt, compile n checked (Compiler_new src (take (m + 1) toks)))"
      rule: result_ok.cases) (auto simp: compile_source_def e_def)
next
  case (Err x)
  then show thesis using that by (simp add: compile_source_def)
next
  case Panic
  then have "checked"
    using tokenize_loop_total [of src buffer 0 "\<lparr>pos = 0, line = 1\<rparr>"]
    by (cases checked) (auto simp del: not_None_eq simp: tokenize_def Let_def split: if_splits option.splits)
  with Panic p show thesis using that by (simp add: compile_source_def) blast
qed

text \<open>A small program: \<^verbatim>\<open>let a = 1;\<close>\<close>

definition small_src :: "u8 list" where
  "small_src = bytes ''let a = 1;''"

lemma small_compiles:
  obtains c where "compile_source 600 False small_src (replicate 8 empty_token) = Some (Ok c)"
    and "c_code c = [1, 1, 0, 1, 22, 0, 0, 0]"
proof -
  have "case compile_source 600 False small_src (replicate 8 empty_token) of
      Some (Ok c) \<Rightarrow> c_code c = [1, 1, 0, 1, 22, 0, 0, 0] | _ \<Rightarrow> False"
    by code_simp
  then show thesis by (auto intro: that split: option.splits outcome.splits)
qed

section \<open>The compiler returns\<close>

text \<open>
  C6: the compiler returns for every source and every token buffer, with or without overflow
  checks: no loop over tokens and no recursion of its parsers runs forever. The recursion is
  at most 37 times as deep as the buffer has entries.
\<close>

theorem compile_returns:
  assumes "37 * length buffer + 80 \<le> n"
  shows "\<exists>r. compile_source n checked src buffer = Some r"
  by (rule compile_source_result [of buffer n True checked src]) (use assms in \<open>auto simp: enough_fuel_def\<close>)

theorem compile_returns_witness:
  "\<exists>r. compile_source 1000 True (bytes ''let $a = (1'') (replicate 9 empty_token) = Some r"
  by (rule compile_returns) simp

text \<open>
  C7: a build without overflow checks compiles every source that does not change the
  compiler's pool sizes without a panic: the result is code or a diagnostic.
\<close>

theorem compile_no_panic:
  assumes "37 * length buffer + 80 \<le> n"
    and "\<And>m toks t. tokenize False src buffer = Ok (m, toks) \<Longrightarrow> t \<in> set (take m toks) \<Longrightarrow> kind t \<noteq> TkDirective AtPoolSize"
  shows "(\<exists>c. compile_source n False src buffer = Some (Ok c)) \<or> (\<exists>d. compile_source n False src buffer = Some (Err d))"
proof (rule compile_source_result [of buffer n False False src])
  show "enough_fuel buffer \<le> n" using assms(1) by (simp add: enough_fuel_def)
  have "kind t \<noteq> TkDirective AtPoolSize"
    if t: "tokenize False src buffer = Ok (m, toks)" "t \<in> set (take (m + 1) toks)" for m toks t
  proof -
    have "take (m + 1) toks = take m toks @ [mk_token src TkEof (length src) (length src)]"
      using tokenize_spec [OF t(1)] by (simp add: take_Suc_conv_app_nth)
    with t(2) assms(2) [OF t(1)] show ?thesis by auto
  qed
  then show "\<not> False \<and> (\<forall>m toks. tokenize False src buffer = Ok (m, toks) \<longrightarrow>
      (\<forall>t \<in> set (take (m + 1) toks). kind t \<noteq> TkDirective AtPoolSize))" by blast
qed auto

theorem compile_no_panic_witness:
  "(\<exists>c. compile_source 600 False small_src (replicate 8 empty_token) = Some (Ok c)) \<or>
   (\<exists>d. compile_source 600 False small_src (replicate 8 empty_token) = Some (Err d))"
proof (rule compile_no_panic)
  have "case tokenize False small_src (replicate 8 empty_token) of
      Ok (m, toks) \<Rightarrow> list_all (\<lambda>t. kind t \<noteq> TkDirective AtPoolSize) (take m toks) | _ \<Rightarrow> False" by code_simp
  then show "tokenize False small_src (replicate 8 empty_token) = Ok (m, toks) \<Longrightarrow> t \<in> set (take m toks) \<Longrightarrow>
      kind t \<noteq> TkDirective AtPoolSize" for m toks t by (simp add: list_all_iff)
qed simp

section \<open>The code\<close>

text \<open>
  C5: the code of a compiled program consists of whole instructions with valid opcodes, at most
  1024 of them; every jump and call leads to an instruction or the end of the code, every
  constant that is loaded is in the constant pool, and the pools fit the executable's.
\<close>

theorem compiled_code_valid:
  assumes "37 * length buffer + 80 \<le> n" and "compile_source n checked src buffer = Some (Ok c)"
  shows "4 dvd length (c_code c) \<and> length (c_code c) \<le> 4096 \<and>
    length (c_const_pool c) \<le> 64 \<and> length (c_str_pool c) \<le> 512 \<and>
    (\<forall>k < length (c_code c) div 4. \<exists>op.
       c_code c ! (4 * k) = op_code op \<and>
       (op \<in> {PX64_OP_JMP, PX64_OP_JZ, PX64_OP_JNZ, PX64_OP_CALL} \<longrightarrow>
          4 dvd imm16_of (c_code c ! (4 * k + 2)) (c_code c ! (4 * k + 3)) \<and>
          imm16_of (c_code c ! (4 * k + 2)) (c_code c ! (4 * k + 3)) \<le> length (c_code c)) \<and>
       (op = PX64_OP_LDC \<longrightarrow> imm16_of (c_code c ! (4 * k + 2)) (c_code c ! (4 * k + 3)) < length (c_const_pool c)))"
proof -
  obtain e where e: "comp_ok e c"
    by (rule compile_source_result [of buffer n True checked src]) (use assms in \<open>auto simp: enough_fuel_def\<close>)
  then have ok: "code_ok (c_code c) (length (c_const_pool c)) (c_arrays c) (struct_insts c)" by (simp add: comp_ok_def)
  have ex: "\<exists>op. c_code c ! (4 * k) = op_code op \<and>
      instr_ok (length (c_code c)) (length (c_const_pool c)) (c_arrays c) (struct_insts c) op
        (c_code c ! (4 * k + 1)) (c_code c ! (4 * k + 2)) (c_code c ! (4 * k + 3))" if "k < length (c_code c) div 4" for k
  proof -
    have "4 * k < length (c_code c)" using that by simp
    then show ?thesis using ok unfolding code_ok_def by (meson dvd_triv_left)
  qed
  have "4 dvd length (c_code c)" "length (c_code c) \<le> 4096" "length (c_const_pool c) \<le> 64" "length (c_str_pool c) \<le> 512"
    using ok e by (simp_all add: code_ok_def comp_ok_def)
  moreover have "instr_ok len k arrs insts op rd rs1 rs2 \<Longrightarrow>
      (op \<in> {PX64_OP_JMP, PX64_OP_JZ, PX64_OP_JNZ, PX64_OP_CALL} \<longrightarrow> 4 dvd imm16_of rs1 rs2 \<and> imm16_of rs1 rs2 \<le> len) \<and>
      (op = PX64_OP_LDC \<longrightarrow> imm16_of rs1 rs2 < k)" for len k arrs insts op rd rs1 rs2
    unfolding instr_ok_def jumps_def by blast
  ultimately show ?thesis using ex by blast
qed

theorem compiled_code_valid_witness:
  "\<exists>c. compile_source 600 False small_src (replicate 8 empty_token) = Some (Ok c) \<and>
     4 dvd length (c_code c) \<and> (\<exists>op. c_code c ! 4 = op_code op)"
proof -
  obtain c where c: "compile_source 600 False small_src (replicate 8 empty_token) = Some (Ok c)"
    "c_code c = [1, 1, 0, 1, 22, 0, 0, 0]" by (rule small_compiles)
  have "37 * length (replicate 8 empty_token) + 80 \<le> 600" by simp
  note v = compiled_code_valid [OF this c(1)]
  then have "\<forall>k < length (c_code c) div 4. \<exists>op. c_code c ! (4 * k) = op_code op" by blast
  moreover have "1 < length (c_code c) div 4" using c(2) by simp
  ultimately have "\<exists>op. c_code c ! (4 * 1) = op_code op" by blast
  with v c(1) show ?thesis by auto
qed



text \<open>
  The exception is real: \<^verbatim>\<open>$x := @vram_read(0, 0 - 1);\<close> compiles, and its run panics on every host
  (\<open>VmProps.negative_vram_offset_panics\<close> has the code).
\<close>

theorem compiled_vram_access_panics:
  "\<exists>c. compile_source 700 False (bytes ''$x:=@vram_read(0,0-1);'') (replicate 14 empty_token) = Some (Ok c) \<and>
     run_with_output h (vm_start (vm_new (c_code c) (c_str_pool c) (c_const_pool c) args) w) = Some Panicked"
proof -
  have "case compile_source 700 False (bytes ''$x:=@vram_read(0,0-1);'') (replicate 14 empty_token) of
      Some (Ok c) \<Rightarrow> c_code c = [1, 15, 0, 0, 23, 14, 0, 0, 18, 1, 28, 15, 22, 0, 0, 0] \<and> c_const_pool c = [- 1] | _ \<Rightarrow> False"
    by code_simp
  then show ?thesis
    using negative_vram_offset_panics by (auto split: option.splits outcome.splits)
qed

section \<open>An expression is computed in the variable it is assigned to\<close>

text \<open>
  \<^verbatim>\<open>$a := 1; $a := $b - $a;\<close> with \<^verbatim>\<open>$b\<close> in register 2: the first operand is
  loaded into the register of \<^verbatim>\<open>$a\<close> before the second operand is read from it.
\<close>

theorem assigned_operand_lost:
  "\<exists>c. compile_source 530 False (bytes ''$a:=1;$a:=$b-$a;'') (replicate 12 empty_token) = Some (Ok c) \<and>
     c_code c =
       [op_code PX64_OP_MOV_IMM, 1, 0, 1, op_code PX64_OP_MOV_REG, 1, 2, 0, op_code PX64_OP_MOV_REG, 15, 1, 0,
        op_code PX64_OP_SUB, 1, 1, 15, op_code PX64_OP_HALT, 0, 0, 0]"
  "length (regs vm) = 20 \<Longrightarrow> regs (op_sub 1 1 15 (op_mov_reg 15 1 (op_mov_reg 1 2 vm))) ! 1 = 0"
proof -
  have "case compile_source 530 False (bytes ''$a:=1;$a:=$b-$a;'') (replicate 12 empty_token) of
      Some (Ok c) \<Rightarrow> c_code c = [1, 1, 0, 1, 2, 1, 2, 0, 2, 15, 1, 0, 5, 1, 1, 15, 22, 0, 0, 0] | _ \<Rightarrow> False"
    by code_simp
  then show "\<exists>c. compile_source 530 False (bytes ''$a:=1;$a:=$b-$a;'') (replicate 12 empty_token) = Some (Ok c) \<and>
     c_code c =
       [op_code PX64_OP_MOV_IMM, 1, 0, 1, op_code PX64_OP_MOV_REG, 1, 2, 0, op_code PX64_OP_MOV_REG, 15, 1, 0,
        op_code PX64_OP_SUB, 1, 1, 15, op_code PX64_OP_HALT, 0, 0, 0]"
    by (auto split: option.splits outcome.splits)
qed (simp add: op_sub_def alu3_def op_mov_reg_def set_reg_def)

end
