(* ===== verification/KernelCompile.thy ===== *)
theory KernelCompile
  imports KernelLang CompProps
begin

text \<open>
  Sources in the kernel: the lexer and the compiler of the core library on the kernel's static
  token array (\<^verbatim>\<open>run_pulse_script\<close> of \<^verbatim>\<open>kernel/src/lang.rs\<close>), and running a source against running the
  binary that is written of it.
\<close>

section \<open>The compiler on the whole token array\<close>

text \<open>An error of the compiler as the runtime's error, without its texts.\<close>

definition error_of :: "Diagnostic \<Rightarrow> CompileError" where
  "error_of d =
     \<lparr>code = d_code d, message = '''', err_line = d_line d, err_col = d_col d, byte_offset = d_offset d,
      token_kind = d_kind d, token_len = d_len d, expected = '''', stage = '''', suggestion = ''''\<rparr>"

text \<open>
  All \<open>size\<close> tokens of the array are given to the compiler, also those after the end marker;
  \<open>n\<close> is the compiler's fuel, and a compiler without fuel is counted as a panic.
\<close>

definition kernel_compile :: "nat \<Rightarrow> nat \<Rightarrow> bool \<Rightarrow> u8 list \<Rightarrow> (CompileError, u8 list \<times> u8 list \<times> i64 list) outcome" where
  "kernel_compile n size_n checked src =
     (case tokenize checked src (replicate size_n empty_token) of
        Err e \<Rightarrow> Err e
      | Panic \<Rightarrow> Panic
      | Ok (tok_count, toks) \<Rightarrow>
          (case compile n checked (Compiler_new src toks) of
             Some (Ok (code_n, c)) \<Rightarrow> Ok (take code_n (c_code c), c_str_pool c, c_const_pool c)
           | Some (Err d) \<Rightarrow> Err (error_of d)
           | Some Panic \<Rightarrow> Panic
           | None \<Rightarrow> Panic))"

lemma tokenize_loop_in_source:
  assumes "tokenize_loop checked src toks cnt c = Some (toks', cnt', c')" and "pos c \<le> length src"
    and "\<forall>t \<in> set toks. tok_start t + tok_len t \<le> length src"
  shows "\<forall>t \<in> set toks'. tok_start t + tok_len t \<le> length src"
  using assms
proof (induction checked src toks cnt c rule: tokenize_loop.induct)
  case (1 checked src toks cnt c)
  let ?c1 = "skip_whitespace_and_comments src c"
  show ?case
  proof (cases "pos c < length src \<and> cnt + 1 < length toks \<and> pos ?c1 < length src")
    case False
    with 1(3-) show ?thesis by (subst (asm) tokenize_loop.simps) (auto simp: Let_def split: if_splits)
  next
    case True
    have adv: "advances src (pos ?c1) (lex_token checked src ?c1)" using True by (intro lex_token_advances) simp
    show ?thesis
    proof (cases "lex_token checked src ?c1")
      case (Lexed k c2)
      let ?t = "mk_token src k (pos ?c1) (pos c2)"
      have p2: "pos ?c1 < pos c2" "pos c2 \<le> length src" using adv Lexed by (simp_all add: advances_def)
      then have "\<forall>t \<in> set (toks[cnt := ?t]). tok_start t + tok_len t \<le> length src"
        using 1(5) by (auto dest!: subsetD [OF set_update_subset_insert])
      moreover have "tokenize_loop checked src (toks[cnt := ?t]) (cnt + 1) c2 = Some (toks', cnt', c')"
        using 1(3) True Lexed by (subst (asm) tokenize_loop.simps) (simp add: Let_def)
      ultimately show ?thesis using 1(1) [OF _ refl _ Lexed] True p2 by simp
    next
      case (Skipped c2)
      then have "tokenize_loop checked src toks cnt c2 = Some (toks', cnt', c')"
        using 1(3) True by (subst (asm) tokenize_loop.simps) (simp add: Let_def)
      then show ?thesis using 1(2) [OF _ refl _ Skipped] 1(5) True adv Skipped by (simp add: advances_def)
    next
      case Overflow
      then show ?thesis using 1(3) True by (subst (asm) tokenize_loop.simps) (simp add: Let_def)
    qed
  qed
qed

lemma tokenize_array_in_source:
  assumes "tokenize checked src (replicate size_n empty_token) = Ok (m, toks)"
  shows "\<forall>t \<in> set toks. tok_start t + tok_len t \<le> length src" "length toks = size_n"
proof -
  from assms obtain toks1 c where
    l: "tokenize_loop checked src (replicate size_n empty_token) 0 \<lparr>pos = 0, line = 1\<rparr> = Some (toks1, m, c)"
    and t: "toks = toks1[m := mk_token src TkEof (pos (skip_whitespace_and_comments src c))
      (pos (skip_whitespace_and_comments src c))]" "size_n \<noteq> 0"
    by (auto simp: tokenize_def Let_def split: if_splits option.splits)
  have "\<forall>t \<in> set toks1. tok_start t + tok_len t \<le> length src"
    by (rule tokenize_loop_in_source [OF l]) (simp_all add: empty_token_def)
  moreover have "pos c \<le> length src" using tokenize_loop_spec [OF l] t(2) by simp
  then have "pos (skip_whitespace_and_comments src c) \<le> length src" using skip_pos by blast
  ultimately show "\<forall>t \<in> set toks. tok_start t + tok_len t \<le> length src"
    using t(1) by (auto dest!: subsetD [OF set_update_subset_insert])
  show "length toks = size_n" using tokenize_spec [OF assms] by simp
qed

lemma compile_code_len: "compile n checked c = Some (Ok (code_n, c')) \<Longrightarrow> code_n = code_len c'"
  by (auto simp: compile_def thenc_def seqc_def look_def split: option.splits outcome.splits)

lemma kernel_compile_ok:
  assumes "37 * size_n + 80 \<le> n" and "kernel_compile n size_n checked src = Ok (prog, pool, consts_k)"
  obtains e c where "comp_ok e c" "prog = c_code c" "pool = c_str_pool c" "consts_k = c_const_pool c"
proof -
  from assms(2) obtain m toks code_n c where t: "tokenize checked src (replicate size_n empty_token) = Ok (m, toks)"
    and c: "compile n checked (Compiler_new src toks) = Some (Ok (code_n, c))"
      "prog = take code_n (c_code c)" "pool = c_str_pool c" "consts_k = c_const_pool c"
    by (auto simp: kernel_compile_def split: outcome.splits option.splits)
  define e where "e = \<lparr>may_panic = True, env_src = src, env_toks = toks\<rparr>"
  have "env_ok e" using tokenize_array_in_source(1) [OF t] by (simp add: env_ok_def in_env_def e_def)
  moreover have "enough_fuel (env_toks e) \<le> n"
    using tokenize_array_in_source(2) [OF t] assms(1) by (simp add: enough_fuel_def e_def)
  ultimately have "result_ok e (\<lambda>_. (0, tokens e + 1, [])) (compile n checked (Compiler_new (env_src e) (env_toks e)))"
    by (intro compile_result) (simp_all add: e_def)
  with c(1) have "comp_ok e c" by (simp add: e_def)
  moreover have "prog = c_code c" using compile_code_len [OF c(1)] c(2) by simp
  ultimately show thesis using that c(3,4) by blast
qed

text \<open>
  C12: a source runs in the kernel as the binary written of it does. When the kernel's compiler
  accepts a source, its code, strings and constants fit a binary of 5136 bytes; the kernel
  recognizes this binary, and running the binary, like running the source, is running the
  kernel's machine on the compiled code.
\<close>

theorem kernel_source_as_binary:
  assumes "37 * size_n + 80 \<le> n" and c: "kernel_compile n size_n checked src = Ok (prog, pool, consts_k)"
    and src: "take 4 src \<noteq> PX64_BIN_MAGIC" and buf: "5136 \<le> length buf"
  shows "run_pulse_auto e (kernel_compile n size_n checked) src st = k_result (k_run e (kvm_new prog pool consts_k) st) \<and>
    (\<exists>m bin. write_binary prog pool consts_k buf = Ok (m, bin) \<and>
       run_pulse_auto e (kernel_compile n size_n checked) (take m bin) st = k_result (k_run e (kvm_new prog pool consts_k) st))"
proof
  show "run_pulse_auto e (kernel_compile n size_n checked) src st = k_result (k_run e (kvm_new prog pool consts_k) st)"
    using c src by (simp add: run_pulse_auto_def run_pulse_script_def magics_equal)
  obtain env c' where "comp_ok env c'" "prog = c_code c'" "pool = c_str_pool c'" "consts_k = c_const_pool c'"
    by (rule kernel_compile_ok [OF assms(1) c])
  then have l: "length prog \<le> 4096" "length pool \<le> 512" "length consts_k \<le> 64"
    by (simp_all add: comp_ok_def code_ok_def)
  then have "16 + length prog + length pool + length consts_k * 8 \<le> length buf" using buf by linarith
  note w = write_binary_layout [OF this]
  show "\<exists>m bin. write_binary prog pool consts_k buf = Ok (m, bin) \<and>
       run_pulse_auto e (kernel_compile n size_n checked) (take m bin) st = k_result (k_run e (kvm_new prog pool consts_k) st)"
    using w kernel_runs_written_binary [OF w, of e "kernel_compile n size_n checked" st] l by auto
qed

theorem kernel_source_as_binary_witness:
  "\<exists>pool consts_k m bin. kernel_compile 600 8 False small_src = Ok ([1, 1, 0, 1, 22, 0, 0, 0], pool, consts_k) \<and>
     write_binary [1, 1, 0, 1, 22, 0, 0, 0] pool consts_k (replicate 5136 0) = Ok (m, bin) \<and>
     run_pulse_auto still_env (kernel_compile 600 8 False) (take m bin) fresh_statics =
     run_pulse_auto still_env (kernel_compile 600 8 False) small_src fresh_statics"
proof -
  have "case kernel_compile 600 8 False small_src of Ok (prog, pool, k) \<Rightarrow> prog = [1, 1, 0, 1, 22, 0, 0, 0] | _ \<Rightarrow> False"
    by code_simp
  then obtain pool k where c: "kernel_compile 600 8 False small_src = Ok ([1, 1, 0, 1, 22, 0, 0, 0], pool, k)"
    by (auto split: outcome.splits)
  have "take 4 small_src \<noteq> PX64_BIN_MAGIC" by code_simp
  then show ?thesis
    using kernel_source_as_binary [OF _ c, of "replicate 5136 0" still_env fresh_statics] c by fastforce
qed

end
