(* ===== verification/CompFold.thy ===== *)
theory CompFold
  imports CompExpr VmInv
begin

text \<open>
  The compiler's constant folding against the instructions of the machine.
\<close>

text \<open>The operators that are one instruction, with what the levels of the parser do with them.\<close>

definition operators :: "(TokenKind \<times> combine) list" where
  "operators =
     [(sym SymPlus, term_op), (sym SymMinus, term_op),
      (sym SymStar, factor_op), (sym SymSlash, factor_op), (sym SymPercent, factor_op)] @
     map (\<lambda>k. (k, simple_op shift_fold (\<lambda>k. if k = sym SymShl then PX64_OP_SHL else PX64_OP_SHR))) [sym SymShl, sym SymShr] @
     [(sym SymAmp, simple_op (\<lambda>k a b. a AND b) (\<lambda>k. PX64_OP_AND)),
      (sym SymCaret, simple_op (\<lambda>k a b. a XOR b) (\<lambda>k. PX64_OP_XOR)),
      (sym SymPipeSingle, simple_op (\<lambda>k a b. a OR b) (\<lambda>k. PX64_OP_OR))] @
     map (\<lambda>k. (k, simple_op comparison_fold comparison_code)) [sym SymLt, sym SymLtEq, sym SymGt, sym SymGtEq] @
     map (\<lambda>k. (k, simple_op (\<lambda>k a b. of_bool_i64 (if k = sym SymEqEq then a = b else a \<noteq> b))
       (\<lambda>k. if k = sym SymEqEq then PX64_OP_CMP_EQ else PX64_OP_CMP_NE))) [sym SymEqEq, sym SymNotEq]"

text \<open>An instruction that leaves \<open>v\<close> in its first register.\<close>

definition leaves :: "'w host \<Rightarrow> px64_op \<Rightarrow> nat \<Rightarrow> nat \<Rightarrow> u16 \<Rightarrow> 'w vm_run \<Rightarrow> i64 \<Rightarrow> bool" where
  "leaves h op d r i s v \<longleftrightarrow> exec_op h op d d r i s = Continue (s\<lparr>mach := set_reg d v (mach s)\<rparr>)"

lemma leaves_alu:
  assumes "d < PX64_NUM_REGISTERS" and "r < PX64_NUM_REGISTERS" and "a = regs (mach s) ! d" and "b = regs (mach s) ! r"
  shows "leaves h PX64_OP_ADD d r i s (a + b)" "leaves h PX64_OP_SUB d r i s (a - b)" "leaves h PX64_OP_MUL d r i s (a * b)"
    "b \<noteq> 0 \<Longrightarrow> leaves h PX64_OP_DIV d r i s (wrapping_div a b)" "b \<noteq> 0 \<Longrightarrow> leaves h PX64_OP_MOD d r i s (wrapping_rem a b)"
    "leaves h PX64_OP_AND d r i s (a AND b)" "leaves h PX64_OP_OR d r i s (a OR b)" "leaves h PX64_OP_XOR d r i s (a XOR b)"
    "leaves h (if k = sym SymShl then PX64_OP_SHL else PX64_OP_SHR) d r i s (shift_fold k a b)"
    "leaves h (comparison_code k) d r i s (comparison_fold k a b)"
    "\<not> (is_str_ref a \<and> is_str_ref b) \<Longrightarrow>
      leaves h (if k = sym SymEqEq then PX64_OP_CMP_EQ else PX64_OP_CMP_NE) d r i s
        (of_bool_i64 (if k = sym SymEqEq then a = b else a \<noteq> b))"
  using assms
  by (auto simp: leaves_def exec_op_def on_vm_def on_flow_def alu_defs alu3_def op_div_def op_mod_def Let_def
      shift_fold_def comparison_fold_def comparison_code_def)

text \<open>What an operator emits for operands that are not constant, and what it folds.\<close>

lemma emitted:
  assumes "fold_or f (emit op dst dst r) dst r None None c = Some (Ok (x, c2))"
  shows "c_code c2 = c_code c @ [op_code op, dst, dst, r]"
  using assms by (auto simp: fold_or_def load_both_def load_const_def thenc_def seqc_def give_def emit_def emit_inst_def
      fail_c_def split: if_splits)

lemma emitted_scaled:
  assumes "fold_or f (thenc (emit op dst dst r) (set_scale None)) dst r None None c = Some (Ok (x, c2))"
  shows "c_code c2 = c_code c @ [op_code op, dst, dst, r]"
  using assms by (auto simp: fold_or_def load_both_def load_const_def thenc_def seqc_def give_def emit_def emit_inst_def
      fail_c_def set_scale_def change_def split: if_splits)

lemma folded: "fold_or (\<lambda>a b. give (g a b)) m dst r (Some a) (Some b) c = Some (Ok (Some v, c1)) \<Longrightarrow> v = g a b"
  by (simp add: fold_or_def seqc_def give_def)

lemma folded_factor:
  assumes "fold_or (fold_factor k) m dst r (Some a) (Some b) c = Some (Ok (Some v, c1))"
  shows "(k = sym SymStar \<longrightarrow> v = a * b) \<and>
    (k \<noteq> sym SymStar \<longrightarrow> b \<noteq> 0 \<and> v = (if k = sym SymSlash then wrapping_div a b else wrapping_rem a b))"
  using assms by (auto simp: fold_or_def seqc_def give_def fold_factor_def fail_c_def split: if_splits)


text \<open>\<^verbatim>\<open>7 << 70\<close> is \<^verbatim>\<open>7 << 6\<close> for both.\<close>

definition shift_state :: "unit vm_run" where
  "shift_state = vm_start (set_reg 15 70 (set_reg 1 7 (vm_new [] [] [] []))) ()"


text \<open>
  Two fixed-point constants, 1.5 and 2 with 16 fractional bits, are folded to the product of their
  representations, while the code for the same operands in registers shifts the product right by 16:
  the folded constant is too large by the factor \<open>2 ^ 16\<close>.
\<close>

theorem fixed_point_folding:
  "factor_op (sym SymStar) (Some 16) (Some 16) 1 15 (Some (3 * 2 ^ 15)) (Some (2 ^ 17)) c =
     Some (Ok (Some (3 * 2 ^ 32), c))"
  "factor_op (sym SymStar) (Some 16) (Some 16) 1 15 None None ((Compiler_new [] [])\<lparr>temp_used := 1\<rparr>) = Some (Ok (x, c2)) \<Longrightarrow>
   c_code c2 = [op_code PX64_OP_MUL, 1, 1, 15, op_code PX64_OP_MOV_IMM, 14, 0, 16, op_code PX64_OP_SHR, 1, 1, 14]"
proof -
  show "factor_op (sym SymStar) (Some 16) (Some 16) 1 15 (Some (3 * 2 ^ 15)) (Some (2 ^ 17)) c =
     Some (Ok (Some (3 * 2 ^ 32), c))"
    by (simp add: factor_op_def fold_or_def seqc_def give_def fold_factor_def)
  show "c_code c2 = [op_code PX64_OP_MUL, 1, 1, 15, op_code PX64_OP_MOV_IMM, 14, 0, 16, op_code PX64_OP_SHR, 1, 1, 14]"
    if "factor_op (sym SymStar) (Some 16) (Some 16) 1 15 None None ((Compiler_new [] [])\<lparr>temp_used := 1\<rparr>) = Some (Ok (x, c2))"
  proof -
    have "[0..<8] = [0, 1, 2, 3, 4, 5, 6, 7]" by (simp add: upt_rec)
    then have "free_temps c = [1, 2, 3, 4, 5, 6, 7]" if "temp_used c = 1" for c
      using that by (simp add: free_temps_def bit_1_iff)
    with that show ?thesis
      by (auto simp: factor_op_def emit_mul_def emit_shift_def fold_or_def load_both_def load_const_def thenc_def seqc_def
        give_def emit_def emit_imm_def emit_imm16_def emit_inst_def alloc_temp_def free_temp_def
        set_scale_def change_def fail_c_def Compiler_new_def split: if_splits list.splits)
  qed
qed

end
