(* ===== verification/Spec2Isabelle.thy ===== *)
theory Spec2Isabelle
  imports VmReplay VmProps Container LexerProps Net Latency FsProps AtaDrive Disasm Include IrProps EditorProps KernelCompile CompFold
begin

text \<open>
  LatencyOS is a small operating system for low-latency frame streaming, with its own scripting
  language PulseLang. This development models its two crates \<^verbatim>\<open>pulselang-core\<close> (the language) and
  \<^verbatim>\<open>kernel\<close> (the operating system) and proves what makes their parts correct.

  \<^bold>\<open>The parts of the system and how they interact.\<close> A PulseLang source is expanded by the include
  preprocessor, tokenized by the lexer and compiled in a single pass to px64 bytecode; the
  writer puts code, string pool and constants into an executable container. The px64 virtual machine of
  \<^verbatim>\<open>pulselang-core\<close> runs such a container on a host; the kernel has a second machine of its own
  that runs sources and binaries inside the operating system. The disassembler and the intent
  representation are read-only views of binaries and sources. In the kernel, three cores pass
  frames to each other through two lock-free ring buffers: the capture core fills frame slots, the
  encode core stamps them, the network core cuts them into packets, encrypts them and hands them
  to the network card. The control core runs a shell on the serial console with a RAM file
  system, which writes through to a FAT16 export disk, a screen editor, and a latency profiler.

  \<^bold>\<open>The language\<close> (\<^verbatim>\<open>src/pulselang-core/src\<close>).
  \<^item> \<open>Isa\<close>: opcodes, natives, limits and tags (\<^verbatim>\<open>isa.rs\<close>). \<open>Token\<close>: tokens, positions and the
    error record (\<^verbatim>\<open>token.rs\<close>, \<^verbatim>\<open>error.rs\<close>). \<open>Crc32\<close>: the checksum, equal to its bitwise definition.
  \<^item> \<open>Lexer\<close>, \<open>LexerProps\<close>: the tokenizer (\<^verbatim>\<open>lexer.rs\<close>): the tokens are the lexemes of the source in order,
    a buffer larger than the source always suffices.
  \<^item> \<open>CompState\<close> (state, emission, temporaries, pools, lookups), \<open>CompDecl\<close> (arrays, structs, enums,
    tables), \<open>CompExpr\<close> and \<open>CompPrim\<close> (expressions, views, combinators, calls), \<open>CompStmt\<close>
    (one definition per statement) and \<open>Compile\<close> (match, functions, the recursion, the entry points):
    the compiler (\<^verbatim>\<open>compiler.rs\<close>, and the functions of \<^verbatim>\<open>lib.rs\<close> that call it). The state is the
    record \<open>Compiler\<close>; an action \<open>'a comp\<close> returns a value with the new state, a diagnostic or a panic.
    The parsers that call each other in a cycle (\<^verbatim>\<open>primary\<close>, \<^verbatim>\<open>ternary\<close>, \<^verbatim>\<open>expression\<close>, \<^verbatim>\<open>statement\<close>)
    take one another as arguments and are tied together in \<open>Compile\<close>.
  \<^item> \<open>CompLogic\<close>, \<open>CompRules\<close>: the invariant \<open>comp_ok\<close> and a logic of triples over compiling actions;
    \<open>CompInv\<close>, \<open>CompDeclInv\<close>, \<open>CompStmtInv\<close>, \<open>CompileInv\<close>: every action satisfies its triple. \<open>CompRun\<close>:
    the machine on code that satisfies the invariant. \<open>CompProps\<close>: the compiler returns,
    does not panic without overflow checks and pool sizes, writes valid code, and the machine runs this code without a
    panic. \<open>CompFold\<close>: constant folding agrees with the instructions.
  \<^item> \<open>VmState\<close>, \<open>VmOps\<close>, \<open>VmNative\<close>, \<open>VmRun\<close>: the px64 machine (\<^verbatim>\<open>vm.rs\<close>), one definition per instruction
    and native; the host (clock, console, files) is the parameter \<open>host\<close>. \<open>VmInv\<close>: invariant and
    watchdog; \<open>VmSafety\<close>, \<open>VmMemory\<close>, \<open>VmProps\<close>: a static check that rules out panics, calls that
    return, arrays and structs as stores; \<open>VmReplay\<close>: deterministic replay.
  \<^item> \<open>Container\<close>: writer, loader and test runner (\<^verbatim>\<open>lib.rs\<close>, \<^verbatim>\<open>vm.rs\<close>); \<open>Disasm\<close> (\<^verbatim>\<open>disasm.rs\<close>); \<open>Include\<close>
    (\<^verbatim>\<open>include.rs\<close>); \<open>Ir\<close>, \<open>IrProps\<close> (\<^verbatim>\<open>ir.rs\<close>).

  \<^bold>\<open>The kernel\<close> (\<^verbatim>\<open>src/kernel/src\<close>).
  \<^item> \<open>Fifo\<close> and \<open>Store\<close> are the contracts of a bounded queue and of a keyed store, as locales; they are
    interpreted on the ring buffer, the receive buffer of the console, the arrays and
    structs of the machine, the samples of the profiler and the entries of the file system.
  \<^item> \<open>RingBuffer\<close> (\<^verbatim>\<open>ring_buffer.rs\<close>): the operations refine a queue, and under every interleaving of
    the memory accesses of two cores the order is kept and no slot is accessed by both.
  \<^item> \<open>Ports\<close> (\<^verbatim>\<open>tsc.rs\<close> and port access), \<open>Pipeline\<close> (\<^verbatim>\<open>gpu.rs\<close>, the loops of \<^verbatim>\<open>smp.rs\<close>), \<open>Crypto\<close> (\<^verbatim>\<open>crypto.rs\<close>),
    \<open>E1000\<close> (\<^verbatim>\<open>e1000.rs\<close>), \<open>Net\<close> (\<^verbatim>\<open>net.rs\<close>): the path of a frame from capture to the packets in the
    transmit ring, and the congestion control.
  \<^item> \<open>Serial\<close> (\<^verbatim>\<open>serial.rs\<close>): the console, with the locale \<open>uart\<close> for the card, and the print lock.
  \<^item> \<open>KernelVm\<close>, \<open>KernelRun\<close> (\<^verbatim>\<open>PX64VM\<close> of \<^verbatim>\<open>lang.rs\<close>), \<open>KernelProps\<close> (it ends as the core library's machine does),
    \<open>KernelLang\<close> (the old stack machine and the loader), \<open>KernelCompile\<close> (sources; a source runs
    as the binary written of it).
  \<^item> \<open>Paths\<close>, \<open>Vfs\<close>, \<open>Fs\<close>, \<open>FsProps\<close> (\<^verbatim>\<open>fs.rs\<close>, \<^verbatim>\<open>vfs.rs\<close>), \<open>Disk\<close>, \<open>Fat\<close>, \<open>AtaDrive\<close> (\<^verbatim>\<open>export_disk.rs\<close>, with the
    locale \<open>block_device\<close> for a drive that stores its sectors), \<open>Editor\<close>, \<open>EditorProps\<close> (\<^verbatim>\<open>editor.rs\<close>),
    \<open>Latency\<close> (\<^verbatim>\<open>latency.rs\<close>). The write-through from file system to disk is proved below.

  \<^bold>\<open>Conventions.\<close> Machine integers are words of their width (\<open>u8\<close>, \<open>u16\<close>, \<open>u64\<close>, \<open>i64\<close>); \<^verbatim>\<open>usize\<close> is a natural
    number where no operation on it wraps. A Rust panic is the value \<open>Panic\<close> (\<open>Crash\<close>, \<open>None\<close> or \<open>Panicked\<close> where
    the result has other cases); unchecked arithmetic takes a flag \<open>checked\<close>: it panics in a
    build with overflow checks and wraps in one without. Code outside the repository (\<^verbatim>\<open>rdtsc\<close>,
    ports, card registers, host console and files, the include resolver) is a parameter.

  \<^bold>\<open>Bounds and fuel.\<close> Loops that may run forever are partial functions whose value \<open>None\<close> is such a run
  (the machine's loop, the polling loops of console and busy wait); that they return is proved where
  it is claimed. Loops with a limit in the code take it as it is (100000 polls of the drive,
  10000 instructions in the machine, eight include levels). Deleting follows at most 65536
  clusters, which is proved to be enough since every cluster it leaves is marked free. The compiler takes the depth of its
  recursion and the rounds of its loops as fuel; \<open>37 * n + 80\<close> for a buffer of \<open>n\<close> tokens is proved to be
  enough, since a nested parser has consumed a token or taken one of eight
  temporaries.

  \<^bold>\<open>Not modelled.\<close> The texts of diagnostics and their rendering (\<^verbatim>\<open>error.rs\<close>); of the compiler's errors the code
  and position are kept. The formatter and the language server (\<^verbatim>\<open>fmt.rs\<close>, \<^verbatim>\<open>lsp.rs\<close>), which serve editing and take
  no part in running programs. \<^verbatim>\<open>compile_pulse_tests\<close> of \<^verbatim>\<open>lib.rs\<close>. The kernel shell (\<^verbatim>\<open>shell.rs\<close>) but for the change of directory: a
  dispatcher that prints. The contents that \<^verbatim>\<open>fs_init\<close> puts into the file system, the bytes the editor draws, the
  benchmark of \<^verbatim>\<open>lang.rs\<close> and the thermal report of \<^verbatim>\<open>latency.rs\<close>. Boot, interrupt controller, PCI and power states, which
  only program registers. The host tools \<^verbatim>\<open>pulc\<close> and \<^verbatim>\<open>xtask\<close>: command lines, processes and files.
\<close>

section \<open>From the RAM file system to the export disk\<close>

lemma guarded_sync_yields:
  assumes "yields (holds ready sec loc True S) (op (sync_name q)) n (holds ready sec loc True S')" and "sync_name q \<noteq> []"
  shows "yields (holds ready sec loc False S) (guarded_sync q op) () (holds ready sec loc False S')"
  unfolding yields_def
proof (intro allI impI)
  fix d assume d: "holds ready sec loc False S d"
  then have "holds ready sec loc True S (d\<lparr>SYNC_MUTEX_FLAG := True\<rparr>)" by (simp add: holds_def)
  with assms(1) obtain d' where d': "op (sync_name q) (d\<lparr>SYNC_MUTEX_FLAG := True\<rparr>) = (Ok n, d')" "holds ready sec loc True S' d'"
    by (auto simp: yields_def)
  then have "guarded_sync q op d = (Ok (), d'\<lparr>SYNC_MUTEX_FLAG := False\<rparr>)"
    using d assms(2) by (simp add: guarded_sync_def holds_def)
  moreover have "holds ready sec loc False S' (d'\<lparr>SYNC_MUTEX_FLAG := False\<rparr>)" using d'(2) by (simp add: holds_def)
  ultimately show "\<exists>s'. guarded_sync q op d = (Ok (), s') \<and> holds ready sec loc False S' s'" by blast
qed

lemma small_file_clusters:
  assumes "fat_volume cap S bpb" and "length content \<le> 4096"
  shows "needed_clusters bpb content \<le> 64"
proof -
  have spc: "1 \<le> sectors_per_cluster bpb" using assms(1) parse_bpb_geometry(1) [of "S 0" bpb] by (simp add: fat_volume_def)
  let ?c = "sectors_per_cluster bpb * 512"
  have "(length content + ?c - 1) div ?c \<le> (4096 + ?c - 1) div ?c" using assms(2) by (intro div_le_mono) simp
  also have "\<dots> \<le> 64"
  proof (rule less_Suc_eq_le [THEN iffD1], rule div_less_iff_less_mult [THEN iffD2])
    show "4096 + ?c - 1 < Suc 64 * ?c" "0 < ?c" using spc by (simp_all add: algebra_simps)
  qed
  finally show ?thesis by (simp add: needed_clusters_def Let_def)
qed


text \<open>An error of the write-through is dropped: the write is accepted all the same.\<close>

theorem write_error_ignored:
  assumes "fs_path s path = Ok q" and "\<not> vfs_is_vram_path path" and "synced q" and "length content \<le> 4096"
    and "fs_clock p s = (t, s1)" and "put_entry q content False t (files s) = Ok (i, fs')"
    and "export_disk_auto_sync_file checked p q content (disk s1) = (Err e, d1)"
  shows "fs_write checked p path content s = (Ok (), s1\<lparr>files := fs', disk := d1\<rparr>)"
proof -
  have "\<not> vfs_is_vram_path (trim path)" using assms(2) by (simp add: vfs_is_vram_path_def)
  then show ?thesis
    using assms fs_clock_frame(1) [OF assms(5)] by (simp add: fs_write_def fs_create_internal_def on_disk_def)
qed

definition demo_system :: "ata fs" where
  "demo_system = (LatencyFS_new (dev demo_disk))\<lparr>disk := demo_disk\<rparr>"

lemma demo_system_simps: "disk demo_system = demo_disk" "CURRENT_DIR demo_system = CURRENT_DIR (LatencyFS_new (dev demo_disk))"
  "files demo_system = files (LatencyFS_new (dev demo_disk))"
  by (simp_all add: demo_system_def)


end
